(* ===== verification/Prelude.thy ===== *)
theory Prelude
  imports Main "HOL-Library.Word" "HOL-Library.Monad_Syntax"
begin

text \<open>
  The vocabulary every component shares: the machine integers of the AVR (\<open>uint8_t\<close>,
  \<open>uint16_t\<close>, \<open>uint32_t\<close> as words of that width), the single-bit mask \<open>1 << n\<close> the register
  code writes everywhere, the byte orders, and the generic lemmas about words, iteration and
  lists that the component proofs use.  The collection \<open>hw_simps\<close> gathers the rewrite rules
  that evaluate one access to a port or a register.
\<close>

unbundle bit_operations_syntax

named_theorems hw_simps "rewrite rules that evaluate one hardware access"

type_synonym u8 = "8 word"
type_synonym u16 = "16 word"
type_synonym u32 = "32 word"

section \<open>Single-bit masks\<close>

text \<open>\<open>BV n\<close> is the C expression \<open>(1 << n)\<close> at the width of the register it is used with.\<close>

definition BV :: "nat \<Rightarrow> 'a::len word" where
  "BV n = push_bit n 1"

lemma bit_BV [simp]: "bit (BV n :: 'a::len word) m \<longleftrightarrow> m = n \<and> n < LENGTH('a)"
  by (auto simp: BV_def bit_simps)

lemma bit_set_BV [simp]:
  "bit (w OR BV n :: 'a::len word) m \<longleftrightarrow> bit w m \<or> (m = n \<and> n < LENGTH('a))"
  by (auto simp: bit_or_iff)

lemma bit_clear_BV [simp]:
  "bit (w AND NOT (BV n) :: 'a::len word) m \<longleftrightarrow> bit w m \<and> m \<noteq> n"
  by (auto simp: bit_and_iff bit_not_iff dest: bit_imp_le_length)

lemma and_BV_zero_iff: "w AND BV n = (0 :: 'a::len word) \<longleftrightarrow> \<not> bit w n"
proof
  assume "w AND BV n = 0"
  then have "\<not> bit (w AND BV n) n" by simp
  then show "\<not> bit w n" by (auto simp: bit_and_iff dest: bit_imp_le_length)
next
  assume "\<not> bit w n"
  then show "w AND BV n = 0"
    by (intro bit_word_eqI) (auto simp: bit_and_iff)
qed

section \<open>Iteration\<close>

lemma funpow_add_apply: "(f ^^ (m + n)) x = (f ^^ m) ((f ^^ n) x)"
  by (simp add: funpow_add)

lemma funpow_invariant:
  assumes "P x" and "\<And>y. P y \<Longrightarrow> P (f y)"
  shows "P ((f ^^ n) x)"
  using assms by (induction n) auto

section \<open>Words as numbers\<close>

lemma u8_less: "unat (x :: u8) < 256"
  using unsigned_less [of x] by simp

lemma u16_less: "unat (x :: u16) < 65536"
  using unsigned_less [of x] by simp

lemma unat_word_of_nat_less:
  "n < 2 ^ LENGTH('a) \<Longrightarrow> unat (word_of_nat n :: 'a::len word) = n"
  by (simp add: unsigned_of_nat take_bit_nat_eq_self)

lemma unat_Suc_lt:
  fixes w :: "'a::len word"
  assumes "Suc (unat w) < 2 ^ LENGTH('a)"
  shows "unat (w + 1) = Suc (unat w)"
  using assms by (simp add: unat_word_ariths)

lemma and_7: "x \<le> 7 \<Longrightarrow> x AND 7 = x" for x :: u8
proof -
  assume "x \<le> 7"
  then have "unat (take_bit 3 x) = unat x"
    by (simp add: unsigned_take_bit_eq take_bit_nat_eq_self_iff word_le_nat_alt)
  then have "take_bit 3 x = x" by (rule word_unat_eq_iff [THEN iffD2])
  then show ?thesis by (simp add: take_bit_eq_mask mask_eq_exp_minus_1)
qed

end
