(* ===== verification/Cpld.thy ===== *)
theory Cpld
  imports Prelude
begin

text \<open>
  The CPLD of the quickdev2 board, from the Verilog under \<open>cpld/hdl\<close>: the clock divider
  (\<open>clockdivide.v\<close>), the 21-bit address shift register with its increment (\<open>sreg.v\<close>), the
  data-bus state machine (\<open>bus.v\<close>) and the top level that wires them to the AVR pins and the
  SRAM pins (\<open>system.v\<close>).  Every clocked block is one function from the state before its
  clock edge to the state after it (the non-blocking assignments read the old state); \<open>tick\<close>
  is one period of \<open>avr_clk\<close>.  The asynchronous SRAM chip that hangs on the pins is part of the
  environment: it is the record \<open>board\<close> together with \<open>sram_drive\<close> and \<open>sram_write\<close>.

  A bus value is \<open>u8 option\<close>: \<open>Some v\<close> is a driven level and \<open>None\<close> is Verilog's \<open>z\<close> or \<open>x\<close>.
\<close>

section \<open>Clock divider (clockdivide.v)\<close>

record clockdivide =
  cd_count :: u8
  cd_out1 :: bool
  cd_out2 :: bool

definition cd_m :: "u8 \<Rightarrow> u8" where
  "cd_m n = drop_bit 1 n"

definition cd_dbn_en :: "u8 \<Rightarrow> bool" where
  "cd_dbn_en n \<longleftrightarrow> bit n 7 \<or> bit n 6 \<or> bit n 5 \<or> bit n 4 \<or> bit n 3 \<or> bit n 2 \<or> bit n 1"

text \<open>
  \<open>count == m-1\<close> and \<open>count == n-1\<close> mix an 8-bit operand with the 32-bit constant 1, so Verilog
  compares at 32 bits: with \<open>m = 0\<close> the right side is \<open>0xffffffff\<close> and the test fails.
\<close>

definition clockdivide_negedge :: "bool \<Rightarrow> bool \<Rightarrow> u8 \<Rightarrow> clockdivide \<Rightarrow> clockdivide" where
  "clockdivide_negedge reset enable n c =
     (if reset then c\<lparr>cd_out1 := False, cd_count := 0\<rparr>
      else if cd_dbn_en n \<and> enable then
        (if \<not> bit n 0 then
           (if ucast (cd_count c) = (ucast (cd_m n) :: u32) - 1
            then c\<lparr>cd_count := 0, cd_out1 := \<not> cd_out1 c\<rparr>
            else c\<lparr>cd_count := cd_count c + 1\<rparr>)
         else if ucast (cd_count c) = (ucast n :: u32) - 1
         then c\<lparr>cd_count := 0, cd_out1 := \<not> cd_out1 c\<rparr>
         else c\<lparr>cd_count := cd_count c + 1\<rparr>)
      else c)"

definition clockdivide_posedge :: "bool \<Rightarrow> bool \<Rightarrow> u8 \<Rightarrow> clockdivide \<Rightarrow> clockdivide" where
  "clockdivide_posedge reset enable n c =
     (if reset then c\<lparr>cd_out2 := False\<rparr>
      else if cd_count c = cd_m n \<and> enable then c\<lparr>cd_out2 := cd_out1 c\<rparr>
      else c)"

definition clockdivide_out :: "bool \<Rightarrow> bool \<Rightarrow> u8 \<Rightarrow> clockdivide \<Rightarrow> bool" where
  "clockdivide_out clk enable n c =
     (if enable then
        (if \<not> cd_dbn_en n then clk
         else if bit n 0 then cd_out1 c \<noteq> cd_out2 c else cd_out1 c)
      else False)"

section \<open>Address shift register (sreg.v)\<close>

type_synonym saddr = "21 word"

definition sreg_posedge :: "bool \<Rightarrow> bool \<Rightarrow> bool \<Rightarrow> saddr \<Rightarrow> saddr" where
  "sreg_posedge si en_n counter_n buffer =
     (if \<not> en_n then (push_bit 1 buffer AND NOT 1) OR (if si then 1 else 0)
      else if en_n \<and> \<not> counter_n then buffer + 1
      else buffer)"

section \<open>Data-bus state machine (bus.v)\<close>

text \<open>
  The five encoded states; \<open>St_OTHER\<close> stands for the three unused codes of the 3-bit register
  (and for the unknown value before the first clock), which take the defaults of both \<open>case\<close>
  statements.
\<close>

datatype bus_state = St_IDLE | St_WE | St_BUFAVR | St_BUFSRAM | St_OE | St_OTHER

record bus_fsm =
  fsm_state :: bus_state
  buffer_avr :: "u8 option"
  buffer_sram :: "u8 option"
  fsm_buffer :: "u8 option"

fun fsm_next :: "bus_state \<Rightarrow> bool \<Rightarrow> bool \<Rightarrow> bus_state" where
  "fsm_next St_IDLE we_n oe_n =
     (if \<not> we_n then St_BUFAVR else if \<not> oe_n then St_BUFSRAM else St_IDLE)"
| "fsm_next St_BUFAVR we_n oe_n = (if \<not> we_n then St_WE else St_IDLE)"
| "fsm_next St_BUFSRAM we_n oe_n = (if \<not> oe_n then St_OE else St_IDLE)"
| "fsm_next St_OE we_n oe_n = (if \<not> oe_n then St_BUFSRAM else St_IDLE)"
| "fsm_next St_WE we_n oe_n = (if \<not> we_n then St_BUFAVR else St_IDLE)"
| "fsm_next St_OTHER we_n oe_n = St_IDLE"

fun fsm_output :: "bus_state \<Rightarrow> u8 option \<Rightarrow> u8 option \<Rightarrow> bus_fsm \<Rightarrow> bus_fsm" where
  "fsm_output St_IDLE avr sram f = f\<lparr>buffer_avr := None, buffer_sram := None, fsm_buffer := None\<rparr>"
| "fsm_output St_WE avr sram f = f\<lparr>buffer_sram := fsm_buffer f\<rparr>"
| "fsm_output St_OE avr sram f = f\<lparr>buffer_avr := fsm_buffer f\<rparr>"
| "fsm_output St_BUFSRAM avr sram f = f\<lparr>fsm_buffer := sram\<rparr>"
| "fsm_output St_BUFAVR avr sram f = f\<lparr>fsm_buffer := avr\<rparr>"
| "fsm_output St_OTHER avr sram f = f\<lparr>buffer_avr := None, buffer_sram := None\<rparr>"

text \<open>
  One \<open>posedge clk\<close>: the state register takes the next state, and the output block, which is
  sensitive to \<open>state\<close> alone, runs when the register changed.
\<close>

definition fsm_posedge ::
  "bool \<Rightarrow> bool \<Rightarrow> bool \<Rightarrow> u8 option \<Rightarrow> u8 option \<Rightarrow> bus_fsm \<Rightarrow> bus_fsm" where
  "fsm_posedge reset we_n oe_n avr sram f =
     (let s' = (if reset then St_IDLE else fsm_next (fsm_state f) we_n oe_n)
      in if s' = fsm_state f then f
         else fsm_output s' avr sram (f\<lparr>fsm_state := s'\<rparr>))"

section \<open>Top level (system.v)\<close>

text \<open>The levels of the AVR's control pins, and what the AVR drives on its data port.\<close>

record pins =
  avr_counter_n :: bool
  avr_we_n :: bool
  avr_oe_n :: bool
  avr_si :: bool
  avr_sreg_en_n :: bool
  avr_reset :: bool
  avr_data :: "u8 option"

record cpld =
  dcm0 :: clockdivide
  dcm1 :: clockdivide
  sreg0 :: saddr
  bus_fsm0 :: bus_fsm

record board = cpld +
  cells :: "saddr \<Rightarrow> u8 option"

text \<open>A net with two drivers: one of them must be \<open>z\<close>, or both must agree.\<close>

definition resolve :: "'v option \<Rightarrow> 'v option \<Rightarrow> 'v option" where
  "resolve a b = (case a of None \<Rightarrow> b | Some x \<Rightarrow>
     (case b of None \<Rightarrow> a | Some y \<Rightarrow> if x = y then a else None))"

definition sram_ce_n :: "pins \<Rightarrow> bool" where
  "sram_ce_n p = (if avr_oe_n p \<and> avr_we_n p then True else False)"

text \<open>
  The asynchronous SRAM chip: it drives its data pins while selected with output enabled and
  write disabled, and takes the level of the data net while selected with write enabled.
\<close>

definition sram_drive :: "pins \<Rightarrow> 'x board_scheme \<Rightarrow> u8 option" where
  "sram_drive p b = (if \<not> sram_ce_n p \<and> \<not> avr_oe_n p \<and> avr_we_n p then cells b (sreg0 b) else None)"

definition sram_net :: "pins \<Rightarrow> 'x board_scheme \<Rightarrow> u8 option" where
  "sram_net p b = resolve (buffer_sram (bus_fsm0 b)) (sram_drive p b)"

definition avr_net :: "pins \<Rightarrow> 'x board_scheme \<Rightarrow> u8 option" where
  "avr_net p b = resolve (avr_data p) (buffer_avr (bus_fsm0 b))"

definition sram_write :: "pins \<Rightarrow> 'x board_scheme \<Rightarrow> 'x board_scheme" where
  "sram_write p b =
     (if \<not> sram_ce_n p \<and> \<not> avr_we_n p then b\<lparr>cells := (cells b)(sreg0 b := sram_net p b)\<rparr> else b)"

text \<open>
  One period of \<open>avr_clk\<close> with the pins held at \<open>p\<close>: the rising edge reaches the second divider
  stage, the falling edge toggles the dividers, and a rising divider output clocks the shift
  register and the state machine, both reading the nets as they were before the edge.
\<close>

definition dcm_posedge :: "pins \<Rightarrow> 'x board_scheme \<Rightarrow> 'x board_scheme" where
  "dcm_posedge p b =
     b\<lparr>dcm0 := clockdivide_posedge (avr_reset p) True 2 (dcm0 b),
       dcm1 := clockdivide_posedge (avr_reset p) True 2 (dcm1 b)\<rparr>"

definition dcm_negedge :: "pins \<Rightarrow> 'x board_scheme \<Rightarrow> 'x board_scheme" where
  "dcm_negedge p b =
     b\<lparr>dcm0 := clockdivide_negedge (avr_reset p) True 2 (dcm0 b),
       dcm1 := clockdivide_negedge (avr_reset p) True 2 (dcm1 b)\<rparr>"

definition rises :: "clockdivide \<Rightarrow> clockdivide \<Rightarrow> bool" where
  "rises c c' \<longleftrightarrow> \<not> clockdivide_out False True 2 c \<and> clockdivide_out False True 2 c'"

definition clock_edges :: "pins \<Rightarrow> 'x board_scheme \<Rightarrow> 'x board_scheme \<Rightarrow> 'x board_scheme" where
  "clock_edges p old b =
     b\<lparr>sreg0 := (if rises (dcm0 old) (dcm0 b)
                 then sreg_posedge (avr_si p) (avr_sreg_en_n p) (avr_counter_n p) (sreg0 old)
                 else sreg0 old),
       bus_fsm0 := (if rises (dcm1 old) (dcm1 b)
                 then fsm_posedge (avr_reset p) (avr_we_n p) (avr_oe_n p)
                        (avr_net p old) (sram_net p old) (bus_fsm0 old)
                 else bus_fsm0 old)\<rparr>"

definition tick :: "pins \<Rightarrow> 'x board_scheme \<Rightarrow> 'x board_scheme" where
  "tick p b = (let old = dcm_posedge p b in sram_write p (clock_edges p old (dcm_negedge p old)))"

end
