(* ===== verification/Uart.thy ===== *)
theory Uart
  imports Prelude
begin

text \<open>
  The interrupt-driven UART of \<open>poc/poc_sreg/uart.c\<close> (\<open>poc/MassStorage/uart.c\<close> holds the same
  driver with a computed baud divisor).  Two ring buffers connect the main program to the two
  interrupt handlers.  The main-program functions are cut into the statements between which an
  interrupt can fire (\<open>main_step\<close>), each handler runs to its end, and \<open>uart_step\<close> is the
  interleaving of the two.  The locale \<open>ring\<close> is the contract of one buffer, proved for every
  size from 2 to 256 as the comment in the source promises, and interpreted at the two sizes of
  the code.
\<close>

section \<open>Index arithmetic of the rings\<close>

definition RX_BUFFER_SIZE :: nat where "RX_BUFFER_SIZE = 64"
definition TX_BUFFER_SIZE :: nat where "TX_BUFFER_SIZE = 40"

text \<open>
  The statement pair \<open>i = x + 1; if (i >= SIZE) i = 0;\<close> with \<open>i\<close> an \<open>uint8_t\<close>.
\<close>

definition next_index :: "nat \<Rightarrow> u8 \<Rightarrow> u8" where
  "next_index sz x = (let i = x + 1 in if unat i \<ge> sz then 0 else i)"

definition ring_len :: "nat \<Rightarrow> u8 \<Rightarrow> u8 \<Rightarrow> nat" where
  "ring_len sz tail head = (unat head + sz - unat tail) mod sz"

definition ring_list :: "nat \<Rightarrow> u8 list \<Rightarrow> u8 \<Rightarrow> u8 \<Rightarrow> u8 list" where
  "ring_list sz buf tail head =
     map (\<lambda>k. buf ! ((unat tail + 1 + k) mod sz)) [0..<ring_len sz tail head]"

locale ring =
  fixes sz :: nat
  assumes size_min: "2 \<le> sz" and size_max: "sz \<le> 256"
begin

lemma unat_next: "unat x < sz \<Longrightarrow> unat (next_index sz x) = (unat x + 1) mod sz"
  using size_min size_max u8_less [of x]
  by (auto simp: next_index_def Let_def unat_word_ariths mod_if)

lemma next_bound [intro]: "unat x < sz \<Longrightarrow> unat (next_index sz x) < sz"
  using size_min by (simp add: unat_next)

lemma next_inject: "unat x < sz \<Longrightarrow> unat y < sz \<Longrightarrow> next_index sz x = next_index sz y \<longleftrightarrow> x = y"
proof
  assume b: "unat x < sz" "unat y < sz" and eq: "next_index sz x = next_index sz y"
  then have "(unat x + 1) mod sz = (unat y + 1) mod sz" by (metis unat_next)
  with b have "unat x = unat y"
    by (cases "unat x + 1 = sz"; cases "unat y + 1 = sz") (auto simp: mod_if split: if_splits)
  then show "x = y" by (metis word_unat_eq_iff)
qed simp

lemma len_bound: "ring_len sz tail head < sz"
  using size_min by (simp add: ring_len_def)

lemma len_zero: "unat tail < sz \<Longrightarrow> unat head < sz \<Longrightarrow> ring_len sz tail head = 0 \<longleftrightarrow> head = tail"
proof -
  assume b: "unat tail < sz" "unat head < sz"
  have "ring_len sz tail head = 0 \<longleftrightarrow> unat head = unat tail"
    using b by (cases "unat head \<ge> unat tail") (auto simp: ring_len_def mod_if)
  then show ?thesis by (metis word_unat_eq_iff)
qed

lemma empty_iff: "unat tail < sz \<Longrightarrow> unat head < sz \<Longrightarrow> ring_list sz buf tail head = [] \<longleftrightarrow> head = tail"
  by (simp add: ring_list_def len_zero flip: len_zero)

lemma len_enq:
  assumes "unat tail < sz" "unat head < sz" "next_index sz head \<noteq> tail"
  shows "ring_len sz tail (next_index sz head) = Suc (ring_len sz tail head)"
proof -
  have ne: "(unat head + 1) mod sz \<noteq> unat tail"
    using assms by (metis unat_next word_unat_eq_iff)
  show ?thesis
    using assms(1,2) ne size_min
    by (cases "unat tail \<le> unat head"; cases "unat head + 1 = sz")
       (auto simp: ring_len_def unat_next mod_if split: if_splits)
qed

lemma len_deq:
  assumes "unat tail < sz" "unat head < sz" "head \<noteq> tail"
  shows "ring_len sz tail head = Suc (ring_len sz (next_index sz tail) head)"
proof -
  have ne: "unat head \<noteq> unat tail" using assms(3) by (metis word_unat_eq_iff)
  show ?thesis
    using assms(1,2) ne size_min
    by (cases "unat tail < unat head"; cases "unat tail + 1 = sz")
       (auto simp: ring_len_def unat_next mod_if split: if_splits)
qed

lemma head_index:
  assumes "unat tail < sz" "unat head < sz"
  shows "(unat tail + ring_len sz tail head) mod sz = unat head"
  using assms by (cases "unat tail \<le> unat head") (auto simp: ring_len_def mod_if)

lemma index_distinct:
  assumes "unat tail < sz" "unat head < sz" "k < ring_len sz tail head"
  shows "(unat tail + 1 + k) mod sz \<noteq> (unat head + 1) mod sz"
proof
  assume eq: "(unat tail + 1 + k) mod sz = (unat head + 1) mod sz"
  let ?n = "ring_len sz tail head"
  have "(unat head + 1) mod sz = (unat tail + 1 + ?n) mod sz"
    using head_index [OF assms(1,2)]
    by (metis (no_types, lifting) add.assoc add.commute mod_add_left_eq)
  with eq have "sz dvd ?n - k"
    using assms(3) by (metis add_diff_cancel_left less_imp_le_nat add_left_mono mod_eq_dvd_iff_nat)
  moreover have "0 < ?n - k" "?n - k < sz" using assms(3) len_bound [of tail head] by auto
  ultimately show False using nat_dvd_not_less by blast
qed

lemma enq:
  assumes "unat tail < sz" "unat head < sz" "next_index sz head \<noteq> tail"
    "length buf = sz"
  shows "ring_list sz (buf[unat (next_index sz head) := c]) tail (next_index sz head)
         = ring_list sz buf tail head @ [c]"
proof -
  let ?n = "ring_len sz tail head" and ?h = "next_index sz head"
  have h: "unat ?h = (unat head + 1) mod sz" using assms by (simp add: unat_next)
  have last: "(unat tail + 1 + ?n) mod sz = unat ?h"
    using head_index [OF assms(1,2)] h
    by (metis (no_types, lifting) add.assoc add.commute mod_add_left_eq)
  have old: "buf[unat ?h := c] ! ((unat tail + 1 + k) mod sz) = buf ! ((unat tail + 1 + k) mod sz)"
    if "k < ?n" for k
    using index_distinct [OF assms(1,2) that] h by simp
  have "unat ?h < length buf" using assms next_bound by simp
  then have new: "buf[unat ?h := c] ! ((unat tail + 1 + ?n) mod sz) = c" using last by simp
  show ?thesis
    using old new by (simp add: ring_list_def len_enq [OF assms(1-3)])
qed

lemma store_outside:
  assumes "unat tail < sz" "unat head < sz" "next_index sz head \<noteq> tail"
  shows "ring_list sz (buf[unat (next_index sz head) := c]) tail head = ring_list sz buf tail head"
proof -
  have "buf[unat (next_index sz head) := c] ! ((unat tail + 1 + k) mod sz) = buf ! ((unat tail + 1 + k) mod sz)"
    if "k < ring_len sz tail head" for k
    using index_distinct [OF assms(1,2) that] assms by (simp add: unat_next)
  then show ?thesis by (simp add: ring_list_def)
qed

lemma deq:
  assumes "unat tail < sz" "unat head < sz" "head \<noteq> tail"
  shows "ring_list sz buf tail head
         = buf ! unat (next_index sz tail) # ring_list sz buf (next_index sz tail) head"
proof -
  let ?t = "next_index sz tail"
  have t: "unat ?t = (unat tail + 1) mod sz" using assms by (simp add: unat_next)
  have shift: "(unat ?t + 1 + k) mod sz = (unat tail + 1 + Suc k) mod sz" for k
    using mod_add_left_eq [of "unat tail + 1" sz "1 + k"] by (simp add: t)
  show ?thesis
    using len_deq [OF assms] shift t
    by (simp add: ring_list_def upt_conv_Cons map_Suc_upt [symmetric] del: upt_Suc)
qed

lemma full_iff:
  assumes "unat tail < sz" "unat head < sz"
  shows "next_index sz head = tail \<longleftrightarrow> length (ring_list sz buf tail head) = sz - 1"
proof -
  have "next_index sz head = tail \<longleftrightarrow> (unat head + 1) mod sz = unat tail"
    using assms by (metis unat_next word_unat_eq_iff)
  also have "\<dots> \<longleftrightarrow> ring_len sz tail head = sz - 1"
    using assms size_min
    by (cases "unat tail \<le> unat head"; cases "unat head + 1 = sz") (auto simp: ring_len_def mod_if)
  finally show ?thesis by (simp add: ring_list_def)
qed

end

interpretation tx: ring TX_BUFFER_SIZE
  by unfold_locales (simp_all add: TX_BUFFER_SIZE_def)

interpretation rx: ring RX_BUFFER_SIZE
  by unfold_locales (simp_all add: RX_BUFFER_SIZE_def)

section \<open>State and operations of the driver\<close>

record uart =
  tx_buffer :: "u8 list"
  tx_buffer_head :: u8
  tx_buffer_tail :: u8
  rx_buffer :: "u8 list"
  rx_buffer_head :: u8
  rx_buffer_tail :: u8
  UBRR1 :: u16
  UCSR1A :: u8
  UCSR1B :: u8
  UCSR1C :: u8
  sreg_I :: bool

text \<open>Bit numbers of the USART registers of the AT90USB1287.\<close>

abbreviation (input) U2X1 :: nat where "U2X1 \<equiv> 1"
abbreviation (input) RXCIE1 :: nat where "RXCIE1 \<equiv> 7"
abbreviation (input) UDRIE1 :: nat where "UDRIE1 \<equiv> 5"
abbreviation (input) RXEN1 :: nat where "RXEN1 \<equiv> 4"
abbreviation (input) TXEN1 :: nat where "TXEN1 \<equiv> 3"
abbreviation (input) UCSZ11 :: nat where "UCSZ11 \<equiv> 2"
abbreviation (input) UCSZ10 :: nat where "UCSZ10 \<equiv> 1"

definition uart_init :: "u32 \<Rightarrow> uart \<Rightarrow> uart" where
  "uart_init baud u =
     u\<lparr>UBRR1 := 25, UCSR1A := BV U2X1, UCSR1B := BV RXEN1 OR BV TXEN1 OR BV RXCIE1,
       UCSR1C := BV UCSZ11 OR BV UCSZ10,
       tx_buffer_head := 0, tx_buffer_tail := 0, rx_buffer_head := 0, rx_buffer_tail := 0,
       sreg_I := True\<rparr>"

text \<open>The driver in \<open>poc/MassStorage\<close> computes the divisor, in \<open>uint32_t\<close> arithmetic.\<close>

definition ms_uart_init :: "u32 \<Rightarrow> u32 \<Rightarrow> uart \<Rightarrow> uart" where
  "ms_uart_init F_CPU baud u =
     u\<lparr>UBRR1 := ucast ((F_CPU div 4 div baud - 1) div 2), UCSR1A := BV U2X1,
       UCSR1B := BV RXEN1 OR BV TXEN1 OR BV RXCIE1, UCSR1C := BV UCSZ11 OR BV UCSZ10,
       tx_buffer_head := 0, tx_buffer_tail := 0, rx_buffer_head := 0, rx_buffer_tail := 0,
       sreg_I := True\<rparr>"

text \<open>
  The main program between two statements: the two spin loops, and the stores of
  \<open>uart_putchar\<close> and \<open>uart_getchar\<close>, with the locals \<open>c\<close> and \<open>i\<close> that are live there.
\<close>

datatype uart_pc =
    Main
  | Put_Spin u8 u8
  | Put_Store u8 u8
  | Put_Head u8
  | Put_Enable
  | Get_Spin
  | Get_Read u8
  | Get_Tail u8 u8

definition uart_putchar :: "u8 \<Rightarrow> uart \<Rightarrow> uart_pc" where
  "uart_putchar c u = Put_Spin c (next_index TX_BUFFER_SIZE (tx_buffer_head u))"

definition uart_getchar :: "uart_pc" where
  "uart_getchar = Get_Spin"

text \<open>One statement of the main program; the last component is the value \<open>uart_getchar\<close> returns.\<close>

fun main_step :: "uart_pc \<Rightarrow> uart \<Rightarrow> uart_pc \<times> uart \<times> u8 option" where
  "main_step Main u = (Main, u, None)"
| "main_step (Put_Spin c i) u =
     (if tx_buffer_tail u = i then (Put_Spin c i, u, None) else (Put_Store c i, u, None))"
| "main_step (Put_Store c i) u = (Put_Head i, u\<lparr>tx_buffer := (tx_buffer u)[unat i := c]\<rparr>, None)"
| "main_step (Put_Head i) u = (Put_Enable, u\<lparr>tx_buffer_head := i\<rparr>, None)"
| "main_step Put_Enable u =
     (Main, u\<lparr>UCSR1B := BV RXEN1 OR BV TXEN1 OR BV RXCIE1 OR BV UDRIE1\<rparr>, None)"
| "main_step Get_Spin u =
     (if rx_buffer_head u = rx_buffer_tail u then (Get_Spin, u, None)
      else (Get_Read (next_index RX_BUFFER_SIZE (rx_buffer_tail u)), u, None))"
| "main_step (Get_Read i) u = (Get_Tail (rx_buffer u ! unat i) i, u, None)"
| "main_step (Get_Tail c i) u = (Main, u\<lparr>rx_buffer_tail := i\<rparr>, Some c)"

definition uart_available :: "uart \<Rightarrow> u8" where
  "uart_available u =
     (let head = rx_buffer_head u; tail = rx_buffer_tail u in
      if unat head \<ge> unat tail then head - tail
      else word_of_int (int RX_BUFFER_SIZE + uint head - uint tail))"

text \<open>
  The data-register-empty interrupt, with the byte it writes to \<open>UDR1\<close>, and the receive
  interrupt, with the byte it reads from \<open>UDR1\<close>.
\<close>

definition USART1_UDRE_vect :: "uart \<Rightarrow> uart \<times> u8 option" where
  "USART1_UDRE_vect u =
     (if tx_buffer_head u = tx_buffer_tail u then
        (u\<lparr>UCSR1B := BV RXEN1 OR BV TXEN1 OR BV RXCIE1\<rparr>, None)
      else
        (let i = next_index TX_BUFFER_SIZE (tx_buffer_tail u)
         in (u\<lparr>tx_buffer_tail := i\<rparr>, Some (tx_buffer u ! unat i))))"

definition USART1_RX_vect :: "u8 \<Rightarrow> uart \<Rightarrow> uart" where
  "USART1_RX_vect c u =
     (let i = next_index RX_BUFFER_SIZE (rx_buffer_head u) in
      if i \<noteq> rx_buffer_tail u
      then u\<lparr>rx_buffer := (rx_buffer u)[unat i := c], rx_buffer_head := i\<rparr>
      else u)"

text \<open>
  \<open>uart_putstring\<close> calls \<open>uart_putchar\<close> for every byte up to the terminating zero; a C string is
  the list of its bytes before the zero.
\<close>

fun uart_putstring :: "(u8 \<Rightarrow> 's \<Rightarrow> 's) \<Rightarrow> u8 list \<Rightarrow> 's \<Rightarrow> 's" where
  "uart_putstring putchar [] s = s"
| "uart_putstring putchar (c # str) s = uart_putstring putchar str (putchar c s)"

section \<open>Interleaving of the main program with the interrupts\<close>

text \<open>
  \<open>requested\<close> are the arguments of the calls of \<open>uart_putchar\<close>, \<open>wire\<close> the bytes written to
  \<open>UDR1\<close>; \<open>stored\<close> the received bytes that found room and \<open>returned\<close> the results of
  \<open>uart_getchar\<close>.  These four only record what happened.
\<close>

record uart_sys =
  dev :: uart
  pc :: uart_pc
  requested :: "u8 list"
  wire :: "u8 list"
  stored :: "u8 list"
  returned :: "u8 list"

definition rx_full :: "uart \<Rightarrow> bool" where
  "rx_full u \<longleftrightarrow> next_index RX_BUFFER_SIZE (rx_buffer_head u) = rx_buffer_tail u"

inductive uart_step :: "uart_sys \<Rightarrow> uart_sys \<Rightarrow> bool" where
  call_putchar: "pc s = Main \<Longrightarrow>
     uart_step s (s\<lparr>pc := uart_putchar c (dev s), requested := requested s @ [c]\<rparr>)"
| call_getchar: "pc s = Main \<Longrightarrow> uart_step s (s\<lparr>pc := uart_getchar\<rparr>)"
| statement: "pc s \<noteq> Main \<Longrightarrow> main_step (pc s) (dev s) = (p, u, r) \<Longrightarrow>
     uart_step s (s\<lparr>pc := p, dev := u,
       returned := returned s @ (case r of None \<Rightarrow> [] | Some c \<Rightarrow> [c])\<rparr>)"
| udre_interrupt: "sreg_I (dev s) \<Longrightarrow> bit (UCSR1B (dev s)) UDRIE1 \<Longrightarrow>
     USART1_UDRE_vect (dev s) = (u, w) \<Longrightarrow>
     uart_step s (s\<lparr>dev := u, wire := wire s @ (case w of None \<Rightarrow> [] | Some c \<Rightarrow> [c])\<rparr>)"
| rx_interrupt: "sreg_I (dev s) \<Longrightarrow> bit (UCSR1B (dev s)) RXCIE1 \<Longrightarrow>
     uart_step s (s\<lparr>dev := USART1_RX_vect c (dev s),
       stored := stored s @ (if rx_full (dev s) then [] else [c])\<rparr>)"

definition uart_start :: "uart \<Rightarrow> uart_sys" where
  "uart_start u = \<lparr>dev = u, pc = Main, requested = [], wire = [], stored = [], returned = []\<rparr>"

inductive uart_reach :: "uart \<Rightarrow> uart_sys \<Rightarrow> bool" for u where
  start: "uart_reach u (uart_start u)"
| step: "uart_reach u s \<Longrightarrow> uart_step s t \<Longrightarrow> uart_reach u t"

section \<open>The invariant of the driver\<close>

fun tx_pending :: "uart_pc \<Rightarrow> uart \<Rightarrow> u8 list" where
  "tx_pending (Put_Spin c i) u = [c]"
| "tx_pending (Put_Store c i) u = [c]"
| "tx_pending (Put_Head i) u = [tx_buffer u ! unat i]"
| "tx_pending _ u = []"

definition tx_queue :: "uart \<Rightarrow> u8 list" where
  "tx_queue u = ring_list TX_BUFFER_SIZE (tx_buffer u) (tx_buffer_tail u) (tx_buffer_head u)"

definition rx_queue :: "uart \<Rightarrow> u8 list" where
  "rx_queue u = ring_list RX_BUFFER_SIZE (rx_buffer u) (rx_buffer_tail u) (rx_buffer_head u)"

text \<open>Shape: buffer lengths and index bounds, and interrupts stay enabled.\<close>

definition uart_wf :: "uart \<Rightarrow> bool" where
  "uart_wf u \<longleftrightarrow>
     length (tx_buffer u) = TX_BUFFER_SIZE \<and> length (rx_buffer u) = RX_BUFFER_SIZE \<and>
     unat (tx_buffer_head u) < TX_BUFFER_SIZE \<and> unat (tx_buffer_tail u) < TX_BUFFER_SIZE \<and>
     unat (rx_buffer_head u) < RX_BUFFER_SIZE \<and> unat (rx_buffer_tail u) < RX_BUFFER_SIZE \<and>
     sreg_I u \<and> bit (UCSR1B u) RXCIE1"

text \<open>What the locals of an interrupted call know about the rings.\<close>

fun pc_inv :: "uart_pc \<Rightarrow> uart \<Rightarrow> bool" where
  "pc_inv (Put_Spin c i) u \<longleftrightarrow> i = next_index TX_BUFFER_SIZE (tx_buffer_head u)"
| "pc_inv (Put_Store c i) u \<longleftrightarrow>
     i = next_index TX_BUFFER_SIZE (tx_buffer_head u) \<and> i \<noteq> tx_buffer_tail u"
| "pc_inv (Put_Head i) u \<longleftrightarrow>
     i = next_index TX_BUFFER_SIZE (tx_buffer_head u) \<and> i \<noteq> tx_buffer_tail u"
| "pc_inv (Get_Read i) u \<longleftrightarrow>
     i = next_index RX_BUFFER_SIZE (rx_buffer_tail u) \<and> rx_buffer_head u \<noteq> rx_buffer_tail u"
| "pc_inv (Get_Tail c i) u \<longleftrightarrow>
     i = next_index RX_BUFFER_SIZE (rx_buffer_tail u) \<and> rx_buffer_head u \<noteq> rx_buffer_tail u \<and>
     c = rx_buffer u ! unat i"
| "pc_inv _ u \<longleftrightarrow> True"

definition uart_inv :: "uart_sys \<Rightarrow> bool" where
  "uart_inv s \<longleftrightarrow>
     uart_wf (dev s) \<and> pc_inv (pc s) (dev s) \<and>
     wire s @ tx_queue (dev s) @ tx_pending (pc s) (dev s) = requested s \<and>
     stored s = returned s @ rx_queue (dev s) \<and>
     (tx_buffer_head (dev s) \<noteq> tx_buffer_tail (dev s) \<longrightarrow>
        bit (UCSR1B (dev s)) UDRIE1 \<or> pc s = Put_Enable)"

lemmas uart_defs = uart_inv_def uart_wf_def tx_queue_def rx_queue_def bit_or_iff

inductive_cases uart_stepE: "uart_step s t"

lemma uart_inv_start:
  assumes "length (tx_buffer u) = TX_BUFFER_SIZE" "length (rx_buffer u) = RX_BUFFER_SIZE"
  shows "uart_inv (uart_start (uart_init baud u))"
  using assms tx.empty_iff [of 0 0] rx.empty_iff [of 0 0]
  by (simp add: uart_defs uart_start_def uart_init_def TX_BUFFER_SIZE_def RX_BUFFER_SIZE_def)

lemma uart_inv_statement:
  assumes inv: "uart_inv s" and "pc s \<noteq> Main" and ms: "main_step (pc s) (dev s) = (p, u, r)"
  shows "uart_inv (s\<lparr>pc := p, dev := u,
           returned := returned s @ (case r of None \<Rightarrow> [] | Some c \<Rightarrow> [c])\<rparr>)"
proof (cases "pc s")
  case (Put_Store c i)
  then show ?thesis
    using inv ms tx.store_outside [of "tx_buffer_tail (dev s)" "tx_buffer_head (dev s)"]
      tx.next_bound [of "tx_buffer_head (dev s)"]
    by (auto simp: uart_defs)
next
  case (Put_Head i)
  then have "ring_list TX_BUFFER_SIZE (tx_buffer (dev s)) (tx_buffer_tail (dev s)) i =
      tx_queue (dev s) @ [tx_buffer (dev s) ! unat i]"
    using inv tx.enq [of "tx_buffer_tail (dev s)" "tx_buffer_head (dev s)" "tx_buffer (dev s)"
        "tx_buffer (dev s) ! unat i"]
    by (auto simp: uart_defs)
  then show ?thesis
    using Put_Head inv ms tx.next_bound [of "tx_buffer_head (dev s)"]
    by (auto simp: uart_defs)
next
  case (Get_Tail c i)
  then show ?thesis
    using inv ms rx.deq [of "rx_buffer_tail (dev s)" "rx_buffer_head (dev s)" "rx_buffer (dev s)"]
      rx.next_bound [of "rx_buffer_tail (dev s)"]
    by (auto simp: uart_defs)
qed (use assms in \<open>auto simp: uart_defs split: if_splits\<close>)

lemma uart_inv_udre:
  assumes inv: "uart_inv s" and isr: "USART1_UDRE_vect (dev s) = (u, w)"
  shows "uart_inv (s\<lparr>dev := u, wire := wire s @ (case w of None \<Rightarrow> [] | Some c \<Rightarrow> [c])\<rparr>)"
proof (cases "tx_buffer_head (dev s) = tx_buffer_tail (dev s)")
  case True
  then show ?thesis
    using inv isr by (cases "pc s") (auto simp: USART1_UDRE_vect_def uart_defs)
next
  case False
  let ?t = "tx_buffer_tail (dev s)" and ?h = "tx_buffer_head (dev s)"
  have b: "unat ?t < TX_BUFFER_SIZE" "unat ?h < TX_BUFFER_SIZE"
    using inv by (auto simp: uart_defs)
  have "next_index TX_BUFFER_SIZE ?h \<noteq> next_index TX_BUFFER_SIZE ?t"
    using False b tx.next_inject by simp
  then show ?thesis
    using False inv isr b tx.deq [of ?t ?h "tx_buffer (dev s)"] tx.next_bound [of ?t]
    by (cases "pc s") (auto simp: USART1_UDRE_vect_def uart_defs Let_def)
qed

lemma uart_inv_rx:
  assumes inv: "uart_inv s"
  shows "uart_inv (s\<lparr>dev := USART1_RX_vect c (dev s),
           stored := stored s @ (if rx_full (dev s) then [] else [c])\<rparr>)"
proof (cases "rx_full (dev s)")
  case True
  then show ?thesis using inv by (simp add: USART1_RX_vect_def rx_full_def)
next
  case False
  let ?t = "rx_buffer_tail (dev s)" and ?h = "rx_buffer_head (dev s)"
  let ?i = "next_index RX_BUFFER_SIZE ?h"
  have b: "unat ?t < RX_BUFFER_SIZE" "unat ?h < RX_BUFFER_SIZE"
    using inv by (auto simp: uart_defs)
  have keep: "(rx_buffer (dev s))[unat ?i := c] ! unat (next_index RX_BUFFER_SIZE ?t) =
      rx_buffer (dev s) ! unat (next_index RX_BUFFER_SIZE ?t)" if "?h \<noteq> ?t"
    using that b rx.next_inject by (metis nth_list_update_neq word_unat_eq_iff)
  show ?thesis
    using False inv b keep rx.enq [of ?t ?h "rx_buffer (dev s)" c] rx.next_bound [of ?h]
    by (cases "pc s") (auto simp: USART1_RX_vect_def rx_full_def uart_defs Let_def)
qed

lemma uart_step_inv: "uart_step s t \<Longrightarrow> uart_inv s \<Longrightarrow> uart_inv t"
proof (induction rule: uart_step.induct)
  case (statement s p u r)
  then show ?case by (intro uart_inv_statement)
next
  case (udre_interrupt s u w)
  then show ?case by (intro uart_inv_udre)
next
  case (rx_interrupt s c)
  then show ?case by (intro uart_inv_rx)
qed (auto simp: uart_defs uart_putchar_def uart_getchar_def)

lemma uart_reach_inv:
  assumes "uart_reach (uart_init baud u) s"
    and "length (tx_buffer u) = TX_BUFFER_SIZE" "length (rx_buffer u) = RX_BUFFER_SIZE"
  shows "uart_inv s"
  using assms(1)
proof (induction rule: uart_reach.induct)
  case start
  show ?case using assms(2,3) by (rule uart_inv_start)
next
  case (step s t)
  then show ?case by (blast intro: uart_step_inv)
qed

section \<open>What the driver guarantees\<close>

text \<open>A byte sink is what \<open>uart_putstring\<close> needs of the function it sends bytes with.\<close>

locale byte_sink =
  fixes put :: "u8 \<Rightarrow> 's \<Rightarrow> 's" and sent :: "'s \<Rightarrow> u8 list"
  assumes sent_put: "sent (put c s) = sent s @ [c]"
begin

lemma sent_putstring: "sent (uart_putstring put str s) = sent s @ str"
  by (induction str arbitrary: s) (auto simp: sent_put)

end

lemma length_tx_queue: "length (tx_queue u) \<le> TX_BUFFER_SIZE - 1"
  using tx.len_bound [of "tx_buffer_tail u" "tx_buffer_head u"]
  by (simp add: tx_queue_def ring_list_def)

definition blank_uart :: uart where
  "blank_uart = \<lparr>tx_buffer = replicate TX_BUFFER_SIZE 0, tx_buffer_head = 0, tx_buffer_tail = 0,
     rx_buffer = replicate RX_BUFFER_SIZE 0, rx_buffer_head = 0, rx_buffer_tail = 0,
     UBRR1 = 0, UCSR1A = 0, UCSR1B = 0, UCSR1C = 0, sreg_I = False\<rparr>"

lemma blank_uart_buffers [simp]:
  "length (tx_buffer blank_uart) = TX_BUFFER_SIZE" "length (rx_buffer blank_uart) = RX_BUFFER_SIZE"
  by (simp_all add: blank_uart_def)

definition one_request :: uart_sys where
  "one_request = (let s = uart_start (uart_init 115200 blank_uart)
     in s\<lparr>pc := uart_putchar 65 (dev s), requested := [65]\<rparr>)"

lemma one_request_reach: "uart_reach (uart_init 115200 blank_uart) one_request"
proof -
  let ?s = "uart_start (uart_init 115200 blank_uart)"
  have "pc ?s = Main" by (simp add: uart_start_def)
  from uart_step.call_putchar [OF this, of 65] have "uart_step ?s one_request"
    by (simp add: one_request_def Let_def uart_start_def)
  with uart_reach.start show ?thesis by (rule uart_reach.step)
qed

text \<open>
  C33. Transmit order: however the interrupts interleave with the main program, the bytes written
  to the wire, then the bytes in the ring, then the byte of an unfinished call are exactly the
  arguments of the calls of \<open>uart_putchar\<close>, in order; nothing is lost, doubled or reordered,
  and at most 39 bytes wait in the ring.
\<close>

theorem uart_tx_fifo:
  assumes "uart_reach (uart_init baud u) s"
    and "length (tx_buffer u) = TX_BUFFER_SIZE" "length (rx_buffer u) = RX_BUFFER_SIZE"
  shows "requested s = wire s @ tx_queue (dev s) @ tx_pending (pc s) (dev s) \<and>
    length (tx_queue (dev s)) \<le> 39"
  using uart_reach_inv [OF assms] length_tx_queue [of "dev s"]
  by (simp add: uart_inv_def TX_BUFFER_SIZE_def)

theorem uart_tx_fifo_witness:
  "requested one_request = wire one_request @ tx_queue (dev one_request) @
     tx_pending (pc one_request) (dev one_request) \<and> length (tx_queue (dev one_request)) \<le> 39"
  by (rule uart_tx_fifo [OF one_request_reach blank_uart_buffers])

text \<open>
  C34. Receive order: the received bytes that found room are exactly those \<open>uart_getchar\<close> has
  returned followed by those in the ring, and \<open>uart_available\<close> is the number of the latter.
\<close>

theorem uart_rx_fifo:
  assumes "uart_reach (uart_init baud u) s"
    and "length (tx_buffer u) = TX_BUFFER_SIZE" "length (rx_buffer u) = RX_BUFFER_SIZE"
  shows "stored s = returned s @ rx_queue (dev s) \<and>
    unat (uart_available (dev s)) = length (rx_queue (dev s))"
proof -
  let ?h = "rx_buffer_head (dev s)" and ?t = "rx_buffer_tail (dev s)"
  have inv: "uart_inv s" using assms by (rule uart_reach_inv)
  then have b: "unat ?h < 64" "unat ?t < 64" by (auto simp: uart_defs RX_BUFFER_SIZE_def)
  have "unat (uart_available (dev s)) = ring_len 64 ?t ?h"
  proof (cases "unat ?t \<le> unat ?h")
    case True
    then show ?thesis
      using b by (simp add: uart_available_def Let_def ring_len_def unat_sub word_le_nat_alt mod_if)
  next
    case False
    obtain n where n: "n = 64 + unat ?h - unat ?t" by blast
    with False b have "int 64 + uint ?h - uint ?t = int n" by (simp add: of_nat_diff)
    then have "uart_available (dev s) = word_of_nat n"
      using False by (simp only: uart_available_def Let_def RX_BUFFER_SIZE_def if_False of_int_of_nat_eq)
    moreover have "unat (word_of_nat n :: u8) = n"
      using False b n by (intro unat_word_of_nat_less) simp
    ultimately have "unat (uart_available (dev s)) = n" by (simp only:)
    then show ?thesis using False b n by (simp add: ring_len_def mod_if add.commute)
  qed
  then show ?thesis using inv by (simp add: uart_inv_def rx_queue_def ring_list_def RX_BUFFER_SIZE_def)
qed

text \<open>A byte has come in, and nobody has read it.\<close>

definition one_received :: uart_sys where
  "one_received = (let s = uart_start (uart_init 115200 blank_uart)
     in s\<lparr>dev := USART1_RX_vect 65 (dev s), stored := [65]\<rparr>)"

lemma one_received_reach: "uart_reach (uart_init 115200 blank_uart) one_received"
proof -
  let ?s = "uart_start (uart_init 115200 blank_uart)"
  have "sreg_I (dev ?s)" "bit (UCSR1B (dev ?s)) RXCIE1" "\<not> rx_full (dev ?s)" "stored ?s = []"
    by (simp_all add: uart_start_def uart_init_def rx_full_def next_index_def RX_BUFFER_SIZE_def bit_or_iff bit_BV)
  then have "uart_step ?s one_received"
    using uart_step.rx_interrupt [of ?s 65] by (simp add: one_received_def Let_def)
  with uart_reach.start show ?thesis by (rule uart_reach.step)
qed

theorem uart_rx_fifo_witness:
  "[65] = returned one_received @ rx_queue (dev one_received) \<and>
    unat (uart_available (dev one_received)) = length (rx_queue (dev one_received)) \<and> rx_queue (dev one_received) = [65]"
proof -
  have s: "stored one_received = [65]" "returned one_received = []"
    by (simp_all add: one_received_def Let_def uart_start_def)
  show ?thesis using uart_rx_fifo [OF one_received_reach blank_uart_buffers] s by simp
qed

text \<open>One transmit interrupt sends the oldest queued byte.\<close>

lemma udre_sends:
  assumes inv: "uart_inv s" and main: "pc s = Main" and q: "tx_queue (dev s) = c # cs"
  shows "\<exists>t. uart_step s t \<and> wire t = wire s @ [c] \<and> tx_queue (dev t) = cs \<and>
    requested t = requested s \<and> pc t = Main"
proof -
  let ?t = "tx_buffer_tail (dev s)" and ?h = "tx_buffer_head (dev s)"
  let ?i = "next_index TX_BUFFER_SIZE ?t"
  have b: "unat ?t < TX_BUFFER_SIZE" "unat ?h < TX_BUFFER_SIZE"
    using inv by (auto simp: uart_defs)
  have ne: "?h \<noteq> ?t" using q tx.empty_iff [OF b] by (auto simp: tx_queue_def)
  then have en: "sreg_I (dev s)" "bit (UCSR1B (dev s)) UDRIE1"
    using inv main by (auto simp: uart_defs)
  let ?u = "(dev s)\<lparr>tx_buffer_tail := ?i\<rparr>"
  have isr: "USART1_UDRE_vect (dev s) = (?u, Some c)" and rest: "tx_queue ?u = cs"
    using ne q tx.deq [OF b ne, of "tx_buffer (dev s)"]
    by (auto simp: USART1_UDRE_vect_def Let_def tx_queue_def)
  show ?thesis
    using uart_step.udre_interrupt [OF en isr] rest main by fastforce
qed

lemma tx_drains:
  assumes "uart_inv s" and "pc s = Main"
  shows "\<exists>t. uart_step\<^sup>*\<^sup>* s t \<and> wire t = wire s @ tx_queue (dev s) \<and> tx_queue (dev t) = [] \<and>
    requested t = requested s"
  using assms
proof (induction "tx_queue (dev s)" arbitrary: s)
  case Nil
  then show ?case by force
next
  case (Cons c cs)
  then obtain s' where s': "uart_step s s'" "wire s' = wire s @ [c]" "tx_queue (dev s') = cs"
    "requested s' = requested s" "pc s' = Main"
    using udre_sends [of s c cs] by metis
  then obtain t where t: "uart_step\<^sup>*\<^sup>* s' t" "wire t = wire s' @ cs" "tx_queue (dev t) = []"
    "requested t = requested s'"
    using Cons.hyps(1) [of s'] uart_step_inv Cons.prems(1) by metis
  then have "wire t = wire s @ tx_queue (dev s)" using s' Cons.hyps(2) by (metis append.assoc append_Cons append_Nil)
  then show ?case using s' t by (metis converse_rtranclp_into_rtranclp)
qed

text \<open>
  No byte is stranded: whenever the main program is between calls, running the enabled
  transmit interrupt alone empties the ring, and then everything requested is on the wire.
\<close>

theorem uart_tx_drains:
  assumes "uart_reach (uart_init baud u) s"
    and "length (tx_buffer u) = TX_BUFFER_SIZE" "length (rx_buffer u) = RX_BUFFER_SIZE"
    and "pc s = Main"
  shows "\<exists>t. uart_step\<^sup>*\<^sup>* s t \<and> tx_queue (dev t) = [] \<and> wire t = requested s"
proof -
  have inv: "uart_inv s" using assms(1-3) by (rule uart_reach_inv)
  then have "requested s = wire s @ tx_queue (dev s)" using assms(4) by (simp add: uart_inv_def)
  then show ?thesis using tx_drains [OF inv assms(4)] by auto
qed

theorem uart_tx_drains_witness:
  "\<exists>t. uart_step\<^sup>*\<^sup>* (uart_start (uart_init 9600 blank_uart)) t \<and> tx_queue (dev t) = [] \<and>
    wire t = requested (uart_start (uart_init 9600 blank_uart))"
  by (rule uart_tx_drains [OF uart_reach.start blank_uart_buffers]) (simp add: uart_start_def)

end
