(* ===== verification/Sreg_Poc.thy ===== *)
theory Sreg_Poc
  imports Cpld Uart
begin

text \<open>
  The firmware \<open>poc/poc_sreg/main.c\<close>: it shifts an address into the CPLD bit by bit over PORTB,
  moves bytes between the AVR and the SRAM through the CPLD's bus state machine, and runs test
  loops that report over the UART.  The board is a parameter, the record \<open>bd\<close>: what happens
  outside the AVR in one CPU clock cycle while the port registers hold their values, what the
  pins of port A read, and how many cycles the code between the port accesses takes.  The
  instance \<open>quickdev\<close> puts the CPLD of theory \<open>Cpld\<close> there.

  Every port statement costs the cycles of the AVR instruction it is: \<open>sbi\<close> and \<open>cbi\<close> two,
  \<open>out\<close>, \<open>in\<close> and \<open>nop\<close> one.
\<close>

section \<open>Port state and port statements\<close>

record 'b bd =
  bd_tick :: "u8 \<Rightarrow> u8 \<Rightarrow> u8 \<Rightarrow> u8 \<Rightarrow> 'b \<Rightarrow> 'b"
  bd_pina :: "u8 \<Rightarrow> u8 \<Rightarrow> u8 \<Rightarrow> u8 \<Rightarrow> 'b \<Rightarrow> u8"
  bd_ovh :: nat

record 'b avr =
  PORTA :: u8
  DDRA :: u8
  PORTB :: u8
  DDRB :: u8
  brd :: 'b
  uart_tx :: "u8 list"

text \<open>The AVR control port, PORTB.\<close>

abbreviation (input) AVR_COUNTER :: nat where "AVR_COUNTER \<equiv> 6"
abbreviation (input) AVR_WE :: nat where "AVR_WE \<equiv> 5"
abbreviation (input) AVR_OE :: nat where "AVR_OE \<equiv> 4"
abbreviation (input) AVR_SI :: nat where "AVR_SI \<equiv> 3"
abbreviation (input) AVR_SREG_EN :: nat where "AVR_SREG_EN \<equiv> 2"
abbreviation (input) AVR_RESET :: nat where "AVR_RESET \<equiv> 1"

definition cycles :: "'b bd \<Rightarrow> nat \<Rightarrow> 'b avr \<Rightarrow> 'b avr" where
  "cycles bd n s = s\<lparr>brd := (bd_tick bd (PORTA s) (DDRA s) (PORTB s) (DDRB s) ^^ n) (brd s)\<rparr>"

definition sbi_PORTB :: "'b bd \<Rightarrow> nat \<Rightarrow> 'b avr \<Rightarrow> 'b avr" where
  "sbi_PORTB bd n s = cycles bd 2 (s\<lparr>PORTB := PORTB s OR BV n\<rparr>)"

definition cbi_PORTB :: "'b bd \<Rightarrow> nat \<Rightarrow> 'b avr \<Rightarrow> 'b avr" where
  "cbi_PORTB bd n s = cycles bd 2 (s\<lparr>PORTB := PORTB s AND NOT (BV n)\<rparr>)"

definition out_PORTA :: "'b bd \<Rightarrow> u8 \<Rightarrow> 'b avr \<Rightarrow> 'b avr" where
  "out_PORTA bd v s = cycles bd 1 (s\<lparr>PORTA := v\<rparr>)"

definition out_DDRA :: "'b bd \<Rightarrow> u8 \<Rightarrow> 'b avr \<Rightarrow> 'b avr" where
  "out_DDRA bd v s = cycles bd 1 (s\<lparr>DDRA := v\<rparr>)"

definition out_DDRB :: "'b bd \<Rightarrow> u8 \<Rightarrow> 'b avr \<Rightarrow> 'b avr" where
  "out_DDRB bd v s = cycles bd 1 (s\<lparr>DDRB := v\<rparr>)"

definition in_PINA :: "'b bd \<Rightarrow> 'b avr \<Rightarrow> u8 \<times> 'b avr" where
  "in_PINA bd s = (bd_pina bd (PORTA s) (DDRA s) (PORTB s) (DDRB s) (brd s), cycles bd 1 s)"

definition nop :: "'b bd \<Rightarrow> 'b avr \<Rightarrow> 'b avr" where
  "nop bd s = cycles bd 1 s"

text \<open>\<open>_delay_us(1)\<close> at 16 MHz.\<close>

definition wait_us :: "'b bd \<Rightarrow> 'b avr \<Rightarrow> 'b avr" where
  "wait_us bd s = cycles bd 16 s"

text \<open>
  A call of \<open>uart_putchar\<close>: theory \<open>Uart\<close> shows that the bytes handed to it leave the wire in
  this order, so the model keeps the list of them.
\<close>

definition avr_putchar :: "'b bd \<Rightarrow> u8 \<Rightarrow> 'b avr \<Rightarrow> 'b avr" where
  "avr_putchar bd c s = cycles bd (bd_ovh bd) (s\<lparr>uart_tx := uart_tx s @ [c]\<rparr>)"

interpretation sreg_out: byte_sink "avr_putchar bd" uart_tx for bd
  by unfold_locales (simp add: avr_putchar_def cycles_def)

definition cstr :: "string \<Rightarrow> u8 list" where
  "cstr s = map of_char s"

abbreviation (input) CR :: u8 where "CR \<equiv> 13"
abbreviation (input) LF :: u8 where "LF \<equiv> 10"

section \<open>Address register and SRAM access\<close>

text \<open>
  \<open>while (i--)\<close> counts the bit number down from 20 to 0.  The test of the address bit takes
  \<open>bd_ovh\<close> cycles; the pulse on \<open>AVR_SREG_EN\<close> is a \<open>cbi\<close> directly followed by an \<open>sbi\<close>.
\<close>

fun sreg_loop :: "'b bd \<Rightarrow> u32 \<Rightarrow> nat \<Rightarrow> 'b avr \<Rightarrow> 'b avr" where
  "sreg_loop bd addr 0 s = s"
| "sreg_loop bd addr (Suc i) s =
     (let s = cycles bd (bd_ovh bd) s;
          s = (if addr AND push_bit i 1 \<noteq> 0 then sbi_PORTB bd AVR_SI s else cbi_PORTB bd AVR_SI s);
          s = cbi_PORTB bd AVR_SREG_EN s;
          s = sbi_PORTB bd AVR_SREG_EN s
      in sreg_loop bd addr i s)"

definition sreg_set :: "'b bd \<Rightarrow> u32 \<Rightarrow> 'b avr \<Rightarrow> 'b avr" where
  "sreg_set bd addr s = sreg_loop bd addr 21 (sbi_PORTB bd AVR_SREG_EN s)"

definition SRAM_read :: "'b bd \<Rightarrow> u32 \<Rightarrow> 'b avr \<Rightarrow> u8 \<times> 'b avr" where
  "SRAM_read bd addr s =
     (let s = out_DDRA bd 0x00 s;
          s = sreg_set bd addr s;
          s = sbi_PORTB bd AVR_OE s;
          s = sbi_PORTB bd AVR_WE s;
          s = nop bd (nop bd s);
          s = cbi_PORTB bd AVR_OE s;
          s = nop bd (nop bd (nop bd (nop bd (nop bd s))));
          (data, s) = in_PINA bd s;
          s = sbi_PORTB bd AVR_OE s
      in (data, s))"

definition SRAM_write :: "'b bd \<Rightarrow> u32 \<Rightarrow> u8 \<Rightarrow> 'b avr \<Rightarrow> 'b avr" where
  "SRAM_write bd addr data s =
     (let s = out_DDRA bd 0xff s;
          s = sreg_set bd addr s;
          s = sbi_PORTB bd AVR_OE s;
          s = sbi_PORTB bd AVR_WE s;
          s = nop bd (nop bd s);
          s = out_PORTA bd data s;
          s = cbi_PORTB bd AVR_WE s;
          s = nop bd (nop bd (nop bd (nop bd s)));
          s = sbi_PORTB bd AVR_WE s
      in s)"

text \<open>The address parameter of \<open>SRAM_burst_start\<close> is an \<open>uint8_t\<close>.\<close>

definition SRAM_burst_start :: "'b bd \<Rightarrow> u8 \<Rightarrow> 'b avr \<Rightarrow> 'b avr" where
  "SRAM_burst_start bd addr s =
     (let s = out_DDRA bd 0xff s;
          s = sreg_set bd (ucast addr) s;
          s = sbi_PORTB bd AVR_OE s;
          s = sbi_PORTB bd AVR_WE s;
          s = nop bd (nop bd s);
          s = cbi_PORTB bd AVR_WE s
      in s)"

definition SRAM_burst_write :: "'b bd \<Rightarrow> u8 \<Rightarrow> 'b avr \<Rightarrow> 'b avr" where
  "SRAM_burst_write bd data s =
     (let s = out_PORTA bd data s
      in nop bd (nop bd (nop bd (nop bd (nop bd s)))))"

definition SRAM_burst_inc :: "'b bd \<Rightarrow> 'b avr \<Rightarrow> 'b avr" where
  "SRAM_burst_inc bd s = (let s = cbi_PORTB bd AVR_COUNTER s in sbi_PORTB bd AVR_COUNTER s)"

definition SRAM_burst_end :: "'b bd \<Rightarrow> 'b avr \<Rightarrow> 'b avr" where
  "SRAM_burst_end bd s = (let s = sbi_PORTB bd AVR_OE s in sbi_PORTB bd AVR_WE s)"

definition init :: "'b bd \<Rightarrow> 'b avr \<Rightarrow> 'b avr" where
  "init bd s =
     (let s = out_DDRB bd 0xff s;
          s = out_DDRA bd 0xff s;
          s = sbi_PORTB bd AVR_OE s;
          s = sbi_PORTB bd AVR_WE s;
          s = sbi_PORTB bd AVR_SREG_EN s;
          s = sbi_PORTB bd AVR_COUNTER s;
          s = sbi_PORTB bd AVR_RESET s;
          s = wait_us bd s;
          s = cbi_PORTB bd AVR_RESET s;
          s = wait_us bd s
      in uart_putstring (avr_putchar bd) (cstr ''init'' @ [LF, CR]) s)"

section \<open>Test loops\<close>

text \<open>
  \<open>itoa(v, buf, 16)\<close> of a byte: the lower-case digits without leading zeros, stored with a
  terminating zero into \<open>buf\<close>.  A buffer that is too short is overrun, which C leaves undefined:
  \<open>None\<close>.
\<close>

definition hex_digit :: "u8 \<Rightarrow> u8" where
  "hex_digit n = (if n < 10 then 48 + n else 87 + n)"

definition itoa16 :: "u8 \<Rightarrow> u8 list" where
  "itoa16 v = (if v < 16 then [hex_digit v] else [hex_digit (v div 16), hex_digit (v mod 16)])"

definition put_hex :: "'b bd \<Rightarrow> nat \<Rightarrow> u8 \<Rightarrow> 'b avr \<Rightarrow> 'b avr option" where
  "put_hex bd sz v s =
     (if length (itoa16 v) + 1 \<le> sz then Some (uart_putstring (avr_putchar bd) (itoa16 v) s) else None)"

definition print :: "'b bd \<Rightarrow> u8 list \<Rightarrow> 'b avr \<Rightarrow> 'b avr" where
  "print bd str s = uart_putstring (avr_putchar bd) str s"

text \<open>One of the four reports of \<open>read_back\<close>, into its two-byte buffer.\<close>

definition read_report :: "'b bd \<Rightarrow> 'b avr \<Rightarrow> 'b avr option" where
  "read_report bd s =
     do {
       let (byte, s) = SRAM_read bd 0x00000000 s;
       s \<leftarrow> put_hex bd 2 byte s;
       Some (avr_putchar bd LF (avr_putchar bd CR s))
     }"

definition read_back :: "'b bd \<Rightarrow> 'b avr \<Rightarrow> 'b avr option" where
  "read_back bd s =
     do {
       let s = print bd (cstr ''read_back'' @ [LF, CR]) s;
       let s = sbi_PORTB bd AVR_SREG_EN s;
       let s = SRAM_write bd 0x00000000 0xaa s;
       s \<leftarrow> read_report bd s;
       let s = wait_us bd (cbi_PORTB bd AVR_SREG_EN s);
       let s = SRAM_write bd 0x00000000 0xbb s;
       s \<leftarrow> read_report bd s;
       let s = wait_us bd (sbi_PORTB bd AVR_SREG_EN s);
       s \<leftarrow> read_report bd s;
       let s = wait_us bd (cbi_PORTB bd AVR_SREG_EN s);
       read_report bd s
     }"

text \<open>A counting \<open>for\<close> loop whose body may fail.\<close>

fun for_loop :: "(nat \<Rightarrow> 's \<Rightarrow> 's option) \<Rightarrow> nat list \<Rightarrow> 's \<Rightarrow> 's option" where
  "for_loop body [] s = Some s"
| "for_loop body (i # is) s = do { s \<leftarrow> body i s; for_loop body is s }"

definition write_loop_body :: "'b bd \<Rightarrow> nat \<Rightarrow> 'b avr \<Rightarrow> 'b avr option" where
  "write_loop_body bd i s =
     do {
       s \<leftarrow> put_hex bd 3 (of_nat i) s;
       let s = avr_putchar bd (of_char (CHR '':'')) s;
       let s = SRAM_write bd (of_nat i) (of_nat i) s;
       let (byte, s) = SRAM_read bd (of_nat i) s;
       s \<leftarrow> put_hex bd 3 byte s;
       Some (print bd [LF, CR] s)
     }"

definition read_loop_body :: "'b bd \<Rightarrow> nat \<Rightarrow> 'b avr \<Rightarrow> 'b avr option" where
  "read_loop_body bd i s =
     do {
       let (byte, s) = SRAM_read bd (of_nat i) (nop bd s);
       s \<leftarrow> put_hex bd 3 byte s;
       Some (avr_putchar bd (of_char (CHR '' '')) s)
     }"

definition write_loop :: "'b bd \<Rightarrow> 'b avr \<Rightarrow> 'b avr option" where
  "write_loop bd s =
     do {
       let s = print bd (cstr ''write_loop'' @ [LF, CR]) s;
       s \<leftarrow> for_loop (write_loop_body bd) [0..<0x10] s;
       let s = print bd (cstr ''Read'' @ [LF, CR]) s;
       for_loop (\<lambda>j s. do {
           s \<leftarrow> for_loop (read_loop_body bd) [0..<0x10] s;
           Some (print bd [LF, CR] s)
         }) [0..<10] s
     }"

abbreviation (input) BLOCK_SIZE :: nat where "BLOCK_SIZE \<equiv> 0x1000"

definition progress_dot :: "'b bd \<Rightarrow> nat \<Rightarrow> 'b avr \<Rightarrow> 'b avr" where
  "progress_dot bd i s =
     (if i mod (BLOCK_SIZE div 10) = 0 then avr_putchar bd (of_char (CHR ''.'')) s else s)"

text \<open>The read-back half that both block tests end with.\<close>

definition dump_body :: "'b bd \<Rightarrow> nat \<Rightarrow> 'b avr \<Rightarrow> 'b avr option" where
  "dump_body bd i s =
     do {
       let (byte, s) = SRAM_read bd (of_nat i) s;
       s \<leftarrow> put_hex bd 8 byte s;
       let s = avr_putchar bd (of_char (CHR '' '')) s;
       Some (if i \<noteq> 0 \<and> i mod 32 = 0 then print bd [LF, CR] s else s)
     }"

definition dump_block :: "'b bd \<Rightarrow> 'b avr \<Rightarrow> 'b avr option" where
  "dump_block bd s =
     do {
       let s = print bd (cstr ''done'' @ [LF, CR]) s;
       s \<leftarrow> for_loop (dump_body bd) [0..<BLOCK_SIZE] s;
       Some (print bd (cstr ''done'' @ [LF, CR]) s)
     }"

definition big_block_body :: "'b bd \<Rightarrow> nat \<Rightarrow> 'b avr \<Rightarrow> 'b avr" where
  "big_block_body bd i s = SRAM_write bd (of_nat i) (of_nat i AND 0xff) (progress_dot bd i s)"

definition write_big_block :: "'b bd \<Rightarrow> 'b avr \<Rightarrow> 'b avr option" where
  "write_big_block bd s =
     dump_block bd (fold (big_block_body bd) [0..<BLOCK_SIZE]
       (print bd (cstr ''write_big_loop'' @ [LF, CR]) s))"

definition burst_body :: "'b bd \<Rightarrow> nat \<Rightarrow> 'b avr \<Rightarrow> 'b avr" where
  "burst_body bd i s = SRAM_burst_inc bd (SRAM_burst_write bd (0xff - of_nat i) (progress_dot bd i s))"

definition write_burst_big_block :: "'b bd \<Rightarrow> 'b avr \<Rightarrow> 'b avr option" where
  "write_burst_big_block bd s =
     (let s = print bd (cstr ''write_big_loop'' @ [LF, CR]) s;
          s = SRAM_burst_start bd 0x000000 s;
          s = fold (burst_body bd) [0..<BLOCK_SIZE] s
      in dump_block bd (SRAM_burst_end bd s))"

text \<open>
  \<open>toggle_sreg_pattern\<close> never returns; between two patterns it blocks in \<open>uart_getchar\<close>.  The
  list holds the cycles each call of \<open>uart_getchar\<close> that did return has waited, and the result is
  the state in which the next call blocks.
\<close>

fun toggle_pattern :: "nat \<Rightarrow> string \<times> u32" where
  "toggle_pattern 0 = (''sreg: 0x5555'', 0x5555)"
| "toggle_pattern (Suc 0) = (''sreg: 0xaaaa'', 0xaaaa)"
| "toggle_pattern (Suc (Suc 0)) = (''sreg: 0x0000'', 0x0000)"
| "toggle_pattern (Suc (Suc (Suc n))) = (''sreg: 0x000f'', 0x000f)"

definition toggle_step :: "'b bd \<Rightarrow> nat \<Rightarrow> 'b avr \<Rightarrow> 'b avr" where
  "toggle_step bd i s =
     (let (msg, addr) = toggle_pattern (i mod 4)
      in sreg_set bd addr (print bd (cstr msg @ [LF, CR]) s))"

fun toggle_sreg_pattern :: "'b bd \<Rightarrow> nat \<Rightarrow> nat list \<Rightarrow> 'b avr \<Rightarrow> 'b avr" where
  "toggle_sreg_pattern bd i [] s = toggle_step bd i s"
| "toggle_sreg_pattern bd i (w # ws) s = toggle_sreg_pattern bd (Suc i) ws (cycles bd w (toggle_step bd i s))"

text \<open>\<open>uart_init\<close> writes the USART's registers only.\<close>

definition main :: "'b bd \<Rightarrow> nat list \<Rightarrow> 'b avr \<Rightarrow> 'b avr" where
  "main bd waits s = toggle_sreg_pattern bd 0 waits (init bd s)"

section \<open>The board\<close>

definition pins_of :: "u8 \<Rightarrow> u8 \<Rightarrow> u8 \<Rightarrow> u8 \<Rightarrow> pins" where
  "pins_of porta ddra portb ddrb =
     \<lparr>avr_counter_n = bit portb AVR_COUNTER, avr_we_n = bit portb AVR_WE,
      avr_oe_n = bit portb AVR_OE, avr_si = bit portb AVR_SI,
      avr_sreg_en_n = bit portb AVR_SREG_EN, avr_reset = bit portb AVR_RESET,
      avr_data = (if ddra = 0xff then Some porta else None)\<rparr>"

text \<open>
  The instance: one CPU cycle is one period of the CPLD's \<open>avr_clk\<close>; a floating data net reads
  as some level \<open>fl\<close>.
\<close>

definition quickdev :: "nat \<Rightarrow> u8 \<Rightarrow> board bd" where
  "quickdev ovh fl =
     \<lparr>bd_tick = (\<lambda>pa da pb db. tick (pins_of pa da pb db)),
      bd_pina = (\<lambda>pa da pb db b. case avr_net (pins_of pa da pb db) b of Some v \<Rightarrow> v | None \<Rightarrow> fl),
      bd_ovh = ovh\<rparr>"

end
