(* ===== verification/Sreg_Proofs.thy ===== *)
theory Sreg_Proofs
  imports Sreg_Poc
begin

text \<open>
  The firmware of \<open>Sreg_Poc\<close> on the CPLD of \<open>Cpld\<close>: one CPU cycle of the board in closed form,
  the address register after \<open>sreg_set\<close>, and what \<open>SRAM_write\<close>, \<open>SRAM_read\<close> and the burst
  functions do to the SRAM, for every phase of the CPLD's clock divider and every overhead of
  the compiled loops.
\<close>

section \<open>One CPU cycle of the board\<close>

definition clk_ok :: "'x board_scheme \<Rightarrow> bool" where
  "clk_ok b \<longleftrightarrow> cd_count (dcm0 b) = 0 \<and> cd_count (dcm1 b) = 0 \<and>
     cd_out1 (dcm0 b) = cd_out1 (dcm1 b)"

definition flip :: "clockdivide \<Rightarrow> clockdivide" where
  "flip c = c\<lparr>cd_out1 := \<not> cd_out1 c\<rparr>"

definition cpld_edge :: "pins \<Rightarrow> 'x board_scheme \<Rightarrow> 'x board_scheme" where
  "cpld_edge p b =
     b\<lparr>sreg0 := sreg_posedge (avr_si p) (avr_sreg_en_n p) (avr_counter_n p) (sreg0 b),
       bus_fsm0 := fsm_posedge False (avr_we_n p) (avr_oe_n p) (avr_net p b) (sram_net p b) (bus_fsm0 b)\<rparr>"

definition phase :: "'x board_scheme \<Rightarrow> bool" where
  "phase b = cd_out1 (dcm0 b)"

lemma posedge_two: "\<not> reset \<Longrightarrow> cd_count c = 0 \<Longrightarrow> clockdivide_posedge reset True 2 c = c"
  by (simp add: clockdivide_posedge_def cd_m_def)

lemma negedge_two: "\<not> reset \<Longrightarrow> cd_count c = 0 \<Longrightarrow> clockdivide_negedge reset True 2 c = flip c"
  by (simp add: clockdivide_negedge_def cd_m_def cd_dbn_en_def flip_def)

lemma out_two: "clockdivide_out clk True 2 c = cd_out1 c"
  by (simp add: clockdivide_out_def cd_dbn_en_def)

lemma flip_sel [simp]: "cd_count (flip c) = cd_count c" "cd_out1 (flip c) = (\<not> cd_out1 c)"
  by (simp_all add: flip_def)

lemma tick_eq:
  assumes "clk_ok b" "\<not> avr_reset p"
  shows "tick p b = sram_write p ((if phase b then b else cpld_edge p b)
           \<lparr>dcm0 := flip (dcm0 b), dcm1 := flip (dcm1 b)\<rparr>)"
proof -
  have old: "dcm_posedge p b = b" using assms by (simp add: dcm_posedge_def posedge_two clk_ok_def)
  have rise: "rises c (flip c) = (\<not> cd_out1 c)" for c by (simp add: rises_def out_two)
  show ?thesis
    using assms
    by (auto simp: tick_def old dcm_negedge_def negedge_two clock_edges_def rise clk_ok_def
        phase_def cpld_edge_def intro!: arg_cong [where f = "sram_write p"] board.equality)
qed

text \<open>The projections of a cycle: which clocked parts move depends on the divider's phase.\<close>

lemma sram_write_sel [simp]:
  "dcm0 (sram_write p b) = dcm0 b" "dcm1 (sram_write p b) = dcm1 b"
  "sreg0 (sram_write p b) = sreg0 b" "bus_fsm0 (sram_write p b) = bus_fsm0 b"
  by (simp_all add: sram_write_def)

lemma cpld_edge_sel [simp]:
  "dcm0 (cpld_edge p b) = dcm0 b" "dcm1 (cpld_edge p b) = dcm1 b" "cells (cpld_edge p b) = cells b"
  by (simp_all add: cpld_edge_def)

lemma tick_clk_ok: "clk_ok b \<Longrightarrow> \<not> avr_reset p \<Longrightarrow> clk_ok (tick p b)"
  by (simp add: tick_eq) (simp add: clk_ok_def)

lemma tick_phase: "clk_ok b \<Longrightarrow> \<not> avr_reset p \<Longrightarrow> phase (tick p b) = (\<not> phase b)"
  by (simp add: tick_eq) (simp add: phase_def)

lemma tick_sreg:
  "clk_ok b \<Longrightarrow> \<not> avr_reset p \<Longrightarrow> sreg0 (tick p b) =
     (if phase b then sreg0 b
      else sreg_posedge (avr_si p) (avr_sreg_en_n p) (avr_counter_n p) (sreg0 b))"
  by (simp add: tick_eq cpld_edge_def)

lemma tick_fsm:
  "clk_ok b \<Longrightarrow> \<not> avr_reset p \<Longrightarrow> bus_fsm0 (tick p b) =
     (if phase b then bus_fsm0 b
      else fsm_posedge False (avr_we_n p) (avr_oe_n p) (avr_net p b) (sram_net p b) (bus_fsm0 b))"
  by (simp add: tick_eq cpld_edge_def)

lemma tick_cells:
  "clk_ok b \<Longrightarrow> \<not> avr_reset p \<Longrightarrow> cells (tick p b) =
     (if avr_we_n p then cells b
      else (cells b)(sreg0 (tick p b) := buffer_sram (bus_fsm0 (tick p b))))"
  by (simp add: tick_eq sram_write_def sram_ce_n_def sram_net_def sram_drive_def resolve_def
      split: option.split)

lemmas tick_sel = tick_clk_ok tick_phase tick_sreg tick_fsm tick_cells

definition sreg_hold :: "pins \<Rightarrow> bool" where
  "sreg_hold p \<longleftrightarrow> \<not> avr_reset p \<and> avr_sreg_en_n p \<and> avr_counter_n p"

lemma sreg_posedge_hold: "sreg_hold p \<Longrightarrow> sreg_posedge si (avr_sreg_en_n p) (avr_counter_n p) a = a"
  by (simp add: sreg_posedge_def sreg_hold_def)

section \<open>Many cycles with the pins held\<close>

text \<open>The number of divider edges in \<open>n\<close> cycles, from the phase at the start.\<close>

definition n_edges :: "bool \<Rightarrow> nat \<Rightarrow> nat" where
  "n_edges ph n = (if ph then n div 2 else (n + 1) div 2)"

lemma n_edges_0 [simp]: "n_edges ph 0 = 0"
  by (simp add: n_edges_def)

lemma n_edges_Suc: "n_edges ph (Suc n) = (if ph = even n then n_edges ph n else Suc (n_edges ph n))"
  by (auto simp: n_edges_def elim!: evenE oddE)

lemma ticks_clk_ok: "clk_ok b \<Longrightarrow> \<not> avr_reset p \<Longrightarrow> clk_ok ((tick p ^^ n) b)"
  by (induction n) (simp_all add: tick_clk_ok)

lemma ticks_phase: "clk_ok b \<Longrightarrow> \<not> avr_reset p \<Longrightarrow> phase ((tick p ^^ n) b) = (phase b = even n)"
  by (induction n) (auto simp add: tick_phase ticks_clk_ok)

lemma ticks_hold: "clk_ok b \<Longrightarrow> sreg_hold p \<Longrightarrow> sreg0 ((tick p ^^ n) b) = sreg0 b"
  by (induction n) (simp_all add: tick_sreg ticks_clk_ok sreg_posedge_def sreg_hold_def)

text \<open>A two-cycle pulse contains exactly one edge, whatever the phase.\<close>

lemma two_ticks_sreg:
  assumes "clk_ok b" "\<not> avr_reset p"
  shows "sreg0 ((tick p ^^ 2) b) =
    sreg_posedge (avr_si p) (avr_sreg_en_n p) (avr_counter_n p) (sreg0 b)"
  using assms by (auto simp: eval_nat_numeral tick_sel)

subsection \<open>Bus idle\<close>

definition fsm_idle :: "bus_fsm \<Rightarrow> bool" where
  "fsm_idle f \<longleftrightarrow> fsm_state f = St_IDLE \<and> buffer_avr f = None \<and> buffer_sram f = None \<and> fsm_buffer f = None"

definition fsm_ok :: "bus_fsm \<Rightarrow> bool" where
  "fsm_ok f \<longleftrightarrow> (fsm_state f = St_IDLE \<longrightarrow> fsm_idle f)"

definition bus_quiet :: "pins \<Rightarrow> bool" where
  "bus_quiet p \<longleftrightarrow> \<not> avr_reset p \<and> avr_we_n p \<and> avr_oe_n p"

lemma fsm_posedge_ok: "fsm_ok f \<Longrightarrow> fsm_ok (fsm_posedge r we oe x y f)"
  by (cases "fsm_state f") (auto simp: fsm_posedge_def fsm_ok_def fsm_idle_def Let_def)

lemma fsm_posedge_quiet: "fsm_ok f \<Longrightarrow> fsm_idle (fsm_posedge False True True x y f)"
  by (cases "fsm_state f") (auto simp: fsm_posedge_def fsm_ok_def fsm_idle_def Let_def)

lemma ticks_fsm_ok:
  "clk_ok b \<Longrightarrow> \<not> avr_reset p \<Longrightarrow> fsm_ok (bus_fsm0 b) \<Longrightarrow> fsm_ok (bus_fsm0 ((tick p ^^ n) b))"
  by (induction n) (simp_all add: tick_fsm ticks_clk_ok fsm_posedge_ok)

lemma ticks_quiet_cells: "clk_ok b \<Longrightarrow> bus_quiet p \<Longrightarrow> cells ((tick p ^^ n) b) = cells b"
  by (induction n) (simp_all add: tick_cells ticks_clk_ok bus_quiet_def)

lemma fsm_idle_ok: "fsm_idle f \<Longrightarrow> fsm_ok f"
  by (simp add: fsm_ok_def)

lemma ticks_quiet_idle:
  assumes "clk_ok b" "bus_quiet p" "fsm_ok (bus_fsm0 b)" "2 \<le> n \<or> fsm_idle (bus_fsm0 b)"
  shows "fsm_idle (bus_fsm0 ((tick p ^^ n) b))"
proof -
  have step: "fsm_idle (bus_fsm0 ((tick p ^^ k) b))" if "fsm_idle (bus_fsm0 b)" "clk_ok b" for k and b :: "'a board_scheme"
    using that assms(2)
    by (induction k) (simp_all add: tick_fsm ticks_clk_ok bus_quiet_def fsm_posedge_quiet fsm_idle_ok)
  show ?thesis
  proof (cases "fsm_idle (bus_fsm0 b)")
    case True
    then show ?thesis using step assms(1) by blast
  next
    case False
    then obtain m where n: "n = m + 2" using assms(4) by (metis add.commute le_Suc_ex)
    have "fsm_idle (bus_fsm0 ((tick p ^^ 2) b))"
      using assms(1-3) by (auto simp: eval_nat_numeral tick_sel bus_quiet_def fsm_posedge_quiet)
    moreover have "clk_ok ((tick p ^^ 2) b)"
      using assms(1,2) by (simp add: bus_quiet_def ticks_clk_ok)
    ultimately show ?thesis using step by (simp only: n funpow_add o_apply)
  qed
qed

subsection \<open>Write enabled\<close>

text \<open>
  The state machine after 0, 1 and at least 2 edges with write enabled: the byte moves from the
  AVR net into the buffer and then onto the SRAM net, where it stays.
\<close>

fun wr_stage :: "nat \<Rightarrow> u8 \<Rightarrow> bus_fsm \<Rightarrow> bool" where
  "wr_stage 0 d f \<longleftrightarrow> fsm_idle f"
| "wr_stage (Suc 0) d f \<longleftrightarrow> fsm_state f = St_BUFAVR \<and> fsm_buffer f = Some d \<and>
     buffer_avr f = None \<and> buffer_sram f = None"
| "wr_stage (Suc (Suc k)) d f \<longleftrightarrow> (fsm_state f = St_WE \<or> fsm_state f = St_BUFAVR) \<and>
     fsm_buffer f = Some d \<and> buffer_avr f = None \<and> buffer_sram f = Some d"

definition bus_write :: "pins \<Rightarrow> u8 \<Rightarrow> bool" where
  "bus_write p d \<longleftrightarrow> \<not> avr_reset p \<and> \<not> avr_we_n p \<and> avr_oe_n p \<and> avr_data p = Some d"

lemma wr_stage_edge:
  "wr_stage k d f \<Longrightarrow> wr_stage (Suc k) d
     (fsm_posedge False False True (resolve (Some d) (buffer_avr f)) y f)"
  by (cases "(k, d, f)" rule: wr_stage.cases)
     (auto simp: fsm_posedge_def fsm_idle_def resolve_def)

lemma ticks_wr_stage:
  assumes "clk_ok b" "bus_write p d" "wr_stage k d (bus_fsm0 b)"
  shows "wr_stage (k + n_edges (phase b) n) d (bus_fsm0 ((tick p ^^ n) b))"
  using assms
  by (induction n)
     (auto simp: bus_write_def tick_fsm ticks_clk_ok ticks_phase n_edges_Suc avr_net_def wr_stage_edge)

lemma ticks_wr_cells:
  assumes "clk_ok b" "\<not> avr_we_n p" "sreg_hold p"
  shows "cells ((tick p ^^ Suc n) b) = (cells b)(sreg0 b := buffer_sram (bus_fsm0 ((tick p ^^ Suc n) b)))"
proof (induction n)
  case 0
  then show ?case using assms ticks_hold [of b p 1] by (simp add: tick_cells sreg_hold_def)
next
  case (Suc n)
  have "sreg0 ((tick p ^^ Suc (Suc n)) b) = sreg0 b" using assms ticks_hold by blast
  moreover have "clk_ok ((tick p ^^ Suc n) b)" using assms by (intro ticks_clk_ok) (simp_all add: sreg_hold_def)
  ultimately show ?case
    using assms Suc tick_cells [of "(tick p ^^ Suc n) b" p]
    by (simp add: sreg_hold_def del: fun_upd_apply)
qed

lemma wr_stage_2: "2 \<le> k \<Longrightarrow> wr_stage k d f \<Longrightarrow> wr_stage 2 d f"
  by (cases "(k, d, f)" rule: wr_stage.cases) (auto simp: eval_nat_numeral)

subsection \<open>Output enabled\<close>

fun rd_stage :: "nat \<Rightarrow> u8 option \<Rightarrow> bus_fsm \<Rightarrow> bool" where
  "rd_stage 0 v f \<longleftrightarrow> fsm_idle f"
| "rd_stage (Suc 0) v f \<longleftrightarrow> fsm_state f = St_BUFSRAM \<and> fsm_buffer f = v \<and>
     buffer_avr f = None \<and> buffer_sram f = None"
| "rd_stage (Suc (Suc k)) v f \<longleftrightarrow> (fsm_state f = St_OE \<or> fsm_state f = St_BUFSRAM) \<and>
     fsm_buffer f = v \<and> buffer_avr f = v \<and> buffer_sram f = None"

definition bus_read :: "pins \<Rightarrow> bool" where
  "bus_read p \<longleftrightarrow> \<not> avr_reset p \<and> avr_we_n p \<and> \<not> avr_oe_n p \<and> avr_data p = None"

lemma rd_stage_sram: "rd_stage k v f \<Longrightarrow> buffer_sram f = None"
  by (cases "(k, v, f)" rule: rd_stage.cases) (auto simp: fsm_idle_def)

lemma rd_stage_edge:
  "rd_stage k v f \<Longrightarrow> rd_stage (Suc k) v (fsm_posedge False True False x v f)"
  by (cases "(k, v, f)" rule: rd_stage.cases) (auto simp: fsm_posedge_def fsm_idle_def)

lemma ticks_rd_cells: "clk_ok b \<Longrightarrow> bus_read p \<Longrightarrow> cells ((tick p ^^ n) b) = cells b"
  by (induction n) (simp_all add: tick_cells ticks_clk_ok bus_read_def)

lemma ticks_rd_stage:
  assumes "clk_ok b" "bus_read p" "sreg_hold p" "rd_stage k (cells b (sreg0 b)) (bus_fsm0 b)"
  shows "rd_stage (k + n_edges (phase b) n) (cells b (sreg0 b)) (bus_fsm0 ((tick p ^^ n) b))"
proof (induction n)
  case 0
  show ?case using assms by simp
next
  case (Suc n)
  let ?b = "(tick p ^^ n) b"
  have ok: "clk_ok ?b" "\<not> avr_reset p" "phase ?b = (phase b = even n)"
    using assms by (simp_all add: ticks_clk_ok ticks_phase bus_read_def)
  have "buffer_sram (bus_fsm0 ?b) = None" using Suc by (rule rd_stage_sram)
  then have "sram_net p ?b = cells b (sreg0 b)"
    using assms by (simp add: sram_net_def sram_drive_def sram_ce_n_def resolve_def bus_read_def
      ticks_hold ticks_rd_cells [unfolded bus_read_def])
  then show ?case
    using Suc ok assms(2) by (auto simp: tick_fsm n_edges_Suc rd_stage_edge bus_read_def)
qed

lemma rd_stage_2: "2 \<le> k \<Longrightarrow> rd_stage k v f \<Longrightarrow> rd_stage 2 v f"
  by (cases "(k, v, f)" rule: rd_stage.cases) (auto simp: eval_nat_numeral)

section \<open>Port statements on the board\<close>

definition avr_pins :: "'b avr \<Rightarrow> pins" where
  "avr_pins s = pins_of (PORTA s) (DDRA s) (PORTB s) (DDRB s)"

lemma cycles_brd: "brd (cycles (quickdev ovh fl) n s) = (tick (avr_pins s) ^^ n) (brd s)"
  by (simp add: cycles_def quickdev_def avr_pins_def)

lemma cycles_ports [simp]:
  "PORTA (cycles bd n s) = PORTA s" "DDRA (cycles bd n s) = DDRA s" "PORTB (cycles bd n s) = PORTB s"
  "DDRB (cycles bd n s) = DDRB s" "uart_tx (cycles bd n s) = uart_tx s"
  by (simp_all add: cycles_def)

text \<open>What every step between two bus accesses keeps, and what it does not touch.\<close>

definition bus_ready :: "board avr \<Rightarrow> bool" where
  "bus_ready s \<longleftrightarrow> clk_ok (brd s) \<and> fsm_ok (bus_fsm0 (brd s)) \<and>
     bit (PORTB s) AVR_WE \<and> bit (PORTB s) AVR_OE \<and> \<not> bit (PORTB s) AVR_RESET"

definition ready :: "board avr \<Rightarrow> bool" where
  "ready s \<longleftrightarrow> bus_ready s \<and> bit (PORTB s) AVR_SREG_EN \<and> bit (PORTB s) AVR_COUNTER"

definition same_data :: "board avr \<Rightarrow> board avr \<Rightarrow> bool" where
  "same_data s t \<longleftrightarrow> cells (brd t) = cells (brd s) \<and> PORTA t = PORTA s \<and> DDRA t = DDRA s \<and>
     uart_tx t = uart_tx s"

lemma same_data_refl [simp]: "same_data s s"
  by (simp add: same_data_def)

lemma same_data_trans: "same_data s t \<Longrightarrow> same_data t u \<Longrightarrow> same_data s u"
  by (simp add: same_data_def)

lemma avr_pins_sel [simp]:
  "avr_we_n (avr_pins s) = bit (PORTB s) AVR_WE" "avr_oe_n (avr_pins s) = bit (PORTB s) AVR_OE"
  "avr_si (avr_pins s) = bit (PORTB s) AVR_SI" "avr_reset (avr_pins s) = bit (PORTB s) AVR_RESET"
  "avr_sreg_en_n (avr_pins s) = bit (PORTB s) AVR_SREG_EN"
  "avr_counter_n (avr_pins s) = bit (PORTB s) AVR_COUNTER"
  "avr_data (avr_pins s) = (if DDRA s = 0xff then Some (PORTA s) else None)"
  by (simp_all add: avr_pins_def pins_of_def)

lemma quiet_cycles:
  assumes "bus_ready s"
  shows "bus_ready (cycles (quickdev ovh fl) n s)" "same_data s (cycles (quickdev ovh fl) n s)"
  using assms
  by (simp_all add: bus_ready_def same_data_def cycles_brd ticks_clk_ok ticks_fsm_ok
      ticks_quiet_cells bus_quiet_def)

lemma quiet_portb:
  assumes "bus_ready s" "v = PORTB s OR BV k \<or> v = PORTB s AND NOT (BV k)" "k \<in> {2, 3, 6}"
  shows "bus_ready (cycles (quickdev ovh fl) n (s\<lparr>PORTB := v\<rparr>))"
    "same_data s (cycles (quickdev ovh fl) n (s\<lparr>PORTB := v\<rparr>))"
proof -
  have r: "bus_ready (s\<lparr>PORTB := v\<rparr>)" using assms by (auto simp: bus_ready_def)
  then show "bus_ready (cycles (quickdev ovh fl) n (s\<lparr>PORTB := v\<rparr>))" by (rule quiet_cycles)
  have "same_data (s\<lparr>PORTB := v\<rparr>) (cycles (quickdev ovh fl) n (s\<lparr>PORTB := v\<rparr>))"
    using r by (rule quiet_cycles)
  then show "same_data s (cycles (quickdev ovh fl) n (s\<lparr>PORTB := v\<rparr>))" by (simp add: same_data_def)
qed

lemma hold_cycles:
  assumes "ready s"
  shows "ready (cycles (quickdev ovh fl) n s)" "same_data s (cycles (quickdev ovh fl) n s)"
    "sreg0 (brd (cycles (quickdev ovh fl) n s)) = sreg0 (brd s)"
  using assms quiet_cycles [of s ovh fl n]
  by (simp_all add: ready_def cycles_brd ticks_hold sreg_hold_def bus_ready_def)

section \<open>The address register\<close>

lemma push_sreg_bit:
  "push_bit i (sreg_posedge (bit a i) False c x) OR take_bit i a = push_bit (Suc i) x OR take_bit (Suc i) a"
  (is "?l = ?r")
proof (rule bit_word_eqI)
  fix n
  assume "n < LENGTH(21)"
  then show "bit ?l n = bit ?r n"
    by (cases "n < i"; cases "n = i")
       (auto simp: sreg_posedge_def bit_simps less_Suc_eq not_less bit_0)
qed

text \<open>One round of the loop: the data bit is put on the pin and clocked in by the pulse.\<close>

lemma sreg_round:
  fixes addr :: u32
  assumes "ready s" "u = cycles (quickdev ovh fl) ovh s"
    "v = (if addr AND push_bit i 1 \<noteq> 0 then sbi_PORTB (quickdev ovh fl) AVR_SI u
          else cbi_PORTB (quickdev ovh fl) AVR_SI u)"
    "w = cbi_PORTB (quickdev ovh fl) AVR_SREG_EN v" "t = sbi_PORTB (quickdev ovh fl) AVR_SREG_EN w"
  shows "ready t \<and> same_data s t \<and> sreg0 (brd t) = sreg_posedge (bit addr i) False True (sreg0 (brd s))"
proof -
  have u: "ready u" "same_data s u" "sreg0 (brd u) = sreg0 (brd s)"
    using assms(1,2) hold_cycles by blast+
  have test: "addr AND push_bit i 1 \<noteq> 0 \<longleftrightarrow> bit addr i"
    using and_BV_zero_iff [of addr i] by (simp add: BV_def)
  define vb where "vb = (if bit addr i then PORTB u OR BV 3 else PORTB u AND NOT (BV 3))"
  have v: "v = cycles (quickdev ovh fl) 2 (u\<lparr>PORTB := vb\<rparr>)"
    unfolding assms(3) test vb_def sbi_PORTB_def cbi_PORTB_def by simp
  have rv: "ready (u\<lparr>PORTB := vb\<rparr>)" using u(1) by (auto simp: ready_def bus_ready_def vb_def)
  then have v': "ready v" "same_data u v" "sreg0 (brd v) = sreg0 (brd u)" "bit (PORTB v) AVR_SI = bit addr i"
    using hold_cycles [OF rv, of ovh fl 2] by (auto simp: v same_data_def vb_def)
  then have w: "bus_ready w" "same_data v w"
    using quiet_portb [of v "PORTB v AND NOT (BV 2)" 2 ovh fl 2] assms(4) by (auto simp: cbi_PORTB_def ready_def)
  have sw: "sreg0 (brd w) = sreg_posedge (bit addr i) False True (sreg0 (brd v))"
    using v' by (simp add: assms(4) cbi_PORTB_def cycles_brd two_ticks_sreg ready_def bus_ready_def)
  have "ready (w\<lparr>PORTB := PORTB w OR BV 2\<rparr>)"
    using w(1) v'(1) by (simp add: assms(4) cbi_PORTB_def ready_def bus_ready_def)
  from hold_cycles [OF this, of ovh fl 2]
  have "ready t" "same_data w t" "sreg0 (brd t) = sreg0 (brd w)"
    by (auto simp: assms(5) sbi_PORTB_def same_data_def)
  then show ?thesis using u v' w sw same_data_trans by metis
qed

lemma sreg_loop_ready:
  assumes "ready s"
  shows "ready (sreg_loop (quickdev ovh fl) addr i s) \<and> same_data s (sreg_loop (quickdev ovh fl) addr i s) \<and>
    sreg0 (brd (sreg_loop (quickdev ovh fl) addr i s)) = push_bit i (sreg0 (brd s)) OR take_bit i (ucast addr)"
  using assms
proof (induction i arbitrary: s)
  case 0
  then show ?case by simp
next
  case (Suc i)
  let ?Q = "quickdev ovh fl"
  define t where "t = (let s = cycles ?Q (bd_ovh ?Q) s;
          s = (if addr AND push_bit i 1 \<noteq> 0 then sbi_PORTB ?Q AVR_SI s else cbi_PORTB ?Q AVR_SI s);
          s = cbi_PORTB ?Q AVR_SREG_EN s in sbi_PORTB ?Q AVR_SREG_EN s)"
  have t: "ready t" "same_data s t" "sreg0 (brd t) = sreg_posedge (bit addr i) False True (sreg0 (brd s))"
    using sreg_round [OF Suc.prems refl refl refl refl, of ovh fl addr i]
    by (auto simp: t_def Let_def quickdev_def)
  have step: "sreg_loop ?Q addr (Suc i) s = sreg_loop ?Q addr i t"
    by (simp add: t_def Let_def)
  have bit: "i < 21 \<Longrightarrow> bit (ucast addr :: saddr) i = bit addr i" by (simp add: bit_simps)
  have "push_bit i (sreg_posedge (bit addr i) False True (sreg0 (brd s))) OR take_bit i (ucast addr) =
      push_bit (Suc i) (sreg0 (brd s)) OR take_bit (Suc i) (ucast addr)"
  proof (cases "i < 21")
    case True
    then show ?thesis using push_sreg_bit [of i "ucast addr"] bit by simp
  next
    case False
    then show ?thesis by (intro bit_word_eqI) (auto simp: bit_simps)
  qed
  then show ?case using Suc.IH [OF t(1)] t same_data_trans step by metis
qed


lemma set_bit_id: "bit (w :: 'a::len word) n \<Longrightarrow> w OR BV n = w"
  by (intro bit_word_eqI) auto

lemma cycles_cycles: "cycles bd m (cycles bd n s) = cycles bd (m + n) s"
  by (simp add: cycles_def funpow_add)

lemma sbi_id: "bit (PORTB s) n \<Longrightarrow> sbi_PORTB bd n s = cycles bd 2 s"
  by (simp add: sbi_PORTB_def set_bit_id)

text \<open>\<open>sreg_set\<close> loads the register whatever it held and in whatever phase the divider is.\<close>

lemma sreg_set_ready:
  assumes "ready s" "t = sreg_set (quickdev ovh fl) addr s"
  shows "ready t" "same_data s t" "sreg0 (brd t) = ucast addr"
proof -
  let ?Q = "quickdev ovh fl"
  have t: "t = sreg_loop ?Q addr 21 (cycles ?Q 2 s)"
    using assms by (simp add: sreg_set_def sbi_id ready_def)
  have h: "ready (cycles ?Q 2 s)" "same_data s (cycles ?Q 2 s)" using assms(1) by (rule hold_cycles)+
  note l = sreg_loop_ready [OF h(1), of ovh fl addr 21, folded t]
  show "ready t" using l by blast
  show "same_data s t" using l h(2) same_data_trans by blast
  have "push_bit 21 x OR take_bit 21 y = y" for x y :: saddr
    by (intro bit_word_eqI) (auto simp: bit_simps)
  then show "sreg0 (brd t) = ucast addr" using l by simp
qed

section \<open>SRAM accesses\<close>

lemma idle_cycles:
  assumes "ready s" "2 \<le> n \<or> fsm_idle (bus_fsm0 (brd s))"
  shows "fsm_idle (bus_fsm0 (brd (cycles (quickdev ovh fl) n s)))"
  using assms by (auto simp: cycles_brd ready_def bus_ready_def bus_quiet_def intro!: ticks_quiet_idle)

text \<open>
  The common prefix of every access: set the port direction, load the address, disable both
  strobes and let the state machine come to rest.
\<close>

definition access_prefix :: "'b bd \<Rightarrow> u8 \<Rightarrow> u32 \<Rightarrow> 'b avr \<Rightarrow> 'b avr" where
  "access_prefix bd dir addr s =
     (let s = out_DDRA bd dir s; s = sreg_set bd addr s;
          s = sbi_PORTB bd AVR_OE s; s = sbi_PORTB bd AVR_WE s in nop bd (nop bd s))"

lemma ready_data [simp]:
  "ready (s\<lparr>DDRA := d\<rparr>) = ready s" "ready (s\<lparr>PORTA := v\<rparr>) = ready s"
  by (simp_all add: ready_def bus_ready_def)

lemma access_prefix_ready:
  assumes "ready s" "t = access_prefix (quickdev ovh fl) dir addr s"
  shows "ready t" "sreg0 (brd t) = ucast addr" "fsm_idle (bus_fsm0 (brd t))"
    "cells (brd t) = cells (brd s)" "DDRA t = dir" "PORTA t = PORTA s" "uart_tx t = uart_tx s"
proof -
  let ?Q = "quickdev ovh fl"
  define u where "u = cycles ?Q 1 (s\<lparr>DDRA := dir\<rparr>)"
  define v where "v = sreg_set ?Q addr u"
  have u: "ready u" "same_data (s\<lparr>DDRA := dir\<rparr>) u" using hold_cycles assms(1) by (simp_all add: u_def)
  note v = sreg_set_ready [OF u(1) v_def]
  have t: "t = cycles ?Q 6 v"
    using v(1) assms(2)
    by (simp add: access_prefix_def out_DDRA_def u_def v_def nop_def sbi_id ready_def bus_ready_def cycles_cycles)
  note w = hold_cycles [OF v(1), of ovh fl 6, folded t]
  show "ready t" using w by blast
  show "sreg0 (brd t) = ucast addr" using w v by simp
  show "fsm_idle (bus_fsm0 (brd t))" using idle_cycles [OF v(1)] t by simp
  show "cells (brd t) = cells (brd s)" "DDRA t = dir" "PORTA t = PORTA s" "uart_tx t = uart_tx s"
    using u v w by (simp_all add: same_data_def)
qed

lemma n_edges_ge_2: "4 \<le> n \<Longrightarrow> 2 \<le> n_edges ph n"
  by (auto simp: n_edges_def)

lemma write_window:
  assumes "ready s" "fsm_idle (bus_fsm0 (brd s))" "DDRA s = 0xff" "4 \<le> n"
    "t = cycles (quickdev ovh fl) n (s\<lparr>PORTB := PORTB s AND NOT (BV AVR_WE)\<rparr>)"
  shows "cells (brd t) = (cells (brd s))(sreg0 (brd s) := Some (PORTA s))"
    "clk_ok (brd t)" "fsm_ok (bus_fsm0 (brd t))" "sreg0 (brd t) = sreg0 (brd s)"
proof -
  let ?s = "s\<lparr>PORTB := PORTB s AND NOT (BV AVR_WE)\<rparr>"
  let ?p = "avr_pins ?s"
  have p: "clk_ok (brd s)" "bus_write ?p (PORTA s)" "sreg_hold ?p" "\<not> avr_reset ?p" "\<not> avr_we_n ?p"
    using assms(1,3) by (auto simp: ready_def bus_ready_def bus_write_def sreg_hold_def)
  have t: "brd t = (tick ?p ^^ n) (brd s)" by (simp add: assms(5) cycles_brd)
  have "wr_stage (0 + n_edges (phase (brd s)) n) (PORTA s) (bus_fsm0 (brd t))"
    unfolding t using p assms(2) by (intro ticks_wr_stage) simp_all
  then have "wr_stage 2 (PORTA s) (bus_fsm0 (brd t))"
    using wr_stage_2 [OF n_edges_ge_2 [OF assms(4)]] by (metis add_0)
  then have sram: "buffer_sram (bus_fsm0 (brd t)) = Some (PORTA s)" by (simp add: eval_nat_numeral)
  obtain k where n: "n = Suc k" using assms(4) by (cases n) auto
  show "clk_ok (brd t)" unfolding t using p by (intro ticks_clk_ok)
  show "fsm_ok (bus_fsm0 (brd t))"
    unfolding t using p assms(2) by (intro ticks_fsm_ok) (auto simp: fsm_idle_ok)
  show "sreg0 (brd t) = sreg0 (brd s)" unfolding t using p by (intro ticks_hold)
  show "cells (brd t) = (cells (brd s))(sreg0 (brd s) := Some (PORTA s))"
    using ticks_wr_cells [OF p(1) p(5) p(3), of k] sram unfolding t n by simp
qed

lemma read_window:
  assumes "ready s" "fsm_idle (bus_fsm0 (brd s))" "DDRA s = 0" "4 \<le> n"
    "t = cycles (quickdev ovh fl) n (s\<lparr>PORTB := PORTB s AND NOT (BV AVR_OE)\<rparr>)"
  shows "cells (brd t) = cells (brd s)" "avr_net (avr_pins t) (brd t) = cells (brd s) (sreg0 (brd s))"
    "clk_ok (brd t)" "fsm_ok (bus_fsm0 (brd t))" "sreg0 (brd t) = sreg0 (brd s)"
proof -
  let ?s = "s\<lparr>PORTB := PORTB s AND NOT (BV AVR_OE)\<rparr>"
  let ?p = "avr_pins ?s" and ?v = "cells (brd s) (sreg0 (brd s))"
  have p: "clk_ok (brd s)" "bus_read ?p" "sreg_hold ?p" "\<not> avr_reset ?p"
    using assms(1,3) by (auto simp: ready_def bus_ready_def bus_read_def sreg_hold_def)
  have t: "brd t = (tick ?p ^^ n) (brd s)" by (simp add: assms(5) cycles_brd)
  have "rd_stage (0 + n_edges (phase (brd s)) n) ?v (bus_fsm0 (brd t))"
    unfolding t using p assms(2) by (intro ticks_rd_stage) simp_all
  then have "rd_stage 2 ?v (bus_fsm0 (brd t))"
    using rd_stage_2 [OF n_edges_ge_2 [OF assms(4)]] by (metis add_0)
  then have avr: "buffer_avr (bus_fsm0 (brd t)) = ?v" by (simp add: eval_nat_numeral)
  show "clk_ok (brd t)" unfolding t using p by (intro ticks_clk_ok)
  show "fsm_ok (bus_fsm0 (brd t))"
    unfolding t using p assms(2) by (intro ticks_fsm_ok) (auto simp: fsm_idle_ok)
  show "sreg0 (brd t) = sreg0 (brd s)" unfolding t using p by (intro ticks_hold)
  show "cells (brd t) = cells (brd s)" unfolding t using p by (intro ticks_rd_cells)
  show "avr_net (avr_pins t) (brd t) = ?v"
    using avr assms(3) by (simp add: avr_net_def resolve_def assms(5))
qed

lemma ready_after_strobe:
  assumes "ready s" "k = AVR_WE \<or> k = AVR_OE"
    "PORTB t = PORTB s AND NOT (BV k)" "clk_ok (brd t)" "fsm_ok (bus_fsm0 (brd t))"
  shows "ready (t\<lparr>PORTB := PORTB t OR BV k\<rparr>)"
  using assms by (auto simp: ready_def bus_ready_def)

lemma SRAM_write_effect:
  assumes "ready s" "t = SRAM_write (quickdev ovh fl) addr data s"
  shows "ready t" "cells (brd t) = (cells (brd s))(ucast addr := Some data)" "uart_tx t = uart_tx s"
proof -
  let ?Q = "quickdev ovh fl"
  define u where "u = access_prefix ?Q 0xff addr s"
  define v where "v = cycles ?Q 1 (u\<lparr>PORTA := data\<rparr>)"
  define w where "w = cycles ?Q 6 (v\<lparr>PORTB := PORTB v AND NOT (BV AVR_WE)\<rparr>)"
  note u = access_prefix_ready [OF assms(1) u_def]
  have ru: "ready (u\<lparr>PORTA := data\<rparr>)" using u by simp
  note v = hold_cycles [OF ru, of ovh fl 1, folded v_def]
  have vi: "fsm_idle (bus_fsm0 (brd v))" using idle_cycles [OF ru] u by (simp add: v_def)
  have w: "cells (brd w) = (cells (brd v))(sreg0 (brd v) := Some (PORTA v))" "clk_ok (brd w)"
     "fsm_ok (bus_fsm0 (brd w))"
    using write_window [OF v(1) vi _ _ w_def] v u by (auto simp: same_data_def)
  have t: "t = cycles ?Q 2 (w\<lparr>PORTB := PORTB w OR BV AVR_WE\<rparr>)"
    by (simp add: assms(2) SRAM_write_def Let_def u_def v_def w_def access_prefix_def out_PORTA_def
        sbi_PORTB_def cbi_PORTB_def nop_def cycles_cycles eval_nat_numeral)
  have rw: "ready (w\<lparr>PORTB := PORTB w OR BV AVR_WE\<rparr>)"
    using ready_after_strobe [OF v(1) _ _ w(2,3)] by (simp add: w_def)
  note x = hold_cycles [OF rw, of ovh fl 2, folded t]
  show "ready t" using x by blast
  show "cells (brd t) = (cells (brd s))(ucast addr := Some data)"
    using x w v u by (simp add: same_data_def)
  show "uart_tx t = uart_tx s" using x u v by (simp add: same_data_def w_def)
qed

lemma SRAM_read_effect:
  assumes "ready s" "(r, t) = SRAM_read (quickdev ovh fl) addr s"
  shows "ready t" "cells (brd t) = cells (brd s)" "uart_tx t = uart_tx s"
    "r = (case cells (brd s) (ucast addr) of Some v \<Rightarrow> v | None \<Rightarrow> fl)"
proof -
  let ?Q = "quickdev ovh fl"
  define u where "u = access_prefix ?Q 0 addr s"
  define v where "v = cycles ?Q 7 (u\<lparr>PORTB := PORTB u AND NOT (BV AVR_OE)\<rparr>)"
  define w where "w = cycles ?Q 8 (u\<lparr>PORTB := PORTB u AND NOT (BV AVR_OE)\<rparr>)"
  note u = access_prefix_ready [OF assms(1) u_def]
  note v = read_window [OF u(1,3) u(5) _ v_def, simplified]
  note w = read_window [OF u(1,3) u(5) _ w_def, simplified]
  have rt: "(r, t) = (bd_pina ?Q (PORTA v) (DDRA v) (PORTB v) (DDRB v) (brd v),
      cycles ?Q 2 (w\<lparr>PORTB := PORTB w OR BV AVR_OE\<rparr>))"
    by (simp add: assms(2) SRAM_read_def Let_def u_def v_def w_def access_prefix_def out_PORTA_def
        sbi_PORTB_def cbi_PORTB_def nop_def cycles_cycles in_PINA_def eval_nat_numeral)
  have rw: "ready (w\<lparr>PORTB := PORTB w OR BV AVR_OE\<rparr>)"
    using ready_after_strobe [OF u(1) _ _ w(3,4)] by (simp add: w_def)
  note x = hold_cycles [OF rw, of ovh fl 2]
  show "ready t" using x rt by simp
  show "cells (brd t) = cells (brd s)" using x w u rt by (simp add: same_data_def)
  show "uart_tx t = uart_tx s" using x u rt by (simp add: same_data_def w_def)
  show "r = (case cells (brd s) (ucast addr) of Some v \<Rightarrow> v | None \<Rightarrow> fl)"
    using v u rt by (simp add: quickdev_def avr_pins_def)
qed

end
