(* ===== verification/Sreg_Burst.thy ===== *)
theory Sreg_Burst
  imports Sreg_Proofs
begin

text \<open>
  The burst functions of \<open>poc/poc_sreg/main.c\<close> on the CPLD.  Write enable stays low for the
  whole burst, so the state machine keeps copying the AVR's data port to the SRAM; the lemmas
  follow a byte through it across data changes and address increments.
\<close>

section \<open>The state machine while write enable stays low\<close>

definition wr_run :: "bus_fsm \<Rightarrow> bool" where
  "wr_run f \<longleftrightarrow> buffer_avr f = None \<and> (fsm_state f = St_BUFAVR \<or> fsm_state f = St_WE \<or> fsm_idle f)"

text \<open>What is known after 0, 1, 2 and at least 3 edges with the same byte on the AVR's port.\<close>

fun wr_seen :: "nat \<Rightarrow> u8 \<Rightarrow> bus_fsm \<Rightarrow> bool" where
  "wr_seen 0 d f \<longleftrightarrow> wr_run f"
| "wr_seen (Suc 0) d f \<longleftrightarrow> wr_run f \<and> fsm_state f \<noteq> St_IDLE \<and>
     (fsm_state f = St_BUFAVR \<longrightarrow> fsm_buffer f = Some d)"
| "wr_seen (Suc (Suc 0)) d f \<longleftrightarrow> wr_run f \<and> fsm_state f \<noteq> St_IDLE \<and> fsm_buffer f = Some d \<and>
     (fsm_state f = St_WE \<longrightarrow> buffer_sram f = Some d)"
| "wr_seen (Suc (Suc (Suc k))) d f \<longleftrightarrow> wr_run f \<and> fsm_state f \<noteq> St_IDLE \<and> fsm_buffer f = Some d \<and>
     buffer_sram f = Some d"

lemma wr_seen_edge:
  "wr_seen k d f \<Longrightarrow> wr_seen (Suc k) d
     (fsm_posedge False False True (resolve (Some d) (buffer_avr f)) y f)"
  by (cases "(k, d, f)" rule: wr_seen.cases; cases "fsm_state f")
     (auto simp: fsm_posedge_def fsm_idle_def resolve_def wr_run_def)

lemma wr_seen_run: "wr_seen k d f \<Longrightarrow> wr_seen 0 d' f"
  by (cases "(k, d, f)" rule: wr_seen.cases) auto

lemma wr_seen_3: "3 \<le> k \<Longrightarrow> wr_seen k d f \<Longrightarrow> wr_seen 3 d f"
  by (cases "(k, d, f)" rule: wr_seen.cases) (auto simp: eval_nat_numeral)

lemma wr_seen_3_mono: "wr_seen 3 d f \<Longrightarrow> wr_seen (3 + k) d f"
  by (cases "(3 + k, d, f)" rule: wr_seen.cases) (auto simp: eval_nat_numeral)

lemma wr_seen_sram: "wr_seen 3 d f \<Longrightarrow> buffer_sram f = Some d"
  by (simp add: eval_nat_numeral)

lemma wr_run_ok: "wr_run f \<Longrightarrow> fsm_ok f"
  by (auto simp: wr_run_def fsm_ok_def)

lemma ticks_wr_seen:
  assumes "clk_ok b" "bus_write p d" "wr_seen k d (bus_fsm0 b)"
  shows "wr_seen (k + n_edges (phase b) n) d (bus_fsm0 ((tick p ^^ n) b))"
  using assms
  by (induction n)
     (auto simp: bus_write_def tick_fsm ticks_clk_ok ticks_phase n_edges_Suc avr_net_def wr_seen_edge)

text \<open>While the address is held, only the addressed cell can change.\<close>

lemma ticks_cells_other:
  assumes "clk_ok b" "sreg_hold p" "x \<noteq> sreg0 b"
  shows "cells ((tick p ^^ n) b) x = cells b x"
proof (induction n)
  case (Suc n)
  have "sreg0 ((tick p ^^ Suc n) b) = sreg0 b" using assms ticks_hold by blast
  then show ?case using assms Suc by (simp add: tick_cells ticks_clk_ok sreg_hold_def)
qed simp

section \<open>Streaming\<close>

definition streaming :: "nat \<Rightarrow> board avr \<Rightarrow> bool" where
  "streaming k s \<longleftrightarrow> clk_ok (brd s) \<and> DDRA s = 0xff \<and> wr_seen k (PORTA s) (bus_fsm0 (brd s)) \<and>
     \<not> bit (PORTB s) AVR_WE \<and> bit (PORTB s) AVR_OE \<and> \<not> bit (PORTB s) AVR_RESET \<and>
     bit (PORTB s) AVR_SREG_EN \<and> bit (PORTB s) AVR_COUNTER"

lemma streaming_pins:
  "streaming k s \<Longrightarrow> bus_write (avr_pins s) (PORTA s) \<and> sreg_hold (avr_pins s) \<and> \<not> avr_we_n (avr_pins s)"
  by (simp add: streaming_def bus_write_def sreg_hold_def)

lemma stream_cycles:
  assumes "streaming k s" "t = cycles (quickdev ovh fl) n s"
  shows "streaming (k + n_edges (phase (brd s)) n) t" "sreg0 (brd t) = sreg0 (brd s)"
    "x \<noteq> sreg0 (brd s) \<Longrightarrow> cells (brd t) x = cells (brd s) x" "PORTA t = PORTA s" "uart_tx t = uart_tx s"
proof -
  note p = streaming_pins [OF assms(1)]
  have c: "clk_ok (brd s)" using assms(1) by (simp add: streaming_def)
  show "streaming (k + n_edges (phase (brd s)) n) t"
    using assms p by (simp add: streaming_def cycles_brd ticks_clk_ok ticks_wr_seen)
  show "sreg0 (brd t) = sreg0 (brd s)" using assms p c by (simp add: cycles_brd ticks_hold)
  show "cells (brd t) x = cells (brd s) x" if "x \<noteq> sreg0 (brd s)"
    using assms p c that by (simp add: cycles_brd ticks_cells_other)
  show "PORTA t = PORTA s" "uart_tx t = uart_tx s" using assms by simp_all
qed

lemma streaming_3: "streaming k s \<Longrightarrow> 3 \<le> k \<Longrightarrow> streaming 3 s"
  by (auto simp: streaming_def intro: wr_seen_3)

lemma streaming_0: "streaming k s \<Longrightarrow> streaming 0 s"
  using wr_seen_run by (auto simp: streaming_def simp del: wr_seen.simps)

lemma n_edges_3: "6 \<le> n \<Longrightarrow> 3 \<le> n_edges ph n"
  by (auto simp: n_edges_def)

text \<open>\<open>SRAM_burst_write\<close>: its six cycles bring the byte to the SRAM from any running state.\<close>

lemma burst_write_effect:
  assumes "streaming k s" "t = SRAM_burst_write (quickdev ovh fl) d s"
  shows "streaming 3 t" "PORTA t = d" "sreg0 (brd t) = sreg0 (brd s)" "uart_tx t = uart_tx s"
    "cells (brd t) (sreg0 (brd s)) = Some d" "x \<noteq> sreg0 (brd s) \<Longrightarrow> cells (brd t) x = cells (brd s) x"
proof -
  let ?Q = "quickdev ovh fl" and ?s = "s\<lparr>PORTA := d\<rparr>"
  have s: "streaming 0 ?s" using assms(1) wr_seen_run [of k "PORTA s" _ d] by (simp add: streaming_def)
  have t: "t = cycles ?Q 6 ?s"
    by (simp add: assms(2) SRAM_burst_write_def out_PORTA_def nop_def cycles_cycles eval_nat_numeral)
  note c = stream_cycles [OF s t]
  show st: "streaming 3 t"
    using c(1) wr_seen_3 [OF n_edges_3 [of 6 "phase (brd s)"]] by (simp add: streaming_def)
  show "PORTA t = d" "sreg0 (brd t) = sreg0 (brd s)" "uart_tx t = uart_tx s" using c by simp_all
  show "x \<noteq> sreg0 (brd s) \<Longrightarrow> cells (brd t) x = cells (brd s) x" using c(3) by simp
  have "cells (brd t) = (cells (brd ?s))(sreg0 (brd ?s) := buffer_sram (bus_fsm0 (brd t)))"
    using ticks_wr_cells [of "brd ?s" "avr_pins ?s" 5] streaming_pins [OF s] s
    by (simp add: t cycles_brd streaming_def eval_nat_numeral del: fun_upd_apply)
  then show "cells (brd t) (sreg0 (brd s)) = Some d"
    using st c(4) wr_seen_sram by (simp add: streaming_def)
qed

text \<open>
  \<open>SRAM_burst_inc\<close>: one increment of the address; the state machine still drives the last byte,
  so the next cell takes it at once.
\<close>

lemma two_ticks_inc:
  assumes "clk_ok b" "bus_write p d" "avr_sreg_en_n p" "\<not> avr_counter_n p" "wr_seen 3 d (bus_fsm0 b)"
    "cells b (sreg0 b) = Some d" "c = (tick p ^^ 2) b"
  shows "clk_ok c" "wr_seen 3 d (bus_fsm0 c)" "sreg0 c = sreg0 b + 1"
    "cells c = (cells b)(sreg0 b + 1 := Some d)"
proof -
  have p: "\<not> avr_reset p" "\<not> avr_we_n p" using assms(2) by (simp_all add: bus_write_def)
  show "clk_ok c" using assms(1,7) p ticks_clk_ok by blast
  have seen: "wr_seen 3 d (bus_fsm0 ((tick p ^^ n) b))" for n
    by (rule wr_seen_3 [OF _ ticks_wr_seen [OF assms(1,2,5)]]) simp
  show "wr_seen 3 d (bus_fsm0 c)" using seen assms(7) by simp
  show sc: "sreg0 c = sreg0 b + 1"
    using two_ticks_sreg [OF assms(1) p(1)] assms(3,4,7) by (simp add: sreg_posedge_def)
  define m where "m = tick p b"
  have c: "c = tick p m" by (simp add: assms(7) m_def numeral_2_eq_2)
  have m: "clk_ok m" "sreg0 m = (if phase b then sreg0 b else sreg0 b + 1)"
    using assms(1,3,4) p by (simp_all add: m_def tick_clk_ok tick_sreg sreg_posedge_def)
  have "buffer_sram (bus_fsm0 m) = Some d" "buffer_sram (bus_fsm0 c) = Some d"
    using seen [of 1] seen [of 2] wr_seen_sram assms(7) by (simp_all add: m_def numeral_2_eq_2)
  then have "cells m = (cells b)(sreg0 m := Some d)" "cells c = (cells m)(sreg0 c := Some d)"
    using tick_cells [OF assms(1) p(1)] tick_cells [OF m(1) p(1)] p(2) c by (simp_all add: m_def)
  moreover have "(cells b)(sreg0 b := Some d) = cells b" using assms(6) by (simp add: fun_upd_idem_iff)
  ultimately show "cells c = (cells b)(sreg0 b + 1 := Some d)"
    using m(2) sc by (cases "phase b") simp_all
qed

lemma burst_inc_effect:
  assumes "streaming 3 s" "cells (brd s) (sreg0 (brd s)) = Some (PORTA s)" "t = SRAM_burst_inc (quickdev ovh fl) s"
  shows "streaming 3 t" "PORTA t = PORTA s" "sreg0 (brd t) = sreg0 (brd s) + 1" "uart_tx t = uart_tx s"
    "cells (brd t) = (cells (brd s))(sreg0 (brd s) + 1 := Some (PORTA s))"
proof -
  let ?Q = "quickdev ovh fl"
  define u where "u = cbi_PORTB ?Q AVR_COUNTER s"
  let ?u = "u\<lparr>PORTB := PORTB u OR BV AVR_COUNTER\<rparr>" and ?p = "avr_pins (s\<lparr>PORTB := PORTB s AND NOT (BV AVR_COUNTER)\<rparr>)"
  have u: "brd u = (tick ?p ^^ 2) (brd s)" by (simp add: u_def cbi_PORTB_def cycles_brd)
  have p: "bus_write ?p (PORTA s)" "avr_sreg_en_n ?p" "\<not> avr_counter_n ?p"
    using assms(1) by (simp_all add: streaming_def bus_write_def)
  have c: "clk_ok (brd s)" "wr_seen 3 (PORTA s) (bus_fsm0 (brd s))" using assms(1) by (simp_all add: streaming_def)
  note i = two_ticks_inc [OF c(1) p(1-3) c(2) assms(2) u]
  have su: "streaming 3 ?u" using assms(1) i by (simp add: streaming_def u_def cbi_PORTB_def)
  have t: "t = cycles ?Q 2 ?u" by (simp add: assms(3) SRAM_burst_inc_def u_def sbi_PORTB_def Let_def)
  note f = stream_cycles [OF su t]
  show st: "streaming 3 t" by (rule streaming_3 [OF f(1)]) simp
  show "PORTA t = PORTA s" "sreg0 (brd t) = sreg0 (brd s) + 1" "uart_tx t = uart_tx s"
    using f i by (simp_all add: u_def cbi_PORTB_def)
  have "cells (brd t) = (cells (brd ?u))(sreg0 (brd ?u) := buffer_sram (bus_fsm0 (brd t)))"
    using ticks_wr_cells [of "brd ?u" "avr_pins ?u" 1] streaming_pins [OF su] su
    by (simp add: t cycles_brd streaming_def eval_nat_numeral del: fun_upd_apply)
  moreover have "buffer_sram (bus_fsm0 (brd t)) = Some (PORTA s)"
    using st wr_seen_sram f(4) by (simp add: streaming_def u_def cbi_PORTB_def)
  ultimately show "cells (brd t) = (cells (brd s))(sreg0 (brd s) + 1 := Some (PORTA s))"
    using i by simp
qed

section \<open>A whole burst\<close>

lemma burst_start_effect:
  assumes "ready s" "t = SRAM_burst_start (quickdev ovh fl) addr s"
  shows "streaming 0 t" "sreg0 (brd t) = ucast addr" "uart_tx t = uart_tx s"
    "x \<noteq> ucast addr \<Longrightarrow> cells (brd t) x = cells (brd s) x"
proof -
  let ?Q = "quickdev ovh fl"
  define u where "u = access_prefix ?Q 0xff (ucast addr) s"
  note u = access_prefix_ready [OF assms(1) u_def]
  let ?u = "u\<lparr>PORTB := PORTB u AND NOT (BV AVR_WE)\<rparr>"
  have u': "ucast (ucast addr :: u32) = (ucast addr :: saddr)"
    by (intro bit_word_eqI) (auto simp: bit_simps)
  have su: "streaming 0 ?u"
    using u by (auto simp: streaming_def ready_def bus_ready_def wr_run_def fsm_idle_def)
  have t: "t = cycles ?Q 2 ?u"
    by (simp add: assms(2) SRAM_burst_start_def Let_def u_def access_prefix_def cbi_PORTB_def)
  note c = stream_cycles [OF su t]
  show "streaming 0 t" using c(1) wr_seen_run by (fastforce simp: streaming_def)
  show "sreg0 (brd t) = ucast addr" "uart_tx t = uart_tx s" using c u u' by simp_all
  show "x \<noteq> ucast addr \<Longrightarrow> cells (brd t) x = cells (brd s) x" using c(3) u u' by simp
qed

lemma burst_end_effect:
  assumes "streaming 3 s" "cells (brd s) (sreg0 (brd s)) = Some (PORTA s)" "t = SRAM_burst_end (quickdev ovh fl) s"
  shows "ready t" "cells (brd t) = cells (brd s)" "uart_tx t = uart_tx s"
proof -
  let ?Q = "quickdev ovh fl"
  define u where "u = cycles ?Q 2 s"
  note c = stream_cycles [OF assms(1) u_def]
  have cu: "cells (brd u) = cells (brd s)"
  proof -
    have "cells (brd u) = (cells (brd s))(sreg0 (brd s) := buffer_sram (bus_fsm0 (brd u)))"
      using ticks_wr_cells [of "brd s" "avr_pins s" 1] streaming_pins [OF assms(1)] assms(1)
      by (simp add: u_def cycles_brd streaming_def eval_nat_numeral del: fun_upd_apply)
    moreover have "buffer_sram (bus_fsm0 (brd u)) = Some (PORTA s)"
      using c(1,4) wr_seen_sram wr_seen_3 le_add1 by (metis streaming_def)
    ultimately show ?thesis using assms(2) by auto
  qed
  have t: "t = cycles ?Q 2 (u\<lparr>PORTB := PORTB u OR BV AVR_WE\<rparr>)"
    using assms(1) by (simp add: assms(3) SRAM_burst_end_def u_def set_bit_id streaming_def sbi_PORTB_def)
  have r: "ready (u\<lparr>PORTB := PORTB u OR BV AVR_WE\<rparr>)"
    using c(1) wr_seen_run [THEN wr_run_ok [OF wr_seen.simps(1) [THEN iffD1]]]
    by (auto simp: ready_def bus_ready_def streaming_def)
  note h = hold_cycles [OF r, of ovh fl 2, folded t]
  show "ready t" using h by blast
  show "cells (brd t) = cells (brd s)" "uart_tx t = uart_tx s" using h cu c(5) by (simp_all add: same_data_def)
qed


section \<open>The burst test\<close>

lemma dot_streaming:
  assumes "streaming k s" "t = progress_dot (quickdev ovh fl) i s"
  shows "streaming 0 t" "sreg0 (brd t) = sreg0 (brd s)" "x \<noteq> sreg0 (brd s) \<Longrightarrow> cells (brd t) x = cells (brd s) x"
    "uart_tx t = uart_tx s @ (if i mod (BLOCK_SIZE div 10) = 0 then cstr ''.'' else [])"
proof -
  let ?s = "s\<lparr>uart_tx := uart_tx s @ [of_char (CHR ''.'')]\<rparr>"
  have s: "streaming 0 s" "streaming 0 ?s" using streaming_0 [OF assms(1)] by (simp_all add: streaming_def)
  have t: "t = (if i mod (BLOCK_SIZE div 10) = 0 then cycles (quickdev ovh fl) ovh ?s else s)"
    by (simp add: assms(2) progress_dot_def avr_putchar_def quickdev_def)
  note c = stream_cycles [OF s(2) refl]
  show "streaming 0 t" using s(1) streaming_0 [OF c(1)] by (simp add: t)
  show "sreg0 (brd t) = sreg0 (brd s)" using c by (simp add: t)
  show "x \<noteq> sreg0 (brd s) \<Longrightarrow> cells (brd t) x = cells (brd s) x" using c by (simp add: t)
  show "uart_tx t = uart_tx s @ (if i mod (BLOCK_SIZE div 10) = 0 then cstr ''.'' else [])"
    by (simp add: t cstr_def)
qed

text \<open>The transcript of the progress dots, and the cells after \<open>n\<close> rounds.\<close>

definition dots :: "nat \<Rightarrow> u8 list" where
  "dots n = concat (map (\<lambda>i. if i mod (BLOCK_SIZE div 10) = 0 then cstr ''.'' else []) [0..<n])"

definition burst_cells :: "nat \<Rightarrow> (saddr \<Rightarrow> u8 option) \<Rightarrow> saddr \<Rightarrow> u8 option" where
  "burst_cells n c = (\<lambda>x. if unat x < n then Some (0xff - ucast x)
                          else if unat x = n then Some (0x100 - of_nat n) else c x)"

lemma burst_round:
  assumes "streaming k s" "sreg0 (brd s) = of_nat n" "n < 2 ^ 21 - 1"
    "\<And>x. unat x < n \<Longrightarrow> cells (brd s) x = Some (0xff - ucast x)"
    "\<And>x. unat x > n \<Longrightarrow> cells (brd s) x = c x"
    "t = burst_body (quickdev ovh fl) n s"
  shows "streaming 3 t" "sreg0 (brd t) = of_nat (Suc n)" "PORTA t = 0x100 - of_nat (Suc n)"
    "cells (brd t) = burst_cells (Suc n) c"
    "uart_tx t = uart_tx s @ (if n mod (BLOCK_SIZE div 10) = 0 then cstr ''.'' else [])"
proof -
  let ?Q = "quickdev ovh fl" and ?d = "0xff - of_nat n :: u8"
  define u where "u = progress_dot ?Q n s"
  define v where "v = SRAM_burst_write ?Q ?d u"
  note u = dot_streaming [OF assms(1) u_def]
  note v = burst_write_effect [OF u(1) v_def]
  have vc: "cells (brd v) (sreg0 (brd v)) = Some (PORTA v)" using v by simp
  have t: "t = SRAM_burst_inc ?Q v" by (simp add: assms(6) burst_body_def u_def v_def)
  note w = burst_inc_effect [OF v(1) vc t]
  have d: "?d = 0x100 - of_nat (Suc n)" by simp
  show "streaming 3 t" by (rule w)
  show "sreg0 (brd t) = of_nat (Suc n)" using w(3) v(3) u(2) assms(2) by simp
  show "PORTA t = 0x100 - of_nat (Suc n)" unfolding w(2) v(2) by (rule d)
  show "uart_tx t = uart_tx s @ (if n mod (BLOCK_SIZE div 10) = 0 then cstr ''.'' else [])" using w(4) v(4) u(4) by simp
  have "unat (of_nat (Suc n) :: saddr) = Suc n"
    by (rule unat_word_of_nat_less) (use assms(3) in simp)
  moreover have "of_nat (Suc n) = (of_nat n + 1 :: saddr)" by (simp only: of_nat_Suc add.commute)
  ultimately have n: "unat (of_nat n :: saddr) = n" "unat (of_nat n + 1 :: saddr) = Suc n"
    using assms(3) by (simp_all only:) (rule unat_word_of_nat_less, simp)
  have old: "cells (brd v) x = cells (brd s) x" if "x \<noteq> of_nat n" for x
    using that u v assms(2) by simp
  have new: "cells (brd v) (of_nat n) = Some ?d" using v u assms(2) by simp
  show "cells (brd t) = burst_cells (Suc n) c"
  proof
    fix x :: saddr
    have x: "x = of_nat n \<longleftrightarrow> unat x = n" "x = of_nat n + 1 \<longleftrightarrow> unat x = Suc n"
      using n by (simp_all only: word_unat_eq_iff)
    consider "unat x < n" | "unat x = n" | "unat x = Suc n" | "Suc n < unat x" by linarith
    then show "cells (brd t) x = burst_cells (Suc n) c x"
    proof cases
      case 1
      then show ?thesis using w(5) v u x old assms(2,4) by (simp add: burst_cells_def)
    next
      case 2
      then have "x = of_nat n" using x by simp
      moreover have "ucast (of_nat n :: saddr) = (of_nat n :: u8)"
        by (intro bit_word_eqI) (simp add: bit_simps)
      ultimately show ?thesis using 2 w(5) v u x new assms(2) by (simp add: burst_cells_def)
    next
      case 3
      then show ?thesis using w(5) v u x assms(2) by (simp add: burst_cells_def)
    next
      case 4
      then show ?thesis using w(5) v u x old assms(2,5) by (simp add: burst_cells_def)
    qed
  qed
qed

end
