(* ===== verification/Sreg_Tests.thy ===== *)
theory Sreg_Tests
  imports Sreg_Burst
begin

text \<open>
  The test loops of \<open>poc/poc_sreg/main.c\<close> on the board: what they leave in the SRAM and what they
  report over the UART, the register patterns of \<open>toggle_sreg_pattern\<close>, and the start-up of
  \<open>main\<close>.
\<close>

section \<open>Reporting keeps the SRAM\<close>

definition holds :: "(saddr \<Rightarrow> u8 option) \<Rightarrow> board avr \<Rightarrow> bool" where
  "holds c s \<longleftrightarrow> ready s \<and> cells (brd s) = c"

definition level :: "u8 \<Rightarrow> u8 option \<Rightarrow> u8" where
  "level fl v = (case v of Some v \<Rightarrow> v | None \<Rightarrow> fl)"

lemma ready_uart [simp]: "ready (s\<lparr>uart_tx := o'\<rparr>) = ready s"
  by (simp add: ready_def bus_ready_def)

lemma holds_cycles: "holds c s \<Longrightarrow> holds c (cycles (quickdev ovh fl) n s)"
  using hold_cycles by (simp add: holds_def same_data_def)

lemma holds_putchar: "holds c s \<Longrightarrow> holds c (avr_putchar (quickdev ovh fl) ch s)"
  unfolding avr_putchar_def by (rule holds_cycles) (simp add: holds_def)

lemma holds_print: "holds c s \<Longrightarrow> holds c (print (quickdev ovh fl) str s)"
  unfolding print_def by (induction str arbitrary: s) (simp_all add: holds_putchar)

lemma print_tx [simp]: "uart_tx (print bd str s) = uart_tx s @ str"
  by (simp add: print_def sreg_out.sent_putstring)

lemma putchar_tx [simp]: "uart_tx (avr_putchar bd ch s) = uart_tx s @ [ch]"
  by (simp add: avr_putchar_def)

lemma length_itoa16: "length (itoa16 v) \<le> 2"
  by (simp add: itoa16_def)

lemma put_hex_ok:
  "length (itoa16 v) + 1 \<le> sz \<Longrightarrow> put_hex bd sz v s = Some (print bd (itoa16 v) s)"
  by (simp add: put_hex_def print_def)

lemma holds_read:
  assumes "holds c s"
  obtains t where "SRAM_read (quickdev ovh fl) addr s = (level fl (c (ucast addr)), t)"
    "holds c t" "uart_tx t = uart_tx s"
proof -
  obtain r t where "SRAM_read (quickdev ovh fl) addr s = (r, t)" by (cases "SRAM_read (quickdev ovh fl) addr s")
  then show ?thesis
    using that SRAM_read_effect [of s r t ovh fl addr] assms by (simp add: holds_def level_def)
qed

lemma holds_write:
  assumes "holds c s"
  shows "holds (c(ucast addr := Some d)) (SRAM_write (quickdev ovh fl) addr d s)"
    "uart_tx (SRAM_write (quickdev ovh fl) addr d s) = uart_tx s"
  using SRAM_write_effect [OF _ refl] assms by (simp_all add: holds_def)

text \<open>Loops: an invariant per index, and a transcript that is the concatenation of the rounds'.\<close>

lemma for_loop_upt:
  assumes step: "\<And>i s. i < n \<Longrightarrow> I i s \<Longrightarrow> \<exists>t. body i s = Some t \<and> I (Suc i) t \<and> uart_tx t = uart_tx s @ f i"
    and "I m s" "m \<le> n"
  shows "\<exists>t. for_loop body [m..<n] s = Some t \<and> I n t \<and> uart_tx t = uart_tx s @ concat (map f [m..<n])"
  using assms(2,3)
proof (induction "n - m" arbitrary: m s)
  case 0
  then show ?case by simp
next
  case (Suc k)
  then have m: "m < n" by simp
  then obtain t where t: "body m s = Some t" "I (Suc m) t" "uart_tx t = uart_tx s @ f m"
    using step Suc.prems(1) by blast
  have "k = n - Suc m" "Suc m \<le> n" using Suc.hyps(2) m by simp_all
  from Suc.hyps(1) [OF this(1) t(2) this(2)] obtain u where
    "for_loop body [Suc m..<n] t = Some u" "I n u" "uart_tx u = uart_tx t @ concat (map f [Suc m..<n])"
    by auto
  then show ?case using t m by (simp add: upt_conv_Cons)
qed

section \<open>Reading a block back\<close>

definition dump_line :: "u8 \<Rightarrow> (saddr \<Rightarrow> u8 option) \<Rightarrow> nat \<Rightarrow> u8 list" where
  "dump_line fl c i = itoa16 (level fl (c (of_nat i))) @ cstr '' '' @
     (if i \<noteq> 0 \<and> i mod 32 = 0 then [LF, CR] else [])"

definition dump_text :: "u8 \<Rightarrow> (saddr \<Rightarrow> u8 option) \<Rightarrow> u8 list" where
  "dump_text fl c = cstr ''done'' @ [LF, CR] @ concat (map (dump_line fl c) [0..<BLOCK_SIZE]) @
     cstr ''done'' @ [LF, CR]"

lemma ucast_of_nat_u32 [simp]: "ucast (of_nat i :: u32) = (of_nat i :: saddr)"
  by (intro bit_word_eqI) (simp add: bit_simps)

lemma dump_round:
  assumes "holds c s"
  shows "\<exists>t. dump_body (quickdev ovh fl) i s = Some t \<and> holds c t \<and> uart_tx t = uart_tx s @ dump_line fl c i"
proof -
  obtain t where t: "SRAM_read (quickdev ovh fl) (of_nat i) s = (level fl (c (of_nat i)), t)"
    "holds c t" "uart_tx t = uart_tx s"
    using holds_read [OF assms, of ovh fl "of_nat i"] by auto
  have "length (itoa16 (level fl (c (of_nat i)))) + 1 \<le> 8"
    using length_itoa16 [of "level fl (c (of_nat i))"] by simp
  then show ?thesis
    using t by (auto simp: dump_body_def put_hex_ok dump_line_def cstr_def holds_print holds_putchar)
qed

lemma dump_block_effect:
  assumes "holds c s"
  shows "\<exists>t. dump_block (quickdev ovh fl) s = Some t \<and> holds c t \<and> uart_tx t = uart_tx s @ dump_text fl c"
proof -
  let ?Q = "quickdev ovh fl"
  define u where "u = print ?Q (cstr ''done'' @ [LF, CR]) s"
  have u: "holds c u" "uart_tx u = uart_tx s @ cstr ''done'' @ [LF, CR]"
    using assms by (simp_all add: u_def holds_print)
  obtain t where "for_loop (dump_body ?Q) [0..<BLOCK_SIZE] u = Some t" "holds c t"
     "uart_tx t = uart_tx u @ concat (map (dump_line fl c) [0..<BLOCK_SIZE])"
    using for_loop_upt [where I = "\<lambda>_. holds c" and f = "dump_line fl c" and m = 0 and
        body = "dump_body ?Q", OF dump_round u(1)] by blast
  then show ?thesis
    using u by (simp add: dump_block_def Let_def u_def [symmetric] dump_text_def holds_print del: upt.simps)
qed

section \<open>The block tests\<close>

definition block_banner :: "u8 list" where
  "block_banner = cstr ''write_big_loop'' @ [LF, CR] @ dots BLOCK_SIZE"

definition block_cells :: "nat \<Rightarrow> (saddr \<Rightarrow> u8 option) \<Rightarrow> saddr \<Rightarrow> u8 option" where
  "block_cells n c = (\<lambda>x. if unat x < n then Some (ucast x) else c x)"

lemma dots_Suc: "dots (Suc n) = dots n @ (if n mod (BLOCK_SIZE div 10) = 0 then cstr ''.'' else [])"
  by (simp add: dots_def)

lemma dot_holds:
  "holds c s \<Longrightarrow> holds c (progress_dot (quickdev ovh fl) i s)"
  "uart_tx (progress_dot bd i s) = uart_tx s @ (if i mod (BLOCK_SIZE div 10) = 0 then cstr ''.'' else [])"
  by (simp_all add: progress_dot_def holds_putchar cstr_def)

lemma and_0xff: "w AND 0xff = (w :: u8)"
proof -
  have "(0xff :: u8) = - 1" by simp
  then show ?thesis by (simp only: and.right_neutral)
qed

lemma block_cells_Suc:
  assumes "n < 2 ^ 21"
  shows "(block_cells n c)(of_nat n := Some (of_nat n AND 0xff)) = block_cells (Suc n) c"
proof
  fix x :: saddr
  have n: "x = of_nat n \<longleftrightarrow> unat x = n"
    using assms unat_word_of_nat_less [of n, where 'a = 21] by (simp add: word_unat_eq_iff)
  have "ucast (of_nat n :: saddr) = (of_nat n AND 0xff :: u8)"
    unfolding and_0xff by (intro bit_word_eqI) (simp add: bit_simps)
  then show "((block_cells n c)(of_nat n := Some (of_nat n AND 0xff))) x = block_cells (Suc n) c x"
    using n by (auto simp: block_cells_def)
qed

lemma block_fill:
  assumes "holds c s" "n \<le> 2 ^ 21"
  shows "holds (block_cells n c) (fold (big_block_body (quickdev ovh fl)) [0..<n] s) \<and>
    uart_tx (fold (big_block_body (quickdev ovh fl)) [0..<n] s) = uart_tx s @ dots n"
  using assms
proof (induction n)
  case 0
  then show ?case by (simp add: block_cells_def dots_def)
next
  case (Suc n)
  define t where "t = fold (big_block_body (quickdev ovh fl)) [0..<n] s"
  have t: "holds (block_cells n c) t" "uart_tx t = uart_tx s @ dots n" using Suc by (simp_all add: t_def)
  note w = holds_write [OF dot_holds(1) [OF t(1), of ovh fl n], where addr = "of_nat n" and d = "of_nat n AND 0xff" and ovh = ovh and fl = fl]
  have "n < 2 ^ 21" using Suc.prems by simp
  then have "holds (block_cells (Suc n) c) (big_block_body (quickdev ovh fl) n t) \<and>
      uart_tx (big_block_body (quickdev ovh fl) n t) = uart_tx s @ dots (Suc n)"
    using w t block_cells_Suc [of n c]
    by (simp add: big_block_body_def dots_Suc dot_holds(2) del: fun_upd_apply)
  then show ?case by (simp add: t_def)
qed

lemma burst_fill:
  assumes "streaming 0 s" "sreg0 (brd s) = 0" "0 < n" "n < 2 ^ 21" "\<And>x. x \<noteq> 0 \<Longrightarrow> cells (brd s) x = c x"
    "t = fold (burst_body (quickdev ovh fl)) [0..<n] s"
  shows "streaming 3 t \<and> sreg0 (brd t) = of_nat n \<and> PORTA t = 0x100 - of_nat n \<and>
    cells (brd t) = burst_cells n c \<and> uart_tx t = uart_tx s @ dots n"
  using assms(3,4,6)
proof (induction n arbitrary: t)
  case 0
  then show ?case by simp
next
  case (Suc n)
  define u where "u = fold (burst_body (quickdev ovh fl)) [0..<n] s"
  have t: "t = burst_body (quickdev ovh fl) n u" using Suc.prems by (simp add: u_def)
  have n: "n < 2 ^ 21 - 1" using Suc.prems by simp
  have u: "(\<exists>k. streaming k u) \<and> sreg0 (brd u) = of_nat n \<and> uart_tx u = uart_tx s @ dots n \<and>
     (\<forall>x. unat x < n \<longrightarrow> cells (brd u) x = Some (0xff - ucast x)) \<and> (\<forall>x. unat x > n \<longrightarrow> cells (brd u) x = c x)"
  proof (cases "n = 0")
    case True
    then show ?thesis using assms(1,2,5) by (auto simp: u_def dots_def unat_gt_0)
  next
    case False
    then show ?thesis using Suc.IH [OF _ _ u_def] Suc.prems by (auto simp: burst_cells_def)
  qed
  then obtain k where "streaming k u" by blast
  from burst_round [OF this _ n _ _ t, of c] u show ?case by (simp add: dots_Suc)
qed

text \<open>
  \<open>write_big_block\<close>: on a board that is ready, whatever the divider's phase, the SRAM's
  previous content and the overhead of the compiled loop, the first 4096 cells hold the low byte
  of their address afterwards, every other cell is unchanged, and the report is the banner, a dot
  for every 409th cell and the 4096 values read back.
\<close>

theorem write_big_block_ok:
  assumes "ready s"
  shows "\<exists>t. write_big_block (quickdev ovh fl) s = Some t \<and> ready t \<and>
    cells (brd t) = block_cells BLOCK_SIZE (cells (brd s)) \<and>
    uart_tx t = uart_tx s @ block_banner @ dump_text fl (block_cells BLOCK_SIZE (cells (brd s)))"
proof -
  define u where "u = print (quickdev ovh fl) (cstr ''write_big_loop'' @ [LF, CR]) s"
  have "holds (cells (brd s)) u" using assms by (simp add: u_def holds_print holds_def [of _ s])
  define v where "v = fold (big_block_body (quickdev ovh fl)) [0..<BLOCK_SIZE] u"
  have v: "holds (block_cells BLOCK_SIZE (cells (brd s))) v" "uart_tx v = uart_tx u @ dots BLOCK_SIZE"
    using block_fill [OF \<open>holds (cells (brd s)) u\<close>, of BLOCK_SIZE ovh fl] by (simp_all add: v_def)
  show ?thesis
    using dump_block_effect [OF v(1), of ovh fl] v(2)
    unfolding write_big_block_def u_def [symmetric] v_def [symmetric]
    by (simp add: u_def block_banner_def holds_def)
qed

text \<open>
  C35. \<open>write_burst_big_block\<close>: after the burst cell \<open>i < 4096\<close> holds \<open>0xff - i\<close>, a decreasing
  pattern, although the comment of the function speaks of an incrementing one, and the cell
  after the block holds a copy of the last byte, because write enable is still low when the
  address is incremented past the end; no other cell changes.
\<close>

theorem write_burst_big_block_ok:
  assumes "ready s"
  shows "\<exists>t. write_burst_big_block (quickdev ovh fl) s = Some t \<and> ready t \<and>
    cells (brd t) = burst_cells BLOCK_SIZE (cells (brd s)) \<and>
    uart_tx t = uart_tx s @ block_banner @ dump_text fl (burst_cells BLOCK_SIZE (cells (brd s)))"
proof -
  let ?Q = "quickdev ovh fl"
  define u where "u = print ?Q (cstr ''write_big_loop'' @ [LF, CR]) s"
  define v where "v = SRAM_burst_start ?Q 0 u"
  define w where "w = fold (burst_body ?Q) [0..<BLOCK_SIZE] v"
  define x where "x = SRAM_burst_end ?Q w"
  have "holds (cells (brd s)) u" using assms by (simp add: u_def holds_print holds_def [of _ s])
  then have u: "ready u" "cells (brd u) = cells (brd s)" by (simp_all add: holds_def)
  note v = burst_start_effect [OF u(1) v_def]
  have w: "streaming 3 w" "sreg0 (brd w) = of_nat BLOCK_SIZE" "PORTA w = 0x100 - of_nat BLOCK_SIZE"
    "cells (brd w) = burst_cells BLOCK_SIZE (cells (brd s))" "uart_tx w = uart_tx v @ dots BLOCK_SIZE"
    using burst_fill [OF v(1) _ _ _ _ w_def, of "cells (brd s)"] v u by (simp_all del: upt.simps)
  have "cells (brd w) (sreg0 (brd w)) = Some (PORTA w)" using w by (simp add: burst_cells_def)
  note x = burst_end_effect [OF w(1) this x_def]
  obtain t where "dump_block ?Q x = Some t" "holds (cells (brd x)) t" "uart_tx t = uart_tx x @ dump_text fl (cells (brd x))"
    using dump_block_effect [of "cells (brd x)" x ovh fl] x(1) by (auto simp: holds_def [of _ x])
  then show ?thesis
    using x w v by (simp add: write_burst_big_block_def Let_def u_def [symmetric] v_def [symmetric]
      w_def [symmetric] x_def [symmetric] block_banner_def holds_def) (simp add: u_def)
qed

section \<open>The small write loop\<close>

definition loop_line :: "nat \<Rightarrow> u8 list" where
  "loop_line i = itoa16 (of_nat i) @ cstr '':'' @ itoa16 (of_nat i) @ [LF, CR]"

definition loop_row :: "u8 list" where
  "loop_row = concat (map (\<lambda>i. itoa16 (of_nat i) @ cstr '' '') [0..<16]) @ [LF, CR]"

lemma itoa16_fits: "3 \<le> sz \<Longrightarrow> length (itoa16 v) + 1 \<le> sz"
  using length_itoa16 [of v] by simp

lemma block_cells_at:
  assumes "i < n" "i < 2 ^ 21"
  shows "block_cells n c (of_nat i) = Some (of_nat i)"
proof -
  have "unat (of_nat i :: saddr) = i" by (rule unat_word_of_nat_less) (use assms in simp)
  moreover have "ucast (of_nat i :: saddr) = (of_nat i :: u8)" by (intro bit_word_eqI) (simp add: bit_simps)
  ultimately show ?thesis using assms(1) by (simp add: block_cells_def)
qed

lemma write_loop_round:
  assumes "n < 16" "holds (block_cells n c) s"
  shows "\<exists>t. write_loop_body (quickdev ovh fl) n s = Some t \<and> holds (block_cells (Suc n) c) t \<and>
    uart_tx t = uart_tx s @ loop_line n"
proof -
  let ?Q = "quickdev ovh fl"
  define u where "u = avr_putchar ?Q (of_char (CHR '':'')) (print ?Q (itoa16 (of_nat n)) s)"
  define v where "v = SRAM_write ?Q (of_nat n) (of_nat n) u"
  have "holds (block_cells n c) u" using assms(2) by (simp add: u_def holds_putchar holds_print)
  note w = holds_write [OF this, where addr = "of_nat n" and d = "of_nat n" and ovh = ovh and fl = fl, folded v_def]
  have v: "holds (block_cells (Suc n) c) v"
    using w(1) block_cells_Suc [of n c] assms(1) by (simp add: and_0xff del: fun_upd_apply)
  obtain t where t: "SRAM_read ?Q (of_nat n) v = (level fl (block_cells (Suc n) c (of_nat n)), t)"
     "holds (block_cells (Suc n) c) t" "uart_tx t = uart_tx v"
    using holds_read [OF v, of ovh fl "of_nat n"] by auto
  have "block_cells (Suc n) c (of_nat n) = Some (of_nat n)"
    by (rule block_cells_at) (use assms(1) in simp_all)
  then show ?thesis
    using t(2,3) w(2) t(1) [unfolded v_def u_def] itoa16_fits [of 3]
    by (simp add: write_loop_body_def put_hex_ok level_def holds_print u_def loop_line_def cstr_def)
qed

lemma read_loop_round:
  assumes "i < 16" "holds (block_cells 16 c) s"
  shows "\<exists>t. read_loop_body (quickdev ovh fl) i s = Some t \<and> holds (block_cells 16 c) t \<and>
    uart_tx t = uart_tx s @ itoa16 (of_nat i) @ cstr '' ''"
proof -
  let ?Q = "quickdev ovh fl"
  have n: "holds (block_cells 16 c) (nop ?Q s)" using assms(2) by (simp add: nop_def holds_cycles)
  obtain t where t: "SRAM_read ?Q (of_nat i) (nop ?Q s) = (level fl (block_cells 16 c (of_nat i)), t)"
     "holds (block_cells 16 c) t" "uart_tx t = uart_tx (nop ?Q s)"
    using holds_read [OF n, of ovh fl "of_nat i"] by auto
  have "block_cells 16 c (of_nat i) = Some (of_nat i)"
    by (rule block_cells_at) (use assms(1) in simp_all)
  then show ?thesis
    using t itoa16_fits [of 3]
    by (simp add: read_loop_body_def put_hex_ok Let_def level_def holds_print holds_putchar nop_def cstr_def)
qed

text \<open>
  \<open>write_loop\<close>: the sixteen cells hold their address, no other cell changes, no report
  overruns its three-byte buffer, and the report shows every value written, its read-back, and ten
  times the sixteen values.
\<close>

theorem write_loop_ok:
  assumes "ready s"
  shows "\<exists>t. write_loop (quickdev ovh fl) s = Some t \<and> ready t \<and>
    cells (brd t) = block_cells 16 (cells (brd s)) \<and>
    uart_tx t = uart_tx s @ cstr ''write_loop'' @ [LF, CR] @ concat (map loop_line [0..<16]) @
      cstr ''Read'' @ [LF, CR] @ concat (replicate 10 loop_row)"
proof -
  let ?Q = "quickdev ovh fl" and ?c = "cells (brd s)"
  define u where "u = print ?Q (cstr ''write_loop'' @ [LF, CR]) s"
  have "holds (block_cells 0 ?c) u"
    using assms by (simp add: u_def holds_print block_cells_def holds_def [of _ s])
  then obtain v where v: "for_loop (write_loop_body ?Q) [0..<0x10] u = Some v" "holds (block_cells 16 ?c) v"
     "uart_tx v = uart_tx u @ concat (map loop_line [0..<16])"
    using for_loop_upt [where I = "\<lambda>i. holds (block_cells i ?c)" and f = loop_line and m = 0 and n = 16 and
        body = "write_loop_body ?Q", OF write_loop_round] by auto
  define w where "w = print ?Q (cstr ''Read'' @ [LF, CR]) v"
  have w: "holds (block_cells 16 ?c) w" using v by (simp add: w_def holds_print)
  have row: "\<exists>t. (do { s \<leftarrow> for_loop (read_loop_body ?Q) [0..<0x10] x; Some (print ?Q [LF, CR] s) }) = Some t \<and>
      holds (block_cells 16 ?c) t \<and> uart_tx t = uart_tx x @ loop_row" if x: "holds (block_cells 16 ?c) x" for x
    using for_loop_upt [where I = "\<lambda>_. holds (block_cells 16 ?c)" and m = 0 and n = 16 and
        f = "\<lambda>i. itoa16 (of_nat i) @ cstr '' ''" and body = "read_loop_body ?Q", OF read_loop_round x]
    by (auto simp: holds_print loop_row_def simp del: upt.simps)
  show ?thesis
    using for_loop_upt [where I = "\<lambda>_. holds (block_cells 16 ?c)" and m = 0 and n = 10 and
        f = "\<lambda>_. loop_row", OF row w] v(3)
    by (auto simp: write_loop_def Let_def u_def [symmetric] w_def [symmetric] v(1) holds_def map_replicate_const
        simp del: upt.simps replicate.simps)
       (auto simp: w_def u_def simp del: upt.simps)
qed

section \<open>Start-up\<close>

lemma tick_any_fsm_ok: "fsm_ok (bus_fsm0 b) \<Longrightarrow> fsm_ok (bus_fsm0 (tick p b))"
  by (simp add: tick_def Let_def clock_edges_def dcm_posedge_def dcm_negedge_def fsm_posedge_ok)

lemma cycles_any_fsm_ok:
  "fsm_ok (bus_fsm0 (brd s)) \<Longrightarrow> fsm_ok (bus_fsm0 (brd (cycles (quickdev ovh fl) n s)))"
  unfolding cycles_brd by (induction n) (simp_all add: tick_any_fsm_ok)

lemma tick_reset: "avr_reset p \<Longrightarrow> clk_ok (tick p b)"
  by (simp add: tick_def Let_def clock_edges_def dcm_posedge_def dcm_negedge_def clk_ok_def
      clockdivide_negedge_def)

lemma cycles_reset:
  "bit (PORTB s) AVR_RESET \<Longrightarrow> 0 < n \<Longrightarrow> clk_ok (brd (cycles (quickdev ovh fl) n s))"
  unfolding cycles_brd by (cases n) (simp_all add: tick_reset)

lemma init_ready_aux:
  assumes "fsm_ok (bus_fsm0 (brd s))"
  shows "ready (init (quickdev ovh fl) s) \<and>
    uart_tx (init (quickdev ovh fl) s) = uart_tx s @ cstr ''init'' @ [LF, CR]"
proof -
  let ?Q = "quickdev ovh fl"
  define u where "u = sbi_PORTB ?Q AVR_COUNTER (sbi_PORTB ?Q AVR_SREG_EN (sbi_PORTB ?Q AVR_WE
     (sbi_PORTB ?Q AVR_OE (out_DDRA ?Q 0xff (out_DDRB ?Q 0xff s)))))"
  have u: "fsm_ok (bus_fsm0 (brd u))"
    using assms by (simp add: u_def sbi_PORTB_def out_DDRA_def out_DDRB_def cycles_any_fsm_ok)
  have pu: "bit (PORTB u) n = (bit (PORTB s) n \<or> n = AVR_COUNTER \<or> n = AVR_SREG_EN \<or> n = AVR_WE \<or> n = AVR_OE)" for n
    by (auto simp: u_def sbi_PORTB_def out_DDRA_def out_DDRB_def)
  have ut: "uart_tx u = uart_tx s" by (simp add: u_def sbi_PORTB_def out_DDRA_def out_DDRB_def)
  define v where "v = cycles ?Q 18 (u\<lparr>PORTB := PORTB u OR BV AVR_RESET\<rparr>)"
  have v: "clk_ok (brd v)" "fsm_ok (bus_fsm0 (brd v))"
    using u by (simp_all add: v_def cycles_reset cycles_any_fsm_ok)
  define w where "w = cycles ?Q 18 (v\<lparr>PORTB := PORTB v AND NOT (BV AVR_RESET)\<rparr>)"
  have "ready (v\<lparr>PORTB := PORTB v AND NOT (BV AVR_RESET)\<rparr>)"
    using v pu by (simp add: ready_def bus_ready_def v_def)
  from hold_cycles(1) [OF this, of ovh fl 18] have "ready w" by (simp add: w_def)
  moreover have i: "init ?Q s = print ?Q (cstr ''init'' @ [LF, CR]) w"
    by (simp add: init_def Let_def print_def w_def v_def u_def wait_us_def sbi_PORTB_def
        cbi_PORTB_def cycles_cycles)
  ultimately show ?thesis
    using ut holds_print [of "cells (brd w)" w] by (simp add: holds_def) (simp add: w_def v_def)
qed

text \<open>
  \<open>init\<close> from power-up: whatever the CPLD's registers hold (the bus state machine
  must only not sit in IDLE with a stale buffer), the reset pulse brings the board into the state
  in which every access function works, and reports \<open>init\<close>.
\<close>

theorem init_ready:
  assumes "fsm_ok (bus_fsm0 (brd s))"
  shows "ready (init (quickdev ovh fl) s) \<and>
    uart_tx (init (quickdev ovh fl) s) = uart_tx s @ cstr ''init'' @ [LF, CR]"
  using assms by (rule init_ready_aux)

lemma toggle_step_effect:
  assumes "ready s"
  shows "ready (toggle_step (quickdev ovh fl) i s) \<and>
    sreg0 (brd (toggle_step (quickdev ovh fl) i s)) = ucast (snd (toggle_pattern (i mod 4)))"
proof -
  define u where "u = print (quickdev ovh fl) (cstr (fst (toggle_pattern (i mod 4))) @ [LF, CR]) s"
  have "ready u" using assms holds_print [of "cells (brd s)" s] by (simp add: u_def holds_def)
  then show ?thesis using sreg_set_ready [OF _ refl, of u] by (simp add: toggle_step_def u_def case_prod_unfold Let_def)
qed

lemma toggle_effect:
  assumes "ready s"
  shows "ready (toggle_sreg_pattern (quickdev ovh fl) i ws s) \<and>
    sreg0 (brd (toggle_sreg_pattern (quickdev ovh fl) i ws s)) =
      ucast (snd (toggle_pattern ((i + length ws) mod 4)))"
  using assms
proof (induction ws arbitrary: i s)
  case Nil
  then show ?case using toggle_step_effect by simp
next
  case (Cons w ws)
  have "ready (cycles (quickdev ovh fl) w (toggle_step (quickdev ovh fl) i s))"
    using toggle_step_effect [OF Cons.prems] hold_cycles by blast
  from Cons.IH [OF this, of "Suc i"] show ?case by simp
qed

lemma pattern_nth:
  "ucast (snd (toggle_pattern (n mod 4))) = ([0x5555, 0xaaaa, 0x0000, 0x000f] :: saddr list) ! (n mod 4)"
proof -
  have "n mod 4 = 0 \<or> n mod 4 = Suc 0 \<or> n mod 4 = Suc (Suc 0) \<or> n mod 4 = Suc (Suc (Suc 0))" by arith
  then show ?thesis by (elim disjE) simp_all
qed

text \<open>
  C36. \<open>main\<close>: from power-up, when the program waits for a byte for the \<open>n\<close>-th time (counted
  from 0) the address register holds the \<open>n mod 4\<close>-th test pattern; since \<open>toggle_sreg_pattern\<close>
  never returns, this is every state \<open>main\<close> waits in.
\<close>

theorem main_patterns:
  assumes "fsm_ok (bus_fsm0 (brd s))"
  shows "ready (main (quickdev ovh fl) waits s) \<and>
    sreg0 (brd (main (quickdev ovh fl) waits s)) = [0x5555, 0xaaaa, 0x0000, 0x000f] ! (length waits mod 4)"
  using toggle_effect [OF conjunct1 [OF init_ready_aux [OF assms]], of ovh fl 0 waits]
  by (simp add: main_def pattern_nth)

section \<open>Single accesses\<close>

text \<open>
  \<open>sreg_set\<close>: twenty-one pulses load the address, most significant bit first,
  whatever the register held before, and leave the SRAM, the data port and the report untouched.
\<close>

theorem sreg_set_loads:
  assumes "ready s"
  shows "ready (sreg_set (quickdev ovh fl) addr s) \<and>
    sreg0 (brd (sreg_set (quickdev ovh fl) addr s)) = ucast addr \<and>
    same_data s (sreg_set (quickdev ovh fl) addr s)"
  using sreg_set_ready [OF assms refl] by blast

text \<open>
  C21. A byte written with \<open>SRAM_write\<close> is the byte \<open>SRAM_read\<close> returns, for every
  address whose low 21 bits are the same, and a read of any other cell still returns what it held.
\<close>

theorem write_then_read:
  assumes "ready s"
  shows "fst (SRAM_read (quickdev ovh fl) addr' (SRAM_write (quickdev ovh fl) addr data s)) =
    (if (ucast addr' :: saddr) = ucast addr then data
     else case cells (brd s) (ucast addr') of Some v \<Rightarrow> v | None \<Rightarrow> fl)"
proof -
  note w = SRAM_write_effect [OF assms refl, of ovh fl addr data]
  obtain r t where "SRAM_read (quickdev ovh fl) addr' (SRAM_write (quickdev ovh fl) addr data s) = (r, t)"
    by fastforce
  then show ?thesis using SRAM_read_effect(4) [OF w(1), of r t ovh fl addr'] w(2) by simp
qed

text \<open>
  The parameter of \<open>SRAM_burst_start\<close> is a byte: for a block address above 255 the
  burst starts at its low byte instead.
\<close>

theorem burst_start_truncates:
  assumes "ready s"
  shows "sreg0 (brd (SRAM_burst_start (quickdev ovh fl) (ucast (addr :: u32)) s)) = ucast (take_bit 8 addr)"
proof -
  have "(ucast (ucast addr :: u8) :: saddr) = ucast (take_bit 8 addr)"
    by (intro bit_word_eqI) (auto simp: bit_simps)
  then show ?thesis using burst_start_effect(2) [OF assms refl] by simp
qed

text \<open>
  \<open>read_back\<close> overruns its two-byte buffer on its first report: the value it has just
  written, \<open>0xaa\<close>, takes two digits and a terminating zero.
\<close>

theorem read_back_overrun:
  assumes "ready s"
  shows "read_back (quickdev ovh fl) s = None"
proof -
  let ?Q = "quickdev ovh fl"
  define u where "u = print ?Q (cstr ''read_back'' @ [LF, CR]) s"
  define v where "v = SRAM_write ?Q 0 0xaa (sbi_PORTB ?Q AVR_SREG_EN u)"
  have "holds (cells (brd s)) u" using assms by (simp add: u_def holds_print holds_def [of _ s])
  then have "holds (cells (brd s)) (sbi_PORTB ?Q AVR_SREG_EN u)"
    using holds_cycles by (simp add: sbi_id holds_def [of _ u] ready_def)
  then have "holds ((cells (brd s))(ucast (0 :: u32) := Some 0xaa)) v"
    unfolding v_def by (rule holds_write)
  from holds_read [OF this, of ovh fl 0]
  obtain t where t: "SRAM_read ?Q 0 v = (0xaa, t)" by (auto simp: level_def)
  have "read_report ?Q v = None" by (simp add: read_report_def t put_hex_def itoa16_def)
  then show ?thesis by (simp add: read_back_def u_def [symmetric] v_def [symmetric] Let_def)
qed

section \<open>The reset of the bus state machine\<close>

text \<open>
  The synchronous reset of \<open>bus.v\<close> cannot happen in \<open>system.v\<close>: while \<open>avr_reset\<close> is high
  the divider that clocks the state machine is itself held in reset, so no number of cycles of
  reset changes the state machine.
\<close>

theorem reset_does_not_clock_fsm:
  "avr_reset p \<Longrightarrow> bus_fsm0 ((tick p ^^ n) b) = bus_fsm0 b"
proof (induction n)
  case (Suc n)
  have "bus_fsm0 (tick p c) = bus_fsm0 c" for c :: "'a board_scheme"
    using Suc.prems by (simp add: tick_def Let_def clock_edges_def dcm_posedge_def dcm_negedge_def rises_def
      clockdivide_negedge_def clockdivide_out_def cd_dbn_en_def)
  then show ?case using Suc by simp
qed simp

section \<open>A concrete board\<close>

definition bench_cpld :: board where
  "bench_cpld = \<lparr>dcm0 = \<lparr>cd_count = 0, cd_out1 = False, cd_out2 = True\<rparr>,
     dcm1 = \<lparr>cd_count = 0, cd_out1 = False, cd_out2 = False\<rparr>, sreg0 = 0x1234,
     bus_fsm0 = \<lparr>fsm_state = St_OTHER, buffer_avr = None, buffer_sram = Some 3, fsm_buffer = None\<rparr>,
     cells = (\<lambda>x. Some 0x5a)\<rparr>"

definition bench :: "board avr" where
  "bench = \<lparr>PORTA = 0, DDRA = 0xff, PORTB = 0x74, DDRB = 0xff, brd = bench_cpld, uart_tx = []\<rparr>"

lemma ready_bench: "ready bench"
  by (simp add: ready_def bus_ready_def bench_def bench_cpld_def clk_ok_def fsm_ok_def bit_simps)

lemma fsm_ok_bench: "fsm_ok (bus_fsm0 (brd bench))"
  by (simp add: bench_def bench_cpld_def fsm_ok_def)

theorem sreg_set_loads_witness: "sreg0 (brd (sreg_set (quickdev 3 0) 0x1fffff bench)) = 0x1fffff"
  using sreg_set_loads [OF ready_bench, of 3 0 "0x1fffff"] by simp

theorem write_then_read_witness:
  "fst (SRAM_read (quickdev 3 0) 0x55 (SRAM_write (quickdev 3 0) 0x200055 0x77 bench)) = 0x77 \<and>
   fst (SRAM_read (quickdev 3 0) 0x54 (SRAM_write (quickdev 3 0) 0x200055 0x77 bench)) = 0x5a"
  using write_then_read [OF ready_bench, of 3 0 "0x55" "0x200055" "0x77"]
    write_then_read [OF ready_bench, of 3 0 "0x54" "0x200055" "0x77"]
  by (simp add: bench_def bench_cpld_def)

theorem write_big_block_ok_witness:
  "\<exists>t. write_big_block (quickdev 2 0) bench = Some t \<and> cells (brd t) 0x123 = Some 0x23"
  using write_big_block_ok [OF ready_bench, of 2 0] by (auto simp: block_cells_def)

theorem write_burst_big_block_ok_witness:
  "\<exists>t. write_burst_big_block (quickdev 2 0) bench = Some t \<and> cells (brd t) 0x123 = Some 0xdc \<and>
     cells (brd t) 0x1000 = Some 0 \<and> cells (brd t) 0x1001 = Some 0x5a"
  using write_burst_big_block_ok [OF ready_bench, of 2 0]
  by (auto simp: burst_cells_def bench_def bench_cpld_def)

theorem write_loop_ok_witness:
  "\<exists>t. write_loop (quickdev 2 0) bench = Some t \<and> cells (brd t) 0xf = Some 0xf"
  using write_loop_ok [OF ready_bench, of 2 0] by (auto simp: block_cells_def)

theorem init_ready_witness: "ready (init (quickdev 5 0) bench)"
  using init_ready [OF fsm_ok_bench, of 5 0] by simp

theorem main_patterns_witness: "sreg0 (brd (main (quickdev 5 0) [100, 2000] bench)) = 0"
  using main_patterns [OF fsm_ok_bench, of 5 0 "[100, 2000]"] by (simp add: numeral_2_eq_2)

theorem burst_start_truncates_witness:
  "sreg0 (brd (SRAM_burst_start (quickdev 1 0) (ucast (0x12345 :: u32)) bench)) = 0x45"
  using burst_start_truncates [OF ready_bench, of 1 0 "0x12345"] by simp

theorem read_back_overrun_witness: "read_back (quickdev 1 0) bench = None"
  using read_back_overrun [OF ready_bench, of 1 0] .

theorem reset_does_not_clock_fsm_witness:
  "bus_fsm0 ((tick (pins_of 0 0 0x02 0xff) ^^ 5) bench_cpld) = bus_fsm0 bench_cpld"
  using reset_does_not_clock_fsm [of "pins_of 0 0 0x02 0xff" 5 bench_cpld] by (simp add: pins_of_def)

end
