(* ===== verification/Mmio.thy ===== *)
theory Mmio
  imports Prelude
begin

text \<open>
  Access to the AVR's registers.  A firmware function takes the record \<open>access\<close> of the two ways
  the program touches the outside, reading and writing a volatile location, and threads the
  state \<open>'h\<close> of everything behind those locations.  Besides the I/O registers the locations
  include the two global variables that interrupt handlers change under the main program
  (\<open>USB_DeviceState\<close> and \<open>IsMassStoreReset\<close>), so every read of them may see a new value.

  A polling loop may never end; it is a \<open>partial_function\<close> into \<open>option\<close>, and \<open>None\<close> stands for a
  loop that does not return.
\<close>

datatype reg =
    UENUM | UEINTX | UEDATX | UECONX | UECFG0X | UECFG1X | UESTA0X | UEBCLX | UEBCHX
  | UERST | UEINT | UEIENX | UDINT | UDADDR | UDCON | UHWCON
  | USBCON | USBINT | UDIEN | USBSTA | PLLCSR
  | SPDR | SPSR | SPCR | PORTB | DDRB | PORTC | DDRC | PORTD | DDRD | PIND | PORTE | DDRE | PINE
  | V_DeviceState | V_IsMassStoreReset

text \<open>The type \<open>'r\<close> of locations is \<open>reg\<close> for the device's firmware; the USB host has its own.\<close>

record ('r, 'h) access =
  io_rd :: "'r \<Rightarrow> 'h \<Rightarrow> u8 \<times> 'h"
  io_wr :: "'r \<Rightarrow> u8 \<Rightarrow> 'h \<Rightarrow> 'h"

type_synonym 'h mmio = "(reg, 'h) access"

section \<open>Single accesses\<close>

text \<open>\<open>R |= m\<close>, \<open>R &= ~m\<close> and the test \<open>R & (1 << n)\<close>.\<close>

definition or_reg :: "('r, 'h) access \<Rightarrow> 'r \<Rightarrow> u8 \<Rightarrow> 'h \<Rightarrow> 'h" where
  "or_reg io r m s = (let (v, s) = io_rd io r s in io_wr io r (v OR m) s)"

definition clr_reg :: "('r, 'h) access \<Rightarrow> 'r \<Rightarrow> u8 \<Rightarrow> 'h \<Rightarrow> 'h" where
  "clr_reg io r m s = (let (v, s) = io_rd io r s in io_wr io r (v AND NOT m) s)"

definition test_reg :: "('r, 'h) access \<Rightarrow> 'r \<Rightarrow> nat \<Rightarrow> 'h \<Rightarrow> bool \<times> 'h" where
  "test_reg io r n s = (let (v, s) = io_rd io r s in (bit v n, s))"

text \<open>\<open>while (!(R & (1 << n)));\<close>\<close>

partial_function (option) spin_until :: "('r, 'h) access \<Rightarrow> 'r \<Rightarrow> nat \<Rightarrow> 'h \<Rightarrow> 'h option" where
  [code]: "spin_until io r n s =
     (let (b, s) = test_reg io r n s in if b then Some s else spin_until io r n s)"

lemma spin_once: "test_reg io r n s = (True, t) \<Longrightarrow> spin_until io r n s = Some t"
  by (subst spin_until.simps) simp

section \<open>Control flow of a function body\<close>

text \<open>
  A part of a function body either runs to its end with new values of the locals (\<open>Next\<close>) or
  executes a \<open>return\<close> (\<open>Return\<close>).
\<close>

datatype ('r, 'l) flow = Return 'r | Next 'l

text \<open>A loop that runs its body a given number of times unless the body returns.\<close>

fun repeat_flow :: "nat \<Rightarrow> ('l \<Rightarrow> 'h \<Rightarrow> (('r, 'l) flow \<times> 'h) option) \<Rightarrow> 'l \<Rightarrow> 'h \<Rightarrow> (('r, 'l) flow \<times> 'h) option" where
  "repeat_flow 0 body l s = Some (Next l, s)"
| "repeat_flow (Suc n) body l s =
     do {
       (f, s) \<leftarrow> body l s;
       case f of Return r \<Rightarrow> Some (Return r, s) | Next l \<Rightarrow> repeat_flow n body l s
     }"

text \<open>
  The induction rule for such a loop: an invariant per number of finished rounds, when no round
  returns.
\<close>

lemma repeat_flow_inv:
  assumes "\<And>i l s. i < n \<Longrightarrow> I i l s \<Longrightarrow> \<exists>l' s'. body l s = Some (Next l', s') \<and> I (Suc i) l' s'"
    and "I 0 l s"
  shows "\<exists>l' s'. repeat_flow n body l s = Some (Next l', s') \<and> I n l' s'"
proof -
  have "\<exists>l' s'. repeat_flow k body l s = Some (Next l', s') \<and> I n l' s'"
    if "k \<le> n" "I (n - k) l s" for k l s
    using that
  proof (induction k arbitrary: l s)
    case (Suc k)
    then have k: "n - Suc k < n" "Suc (n - Suc k) = n - k" by simp_all
    obtain l1 s1 where "body l s = Some (Next l1, s1)" "I (n - k) l1 s1"
      using assms(1) [OF k(1) Suc.prems(2)] unfolding k(2) by blast
    then show ?case using Suc by simp
  qed simp
  from this [of n l s] assms(2) show ?thesis by simp
qed

end
