(* ===== verification/Dataflash.thy ===== *)
theory Dataflash
  imports Mmio
begin

text \<open>
  The SPI driver (\<open>LUFA/Drivers/Peripheral/SPI.h\<close>) and the dataflash driver on top of it
  (\<open>LUFA/Drivers/Board/Dataflash.h\<close> and the board's \<open>poc/MassStorage/Board/Dataflash.h\<close>): bytes
  out, bytes in, chip selects on port E, page addresses and the busy wait.
\<close>

section \<open>SPI (SPI.h)\<close>

abbreviation (input) SPIF :: nat where "SPIF \<equiv> 7"
abbreviation (input) SPI2X :: nat where "SPI2X \<equiv> 0"
abbreviation (input) SPE :: nat where "SPE \<equiv> 6"
abbreviation (input) SPI_USE_DOUBLESPEED :: u8 where "SPI_USE_DOUBLESPEED \<equiv> 0x40"

definition SPI_Init :: "'h mmio \<Rightarrow> u8 \<Rightarrow> 'h \<Rightarrow> 'h" where
  "SPI_Init io SPIOptions s =
     (let s = or_reg io DDRB (BV 1 OR BV 2) s;
          s = or_reg io PORTB (BV 0 OR BV 3) s;
          s = io_wr io SPCR (BV SPE OR SPIOptions) s
      in if SPIOptions AND SPI_USE_DOUBLESPEED \<noteq> 0 then or_reg io SPSR (BV SPI2X) s
         else clr_reg io SPSR (BV SPI2X) s)"

definition SPI_ShutDown :: "'h mmio \<Rightarrow> 'h \<Rightarrow> 'h" where
  "SPI_ShutDown io s =
     (let s = clr_reg io DDRB (BV 1 OR BV 2) s;
          s = clr_reg io PORTB (BV 0 OR BV 3) s
      in io_wr io SPSR 0 (io_wr io SPCR 0 s))"

definition SPI_SendByte :: "'h mmio \<Rightarrow> u8 \<Rightarrow> 'h \<Rightarrow> 'h option" where
  "SPI_SendByte io Byte s = spin_until io SPSR SPIF (io_wr io SPDR Byte s)"

definition SPI_TransferByte :: "'h mmio \<Rightarrow> u8 \<Rightarrow> 'h \<Rightarrow> (u8 \<times> 'h) option" where
  "SPI_TransferByte io Byte s =
     do { s \<leftarrow> spin_until io SPSR SPIF (io_wr io SPDR Byte s); Some (io_rd io SPDR s) }"

definition SPI_ReceiveByte :: "'h mmio \<Rightarrow> 'h \<Rightarrow> (u8 \<times> 'h) option" where
  "SPI_ReceiveByte io s =
     do { s \<leftarrow> spin_until io SPSR SPIF (io_wr io SPDR 0x00 s); Some (io_rd io SPDR s) }"

section \<open>Dataflash commands (Board/AT45DB642D.h)\<close>

abbreviation (input) DF_STATUS_READY :: nat where "DF_STATUS_READY \<equiv> 7"
abbreviation (input) DF_STATUS_SECTORPROTECTION_ON :: u8 where "DF_STATUS_SECTORPROTECTION_ON \<equiv> 2"
abbreviation (input) DF_MANUFACTURER_ATMEL :: u8 where "DF_MANUFACTURER_ATMEL \<equiv> 0x1f"
abbreviation (input) DF_CMD_GETSTATUS :: u8 where "DF_CMD_GETSTATUS \<equiv> 0xd7"
abbreviation (input) DF_CMD_MAINMEMTOBUFF1 :: u8 where "DF_CMD_MAINMEMTOBUFF1 \<equiv> 0x53"
abbreviation (input) DF_CMD_MAINMEMTOBUFF2 :: u8 where "DF_CMD_MAINMEMTOBUFF2 \<equiv> 0x55"
abbreviation (input) DF_CMD_MAINMEMPAGEREAD :: u8 where "DF_CMD_MAINMEMPAGEREAD \<equiv> 0xd2"
abbreviation (input) DF_CMD_BUFF1WRITE :: u8 where "DF_CMD_BUFF1WRITE \<equiv> 0x84"
abbreviation (input) DF_CMD_BUFF2WRITE :: u8 where "DF_CMD_BUFF2WRITE \<equiv> 0x87"
abbreviation (input) DF_CMD_BUFF1TOMAINMEMWITHERASE :: u8 where "DF_CMD_BUFF1TOMAINMEMWITHERASE \<equiv> 0x83"
abbreviation (input) DF_CMD_BUFF2TOMAINMEMWITHERASE :: u8 where "DF_CMD_BUFF2TOMAINMEMWITHERASE \<equiv> 0x86"
abbreviation (input) DF_CMD_READMANUFACTURERDEVICEINFO :: u8 where "DF_CMD_READMANUFACTURERDEVICEINFO \<equiv> 0x9f"

definition DF_CMD_SECTORPROTECTIONOFF :: "u8 list" where
  "DF_CMD_SECTORPROTECTIONOFF = [0x3d, 0x2a, 0x7f, 0x9a]"

section \<open>The driver\<close>

abbreviation (input) DATAFLASH_CHIPCS_MASK :: u8 where "DATAFLASH_CHIPCS_MASK \<equiv> 0x03"
abbreviation (input) DATAFLASH_NO_CHIP :: u8 where "DATAFLASH_NO_CHIP \<equiv> 0x03"
abbreviation (input) DATAFLASH_CHIP1 :: u8 where "DATAFLASH_CHIP1 \<equiv> 0x02"
abbreviation (input) DATAFLASH_CHIP2 :: u8 where "DATAFLASH_CHIP2 \<equiv> 0x01"
abbreviation (input) DATAFLASH_TOTALCHIPS :: nat where "DATAFLASH_TOTALCHIPS \<equiv> 2"
abbreviation (input) DATAFLASH_PAGE_SIZE :: nat where "DATAFLASH_PAGE_SIZE \<equiv> 1024"
abbreviation (input) DATAFLASH_PAGES :: nat where "DATAFLASH_PAGES \<equiv> 8192"

definition Dataflash_SendByte :: "'h mmio \<Rightarrow> u8 \<Rightarrow> 'h \<Rightarrow> 'h option" where
  "Dataflash_SendByte io Byte s = SPI_SendByte io Byte s"

definition Dataflash_TransferByte :: "'h mmio \<Rightarrow> u8 \<Rightarrow> 'h \<Rightarrow> (u8 \<times> 'h) option" where
  "Dataflash_TransferByte io Byte s = SPI_TransferByte io Byte s"

definition Dataflash_ReceiveByte :: "'h mmio \<Rightarrow> 'h \<Rightarrow> (u8 \<times> 'h) option" where
  "Dataflash_ReceiveByte io s = SPI_ReceiveByte io s"

definition Dataflash_GetSelectedChip :: "'h mmio \<Rightarrow> 'h \<Rightarrow> u8 \<times> 'h" where
  "Dataflash_GetSelectedChip io s =
     (let (v, s) = io_rd io PORTE s in (v AND DATAFLASH_CHIPCS_MASK, s))"

definition Dataflash_SelectChip :: "'h mmio \<Rightarrow> u8 \<Rightarrow> 'h \<Rightarrow> 'h" where
  "Dataflash_SelectChip io ChipMask s =
     (let (v, s) = io_rd io PORTE s in io_wr io PORTE ((v AND NOT DATAFLASH_CHIPCS_MASK) OR ChipMask) s)"

definition Dataflash_DeselectChip :: "'h mmio \<Rightarrow> 'h \<Rightarrow> 'h" where
  "Dataflash_DeselectChip io s = Dataflash_SelectChip io DATAFLASH_NO_CHIP s"

definition Dataflash_Init :: "'h mmio \<Rightarrow> 'h \<Rightarrow> 'h" where
  "Dataflash_Init io s =
     or_reg io PORTE DATAFLASH_CHIPCS_MASK (or_reg io DDRE DATAFLASH_CHIPCS_MASK s)"

definition Dataflash_ToggleSelectedChipCS :: "'h mmio \<Rightarrow> 'h \<Rightarrow> 'h" where
  "Dataflash_ToggleSelectedChipCS io s =
     (let (SelectedChipMask, s) = Dataflash_GetSelectedChip io s;
          s = Dataflash_DeselectChip io s
      in Dataflash_SelectChip io SelectedChipMask s)"

partial_function (option) status_wait :: "'h mmio \<Rightarrow> 'h \<Rightarrow> 'h option" where
  [code]: "status_wait io s =
     do {
       (b, s) \<leftarrow> Dataflash_ReceiveByte io s;
       if bit b DF_STATUS_READY then Some s else status_wait io s
     }"

definition Dataflash_WaitWhileBusy :: "'h mmio \<Rightarrow> 'h \<Rightarrow> 'h option" where
  "Dataflash_WaitWhileBusy io s =
     do {
       let s = Dataflash_ToggleSelectedChipCS io s;
       s \<leftarrow> Dataflash_SendByte io DF_CMD_GETSTATUS s;
       s \<leftarrow> status_wait io s;
       Some (Dataflash_ToggleSelectedChipCS io s)
     }"

definition Dataflash_SelectChipFromPage :: "'h mmio \<Rightarrow> u16 \<Rightarrow> 'h \<Rightarrow> 'h" where
  "Dataflash_SelectChipFromPage io PageAddress s =
     (let s = Dataflash_DeselectChip io s
      in if unat PageAddress \<ge> DATAFLASH_PAGES * DATAFLASH_TOTALCHIPS then s
         else if PageAddress AND 0x01 \<noteq> 0 then Dataflash_SelectChip io DATAFLASH_CHIP2 s
         else Dataflash_SelectChip io DATAFLASH_CHIP1 s)"

definition Dataflash_SendAddressBytes :: "'h mmio \<Rightarrow> u16 \<Rightarrow> u16 \<Rightarrow> 'h \<Rightarrow> 'h option" where
  "Dataflash_SendAddressBytes io PageAddress BufferByte s =
     do {
       let PageAddress = drop_bit 1 PageAddress;
       s \<leftarrow> Dataflash_SendByte io (ucast (drop_bit 5 PageAddress)) s;
       s \<leftarrow> Dataflash_SendByte io (ucast (push_bit 3 PageAddress OR drop_bit 8 BufferByte)) s;
       Dataflash_SendByte io (ucast BufferByte) s
     }"

end
