(* ===== verification/Bytes.thy ===== *)
theory Bytes
  imports Prelude
begin

text \<open>
  \<open>LUFA/Common/Common.h\<close>: byte orders and bit reversal, and the in-memory bytes of the AVR's
  little-endian 16- and 32-bit integers.
\<close>

section \<open>Integers in memory\<close>

definition bytes16 :: "u16 \<Rightarrow> u8 list" where
  "bytes16 w = [ucast w, ucast (drop_bit 8 w)]"

definition bytes32 :: "u32 \<Rightarrow> u8 list" where
  "bytes32 w = [ucast w, ucast (drop_bit 8 w), ucast (drop_bit 16 w), ucast (drop_bit 24 w)]"

definition word16 :: "u8 \<Rightarrow> u8 \<Rightarrow> u16" where
  "word16 a b = ucast a OR push_bit 8 (ucast b)"

definition word32 :: "u8 \<Rightarrow> u8 \<Rightarrow> u8 \<Rightarrow> u8 \<Rightarrow> u32" where
  "word32 a b c d = ucast a OR push_bit 8 (ucast b) OR push_bit 16 (ucast c) OR push_bit 24 (ucast d)"

text \<open>\<open>*(uint16_t* )p\<close> and \<open>*(uint32_t* )p\<close> at offset \<open>n\<close> of an array.\<close>

definition peek16 :: "u8 list \<Rightarrow> nat \<Rightarrow> u16" where
  "peek16 bs n = word16 (bs ! n) (bs ! (n + 1))"

definition peek32 :: "u8 list \<Rightarrow> nat \<Rightarrow> u32" where
  "peek32 bs n = word32 (bs ! n) (bs ! (n + 1)) (bs ! (n + 2)) (bs ! (n + 3))"

lemma bit_u8_bound: "bit (w :: u8) n \<Longrightarrow> n < 8"
  using bit_imp_le_length [of w n] by simp

lemma bit_word16: "bit (word16 a b) n \<longleftrightarrow> (if n < 8 then bit a n else bit b (n - 8))"
  using bit_u8_bound [of a n] bit_u8_bound [of b "n - 8"]
  by (auto simp: word16_def bit_simps)

lemma bit_word32: "bit (word32 a b c d) n \<longleftrightarrow>
    (if n < 8 then bit a n else if n < 16 then bit b (n - 8) else if n < 24 then bit c (n - 16) else bit d (n - 24))"
  using bit_u8_bound [of a n] bit_u8_bound [of b "n - 8"] bit_u8_bound [of c "n - 16"] bit_u8_bound [of d "n - 24"]
  by (auto simp: word32_def bit_simps)

lemma word16_bytes [simp]: "word16 (ucast w) (ucast (drop_bit 8 w)) = w"
proof (rule bit_word_eqI)
  fix n assume "n < LENGTH(16)"
  then show "bit (word16 (ucast w) (ucast (drop_bit 8 w))) n = bit w n"
    by (auto simp: bit_word16 bit_simps)
qed

lemma word32_bytes [simp]:
  "word32 (ucast w) (ucast (drop_bit 8 w)) (ucast (drop_bit 16 w)) (ucast (drop_bit 24 w)) = w"
proof (rule bit_word_eqI)
  fix n assume "n < LENGTH(32)"
  then show "bit (word32 (ucast w) (ucast (drop_bit 8 w)) (ucast (drop_bit 16 w)) (ucast (drop_bit 24 w))) n = bit w n"
    by (auto simp: bit_word32 bit_simps)
qed

lemma bytes16_word [simp]: "bytes16 (word16 a b) = [a, b]"
  by (auto simp: bytes16_def bit_simps bit_word16 dest: bit_u8_bound intro!: bit_word_eqI)

lemma bytes32_word [simp]: "bytes32 (word32 a b c d) = [a, b, c, d]"
  by (auto simp: bytes32_def bit_simps bit_word32 dest: bit_u8_bound intro!: bit_word_eqI)

lemma length_bytes [simp]: "length (bytes16 v) = 2" "length (bytes32 w) = 4"
  by (simp_all add: bytes16_def bytes32_def)

section \<open>Common.h\<close>

definition BitReverse :: "u8 \<Rightarrow> u8" where
  "BitReverse Byte =
     (let Byte = drop_bit 4 (Byte AND 0xF0) OR push_bit 4 (Byte AND 0x0F);
          Byte = drop_bit 2 (Byte AND 0xCC) OR push_bit 2 (Byte AND 0x33)
      in drop_bit 1 (Byte AND 0xAA) OR push_bit 1 (Byte AND 0x55))"

definition SwapEndian_16 :: "u16 \<Rightarrow> u16" where
  "SwapEndian_16 Word = drop_bit 8 Word OR push_bit 8 Word"

definition SwapEndian_32 :: "u32 \<Rightarrow> u32" where
  "SwapEndian_32 DWord =
     drop_bit 24 (DWord AND 0xFF000000) OR drop_bit 8 (DWord AND 0x00FF0000) OR
     push_bit 8 (DWord AND 0x0000FF00) OR push_bit 24 (DWord AND 0x000000FF)"

text \<open>
  \<open>SwapEndian_n\<close> on the \<open>Bytes\<close> bytes behind \<open>Data\<close>: the first and the last are exchanged, then the
  same for the \<open>Bytes - 2\<close> bytes between them.  For an odd count the byte counter wraps past zero
  and the loop leaves the array, so that is \<open>None\<close>.
\<close>

fun SwapEndian_n :: "u8 list \<Rightarrow> u8 list option" where
  "SwapEndian_n [] = Some []"
| "SwapEndian_n [x] = None"
| "SwapEndian_n (x # y # rest) =
     map_option (\<lambda>inner. last (y # rest) # inner @ [x]) (SwapEndian_n (butlast (y # rest)))"

lemma SwapEndian_16_word: "SwapEndian_16 (word16 a b) = word16 b a"
proof (rule bit_word_eqI)
  fix n assume "n < LENGTH(16)"
  then show "bit (SwapEndian_16 (word16 a b)) n = bit (word16 b a) n"
    using bit_u8_bound [of a n] bit_u8_bound [of a "n - 8"] bit_u8_bound [of b n]
    by (auto simp: SwapEndian_16_def bit_word16 bit_simps)
qed

lemma and_byte_mask:
  fixes w :: u32
  shows "w AND 0xFF000000 = w AND push_bit 24 (mask 8)" "w AND 0x00FF0000 = w AND push_bit 16 (mask 8)"
    "w AND 0x0000FF00 = w AND push_bit 8 (mask 8)" "w AND 0x000000FF = w AND mask 8"
  by (simp_all add: mask_eq_exp_minus_1)

lemma SwapEndian_32_word: "SwapEndian_32 (word32 a b c d) = word32 d c b a"
proof (rule bit_word_eqI)
  fix n assume "n < LENGTH(32)"
  then show "bit (SwapEndian_32 (word32 a b c d)) n = bit (word32 d c b a) n"
    unfolding SwapEndian_32_def and_byte_mask
    by (auto simp: bit_word32 bit_simps dest: bit_u8_bound)
qed

lemma SwapEndian_n_rev: "even (length bs) \<Longrightarrow> SwapEndian_n bs = Some (rev bs)"
proof (induction bs rule: SwapEndian_n.induct)
  case (3 x y rest)
  then have "SwapEndian_n (butlast (y # rest)) = Some (rev (butlast (y # rest)))" by (simp del: butlast.simps)
  moreover have "last (y # rest) # rev (butlast (y # rest)) = rev (y # rest)"
    by (metis append_butlast_last_id list.distinct(1) rev_eq_Cons_iff rev_rev_ident)
  ultimately show ?case by (simp del: butlast.simps last.simps rev.simps(2)) simp
qed simp_all

lemma bytes_ex32: "\<exists>a b c d. w = word32 a b c d"
  by (metis word32_bytes)

lemma bytes_ex16: "\<exists>a b. w = word16 a b"
  by (metis word16_bytes)

text \<open>
  The byte swaps agree: the 16- and 32-bit routines reverse the bytes an integer has in memory,
  and the routine for a buffer does the same to those bytes.
\<close>

theorem swap_endian_agree:
  "bytes16 (SwapEndian_16 v) = rev (bytes16 v) \<and> SwapEndian_n (bytes16 v) = Some (bytes16 (SwapEndian_16 v)) \<and>
   bytes32 (SwapEndian_32 w) = rev (bytes32 w) \<and> SwapEndian_n (bytes32 w) = Some (bytes32 (SwapEndian_32 w))"
proof -
  obtain a b where v: "v = word16 a b" using bytes_ex16 by blast
  obtain c d e f where w: "w = word32 c d e f" using bytes_ex32 by blast
  show ?thesis unfolding v w SwapEndian_16_word SwapEndian_32_word by (simp add: SwapEndian_n_rev)
qed

text \<open>\<open>BitReverse\<close> puts bit \<open>n\<close> of its argument into bit \<open>7 - n\<close> of the result.\<close>

theorem BitReverse_bit: "bit (BitReverse b) n = (n < 8 \<and> bit b (7 - n))"
proof (cases "n < 8")
  case True
  then consider "n = 0" | "n = 1" | "n = 2" | "n = 3" | "n = 4" | "n = 5" | "n = 6" | "n = 7" by linarith
  then show ?thesis
    unfolding BitReverse_def Let_def bit_or_iff bit_and_iff bit_push_bit_iff bit_drop_bit_eq comp_apply
    by cases (simp_all add: bit_simps)
next
  case False
  then show ?thesis using bit_u8_bound by blast
qed

end
