(* ===== verification/Endpoint.thy ===== *)
theory Endpoint
  imports Mmio Bytes
begin

text \<open>
  The USB endpoint driver, \<open>LUFA/Drivers/USB/LowLevel/Endpoint.h\<close> and \<open>Endpoint.c\<close> with its
  templates, for the configuration of \<open>poc/MassStorage/makefile\<close>: an AVR of the USB series 7, no
  \<open>FAST_STREAM_TRANSFERS\<close>, stream callbacks enabled, control endpoint of 8 bytes.  The templates
  that differ only in the memory a byte is taken from (RAM, flash, EEPROM) are one definition
  over the bytes.
\<close>

section \<open>Registers\<close>

abbreviation (input) TXINI :: nat where "TXINI \<equiv> 0"
abbreviation (input) RXOUTI :: nat where "RXOUTI \<equiv> 2"
abbreviation (input) RXSTPI :: nat where "RXSTPI \<equiv> 3"
abbreviation (input) RWAL :: nat where "RWAL \<equiv> 5"
abbreviation (input) FIFOCON :: nat where "FIFOCON \<equiv> 7"
abbreviation (input) EPEN :: nat where "EPEN \<equiv> 0"
abbreviation (input) RSTDT :: nat where "RSTDT \<equiv> 3"
abbreviation (input) STALLRQC :: nat where "STALLRQC \<equiv> 4"
abbreviation (input) STALLRQ :: nat where "STALLRQ \<equiv> 5"
abbreviation (input) EPDIR :: nat where "EPDIR \<equiv> 0"
abbreviation (input) EPTYPE0 :: nat where "EPTYPE0 \<equiv> 6"
abbreviation (input) EPSIZE0 :: nat where "EPSIZE0 \<equiv> 4"
abbreviation (input) ALLOC :: nat where "ALLOC \<equiv> 1"
abbreviation (input) CFGOK :: nat where "CFGOK \<equiv> 7"
abbreviation (input) SOFI :: nat where "SOFI \<equiv> 2"

abbreviation (input) ENDPOINT_DIR_OUT :: u8 where "ENDPOINT_DIR_OUT \<equiv> 0"
abbreviation (input) ENDPOINT_DIR_IN :: u8 where "ENDPOINT_DIR_IN \<equiv> 1"
abbreviation (input) EP_TYPE_CONTROL :: u8 where "EP_TYPE_CONTROL \<equiv> 0"
abbreviation (input) EP_TYPE_ISOCHRONOUS :: u8 where "EP_TYPE_ISOCHRONOUS \<equiv> 1"
abbreviation (input) EP_TYPE_BULK :: u8 where "EP_TYPE_BULK \<equiv> 2"
abbreviation (input) EP_TYPE_INTERRUPT :: u8 where "EP_TYPE_INTERRUPT \<equiv> 3"
abbreviation (input) ENDPOINT_BANK_SINGLE :: u8 where "ENDPOINT_BANK_SINGLE \<equiv> 0"
abbreviation (input) ENDPOINT_BANK_DOUBLE :: u8 where "ENDPOINT_BANK_DOUBLE \<equiv> 4"
abbreviation (input) ENDPOINT_CONTROLEP :: u8 where "ENDPOINT_CONTROLEP \<equiv> 0"
abbreviation (input) ENDPOINT_TOTAL_ENDPOINTS :: nat where "ENDPOINT_TOTAL_ENDPOINTS \<equiv> 7"
abbreviation (input) USB_ControlEndpointSize :: nat where "USB_ControlEndpointSize \<equiv> 8"
abbreviation (input) USB_STREAM_TIMEOUT_MS :: nat where "USB_STREAM_TIMEOUT_MS \<equiv> 100"
abbreviation (input) DEVICE_STATE_Unattached :: u8 where "DEVICE_STATE_Unattached \<equiv> 0"
abbreviation (input) DEVICE_STATE_Powered :: u8 where "DEVICE_STATE_Powered \<equiv> 1"
abbreviation (input) DEVICE_STATE_Default :: u8 where "DEVICE_STATE_Default \<equiv> 2"
abbreviation (input) DEVICE_STATE_Addressed :: u8 where "DEVICE_STATE_Addressed \<equiv> 3"
abbreviation (input) DEVICE_STATE_Configured :: u8 where "DEVICE_STATE_Configured \<equiv> 4"
abbreviation (input) DEVICE_STATE_Suspended :: u8 where "DEVICE_STATE_Suspended \<equiv> 5"

definition Endpoint_BytesInEndpoint :: "'h mmio \<Rightarrow> 'h \<Rightarrow> u16 \<times> 'h" where
  "Endpoint_BytesInEndpoint io s =
     (let (lo, s) = io_rd io UEBCLX s; (hi, s) = io_rd io UEBCHX s
      in (push_bit 8 (ucast hi) OR ucast lo, s))"

definition Endpoint_GetCurrentEndpoint :: "'h mmio \<Rightarrow> 'h \<Rightarrow> u8 \<times> 'h" where
  "Endpoint_GetCurrentEndpoint io s = (let (v, s) = io_rd io UENUM s in (v AND 0x07, s))"

definition Endpoint_SelectEndpoint :: "'h mmio \<Rightarrow> u8 \<Rightarrow> 'h \<Rightarrow> 'h" where
  "Endpoint_SelectEndpoint io epnum s = io_wr io UENUM epnum s"

definition Endpoint_ResetFIFO :: "'h mmio \<Rightarrow> u8 \<Rightarrow> 'h \<Rightarrow> 'h" where
  "Endpoint_ResetFIFO io epnum s = io_wr io UERST 0 (io_wr io UERST (BV (unat epnum)) s)"

definition Endpoint_EnableEndpoint :: "'h mmio \<Rightarrow> 'h \<Rightarrow> 'h" where
  "Endpoint_EnableEndpoint io s = or_reg io UECONX (BV EPEN) s"

definition Endpoint_DisableEndpoint :: "'h mmio \<Rightarrow> 'h \<Rightarrow> 'h" where
  "Endpoint_DisableEndpoint io s = clr_reg io UECONX (BV EPEN) s"

definition Endpoint_IsEnabled :: "'h mmio \<Rightarrow> 'h \<Rightarrow> bool \<times> 'h" where
  "Endpoint_IsEnabled io s = test_reg io UECONX EPEN s"

definition Endpoint_IsReadWriteAllowed :: "'h mmio \<Rightarrow> 'h \<Rightarrow> bool \<times> 'h" where
  "Endpoint_IsReadWriteAllowed io s = test_reg io UEINTX RWAL s"

definition Endpoint_IsConfigured :: "'h mmio \<Rightarrow> 'h \<Rightarrow> bool \<times> 'h" where
  "Endpoint_IsConfigured io s = test_reg io UESTA0X CFGOK s"

definition Endpoint_IsINReady :: "'h mmio \<Rightarrow> 'h \<Rightarrow> bool \<times> 'h" where
  "Endpoint_IsINReady io s = test_reg io UEINTX TXINI s"

definition Endpoint_IsOUTReceived :: "'h mmio \<Rightarrow> 'h \<Rightarrow> bool \<times> 'h" where
  "Endpoint_IsOUTReceived io s = test_reg io UEINTX RXOUTI s"

definition Endpoint_IsSETUPReceived :: "'h mmio \<Rightarrow> 'h \<Rightarrow> bool \<times> 'h" where
  "Endpoint_IsSETUPReceived io s = test_reg io UEINTX RXSTPI s"

definition Endpoint_ClearSETUP :: "'h mmio \<Rightarrow> 'h \<Rightarrow> 'h" where
  "Endpoint_ClearSETUP io s = clr_reg io UEINTX (BV RXSTPI) s"

definition Endpoint_ClearIN :: "'h mmio \<Rightarrow> 'h \<Rightarrow> 'h" where
  "Endpoint_ClearIN io s =
     (let (Temp, s) = io_rd io UEINTX s;
          s = io_wr io UEINTX (Temp AND NOT (BV TXINI)) s
      in io_wr io UEINTX (Temp AND NOT (BV FIFOCON)) s)"

definition Endpoint_ClearOUT :: "'h mmio \<Rightarrow> 'h \<Rightarrow> 'h" where
  "Endpoint_ClearOUT io s =
     (let (Temp, s) = io_rd io UEINTX s;
          s = io_wr io UEINTX (Temp AND NOT (BV RXOUTI)) s
      in io_wr io UEINTX (Temp AND NOT (BV FIFOCON)) s)"

definition Endpoint_StallTransaction :: "'h mmio \<Rightarrow> 'h \<Rightarrow> 'h" where
  "Endpoint_StallTransaction io s = or_reg io UECONX (BV STALLRQ) s"

definition Endpoint_ClearStall :: "'h mmio \<Rightarrow> 'h \<Rightarrow> 'h" where
  "Endpoint_ClearStall io s = or_reg io UECONX (BV STALLRQC) s"

definition Endpoint_IsStalled :: "'h mmio \<Rightarrow> 'h \<Rightarrow> bool \<times> 'h" where
  "Endpoint_IsStalled io s = test_reg io UECONX STALLRQ s"

definition Endpoint_ResetDataToggle :: "'h mmio \<Rightarrow> 'h \<Rightarrow> 'h" where
  "Endpoint_ResetDataToggle io s = or_reg io UECONX (BV RSTDT) s"

definition Endpoint_IsDirIN :: "'h mmio \<Rightarrow> 'h \<Rightarrow> bool \<times> 'h" where
  "Endpoint_IsDirIN io s = test_reg io UECFG0X EPDIR s"

definition Endpoint_Read_Byte :: "'h mmio \<Rightarrow> 'h \<Rightarrow> u8 \<times> 'h" where
  "Endpoint_Read_Byte io s = io_rd io UEDATX s"

definition Endpoint_Write_Byte :: "'h mmio \<Rightarrow> u8 \<Rightarrow> 'h \<Rightarrow> 'h" where
  "Endpoint_Write_Byte io Byte s = io_wr io UEDATX Byte s"

definition Endpoint_Discard_Byte :: "'h mmio \<Rightarrow> 'h \<Rightarrow> 'h" where
  "Endpoint_Discard_Byte io s = snd (io_rd io UEDATX s)"

definition Endpoint_Read_Word_LE :: "'h mmio \<Rightarrow> 'h \<Rightarrow> u16 \<times> 'h" where
  "Endpoint_Read_Word_LE io s =
     (let (b0, s) = io_rd io UEDATX s; (b1, s) = io_rd io UEDATX s in (word16 b0 b1, s))"

definition Endpoint_Read_Word_BE :: "'h mmio \<Rightarrow> 'h \<Rightarrow> u16 \<times> 'h" where
  "Endpoint_Read_Word_BE io s =
     (let (b1, s) = io_rd io UEDATX s; (b0, s) = io_rd io UEDATX s in (word16 b0 b1, s))"

definition Endpoint_Write_Word_LE :: "'h mmio \<Rightarrow> u16 \<Rightarrow> 'h \<Rightarrow> 'h" where
  "Endpoint_Write_Word_LE io Word s =
     io_wr io UEDATX (ucast (drop_bit 8 Word)) (io_wr io UEDATX (ucast (Word AND 0xFF)) s)"

definition Endpoint_Write_Word_BE :: "'h mmio \<Rightarrow> u16 \<Rightarrow> 'h \<Rightarrow> 'h" where
  "Endpoint_Write_Word_BE io Word s =
     io_wr io UEDATX (ucast (Word AND 0xFF)) (io_wr io UEDATX (ucast (drop_bit 8 Word)) s)"

definition Endpoint_Discard_Word :: "'h mmio \<Rightarrow> 'h \<Rightarrow> 'h" where
  "Endpoint_Discard_Word io s = snd (io_rd io UEDATX (snd (io_rd io UEDATX s)))"

definition Endpoint_Read_DWord_LE :: "'h mmio \<Rightarrow> 'h \<Rightarrow> u32 \<times> 'h" where
  "Endpoint_Read_DWord_LE io s =
     (let (b0, s) = io_rd io UEDATX s; (b1, s) = io_rd io UEDATX s;
          (b2, s) = io_rd io UEDATX s; (b3, s) = io_rd io UEDATX s in (word32 b0 b1 b2 b3, s))"

definition Endpoint_Read_DWord_BE :: "'h mmio \<Rightarrow> 'h \<Rightarrow> u32 \<times> 'h" where
  "Endpoint_Read_DWord_BE io s =
     (let (b3, s) = io_rd io UEDATX s; (b2, s) = io_rd io UEDATX s;
          (b1, s) = io_rd io UEDATX s; (b0, s) = io_rd io UEDATX s in (word32 b0 b1 b2 b3, s))"

definition Endpoint_Write_DWord_LE :: "'h mmio \<Rightarrow> u32 \<Rightarrow> 'h \<Rightarrow> 'h" where
  "Endpoint_Write_DWord_LE io DWord s =
     (let s = io_wr io UEDATX (ucast (DWord AND 0xFF)) s;
          s = io_wr io UEDATX (ucast (drop_bit 8 DWord)) s;
          s = io_wr io UEDATX (ucast (drop_bit 16 DWord)) s
      in io_wr io UEDATX (ucast (drop_bit 24 DWord)) s)"

definition Endpoint_Write_DWord_BE :: "'h mmio \<Rightarrow> u32 \<Rightarrow> 'h \<Rightarrow> 'h" where
  "Endpoint_Write_DWord_BE io DWord s =
     (let s = io_wr io UEDATX (ucast (drop_bit 24 DWord)) s;
          s = io_wr io UEDATX (ucast (drop_bit 16 DWord)) s;
          s = io_wr io UEDATX (ucast (drop_bit 8 DWord)) s
      in io_wr io UEDATX (ucast (DWord AND 0xFF)) s)"

definition Endpoint_Discard_DWord :: "'h mmio \<Rightarrow> 'h \<Rightarrow> 'h" where
  "Endpoint_Discard_DWord io s = Endpoint_Discard_Word io (Endpoint_Discard_Word io s)"

text \<open>\<open>USB_DeviceState == x\<close>; the device state changes in interrupts.\<close>

definition device_state_is :: "'h mmio \<Rightarrow> u8 \<Rightarrow> 'h \<Rightarrow> bool \<times> 'h" where
  "device_state_is io x s = (let (v, s) = io_rd io V_DeviceState s in (v = x, s))"

definition USB_INT_HasOccurred_SOFI :: "'h mmio \<Rightarrow> 'h \<Rightarrow> bool \<times> 'h" where
  "USB_INT_HasOccurred_SOFI io s = test_reg io UDINT SOFI s"

definition USB_INT_Clear_SOFI :: "'h mmio \<Rightarrow> 'h \<Rightarrow> 'h" where
  "USB_INT_Clear_SOFI io s = clr_reg io UDINT (BV SOFI) s"

section \<open>Configuration\<close>

text \<open>
  \<open>while (CheckBytes < Bytes) { MaskVal++; CheckBytes <<= 1; }\<close> in 16-bit arithmetic.
\<close>

partial_function (option) size_mask_loop :: "u16 \<Rightarrow> u8 \<Rightarrow> u16 \<Rightarrow> u8 option" where
  [code]: "size_mask_loop Bytes MaskVal CheckBytes =
     (if CheckBytes < Bytes then size_mask_loop Bytes (MaskVal + 1) (push_bit 1 CheckBytes)
      else Some MaskVal)"

definition Endpoint_BytesToEPSizeMask :: "u16 \<Rightarrow> u8 option" where
  "Endpoint_BytesToEPSizeMask Bytes = map_option (push_bit EPSIZE0) (size_mask_loop Bytes 0 8)"

definition Endpoint_ConfigureEndpoint_Prv :: "'h mmio \<Rightarrow> u8 \<Rightarrow> u8 \<Rightarrow> u8 \<Rightarrow> 'h \<Rightarrow> bool \<times> 'h" where
  "Endpoint_ConfigureEndpoint_Prv io Number UECFG0XData UECFG1XData s =
     (let s = Endpoint_SelectEndpoint io Number s;
          s = Endpoint_EnableEndpoint io s;
          s = io_wr io UECFG1X 0 s;
          s = io_wr io UECFG0X UECFG0XData s;
          s = io_wr io UECFG1X UECFG1XData s
      in Endpoint_IsConfigured io s)"

definition Endpoint_ConfigureEndpoint ::
    "'h mmio \<Rightarrow> u8 \<Rightarrow> u8 \<Rightarrow> u8 \<Rightarrow> u16 \<Rightarrow> u8 \<Rightarrow> 'h \<Rightarrow> (bool \<times> 'h) option" where
  "Endpoint_ConfigureEndpoint io Number Type Direction Size Banks s =
     do {
       szm \<leftarrow> Endpoint_BytesToEPSizeMask Size;
       Some (Endpoint_ConfigureEndpoint_Prv io Number (push_bit EPTYPE0 Type OR Direction)
               (BV ALLOC OR Banks OR szm) s)
     }"

definition Endpoint_ClearEndpoints :: "'h mmio \<Rightarrow> 'h \<Rightarrow> 'h" where
  "Endpoint_ClearEndpoints io s =
     fold (\<lambda>EPNum s.
         let s = Endpoint_SelectEndpoint io (of_nat EPNum) s;
             s = io_wr io UEIENX 0 s;
             s = io_wr io UEINTX 0 s;
             s = clr_reg io UECFG1X (BV ALLOC) s
         in Endpoint_DisableEndpoint io s)
       [0..<ENDPOINT_TOTAL_ENDPOINTS] (io_wr io UEINT 0 s)"

section \<open>Waiting\<close>

text \<open>The two error enumerations of the stream functions share their first four values.\<close>

datatype ep_error = EP_NoError | EP_EndpointStalled | EP_DeviceDisconnected | EP_Timeout | EP_CallbackAborted

text \<open>One round of the endless loop of \<open>Endpoint_WaitUntilReady\<close>.\<close>

definition wait_round :: "'h mmio \<Rightarrow> nat \<Rightarrow> 'h \<Rightarrow> (ep_error, nat) flow \<times> 'h" where
  "wait_round io TimeoutMSRem s =
     (let (isIn, s) = Endpoint_IsDirIN io s;
          (rdy, s) = (if isIn then Endpoint_IsINReady io s else Endpoint_IsOUTReceived io s)
      in if rdy then (Return EP_NoError, s)
      else let (un, s) = device_state_is io DEVICE_STATE_Unattached s
      in if un then (Return EP_DeviceDisconnected, s)
      else let (st, s) = Endpoint_IsStalled io s
      in if st then (Return EP_EndpointStalled, s)
      else let (sof, s) = USB_INT_HasOccurred_SOFI io s
      in if sof then
           let s = USB_INT_Clear_SOFI io s
           in if TimeoutMSRem = 0 then (Return EP_Timeout, s) else (Next (TimeoutMSRem - 1), s)
         else (Next TimeoutMSRem, s))"

partial_function (option) wait_loop :: "'h mmio \<Rightarrow> nat \<Rightarrow> 'h \<Rightarrow> (ep_error \<times> 'h) option" where
  [code]: "wait_loop io TimeoutMSRem s =
     (case wait_round io TimeoutMSRem s of
        (Return e, s) \<Rightarrow> Some (e, s)
      | (Next t, s) \<Rightarrow> wait_loop io t s)"

definition Endpoint_WaitUntilReady :: "'h mmio \<Rightarrow> 'h \<Rightarrow> (ep_error \<times> 'h) option" where
  "Endpoint_WaitUntilReady io s = wait_loop io USB_STREAM_TIMEOUT_MS s"

text \<open>\<open>while (!flag) if (USB_DeviceState == DEVICE_STATE_Unattached) return;\<close>, true if the flag came.\<close>

partial_function (option) flag_wait :: "'h mmio \<Rightarrow> nat \<Rightarrow> 'h \<Rightarrow> (bool \<times> 'h) option" where
  [code]: "flag_wait io flag s =
     (let (b, s) = test_reg io UEINTX flag s
      in if b then Some (True, s)
      else let (un, s) = device_state_is io DEVICE_STATE_Unattached s
      in if un then Some (False, s) else flag_wait io flag s)"

record USB_Request_Header_t =
  bmRequestType :: u8
  bRequest :: u8
  wValue :: u16
  wIndex :: u16
  wLength :: u16

abbreviation (input) REQDIR_DEVICETOHOST :: u8 where "REQDIR_DEVICETOHOST \<equiv> 0x80"

definition Endpoint_ClearStatusStage :: "'h mmio \<Rightarrow> USB_Request_Header_t \<Rightarrow> 'h \<Rightarrow> 'h option" where
  "Endpoint_ClearStatusStage io USB_ControlRequest s =
     (if bmRequestType USB_ControlRequest AND REQDIR_DEVICETOHOST \<noteq> 0 then
        do {
          (ok, s) \<leftarrow> flag_wait io RXOUTI s;
          Some (if ok then Endpoint_ClearOUT io s else s)
        }
      else
        do {
          (ok, s) \<leftarrow> flag_wait io TXINI s;
          Some (if ok then Endpoint_ClearIN io s else s)
        })"

section \<open>Bulk streams (Template\_Endpoint\_RW.c)\<close>

text \<open>
  \<open>Callback\<close> is \<open>None\<close> for a null pointer, otherwise the callback, whose result tells whether it
  returned \<open>STREAMCALLBACK_Abort\<close>.
\<close>

type_synonym 'h callback = "('h \<Rightarrow> bool \<times> 'h) option"

definition stream_next_bank ::
    "'h mmio \<Rightarrow> 'h callback \<Rightarrow> ('h \<Rightarrow> 'h) \<Rightarrow> 'h \<Rightarrow> (ep_error \<times> 'h) option" where
  "stream_next_bank io Callback clear s =
     (let s = clear s;
          (abort, s) = (case Callback of None \<Rightarrow> (False, s) | Some cb \<Rightarrow> cb s)
      in if abort then Some (EP_CallbackAborted, s) else Endpoint_WaitUntilReady io s)"

partial_function (option) write_stream_loop ::
    "'h mmio \<Rightarrow> 'h callback \<Rightarrow> u8 list \<Rightarrow> 'h \<Rightarrow> (ep_error \<times> 'h) option" where
  [code]: "write_stream_loop io Callback bytes s =
     (case bytes of [] \<Rightarrow> Some (EP_NoError, s)
      | b # rest \<Rightarrow>
          (let (allowed, s) = Endpoint_IsReadWriteAllowed io s
           in if \<not> allowed then
                do {
                  (e, s) \<leftarrow> stream_next_bank io Callback (Endpoint_ClearIN io) s;
                  if e \<noteq> EP_NoError then Some (e, s) else write_stream_loop io Callback bytes s
                }
              else write_stream_loop io Callback rest (Endpoint_Write_Byte io b s)))"

definition Endpoint_Write_Stream :: "'h mmio \<Rightarrow> 'h callback \<Rightarrow> u8 list \<Rightarrow> 'h \<Rightarrow> (ep_error \<times> 'h) option" where
  "Endpoint_Write_Stream io Callback bytes s =
     do {
       (e, s) \<leftarrow> Endpoint_WaitUntilReady io s;
       if e \<noteq> EP_NoError then Some (e, s) else write_stream_loop io Callback bytes s
     }"

text \<open>The little-endian form walks the buffer upwards, the big-endian form downwards.\<close>

definition Endpoint_Write_Stream_LE :: "'h mmio \<Rightarrow> 'h callback \<Rightarrow> u8 list \<Rightarrow> 'h \<Rightarrow> (ep_error \<times> 'h) option" where
  "Endpoint_Write_Stream_LE io Callback Buffer s = Endpoint_Write_Stream io Callback Buffer s"

definition Endpoint_Write_Stream_BE :: "'h mmio \<Rightarrow> 'h callback \<Rightarrow> u8 list \<Rightarrow> 'h \<Rightarrow> (ep_error \<times> 'h) option" where
  "Endpoint_Write_Stream_BE io Callback Buffer s = Endpoint_Write_Stream io Callback (rev Buffer) s"

text \<open>Reading stores the bytes received so far, also when it ends with an error.\<close>

partial_function (option) read_stream_loop ::
    "'h mmio \<Rightarrow> 'h callback \<Rightarrow> nat \<Rightarrow> u8 list \<Rightarrow> 'h \<Rightarrow> (ep_error \<times> u8 list \<times> 'h) option" where
  [code]: "read_stream_loop io Callback Length got s =
     (if Length = 0 then Some (EP_NoError, got, s)
      else
        (let (allowed, s) = Endpoint_IsReadWriteAllowed io s
         in if \<not> allowed then
              do {
                (e, s) \<leftarrow> stream_next_bank io Callback (Endpoint_ClearOUT io) s;
                if e \<noteq> EP_NoError then Some (e, got, s) else read_stream_loop io Callback Length got s
              }
            else
              (let (b, s) = Endpoint_Read_Byte io s
               in read_stream_loop io Callback (Length - 1) (got @ [b]) s)))"

definition Endpoint_Read_Stream_LE ::
    "'h mmio \<Rightarrow> 'h callback \<Rightarrow> nat \<Rightarrow> 'h \<Rightarrow> (ep_error \<times> u8 list \<times> 'h) option" where
  "Endpoint_Read_Stream_LE io Callback Length s =
     do {
       (e, s) \<leftarrow> Endpoint_WaitUntilReady io s;
       if e \<noteq> EP_NoError then Some (e, [], s) else read_stream_loop io Callback Length [] s
     }"

text \<open>The big-endian form fills the buffer from its end.\<close>

definition Endpoint_Read_Stream_BE ::
    "'h mmio \<Rightarrow> 'h callback \<Rightarrow> nat \<Rightarrow> 'h \<Rightarrow> (ep_error \<times> u8 list \<times> 'h) option" where
  "Endpoint_Read_Stream_BE io Callback Length s =
     map_option (\<lambda>(e, got, s). (e, rev got, s)) (Endpoint_Read_Stream_LE io Callback Length s)"

definition Endpoint_Discard_Stream :: "'h mmio \<Rightarrow> 'h callback \<Rightarrow> nat \<Rightarrow> 'h \<Rightarrow> (ep_error \<times> 'h) option" where
  "Endpoint_Discard_Stream io Callback Length s =
     map_option (\<lambda>(e, got, s). (e, s)) (Endpoint_Read_Stream_LE io Callback Length s)"

section \<open>Control streams (Template\_Endpoint\_Control\_W.c and \_R.c)\<close>

datatype ctl_error = CTL_NoError | CTL_HostAborted | CTL_DeviceDisconnected

text \<open>\<open>while (Length && (BytesInEndpoint < USB_ControlEndpointSize))\<close>\<close>

fun fill_packet :: "'h mmio \<Rightarrow> u8 list \<Rightarrow> nat \<Rightarrow> 'h \<Rightarrow> u8 list \<times> nat \<times> 'h" where
  "fill_packet io [] n s = ([], n, s)"
| "fill_packet io (b # bytes) n s =
     (if n < USB_ControlEndpointSize then fill_packet io bytes (n + 1) (Endpoint_Write_Byte io b s)
      else (b # bytes, n, s))"

definition write_control_round ::
    "'h mmio \<Rightarrow> u8 list \<Rightarrow> bool \<Rightarrow> 'h \<Rightarrow> (ctl_error option, u8 list \<times> bool) flow \<times> 'h" where
  "write_control_round io bytes LastPacketFull s =
     (let (setup, s) = Endpoint_IsSETUPReceived io s
      in if setup then (Return (Some CTL_HostAborted), s)
      else let (out, s) = Endpoint_IsOUTReceived io s
      in if out then (Return None, s)
      else let (un, s) = device_state_is io DEVICE_STATE_Unattached s
      in if un then (Return (Some CTL_DeviceDisconnected), s)
      else let (rdy, s) = Endpoint_IsINReady io s
      in if rdy then
           let (n, s) = Endpoint_BytesInEndpoint io s;
               (bytes, n, s) = fill_packet io bytes (unat n) s;
               LastPacketFull = (n = USB_ControlEndpointSize)
           in (Next (bytes, LastPacketFull), Endpoint_ClearIN io s)
         else (Next (bytes, LastPacketFull), s))"

partial_function (option) write_control_loop ::
    "'h mmio \<Rightarrow> u8 list \<Rightarrow> bool \<Rightarrow> 'h \<Rightarrow> (ctl_error option \<times> 'h) option" where
  [code]: "write_control_loop io bytes LastPacketFull s =
     (if bytes = [] \<and> \<not> LastPacketFull then Some (None, s)
      else case write_control_round io bytes LastPacketFull s of
             (Return r, s) \<Rightarrow> Some (r, s)
           | (Next l, s) \<Rightarrow> write_control_loop io (fst l) (snd l) s)"

definition Endpoint_Write_Control_Stream ::
    "'h mmio \<Rightarrow> USB_Request_Header_t \<Rightarrow> u8 list \<Rightarrow> 'h \<Rightarrow> (ctl_error \<times> 'h) option" where
  "Endpoint_Write_Control_Stream io USB_ControlRequest bytes s =
     do {
       let (bytes, s) =
         (if length bytes > unat (wLength USB_ControlRequest)
          then (take (unat (wLength USB_ControlRequest)) bytes, s)
          else if bytes = [] then (bytes, Endpoint_ClearIN io s)
          else (bytes, s));
       (r, s) \<leftarrow> write_control_loop io bytes False s;
       case r of Some e \<Rightarrow> Some (e, s)
       | None \<Rightarrow>
           do {
             (ok, s) \<leftarrow> flag_wait io RXOUTI s;
             Some (if ok then CTL_NoError else CTL_DeviceDisconnected, s)
           }
     }"

definition Endpoint_Write_Control_Stream_LE ::
    "'h mmio \<Rightarrow> USB_Request_Header_t \<Rightarrow> u8 list \<Rightarrow> 'h \<Rightarrow> (ctl_error \<times> 'h) option" where
  "Endpoint_Write_Control_Stream_LE io req Buffer s = Endpoint_Write_Control_Stream io req Buffer s"

text \<open>
  The big-endian form starts at the last byte of the unclipped length, so a clipped transfer
  sends the last \<open>wLength\<close> bytes, last first.
\<close>

definition Endpoint_Write_Control_Stream_BE ::
    "'h mmio \<Rightarrow> USB_Request_Header_t \<Rightarrow> u8 list \<Rightarrow> 'h \<Rightarrow> (ctl_error \<times> 'h) option" where
  "Endpoint_Write_Control_Stream_BE io req Buffer s = Endpoint_Write_Control_Stream io req (rev Buffer) s"

text \<open>\<open>while (Length && Endpoint_BytesInEndpoint())\<close>\<close>

fun drain_packet :: "'h mmio \<Rightarrow> nat \<Rightarrow> u8 list \<Rightarrow> 'h \<Rightarrow> nat \<times> u8 list \<times> 'h" where
  "drain_packet io 0 got s = (0, got, s)"
| "drain_packet io (Suc n) got s =
     (let (c, s) = Endpoint_BytesInEndpoint io s
      in if c = 0 then (Suc n, got, s)
         else let (b, s) = Endpoint_Read_Byte io s in drain_packet io n (got @ [b]) s)"

definition read_control_round ::
    "'h mmio \<Rightarrow> nat \<Rightarrow> u8 list \<Rightarrow> 'h \<Rightarrow> (ctl_error \<times> u8 list, nat \<times> u8 list) flow \<times> 'h" where
  "read_control_round io Length got s =
     (let (setup, s) = Endpoint_IsSETUPReceived io s
      in if setup then (Return (CTL_HostAborted, got), s)
      else let (un, s) = device_state_is io DEVICE_STATE_Unattached s
      in if un then (Return (CTL_DeviceDisconnected, got), s)
      else let (out, s) = Endpoint_IsOUTReceived io s
      in if out then
           let (Length, got, s) = drain_packet io Length got s
           in (Next (Length, got), Endpoint_ClearOUT io s)
         else (Next (Length, got), s))"

partial_function (option) read_control_loop ::
    "'h mmio \<Rightarrow> nat \<Rightarrow> u8 list \<Rightarrow> 'h \<Rightarrow> ((ctl_error \<times> u8 list) \<times> 'h) option" where
  [code]: "read_control_loop io Length got s =
     (if Length = 0 then
        do {
          (ok, s) \<leftarrow> flag_wait io TXINI s;
          Some ((if ok then CTL_NoError else CTL_DeviceDisconnected, got), s)
        }
      else case read_control_round io Length got s of
             (Return r, s) \<Rightarrow> Some (r, s)
           | (Next l, s) \<Rightarrow> read_control_loop io (fst l) (snd l) s)"

definition Endpoint_Read_Control_Stream_LE ::
    "'h mmio \<Rightarrow> nat \<Rightarrow> 'h \<Rightarrow> ((ctl_error \<times> u8 list) \<times> 'h) option" where
  "Endpoint_Read_Control_Stream_LE io Length s =
     read_control_loop io Length [] (if Length = 0 then Endpoint_ClearOUT io s else s)"

end
