(* ===== verification/DataflashManager.thy ===== *)
theory DataflashManager
  imports Dataflash Endpoint
begin

text \<open>
  \<open>poc/MassStorage/Lib/DataflashManager.c\<close>: blocks of 512 bytes against the two dataflash chips
  with pages of 1024 bytes, from and to the USB endpoint or a RAM buffer.  The locals of the
  write functions that live across the loops are the record \<open>wloc\<close>, those of the read functions
  \<open>rloc\<close>; each C loop is \<open>repeat_flow\<close> over its body.
\<close>

abbreviation (input) VIRTUAL_MEMORY_BLOCK_SIZE :: nat where "VIRTUAL_MEMORY_BLOCK_SIZE \<equiv> 512"

definition VIRTUAL_MEMORY_BYTES :: u32 where
  "VIRTUAL_MEMORY_BYTES = of_nat DATAFLASH_PAGES * of_nat DATAFLASH_PAGE_SIZE * of_nat DATAFLASH_TOTALCHIPS"

definition VIRTUAL_MEMORY_BLOCKS :: u32 where
  "VIRTUAL_MEMORY_BLOCKS = VIRTUAL_MEMORY_BYTES div of_nat VIRTUAL_MEMORY_BLOCK_SIZE"

text \<open>The initialisers of \<open>CurrDFPage\<close> and \<open>CurrDFPageByte\<close>, 32-bit arithmetic cut to 16 bits.\<close>

definition start_page :: "u32 \<Rightarrow> u16" where
  "start_page BlockAddress = ucast (BlockAddress * of_nat VIRTUAL_MEMORY_BLOCK_SIZE div of_nat DATAFLASH_PAGE_SIZE)"

definition start_byte :: "u32 \<Rightarrow> u16" where
  "start_byte BlockAddress = ucast (BlockAddress * of_nat VIRTUAL_MEMORY_BLOCK_SIZE mod of_nat DATAFLASH_PAGE_SIZE)"

fun send_bytes :: "'h mmio \<Rightarrow> u8 list \<Rightarrow> 'h \<Rightarrow> 'h option" where
  "send_bytes io [] s = Some s"
| "send_bytes io (b # bs) s = do { s \<leftarrow> Dataflash_SendByte io b s; send_bytes io bs s }"

section \<open>Writing\<close>

record wloc =
  CurrDFPage :: u16
  CurrDFPageByteDiv16 :: u8
  UsingSecondBuffer :: bool

text \<open>Write the dataflash buffer contents back to the dataflash page.\<close>

definition page_commit :: "'h mmio \<Rightarrow> wloc \<Rightarrow> 'h \<Rightarrow> 'h option" where
  "page_commit io l s =
     do {
       s \<leftarrow> Dataflash_WaitWhileBusy io s;
       s \<leftarrow> Dataflash_SendByte io (if UsingSecondBuffer l then DF_CMD_BUFF2TOMAINMEMWITHERASE
                                    else DF_CMD_BUFF1TOMAINMEMWITHERASE) s;
       Dataflash_SendAddressBytes io (CurrDFPage l) 0 s
     }"

text \<open>
  The start common to both write functions: select the chip, load the page into buffer 1, open
  the buffer write.
\<close>

definition write_start :: "'h mmio \<Rightarrow> u32 \<Rightarrow> 'h \<Rightarrow> (wloc \<times> 'h) option" where
  "write_start io BlockAddress s =
     do {
       let page = start_page BlockAddress;
       let byte = start_byte BlockAddress;
       let s = Dataflash_SelectChipFromPage io page s;
       s \<leftarrow> Dataflash_SendByte io DF_CMD_MAINMEMTOBUFF1 s;
       s \<leftarrow> Dataflash_SendAddressBytes io page 0 s;
       s \<leftarrow> Dataflash_WaitWhileBusy io s;
       s \<leftarrow> Dataflash_SendByte io DF_CMD_BUFF1WRITE s;
       s \<leftarrow> Dataflash_SendAddressBytes io 0 byte s;
       Some (\<lparr>CurrDFPage = page, CurrDFPageByteDiv16 = ucast (drop_bit 4 byte), UsingSecondBuffer = False\<rparr>, s)
     }"

text \<open>
  The end of a page: commit it, switch to the next page and possibly to the other buffer, and, if
  less than a page remains, load the existing page first.  \<open>TotalBlocks * 32\<close> is 16-bit arithmetic.
\<close>

definition page_advance :: "'h mmio \<Rightarrow> u16 \<Rightarrow> wloc \<Rightarrow> 'h \<Rightarrow> (wloc \<times> 'h) option" where
  "page_advance io TotalBlocks l s =
     do {
       s \<leftarrow> page_commit io l s;
       let l = l\<lparr>CurrDFPageByteDiv16 := 0, CurrDFPage := CurrDFPage l + 1\<rparr>;
       let (chip, s) = Dataflash_GetSelectedChip io s;
       let l = (if chip = DATAFLASH_CHIP2 then l\<lparr>UsingSecondBuffer := \<not> UsingSecondBuffer l\<rparr> else l);
       let s = Dataflash_SelectChipFromPage io (CurrDFPage l) s;
       s \<leftarrow> (if TotalBlocks * 32 < 64 then
               do {
                 s \<leftarrow> Dataflash_WaitWhileBusy io s;
                 s \<leftarrow> Dataflash_SendByte io (if UsingSecondBuffer l then DF_CMD_MAINMEMTOBUFF2
                                              else DF_CMD_MAINMEMTOBUFF1) s;
                 s \<leftarrow> Dataflash_SendAddressBytes io (CurrDFPage l) 0 s;
                 Dataflash_WaitWhileBusy io s
               }
             else Some s);
       Some (l, s)
     }"

definition write_finish :: "'h mmio \<Rightarrow> wloc \<Rightarrow> 'h \<Rightarrow> 'h option" where
  "write_finish io l s = do { s \<leftarrow> page_commit io l s; Dataflash_WaitWhileBusy io s }"

text \<open>The sixteen \<open>Dataflash_SendByte(Endpoint_Read_Byte())\<close>.\<close>

fun copy_out_bytes :: "'h mmio \<Rightarrow> nat \<Rightarrow> 'h \<Rightarrow> 'h option" where
  "copy_out_bytes io 0 s = Some s"
| "copy_out_bytes io (Suc n) s =
     do {
       let (b, s) = Endpoint_Read_Byte io s;
       s \<leftarrow> Dataflash_SendByte io b s;
       copy_out_bytes io n s
     }"

text \<open>
  The check before each chunk: an exhausted bank is released and the next packet awaited.  True
  if the function goes on.
\<close>

definition bank_check :: "'h mmio \<Rightarrow> ('h \<Rightarrow> 'h) \<Rightarrow> 'h \<Rightarrow> (bool \<times> 'h) option" where
  "bank_check io clear s =
     (let (allowed, s) = Endpoint_IsReadWriteAllowed io s
      in if allowed then Some (True, s)
         else do {
           (e, s) \<leftarrow> Endpoint_WaitUntilReady io (clear s);
           Some (e = EP_NoError, s)
         })"

definition read_reset_flag :: "'h mmio \<Rightarrow> 'h \<Rightarrow> bool \<times> 'h" where
  "read_reset_flag io s = (let (v, s) = io_rd io V_IsMassStoreReset s in (v \<noteq> 0, s))"

definition write_chunk :: "'h mmio \<Rightarrow> u16 \<Rightarrow> wloc \<Rightarrow> 'h \<Rightarrow> ((unit, wloc) flow \<times> 'h) option" where
  "write_chunk io TotalBlocks l s =
     do {
       (ok, s) \<leftarrow> bank_check io (Endpoint_ClearOUT io) s;
       if \<not> ok then Some (Return (), s)
       else do {
         (l, s) \<leftarrow> (if CurrDFPageByteDiv16 l = 64 then
                     do {
                       (l, s) \<leftarrow> page_advance io TotalBlocks l s;
                       s \<leftarrow> Dataflash_SendByte io (if UsingSecondBuffer l then DF_CMD_BUFF2WRITE
                                                    else DF_CMD_BUFF1WRITE) s;
                       s \<leftarrow> Dataflash_SendAddressBytes io 0 0 s;
                       Some (l, s)
                     }
                   else Some (l, s));
         s \<leftarrow> copy_out_bytes io 16 s;
         let l = l\<lparr>CurrDFPageByteDiv16 := CurrDFPageByteDiv16 l + 1\<rparr>;
         let (reset, s) = read_reset_flag io s;
         Some (if reset then Return () else Next l, s)
       }
     }"

fun write_blocks_loop :: "'h mmio \<Rightarrow> nat \<Rightarrow> wloc \<Rightarrow> 'h \<Rightarrow> ((unit, wloc) flow \<times> 'h) option" where
  "write_blocks_loop io 0 l s = Some (Next l, s)"
| "write_blocks_loop io (Suc n) l s =
     do {
       (f, s) \<leftarrow> repeat_flow 32 (write_chunk io (of_nat (Suc n))) l s;
       case f of Return r \<Rightarrow> Some (Return r, s) | Next l \<Rightarrow> write_blocks_loop io n l s
     }"

definition DataflashManager_WriteBlocks :: "'h mmio \<Rightarrow> u32 \<Rightarrow> u16 \<Rightarrow> 'h \<Rightarrow> 'h option" where
  "DataflashManager_WriteBlocks io BlockAddress TotalBlocks s =
     do {
       (l, s) \<leftarrow> write_start io BlockAddress s;
       (e, s) \<leftarrow> Endpoint_WaitUntilReady io s;
       if e \<noteq> EP_NoError then Some s
       else do {
         (f, s) \<leftarrow> write_blocks_loop io (unat TotalBlocks) l s;
         case f of
           Return _ \<Rightarrow> Some s
         | Next l \<Rightarrow>
             do {
               s \<leftarrow> write_finish io l s;
               let (allowed, s) = Endpoint_IsReadWriteAllowed io s;
               let s = (if \<not> allowed then Endpoint_ClearOUT io s else s);
               Some (Dataflash_DeselectChip io s)
             }
       }
     }"

text \<open>
  The RAM variant: no endpoint, and after a page change the buffer write always goes to buffer 1.
\<close>

definition write_chunk_ram :: "'h mmio \<Rightarrow> u16 \<Rightarrow> wloc \<times> u8 list \<Rightarrow> 'h \<Rightarrow> ((unit, wloc \<times> u8 list) flow \<times> 'h) option" where
  "write_chunk_ram io TotalBlocks lb s =
     do {
       let (l, BufferPtr) = lb;
       (l, s) \<leftarrow> (if CurrDFPageByteDiv16 l = 64 then
                   do {
                     (l, s) \<leftarrow> page_advance io TotalBlocks l s;
                     let s = Dataflash_ToggleSelectedChipCS io s;
                     s \<leftarrow> Dataflash_SendByte io DF_CMD_BUFF1WRITE s;
                     s \<leftarrow> Dataflash_SendAddressBytes io 0 0 s;
                     Some (l, s)
                   }
                 else Some (l, s));
       s \<leftarrow> send_bytes io (take 16 BufferPtr) s;
       Some (Next (l\<lparr>CurrDFPageByteDiv16 := CurrDFPageByteDiv16 l + 1\<rparr>, drop 16 BufferPtr), s)
     }"

fun write_ram_loop :: "'h mmio \<Rightarrow> nat \<Rightarrow> wloc \<times> u8 list \<Rightarrow> 'h \<Rightarrow> ((unit, wloc \<times> u8 list) flow \<times> 'h) option" where
  "write_ram_loop io 0 l s = Some (Next l, s)"
| "write_ram_loop io (Suc n) l s =
     do {
       (f, s) \<leftarrow> repeat_flow 32 (write_chunk_ram io (of_nat (Suc n))) l s;
       case f of Return r \<Rightarrow> Some (Return r, s) | Next l \<Rightarrow> write_ram_loop io n l s
     }"

definition DataflashManager_WriteBlocks_RAM :: "'h mmio \<Rightarrow> u32 \<Rightarrow> u16 \<Rightarrow> u8 list \<Rightarrow> 'h \<Rightarrow> 'h option" where
  "DataflashManager_WriteBlocks_RAM io BlockAddress TotalBlocks BufferPtr s =
     do {
       (l, s) \<leftarrow> write_start io BlockAddress s;
       (f, s) \<leftarrow> write_ram_loop io (unat TotalBlocks) (l, BufferPtr) s;
       case f of
         Return _ \<Rightarrow> Some s
       | Next (l, _) \<Rightarrow>
           do {
             s \<leftarrow> write_finish io l s;
             Some (Dataflash_DeselectChip io s)
           }
     }"

section \<open>Reading\<close>

record rloc =
  ReadPage :: u16
  ReadByteDiv16 :: u8

definition page_read_start :: "'h mmio \<Rightarrow> u16 \<Rightarrow> u16 \<Rightarrow> 'h \<Rightarrow> 'h option" where
  "page_read_start io page byte s =
     do {
       let s = Dataflash_SelectChipFromPage io page s;
       s \<leftarrow> Dataflash_SendByte io DF_CMD_MAINMEMPAGEREAD s;
       s \<leftarrow> Dataflash_SendAddressBytes io page byte s;
       send_bytes io [0x00, 0x00, 0x00, 0x00] s
     }"

definition read_start :: "'h mmio \<Rightarrow> u32 \<Rightarrow> 'h \<Rightarrow> (rloc \<times> 'h) option" where
  "read_start io BlockAddress s =
     do {
       s \<leftarrow> page_read_start io (start_page BlockAddress) (start_byte BlockAddress) s;
       Some (\<lparr>ReadPage = start_page BlockAddress,
              ReadByteDiv16 = ucast (drop_bit 4 (start_byte BlockAddress))\<rparr>, s)
     }"

definition page_turn :: "'h mmio \<Rightarrow> rloc \<Rightarrow> 'h \<Rightarrow> (rloc \<times> 'h) option" where
  "page_turn io l s =
     (if ReadByteDiv16 l = 64 then
        do {
          let l = l\<lparr>ReadByteDiv16 := 0, ReadPage := ReadPage l + 1\<rparr>;
          s \<leftarrow> page_read_start io (ReadPage l) 0 s;
          Some (l, s)
        }
      else Some (l, s))"

text \<open>The sixteen \<open>Endpoint_Write_Byte(Dataflash_ReceiveByte())\<close>.\<close>

fun copy_in_bytes :: "'h mmio \<Rightarrow> nat \<Rightarrow> 'h \<Rightarrow> 'h option" where
  "copy_in_bytes io 0 s = Some s"
| "copy_in_bytes io (Suc n) s =
     do {
       (b, s) \<leftarrow> Dataflash_ReceiveByte io s;
       copy_in_bytes io n (Endpoint_Write_Byte io b s)
     }"

definition read_chunk :: "'h mmio \<Rightarrow> rloc \<Rightarrow> 'h \<Rightarrow> ((unit, rloc) flow \<times> 'h) option" where
  "read_chunk io l s =
     do {
       (ok, s) \<leftarrow> bank_check io (Endpoint_ClearIN io) s;
       if \<not> ok then Some (Return (), s)
       else do {
         (l, s) \<leftarrow> page_turn io l s;
         s \<leftarrow> copy_in_bytes io 16 s;
         let l = l\<lparr>ReadByteDiv16 := ReadByteDiv16 l + 1\<rparr>;
         let (reset, s) = read_reset_flag io s;
         Some (if reset then Return () else Next l, s)
       }
     }"

fun read_blocks_loop :: "'h mmio \<Rightarrow> nat \<Rightarrow> rloc \<Rightarrow> 'h \<Rightarrow> ((unit, rloc) flow \<times> 'h) option" where
  "read_blocks_loop io 0 l s = Some (Next l, s)"
| "read_blocks_loop io (Suc n) l s =
     do {
       (f, s) \<leftarrow> repeat_flow 32 (read_chunk io) l s;
       case f of Return r \<Rightarrow> Some (Return r, s) | Next l \<Rightarrow> read_blocks_loop io n l s
     }"

definition DataflashManager_ReadBlocks :: "'h mmio \<Rightarrow> u32 \<Rightarrow> u16 \<Rightarrow> 'h \<Rightarrow> 'h option" where
  "DataflashManager_ReadBlocks io BlockAddress TotalBlocks s =
     do {
       (l, s) \<leftarrow> read_start io BlockAddress s;
       (e, s) \<leftarrow> Endpoint_WaitUntilReady io s;
       if e \<noteq> EP_NoError then Some s
       else do {
         (f, s) \<leftarrow> read_blocks_loop io (unat TotalBlocks) l s;
         case f of
           Return _ \<Rightarrow> Some s
         | Next l \<Rightarrow>
             do {
               let (allowed, s) = Endpoint_IsReadWriteAllowed io s;
               let s = (if \<not> allowed then Endpoint_ClearIN io s else s);
               Some (Dataflash_DeselectChip io s)
             }
       }
     }"

fun recv_bytes :: "'h mmio \<Rightarrow> nat \<Rightarrow> 'h \<Rightarrow> (u8 list \<times> 'h) option" where
  "recv_bytes io 0 s = Some ([], s)"
| "recv_bytes io (Suc n) s =
     do {
       (b, s) \<leftarrow> Dataflash_ReceiveByte io s;
       (bs, s) \<leftarrow> recv_bytes io n s;
       Some (b # bs, s)
     }"

text \<open>The second component of the locals is what has been stored behind \<open>BufferPtr\<close>.\<close>

definition read_chunk_ram :: "'h mmio \<Rightarrow> rloc \<times> u8 list \<Rightarrow> 'h \<Rightarrow> ((unit, rloc \<times> u8 list) flow \<times> 'h) option" where
  "read_chunk_ram io lb s =
     do {
       (l, s) \<leftarrow> page_turn io (fst lb) s;
       (bs, s) \<leftarrow> recv_bytes io 16 s;
       Some (Next (l\<lparr>ReadByteDiv16 := ReadByteDiv16 l + 1\<rparr>, snd lb @ bs), s)
     }"

fun read_ram_loop :: "'h mmio \<Rightarrow> nat \<Rightarrow> rloc \<times> u8 list \<Rightarrow> 'h \<Rightarrow> ((unit, rloc \<times> u8 list) flow \<times> 'h) option" where
  "read_ram_loop io 0 l s = Some (Next l, s)"
| "read_ram_loop io (Suc n) l s =
     do {
       (f, s) \<leftarrow> repeat_flow 32 (read_chunk_ram io) l s;
       case f of Return r \<Rightarrow> Some (Return r, s) | Next l \<Rightarrow> read_ram_loop io n l s
     }"

definition DataflashManager_ReadBlocks_RAM :: "'h mmio \<Rightarrow> u32 \<Rightarrow> u16 \<Rightarrow> 'h \<Rightarrow> (u8 list \<times> 'h) option" where
  "DataflashManager_ReadBlocks_RAM io BlockAddress TotalBlocks s =
     do {
       (l, s) \<leftarrow> read_start io BlockAddress s;
       (f, s) \<leftarrow> read_ram_loop io (unat TotalBlocks) (l, []) s;
       case f of
         Return _ \<Rightarrow> Some ([], s)
       | Next (_, bs) \<Rightarrow> Some (bs, Dataflash_DeselectChip io s)
     }"

section \<open>Protection and self test\<close>

definition reset_chip_protection :: "'h mmio \<Rightarrow> u8 \<Rightarrow> 'h \<Rightarrow> 'h option" where
  "reset_chip_protection io chip s =
     do {
       let s = Dataflash_SelectChip io chip s;
       s \<leftarrow> Dataflash_SendByte io DF_CMD_GETSTATUS s;
       (b, s) \<leftarrow> Dataflash_ReceiveByte io s;
       if b AND DF_STATUS_SECTORPROTECTION_ON \<noteq> 0
       then send_bytes io DF_CMD_SECTORPROTECTIONOFF (Dataflash_ToggleSelectedChipCS io s)
       else Some s
     }"

definition DataflashManager_ResetDataflashProtections :: "'h mmio \<Rightarrow> 'h \<Rightarrow> 'h option" where
  "DataflashManager_ResetDataflashProtections io s =
     do {
       s \<leftarrow> reset_chip_protection io DATAFLASH_CHIP1 s;
       s \<leftarrow> reset_chip_protection io DATAFLASH_CHIP2 s;
       Some (Dataflash_DeselectChip io s)
     }"

definition check_chip :: "'h mmio \<Rightarrow> u8 \<Rightarrow> 'h \<Rightarrow> (bool \<times> 'h) option" where
  "check_chip io chip s =
     do {
       let s = Dataflash_SelectChip io chip s;
       s \<leftarrow> Dataflash_SendByte io DF_CMD_READMANUFACTURERDEVICEINFO s;
       (ReturnByte, s) \<leftarrow> Dataflash_ReceiveByte io s;
       Some (ReturnByte = DF_MANUFACTURER_ATMEL, Dataflash_DeselectChip io s)
     }"

definition DataflashManager_CheckDataflashOperation :: "'h mmio \<Rightarrow> 'h \<Rightarrow> (bool \<times> 'h) option" where
  "DataflashManager_CheckDataflashOperation io s =
     do {
       (ok, s) \<leftarrow> check_chip io DATAFLASH_CHIP1 s;
       if \<not> ok then Some (False, s) else check_chip io DATAFLASH_CHIP2 s
     }"

end
