(* ===== verification/At45.thy ===== *)
theory At45
  imports DataflashManager
begin

text \<open>
  The environment of the dataflash driver: two AT45DB642D chips on the SPI bus as their data
  sheet describes them (the commands of \<open>Board/AT45DB642D.h\<close> the firmware uses), and the locale
  \<open>flash_bus\<close>, the contract between the AVR's SPI and port registers and these chips.  Time is
  counted in SPI bytes: an internal operation keeps its chip busy for \<open>t_load\<close> or \<open>t_prog\<close> bytes,
  whichever chip they go to.
\<close>

section \<open>One chip\<close>

record at45 =
  page_mem :: "nat \<Rightarrow> nat \<Rightarrow> u8"
  sram_buf :: "bool \<Rightarrow> nat \<Rightarrow> u8"
  busy :: nat
  busy_buf :: bool
  prot :: bool
  rx :: "u8 list"

text \<open>
  \<open>rx\<close> holds the bytes received since the chip was selected; \<open>sram_buf False\<close> is buffer 1 and
  \<open>sram_buf True\<close> buffer 2.  Addresses are 13 bits of page and 11 bits of byte; a page has 1056 bytes.
\<close>

definition addr_page :: "u8 \<Rightarrow> u8 \<Rightarrow> nat" where
  "addr_page b1 b2 = unat b1 * 32 + unat b2 div 8"

definition addr_byte :: "u8 \<Rightarrow> u8 \<Rightarrow> nat" where
  "addr_byte b2 b3 = (unat b2 mod 8) * 256 + unat b3"

definition status_byte :: "at45 \<Rightarrow> u8" where
  "status_byte c = (if busy c = 0 then BV 7 else 0) OR (if prot c then BV 1 else 0) OR 0x3c"

text \<open>The byte the chip shifts out while the next one comes in.\<close>

definition chip_resp :: "at45 \<Rightarrow> u8" where
  "chip_resp c =
     (case rx c of
        [] \<Rightarrow> 0
      | cmd # args \<Rightarrow>
          if cmd = DF_CMD_GETSTATUS then status_byte c
          else if cmd = DF_CMD_READMANUFACTURERDEVICEINFO \<and> args = [] then 0x1f
          else if cmd = DF_CMD_MAINMEMPAGEREAD \<and> 7 \<le> length args \<and> busy c = 0 then
            page_mem c (addr_page (args ! 0) (args ! 1))
              ((addr_byte (args ! 1) (args ! 2) + (length args - 7)) mod 1056)
          else 0)"

definition buffer_cmd :: "u8 \<Rightarrow> bool option" where
  "buffer_cmd cmd = (if cmd = DF_CMD_BUFF1WRITE then Some False
     else if cmd = DF_CMD_BUFF2WRITE then Some True else None)"

text \<open>
  A byte of a buffer write is stored at once, unless the buffer belongs to a running operation.
\<close>

definition chip_in :: "u8 \<Rightarrow> at45 \<Rightarrow> at45" where
  "chip_in b c =
     (case rx c of
        cmd # b1 # b2 # b3 # data \<Rightarrow>
          (case buffer_cmd cmd of
             Some k \<Rightarrow>
               if busy c = 0 \<or> busy_buf c \<noteq> k then
                 c\<lparr>sram_buf := (sram_buf c)(k := (sram_buf c k)
                     ((addr_byte b2 b3 + length data) mod 1056 := b))\<rparr>
               else c
           | None \<Rightarrow> c)
      | _ \<Rightarrow> c)\<lparr>rx := rx c @ [b]\<rparr>"

definition chip_tick :: "at45 \<Rightarrow> at45" where
  "chip_tick c = c\<lparr>busy := busy c - 1\<rparr>"

text \<open>The rising edge of the chip select executes the command received.\<close>

definition chip_exec :: "nat \<Rightarrow> nat \<Rightarrow> at45 \<Rightarrow> at45" where
  "chip_exec tld tpr c =
     (case rx c of
        cmd # b1 # b2 # b3 # _ \<Rightarrow>
          if busy c \<noteq> 0 then c
          else if cmd = DF_CMD_MAINMEMTOBUFF1 \<or> cmd = DF_CMD_MAINMEMTOBUFF2 then
            (let k = (cmd = DF_CMD_MAINMEMTOBUFF2) in
             c\<lparr>sram_buf := (sram_buf c)(k := page_mem c (addr_page b1 b2)), busy := tld, busy_buf := k\<rparr>)
          else if cmd = DF_CMD_BUFF1TOMAINMEMWITHERASE \<or> cmd = DF_CMD_BUFF2TOMAINMEMWITHERASE then
            (if prot c then c
             else let k = (cmd = DF_CMD_BUFF2TOMAINMEMWITHERASE) in
               c\<lparr>page_mem := (page_mem c)(addr_page b1 b2 := sram_buf c k), busy := tpr, busy_buf := k\<rparr>)
          else if [cmd, b1, b2, b3] = DF_CMD_SECTORPROTECTIONOFF then c\<lparr>prot := False\<rparr>
          else c
      | _ \<Rightarrow> c)\<lparr>rx := []\<rparr>"

section \<open>Two chips on the bus\<close>

record flash =
  chip :: "bool \<Rightarrow> at45"
  porte :: u8
  spdr :: u8
  t_load :: nat
  t_prog :: nat

text \<open>\<open>chip False\<close> is the first chip, selected by a low level on pin 0 of port E.\<close>

definition cs_pin :: "bool \<Rightarrow> nat" where
  "cs_pin k = (if k then 1 else 0)"

definition selected :: "flash \<Rightarrow> bool \<Rightarrow> bool" where
  "selected d k \<longleftrightarrow> \<not> bit (porte d) (cs_pin k)"

definition xfer :: "u8 \<Rightarrow> flash \<Rightarrow> flash" where
  "xfer b d =
     d\<lparr>chip := (\<lambda>k. chip_tick (if selected d k then chip_in b (chip d k) else chip d k)),
       spdr := (if selected d False then chip_resp (chip d False)
                else if selected d True then chip_resp (chip d True) else 0xff)\<rparr>"

definition port_write :: "u8 \<Rightarrow> flash \<Rightarrow> flash" where
  "port_write v d =
     d\<lparr>chip := (\<lambda>k. if selected d k \<and> bit v (cs_pin k)
                    then chip_exec (t_load d) (t_prog d) (chip d k) else chip d k),
       porte := v\<rparr>"

text \<open>\<open>Dataflash_SelectChip\<close> seen from the bus.\<close>

definition select_mask :: "u8 \<Rightarrow> flash \<Rightarrow> flash" where
  "select_mask m d = port_write ((porte d AND NOT 3) OR m) d"

section \<open>Commands on one selected chip\<close>

definition sel_only :: "bool \<Rightarrow> flash \<Rightarrow> bool" where
  "sel_only k d \<longleftrightarrow> selected d k \<and> \<not> selected d (\<not> k)"

definition none_selected :: "flash \<Rightarrow> bool" where
  "none_selected d \<longleftrightarrow> \<not> selected d False \<and> \<not> selected d True"

definition chip_mask :: "bool \<Rightarrow> u8" where
  "chip_mask k = (if k then DATAFLASH_CHIP2 else DATAFLASH_CHIP1)"

definition exec :: "bool \<Rightarrow> flash \<Rightarrow> at45" where
  "exec k d = chip_exec (t_load d) (t_prog d) (chip d k)"

lemma bit_numeral_u8 [simp]:
  "bit (1 :: u8) n \<longleftrightarrow> n = 0" "bit (2 :: u8) n \<longleftrightarrow> n = 1" "bit (3 :: u8) n \<longleftrightarrow> n = 0 \<or> n = 1"
proof -
  have eq: "(2 :: u8) = BV 1" "(3 :: u8) = BV 0 OR BV 1" by (simp_all add: BV_def)
  show "bit (2 :: u8) n \<longleftrightarrow> n = 1" unfolding eq(1) by (simp only: bit_BV) auto
  show "bit (3 :: u8) n \<longleftrightarrow> n = 0 \<or> n = 1" unfolding eq(2) by (simp only: bit_BV bit_or_iff) auto
qed (auto simp: bit_1_iff)

lemma selected_port [simp]: "selected (port_write v d) k \<longleftrightarrow> \<not> bit v (cs_pin k)"
  by (simp add: port_write_def selected_def)

lemma selected_xfer [simp]: "selected (xfer b d) k = selected d k"
  by (simp add: xfer_def selected_def)

lemma cs_pin_simps [simp]: "cs_pin False = 0" "cs_pin True = 1"
  by (simp_all add: cs_pin_def)

lemma sel_only_porte: "sel_only k d \<Longrightarrow> porte d AND 3 = chip_mask k"
  by (cases k; intro bit_word_eqI)
     (auto simp: sel_only_def selected_def chip_mask_def bit_and_iff less_Suc_eq numeral_eq_Suc)

lemma bit_cs: "bit (w AND NOT 3 OR m :: u8) (cs_pin k) = bit m (cs_pin k)"
  by (cases k) (simp_all add: bit_or_iff bit_and_iff bit_not_iff)

lemma selected_mask [simp]: "selected (select_mask m d) k \<longleftrightarrow> \<not> bit m (cs_pin k)"
  unfolding select_mask_def selected_port bit_cs ..

lemma chip_port_write: "chip (port_write v d) = (\<lambda>k. if selected d k \<and> bit v (cs_pin k) then exec k d else chip d k)"
  unfolding port_write_def exec_def by simp

lemma chip_select_mask:
  "chip (select_mask m d) = (\<lambda>k. if selected d k \<and> bit m (cs_pin k) then exec k d else chip d k)"
  unfolding select_mask_def chip_port_write bit_cs ..

lemma bit_chip_mask [simp]: "bit (chip_mask k) (cs_pin j) \<longleftrightarrow> j \<noteq> k"
  by (cases k; cases j) (simp_all add: chip_mask_def)

lemma bit_no_chip [simp]: "bit (3 :: u8) (cs_pin j)"
  by (cases j) simp_all

lemma none_selected_iff: "none_selected d \<longleftrightarrow> (\<forall>k. \<not> selected d k)"
  by (auto simp: none_selected_def) (metis (full_types))

lemma select_none:
  "none_selected (select_mask 3 d)"
  "sel_only k d \<Longrightarrow> chip (select_mask 3 d) = (chip d)(k := exec k d)"
  "none_selected d \<Longrightarrow> chip (select_mask 3 d) = chip d"
proof -
  show "none_selected (select_mask 3 d)" unfolding none_selected_iff selected_mask using bit_no_chip by blast
  show "chip (select_mask 3 d) = (chip d)(k := exec k d)" if "sel_only k d"
  proof
    fix j
    show "chip (select_mask 3 d) j = ((chip d)(k := exec k d)) j"
      using that bit_no_chip [of k] unfolding chip_select_mask
      by (cases "j = k") (auto simp only: sel_only_def fun_upd_apply simp_thms if_True if_False)
  qed
  show "none_selected d \<Longrightarrow> chip (select_mask 3 d) = chip d"
    unfolding chip_select_mask none_selected_iff by simp
qed

lemma select_one:
  "none_selected d \<Longrightarrow> sel_only k (select_mask (chip_mask k) d)"
  "none_selected d \<Longrightarrow> chip (select_mask (chip_mask k) d) = chip d"
  unfolding none_selected_iff sel_only_def chip_select_mask selected_mask bit_chip_mask by simp_all

lemma select_times [simp]:
  "t_load (select_mask m d) = t_load d" "t_prog (select_mask m d) = t_prog d"
  "t_load (xfer b d) = t_load d" "t_prog (xfer b d) = t_prog d"
  by (simp_all add: select_mask_def port_write_def xfer_def)

lemma chip_xfer: "chip (xfer b d) j = chip_tick (if selected d j then chip_in b (chip d j) else chip d j)"
  by (simp add: xfer_def)

lemma xfer_one:
  assumes "sel_only k d"
  shows "sel_only k (xfer b d)" "spdr (xfer b d) = chip_resp (chip d k)"
    "chip (xfer b d) k = chip_tick (chip_in b (chip d k))" "chip (xfer b d) (\<not> k) = chip_tick (chip d (\<not> k))"
proof -
  have s: "selected d k" "\<not> selected d (\<not> k)" using assms by (simp_all add: sel_only_def)
  then show "sel_only k (xfer b d)" by (simp add: sel_only_def)
  show "chip (xfer b d) k = chip_tick (chip_in b (chip d k))" using s by (simp add: chip_xfer)
  show "chip (xfer b d) (\<not> k) = chip_tick (chip d (\<not> k))" using s by (simp add: chip_xfer)
  show "spdr (xfer b d) = chip_resp (chip d k)" using s by (cases k) (simp_all add: xfer_def)
qed

definition reselect :: "bool \<Rightarrow> flash \<Rightarrow> flash" where
  "reselect k d = select_mask (chip_mask k) (select_mask 3 d)"

lemma reselect_one:
  assumes "sel_only k d"
  shows "sel_only k (reselect k d)" "chip (reselect k d) k = exec k d"
    "chip (reselect k d) (\<not> k) = chip d (\<not> k)"
  using assms select_none select_one by (simp_all add: reselect_def)

lemma reselect_times [simp]: "t_load (reselect k d) = t_load d" "t_prog (reselect k d) = t_prog d"
  by (simp_all add: reselect_def)

text \<open>What an operation on one chip leaves of the other one: everything but the passing of time.\<close>

definition later :: "at45 \<Rightarrow> at45 \<Rightarrow> bool" where
  "later c c' \<longleftrightarrow> (\<exists>m. c' = c\<lparr>busy := busy c - m\<rparr>)"

lemma later_refl [simp]: "later c c"
  unfolding later_def by (rule exI [of _ 0]) simp

lemma later_trans: "later a b \<Longrightarrow> later b c \<Longrightarrow> later a c"
  unfolding later_def
proof (elim exE)
  fix m n
  assume "b = a\<lparr>busy := busy a - m\<rparr>" "c = b\<lparr>busy := busy b - n\<rparr>"
  then show "\<exists>m. c = a\<lparr>busy := busy a - m\<rparr>" by (intro exI [of _ "m + n"]) simp
qed

lemma later_tick [simp]: "later c (chip_tick c)"
  unfolding later_def chip_tick_def by blast

lemma later_sel:
  "later c c' \<Longrightarrow> page_mem c' = page_mem c \<and> sram_buf c' = sram_buf c \<and> busy_buf c' = busy_buf c \<and>
     prot c' = prot c \<and> rx c' = rx c \<and> busy c' \<le> busy c"
  by (auto simp: later_def)

text \<open>Sending a list of bytes to the selected chip.\<close>

lemma xfers_one:
  assumes "sel_only k d"
  shows "sel_only k (fold xfer bs d)" "chip (fold xfer bs d) k = fold (\<lambda>b c. chip_tick (chip_in b c)) bs (chip d k)"
    "later (chip d (\<not> k)) (chip (fold xfer bs d) (\<not> k))"
    "t_load (fold xfer bs d) = t_load d" "t_prog (fold xfer bs d) = t_prog d"
  using assms
proof (induction bs arbitrary: d)
  case (Cons b bs)
  { case 1 then show ?case using Cons xfer_one by simp }
  { case 2 then show ?case using Cons xfer_one by simp }
  { case 3
    then show ?case
      using later_trans [OF later_tick [of "chip d (\<not> k)"], of "chip (fold xfer bs (xfer b d)) (\<not> k)"]
        Cons.IH(3) [OF xfer_one(1) [OF 3, of b]] xfer_one(4) [OF 3, of b] by simp }
  { case 4 then show ?case using Cons xfer_one by simp }
  { case 5 then show ?case using Cons xfer_one by simp }
qed simp_all

lemma feed_rx: "rx (fold (\<lambda>b c. chip_tick (chip_in b c)) bs c) = rx c @ bs"
  by (induction bs arbitrary: c) (simp_all add: chip_tick_def chip_in_def split: list.split option.split)

text \<open>A chip that only receives a command, and its three address bytes, does nothing yet.\<close>

lemma chip_in_short: "length (rx c) < 4 \<Longrightarrow> chip_in b c = c\<lparr>rx := rx c @ [b]\<rparr>"
  by (auto simp: chip_in_def split: list.split)

lemma chip_in_other: "buffer_cmd (hd (rx c)) = None \<Longrightarrow> rx c \<noteq> [] \<Longrightarrow> chip_in b c = c\<lparr>rx := rx c @ [b]\<rparr>"
  by (auto simp: chip_in_def split: list.split)

lemma feed_cmd:
  assumes "rx c = []"
  shows "later (c\<lparr>rx := [cmd, b1, b2, b3]\<rparr>) (fold (\<lambda>b c. chip_tick (chip_in b c)) [cmd, b1, b2, b3] c)"
  unfolding later_def using assms
  by (intro exI [of _ 4]) (simp add: chip_in_short chip_tick_def)

section \<open>Addresses\<close>

definition page_bytes :: "u16 \<Rightarrow> u16 \<Rightarrow> u8 list" where
  "page_bytes p byte =
     [ucast (drop_bit 5 (drop_bit 1 p)), ucast (push_bit 3 (drop_bit 1 p) OR drop_bit 8 byte), ucast byte]"

lemma bit_bounded: "unat (w :: u16) < 2 ^ n \<Longrightarrow> bit w m \<Longrightarrow> m < n"
  by (metis bit_take_bit_iff take_bit_nat_eq_self_iff unsigned_take_bit_eq word_unat_eq_iff)

lemma unat_u8_ucast: "unat (ucast (w :: u16) :: u8) = unat w mod 256"
  by (simp add: unsigned_ucast_eq take_bit_eq_mod)

lemma page_bytes_decode:
  assumes "unat p < 16384" "unat byte < 2048"
  shows "addr_page (page_bytes p byte ! 0) (page_bytes p byte ! 1) = unat p div 2"
    "addr_byte (page_bytes p byte ! 1) (page_bytes p byte ! 2) = unat byte"
proof -
  let ?q = "drop_bit 1 p" and ?b2 = "page_bytes p byte ! 1"
  have q: "unat ?q = unat p div 2" by (simp add: drop_bit_eq_div unat_div)
  have b1: "unat (page_bytes p byte ! 0) = unat ?q div 32"
  proof -
    have "unat (drop_bit 5 ?q) = unat ?q div 32" by (simp add: drop_bit_eq_div unat_div)
    moreover have "unat ?q div 32 < 256" unfolding q using assms(1) by (simp add: less_mult_imp_div_less)
    ultimately show ?thesis by (simp add: page_bytes_def unat_u8_ucast)
  qed
  have big: "bit byte m \<Longrightarrow> m < 11" for m using bit_bounded [of byte 11] assms(2) by simp
  have hi: "drop_bit 3 ?b2 = ucast (take_bit 5 ?q)"
    by (intro bit_word_eqI) (use big in \<open>fastforce simp: page_bytes_def bit_simps\<close>)
  have lo: "take_bit 3 ?b2 = ucast (drop_bit 8 byte)"
    by (intro bit_word_eqI) (use big in \<open>fastforce simp: page_bytes_def bit_simps\<close>)
  have small: "x mod 32 mod 256 = x mod (32 :: nat)" for x
    by (rule mod_less) (rule less_trans [of _ 32], simp_all)
  have b2: "unat ?b2 div 8 = unat ?q mod 32"
    using arg_cong [OF hi, of unat] by (simp add: unat_div unat_mod drop_bit_eq_div unat_u8_ucast take_bit_eq_mod small)
  have b2': "unat ?b2 mod 8 = unat byte div 256"
    using arg_cong [OF lo, of unat] assms(2)
    by (simp add: unat_div unat_mod drop_bit_eq_div unat_u8_ucast take_bit_eq_mod)
  have b3: "unat (page_bytes p byte ! 2) = unat byte mod 256" by (simp add: page_bytes_def unat_u8_ucast)
  show "addr_page (page_bytes p byte ! 0) (page_bytes p byte ! 1) = unat p div 2"
    unfolding addr_page_def b1 b2 q [symmetric] by simp
  show "addr_byte (page_bytes p byte ! 1) (page_bytes p byte ! 2) = unat byte"
    unfolding addr_byte_def b2' b3 by simp
qed

section \<open>The contract with the registers\<close>

locale flash_bus =
  fixes io :: "'h mmio" and get :: "'h \<Rightarrow> flash" and put :: "flash \<Rightarrow> 'h \<Rightarrow> 'h"
  assumes get_put: "get (put d s) = d"
    and put_put: "put e (put d s) = put e s"
    and put_get: "put (get s) s = s"
    and wr_spdr: "io_wr io SPDR b s = put (xfer b (get s)) s"
    and rd_spsr: "io_rd io SPSR s = (BV SPIF, s)"
    and rd_spdr: "io_rd io SPDR s = (spdr (get s), s)"
    and rd_porte: "io_rd io PORTE s = (porte (get s), s)"
    and wr_porte: "io_wr io PORTE v s = put (port_write v (get s)) s"
begin

definition lift :: "(flash \<Rightarrow> flash) \<Rightarrow> 'h \<Rightarrow> 'h" where
  "lift f s = put (f (get s)) s"

lemma get_lift [simp]: "get (lift f s) = f (get s)"
  by (simp add: lift_def get_put)

lemma lift_lift: "lift g (lift f s) = lift (\<lambda>d. g (f d)) s"
  by (simp add: lift_def get_put put_put)

lemma send: "Dataflash_SendByte io b s = Some (lift (xfer b) s)"
  unfolding Dataflash_SendByte_def SPI_SendByte_def
  by (rule spin_once) (simp add: test_reg_def rd_spsr wr_spdr lift_def)

lemma receive: "Dataflash_ReceiveByte io s = Some (spdr (xfer 0 (get s)), lift (xfer 0) s)"
proof -
  have "spin_until io SPSR SPIF (io_wr io SPDR 0 s) = Some (lift (xfer 0) s)"
    by (rule spin_once) (simp add: test_reg_def rd_spsr wr_spdr lift_def)
  then show ?thesis
    by (simp add: Dataflash_ReceiveByte_def SPI_ReceiveByte_def rd_spdr)
qed

lemma select_chip: "Dataflash_SelectChip io m s = lift (select_mask m) s"
  by (simp add: Dataflash_SelectChip_def rd_porte wr_porte lift_def select_mask_def)

lemma deselect: "Dataflash_DeselectChip io s = lift (select_mask 3) s"
  by (simp add: Dataflash_DeselectChip_def select_chip)

lemma get_selected: "Dataflash_GetSelectedChip io s = (porte (get s) AND 3, s)"
  by (simp add: Dataflash_GetSelectedChip_def rd_porte)

lemma send_bytes: "send_bytes io bs s = Some (lift (fold xfer bs) s)"
proof (induction bs arbitrary: s)
  case (Cons b bs)
  then show ?case by (simp add: send lift_lift comp_def)
qed (simp add: lift_def put_get)

lemma put_lift: "lift f s = put (f (get s)) s"
  by (simp add: lift_def)

lemma toggle:
  assumes "sel_only k (get s)"
  shows "Dataflash_ToggleSelectedChipCS io s = put (reselect k (get s)) s"
  by (simp add: Dataflash_ToggleSelectedChipCS_def get_selected deselect select_chip
      sel_only_porte [OF assms] lift_def get_put put_put reselect_def)

lemma status_wait:
  assumes "sel_only k (get s)" "rx (chip (get s) k) = DF_CMD_GETSTATUS # xs"
  shows "\<exists>d m ys. status_wait io s = Some (put d s) \<and> sel_only k d \<and>
    chip d k = (chip (get s) k)\<lparr>busy := 0, rx := DF_CMD_GETSTATUS # ys\<rparr> \<and> busy (chip (get s) k) \<le> m \<and>
    chip d (\<not> k) = (chip (get s) (\<not> k))\<lparr>busy := busy (chip (get s) (\<not> k)) - m\<rparr> \<and>
    t_load d = t_load (get s) \<and> t_prog d = t_prog (get s)"
  using assms
proof (induction "busy (chip (get s) k)" arbitrary: s xs)
  case 0
  let ?d = "xfer 0 (get s)" and ?c = "chip (get s) k"
  note x = xfer_one [OF 0(2), of 0]
  have c: "chip_in 0 ?c = ?c\<lparr>rx := rx ?c @ [0]\<rparr>"
    using 0(3) by (intro chip_in_other) (simp_all add: buffer_cmd_def)
  have r: "bit (chip_resp ?c) DF_STATUS_READY" using 0 by (simp add: chip_resp_def status_byte_def bit_or_iff)
  have "status_wait io s = Some (put ?d s)"
    by (subst status_wait.simps) (simp add: receive x(2) r put_lift)
  moreover have "chip ?d k = ?c\<lparr>busy := 0, rx := DF_CMD_GETSTATUS # (xs @ [0])\<rparr>"
    using x(3) c 0(1) [symmetric] 0(3) by (simp add: chip_tick_def)
  ultimately show ?case using x(1,4) 0(1) [symmetric]
    by (intro exI [of _ ?d] exI [of _ 1] exI [of _ "xs @ [0]"]) (simp add: chip_tick_def)
next
  case (Suc n)
  let ?d = "xfer 0 (get s)" and ?c = "chip (get s) k"
  note x = xfer_one [OF Suc.prems(1), of 0]
  have c: "chip_in 0 ?c = ?c\<lparr>rx := rx ?c @ [0]\<rparr>"
    using Suc.prems(2) by (intro chip_in_other) (simp_all add: buffer_cmd_def)
  have n: "busy ?c = Suc n" using Suc.hyps(2) by simp
  have cd: "chip ?d k = ?c\<lparr>busy := n, rx := DF_CMD_GETSTATUS # (xs @ [0])\<rparr>"
    using x(3) c n Suc.prems(2) by (simp add: chip_tick_def)
  have r: "\<not> bit (chip_resp ?c) DF_STATUS_READY"
    using n Suc.prems(2) by (simp add: chip_resp_def status_byte_def bit_or_iff)
  have step: "status_wait io s = status_wait io (put ?d s)"
    by (subst status_wait.simps) (simp add: receive x(2) r put_lift)
  have "n = busy (chip (get (put ?d s)) k)" using cd by (simp add: get_put)
  from Suc.hyps(1) [OF this, of "xs @ [0]"] x(1) cd
  obtain d m ys where "status_wait io (put ?d s) = Some (put d s)" "sel_only k d"
    "chip d k = (chip ?d k)\<lparr>busy := 0, rx := DF_CMD_GETSTATUS # ys\<rparr>" "n \<le> m"
    "chip d (\<not> k) = (chip ?d (\<not> k))\<lparr>busy := busy (chip ?d (\<not> k)) - m\<rparr>"
    "t_load d = t_load ?d" "t_prog d = t_prog ?d"
    by (auto simp: get_put put_put)
  then show ?case using step cd x(4) n
    by (intro exI [of _ d] exI [of _ "Suc m"] exI [of _ ys]) (simp add: chip_tick_def)
qed

text \<open>The busy wait ends, executes the command that was pending and leaves the chip idle and selected.\<close>

lemma wait_while_busy:
  assumes "sel_only k (get s)"
  shows "\<exists>d m. Dataflash_WaitWhileBusy io s = Some (put d s) \<and> sel_only k d \<and>
    chip d k = (exec k (get s))\<lparr>busy := 0\<rparr> \<and> busy (exec k (get s)) \<le> m \<and>
    chip d (\<not> k) = (chip (get s) (\<not> k))\<lparr>busy := busy (chip (get s) (\<not> k)) - m\<rparr> \<and>
    t_load d = t_load (get s) \<and> t_prog d = t_prog (get s)"
proof -
  let ?d1 = "reselect k (get s)"
  note r = reselect_one [OF assms]
  let ?d2 = "xfer DF_CMD_GETSTATUS ?d1"
  note x = xfer_one [OF r(1), of DF_CMD_GETSTATUS]
  have rx1: "rx (chip ?d1 k) = []" using r(2) by (simp add: exec_def chip_exec_def)
  have c2: "chip ?d2 k = (exec k (get s))\<lparr>busy := busy (exec k (get s)) - 1, rx := [DF_CMD_GETSTATUS]\<rparr>"
    using x(3) r(2) rx1 by (simp add: chip_in_short chip_tick_def)
  obtain d m ys where d: "status_wait io (put ?d2 s) = Some (put d s)" "sel_only k d"
    "chip d k = (chip ?d2 k)\<lparr>busy := 0, rx := DF_CMD_GETSTATUS # ys\<rparr>" "busy (chip ?d2 k) \<le> m"
    "chip d (\<not> k) = (chip ?d2 (\<not> k))\<lparr>busy := busy (chip ?d2 (\<not> k)) - m\<rparr>"
    "t_load d = t_load ?d2" "t_prog d = t_prog ?d2"
    using status_wait [of k "put ?d2 s" "[]"] x(1) c2 by (auto simp: get_put put_put)
  note e = reselect_one [OF d(2)]
  have "Dataflash_WaitWhileBusy io s = Some (put (reselect k d) s)"
    using d(1) toggle [of k "put d s"] d(2)
    by (simp add: Dataflash_WaitWhileBusy_def Let_def toggle [OF assms] send put_lift get_put put_put)
  moreover have "chip (reselect k d) k = (exec k (get s))\<lparr>busy := 0\<rparr>"
    using e(2) d(3) c2 rx1 r(2)
    by (simp add: exec_def [of k d] chip_exec_def DF_CMD_SECTORPROTECTIONOFF_def split: list.split)
  moreover have "chip (reselect k d) (\<not> k) = (chip (get s) (\<not> k))\<lparr>busy := busy (chip (get s) (\<not> k)) - Suc m\<rparr>"
    using e(3) d(5) x(4) r(3) by (simp add: chip_tick_def)
  ultimately show ?thesis
    using e(1) d(4,6,7) c2 by (intro exI [of _ "reselect k d"] exI [of _ "Suc m"]) simp
qed

end

end
