(* ===== verification/Flash_Read.thy ===== *)
theory Flash_Read
  imports At45
begin

text \<open>
  The dataflash driver and the reading half of \<open>DataflashManager.c\<close> on the two chips: page
  addresses reach the chip they name, and \<open>DataflashManager_ReadBlocks_RAM\<close> returns the bytes of
  the linear medium that the two chips form page by page.
\<close>

section \<open>The linear medium\<close>

definition page_of :: "flash \<Rightarrow> nat \<Rightarrow> nat \<Rightarrow> u8" where
  "page_of d page = page_mem (chip d (odd page)) (page div 2)"

definition medium :: "flash \<Rightarrow> nat \<Rightarrow> u8" where
  "medium d L = page_of d (L div 1024) (L mod 1024)"

definition both_idle :: "flash \<Rightarrow> bool" where
  "both_idle d \<longleftrightarrow> (\<forall>k. busy (chip d k) = 0)"

definition at_rest :: "flash \<Rightarrow> bool" where
  "at_rest d \<longleftrightarrow> none_selected d \<and> both_idle d \<and> (\<forall>k. rx (chip d k) = [])"

definition same_mem :: "flash \<Rightarrow> flash \<Rightarrow> bool" where
  "same_mem d e \<longleftrightarrow> (\<forall>k. page_mem (chip e k) = page_mem (chip d k))"

lemma same_mem_page: "same_mem d e \<Longrightarrow> page_of e = page_of d"
  by (auto simp: same_mem_def page_of_def)

lemma same_mem_refl [simp]: "same_mem d d"
  by (simp add: same_mem_def)

lemma same_mem_trans: "same_mem a b \<Longrightarrow> same_mem b c \<Longrightarrow> same_mem a c"
  by (simp add: same_mem_def)

lemma same_medium: "same_mem d e \<Longrightarrow> medium e = medium d"
  by (simp add: medium_def fun_eq_iff same_mem_page)

lemma medium_page: "j < 1024 \<Longrightarrow> medium d (page * 1024 + j) = page_of d page j"
  by (simp add: medium_def)

lemma medium_slice:
  "pos + n \<le> 1024 \<Longrightarrow> map (page_of d page) [pos..<pos + n] = map (medium d) [page * 1024 + pos..<page * 1024 + pos + n]"
  by (rule nth_equalityI) (simp_all add: medium_page add.assoc)

lemma later_idle: "later c c' \<Longrightarrow> busy c = 0 \<Longrightarrow> c' = c"
  by (auto simp: later_def)

text \<open>Facts about both chips, one chip at a time.\<close>

lemma all_chips: "P k \<Longrightarrow> P (\<not> k) \<Longrightarrow> P (j :: bool)"
  by (cases j; cases k) auto

lemma odd_u16: "p AND 1 \<noteq> 0 \<longleftrightarrow> odd (unat (p :: u16))"
proof -
  have "p AND 1 = 0 \<longleftrightarrow> \<not> bit p 0" using and_BV_zero_iff [of p 0] by (simp add: BV_def)
  moreover have "bit p 0 \<longleftrightarrow> bit (unat p) 0" by (simp only: bit_unsigned_iff) simp
  ultimately show ?thesis by (simp add: bit_0)
qed

definition go_page :: "bool \<Rightarrow> flash \<Rightarrow> flash" where
  "go_page k d = select_mask (chip_mask k) (select_mask 3 d)"

lemma go_page_one:
  assumes "none_selected d \<or> sel_only j d"
  shows "sel_only k (go_page k d)"
    "chip (go_page k d) = (if none_selected d then chip d else (chip d)(j := exec j d))"
    "t_load (go_page k d) = t_load d" "t_prog (go_page k d) = t_prog d"
  using assms select_none select_one by (auto simp: go_page_def)

section \<open>Reading from a chip\<close>

text \<open>A page read is open at byte \<open>pos\<close> of \<open>page\<close>.\<close>

definition reading :: "nat \<Rightarrow> nat \<Rightarrow> flash \<Rightarrow> bool" where
  "reading page pos d \<longleftrightarrow> sel_only (odd page) d \<and> both_idle d \<and> rx (chip d (even page)) = [] \<and>
     (\<exists>b1 b2 b3 xs. rx (chip d (odd page)) = DF_CMD_MAINMEMPAGEREAD # b1 # b2 # b3 # xs \<and>
        4 \<le> length xs \<and> addr_page b1 b2 = page div 2 \<and> addr_byte b2 b3 + (length xs - 4) = pos)"

lemma reading_step:
  assumes "reading page pos d" "pos < 1024"
  shows "spdr (xfer b d) = page_of d page pos" "reading page (Suc pos) (xfer b d)" "same_mem d (xfer b d)"
proof -
  let ?k = "odd page"
  have s: "sel_only ?k d" "both_idle d" "rx (chip d (\<not> ?k)) = []" using assms by (simp_all add: reading_def)
  obtain b1 b2 b3 xs where rx: "rx (chip d ?k) = DF_CMD_MAINMEMPAGEREAD # b1 # b2 # b3 # xs"
    and xs: "4 \<le> length xs" "addr_page b1 b2 = page div 2" "addr_byte b2 b3 + (length xs - 4) = pos"
    using assms by (auto simp: reading_def)
  note x = xfer_one [OF s(1), of b]
  have idle: "busy (chip d j) = 0" for j using s(2) by (simp add: both_idle_def)
  have len: "length (b1 # b2 # b3 # xs) - 7 = length xs - 4" "7 \<le> length (b1 # b2 # b3 # xs)" using xs(1) by simp_all
  have "chip_resp (chip d ?k) = page_mem (chip d ?k) (page div 2) (pos mod 1056)"
    using rx xs(2,3) len idle by (simp add: chip_resp_def)
  then show "spdr (xfer b d) = page_of d page pos" using x(2) assms(2) by (simp add: page_of_def)
  have c: "chip (xfer b d) ?k = (chip d ?k)\<lparr>rx := rx (chip d ?k) @ [b]\<rparr>"
    using x(3) rx idle by (simp add: chip_in_other buffer_cmd_def chip_tick_def)
  have o': "chip (xfer b d) (\<not> ?k) = chip d (\<not> ?k)" using x(4) idle by (simp add: chip_tick_def)
  have "both_idle (xfer b d)"
    unfolding both_idle_def by (rule allI, rule all_chips [of _ ?k]) (use c o' idle in simp_all)
  then show "reading page (Suc pos) (xfer b d)"
    unfolding reading_def using x(1) s(3) c o' rx xs
    by (auto intro!: exI [of _ b1] exI [of _ b2] exI [of _ b3] exI [of _ "xs @ [b]"])
  show "same_mem d (xfer b d)"
    unfolding same_mem_def by (rule allI, rule all_chips [of _ ?k]) (use c o' in simp_all)
qed

context flash_bus
begin

lemma send_address: "Dataflash_SendAddressBytes io p byte s = Some (lift (fold xfer (page_bytes p byte)) s)"
  by (simp add: Dataflash_SendAddressBytes_def page_bytes_def send lift_lift comp_def)

lemma send_command:
  "do { s \<leftarrow> Dataflash_SendByte io cmd s; Dataflash_SendAddressBytes io p byte s } =
   Some (lift (fold xfer (cmd # page_bytes p byte)) s)"
  by (simp add: send send_address lift_lift comp_def)

lemma select_from_page:
  assumes "unat p < 16384"
  shows "Dataflash_SelectChipFromPage io p s = put (go_page (odd (unat p)) (get s)) s"
  using assms odd_u16 [of p]
  by (simp add: Dataflash_SelectChipFromPage_def deselect select_chip lift_def get_put put_put go_page_def chip_mask_def)

text \<open>Opening a page read, from rest or in the middle of another page's read.\<close>

lemma exec_read:
  assumes "reading page pos d"
  shows "exec (odd page) d = (chip d (odd page))\<lparr>rx := []\<rparr>"
  using assms
  by (auto simp: reading_def exec_def chip_exec_def DF_CMD_SECTORPROTECTIONOFF_def both_idle_def)

lemma page_read_start:
  assumes "at_rest (get s) \<or> reading page pos (get s)" "unat p < 16384" "unat byte < 1024"
  shows "\<exists>d. page_read_start io p byte s = Some (put d s) \<and> reading (unat p) (unat byte) d \<and> same_mem (get s) d"
proof -
  let ?k = "odd (unat p)" and ?g = "go_page (odd (unat p)) (get s)"
  let ?cmd = "DF_CMD_MAINMEMPAGEREAD # page_bytes p byte @ [0, 0, 0, 0]"
  define d where "d = fold xfer ?cmd ?g"
  have sel: "none_selected (get s) \<or> sel_only (odd page) (get s)"
    using assms(1) by (auto simp: at_rest_def reading_def)
  note g = go_page_one [OF sel, of ?k]
  have gc: "chip ?g j = (chip (get s) j)\<lparr>rx := []\<rparr> \<and> busy (chip (get s) j) = 0" for j
  proof (cases "none_selected (get s)")
    case True
    then show ?thesis using assms(1) g(2) by (auto simp: at_rest_def both_idle_def reading_def sel_only_def none_selected_iff)
  next
    case False
    then have r: "reading page pos (get s)" using assms(1) by (simp add: at_rest_def)
    then have "\<not> j = odd page \<Longrightarrow> chip (get s) j = (chip (get s) j)\<lparr>rx := []\<rparr>"
      by (cases j; cases "odd page") (simp_all add: reading_def)
    then show ?thesis using g(2) False exec_read [OF r] r by (auto simp: reading_def both_idle_def)
  qed
  note x = xfers_one [OF g(1), of ?cmd, folded d_def]
  have start: "page_read_start io p byte s = Some (put d s)"
    by (simp add: page_read_start_def Let_def select_from_page assms(2) send send_address send_bytes lift_def
        get_put put_put d_def comp_def)
  have len: "length (page_bytes p byte) = 3" by (simp add: page_bytes_def)
  obtain b1 b2 b3 where b: "page_bytes p byte = [b1, b2, b3]"
    by (simp add: page_bytes_def)
  have dec: "addr_page b1 b2 = unat p div 2" "addr_byte b2 b3 = unat byte"
    using page_bytes_decode [of p byte] assms(2,3) b by simp_all
  have dk: "chip d ?k = (chip ?g ?k)\<lparr>rx := ?cmd\<rparr>"
    using x(2) gc [of ?k] by (simp add: b chip_in_short chip_in_other buffer_cmd_def chip_tick_def)
  have do: "chip d (\<not> ?k) = chip ?g (\<not> ?k)" using x(3) gc [of "\<not> ?k"] by (intro later_idle) auto
  have idle: "busy (chip d j) = 0" for j by (rule all_chips [of _ ?k]) (use dk do gc in simp_all)
  have "reading (unat p) (unat byte) d"
    unfolding reading_def using x(1) idle do gc [of "even (unat p)"] dk dec
    by (auto simp: both_idle_def b)
  moreover have "same_mem (get s) d"
    unfolding same_mem_def by (rule allI, rule all_chips [of _ ?k]) (use dk do gc in simp_all)
  ultimately show ?thesis using start by blast
qed

lemma recv_bytes:
  assumes "reading page pos (get s)" "pos + n \<le> 1024"
  shows "\<exists>d. recv_bytes io n s = Some (map (page_of (get s) page) [pos..<pos + n], put d s) \<and>
    reading page (pos + n) d \<and> same_mem (get s) d"
  using assms
proof (induction n arbitrary: pos s)
  case 0
  then show ?case by (intro exI [of _ "get s"]) (simp add: put_get)
next
  case (Suc n)
  let ?d = "xfer 0 (get s)"
  have "pos < 1024" using Suc.prems by simp
  note r = reading_step [OF Suc.prems(1) this, of 0]
  obtain d where d: "recv_bytes io n (put ?d s) = Some (map (page_of ?d page) [Suc pos..<Suc pos + n], put d s)"
     "reading page (Suc pos + n) d" "same_mem ?d d"
    using Suc.IH [of "Suc pos" "put ?d s"] r(2) Suc.prems(2) by (auto simp: get_put put_put)
  then show ?case
    using r(1) r(3) same_mem_page [OF r(3)] same_mem_trans [OF r(3) d(3)]
    by (intro exI [of _ d]) (simp add: receive put_lift get_put upt_conv_Cons del: upt_Suc)
qed

section \<open>The read loops\<close>

text \<open>
  The state between two chunks: the open read stands at linear position \<open>P\<close>, which is
  possibly the end of the page, because the next page is opened only when it is needed.
\<close>

definition read_at :: "nat \<Rightarrow> rloc \<Rightarrow> flash \<Rightarrow> flash \<Rightarrow> bool" where
  "read_at P l d0 d \<longleftrightarrow> reading (unat (ReadPage l)) (16 * unat (ReadByteDiv16 l)) d \<and> same_mem d0 d \<and>
     unat (ReadPage l) * 1024 + 16 * unat (ReadByteDiv16 l) = P \<and> unat (ReadPage l) < 16384 \<and>
     unat (ReadByteDiv16 l) \<le> 64"

lemma page_turn:
  assumes "read_at P l d0 (get s)" "P < 16384 * 1024"
  shows "\<exists>l' d. page_turn io l s = Some (l', put d s) \<and> read_at P l' d0 d \<and> unat (ReadByteDiv16 l') < 64"
proof (cases "ReadByteDiv16 l = 64")
  case False
  then have "unat (ReadByteDiv16 l) \<noteq> 64" by (simp add: word_unat_eq_iff)
  then show ?thesis
    using assms(1) False by (intro exI [of _ l] exI [of _ "get s"]) (simp add: page_turn_def put_get read_at_def)
next
  case True
  then have r: "reading (unat (ReadPage l)) 1024 (get s)" "Suc (unat (ReadPage l)) < 16384"
    using assms by (simp_all add: read_at_def)
  have p: "unat (ReadPage l + 1) = Suc (unat (ReadPage l))" by (rule unat_Suc_lt) (use r(2) in simp)
  obtain d where "page_read_start io (ReadPage l + 1) 0 s = Some (put d s)"
    "reading (Suc (unat (ReadPage l))) 0 d" "same_mem (get s) d"
    using page_read_start [OF disjI2 [OF r(1)], of "ReadPage l + 1" 0] p r(2) by auto
  then show ?thesis
    using assms(1) True p r(2) same_mem_trans
    by (auto simp: page_turn_def read_at_def intro!: exI [of _ d])
qed

lemma read_chunk_ram:
  assumes "read_at P l d0 (get s)" "P + 16 \<le> 16384 * 1024"
  shows "\<exists>l' d. read_chunk_ram io (l, bs) s = Some (Next (l', bs @ map (medium d0) [P..<P + 16]), put d s) \<and>
    read_at (P + 16) l' d0 d"
proof -
  obtain l1 d1 where t: "page_turn io l s = Some (l1, put d1 s)" "read_at P l1 d0 d1" "unat (ReadByteDiv16 l1) < 64"
    using page_turn [OF assms(1)] assms(2) by auto
  let ?p = "unat (ReadPage l1)" and ?q = "16 * unat (ReadByteDiv16 l1)"
  have r: "reading ?p ?q d1" "same_mem d0 d1" "?p * 1024 + ?q = P" "?p < 16384" using t(2) by (simp_all add: read_at_def)
  obtain d where d: "recv_bytes io 16 (put d1 s) = Some (map (page_of d1 ?p) [?q..<?q + 16], put d s)"
    "reading ?p (?q + 16) d" "same_mem d1 d"
    using recv_bytes [of ?p ?q "put d1 s" 16] r(1) t(3) by (auto simp: get_put put_put)
  have "map (page_of d1 ?p) [?q..<?q + 16] = map (medium d0) [P..<P + 16]"
    using medium_slice [of ?q 16 d1 ?p] t(3) r(3) same_medium [OF r(2)] by simp
  moreover have "unat (ReadByteDiv16 l1 + 1) = Suc (unat (ReadByteDiv16 l1))"
    by (rule unat_Suc_lt) (use t(3) in simp)
  moreover have "reading ?p (16 + ?q) d" using d(2) by (simp add: add.commute)
  ultimately show ?thesis
    using t d(1) r same_mem_trans [OF r(2) d(3)]
    by (intro exI [of _ "l1\<lparr>ReadByteDiv16 := ReadByteDiv16 l1 + 1\<rparr>"] exI [of _ d])
       (simp add: read_chunk_ram_def read_at_def)
qed

lemma read_ram_loop:
  assumes "read_at P l d0 d" "P + 512 * n \<le> 16384 * 1024"
  shows "\<exists>l' d'. read_ram_loop io n (l, bs) (put d s) =
      Some (Next (l', bs @ map (medium d0) [P..<P + 512 * n]), put d' s) \<and> read_at (P + 512 * n) l' d0 d'"
  using assms
proof (induction n arbitrary: P l bs d)
  case 0
  then show ?case by auto
next
  case (Suc n)
  let ?I = "\<lambda>i lb t. \<exists>d. t = put d s \<and> read_at (P + 16 * i) (fst lb) d0 d \<and> snd lb = bs @ map (medium d0) [P..<P + 16 * i]"
  have step: "\<exists>lb' t'. read_chunk_ram io lb t = Some (Next lb', t') \<and> ?I (Suc i) lb' t'"
    if "i < 32" and I: "?I i lb t" for i lb t
  proof -
    obtain d1 where d1: "t = put d1 s" "read_at (P + 16 * i) (fst lb) d0 d1" "snd lb = bs @ map (medium d0) [P..<P + 16 * i]"
      using I by blast
    have b: "P + 16 * i + 16 \<le> 16384 * 1024" using Suc.prems(2) that(1) by simp
    obtain l' d' where "read_chunk_ram io lb t = Some (Next (l', snd lb @ map (medium d0) [P + 16 * i..<P + 16 * i + 16]), put d' s)"
      "read_at (P + 16 * i + 16) l' d0 d'"
      using read_chunk_ram [of "P + 16 * i" "fst lb" d0 t "snd lb"] b d1(1,2) by (auto simp: get_put put_put)
    moreover have "[P..<P + 16 * i] @ [P + 16 * i..<P + 16 * i + 16] = [P..<P + 16 * Suc i]"
      using upt_add_eq_append [of P "P + 16 * i" 16] by (simp add: add.commute add.left_commute)
    ultimately show ?thesis using d1(3) by (auto simp flip: map_append simp add: add.commute add.left_commute)
  qed
  have "?I 0 (l, bs) (put d s)" using Suc.prems(1) by auto
  from repeat_flow_inv [where I = ?I and body = "read_chunk_ram io" and n = 32, OF step this]
  obtain lb t where r: "repeat_flow 32 (read_chunk_ram io) (l, bs) (put d s) = Some (Next lb, t)" "?I 32 lb t"
    by blast
  then obtain d1 where d1: "t = put d1 s" "read_at (P + 512) (fst lb) d0 d1" "snd lb = bs @ map (medium d0) [P..<P + 512]"
    by auto
  have "P + 512 + 512 * n \<le> 16384 * 1024" using Suc.prems(2) by simp
  from Suc.IH [OF d1(2) this, of "snd lb"] obtain l' d' where
    "read_ram_loop io n (fst lb, snd lb) (put d1 s) =
       Some (Next (l', snd lb @ map (medium d0) [P + 512..<P + 512 + 512 * n]), put d' s)"
    "read_at (P + 512 + 512 * n) l' d0 d'" by blast
  moreover have "[P..<P + 512] @ [P + 512..<P + 512 + 512 * n] = [P..<P + 512 * Suc n]"
    using upt_add_eq_append [of P "P + 512" "512 * n"] by (simp add: add.assoc)
  ultimately show ?case using r(1) d1 by (cases lb) (auto simp flip: map_append simp add: add.assoc)
qed

end

text \<open>Where a block starts, inside the 32768 blocks of the medium.\<close>

lemma start_location:
  assumes "unat BlockAddress \<le> 32768"
  shows "unat (start_page BlockAddress) = unat BlockAddress div 2"
    "unat (start_byte BlockAddress) = unat BlockAddress mod 2 * 512"
proof -
  let ?b = "unat BlockAddress"
  have m: "unat (BlockAddress * 512) = ?b * 512"
    using assms by (simp add: unat_word_ariths)
  have d: "?b * 512 div 1024 = ?b div 2" "?b * 512 mod 1024 = ?b mod 2 * 512"
    using div_mult_mult2 [of 512 ?b 2] mod_mult_mult2 [of ?b 512 2] by simp_all
  have "unat (BlockAddress * 512 div 1024) = ?b div 2" "unat (BlockAddress * 512 mod 1024) = ?b mod 2 * 512"
    using m d by (simp_all add: unat_div unat_mod)
  then show "unat (start_page BlockAddress) = ?b div 2" "unat (start_byte BlockAddress) = ?b mod 2 * 512"
    using assms by (simp_all add: start_page_def start_byte_def unsigned_ucast_eq take_bit_eq_mod)
qed

context flash_bus
begin

lemma read_start:
  assumes "at_rest (get s)" "unat BlockAddress < 32768"
  shows "\<exists>l d. read_start io BlockAddress s = Some (l, put d s) \<and> read_at (512 * unat BlockAddress) l (get s) d"
proof -
  let ?P = "512 * unat BlockAddress"
  note loc = start_location [of BlockAddress, OF less_imp_le [OF assms(2)]]
  have pb: "unat (start_page BlockAddress) < 16384" "unat (start_byte BlockAddress) < 1024"
    using loc assms(2) by simp_all
  obtain d1 where d1: "page_read_start io (start_page BlockAddress) (start_byte BlockAddress) s = Some (put d1 s)"
    "reading (unat (start_page BlockAddress)) (unat (start_byte BlockAddress)) d1" "same_mem (get s) d1"
    using page_read_start [OF disjI1 [OF assms(1)] pb] by blast
  let ?l = "\<lparr>ReadPage = start_page BlockAddress, ReadByteDiv16 = ucast (drop_bit 4 (start_byte BlockAddress))\<rparr>"
  have div16: "unat (ReadByteDiv16 ?l) = unat BlockAddress mod 2 * 32"
    using loc(2) by (simp add: unat_u8_ucast drop_bit_eq_div unat_div)
  have P: "unat BlockAddress div 2 * 1024 + unat BlockAddress mod 2 * 512 = ?P"
    using div_mult_mod_eq [of "unat BlockAddress" 2] by linarith
  have "read_at ?P ?l (get s) d1"
    using d1(2,3) div16 loc pb(1) P by (simp add: read_at_def mult.commute)
  then show ?thesis using d1(1) by (auto simp: read_start_def)
qed

text \<open>Deselecting both chips ends an open read.\<close>

lemma close_read:
  assumes "read_at P l d0 d"
  shows "at_rest (select_mask 3 d)" "same_mem d0 (select_mask 3 d)"
proof -
  let ?k = "odd (unat (ReadPage l))"
  have r: "reading (unat (ReadPage l)) (16 * unat (ReadByteDiv16 l)) d" "same_mem d0 d"
    using assms by (simp_all add: read_at_def)
  have sel: "sel_only ?k d" using r(1) by (simp add: reading_def)
  have c: "chip (select_mask 3 d) = (chip d)(?k := (chip d ?k)\<lparr>rx := []\<rparr>)"
    using select_none(2) [OF sel] exec_read [OF r(1)] by simp
  have "chip d (\<not> ?k) = (chip d (\<not> ?k))\<lparr>rx := []\<rparr>" using r(1) by (simp add: reading_def)
  then have cj: "chip (select_mask 3 d) j = (chip d j)\<lparr>rx := []\<rparr>" for j
    unfolding c by - (rule all_chips [of "\<lambda>j. ((chip d)(?k := (chip d ?k)\<lparr>rx := []\<rparr>)) j = (chip d j)\<lparr>rx := []\<rparr>" ?k], simp_all)
  show "at_rest (select_mask 3 d)"
    using select_none(1) cj r(1) by (simp add: at_rest_def both_idle_def reading_def)
  show "same_mem d0 (select_mask 3 d)" using cj r(2) by (simp add: same_mem_def)
qed

lemma read_ram_ok:
  assumes "at_rest (get s)" "unat BlockAddress + unat TotalBlocks \<le> 32768" "unat BlockAddress < 32768"
  shows "\<exists>d. DataflashManager_ReadBlocks_RAM io BlockAddress TotalBlocks s =
      Some (map (medium (get s)) [512 * unat BlockAddress..<512 * (unat BlockAddress + unat TotalBlocks)], put d s) \<and>
    at_rest d \<and> same_mem (get s) d"
proof -
  let ?P = "512 * unat BlockAddress" and ?n = "unat TotalBlocks"
  obtain l d1 where l: "read_start io BlockAddress s = Some (l, put d1 s)" "read_at ?P l (get s) d1"
    using read_start [OF assms(1,3)] by blast
  from read_ram_loop [OF l(2), of ?n "[]" s] assms(2) obtain l' d2 where d2:
    "read_ram_loop io ?n (l, []) (put d1 s) = Some (Next (l', map (medium (get s)) [?P..<?P + 512 * ?n]), put d2 s)"
    "read_at (?P + 512 * ?n) l' (get s) d2" by auto
  then have "DataflashManager_ReadBlocks_RAM io BlockAddress TotalBlocks s =
      Some (map (medium (get s)) [?P..<512 * (unat BlockAddress + ?n)], put (select_mask 3 d2) s)"
    using l(1) by (simp add: DataflashManager_ReadBlocks_RAM_def deselect lift_def get_put put_put distrib_left)
  then show ?thesis using close_read [OF d2(2)] by blast
qed

end

end
