(* ===== verification/Flash_Write.thy ===== *)
theory Flash_Write
  imports Flash_Read
begin

text \<open>
  The writing half of \<open>DataflashManager.c\<close> on the two chips: the invariant of a write in progress,
  kept by every byte, page change and commit, across the alternation of chips and buffers.
\<close>

section \<open>The target\<close>

text \<open>\<open>M\<close> with \<open>data\<close> written from position \<open>P\<close> on.\<close>

definition overlay :: "nat \<Rightarrow> u8 list \<Rightarrow> (nat \<Rightarrow> u8) \<Rightarrow> nat \<Rightarrow> u8" where
  "overlay P data M = (\<lambda>L. if P \<le> L \<and> L < P + length data then data ! (L - P) else M L)"

lemma overlay_at: "i < length data \<Longrightarrow> overlay P data M (P + i) = data ! i"
  by (simp add: overlay_def)

lemma overlay_after: "P + length data \<le> L \<Longrightarrow> overlay P data M L = M L"
  by (simp add: overlay_def)

lemma overlay_before: "L < P \<Longrightarrow> overlay P data M L = M L"
  by (simp add: overlay_def)

section \<open>A write in progress\<close>

text \<open>
  The pages before \<open>p\<close> have their target content \<open>T\<close>, the others the initial content \<open>M\<close>; the
  chips' protection is off and no operation lasts longer than a page program.
\<close>

definition pages_ok :: "(nat \<Rightarrow> u8) \<Rightarrow> (nat \<Rightarrow> u8) \<Rightarrow> nat \<Rightarrow> flash \<Rightarrow> bool" where
  "pages_ok T M p d \<longleftrightarrow>
     (\<forall>page. \<forall>j<1024. page_of d page j = (if page < p then T (page * 1024 + j) else M (page * 1024 + j))) \<and>
     (\<forall>k. \<not> prot (chip d k) \<and> busy (chip d k) \<le> t_prog d)"

text \<open>The buffer the next page will use, and that it is not the one the other chip is programming from.\<close>

definition next_buf :: "nat \<Rightarrow> bool \<Rightarrow> bool" where
  "next_buf p b = (if odd p then \<not> b else b)"

definition buf_free :: "bool \<Rightarrow> at45 \<Rightarrow> bool" where
  "buf_free b c \<longleftrightarrow> busy c = 0 \<or> busy_buf c \<noteq> b"

text \<open>The buffer \<open>b\<close> of the page's chip: filled with the target up to \<open>q\<close>, preloaded behind the end \<open>E\<close>.\<close>

definition buf_ok :: "(nat \<Rightarrow> u8) \<Rightarrow> (nat \<Rightarrow> u8) \<Rightarrow> nat \<Rightarrow> nat \<Rightarrow> nat \<Rightarrow> (nat \<Rightarrow> u8) \<Rightarrow> bool" where
  "buf_ok T M E p q buf \<longleftrightarrow>
     (\<forall>j<1024. if j < q then buf j = T (p * 1024 + j) else p * 1024 + j < E \<or> buf j = M (p * 1024 + j))"

definition writing :: "(nat \<Rightarrow> u8) \<Rightarrow> (nat \<Rightarrow> u8) \<Rightarrow> nat \<Rightarrow> nat \<Rightarrow> bool \<Rightarrow> nat \<Rightarrow> flash \<Rightarrow> bool" where
  "writing T M E p b q d \<longleftrightarrow>
     sel_only (odd p) d \<and> pages_ok T M p d \<and> buf_free b (chip d (odd p)) \<and>
     buf_ok T M E p q (sram_buf (chip d (odd p)) b) \<and>
     rx (chip d (even p)) = [] \<and> buf_free (next_buf p b) (chip d (even p)) \<and>
     (\<exists>cmd b1 b2 b3 w. rx (chip d (odd p)) = cmd # b1 # b2 # b3 # w \<and> buffer_cmd cmd = Some b \<and>
        addr_byte b2 b3 + length w = q)"

lemma page_of_upd:
  assumes "\<And>j. page_mem (chip e j) = page_mem (chip d j)"
  shows "page_of e = page_of d"
  using assms by (simp add: page_of_def fun_eq_iff)

lemma later_free: "later c c' \<Longrightarrow> buf_free b c \<Longrightarrow> buf_free b c'"
  by (auto simp: later_def buf_free_def)

lemma writing_byte:
  assumes "writing T M E p b q d" "q < 1024" "x = T (p * 1024 + q)"
  shows "writing T M E p b (Suc q) (xfer x d)"
proof -
  let ?k = "odd p"
  obtain cmd b1 b2 b3 w where rx: "rx (chip d ?k) = cmd # b1 # b2 # b3 # w"
    and w: "buffer_cmd cmd = Some b" "addr_byte b2 b3 + length w = q"
    using assms(1) by (auto simp: writing_def)
  have s: "sel_only ?k d" "pages_ok T M p d" "buf_free b (chip d ?k)" "buf_ok T M E p q (sram_buf (chip d ?k) b)"
    "rx (chip d (\<not> ?k)) = []" "buf_free (next_buf p b) (chip d (\<not> ?k))"
    using assms(1) by (simp_all add: writing_def)
  note t = xfer_one [OF s(1), of x]
  let ?c = "chip d ?k"
  have ck: "chip (xfer x d) ?k = ?c\<lparr>sram_buf := (sram_buf ?c)(b := (sram_buf ?c b)(q := x)),
      rx := rx ?c @ [x], busy := busy ?c - 1\<rparr>"
    using t(3) rx w s(3) assms(2) by (auto simp: chip_in_def chip_tick_def buf_free_def)
  have ok: "later (chip d (\<not> ?k)) (chip (xfer x d) (\<not> ?k))" using t(4) by simp
  have pm: "page_mem (chip (xfer x d) j) = page_mem (chip d j)" for j
    by (rule all_chips [of _ ?k]) (use ck later_sel [OF ok] in simp_all)
  have pb: "\<not> prot (chip (xfer x d) j) \<and> busy (chip (xfer x d) j) \<le> t_prog (xfer x d)" for j
  proof (rule all_chips [of "\<lambda>j. \<not> prot (chip (xfer x d) j) \<and> busy (chip (xfer x d) j) \<le> t_prog (xfer x d)" ?k])
    show "\<not> prot (chip (xfer x d) ?k) \<and> busy (chip (xfer x d) ?k) \<le> t_prog (xfer x d)"
      using ck s(2) by (auto simp: pages_ok_def le_diff_conv intro: le_SucI)
    show "\<not> prot (chip (xfer x d) (\<not> ?k)) \<and> busy (chip (xfer x d) (\<not> ?k)) \<le> t_prog (xfer x d)"
      using later_sel [OF ok] s(2) by (auto simp: pages_ok_def intro: le_trans)
  qed
  have "pages_ok T M p (xfer x d)" using s(2) pb page_of_upd [OF pm] by (simp add: pages_ok_def)
  moreover have "buf_ok T M E p (Suc q) (sram_buf (chip (xfer x d) ?k) b)"
    using s(4) ck assms(3) by (auto simp: buf_ok_def less_Suc_eq)
  moreover have "buf_free b (chip (xfer x d) ?k)" using s(3) ck by (auto simp: buf_free_def)
  moreover have "buf_free (next_buf p b) (chip (xfer x d) (\<not> ?k))" using later_free [OF ok s(6)] .
  moreover have "rx (chip (xfer x d) (\<not> ?k)) = []" using later_sel [OF ok] s(5) by simp
  ultimately show ?thesis
    unfolding writing_def using t(1) ck rx w
    by (auto intro!: exI [of _ cmd] exI [of _ b1] exI [of _ b2] exI [of _ b3] exI [of _ "w @ [x]"])
qed

lemma writing_bytes:
  assumes "writing T M E p b q d" "q + length xs \<le> 1024" "\<And>i. i < length xs \<Longrightarrow> xs ! i = T (p * 1024 + q + i)"
  shows "writing T M E p b (q + length xs) (fold xfer xs d)"
  using assms
proof (induction xs arbitrary: q d)
  case (Cons x xs)
  have "writing T M E p b (Suc q) (xfer x d)"
    using Cons.prems(2) Cons.prems(3) [of 0] by (intro writing_byte [OF Cons.prems(1)]) simp_all
  then have "writing T M E p b (Suc q + length xs) (fold xfer xs (xfer x d))"
    using Cons.prems(2) Cons.prems(3) [of "Suc _"] by (intro Cons.IH) simp_all
  then show ?case by simp
qed simp

section \<open>Committing a page\<close>

text \<open>The program command for page \<open>p\<close> from buffer \<open>b\<close> has been sent and waits for the chip select.\<close>

definition committing :: "(nat \<Rightarrow> u8) \<Rightarrow> (nat \<Rightarrow> u8) \<Rightarrow> nat \<Rightarrow> bool \<Rightarrow> flash \<Rightarrow> bool" where
  "committing T M p b d \<longleftrightarrow>
     sel_only (odd p) d \<and> pages_ok T M p d \<and> busy (chip d (odd p)) = 0 \<and>
     (\<forall>j<1024. sram_buf (chip d (odd p)) b j = T (p * 1024 + j)) \<and>
     rx (chip d (even p)) = [] \<and> buf_free (next_buf p b) (chip d (even p)) \<and>
     (\<exists>b1 b2 b3. rx (chip d (odd p)) =
        [if b then DF_CMD_BUFF2TOMAINMEMWITHERASE else DF_CMD_BUFF1TOMAINMEMWITHERASE, b1, b2, b3] \<and>
        addr_page b1 b2 = p div 2)"

lemma exec_commit:
  assumes "committing T M p b d"
  shows "exec (odd p) d = (chip d (odd p))\<lparr>
    page_mem := (page_mem (chip d (odd p)))(p div 2 := sram_buf (chip d (odd p)) b),
    busy := t_prog d, busy_buf := b, rx := []\<rparr>"
proof -
  obtain b1 b2 b3 where "rx (chip d (odd p)) =
        [if b then DF_CMD_BUFF2TOMAINMEMWITHERASE else DF_CMD_BUFF1TOMAINMEMWITHERASE, b1, b2, b3]"
    "addr_page b1 b2 = p div 2" using assms by (auto simp: committing_def)
  then show ?thesis
    using assms by (cases b) (simp_all add: committing_def pages_ok_def exec_def chip_exec_def Let_def)
qed

text \<open>What a change of the addressed page does to the pages the medium consists of.\<close>

lemma page_of_commit:
  assumes "chip e (odd p) = c\<lparr>rx := r\<rparr>" "page_mem c = (page_mem (chip d (odd p)))(p div 2 := buf)"
    "page_mem (chip e (even p)) = page_mem (chip d (even p))"
  shows "page_of e page = (if page = p then buf else page_of d page)"
proof (cases "odd page = odd p")
  case True
  then have "page div 2 = p div 2 \<longleftrightarrow> page = p"
    by (metis bit_eq_rec even_iff_mod_2_eq_zero mult_div_mod_eq odd_iff_mod_2_eq_one)
  then show ?thesis using True assms by (simp add: page_of_def)
next
  case False
  then show ?thesis using assms by (cases "odd p") (auto simp: page_of_def)
qed

section \<open>Between two pages\<close>

text \<open>The chip of page \<open>p\<close> is selected and expects a command; buffer \<open>b\<close> is the one to use.\<close>

definition page_open :: "(nat \<Rightarrow> u8) \<Rightarrow> (nat \<Rightarrow> u8) \<Rightarrow> nat \<Rightarrow> bool \<Rightarrow> flash \<Rightarrow> bool" where
  "page_open T M p b d \<longleftrightarrow>
     sel_only (odd p) d \<and> pages_ok T M p d \<and> buf_free b (chip d (odd p)) \<and>
     rx (chip d (odd p)) = [] \<and> rx (chip d (even p)) = [] \<and> buf_free (next_buf p b) (chip d (even p))"

lemma pages_ok_step:
  assumes "pages_ok T M p d" "\<And>page. page_of e page = (if page = p then buf else page_of d page)"
    "\<forall>j<1024. buf j = T (p * 1024 + j)" "\<And>k. \<not> prot (chip e k) \<and> busy (chip e k) \<le> t_prog e"
  shows "pages_ok T M (Suc p) e"
  using assms by (auto simp: pages_ok_def less_Suc_eq)

lemma next_buf_Suc: "next_buf (Suc p) (next_buf p b) \<noteq> b"
  by (simp add: next_buf_def)

lemma turn_page:
  assumes "committing T M p b d" "e = go_page (odd (Suc p)) d"
  shows "page_open T M (Suc p) (next_buf p b) e" "t_prog e = t_prog d" "t_load e = t_load d"
proof -
  let ?k = "odd p"
  have s: "sel_only ?k d" "pages_ok T M p d" "\<forall>j<1024. sram_buf (chip d ?k) b j = T (p * 1024 + j)"
    "rx (chip d (\<not> ?k)) = []" "buf_free (next_buf p b) (chip d (\<not> ?k))"
    using assms(1) by (simp_all add: committing_def)
  note g = go_page_one [OF disjI2 [OF s(1)], of "odd (Suc p)", folded assms(2)]
  show "t_prog e = t_prog d" "t_load e = t_load d" using g by simp_all
  have ns: "\<not> none_selected d" using s(1) by (auto simp: none_selected_iff sel_only_def)
  have ck: "chip e ?k = (chip d ?k)\<lparr>page_mem := (page_mem (chip d ?k))(p div 2 := sram_buf (chip d ?k) b),
      busy := t_prog d, busy_buf := b, rx := []\<rparr>"
    using g(2) ns exec_commit [OF assms(1)] by simp
  have co: "chip e (\<not> ?k) = chip d (\<not> ?k)" using g(2) ns by simp
  have pg: "page_of e page = (if page = p then sram_buf (chip d ?k) b else page_of d page)" for page
    by (rule page_of_commit [where c = "chip e ?k" and r = "rx (chip e ?k)"]) (use ck co in simp_all)
  have pb: "\<not> prot (chip e j) \<and> busy (chip e j) \<le> t_prog e" for j
    by (rule all_chips [of "\<lambda>j. \<not> prot (chip e j) \<and> busy (chip e j) \<le> t_prog e" ?k])
       (use ck co s(2) g(4) in \<open>auto simp: pages_ok_def\<close>)
  have "pages_ok T M (Suc p) e" by (rule pages_ok_step [OF s(2) pg s(3) pb])
  moreover have "buf_free (next_buf (Suc p) (next_buf p b)) (chip e ?k)"
    using ck next_buf_Suc [of p b] by (auto simp: buf_free_def)
  ultimately show "page_open T M (Suc p) (next_buf p b) e"
    using g(1) ck co s by (simp add: page_open_def)
qed

text \<open>Opening the buffer write: a command and three address bytes change no buffer.\<close>

lemma open_buffer:
  assumes "page_open T M p b d" "unat byte < 1024" "buffer_cmd cmd = Some b"
    "buf_ok T M E p (unat byte) (sram_buf (chip d (odd p)) b)" "e = fold xfer (cmd # page_bytes 0 byte) d"
  shows "writing T M E p b (unat byte) e" "t_prog e = t_prog d"
proof -
  let ?k = "odd p"
  have s: "sel_only ?k d" "pages_ok T M p d" "buf_free b (chip d ?k)" "rx (chip d ?k) = []"
    "rx (chip d (\<not> ?k)) = []" "buf_free (next_buf p b) (chip d (\<not> ?k))"
    using assms(1) by (simp_all add: page_open_def)
  obtain b1 b2 b3 where b: "page_bytes 0 byte = [b1, b2, b3]" by (simp add: page_bytes_def)
  have dec: "addr_byte b2 b3 = unat byte" using page_bytes_decode [of 0 byte] assms(2) b by simp
  note x = xfers_one [OF s(1), of "cmd # page_bytes 0 byte", folded assms(5)]
  show "t_prog e = t_prog d" using x by simp
  have lk: "later ((chip d ?k)\<lparr>rx := [cmd, b1, b2, b3]\<rparr>) (chip e ?k)"
    using x(2) feed_cmd [OF s(4), of cmd b1 b2 b3] b by simp
  note lk' = later_sel [OF lk] and lo = later_sel [OF x(3)]
  have pm: "page_mem (chip e j) = page_mem (chip d j)" for j
    by (rule all_chips [of "\<lambda>j. page_mem (chip e j) = page_mem (chip d j)" ?k]) (use lk' lo in simp_all)
  have "\<not> prot (chip e j) \<and> busy (chip e j) \<le> t_prog e" for j
    by (rule all_chips [of "\<lambda>j. \<not> prot (chip e j) \<and> busy (chip e j) \<le> t_prog e" ?k])
       (use lk' lo s(2) x(5) in \<open>auto simp: pages_ok_def intro: le_trans\<close>)
  then have "pages_ok T M p e" using s(2) page_of_upd [OF pm] by (simp add: pages_ok_def)
  moreover have "buf_free b (chip e ?k)" using later_free [OF lk] s(3) by (simp add: buf_free_def)
  moreover have "buf_free (next_buf p b) (chip e (\<not> ?k))" using later_free [OF x(3) s(6)] .
  ultimately show "writing T M E p b (unat byte) e"
    using x(1) lk' lo s(5) assms(3,4) dec by (simp add: writing_def)
qed

text \<open>A chip that waits with no command pending only lets time pass.\<close>

lemma exec_nothing: "rx (chip d k) = [] \<Longrightarrow> exec k d = chip d k"
  by (simp add: exec_def chip_exec_def)

lemma exec_writing:
  assumes "writing T M E p b q d"
  shows "exec (odd p) d = (chip d (odd p))\<lparr>rx := []\<rparr>"
proof -
  obtain cmd b1 b2 b3 w where "rx (chip d (odd p)) = cmd # b1 # b2 # b3 # w" "buffer_cmd cmd = Some b"
    using assms by (auto simp: writing_def)
  then show ?thesis
    by (auto simp: exec_def chip_exec_def buffer_cmd_def DF_CMD_SECTORPROTECTIONOFF_def split: if_splits)
qed

text \<open>The buffer is complete at the end of the page, and at the end of the data if it was preloaded.\<close>

lemma buf_complete:
  assumes "buf_ok T M E p q buf" "q = 1024 \<or> E \<le> p * 1024 + q" "\<And>L. E \<le> L \<Longrightarrow> T L = M L"
  shows "\<forall>j<1024. buf j = T (p * 1024 + j)"
proof (intro allI impI)
  fix j :: nat
  assume "j < 1024"
  then show "buf j = T (p * 1024 + j)"
    using assms by (cases "j < q") (auto simp: buf_ok_def split: if_splits)
qed

lemma send_commit:
  assumes "page_open T M p b d" "busy (chip d (odd p)) = 0" "unat page = p" "p < 16384"
    "\<forall>j<1024. sram_buf (chip d (odd p)) b j = T (p * 1024 + j)"
    "e = fold xfer ((if b then DF_CMD_BUFF2TOMAINMEMWITHERASE else DF_CMD_BUFF1TOMAINMEMWITHERASE) # page_bytes page 0) d"
  shows "committing T M p b e" "t_prog e = t_prog d"
proof -
  let ?k = "odd p" and ?cmd = "if b then DF_CMD_BUFF2TOMAINMEMWITHERASE else DF_CMD_BUFF1TOMAINMEMWITHERASE"
  have s: "sel_only ?k d" "pages_ok T M p d" "rx (chip d ?k) = []"
    "rx (chip d (\<not> ?k)) = []" "buf_free (next_buf p b) (chip d (\<not> ?k))"
    using assms(1) by (simp_all add: page_open_def)
  obtain b1 b2 b3 where b: "page_bytes page 0 = [b1, b2, b3]" by (simp add: page_bytes_def)
  have dec: "addr_page b1 b2 = p div 2" using page_bytes_decode [of page 0] assms(3,4) b by simp
  note x = xfers_one [OF s(1), of "?cmd # page_bytes page 0", folded assms(6)]
  show "t_prog e = t_prog d" using x by simp
  have lk: "later ((chip d ?k)\<lparr>rx := [?cmd, b1, b2, b3]\<rparr>) (chip e ?k)"
    using x(2) feed_cmd [OF s(3), of ?cmd b1 b2 b3] b by simp
  note lk' = later_sel [OF lk] and lo = later_sel [OF x(3)]
  have pm: "page_mem (chip e j) = page_mem (chip d j)" for j
    by (rule all_chips [of "\<lambda>j. page_mem (chip e j) = page_mem (chip d j)" ?k]) (use lk' lo in simp_all)
  have "\<not> prot (chip e j) \<and> busy (chip e j) \<le> t_prog e" for j
    by (rule all_chips [of "\<lambda>j. \<not> prot (chip e j) \<and> busy (chip e j) \<le> t_prog e" ?k])
       (use lk' lo s(2) x(5) in \<open>auto simp: pages_ok_def intro: le_trans\<close>)
  then have "pages_ok T M p e" using s(2) page_of_upd [OF pm] by (simp add: pages_ok_def)
  moreover have "buf_free (next_buf p b) (chip e (\<not> ?k))" using later_free [OF x(3) s(5)] .
  ultimately show "committing T M p b e"
    using x(1) lk' lo s(4) assms(2,5) dec by (simp add: committing_def)
qed

lemma page_open_later:
  assumes "sel_only (odd p) d" "sel_only (odd p) e" "pages_ok T M p d"
    "chip e (odd p) = (chip d (odd p))\<lparr>rx := [], busy := 0\<rparr>"
    "chip e (even p) = (chip d (even p))\<lparr>busy := busy (chip d (even p)) - m\<rparr>" "t_prog e = t_prog d"
    "rx (chip d (even p)) = []" "buf_free (next_buf p b) (chip d (even p))"
  shows "page_open T M p b e"
proof -
  have pm: "page_mem (chip e j) = page_mem (chip d j)" for j
    by (rule all_chips [of "\<lambda>j. page_mem (chip e j) = page_mem (chip d j)" "odd p"]) (use assms(4,5) in simp_all)
  have "\<not> prot (chip e j) \<and> busy (chip e j) \<le> t_prog e" for j
    by (rule all_chips [of "\<lambda>j. \<not> prot (chip e j) \<and> busy (chip e j) \<le> t_prog e" "odd p"])
       (use assms(3-6) in \<open>auto simp: pages_ok_def intro: le_trans [OF diff_le_self]\<close>)
  then have "pages_ok T M p e" using assms(3) page_of_upd [OF pm] by (simp add: pages_ok_def)
  then show ?thesis
    using assms by (auto simp: page_open_def buf_free_def)
qed

context flash_bus
begin

lemma wait_open:
  assumes "page_open T M p b (get s) \<or> writing T M E p b q (get s)"
  shows "\<exists>d. Dataflash_WaitWhileBusy io s = Some (put d s) \<and> page_open T M p b d \<and>
    busy (chip d (odd p)) = 0 \<and> sram_buf (chip d (odd p)) = sram_buf (chip (get s) (odd p)) \<and> t_prog d = t_prog (get s)"
proof -
  let ?k = "odd p"
  have s: "sel_only ?k (get s)" "pages_ok T M p (get s)" "rx (chip (get s) (even p)) = []"
    "buf_free (next_buf p b) (chip (get s) (even p))"
    using assms by (auto simp: page_open_def writing_def)
  have e: "exec ?k (get s) = (chip (get s) ?k)\<lparr>rx := []\<rparr>"
    using assms exec_writing exec_nothing [of "get s" ?k] by (auto simp: page_open_def)
  obtain d m where d: "Dataflash_WaitWhileBusy io s = Some (put d s)" "sel_only ?k d"
    "chip d ?k = (exec ?k (get s))\<lparr>busy := 0\<rparr>"
    "chip d (\<not> ?k) = (chip (get s) (\<not> ?k))\<lparr>busy := busy (chip (get s) (\<not> ?k)) - m\<rparr>" "t_prog d = t_prog (get s)"
    using wait_while_busy [OF s(1)] by blast
  have "page_open T M p b d"
    by (rule page_open_later [OF s(1) d(2) s(2) _ _ d(5) s(3,4)]) (use d(3,4) e in simp_all)
  then show ?thesis using d e by auto
qed

lemma page_commit:
  assumes "writing T M E p b q (get s)" "q = 1024 \<or> E \<le> p * 1024 + q" "\<And>L. E \<le> L \<Longrightarrow> T L = M L"
    "unat (CurrDFPage l) = p" "p < 16384" "UsingSecondBuffer l = b"
  shows "\<exists>d. page_commit io l s = Some (put d s) \<and> committing T M p b d \<and> t_prog d = t_prog (get s)"
proof -
  obtain d where d: "Dataflash_WaitWhileBusy io s = Some (put d s)" "page_open T M p b d"
    "busy (chip d (odd p)) = 0" "sram_buf (chip d (odd p)) = sram_buf (chip (get s) (odd p))" "t_prog d = t_prog (get s)"
    using wait_open [OF disjI2 [OF assms(1)]] by blast
  have "\<forall>j<1024. sram_buf (chip d (odd p)) b j = T (p * 1024 + j)"
    unfolding d(4) by (rule buf_complete [of T M E p q]) (use assms(1-3) in \<open>auto simp: writing_def\<close>)
  note c = send_commit [OF d(2,3) assms(4,5) this refl]
  have "page_commit io l s = Some (put (fold xfer ((if b then DF_CMD_BUFF2TOMAINMEMWITHERASE
      else DF_CMD_BUFF1TOMAINMEMWITHERASE) # page_bytes (CurrDFPage l) 0) d) s)"
    using d(1) assms(6) by (simp add: page_commit_def send send_address lift_lift lift_def get_put put_put comp_def)
  then show ?thesis using c d(5) by auto
qed

text \<open>Loading a page into the buffer that will be used for it.\<close>

lemma load_page:
  assumes "page_open T M p b (get s)" "busy (chip (get s) (odd p)) = 0" "unat page = p" "p < 16384"
  shows "\<exists>d. do { s \<leftarrow> Dataflash_SendByte io (if b then DF_CMD_MAINMEMTOBUFF2 else DF_CMD_MAINMEMTOBUFF1) s;
                 s \<leftarrow> Dataflash_SendAddressBytes io page 0 s; Dataflash_WaitWhileBusy io s } = Some (put d s) \<and>
    page_open T M p b d \<and> busy (chip d (odd p)) = 0 \<and> t_prog d = t_prog (get s) \<and>
    (\<forall>j<1024. sram_buf (chip d (odd p)) b j = M (p * 1024 + j))"
proof -
  let ?k = "odd p" and ?d0 = "get s" and ?cmd = "if b then DF_CMD_MAINMEMTOBUFF2 else DF_CMD_MAINMEMTOBUFF1"
  have s: "sel_only ?k ?d0" "pages_ok T M p ?d0" "rx (chip ?d0 ?k) = []" "rx (chip ?d0 (\<not> ?k)) = []"
    "buf_free (next_buf p b) (chip ?d0 (\<not> ?k))"
    using assms(1) by (simp_all add: page_open_def)
  define e where "e = fold xfer (?cmd # page_bytes page 0) ?d0"
  obtain b1 b2 b3 where bs: "page_bytes page 0 = [b1, b2, b3]" by (simp add: page_bytes_def)
  have dec: "addr_page b1 b2 = p div 2" using page_bytes_decode [of page 0] assms(3,4) bs by simp
  note x = xfers_one [OF s(1), of "?cmd # page_bytes page 0", folded e_def]
  have ck: "chip e ?k = (chip ?d0 ?k)\<lparr>rx := [?cmd, b1, b2, b3]\<rparr>"
    using x(2) feed_cmd [OF s(3), of ?cmd b1 b2 b3] bs later_idle assms(2) by fastforce
  have ex: "exec ?k e = (chip ?d0 ?k)\<lparr>sram_buf := (sram_buf (chip ?d0 ?k))(b := page_mem (chip ?d0 ?k) (p div 2)),
      busy := t_load e, busy_buf := b, rx := []\<rparr>"
    using dec assms(2) by (cases b) (simp_all add: exec_def chip_exec_def ck Let_def)
  obtain d m where d: "Dataflash_WaitWhileBusy io (put e s) = Some (put d s)" "sel_only ?k d"
    "chip d ?k = (exec ?k e)\<lparr>busy := 0\<rparr>"
    "chip d (\<not> ?k) = (chip e (\<not> ?k))\<lparr>busy := busy (chip e (\<not> ?k)) - m\<rparr>" "t_prog d = t_prog e"
    using wait_while_busy [of ?k "put e s"] x(1) by (auto simp: get_put put_put)
  let ?m = "(chip ?d0 ?k)\<lparr>sram_buf := sram_buf (chip d ?k), busy_buf := b\<rparr>"
  define d1 where "d1 = ?d0\<lparr>chip := (chip ?d0)(?k := ?m)\<rparr>"
  have lo: "later (chip ?d0 (\<not> ?k)) (chip d (\<not> ?k))"
    using later_trans [OF x(3), of "chip d (\<not> ?k)"] d(4) by (auto simp: later_def)
  then obtain m' where m': "chip d (\<not> ?k) = (chip ?d0 (\<not> ?k))\<lparr>busy := busy (chip ?d0 (\<not> ?k)) - m'\<rparr>"
    by (auto simp: later_def)
  have pd1: "pages_ok T M p d1"
  proof -
    have pm: "page_mem (chip d1 j) = page_mem (chip ?d0 j)" for j by (simp add: d1_def)
    have pr: "prot (chip d1 j) = prot (chip ?d0 j) \<and> busy (chip d1 j) = busy (chip ?d0 j)" for j by (simp add: d1_def)
    show ?thesis using s(2) page_of_upd [OF pm] pr by (simp add: pages_ok_def d1_def)
  qed
  have "page_open T M p b d"
    by (rule page_open_later [of p d1 d T M m' b])
       (use s d(2,3,5) ex x(5) m' pd1 in \<open>simp_all add: d1_def sel_only_def selected_def buf_free_def\<close>)
  moreover have "\<forall>j<1024. sram_buf (chip d ?k) b j = M (p * 1024 + j)"
    using d(3) ex s(2) by (simp add: pages_ok_def page_of_def)
  moreover have "do { s \<leftarrow> Dataflash_SendByte io ?cmd s; s \<leftarrow> Dataflash_SendAddressBytes io page 0 s;
      Dataflash_WaitWhileBusy io s } = Some (put d s)"
    using d(1) by (simp add: send send_address lift_lift comp_def lift_def e_def get_put put_put)
  ultimately show ?thesis using d(3,5) x(5) by auto
qed

lemma page_advance:
  assumes "writing T M E p b 1024 (get s)" "\<And>L. E \<le> L \<Longrightarrow> T L = M L"
    "unat (CurrDFPage l) = p" "Suc p < 16384" "UsingSecondBuffer l = b"
    "E = Suc p * 1024 + 512 * n" "0 < n" "n < 65536"
  shows "\<exists>d. page_advance io (of_nat n) l s =
      Some (\<lparr>CurrDFPage = CurrDFPage l + 1, CurrDFPageByteDiv16 = 0, UsingSecondBuffer = next_buf p b\<rparr>, put d s) \<and>
    page_open T M (Suc p) (next_buf p b) d \<and> t_prog d = t_prog (get s) \<and>
    buf_ok T M E (Suc p) 0 (sram_buf (chip d (odd (Suc p))) (next_buf p b))"
proof -
  let ?b = "next_buf p b" and ?l = "\<lparr>CurrDFPage = CurrDFPage l + 1, CurrDFPageByteDiv16 = 0, UsingSecondBuffer = next_buf p b\<rparr>"
  obtain d1 where d1: "page_commit io l s = Some (put d1 s)" "committing T M p b d1" "t_prog d1 = t_prog (get s)"
    using page_commit [OF assms(1) _ assms(2,3) _ assms(5)] assms(4) by auto
  have p1: "unat (CurrDFPage l + 1) = Suc p" using unat_Suc_lt [of "CurrDFPage l"] assms(3,4) by simp
  have chip: "porte d1 AND 3 = chip_mask (odd p)" using sel_only_porte d1(2) by (auto simp: committing_def)
  define d2 where "d2 = go_page (odd (Suc p)) d1"
  note t = turn_page [OF d1(2) d2_def]
  have sel: "Dataflash_SelectChipFromPage io (CurrDFPage l + 1) (put d1 s) = put d2 s"
    using select_from_page [of "CurrDFPage l + 1" "put d1 s"] p1 assms(4) by (simp add: get_put put_put d2_def)
  have start: "page_advance io (of_nat n) l s =
      do { s \<leftarrow> (if (of_nat n :: u16) * 32 < 64 then
               do {
                 s \<leftarrow> Dataflash_WaitWhileBusy io (put d2 s);
                 s \<leftarrow> Dataflash_SendByte io (if ?b then DF_CMD_MAINMEMTOBUFF2 else DF_CMD_MAINMEMTOBUFF1) s;
                 s \<leftarrow> Dataflash_SendAddressBytes io (CurrDFPage l + 1) 0 s;
                 Dataflash_WaitWhileBusy io s
               } else Some (put d2 s)); Some (?l, s) }"
    using assms(5)
    by (cases l; cases "odd p"; cases b)
       (use d1(1) sel in \<open>simp_all add: page_advance_def get_selected get_put chip Let_def chip_mask_def next_buf_def\<close>)
  show ?thesis
  proof (cases "(of_nat n :: u16) * 32 < 64")
    case True
    obtain d3 where d3: "Dataflash_WaitWhileBusy io (put d2 s) = Some (put d3 s)" "page_open T M (Suc p) ?b d3"
      "busy (chip d3 (odd (Suc p))) = 0" "t_prog d3 = t_prog d2"
      using wait_open [of T M "Suc p" ?b "put d2 s"] t(1) by (auto simp: get_put put_put)
    obtain d4 where d4: "do { s \<leftarrow> Dataflash_SendByte io (if ?b then DF_CMD_MAINMEMTOBUFF2 else DF_CMD_MAINMEMTOBUFF1) (put d3 s);
                 s \<leftarrow> Dataflash_SendAddressBytes io (CurrDFPage l + 1) 0 s; Dataflash_WaitWhileBusy io s } = Some (put d4 s)"
      "page_open T M (Suc p) ?b d4" "t_prog d4 = t_prog d3"
      "\<forall>j<1024. sram_buf (chip d4 (odd (Suc p))) ?b j = M (Suc p * 1024 + j)"
      using load_page [of T M "Suc p" ?b "put d3 s", OF _ _ p1 assms(4)] d3(2,3) by (auto simp: get_put put_put)
    have "buf_ok T M E (Suc p) 0 (sram_buf (chip d4 (odd (Suc p))) ?b)" using d4(4) by (simp add: buf_ok_def)
    then show ?thesis using start True d3(1,4) d4(1-3) t(2) d1(3) by (auto simp: bind_assoc intro!: exI [of _ d4])
  next
    case False
    have "2 \<le> n"
    proof (rule ccontr)
      assume "\<not> 2 \<le> n"
      then have "n = 1" using assms(7) by simp
      then show False using False by simp
    qed
    then have "buf_ok T M E (Suc p) 0 (sram_buf (chip d2 (odd (Suc p))) ?b)"
      using assms(6) by (simp add: buf_ok_def)
    then show ?thesis using start False t d1(3) by auto
  qed
qed

end

section \<open>Start and end of a write\<close>

definition unprotected :: "flash \<Rightarrow> bool" where
  "unprotected d \<longleftrightarrow> (\<forall>k. \<not> prot (chip d k))"

text \<open>The state between two chunks, with the write standing at linear position \<open>P\<close>.\<close>

definition write_at :: "(nat \<Rightarrow> u8) \<Rightarrow> (nat \<Rightarrow> u8) \<Rightarrow> nat \<Rightarrow> nat \<Rightarrow> wloc \<Rightarrow> flash \<Rightarrow> bool" where
  "write_at T M E P l d \<longleftrightarrow>
     writing T M E (unat (CurrDFPage l)) (UsingSecondBuffer l) (16 * unat (CurrDFPageByteDiv16 l)) d \<and>
     unat (CurrDFPage l) * 1024 + 16 * unat (CurrDFPageByteDiv16 l) = P \<and>
     unat (CurrDFPageByteDiv16 l) \<le> 64 \<and> unat (CurrDFPage l) < 16384"

lemma pages_ok_start:
  assumes "\<And>L. L < P \<Longrightarrow> T L = medium d L" "p * 1024 \<le> P" "unprotected d" "both_idle d"
  shows "pages_ok T (medium d) p d"
  unfolding pages_ok_def
proof (intro conjI allI impI)
  fix page j :: nat
  assume j: "j < 1024"
  have "page < p \<Longrightarrow> page * 1024 + j < P" using j assms(2) by simp
  then show "page_of d page j = (if page < p then T (page * 1024 + j) else medium d (page * 1024 + j))"
    using assms(1) medium_page [OF j] by simp
qed (use assms(3,4) in \<open>simp_all add: unprotected_def both_idle_def\<close>)

context flash_bus
begin

lemma write_start:
  assumes "at_rest (get s)" "unprotected (get s)" "unat BlockAddress < 32768" "M = medium (get s)"
    "P = 512 * unat BlockAddress" "\<And>L. L < P \<Longrightarrow> T L = M L"
  shows "\<exists>l d. write_start io BlockAddress s = Some (l, put d s) \<and> write_at T M E P l d \<and>
    \<not> UsingSecondBuffer l \<and> CurrDFPage l = start_page BlockAddress"
proof -
  let ?page = "start_page BlockAddress" and ?byte = "start_byte BlockAddress" and ?d0 = "get s"
  note loc = start_location [of BlockAddress, OF less_imp_le [OF assms(3)]]
  let ?p = "unat ?page" and ?q = "unat ?byte"
  have pb: "?p < 16384" "?q < 1024" using loc assms(3) by simp_all
  have P: "?p * 1024 + ?q = P"
    using div_mult_mod_eq [of "unat BlockAddress" 2] unfolding loc assms(5) by linarith
  define d1 where "d1 = go_page (odd ?p) ?d0"
  have ns: "none_selected ?d0" "both_idle ?d0" "\<And>k. rx (chip ?d0 k) = []" using assms(1) by (simp_all add: at_rest_def)
  note g = go_page_one [OF disjI1 [OF ns(1)], of "odd ?p", folded d1_def]
  have c1: "chip d1 = chip ?d0" using g(2) ns(1) by simp
  have "pages_ok T M ?p ?d0"
    unfolding assms(4) by (rule pages_ok_start [of P]) (use assms(2,4,6) ns(2) P in auto)
  then have "pages_ok T M ?p d1" using c1 g(4) by (simp add: pages_ok_def page_of_def)
  then have o1: "page_open T M ?p False d1"
    using g(1) c1 ns by (simp add: page_open_def buf_free_def both_idle_def)
  have sel: "Dataflash_SelectChipFromPage io ?page s = put d1 s"
    using select_from_page [OF pb(1)] by (simp add: d1_def)
  have b1: "busy (chip d1 (odd ?p)) = 0" using c1 ns(2) by (simp add: both_idle_def)
  obtain d2 where d2: "do { s \<leftarrow> Dataflash_SendByte io DF_CMD_MAINMEMTOBUFF1 (put d1 s);
       s \<leftarrow> Dataflash_SendAddressBytes io ?page 0 s; Dataflash_WaitWhileBusy io s } = Some (put d2 s)"
    "page_open T M ?p False d2" "t_prog d2 = t_prog d1" "\<forall>j<1024. sram_buf (chip d2 (odd ?p)) False j = M (?p * 1024 + j)"
    using load_page [of T M ?p False "put d1 s" ?page] o1 b1 pb(1) by (auto simp: get_put put_put)
  define d3 where "d3 = fold xfer (DF_CMD_BUFF1WRITE # page_bytes 0 ?byte) d2"
  have "buf_ok T M E ?p ?q (sram_buf (chip d2 (odd ?p)) False)"
    using d2(4) assms(6) P by (simp add: buf_ok_def)
  note w = open_buffer [OF d2(2) pb(2) _ this d3_def]
  let ?l = "\<lparr>CurrDFPage = ?page, CurrDFPageByteDiv16 = ucast (drop_bit 4 ?byte), UsingSecondBuffer = False\<rparr>"
  have div16: "16 * unat (ucast (drop_bit 4 ?byte) :: u8) = ?q" "unat (ucast (drop_bit 4 ?byte) :: u8) \<le> 64"
    using loc(2) by (simp_all add: unat_u8_ucast drop_bit_eq_div unat_div)
  have "write_start io BlockAddress s = Some (?l, put d3 s)"
    using d2(1) unfolding write_start_def Let_def sel
    by (auto simp: send send_address lift_lift lift_def get_put put_put comp_def d3_def split: bind_splits)
  moreover have "write_at T M E P ?l d3"
    using w(1) div16 P pb(1) by (simp add: write_at_def buffer_cmd_def)
  ultimately show ?thesis by auto
qed

lemma write_finish:
  assumes "write_at T M E E l (get s)" "\<And>L. E \<le> L \<Longrightarrow> T L = M L"
  shows "\<exists>d. write_finish io l s = Some (put d s) \<and> medium (select_mask 3 d) = T \<and>
    at_rest (select_mask 3 d) \<and> unprotected (select_mask 3 d)"
proof -
  let ?p = "unat (CurrDFPage l)" and ?b = "UsingSecondBuffer l" and ?q = "16 * unat (CurrDFPageByteDiv16 l)"
  have w: "writing T M E ?p ?b ?q (get s)" "?p * 1024 + ?q = E" "?q \<le> 1024" "?p < 16384"
    using assms(1) by (auto simp: write_at_def)
  let ?k = "odd ?p"
  obtain d1 where d1: "page_commit io l s = Some (put d1 s)" "committing T M ?p ?b d1"
    using page_commit [OF w(1) _ assms(2) refl w(4) refl] w(2) by auto
  have s: "sel_only ?k d1" "pages_ok T M ?p d1" "\<forall>j<1024. sram_buf (chip d1 ?k) ?b j = T (?p * 1024 + j)"
    "rx (chip d1 (\<not> ?k)) = []"
    using d1(2) by (simp_all add: committing_def)
  obtain d2 m where d2: "Dataflash_WaitWhileBusy io (put d1 s) = Some (put d2 s)" "sel_only ?k d2"
    "chip d2 ?k = (exec ?k d1)\<lparr>busy := 0\<rparr>" "busy (exec ?k d1) \<le> m"
    "chip d2 (\<not> ?k) = (chip d1 (\<not> ?k))\<lparr>busy := busy (chip d1 (\<not> ?k)) - m\<rparr>" "t_prog d2 = t_prog d1"
    using wait_while_busy [of ?k "put d1 s"] s(1) by (auto simp: get_put put_put)
  note ex = exec_commit [OF d1(2)]
  have idle: "busy (chip d2 j) = 0" for j
    by (rule all_chips [of "\<lambda>j. busy (chip d2 j) = 0" ?k])
       (use d2(3,4,5) ex s(2) in \<open>auto simp: pages_ok_def intro: le_trans\<close>)
  have rx: "rx (chip d2 j) = []" for j
    by (rule all_chips [of "\<lambda>j. rx (chip d2 j) = []" ?k]) (use d2(3,5) ex s(4) in simp_all)
  have pr: "\<not> prot (chip d2 j)" for j
    by (rule all_chips [of "\<lambda>j. \<not> prot (chip d2 j)" ?k]) (use d2(3,5) ex s(2) in \<open>simp_all add: pages_ok_def\<close>)
  let ?d = "select_mask 3 d2"
  have cd: "chip ?d = chip d2" using select_none(2) [OF d2(2)] exec_nothing [of d2 ?k] rx by simp
  have pg: "page_of ?d page = (if page = ?p then sram_buf (chip d1 ?k) ?b else page_of d1 page)" for page
    by (rule page_of_commit [where c = "chip d2 ?k" and r = "rx (chip d2 ?k)"]) (use cd d2(3,5) ex in simp_all)
  have med: "medium ?d L = T L" for L
  proof -
    have j: "L mod 1024 < 1024" "L div 1024 * 1024 + L mod 1024 = L" by simp_all
    consider "L div 1024 < ?p" | "L div 1024 = ?p" | "L div 1024 > ?p" by linarith
    then show ?thesis
    proof cases
      case 3
      then have "Suc ?p * 1024 \<le> L div 1024 * 1024" by (simp only: mult_le_mono1 Suc_leI)
      then have "E \<le> L" using w(2,3) j(2) by simp
      then show ?thesis using 3 pg s(2) j assms(2) by (simp add: medium_def pages_ok_def)
    qed (use pg s(2,3) j in \<open>simp_all add: medium_def pages_ok_def\<close>)
  qed
  have "at_rest ?d" using select_none(1) cd idle rx by (simp add: at_rest_def both_idle_def)
  moreover have "unprotected ?d" using cd pr by (simp add: unprotected_def)
  moreover have "write_finish io l s = Some (put d2 s)" using d1(1) d2(1) by (simp add: write_finish_def)
  ultimately show ?thesis using med by auto
qed

text \<open>One chunk: the page change if the page is full, and sixteen bytes.\<close>

lemma cross_page:
  assumes "write_at T M E P l (get s)" "CurrDFPageByteDiv16 l = 64" "\<And>L. E \<le> L \<Longrightarrow> T L = M L"
    "E + 16 * i = P + 512 * n" "i < 32" "0 < n" "n < 65536" "E mod 512 = 0" "E \<le> 16384 * 1024"
  shows "\<exists>l1 d. page_advance io (of_nat n) l s = Some (l1, put d s) \<and>
    page_open T M (unat (CurrDFPage l1)) (UsingSecondBuffer l1) d \<and>
    buf_ok T M E (unat (CurrDFPage l1)) 0 (sram_buf (chip d (odd (unat (CurrDFPage l1)))) (UsingSecondBuffer l1)) \<and>
    unat (CurrDFPage l1) = Suc (unat (CurrDFPage l)) \<and> unat (CurrDFPage l1) * 1024 = P \<and>
    unat (CurrDFPage l1) < 16384 \<and> CurrDFPageByteDiv16 l1 = 0 \<and>
    UsingSecondBuffer l1 = next_buf (unat (CurrDFPage l)) (UsingSecondBuffer l)"
proof -
  let ?p = "unat (CurrDFPage l)" and ?b = "UsingSecondBuffer l"
  have w: "writing T M E ?p ?b 1024 (get s)" "Suc ?p * 1024 = P" using assms(1,2) by (simp_all add: write_at_def)
  have "(E + 16 * i) mod 512 = P mod 512" using assms(4) by simp
  moreover have "P mod 512 = 0" using w(2) by auto
  ultimately have "i = 0" using assms(5,8) by (auto simp: mod_add_left_eq [of E 512, symmetric])
  then have E: "E = Suc ?p * 1024 + 512 * n" using assms(4) w(2) by simp
  then have p: "Suc ?p < 16384" using assms(6,9) by simp
  obtain d where d: "page_advance io (of_nat n) l s =
      Some (\<lparr>CurrDFPage = CurrDFPage l + 1, CurrDFPageByteDiv16 = 0, UsingSecondBuffer = next_buf ?p ?b\<rparr>, put d s)"
    "page_open T M (Suc ?p) (next_buf ?p ?b) d" 
    "buf_ok T M E (Suc ?p) 0 (sram_buf (chip d (odd (Suc ?p))) (next_buf ?p ?b))"
    using page_advance [OF w(1) assms(3) refl p refl E assms(6,7)] by blast
  have "unat (CurrDFPage l + 1) = Suc ?p" using unat_Suc_lt [of "CurrDFPage l"] p by simp
  then show ?thesis using d p w(2) by (intro exI conjI) (rule d(1), simp_all)
qed

lemma chunk_bytes:
  assumes "write_at T M E P l d" "CurrDFPageByteDiv16 l \<noteq> 64" "length xs = 16" "\<And>i. i < 16 \<Longrightarrow> xs ! i = T (P + i)"
  shows "write_at T M E (P + 16) (l\<lparr>CurrDFPageByteDiv16 := CurrDFPageByteDiv16 l + 1\<rparr>) (fold xfer xs d)"
proof -
  let ?p = "unat (CurrDFPage l)" and ?b = "UsingSecondBuffer l" and ?v = "unat (CurrDFPageByteDiv16 l)"
  have v: "?v < 64" using assms(1,2) by (auto simp: write_at_def word_unat_eq_iff le_less)
  have w: "writing T M E ?p ?b (16 * ?v) d" "?p * 1024 + 16 * ?v = P" "?p < 16384"
    using assms(1) by (simp_all add: write_at_def)
  have "writing T M E ?p ?b (16 * ?v + length xs) (fold xfer xs d)"
    by (rule writing_bytes [OF w(1)]) (use v assms(3,4) w(2) in simp_all)
  then have "writing T M E ?p ?b (16 + 16 * ?v) (fold xfer xs d)" using assms(3) by (simp add: add.commute)
  moreover have "unat (CurrDFPageByteDiv16 l + 1) = Suc ?v" by (rule unat_Suc_lt) (use v in simp)
  ultimately show ?thesis using w(2,3) v by (simp add: write_at_def)
qed

lemma write_at_opened:
  assumes "page_open T M (unat (CurrDFPage l)) (UsingSecondBuffer l) d" "unat (CurrDFPage l) * 1024 = P"
    "buf_ok T M E (unat (CurrDFPage l)) 0 (sram_buf (chip d (odd (unat (CurrDFPage l)))) (UsingSecondBuffer l))"
    "unat (CurrDFPage l) < 16384" "CurrDFPageByteDiv16 l = 0" "buffer_cmd cmd = Some (UsingSecondBuffer l)"
  shows "write_at T M E P l (fold xfer (cmd # page_bytes 0 0) d)"
  using open_buffer(1) [OF assms(1) _ assms(6) _ refl, of 0 E] assms by (simp add: write_at_def)

section \<open>Writing from RAM\<close>

text \<open>
  The RAM variant always writes through buffer 1, so it is followed here as long as the commits
  use buffer 1 too: up to the end of the pair of pages it starts in.
\<close>

lemma reselect_open:
  assumes "page_open T M p b d"
  shows "page_open T M p b (reselect (odd p) d)" "chip (reselect (odd p) d) = chip d"
proof -
  have s: "sel_only (odd p) d" "rx (chip d (odd p)) = []" using assms by (simp_all add: page_open_def)
  have c: "chip (reselect (odd p) d) j = chip d j" for j
    by (rule all_chips [of "\<lambda>j. chip (reselect (odd p) d) j = chip d j" "odd p"])
       (use reselect_one [OF s(1)] exec_nothing [of d "odd p"] s(2) in simp_all)
  then show "chip (reselect (odd p) d) = chip d" by auto
  then show "page_open T M p b (reselect (odd p) d)"
    using assms reselect_one(1) [OF s(1)] by (simp add: page_open_def pages_ok_def page_of_def)
qed

lemma write_chunk_ram:
  assumes "write_at T M E P l (get s)" "\<And>L. E \<le> L \<Longrightarrow> T L = M L"
    "E + 16 * i = P + 512 * n" "i < 32" "0 < n" "n < 65536" "E mod 512 = 0" "E \<le> 16384 * 1024"
    "\<not> UsingSecondBuffer l" "E \<le> 2048 * (unat (CurrDFPage l) div 2 + 1)"
    "16 \<le> length buf" "\<And>j. j < 16 \<Longrightarrow> buf ! j = T (P + j)"
  shows "\<exists>l' d. write_chunk_ram io (of_nat n) (l, buf) s = Some (Next (l', drop 16 buf), put d s) \<and>
    write_at T M E (P + 16) l' d \<and> \<not> UsingSecondBuffer l' \<and> E \<le> 2048 * (unat (CurrDFPage l') div 2 + 1)"
proof -
  have xs: "length (take 16 buf) = 16" "\<And>j. j < 16 \<Longrightarrow> take 16 buf ! j = T (P + j)" using assms(11,12) by simp_all
  show ?thesis
  proof (cases "CurrDFPageByteDiv16 l = 64")
    case False
    then show ?thesis
      using chunk_bytes [OF assms(1) False xs] assms(9,10)
      by (intro exI conjI) (simp add: write_chunk_ram_def send_bytes put_lift, assumption, simp_all)
  next
    case True
    obtain l1 d1 where a: "page_advance io (of_nat n) l s = Some (l1, put d1 s)"
      "page_open T M (unat (CurrDFPage l1)) (UsingSecondBuffer l1) d1"
      "buf_ok T M E (unat (CurrDFPage l1)) 0 (sram_buf (chip d1 (odd (unat (CurrDFPage l1)))) (UsingSecondBuffer l1))"
      "unat (CurrDFPage l1) = Suc (unat (CurrDFPage l))" "unat (CurrDFPage l1) * 1024 = P"
      "unat (CurrDFPage l1) < 16384" "CurrDFPageByteDiv16 l1 = 0"
      "UsingSecondBuffer l1 = next_buf (unat (CurrDFPage l)) (UsingSecondBuffer l)"
      using cross_page [OF assms(1) True assms(2-8)] by blast
    have PE: "P < E" using assms(3-5) by simp
    have ev: "even (unat (CurrDFPage l))"
    proof (rule ccontr)
      assume "odd (unat (CurrDFPage l))"
      then obtain m where "unat (CurrDFPage l) = 2 * m + 1" by (elim oddE)
      then show False using PE assms(10) a(4,5) by simp
    qed
    then have b1: "\<not> UsingSecondBuffer l1" using a(8) assms(9) by (simp add: next_buf_def)
    let ?k = "odd (unat (CurrDFPage l1))"
    let ?r = "reselect ?k d1" and ?cmds = "DF_CMD_BUFF1WRITE # page_bytes 0 0"
    note r = reselect_open [OF a(2)]
    have w: "write_at T M E P l1 (fold xfer ?cmds ?r)"
      by (rule write_at_opened [OF r(1) a(5) _ a(6,7)]) (use a(3) r(2) b1 in \<open>simp_all add: buffer_cmd_def\<close>)
    have sel: "sel_only ?k d1" using a(2) by (simp add: page_open_def)
    have n64: "CurrDFPageByteDiv16 l1 \<noteq> 64" using a(7) by simp
    let ?d = "fold xfer (take 16 buf) (fold xfer ?cmds ?r)"
    have "write_chunk_ram io (of_nat n) (l, buf) s =
        Some (Next (l1\<lparr>CurrDFPageByteDiv16 := CurrDFPageByteDiv16 l1 + 1\<rparr>, drop 16 buf), put ?d s)"
      using True a(1) toggle [of ?k "put d1 s"] sel
      by (simp add: write_chunk_ram_def Let_def get_put put_put send send_address send_bytes lift_lift comp_def lift_def)
    moreover have "E \<le> 2048 * (unat (CurrDFPage l1) div 2 + 1)" using assms(10) a(4) ev by simp
    ultimately show ?thesis using chunk_bytes [OF w n64 xs] b1
      by (intro exI [of _ "l1\<lparr>CurrDFPageByteDiv16 := CurrDFPageByteDiv16 l1 + 1\<rparr>"] exI [of _ ?d]) simp
  qed
qed

lemma write_ram_loop:
  assumes "write_at T M E P l d" "\<And>L. E \<le> L \<Longrightarrow> T L = M L" "E = P + 512 * n" "n < 65536"
    "E mod 512 = 0" "E \<le> 16384 * 1024" "\<not> UsingSecondBuffer l" "E \<le> 2048 * (unat (CurrDFPage l) div 2 + 1)"
    "512 * n \<le> length buf" "\<And>j. j < 512 * n \<Longrightarrow> buf ! j = T (P + j)"
  shows "\<exists>l' d' buf'. write_ram_loop io n (l, buf) (put d s) = Some (Next (l', buf'), put d' s) \<and> write_at T M E E l' d'"
  using assms(1,3,4,7-)
proof (induction n arbitrary: P l d buf)
  case 0
  then show ?case by auto
next
  case (Suc n)
  let ?I = "\<lambda>i lb t. \<exists>d. t = put d s \<and> write_at T M E (P + 16 * i) (fst lb) d \<and> \<not> UsingSecondBuffer (fst lb) \<and>
     E \<le> 2048 * (unat (CurrDFPage (fst lb)) div 2 + 1) \<and> snd lb = drop (16 * i) buf"
  have step: "\<exists>lb' t'. write_chunk_ram io (of_nat (Suc n)) lb t = Some (Next lb', t') \<and> ?I (Suc i) lb' t'"
    if i: "i < 32" and I: "?I i lb t" for i lb t
  proof -
    obtain d1 where d1: "t = put d1 s" "write_at T M E (P + 16 * i) (fst lb) d1" "\<not> UsingSecondBuffer (fst lb)"
      "E \<le> 2048 * (unat (CurrDFPage (fst lb)) div 2 + 1)" "snd lb = drop (16 * i) buf" using I by blast
    have e: "E + 16 * i = P + 16 * i + 512 * Suc n" using Suc.prems(2) by simp
    have len: "16 \<le> length (drop (16 * i) buf)" using Suc.prems(6) i by simp
    have dat: "drop (16 * i) buf ! j = T (P + 16 * i + j)" if "j < 16" for j
      using Suc.prems(6) Suc.prems(7) [of "16 * i + j"] i that by (simp add: add.assoc)
    have "\<exists>l' d'. write_chunk_ram io (of_nat (Suc n)) (fst lb, drop (16 * i) buf) t =
        Some (Next (l', drop 16 (drop (16 * i) buf)), put d' t) \<and> write_at T M E (P + 16 * i + 16) l' d' \<and>
        \<not> UsingSecondBuffer l' \<and> E \<le> 2048 * (unat (CurrDFPage l') div 2 + 1)"
      by (rule write_chunk_ram [OF _ assms(2) e i _ Suc.prems(3) assms(5,6) d1(3,4) len dat])
         (use d1(1,2) in \<open>simp_all add: get_put\<close>)
    then show ?thesis
      using d1(1,5) by (cases lb) (auto simp: put_put add.commute add.left_commute)
  qed
  have "?I 0 (l, buf) (put d s)" using Suc.prems(1,4,5) by auto
  from repeat_flow_inv [where I = ?I and body = "write_chunk_ram io (of_nat (Suc n))" and n = 32, OF step this]
  obtain lb t where r: "repeat_flow 32 (write_chunk_ram io (of_nat (Suc n))) (l, buf) (put d s) = Some (Next lb, t)" "?I 32 lb t"
    by blast
  then obtain d1 where d1: "t = put d1 s" "write_at T M E (P + 512) (fst lb) d1" "\<not> UsingSecondBuffer (fst lb)"
     "E \<le> 2048 * (unat (CurrDFPage (fst lb)) div 2 + 1)" "snd lb = drop 512 buf" by auto
  have "\<exists>l' d' buf'. write_ram_loop io n (fst lb, drop 512 buf) (put d1 s) = Some (Next (l', buf'), put d' s) \<and> write_at T M E E l' d'"
  proof (rule Suc.IH [OF d1(2) _ _ d1(3,4)])
    show "E = P + 512 + 512 * n" "n < 65536" "512 * n \<le> length (drop 512 buf)" using Suc.prems(2,3,6) by simp_all
    show "drop 512 buf ! j = T (P + 512 + j)" if "j < 512 * n" for j
      using Suc.prems(6) Suc.prems(7) [of "512 + j"] that by (simp add: add.assoc)
  qed
  then show ?case using r(1) d1(1,5) by (cases lb) (auto simp del: of_nat_Suc)
qed

lemma write_ram_ok:
  assumes "at_rest (get s)" "unprotected (get s)" "unat BlockAddress < 32768" "length buf = 512 * unat TotalBlocks"
    "unat BlockAddress + unat TotalBlocks \<le> 4 * (unat BlockAddress div 4 + 1)"
  shows "\<exists>d. DataflashManager_WriteBlocks_RAM io BlockAddress TotalBlocks buf s = Some (put d s) \<and>
    at_rest d \<and> unprotected d \<and> medium d = overlay (512 * unat BlockAddress) buf (medium (get s))"
proof -
  let ?P = "512 * unat BlockAddress" and ?n = "unat TotalBlocks" and ?M = "medium (get s)"
  let ?T = "overlay ?P buf ?M" and ?E = "512 * unat BlockAddress + 512 * unat TotalBlocks"
  have after: "?T L = ?M L" if "?E \<le> L" for L using overlay_after [of ?P buf L] assms(4) that by simp
  obtain l d1 where l: "write_start io BlockAddress s = Some (l, put d1 s)" "write_at ?T ?M ?E ?P l d1"
    "\<not> UsingSecondBuffer l" "CurrDFPage l = start_page BlockAddress"
    using write_start [OF assms(1-3) refl refl, of ?T ?E] overlay_before by blast
  have page: "unat (CurrDFPage l) div 2 = unat BlockAddress div 4"
    using start_location(1) [of BlockAddress] assms(3) l(4) by (simp flip: div_mult2_eq)
  have "?E mod 512 = 0" "?E \<le> 16384 * 1024" "?E \<le> 2048 * (unat (CurrDFPage l) div 2 + 1)" "?n < 65536"
    using assms(3,5) page u16_less [of TotalBlocks] less_mult_imp_div_less [of "unat BlockAddress" 8192 4] by simp_all
  note e = this
  obtain l' d2 buf' where d2: "write_ram_loop io ?n (l, buf) (put d1 s) = Some (Next (l', buf'), put d2 s)"
    "write_at ?T ?M ?E ?E l' d2"
    using write_ram_loop [of ?T ?M ?E ?P l d1 ?n buf s, OF l(2) after refl e(4,1,2) l(3) e(3)]
      assms(4) overlay_at [of _ buf ?P ?M] by auto
  obtain d3 where d3: "write_finish io l' (put d2 s) = Some (put d3 s)" "medium (select_mask 3 d3) = ?T"
    "at_rest (select_mask 3 d3)" "unprotected (select_mask 3 d3)"
    using write_finish [of ?T ?M ?E l' "put d2 s"] d2(2) after by (auto simp: get_put put_put)
  show ?thesis
    using l(1) d2(1) d3
    by (intro exI [of _ "select_mask 3 d3"])
       (simp add: DataflashManager_WriteBlocks_RAM_def deselect lift_def get_put put_put)
qed

end

end
