(* ===== verification/Usb_Bulk.thy ===== *)
theory Usb_Bulk
  imports Endpoint
begin

text \<open>
  The environment of the bulk endpoints: the AVR's USB device controller together with a host
  that takes and sends packets.  A released bank comes back after \<open>lat\<close> polls of the status
  register, refilled with the host's next packet (OUT) or empty (IN).  The locale \<open>usb_bus\<close> is the
  contract between the registers and this environment; in it the driver's wait and stream
  functions are shown to move packets between the host and the firmware.
\<close>

section \<open>The controller\<close>

text \<open>
  \<open>queue\<close> holds the packets the host has still to send (OUT) or has received (IN).
\<close>

record bulk =
  ep_in :: bool
  fifo :: "u8 list"
  bank :: bool
  delay :: nat
  queue :: "u8 list list"
  stalled :: bool

record usb =
  uenum :: u8
  ep :: "u8 \<Rightarrow> bulk"
  lat :: nat
  ep_size :: nat
  dev_state :: u8
  ms_reset :: bool
  sof_cnt :: nat
  sof_gap :: nat

definition bank_ready :: "bulk \<Rightarrow> bool" where
  "bank_ready e \<longleftrightarrow> bank e \<and> delay e = 0"

definition flag :: "nat \<Rightarrow> bool \<Rightarrow> u8" where
  "flag n b = (if b then BV n else 0)"

lemma bit_flag [simp]: "bit (flag n b) m \<longleftrightarrow> b \<and> m = n \<and> n < 8"
  by (simp add: flag_def)

definition intx :: "nat \<Rightarrow> bulk \<Rightarrow> u8" where
  "intx sz e = flag FIFOCON (bank_ready e) OR
     (if ep_in e then flag TXINI (bank_ready e) OR flag RWAL (bank_ready e \<and> length (fifo e) < sz)
      else flag RXOUTI (bank_ready e) OR flag RWAL (bank_ready e \<and> fifo e \<noteq> []))"

definition release :: "nat \<Rightarrow> bulk \<Rightarrow> bulk" where
  "release n e =
     (if ep_in e then e\<lparr>fifo := [], delay := n, queue := queue e @ [fifo e]\<rparr>
      else case queue e of
             [] \<Rightarrow> e\<lparr>fifo := [], bank := False\<rparr>
           | p # ps \<Rightarrow> e\<lparr>fifo := p, delay := n, queue := ps\<rparr>)"

definition cur :: "usb \<Rightarrow> bulk" where
  "cur u = ep u (uenum u)"

definition upd_cur :: "(bulk \<Rightarrow> bulk) \<Rightarrow> usb \<Rightarrow> usb" where
  "upd_cur f u = u\<lparr>ep := (ep u)(uenum u := f (cur u))\<rparr>"

text \<open>The byte counter counts the bytes of the bank the firmware has access to.\<close>

definition byte_count :: "bulk \<Rightarrow> nat" where
  "byte_count e = (if bank_ready e then length (fifo e) else 0)"

definition bulk_regs :: "reg set" where
  "bulk_regs = {UEINTX, UEDATX, UECONX, UECFG0X, UEBCLX, UEBCHX}"

definition dev_regs :: "reg set" where
  "dev_regs = {UENUM, UDINT, V_DeviceState, V_IsMassStoreReset}"

definition usb_rd :: "reg \<Rightarrow> usb \<Rightarrow> u8 \<times> usb" where
  "usb_rd r u =
     (if r = UENUM then (uenum u, u)
      else if r = UEINTX then (intx (ep_size u) (cur u), upd_cur (\<lambda>e. e\<lparr>delay := delay e - 1\<rparr>) u)
      else if r = UEDATX then
        (case fifo (cur u) of [] \<Rightarrow> (0, u) | b # bs \<Rightarrow> (b, upd_cur (\<lambda>e. e\<lparr>fifo := bs\<rparr>) u))
      else if r = UECONX then (flag STALLRQ (stalled (cur u)) OR flag EPEN True, u)
      else if r = UECFG0X then (flag EPDIR (ep_in (cur u)), u)
      else if r = UEBCLX then (of_nat (byte_count (cur u)), u)
      else if r = UEBCHX then (of_nat (byte_count (cur u) div 256), u)
      else if r = UDINT then (flag SOFI (sof_cnt u = 0), u\<lparr>sof_cnt := sof_cnt u - 1\<rparr>)
      else if r = V_DeviceState then (dev_state u, u)
      else (if ms_reset u then 1 else 0, u))"

definition usb_wr :: "reg \<Rightarrow> u8 \<Rightarrow> usb \<Rightarrow> usb" where
  "usb_wr r v u =
     (if r = UENUM then u\<lparr>uenum := v AND 7\<rparr>
      else if r = UEINTX then
        (if \<not> bit v FIFOCON \<and> bank_ready (cur u) then upd_cur (release (lat u)) u else u)
      else if r = UEDATX then
        (if ep_in (cur u) \<and> length (fifo (cur u)) < ep_size u
         then upd_cur (\<lambda>e. e\<lparr>fifo := fifo e @ [v]\<rparr>) u else u)
      else if r = UECONX then
        upd_cur (\<lambda>e. e\<lparr>stalled := (bit v STALLRQ \<and> \<not> bit v STALLRQC)\<rparr>) u
      else if r = UECFG0X then upd_cur (\<lambda>e. e\<lparr>ep_in := bit v EPDIR\<rparr>) u
      else if r = UDINT then (if bit v SOFI then u else u\<lparr>sof_cnt := sof_gap u\<rparr>)
      else if r = V_DeviceState then u\<lparr>dev_state := v\<rparr>
      else if r = V_IsMassStoreReset then u\<lparr>ms_reset := (v \<noteq> 0)\<rparr>
      else u)"

lemma cur_upd [simp]: "cur (upd_cur f u) = f (cur u)" "uenum (upd_cur f u) = uenum u"
  "lat (upd_cur f u) = lat u" "ep_size (upd_cur f u) = ep_size u" "dev_state (upd_cur f u) = dev_state u"
  "ms_reset (upd_cur f u) = ms_reset u" "sof_cnt (upd_cur f u) = sof_cnt u" "sof_gap (upd_cur f u) = sof_gap u"
  by (simp_all add: upd_cur_def cur_def)

lemma upd_upd: "upd_cur g (upd_cur f u) = upd_cur (\<lambda>e. g (f e)) u"
  by (simp add: upd_cur_def cur_def)

text \<open>What two states of the controller have in common when only the selected endpoint and the frame counter moved.\<close>

definition usb_frame :: "usb \<Rightarrow> usb \<Rightarrow> bool" where
  "usb_frame u v \<longleftrightarrow> uenum v = uenum u \<and> lat v = lat u \<and> ep_size v = ep_size u \<and> dev_state v = dev_state u \<and>
     ms_reset v = ms_reset u \<and> sof_gap v = sof_gap u \<and> (\<forall>n. n \<noteq> uenum u \<longrightarrow> ep v n = ep u n)"

lemma usb_frame_refl [simp]: "usb_frame u u"
  by (simp add: usb_frame_def)

lemma usb_frame_trans: "usb_frame u v \<Longrightarrow> usb_frame v w \<Longrightarrow> usb_frame u w"
  by (simp add: usb_frame_def)

lemma usb_frame_upd [simp]: "usb_frame u (upd_cur f u)" "usb_frame u (u\<lparr>sof_cnt := n\<rparr>)"
  by (simp_all add: usb_frame_def) (simp add: upd_cur_def)

text \<open>A poll of the status register, and the release of a ready bank.\<close>

definition poll :: "usb \<Rightarrow> usb" where
  "poll u = upd_cur (\<lambda>e. e\<lparr>delay := delay e - 1\<rparr>) u"

definition next_bank :: "usb \<Rightarrow> usb" where
  "next_bank u = upd_cur (release (lat u)) u"

lemma poll_ready: "bank_ready (cur u) \<Longrightarrow> poll u = u"
proof -
  assume "bank_ready (cur u)"
  then have "(cur u)\<lparr>delay := delay (cur u) - 1\<rparr> = cur u" by (cases "cur u") (simp add: bank_ready_def)
  then show "poll u = u" by (simp add: poll_def upd_cur_def cur_def)
qed

text \<open>The device is attached, the endpoint not stalled, and no packet takes longer than the timeout.\<close>

definition attached :: "usb \<Rightarrow> bool" where
  "attached u \<longleftrightarrow> uenum u \<noteq> 0 \<and> dev_state u \<noteq> 0 \<and> lat u \<le> 100 \<and> \<not> stalled (cur u) \<and> delay (cur u) \<le> 100"

lemma count_of_bytes:
  "push_bit 8 (ucast (of_nat (n div 256) :: u8)) OR ucast (of_nat n :: u8) = (of_nat n :: u16)"
proof (rule bit_word_eqI)
  fix m assume "m < LENGTH(16)"
  moreover have d: "n div 256 = drop_bit 8 n" by (simp add: drop_bit_eq_div)
  ultimately show "bit (push_bit 8 (ucast (of_nat (n div 256) :: u8)) OR ucast (of_nat n :: u8) :: u16) m = bit (of_nat n :: u16) m"
    unfolding d by (auto simp: bit_simps)
qed

section \<open>The contract with the registers\<close>

locale usb_bus =
  fixes io :: "'h mmio" and get :: "'h \<Rightarrow> usb" and put :: "usb \<Rightarrow> 'h \<Rightarrow> 'h"
  assumes get_put: "get (put u s) = u"
    and put_put: "put v (put u s) = put v s"
    and put_get: "put (get s) s = s"
    and rd_dev: "r \<in> dev_regs \<Longrightarrow> io_rd io r s = (fst (usb_rd r (get s)), put (snd (usb_rd r (get s))) s)"
    and wr_dev: "r \<in> dev_regs \<Longrightarrow> io_wr io r x s = put (usb_wr r x (get s)) s"
    and rd_bulk: "r \<in> bulk_regs \<Longrightarrow> uenum (get s) \<noteq> 0 \<Longrightarrow>
        io_rd io r s = (fst (usb_rd r (get s)), put (snd (usb_rd r (get s))) s)"
    and wr_bulk: "r \<in> bulk_regs \<Longrightarrow> uenum (get s) \<noteq> 0 \<Longrightarrow> io_wr io r x s = put (usb_wr r x (get s)) s"
begin

lemma rd_intx: "uenum (get s) \<noteq> 0 \<Longrightarrow> io_rd io UEINTX s = (intx (ep_size (get s)) (cur (get s)), put (poll (get s)) s)"
  by (simp add: rd_bulk bulk_regs_def usb_rd_def poll_def)

lemma rwa: "uenum (get s) \<noteq> 0 \<Longrightarrow> Endpoint_IsReadWriteAllowed io s =
   (bank_ready (cur (get s)) \<and> (if ep_in (cur (get s)) then length (fifo (cur (get s))) < ep_size (get s)
      else fifo (cur (get s)) \<noteq> []), put (poll (get s)) s)"
  by (simp add: Endpoint_IsReadWriteAllowed_def test_reg_def rd_intx intx_def bit_or_iff)

lemma in_ready: "uenum (get s) \<noteq> 0 \<Longrightarrow> ep_in (cur (get s)) \<Longrightarrow>
   Endpoint_IsINReady io s = (bank_ready (cur (get s)), put (poll (get s)) s)"
  by (simp add: Endpoint_IsINReady_def test_reg_def rd_intx intx_def bit_or_iff)

lemma out_received: "uenum (get s) \<noteq> 0 \<Longrightarrow> \<not> ep_in (cur (get s)) \<Longrightarrow>
   Endpoint_IsOUTReceived io s = (bank_ready (cur (get s)), put (poll (get s)) s)"
  by (simp add: Endpoint_IsOUTReceived_def test_reg_def rd_intx intx_def bit_or_iff)

lemma dir: "uenum (get s) \<noteq> 0 \<Longrightarrow> Endpoint_IsDirIN io s = (ep_in (cur (get s)), s)"
  by (simp add: Endpoint_IsDirIN_def test_reg_def rd_bulk bulk_regs_def usb_rd_def put_get)

lemma stall: "uenum (get s) \<noteq> 0 \<Longrightarrow> Endpoint_IsStalled io s = (stalled (cur (get s)), s)"
  by (simp add: Endpoint_IsStalled_def test_reg_def rd_bulk bulk_regs_def usb_rd_def put_get bit_or_iff)

lemma dev_state: "device_state_is io x s = (dev_state (get s) = x, s)"
  by (simp add: device_state_is_def rd_dev dev_regs_def usb_rd_def put_get)

lemma reset_flag: "io_rd io V_IsMassStoreReset s = (if ms_reset (get s) then 1 else 0, s)"
  by (simp add: rd_dev dev_regs_def usb_rd_def put_get)

lemma clear_bank:
  assumes "uenum (get s) \<noteq> 0" "bank_ready (cur (get s))"
  shows "Endpoint_ClearOUT io s = put (next_bank (get s)) s" "Endpoint_ClearIN io s = put (next_bank (get s)) s"
  using assms poll_ready [OF assms(2)]
  by (auto simp: Endpoint_ClearOUT_def Endpoint_ClearIN_def rd_intx wr_bulk bulk_regs_def usb_wr_def get_put put_put
      next_bank_def intx_def bit_or_iff)

lemma bytes_in:
  assumes "uenum (get s) \<noteq> 0"
  shows "Endpoint_BytesInEndpoint io s = (of_nat (byte_count (cur (get s))), s)"
  using assms by (simp add: Endpoint_BytesInEndpoint_def rd_bulk bulk_regs_def usb_rd_def put_get count_of_bytes)

lemma sof:
  "USB_INT_HasOccurred_SOFI io s = (sof_cnt (get s) = 0, put ((get s)\<lparr>sof_cnt := sof_cnt (get s) - 1\<rparr>) s)"
  "USB_INT_Clear_SOFI io s = put ((get s)\<lparr>sof_cnt := sof_gap (get s)\<rparr>) s"
  by (simp_all add: USB_INT_HasOccurred_SOFI_def USB_INT_Clear_SOFI_def test_reg_def clr_reg_def rd_dev wr_dev
      dev_regs_def usb_rd_def usb_wr_def get_put put_put)

text \<open>One round of the wait loop in terms of the controller.\<close>

definition wait_round_spec :: "nat \<Rightarrow> usb \<Rightarrow> (ep_error, nat) flow \<times> usb" where
  "wait_round_spec t u =
     (let e = cur u; u = poll u in
      if bank_ready e then (Return EP_NoError, u)
      else if dev_state u = 0 then (Return EP_DeviceDisconnected, u)
      else if stalled e then (Return EP_EndpointStalled, u)
      else if sof_cnt u = 0 then
        (if t = 0 then Return EP_Timeout else Next (t - 1), u\<lparr>sof_cnt := sof_gap u\<rparr>)
      else (Next t, u\<lparr>sof_cnt := sof_cnt u - 1\<rparr>))"

lemma poll_sel [simp]: "uenum (poll u) = uenum u" "dev_state (poll u) = dev_state u" "sof_cnt (poll u) = sof_cnt u"
  "cur (poll u) = (cur u)\<lparr>delay := delay (cur u) - 1\<rparr>" "lat (poll u) = lat u" "ep_size (poll u) = ep_size u"
  "ms_reset (poll u) = ms_reset u" "sof_gap (poll u) = sof_gap u"
  by (simp_all add: poll_def)

lemma cur_sof [simp]: "cur (u\<lparr>sof_cnt := n\<rparr>) = cur u"
  by (simp add: cur_def)

lemma wait_round:
  assumes "uenum (get s) \<noteq> 0"
  shows "wait_round io t s = (fst (wait_round_spec t (get s)), put (snd (wait_round_spec t (get s))) s)"
  using assms
  by (simp add: wait_round_def wait_round_spec_def Let_def dir in_ready out_received get_put put_put dev_state
      stall sof split: prod.splits)

text \<open>
  The wait always ends, because every round either sees a frame, of which the timeout counts 101,
  or uses up part of the time to the next one.
\<close>

definition wait_post :: "nat \<Rightarrow> usb \<Rightarrow> ep_error \<Rightarrow> usb \<Rightarrow> bool" where
  "wait_post t u e v \<longleftrightarrow> usb_frame u v \<and> (\<exists>d. cur v = (cur u)\<lparr>delay := d\<rparr>) \<and>
     (e = EP_NoError \<longrightarrow> bank (cur u) \<and> cur v = (cur u)\<lparr>delay := 0\<rparr>) \<and>
     (e = EP_DeviceDisconnected \<longrightarrow> dev_state u = 0) \<and>
     (e = EP_EndpointStalled \<longrightarrow> stalled (cur u)) \<and>
     (e = EP_Timeout \<longrightarrow> \<not> (bank (cur u) \<and> delay (cur u) \<le> t)) \<and> e \<noteq> EP_CallbackAborted"

lemma frame_poll: "usb_frame u (poll u)" "usb_frame u ((poll u)\<lparr>sof_cnt := n\<rparr>)"
  by (simp_all add: poll_def) (rule usb_frame_trans [of _ "poll u"], simp_all add: poll_def)

lemma wait_post_step:
  assumes "wait_round_spec t u = (Next t', u')" "wait_post t' u' e v"
  shows "wait_post t u e v"
proof -
  have f: "usb_frame u u'" "cur u' = (cur u)\<lparr>delay := delay (cur u) - 1\<rparr>" "\<not> bank_ready (cur u)" "dev_state u' = dev_state u"
    "t \<le> Suc t'" 
    using assms(1) by (auto simp: wait_round_spec_def Let_def frame_poll split: if_splits)
  have "bank (cur u) \<Longrightarrow> 0 < delay (cur u)" using f(3) by (simp add: bank_ready_def)
  then show ?thesis
    using assms(2) f usb_frame_trans [OF f(1)] by (auto simp: wait_post_def)
qed

lemma wait_post_return:
  assumes "wait_round_spec t u = (Return e, v)"
  shows "wait_post t u e v"
  using assms
  by (auto simp: wait_round_spec_def Let_def wait_post_def frame_poll bank_ready_def
      split: if_splits)

lemma wait_ends:
  assumes "uenum (get s) \<noteq> 0"
  shows "\<exists>e v. wait_loop io t s = Some (e, put v s) \<and> wait_post t (get s) e v"
  using assms
proof (induction "(t, sof_cnt (get s))" arbitrary: t s rule: wf_induct_rule [OF wf_lex_prod [OF wf_less wf_less]])
  case 1
  note r = wait_round [OF 1(2), of t]
  show ?case
  proof (cases "wait_round_spec t (get s)")
    case (Pair f u)
    show ?thesis
    proof (cases f)
      case (Return e)
      then have "wait_loop io t s = Some (e, put u s)"
        using r Pair by (subst wait_loop.simps) simp
      then show ?thesis using wait_post_return Pair Return by blast
    next
      case (Next t')
      have "t' < t \<or> t' = t \<and> sof_cnt u < sof_cnt (get s)" "uenum u = uenum (get s)"
        using Pair Next by (auto simp: wait_round_spec_def Let_def split: if_splits)
      then have "((t', sof_cnt (get (put u s))), (t, sof_cnt (get s))) \<in> {(x, y). x < y} <*lex*> {(x, y). x < y}"
        "uenum (get (put u s)) \<noteq> 0"
        using 1(2) by (auto simp: get_put)
      from 1(1) [OF this] obtain e v where "wait_loop io t' (put u s) = Some (e, put v s)" "wait_post t' u e v"
        by (auto simp: get_put put_put)
      moreover have "wait_loop io t s = wait_loop io t' (put u s)"
        using r Pair Next by (subst wait_loop.simps) simp
      ultimately show ?thesis using wait_post_step Pair Next by metis
    qed
  qed
qed

lemma wait_ready:
  assumes "attached (get s)" "bank (cur (get s))"
  shows "\<exists>v. Endpoint_WaitUntilReady io s = Some (EP_NoError, put v s) \<and> usb_frame (get s) v \<and>
    cur v = (cur (get s))\<lparr>delay := 0\<rparr>"
proof -
  obtain e v where "Endpoint_WaitUntilReady io s = Some (e, put v s)" "wait_post 100 (get s) e v"
    using wait_ends [of s 100] assms(1) by (auto simp: attached_def Endpoint_WaitUntilReady_def)
  moreover have "e = EP_NoError"
    using calculation(2) assms by (cases e) (auto simp: wait_post_def attached_def)
  ultimately show ?thesis by (auto simp: wait_post_def)
qed

end

section \<open>Streams\<close>

lemma cur_select [simp]: "cur (u\<lparr>uenum := n\<rparr>) = ep u n"
  by (simp add: cur_def)

lemma selected_again [simp]: "uenum u = n \<Longrightarrow> u\<lparr>uenum := n\<rparr> = u"
  by (cases u) simp

text \<open>What the host has received or will receive from the bank, and what the firmware has still to read.\<close>

definition sent :: "usb \<Rightarrow> u8 list" where
  "sent u = concat (queue (cur u)) @ fifo (cur u)"

definition avail :: "usb \<Rightarrow> u8 list" where
  "avail u = fifo (cur u) @ concat (queue (cur u))"

definition in_open :: "usb \<Rightarrow> bool" where
  "in_open u \<longleftrightarrow> attached u \<and> ep_in (cur u) \<and> bank_ready (cur u) \<and> 0 < ep_size u \<and> length (fifo (cur u)) \<le> ep_size u"

definition out_open :: "usb \<Rightarrow> bool" where
  "out_open u \<longleftrightarrow> attached u \<and> \<not> ep_in (cur u) \<and> bank_ready (cur u)"

lemma frame_cur: "usb_frame u v \<Longrightarrow> uenum v = uenum u \<and> lat v = lat u \<and> ep_size v = ep_size u \<and>
   dev_state v = dev_state u \<and> ms_reset v = ms_reset u"
  by (simp add: usb_frame_def)

context usb_bus
begin

text \<open>A callback that does not abort as long as no reset request has arrived.\<close>

definition calm :: "'h callback \<Rightarrow> 'h \<Rightarrow> bool" where
  "calm Callback s \<longleftrightarrow> (\<forall>v. ms_reset v = ms_reset (get s) \<longrightarrow>
     (case Callback of None \<Rightarrow> True | Some cb \<Rightarrow> cb (put v s) = (False, put v s)))"

lemma calm_put: "calm cb s \<Longrightarrow> ms_reset v = ms_reset (get s) \<Longrightarrow> calm cb (put v s)"
  by (cases cb) (simp_all add: calm_def get_put put_put)

lemma calm_None [simp]: "calm None s"
  by (simp add: calm_def)

lemma stream_next:
  assumes "calm cb s" "clear = Endpoint_ClearIN io \<or> clear = Endpoint_ClearOUT io"
    "attached (get s)" "bank_ready (cur (get s))" "bank (release (lat (get s)) (cur (get s)))"
  shows "\<exists>v. stream_next_bank io cb clear s = Some (EP_NoError, put v s) \<and> usb_frame (get s) v \<and>
    cur v = (release (lat (get s)) (cur (get s)))\<lparr>delay := 0\<rparr>"
proof -
  let ?n = "next_bank (get s)"
  have u: "uenum (get s) \<noteq> 0" using assms(3) by (simp add: attached_def)
  have c: "clear s = put ?n s" using assms(2) clear_bank [OF u assms(4)] by auto
  have rel: "stalled (release n e) = stalled e" "delay (release n e) \<le> n \<or> delay (release n e) = delay e" for n e
    by (auto simp: release_def split: list.split)
  have n: "attached ?n" "bank (cur ?n)" "usb_frame (get s) ?n"
    using assms(3,5) rel [of "lat (get s)" "cur (get s)"] by (auto simp: attached_def next_bank_def)
  obtain v where v: "Endpoint_WaitUntilReady io (put ?n s) = Some (EP_NoError, put v s)" "usb_frame ?n v"
    "cur v = (cur ?n)\<lparr>delay := 0\<rparr>"
    using wait_ready [of "put ?n s"] n(1,2) by (auto simp: get_put put_put)
  have "(case cb of None \<Rightarrow> (False, put ?n s) | Some f \<Rightarrow> f (put ?n s)) = (False, put ?n s)"
    using assms(1) frame_cur [OF n(3)] by (auto simp: calm_def split: option.split)
  then have "stream_next_bank io cb clear s = Some (EP_NoError, put v s)"
    using v(1) by (simp add: stream_next_bank_def c)
  moreover have "usb_frame (get s) v" using n(3) v(2) usb_frame_trans by blast
  ultimately show ?thesis using v(3) by (auto simp: next_bank_def)
qed

lemma select: "n \<le> 7 \<Longrightarrow> Endpoint_SelectEndpoint io n s = put ((get s)\<lparr>uenum := n\<rparr>) s"
  by (simp add: Endpoint_SelectEndpoint_def wr_dev dev_regs_def usb_wr_def and_7)

lemma put_byte:
  assumes "in_open (get s)" "length (fifo (cur (get s))) < ep_size (get s)"
  shows "Endpoint_IsReadWriteAllowed io s = (True, s)"
    "Endpoint_Write_Byte io b s = put (upd_cur (\<lambda>e. e\<lparr>fifo := fifo e @ [b]\<rparr>) (get s)) s"
  using assms
  by (simp_all add: in_open_def attached_def rwa poll_ready put_get Endpoint_Write_Byte_def wr_bulk bulk_regs_def usb_wr_def)

lemma write_loop:
  assumes "in_open (get s)" "calm cb s"
  shows "\<exists>v. write_stream_loop io cb bytes s = Some (EP_NoError, put v s) \<and> usb_frame (get s) v \<and> in_open v \<and>
    sent v = sent (get s) @ bytes \<and>
    (\<exists>ps. queue (cur v) = queue (cur (get s)) @ ps \<and> (\<forall>p\<in>set ps. length p = ep_size (get s)))"
  using assms
proof (induction bytes arbitrary: s)
  case Nil
  then show ?case
    by (subst write_stream_loop.simps) (auto simp: put_get intro!: exI [of _ "get s"])
next
  case (Cons b bytes)
  have step: "\<exists>v. write_stream_loop io cb (b # bytes) t = Some (EP_NoError, put v t) \<and> usb_frame (get t) v \<and> in_open v \<and>
      sent v = sent (get t) @ b # bytes \<and>
      (\<exists>ps. queue (cur v) = queue (cur (get t)) @ ps \<and> (\<forall>p\<in>set ps. length p = ep_size (get t)))"
    if t: "in_open (get t)" "calm cb t" "length (fifo (cur (get t))) < ep_size (get t)" for t
  proof -
    let ?u = "upd_cur (\<lambda>e. e\<lparr>fifo := fifo e @ [b]\<rparr>) (get t)"
    have io: "in_open ?u" using t(1,3) by (simp add: in_open_def attached_def bank_ready_def)
    have "calm cb (put ?u t)" using t(2) by (rule calm_put) simp
    from Cons.IH [of "put ?u t"] io this obtain v where
      "write_stream_loop io cb bytes (put ?u t) = Some (EP_NoError, put v t)" "usb_frame ?u v" "in_open v"
      "sent v = sent ?u @ bytes" "\<exists>ps. queue (cur v) = queue (cur ?u) @ ps \<and> (\<forall>p\<in>set ps. length p = ep_size ?u)"
      by (auto simp: get_put put_put)
    then show ?thesis
      using put_byte [OF t(1,3)] usb_frame_trans [of "get t" ?u]
      by (subst write_stream_loop.simps) (auto simp: sent_def)
  qed
  show ?case
  proof (cases "length (fifo (cur (get s))) < ep_size (get s)")
    case True
    then show ?thesis using step Cons.prems by blast
  next
    case False
    let ?e = "cur (get s)"
    have s: "attached (get s)" "ep_in ?e" "bank_ready ?e" "length (fifo ?e) = ep_size (get s)" "0 < ep_size (get s)"
      using Cons.prems(1) False by (auto simp: in_open_def)
    obtain v where v: "stream_next_bank io cb (Endpoint_ClearIN io) s = Some (EP_NoError, put v s)" "usb_frame (get s) v"
      "cur v = (release (lat (get s)) ?e)\<lparr>delay := 0\<rparr>"
      using stream_next [OF Cons.prems(2) disjI1 [OF refl] s(1,3)] s(2,3) by (auto simp: release_def bank_ready_def)
    have cv: "cur v = ?e\<lparr>fifo := [], delay := 0, queue := queue ?e @ [fifo ?e]\<rparr>" using v(3) s(2) by (simp add: release_def)
    note fv = frame_cur [OF v(2)]
    have iv: "in_open v" using cv fv s by (simp add: in_open_def attached_def bank_ready_def)
    have "length (fifo (cur v)) < ep_size v" using cv fv s(5) by simp
    from step [of "put v s"] iv this calm_put [OF Cons.prems(2)] fv obtain w where w:
      "write_stream_loop io cb (b # bytes) (put v s) = Some (EP_NoError, put w s)" "usb_frame v w" "in_open w"
      "sent w = sent v @ b # bytes"
      "\<exists>ps. queue (cur w) = queue (cur v) @ ps \<and> (\<forall>p\<in>set ps. length p = ep_size v)"
      by (auto simp: get_put put_put)
    have na: "Endpoint_IsReadWriteAllowed io s = (False, s)"
      using s by (simp add: attached_def rwa poll_ready put_get)
    have "write_stream_loop io cb (b # bytes) s = Some (EP_NoError, put w s)"
      using w(1) by (subst write_stream_loop.simps) (simp add: na v(1))
    moreover have "sent v = sent (get s)" using cv by (simp add: sent_def)
    moreover have "\<exists>ps. queue (cur w) = queue ?e @ ps \<and> (\<forall>p\<in>set ps. length p = ep_size (get s))"
      using w(5) cv fv s(4) by auto
    ultimately show ?thesis using w(2-4) usb_frame_trans [OF v(2)] by auto
  qed
qed

lemma write_stream:
  assumes "attached (get s)" "ep_in (cur (get s))" "bank (cur (get s))" "0 < ep_size (get s)"
    "length (fifo (cur (get s))) \<le> ep_size (get s)" "calm cb s"
  shows "\<exists>v. Endpoint_Write_Stream_LE io cb bytes s = Some (EP_NoError, put v s) \<and> usb_frame (get s) v \<and> in_open v \<and>
    sent v = sent (get s) @ bytes \<and>
    (\<exists>ps. queue (cur v) = queue (cur (get s)) @ ps \<and> (\<forall>p\<in>set ps. length p = ep_size (get s)))"
proof -
  obtain v where v: "Endpoint_WaitUntilReady io s = Some (EP_NoError, put v s)" "usb_frame (get s) v"
    "cur v = (cur (get s))\<lparr>delay := 0\<rparr>" using wait_ready [OF assms(1,3)] by blast
  note fv = frame_cur [OF v(2)]
  have "in_open v" using assms v(3) fv by (simp add: in_open_def attached_def bank_ready_def)
  from write_loop [of "put v s" cb bytes] this fv calm_put [OF assms(6), of v] obtain w where
    "write_stream_loop io cb bytes (put v s) = Some (EP_NoError, put w s)" "usb_frame v w" "in_open w"
    "sent w = sent v @ bytes"
    "\<exists>ps. queue (cur w) = queue (cur v) @ ps \<and> (\<forall>p\<in>set ps. length p = ep_size v)"
    by (auto simp: get_put put_put)
  then show ?thesis
    using v fv usb_frame_trans [OF v(2)]
    by (auto simp: Endpoint_Write_Stream_LE_def Endpoint_Write_Stream_def sent_def)
qed

lemma get_byte:
  assumes "out_open (get s)" "fifo (cur (get s)) = b # bs"
  shows "Endpoint_IsReadWriteAllowed io s = (True, s)"
    "Endpoint_Read_Byte io s = (b, put (upd_cur (\<lambda>e. e\<lparr>fifo := bs\<rparr>) (get s)) s)"
  using assms
  by (simp_all add: out_open_def attached_def rwa poll_ready put_get Endpoint_Read_Byte_def rd_bulk bulk_regs_def usb_rd_def)

lemma next_out:
  assumes "out_open (get s)" "fifo (cur (get s)) = []" "avail (get s) \<noteq> []" "calm cb s"
  shows "\<exists>v p ps. stream_next_bank io cb (Endpoint_ClearOUT io) s = Some (EP_NoError, put v s) \<and>
    usb_frame (get s) v \<and> out_open v \<and> avail v = avail (get s) \<and> queue (cur (get s)) = p # ps \<and>
    fifo (cur v) = p \<and> queue (cur v) = ps"
proof -
  let ?e = "cur (get s)"
  obtain p ps where q: "queue ?e = p # ps" using assms(2,3) by (cases "queue ?e") (auto simp: avail_def)
  have s: "attached (get s)" "\<not> ep_in ?e" "bank_ready ?e" using assms(1) by (simp_all add: out_open_def)
  obtain v where v: "stream_next_bank io cb (Endpoint_ClearOUT io) s = Some (EP_NoError, put v s)" "usb_frame (get s) v"
    "cur v = (release (lat (get s)) ?e)\<lparr>delay := 0\<rparr>"
    using stream_next [OF assms(4) disjI2 [OF refl] s(1,3)] s(2,3) q by (auto simp: release_def bank_ready_def)
  have cv: "cur v = ?e\<lparr>fifo := p, delay := 0, queue := ps\<rparr>" using v(3) s(2) q by (simp add: release_def)
  have "out_open v" using cv frame_cur [OF v(2)] s by (simp add: out_open_def attached_def bank_ready_def)
  moreover have "avail v = avail (get s)" using cv q assms(2) by (simp add: avail_def)
  ultimately show ?thesis using v(1,2) q cv by auto
qed

lemma read_loop:
  assumes "out_open (get s)" "calm cb s" "n \<le> length (avail (get s))"
  shows "\<exists>v. read_stream_loop io cb n got s = Some (EP_NoError, got @ take n (avail (get s)), put v s) \<and>
    usb_frame (get s) v \<and> out_open v \<and> avail v = drop n (avail (get s))"
  using assms
proof (induction "(n, length (queue (cur (get s))))" arbitrary: n got s rule: wf_induct_rule [OF wf_lex_prod [OF wf_less wf_less]])
  case 1
  note IH = 1(1)
  show ?case
  proof (cases n)
    case 0
    then show ?thesis
      using 1(2) by (subst read_stream_loop.simps) (auto simp: put_get intro!: exI [of _ "get s"])
  next
    case (Suc m)
    show ?thesis
    proof (cases "fifo (cur (get s))")
      case (Cons b bs)
      let ?u = "upd_cur (\<lambda>e. e\<lparr>fifo := bs\<rparr>) (get s)"
      note g = get_byte [OF 1(2) Cons]
      have u: "out_open ?u" using 1(2) by (simp add: out_open_def attached_def bank_ready_def)
      have a: "avail (get s) = b # avail ?u" using Cons by (simp add: avail_def)
      have c: "calm cb (put ?u s)" using 1(3) by (rule calm_put) simp
      have "\<exists>v. read_stream_loop io cb m (got @ [b]) (put ?u s) =
          Some (EP_NoError, (got @ [b]) @ take m (avail ?u), put v s) \<and> usb_frame ?u v \<and> out_open v \<and>
          avail v = drop m (avail ?u)"
        using IH [of m "put ?u s" "got @ [b]"] Suc u c 1(4) a by (auto simp: get_put put_put)
      then show ?thesis
        using g Suc a usb_frame_trans [of "get s" ?u] by (subst read_stream_loop.simps) auto
    next
      case Nil
      have av: "avail (get s) \<noteq> []" using 1(4) Suc by auto
      obtain v p ps where v: "stream_next_bank io cb (Endpoint_ClearOUT io) s = Some (EP_NoError, put v s)"
        "usb_frame (get s) v" "out_open v" "avail v = avail (get s)" "queue (cur (get s)) = p # ps"
        "fifo (cur v) = p" "queue (cur v) = ps"
        using next_out [OF 1(2) Nil av 1(3)] by blast
      have c: "calm cb (put v s)" using 1(3) by (rule calm_put) (simp add: frame_cur [OF v(2)])
      have na: "Endpoint_IsReadWriteAllowed io s = (False, s)"
        using 1(2) Nil by (simp add: out_open_def attached_def rwa poll_ready put_get)
      have "\<exists>w. read_stream_loop io cb n got (put v s) = Some (EP_NoError, got @ take n (avail v), put w s) \<and>
          usb_frame v w \<and> out_open w \<and> avail w = drop n (avail v)"
        using IH [of n "put v s" got] v c 1(4) by (auto simp: get_put put_put)
      then show ?thesis
        using na v(1,2,4) Suc usb_frame_trans [OF v(2)] by (subst read_stream_loop.simps) auto
    qed
  qed
qed

lemma read_stream:
  assumes "attached (get s)" "\<not> ep_in (cur (get s))" "bank (cur (get s))" "calm cb s" "n \<le> length (avail (get s))"
  shows "\<exists>v. Endpoint_Read_Stream_LE io cb n s = Some (EP_NoError, take n (avail (get s)), put v s) \<and>
    usb_frame (get s) v \<and> out_open v \<and> avail v = drop n (avail (get s))"
proof -
  obtain v where v: "Endpoint_WaitUntilReady io s = Some (EP_NoError, put v s)" "usb_frame (get s) v"
    "cur v = (cur (get s))\<lparr>delay := 0\<rparr>" using wait_ready [OF assms(1,3)] by blast
  note fv = frame_cur [OF v(2)]
  have o: "out_open v" using assms v(3) fv by (simp add: out_open_def attached_def bank_ready_def)
  have a: "avail v = avail (get s)" using v(3) by (simp add: avail_def)
  have "calm cb (put v s)" using assms(4) by (rule calm_put) (simp add: fv)
  from read_loop [of "put v s" cb n "[]"] this o a assms(5) obtain w where
    "read_stream_loop io cb n [] (put v s) = Some (EP_NoError, take n (avail v), put w s)" "usb_frame v w" "out_open w"
    "avail w = drop n (avail v)"
    by (auto simp: get_put put_put)
  then show ?thesis using v(1,2) a usb_frame_trans [OF v(2)] by (auto simp: Endpoint_Read_Stream_LE_def)
qed

end

end
