(* ===== verification/Ms_Transfer.thy ===== *)
theory Ms_Transfer
  imports Flash_Write Usb_Bulk
begin

text \<open>
  \<open>DataflashManager_WriteBlocks\<close> and \<open>DataflashManager_ReadBlocks\<close> between the host and the
  medium: the locale \<open>ms_bus\<close> joins the contracts of the dataflash bus and of the USB controller.
\<close>

locale ms_bus =
  fl: flash_bus io fget fput + us: usb_bus io uget uput
  for io :: "'h mmio" and fget fput uget uput +
  assumes fget_uput: "fget (uput u s) = fget s" and uget_fput: "uget (fput d s) = uget s"
    and put_comm: "uput u (fput d s) = fput d (uput u s)"
begin

text \<open>The state that differs from \<open>s\<close> in flash and controller only.\<close>

definition st :: "'h \<Rightarrow> flash \<Rightarrow> usb \<Rightarrow> 'h" where
  "st s d u = fput d (uput u s)"

lemma st_get [simp]: "fget (st s d u) = d" "uget (st s d u) = u"
  by (simp_all add: st_def fl.get_put uget_fput us.get_put)

lemma st_put [simp]: "fput e (st s d u) = st s e u" "uput v (st s d u) = st s d v"
  by (simp_all add: st_def fl.put_put us.put_put put_comm)

lemma st_self: "st s (fget s) (uget s) = s"
  by (simp add: st_def us.put_get fl.put_get)

end

section \<open>From the host to the medium\<close>

text \<open>Packets that carry a positive multiple of sixteen bytes, as a full-size bulk packet does.\<close>

definition whole_chunks :: "usb \<Rightarrow> bool" where
  "whole_chunks u \<longleftrightarrow> 16 dvd length (fifo (cur u)) \<and>
     (\<forall>p\<in>set (queue (cur u)). p \<noteq> [] \<and> 16 dvd length p)"

text \<open>An OUT endpoint that has given its bank back and waits for the host.\<close>

definition drained :: "bulk \<Rightarrow> bool" where
  "drained e \<longleftrightarrow> \<not> ep_in e \<and> \<not> bank e \<and> fifo e = [] \<and> queue e = []"

definition out_source :: "usb \<Rightarrow> bool" where
  "out_source u \<longleftrightarrow> out_open u \<and> whole_chunks u \<and> \<not> ms_reset u"

context ms_bus
begin

lemma stream_next_None: "stream_next_bank io None clear s = Endpoint_WaitUntilReady io (clear s)"
  by (simp add: stream_next_bank_def)

lemma bank_check_out:
  assumes "out_source u" "avail u \<noteq> []"
  shows "\<exists>v. bank_check io (Endpoint_ClearOUT io) (st s d u) = Some (True, st s d v) \<and> out_source v \<and>
    avail v = avail u \<and> 16 \<le> length (fifo (cur v)) \<and> usb_frame u v"
proof -
  let ?s = "st s d u"
  have o: "out_open (uget ?s)" using assms(1) by (simp add: out_source_def)
  have long: "p \<noteq> [] \<Longrightarrow> 16 dvd length p \<Longrightarrow> 16 \<le> length p" for p :: "u8 list" by (simp add: dvd_imp_le)
  show ?thesis
  proof (cases "fifo (cur u)")
    case (Cons b bs)
    then have "Endpoint_IsReadWriteAllowed io ?s = (True, ?s)" using us.get_byte(1) [OF o] by simp
    then show ?thesis
      using assms(1) Cons long [of "fifo (cur u)"]
      by (intro exI [of _ u]) (simp add: bank_check_def out_source_def whole_chunks_def)
  next
    case Nil
    have na: "Endpoint_IsReadWriteAllowed io ?s = (False, ?s)"
      using o Nil us.rwa [of ?s] by (simp add: out_open_def attached_def poll_ready)
    have "us.calm None ?s" by (simp add: us.calm_def)
    from us.next_out [OF o _ _ this] Nil assms(2) obtain v p ps where v:
      "Endpoint_WaitUntilReady io (Endpoint_ClearOUT io ?s) = Some (EP_NoError, st s d v)" "usb_frame u v" "out_open v"
      "avail v = avail u" "queue (cur u) = p # ps" "fifo (cur v) = p" "queue (cur v) = ps"
      by (auto simp: stream_next_None)
    then have "out_source v" "16 \<le> length (fifo (cur v))"
      using assms(1) long [of p] frame_cur [OF v(2)] by (auto simp: out_source_def whole_chunks_def)
    then show ?thesis using v na by (auto simp: bank_check_def)
  qed
qed

lemma copy_out:
  assumes "out_open u" "n \<le> length (fifo (cur u))"
  shows "copy_out_bytes io n (st s d u) =
    Some (st s (fold xfer (take n (fifo (cur u))) d) (upd_cur (\<lambda>e. e\<lparr>fifo := drop n (fifo e)\<rparr>) u))"
  using assms
proof (induction n arbitrary: d u)
  case 0
  have "upd_cur (\<lambda>e. e) u = u" by (simp add: upd_cur_def cur_def)
  then show ?case by simp
next
  case (Suc n)
  then obtain b bs where f: "fifo (cur u) = b # bs" by (cases "fifo (cur u)") auto
  let ?v = "upd_cur (\<lambda>e. e\<lparr>fifo := bs\<rparr>) u"
  have r: "Endpoint_Read_Byte io (st s d u) = (b, st s d ?v)"
    using us.get_byte(2) [of "st s d u"] Suc.prems(1) f by simp
  have "out_open ?v" using Suc.prems(1) by (simp add: out_open_def attached_def bank_ready_def)
  then have "copy_out_bytes io n (st s (xfer b d) ?v) =
      Some (st s (fold xfer (take n bs) (xfer b d)) (upd_cur (\<lambda>e. e\<lparr>fifo := drop n (fifo e)\<rparr>) ?v))"
    using Suc.IH [of ?v "xfer b d"] Suc.prems(2) f by simp
  moreover have "upd_cur (\<lambda>e. e\<lparr>fifo := drop n (fifo e)\<rparr>) ?v = upd_cur (\<lambda>e. e\<lparr>fifo := drop (Suc n) (fifo e)\<rparr>) u"
    using f by (simp add: upd_cur_def cur_def)
  ultimately show ?case using f r by (simp add: fl.send fl.put_lift)
qed

lemma copy_out_16:
  assumes "out_source u" "16 \<le> length (fifo (cur u))"
  shows "\<exists>v. copy_out_bytes io 16 (st s d u) = Some (st s (fold xfer (take 16 (avail u)) d) v) \<and>
    out_source v \<and> avail v = drop 16 (avail u) \<and> usb_frame u v"
proof -
  let ?v = "upd_cur (\<lambda>e. e\<lparr>fifo := drop 16 (fifo e)\<rparr>) u"
  have "copy_out_bytes io 16 (st s d u) = Some (st s (fold xfer (take 16 (fifo (cur u))) d) ?v)"
    using copy_out [of u 16] assms by (simp add: out_source_def)
  moreover have "take 16 (fifo (cur u)) = take 16 (avail u)" using assms(2) by (simp add: avail_def)
  moreover have "out_source ?v"
    using assms(1) by (auto simp: out_source_def whole_chunks_def out_open_def attached_def bank_ready_def dvd_diff_nat)
  moreover have "avail ?v = drop 16 (avail u)" using assms(2) by (simp add: avail_def)
  ultimately show ?thesis by auto
qed

lemma reset_read: "\<not> ms_reset u \<Longrightarrow> read_reset_flag io (st s d u) = (False, st s d u)"
  by (simp add: read_reset_flag_def us.reset_flag)

lemma write_chunk:
  assumes "write_at T M E P l d" "\<And>L. E \<le> L \<Longrightarrow> T L = M L"
    "E + 16 * i = P + 512 * n" "i < 32" "0 < n" "n < 65536" "E mod 512 = 0" "E \<le> 16384 * 1024"
    "out_source u" "16 \<le> length (avail u)" "\<And>j. j < 16 \<Longrightarrow> avail u ! j = T (P + j)"
  shows "\<exists>l' d' v. write_chunk io (of_nat n) l (st s d u) = Some (Next l', st s d' v) \<and>
    write_at T M E (P + 16) l' d' \<and> out_source v \<and> avail v = drop 16 (avail u) \<and> usb_frame u v"
proof -
  obtain u1 where u1: "bank_check io (Endpoint_ClearOUT io) (st s d u) = Some (True, st s d u1)" "out_source u1"
    "avail u1 = avail u" "16 \<le> length (fifo (cur u1))" "usb_frame u u1"
    using bank_check_out [OF assms(9), of s d] assms(10) by fastforce
  obtain l1 d1 where l1: "(if CurrDFPageByteDiv16 l = 64 then
       do { (l, s) \<leftarrow> page_advance io (of_nat n) l (st s d u1);
            s \<leftarrow> Dataflash_SendByte io (if UsingSecondBuffer l then DF_CMD_BUFF2WRITE else DF_CMD_BUFF1WRITE) s;
            s \<leftarrow> Dataflash_SendAddressBytes io 0 0 s; Some (l, s) }
       else Some (l, st s d u1)) = Some (l1, st s d1 u1)" "write_at T M E P l1 d1" "CurrDFPageByteDiv16 l1 \<noteq> 64"
  proof (cases "CurrDFPageByteDiv16 l = 64")
    case False
    then show ?thesis using that [of l d] assms(1) by simp
  next
    case True
    obtain l2 d2 where a: "page_advance io (of_nat n) l (st s d u1) = Some (l2, st s d2 u1)"
      "page_open T M (unat (CurrDFPage l2)) (UsingSecondBuffer l2) d2"
      "buf_ok T M E (unat (CurrDFPage l2)) 0 (sram_buf (chip d2 (odd (unat (CurrDFPage l2)))) (UsingSecondBuffer l2))"
      "unat (CurrDFPage l2) * 1024 = P" "unat (CurrDFPage l2) < 16384" "CurrDFPageByteDiv16 l2 = 0"
      using fl.cross_page [of T M E P l "st s d u1", OF _ True assms(2-8)] assms(1) by auto
    let ?cmd = "if UsingSecondBuffer l2 then DF_CMD_BUFF2WRITE else DF_CMD_BUFF1WRITE"
    have "write_at T M E P l2 (fold xfer (?cmd # page_bytes 0 0) d2)"
      by (rule fl.write_at_opened [OF a(2,4,3,5,6)]) (simp add: buffer_cmd_def)
    moreover have "do { s \<leftarrow> Dataflash_SendByte io ?cmd (st s d2 u1); Dataflash_SendAddressBytes io 0 0 s } =
        Some (st s (fold xfer (?cmd # page_bytes 0 0) d2) u1)"
      by (simp add: fl.send_command fl.put_lift)
    ultimately show ?thesis
      using that [of l2 "fold xfer (?cmd # page_bytes 0 0) d2"] True a(1,6)
      by (simp add: fl.send fl.send_address fl.lift_lift fl.put_lift comp_def)
  qed
  obtain v where v: "copy_out_bytes io 16 (st s d1 u1) = Some (st s (fold xfer (take 16 (avail u)) d1) v)"
    "out_source v" "avail v = drop 16 (avail u)" "usb_frame u1 v"
    using copy_out_16 [OF u1(2,4), of s d1] u1(3) by auto
  have w: "write_at T M E (P + 16) (l1\<lparr>CurrDFPageByteDiv16 := CurrDFPageByteDiv16 l1 + 1\<rparr>) (fold xfer (take 16 (avail u)) d1)"
    by (rule fl.chunk_bytes [OF l1(2,3)]) (use assms(10,11) in simp_all)
  have "write_chunk io (of_nat n) l (st s d u) =
      Some (Next (l1\<lparr>CurrDFPageByteDiv16 := CurrDFPageByteDiv16 l1 + 1\<rparr>), st s (fold xfer (take 16 (avail u)) d1) v)"
    using u1(1) l1(1) v(1,2) unfolding write_chunk_def
    by (simp add: reset_read out_source_def)
  then show ?thesis using w v(2,3) usb_frame_trans [OF u1(5) v(4)] by blast
qed

lemma write_blocks_loop:
  assumes "write_at T M E P l d" "\<And>L. E \<le> L \<Longrightarrow> T L = M L" "E = P + 512 * n" "n < 65536"
    "E mod 512 = 0" "E \<le> 16384 * 1024"
    "out_source u" "512 * n \<le> length (avail u)" "\<And>j. j < 512 * n \<Longrightarrow> avail u ! j = T (P + j)"
  shows "\<exists>l' d' v. write_blocks_loop io n l (st s d u) = Some (Next l', st s d' v) \<and> write_at T M E E l' d' \<and>
    out_source v \<and> avail v = drop (512 * n) (avail u) \<and> usb_frame u v"
  using assms(1,3,4,7-)
proof (induction n arbitrary: P l d u)
  case 0
  then show ?case by (intro exI [of _ l] exI [of _ d] exI [of _ u]) simp
next
  case (Suc n)
  let ?I = "\<lambda>i l t. \<exists>d v. t = st s d v \<and> write_at T M E (P + 16 * i) l d \<and> out_source v \<and>
     avail v = drop (16 * i) (avail u) \<and> usb_frame u v"
  have step: "\<exists>l' t'. write_chunk io (of_nat (Suc n)) l t = Some (Next l', t') \<and> ?I (Suc i) l' t'"
    if i: "i < 32" and I: "?I i l t" for i l t
  proof -
    obtain d1 v1 where d1: "t = st s d1 v1" "write_at T M E (P + 16 * i) l d1" "out_source v1"
      "avail v1 = drop (16 * i) (avail u)" "usb_frame u v1" using I by blast
    have e: "E + 16 * i = P + 16 * i + 512 * Suc n" using Suc.prems(2) by simp
    have len: "16 \<le> length (avail v1)" using Suc.prems(5) i d1(4) by simp
    have dat: "avail v1 ! j = T (P + 16 * i + j)" if "j < 16" for j
      using Suc.prems(5) Suc.prems(6) [of "16 * i + j"] i that d1(4) by (simp add: add.assoc)
    from write_chunk [OF d1(2) assms(2) e i _ Suc.prems(3) assms(5,6) d1(3) len dat, of s]
    obtain l' d' v where "write_chunk io (of_nat (Suc n)) l (st s d1 v1) = Some (Next l', st s d' v)"
      "write_at T M E (P + 16 * i + 16) l' d'" "out_source v" "avail v = drop 16 (avail v1)" "usb_frame v1 v"
      by blast
    then show ?thesis
      using d1(1,4) usb_frame_trans [OF d1(5)] by (auto simp: add.commute add.left_commute)
  qed
  have "?I 0 l (st s d u)" using Suc.prems(1,4) by (intro exI [of _ d] exI [of _ u]) simp
  from repeat_flow_inv [where I = ?I and body = "write_chunk io (of_nat (Suc n))" and n = 32, OF step this]
  obtain l1 d1 v1 where r: "repeat_flow 32 (write_chunk io (of_nat (Suc n))) l (st s d u) = Some (Next l1, st s d1 v1)"
    "write_at T M E (P + 512) l1 d1" "out_source v1" "avail v1 = drop 512 (avail u)" "usb_frame u v1"
    by auto
  have "\<exists>l' d' v. write_blocks_loop io n l1 (st s d1 v1) = Some (Next l', st s d' v) \<and> write_at T M E E l' d' \<and>
    out_source v \<and> avail v = drop (512 * n) (avail v1) \<and> usb_frame v1 v"
  proof (rule Suc.IH [OF r(2) _ _ r(3)])
    show "E = P + 512 + 512 * n" "n < 65536" "512 * n \<le> length (avail v1)" using Suc.prems(2,3,5) r(4) by simp_all
    show "avail v1 ! j = T (P + 512 + j)" if "j < 512 * n" for j
      using Suc.prems(5) Suc.prems(6) [of "512 + j"] that r(4) by (simp add: add.assoc)
  qed
  then show ?case using r(1,4) usb_frame_trans [OF r(5)] by (auto simp: add.commute simp del: of_nat_Suc)
qed

lemma write_blocks_ok:
  assumes "at_rest (fget s)" "unprotected (fget s)" "unat BlockAddress < 32768"
    "unat BlockAddress + unat TotalBlocks \<le> 32768"
    "attached (uget s)" "\<not> ep_in (cur (uget s))" "bank (cur (uget s))" "whole_chunks (uget s)" "\<not> ms_reset (uget s)"
    "512 * unat TotalBlocks \<le> length (avail (uget s))"
  shows "\<exists>d u. DataflashManager_WriteBlocks io BlockAddress TotalBlocks s = Some (st s d u) \<and> at_rest d \<and> unprotected d \<and>
    medium d = overlay (512 * unat BlockAddress) (take (512 * unat TotalBlocks) (avail (uget s))) (medium (fget s)) \<and>
    avail u = drop (512 * unat TotalBlocks) (avail (uget s)) \<and> usb_frame (uget s) u \<and> \<not> stalled (cur u) \<and>
    (512 * unat TotalBlocks = length (avail (uget s)) \<longrightarrow> drained (cur u))"
proof -
  let ?P = "512 * unat BlockAddress" and ?n = "unat TotalBlocks" and ?M = "medium (fget s)"
  let ?u = "uget s" and ?data = "take (512 * unat TotalBlocks) (avail (uget s))"
  let ?T = "overlay ?P ?data ?M" and ?E = "512 * unat BlockAddress + 512 * unat TotalBlocks"
  have len: "length ?data = 512 * ?n" using assms(10) by simp
  have after: "?T L = ?M L" if "?E \<le> L" for L using overlay_after [of ?P ?data L] len that by simp
  obtain l d1 where l: "write_start io BlockAddress s = Some (l, fput d1 s)" "write_at ?T ?M ?E ?P l d1"
    using fl.write_start [OF assms(1-3) refl refl, of ?T ?E] overlay_before by blast
  have s1: "fput d1 s = st s d1 ?u" using st_put(1) [of d1 s "fget s" ?u] by (simp add: st_self)
  obtain u1 where u1: "Endpoint_WaitUntilReady io (st s d1 ?u) = Some (EP_NoError, st s d1 u1)" "usb_frame ?u u1"
    "cur u1 = (cur ?u)\<lparr>delay := 0\<rparr>"
    using us.wait_ready [of "st s d1 ?u"] assms(5,7) by auto
  have o1: "out_source u1" "avail u1 = avail ?u"
    using assms(5-9) u1(3) frame_cur [OF u1(2)]
    by (auto simp: out_source_def out_open_def attached_def bank_ready_def whole_chunks_def avail_def)
  have e: "?E mod 512 = 0" "?E \<le> 16384 * 1024" "?n < 65536" using assms(4) u16_less [of TotalBlocks] by simp_all
  have dat: "avail u1 ! j = ?T (?P + j)" if "j < 512 * ?n" for j
    using that overlay_at [of j ?data ?P ?M] len o1(2) by simp
  obtain l' d2 u2 where d2: "write_blocks_loop io ?n l (st s d1 u1) = Some (Next l', st s d2 u2)"
    "write_at ?T ?M ?E ?E l' d2" "out_source u2" "avail u2 = drop (512 * ?n) (avail u1)" "usb_frame u1 u2"
    using write_blocks_loop [of ?T ?M ?E ?P l d1 ?n u1 s, OF l(2) after refl e(3,1,2) o1(1) _ dat] assms(10) o1(2) by auto
  obtain d3 where d3: "write_finish io l' (st s d2 u2) = Some (st s d3 u2)" "medium (select_mask 3 d3) = ?T"
    "at_rest (select_mask 3 d3)" "unprotected (select_mask 3 d3)"
    using fl.write_finish [of ?T ?M ?E l' "st s d2 u2"] d2(2) after by auto
  have oo: "out_open u2" using d2(3) by (simp add: out_source_def)
  have rw: "Endpoint_IsReadWriteAllowed io (st s d3 u2) = (fifo (cur u2) \<noteq> [], st s d3 u2)"
    using oo us.rwa [of "st s d3 u2"] by (simp add: out_open_def attached_def poll_ready)
  have clear: "Endpoint_ClearOUT io (st s d3 u2) = st s d3 (next_bank u2)"
    using oo us.clear_bank(1) [of "st s d3 u2"] by (simp add: out_open_def attached_def)
  have nb: "avail (next_bank u2) = avail u2" if "fifo (cur u2) = []"
    using that oo by (auto simp: avail_def next_bank_def release_def out_open_def split: list.split)
  let ?v = "if fifo (cur u2) \<noteq> [] then u2 else next_bank u2"
  have "DataflashManager_WriteBlocks io BlockAddress TotalBlocks s = Some (st s (select_mask 3 d3) ?v)"
    using l(1) s1 u1(1) d2(1) d3(1) rw clear
    by (simp add: DataflashManager_WriteBlocks_def fl.deselect fl.lift_def)
  moreover have "usb_frame ?u ?v"
    using usb_frame_trans [OF u1(2) d2(5)] usb_frame_trans [of ?u u2 "next_bank u2"] by (simp add: next_bank_def)
  moreover have "\<not> stalled (cur ?v)"
    using oo by (simp add: out_open_def attached_def next_bank_def release_def split: list.split)
  moreover have "drained (cur ?v)" if "512 * ?n = length (avail ?u)"
  proof -
    have "avail u2 = []" using that d2(4) o1(2) by simp
    then have "fifo (cur u2) = []" "queue (cur u2) = []"
      using d2(3) by (auto simp: avail_def out_source_def whole_chunks_def)
    then show ?thesis using oo by (simp add: drained_def next_bank_def release_def out_open_def)
  qed
  ultimately show ?thesis
    using d3(2-4) d2(4) o1(2) nb by (intro exI [of _ "select_mask 3 d3"] exI [of _ ?v]) simp
qed

end

section \<open>From the medium to the host\<close>

definition in_rest :: "usb \<Rightarrow> bool" where
  "in_rest u \<longleftrightarrow> attached u \<and> ep_in (cur u) \<and> bank (cur u) \<and> length (fifo (cur u)) \<le> ep_size u"

text \<open>The packets sent since the host's side of the endpoint was \<open>q\<close> are full ones.\<close>

definition full_after :: "u8 list list \<Rightarrow> usb \<Rightarrow> bool" where
  "full_after q u \<longleftrightarrow> (\<exists>ps. queue (cur u) = q @ ps \<and> (\<forall>p\<in>set ps. length p = ep_size u))"

definition in_sink :: "u8 list list \<Rightarrow> usb \<Rightarrow> bool" where
  "in_sink q u \<longleftrightarrow> in_open u \<and> 16 dvd ep_size u \<and> 16 dvd length (fifo (cur u)) \<and> \<not> ms_reset u \<and> full_after q u"

context ms_bus
begin

lemma bank_check_in:
  assumes "in_sink q u"
  shows "\<exists>v. bank_check io (Endpoint_ClearIN io) (st s d u) = Some (True, st s d v) \<and> in_sink q v \<and>
    sent v = sent u \<and> length (fifo (cur v)) + 16 \<le> ep_size v \<and> usb_frame u v"
proof -
  let ?s = "st s d u" and ?e = "cur u"
  have i: "in_open u" "16 dvd ep_size u" "16 dvd length (fifo ?e)" "\<not> ms_reset u" "full_after q u"
    using assms by (simp_all add: in_sink_def)
  have o: "attached u" "ep_in ?e" "bank_ready ?e" "0 < ep_size u" "length (fifo ?e) \<le> ep_size u" "uenum u \<noteq> 0"
    using i(1) by (simp_all add: in_open_def attached_def)
  have rw: "Endpoint_IsReadWriteAllowed io ?s = (length (fifo ?e) < ep_size u, ?s)"
    using o us.rwa [of ?s] by (simp add: poll_ready)
  show ?thesis
  proof (cases "length (fifo ?e) < ep_size u")
    case True
    then have "length (fifo ?e) + 16 \<le> ep_size u"
      using i(2,3) by (elim dvdE) simp
    then show ?thesis using assms True rw by (intro exI [of _ u]) (simp add: bank_check_def)
  next
    case False
    have "us.calm None ?s" by (simp add: us.calm_def)
    from us.stream_next [OF this disjI1 [OF refl]] o obtain v where v:
      "Endpoint_WaitUntilReady io (Endpoint_ClearIN io ?s) = Some (EP_NoError, st s d v)" "usb_frame u v"
      "cur v = ?e\<lparr>fifo := [], delay := 0, queue := queue ?e @ [fifo ?e]\<rparr>"
      by (auto simp: stream_next_None release_def bank_ready_def)
    note fv = frame_cur [OF v(2)]
    have "16 \<le> ep_size u" using i(2) o(4) by (simp add: dvd_imp_le)
    moreover have "full_after q v" using i(5) v(3) fv False o(5) by (auto simp: full_after_def)
    then have "in_sink q v" using i o fv v(3) by (simp add: in_sink_def in_open_def attached_def bank_ready_def)
    moreover have "sent v = sent u" using v(3) by (simp add: sent_def)
    ultimately show ?thesis using v rw False fv by (intro exI [of _ v]) (simp add: bank_check_def)
  qed
qed

lemma copy_in:
  assumes "in_open u" "length (fifo (cur u)) + n \<le> ep_size u" "reading page pos d" "pos + n \<le> 1024"
  shows "\<exists>d'. copy_in_bytes io n (st s d u) =
      Some (st s d' (upd_cur (\<lambda>e. e\<lparr>fifo := fifo e @ map (page_of d page) [pos..<pos + n]\<rparr>) u)) \<and>
    reading page (pos + n) d' \<and> same_mem d d'"
  using assms
proof (induction n arbitrary: pos d u)
  case 0
  have "upd_cur (\<lambda>e. e) u = u" by (simp add: upd_cur_def cur_def)
  then show ?case using 0 by auto
next
  case (Suc n)
  let ?b = "page_of d page pos" and ?d = "xfer 0 d"
  let ?u = "upd_cur (\<lambda>e. e\<lparr>fifo := fifo e @ [page_of d page pos]\<rparr>) u"
  have "pos < 1024" using Suc.prems by simp
  note r = reading_step [OF Suc.prems(3) this, of 0]
  have w: "Endpoint_Write_Byte io ?b (st s ?d u) = st s ?d ?u"
    using us.put_byte(2) [of "st s ?d u" ?b] Suc.prems(1,2) by simp
  have "in_open ?u" using Suc.prems(1,2) by (simp add: in_open_def attached_def bank_ready_def)
  then obtain d' where d': "copy_in_bytes io n (st s ?d ?u) =
      Some (st s d' (upd_cur (\<lambda>e. e\<lparr>fifo := fifo e @ map (page_of ?d page) [Suc pos..<Suc pos + n]\<rparr>) ?u))"
    "reading page (Suc pos + n) d'" "same_mem ?d d'"
    using Suc.IH [of ?u "Suc pos" ?d] Suc.prems(2,4) r(2) by auto
  then show ?case
    using r(1) w same_mem_page [OF r(3)] same_mem_trans [OF r(3) d'(3)]
    by (intro exI [of _ d']) (simp add: fl.receive fl.put_lift upd_upd upt_conv_Cons del: upt_Suc)
qed

lemma read_chunk:
  assumes "fl.read_at P l d0 d" "P + 16 \<le> 16384 * 1024" "in_sink q u"
  shows "\<exists>l' d' v. read_chunk io l (st s d u) = Some (Next l', st s d' v) \<and> fl.read_at (P + 16) l' d0 d' \<and>
    in_sink q v \<and> sent v = sent u @ map (medium d0) [P..<P + 16] \<and> usb_frame u v"
proof -
  obtain u1 where u1: "bank_check io (Endpoint_ClearIN io) (st s d u) = Some (True, st s d u1)" "in_sink q u1"
    "sent u1 = sent u" "length (fifo (cur u1)) + 16 \<le> ep_size u1" "usb_frame u u1"
    using bank_check_in [OF assms(3)] by blast
  obtain l1 d1 where t: "page_turn io l (st s d u1) = Some (l1, st s d1 u1)" "fl.read_at P l1 d0 d1"
    "unat (ReadByteDiv16 l1) < 64"
    using fl.page_turn [of P l d0 "st s d u1"] assms(1,2) by auto
  let ?p = "unat (ReadPage l1)" and ?q = "16 * unat (ReadByteDiv16 l1)"
  have r: "reading ?p ?q d1" "same_mem d0 d1" "?p * 1024 + ?q = P" "?p < 16384" using t(2) by (simp_all add: fl.read_at_def)
  let ?bs = "map (medium d0) [P..<P + 16]"
  have bs: "map (page_of d1 ?p) [?q..<?q + 16] = ?bs"
    using medium_slice [of ?q 16 d1 ?p] t(3) r(3) same_medium [OF r(2)] by simp
  let ?v = "upd_cur (\<lambda>e. e\<lparr>fifo := fifo e @ ?bs\<rparr>) u1"
  have "in_open u1" "?q + 16 \<le> 1024" using u1(2) t(3) by (simp_all add: in_sink_def)
  from copy_in [OF this(1) u1(4) r(1) this(2)] bs obtain d where d: "copy_in_bytes io 16 (st s d1 u1) = Some (st s d ?v)"
    "reading ?p (?q + 16) d" "same_mem d1 d" by auto
  have len: "length ?bs = 16" by simp
  have "in_sink q ?v" using u1(2,4) len
    by (auto simp: in_sink_def in_open_def attached_def bank_ready_def full_after_def simp del: upt_Suc map_append upt_conv_Cons)
  moreover have "sent ?v = sent u1 @ ?bs" by (simp add: sent_def del: upt_Suc)
  moreover have "unat (ReadByteDiv16 l1 + 1) = Suc (unat (ReadByteDiv16 l1))"
    by (rule unat_Suc_lt) (use t(3) in simp)
  moreover have "reading ?p (16 + ?q) d" using d(2) by (simp add: add.commute)
  moreover have "usb_frame u ?v" using usb_frame_trans [OF u1(5)] by simp
  ultimately show ?thesis
    using t u1(1,3) d(1) r same_mem_trans [OF r(2) d(3)] reset_read [of ?v s d]
    by (intro exI [of _ "l1\<lparr>ReadByteDiv16 := ReadByteDiv16 l1 + 1\<rparr>"] exI [of _ d] exI [of _ ?v])
       (simp add: read_chunk_def fl.read_at_def in_sink_def del: upt_Suc)
qed

lemma read_blocks_loop:
  assumes "fl.read_at P l d0 d" "P + 512 * n \<le> 16384 * 1024" "in_sink q u"
  shows "\<exists>l' d' v. read_blocks_loop io n l (st s d u) = Some (Next l', st s d' v) \<and> fl.read_at (P + 512 * n) l' d0 d' \<and>
    in_sink q v \<and> sent v = sent u @ map (medium d0) [P..<P + 512 * n] \<and> usb_frame u v"
  using assms
proof (induction n arbitrary: P l d u)
  case 0
  then show ?case by (intro exI [of _ l] exI [of _ d] exI [of _ u]) simp
next
  case (Suc n)
  let ?I = "\<lambda>i l t. \<exists>d v. t = st s d v \<and> fl.read_at (P + 16 * i) l d0 d \<and> in_sink q v \<and>
     sent v = sent u @ map (medium d0) [P..<P + 16 * i] \<and> usb_frame u v"
  have step: "\<exists>l' t'. read_chunk io l t = Some (Next l', t') \<and> ?I (Suc i) l' t'"
    if i: "i < 32" and I: "?I i l t" for i l t
  proof -
    obtain d1 v1 where d1: "t = st s d1 v1" "fl.read_at (P + 16 * i) l d0 d1" "in_sink q v1"
      "sent v1 = sent u @ map (medium d0) [P..<P + 16 * i]" "usb_frame u v1" using I by blast
    have b: "P + 16 * i + 16 \<le> 16384 * 1024" using Suc.prems(2) i by simp
    obtain l' d' v where c: "read_chunk io l (st s d1 v1) = Some (Next l', st s d' v)" "fl.read_at (P + 16 * i + 16) l' d0 d'"
      "in_sink q v" "sent v = sent v1 @ map (medium d0) [P + 16 * i..<P + 16 * i + 16]" "usb_frame v1 v"
      using read_chunk [OF d1(2) b d1(3), of s] by blast
    have "[P..<P + 16 * i] @ [P + 16 * i..<P + 16 * i + 16] = [P..<P + 16 * Suc i]"
      using upt_add_eq_append [of P "P + 16 * i" 16] by (simp add: add.commute add.left_commute)
    then have "sent v = sent u @ map (medium d0) [P..<P + 16 * Suc i]"
      using c(4) d1(4) by (simp flip: map_append del: upt_Suc mult_Suc_right)
    moreover have "fl.read_at (P + 16 * Suc i) l' d0 d'" using c(2) by (simp add: add.commute add.left_commute)
    ultimately show ?thesis
      unfolding d1(1) using c(1,3) usb_frame_trans [OF d1(5) c(5)] by (intro exI conjI) (rule c(1), rule refl)
  qed
  have "?I 0 l (st s d u)" using Suc.prems(1,3) by (intro exI [of _ d] exI [of _ u]) simp
  from repeat_flow_inv [where I = ?I and body = "read_chunk io" and n = 32, OF step this]
  obtain l1 d1 v1 where r: "repeat_flow 32 (read_chunk io) l (st s d u) = Some (Next l1, st s d1 v1)"
    "fl.read_at (P + 512) l1 d0 d1" "in_sink q v1" "sent v1 = sent u @ map (medium d0) [P..<P + 512]" "usb_frame u v1"
    by auto
  have "P + 512 + 512 * n \<le> 16384 * 1024" using Suc.prems(2) by simp
  from Suc.IH [OF r(2) this r(3)] obtain l' d' v where n:
    "read_blocks_loop io n l1 (st s d1 v1) = Some (Next l', st s d' v)" "fl.read_at (P + 512 + 512 * n) l' d0 d'"
    "in_sink q v" "sent v = sent v1 @ map (medium d0) [P + 512..<P + 512 + 512 * n]" "usb_frame v1 v" by blast
  have "[P..<P + 512] @ [P + 512..<P + 512 + 512 * n] = [P..<P + 512 * Suc n]"
    using upt_add_eq_append [of P "P + 512" "512 * n"] by (simp add: add.assoc)
  then have "sent v = sent u @ map (medium d0) [P..<P + 512 * Suc n]"
    using n(4) r(4) by (simp flip: map_append del: upt_Suc mult_Suc_right)
  moreover have "fl.read_at (P + 512 * Suc n) l' d0 d'" using n(2) by (simp add: add.assoc)
  moreover have "read_blocks_loop io (Suc n) l (st s d u) = Some (Next l', st s d' v)" using r(1) n(1) by simp
  ultimately show ?case
    using n(3) usb_frame_trans [OF r(5) n(5)] by blast
qed

lemma read_blocks_ok:
  assumes "at_rest (fget s)" "unat BlockAddress < 32768" "unat BlockAddress + unat TotalBlocks \<le> 32768"
    "attached (uget s)" "ep_in (cur (uget s))" "bank (cur (uget s))" "0 < ep_size (uget s)" "16 dvd ep_size (uget s)"
    "length (fifo (cur (uget s))) \<le> ep_size (uget s)" "16 dvd length (fifo (cur (uget s)))" "\<not> ms_reset (uget s)"
  shows "\<exists>d u. DataflashManager_ReadBlocks io BlockAddress TotalBlocks s = Some (st s d u) \<and> at_rest d \<and>
    same_mem (fget s) d \<and>
    sent u = sent (uget s) @ map (medium (fget s)) [512 * unat BlockAddress..<512 * (unat BlockAddress + unat TotalBlocks)] \<and>
    usb_frame (uget s) u \<and> in_rest u \<and> full_after (queue (cur (uget s))) u"
proof -
  let ?P = "512 * unat BlockAddress" and ?n = "unat TotalBlocks" and ?u = "uget s"
  obtain l d1 where l: "read_start io BlockAddress s = Some (l, fput d1 s)" "fl.read_at ?P l (fget s) d1"
    using fl.read_start [OF assms(1,2)] by blast
  have s1: "fput d1 s = st s d1 ?u" using st_put(1) [of d1 s "fget s" ?u] by (simp add: st_self)
  obtain u1 where u1: "Endpoint_WaitUntilReady io (st s d1 ?u) = Some (EP_NoError, st s d1 u1)" "usb_frame ?u u1"
    "cur u1 = (cur ?u)\<lparr>delay := 0\<rparr>"
    using us.wait_ready [of "st s d1 ?u"] assms(4,6) by auto
  have i1: "in_sink (queue (cur ?u)) u1" "sent u1 = sent ?u"
    using assms(4-) u1(3) frame_cur [OF u1(2)]
    by (auto simp: in_sink_def in_open_def attached_def bank_ready_def sent_def full_after_def)
  obtain l' d2 u2 where d2: "read_blocks_loop io ?n l (st s d1 u1) = Some (Next l', st s d2 u2)"
    "fl.read_at (?P + 512 * ?n) l' (fget s) d2" "in_sink (queue (cur ?u)) u2"
    "sent u2 = sent u1 @ map (medium (fget s)) [?P..<?P + 512 * ?n]" "usb_frame u1 u2"
    using read_blocks_loop [OF l(2) _ i1(1), of ?n s] assms(3) by auto
  note c = fl.close_read [OF d2(2)]
  have oo: "in_open u2" using d2(3) by (simp add: in_sink_def)
  have rw: "Endpoint_IsReadWriteAllowed io (st s d2 u2) = (length (fifo (cur u2)) < ep_size u2, st s d2 u2)"
    using oo us.rwa [of "st s d2 u2"] by (simp add: in_open_def attached_def poll_ready)
  have clear: "Endpoint_ClearIN io (st s d2 u2) = st s d2 (next_bank u2)"
    using oo us.clear_bank(2) [of "st s d2 u2"] by (simp add: in_open_def attached_def)
  have nb: "sent (next_bank u2) = sent u2"
    using oo by (simp add: sent_def next_bank_def release_def in_open_def)
  let ?v = "if length (fifo (cur u2)) < ep_size u2 then u2 else next_bank u2"
  have "DataflashManager_ReadBlocks io BlockAddress TotalBlocks s = Some (st s (select_mask 3 d2) ?v)"
    using l(1) s1 u1(1) d2(1) rw clear
    by (simp add: DataflashManager_ReadBlocks_def fl.deselect fl.lift_def)
  moreover have "usb_frame ?u ?v"
    using usb_frame_trans [OF u1(2) d2(5)] usb_frame_trans [of ?u u2 "next_bank u2"] by (simp add: next_bank_def)
  moreover have "sent ?v = sent ?u @ map (medium (fget s)) [?P..<512 * (unat BlockAddress + ?n)]"
    using nb d2(4) i1(2) by (simp add: distrib_left)
  moreover have "in_rest ?v"
    using oo by (simp add: in_rest_def in_open_def attached_def bank_ready_def next_bank_def release_def)
  moreover have "full_after (queue (cur ?u)) ?v"
    using d2(3) oo frame_cur [of u2 "next_bank u2"]
    by (auto simp: in_sink_def full_after_def in_open_def next_bank_def release_def)
  ultimately show ?thesis using c by blast
qed

end

end
