(* ===== verification/Usb_Control.thy ===== *)
theory Usb_Control
  imports Endpoint
begin

text \<open>
  The environment of the control endpoint: endpoint 0 of the AVR's USB controller and a host that
  runs one control transfer.  The host reacts \<open>c_lat\<close> polls of the status register after the
  firmware has handed over a bank.  The locale \<open>ctl_bus\<close> is the contract with the registers; in
  it the control stream is shown to deliver the clipped data in packets of eight bytes.
\<close>

section \<open>Endpoint 0 and its host\<close>

text \<open>
  What the host still expects: data packets of the IN stage (so many bytes), to send the empty OUT
  packet of the status stage, data packets it sends, the empty IN packet of the status stage, or
  nothing.
\<close>

datatype host_stage = H_In nat | H_OutStatus | H_Data "u8 list list" | H_InStatus | H_Done

record ctl =
  c_rx :: "u8 list"
  c_tx :: "u8 list"
  c_setup :: bool
  c_in :: bool
  c_out :: bool
  c_stall :: bool
  c_wait :: nat
  c_lat :: nat
  c_host :: host_stage
  c_got :: "u8 list list"

definition host_act :: "ctl \<Rightarrow> ctl" where
  "host_act c =
     (if c_setup c then c
      else case c_host c of
        H_Data (p # ps) \<Rightarrow> if c_out c then c else c\<lparr>c_rx := p, c_out := True, c_host := H_Data ps\<rparr>
      | H_Data [] \<Rightarrow> if c_out c then c else c\<lparr>c_in := True, c_host := H_InStatus\<rparr>
      | H_OutStatus \<Rightarrow> c\<lparr>c_in := True, c_out := True, c_host := H_Done\<rparr>
      | _ \<Rightarrow> c\<lparr>c_in := True\<rparr>)"

definition ctl_poll :: "ctl \<Rightarrow> ctl" where
  "ctl_poll c = (if c_wait c = 0 then host_act c else c\<lparr>c_wait := c_wait c - 1\<rparr>)"

text \<open>A packet of \<open>n\<close> bytes has been offered; the host takes it only in an IN stage.\<close>

definition take_in :: "u8 list \<Rightarrow> ctl \<Rightarrow> ctl" where
  "take_in p c =
     (case c_host c of
        H_In r \<Rightarrow> c\<lparr>c_got := c_got c @ [p],
          c_host := (if length p < USB_ControlEndpointSize \<or> r \<le> length p then H_OutStatus else H_In (r - length p))\<rparr>
      | H_InStatus \<Rightarrow> c\<lparr>c_got := c_got c @ [p], c_host := H_Done\<rparr>
      | _ \<Rightarrow> c)"

definition ctl_flag :: "nat \<Rightarrow> bool \<Rightarrow> u8" where
  "ctl_flag n b = (if b then BV n else 0)"

lemma bit_ctl_flag [simp]: "bit (ctl_flag n b) m \<longleftrightarrow> b \<and> m = n \<and> n < 8"
  by (simp add: ctl_flag_def)

definition ctl_intx :: "ctl \<Rightarrow> u8" where
  "ctl_intx c = ctl_flag TXINI (c_in c) OR ctl_flag RXOUTI (c_out c) OR ctl_flag RXSTPI (c_setup c)"

definition ctl_ack :: "u8 \<Rightarrow> ctl \<Rightarrow> ctl" where
  "ctl_ack v c =
     (let d = (if c_setup c \<and> \<not> bit v RXSTPI
               then c\<lparr>c_setup := False, c_rx := [], c_tx := [], c_wait := c_lat c,
                      c_in := (case c_host c of H_Data _ \<Rightarrow> False | _ \<Rightarrow> True)\<rparr> else c);
          d = (if c_in c \<and> \<not> bit v TXINI
               then take_in (c_tx c) (d\<lparr>c_tx := [], c_in := False, c_wait := c_lat c\<rparr>) else d)
      in if c_out c \<and> \<not> bit v RXOUTI then d\<lparr>c_out := False, c_rx := [], c_wait := c_lat c\<rparr> else d)"

definition ctl_regs :: "reg set" where
  "ctl_regs = {UEINTX, UEDATX, UECONX, UEBCLX, UEBCHX}"

definition ctl_rd :: "reg \<Rightarrow> ctl \<Rightarrow> u8 \<times> ctl" where
  "ctl_rd r c =
     (if r = UEINTX then (ctl_intx (ctl_poll c), ctl_poll c)
      else if r = UEDATX then (case c_rx c of [] \<Rightarrow> (0, c) | b # bs \<Rightarrow> (b, c\<lparr>c_rx := bs\<rparr>))
      else if r = UECONX then (ctl_flag EPEN True OR ctl_flag STALLRQ (c_stall c), c)
      else if r = UEBCLX then (of_nat (length (if c_setup c \<or> c_out c then c_rx c else c_tx c)), c)
      else (0, c))"

definition ctl_wr :: "reg \<Rightarrow> u8 \<Rightarrow> ctl \<Rightarrow> ctl" where
  "ctl_wr r v c =
     (if r = UEINTX then ctl_ack v c
      else if r = UEDATX then
        (if c_in c \<and> length (c_tx c) < USB_ControlEndpointSize then c\<lparr>c_tx := c_tx c @ [v]\<rparr> else c)
      else if r = UECONX then c\<lparr>c_stall := (bit v STALLRQ \<and> \<not> bit v STALLRQC)\<rparr>
      else c)"

section \<open>The contract with the registers\<close>

text \<open>\<open>sel s\<close> says that endpoint 0 is selected; \<open>dstate s\<close> is \<open>USB_DeviceState\<close>.\<close>

locale ctl_bus =
  fixes io :: "'h mmio" and get :: "'h \<Rightarrow> ctl" and put :: "ctl \<Rightarrow> 'h \<Rightarrow> 'h"
    and sel :: "'h \<Rightarrow> bool" and dstate :: "'h \<Rightarrow> u8"
  assumes get_put: "get (put c s) = c"
    and put_put: "put d (put c s) = put d s"
    and put_get: "put (get s) s = s"
    and sel_put: "sel (put c s) = sel s"
    and dstate_put: "dstate (put c s) = dstate s"
    and rd_ctl: "r \<in> ctl_regs \<Longrightarrow> sel s \<Longrightarrow> io_rd io r s = (fst (ctl_rd r (get s)), put (snd (ctl_rd r (get s))) s)"
    and wr_ctl: "r \<in> ctl_regs \<Longrightarrow> sel s \<Longrightarrow> io_wr io r x s = put (ctl_wr r x (get s)) s"
    and rd_dstate: "io_rd io V_DeviceState s = (dstate s, s)"
begin

lemmas laws = get_put put_put sel_put dstate_put

lemma rd_intx: "sel s \<Longrightarrow> io_rd io UEINTX s = (ctl_intx (ctl_poll (get s)), put (ctl_poll (get s)) s)"
  by (simp add: rd_ctl ctl_regs_def ctl_rd_def)

lemma wr_intx: "sel s \<Longrightarrow> io_wr io UEINTX v s = put (ctl_ack v (get s)) s"
  by (simp add: wr_ctl ctl_regs_def ctl_wr_def)

lemma test_intx: "sel s \<Longrightarrow> test_reg io UEINTX n s = (bit (ctl_intx (ctl_poll (get s))) n, put (ctl_poll (get s)) s)"
  by (simp add: test_reg_def rd_intx)

lemma flags:
  "sel s \<Longrightarrow> Endpoint_IsSETUPReceived io s = (c_setup (ctl_poll (get s)), put (ctl_poll (get s)) s)"
  "sel s \<Longrightarrow> Endpoint_IsOUTReceived io s = (c_out (ctl_poll (get s)), put (ctl_poll (get s)) s)"
  "sel s \<Longrightarrow> Endpoint_IsINReady io s = (c_in (ctl_poll (get s)), put (ctl_poll (get s)) s)"
  by (simp_all add: Endpoint_IsSETUPReceived_def Endpoint_IsOUTReceived_def Endpoint_IsINReady_def test_intx
      ctl_intx_def bit_or_iff)

lemma dev_state: "device_state_is io x s = (dstate s = x, s)"
  by (simp add: device_state_is_def rd_dstate)

lemma write_byte: "sel s \<Longrightarrow> Endpoint_Write_Byte io b s = put (ctl_wr UEDATX b (get s)) s"
  by (simp add: Endpoint_Write_Byte_def wr_ctl ctl_regs_def)

lemma read_byte: "sel s \<Longrightarrow> Endpoint_Read_Byte io s = (fst (ctl_rd UEDATX (get s)), put (snd (ctl_rd UEDATX (get s))) s)"
  by (simp add: Endpoint_Read_Byte_def rd_ctl ctl_regs_def)

lemma byte_count:
  "sel s \<Longrightarrow> Endpoint_BytesInEndpoint io s =
     (ucast (of_nat (length (if c_setup (get s) \<or> c_out (get s) then c_rx (get s) else c_tx (get s))) :: u8), s)"
  by (simp add: Endpoint_BytesInEndpoint_def rd_ctl ctl_regs_def ctl_rd_def laws put_get)

lemma clear_setup: "sel s \<Longrightarrow> Endpoint_ClearSETUP io s =
   put (ctl_ack (ctl_intx (ctl_poll (get s)) AND NOT (BV RXSTPI)) (ctl_poll (get s))) s"
  by (simp add: Endpoint_ClearSETUP_def clr_reg_def rd_intx wr_intx laws)

lemma clear_in: "sel s \<Longrightarrow> Endpoint_ClearIN io s =
   (let c = ctl_poll (get s); v = ctl_intx c
    in put (ctl_ack (v AND NOT (BV FIFOCON)) (ctl_ack (v AND NOT (BV TXINI)) c)) s)"
  by (simp add: Endpoint_ClearIN_def rd_intx wr_intx laws Let_def)

lemma clear_out: "sel s \<Longrightarrow> Endpoint_ClearOUT io s =
   (let c = ctl_poll (get s); v = ctl_intx c
    in put (ctl_ack (v AND NOT (BV FIFOCON)) (ctl_ack (v AND NOT (BV RXOUTI)) c)) s)"
  by (simp add: Endpoint_ClearOUT_def rd_intx wr_intx laws Let_def)

text \<open>Waiting for a flag that the host's next action sets.\<close>

lemma flag_wait:
  assumes "sel s" "dstate s \<noteq> 0" "bit (ctl_intx (host_act ((get s)\<lparr>c_wait := 0\<rparr>))) n"
  shows "\<exists>c. flag_wait io n s = Some (True, put c s) \<and>
    (c = host_act ((get s)\<lparr>c_wait := 0\<rparr>) \<or> bit (ctl_intx (get s)) n \<and> (\<exists>w. c = (get s)\<lparr>c_wait := w\<rparr>))"
  using assms
proof (induction "c_wait (get s)" arbitrary: s)
  case 0
  then have e: "(get s)\<lparr>c_wait := 0\<rparr> = get s" by simp
  show ?case
    unfolding e using 0 unfolding e by (subst flag_wait.simps) (auto simp: test_intx ctl_poll_def)
next
  case (Suc w)
  let ?c = "(get s)\<lparr>c_wait := w\<rparr>"
  have p: "ctl_poll (get s) = ?c" using Suc.hyps(2) by (simp add: ctl_poll_def flip: Suc.hyps(2))
  have i: "ctl_intx ?c = ctl_intx (get s)" by (simp add: ctl_intx_def)
  show ?case
  proof (cases "bit (ctl_intx (get s)) n")
    case True
    then have "flag_wait io n s = Some (True, put ?c s)"
      using Suc.prems by (subst flag_wait.simps) (simp add: test_intx p i)
    then show ?thesis using True by blast
  next
    case False
    then have "flag_wait io n s = flag_wait io n (put ?c s)"
      using Suc.prems by (subst flag_wait.simps) (simp add: test_intx p i dev_state laws)
    moreover have "w = c_wait (get (put ?c s))" by (simp add: laws)
    from Suc.hyps(1) [OF this] Suc.prems
    obtain c where "flag_wait io n (put ?c s) = Some (True, put c (put ?c s))"
      "c = host_act (?c\<lparr>c_wait := 0\<rparr>) \<or> bit (ctl_intx ?c) n \<and> (\<exists>w. c = ?c\<lparr>c_wait := w\<rparr>)"
      by (auto simp: laws)
    ultimately show ?thesis using False i by (auto simp: laws)
  qed
qed

end

section \<open>The IN data stage\<close>

text \<open>
  The packets of a transfer of \<open>data\<close> to a host that asked for \<open>r\<close> bytes: packets of eight, until
  the host has what it asked for or a short packet ends the stage.
\<close>

function packets :: "nat \<Rightarrow> u8 list \<Rightarrow> u8 list list" where
  "packets r data =
     (if length data < USB_ControlEndpointSize \<or> r \<le> USB_ControlEndpointSize then [take USB_ControlEndpointSize data]
      else take USB_ControlEndpointSize data # packets (r - USB_ControlEndpointSize) (drop USB_ControlEndpointSize data))"
  by auto
termination by (relation "measure (\<lambda>(r, data). length data)") auto

declare packets.simps [simp del]

lemma packets_concat: "length data \<le> r \<Longrightarrow> concat (packets r data) = data"
proof (induction r data rule: packets.induct)
  case (1 r data)
  show ?case
  proof (cases "length data < 8 \<or> r \<le> 8")
    case True
    then show ?thesis using 1(2) by (subst packets.simps) auto
  next
    case False
    then show ?thesis using 1 by (subst packets.simps) simp
  qed
qed

lemma packets_size: "p \<in> set (packets r data) \<Longrightarrow> length p \<le> 8"
proof (induction r data rule: packets.induct)
  case (1 r data)
  then show ?case by (subst (asm) (2) packets.simps) (auto split: if_splits)
qed

text \<open>The firmware owns the endpoint and the host waits for \<open>r\<close> more bytes.\<close>

definition in_stage :: "nat \<Rightarrow> ctl \<Rightarrow> bool" where
  "in_stage r c \<longleftrightarrow> c_host c = H_In r \<and> \<not> c_setup c \<and> \<not> c_out c \<and> c_tx c = []"

text \<open>The data have been taken and the status packet of the host is on its way or there.\<close>

definition at_status :: "u8 list list \<Rightarrow> ctl \<Rightarrow> bool" where
  "at_status got c \<longleftrightarrow> c_got c = got \<and> \<not> c_setup c \<and> c_tx c = [] \<and> c_rx c = [] \<and>
     (c_host c = H_OutStatus \<and> \<not> c_out c \<or> c_host c = H_Done \<and> c_out c)"

lemma poll_in_stage:
  assumes "in_stage r c"
  shows "\<exists>w b. ctl_poll c = c\<lparr>c_in := b, c_wait := w\<rparr> \<and> w \<le> c_wait c \<and> (b \<or> w < c_wait c)"
proof (cases "c_wait c")
  case 0
  then have "ctl_poll c = c\<lparr>c_in := True, c_wait := 0\<rparr>"
    using assms by (simp add: ctl_poll_def host_act_def in_stage_def)
  then show ?thesis using 0 by blast
next
  case (Suc w)
  then have "ctl_poll c = c\<lparr>c_in := c_in c, c_wait := w\<rparr>" by (simp add: ctl_poll_def)
  then show ?thesis using Suc by (intro exI [of _ w] exI [of _ "c_in c"]) simp
qed

lemma bank_upd: "c\<lparr>c_in := b1, c_wait := w1, c_in := b, c_wait := w\<rparr> = c\<lparr>c_in := b, c_wait := w\<rparr>"
  "c_wait (c\<lparr>c_in := b, c_wait := w\<rparr>) = w"
  by simp_all

lemma in_already: "c_in c \<Longrightarrow> c\<lparr>c_in := True\<rparr> = c"
  by (cases c) simp

lemma in_stage_upd [simp]: "in_stage r (c\<lparr>c_in := b, c_wait := w\<rparr>) = in_stage r c"
  "in_stage r (c\<lparr>c_wait := w\<rparr>) = in_stage r c" "in_stage r (c\<lparr>c_in := b\<rparr>) = in_stage r c"
  by (simp_all add: in_stage_def)

context ctl_bus
begin

text \<open>Three polls in the IN stage: the bank is free at the end, or time has passed.\<close>

lemma three_polls:
  assumes "in_stage r c"
  shows "\<exists>w1 b1 w2 b2 w b. ctl_poll c = c\<lparr>c_in := b1, c_wait := w1\<rparr> \<and>
    ctl_poll (ctl_poll c) = c\<lparr>c_in := b2, c_wait := w2\<rparr> \<and>
    ctl_poll (ctl_poll (ctl_poll c)) = c\<lparr>c_in := b, c_wait := w\<rparr> \<and> (b \<or> w < c_wait c)"
proof -
  obtain w1 b1 where 1: "ctl_poll c = c\<lparr>c_in := b1, c_wait := w1\<rparr>" "w1 \<le> c_wait c"
    using poll_in_stage [OF assms] by blast
  have s1: "in_stage r (c\<lparr>c_in := b1, c_wait := w1\<rparr>)" using assms by (simp only: in_stage_upd)
  obtain w2 b2 where 2: "ctl_poll (ctl_poll c) = c\<lparr>c_in := b2, c_wait := w2\<rparr>" "w2 \<le> w1"
    using poll_in_stage [OF s1] unfolding 1(1) bank_upd by blast
  have s2: "in_stage r (c\<lparr>c_in := b2, c_wait := w2\<rparr>)" using assms by (simp only: in_stage_upd)
  obtain w b where 3: "ctl_poll (ctl_poll (ctl_poll c)) = c\<lparr>c_in := b, c_wait := w\<rparr>" "b \<or> w < w2"
    using poll_in_stage [OF s2] unfolding 2(1) bank_upd by blast
  have "b \<or> w < c_wait c" using 1(2) 2(2) 3(2) by linarith
  then show ?thesis using 1(1) 2(1) 3(1) by blast
qed

lemma fill_packet:
  assumes "sel s" "c_in (get s)" "length (c_tx (get s)) = n" "n \<le> 8"
  shows "fill_packet io bytes n s = (drop (8 - n) bytes, n + length (take (8 - n) bytes),
     put ((get s)\<lparr>c_tx := c_tx (get s) @ take (8 - n) bytes\<rparr>) s)"
  using assms
proof (induction bytes arbitrary: n s)
  case Nil
  then show ?case by (simp add: put_get)
next
  case (Cons b bytes)
  show ?case
  proof (cases "n < 8")
    case True
    let ?s = "put ((get s)\<lparr>c_tx := c_tx (get s) @ [b]\<rparr>) s"
    have w: "Endpoint_Write_Byte io b s = ?s" using Cons.prems True by (simp add: write_byte ctl_wr_def)
    have "fill_packet io bytes (Suc n) ?s = (drop (8 - Suc n) bytes, Suc n + length (take (8 - Suc n) bytes),
        put ((get ?s)\<lparr>c_tx := c_tx (get ?s) @ take (8 - Suc n) bytes\<rparr>) ?s)"
      using Cons.prems True by (intro Cons.IH) (simp_all add: laws)
    moreover have "8 - n = Suc (8 - Suc n)" using True by simp
    ultimately show ?thesis using True w by (simp add: laws)
  next
    case False
    then show ?thesis using Cons.prems by (simp add: put_get)
  qed
qed

text \<open>Handing over a packet to a host that wants it.\<close>

lemma send_packet:
  assumes "sel s" "c_in (get s)" "c_host (get s) = H_In r" "\<not> c_setup (get s)" "\<not> c_out (get s)"
  shows "Endpoint_ClearIN io s = put (take_in (c_tx (get s))
     ((get s)\<lparr>c_tx := [], c_in := False, c_wait := c_lat (get s)\<rparr>)) s"
proof -
  obtain w where p: "ctl_poll (get s) = (get s)\<lparr>c_wait := w\<rparr>"
  proof (cases "c_wait (get s)")
    case 0
    then have "ctl_poll (get s) = (get s)\<lparr>c_wait := c_wait (get s)\<rparr>"
      using assms by (simp add: ctl_poll_def host_act_def in_already)
    then show ?thesis by (rule that)
  next
    case (Suc w)
    then have "ctl_poll (get s) = (get s)\<lparr>c_wait := w\<rparr>" by (simp add: ctl_poll_def)
    then show ?thesis by (rule that)
  qed
  show ?thesis
    using assms
    by (simp add: clear_in Let_def p ctl_ack_def ctl_intx_def take_in_def bit_or_iff bit_and_iff bit_not_iff)
qed

lemma write_round:
  assumes "sel s" "dstate s \<noteq> 0" "in_stage r (get s)"
  shows "(\<exists>w b. write_control_round io bytes L s = (Next (bytes, L), put ((get s)\<lparr>c_in := b, c_wait := w\<rparr>) s) \<and> w < c_wait (get s)) \<or>
    write_control_round io bytes L s = (Next (drop 8 bytes, 8 \<le> length bytes),
      put (take_in (take 8 bytes) ((get s)\<lparr>c_in := False, c_wait := c_lat (get s)\<rparr>)) s)"
proof -
  let ?c = "get s"
  obtain w1 b1 w2 b2 w b where p: "ctl_poll ?c = ?c\<lparr>c_in := b1, c_wait := w1\<rparr>"
    "ctl_poll (ctl_poll ?c) = ?c\<lparr>c_in := b2, c_wait := w2\<rparr>"
    "ctl_poll (ctl_poll (ctl_poll ?c)) = ?c\<lparr>c_in := b, c_wait := w\<rparr>" "b \<or> w < c_wait ?c"
    using three_polls [OF assms(3)] by blast
  have st: "c_host ?c = H_In r" "\<not> c_setup ?c" "\<not> c_out ?c" "c_tx ?c = []" using assms(3) by (simp_all add: in_stage_def)
  let ?d = "?c\<lparr>c_in := b, c_wait := w\<rparr>"
  show ?thesis
  proof (cases b)
    case False
    then have "write_control_round io bytes L s = (Next (bytes, L), put ?d s)"
      using assms(1,2) p st by (simp add: write_control_round_def flags dev_state laws)
    then show ?thesis using p(4) False by blast
  next
    case True
    let ?e = "?d\<lparr>c_tx := take 8 bytes\<rparr>"
    have f: "fill_packet io bytes 0 (put ?d s) = (drop 8 bytes, length (take 8 bytes), put ?e s)"
      using fill_packet [of "put ?d s" 0 bytes] assms(1) st True by (simp add: laws)
    have n: "Endpoint_BytesInEndpoint io (put ?d s) = (0, put ?d s)"
      using assms(1) st by (simp add: byte_count laws)
    have e: "Endpoint_ClearIN io (put ?e s) =
        put (take_in (take 8 bytes) (?e\<lparr>c_tx := [], c_in := False, c_wait := c_lat ?c\<rparr>)) s"
      using send_packet [of "put ?e s" r] assms(1) st True by (simp add: laws)
    have "?e\<lparr>c_tx := [], c_in := False, c_wait := c_lat ?c\<rparr> = ?c\<lparr>c_in := False, c_wait := c_lat ?c\<rparr>"
      using st by simp
    moreover have "write_control_round io bytes L s = (Next (drop 8 bytes, 8 \<le> length bytes), Endpoint_ClearIN io (put ?e s))"
      using assms(1,2) p st f n True by (simp add: write_control_round_def flags dev_state laws min_def)
    ultimately show ?thesis unfolding e by simp
  qed
qed

lemma poll_status:
  assumes "at_status got c"
  shows "at_status got (ctl_poll c) \<and> (c_out (ctl_poll c) \<or> c_wait (ctl_poll c) < c_wait c)"
proof (cases "c_wait c")
  case 0
  then show ?thesis using assms by (auto simp: ctl_poll_def host_act_def at_status_def)
next
  case (Suc w)
  then show ?thesis using assms by (auto simp: ctl_poll_def at_status_def)
qed

lemma ack_status:
  assumes "at_status got c" "bit v RXOUTI = c_out c"
  shows "at_status got (ctl_ack v c) \<and> c_out (ctl_ack v c) = c_out c"
  using assms by (cases "c_in c \<and> \<not> bit v TXINI") (auto simp: at_status_def ctl_ack_def take_in_def)

lemma bit_ctl_intx:
  "bit (ctl_intx c) RXOUTI = c_out c" "bit (ctl_intx c) TXINI = c_in c" "bit (ctl_intx c) RXSTPI = c_setup c"
  by (simp_all add: ctl_intx_def bit_or_iff)

lemma status_round:
  assumes "sel s" "dstate s \<noteq> 0" "at_status got (get s)"
  shows "\<exists>c. at_status got c \<and>
    (write_control_round io [] L s = (Return None, put c s) \<or>
     write_control_round io [] L s = (Next ([], False), put c s) \<or>
     write_control_round io [] L s = (Next ([], L), put c s) \<and> c_wait c < c_wait (get s))"
proof -
  let ?c1 = "ctl_poll (get s)"
  let ?c2 = "ctl_poll ?c1"
  let ?c3 = "ctl_poll ?c2"
  have a: "at_status got ?c1" "c_out ?c1 \<or> c_wait ?c1 < c_wait (get s)" using poll_status [OF assms(3)] by simp_all
  have b: "at_status got ?c2" "c_out ?c2 \<or> c_wait ?c2 < c_wait ?c1" using poll_status [OF a(1)] by simp_all
  have c: "at_status got ?c3" "c_out ?c3 \<or> c_wait ?c3 < c_wait ?c2" using poll_status [OF b(1)] by simp_all
  have ns: "\<not> c_setup ?c1" using a(1) by (simp add: at_status_def)
  show ?thesis
  proof (cases "c_out ?c2")
    case True
    then show ?thesis using assms ns b(1)
      by (intro exI [of _ ?c2]) (simp add: write_control_round_def flags dev_state laws)
  next
    case out: False
    have out1: "\<not> c_out ?c1"
      using out a(1) by (auto simp: ctl_poll_def host_act_def at_status_def split: if_splits)
    show ?thesis
    proof (cases "c_in ?c3")
      case False
      have "c_wait ?c3 < c_wait (get s)"
      proof -
        have "\<not> c_out ?c3" using False b(1) out by (auto simp: ctl_poll_def host_act_def at_status_def split: if_splits)
        then show ?thesis using a(2) b(2) c(2) out out1 by simp
      qed
      then show ?thesis using assms ns out c(1) False
        by (intro exI [of _ ?c3]) (simp add: write_control_round_def flags dev_state laws)
    next
      case True
      let ?c4 = "ctl_poll ?c3"
      let ?v = "ctl_intx ?c4"
      let ?c5 = "ctl_ack (?v AND NOT (BV FIFOCON)) (ctl_ack (?v AND NOT (BV TXINI)) ?c4)"
      have d: "at_status got ?c4" using poll_status [OF c(1)] by simp
      have empty: "c_rx ?c3 = []" "c_tx ?c3 = []" "\<not> c_setup ?c3" using c(1) by (simp_all add: at_status_def)
      have "at_status got ?c5"
        using ack_status [OF d, of "?v AND NOT (BV TXINI)"]
          ack_status [of got "ctl_ack (?v AND NOT (BV TXINI)) ?c4" "?v AND NOT (BV FIFOCON)"]
        by (simp add: bit_ctl_intx bit_and_iff bit_not_iff)
      moreover have "write_control_round io [] L s = (Next ([], False), put ?c5 s)"
        using assms ns out True empty
        by (simp add: write_control_round_def flags dev_state laws byte_count clear_in Let_def)
      ultimately show ?thesis by blast
    qed
  qed
qed

lemma status_loop:
  assumes "sel s" "dstate s \<noteq> 0" "at_status got (get s)"
  shows "\<exists>c. write_control_loop io [] L s = Some (None, put c s) \<and> at_status got c"
  using assms
proof (induction "c_wait (get s)" arbitrary: s L rule: less_induct)
  case less
  have fin: "\<exists>c. write_control_loop io [] False t = Some (None, put c s) \<and> at_status got c" if "t = put c s" "at_status got c" for t c
    using that by (subst write_control_loop.simps) auto
  obtain c where c: "at_status got c"
    "write_control_round io [] L s = (Return None, put c s) \<or>
     write_control_round io [] L s = (Next ([], False), put c s) \<or>
     write_control_round io [] L s = (Next ([], L), put c s) \<and> c_wait c < c_wait (get s)"
    using status_round [OF less.prems] by blast
  show ?case
  proof (cases L)
    case False
    then show ?thesis using less.prems(3) put_get [of s] by (subst write_control_loop.simps) (auto intro!: exI [of _ "get s"])
  next
    case L: True
    from c(2) show ?thesis
    proof (elim disjE conjE)
      assume "write_control_round io [] L s = (Return None, put c s)"
      then show ?thesis using c(1) L by (subst write_control_loop.simps) auto
    next
      assume "write_control_round io [] L s = (Next ([], False), put c s)"
      then show ?thesis using fin [OF refl c(1)] L by (subst write_control_loop.simps) simp
    next
      assume r: "write_control_round io [] L s = (Next ([], L), put c s)" "c_wait c < c_wait (get s)"
      then have "\<exists>c'. write_control_loop io [] L (put c s) = Some (None, put c' (put c s)) \<and> at_status got c'"
        using less.hyps [of "put c s" L] less.prems c(1) by (simp add: laws)
      then show ?thesis using r(1) L by (subst write_control_loop.simps) (simp add: laws)
    qed
  qed
qed

lemma data_stage:
  assumes "sel s" "dstate s \<noteq> 0" "in_stage r (get s)" "c_rx (get s) = []" "length bytes \<le> r" "bytes \<noteq> [] \<or> L"
  shows "\<exists>c. write_control_loop io bytes L s = Some (None, put c s) \<and> at_status (c_got (get s) @ packets r bytes) c"
  using assms
proof (induction "(r, c_wait (get s))" arbitrary: r s bytes L rule: wf_induct_rule [OF wf_lex_prod [OF wf_less wf_less]])
  case 1
  let ?c = "get s"
  have unfold: "write_control_loop io bytes L s =
      (case write_control_round io bytes L s of (Return r, s) \<Rightarrow> Some (r, s)
       | (Next l, s) \<Rightarrow> write_control_loop io (fst l) (snd l) s)"
    by (rule trans [OF write_control_loop.simps if_not_P]) (use 1(7) in blast)
  from write_round [OF 1(2-4), of bytes L] show ?case
  proof (elim disjE exE conjE)
    fix w b
    assume r: "write_control_round io bytes L s = (Next (bytes, L), put (?c\<lparr>c_in := b, c_wait := w\<rparr>) s)" "w < c_wait ?c"
    let ?s = "put (?c\<lparr>c_in := b, c_wait := w\<rparr>) s"
    have "\<exists>c. write_control_loop io bytes L ?s = Some (None, put c ?s) \<and> at_status (c_got (get ?s) @ packets r bytes) c"
      by (rule 1(1)) (use 1(2-) r(2) in \<open>simp_all add: laws\<close>)
    then show ?thesis using unfold r(1) by (simp add: laws)
  next
    let ?p = "take 8 bytes" and ?d = "?c\<lparr>c_in := False, c_wait := c_lat ?c\<rparr>"
    assume r: "write_control_round io bytes L s = (Next (drop 8 bytes, 8 \<le> length bytes), put (take_in ?p ?d) s)"
    have st: "c_host ?c = H_In r" "\<not> c_setup ?c" "\<not> c_out ?c" "c_tx ?c = []" using 1(4) by (simp_all add: in_stage_def)
    let ?s = "put (take_in ?p ?d) s"
    show ?thesis
    proof (cases "length bytes < 8 \<or> r \<le> 8")
      case True
      have "at_status (c_got ?c @ [?p]) (get ?s)"
        using True st 1(5,6) by (auto simp: take_in_def at_status_def laws)
      then obtain c where "write_control_loop io [] (8 \<le> length bytes) ?s = Some (None, put c ?s)"
        "at_status (c_got ?c @ [?p]) c"
        using status_loop [of ?s] 1(2,3) by (auto simp: laws)
      moreover have "drop 8 bytes = []" using True 1(6) by auto
      moreover have "packets r bytes = [?p]" using True by (subst packets.simps) simp
      ultimately show ?thesis using unfold r by (intro exI [of _ c]) (simp add: laws)
    next
      case False
      have g: "take_in ?p ?d = ?d\<lparr>c_got := c_got ?c @ [?p], c_host := H_In (r - 8)\<rparr>"
        using False st by (simp add: take_in_def)
      have "\<exists>c. write_control_loop io (drop 8 bytes) True ?s = Some (None, put c ?s) \<and>
          at_status (c_got (get ?s) @ packets (r - 8) (drop 8 bytes)) c"
        by (rule 1(1)) (use False st 1(2-6) g in \<open>auto simp: laws in_stage_def\<close>)
      moreover have "packets r bytes = ?p # packets (r - 8) (drop 8 bytes)" using False by (subst packets.simps) simp
      ultimately show ?thesis using unfold r False g by (simp add: laws)
    qed
  qed
qed

lemma write_control_stream:
  assumes "sel s" "dstate s \<noteq> 0" "in_stage (unat (wLength req)) (get s)" "c_rx (get s) = []"
    "wLength req \<noteq> 0" "Buffer \<noteq> []"
  shows "\<exists>c. Endpoint_Write_Control_Stream_LE io req Buffer s = Some (CTL_NoError, put c s) \<and> c_out c \<and>
    at_status (c_got (get s) @ packets (unat (wLength req)) (take (unat (wLength req)) Buffer)) c"
proof -
  let ?L = "unat (wLength req)"
  let ?b = "take ?L Buffer"
  have ne: "?L \<noteq> 0" using assms(5) by (simp add: unat_eq_0)
  obtain c where c: "write_control_loop io ?b False s = Some (None, put c s)"
    "at_status (c_got (get s) @ packets ?L ?b) c"
    using data_stage [OF assms(1-4), of ?b False] assms(6) ne by auto
  let ?c = "host_act (c\<lparr>c_wait := 0\<rparr>)"
  have st: "at_status (c_got (get s) @ packets ?L ?b) ?c \<and> c_out ?c"
    using c(2) by (auto simp: at_status_def host_act_def)
  obtain d where d: "flag_wait io RXOUTI (put c s) = Some (True, put d s)"
    "d = ?c \<or> c_out c \<and> (\<exists>w. d = c\<lparr>c_wait := w\<rparr>)"
    using flag_wait [of "put c s" RXOUTI] st assms(1,2) by (auto simp: laws bit_ctl_intx)
  have "at_status (c_got (get s) @ packets ?L ?b) d \<and> c_out d"
    using d(2) c(2) st by (auto simp: at_status_def)
  moreover have "(if length Buffer > ?L then (?b, s) else if Buffer = [] then (Buffer, Endpoint_ClearIN io s)
      else (Buffer, s)) = (?b, s)" using assms(6) by simp
  ultimately show ?thesis
    unfolding Endpoint_Write_Control_Stream_LE_def Endpoint_Write_Control_Stream_def
    using c(1) d(1) by (intro exI [of _ d]) simp
qed

text \<open>The status stage: the OUT packet is acknowledged and the transfer is over.\<close>

lemma finish_status:
  assumes "sel s" "at_status got (get s)" "c_out (get s)"
  shows "\<exists>c. Endpoint_ClearOUT io s = put c s \<and> c_host c = H_Done \<and> c_got c = got \<and>
    \<not> c_out c \<and> \<not> c_setup c \<and> c_stall c = c_stall (get s)"
proof -
  have "c_host (ctl_poll (get s)) = H_Done" "c_got (ctl_poll (get s)) = got" "c_out (ctl_poll (get s))"
    "\<not> c_setup (ctl_poll (get s))" "c_stall (ctl_poll (get s)) = c_stall (get s)"
    using assms(2,3) by (auto simp: ctl_poll_def host_act_def at_status_def)
  then show ?thesis
    using assms(1)
    by (intro exI [of _ "let c = ctl_poll (get s) in
          ctl_ack (ctl_intx c AND NOT (BV FIFOCON)) (ctl_ack (ctl_intx c AND NOT (BV RXOUTI)) c)"])
      (simp add: clear_out Let_def ctl_ack_def take_in_def bit_ctl_intx bit_and_iff bit_not_iff)
qed

end

end
