(* ===== verification/Scsi.thy ===== *)
theory Scsi
  imports DataflashManager
begin

text \<open>
  \<open>poc/MassStorage/Lib/SCSI.c\<close>: the SCSI commands of the mass storage device, over the structures
  of \<open>LUFA/Drivers/USB/Class/Common/MassStorage.h\<close>.  The driver's own memory (the class structure
  and the sense data) is the record \<open>dev\<close>, threaded beside the machine state; only the flag
  \<open>IsMassStoreReset\<close>, which an interrupt sets, is a volatile location of the machine.
\<close>

section \<open>Structures\<close>

record MS_CommandBlockWrapper_t =
  Signature :: u32
  Tag :: u32
  DataTransferLength :: u32
  Flags :: u8
  LUN :: u8
  SCSICommandLength :: u8
  SCSICommandData :: "u8 list"

record MS_CommandStatusWrapper_t =
  StatusSignature :: u32
  StatusTag :: u32
  DataTransferResidue :: u32
  Status :: u8

record MS_Config =
  InterfaceNumber :: u8
  DataINEndpointNumber :: u8
  DataINEndpointSize :: u16
  DataINEndpointDoubleBank :: bool
  DataOUTEndpointNumber :: u8
  DataOUTEndpointSize :: u16
  DataOUTEndpointDoubleBank :: bool
  TotalLUNs :: u8

record SCSI_Request_Sense_Response_t =
  ResponseCode :: u8
  SegmentNumber :: u8
  SenseKey :: u8
  ILI :: bool
  EOM :: bool
  FileMark :: bool
  Information :: "u8 list"
  AdditionalLength :: u8
  CmdSpecificInformation :: "u8 list"
  AdditionalSenseCode :: u8
  AdditionalSenseQualifier :: u8
  FieldReplaceableUnitCode :: u8
  SenseKeySpecific :: "u8 list"

text \<open>The bytes of the structure; bit fields fill a byte from its lowest bit, \<open>SenseKey\<close> has four bits.\<close>

definition flag_bit :: "nat \<Rightarrow> bool \<Rightarrow> u8" where
  "flag_bit n b = (if b then BV n else 0)"

definition sense_bytes :: "SCSI_Request_Sense_Response_t \<Rightarrow> u8 list" where
  "sense_bytes r =
     [ResponseCode r, SegmentNumber r,
      (SenseKey r AND 0x0F) OR flag_bit 5 (ILI r) OR flag_bit 6 (EOM r) OR flag_bit 7 (FileMark r)]
     @ Information r @ [AdditionalLength r] @ CmdSpecificInformation r
     @ [AdditionalSenseCode r, AdditionalSenseQualifier r, FieldReplaceableUnitCode r] @ SenseKeySpecific r"

record SCSI_Inquiry_Response_t =
  DeviceType :: u8
  PeripheralQualifier :: u8
  Removable :: bool
  Version :: u8
  ResponseDataFormat :: u8
  NormACA :: bool
  TrmTsk :: bool
  AERC :: bool
  InquiryAdditionalLength :: u8
  SoftReset :: bool
  CmdQue :: bool
  Linked :: bool
  Sync :: bool
  WideBus16Bit :: bool
  WideBus32Bit :: bool
  RelAddr :: bool
  VendorID :: "u8 list"
  ProductID :: "u8 list"
  RevisionID :: "u8 list"

definition inquiry_bytes :: "SCSI_Inquiry_Response_t \<Rightarrow> u8 list" where
  "inquiry_bytes r =
     [(DeviceType r AND 0x1F) OR push_bit 5 (PeripheralQualifier r), flag_bit 7 (Removable r), Version r,
      (ResponseDataFormat r AND 0x0F) OR flag_bit 5 (NormACA r) OR flag_bit 6 (TrmTsk r) OR flag_bit 7 (AERC r),
      InquiryAdditionalLength r, 0, 0,
      flag_bit 0 (SoftReset r) OR flag_bit 1 (CmdQue r) OR flag_bit 3 (Linked r) OR flag_bit 4 (Sync r) OR
      flag_bit 5 (WideBus16Bit r) OR flag_bit 6 (WideBus32Bit r) OR flag_bit 7 (RelAddr r)]
     @ VendorID r @ ProductID r @ RevisionID r"

text \<open>A string initialiser of a character array of the given size.\<close>

definition char_array :: "nat \<Rightarrow> u8 list \<Rightarrow> u8 list" where
  "char_array n cs = take n (cs @ replicate n 0)"

definition InquiryData :: SCSI_Inquiry_Response_t where
  "InquiryData =
     \<lparr>DeviceType = 0x00, PeripheralQualifier = 0, Removable = True, Version = 0, ResponseDataFormat = 2,
      NormACA = False, TrmTsk = False, AERC = False, InquiryAdditionalLength = 0x1F, SoftReset = False,
      CmdQue = False, Linked = False, Sync = False, WideBus16Bit = False, WideBus32Bit = False, RelAddr = False,
      VendorID = char_array 8 [0x4C, 0x55, 0x46, 0x41],
      ProductID = char_array 16 [0x44, 0x61, 0x74, 0x61, 0x66, 0x6C, 0x61, 0x73, 0x68, 0x20, 0x44, 0x69, 0x73, 0x6B],
      RevisionID = [0x30, 0x2E, 0x30, 0x30]\<rparr>"

definition InitialSenseData :: SCSI_Request_Sense_Response_t where
  "InitialSenseData =
     \<lparr>ResponseCode = 0x70, SegmentNumber = 0, SenseKey = 0, ILI = False, EOM = False, FileMark = False,
      Information = [0, 0, 0, 0], AdditionalLength = 0x0A, CmdSpecificInformation = [0, 0, 0, 0],
      AdditionalSenseCode = 0, AdditionalSenseQualifier = 0, FieldReplaceableUnitCode = 0,
      SenseKeySpecific = [0, 0, 0]\<rparr>"

record dev =
  Config :: MS_Config
  CommandBlock :: MS_CommandBlockWrapper_t
  CommandStatus :: MS_CommandStatusWrapper_t
  SenseData :: SCSI_Request_Sense_Response_t

section \<open>Constants\<close>

abbreviation (input) SCSI_CMD_INQUIRY :: u8 where "SCSI_CMD_INQUIRY \<equiv> 0x12"
abbreviation (input) SCSI_CMD_REQUEST_SENSE :: u8 where "SCSI_CMD_REQUEST_SENSE \<equiv> 0x03"
abbreviation (input) SCSI_CMD_TEST_UNIT_READY :: u8 where "SCSI_CMD_TEST_UNIT_READY \<equiv> 0x00"
abbreviation (input) SCSI_CMD_READ_CAPACITY_10 :: u8 where "SCSI_CMD_READ_CAPACITY_10 \<equiv> 0x25"
abbreviation (input) SCSI_CMD_SEND_DIAGNOSTIC :: u8 where "SCSI_CMD_SEND_DIAGNOSTIC \<equiv> 0x1D"
abbreviation (input) SCSI_CMD_PREVENT_ALLOW_MEDIUM_REMOVAL :: u8
  where "SCSI_CMD_PREVENT_ALLOW_MEDIUM_REMOVAL \<equiv> 0x1E"
abbreviation (input) SCSI_CMD_WRITE_10 :: u8 where "SCSI_CMD_WRITE_10 \<equiv> 0x2A"
abbreviation (input) SCSI_CMD_READ_10 :: u8 where "SCSI_CMD_READ_10 \<equiv> 0x28"
abbreviation (input) SCSI_CMD_VERIFY_10 :: u8 where "SCSI_CMD_VERIFY_10 \<equiv> 0x2F"
abbreviation (input) SCSI_SENSE_KEY_GOOD :: u8 where "SCSI_SENSE_KEY_GOOD \<equiv> 0x00"
abbreviation (input) SCSI_SENSE_KEY_HARDWARE_ERROR :: u8 where "SCSI_SENSE_KEY_HARDWARE_ERROR \<equiv> 0x04"
abbreviation (input) SCSI_SENSE_KEY_ILLEGAL_REQUEST :: u8 where "SCSI_SENSE_KEY_ILLEGAL_REQUEST \<equiv> 0x05"
abbreviation (input) SCSI_ASENSE_NO_ADDITIONAL_INFORMATION :: u8
  where "SCSI_ASENSE_NO_ADDITIONAL_INFORMATION \<equiv> 0x00"
abbreviation (input) SCSI_ASENSE_INVALID_FIELD_IN_CDB :: u8 where "SCSI_ASENSE_INVALID_FIELD_IN_CDB \<equiv> 0x24"
abbreviation (input) SCSI_ASENSE_INVALID_COMMAND :: u8 where "SCSI_ASENSE_INVALID_COMMAND \<equiv> 0x20"
abbreviation (input) SCSI_ASENSE_LOGICAL_BLOCK_ADDRESS_OUT_OF_RANGE :: u8
  where "SCSI_ASENSE_LOGICAL_BLOCK_ADDRESS_OUT_OF_RANGE \<equiv> 0x21"
abbreviation (input) SCSI_ASENSEQ_NO_QUALIFIER :: u8 where "SCSI_ASENSEQ_NO_QUALIFIER \<equiv> 0x00"
abbreviation (input) TOTAL_LUNS :: nat where "TOTAL_LUNS \<equiv> 1"

definition LUN_MEDIA_BLOCKS :: u32 where
  "LUN_MEDIA_BLOCKS = VIRTUAL_MEMORY_BLOCKS div of_nat TOTAL_LUNS"

definition SCSI_SET_SENSE :: "u8 \<Rightarrow> u8 \<Rightarrow> u8 \<Rightarrow> dev \<Rightarrow> dev" where
  "SCSI_SET_SENSE key acode aqual d =
     d\<lparr>SenseData := (SenseData d)\<lparr>SenseKey := key AND 0x0F, AdditionalSenseCode := acode,
        AdditionalSenseQualifier := aqual\<rparr>\<rparr>"

definition cdb :: "dev \<Rightarrow> nat \<Rightarrow> u8" where
  "cdb d n = SCSICommandData (CommandBlock d) ! n"

definition set_residue :: "(u32 \<Rightarrow> u32) \<Rightarrow> dev \<Rightarrow> dev" where
  "set_residue f d =
     d\<lparr>CommandBlock := (CommandBlock d)\<lparr>DataTransferLength := f (DataTransferLength (CommandBlock d))\<rparr>\<rparr>"

section \<open>The commands\<close>

text \<open>
  \<open>stack n\<close> is what an uninitialised array of \<open>n\<close> bytes on the stack happens to hold.  The result
  of the stream functions is ignored, as in the code.
\<close>

definition stream_out :: "('h \<Rightarrow> (ep_error \<times> 'h) option) \<Rightarrow> 'h \<Rightarrow> 'h option" where
  "stream_out f s = map_option snd (f s)"

definition SCSI_Command_Inquiry :: "'h mmio \<Rightarrow> (nat \<Rightarrow> u8 list) \<Rightarrow> dev \<Rightarrow> 'h \<Rightarrow> (dev \<times> 'h) option" where
  "SCSI_Command_Inquiry io stack d s =
     (let AllocationLength = push_bit 8 (ucast (cdb d 3)) OR ucast (cdb d 4) :: u16;
          BytesTransferred = (if AllocationLength < of_nat (length (inquiry_bytes InquiryData)) then AllocationLength
                              else of_nat (length (inquiry_bytes InquiryData)))
      in if cdb d 1 AND (BV 0 OR BV 1) \<noteq> 0 \<or> cdb d 2 \<noteq> 0 then
           Some (SCSI_SET_SENSE SCSI_SENSE_KEY_ILLEGAL_REQUEST SCSI_ASENSE_INVALID_FIELD_IN_CDB
                   SCSI_ASENSEQ_NO_QUALIFIER d, s)
         else do {
           s \<leftarrow> stream_out (Endpoint_Write_Stream_LE io None
                    (take (unat BytesTransferred) (inquiry_bytes InquiryData))) s;
           s \<leftarrow> stream_out (Endpoint_Write_Stream_LE io None (stack (unat (AllocationLength - BytesTransferred)))) s;
           Some (set_residue (\<lambda>n. n - ucast BytesTransferred) d, Endpoint_ClearIN io s)
         })"

definition SCSI_Command_Request_Sense :: "'h mmio \<Rightarrow> (nat \<Rightarrow> u8 list) \<Rightarrow> dev \<Rightarrow> 'h \<Rightarrow> (dev \<times> 'h) option" where
  "SCSI_Command_Request_Sense io stack d s =
     (let AllocationLength = cdb d 4;
          BytesTransferred = (if AllocationLength < of_nat (length (sense_bytes (SenseData d))) then AllocationLength
                              else of_nat (length (sense_bytes (SenseData d))))
      in do {
           s \<leftarrow> stream_out (Endpoint_Write_Stream_LE io None
                    (take (unat BytesTransferred) (sense_bytes (SenseData d)))) s;
           s \<leftarrow> stream_out (Endpoint_Write_Stream_LE io None (stack (unat (AllocationLength - BytesTransferred)))) s;
           Some (set_residue (\<lambda>n. n - ucast BytesTransferred) d, Endpoint_ClearIN io s)
         })"

definition SCSI_Command_Read_Capacity_10 :: "'h mmio \<Rightarrow> dev \<Rightarrow> 'h \<Rightarrow> (dev \<times> 'h) option" where
  "SCSI_Command_Read_Capacity_10 io d s =
     (let LastBlockAddressInLUN = LUN_MEDIA_BLOCKS - 1;
          MediaBlockSize = of_nat VIRTUAL_MEMORY_BLOCK_SIZE :: u32
      in do {
           s \<leftarrow> stream_out (Endpoint_Write_Stream_BE io None (bytes32 LastBlockAddressInLUN)) s;
           s \<leftarrow> stream_out (Endpoint_Write_Stream_BE io None (bytes32 MediaBlockSize)) s;
           Some (set_residue (\<lambda>n. n - 8) d, Endpoint_ClearIN io s)
         })"

definition SCSI_Command_Send_Diagnostic :: "'h mmio \<Rightarrow> dev \<Rightarrow> 'h \<Rightarrow> (dev \<times> 'h) option" where
  "SCSI_Command_Send_Diagnostic io d s =
     (if cdb d 1 AND BV 2 = 0 then
        Some (SCSI_SET_SENSE SCSI_SENSE_KEY_ILLEGAL_REQUEST SCSI_ASENSE_INVALID_FIELD_IN_CDB
                SCSI_ASENSEQ_NO_QUALIFIER d, s)
      else do {
        (ok, s) \<leftarrow> DataflashManager_CheckDataflashOperation io s;
        if \<not> ok then
          Some (SCSI_SET_SENSE SCSI_SENSE_KEY_HARDWARE_ERROR SCSI_ASENSE_NO_ADDITIONAL_INFORMATION
                  SCSI_ASENSEQ_NO_QUALIFIER d, s)
        else Some (set_residue (\<lambda>n. 0) d, s)
      })"

text \<open>\<open>TOTAL_LUNS\<close> is 1, so the block address is not adjusted to the unit.\<close>

definition SCSI_Command_ReadWrite_10 :: "'h mmio \<Rightarrow> bool \<Rightarrow> dev \<Rightarrow> 'h \<Rightarrow> (dev \<times> 'h) option" where
  "SCSI_Command_ReadWrite_10 io IsDataRead d s =
     (let data = SCSICommandData (CommandBlock d);
          BlockAddress = SwapEndian_32 (peek32 data 2);
          TotalBlocks = SwapEndian_16 (ucast (peek32 data 7))
      in if BlockAddress \<ge> LUN_MEDIA_BLOCKS then
           Some (SCSI_SET_SENSE SCSI_SENSE_KEY_ILLEGAL_REQUEST SCSI_ASENSE_LOGICAL_BLOCK_ADDRESS_OUT_OF_RANGE
                   SCSI_ASENSEQ_NO_QUALIFIER d, s)
         else do {
           s \<leftarrow> (if IsDataRead then DataflashManager_ReadBlocks io BlockAddress TotalBlocks s
                 else DataflashManager_WriteBlocks io BlockAddress TotalBlocks s);
           Some (set_residue (\<lambda>n. n - ucast TotalBlocks * of_nat VIRTUAL_MEMORY_BLOCK_SIZE) d, s)
         })"

definition SCSI_DecodeSCSICommand :: "'h mmio \<Rightarrow> (nat \<Rightarrow> u8 list) \<Rightarrow> dev \<Rightarrow> 'h \<Rightarrow> (bool \<times> dev \<times> 'h) option" where
  "SCSI_DecodeSCSICommand io stack d s =
     do {
       let d = SCSI_SET_SENSE SCSI_SENSE_KEY_GOOD SCSI_ASENSE_NO_ADDITIONAL_INFORMATION SCSI_ASENSEQ_NO_QUALIFIER d;
       let cmd = cdb d 0;
       (d, s) \<leftarrow>
         (if cmd = SCSI_CMD_INQUIRY then SCSI_Command_Inquiry io stack d s
          else if cmd = SCSI_CMD_REQUEST_SENSE then SCSI_Command_Request_Sense io stack d s
          else if cmd = SCSI_CMD_READ_CAPACITY_10 then SCSI_Command_Read_Capacity_10 io d s
          else if cmd = SCSI_CMD_SEND_DIAGNOSTIC then SCSI_Command_Send_Diagnostic io d s
          else if cmd = SCSI_CMD_WRITE_10 then SCSI_Command_ReadWrite_10 io False d s
          else if cmd = SCSI_CMD_READ_10 then SCSI_Command_ReadWrite_10 io True d s
          else if cmd = SCSI_CMD_TEST_UNIT_READY \<or> cmd = SCSI_CMD_PREVENT_ALLOW_MEDIUM_REMOVAL \<or>
                  cmd = SCSI_CMD_VERIFY_10 then Some (set_residue (\<lambda>n. 0) d, s)
          else Some (SCSI_SET_SENSE SCSI_SENSE_KEY_ILLEGAL_REQUEST SCSI_ASENSE_INVALID_COMMAND
                       SCSI_ASENSEQ_NO_QUALIFIER d, s));
       Some (SenseKey (SenseData d) = SCSI_SENSE_KEY_GOOD, d, s)
     }"

end
