(* ===== verification/Ms_Device.thy ===== *)
theory Ms_Device
  imports Scsi
begin

text \<open>
  The device-mode mass storage class driver, \<open>LUFA/Drivers/USB/Class/Device/MassStorage.c\<close>, and the
  parts of \<open>poc/MassStorage/MassStorage.c\<close> it calls back: command wrapper in, SCSI command, status
  wrapper out.  With \<open>INTERRUPT_CONTROL_ENDPOINT\<close> the control requests are served in an interrupt, so
  the calls of \<open>USB_USBTask\<close> inside the driver are not compiled in.
\<close>

abbreviation (input) REQ_MassStorageReset :: u8 where "REQ_MassStorageReset \<equiv> 0xFF"
abbreviation (input) REQ_GetMaxLUN :: u8 where "REQ_GetMaxLUN \<equiv> 0xFE"
abbreviation (input) MS_CBW_SIGNATURE :: u32 where "MS_CBW_SIGNATURE \<equiv> 0x43425355"
abbreviation (input) MS_CSW_SIGNATURE :: u32 where "MS_CSW_SIGNATURE \<equiv> 0x53425355"
abbreviation (input) MS_COMMAND_DIR_DATA_IN :: u8 where "MS_COMMAND_DIR_DATA_IN \<equiv> 0x80"
abbreviation (input) SCSI_Command_Pass :: u8 where "SCSI_Command_Pass \<equiv> 0"
abbreviation (input) SCSI_Command_Fail :: u8 where "SCSI_Command_Fail \<equiv> 1"

section \<open>The wrappers in memory\<close>

definition cbw_bytes :: "MS_CommandBlockWrapper_t \<Rightarrow> u8 list" where
  "cbw_bytes c = bytes32 (Signature c) @ bytes32 (Tag c) @ bytes32 (DataTransferLength c) @
     [Flags c, LUN c, SCSICommandLength c] @ SCSICommandData c"

definition cbw_of :: "u8 list \<Rightarrow> MS_CommandBlockWrapper_t" where
  "cbw_of bs =
     \<lparr>Signature = peek32 bs 0, Tag = peek32 bs 4, DataTransferLength = peek32 bs 8,
      Flags = bs ! 12, LUN = bs ! 13, SCSICommandLength = bs ! 14, SCSICommandData = drop 15 bs\<rparr>"

text \<open>Bytes stored from offset \<open>n\<close> of an array on, as a stream read into the structure stores them.\<close>

definition store_at :: "nat \<Rightarrow> u8 list \<Rightarrow> u8 list \<Rightarrow> u8 list" where
  "store_at n new bs = take n bs @ new @ drop (n + length new) bs"

definition store_cbw :: "nat \<Rightarrow> u8 list \<Rightarrow> dev \<Rightarrow> dev" where
  "store_cbw n new d = d\<lparr>CommandBlock := cbw_of (store_at n new (cbw_bytes (CommandBlock d)))\<rparr>"

definition csw_bytes :: "MS_CommandStatusWrapper_t \<Rightarrow> u8 list" where
  "csw_bytes c = bytes32 (StatusSignature c) @ bytes32 (StatusTag c) @ bytes32 (DataTransferResidue c) @ [Status c]"

definition empty_cbw :: MS_CommandBlockWrapper_t where
  "empty_cbw = \<lparr>Signature = 0, Tag = 0, DataTransferLength = 0, Flags = 0, LUN = 0, SCSICommandLength = 0,
     SCSICommandData = replicate 16 0\<rparr>"

definition empty_csw :: MS_CommandStatusWrapper_t where
  "empty_csw = \<lparr>StatusSignature = 0, StatusTag = 0, DataTransferResidue = 0, Status = 0\<rparr>"

text \<open>The interface structure of \<open>poc/MassStorage/MassStorage.c\<close>.\<close>

definition Disk_MS_Interface :: MS_Config where
  "Disk_MS_Interface =
     \<lparr>InterfaceNumber = 0, DataINEndpointNumber = 3, DataINEndpointSize = 64, DataINEndpointDoubleBank = False,
      DataOUTEndpointNumber = 4, DataOUTEndpointSize = 64, DataOUTEndpointDoubleBank = False,
      TotalLUNs = of_nat TOTAL_LUNS\<rparr>"

definition initial_dev :: dev where
  "initial_dev = \<lparr>Config = Disk_MS_Interface, CommandBlock = empty_cbw, CommandStatus = empty_csw,
     SenseData = InitialSenseData\<rparr>"

section \<open>LEDs (poc/MassStorage/Board/LEDs.h)\<close>

definition LEDS_ALL_LEDS :: u8 where
  "LEDS_ALL_LEDS = BV 0 OR BV 2 OR BV 4 OR BV 6"

abbreviation (input) LEDMASK_USB_NOTREADY :: u8 where "LEDMASK_USB_NOTREADY \<equiv> BV 0"
abbreviation (input) LEDMASK_USB_ENUMERATING :: u8 where "LEDMASK_USB_ENUMERATING \<equiv> BV 2 OR BV 4"
abbreviation (input) LEDMASK_USB_READY :: u8 where "LEDMASK_USB_READY \<equiv> BV 2 OR BV 6"
abbreviation (input) LEDMASK_USB_ERROR :: u8 where "LEDMASK_USB_ERROR \<equiv> BV 0 OR BV 4"
abbreviation (input) LEDMASK_USB_BUSY :: u8 where "LEDMASK_USB_BUSY \<equiv> BV 2"

definition LEDs_Init :: "'h mmio \<Rightarrow> 'h \<Rightarrow> 'h" where
  "LEDs_Init io s = clr_reg io PORTC LEDS_ALL_LEDS (or_reg io DDRC LEDS_ALL_LEDS s)"

definition LEDs_TurnOnLEDs :: "'h mmio \<Rightarrow> u8 \<Rightarrow> 'h \<Rightarrow> 'h" where
  "LEDs_TurnOnLEDs io LedMask s = or_reg io PORTC LedMask s"

definition LEDs_TurnOffLEDs :: "'h mmio \<Rightarrow> u8 \<Rightarrow> 'h \<Rightarrow> 'h" where
  "LEDs_TurnOffLEDs io LedMask s = clr_reg io PORTC LedMask s"

definition LEDs_SetAllLEDs :: "'h mmio \<Rightarrow> u8 \<Rightarrow> 'h \<Rightarrow> 'h" where
  "LEDs_SetAllLEDs io LedMask s =
     (let (v, s) = io_rd io PORTC s in io_wr io PORTC ((v AND NOT LEDS_ALL_LEDS) OR LedMask) s)"

definition LEDs_ChangeLEDs :: "'h mmio \<Rightarrow> u8 \<Rightarrow> u8 \<Rightarrow> 'h \<Rightarrow> 'h" where
  "LEDs_ChangeLEDs io LedMask ActiveMask s =
     (let (v, s) = io_rd io PORTC s in io_wr io PORTC ((v AND NOT LedMask) OR ActiveMask) s)"

definition LEDs_GetLEDs :: "'h mmio \<Rightarrow> 'h \<Rightarrow> u8 \<times> 'h" where
  "LEDs_GetLEDs io s = (let (v, s) = io_rd io PORTC s in (v AND LEDS_ALL_LEDS, s))"

section \<open>Configuration and control requests\<close>

definition MS_Device_ConfigureEndpoints :: "'h mmio \<Rightarrow> dev \<Rightarrow> 'h \<Rightarrow> (bool \<times> dev \<times> 'h) option" where
  "MS_Device_ConfigureEndpoints io d s =
     do {
       let d = d\<lparr>CommandBlock := empty_cbw, CommandStatus := empty_csw\<rparr>;
       let s = io_wr io V_IsMassStoreReset 0 s;
       let c = Config d;
       (ok, s) \<leftarrow> Endpoint_ConfigureEndpoint io (DataINEndpointNumber c) EP_TYPE_BULK ENDPOINT_DIR_IN
                    (DataINEndpointSize c)
                    (if DataINEndpointDoubleBank c then ENDPOINT_BANK_DOUBLE else ENDPOINT_BANK_SINGLE) s;
       if \<not> ok then Some (False, d, s)
       else do {
         (ok, s) \<leftarrow> Endpoint_ConfigureEndpoint io (DataOUTEndpointNumber c) EP_TYPE_BULK ENDPOINT_DIR_OUT
                      (DataOUTEndpointSize c)
                      (if DataOUTEndpointDoubleBank c then ENDPOINT_BANK_DOUBLE else ENDPOINT_BANK_SINGLE) s;
         Some (ok, d, s)
       }
     }"

text \<open>
  \<open>REQDIR_HOSTTODEVICE | REQTYPE_CLASS | REQREC_INTERFACE\<close> is \<open>0x21\<close>, the device-to-host form \<open>0xA1\<close>.
\<close>

definition MS_Device_ProcessControlRequest ::
    "'h mmio \<Rightarrow> USB_Request_Header_t \<Rightarrow> dev \<Rightarrow> 'h \<Rightarrow> 'h option" where
  "MS_Device_ProcessControlRequest io req d s =
     (let (setup, s) = Endpoint_IsSETUPReceived io s
      in if \<not> setup then Some s
      else if wIndex req \<noteq> ucast (InterfaceNumber (Config d)) then Some s
      else if bRequest req = REQ_MassStorageReset then
        (if bmRequestType req = 0x21 then
           Endpoint_ClearStatusStage io req (io_wr io V_IsMassStoreReset 1 (Endpoint_ClearSETUP io s))
         else Some s)
      else if bRequest req = REQ_GetMaxLUN then
        (if bmRequestType req = 0xA1 then
           Endpoint_ClearStatusStage io req
             (Endpoint_ClearIN io (Endpoint_Write_Byte io (TotalLUNs (Config d) - 1) (Endpoint_ClearSETUP io s)))
         else Some s)
      else Some s)"

section \<open>Commands\<close>

definition StreamCallback_MS_Device_AbortOnMassStoreReset :: "'h mmio \<Rightarrow> 'h \<Rightarrow> bool \<times> 'h" where
  "StreamCallback_MS_Device_AbortOnMassStoreReset io s = read_reset_flag io s"

definition MS_Device_ReadInCommandBlock :: "'h mmio \<Rightarrow> dev \<Rightarrow> 'h \<Rightarrow> (bool \<times> dev \<times> 'h) option" where
  "MS_Device_ReadInCommandBlock io d s =
     do {
       let c = Config d;
       let s = Endpoint_SelectEndpoint io (DataOUTEndpointNumber c) s;
       let cb = Some (StreamCallback_MS_Device_AbortOnMassStoreReset io);
       (e, got, s) \<leftarrow> Endpoint_Read_Stream_LE io cb 15 s;
       let d = store_cbw 0 got d;
       if e \<noteq> EP_NoError then Some (False, d, s)
       else if Signature (CommandBlock d) \<noteq> MS_CBW_SIGNATURE \<or>
               LUN (CommandBlock d) \<ge> TotalLUNs c \<or>
               Flags (CommandBlock d) AND 0x1F \<noteq> 0 \<or>
               SCSICommandLength (CommandBlock d) = 0 \<or>
               SCSICommandLength (CommandBlock d) > 16
       then
         (let s = Endpoint_StallTransaction io s;
              s = Endpoint_SelectEndpoint io (DataINEndpointNumber c) s
          in Some (False, d, Endpoint_StallTransaction io s))
       else do {
         (e, got, s) \<leftarrow> Endpoint_Read_Stream_LE io cb (unat (SCSICommandLength (CommandBlock d))) s;
         let d = store_cbw 15 got d;
         if e \<noteq> EP_NoError then Some (False, d, s)
         else Some (True, d, Endpoint_ClearOUT io s)
       }
     }"

text \<open>\<open>while (Endpoint_IsStalled()) if (IsMassStoreReset) return;\<close>, true if the stall was lifted.\<close>

partial_function (option) stall_wait :: "'h mmio \<Rightarrow> 'h \<Rightarrow> (bool \<times> 'h) option" where
  [code]: "stall_wait io s =
     (let (stalled, s) = Endpoint_IsStalled io s
      in if \<not> stalled then Some (True, s)
      else let (reset, s) = read_reset_flag io s
      in if reset then Some (False, s) else stall_wait io s)"

definition MS_Device_ReturnCommandStatus :: "'h mmio \<Rightarrow> dev \<Rightarrow> 'h \<Rightarrow> 'h option" where
  "MS_Device_ReturnCommandStatus io d s =
     do {
       (ok, s) \<leftarrow> stall_wait io (Endpoint_SelectEndpoint io (DataOUTEndpointNumber (Config d)) s);
       if \<not> ok then Some s
       else do {
         (ok, s) \<leftarrow> stall_wait io (Endpoint_SelectEndpoint io (DataINEndpointNumber (Config d)) s);
         if \<not> ok then Some s
         else do {
           (e, s) \<leftarrow> Endpoint_Write_Stream_LE io (Some (StreamCallback_MS_Device_AbortOnMassStoreReset io))
                       (csw_bytes (CommandStatus d)) s;
           Some (if e \<noteq> EP_NoError then s else Endpoint_ClearIN io s)
         }
       }
     }"

definition CALLBACK_MS_Device_SCSICommandReceived ::
    "'h mmio \<Rightarrow> (nat \<Rightarrow> u8 list) \<Rightarrow> dev \<Rightarrow> 'h \<Rightarrow> (bool \<times> dev \<times> 'h) option" where
  "CALLBACK_MS_Device_SCSICommandReceived io stack d s =
     do {
       (CommandSuccess, d, s) \<leftarrow> SCSI_DecodeSCSICommand io stack d (LEDs_SetAllLEDs io LEDMASK_USB_BUSY s);
       Some (CommandSuccess, d, LEDs_SetAllLEDs io LEDMASK_USB_READY s)
     }"

definition ms_command :: "'h mmio \<Rightarrow> (nat \<Rightarrow> u8 list) \<Rightarrow> dev \<Rightarrow> 'h \<Rightarrow> (dev \<times> 'h) option" where
  "ms_command io stack d s =
     do {
       let s = (if Flags (CommandBlock d) AND MS_COMMAND_DIR_DATA_IN \<noteq> 0
                then Endpoint_SelectEndpoint io (DataINEndpointNumber (Config d)) s else s);
       (ok, d, s) \<leftarrow> CALLBACK_MS_Device_SCSICommandReceived io stack d s;
       let d = d\<lparr>CommandStatus := \<lparr>StatusSignature = MS_CSW_SIGNATURE, StatusTag = Tag (CommandBlock d),
                   DataTransferResidue = DataTransferLength (CommandBlock d),
                   Status = (if ok then SCSI_Command_Pass else SCSI_Command_Fail)\<rparr>\<rparr>;
       let s = (if Status (CommandStatus d) = SCSI_Command_Fail \<and> DataTransferResidue (CommandStatus d) \<noteq> 0
                then Endpoint_StallTransaction io s else s);
       s \<leftarrow> MS_Device_ReturnCommandStatus io d s;
       Some (d, s)
     }"

definition ms_reset_endpoints :: "'h mmio \<Rightarrow> dev \<Rightarrow> 'h \<Rightarrow> 'h" where
  "ms_reset_endpoints io d s =
     (let out = DataOUTEndpointNumber (Config d); inn = DataINEndpointNumber (Config d);
          s = Endpoint_ResetFIFO io inn (Endpoint_ResetFIFO io out s);
          s = Endpoint_ResetDataToggle io (Endpoint_ClearStall io (Endpoint_SelectEndpoint io out s));
          s = Endpoint_ResetDataToggle io (Endpoint_ClearStall io (Endpoint_SelectEndpoint io inn s))
      in io_wr io V_IsMassStoreReset 0 s)"

definition MS_Device_USBTask :: "'h mmio \<Rightarrow> (nat \<Rightarrow> u8 list) \<Rightarrow> dev \<Rightarrow> 'h \<Rightarrow> (dev \<times> 'h) option" where
  "MS_Device_USBTask io stack d s =
     (let (conf, s) = device_state_is io DEVICE_STATE_Configured s
      in if \<not> conf then Some (d, s)
      else do {
        let s = Endpoint_SelectEndpoint io (DataOUTEndpointNumber (Config d)) s;
        let (allowed, s) = Endpoint_IsReadWriteAllowed io s;
        (d, s) \<leftarrow> (if allowed then
                     do {
                       (ok, d, s) \<leftarrow> MS_Device_ReadInCommandBlock io d s;
                       if ok then ms_command io stack d s else Some (d, s)
                     }
                   else Some (d, s));
        let (reset, s) = read_reset_flag io s;
        Some (d, if reset then ms_reset_endpoints io d s else s)
      })"

section \<open>Application events\<close>

definition EVENT_USB_Device_Connect :: "'h mmio \<Rightarrow> 'h \<Rightarrow> 'h" where
  "EVENT_USB_Device_Connect io s = LEDs_SetAllLEDs io LEDMASK_USB_ENUMERATING s"

definition EVENT_USB_Device_Disconnect :: "'h mmio \<Rightarrow> 'h \<Rightarrow> 'h" where
  "EVENT_USB_Device_Disconnect io s = LEDs_SetAllLEDs io LEDMASK_USB_NOTREADY s"

definition EVENT_USB_Device_ConfigurationChanged :: "'h mmio \<Rightarrow> dev \<Rightarrow> 'h \<Rightarrow> (dev \<times> 'h) option" where
  "EVENT_USB_Device_ConfigurationChanged io d s =
     do {
       (ok, d, s) \<leftarrow> MS_Device_ConfigureEndpoints io d (LEDs_SetAllLEDs io LEDMASK_USB_READY s);
       Some (d, if \<not> ok then LEDs_SetAllLEDs io LEDMASK_USB_ERROR s else s)
     }"

definition EVENT_USB_Device_UnhandledControlRequest ::
    "'h mmio \<Rightarrow> USB_Request_Header_t \<Rightarrow> dev \<Rightarrow> 'h \<Rightarrow> 'h option" where
  "EVENT_USB_Device_UnhandledControlRequest io req d s = MS_Device_ProcessControlRequest io req d s"

end
