(* ===== verification/Descriptors.thy ===== *)
theory Descriptors
  imports Bytes
begin

text \<open>
  The USB descriptors of the mass storage device, \<open>poc/MassStorage/Descriptors.c\<close>, over the structures
  of \<open>LUFA/Drivers/USB/HighLevel/StdDescriptors.h\<close>: their fields, the bytes they occupy in memory,
  and the callback that finds the descriptor a host asks for.
\<close>

section \<open>Structures\<close>

record USB_Descriptor_Header_t =
  Size :: u8
  Type :: u8

record USB_Descriptor_Device_t =
  DeviceHeader :: USB_Descriptor_Header_t
  USBSpecification :: u16
  DeviceClass :: u8
  DeviceSubClass :: u8
  DeviceProtocol :: u8
  Endpoint0Size :: u8
  DeviceVendorID :: u16
  DeviceProductID :: u16
  ReleaseNumber :: u16
  ManufacturerStrIndex :: u8
  ProductStrIndex :: u8
  SerialNumStrIndex :: u8
  NumberOfConfigurations :: u8

record USB_Descriptor_Configuration_Header_t =
  ConfigHeader :: USB_Descriptor_Header_t
  TotalConfigurationSize :: u16
  TotalInterfaces :: u8
  ConfigurationNumber :: u8
  ConfigurationStrIndex :: u8
  ConfigAttributes :: u8
  MaxPowerConsumption :: u8

record USB_Descriptor_Interface_t =
  InterfaceHeader :: USB_Descriptor_Header_t
  DescInterfaceNumber :: u8
  AlternateSetting :: u8
  TotalEndpoints :: u8
  InterfaceClass :: u8
  InterfaceSubClass :: u8
  InterfaceProtocol :: u8
  InterfaceStrIndex :: u8

record USB_Descriptor_Endpoint_t =
  EndpointHeader :: USB_Descriptor_Header_t
  EndpointAddress :: u8
  Attributes :: u8
  EndpointSize :: u16
  PollingIntervalMS :: u8

record USB_Descriptor_String_t =
  StringHeader :: USB_Descriptor_Header_t
  UnicodeString :: "u16 list"

record USB_Descriptor_Configuration_t =
  ConfigPart :: USB_Descriptor_Configuration_Header_t
  Interface :: USB_Descriptor_Interface_t
  DataInEndpoint :: USB_Descriptor_Endpoint_t
  DataOutEndpoint :: USB_Descriptor_Endpoint_t

section \<open>Their bytes\<close>

definition header_bytes :: "USB_Descriptor_Header_t \<Rightarrow> u8 list" where
  "header_bytes h = [Size h, Type h]"

definition device_bytes :: "USB_Descriptor_Device_t \<Rightarrow> u8 list" where
  "device_bytes d =
     header_bytes (DeviceHeader d) @ bytes16 (USBSpecification d) @
     [DeviceClass d, DeviceSubClass d, DeviceProtocol d, Endpoint0Size d] @
     bytes16 (DeviceVendorID d) @ bytes16 (DeviceProductID d) @ bytes16 (ReleaseNumber d) @
     [ManufacturerStrIndex d, ProductStrIndex d, SerialNumStrIndex d, NumberOfConfigurations d]"

definition config_header_bytes :: "USB_Descriptor_Configuration_Header_t \<Rightarrow> u8 list" where
  "config_header_bytes c =
     header_bytes (ConfigHeader c) @ bytes16 (TotalConfigurationSize c) @
     [TotalInterfaces c, ConfigurationNumber c, ConfigurationStrIndex c, ConfigAttributes c, MaxPowerConsumption c]"

definition interface_bytes :: "USB_Descriptor_Interface_t \<Rightarrow> u8 list" where
  "interface_bytes i =
     header_bytes (InterfaceHeader i) @
     [DescInterfaceNumber i, AlternateSetting i, TotalEndpoints i, InterfaceClass i, InterfaceSubClass i,
      InterfaceProtocol i, InterfaceStrIndex i]"

definition endpoint_bytes :: "USB_Descriptor_Endpoint_t \<Rightarrow> u8 list" where
  "endpoint_bytes e =
     header_bytes (EndpointHeader e) @ [EndpointAddress e, Attributes e] @ bytes16 (EndpointSize e) @
     [PollingIntervalMS e]"

definition string_bytes :: "USB_Descriptor_String_t \<Rightarrow> u8 list" where
  "string_bytes d = header_bytes (StringHeader d) @ concat (map bytes16 (UnicodeString d))"

definition configuration_bytes :: "USB_Descriptor_Configuration_t \<Rightarrow> u8 list" where
  "configuration_bytes c =
     config_header_bytes (ConfigPart c) @ interface_bytes (Interface c) @
     endpoint_bytes (DataInEndpoint c) @ endpoint_bytes (DataOutEndpoint c)"

text \<open>\<open>sizeof\<close> of the packed structures.\<close>

abbreviation (input) sizeof_Header :: nat where "sizeof_Header \<equiv> 2"
abbreviation (input) sizeof_Device :: nat where "sizeof_Device \<equiv> 18"
abbreviation (input) sizeof_Configuration_Header :: nat where "sizeof_Configuration_Header \<equiv> 9"
abbreviation (input) sizeof_Interface :: nat where "sizeof_Interface \<equiv> 9"
abbreviation (input) sizeof_Endpoint :: nat where "sizeof_Endpoint \<equiv> 7"
abbreviation (input) sizeof_Configuration :: nat
  where "sizeof_Configuration \<equiv> sizeof_Configuration_Header + sizeof_Interface + 2 * sizeof_Endpoint"

lemma sizeofs:
  "length (header_bytes h) = sizeof_Header" "length (device_bytes d) = sizeof_Device"
  "length (config_header_bytes c) = sizeof_Configuration_Header" "length (interface_bytes i) = sizeof_Interface"
  "length (endpoint_bytes e) = sizeof_Endpoint" "length (configuration_bytes cf) = sizeof_Configuration"
  by (simp_all add: header_bytes_def device_bytes_def config_header_bytes_def interface_bytes_def endpoint_bytes_def
      configuration_bytes_def)

section \<open>The descriptors of the device\<close>

abbreviation (input) DTYPE_Device :: u8 where "DTYPE_Device \<equiv> 0x01"
abbreviation (input) DTYPE_Configuration :: u8 where "DTYPE_Configuration \<equiv> 0x02"
abbreviation (input) DTYPE_String :: u8 where "DTYPE_String \<equiv> 0x03"
abbreviation (input) DTYPE_Interface :: u8 where "DTYPE_Interface \<equiv> 0x04"
abbreviation (input) DTYPE_Endpoint :: u8 where "DTYPE_Endpoint \<equiv> 0x05"
abbreviation (input) NO_DESCRIPTOR :: u16 where "NO_DESCRIPTOR \<equiv> 0"
abbreviation (input) USE_INTERNAL_SERIAL :: u8 where "USE_INTERNAL_SERIAL \<equiv> 0xDC"

definition USB_STRING_LEN :: "nat \<Rightarrow> u8" where
  "USB_STRING_LEN n = of_nat (sizeof_Header + push_bit 1 n)"

definition DeviceDescriptor :: USB_Descriptor_Device_t where
  "DeviceDescriptor =
     \<lparr>DeviceHeader = \<lparr>Size = of_nat sizeof_Device, Type = DTYPE_Device\<rparr>, USBSpecification = 0x0110,
      DeviceClass = 0x00, DeviceSubClass = 0x00, DeviceProtocol = 0x00, Endpoint0Size = 8,
      DeviceVendorID = 0x03EB, DeviceProductID = 0x2045, ReleaseNumber = 0x0000, ManufacturerStrIndex = 0x01,
      ProductStrIndex = 0x02, SerialNumStrIndex = USE_INTERNAL_SERIAL, NumberOfConfigurations = 1\<rparr>"

definition ConfigurationDescriptor :: USB_Descriptor_Configuration_t where
  "ConfigurationDescriptor =
     \<lparr>ConfigPart =
        \<lparr>ConfigHeader = \<lparr>Size = of_nat sizeof_Configuration_Header, Type = DTYPE_Configuration\<rparr>,
         TotalConfigurationSize = of_nat sizeof_Configuration, TotalInterfaces = 1, ConfigurationNumber = 1,
         ConfigurationStrIndex = 0, ConfigAttributes = 0x80, MaxPowerConsumption = drop_bit 1 100\<rparr>,
      Interface =
        \<lparr>InterfaceHeader = \<lparr>Size = of_nat sizeof_Interface, Type = DTYPE_Interface\<rparr>,
         DescInterfaceNumber = 0, AlternateSetting = 0, TotalEndpoints = 2, InterfaceClass = 0x08,
         InterfaceSubClass = 0x06, InterfaceProtocol = 0x50, InterfaceStrIndex = 0\<rparr>,
      DataInEndpoint =
        \<lparr>EndpointHeader = \<lparr>Size = of_nat sizeof_Endpoint, Type = DTYPE_Endpoint\<rparr>,
         EndpointAddress = 0x80 OR 3, Attributes = 0x02, EndpointSize = 64, PollingIntervalMS = 0x00\<rparr>,
      DataOutEndpoint =
        \<lparr>EndpointHeader = \<lparr>Size = of_nat sizeof_Endpoint, Type = DTYPE_Endpoint\<rparr>,
         EndpointAddress = 0x00 OR 4, Attributes = 0x02, EndpointSize = 64, PollingIntervalMS = 0x00\<rparr>\<rparr>"

definition LanguageString :: USB_Descriptor_String_t where
  "LanguageString = \<lparr>StringHeader = \<lparr>Size = USB_STRING_LEN 1, Type = DTYPE_String\<rparr>, UnicodeString = [0x0409]\<rparr>"

text \<open>Wide string literals: the characters and the terminating zero.\<close>

definition wide :: "string \<Rightarrow> u16 list" where
  "wide cs = map (\<lambda>c. of_nat (of_char c)) cs @ [0]"

definition ManufacturerString :: USB_Descriptor_String_t where
  "ManufacturerString =
     \<lparr>StringHeader = \<lparr>Size = USB_STRING_LEN 11, Type = DTYPE_String\<rparr>, UnicodeString = wide ''Dean Camera''\<rparr>"

definition ProductString :: USB_Descriptor_String_t where
  "ProductString =
     \<lparr>StringHeader = \<lparr>Size = USB_STRING_LEN 22, Type = DTYPE_String\<rparr>, UnicodeString = wide ''LUFA Mass Storage Demo''\<rparr>"

section \<open>The callback\<close>

text \<open>The size and what stands in program memory at the address returned; a null address is \<open>[]\<close>.\<close>

definition CALLBACK_USB_GetDescriptor :: "u16 \<Rightarrow> u8 \<Rightarrow> u16 \<times> u8 list" where
  "CALLBACK_USB_GetDescriptor wValue wIndex =
     (let DescriptorType = ucast (drop_bit 8 wValue) :: u8;
          DescriptorNumber = ucast (wValue AND 0xFF) :: u8
      in if DescriptorType = DTYPE_Device then (of_nat sizeof_Device, device_bytes DeviceDescriptor)
         else if DescriptorType = DTYPE_Configuration then
           (of_nat sizeof_Configuration, configuration_bytes ConfigurationDescriptor)
         else if DescriptorType = DTYPE_String then
           (if DescriptorNumber = 0x00 then (ucast (Size (StringHeader LanguageString)), string_bytes LanguageString)
            else if DescriptorNumber = 0x01 then
              (ucast (Size (StringHeader ManufacturerString)), string_bytes ManufacturerString)
            else if DescriptorNumber = 0x02 then (ucast (Size (StringHeader ProductString)), string_bytes ProductString)
            else (NO_DESCRIPTOR, []))
         else (NO_DESCRIPTOR, []))"

text \<open>The size never exceeds what is stored, and the first byte of a descriptor is its size.\<close>

lemma length_concat_bytes16: "length (concat (map bytes16 ws)) = 2 * length ws"
  by (induction ws) simp_all

lemma descriptor_in_memory:
  "CALLBACK_USB_GetDescriptor wValue wIndex = (n, mem) \<Longrightarrow> unat n \<le> length mem"
  by (auto simp: CALLBACK_USB_GetDescriptor_def Let_def sizeofs string_bytes_def length_concat_bytes16 LanguageString_def
      ManufacturerString_def ProductString_def USB_STRING_LEN_def wide_def split: if_splits)

text \<open>
  C37. The descriptor callback never announces more bytes than the descriptor has in memory, and what
  it announces has at least a header, whose second byte is the type the host asked for.
\<close>

theorem descriptor_bounds:
  "unat (fst (CALLBACK_USB_GetDescriptor v i)) \<le> length (snd (CALLBACK_USB_GetDescriptor v i)) \<and>
   (fst (CALLBACK_USB_GetDescriptor v i) = NO_DESCRIPTOR \<or>
    2 \<le> fst (CALLBACK_USB_GetDescriptor v i) \<and> snd (CALLBACK_USB_GetDescriptor v i) ! 1 = ucast (drop_bit 8 v))"
proof -
  have "unat (fst (CALLBACK_USB_GetDescriptor v i)) \<le> length (snd (CALLBACK_USB_GetDescriptor v i))"
    using descriptor_in_memory [of v i "fst (CALLBACK_USB_GetDescriptor v i)" "snd (CALLBACK_USB_GetDescriptor v i)"] by simp
  moreover have "fst (CALLBACK_USB_GetDescriptor v i) = NO_DESCRIPTOR \<or>
    2 \<le> fst (CALLBACK_USB_GetDescriptor v i) \<and> snd (CALLBACK_USB_GetDescriptor v i) ! 1 = ucast (drop_bit 8 v)"
    by (auto simp: CALLBACK_USB_GetDescriptor_def Let_def device_bytes_def configuration_bytes_def config_header_bytes_def
        string_bytes_def header_bytes_def DeviceDescriptor_def ConfigurationDescriptor_def LanguageString_def
        ManufacturerString_def ProductString_def USB_STRING_LEN_def)
  ultimately show ?thesis by blast
qed

end
