(* ===== verification/Chapter9.thy ===== *)
theory Chapter9
  imports Ms_Device Descriptors
begin

text \<open>
  The standard requests of the USB device, \<open>LUFA/Drivers/USB/LowLevel/DevChapter9.c\<close>, the control
  task and the two USB interrupts (\<open>HighLevel/USBTask.c\<close>, \<open>HighLevel/USBInterrupt.c\<close>), the start
  and stop of the controller (\<open>LowLevel/LowLevel.c\<close>) and the main program of the mass storage device,
  for a device-only AVR of the USB series 7 with flash descriptors.
\<close>

section \<open>The library's variables\<close>

record fw =
  ms :: dev
  USB_ControlRequest :: USB_Request_Header_t
  USB_ConfigurationNumber :: u8
  USB_CurrentlySelfPowered :: bool
  USB_RemoteWakeupEnabled :: bool
  USB_IsInitialized :: bool

abbreviation (input) REQ_GetStatus :: u8 where "REQ_GetStatus \<equiv> 0"
abbreviation (input) REQ_ClearFeature :: u8 where "REQ_ClearFeature \<equiv> 1"
abbreviation (input) REQ_SetFeature :: u8 where "REQ_SetFeature \<equiv> 3"
abbreviation (input) REQ_SetAddress :: u8 where "REQ_SetAddress \<equiv> 5"
abbreviation (input) REQ_GetDescriptor :: u8 where "REQ_GetDescriptor \<equiv> 6"
abbreviation (input) REQ_GetConfiguration :: u8 where "REQ_GetConfiguration \<equiv> 8"
abbreviation (input) REQ_SetConfiguration :: u8 where "REQ_SetConfiguration \<equiv> 9"
abbreviation (input) REQTYPE_STANDARD :: u8 where "REQTYPE_STANDARD \<equiv> 0"
abbreviation (input) REQREC_DEVICE :: u8 where "REQREC_DEVICE \<equiv> 0"
abbreviation (input) REQREC_INTERFACE :: u8 where "REQREC_INTERFACE \<equiv> 1"
abbreviation (input) REQREC_ENDPOINT :: u8 where "REQREC_ENDPOINT \<equiv> 2"
abbreviation (input) REQDIR_HOSTTODEVICE :: u8 where "REQDIR_HOSTTODEVICE \<equiv> 0"
abbreviation (input) CONTROL_REQTYPE_RECIPIENT :: u8 where "CONTROL_REQTYPE_RECIPIENT \<equiv> 0x1F"
abbreviation (input) FEATURE_ENDPOINT_HALT :: u8 where "FEATURE_ENDPOINT_HALT \<equiv> 0"
abbreviation (input) FEATURE_REMOTE_WAKEUP :: u8 where "FEATURE_REMOTE_WAKEUP \<equiv> 1"
abbreviation (input) FEATURE_SELFPOWERED_ENABLED :: u8 where "FEATURE_SELFPOWERED_ENABLED \<equiv> 1"
abbreviation (input) FEATURE_REMOTE_WAKEUP_ENABLED :: u8 where "FEATURE_REMOTE_WAKEUP_ENABLED \<equiv> 2"
abbreviation (input) ENDPOINT_EPNUM_MASK :: u8 where "ENDPOINT_EPNUM_MASK \<equiv> 0x07"
abbreviation (input) FIXED_NUM_CONFIGURATIONS :: u8 where "FIXED_NUM_CONFIGURATIONS \<equiv> 1"
abbreviation (input) ADDEN :: nat where "ADDEN \<equiv> 7"

definition standard_in :: "u8 \<Rightarrow> u8" where
  "standard_in recipient = REQDIR_DEVICETOHOST OR REQTYPE_STANDARD OR recipient"

definition standard_out :: "u8 \<Rightarrow> u8" where
  "standard_out recipient = REQDIR_HOSTTODEVICE OR REQTYPE_STANDARD OR recipient"

section \<open>The requests\<close>

definition USB_Device_SetAddress :: "'h mmio \<Rightarrow> fw \<Rightarrow> 'h \<Rightarrow> 'h option" where
  "USB_Device_SetAddress io f s =
     do {
       let DeviceAddress = (ucast (wValue (USB_ControlRequest f) AND 0x7F) :: u8);
       s \<leftarrow> Endpoint_ClearStatusStage io (USB_ControlRequest f) (Endpoint_ClearSETUP io s);
       (ok, s) \<leftarrow> flag_wait io TXINI s;
       if \<not> ok then Some s
       else
         (let s = (if DeviceAddress \<noteq> 0 then io_wr io V_DeviceState DEVICE_STATE_Addressed s else s)
          in Some (io_wr io UDADDR (BV ADDEN OR DeviceAddress) s))
     }"

definition USB_Device_SetConfiguration :: "'h mmio \<Rightarrow> fw \<Rightarrow> 'h \<Rightarrow> (fw \<times> 'h) option" where
  "USB_Device_SetConfiguration io f s =
     (let v = ucast (wValue (USB_ControlRequest f)) :: u8
      in if v > FIXED_NUM_CONFIGURATIONS then Some (f, s)
         else do {
           let s = Endpoint_ClearSETUP io s;
           let f = f\<lparr>USB_ConfigurationNumber := v\<rparr>;
           s \<leftarrow> Endpoint_ClearStatusStage io (USB_ControlRequest f) s;
           let s = io_wr io V_DeviceState (if USB_ConfigurationNumber f \<noteq> 0 then DEVICE_STATE_Configured
                                           else DEVICE_STATE_Addressed) s;
           (d, s) \<leftarrow> EVENT_USB_Device_ConfigurationChanged io (ms f) s;
           Some (f\<lparr>ms := d\<rparr>, s)
         })"

definition USB_Device_GetConfiguration :: "'h mmio \<Rightarrow> fw \<Rightarrow> 'h \<Rightarrow> 'h option" where
  "USB_Device_GetConfiguration io f s =
     (let s = Endpoint_ClearSETUP io s;
          s = Endpoint_Write_Byte io (USB_ConfigurationNumber f) s;
          s = Endpoint_ClearIN io s
      in Endpoint_ClearStatusStage io (USB_ControlRequest f) s)"

text \<open>The serial number comes from the signature row of the AVR, \<open>sig\<close>, two digits per byte.\<close>

definition USB_Device_NibbleToASCII :: "u8 \<Rightarrow> u8" where
  "USB_Device_NibbleToASCII Nibble =
     (let Nibble = (Nibble AND 0x0F) + 0x30
      in if Nibble > 0x39 then Nibble + (0x41 - 0x39 - 1) else Nibble)"

fun serial_chars :: "(u8 \<Rightarrow> u8) \<Rightarrow> nat \<Rightarrow> nat \<Rightarrow> u8 \<Rightarrow> u16 list" where
  "serial_chars sig 0 SerialCharNum SigReadAddress = []"
| "serial_chars sig (Suc n) SerialCharNum SigReadAddress =
     (let SerialByte = sig SigReadAddress
      in if odd SerialCharNum then
           ucast (USB_Device_NibbleToASCII (drop_bit 4 SerialByte))
             # serial_chars sig n (SerialCharNum + 1) (SigReadAddress + 1)
         else ucast (USB_Device_NibbleToASCII SerialByte) # serial_chars sig n (SerialCharNum + 1) SigReadAddress)"

definition SignatureDescriptor :: "(u8 \<Rightarrow> u8) \<Rightarrow> USB_Descriptor_String_t" where
  "SignatureDescriptor sig =
     \<lparr>StringHeader = \<lparr>Size = of_nat (sizeof_Header + 2 * 20), Type = DTYPE_String\<rparr>,
      UnicodeString = serial_chars sig 20 0 0x0E\<rparr>"

text \<open>The digits of the serial number.\<close>

definition hex_digits :: "u16 set" where
  "hex_digits = {0x30, 0x31, 0x32, 0x33, 0x34, 0x35, 0x36, 0x37, 0x38, 0x39, 0x41, 0x42, 0x43, 0x44, 0x45, 0x46}"

lemma low_nibble: "b AND 0x0F \<in> {0, 1, 2, 3, 4, 5, 6, 7, 8, 9, 10, 11, 12, 13, 14, 15}" for b :: u8
proof -
  have "unat (b AND mask 4) < 16" 
    by (simp add: unsigned_take_bit_eq take_bit_eq_mod unat_mod flip: take_bit_eq_mask)
  then have "unat (b AND 0x0F) < 16" by (simp add: mask_eq_exp_minus_1)
  moreover have "b AND 0x0F = of_nat (unat (b AND 0x0F))" by simp
  ultimately obtain k where "b AND 0x0F = of_nat k" "k < 16" by blast
  then show ?thesis by (auto simp: numeral_eq_Suc less_Suc_eq)
qed

lemma nibble_digit: "ucast (USB_Device_NibbleToASCII b) \<in> hex_digits"
  using low_nibble [of b] by (auto simp: USB_Device_NibbleToASCII_def hex_digits_def)

lemma serial_set: "set (serial_chars sig n k a) \<subseteq> hex_digits \<and> length (serial_chars sig n k a) = n"
  for sig :: "u8 \<Rightarrow> u8" and n k :: nat and a :: u8
  by (induction sig n k a rule: serial_chars.induct) (auto simp: Let_def nibble_digit)

text \<open>
  C38. The internal serial number is a well-formed string descriptor: twenty characters, each an upper
  case hexadecimal digit, and a size byte that counts its bytes.
\<close>

theorem serial_digits:
  "set (UnicodeString (SignatureDescriptor sig)) \<subseteq> hex_digits \<and> length (UnicodeString (SignatureDescriptor sig)) = 20 \<and>
   unat (Size (StringHeader (SignatureDescriptor sig))) = length (string_bytes (SignatureDescriptor sig))"
  using serial_set [where sig = sig and n = 20 and k = 0 and a = "0x0E"]
  by (simp add: SignatureDescriptor_def string_bytes_def length_concat_bytes16 header_bytes_def)

definition USB_Device_GetInternalSerialDescriptor :: "'h mmio \<Rightarrow> (u8 \<Rightarrow> u8) \<Rightarrow> fw \<Rightarrow> 'h \<Rightarrow> 'h option" where
  "USB_Device_GetInternalSerialDescriptor io sig f s =
     do {
       (e, s) \<leftarrow> Endpoint_Write_Control_Stream_LE io (USB_ControlRequest f)
                   (string_bytes (SignatureDescriptor sig)) (Endpoint_ClearSETUP io s);
       Some (Endpoint_ClearOUT io s)
     }"

definition USB_Device_GetDescriptor :: "'h mmio \<Rightarrow> (u8 \<Rightarrow> u8) \<Rightarrow> fw \<Rightarrow> 'h \<Rightarrow> 'h option" where
  "USB_Device_GetDescriptor io sig f s =
     (if wValue (USB_ControlRequest f) = push_bit 8 (ucast DTYPE_String) OR ucast USE_INTERNAL_SERIAL then
        USB_Device_GetInternalSerialDescriptor io sig f s
      else
        (let (DescriptorSize, mem) = CALLBACK_USB_GetDescriptor (wValue (USB_ControlRequest f))
                                       (ucast (wIndex (USB_ControlRequest f)))
         in if DescriptorSize = NO_DESCRIPTOR then Some s
            else do {
              (e, s) \<leftarrow> Endpoint_Write_Control_Stream_LE io (USB_ControlRequest f) (take (unat DescriptorSize) mem)
                          (Endpoint_ClearSETUP io s);
              Some (Endpoint_ClearOUT io s)
            }))"

definition USB_Device_GetStatus :: "'h mmio \<Rightarrow> fw \<Rightarrow> 'h \<Rightarrow> 'h option" where
  "USB_Device_GetStatus io f s =
     (let finish = (\<lambda>CurrentStatus s.
            let s = Endpoint_ClearSETUP io s;
                s = Endpoint_Write_Word_LE io CurrentStatus s;
                s = Endpoint_ClearIN io s
            in Endpoint_ClearStatusStage io (USB_ControlRequest f) s)
      in if bmRequestType (USB_ControlRequest f) = standard_in REQREC_DEVICE then
           finish ((if USB_CurrentlySelfPowered f then ucast FEATURE_SELFPOWERED_ENABLED else 0) OR
                   (if USB_RemoteWakeupEnabled f then ucast FEATURE_REMOTE_WAKEUP_ENABLED else 0)) s
         else if bmRequestType (USB_ControlRequest f) = standard_in REQREC_ENDPOINT then
           (let s = Endpoint_SelectEndpoint io (ucast (wIndex (USB_ControlRequest f) AND 0xFF)) s;
                (stalled, s) = Endpoint_IsStalled io s;
                s = Endpoint_SelectEndpoint io ENDPOINT_CONTROLEP s
            in finish (if stalled then 1 else 0) s)
         else Some s)"

text \<open>True in the first component if the function runs to its end, false if it returns before.\<close>

definition clear_set_feature :: "'h mmio \<Rightarrow> fw \<Rightarrow> 'h \<Rightarrow> bool \<times> fw \<times> 'h" where
  "clear_set_feature io f s =
     (let req = USB_ControlRequest f;
          recipient = bmRequestType req AND CONTROL_REQTYPE_RECIPIENT;
          feature = ucast (wValue req) :: u8
      in if recipient = REQREC_DEVICE then
           (if feature = FEATURE_REMOTE_WAKEUP
            then (True, f\<lparr>USB_RemoteWakeupEnabled := (bRequest req = REQ_SetFeature)\<rparr>, s)
            else (False, f, s))
         else if recipient = REQREC_ENDPOINT then
           (if feature = FEATURE_ENDPOINT_HALT then
              (let EndpointIndex = ucast (wIndex req) AND ENDPOINT_EPNUM_MASK
               in if EndpointIndex = ENDPOINT_CONTROLEP then (False, f, s)
                  else
                    (let s = Endpoint_SelectEndpoint io EndpointIndex s;
                         (enabled, s) = Endpoint_IsEnabled io s
                     in if enabled then
                          (if bRequest req = REQ_SetFeature then (True, f, Endpoint_StallTransaction io s)
                           else (True, f, Endpoint_ResetDataToggle io
                                   (Endpoint_ResetFIFO io EndpointIndex (Endpoint_ClearStall io s))))
                        else (True, f, s)))
            else (True, f, s))
         else (False, f, s))"

definition USB_Device_ClearSetFeature :: "'h mmio \<Rightarrow> fw \<Rightarrow> 'h \<Rightarrow> (fw \<times> 'h) option" where
  "USB_Device_ClearSetFeature io f s =
     (let (done, f, s) = clear_set_feature io f s
      in if \<not> done then Some (f, s)
         else do {
           let s = Endpoint_SelectEndpoint io ENDPOINT_CONTROLEP s;
           s \<leftarrow> Endpoint_ClearStatusStage io (USB_ControlRequest f) (Endpoint_ClearSETUP io s);
           Some (f, s)
         })"

section \<open>Dispatch\<close>

fun read_request_bytes :: "'h mmio \<Rightarrow> nat \<Rightarrow> 'h \<Rightarrow> u8 list \<times> 'h" where
  "read_request_bytes io 0 s = ([], s)"
| "read_request_bytes io (Suc n) s =
     (let (b, s) = Endpoint_Read_Byte io s; (bs, s) = read_request_bytes io n s in (b # bs, s))"

definition request_of :: "u8 list \<Rightarrow> USB_Request_Header_t" where
  "request_of bs =
     \<lparr>bmRequestType = bs ! 0, bRequest = bs ! 1, wValue = peek16 bs 2, wIndex = peek16 bs 4, wLength = peek16 bs 6\<rparr>"

text \<open>The request handled by the library, if any.\<close>

definition standard_request :: "'h mmio \<Rightarrow> (u8 \<Rightarrow> u8) \<Rightarrow> fw \<Rightarrow> 'h \<Rightarrow> (bool \<times> fw \<times> 'h) option" where
  "standard_request io sig f s =
     (let req = USB_ControlRequest f; t = bmRequestType req; r = bRequest req;
          same = map_option (\<lambda>s. (True, f, s));
          new = map_option (\<lambda>(f, s). (True, f, s))
      in if r = REQ_GetStatus \<and> (t = standard_in REQREC_DEVICE \<or> t = standard_in REQREC_ENDPOINT)
         then same (USB_Device_GetStatus io f s)
         else if (r = REQ_ClearFeature \<or> r = REQ_SetFeature) \<and>
                 (t = standard_out REQREC_DEVICE \<or> t = standard_out REQREC_ENDPOINT)
         then new (USB_Device_ClearSetFeature io f s)
         else if r = REQ_SetAddress \<and> t = standard_out REQREC_DEVICE then same (USB_Device_SetAddress io f s)
         else if r = REQ_GetDescriptor \<and> (t = standard_in REQREC_DEVICE \<or> t = standard_in REQREC_INTERFACE)
         then same (USB_Device_GetDescriptor io sig f s)
         else if r = REQ_GetConfiguration \<and> t = standard_in REQREC_DEVICE
         then same (USB_Device_GetConfiguration io f s)
         else if r = REQ_SetConfiguration \<and> t = standard_out REQREC_DEVICE
         then new (USB_Device_SetConfiguration io f s)
         else Some (False, f, s))"

definition USB_Device_ProcessControlRequest :: "'h mmio \<Rightarrow> (u8 \<Rightarrow> u8) \<Rightarrow> fw \<Rightarrow> 'h \<Rightarrow> (fw \<times> 'h) option" where
  "USB_Device_ProcessControlRequest io sig f s =
     do {
       let (bs, s) = read_request_bytes io 8 s;
       let f = f\<lparr>USB_ControlRequest := request_of bs\<rparr>;
       (RequestHandled, f, s) \<leftarrow> standard_request io sig f s;
       s \<leftarrow> (if \<not> RequestHandled then EVENT_USB_Device_UnhandledControlRequest io (USB_ControlRequest f) (ms f) s
             else Some s);
       let (setup, s) = Endpoint_IsSETUPReceived io s;
       Some (f, if setup then Endpoint_ClearSETUP io (Endpoint_StallTransaction io s) else s)
     }"

section \<open>The control task (USBTask.c)\<close>

definition USB_DeviceTask :: "'h mmio \<Rightarrow> (u8 \<Rightarrow> u8) \<Rightarrow> fw \<Rightarrow> 'h \<Rightarrow> (fw \<times> 'h) option" where
  "USB_DeviceTask io sig f s =
     (let (un, s) = device_state_is io DEVICE_STATE_Unattached s
      in if un then Some (f, s)
         else do {
           let (PrevEndpoint, s) = Endpoint_GetCurrentEndpoint io s;
           let s = Endpoint_SelectEndpoint io ENDPOINT_CONTROLEP s;
           let (setup, s) = Endpoint_IsSETUPReceived io s;
           (f, s) \<leftarrow> (if setup then USB_Device_ProcessControlRequest io sig f s else Some (f, s));
           Some (f, Endpoint_SelectEndpoint io PrevEndpoint s)
         })"

definition USB_USBTask :: "'h mmio \<Rightarrow> (u8 \<Rightarrow> u8) \<Rightarrow> fw \<Rightarrow> 'h \<Rightarrow> (fw \<times> 'h) option" where
  "USB_USBTask io sig f s = USB_DeviceTask io sig f s"

section \<open>Interrupts (USBInterrupt.h and .c)\<close>

datatype usb_int = INT_VBUS | INT_WAKEUP | INT_SUSPEND | INT_EORSTI | INT_SOFI | INT_RXSTPI

fun int_enable :: "usb_int \<Rightarrow> reg \<times> nat" where
  "int_enable INT_VBUS = (USBCON, 0)"
| "int_enable INT_WAKEUP = (UDIEN, 4)"
| "int_enable INT_SUSPEND = (UDIEN, 0)"
| "int_enable INT_EORSTI = (UDIEN, 3)"
| "int_enable INT_SOFI = (UDIEN, 2)"
| "int_enable INT_RXSTPI = (UEIENX, 3)"

fun int_flag :: "usb_int \<Rightarrow> reg \<times> nat" where
  "int_flag INT_VBUS = (USBINT, 0)"
| "int_flag INT_WAKEUP = (UDINT, 4)"
| "int_flag INT_SUSPEND = (UDINT, 0)"
| "int_flag INT_EORSTI = (UDINT, 3)"
| "int_flag INT_SOFI = (UDINT, SOFI)"
| "int_flag INT_RXSTPI = (UEINTX, RXSTPI)"

definition USB_INT_Enable :: "'h mmio \<Rightarrow> usb_int \<Rightarrow> 'h \<Rightarrow> 'h" where
  "USB_INT_Enable io i s = or_reg io (fst (int_enable i)) (BV (snd (int_enable i))) s"

definition USB_INT_Disable :: "'h mmio \<Rightarrow> usb_int \<Rightarrow> 'h \<Rightarrow> 'h" where
  "USB_INT_Disable io i s = clr_reg io (fst (int_enable i)) (BV (snd (int_enable i))) s"

definition USB_INT_Clear :: "'h mmio \<Rightarrow> usb_int \<Rightarrow> 'h \<Rightarrow> 'h" where
  "USB_INT_Clear io i s = clr_reg io (fst (int_flag i)) (BV (snd (int_flag i))) s"

definition USB_INT_IsEnabled :: "'h mmio \<Rightarrow> usb_int \<Rightarrow> 'h \<Rightarrow> bool \<times> 'h" where
  "USB_INT_IsEnabled io i s = test_reg io (fst (int_enable i)) (snd (int_enable i)) s"

definition USB_INT_HasOccurred :: "'h mmio \<Rightarrow> usb_int \<Rightarrow> 'h \<Rightarrow> bool \<times> 'h" where
  "USB_INT_HasOccurred io i s = test_reg io (fst (int_flag i)) (snd (int_flag i)) s"

definition USB_INT_DisableAllInterrupts :: "'h mmio \<Rightarrow> 'h \<Rightarrow> 'h" where
  "USB_INT_DisableAllInterrupts io s = io_wr io UDIEN 0 (clr_reg io USBCON (BV 0 OR BV 1) s)"

definition USB_INT_ClearAllInterrupts :: "'h mmio \<Rightarrow> 'h \<Rightarrow> 'h" where
  "USB_INT_ClearAllInterrupts io s = io_wr io UDINT 0 (io_wr io USBINT 0 s)"

text \<open>\<open>if (USB_INT_HasOccurred(i) && USB_INT_IsEnabled(i))\<close>\<close>

definition int_pending :: "'h mmio \<Rightarrow> usb_int \<Rightarrow> 'h \<Rightarrow> bool \<times> 'h" where
  "int_pending io i s =
     (let (o1, s) = USB_INT_HasOccurred io i s in if o1 then USB_INT_IsEnabled io i s else (False, s))"

section \<open>The controller (LowLevel.h and .c)\<close>

abbreviation (input) USB_PLL_PSC :: u8 where "USB_PLL_PSC \<equiv> BV 4 OR BV 2"

definition USB_PLL_On :: "'h mmio \<Rightarrow> 'h \<Rightarrow> 'h" where
  "USB_PLL_On io s = or_reg io PLLCSR (BV 1) (io_wr io PLLCSR USB_PLL_PSC s)"

definition USB_PLL_Off :: "'h mmio \<Rightarrow> 'h \<Rightarrow> 'h" where
  "USB_PLL_Off io s = io_wr io PLLCSR 0 s"

text \<open>\<open>while (!(USB_PLL_IsReady()));\<close>\<close>

definition USB_PLL_wait :: "'h mmio \<Rightarrow> 'h \<Rightarrow> 'h option" where
  "USB_PLL_wait io s = spin_until io PLLCSR 0 s"

definition USB_REG_On :: "'h mmio \<Rightarrow> 'h \<Rightarrow> 'h" where
  "USB_REG_On io s = or_reg io UHWCON (BV 0) s"

definition USB_OTGPAD_On :: "'h mmio \<Rightarrow> 'h \<Rightarrow> 'h" where
  "USB_OTGPAD_On io s = or_reg io USBCON (BV 4) s"

definition USB_OTGPAD_Off :: "'h mmio \<Rightarrow> 'h \<Rightarrow> 'h" where
  "USB_OTGPAD_Off io s = clr_reg io USBCON (BV 4) s"

definition USB_CLK_Freeze :: "'h mmio \<Rightarrow> 'h \<Rightarrow> 'h" where
  "USB_CLK_Freeze io s = or_reg io USBCON (BV 5) s"

definition USB_CLK_Unfreeze :: "'h mmio \<Rightarrow> 'h \<Rightarrow> 'h" where
  "USB_CLK_Unfreeze io s = clr_reg io USBCON (BV 5) s"

definition USB_Controller_Disable :: "'h mmio \<Rightarrow> 'h \<Rightarrow> 'h" where
  "USB_Controller_Disable io s = clr_reg io USBCON (BV 7) s"

definition USB_Controller_Reset :: "'h mmio \<Rightarrow> 'h \<Rightarrow> 'h" where
  "USB_Controller_Reset io s =
     (let (Temp, s) = io_rd io USBCON s
      in io_wr io USBCON (Temp OR BV 7) (io_wr io USBCON (Temp AND NOT (BV 7)) s))"

definition USB_Device_SetFullSpeed :: "'h mmio \<Rightarrow> 'h \<Rightarrow> 'h" where
  "USB_Device_SetFullSpeed io s = clr_reg io UDCON (BV 2) s"

definition USB_Detach :: "'h mmio \<Rightarrow> 'h \<Rightarrow> 'h" where
  "USB_Detach io s = or_reg io UDCON (BV 0) s"

definition USB_Attach :: "'h mmio \<Rightarrow> 'h \<Rightarrow> 'h" where
  "USB_Attach io s = clr_reg io UDCON (BV 0) s"

text \<open>The static options are full speed, regulator on, automatic PLL.\<close>

definition USB_ResetInterface :: "'h mmio \<Rightarrow> fw \<Rightarrow> 'h \<Rightarrow> (fw \<times> 'h) option" where
  "USB_ResetInterface io f s =
     do {
       let s = USB_INT_ClearAllInterrupts io (USB_INT_DisableAllInterrupts io s);
       let s = io_wr io V_DeviceState DEVICE_STATE_Unattached s;
       let f = f\<lparr>USB_ConfigurationNumber := 0, USB_RemoteWakeupEnabled := False, USB_CurrentlySelfPowered := False\<rparr>;
       s \<leftarrow> USB_PLL_wait io (USB_PLL_On io s);
       let s = USB_Controller_Reset io s;
       let s = USB_CLK_Unfreeze io (USB_REG_On io s);
       let s = USB_Attach io (USB_Device_SetFullSpeed io s);
       let s = USB_INT_Enable io INT_SUSPEND (USB_INT_Clear io INT_SUSPEND s);
       let s = USB_INT_Enable io INT_EORSTI (USB_INT_Clear io INT_EORSTI s);
       Some (f, USB_INT_Enable io INT_VBUS s)
     }"

definition USB_Init :: "'h mmio \<Rightarrow> fw \<Rightarrow> 'h \<Rightarrow> (fw \<times> 'h) option" where
  "USB_Init io f s =
     do {
       (f, s) \<leftarrow> USB_ResetInterface io f (or_reg io UHWCON (BV 7) s);
       Some (f\<lparr>USB_IsInitialized := True\<rparr>, USB_OTGPAD_On io s)
     }"

definition USB_ShutDown :: "'h mmio \<Rightarrow> fw \<Rightarrow> 'h \<Rightarrow> (fw \<times> 'h) option" where
  "USB_ShutDown io f s =
     do {
       (f, s) \<leftarrow> USB_ResetInterface io f s;
       let s = USB_PLL_Off io (USB_Controller_Disable io (USB_Detach io s));
       Some (f\<lparr>USB_IsInitialized := False\<rparr>, USB_OTGPAD_Off io s)
     }"

section \<open>The interrupt handlers\<close>

text \<open>The events the application does not define are the library's empty stub.\<close>

definition int_vbus :: "'h mmio \<Rightarrow> 'h \<Rightarrow> 'h" where
  "int_vbus io s =
     (let (p, s) = int_pending io INT_VBUS s
      in if \<not> p then s
         else
           (let s = USB_INT_Clear io INT_VBUS s;
                (vbus, s) = test_reg io USBSTA 0 s
            in if vbus then EVENT_USB_Device_Connect io (io_wr io V_DeviceState DEVICE_STATE_Powered s)
               else EVENT_USB_Device_Disconnect io (io_wr io V_DeviceState DEVICE_STATE_Unattached s)))"

definition int_suspend :: "'h mmio \<Rightarrow> 'h \<Rightarrow> 'h" where
  "int_suspend io s =
     (let (p, s) = int_pending io INT_SUSPEND s
      in if \<not> p then s
         else
           (let s = USB_INT_Clear io INT_SUSPEND s;
                s = USB_INT_Enable io INT_WAKEUP (USB_INT_Disable io INT_SUSPEND s);
                s = USB_PLL_Off io (USB_CLK_Freeze io s)
            in io_wr io V_DeviceState DEVICE_STATE_Suspended s))"

definition int_wakeup :: "'h mmio \<Rightarrow> fw \<Rightarrow> 'h \<Rightarrow> 'h option" where
  "int_wakeup io f s =
     (let (p, s) = int_pending io INT_WAKEUP s
      in if \<not> p then Some s
         else do {
           s \<leftarrow> USB_PLL_wait io (USB_PLL_On io s);
           let s = USB_INT_Clear io INT_WAKEUP (USB_CLK_Unfreeze io s);
           let s = USB_INT_Enable io INT_SUSPEND (USB_INT_Disable io INT_WAKEUP s);
           Some (io_wr io V_DeviceState (if USB_ConfigurationNumber f \<noteq> 0 then DEVICE_STATE_Configured
                                         else DEVICE_STATE_Addressed) s)
         })"

definition int_eorst :: "'h mmio \<Rightarrow> fw \<Rightarrow> 'h \<Rightarrow> (fw \<times> 'h) option" where
  "int_eorst io f s =
     (let (p, s) = int_pending io INT_EORSTI s
      in if \<not> p then Some (f, s)
         else do {
           let s = io_wr io V_DeviceState DEVICE_STATE_Default (USB_INT_Clear io INT_EORSTI s);
           let f = f\<lparr>USB_ConfigurationNumber := 0\<rparr>;
           let s = USB_INT_Disable io INT_SUSPEND (USB_INT_Clear io INT_SUSPEND s);
           let s = Endpoint_ClearEndpoints io (USB_INT_Enable io INT_WAKEUP s);
           (ok, s) \<leftarrow> Endpoint_ConfigureEndpoint io ENDPOINT_CONTROLEP EP_TYPE_CONTROL ENDPOINT_DIR_OUT
                        (of_nat USB_ControlEndpointSize) ENDPOINT_BANK_SINGLE s;
           Some (f, USB_INT_Enable io INT_RXSTPI s)
         })"

definition int_sof :: "'h mmio \<Rightarrow> 'h \<Rightarrow> 'h" where
  "int_sof io s = (let (p, s) = int_pending io INT_SOFI s in if p then USB_INT_Clear io INT_SOFI s else s)"

definition USB_GEN_vect :: "'h mmio \<Rightarrow> fw \<Rightarrow> 'h \<Rightarrow> (fw \<times> 'h) option" where
  "USB_GEN_vect io f s =
     do {
       s \<leftarrow> int_wakeup io f (int_suspend io (int_vbus io s));
       (f, s) \<leftarrow> int_eorst io f s;
       Some (f, int_sof io s)
     }"

definition USB_COM_vect :: "'h mmio \<Rightarrow> (u8 \<Rightarrow> u8) \<Rightarrow> fw \<Rightarrow> 'h \<Rightarrow> (fw \<times> 'h) option" where
  "USB_COM_vect io sig f s =
     do {
       let (PrevSelectedEndpoint, s) = Endpoint_GetCurrentEndpoint io s;
       (f, s) \<leftarrow> USB_USBTask io sig f s;
       Some (f, Endpoint_SelectEndpoint io PrevSelectedEndpoint (USB_INT_Clear io INT_RXSTPI s))
     }"

section \<open>The main program (MassStorage.c)\<close>

text \<open>
  \<open>prepare\<close> stands for what is not in this tree or modelled on its own: the watchdog and clock
  functions of the C library and the UART with its banner.  SPI options: clock divided by 2,
  leading edge falling, sample on the trailing edge, master.
\<close>

definition SetupHardware :: "'h mmio \<Rightarrow> ('h \<Rightarrow> 'h) \<Rightarrow> ('h \<Rightarrow> 'h) \<Rightarrow> fw \<Rightarrow> 'h \<Rightarrow> (fw \<times> 'h) option" where
  "SetupHardware io clocks uart f s =
     do {
       let s = uart (LEDs_Init io (clocks s));
       let s = SPI_Init io (SPI_USE_DOUBLESPEED OR BV 3 OR BV 2 OR BV 4) s;
       (f, s) \<leftarrow> USB_Init io f (Dataflash_Init io s);
       s \<leftarrow> DataflashManager_ResetDataflashProtections io s;
       Some (f, s)
     }"

definition main_start :: "'h mmio \<Rightarrow> ('h \<Rightarrow> 'h) \<Rightarrow> ('h \<Rightarrow> 'h) \<Rightarrow> fw \<Rightarrow> 'h \<Rightarrow> (fw \<times> 'h) option" where
  "main_start io clocks uart f s =
     do {
       (f, s) \<leftarrow> SetupHardware io clocks uart f s;
       Some (f, LEDs_SetAllLEDs io LEDMASK_USB_NOTREADY s)
     }"

text \<open>One round of the endless loop.\<close>

definition main_round :: "'h mmio \<Rightarrow> (u8 \<Rightarrow> u8) \<Rightarrow> (nat \<Rightarrow> u8 list) \<Rightarrow> fw \<Rightarrow> 'h \<Rightarrow> (fw \<times> 'h) option" where
  "main_round io sig stack f s =
     do {
       (d, s) \<leftarrow> MS_Device_USBTask io stack (ms f) s;
       USB_USBTask io sig (f\<lparr>ms := d\<rparr>) s
     }"

end
