(* ===== verification/Board.thy ===== *)
theory Board
  imports Ms_Transfer Usb_Control Chapter9
begin

text \<open>
  The whole machine of the mass storage device: the two dataflash chips on the SPI bus, the bulk
  endpoints, the control endpoint, and the remaining registers as plain memory.  The contracts
  the driver proofs rest on are interpreted on it.
\<close>

record board =
  dflash :: flash
  dusb :: usb
  dctl :: ctl
  gpio :: "reg \<Rightarrow> u8"

text \<open>A reset of the FIFO leaves an OUT endpoint without data and an IN endpoint ready.\<close>

definition reset_fifos :: "u8 \<Rightarrow> usb \<Rightarrow> usb" where
  "reset_fifos v u = u\<lparr>ep := (\<lambda>n. if unat n < 8 \<and> bit v (unat n)
     then (ep u n)\<lparr>fifo := [], bank := ep_in (ep u n), delay := 0\<rparr> else ep u n)\<rparr>"

definition board_rd :: "reg \<Rightarrow> board \<Rightarrow> u8 \<times> board" where
  "board_rd r s =
     (if r = SPSR then (BV SPIF, s)
      else if r = SPDR then (spdr (dflash s), s)
      else if r = PORTE then (porte (dflash s), s)
      else if r \<in> dev_regs \<or> r \<in> bulk_regs \<and> uenum (dusb s) \<noteq> 0 then
        (fst (usb_rd r (dusb s)), s\<lparr>dusb := snd (usb_rd r (dusb s))\<rparr>)
      else if r \<in> ctl_regs \<and> uenum (dusb s) = 0 then
        (fst (ctl_rd r (dctl s)), s\<lparr>dctl := snd (ctl_rd r (dctl s))\<rparr>)
      else if r = UESTA0X then (BV CFGOK, s)
      else (gpio s r, s))"

definition board_wr :: "reg \<Rightarrow> u8 \<Rightarrow> board \<Rightarrow> board" where
  "board_wr r v s =
     (if r = SPDR then s\<lparr>dflash := xfer v (dflash s)\<rparr>
      else if r = PORTE then s\<lparr>dflash := port_write v (dflash s)\<rparr>
      else if r \<in> dev_regs \<or> r \<in> bulk_regs \<and> uenum (dusb s) \<noteq> 0 then s\<lparr>dusb := usb_wr r v (dusb s)\<rparr>
      else if r \<in> ctl_regs \<and> uenum (dusb s) = 0 then s\<lparr>dctl := ctl_wr r v (dctl s)\<rparr>
      else if r = UERST then s\<lparr>dusb := reset_fifos v (dusb s)\<rparr>
      else s\<lparr>gpio := (gpio s)(r := v)\<rparr>)"

definition bio :: "board mmio" where
  "bio = \<lparr>io_rd = board_rd, io_wr = board_wr\<rparr>"

lemma bio_sel [simp]: "io_rd bio = board_rd" "io_wr bio = board_wr"
  by (simp_all add: bio_def)

lemma reg_sets: "r \<in> dev_regs \<Longrightarrow> r \<notin> {SPDR, SPSR, PORTE}" "r \<in> bulk_regs \<Longrightarrow> r \<notin> {SPDR, SPSR, PORTE} \<and> r \<notin> dev_regs"
  "r \<in> ctl_regs \<Longrightarrow> r \<notin> {SPDR, SPSR, PORTE} \<and> r \<notin> dev_regs"
  by (auto simp: dev_regs_def bulk_regs_def ctl_regs_def)

interpretation fb: flash_bus bio dflash "\<lambda>d s. s\<lparr>dflash := d\<rparr>"
  by unfold_locales (simp_all add: board_rd_def board_wr_def dev_regs_def bulk_regs_def ctl_regs_def)

interpretation ub: usb_bus bio dusb "\<lambda>u s. s\<lparr>dusb := u\<rparr>"
  by unfold_locales (use reg_sets in \<open>auto simp: board_rd_def board_wr_def\<close>)

interpretation mb: ms_bus bio dflash "\<lambda>d s. s\<lparr>dflash := d\<rparr>" dusb "\<lambda>u s. s\<lparr>dusb := u\<rparr>"
  by unfold_locales simp_all

interpretation cb: ctl_bus bio dctl "\<lambda>c s. s\<lparr>dctl := c\<rparr>" "\<lambda>s. uenum (dusb s) = 0" "\<lambda>s. dev_state (dusb s)"
  by unfold_locales (use reg_sets in \<open>auto simp: board_rd_def board_wr_def dev_regs_def bulk_regs_def usb_rd_def\<close>)

end
