(* ===== verification/Ms_Command.thy ===== *)
theory Ms_Command
  imports Board
begin

text \<open>
  Whole commands of the mass storage device on the board: a command wrapper waits in the OUT
  endpoint, one call of \<open>MS_Device_USBTask\<close> serves it, and the host finds data and status wrapper
  in the IN endpoint.
\<close>

section \<open>Wrappers\<close>

definition cbw_header :: "MS_CommandBlockWrapper_t \<Rightarrow> u8 list" where
  "cbw_header c = bytes32 (Signature c) @ bytes32 (Tag c) @ bytes32 (DataTransferLength c) @
     [Flags c, LUN c, SCSICommandLength c]"

lemma cbw_bytes_split: "cbw_bytes c = cbw_header c @ SCSICommandData c"
  by (simp add: cbw_bytes_def cbw_header_def)

lemma length_cbw_header [simp]: "length (cbw_header c) = 15"
  by (simp add: cbw_header_def)

lemma cbw_of_header: "cbw_of (cbw_header c @ data) = c\<lparr>SCSICommandData := data\<rparr>"
  by (cases c) (simp add: cbw_of_def cbw_header_def bytes32_def peek32_def)

lemma store_header:
  "store_cbw 0 (cbw_header c) d = d\<lparr>CommandBlock := c\<lparr>SCSICommandData := SCSICommandData (CommandBlock d)\<rparr>\<rparr>"
  by (simp add: store_cbw_def store_at_def cbw_bytes_split cbw_of_header)

lemma store_data:
  "store_cbw 15 new d = d\<lparr>CommandBlock := (CommandBlock d)\<lparr>SCSICommandData :=
     new @ drop (length new) (SCSICommandData (CommandBlock d))\<rparr>\<rparr>"
  by (simp add: store_cbw_def store_at_def cbw_bytes_split cbw_of_header)

section \<open>Endpoints and callbacks on the board\<close>

definition pick :: "u8 \<Rightarrow> board \<Rightarrow> board" where
  "pick n s = s\<lparr>dusb := (dusb s)\<lparr>uenum := n\<rparr>\<rparr>"

lemma pick_simps [simp]: "dusb (pick n s) = (dusb s)\<lparr>uenum := n\<rparr>" "dflash (pick n s) = dflash s"
  "dctl (pick n s) = dctl s" "gpio (pick n s) = gpio s"
  by (simp_all add: pick_def)

lemma pick_pick [simp]: "pick m (pick n s) = pick m s"
  by (simp add: pick_def)

lemma select_ep: "Endpoint_SelectEndpoint bio n s = pick (n AND 7) s"
  by (simp add: Endpoint_SelectEndpoint_def board_wr_def dev_regs_def usb_wr_def pick_def)

lemma set_leds: "LEDs_SetAllLEDs bio m s =
   s\<lparr>gpio := (gpio s)(PORTC := (gpio s PORTC AND NOT LEDS_ALL_LEDS) OR m)\<rparr>"
  by (simp add: LEDs_SetAllLEDs_def board_rd_def board_wr_def dev_regs_def bulk_regs_def ctl_regs_def)

lemma calm_reset: "\<not> ms_reset (dusb s) \<Longrightarrow> ub.calm (Some (StreamCallback_MS_Device_AbortOnMassStoreReset bio)) s"
  using ub.reset_flag
  by (simp add: ub.calm_def StreamCallback_MS_Device_AbortOnMassStoreReset_def read_reset_flag_def)

context usb_bus
begin

text \<open>Reading inside one packet leaves the rest of it in the bank.\<close>

lemma read_within_loop:
  assumes "out_open (get s)" "n \<le> length (fifo (cur (get s)))"
  shows "read_stream_loop io cb n got s = Some (EP_NoError, got @ take n (fifo (cur (get s))),
    put (upd_cur (\<lambda>e. e\<lparr>fifo := drop n (fifo e)\<rparr>) (get s)) s)"
  using assms
proof (induction n arbitrary: s got)
  case 0
  have "upd_cur (\<lambda>e. e) (get s) = get s" by (simp add: upd_cur_def cur_def)
  then show ?case by (subst read_stream_loop.simps) (simp add: put_get)
next
  case (Suc n)
  then obtain b bs where f: "fifo (cur (get s)) = b # bs" by (cases "fifo (cur (get s))") auto
  let ?v = "upd_cur (\<lambda>e. e\<lparr>fifo := bs\<rparr>) (get s)"
  note g = get_byte [OF Suc.prems(1) f]
  have o: "out_open ?v" using Suc.prems(1) by (simp add: out_open_def attached_def bank_ready_def)
  have "read_stream_loop io cb n (got @ [b]) (put ?v s) = Some (EP_NoError, (got @ [b]) @ take n bs,
      put (upd_cur (\<lambda>e. e\<lparr>fifo := drop n (fifo e)\<rparr>) ?v) (put ?v s))"
    using Suc.IH [of "put ?v s" "got @ [b]"] o Suc.prems(2) f by (simp add: get_put)
  moreover have "upd_cur (\<lambda>e. e\<lparr>fifo := drop n (fifo e)\<rparr>) ?v = upd_cur (\<lambda>e. e\<lparr>fifo := drop (Suc n) (fifo e)\<rparr>) (get s)"
    using f by (simp add: upd_cur_def cur_def)
  ultimately show ?case using g f by (subst read_stream_loop.simps) (simp add: put_put)
qed

lemma read_within:
  assumes "attached (get s)" "\<not> ep_in (cur (get s))" "bank (cur (get s))" "n \<le> length (fifo (cur (get s)))"
  shows "\<exists>v. Endpoint_Read_Stream_LE io cb n s = Some (EP_NoError, take n (fifo (cur (get s))), put v s) \<and>
    usb_frame (get s) v \<and> cur v = (cur (get s))\<lparr>delay := 0, fifo := drop n (fifo (cur (get s)))\<rparr>"
proof -
  obtain v where v: "Endpoint_WaitUntilReady io s = Some (EP_NoError, put v s)" "usb_frame (get s) v"
    "cur v = (cur (get s))\<lparr>delay := 0\<rparr>" using wait_ready [OF assms(1,3)] by blast
  note fv = frame_cur [OF v(2)]
  have "out_open v" using assms v(3) fv by (simp add: out_open_def attached_def bank_ready_def)
  then have "read_stream_loop io cb n [] (put v s) = Some (EP_NoError, take n (fifo (cur v)),
      put (upd_cur (\<lambda>e. e\<lparr>fifo := drop n (fifo e)\<rparr>) v) s)"
    using read_within_loop [of "put v s" n cb "[]"] v(3) assms(4) by (simp add: get_put put_put)
  then show ?thesis
    using v usb_frame_trans [OF v(2) usb_frame_upd(1), of "\<lambda>e. e\<lparr>fifo := drop n (fifo e)\<rparr>"]
    by (auto simp: Endpoint_Read_Stream_LE_def)
qed

end

section \<open>The command wrapper comes in\<close>

text \<open>A wrapper the class accepts.\<close>

definition cbw_ok :: "MS_CommandBlockWrapper_t \<Rightarrow> bool" where
  "cbw_ok c \<longleftrightarrow> Signature c = MS_CBW_SIGNATURE \<and> LUN c = 0 \<and> Flags c AND 0x1F = 0 \<and>
     0 < SCSICommandLength c \<and> SCSICommandLength c \<le> 16 \<and> length (SCSICommandData c) = 16"

text \<open>
  The device is configured and idle and the wrapper \<open>c\<close> is in the bank of the OUT endpoint; the
  bank of the IN endpoint is free.
\<close>

definition command_waiting :: "MS_CommandBlockWrapper_t \<Rightarrow> usb \<Rightarrow> bool" where
  "command_waiting c u \<longleftrightarrow> dev_state u = DEVICE_STATE_Configured \<and> \<not> ms_reset u \<and> lat u \<le> 100 \<and> ep_size u = 64 \<and>
     \<not> ep_in (ep u 4) \<and> bank_ready (ep u 4) \<and> \<not> stalled (ep u 4) \<and> fifo (ep u 4) = cbw_bytes c \<and>
     ep_in (ep u 3) \<and> bank (ep u 3) \<and> \<not> stalled (ep u 3) \<and> delay (ep u 3) \<le> 100 \<and> fifo (ep u 3) = []"

definition received :: "MS_CommandBlockWrapper_t \<Rightarrow> dev \<Rightarrow> dev" where
  "received c d = d\<lparr>CommandBlock := c\<lparr>SCSICommandData :=
     take (unat (SCSICommandLength c)) (SCSICommandData c) @
     drop (unat (SCSICommandLength c)) (SCSICommandData (CommandBlock d))\<rparr>\<rparr>"

lemma config_received [simp]: "Config (received c d) = Config d"
  by (simp add: received_def)

lemma interface_simps [simp]:
  "DataOUTEndpointNumber Disk_MS_Interface = 4" "DataINEndpointNumber Disk_MS_Interface = 3"
  "TotalLUNs Disk_MS_Interface = 1"
  by (simp_all add: Disk_MS_Interface_def)

lemma read_command_block:
  assumes "command_waiting c (dusb s)" "cbw_ok c" "Config d = Disk_MS_Interface"
  shows "\<exists>v. MS_Device_ReadInCommandBlock bio d s = Some (True, received c d, s\<lparr>dusb := v\<rparr>) \<and>
    usb_frame ((dusb s)\<lparr>uenum := 4\<rparr>) v \<and> ep v 4 = release (lat (dusb s)) ((ep (dusb s) 4)\<lparr>delay := 0, fifo := []\<rparr>)"
proof -
  let ?cb = "Some (StreamCallback_MS_Device_AbortOnMassStoreReset bio)" and ?n = "unat (SCSICommandLength c)"
  let ?u = "(dusb s)\<lparr>uenum := 4\<rparr>" and ?e = "ep (dusb s) 4"
  have w: "attached ?u" "\<not> ep_in (cur ?u)" "bank (cur ?u)" "fifo (cur ?u) = cbw_bytes c" "\<not> ms_reset ?u" "cur ?u = ?e"
    using assms(1) by (simp_all add: command_waiting_def attached_def cur_def bank_ready_def)
  have c: "length (SCSICommandData c) = 16" "?n \<le> 16"
    using assms(2) by (simp_all add: cbw_ok_def word_le_nat_alt)
  have ok: "Signature c = MS_CBW_SIGNATURE" "LUN c = 0" "Flags c AND 0x1F = 0" "SCSICommandLength c \<noteq> 0"
    "\<not> SCSICommandLength c > 16"
    using assms(2) by (auto simp: cbw_ok_def)
  obtain v1 where v1: "Endpoint_Read_Stream_LE bio ?cb 15 (pick 4 s) = Some (EP_NoError, cbw_header c, s\<lparr>dusb := v1\<rparr>)"
    "usb_frame ?u v1" "cur v1 = ?e\<lparr>delay := 0, fifo := SCSICommandData c\<rparr>"
    using ub.read_within [of "pick 4 s" 15 ?cb] w c(1) by (auto simp: pick_def cbw_bytes_split)
  note f1 = frame_cur [OF v1(2)]
  have w1: "attached v1" "\<not> ep_in (cur v1)" "bank (cur v1)"
    using w v1(3) f1 by (auto simp: attached_def)
  obtain v2 where v2: "Endpoint_Read_Stream_LE bio ?cb ?n (s\<lparr>dusb := v1\<rparr>) =
      Some (EP_NoError, take ?n (SCSICommandData c), s\<lparr>dusb := v2\<rparr>)"
    "usb_frame v1 v2" "cur v2 = ?e\<lparr>delay := 0, fifo := drop ?n (SCSICommandData c)\<rparr>"
    using ub.read_within [of "s\<lparr>dusb := v1\<rparr>" ?n ?cb] w1 v1(3) c by auto
  have f2: "usb_frame ?u v2" using v1(2) v2(2) by (rule usb_frame_trans)
  have e2: "uenum v2 = 4" "lat v2 = lat (dusb s)" "bank_ready (cur v2)"
    using frame_cur [OF f2] v2(3) w by (simp_all add: bank_ready_def)
  let ?w = "next_bank v2"
  have out: "Endpoint_ClearOUT bio (s\<lparr>dusb := v2\<rparr>) = s\<lparr>dusb := ?w\<rparr>"
    using ub.clear_bank(1) [of "s\<lparr>dusb := v2\<rparr>"] e2 by simp
  have rel: "release n (x\<lparr>fifo := y\<rparr>) = release n (x\<lparr>fifo := []\<rparr>)" if "\<not> ep_in x" for n x y
    using that by (auto simp: release_def split: list.split)
  have "ep ?w 4 = release (lat (dusb s)) (?e\<lparr>delay := 0, fifo := []\<rparr>)"
    using e2 v2(3) w rel [of "?e\<lparr>delay := 0\<rparr>"] by (simp add: next_bank_def upd_cur_def)
  moreover have "usb_frame ?u ?w" using usb_frame_trans [OF f2] by (simp add: next_bank_def)
  moreover have "MS_Device_ReadInCommandBlock bio d s = Some (True, received c d, s\<lparr>dusb := ?w\<rparr>)"
    using v1(1) v2(1) out assms(3) c ok
    by (simp add: MS_Device_ReadInCommandBlock_def Let_def select_ep store_header store_data received_def min_def)
  ultimately show ?thesis by blast
qed

section \<open>The status wrapper goes out\<close>

lemma stall_wait_once:
  assumes "uenum (dusb s) \<noteq> 0" "\<not> stalled (cur (dusb s))"
  shows "stall_wait bio s = Some (True, s)"
  using ub.stall [OF assms(1)] assms(2) by (subst stall_wait.simps) simp

definition status_ready :: "usb \<Rightarrow> bool" where
  "status_ready u \<longleftrightarrow> dev_state u \<noteq> 0 \<and> \<not> ms_reset u \<and> lat u \<le> 100 \<and> ep_size u = 64 \<and> \<not> stalled (ep u 4) \<and>
     ep_in (ep u 3) \<and> bank (ep u 3) \<and> \<not> stalled (ep u 3) \<and> delay (ep u 3) \<le> 100 \<and> length (fifo (ep u 3)) \<le> 64"

text \<open>The IN endpoint is free again, and the packets added to what the host had received are full but the last.\<close>

definition in_idle :: "usb \<Rightarrow> bool" where
  "in_idle u \<longleftrightarrow> ep_in (ep u 3) \<and> bank (ep u 3) \<and> \<not> stalled (ep u 3) \<and> delay (ep u 3) \<le> 100 \<and> fifo (ep u 3) = []"

definition full_but_last :: "u8 list list \<Rightarrow> u8 list list \<Rightarrow> bool" where
  "full_but_last q qs \<longleftrightarrow> (\<exists>ps p. qs = q @ ps @ [p] \<and> (\<forall>x\<in>set ps. length x = 64) \<and> length p \<le> 64)"

lemma length_full: "\<forall>x\<in>set ps. length x = n \<Longrightarrow> length (concat ps) = n * length ps"
  by (induction ps) simp_all

text \<open>Data that fill the packets and a short end behind them are cut so.\<close>

lemma full_packets:
  assumes "full_but_last q qs" "concat qs = concat q @ data @ end" "64 dvd length data" "end \<noteq> []" "length end < 64"
  shows "\<exists>ps. qs = q @ ps @ [end] \<and> concat ps = data \<and> (\<forall>x\<in>set ps. length x = 64)"
proof -
  obtain ps p where p: "qs = q @ ps @ [p]" "\<forall>x\<in>set ps. length x = 64" "length p \<le> 64"
    using assms(1) unfolding full_but_last_def by blast
  have c: "concat ps @ p = data @ end" using assms(2) p(1) by simp
  obtain k where k: "length data = 64 * k" using assms(3) by blast
  have n: "length end \<noteq> 0" using assms(4) by simp
  have e: "64 * length ps + length p = 64 * k + length end"
    using arg_cong [OF c, of length] length_full [OF p(2)] k by simp
  have "length ps < Suc k" "k < Suc (length ps)" using e n p(3) assms(5) by linarith+
  then have "length ps = k" by simp
  then have "length (concat ps) = length data" using length_full [OF p(2)] k by simp
  then have "concat ps = data" "p = end" using c append_eq_append_conv by blast+
  then show ?thesis using p(1,2) by blast
qed

lemma return_status:
  assumes "status_ready (dusb s)" "Config d = Disk_MS_Interface"
  shows "\<exists>v. MS_Device_ReturnCommandStatus bio d s = Some (s\<lparr>dusb := v\<rparr>) \<and> usb_frame ((dusb s)\<lparr>uenum := 3\<rparr>) v \<and>
    concat (queue (ep v 3)) = concat (queue (ep (dusb s) 3)) @ fifo (ep (dusb s) 3) @ csw_bytes (CommandStatus d) \<and>
    fifo (ep v 3) = [] \<and> in_idle v \<and> full_but_last (queue (ep (dusb s) 3)) (queue (ep v 3))"
proof -
  let ?cb = "Some (StreamCallback_MS_Device_AbortOnMassStoreReset bio)" and ?u = "(dusb s)\<lparr>uenum := 3\<rparr>"
  have w: "attached ?u" "ep_in (cur ?u)" "bank (cur ?u)" "0 < ep_size ?u" "length (fifo (cur ?u)) \<le> ep_size ?u"
    "\<not> ms_reset ?u" "cur ?u = ep (dusb s) 3"
    using assms(1) by (simp_all add: status_ready_def attached_def cur_def)
  have s1: "stall_wait bio (pick 4 s) = Some (True, pick 4 s)" "stall_wait bio (pick 3 (pick 4 s)) = Some (True, pick 3 s)"
    using stall_wait_once [of "pick 4 s"] stall_wait_once [of "pick 3 s"] assms(1)
    by (simp_all add: cur_def status_ready_def pick_def)
  have pk: "(pick 3 s)\<lparr>dusb := v\<rparr> = s\<lparr>dusb := v\<rparr>" for v by (simp add: pick_def)
  have "ub.calm ?cb (pick 3 s)" using calm_reset [of "pick 3 s"] w(6) by simp
  from ub.write_stream [of "pick 3 s" ?cb "csw_bytes (CommandStatus d)", unfolded pick_simps pk, OF w(1-5) this]
  obtain v where v: "Endpoint_Write_Stream_LE bio ?cb (csw_bytes (CommandStatus d)) (pick 3 s) =
      Some (EP_NoError, s\<lparr>dusb := v\<rparr>)" "usb_frame ?u v" "in_open v" "sent v = sent ?u @ csw_bytes (CommandStatus d)"
    "\<exists>ps. queue (cur v) = queue (cur ?u) @ ps \<and> (\<forall>p\<in>set ps. length p = ep_size ?u)"
    by - (erule exE, (erule conjE)+, rule that, assumption+)
  note f = frame_cur [OF v(2)]
  have e: "uenum v = 3" "bank_ready (cur v)" "ep_in (cur v)" using f v(3) by (simp_all add: in_open_def)
  let ?w = "next_bank v"
  have "Endpoint_ClearIN bio (s\<lparr>dusb := v\<rparr>) = s\<lparr>dusb := ?w\<rparr>"
    using ub.clear_bank(2) [of "s\<lparr>dusb := v\<rparr>"] e by simp
  moreover have "usb_frame ?u ?w" using usb_frame_trans [OF v(2)] by (simp add: next_bank_def)
  moreover have "ep ?w 3 = release (lat v) (cur v)" using e(1) by (simp add: next_bank_def upd_cur_def)
  moreover have "concat (queue (release (lat v) (cur v))) = sent v" "fifo (release (lat v) (cur v)) = []"
    using e by (simp_all add: release_def sent_def)
  moreover have "in_idle ?w"
    using e v(3) f assms(1) \<open>ep ?w 3 = _\<close> by (simp add: in_idle_def release_def in_open_def attached_def bank_ready_def status_ready_def)
  moreover have "full_but_last (queue (ep (dusb s) 3)) (queue (release (lat v) (cur v)))"
    using v(3,5) e f w(7) assms(1) by (auto simp: full_but_last_def release_def in_open_def status_ready_def)
  moreover have "sent ?u = concat (queue (ep (dusb s) 3)) @ fifo (ep (dusb s) 3)" by (simp add: sent_def w(7))
  ultimately show ?thesis
    using s1 v(1,4) assms(2)
    by (intro exI [of _ ?w]) (simp add: MS_Device_ReturnCommandStatus_def select_ep)
qed

section \<open>Block commands\<close>

text \<open>The ten-byte command descriptor block of a block transfer, padded to sixteen bytes.\<close>

definition cdb10 :: "u8 \<Rightarrow> u32 \<Rightarrow> u16 \<Rightarrow> u8 list" where
  "cdb10 cmd BlockAddress TotalBlocks =
     [cmd, 0] @ rev (bytes32 BlockAddress) @ [0] @ rev (bytes16 TotalBlocks) @ replicate 7 0"

lemma length_cdb10 [simp]: "length (cdb10 cmd BA TB) = 16"
  by (simp add: cdb10_def)

lemma ucast_word32: "(ucast (word32 a b c d) :: u16) = word16 a b"
  by (rule bit_word_eqI) (auto simp: bit_simps bit_word32 bit_word16)

lemma cdb10_fields:
  assumes "take 10 data = take 10 (cdb10 cmd BA TB)"
  shows "data ! 0 = cmd" "SwapEndian_32 (peek32 data 2) = BA" "SwapEndian_16 (ucast (peek32 data 7)) = TB"
proof -
  have n: "data ! i = cdb10 cmd BA TB ! i" if "i < 10" for i
    using assms that by (metis nth_take)
  show "data ! 0 = cmd" using n [of 0] by (simp add: cdb10_def)
  have "peek32 data 2 = word32 (ucast (drop_bit 24 BA)) (ucast (drop_bit 16 BA)) (ucast (drop_bit 8 BA)) (ucast BA)"
    using n [of 2] n [of 3] n [of 4] n [of 5] by (simp add: peek32_def cdb10_def bytes32_def)
  then show "SwapEndian_32 (peek32 data 2) = BA" by (simp only: SwapEndian_32_word word32_bytes)
  have "ucast (peek32 data 7) = word16 (ucast (drop_bit 8 TB)) (ucast TB)"
    using n [of 7] n [of 8] by (simp add: peek32_def ucast_word32 cdb10_def bytes32_def bytes16_def)
  then show "SwapEndian_16 (ucast (peek32 data 7)) = TB" by (simp only: SwapEndian_16_word word16_bytes)
qed

lemma media_blocks: "LUN_MEDIA_BLOCKS = 32768"
  by (simp add: LUN_MEDIA_BLOCKS_def VIRTUAL_MEMORY_BLOCKS_def VIRTUAL_MEMORY_BYTES_def)

text \<open>What a successful block command leaves in the driver's memory before the status is built.\<close>

definition transferred :: "u16 \<Rightarrow> dev \<Rightarrow> dev" where
  "transferred TB d = set_residue (\<lambda>n. n - ucast TB * 512) (SCSI_SET_SENSE 0 0 0 d)"

lemma transferred_simps [simp]:
  "Config (transferred TB d) = Config d" "SenseKey (SenseData (transferred TB d)) = 0"
  "Tag (CommandBlock (transferred TB d)) = Tag (CommandBlock d)"
  "DataTransferLength (CommandBlock (transferred TB d)) = DataTransferLength (CommandBlock d) - ucast TB * 512"
  by (simp_all add: transferred_def set_residue_def SCSI_SET_SENSE_def)

lemma decode_read10:
  assumes "take 10 (SCSICommandData (CommandBlock d)) = take 10 (cdb10 SCSI_CMD_READ_10 BA TB)" "unat BA < 32768"
    "DataflashManager_ReadBlocks bio BA TB s = Some t"
  shows "SCSI_DecodeSCSICommand bio stack d s = Some (True, transferred TB d, t)"
  using assms cdb10_fields [OF assms(1)]
  by (simp add: SCSI_DecodeSCSICommand_def SCSI_Command_ReadWrite_10_def cdb_def SCSI_SET_SENSE_def transferred_def
      set_residue_def media_blocks word_le_nat_alt)

lemma decode_write10:
  assumes "take 10 (SCSICommandData (CommandBlock d)) = take 10 (cdb10 SCSI_CMD_WRITE_10 BA TB)" "unat BA < 32768"
    "DataflashManager_WriteBlocks bio BA TB s = Some t"
  shows "SCSI_DecodeSCSICommand bio stack d s = Some (True, transferred TB d, t)"
  using assms cdb10_fields [OF assms(1)]
  by (simp add: SCSI_DecodeSCSICommand_def SCSI_Command_ReadWrite_10_def cdb_def SCSI_SET_SENSE_def transferred_def
      set_residue_def media_blocks word_le_nat_alt)

text \<open>The status wrapper of a command that passed.\<close>

definition passed :: "u32 \<Rightarrow> u32 \<Rightarrow> MS_CommandStatusWrapper_t" where
  "passed tag residue = \<lparr>StatusSignature = MS_CSW_SIGNATURE, StatusTag = tag, DataTransferResidue = residue,
     Status = SCSI_Command_Pass\<rparr>"

lemma configured_task:
  assumes "command_waiting c (dusb s)" "Config d = Disk_MS_Interface"
    "MS_Device_ReadInCommandBlock bio d s = Some (True, d1, s\<lparr>dusb := v\<rparr>)"
    "ms_command bio stack d1 (s\<lparr>dusb := v\<rparr>) = Some (d2, t)" "\<not> ms_reset (dusb t)"
  shows "MS_Device_USBTask bio stack d s = Some (d2, t)"
proof -
  let ?u = "(dusb s)\<lparr>uenum := 4\<rparr>"
  have r: "bank_ready (cur ?u)" "\<not> ep_in (cur ?u)" "fifo (cur ?u) \<noteq> []"
    using assms(1) by (auto simp: command_waiting_def cur_def cbw_bytes_def bytes32_def)
  have "poll ?u = ?u" using r(1) by (rule poll_ready)
  then have a: "Endpoint_IsReadWriteAllowed bio (pick 4 s) = (True, pick 4 s)"
    using ub.rwa [of "pick 4 s"] r by (simp add: pick_def)
  have "MS_Device_ReadInCommandBlock bio d (pick 4 s) = MS_Device_ReadInCommandBlock bio d s"
    using assms(2) by (simp add: MS_Device_ReadInCommandBlock_def select_ep)
  then show ?thesis
    using a assms ub.dev_state [of 4 s] ub.reset_flag [of t]
    by (simp add: MS_Device_USBTask_def select_ep command_waiting_def read_reset_flag_def)
qed

lemma length_csw: "length (csw_bytes c) = 13" "csw_bytes c \<noteq> []"
  by (simp_all add: csw_bytes_def)

text \<open>A command is over: the IN endpoint is free, and nothing of the controller but the two endpoints has changed.\<close>

definition served :: "board \<Rightarrow> board \<Rightarrow> bool" where
  "served s s' \<longleftrightarrow> in_idle (dusb s') \<and> dev_state (dusb s') = dev_state (dusb s) \<and> lat (dusb s') = lat (dusb s) \<and>
     ep_size (dusb s') = ep_size (dusb s) \<and> ms_reset (dusb s') = ms_reset (dusb s) \<and>
     \<not> stalled (ep (dusb s') 4)"

text \<open>An idle board on which a read or a write of block 3 waits; the medium is blank.\<close>

definition blank_chip :: at45 where
  "blank_chip = \<lparr>page_mem = (\<lambda>p b. 0xFF), sram_buf = (\<lambda>k b. 0), busy = 0, busy_buf = False, prot = False, rx = []\<rparr>"

definition blank_flash :: flash where
  "blank_flash = \<lparr>chip = (\<lambda>k. blank_chip), porte = 3, spdr = 0, t_load = 5, t_prog = 9\<rparr>"

definition block_cbw :: "u8 \<Rightarrow> u8 \<Rightarrow> MS_CommandBlockWrapper_t" where
  "block_cbw cmd flags = \<lparr>Signature = MS_CBW_SIGNATURE, Tag = 7, DataTransferLength = 512, Flags = flags, LUN = 0,
     SCSICommandLength = 10, SCSICommandData = cdb10 cmd 3 1\<rparr>"

definition waiting_board :: "u8 list \<Rightarrow> u8 list list \<Rightarrow> board" where
  "waiting_board wrapper data =
     \<lparr>dflash = blank_flash,
      dusb = \<lparr>uenum = 0,
        ep = (\<lambda>n. if n = 4 then \<lparr>ep_in = False, fifo = wrapper, bank = True, delay = 0, queue = data, stalled = False\<rparr>
                  else \<lparr>ep_in = True, fifo = [], bank = True, delay = 0, queue = [], stalled = False\<rparr>),
        lat = 2, ep_size = 64, dev_state = DEVICE_STATE_Configured, ms_reset = False, sof_cnt = 3, sof_gap = 3\<rparr>,
      dctl = \<lparr>c_rx = [], c_tx = [], c_setup = False, c_in = True, c_out = False, c_stall = False, c_wait = 0, c_lat = 1,
        c_host = H_Done, c_got = []\<rparr>,
      gpio = (\<lambda>r. 0)\<rparr>"

lemma blank_ready: "at_rest blank_flash" "unprotected blank_flash"
  by (simp_all add: at_rest_def blank_flash_def blank_chip_def none_selected_def selected_def both_idle_def unprotected_def
      cs_pin_def)

lemma medium_blank: "medium blank_flash = (\<lambda>L. 0xFF)"
  by (simp add: fun_eq_iff medium_def page_of_def blank_flash_def blank_chip_def)

lemma waiting_ready:
  "command_waiting (block_cbw cmd flags) (dusb (waiting_board (cbw_bytes (block_cbw cmd flags)) data))"
  "flags AND 0x1F = 0 \<Longrightarrow> cbw_ok (block_cbw cmd flags)" "dflash (waiting_board w data) = blank_flash"
  "Config initial_dev = Disk_MS_Interface"
  by (simp_all add: command_waiting_def waiting_board_def bank_ready_def cbw_ok_def block_cbw_def initial_dev_def)

text \<open>
  The command phase: the data phase \<open>move\<close> of a block command turns the state after the LED write
  and the selection of the endpoint into \<open>t\<close>, and the status wrapper follows.
\<close>

lemma block_command:
  assumes "SCSI_DecodeSCSICommand bio stack d (LEDs_SetAllLEDs bio LEDMASK_USB_BUSY
      (if Flags (CommandBlock d) AND MS_COMMAND_DIR_DATA_IN \<noteq> 0 then pick 3 s else s)) = Some (True, transferred TB d, t)"
    "status_ready (dusb t)" "Config d = Disk_MS_Interface"
  shows "\<exists>d' s'. ms_command bio stack d s = Some (d', s') \<and> dflash s' = dflash t \<and> \<not> ms_reset (dusb s') \<and>
    concat (queue (ep (dusb s') 3)) = concat (queue (ep (dusb t) 3)) @ fifo (ep (dusb t) 3) @
      csw_bytes (passed (Tag (CommandBlock d)) (DataTransferLength (CommandBlock d) - ucast TB * 512)) \<and>
    full_but_last (queue (ep (dusb t) 3)) (queue (ep (dusb s') 3)) \<and> in_idle (dusb s') \<and>
    usb_frame ((dusb t)\<lparr>uenum := 3\<rparr>) (dusb s') \<and> Config d' = Config d"
proof -
  let ?p = "passed (Tag (CommandBlock d)) (DataTransferLength (CommandBlock d) - ucast TB * 512)"
  let ?d = "(transferred TB d)\<lparr>CommandStatus := ?p\<rparr>" and ?t = "LEDs_SetAllLEDs bio LEDMASK_USB_READY t"
  have l: "dusb ?t = dusb t" "dflash ?t = dflash t" by (simp_all add: set_leds)
  obtain v where v: "MS_Device_ReturnCommandStatus bio ?d ?t = Some (?t\<lparr>dusb := v\<rparr>)" "usb_frame ((dusb t)\<lparr>uenum := 3\<rparr>) v"
    "concat (queue (ep v 3)) = concat (queue (ep (dusb t) 3)) @ fifo (ep (dusb t) 3) @ csw_bytes ?p" "in_idle v"
    "full_but_last (queue (ep (dusb t) 3)) (queue (ep v 3))"
    using return_status [of ?t ?d] assms(2,3) l by auto
  have "\<not> ms_reset v" using frame_cur [OF v(2)] assms(2) by (simp add: status_ready_def)
  moreover have "ms_command bio stack d s = Some (?d, ?t\<lparr>dusb := v\<rparr>)"
    using assms(1,3) v(1)
    by (cases "Flags (CommandBlock d) AND MS_COMMAND_DIR_DATA_IN = 0")
      (simp_all add: ms_command_def CALLBACK_MS_Device_SCSICommandReceived_def select_ep passed_def Let_def)
  ultimately show ?thesis using v(2-5) l by simp
qed

lemma read_10_packets:
  assumes "command_waiting c (dusb s)" "cbw_ok c" "Config d = Disk_MS_Interface" "10 \<le> SCSICommandLength c"
    "SCSICommandData c = cdb10 SCSI_CMD_READ_10 BA TB" "Flags c = MS_COMMAND_DIR_DATA_IN"
    "at_rest (dflash s)" "unat BA < 32768" "unat BA + unat TB \<le> 32768"
  shows "\<exists>d' s'. MS_Device_USBTask bio stack d s = Some (d', s') \<and>
    (\<exists>ps. queue (ep (dusb s') 3) = queue (ep (dusb s) 3) @ ps @
        [csw_bytes (passed (Tag c) (DataTransferLength c - ucast TB * 512))] \<and>
      concat ps = map (medium (dflash s)) [512 * unat BA..<512 * (unat BA + unat TB)] \<and> (\<forall>p\<in>set ps. length p = 64)) \<and>
    served s s' \<and> (queue (ep (dusb s) 4) = [] \<longrightarrow> drained (ep (dusb s') 4)) \<and> Config d' = Config d \<and> at_rest (dflash s') \<and> same_mem (dflash s) (dflash s')"
proof -
  let ?d = "received c d"
  obtain v where v: "MS_Device_ReadInCommandBlock bio d s = Some (True, ?d, s\<lparr>dusb := v\<rparr>)"
    "usb_frame ((dusb s)\<lparr>uenum := 4\<rparr>) v" "ep v 4 = release (lat (dusb s)) ((ep (dusb s) 4)\<lparr>delay := 0, fifo := []\<rparr>)"
    using read_command_block [OF assms(1-3)] by blast
  let ?s = "s\<lparr>dusb := v\<rparr>"
  let ?t = "LEDs_SetAllLEDs bio LEDMASK_USB_BUSY (pick 3 ?s)"
  have ep3: "ep v 3 = ep (dusb s) 3" using v(2) by (simp add: usb_frame_def)
  have ep4: "\<not> stalled (ep v 4)"
    using v(3) assms(1) by (simp add: command_waiting_def release_def split: list.split)
  note fv = frame_cur [OF v(2)]
  have t: "dflash ?t = dflash s" "dusb ?t = v\<lparr>uenum := 3\<rparr>" by (simp_all add: set_leds)
  obtain df u where r: "DataflashManager_ReadBlocks bio BA TB ?t = Some (mb.st ?t df u)" "at_rest df"
    "same_mem (dflash s) df" "usb_frame (v\<lparr>uenum := 3\<rparr>) u"
    "sent u = sent (v\<lparr>uenum := 3\<rparr>) @ map (medium (dflash s)) [512 * unat BA..<512 * (unat BA + unat TB)]" "in_rest u"
    "full_after (queue (ep (dusb s) 3)) u"
    using mb.read_blocks_ok [of ?t BA TB] assms(1,7-9) ep3 fv
    by (auto simp: t command_waiting_def attached_def cur_def)
  let ?t1 = "mb.st ?t df u"
  note fu = frame_cur [OF r(4)]
  have u: "ep u 4 = ep v 4" "uenum u = 3" using r(4) fu by (simp_all add: usb_frame_def)
  have e: "ep u 3 = cur u" "sent (v\<lparr>uenum := 3\<rparr>) = concat (queue (ep (dusb s) 3))"
    using u(2) ep3 assms(1) by (simp_all add: cur_def sent_def command_waiting_def)
  have dm: "dusb ?t1 = u" "dflash ?t1 = df" by (simp_all add: mb.st_def)
  have "status_ready u"
    using assms(1) r(6) u fu fv ep4 e by (simp add: status_ready_def in_rest_def attached_def command_waiting_def)
  moreover have "SCSI_DecodeSCSICommand bio stack ?d ?t = Some (True, transferred TB ?d, ?t1)"
    using r(1) assms(4,5,8) by (intro decode_read10 [where BA = BA]) (simp_all add: received_def word_le_nat_alt min_def)
  ultimately obtain d' s' where f: "ms_command bio stack ?d ?s = Some (d', s')" "dflash s' = df" "\<not> ms_reset (dusb s')"
    "concat (queue (ep (dusb s') 3)) = concat (queue (ep u 3)) @ fifo (ep u 3) @
      csw_bytes (passed (Tag c) (DataTransferLength c - ucast TB * 512))" "full_but_last (queue (ep u 3)) (queue (ep (dusb s') 3))" "in_idle (dusb s')"
    "usb_frame (u\<lparr>uenum := 3\<rparr>) (dusb s')" "Config d' = Config d"
    using block_command [of stack ?d ?s TB ?t1] assms(3,6) dm by (auto simp: received_def)
  have task: "MS_Device_USBTask bio stack d s = Some (d', s')"
    using configured_task [OF assms(1,3) v(1) f(1,3)] .
  let ?csw = "csw_bytes (passed (Tag c) (DataTransferLength c - ucast TB * 512))"
  have "full_but_last (queue (ep (dusb s) 3)) (queue (ep (dusb s') 3))"
    using r(7) f(5) fu fv assms(1) e(1) by (auto simp: full_after_def full_but_last_def command_waiting_def)
  moreover have "concat (queue (ep (dusb s') 3)) = concat (queue (ep (dusb s) 3)) @
      map (medium (dflash s)) [512 * unat BA..<512 * (unat BA + unat TB)] @ ?csw"
    using f(4) r(5) e by (simp add: sent_def)
  moreover have "64 dvd length (map (medium (dflash s)) [512 * unat BA..<512 * (unat BA + unat TB)])"
    by (simp add: distrib_left)
  ultimately obtain ps where "queue (ep (dusb s') 3) = queue (ep (dusb s) 3) @ ps @ [?csw]"
    "concat ps = map (medium (dflash s)) [512 * unat BA..<512 * (unat BA + unat TB)]" "\<forall>p\<in>set ps. length p = 64"
    using full_packets [of "queue (ep (dusb s) 3)" "queue (ep (dusb s') 3)" _ ?csw] by (auto simp: length_csw)
  moreover have "served s s'"
    using f(6,7) fu fv ep4 u(1) by (simp add: served_def usb_frame_def)
  moreover have "drained (ep (dusb s') 4)" if "queue (ep (dusb s) 4) = []"
    using that f(7) v(3) u(1) assms(1) by (simp add: usb_frame_def drained_def release_def command_waiting_def)
  ultimately show ?thesis
    using task f(2,8) r(2,3) by blast
qed

text \<open>
  C8. READ(10): when a valid read command for blocks inside the medium waits in the OUT endpoint,
  one call of the class driver's task puts exactly the bytes of those blocks and then a status
  wrapper with the command's tag, the rest of the transfer length and the status \<open>passed\<close> into
  the IN endpoint, and leaves the medium as it was.
\<close>

theorem read_10_command:
  assumes "command_waiting c (dusb s)" "cbw_ok c" "Config d = Disk_MS_Interface" "10 \<le> SCSICommandLength c"
    "SCSICommandData c = cdb10 SCSI_CMD_READ_10 BA TB" "Flags c = MS_COMMAND_DIR_DATA_IN"
    "at_rest (dflash s)" "unat BA < 32768" "unat BA + unat TB \<le> 32768"
  shows "\<exists>d' s'. MS_Device_USBTask bio stack d s = Some (d', s') \<and>
    concat (queue (ep (dusb s') 3)) = concat (queue (ep (dusb s) 3)) @
      map (medium (dflash s)) [512 * unat BA..<512 * (unat BA + unat TB)] @
      csw_bytes (passed (Tag c) (DataTransferLength c - ucast TB * 512)) \<and>
    fifo (ep (dusb s') 3) = [] \<and> at_rest (dflash s') \<and> same_mem (dflash s) (dflash s')"
  using read_10_packets [OF assms] by (fastforce simp: served_def in_idle_def)

theorem read_10_command_witness:
  "\<exists>d' s'. MS_Device_USBTask bio (\<lambda>n. []) initial_dev
      (waiting_board (cbw_bytes (block_cbw SCSI_CMD_READ_10 MS_COMMAND_DIR_DATA_IN)) []) = Some (d', s') \<and>
    concat (queue (ep (dusb s') 3)) = replicate 512 0xFF @ csw_bytes (passed 7 0)"
proof -
  let ?c = "block_cbw SCSI_CMD_READ_10 MS_COMMAND_DIR_DATA_IN"
  have len: "length [512 * unat (3 :: u32)..<512 * (unat (3 :: u32) + unat (1 :: u16))] = 512" by simp
  have m: "map (medium blank_flash) [512 * unat (3 :: u32)..<512 * (unat (3 :: u32) + unat (1 :: u16))] = replicate 512 0xFF"
    by (simp only: medium_blank map_replicate_const len)
  have "Flags ?c = MS_COMMAND_DIR_DATA_IN" "SCSICommandData ?c = cdb10 SCSI_CMD_READ_10 3 1" "10 \<le> SCSICommandLength ?c"
    "cbw_ok ?c" "Tag ?c = 7" "DataTransferLength ?c - ucast (1 :: u16) * 512 = 0"
    by (simp_all add: block_cbw_def cbw_ok_def)
  moreover have "queue (ep (dusb (waiting_board (cbw_bytes ?c) [])) 3) = []" by (simp add: waiting_board_def)
  ultimately show ?thesis
    using read_10_command [of ?c "waiting_board (cbw_bytes ?c) []" initial_dev 3 1 "\<lambda>n. []"] waiting_ready blank_ready m
    by auto
qed

lemma write_10_packets:
  assumes "command_waiting c (dusb s)" "cbw_ok c" "Config d = Disk_MS_Interface" "10 \<le> SCSICommandLength c"
    "SCSICommandData c = cdb10 SCSI_CMD_WRITE_10 BA TB" "Flags c = 0"
    "at_rest (dflash s)" "unprotected (dflash s)" "unat BA < 32768" "unat BA + unat TB \<le> 32768"
    "queue (ep (dusb s) 4) = p # ps" "\<forall>q\<in>set (p # ps). q \<noteq> [] \<and> 16 dvd length q"
    "512 * unat TB \<le> length (concat (p # ps))"
  shows "\<exists>d' s'. MS_Device_USBTask bio stack d s = Some (d', s') \<and>
    medium (dflash s') = overlay (512 * unat BA) (take (512 * unat TB) (concat (p # ps))) (medium (dflash s)) \<and>
    at_rest (dflash s') \<and> unprotected (dflash s') \<and>
    queue (ep (dusb s') 3) = queue (ep (dusb s) 3) @ [csw_bytes (passed (Tag c) (DataTransferLength c - ucast TB * 512))] \<and>
    served s s' \<and> (512 * unat TB = length (concat (p # ps)) \<longrightarrow> drained (ep (dusb s') 4)) \<and> Config d' = Config d"
proof -
  let ?d = "received c d"
  obtain v where v: "MS_Device_ReadInCommandBlock bio d s = Some (True, ?d, s\<lparr>dusb := v\<rparr>)"
    "usb_frame ((dusb s)\<lparr>uenum := 4\<rparr>) v" "ep v 4 = release (lat (dusb s)) ((ep (dusb s) 4)\<lparr>delay := 0, fifo := []\<rparr>)"
    using read_command_block [OF assms(1-3)] by blast
  let ?s = "s\<lparr>dusb := v\<rparr>"
  let ?t = "LEDs_SetAllLEDs bio LEDMASK_USB_BUSY ?s"
  have ep3: "ep v 3 = ep (dusb s) 3" using v(2) by (simp add: usb_frame_def)
  note fv = frame_cur [OF v(2)]
  have ep4: "cur v = (ep (dusb s) 4)\<lparr>delay := lat (dusb s), fifo := p, queue := ps\<rparr>"
    using v(3) fv assms(1,11) by (simp add: cur_def command_waiting_def release_def)
  have t: "dflash ?t = dflash s" "dusb ?t = v" by (simp_all add: set_leds)
  have pre: "attached v" "\<not> ep_in (cur v)" "bank (cur v)" "whole_chunks v" "\<not> ms_reset v" "avail v = concat (p # ps)"
    using assms(1,12) ep4 fv
    by (auto simp: command_waiting_def attached_def bank_ready_def whole_chunks_def avail_def)
  obtain df u where r: "DataflashManager_WriteBlocks bio BA TB ?t = Some (mb.st ?t df u)" "at_rest df" "unprotected df"
    "medium df = overlay (512 * unat BA) (take (512 * unat TB) (concat (p # ps))) (medium (dflash s))"
    "usb_frame v u" "\<not> stalled (cur u)" "512 * unat TB = length (concat (p # ps)) \<longrightarrow> drained (cur u)"
    using mb.write_blocks_ok [of ?t BA TB] assms(7-10,13) pre by (auto simp: t)
  let ?t1 = "mb.st ?t df u"
  note fu = frame_cur [OF r(5)]
  have u: "ep u 3 = ep v 3" "ep u 4 = cur u" "uenum u = 4" using r(5) fu fv by (simp_all add: usb_frame_def cur_def)
  have dm: "dusb ?t1 = u" "dflash ?t1 = df" by (simp_all add: mb.st_def)
  have "status_ready u"
    using assms(1) r(6) u fu fv ep3 by (simp add: status_ready_def command_waiting_def)
  moreover have "SCSI_DecodeSCSICommand bio stack ?d ?t = Some (True, transferred TB ?d, ?t1)"
    using r(1) assms(4,5,9) by (intro decode_write10 [where BA = BA]) (simp_all add: received_def word_le_nat_alt min_def)
  ultimately obtain d' s' where f: "ms_command bio stack ?d ?s = Some (d', s')" "dflash s' = df" "\<not> ms_reset (dusb s')"
    "concat (queue (ep (dusb s') 3)) = concat (queue (ep u 3)) @ fifo (ep u 3) @
      csw_bytes (passed (Tag c) (DataTransferLength c - ucast TB * 512))"
    "full_but_last (queue (ep u 3)) (queue (ep (dusb s') 3))" "in_idle (dusb s')"
    "usb_frame (u\<lparr>uenum := 3\<rparr>) (dusb s')" "Config d' = Config d"
    using block_command [of stack ?d ?s TB ?t1] assms(3,6) dm by (auto simp: received_def)
  have task: "MS_Device_USBTask bio stack d s = Some (d', s')"
    using configured_task [OF assms(1,3) v(1) f(1,3)] .
  let ?csw = "csw_bytes (passed (Tag c) (DataTransferLength c - ucast TB * 512))"
  have q3: "ep u 3 = ep (dusb s) 3" "fifo (ep (dusb s) 3) = []" using u(1) ep3 assms(1) by (simp_all add: command_waiting_def)
  obtain xs where xs: "queue (ep (dusb s') 3) = queue (ep (dusb s) 3) @ xs @ [?csw]" "concat xs = []" "\<forall>x\<in>set xs. length x = 64"
    using full_packets [of "queue (ep (dusb s) 3)" "queue (ep (dusb s') 3)" "[]" ?csw] f(4,5) q3 by (auto simp: length_csw)
  have "xs = []" using length_full [OF xs(3)] xs(2) by simp
  then have "queue (ep (dusb s') 3) = queue (ep (dusb s) 3) @ [?csw]" using xs(1) by simp
  moreover have "served s s'" "ep (dusb s') 4 = cur u"
    using f(6,7) fu fv r(6) u by (simp_all add: served_def usb_frame_def)
  ultimately show ?thesis
    using task f(2,8) r(2-4,7) by metis
qed

text \<open>
  C9. WRITE(10): when a valid write command for blocks inside the medium waits in the OUT endpoint
  and the host has queued the data behind it, one call of the class driver's task stores exactly
  those bytes from the start of the addressed block on, changes no other byte of the medium and
  answers with a status wrapper that has the command's tag and the status \<open>passed\<close>.
\<close>

theorem write_10_command:
  assumes "command_waiting c (dusb s)" "cbw_ok c" "Config d = Disk_MS_Interface" "10 \<le> SCSICommandLength c"
    "SCSICommandData c = cdb10 SCSI_CMD_WRITE_10 BA TB" "Flags c = 0"
    "at_rest (dflash s)" "unprotected (dflash s)" "unat BA < 32768" "unat BA + unat TB \<le> 32768"
    "queue (ep (dusb s) 4) = p # ps" "\<forall>q\<in>set (p # ps). q \<noteq> [] \<and> 16 dvd length q"
    "512 * unat TB \<le> length (concat (p # ps))"
  shows "\<exists>d' s'. MS_Device_USBTask bio stack d s = Some (d', s') \<and>
    medium (dflash s') = overlay (512 * unat BA) (take (512 * unat TB) (concat (p # ps))) (medium (dflash s)) \<and>
    at_rest (dflash s') \<and> unprotected (dflash s') \<and>
    concat (queue (ep (dusb s') 3)) = concat (queue (ep (dusb s) 3)) @
      csw_bytes (passed (Tag c) (DataTransferLength c - ucast TB * 512))"
  using write_10_packets [OF assms] by fastforce

theorem write_10_command_witness:
  "\<exists>d' s'. MS_Device_USBTask bio (\<lambda>n. []) initial_dev
      (waiting_board (cbw_bytes (block_cbw SCSI_CMD_WRITE_10 0)) (replicate 8 (replicate 64 0xAB))) = Some (d', s') \<and>
    medium (dflash s') 1536 = 0xAB \<and> medium (dflash s') 2047 = 0xAB \<and> medium (dflash s') 2048 = 0xFF"
proof -
  let ?c = "block_cbw SCSI_CMD_WRITE_10 0" and ?q = "replicate 8 (replicate 64 (0xAB :: u8))"
  let ?s = "waiting_board (cbw_bytes ?c) ?q"
  let ?p = "replicate 64 (0xAB :: u8)"
  have q: "?q = ?p # replicate 7 ?p" by (simp add: numeral_eq_Suc)
  have con: "concat (replicate n ?p) = replicate (n * 64) 0xAB" for n
    by (induction n) (simp_all add: replicate_add)
  have c8: "concat (?p # replicate 7 ?p) = replicate 512 0xAB" using con [of 8] q by (simp del: replicate.simps)
  have c: "Flags ?c = 0" "SCSICommandData ?c = cdb10 SCSI_CMD_WRITE_10 3 1" "10 \<le> SCSICommandLength ?c" "cbw_ok ?c"
    by (simp_all add: block_cbw_def cbw_ok_def)
  have "queue (ep (dusb ?s) 4) = ?p # replicate 7 ?p" using q by (simp add: waiting_board_def)
  moreover have "\<forall>x\<in>set (?p # replicate 7 ?p). x \<noteq> [] \<and> 16 dvd length x" by simp
  moreover have "512 * unat (1 :: u16) \<le> length (concat (?p # replicate 7 ?p))" unfolding c8 by simp
  moreover have "unat (3 :: u32) < 32768" "unat (3 :: u32) + unat (1 :: u16) \<le> 32768" by simp_all
  ultimately obtain d' s' where "MS_Device_USBTask bio (\<lambda>n. []) initial_dev ?s = Some (d', s')"
    "medium (dflash s') = overlay (512 * unat (3 :: u32)) (take (512 * unat (1 :: u16)) (replicate 512 0xAB)) (medium blank_flash)"
    using write_10_command [OF waiting_ready(1) c(4) waiting_ready(4) c(3,2,1), of ?q ?p "replicate 7 ?p" "\<lambda>n. []"]
      waiting_ready(3) blank_ready unfolding c8 by auto
  then show ?thesis by (auto simp: overlay_def medium_blank)
qed

end
