(* ===== verification/Ms_Props.thy ===== *)
theory Ms_Props
  imports Ms_Command
begin

text \<open>
  Properties of the parts of the mass storage device: wrappers that are not accepted, the block
  transfers of the dataflash driver as updates of the linear medium, the wait and size-mask loops,
  and the layouts in memory.
\<close>

section \<open>Wrappers\<close>

lemma u8_one_le: "1 \<le> x \<longleftrightarrow> x \<noteq> 0" for x :: u8
  by (auto simp: word_le_nat_alt Suc_le_eq unat_gt_0)

context usb_bus
begin

lemma stall_transaction: "uenum (get s) \<noteq> 0 \<Longrightarrow>
   Endpoint_StallTransaction io s = put (upd_cur (\<lambda>e. e\<lparr>stalled := True\<rparr>) (get s)) s"
  by (simp add: Endpoint_StallTransaction_def or_reg_def rd_bulk wr_bulk bulk_regs_def usb_rd_def usb_wr_def put_get
      bit_or_iff)

end

text \<open>
  C14. A command wrapper with a wrong signature, unit, reserved flag or command length is refused:
  both data endpoints are stalled, no status is sent, and medium and status are untouched.
\<close>

theorem bad_wrapper_stalls:
  assumes "command_waiting c (dusb s)" "Config d = Disk_MS_Interface"
    "Signature c \<noteq> MS_CBW_SIGNATURE \<or> LUN c \<noteq> 0 \<or> Flags c AND 0x1F \<noteq> 0 \<or> SCSICommandLength c = 0 \<or>
     16 < SCSICommandLength c"
  shows "\<exists>d' s'. MS_Device_USBTask bio stack d s = Some (d', s') \<and> stalled (ep (dusb s') 4) \<and>
    stalled (ep (dusb s') 3) \<and> queue (ep (dusb s') 3) = queue (ep (dusb s) 3) \<and> dflash s' = dflash s \<and>
    CommandStatus d' = CommandStatus d"
proof -
  let ?cb = "Some (StreamCallback_MS_Device_AbortOnMassStoreReset bio)"
  let ?u = "(dusb s)\<lparr>uenum := 4\<rparr>" and ?e = "ep (dusb s) 4"
  have w: "attached ?u" "\<not> ep_in (cur ?u)" "bank (cur ?u)" "fifo (cur ?u) = cbw_bytes c" "cur ?u = ?e"
    "bank_ready (cur ?u)"
    using assms(1) by (simp_all add: command_waiting_def attached_def cur_def bank_ready_def)
  have "fifo (cur ?u) \<noteq> []" using w(4) by (simp add: cbw_bytes_def bytes32_def)
  then have a: "Endpoint_IsReadWriteAllowed bio (pick 4 s) = (True, pick 4 s)"
    using ub.rwa [of "pick 4 s"] w poll_ready [OF w(6)] by (simp add: pick_def)
  obtain v where v: "Endpoint_Read_Stream_LE bio ?cb 15 (pick 4 s) = Some (EP_NoError, cbw_header c, s\<lparr>dusb := v\<rparr>)"
    "usb_frame ?u v"
    using ub.read_within [of "pick 4 s" 15 ?cb] w by (auto simp: pick_def cbw_bytes_split)
  note fv = frame_cur [OF v(2)]
  let ?v1 = "upd_cur (\<lambda>e. e\<lparr>stalled := True\<rparr>) v"
  let ?v2 = "upd_cur (\<lambda>e. e\<lparr>stalled := True\<rparr>) (?v1\<lparr>uenum := 3\<rparr>)"
  have st: "Endpoint_StallTransaction bio (s\<lparr>dusb := v\<rparr>) = s\<lparr>dusb := ?v1\<rparr>"
    using ub.stall_transaction [of "s\<lparr>dusb := v\<rparr>"] fv by simp
  have st2: "Endpoint_StallTransaction bio (pick 3 (s\<lparr>dusb := ?v1\<rparr>)) = s\<lparr>dusb := ?v2\<rparr>"
    using ub.stall_transaction [of "pick 3 (s\<lparr>dusb := ?v1\<rparr>)"] by (simp add: pick_def)
  let ?d = "d\<lparr>CommandBlock := c\<lparr>SCSICommandData := SCSICommandData (CommandBlock d)\<rparr>\<rparr>"
  have "MS_Device_ReadInCommandBlock bio d (pick 4 s) = Some (False, ?d, s\<lparr>dusb := ?v2\<rparr>)"
    using v(1) st st2 assms(2,3)
    by (auto simp: MS_Device_ReadInCommandBlock_def Let_def select_ep store_header u8_one_le)
  moreover have "\<not> ms_reset ?v2" "uenum v = 4" "ep v 3 = ep (dusb s) 3"
    using fv assms(1) v(2) by (simp_all add: command_waiting_def usb_frame_def)
  ultimately have "MS_Device_USBTask bio stack d s = Some (?d, s\<lparr>dusb := ?v2\<rparr>)"
    using a assms(1,2) ub.dev_state [of 4 s] ub.reset_flag [of "s\<lparr>dusb := ?v2\<rparr>"]
    by (simp add: MS_Device_USBTask_def select_ep command_waiting_def read_reset_flag_def)
  moreover have "stalled (ep ?v2 4)" "stalled (ep ?v2 3)" "queue (ep ?v2 3) = queue (ep (dusb s) 3)"
    using \<open>uenum v = 4\<close> \<open>ep v 3 = ep (dusb s) 3\<close> by (simp_all add: upd_cur_def cur_def)
  ultimately show ?thesis by (intro exI [of _ ?d] exI [of _ "s\<lparr>dusb := ?v2\<rparr>"]) simp
qed

theorem bad_wrapper_stalls_witness:
  "\<exists>d' s'. MS_Device_USBTask bio (\<lambda>n. []) initial_dev
      (waiting_board (cbw_bytes (block_cbw SCSI_CMD_READ_10 0x81)) []) = Some (d', s') \<and> stalled (ep (dusb s') 3)"
proof -
  let ?c = "block_cbw SCSI_CMD_READ_10 0x81"
  have "Flags ?c AND 0x1F \<noteq> 0" by (simp add: block_cbw_def)
  then show ?thesis
    using bad_wrapper_stalls [of ?c "waiting_board (cbw_bytes ?c) []" initial_dev "\<lambda>n. []"] waiting_ready by blast
qed

text \<open>The command wrapper's layout in memory loses nothing: reading its bytes back gives the wrapper.\<close>

lemma cbw_round_trip: "cbw_of (cbw_bytes c) = c"
  by (simp add: cbw_bytes_split cbw_of_header)

section \<open>Block transfers between memory and medium\<close>

text \<open>
  \<open>DataflashManager_WriteBlocks_RAM\<close> followed by \<open>DataflashManager_ReadBlocks_RAM\<close> of the same
  blocks gives the buffer back, for blocks that lie in one pair of dataflash pages (four blocks);
  reading leaves the medium alone.
\<close>

theorem ram_round_trip:
  assumes "at_rest (dflash s)" "unprotected (dflash s)" "unat BA < 32768" "length buf = 512 * unat TB"
    "unat BA + unat TB \<le> 4 * (unat BA div 4 + 1)"
  shows "\<exists>t u. DataflashManager_WriteBlocks_RAM bio BA TB buf s = Some t \<and>
    medium (dflash t) = overlay (512 * unat BA) buf (medium (dflash s)) \<and>
    DataflashManager_ReadBlocks_RAM bio BA TB t = Some (buf, u) \<and> medium (dflash u) = medium (dflash t)"
proof -
  obtain d where d: "DataflashManager_WriteBlocks_RAM bio BA TB buf s = Some (s\<lparr>dflash := d\<rparr>)" "at_rest d"
    "medium d = overlay (512 * unat BA) buf (medium (dflash s))"
    using fb.write_ram_ok [OF assms] by blast
  have "4 * (unat BA div 4 + 1) \<le> 32768" using less_mult_imp_div_less [of "unat BA" 8192 4] assms(3) by simp
  then have e: "unat BA + unat TB \<le> 32768" using assms(5) by simp
  obtain d2 where d2: "DataflashManager_ReadBlocks_RAM bio BA TB (s\<lparr>dflash := d\<rparr>) =
      Some (map (medium d) [512 * unat BA..<512 * (unat BA + unat TB)], s\<lparr>dflash := d2\<rparr>)" "same_mem d d2"
    using fb.read_ram_ok [of "s\<lparr>dflash := d\<rparr>" BA TB] d(2) e assms(3) by auto
  have "map (medium d) [512 * unat BA..<512 * (unat BA + unat TB)] = buf"
    using d(3) assms(4) by (intro nth_equalityI) (simp_all add: overlay_at del: upt_Suc)
  moreover have "medium d2 = medium d" using same_mem_page [OF d2(2)] by (simp add: medium_def fun_eq_iff)
  ultimately show ?thesis using d(1,3) d2(1) by simp
qed

theorem ram_round_trip_witness:
  "\<exists>t u. DataflashManager_WriteBlocks_RAM bio 5 2 (replicate 1024 9) (waiting_board [] []) = Some t \<and>
    DataflashManager_ReadBlocks_RAM bio 5 2 t = Some (replicate 1024 9, u)"
  using ram_round_trip [of "waiting_board [] []" 5 "replicate 1024 9" 2] blank_ready waiting_ready(3) [of "[]" "[]"]
  by auto

section \<open>Loops\<close>

text \<open>
  C20. \<open>Endpoint_WaitUntilReady\<close> returns from every state with a data endpoint selected: the start of
  frame flag counts its 101 rounds.  It reports no error only if the bank is there, a disconnection
  or a stall only if it is so, and a timeout only if the bank needs more than 100 polls; it changes
  nothing but the waiting state of the endpoint.
\<close>

theorem wait_until_ready_returns:
  assumes "uenum (dusb s) \<noteq> 0"
  shows "\<exists>e v. Endpoint_WaitUntilReady bio s = Some (e, s\<lparr>dusb := v\<rparr>) \<and> usb_frame (dusb s) v \<and>
    (\<exists>d. cur v = (cur (dusb s))\<lparr>delay := d\<rparr>) \<and>
    (e = EP_NoError \<longrightarrow> bank (cur (dusb s)) \<and> bank_ready (cur v)) \<and>
    (e = EP_DeviceDisconnected \<longrightarrow> dev_state (dusb s) = DEVICE_STATE_Unattached) \<and>
    (e = EP_EndpointStalled \<longrightarrow> stalled (cur (dusb s))) \<and>
    (e = EP_Timeout \<longrightarrow> \<not> (bank (cur (dusb s)) \<and> delay (cur (dusb s)) \<le> 100)) \<and> e \<noteq> EP_CallbackAborted"
proof -
  obtain e v where "wait_loop bio 100 s = Some (e, s\<lparr>dusb := v\<rparr>)" "ub.wait_post 100 (dusb s) e v"
    using ub.wait_ends [of s 100] assms by blast
  then show ?thesis
    unfolding Endpoint_WaitUntilReady_def ub.wait_post_def
    by (intro exI [of _ e] exI [of _ v]) (auto simp: bank_ready_def)
qed

theorem wait_until_ready_returns_witness:
  "\<exists>e v. Endpoint_WaitUntilReady bio (pick 4 (waiting_board [] [])) = Some (e, (waiting_board [] [])\<lparr>dusb := v\<rparr>)"
  using wait_until_ready_returns [of "pick 4 (waiting_board [] [])"] by (auto simp: pick_def intro: exI)

text \<open>The loop of the size mask doubles eight; sixteen bits hold its double up to 32768.\<close>

lemma size_mask_up:
  assumes "unat Bytes \<le> 32768" "unat CheckBytes = 8 * 2 ^ k" "k \<le> 12" "Mask = of_nat k"
    "k = 0 \<or> 8 * 2 ^ (k - 1) < unat Bytes"
  shows "\<exists>n \<le> 12. size_mask_loop Bytes Mask CheckBytes = Some (of_nat n) \<and> unat Bytes \<le> 8 * 2 ^ n \<and>
    (n = 0 \<or> 8 * 2 ^ (n - 1) < unat Bytes)"
  using assms
proof (induction "12 - k" arbitrary: k Mask CheckBytes)
  case 0
  then have "k = 12" by simp
  then have "\<not> CheckBytes < Bytes" using 0 by (simp add: word_less_nat_alt)
  then show ?case
    using 0 \<open>k = 12\<close> by (subst size_mask_loop.simps) (auto intro!: exI [of _ 12])
next
  case (Suc j)
  show ?case
  proof (cases "CheckBytes < Bytes")
    case False
    then show ?thesis
      using Suc.prems by (subst size_mask_loop.simps) (auto simp: word_less_nat_alt)
  next
    case True
    have k: "k < 12" using Suc.hyps(2) by simp
    have "8 * 2 ^ k * 2 < (65536 :: nat)"
      using k power_increasing [of k 11 "2 :: nat"] by simp
    then have "unat (push_bit 1 CheckBytes) = 8 * 2 ^ Suc k"
      using Suc.prems(2) by (simp add: push_bit_eq_mult unat_word_ariths)
    moreover have "j = 12 - Suc k" "Suc k \<le> 12" using Suc.hyps(2) by simp_all
    moreover have "8 * 2 ^ (Suc k - 1) < unat Bytes" using True Suc.prems(2) by (simp add: word_less_nat_alt)
    ultimately have "\<exists>n \<le> 12. size_mask_loop Bytes (Mask + 1) (push_bit 1 CheckBytes) = Some (of_nat n) \<and>
        unat Bytes \<le> 8 * 2 ^ n \<and> (n = 0 \<or> 8 * 2 ^ (n - 1) < unat Bytes)"
      using Suc.prems by (intro Suc.hyps(1) [of "Suc k"]) (simp_all add: ac_simps)
    then show ?thesis using True by (subst size_mask_loop.simps) simp
  qed
qed

text \<open>
  \<open>Endpoint_BytesToEPSizeMask\<close> returns for every size up to 32768 bytes, and what it returns is
  the least exponent \<open>n\<close> with \<open>8 * 2 ^ n\<close> at least the size, in the position of the size bits.
\<close>

theorem size_mask_least:
  assumes "Bytes \<le> 32768"
  shows "\<exists>n \<le> 12. Endpoint_BytesToEPSizeMask Bytes = Some (push_bit 4 (of_nat n)) \<and> unat Bytes \<le> 8 * 2 ^ n \<and>
    (\<forall>m < n. 8 * 2 ^ m < unat Bytes)"
proof -
  obtain n where n: "n \<le> 12" "size_mask_loop Bytes 0 8 = Some (of_nat n)" "unat Bytes \<le> 8 * 2 ^ n"
    "n = 0 \<or> 8 * 2 ^ (n - 1) < unat Bytes"
    using size_mask_up [of Bytes 8 0 0] assms by (auto simp: word_le_nat_alt)
  have "8 * 2 ^ m < unat Bytes" if "m < n" for m
  proof -
    have "(2 :: nat) ^ m \<le> 2 ^ (n - 1)" using that by (intro power_increasing) simp_all
    moreover have "8 * 2 ^ (n - 1) < unat Bytes" using n(4) that by simp
    ultimately show ?thesis by (meson le_less_trans mult_le_mono2)
  qed
  then show ?thesis using n by (intro exI [of _ n]) (simp add: Endpoint_BytesToEPSizeMask_def)
qed

theorem size_mask_least_witness: "\<exists>n \<le> 12. Endpoint_BytesToEPSizeMask 64 = Some (push_bit 4 (of_nat n)) \<and> 64 \<le> 8 * (2 :: nat) ^ n"
  using size_mask_least [of 64] by auto

end
