(* ===== verification/Scsi_Props.thy ===== *)
theory Scsi_Props
  imports Ms_Props
begin

text \<open>
  SCSI commands that answer from the driver's own memory, and the errors of the dispatcher.
\<close>

section \<open>Commands with a data stage of their own\<close>

text \<open>Two writes to an open IN endpoint and the release of the last bank.\<close>

lemma reply_in:
  assumes "in_open (dusb s)"
  shows "\<exists>s1 v. stream_out (Endpoint_Write_Stream_LE bio None xs) s = Some s1 \<and>
    stream_out (Endpoint_Write_Stream_LE bio None ys) s1 = Some (s\<lparr>dusb := v\<rparr>) \<and>
    Endpoint_ClearIN bio (s\<lparr>dusb := v\<rparr>) = s\<lparr>dusb := next_bank v\<rparr> \<and> usb_frame (dusb s) (next_bank v) \<and>
    concat (queue (cur (next_bank v))) = sent (dusb s) @ xs @ ys \<and> fifo (cur (next_bank v)) = []"
proof -
  have calm: "ub.calm None t" for t by (simp add: ub.calm_def)
  have o: "attached u \<and> ep_in (cur u) \<and> bank (cur u) \<and> 0 < ep_size u \<and> length (fifo (cur u)) \<le> ep_size u"
    if "in_open u" for u using that by (simp add: in_open_def bank_ready_def)
  obtain v where v: "Endpoint_Write_Stream_LE bio None xs s = Some (EP_NoError, s\<lparr>dusb := v\<rparr>)" "usb_frame (dusb s) v"
    "in_open v" "sent v = sent (dusb s) @ xs"
    using ub.write_stream [of s None xs] o [OF assms] calm by auto
  obtain w where w: "Endpoint_Write_Stream_LE bio None ys (s\<lparr>dusb := v\<rparr>) = Some (EP_NoError, s\<lparr>dusb := w\<rparr>)" "usb_frame v w"
    "in_open w" "sent w = sent v @ ys"
    using ub.write_stream [of "s\<lparr>dusb := v\<rparr>" None ys] o [OF v(3)] calm by auto
  have "Endpoint_ClearIN bio (s\<lparr>dusb := w\<rparr>) = s\<lparr>dusb := next_bank w\<rparr>"
    using ub.clear_bank(2) [of "s\<lparr>dusb := w\<rparr>"] w(3) by (simp add: in_open_def attached_def)
  moreover have "concat (queue (cur (next_bank w))) = sent w" "fifo (cur (next_bank w)) = []"
    using w(3) by (simp_all add: next_bank_def release_def in_open_def sent_def)
  moreover have "usb_frame (dusb s) (next_bank w)"
    using usb_frame_trans [OF usb_frame_trans [OF v(2) w(2)]] by (simp add: next_bank_def)
  ultimately show ?thesis using v(1,4) w(1,4) by (intro exI [of _ "s\<lparr>dusb := v\<rparr>"] exI [of _ w]) (simp add: stream_out_def)
qed

text \<open>
  INQUIRY with the standard fields answers with the first bytes of the inquiry data, as many as
  the host allocated, and fills a longer allocation up, not with zeros, but with whatever the stack
  holds.
\<close>

theorem inquiry_reply:
  assumes "in_open (dusb s)" "take 6 (SCSICommandData (CommandBlock d)) = [SCSI_CMD_INQUIRY, 0, 0, ah, al, 0]"
    "length (stack (unat (word16 al ah) - 36)) = unat (word16 al ah) - 36"
  shows "\<exists>d' v. SCSI_DecodeSCSICommand bio stack d s = Some (True, d', s\<lparr>dusb := v\<rparr>) \<and>
    concat (queue (cur v)) @ fifo (cur v) = sent (dusb s) @
      take (unat (word16 al ah)) (inquiry_bytes InquiryData @ stack (unat (word16 al ah) - 36))"
proof -
  let ?n = "word16 al ah"
  have nth: "SCSICommandData (CommandBlock d) ! i = [SCSI_CMD_INQUIRY, 0, 0, ah, al, 0] ! i" if "i < 6" for i
    using that assms(2) by (metis nth_take)
  have c: "cdb d 0 = SCSI_CMD_INQUIRY" "cdb d 1 = 0" "cdb d 2 = 0" "cdb d 3 = ah" "cdb d 4 = al"
    using nth [of 0] nth [of 1] nth [of 2] nth [of 3] nth [of 4] by (simp_all add: cdb_def)
  have n: "push_bit 8 (ucast ah) OR ucast al = ?n" by (simp add: word16_def or.commute)
  have len: "length (inquiry_bytes InquiryData) = 36"
    by (simp add: inquiry_bytes_def InquiryData_def char_array_def)
  let ?d = "SCSI_SET_SENSE 0 0 0 d"
  define k where "k = (if ?n < 36 then ?n else 36)"
  have s: "cdb ?d i = cdb d i" for i by (simp add: cdb_def SCSI_SET_SENSE_def)
  obtain s1 v where v: "stream_out (Endpoint_Write_Stream_LE bio None (take (unat k) (inquiry_bytes InquiryData))) s = Some s1"
    "stream_out (Endpoint_Write_Stream_LE bio None (stack (unat (?n - k)))) s1 = Some (s\<lparr>dusb := v\<rparr>)"
    "Endpoint_ClearIN bio (s\<lparr>dusb := v\<rparr>) = s\<lparr>dusb := next_bank v\<rparr>" "fifo (cur (next_bank v)) = []"
    "concat (queue (cur (next_bank v))) = sent (dusb s) @ take (unat k) (inquiry_bytes InquiryData) @ stack (unat (?n - k))"
    using reply_in [OF assms(1)] by blast
  let ?d' = "set_residue (\<lambda>n. n - ucast k) ?d"
  have "SCSI_Command_Inquiry bio stack ?d s = Some (?d', s\<lparr>dusb := next_bank v\<rparr>)"
    unfolding SCSI_Command_Inquiry_def s c n len Let_def of_nat_numeral k_def [symmetric] using v(1-3) by simp
  moreover have "SenseKey (SenseData ?d') = 0" by (simp add: set_residue_def SCSI_SET_SENSE_def)
  ultimately have "SCSI_DecodeSCSICommand bio stack d s = Some (True, ?d', s\<lparr>dusb := next_bank v\<rparr>)"
    using c(1) by (simp add: SCSI_DecodeSCSICommand_def s)
  moreover have "take (unat k) (inquiry_bytes InquiryData) @ stack (unat (?n - k)) =
      take (unat ?n) (inquiry_bytes InquiryData @ stack (unat ?n - 36))"
  proof (cases "?n < 36")
    case True
    then have "unat ?n - 36 = 0" "unat ?n \<le> 36" by (simp_all add: word_less_nat_alt)
    then show ?thesis using True assms(3) by (simp add: k_def len)
  next
    case False
    then have "36 \<le> unat ?n" "unat (?n - 36) = unat ?n - 36" by (simp_all add: word_less_nat_alt unat_sub word_le_nat_alt)
    then show ?thesis using False assms(3) by (simp add: k_def len)
  qed
  ultimately show ?thesis using v(4,5) by (intro exI [of _ ?d'] exI [of _ "next_bank v"]) simp
qed

text \<open>The board with the IN endpoint selected.\<close>

lemma in_board: "in_open (dusb (pick 3 (waiting_board [] [])))" "sent (dusb (pick 3 (waiting_board [] []))) = []"
  by (simp_all add: waiting_board_def in_open_def attached_def bank_ready_def cur_def sent_def)

definition with_cdb :: "u8 list \<Rightarrow> dev" where
  "with_cdb bytes = initial_dev\<lparr>CommandBlock := (CommandBlock initial_dev)\<lparr>SCSICommandData := bytes @ replicate 10 0\<rparr>\<rparr>"

theorem inquiry_reply_witness:
  "\<exists>d' v. SCSI_DecodeSCSICommand bio (\<lambda>n. replicate n 0xA5) (with_cdb [SCSI_CMD_INQUIRY, 0, 0, 0, 38, 0])
      (pick 3 (waiting_board [] [])) = Some (True, d', (pick 3 (waiting_board [] []))\<lparr>dusb := v\<rparr>) \<and>
    concat (queue (cur v)) @ fifo (cur v) = inquiry_bytes InquiryData @ [0xA5, 0xA5]"
proof -
  have "unat (word16 38 0) = 38" by (simp add: word16_def)
  moreover have "length (inquiry_bytes InquiryData) = 36"
    by (simp add: inquiry_bytes_def InquiryData_def char_array_def)
  ultimately show ?thesis
    using inquiry_reply [of "pick 3 (waiting_board [] [])" "with_cdb [SCSI_CMD_INQUIRY, 0, 0, 0, 38, 0]" 0 38
        "\<lambda>n. replicate n 0xA5"] in_board
    by (simp add: with_cdb_def numeral_eq_Suc)
qed

text \<open>
  A block command beyond the end of the medium is refused without touching the hardware: the
  sense data say illegal request, block address out of range, and the command fails.
\<close>

theorem out_of_range_refused:
  assumes "cmd = SCSI_CMD_READ_10 \<or> cmd = SCSI_CMD_WRITE_10" "32768 \<le> BA"
    "take 10 (SCSICommandData (CommandBlock d)) = take 10 (cdb10 cmd BA TB)"
  shows "SCSI_DecodeSCSICommand bio stack d s =
    Some (False, SCSI_SET_SENSE SCSI_SENSE_KEY_ILLEGAL_REQUEST SCSI_ASENSE_LOGICAL_BLOCK_ADDRESS_OUT_OF_RANGE 0 d, s)"
  using assms(1,2) cdb10_fields [OF assms(3)]
  by (auto simp: SCSI_DecodeSCSICommand_def SCSI_Command_ReadWrite_10_def cdb_def SCSI_SET_SENSE_def media_blocks)

theorem out_of_range_refused_witness:
  "\<exists>d'. SCSI_DecodeSCSICommand bio (\<lambda>n. []) (with_cdb (take 10 (cdb10 SCSI_CMD_READ_10 32768 1))) (waiting_board [] []) =
    Some (False, d', waiting_board [] []) \<and> SenseKey (SenseData d') = 5"
  using out_of_range_refused [of SCSI_CMD_READ_10 32768 "with_cdb (take 10 (cdb10 SCSI_CMD_READ_10 32768 1))" 1
      "\<lambda>n. []" "waiting_board [] []"]
  by (simp add: with_cdb_def SCSI_SET_SENSE_def)

text \<open>
  REQUEST SENSE never reports the failure of the command before it: the dispatcher clears the
  sense data first, so the answer is that of a good command whatever the sense data were.
\<close>

theorem request_sense_forgets:
  assumes "in_open (dusb s)" "take 5 (SCSICommandData (CommandBlock d)) = [SCSI_CMD_REQUEST_SENSE, 0, 0, 0, 18]"
    "length (sense_bytes (SenseData d)) = 18" "stack 0 = []"
  shows "\<exists>d' v. SCSI_DecodeSCSICommand bio stack d s = Some (True, d', s\<lparr>dusb := v\<rparr>) \<and>
    concat (queue (cur v)) @ fifo (cur v) = sent (dusb s) @ sense_bytes ((SenseData d)\<lparr>SenseKey := SCSI_SENSE_KEY_GOOD,
      AdditionalSenseCode := SCSI_ASENSE_NO_ADDITIONAL_INFORMATION, AdditionalSenseQualifier := 0\<rparr>)"
proof -
  have nth: "SCSICommandData (CommandBlock d) ! i = [SCSI_CMD_REQUEST_SENSE, 0, 0, 0, 18] ! i" if "i < 5" for i
    using that assms(2) by (metis nth_take)
  have c: "cdb d 0 = SCSI_CMD_REQUEST_SENSE" "cdb d 4 = 18"
    using nth [of 0] nth [of 4] by (simp_all add: cdb_def)
  let ?d = "SCSI_SET_SENSE 0 0 0 d"
  have s: "cdb ?d i = cdb d i" for i by (simp add: cdb_def SCSI_SET_SENSE_def)
  have len: "length (sense_bytes (SenseData ?d)) = 18"
    using assms(3) by (simp add: sense_bytes_def SCSI_SET_SENSE_def)
  obtain s1 v where v: "stream_out (Endpoint_Write_Stream_LE bio None (sense_bytes (SenseData ?d))) s = Some s1"
    "stream_out (Endpoint_Write_Stream_LE bio None []) s1 = Some (s\<lparr>dusb := v\<rparr>)"
    "Endpoint_ClearIN bio (s\<lparr>dusb := v\<rparr>) = s\<lparr>dusb := next_bank v\<rparr>" "fifo (cur (next_bank v)) = []"
    "concat (queue (cur (next_bank v))) = sent (dusb s) @ sense_bytes (SenseData ?d)"
    using reply_in [OF assms(1), of "sense_bytes (SenseData ?d)" "[]"] by auto
  let ?d' = "set_residue (\<lambda>n. n - 18) ?d"
  have "SCSI_Command_Request_Sense bio stack ?d s = Some (?d', s\<lparr>dusb := next_bank v\<rparr>)"
    unfolding SCSI_Command_Request_Sense_def s c len Let_def using v(1-3) assms(4) len by simp
  moreover have "SenseKey (SenseData ?d') = 0" by (simp add: set_residue_def SCSI_SET_SENSE_def)
  ultimately have "SCSI_DecodeSCSICommand bio stack d s = Some (True, ?d', s\<lparr>dusb := next_bank v\<rparr>)"
    using c(1) by (simp add: SCSI_DecodeSCSICommand_def s)
  then show ?thesis using v(4,5) by (intro exI [of _ ?d'] exI [of _ "next_bank v"]) (simp add: SCSI_SET_SENSE_def)
qed

theorem request_sense_forgets_witness:
  "\<exists>d' v. SCSI_DecodeSCSICommand bio (\<lambda>n. replicate n 0)
      (SCSI_SET_SENSE SCSI_SENSE_KEY_ILLEGAL_REQUEST 0x21 0 (with_cdb [SCSI_CMD_REQUEST_SENSE, 0, 0, 0, 18]))
      (pick 3 (waiting_board [] [])) = Some (True, d', (pick 3 (waiting_board [] []))\<lparr>dusb := v\<rparr>) \<and>
    concat (queue (cur v)) @ fifo (cur v) = sense_bytes InitialSenseData"
proof -
  let ?d = "SCSI_SET_SENSE SCSI_SENSE_KEY_ILLEGAL_REQUEST 0x21 0 (with_cdb [SCSI_CMD_REQUEST_SENSE, 0, 0, 0, 18])"
  have "(SenseData ?d)\<lparr>SenseKey := 0, AdditionalSenseCode := 0, AdditionalSenseQualifier := 0\<rparr> = InitialSenseData"
    by (simp add: SCSI_SET_SENSE_def with_cdb_def initial_dev_def InitialSenseData_def)
  moreover have "length (sense_bytes (SenseData ?d)) = 18"
    by (simp add: sense_bytes_def SCSI_SET_SENSE_def with_cdb_def initial_dev_def InitialSenseData_def)
  moreover have "take 5 (SCSICommandData (CommandBlock ?d)) = [SCSI_CMD_REQUEST_SENSE, 0, 0, 0, 18]"
    by (simp add: SCSI_SET_SENSE_def with_cdb_def)
  ultimately show ?thesis
    using request_sense_forgets [of "pick 3 (waiting_board [] [])" ?d "\<lambda>n. replicate n 0"] in_board by auto
qed

end
