(* ===== verification/Control_Props.thy ===== *)
theory Control_Props
  imports Ms_Command
begin

text \<open>
  Control transfers on the board: a SETUP packet waits in endpoint 0, the control task serves it,
  and the host ends with what the request promises.
\<close>

definition request_bytes :: "USB_Request_Header_t \<Rightarrow> u8 list" where
  "request_bytes r = [bmRequestType r, bRequest r] @ bytes16 (wValue r) @ bytes16 (wIndex r) @ bytes16 (wLength r)"

lemma request_of_bytes: "request_of (request_bytes r) = r"
  by (cases r) (simp add: request_of_def request_bytes_def bytes16_def peek16_def)

lemma length_request_bytes [simp]: "length (request_bytes r) = 8"
  by (simp add: request_bytes_def)

text \<open>A SETUP packet with request \<open>r\<close> waits; \<open>h\<close> is what the host does next.\<close>

definition setup_waiting :: "USB_Request_Header_t \<Rightarrow> host_stage \<Rightarrow> ctl \<Rightarrow> bool" where
  "setup_waiting r h c \<longleftrightarrow> c_setup c \<and> c_rx c = request_bytes r \<and> c_host c = h \<and> \<not> c_out c \<and> \<not> c_stall c"

lemma poll_setup: "c_setup c \<Longrightarrow> \<exists>w. ctl_poll c = c\<lparr>c_wait := w\<rparr>"
proof (cases "c_wait c")
  case 0
  moreover assume "c_setup c"
  ultimately have "ctl_poll c = c\<lparr>c_wait := c_wait c\<rparr>" by (simp add: ctl_poll_def host_act_def)
  then show ?thesis by blast
next
  case (Suc w)
  then have "ctl_poll c = c\<lparr>c_wait := w\<rparr>" by (simp add: ctl_poll_def)
  then show ?thesis by blast
qed

context ctl_bus
begin

lemma read_request:
  assumes "sel s" "c_rx (get s) = bs @ rest" "length bs = n"
  shows "read_request_bytes io n s = (bs, put ((get s)\<lparr>c_rx := rest\<rparr>) s)"
  using assms
proof (induction n arbitrary: bs s)
  case 0
  then have "(get s)\<lparr>c_rx := rest\<rparr> = get s" by (cases "get s") simp
  then have "put ((get s)\<lparr>c_rx := rest\<rparr>) s = s" by (simp only: put_get)
  then show ?case using 0 by simp
next
  case (Suc n)
  then obtain b bs' where bs: "bs = b # bs'" by (cases bs) auto
  let ?s = "put ((get s)\<lparr>c_rx := bs' @ rest\<rparr>) s"
  have "Endpoint_Read_Byte io s = (b, ?s)" using Suc.prems bs by (simp add: read_byte ctl_rd_def)
  moreover have "read_request_bytes io n ?s = (bs', put ((get ?s)\<lparr>c_rx := rest\<rparr>) ?s)"
    using Suc.prems bs by (intro Suc.IH) (simp_all add: laws)
  ultimately show ?case using bs by (simp add: laws)
qed

text \<open>Acknowledging the SETUP packet of a transfer without OUT data.\<close>

lemma setup_cleared:
  assumes "sel s" "c_setup (get s)" "\<not> c_out (get s)" "\<forall>ps. c_host (get s) \<noteq> H_Data ps"
  shows "Endpoint_ClearSETUP io s = put ((get s)\<lparr>c_setup := False, c_rx := [], c_tx := [], c_wait := c_lat (get s),
     c_in := True\<rparr>) s"
proof -
  obtain w where w: "ctl_poll (get s) = (get s)\<lparr>c_wait := w\<rparr>" using poll_setup [OF assms(2)] by blast
  have h: "(case c_host (get s) of H_Data x \<Rightarrow> False | _ \<Rightarrow> True) = True" using assms(4) by (cases "c_host (get s)") auto
  show ?thesis
  proof (cases "c_in (get s)")
    case True
    then show ?thesis using assms w h
      by (simp add: clear_setup w ctl_ack_def bit_ctl_intx bit_and_iff bit_not_iff)
  next
    case False
    then show ?thesis using assms w h
      by (simp add: clear_setup w ctl_ack_def bit_ctl_intx bit_and_iff bit_not_iff)
  qed
qed

text \<open>Sending a buffer in answer to a SETUP packet that asks for data.\<close>

lemma reply:
  assumes "sel s" "dstate s \<noteq> 0" "c_setup (get s)" "\<not> c_out (get s)" "c_host (get s) = H_In (unat (wLength req))"
    "wLength req \<noteq> 0" "Buffer \<noteq> []"
  shows "\<exists>e c. Endpoint_Write_Control_Stream_LE io req Buffer (Endpoint_ClearSETUP io s) = Some (e, put c s) \<and>
    (\<exists>d. Endpoint_ClearOUT io (put c s) = put d s \<and> c_host d = H_Done \<and> \<not> c_setup d \<and> c_stall d = c_stall c \<and>
      c_got d = c_got (get s) @ packets (unat (wLength req)) (take (unat (wLength req)) Buffer))"
proof -
  let ?c = "(get s)\<lparr>c_setup := False, c_rx := [], c_tx := [], c_wait := c_lat (get s), c_in := True\<rparr>"
  let ?g = "c_got (get s) @ packets (unat (wLength req)) (take (unat (wLength req)) Buffer)"
  have s: "Endpoint_ClearSETUP io s = put ?c s" using assms(1,3-5) by (intro setup_cleared) simp_all
  have "in_stage (unat (wLength req)) (get (put ?c s))" using assms(4,5) by (simp add: in_stage_def laws)
  from write_control_stream [OF _ _ this _ assms(6,7)] obtain c where
    c: "Endpoint_Write_Control_Stream_LE io req Buffer (put ?c s) = Some (CTL_NoError, put c s)" "c_out c" "at_status ?g c"
    using assms(1,2) by (auto simp: laws)
  obtain d where "Endpoint_ClearOUT io (put c s) = put d s" "c_host d = H_Done" "c_got d = ?g" "\<not> c_setup d"
    "c_stall d = c_stall c"
    using finish_status [of "put c s" ?g] assms(1) c(2,3) by (auto simp: laws)
  then show ?thesis using c(1) s by auto
qed

end

section \<open>The board's registers seen by the control task\<close>

lemma current_ep: "uenum (dusb s) \<le> 7 \<Longrightarrow> Endpoint_GetCurrentEndpoint bio s = (uenum (dusb s), s)"
  by (simp add: Endpoint_GetCurrentEndpoint_def board_rd_def dev_regs_def usb_rd_def and_7)

lemma pick_same [simp]: "pick (uenum (dusb s)) s = s" "pick n (s\<lparr>dctl := c\<rparr>) = (pick n s)\<lparr>dctl := c\<rparr>"
  by (simp_all add: pick_def)

text \<open>The control task around a request: a waiting SETUP packet is read and dispatched.\<close>

lemma no_setup:
  assumes "uenum (dusb t) = 0" "\<not> c_setup (dctl t)"
  shows "Endpoint_IsSETUPReceived bio t = (False, t\<lparr>dctl := ctl_poll (dctl t)\<rparr>)"
proof -
  have "\<not> c_setup (ctl_poll (dctl t))"
    using assms(2) by (auto simp: ctl_poll_def host_act_def split: host_stage.split list.split)
  then show ?thesis using cb.flags(1) [of t] assms(1) by simp
qed

lemma control_task:
  assumes "dev_state (dusb s) \<noteq> 0" "uenum (dusb s) \<le> 7" "setup_waiting req h (dctl s)"
    "\<And>w. \<exists>t t2. standard_request bio sig (f\<lparr>USB_ControlRequest := req\<rparr>)
        ((pick 0 s)\<lparr>dctl := (dctl s)\<lparr>c_rx := [], c_wait := w\<rparr>\<rparr>) = Some (True, f', t) \<and>
      Endpoint_IsSETUPReceived bio t = (False, t2) \<and> P t2"
  shows "\<exists>t. USB_USBTask bio sig f s = Some (f', pick (uenum (dusb s)) t) \<and> P t"
proof -
  obtain w where w: "ctl_poll (dctl s) = (dctl s)\<lparr>c_wait := w\<rparr>"
    using poll_setup [of "dctl s"] assms(3) by (auto simp: setup_waiting_def)
  let ?s1 = "(pick 0 s)\<lparr>dctl := (dctl s)\<lparr>c_wait := w\<rparr>\<rparr>" and ?s2 = "(pick 0 s)\<lparr>dctl := (dctl s)\<lparr>c_rx := [], c_wait := w\<rparr>\<rparr>"
  have su: "Endpoint_IsSETUPReceived bio (pick 0 s) = (True, ?s1)"
    using cb.flags(1) [of "pick 0 s"] assms(3) w by (simp add: setup_waiting_def)
  have rd: "read_request_bytes bio 8 ?s1 = (request_bytes req, ?s2)"
    using cb.read_request [of ?s1 "request_bytes req" "[]" 8] assms(3) by (simp add: setup_waiting_def)
  obtain t t2 where t: "standard_request bio sig (f\<lparr>USB_ControlRequest := req\<rparr>) ?s2 = Some (True, f', t)"
    "Endpoint_IsSETUPReceived bio t = (False, t2)" "P t2" using assms(4) by blast
  have "USB_Device_ProcessControlRequest bio sig f ?s1 = Some (f', t2)"
    unfolding USB_Device_ProcessControlRequest_def rd using t(1,2) by (simp add: request_of_bytes)
  moreover have "uenum (dusb s) AND 7 = uenum (dusb s)" using assms(2) by (rule and_7)
  ultimately show ?thesis
    using assms(1) current_ep [OF assms(2)] cb.dev_state [of 0 s] su t(3)
    by (intro exI [of _ t2]) (simp add: USB_USBTask_def USB_DeviceTask_def select_ep)
qed

text \<open>
  C11. GET_DESCRIPTOR: for every descriptor the device has, the host receives exactly the bytes of
  the descriptor, cut to the length it asked for, in packets of eight bytes of which a short one
  ends the stage early, and the transfer is complete, status stage included.
\<close>

theorem get_descriptor_request:
  assumes "dev_state (dusb s) \<noteq> 0" "uenum (dusb s) \<le> 7" "setup_waiting req (H_In (unat (wLength req))) (dctl s)"
    "bRequest req = REQ_GetDescriptor" "bmRequestType req = 0x80 \<or> bmRequestType req = 0x81" "wLength req \<noteq> 0"
    "wValue req \<noteq> 0x03DC" "CALLBACK_USB_GetDescriptor (wValue req) (ucast (wIndex req)) = (n, mem)" "n \<noteq> 0"
  shows "\<exists>s'. USB_USBTask bio sig f s = Some (f\<lparr>USB_ControlRequest := req\<rparr>, s') \<and> c_host (dctl s') = H_Done \<and>
    c_got (dctl s') = c_got (dctl s) @ packets (unat (wLength req)) (take (unat (wLength req)) (take (unat n) mem)) \<and>
    dusb s' = dusb s \<and> dflash s' = dflash s"
proof -
  let ?f = "f\<lparr>USB_ControlRequest := req\<rparr>" and ?L = "unat (wLength req)"
  let ?g = "c_got (dctl s) @ packets ?L (take ?L (take (unat n) mem))"
  let ?P = "\<lambda>t. dusb t = (dusb s)\<lparr>uenum := 0\<rparr> \<and> dflash t = dflash s \<and> c_host (dctl t) = H_Done \<and> c_got (dctl t) = ?g"
  have mem: "take (unat n) mem \<noteq> []" using descriptor_in_memory [OF assms(8)] assms(9) by (auto simp: unat_eq_0)
  have "\<exists>t t2. standard_request bio sig ?f ((pick 0 s)\<lparr>dctl := (dctl s)\<lparr>c_rx := [], c_wait := w\<rparr>\<rparr>) = Some (True, ?f, t) \<and>
      Endpoint_IsSETUPReceived bio t = (False, t2) \<and> ?P t2" for w
  proof -
    let ?s = "(pick 0 s)\<lparr>dctl := (dctl s)\<lparr>c_rx := [], c_wait := w\<rparr>\<rparr>"
    obtain e c d where r: "Endpoint_Write_Control_Stream_LE bio req (take (unat n) mem) (Endpoint_ClearSETUP bio ?s) =
        Some (e, ?s\<lparr>dctl := c\<rparr>)"
      "Endpoint_ClearOUT bio (?s\<lparr>dctl := c\<rparr>) = ?s\<lparr>dctl := d\<rparr>" "c_host d = H_Done" "\<not> c_setup d" "c_got d = ?g"
      "c_stall d = c_stall c"
      using cb.reply [of ?s req "take (unat n) mem"] assms(1,3,6) mem by (auto simp: setup_waiting_def)
    have "USB_Device_GetDescriptor bio sig ?f ?s = Some (?s\<lparr>dctl := d\<rparr>)"
      using assms(7-9) r(1,2) by (simp add: USB_Device_GetDescriptor_def push_bit_eq_mult)
    then have "standard_request bio sig ?f ?s = Some (True, ?f, ?s\<lparr>dctl := d\<rparr>)"
      using assms(4,5) by (auto simp: standard_request_def standard_in_def standard_out_def)
    moreover have "c_host (ctl_poll d) = H_Done" "c_got (ctl_poll d) = ?g"
      using r(3,5) by (simp_all add: ctl_poll_def host_act_def)
    ultimately show ?thesis
      using no_setup [of "?s\<lparr>dctl := d\<rparr>"] r(4)
      by (intro exI [of _ "?s\<lparr>dctl := d\<rparr>"] exI [of _ "?s\<lparr>dctl := ctl_poll d\<rparr>"]) simp
  qed
  from control_task [of s req "H_In ?L" sig f ?f ?P, OF assms(1-3) this] obtain t where
    "USB_USBTask bio sig f s = Some (?f, pick (uenum (dusb s)) t)" "?P t" by blast
  then show ?thesis by simp
qed

text \<open>The host of the example asks for 64 bytes of the device descriptor.\<close>

definition asking_board :: "USB_Request_Header_t \<Rightarrow> host_stage \<Rightarrow> board" where
  "asking_board req h = (waiting_board [] [])\<lparr>dctl :=
     \<lparr>c_rx = request_bytes req, c_tx = [], c_setup = True, c_in = True, c_out = False, c_stall = False, c_wait = 0,
      c_lat = 1, c_host = h, c_got = []\<rparr>\<rparr>"

lemma asking_ready: "dev_state (dusb (asking_board req h)) = DEVICE_STATE_Configured" "uenum (dusb (asking_board req h)) \<le> 7"
  "setup_waiting req h (dctl (asking_board req h))" "c_got (dctl (asking_board req h)) = []"
  by (simp_all add: asking_board_def waiting_board_def setup_waiting_def)

definition initial_fw :: fw where
  "initial_fw = \<lparr>ms = initial_dev, USB_ControlRequest = \<lparr>bmRequestType = 0, bRequest = 0, wValue = 0, wIndex = 0, wLength = 0\<rparr>,
     USB_ConfigurationNumber = 0, USB_CurrentlySelfPowered = False, USB_RemoteWakeupEnabled = False,
     USB_IsInitialized = True\<rparr>"

theorem get_descriptor_request_witness:
  "\<exists>f' s'. USB_USBTask bio (\<lambda>a. 0) initial_fw
      (asking_board \<lparr>bmRequestType = 0x80, bRequest = 6, wValue = 0x0100, wIndex = 0, wLength = 64\<rparr> (H_In 64)) = Some (f', s') \<and>
    concat (c_got (dctl s')) = device_bytes DeviceDescriptor"
proof -
  let ?r = "\<lparr>bmRequestType = 0x80, bRequest = 6, wValue = 0x0100, wIndex = 0, wLength = 64\<rparr> :: USB_Request_Header_t"
  have d: "CALLBACK_USB_GetDescriptor (wValue ?r) (ucast (wIndex ?r)) = (18, device_bytes DeviceDescriptor)"
    by (simp add: CALLBACK_USB_GetDescriptor_def)
  have l: "length (device_bytes DeviceDescriptor) = 18" by (rule sizeofs(2))
  then have "concat (packets 64 (device_bytes DeviceDescriptor)) = device_bytes DeviceDescriptor"
    by (intro packets_concat) simp
  then show ?thesis
    using get_descriptor_request [of "asking_board ?r (H_In 64)" ?r 18 "device_bytes DeviceDescriptor" "\<lambda>a. 0" initial_fw]
      asking_ready [of ?r "H_In 64"] d l by auto
qed

section \<open>Requests without data\<close>

context ctl_bus
begin

lemma status_in:
  assumes "sel s" "dstate s \<noteq> 0" "c_host (get s) = H_InStatus" "\<not> c_setup (get s)" "\<not> c_out (get s)" "c_tx (get s) = []"
    "bmRequestType req AND 0x80 = 0"
  shows "\<exists>c. Endpoint_ClearStatusStage io req s = Some (put c s) \<and> c_host c = H_Done \<and> c_got c = c_got (get s) @ [[]] \<and>
    \<not> c_setup c \<and> \<not> c_out c"
proof -
  have "bit (ctl_intx (host_act ((get s)\<lparr>c_wait := 0\<rparr>))) TXINI" using assms by (simp add: host_act_def bit_ctl_intx)
  then obtain c where c: "flag_wait io TXINI s = Some (True, put c s)"
    "c = host_act ((get s)\<lparr>c_wait := 0\<rparr>) \<or> bit (ctl_intx (get s)) TXINI \<and> (\<exists>w. c = (get s)\<lparr>c_wait := w\<rparr>)"
    using flag_wait [of s TXINI] assms(1,2) by blast
  have st: "c_host c = H_InStatus" "\<not> c_setup c" "\<not> c_out c" "c_tx c = []" "c_in c" "c_got c = c_got (get s)"
    using c(2) assms by (auto simp: host_act_def bit_ctl_intx)
  let ?p = "ctl_poll c"
  have p: "c_host ?p = H_InStatus" "\<not> c_setup ?p" "\<not> c_out ?p" "c_tx ?p = []" "c_in ?p" "c_got ?p = c_got (get s)"
    using st by (auto simp: ctl_poll_def host_act_def)
  let ?v = "ctl_intx ?p"
  have "Endpoint_ClearIN io (put c s) =
      put (take_in [] (?p\<lparr>c_tx := [], c_in := False, c_wait := c_lat ?p\<rparr>)) s"
    using assms(1) p by (simp add: clear_in Let_def laws ctl_ack_def bit_ctl_intx bit_and_iff bit_not_iff take_in_def)
  moreover have "Endpoint_ClearStatusStage io req s = Some (Endpoint_ClearIN io (put c s))"
    using c(1) assms(7) by (simp add: Endpoint_ClearStatusStage_def)
  ultimately show ?thesis using p by (intro exI) (auto simp: take_in_def)
qed

end

section \<open>Configuring the device\<close>

lemma mask_64: "Endpoint_BytesToEPSizeMask 64 = Some 0x30"
  unfolding Endpoint_BytesToEPSizeMask_def
  by (subst size_mask_loop.simps, simp)+

lemma configure_ep:
  assumes "n AND 7 = n" "n \<noteq> 0"
  shows "Endpoint_ConfigureEndpoint bio n EP_TYPE_BULK dir 64 ENDPOINT_BANK_SINGLE s =
    Some (True, s\<lparr>dusb := upd_cur (\<lambda>e. e\<lparr>ep_in := bit dir 0\<rparr>) ((dusb s)\<lparr>uenum := n\<rparr>), gpio := (gpio s)(UECFG1X := 0x32)\<rparr>)"
proof -
  let ?u = "(dusb s)\<lparr>uenum := n\<rparr>"
  have "upd_cur (\<lambda>e. e\<lparr>stalled := stalled (cur ?u)\<rparr>) ?u = ?u" by (simp add: upd_cur_def cur_def)
  then have "Endpoint_EnableEndpoint bio (pick n s) = pick n s"
    using assms(2)
    by (simp add: Endpoint_EnableEndpoint_def or_reg_def board_rd_def board_wr_def dev_regs_def bulk_regs_def usb_rd_def
        usb_wr_def pick_def bit_or_iff)
  then show ?thesis
    using assms
    by (simp add: Endpoint_ConfigureEndpoint_def mask_64 Endpoint_ConfigureEndpoint_Prv_def select_ep Endpoint_IsConfigured_def
        test_reg_def board_rd_def board_wr_def dev_regs_def bulk_regs_def ctl_regs_def usb_wr_def pick_def BV_def
        bit_or_iff push_bit_eq_mult)
qed

lemma configure_interface:
  assumes "Config d = Disk_MS_Interface"
  shows "\<exists>g. MS_Device_ConfigureEndpoints bio d s =
    Some (True, d\<lparr>CommandBlock := empty_cbw, CommandStatus := empty_csw\<rparr>,
      s\<lparr>dusb := (dusb s)\<lparr>ms_reset := False, uenum := 4,
           ep := (ep (dusb s))(3 := (ep (dusb s) 3)\<lparr>ep_in := True\<rparr>, 4 := (ep (dusb s) 4)\<lparr>ep_in := False\<rparr>)\<rparr>, gpio := g\<rparr>)"
proof -
  have r: "io_wr bio V_IsMassStoreReset 0 s = s\<lparr>dusb := (dusb s)\<lparr>ms_reset := False\<rparr>\<rparr>"
    by (simp add: board_wr_def dev_regs_def usb_wr_def)
  have c: "DataINEndpointSize Disk_MS_Interface = 64" "DataOUTEndpointSize Disk_MS_Interface = 64"
    "\<not> DataINEndpointDoubleBank Disk_MS_Interface" "\<not> DataOUTEndpointDoubleBank Disk_MS_Interface"
    by (simp_all add: Disk_MS_Interface_def)
  show ?thesis
    using assms r c
    by (intro exI [of _ "(gpio s)(UECFG1X := 0x32)"]) (simp add: MS_Device_ConfigureEndpoints_def configure_ep upd_cur_def cur_def del: bio_sel)
qed

text \<open>
  C12. SET_CONFIGURATION 1: the device takes over the number, becomes configured, sets up the data
  endpoints in their directions with the class state cleared, and completes the transfer with an
  empty packet; the medium and the selected endpoint stay.  The machine does not show the type and the size
  of an endpoint.
\<close>

theorem set_configuration_request:
  assumes "dev_state (dusb s) \<noteq> 0" "uenum (dusb s) \<le> 7" "setup_waiting req H_InStatus (dctl s)"
    "bRequest req = REQ_SetConfiguration" "bmRequestType req = 0" "wValue req = 1" "Config (ms f) = Disk_MS_Interface"
  shows "\<exists>f' s'. USB_USBTask bio sig f s = Some (f', s') \<and> USB_ConfigurationNumber f' = 1 \<and>
    CommandBlock (ms f') = empty_cbw \<and> CommandStatus (ms f') = empty_csw \<and> Config (ms f') = Disk_MS_Interface \<and>
    dev_state (dusb s') = DEVICE_STATE_Configured \<and> ep_in (ep (dusb s') 3) \<and> \<not> ep_in (ep (dusb s') 4) \<and>
    \<not> ms_reset (dusb s') \<and> uenum (dusb s') = uenum (dusb s) \<and> c_host (dctl s') = H_Done \<and>
    c_got (dctl s') = c_got (dctl s) @ [[]] \<and> dflash s' = dflash s"
proof -
  let ?f = "f\<lparr>USB_ControlRequest := req\<rparr>"
  let ?d = "(ms f)\<lparr>CommandBlock := empty_cbw, CommandStatus := empty_csw\<rparr>"
  let ?f' = "?f\<lparr>USB_ConfigurationNumber := 1, ms := ?d\<rparr>"
  let ?P = "\<lambda>t. dflash t = dflash s \<and> dev_state (dusb t) = DEVICE_STATE_Configured \<and> ep_in (ep (dusb t) 3) \<and>
    \<not> ep_in (ep (dusb t) 4) \<and> \<not> ms_reset (dusb t) \<and> c_host (dctl t) = H_Done \<and> c_got (dctl t) = c_got (dctl s) @ [[]]"
  have "\<exists>t t2. standard_request bio sig ?f ((pick 0 s)\<lparr>dctl := (dctl s)\<lparr>c_rx := [], c_wait := w\<rparr>\<rparr>) = Some (True, ?f', t) \<and>
      Endpoint_IsSETUPReceived bio t = (False, t2) \<and> ?P t2" for w
  proof -
    let ?s = "(pick 0 s)\<lparr>dctl := (dctl s)\<lparr>c_rx := [], c_wait := w\<rparr>\<rparr>"
    let ?c = "(dctl ?s)\<lparr>c_setup := False, c_rx := [], c_tx := [], c_wait := c_lat (dctl ?s), c_in := True\<rparr>"
    have 1: "Endpoint_ClearSETUP bio ?s = ?s\<lparr>dctl := ?c\<rparr>"
      using cb.setup_cleared [of ?s] assms(3) by (simp add: setup_waiting_def)
    obtain c where c: "Endpoint_ClearStatusStage bio req (?s\<lparr>dctl := ?c\<rparr>) = Some (?s\<lparr>dctl := c\<rparr>)" "c_host c = H_Done"
      "c_got c = c_got (dctl s) @ [[]]" "\<not> c_setup c"
      using cb.status_in [of "?s\<lparr>dctl := ?c\<rparr>" req] assms(1,3,5) by (auto simp: setup_waiting_def)
    let ?t = "LEDs_SetAllLEDs bio LEDMASK_USB_READY (io_wr bio V_DeviceState 4 (?s\<lparr>dctl := c\<rparr>))"
    obtain g where g: "MS_Device_ConfigureEndpoints bio (ms f) ?t = Some (True, ?d,
        ?t\<lparr>dusb := (dusb ?t)\<lparr>ms_reset := False, uenum := 4,
           ep := (ep (dusb ?t))(3 := (ep (dusb ?t) 3)\<lparr>ep_in := True\<rparr>, 4 := (ep (dusb ?t) 4)\<lparr>ep_in := False\<rparr>)\<rparr>, gpio := g\<rparr>)"
      using configure_interface [OF assms(7)] by blast
    let ?u = "(dusb ?t)\<lparr>ms_reset := False, uenum := 4,
           ep := (ep (dusb ?t))(3 := (ep (dusb ?t) 3)\<lparr>ep_in := True\<rparr>, 4 := (ep (dusb ?t) 4)\<lparr>ep_in := False\<rparr>)\<rparr>"
    let ?t1 = "?t\<lparr>dusb := ?u, gpio := g\<rparr>"
    have "EVENT_USB_Device_ConfigurationChanged bio (ms f) (io_wr bio V_DeviceState 4 (?s\<lparr>dctl := c\<rparr>)) = Some (?d, ?t1)"
      using g by (simp add: EVENT_USB_Device_ConfigurationChanged_def del: bio_sel)
    then have "USB_Device_SetConfiguration bio ?f ?s = Some (?f', ?t1)"
      using 1 c(1) assms(6) by (simp add: USB_Device_SetConfiguration_def del: bio_sel)
    then have "standard_request bio sig ?f ?s = Some (True, ?f', ?t1)"
      using assms(4,5) by (simp add: standard_request_def standard_in_def standard_out_def)
    moreover have "Endpoint_IsSETUPReceived bio ?t1 = (False, ?t1\<lparr>dusb := poll ?u\<rparr>)"
      using ub.rd_intx [of ?t1] by (simp add: Endpoint_IsSETUPReceived_def test_reg_def intx_def bit_or_iff del: bio_sel)
    moreover have "?P (?t1\<lparr>dusb := poll ?u\<rparr>)"
      using c(2,3) by (simp add: set_leds board_wr_def dev_regs_def usb_wr_def poll_def upd_cur_def cur_def)
    ultimately show ?thesis by blast
  qed
  from control_task [of s req H_InStatus sig f ?f' ?P, OF assms(1-3) this] obtain t where
    "USB_USBTask bio sig f s = Some (?f', pick (uenum (dusb s)) t)" "?P t" by blast
  then show ?thesis using assms(7) by (intro exI [of _ ?f'] exI [of _ "pick (uenum (dusb s)) t"]) simp
qed

theorem set_configuration_request_witness:
  "\<exists>f' s'. USB_USBTask bio (\<lambda>a. 0) initial_fw
      (asking_board \<lparr>bmRequestType = 0, bRequest = 9, wValue = 1, wIndex = 0, wLength = 0\<rparr> H_InStatus) = Some (f', s') \<and>
    USB_ConfigurationNumber f' = 1 \<and> c_got (dctl s') = [[]]"
proof -
  let ?r = "\<lparr>bmRequestType = 0, bRequest = 9, wValue = 1, wIndex = 0, wLength = 0\<rparr> :: USB_Request_Header_t"
  have "Config (ms initial_fw) = Disk_MS_Interface" by (simp add: initial_fw_def initial_dev_def)
  then show ?thesis
    using set_configuration_request [of "asking_board ?r H_InStatus" ?r initial_fw "\<lambda>a. 0"]
      asking_ready [of ?r H_InStatus] by auto
qed

section \<open>Requests nobody handles\<close>

lemma poll_setup_again: "c_setup c \<Longrightarrow> \<exists>w. ctl_poll (c\<lparr>c_wait := v\<rparr>) = c\<lparr>c_wait := w\<rparr>"
  using poll_setup [of "c\<lparr>c_wait := v\<rparr>"] by auto

text \<open>
  C15. A request that is neither a standard request of the library nor a class request for the
  interface is refused: endpoint 0 is stalled and the SETUP packet acknowledged, and neither the
  firmware's variables (the request buffer apart), nor the data endpoints, nor the medium change.
\<close>

theorem unhandled_request_stalls:
  assumes "dev_state (dusb s) \<noteq> 0" "uenum (dusb s) \<le> 7" "setup_waiting req h (dctl s)" "\<forall>ps. h \<noteq> H_Data ps"
    "bRequest req \<notin> {0, 1, 3, 5, 6, 8, 9}" "wIndex req \<noteq> 0 \<or> bRequest req \<notin> {0xFE, 0xFF}"
    "Config (ms f) = Disk_MS_Interface"
  shows "\<exists>s'. USB_USBTask bio sig f s = Some (f\<lparr>USB_ControlRequest := req\<rparr>, s') \<and> c_stall (dctl s') \<and>
    \<not> c_setup (dctl s') \<and> c_got (dctl s') = c_got (dctl s) \<and> dusb s' = dusb s \<and> dflash s' = dflash s"
proof -
  let ?f = "f\<lparr>USB_ControlRequest := req\<rparr>"
  let ?c = "(dctl s)\<lparr>c_rx := []\<rparr>"
  have c: "c_setup (dctl s)" "\<not> c_out (dctl s)" "c_host (dctl s) = h" "c_rx (dctl s) = request_bytes req"
    using assms(3) by (simp_all add: setup_waiting_def)
  obtain w where w: "ctl_poll (dctl s) = (dctl s)\<lparr>c_wait := w\<rparr>" using poll_setup [OF c(1)] by blast
  let ?s = "\<lambda>c. (pick 0 s)\<lparr>dctl := c\<rparr>"
  have su: "Endpoint_IsSETUPReceived bio (pick 0 s) = (True, ?s ((dctl s)\<lparr>c_wait := w\<rparr>))"
    using cb.flags(1) [of "pick 0 s"] c(1) w by simp
  have rd: "read_request_bytes bio 8 (?s ((dctl s)\<lparr>c_wait := w\<rparr>)) = (request_bytes req, ?s (?c\<lparr>c_wait := w\<rparr>))"
    using cb.read_request [of "?s ((dctl s)\<lparr>c_wait := w\<rparr>)" "request_bytes req" "[]" 8] c(4) by simp
  have std: "standard_request bio sig ?f t = Some (False, ?f, t)" for t
    using assms(5) by (simp add: standard_request_def)
  have again: "\<exists>x. Endpoint_IsSETUPReceived bio (?s (?c\<lparr>c_wait := v\<rparr>)) = (True, ?s (?c\<lparr>c_wait := x\<rparr>))" for v
    using poll_setup_again [of ?c v] cb.flags(1) [of "?s (?c\<lparr>c_wait := v\<rparr>)"] c(1) by auto
  obtain x where x: "Endpoint_IsSETUPReceived bio (?s (?c\<lparr>c_wait := w\<rparr>)) = (True, ?s (?c\<lparr>c_wait := x\<rparr>))"
    using again by blast
  obtain y where y: "Endpoint_IsSETUPReceived bio (?s (?c\<lparr>c_wait := x\<rparr>)) = (True, ?s (?c\<lparr>c_wait := y\<rparr>))"
    using again by blast
  have ev: "EVENT_USB_Device_UnhandledControlRequest bio req (ms f) (?s (?c\<lparr>c_wait := w\<rparr>)) = Some (?s (?c\<lparr>c_wait := x\<rparr>))"
    using x assms(6,7)
    by (auto simp: EVENT_USB_Device_UnhandledControlRequest_def MS_Device_ProcessControlRequest_def Disk_MS_Interface_def)
  have st: "Endpoint_StallTransaction bio (?s (?c\<lparr>c_wait := y\<rparr>)) = ?s (?c\<lparr>c_wait := y, c_stall := True\<rparr>)"
    using cb.rd_ctl [of UECONX "?s (?c\<lparr>c_wait := y\<rparr>)"] cb.wr_ctl [of UECONX "?s (?c\<lparr>c_wait := y\<rparr>)"]
    by (simp add: Endpoint_StallTransaction_def or_reg_def ctl_regs_def ctl_rd_def ctl_wr_def bit_or_iff del: bio_sel)
  let ?d = "?c\<lparr>c_wait := y, c_stall := True\<rparr>"
  let ?e = "?d\<lparr>c_setup := False, c_rx := [], c_tx := [], c_wait := c_lat ?d, c_in := True\<rparr>"
  have cl: "Endpoint_ClearSETUP bio (?s ?d) = ?s ?e"
    using cb.setup_cleared [of "?s ?d"] c assms(4) by simp
  have "USB_Device_ProcessControlRequest bio sig f (?s ((dctl s)\<lparr>c_wait := w\<rparr>)) = Some (?f, ?s ?e)"
    unfolding USB_Device_ProcessControlRequest_def rd using ev y st cl by (simp add: request_of_bytes std)
  moreover have "uenum (dusb s) AND 7 = uenum (dusb s)" using assms(2) by (rule and_7)
  ultimately have "USB_USBTask bio sig f s = Some (?f, pick (uenum (dusb s)) (?s ?e))"
    using assms(1) current_ep [OF assms(2)] cb.dev_state [of 0 s] su
    by (simp add: USB_USBTask_def USB_DeviceTask_def select_ep)
  then show ?thesis by (intro exI) auto
qed

theorem unhandled_request_stalls_witness:
  "\<exists>f' s'. USB_USBTask bio (\<lambda>a. 0) initial_fw
      (asking_board \<lparr>bmRequestType = 0, bRequest = 7, wValue = 0, wIndex = 0, wLength = 0\<rparr> H_InStatus) = Some (f', s') \<and>
    c_stall (dctl s')"
proof -
  let ?r = "\<lparr>bmRequestType = 0, bRequest = 7, wValue = 0, wIndex = 0, wLength = 0\<rparr> :: USB_Request_Header_t"
  have "Config (ms initial_fw) = Disk_MS_Interface" by (simp add: initial_fw_def initial_dev_def)
  then show ?thesis
    using unhandled_request_stalls [of "asking_board ?r H_InStatus" ?r H_InStatus initial_fw "\<lambda>a. 0"]
      asking_ready [of ?r H_InStatus] by auto
qed

end
