(* ===== verification/Class_Common.thy ===== *)
theory Class_Common
  imports Bytes
begin

text \<open>
  What the class drivers of the two modes share: constants of the headers under
  \<open>LUFA/Drivers/USB/Class/Common\<close>, the line encoding of a serial port, which both CDC headers declare
  alike, and the character streams of the C library.
\<close>

abbreviation (input) REQ_GetLineEncoding :: u8 where "REQ_GetLineEncoding \<equiv> 0x21"
abbreviation (input) REQ_SetLineEncoding :: u8 where "REQ_SetLineEncoding \<equiv> 0x20"
abbreviation (input) REQ_SetControlLineState :: u8 where "REQ_SetControlLineState \<equiv> 0x22"
abbreviation (input) NOTIF_SerialState :: u8 where "NOTIF_SerialState \<equiv> 0x20"

abbreviation (input) REQ_GetReport :: u8 where "REQ_GetReport \<equiv> 0x01"
abbreviation (input) REQ_GetIdle :: u8 where "REQ_GetIdle \<equiv> 0x02"
abbreviation (input) REQ_GetProtocol :: u8 where "REQ_GetProtocol \<equiv> 0x03"
abbreviation (input) REQ_SetReport :: u8 where "REQ_SetReport \<equiv> 0x09"
abbreviation (input) REQ_SetIdle :: u8 where "REQ_SetIdle \<equiv> 0x0A"
abbreviation (input) REQ_SetProtocol :: u8 where "REQ_SetProtocol \<equiv> 0x0B"
abbreviation (input) REQ_SetInterface :: u8 where "REQ_SetInterface \<equiv> 11"

text \<open>\<open>REQDIR_x | REQTYPE_CLASS | REQREC_INTERFACE\<close>\<close>

abbreviation (input) CLASS_IN :: u8 where "CLASS_IN \<equiv> 0xA1"
abbreviation (input) CLASS_OUT :: u8 where "CLASS_OUT \<equiv> 0x21"

record CDC_LineEncoding =
  BaudRateBPS :: u32
  CharFormat :: u8
  ParityType :: u8
  DataBits :: u8

text \<open>The line encoding in memory: seven bytes.\<close>

definition encoding_bytes :: "CDC_LineEncoding \<Rightarrow> u8 list" where
  "encoding_bytes e = bytes32 (BaudRateBPS e) @ [CharFormat e, ParityType e, DataBits e]"

definition encoding_of :: "u8 list \<Rightarrow> CDC_LineEncoding" where
  "encoding_of bs = \<lparr>BaudRateBPS = peek32 bs 0, CharFormat = bs ! 4, ParityType = bs ! 5, DataBits = bs ! 6\<rparr>"

text \<open>Bytes received before a transfer breaks off replace the front of the structure.\<close>

definition overwrite :: "u8 list \<Rightarrow> u8 list \<Rightarrow> u8 list" where
  "overwrite got old = got @ drop (length got) old"

section \<open>Character streams\<close>

text \<open>The functions a stream of the C library calls, and the interface it carries as user data.\<close>

datatype cdc_get = getchar_Nonblocking | getchar_Blocking

record 'i FILE =
  get_function :: cdc_get
  fdev_udata :: 'i

end
