(* ===== verification/Cdc_Device.thy ===== *)
theory Cdc_Device
  imports Endpoint Class_Common
begin

text \<open>
  The device-mode CDC class driver (virtual serial port), \<open>LUFA/Drivers/USB/Class/Device/CDC.c\<close> and
  \<open>CDC.h\<close>.  The driver's interface structure is split into its constant \<open>Config\<close> part and its \<open>State\<close>
  part; the two events of the application are parameters.
\<close>

section \<open>The interface structure\<close>

record CDC_Config =
  ControlInterfaceNumber :: u8
  DataINEndpointNumber :: u8
  DataINEndpointSize :: u16
  DataINEndpointDoubleBank :: bool
  DataOUTEndpointNumber :: u8
  DataOUTEndpointSize :: u16
  DataOUTEndpointDoubleBank :: bool
  NotificationEndpointNumber :: u8
  NotificationEndpointSize :: u16
  NotificationEndpointDoubleBank :: bool

record CDC_State =
  HostToDevice :: u8
  DeviceToHost :: u8
  LineEncoding :: CDC_LineEncoding

definition zero_cdc :: CDC_State where
  "zero_cdc = \<lparr>HostToDevice = 0, DeviceToHost = 0,
     LineEncoding = \<lparr>BaudRateBPS = 0, CharFormat = 0, ParityType = 0, DataBits = 0\<rparr>\<rparr>"

text \<open>\<open>EVENT_CDC_Device_LineEncodingChanged\<close> and \<open>EVENT_CDC_Device_ControLineStateChanged\<close>; the default is the stub.\<close>

record 'h cdc_events =
  LineEncodingChanged :: "CDC_State \<Rightarrow> 'h \<Rightarrow> CDC_State \<times> 'h"
  ControLineStateChanged :: "CDC_State \<Rightarrow> 'h \<Rightarrow> CDC_State \<times> 'h"

definition CDC_Device_Event_Stub :: "CDC_State \<Rightarrow> 'h \<Rightarrow> CDC_State \<times> 'h" where
  "CDC_Device_Event_Stub d s = (d, s)"

section \<open>Control requests\<close>

definition CDC_Device_ProcessControlRequest ::
    "'h mmio \<Rightarrow> 'h cdc_events \<Rightarrow> CDC_Config \<Rightarrow> USB_Request_Header_t \<Rightarrow> CDC_State \<Rightarrow> 'h \<Rightarrow> (CDC_State \<times> 'h) option" where
  "CDC_Device_ProcessControlRequest io ev c req d s =
     (let (setup, s) = Endpoint_IsSETUPReceived io s
      in if \<not> setup then Some (d, s)
      else if wIndex req \<noteq> ucast (ControlInterfaceNumber c) then Some (d, s)
      else if bRequest req = REQ_GetLineEncoding then
        (if bmRequestType req = CLASS_IN then
           do {
             let s = Endpoint_ClearSETUP io s;
             (e, s) \<leftarrow> Endpoint_Write_Control_Stream_LE io req (encoding_bytes (LineEncoding d)) s;
             Some (d, Endpoint_ClearOUT io s)
           }
         else Some (d, s))
      else if bRequest req = REQ_SetLineEncoding then
        (if bmRequestType req = CLASS_OUT then
           do {
             let s = Endpoint_ClearSETUP io s;
             ((e, got), s) \<leftarrow> Endpoint_Read_Control_Stream_LE io 7 s;
             let s = Endpoint_ClearIN io s;
             Some (LineEncodingChanged ev
               (d\<lparr>LineEncoding := encoding_of (overwrite got (encoding_bytes (LineEncoding d)))\<rparr>) s)
           }
         else Some (d, s))
      else if bRequest req = REQ_SetControlLineState then
        (if bmRequestType req = CLASS_OUT then
           do {
             let s = Endpoint_ClearSETUP io s;
             let (d, s) = ControLineStateChanged ev (d\<lparr>HostToDevice := ucast (wValue req)\<rparr>) s;
             s \<leftarrow> Endpoint_ClearStatusStage io req s;
             Some (d, s)
           }
         else Some (d, s))
      else Some (d, s))"

section \<open>Configuration\<close>

definition banks :: "bool \<Rightarrow> u8" where
  "banks double = (if double then ENDPOINT_BANK_DOUBLE else ENDPOINT_BANK_SINGLE)"

definition CDC_Device_ConfigureEndpoints :: "'h mmio \<Rightarrow> CDC_Config \<Rightarrow> CDC_State \<Rightarrow> 'h \<Rightarrow> (bool \<times> CDC_State \<times> 'h) option" where
  "CDC_Device_ConfigureEndpoints io c d s =
     do {
       let d = zero_cdc;
       (ok, s) \<leftarrow> Endpoint_ConfigureEndpoint io (DataINEndpointNumber c) EP_TYPE_BULK ENDPOINT_DIR_IN
                    (DataINEndpointSize c) (banks (DataINEndpointDoubleBank c)) s;
       if \<not> ok then Some (False, d, s) else do {
       (ok, s) \<leftarrow> Endpoint_ConfigureEndpoint io (DataOUTEndpointNumber c) EP_TYPE_BULK ENDPOINT_DIR_OUT
                    (DataOUTEndpointSize c) (banks (DataOUTEndpointDoubleBank c)) s;
       if \<not> ok then Some (False, d, s) else do {
       (ok, s) \<leftarrow> Endpoint_ConfigureEndpoint io (NotificationEndpointNumber c) EP_TYPE_INTERRUPT ENDPOINT_DIR_IN
                    (NotificationEndpointSize c) (banks (NotificationEndpointDoubleBank c)) s;
       if \<not> ok then Some (False, d, s) else Some (True, d, s) } }
     }"

section \<open>Data\<close>

text \<open>\<open>(USB_DeviceState != DEVICE_STATE_Configured) || !(LineEncoding.BaudRateBPS)\<close>, negated\<close>

definition cdc_active :: "'h mmio \<Rightarrow> CDC_State \<Rightarrow> 'h \<Rightarrow> bool \<times> 'h" where
  "cdc_active io d s =
     (let (configured, s) = device_state_is io DEVICE_STATE_Configured s
      in (configured \<and> BaudRateBPS (LineEncoding d) \<noteq> 0, s))"

definition CDC_Device_SendString :: "'h mmio \<Rightarrow> CDC_Config \<Rightarrow> CDC_State \<Rightarrow> u8 list \<Rightarrow> 'h \<Rightarrow> (ep_error \<times> 'h) option" where
  "CDC_Device_SendString io c d Data s =
     (let (act, s) = cdc_active io d s
      in if \<not> act then Some (EP_DeviceDisconnected, s)
         else Endpoint_Write_Stream_LE io None Data (Endpoint_SelectEndpoint io (DataINEndpointNumber c) s))"

definition CDC_Device_SendByte :: "'h mmio \<Rightarrow> CDC_Config \<Rightarrow> CDC_State \<Rightarrow> u8 \<Rightarrow> 'h \<Rightarrow> (ep_error \<times> 'h) option" where
  "CDC_Device_SendByte io c d Data s =
     (let (act, s) = cdc_active io d s
      in if \<not> act then Some (EP_DeviceDisconnected, s)
         else
           let s = Endpoint_SelectEndpoint io (DataINEndpointNumber c) s;
               (allowed, s) = Endpoint_IsReadWriteAllowed io s
           in do {
             (ErrorCode, s) \<leftarrow> (if \<not> allowed then Endpoint_WaitUntilReady io (Endpoint_ClearIN io s) else Some (EP_NoError, s));
             if ErrorCode \<noteq> EP_NoError then Some (ErrorCode, s)
             else Some (EP_NoError, Endpoint_Write_Byte io Data s)
           })"

definition CDC_Device_Flush :: "'h mmio \<Rightarrow> CDC_Config \<Rightarrow> CDC_State \<Rightarrow> 'h \<Rightarrow> (ep_error \<times> 'h) option" where
  "CDC_Device_Flush io c d s =
     (let (act, s) = cdc_active io d s
      in if \<not> act then Some (EP_DeviceDisconnected, s)
         else
           let s = Endpoint_SelectEndpoint io (DataINEndpointNumber c) s;
               (n, s) = Endpoint_BytesInEndpoint io s
           in if n = 0 then Some (EP_NoError, s)
           else
             let (allowed, s) = Endpoint_IsReadWriteAllowed io s;
                 BankFull = (\<not> allowed);
                 s = Endpoint_ClearIN io s
             in if BankFull then
                  do {
                    (ErrorCode, s) \<leftarrow> Endpoint_WaitUntilReady io s;
                    if ErrorCode \<noteq> EP_NoError then Some (ErrorCode, s) else Some (EP_NoError, Endpoint_ClearIN io s)
                  }
                else Some (EP_NoError, s))"

definition CDC_Device_USBTask :: "'h mmio \<Rightarrow> CDC_Config \<Rightarrow> CDC_State \<Rightarrow> 'h \<Rightarrow> 'h option" where
  "CDC_Device_USBTask io c d s =
     (let (act, s) = cdc_active io d s
      in if \<not> act then Some s
         else
           let s = Endpoint_SelectEndpoint io (DataOUTEndpointNumber c) s;
               (out, s) = Endpoint_IsOUTReceived io s;
               (n, s) = (if out then Endpoint_BytesInEndpoint io s else (1, s));
               s = (if out \<and> n = 0 then Endpoint_ClearOUT io s else s)
           in map_option snd (CDC_Device_Flush io c d s))"

definition CDC_Device_BytesReceived :: "'h mmio \<Rightarrow> CDC_Config \<Rightarrow> CDC_State \<Rightarrow> 'h \<Rightarrow> u16 \<times> 'h" where
  "CDC_Device_BytesReceived io c d s =
     (let (act, s) = cdc_active io d s
      in if \<not> act then (0, s)
         else
           let s = Endpoint_SelectEndpoint io (DataOUTEndpointNumber c) s;
               (out, s) = Endpoint_IsOUTReceived io s
           in if out then
                let (n, s) = Endpoint_BytesInEndpoint io s;
                    s = (if n = 0 then Endpoint_ClearOUT io s else s)
                in Endpoint_BytesInEndpoint io s
              else (0, s))"

definition CDC_Device_ReceiveByte :: "'h mmio \<Rightarrow> CDC_Config \<Rightarrow> CDC_State \<Rightarrow> 'h \<Rightarrow> u8 \<times> 'h" where
  "CDC_Device_ReceiveByte io c d s =
     (let (act, s) = cdc_active io d s
      in if \<not> act then (0, s)
         else
           let s = Endpoint_SelectEndpoint io (DataOUTEndpointNumber c) s;
               (DataByte, s) = Endpoint_Read_Byte io s;
               (n, s) = Endpoint_BytesInEndpoint io s;
               s = (if n = 0 then Endpoint_ClearOUT io s else s)
           in (DataByte, s))"

text \<open>\<open>sizeof(DeviceToHost)\<close> is one byte; the results of both streams are not looked at.\<close>

definition CDC_Device_SendControlLineStateChange :: "'h mmio \<Rightarrow> CDC_Config \<Rightarrow> CDC_State \<Rightarrow> 'h \<Rightarrow> 'h option" where
  "CDC_Device_SendControlLineStateChange io c d s =
     (let (act, s) = cdc_active io d s
      in if \<not> act then Some s
         else do {
           let s = Endpoint_SelectEndpoint io (NotificationEndpointNumber c) s;
           let Notification = [CLASS_IN, NOTIF_SerialState] @ bytes16 0 @ bytes16 0 @ bytes16 1;
           (e, s) \<leftarrow> Endpoint_Write_Stream_LE io None Notification s;
           (e, s) \<leftarrow> Endpoint_Write_Stream_LE io None [DeviceToHost d] s;
           Some (Endpoint_ClearIN io s)
         })"

section \<open>Character streams\<close>

definition CDC_Device_CreateStream :: "'i \<Rightarrow> 'i FILE" where
  "CDC_Device_CreateStream CDCInterfaceInfo = \<lparr>get_function = getchar_Nonblocking, fdev_udata = CDCInterfaceInfo\<rparr>"

definition CDC_Device_CreateBlockingStream :: "'i \<Rightarrow> 'i FILE" where
  "CDC_Device_CreateBlockingStream CDCInterfaceInfo = \<lparr>get_function = getchar_Blocking, fdev_udata = CDCInterfaceInfo\<rparr>"

text \<open>The result is true for \<open>_FDEV_ERR\<close>.\<close>

definition CDC_Device_putchar :: "'h mmio \<Rightarrow> CDC_Config \<Rightarrow> CDC_State \<Rightarrow> u8 \<Rightarrow> 'h \<Rightarrow> (bool \<times> 'h) option" where
  "CDC_Device_putchar io c d ch s = map_option (\<lambda>(e, s). (e \<noteq> EP_NoError, s)) (CDC_Device_SendByte io c d ch s)"

text \<open>\<open>None\<close> as the first component is \<open>_FDEV_EOF\<close>.\<close>

definition CDC_Device_getchar :: "'h mmio \<Rightarrow> CDC_Config \<Rightarrow> CDC_State \<Rightarrow> 'h \<Rightarrow> u8 option \<times> 'h" where
  "CDC_Device_getchar io c d s =
     (let (n, s) = CDC_Device_BytesReceived io c d s
      in if n = 0 then (None, s)
         else let (b, s) = CDC_Device_ReceiveByte io c d s in (Some b, s))"

text \<open>
  The blocking form calls the control task of the application, which may change the class state.
\<close>

partial_function (option) CDC_Device_getchar_Blocking ::
    "'h mmio \<Rightarrow> CDC_Config \<Rightarrow> (CDC_State \<Rightarrow> 'h \<Rightarrow> (CDC_State \<times> 'h) option) \<Rightarrow> CDC_State \<Rightarrow> 'h \<Rightarrow>
     (u8 option \<times> CDC_State \<times> 'h) option" where
  [code]: "CDC_Device_getchar_Blocking io c USB_USBTask d s =
     (let (n, s) = CDC_Device_BytesReceived io c d s
      in if n \<noteq> 0 then let (b, s) = CDC_Device_ReceiveByte io c d s in Some (Some b, d, s)
         else
           let (un, s) = device_state_is io DEVICE_STATE_Unattached s
           in if un then Some (None, d, s)
           else do {
             s \<leftarrow> CDC_Device_USBTask io c d s;
             (d, s) \<leftarrow> USB_USBTask d s;
             CDC_Device_getchar_Blocking io c USB_USBTask d s
           })"

end
