(* ===== verification/Cdc_Props.thy ===== *)
theory Cdc_Props
  imports Control_Props Cdc_Device
begin

text \<open>
  The virtual serial port on the board: what the firmware writes byte by byte arrives at the host in
  full packets closed by a short one, what the host sends comes out of the character stream complete
  and in order, and the line encoding the host sets is the one it gets back.
\<close>

section \<open>Sending\<close>

definition port_open :: "CDC_State \<Rightarrow> usb \<Rightarrow> bool" where
  "port_open d u \<longleftrightarrow> dev_state u = DEVICE_STATE_Configured \<and> BaudRateBPS (LineEncoding d) \<noteq> 0"

context usb_bus
begin

lemma active: "cdc_active io d s = (port_open d (get s), s)"
  by (simp add: cdc_active_def dev_state port_open_def)

lemma send_byte:
  assumes "port_open d (get s)" "DataINEndpointNumber c = n" "n \<le> 7" "in_open ((get s)\<lparr>uenum := n\<rparr>)"
  shows "\<exists>v. CDC_Device_SendByte io c d b s = Some (EP_NoError, put v s) \<and> usb_frame ((get s)\<lparr>uenum := n\<rparr>) v \<and>
    in_open v \<and> fifo (cur v) \<noteq> [] \<and>
    (queue (cur v) = queue (ep (get s) n) \<and> fifo (cur v) = fifo (ep (get s) n) @ [b] \<or>
     queue (cur v) = queue (ep (get s) n) @ [fifo (ep (get s) n)] \<and> fifo (cur v) = [b] \<and>
       length (fifo (ep (get s) n)) = ep_size (get s))"
proof -
  let ?u = "(get s)\<lparr>uenum := n\<rparr>" and ?e = "ep (get s) n"
  have u: "uenum ?u \<noteq> 0" "attached ?u" "ep_in ?e" "bank_ready ?e" "0 < ep_size (get s)" "length (fifo ?e) \<le> ep_size (get s)"
    using assms(4) by (auto simp: in_open_def attached_def)
  show ?thesis
  proof (cases "length (fifo ?e) < ep_size (get s)")
    case True
    let ?v = "upd_cur (\<lambda>e. e\<lparr>fifo := fifo e @ [b]\<rparr>) ?u"
    have "Endpoint_IsReadWriteAllowed io (put ?u s) = (True, put ?u s)"
      "Endpoint_Write_Byte io b (put ?u s) = put ?v s"
      using put_byte(1) [of "put ?u s"] put_byte(2) [of "put ?u s" b] assms(4) True by (simp_all add: get_put put_put)
    then have "CDC_Device_SendByte io c d b s = Some (EP_NoError, put ?v s)"
      using assms(1-3) by (simp add: CDC_Device_SendByte_def active select)
    moreover have "in_open ?v" using u True by (simp add: in_open_def attached_def bank_ready_def)
    ultimately show ?thesis by (intro exI [of _ ?v]) simp
  next
    case False
    let ?n = "next_bank ?u"
    have full: "length (fifo ?e) = ep_size (get s)" using False u(6) by simp
    have na: "Endpoint_IsReadWriteAllowed io (put ?u s) = (False, put ?u s)"
      using u full by (simp add: rwa get_put put_put poll_ready)
    have cl: "Endpoint_ClearIN io (put ?u s) = put ?n s"
      using clear_bank(2) [of "put ?u s"] u by (simp add: get_put put_put)
    have cn: "cur ?n = ?e\<lparr>fifo := [], delay := lat (get s), queue := queue ?e @ [fifo ?e]\<rparr>"
      using u(3) by (simp add: next_bank_def release_def)
    have "attached ?n" "bank (cur ?n)"
      using u cn by (auto simp: attached_def bank_ready_def next_bank_def release_def)
    then obtain v where v: "Endpoint_WaitUntilReady io (put ?n s) = Some (EP_NoError, put v s)" "usb_frame ?n v"
      "cur v = (cur ?n)\<lparr>delay := 0\<rparr>"
      using wait_ready [of "put ?n s"] by (auto simp: get_put put_put)
    have f: "usb_frame ?u v" using usb_frame_trans [OF _ v(2)] by (simp add: next_bank_def)
    note fv = frame_cur [OF f]
    have ov: "in_open v" using u fv v(3) cn by (simp add: in_open_def attached_def bank_ready_def)
    have lv: "length (fifo (cur v)) < ep_size v" using v(3) cn fv u(5) by simp
    let ?w = "upd_cur (\<lambda>e. e\<lparr>fifo := fifo e @ [b]\<rparr>) v"
    have "Endpoint_Write_Byte io b (put v s) = put ?w s"
      using put_byte(2) [of "put v s" b] ov lv by (simp add: get_put put_put)
    then have "CDC_Device_SendByte io c d b s = Some (EP_NoError, put ?w s)"
      using assms(1-3) na cl v(1) by (simp add: CDC_Device_SendByte_def active select)
    moreover have "in_open ?w" using ov lv by (simp add: in_open_def attached_def bank_ready_def)
    moreover have "usb_frame ?u ?w" using f by (rule usb_frame_trans) simp
    ultimately show ?thesis using v(3) cn full by (intro exI [of _ ?w]) simp
  qed
qed

lemma flush:
  assumes "port_open d (get s)" "DataINEndpointNumber c = n" "n \<le> 7" "in_open ((get s)\<lparr>uenum := n\<rparr>)"
    "fifo (ep (get s) n) \<noteq> []" "ep_size (get s) < 65536"
  shows "\<exists>v. CDC_Device_Flush io c d s = Some (EP_NoError, put v s) \<and> usb_frame ((get s)\<lparr>uenum := n\<rparr>) v \<and>
    fifo (cur v) = [] \<and> queue (cur v) = queue (ep (get s) n) @
      (if length (fifo (ep (get s) n)) = ep_size (get s) then [fifo (ep (get s) n), []] else [fifo (ep (get s) n)])"
proof -
  let ?u = "(get s)\<lparr>uenum := n\<rparr>" and ?e = "ep (get s) n"
  have u: "uenum ?u \<noteq> 0" "attached ?u" "ep_in ?e" "bank_ready ?e" "length (fifo ?e) \<le> ep_size (get s)"
    using assms(4) by (auto simp: in_open_def attached_def)
  have c: "byte_count ?e = length (fifo ?e)" using u(4) by (simp add: byte_count_def)
  have "unat (of_nat (length (fifo ?e)) :: u16) = length (fifo ?e)"
    using u(5) assms(6) by (simp add: unat_of_nat take_bit_nat_eq_self)
  then have nz: "(of_nat (length (fifo ?e)) :: u16) \<noteq> 0"
    using assms(5) by (metis length_0_conv unsigned_0)
  have cnt: "Endpoint_BytesInEndpoint io (put ?u s) = (of_nat (length (fifo ?e)), put ?u s)"
    using bytes_in [of "put ?u s"] u(1) c by (simp add: get_put)
  have al: "Endpoint_IsReadWriteAllowed io (put ?u s) = (length (fifo ?e) < ep_size (get s), put ?u s)"
    using u by (simp add: rwa get_put put_put poll_ready)
  let ?n = "next_bank ?u"
  have cl: "Endpoint_ClearIN io (put ?u s) = put ?n s"
    using clear_bank(2) [of "put ?u s"] u by (simp add: get_put put_put)
  have cn: "cur ?n = ?e\<lparr>fifo := [], delay := lat (get s), queue := queue ?e @ [fifo ?e]\<rparr>"
    using u(3) by (simp add: next_bank_def release_def)
  have fn: "usb_frame ?u ?n" by (simp add: next_bank_def)
  show ?thesis
  proof (cases "length (fifo ?e) < ep_size (get s)")
    case True
    then have "CDC_Device_Flush io c d s = Some (EP_NoError, put ?n s)"
      using assms(1-3) by (simp add: CDC_Device_Flush_def active select cnt nz al cl)
    then show ?thesis using True cn fn by (intro exI [of _ ?n]) simp
  next
    case False
    have "attached ?n" "bank (cur ?n)"
      using u cn by (auto simp: attached_def bank_ready_def next_bank_def release_def)
    then obtain v where v: "Endpoint_WaitUntilReady io (put ?n s) = Some (EP_NoError, put v s)" "usb_frame ?n v"
      "cur v = (cur ?n)\<lparr>delay := 0\<rparr>"
      using wait_ready [of "put ?n s"] by (auto simp: get_put put_put)
    have f: "usb_frame ?u v" using fn v(2) by (rule usb_frame_trans)
    have r: "uenum v \<noteq> 0" "bank_ready (cur v)" using frame_cur [OF f] u v(3) cn by (simp_all add: bank_ready_def)
    have "Endpoint_ClearIN io (put v s) = put (next_bank v) s"
      using clear_bank(2) [of "put v s"] r by (simp add: get_put put_put)
    then have "CDC_Device_Flush io c d s = Some (EP_NoError, put (next_bank v) s)"
      using assms(1-3) False v(1) by (simp add: CDC_Device_Flush_def active select cnt nz al cl)
    moreover have "cur (next_bank v) = ?e\<lparr>fifo := [], delay := lat v, queue := queue ?e @ [fifo ?e, []]\<rparr>"
      using v(3) cn u(3) by (simp add: next_bank_def release_def)
    moreover have "usb_frame ?u (next_bank v)" using f by (rule usb_frame_trans) (simp add: next_bank_def)
    moreover have "length (fifo ?e) = ep_size (get s)" using False u(5) by simp
    ultimately show ?thesis by (intro exI [of _ "next_bank v"]) simp
  qed
qed

end

text \<open>An application that writes a message byte by byte and then flushes it.\<close>

fun write_message :: "'h mmio \<Rightarrow> CDC_Config \<Rightarrow> CDC_State \<Rightarrow> u8 list \<Rightarrow> 'h \<Rightarrow> (ep_error \<times> 'h) option" where
  "write_message io c d [] s = CDC_Device_Flush io c d s"
| "write_message io c d (b # bs) s =
     do {
       (e, s) \<leftarrow> CDC_Device_SendByte io c d b s;
       if e \<noteq> EP_NoError then Some (e, s) else write_message io c d bs s
     }"

text \<open>Packets as a host expects them: full ones, closed by a short one.\<close>

definition closed_packets :: "nat \<Rightarrow> u8 list list \<Rightarrow> bool" where
  "closed_packets n ps \<longleftrightarrow> ps \<noteq> [] \<and> (\<forall>p\<in>set (butlast ps). length p = n) \<and> length (last ps) < n"

lemma closed_Cons: "length p = n \<Longrightarrow> closed_packets n ps \<Longrightarrow> closed_packets n (p # ps)"
  by (simp add: closed_packets_def)

context usb_bus
begin

lemma write_message:
  assumes "port_open d (get s)" "DataINEndpointNumber c = n" "n \<le> 7" "in_open ((get s)\<lparr>uenum := n\<rparr>)"
    "bs \<noteq> [] \<or> fifo (ep (get s) n) \<noteq> []" "ep_size (get s) < 65536"
  shows "\<exists>v ps. write_message io c d bs s = Some (EP_NoError, put v s) \<and> usb_frame ((get s)\<lparr>uenum := n\<rparr>) v \<and>
    fifo (cur v) = [] \<and> queue (cur v) = queue (ep (get s) n) @ ps \<and> concat ps = fifo (ep (get s) n) @ bs \<and>
    closed_packets (ep_size (get s)) ps"
  using assms
proof (induction bs arbitrary: s)
  case Nil
  have "length (fifo (ep (get s) n)) \<le> ep_size (get s)" "0 < ep_size (get s)" using Nil.prems(4) by (simp_all add: in_open_def)
  then show ?case using flush [OF Nil.prems(1-4) _ Nil.prems(6)] Nil.prems(5) by (auto simp: closed_packets_def)
next
  case (Cons b bs)
  let ?u = "(get s)\<lparr>uenum := n\<rparr>" and ?e = "ep (get s) n"
  obtain v where v: "CDC_Device_SendByte io c d b s = Some (EP_NoError, put v s)" "usb_frame ?u v" "in_open v" "fifo (cur v) \<noteq> []"
    "queue (cur v) = queue ?e \<and> fifo (cur v) = fifo ?e @ [b] \<or>
     queue (cur v) = queue ?e @ [fifo ?e] \<and> fifo (cur v) = [b] \<and> length (fifo ?e) = ep_size (get s)"
    using send_byte [OF Cons.prems(1-4), of b] by blast
  have fv: "uenum v = n" "dev_state v = dev_state (get s)" "ep_size v = ep_size (get s)" using frame_cur [OF v(2)] by simp_all
  then have cv: "v\<lparr>uenum := n\<rparr> = v" "cur v = ep v n" by (simp_all add: cur_def)
  have "port_open d (get (put v s))" "in_open ((get (put v s))\<lparr>uenum := n\<rparr>)" "ep_size (get (put v s)) < 65536"
    "bs \<noteq> [] \<or> fifo (ep (get (put v s)) n) \<noteq> []"
    using Cons.prems(1,6) fv v(3,4) cv by (simp_all add: get_put port_open_def)
  from Cons.IH [OF this(1) Cons.prems(2,3) this(2,4,3)] obtain w ps where w:
    "write_message io c d bs (put v s) = Some (EP_NoError, put w s)" "usb_frame v w" "fifo (cur w) = []"
    "queue (cur w) = queue (cur v) @ ps" "concat ps = fifo (cur v) @ bs" "closed_packets (ep_size (get s)) ps"
    using cv fv by (auto simp: get_put put_put)
  have r: "write_message io c d (b # bs) s = Some (EP_NoError, put w s)" "usb_frame ?u w"
    using v(1) w(1) usb_frame_trans [OF v(2) w(2)] by simp_all
  from v(5) show ?case
  proof (elim disjE conjE)
    assume "queue (cur v) = queue ?e" "fifo (cur v) = fifo ?e @ [b]"
    then show ?thesis using r w by (intro exI [of _ w] exI [of _ ps]) simp
  next
    assume "queue (cur v) = queue ?e @ [fifo ?e]" "fifo (cur v) = [b]" "length (fifo ?e) = ep_size (get s)"
    then show ?thesis using r w closed_Cons by (intro exI [of _ w] exI [of _ "fifo ?e # ps"]) simp
  qed
qed

end

text \<open>
  C13. A message written to the virtual serial port byte by byte and flushed arrives at the host
  complete, in order and as one transfer: in packets of the endpoint size closed by a shorter one,
  which is empty when the message fills its packets exactly.
\<close>

theorem cdc_message_delivered:
  assumes "dev_state (dusb s) = DEVICE_STATE_Configured" "BaudRateBPS (LineEncoding d) \<noteq> 0"
    "DataINEndpointNumber c = n" "n \<le> 7" "in_open ((dusb s)\<lparr>uenum := n\<rparr>)" "fifo (ep (dusb s) n) = []"
    "ep_size (dusb s) < 65536" "bs \<noteq> []"
  shows "\<exists>s' ps. write_message bio c d bs s = Some (EP_NoError, s') \<and>
    queue (ep (dusb s') n) = queue (ep (dusb s) n) @ ps \<and> concat ps = bs \<and>
    (\<forall>p\<in>set (butlast ps). length p = ep_size (dusb s)) \<and> length (last ps) < ep_size (dusb s) \<and>
    fifo (ep (dusb s') n) = [] \<and> dflash s' = dflash s"
proof -
  have "port_open d (dusb s)" using assms(1,2) by (simp add: port_open_def)
  from ub.write_message [OF this assms(3-5) _ assms(7), of bs] assms(6,8) obtain v ps where
    "write_message bio c d bs s = Some (EP_NoError, s\<lparr>dusb := v\<rparr>)" "usb_frame ((dusb s)\<lparr>uenum := n\<rparr>) v"
    "fifo (cur v) = []" "queue (cur v) = queue (ep (dusb s) n) @ ps" "concat ps = bs" "closed_packets (ep_size (dusb s)) ps"
    by auto
  moreover have "cur v = ep v n" using frame_cur [OF calculation(2)] by (simp add: cur_def)
  ultimately show ?thesis by (intro exI [of _ "s\<lparr>dusb := v\<rparr>"] exI [of _ ps]) (simp add: closed_packets_def)
qed

definition serial_port :: CDC_Config where
  "serial_port = \<lparr>ControlInterfaceNumber = 0, DataINEndpointNumber = 3, DataINEndpointSize = 16, DataINEndpointDoubleBank = False,
     DataOUTEndpointNumber = 4, DataOUTEndpointSize = 16, DataOUTEndpointDoubleBank = False,
     NotificationEndpointNumber = 2, NotificationEndpointSize = 8, NotificationEndpointDoubleBank = False\<rparr>"

definition port_9600 :: CDC_State where
  "port_9600 = \<lparr>HostToDevice = 0, DeviceToHost = 0,
     LineEncoding = \<lparr>BaudRateBPS = 9600, CharFormat = 0, ParityType = 0, DataBits = 8\<rparr>\<rparr>"

lemma quiet_board:
  "dev_state (dusb (waiting_board [] ps)) = DEVICE_STATE_Configured" "ep_size (dusb (waiting_board [] ps)) = 64"
  "in_open ((dusb (waiting_board [] ps))\<lparr>uenum := 3\<rparr>)" "fifo (ep (dusb (waiting_board [] ps)) 3) = []"
  "queue (ep (dusb (waiting_board [] ps)) 3) = []" "BaudRateBPS (LineEncoding port_9600) \<noteq> 0"
  by (simp_all add: waiting_board_def in_open_def attached_def bank_ready_def port_9600_def cur_def)

theorem cdc_message_delivered_witness:
  "\<exists>s' ps. write_message bio serial_port port_9600 [0x48, 0x69, 0x0A] (waiting_board [] []) = Some (EP_NoError, s') \<and>
    queue (ep (dusb s') 3) = ps \<and> concat ps = [0x48, 0x69, 0x0A] \<and> length (last ps) < 64"
proof -
  have n: "DataINEndpointNumber serial_port = 3" "(3 :: u8) \<le> 7" by (simp_all add: serial_port_def)
  have sz: "ep_size (dusb (waiting_board [] [])) < 65536" "[0x48, 0x69, 0x0A :: u8] \<noteq> []" by (simp_all add: quiet_board)
  show ?thesis
    using cdc_message_delivered [OF quiet_board(1) quiet_board(6) n quiet_board(3,4) sz] by (auto simp: quiet_board)
qed

section \<open>Receiving\<close>

text \<open>An OUT endpoint of the serial port; packets are shorter than the counter can count.\<close>

definition rx_open :: "usb \<Rightarrow> bool" where
  "rx_open u \<longleftrightarrow> attached u \<and> \<not> ep_in (cur u) \<and> (bank (cur u) \<or> avail u = []) \<and>
     length (fifo (cur u)) < 65536 \<and> (\<forall>p\<in>set (queue (cur u)). length p < 65536)"

definition rx_measure :: "usb \<Rightarrow> (nat \<times> nat \<times> nat)" where
  "rx_measure u = (length (queue (cur u)), length (fifo (cur u)), delay (cur u))"

abbreviation (input) rx_less :: "((nat \<times> nat \<times> nat) \<times> (nat \<times> nat \<times> nat)) set" where
  "rx_less \<equiv> less_than <*lex*> less_than <*lex*> less_than"

text \<open>What one attempt to read a character does.\<close>

definition got_char :: "usb \<Rightarrow> u8 option \<Rightarrow> usb \<Rightarrow> bool" where
  "got_char u r v \<longleftrightarrow> rx_open v \<and> usb_frame u v \<and>
     (case r of None \<Rightarrow> avail v = avail u | Some b \<Rightarrow> avail u = b # avail v) \<and>
     (avail u = [] \<or> (rx_measure v, rx_measure u) \<in> rx_less)"

lemma rx_open_frame:
  assumes "rx_open u" "usb_frame u v" "\<not> ep_in (cur v)" "stalled (cur v) = stalled (cur u)" "delay (cur v) \<le> 100"
    "bank (cur v) \<or> avail v = []" "length (fifo (cur v)) < 65536" "set (queue (cur v)) \<subseteq> set (queue (cur u))"
  shows "rx_open v"
  using assms frame_cur [OF assms(2)] by (auto simp: rx_open_def attached_def)

lemma rx_release:
  assumes "rx_open u" "fifo (cur u) = []" "bank_ready (cur u)"
  shows "rx_open (next_bank u)" "avail (next_bank u) = avail u" "usb_frame u (next_bank u)"
    "avail u = [] \<or> length (queue (cur (next_bank u))) < length (queue (cur u))"
proof -
  have e: "\<not> ep_in (cur u)" "attached u" using assms(1) by (simp_all add: rx_open_def)
  have c: "cur (next_bank u) = release (lat u) (cur u)" by (simp add: next_bank_def)
  show f: "usb_frame u (next_bank u)" by (simp add: next_bank_def)
  have r: "cur (next_bank u) = (case queue (cur u) of
      [] \<Rightarrow> (cur u)\<lparr>fifo := [], bank := False\<rparr>
    | p # ps \<Rightarrow> (cur u)\<lparr>fifo := p, delay := lat u, queue := ps\<rparr>)"
    using c e(1) by (simp add: release_def)
  show av: "avail (next_bank u) = avail u" using r assms(2) by (cases "queue (cur u)") (simp_all add: avail_def)
  show "avail u = [] \<or> length (queue (cur (next_bank u))) < length (queue (cur u))"
    using r assms(2) by (cases "queue (cur u)") (simp_all add: avail_def)
  show "rx_open (next_bank u)"
    using assms e r
    by (intro rx_open_frame [OF assms(1) f])
      (auto simp: rx_open_def attached_def bank_ready_def avail_def split: list.splits)
qed

context usb_bus
begin

lemma count:
  assumes "uenum (get s) \<noteq> 0" "length (fifo (cur (get s))) < 65536"
  shows "\<exists>n. Endpoint_BytesInEndpoint io s = (n, s) \<and> (n = 0 \<longleftrightarrow> \<not> bank_ready (cur (get s)) \<or> fifo (cur (get s)) = [])"
proof -
  have "unat (of_nat (byte_count (cur (get s))) :: u16) = byte_count (cur (get s))"
    using assms(2) by (simp add: byte_count_def unat_of_nat take_bit_nat_eq_self)
  then have z: "(of_nat (byte_count (cur (get s))) :: u16) = 0 \<longleftrightarrow> byte_count (cur (get s)) = 0"
    using unat_eq_0 [of "of_nat (byte_count (cur (get s))) :: u16"] by (simp only:)
  show ?thesis unfolding bytes_in [OF assms(1)] using z
    by (intro exI [of _ "of_nat (byte_count (cur (get s)))"]) (simp add: byte_count_def)
qed

lemma receive_byte:
  assumes "port_open d (get s)" "DataOUTEndpointNumber c = uenum (get s)" "uenum (get s) \<le> 7" "rx_open (get s)"
    "bank_ready (cur (get s))" "fifo (cur (get s)) = b # bs"
  shows "\<exists>v. CDC_Device_ReceiveByte io c d s = (b, put v s) \<and> rx_open v \<and> usb_frame (get s) v \<and>
    avail (get s) = b # avail v \<and> (rx_measure v, rx_measure (get s)) \<in> rx_less"
proof -
  let ?u = "get s" and ?v = "upd_cur (\<lambda>e. e\<lparr>fifo := bs\<rparr>) (get s)"
  have nz: "uenum ?u \<noteq> 0" using assms(4) by (simp add: rx_open_def attached_def)
  have rd: "Endpoint_Read_Byte io s = (b, put ?v s)"
    using get_byte(2) [of s b bs] assms(4-6) by (simp add: out_open_def rx_open_def)
  have sl: "Endpoint_SelectEndpoint io (uenum ?u) s = s" using select [OF assms(3)] by (simp add: put_get)
  have ov: "rx_open ?v" "avail ?u = b # avail ?v" "bank_ready (cur ?v)"
    using assms(4-6) by (auto simp: rx_open_def attached_def avail_def bank_ready_def)
  obtain n where n: "Endpoint_BytesInEndpoint io (put ?v s) = (n, put ?v s)" "n = 0 \<longleftrightarrow> bs = []"
    using count [of "put ?v s"] nz ov by (auto simp: get_put rx_open_def)
  show ?thesis
  proof (cases "bs = []")
    case False
    then have "CDC_Device_ReceiveByte io c d s = (b, put ?v s)"
      using assms(1,2) sl rd n by (simp add: CDC_Device_ReceiveByte_def active)
    then show ?thesis using ov assms(6) by (intro exI [of _ ?v]) (simp add: rx_measure_def)
  next
    case True
    have "Endpoint_ClearOUT io (put ?v s) = put (next_bank ?v) s"
      using clear_bank(1) [of "put ?v s"] nz ov by (simp add: get_put put_put)
    then have "CDC_Device_ReceiveByte io c d s = (b, put (next_bank ?v) s)"
      using True assms(1,2) sl rd n by (simp add: CDC_Device_ReceiveByte_def active)
    moreover note rel = rx_release [OF ov(1) _ ov(3)]
    have "fifo (cur ?v) = []" using True by simp
    moreover have "usb_frame ?u (next_bank ?v)" using usb_frame_trans [OF _ rel(3)] True by simp
    moreover have "(rx_measure (next_bank ?v), rx_measure ?u) \<in> rx_less"
    proof (cases "queue (cur ?u)")
      case Nil
      then have "cur (next_bank ?v) = (cur ?u)\<lparr>fifo := [], bank := False\<rparr>"
        using assms(4) by (simp add: next_bank_def release_def rx_open_def)
      then show ?thesis using Nil assms(6) by (simp add: rx_measure_def)
    next
      case (Cons p ps)
      then have "queue (cur (next_bank ?v)) = ps"
        using assms(4) by (simp add: next_bank_def release_def rx_open_def)
      then show ?thesis using Cons by (simp add: rx_measure_def)
    qed
    ultimately show ?thesis using rel(1,2) ov(2) by (intro exI [of _ "next_bank ?v"]) simp
  qed
qed

lemma getchar:
  assumes "port_open d (get s)" "DataOUTEndpointNumber c = n" "n \<le> 7" "rx_open ((get s)\<lparr>uenum := n\<rparr>)"
  shows "\<exists>r v. CDC_Device_getchar io c d s = (r, put v s) \<and> got_char ((get s)\<lparr>uenum := n\<rparr>) r v"
proof -
  let ?u = "(get s)\<lparr>uenum := n\<rparr>"
  have nz: "uenum ?u \<noteq> 0" "\<not> ep_in (cur ?u)" using assms(4) by (simp_all add: rx_open_def attached_def)
  have out: "Endpoint_IsOUTReceived io (put ?u s) = (bank_ready (cur ?u), put (poll ?u) s)"
    using out_received [of "put ?u s"] nz by (simp add: get_put put_put)
  have sl: "Endpoint_SelectEndpoint io n s = put ?u s" using assms(3) by (rule select)
  have po: "port_open d v" if "usb_frame ?u v" for v using assms(1) frame_cur [OF that] by (simp add: port_open_def)
  have read: "\<exists>v. CDC_Device_ReceiveByte io c d (put w s) = (b, put v s) \<and> rx_open v \<and> usb_frame w v \<and>
      avail w = b # avail v \<and> (rx_measure v, rx_measure w) \<in> rx_less"
    if "usb_frame ?u w" "rx_open w" "bank_ready (cur w)" "fifo (cur w) = b # bs" for w b bs
    using receive_byte [of d "put w s" c b bs] that po [OF that(1)] frame_cur [OF that(1)] assms(2,3)
    by (simp add: get_put put_put)
  show ?thesis
  proof (cases "bank_ready (cur ?u)")
    case False
    have e: "CDC_Device_getchar io c d s = (None, put (poll ?u) s)"
      using assms(1,2) sl out False by (simp add: CDC_Device_getchar_def CDC_Device_BytesReceived_def active)
    have f: "usb_frame ?u (poll ?u)" by (rule frame_poll)
    have "rx_open (poll ?u)" using assms(4) by (intro rx_open_frame [OF assms(4) f]) (auto simp: rx_open_def attached_def avail_def)
    moreover have "avail ?u = [] \<or> (rx_measure (poll ?u), rx_measure ?u) \<in> rx_less"
      using assms(4) False by (auto simp: rx_open_def bank_ready_def rx_measure_def)
    moreover have "avail (poll ?u) = avail ?u" by (simp add: avail_def)
    ultimately have "got_char ?u None (poll ?u)" using f by (simp add: got_char_def)
    then show ?thesis using e by blast
  next
    case True
    then have out: "Endpoint_IsOUTReceived io (put ?u s) = (True, put ?u s)" using out by (simp add: poll_ready)
    obtain m where m: "Endpoint_BytesInEndpoint io (put ?u s) = (m, put ?u s)" "m = 0 \<longleftrightarrow> fifo (cur ?u) = []"
      using count [of "put ?u s"] nz True assms(4) by (auto simp: get_put rx_open_def)
    show ?thesis
    proof (cases "fifo (cur ?u)")
      case (Cons b bs)
      have "CDC_Device_BytesReceived io c d s = (m, put ?u s)" "m \<noteq> 0"
        using assms(1,2) sl out m Cons by (simp_all add: CDC_Device_BytesReceived_def active)
      then show ?thesis
        using read [OF usb_frame_refl assms(4) True Cons] by (auto simp: CDC_Device_getchar_def got_char_def)
    next
      case Nil
      let ?n = "next_bank ?u"
      note rel = rx_release [OF assms(4) Nil True]
      have cl: "Endpoint_ClearOUT io (put ?u s) = put ?n s"
        using clear_bank(1) [of "put ?u s"] nz True by (simp add: get_put put_put)
      obtain l where l: "Endpoint_BytesInEndpoint io (put ?n s) = (l, put ?n s)"
        "l = 0 \<longleftrightarrow> \<not> bank_ready (cur ?n) \<or> fifo (cur ?n) = []"
        using count [of "put ?n s"] nz rel(1) frame_cur [OF rel(3)] by (auto simp: get_put rx_open_def)
      have br: "CDC_Device_BytesReceived io c d s = (l, put ?n s)"
        using assms(1,2) sl out m Nil cl l(1) by (simp add: CDC_Device_BytesReceived_def active)
      have ms: "avail ?u = [] \<or> (rx_measure ?n, rx_measure ?u) \<in> rx_less" using rel(4) by (auto simp: rx_measure_def)
      show ?thesis
      proof (cases "l = 0")
        case True
        then have "CDC_Device_getchar io c d s = (None, put ?n s)" using br by (simp add: CDC_Device_getchar_def)
        moreover have "got_char ?u None ?n" using rel(1-3) ms by (simp add: got_char_def)
        ultimately show ?thesis by blast
      next
        case False
        then obtain b bs where b: "bank_ready (cur ?n)" "fifo (cur ?n) = b # bs" using l(2) by (auto simp: neq_Nil_conv)
        obtain v where v: "CDC_Device_ReceiveByte io c d (put ?n s) = (b, put v s)" "rx_open v" "usb_frame ?n v"
          "avail ?n = b # avail v" "(rx_measure v, rx_measure ?n) \<in> rx_less"
          using read [OF rel(3,1) b] by blast
        have "CDC_Device_getchar io c d s = (Some b, put v s)" using br False v(1) by (simp add: CDC_Device_getchar_def)
        moreover have "(rx_measure v, rx_measure ?u) \<in> rx_less"
          using v(4,5) ms rel(2) trans_lex_prod [OF trans_less_than trans_lex_prod [OF trans_less_than trans_less_than]]
          by (metis list.distinct(1) transD)
        ultimately show ?thesis
          using v(2,4) rel(2) usb_frame_trans [OF rel(3) v(3)] by (auto simp: got_char_def)
      qed
    qed
  qed
qed

end

text \<open>An application that polls the character stream \<open>k\<close> times.\<close>

fun read_chars :: "'h mmio \<Rightarrow> CDC_Config \<Rightarrow> CDC_State \<Rightarrow> nat \<Rightarrow> 'h \<Rightarrow> u8 list \<times> 'h" where
  "read_chars io c d 0 s = ([], s)"
| "read_chars io c d (Suc k) s =
     (let (r, s) = CDC_Device_getchar io c d s; (bs, s) = read_chars io c d k s
      in (case r of None \<Rightarrow> bs | Some b \<Rightarrow> b # bs, s))"

context usb_bus
begin

lemma read_chars:
  assumes "port_open d (get s)" "DataOUTEndpointNumber c = n" "n \<le> 7" "rx_open ((get s)\<lparr>uenum := n\<rparr>)"
  shows "\<exists>got v. read_chars io c d k s = (got, put v s) \<and> avail ((get s)\<lparr>uenum := n\<rparr>) = got @ avail (v\<lparr>uenum := n\<rparr>)"
  using assms
proof (induction k arbitrary: s)
  case 0
  then show ?case by (simp add: put_get) (metis put_get)
next
  case (Suc k)
  obtain r v where v: "CDC_Device_getchar io c d s = (r, put v s)" "got_char ((get s)\<lparr>uenum := n\<rparr>) r v"
    using getchar [OF Suc.prems] by blast
  then have f: "rx_open v" "uenum v = n" "port_open d v"
    using Suc.prems(1) frame_cur [of "(get s)\<lparr>uenum := n\<rparr>" v] by (auto simp: got_char_def port_open_def)
  obtain got w where w: "read_chars io c d k (put v s) = (got, put w s)" "avail v = got @ avail (w\<lparr>uenum := n\<rparr>)"
    using Suc.IH [of "put v s"] f Suc.prems(2,3) by (auto simp: get_put put_put)
  show ?case using v w by (cases r) (auto simp: got_char_def)
qed

lemma read_all:
  assumes "port_open d (get s)" "DataOUTEndpointNumber c = n" "n \<le> 7" "rx_open ((get s)\<lparr>uenum := n\<rparr>)"
  shows "\<exists>k v. read_chars io c d k s = (avail ((get s)\<lparr>uenum := n\<rparr>), put v s)"
  using assms
proof (induction "rx_measure ((get s)\<lparr>uenum := n\<rparr>)" arbitrary: s
    rule: wf_induct_rule [OF wf_lex_prod [OF wf_less_than wf_lex_prod [OF wf_less_than wf_less_than]]])
  case 1
  let ?u = "(get s)\<lparr>uenum := n\<rparr>"
  show ?case
  proof (cases "avail ?u = []")
    case True
    then show ?thesis by (intro exI [of _ 0] exI [of _ "get s"]) (simp add: put_get)
  next
    case False
    obtain r v where v: "CDC_Device_getchar io c d s = (r, put v s)" "got_char ?u r v" using getchar [OF 1(2-5)] by blast
    then have f: "rx_open v" "uenum v = n" "port_open d v" "(rx_measure v, rx_measure ?u) \<in> rx_less"
      using 1(2) False frame_cur [of ?u v] by (auto simp: got_char_def port_open_def)
    obtain k w where "read_chars io c d k (put v s) = (avail v, put w s)"
      using 1(1) [of "put v s"] f 1(3,4) by (auto simp: get_put put_put)
    then show ?thesis using v by (intro exI [of _ "Suc k"] exI [of _ w]) (cases r; simp add: got_char_def)
  qed
qed

end

text \<open>
  What the host sends to the virtual serial port comes out of the character stream in order,
  without loss or repetition, however often the stream is polled, and some number of polls reads
  everything the host has sent, empty packets in between included.
\<close>

theorem cdc_received_in_order:
  assumes "dev_state (dusb s) = DEVICE_STATE_Configured" "BaudRateBPS (LineEncoding d) \<noteq> 0"
    "DataOUTEndpointNumber c = n" "n \<le> 7" "rx_open ((dusb s)\<lparr>uenum := n\<rparr>)"
    "incoming = fifo (ep (dusb s) n) @ concat (queue (ep (dusb s) n))"
  shows "(\<exists>rest. incoming = fst (read_chars bio c d k s) @ rest) \<and> (\<exists>k. fst (read_chars bio c d k s) = incoming)"
proof -
  have p: "port_open d (dusb s)" using assms(1,2) by (simp add: port_open_def)
  have i: "avail ((dusb s)\<lparr>uenum := n\<rparr>) = incoming" using assms(6) by (simp add: avail_def)
  obtain got v where "read_chars bio c d k s = (got, s\<lparr>dusb := v\<rparr>)" "incoming = got @ avail (v\<lparr>uenum := n\<rparr>)"
    using ub.read_chars [OF p assms(3-5), of k] unfolding i by blast
  then have "\<exists>rest. incoming = fst (read_chars bio c d k s) @ rest" by simp
  moreover obtain j v where "read_chars bio c d j s = (incoming, s\<lparr>dusb := v\<rparr>)"
    using ub.read_all [OF p assms(3-5)] unfolding i by blast
  then have "\<exists>k. fst (read_chars bio c d k s) = incoming" by (intro exI [of _ j]) simp
  ultimately show ?thesis by blast
qed

lemma host_sends:
  "rx_open ((dusb (waiting_board [] [[0x41], [], [0x42, 0x43]]))\<lparr>uenum := 4\<rparr>)"
  "fifo (ep (dusb (waiting_board [] [[0x41], [], [0x42, 0x43]])) 4) = []"
  "queue (ep (dusb (waiting_board [] [[0x41], [], [0x42, 0x43]])) 4) = [[0x41], [], [0x42, 0x43]]"
  by (simp_all add: waiting_board_def rx_open_def attached_def cur_def)

theorem cdc_received_in_order_witness:
  "\<exists>k. fst (read_chars bio serial_port port_9600 k (waiting_board [] [[0x41], [], [0x42, 0x43]])) = [0x41, 0x42, 0x43]"
proof -
  have n: "DataOUTEndpointNumber serial_port = 4" "(4 :: u8) \<le> 7" by (simp_all add: serial_port_def)
  show ?thesis
    using cdc_received_in_order [OF quiet_board(1,6) n host_sends(1) refl, of 0] by (simp add: host_sends(2,3))
qed

text \<open>
  The first byte after a flush finds the bank still on its way to the host.  \<open>CDC_Device_SendByte\<close>
  then hands over a bank it does not own; when the bank comes back while the routine looks at it,
  the host receives an empty packet in front of the byte.
\<close>

lemma cdc_empty_packet:
  "map_option (\<lambda>(e, s). (e, queue (ep (dusb s) 3), fifo (ep (dusb s) 3)))
     (CDC_Device_SendByte bio serial_port port_9600 0x41
       ((waiting_board [] [])\<lparr>dusb := (dusb (waiting_board [] []))\<lparr>ep :=
          (ep (dusb (waiting_board [] [])))(3 := (ep (dusb (waiting_board [] [])) 3)\<lparr>delay := 2\<rparr>)\<rparr>\<rparr>)) =
   Some (EP_NoError, [[]], [0x41])"
  by code_simp

section \<open>The line encoding\<close>

lemma encoding_round_trip: "encoding_of (encoding_bytes e) = e" "length (encoding_bytes e) = 7"
  by (cases e; simp add: encoding_of_def encoding_bytes_def peek32_def bytes32_def nth_append)+

lemma ucast_eq_0_iff_u8: "(ucast (w :: u8) :: u16) = 0 \<longleftrightarrow> w = 0"
proof -
  have "unat (ucast w :: u16) = unat w"
    using unsigned_less [where 'a = nat, of w] by (simp add: unsigned_ucast_eq take_bit_nat_eq_self)
  then show ?thesis by (simp add: word_unat_eq_iff)
qed

context ctl_bus
begin

text \<open>Acknowledging the SETUP packet of a transfer with OUT data.\<close>

lemma setup_cleared_data:
  assumes "sel s" "c_setup (get s)" "\<not> c_out (get s)" "c_host (get s) = H_Data ps"
  shows "Endpoint_ClearSETUP io s = put ((get s)\<lparr>c_setup := False, c_rx := [], c_tx := [], c_wait := c_lat (get s),
     c_in := False\<rparr>) s"
proof -
  obtain w where w: "ctl_poll (get s) = (get s)\<lparr>c_wait := w\<rparr>" using poll_setup [OF assms(2)] by blast
  show ?thesis using assms w by (simp add: clear_setup w ctl_ack_def bit_ctl_intx bit_and_iff bit_not_iff)
qed

text \<open>The host's packet is on its way (\<open>waiting\<close>) or there (\<open>arrived\<close>).\<close>

definition waiting :: "u8 list \<Rightarrow> ctl \<Rightarrow> bool" where
  "waiting p c \<longleftrightarrow> c_host c = H_Data [p] \<and> \<not> c_out c \<and> \<not> c_setup c \<and> \<not> c_in c \<and> c_tx c = []"

definition arrived :: "u8 list \<Rightarrow> ctl \<Rightarrow> bool" where
  "arrived p c \<longleftrightarrow> c_host c = H_Data [] \<and> c_out c \<and> \<not> c_setup c \<and> \<not> c_in c \<and> c_tx c = [] \<and> c_rx c = p"

lemma poll_arrived: "arrived p c \<Longrightarrow> arrived p (ctl_poll c) \<and> c_got (ctl_poll c) = c_got c \<and> c_stall (ctl_poll c) = c_stall c"
  by (auto simp: arrived_def ctl_poll_def host_act_def)

lemma poll_waiting: "waiting p c \<Longrightarrow> c_got (ctl_poll c) = c_got c \<and> c_stall (ctl_poll c) = c_stall c \<and>
   (waiting p (ctl_poll c) \<and> c_wait (ctl_poll c) < c_wait c \<or> arrived p (ctl_poll c))"
  by (auto simp: waiting_def arrived_def ctl_poll_def host_act_def)

lemma drain:
  assumes "sel s" "c_out (get s)" "\<not> c_setup (get s)" "c_rx (get s) = p" "length p < 256"
  shows "drain_packet io (length p) got s = (0, got @ p, put ((get s)\<lparr>c_rx := []\<rparr>) s)"
  using assms
proof (induction p arbitrary: got s)
  case Nil
  then have "(get s)\<lparr>c_rx := []\<rparr> = get s" by (cases "get s") simp
  then have "put ((get s)\<lparr>c_rx := []\<rparr>) s = s" by (simp only: put_get)
  then show ?case by simp
next
  case (Cons b p)
  let ?s = "put ((get s)\<lparr>c_rx := p\<rparr>) s"
  have "unat (of_nat (length (b # p)) :: u8) = length (b # p)"
    using Cons.prems(5) by (simp del: of_nat_Suc list.size add: unat_of_nat take_bit_nat_eq_self)
  then have "(of_nat (length (b # p)) :: u8) \<noteq> 0" by (metis list.size(4) nat.distinct(1) One_nat_def add_Suc_right unsigned_0)
  then have n: "(ucast (of_nat (length (b # p)) :: u8) :: u16) \<noteq> 0" by (simp add: ucast_eq_0_iff_u8)
  have "Endpoint_BytesInEndpoint io s = (ucast (of_nat (length (b # p)) :: u8), s)"
    using byte_count [OF Cons.prems(1)] Cons.prems(2,4) by simp
  moreover have "Endpoint_Read_Byte io s = (b, ?s)" using read_byte [OF Cons.prems(1)] Cons.prems(4) by (simp add: ctl_rd_def)
  moreover have "drain_packet io (length p) (got @ [b]) ?s = (0, (got @ [b]) @ p, put ((get ?s)\<lparr>c_rx := []\<rparr>) ?s)"
    using Cons.prems by (intro Cons.IH) (simp_all add: laws)
  ultimately show ?case using n by (simp add: laws)
qed

text \<open>The packet has been taken and the host waits for the status packet.\<close>

definition status_due :: "ctl \<Rightarrow> ctl \<Rightarrow> bool" where
  "status_due c d \<longleftrightarrow> c_host d = H_InStatus \<and> c_in d \<and> \<not> c_out d \<and> \<not> c_setup d \<and> c_tx d = [] \<and>
     c_got d = c_got c \<and> c_stall d = c_stall c"

lemma take_packet:
  assumes "sel s" "dstate s \<noteq> 0" "arrived p (get s)" "length p < 256"
  shows "\<exists>c. (let (n, g, t) = drain_packet io (length p) got s in read_control_loop io n g (Endpoint_ClearOUT io t)) =
      Some ((CTL_NoError, got @ p), put c s) \<and> status_due (get s) c"
proof -
  let ?x = "(get s)\<lparr>c_rx := []\<rparr>"
  have d: "drain_packet io (length p) got s = (0, got @ p, put ?x s)"
    using assms by (intro drain) (simp_all add: arrived_def)
  have "arrived [] ?x" using assms(3) by (simp add: arrived_def)
  then have a: "arrived [] (ctl_poll ?x)" "c_got (ctl_poll ?x) = c_got ?x" "c_stall (ctl_poll ?x) = c_stall ?x"
    using poll_arrived by blast+
  let ?y = "(ctl_poll ?x)\<lparr>c_out := False, c_rx := [], c_wait := c_lat (ctl_poll ?x)\<rparr>"
  have cl: "Endpoint_ClearOUT io (put ?x s) = put ?y s"
    using assms(1) a(1) by (simp add: clear_out Let_def laws ctl_ack_def arrived_def bit_ctl_intx bit_and_iff bit_not_iff)
  let ?h = "host_act (?y\<lparr>c_wait := 0\<rparr>)"
  have h: "status_due (get s) ?h" "bit (ctl_intx ?h) TXINI" "\<not> bit (ctl_intx ?y) TXINI"
    using a by (simp_all add: arrived_def status_due_def host_act_def bit_ctl_intx)
  then have "flag_wait io TXINI (put ?y s) = Some (True, put ?h s)"
    using flag_wait [of "put ?y s" TXINI] assms(1,2) by (auto simp: laws)
  then have "read_control_loop io 0 (got @ p) (put ?y s) = Some ((CTL_NoError, got @ p), put ?h s)"
    by (subst read_control_loop.simps) simp
  then show ?thesis using h(1) by (intro exI [of _ ?h]) (simp add: d cl)
qed

lemma read_one_packet:
  assumes "sel s" "dstate s \<noteq> 0" "waiting p (get s)" "p \<noteq> []" "length p < 256"
  shows "\<exists>c. read_control_loop io (length p) got s = Some ((CTL_NoError, got @ p), put c s) \<and> status_due (get s) c"
  using assms
proof (induction "c_wait (get s)" arbitrary: s rule: less_induct)
  case less
  let ?c1 = "ctl_poll (get s)" and ?c2 = "ctl_poll (ctl_poll (get s))"
  have one: "c_got ?c1 = c_got (get s)" "c_stall ?c1 = c_stall (get s)"
    "waiting p ?c1 \<and> c_wait ?c1 < c_wait (get s) \<or> arrived p ?c1"
    using poll_waiting [OF less.prems(3)] by blast+
  then have two: "c_got ?c2 = c_got (get s)" "c_stall ?c2 = c_stall (get s)"
    "waiting p ?c2 \<and> c_wait ?c2 < c_wait (get s) \<or> arrived p ?c2"
    using poll_waiting [of p ?c1] poll_arrived [of p ?c1] by auto
  have ns: "Endpoint_IsSETUPReceived io s = (False, put ?c1 s)"
    using flags(1) [OF less.prems(1)] one(3) by (auto simp: waiting_def arrived_def)
  have out: "Endpoint_IsOUTReceived io (put ?c1 s) = (c_out ?c2, put ?c2 s)"
    using flags(2) [of "put ?c1 s"] less.prems(1) by (simp add: laws)
  have ne: "length p \<noteq> 0" using less.prems(4) by simp
  from two(3) show ?case
  proof (elim disjE conjE)
    assume w: "waiting p ?c2" "c_wait ?c2 < c_wait (get s)"
    have "read_control_loop io (length p) got s = read_control_loop io (length p) got (put ?c2 s)"
      using w(1) ne less.prems(2) ns out by (subst read_control_loop.simps)
        (simp add: read_control_round_def dev_state laws waiting_def)
    moreover obtain c where "read_control_loop io (length p) got (put ?c2 s) = Some ((CTL_NoError, got @ p), put c s)"
      "status_due ?c2 c"
      using less.hyps [of "put ?c2 s"] w less.prems by (auto simp: laws)
    ultimately show ?thesis using two by (auto simp: status_due_def)
  next
    assume a: "arrived p ?c2"
    obtain c where c: "(let (n, g, t) = drain_packet io (length p) got (put ?c2 s) in
        read_control_loop io n g (Endpoint_ClearOUT io t)) = Some ((CTL_NoError, got @ p), put c s)" "status_due ?c2 c"
      using take_packet [of "put ?c2 s" p got] a less.prems by (auto simp: laws)
    obtain n g t where t: "drain_packet io (length p) got (put ?c2 s) = (n, g, t)" by (metis prod_cases3)
    have "read_control_loop io (length p) got s = read_control_loop io n g (Endpoint_ClearOUT io t)"
      using a ne less.prems(2) ns out t by (subst read_control_loop.simps)
        (simp add: read_control_round_def dev_state laws arrived_def)
    then show ?thesis using c t two by (auto simp: status_due_def)
  qed
qed

text \<open>The empty status packet of the firmware ends the transfer.\<close>

lemma finish_in:
  assumes "sel s" "status_due c0 (get s)"
  shows "\<exists>c. Endpoint_ClearIN io s = put c s \<and> c_host c = H_Done \<and> c_got c = c_got c0 @ [[]] \<and> c_stall c = c_stall c0 \<and>
    \<not> c_setup c"
proof -
  let ?p = "ctl_poll (get s)"
  have "c_host ?p = H_InStatus" "\<not> c_setup ?p" "\<not> c_out ?p" "c_tx ?p = []" "c_in ?p" "c_got ?p = c_got c0" "c_stall ?p = c_stall c0"
    using assms(2) by (auto simp: status_due_def ctl_poll_def host_act_def)
  then show ?thesis
    using assms(1) by (simp add: clear_in Let_def ctl_ack_def bit_ctl_intx bit_and_iff bit_not_iff take_in_def)
      (intro exI conjI, rule refl, simp_all)
qed

end

text \<open>
  SET_LINE_ENCODING: the seven bytes the host sends become the line encoding, the application
  is told with the new encoding in place, and the transfer is complete, status stage included.
\<close>

theorem set_line_encoding_request:
  assumes "uenum (dusb s) = 0" "dev_state (dusb s) \<noteq> 0" "c_setup (dctl s)" "\<not> c_out (dctl s)"
    "c_host (dctl s) = H_Data [encoding_bytes e]"
    "bRequest req = REQ_SetLineEncoding" "bmRequestType req = CLASS_OUT" "wIndex req = ucast (ControlInterfaceNumber c)"
  shows "\<exists>t. CDC_Device_ProcessControlRequest bio ev c req d s = Some (LineEncodingChanged ev (d\<lparr>LineEncoding := e\<rparr>) t) \<and>
    c_host (dctl t) = H_Done \<and> c_got (dctl t) = c_got (dctl s) @ [[]] \<and> c_stall (dctl t) = c_stall (dctl s) \<and> dusb t = dusb s"
proof -
  obtain w where w: "ctl_poll (dctl s) = (dctl s)\<lparr>c_wait := w\<rparr>" using poll_setup [OF assms(3)] by blast
  let ?s1 = "s\<lparr>dctl := (dctl s)\<lparr>c_wait := w\<rparr>\<rparr>"
  have su: "Endpoint_IsSETUPReceived bio s = (True, ?s1)" using cb.flags(1) [of s] assms(1,3) w by simp
  let ?c = "(dctl s)\<lparr>c_wait := c_lat (dctl s), c_setup := False, c_rx := [], c_tx := [], c_in := False\<rparr>"
  have cl: "Endpoint_ClearSETUP bio ?s1 = s\<lparr>dctl := ?c\<rparr>"
    using cb.setup_cleared_data [of ?s1] assms by simp
  have "cb.waiting (encoding_bytes e) ?c" using assms(4,5) by (simp add: cb.waiting_def)
  then obtain c1 where c1: "Endpoint_Read_Control_Stream_LE bio 7 (s\<lparr>dctl := ?c\<rparr>) =
      Some ((CTL_NoError, encoding_bytes e), s\<lparr>dctl := c1\<rparr>)" "cb.status_due ?c c1"
    using cb.read_one_packet [of "s\<lparr>dctl := ?c\<rparr>" "encoding_bytes e" "[]"] assms(1,2)
    by (auto simp: Endpoint_Read_Control_Stream_LE_def encoding_round_trip(2) simp flip: length_0_conv)
  obtain c2 where c2: "Endpoint_ClearIN bio (s\<lparr>dctl := c1\<rparr>) = s\<lparr>dctl := c2\<rparr>" "c_host c2 = H_Done"
    "c_got c2 = c_got (dctl s) @ [[]]" "c_stall c2 = c_stall (dctl s)"
    using cb.finish_in [of "s\<lparr>dctl := c1\<rparr>" ?c] c1(2) assms(1) by auto
  have ov: "encoding_of (overwrite (encoding_bytes e) (encoding_bytes (LineEncoding d))) = e"
    by (simp add: overwrite_def encoding_round_trip)
  have "CDC_Device_ProcessControlRequest bio ev c req d s =
      Some (LineEncodingChanged ev (d\<lparr>LineEncoding := e\<rparr>) (s\<lparr>dctl := c2\<rparr>))"
    using assms(6-8) by (simp add: CDC_Device_ProcessControlRequest_def su cl c1(1) c2(1) ov)
  then show ?thesis using c2 by (intro exI [of _ "s\<lparr>dctl := c2\<rparr>"]) simp
qed

definition plain_events :: "board cdc_events" where
  "plain_events = \<lparr>LineEncodingChanged = CDC_Device_Event_Stub, ControLineStateChanged = CDC_Device_Event_Stub\<rparr>"

definition encoding_115200 :: CDC_LineEncoding where
  "encoding_115200 = \<lparr>BaudRateBPS = 115200, CharFormat = 0, ParityType = 2, DataBits = 8\<rparr>"

theorem set_line_encoding_request_witness:
  "\<exists>d t. CDC_Device_ProcessControlRequest bio plain_events serial_port
      \<lparr>bmRequestType = 0x21, bRequest = 0x20, wValue = 0, wIndex = 0, wLength = 7\<rparr> zero_cdc
      (asking_board \<lparr>bmRequestType = 0x21, bRequest = 0x20, wValue = 0, wIndex = 0, wLength = 7\<rparr>
         (H_Data [encoding_bytes encoding_115200])) = Some (d, t) \<and>
    LineEncoding d = encoding_115200 \<and> c_host (dctl t) = H_Done"
proof -
  let ?r = "\<lparr>bmRequestType = 0x21, bRequest = 0x20, wValue = 0, wIndex = 0, wLength = 7\<rparr> :: USB_Request_Header_t"
  have "uenum (dusb (asking_board ?r h)) = 0" "dev_state (dusb (asking_board ?r h)) \<noteq> 0" "c_setup (dctl (asking_board ?r h))"
    "\<not> c_out (dctl (asking_board ?r h))" "c_host (dctl (asking_board ?r h)) = h" for h
    by (simp_all add: asking_board_def waiting_board_def)
  from set_line_encoding_request [OF this, where req = ?r and c = serial_port and ev = plain_events and d = zero_cdc] show ?thesis
    by (force simp: serial_port_def plain_events_def CDC_Device_Event_Stub_def)
qed

text \<open>
  GET_LINE_ENCODING: the host receives the line encoding, in one short packet, and the transfer
  is complete; a host that reads all seven bytes gets back exactly the encoding of the port.
\<close>

theorem get_line_encoding_request:
  assumes "uenum (dusb s) = 0" "dev_state (dusb s) \<noteq> 0" "c_setup (dctl s)" "\<not> c_out (dctl s)"
    "c_host (dctl s) = H_In (unat (wLength req))" "7 \<le> wLength req"
    "bRequest req = REQ_GetLineEncoding" "bmRequestType req = CLASS_IN" "wIndex req = ucast (ControlInterfaceNumber c)"
  shows "\<exists>t p. CDC_Device_ProcessControlRequest bio ev c req d s = Some (d, t) \<and> c_host (dctl t) = H_Done \<and>
    c_got (dctl t) = c_got (dctl s) @ [p] \<and> length p = 7 \<and> encoding_of p = LineEncoding d \<and> dusb t = dusb s"
proof -
  obtain w where w: "ctl_poll (dctl s) = (dctl s)\<lparr>c_wait := w\<rparr>" using poll_setup [OF assms(3)] by blast
  let ?s1 = "s\<lparr>dctl := (dctl s)\<lparr>c_wait := w\<rparr>\<rparr>" and ?b = "encoding_bytes (LineEncoding d)"
  have su: "Endpoint_IsSETUPReceived bio s = (True, ?s1)" using cb.flags(1) [of s] assms(1,3) w by simp
  have "7 \<le> unat (wLength req)" using assms(6) by (simp add: word_le_nat_alt)
  then have l: "take (unat (wLength req)) ?b = ?b" "wLength req \<noteq> 0" "?b \<noteq> []"
    by (auto simp: encoding_round_trip(2) simp flip: length_0_conv)
  have pk: "packets (unat (wLength req)) ?b = [?b]" by (subst packets.simps) (simp add: encoding_round_trip(2))
  obtain e c1 d1 where c1: "Endpoint_Write_Control_Stream_LE bio req ?b (Endpoint_ClearSETUP bio ?s1) =
      Some (e, s\<lparr>dctl := c1\<rparr>)" "Endpoint_ClearOUT bio (s\<lparr>dctl := c1\<rparr>) = s\<lparr>dctl := d1\<rparr>" "c_host d1 = H_Done"
    "c_got d1 = c_got (dctl s) @ [?b]"
    using cb.reply [of ?s1 req ?b] assms(1-5) l pk by auto
  have "CDC_Device_ProcessControlRequest bio ev c req d s = Some (d, s\<lparr>dctl := d1\<rparr>)"
    using assms(7-9) by (simp add: CDC_Device_ProcessControlRequest_def su c1)
  then show ?thesis using c1 by (intro exI [of _ "s\<lparr>dctl := d1\<rparr>"] exI [of _ ?b]) (simp add: encoding_round_trip)
qed

theorem get_line_encoding_request_witness:
  "\<exists>t p. CDC_Device_ProcessControlRequest bio plain_events serial_port
      \<lparr>bmRequestType = 0xA1, bRequest = 0x21, wValue = 0, wIndex = 0, wLength = 7\<rparr> port_9600
      (asking_board \<lparr>bmRequestType = 0xA1, bRequest = 0x21, wValue = 0, wIndex = 0, wLength = 7\<rparr> (H_In 7)) = Some (port_9600, t) \<and>
    c_got (dctl t) = [p] \<and> BaudRateBPS (encoding_of p) = 9600"
proof -
  let ?r = "\<lparr>bmRequestType = 0xA1, bRequest = 0x21, wValue = 0, wIndex = 0, wLength = 7\<rparr> :: USB_Request_Header_t"
  have "uenum (dusb (asking_board ?r h)) = 0" "dev_state (dusb (asking_board ?r h)) \<noteq> 0" "c_setup (dctl (asking_board ?r h))"
    "\<not> c_out (dctl (asking_board ?r h))" "c_host (dctl (asking_board ?r h)) = h" "c_got (dctl (asking_board ?r h)) = []" for h
    by (simp_all add: asking_board_def waiting_board_def)
  from get_line_encoding_request [OF this(1-5), where req = ?r and c = serial_port and ev = plain_events and d = port_9600] this(6) show ?thesis
    by (force simp: serial_port_def port_9600_def)
qed

end
