(* ===== verification/Hid_Device.thy ===== *)
theory Hid_Device
  imports Endpoint Class_Common
begin

text \<open>
  The device-mode HID class driver, \<open>LUFA/Drivers/USB/Class/Device/HID.c\<close> and \<open>HID.h\<close>: reports on
  request and on change, the idle period, and the two protocols.  The application's callbacks are
  parameters.  \<open>None\<close> stands for a function that does not return or that leaves a buffer.
\<close>

section \<open>The interface structure\<close>

record HID_Config =
  InterfaceNumber :: u8
  ReportINEndpointNumber :: u8
  ReportINEndpointSize :: u16
  ReportINEndpointDoubleBank :: bool
  PrevReportINBufferSize :: u8

text \<open>The buffer of the previous report is \<open>None\<close> for a null pointer.\<close>

record HID_State =
  UsingReportProtocol :: bool
  IdleCount :: u16
  IdleMSRemaining :: u16
  PrevReportINBuffer :: "u8 list option"

text \<open>
  \<open>CALLBACK_HID_Device_CreateHIDReport\<close> takes the report ID, the report type and the buffer, and
  gives the force flag, the report ID, the report size and the buffer.
\<close>

record 'h hid_callbacks =
  CreateHIDReport :: "HID_State \<Rightarrow> u8 \<Rightarrow> u8 \<Rightarrow> u8 list \<Rightarrow> 'h \<Rightarrow> HID_State \<times> bool \<times> u8 \<times> u16 \<times> u8 list \<times> 'h"
  ProcessHIDReport :: "HID_State \<Rightarrow> u8 \<Rightarrow> u8 list \<Rightarrow> 'h \<Rightarrow> HID_State \<times> 'h"

abbreviation (input) REPORT_TYPE_In :: u8 where "REPORT_TYPE_In \<equiv> 0"

definition front :: "u16 \<Rightarrow> u8 list \<Rightarrow> u8 list option" where
  "front n buf = (if unat n \<le> length buf then Some (take (unat n) buf) else None)"

section \<open>Control requests\<close>

definition hid_get_report ::
    "'h mmio \<Rightarrow> 'h hid_callbacks \<Rightarrow> HID_Config \<Rightarrow> USB_Request_Header_t \<Rightarrow> HID_State \<Rightarrow> 'h \<Rightarrow> (HID_State \<times> 'h) option" where
  "hid_get_report io cb c req d s =
     do {
       let s = Endpoint_ClearSETUP io s;
       let ReportID = ucast (wValue req AND 0xFF);
       let ReportType = ucast (drop_bit 8 (wValue req)) - 1;
       buf \<leftarrow> PrevReportINBuffer d;
       let buf = replicate (unat (PrevReportINBufferSize c)) 0;
       let (d, force, ReportID, ReportINSize, buf, s) = CreateHIDReport cb d ReportID ReportType buf s;
       let d = d\<lparr>PrevReportINBuffer := Some buf\<rparr>;
       let s = Endpoint_SelectEndpoint io ENDPOINT_CONTROLEP s;
       report \<leftarrow> front ReportINSize buf;
       (e, s) \<leftarrow> Endpoint_Write_Control_Stream_LE io req report s;
       Some (d, Endpoint_ClearOUT io s)
     }"

text \<open>The array on the stack is not initialised: \<open>stack\<close> is what it holds.\<close>

definition hid_set_report ::
    "'h mmio \<Rightarrow> 'h hid_callbacks \<Rightarrow> (nat \<Rightarrow> u8) \<Rightarrow> USB_Request_Header_t \<Rightarrow> HID_State \<Rightarrow> 'h \<Rightarrow> (HID_State \<times> 'h) option" where
  "hid_set_report io cb stack req d s =
     do {
       let s = Endpoint_ClearSETUP io s;
       let ReportOUTSize = unat (wLength req);
       let ReportID = ucast (wValue req AND 0xFF);
       ((e, got), s) \<leftarrow> Endpoint_Read_Control_Stream_LE io ReportOUTSize s;
       let s = Endpoint_ClearIN io s;
       Some (ProcessHIDReport cb d ReportID (got @ map stack [length got..<ReportOUTSize]) s)
     }"

definition hid_reply_byte :: "'h mmio \<Rightarrow> USB_Request_Header_t \<Rightarrow> u8 \<Rightarrow> 'h \<Rightarrow> 'h option" where
  "hid_reply_byte io req b s =
     (let s = Endpoint_ClearSETUP io s;
          s = Endpoint_Write_Byte io b s;
          s = Endpoint_ClearIN io s
      in Endpoint_ClearStatusStage io req s)"

definition HID_Device_ProcessControlRequest ::
    "'h mmio \<Rightarrow> 'h hid_callbacks \<Rightarrow> (nat \<Rightarrow> u8) \<Rightarrow> HID_Config \<Rightarrow> USB_Request_Header_t \<Rightarrow> HID_State \<Rightarrow> 'h \<Rightarrow>
     (HID_State \<times> 'h) option" where
  "HID_Device_ProcessControlRequest io cb stack c req d s =
     (let (setup, s) = Endpoint_IsSETUPReceived io s;
          to_host = (bmRequestType req = CLASS_IN); to_device = (bmRequestType req = CLASS_OUT)
      in if \<not> setup then Some (d, s)
      else if wIndex req \<noteq> ucast (InterfaceNumber c) then Some (d, s)
      else if bRequest req = REQ_GetReport then
        (if to_host then hid_get_report io cb c req d s else Some (d, s))
      else if bRequest req = REQ_SetReport then
        (if to_device then hid_set_report io cb stack req d s else Some (d, s))
      else if bRequest req = REQ_GetProtocol then
        (if to_host then map_option (Pair d) (hid_reply_byte io req (if UsingReportProtocol d then 1 else 0) s)
         else Some (d, s))
      else if bRequest req = REQ_SetProtocol then
        (if to_device then
           map_option (Pair (d\<lparr>UsingReportProtocol := (wValue req AND 0xFF \<noteq> 0)\<rparr>))
             (Endpoint_ClearStatusStage io req (Endpoint_ClearSETUP io s))
         else Some (d, s))
      else if bRequest req = REQ_SetIdle then
        (if to_device then
           map_option (Pair (d\<lparr>IdleCount := drop_bit 6 (wValue req AND 0xFF00)\<rparr>))
             (Endpoint_ClearStatusStage io req (Endpoint_ClearSETUP io s))
         else Some (d, s))
      else if bRequest req = REQ_GetIdle then
        (if to_host then map_option (Pair d) (hid_reply_byte io req (ucast (drop_bit 2 (IdleCount d))) s)
         else Some (d, s))
      else Some (d, s))"

section \<open>Configuration and the report task\<close>

definition HID_Device_ConfigureEndpoints :: "'h mmio \<Rightarrow> HID_Config \<Rightarrow> HID_State \<Rightarrow> 'h \<Rightarrow> (bool \<times> HID_State \<times> 'h) option" where
  "HID_Device_ConfigureEndpoints io c d s =
     do {
       let d = d\<lparr>UsingReportProtocol := True, IdleCount := 500, IdleMSRemaining := 0\<rparr>;
       (ok, s) \<leftarrow> Endpoint_ConfigureEndpoint io (ReportINEndpointNumber c) 3 ENDPOINT_DIR_IN (ReportINEndpointSize c)
                    (if ReportINEndpointDoubleBank c then ENDPOINT_BANK_DOUBLE else ENDPOINT_BANK_SINGLE) s;
       if \<not> ok then Some (False, d, s) else Some (True, d, s)
     }"

definition HID_Device_MillisecondElapsed :: "HID_State \<Rightarrow> HID_State" where
  "HID_Device_MillisecondElapsed d =
     (if IdleMSRemaining d \<noteq> 0 then d\<lparr>IdleMSRemaining := IdleMSRemaining d - 1\<rparr> else d)"

text \<open>\<open>memcmp\<close> and \<open>memcpy\<close> with the previous report, if there is a buffer for it.\<close>

definition compare_report :: "u16 \<Rightarrow> u8 list \<Rightarrow> HID_State \<Rightarrow> (bool \<times> HID_State) option" where
  "compare_report ReportINSize ReportINData d =
     (case PrevReportINBuffer d of
        None \<Rightarrow> Some (False, d)
      | Some prev \<Rightarrow>
          do {
            new \<leftarrow> front ReportINSize ReportINData;
            old \<leftarrow> front ReportINSize prev;
            Some (new \<noteq> old, d\<lparr>PrevReportINBuffer := Some (new @ drop (unat ReportINSize) prev)\<rparr>)
          })"

definition HID_Device_USBTask ::
    "'h mmio \<Rightarrow> 'h hid_callbacks \<Rightarrow> HID_Config \<Rightarrow> HID_State \<Rightarrow> 'h \<Rightarrow> (HID_State \<times> 'h) option" where
  "HID_Device_USBTask io cb c d s =
     (let (configured, s) = device_state_is io DEVICE_STATE_Configured s
      in if \<not> configured then Some (d, s)
      else
        let s = Endpoint_SelectEndpoint io (ReportINEndpointNumber c) s;
            (allowed, s) = Endpoint_IsReadWriteAllowed io s
        in if \<not> allowed then Some (d, s)
        else do {
          let ReportINData = replicate (unat (PrevReportINBufferSize c)) 0;
          let (d, ForceSend, ReportID, ReportINSize, ReportINData, s) =
            CreateHIDReport cb d 0 REPORT_TYPE_In ReportINData s;
          let IdlePeriodElapsed = (IdleCount d \<noteq> 0 \<and> IdleMSRemaining d = 0);
          (StatesChanged, d) \<leftarrow> compare_report ReportINSize ReportINData d;
          if ReportINSize \<noteq> 0 \<and> (ForceSend \<or> StatesChanged \<or> IdlePeriodElapsed) then
            do {
              let d = d\<lparr>IdleMSRemaining := IdleCount d\<rparr>;
              let s = Endpoint_SelectEndpoint io (ReportINEndpointNumber c) s;
              let s = (if ReportID \<noteq> 0 then Endpoint_Write_Byte io ReportID s else s);
              report \<leftarrow> front ReportINSize ReportINData;
              (e, s) \<leftarrow> Endpoint_Write_Stream_LE io None report s;
              Some (d, Endpoint_ClearIN io s)
            }
          else Some (d, s)
        })"

end
