(* ===== verification/Hid_Device_Props.thy ===== *)
theory Hid_Device_Props
  imports Cdc_Props Hid_Device
begin

text \<open>
  The HID class driver on the board: when a report is sent and what the host receives, the idle
  period, and the requests that set and read it.
\<close>

section \<open>Reports\<close>

context usb_bus
begin

lemma write_fits:
  assumes "in_open (get s)" "length (fifo (cur (get s))) + length bytes \<le> ep_size (get s)"
  shows "write_stream_loop io cb bytes s = Some (EP_NoError, put (upd_cur (\<lambda>e. e\<lparr>fifo := fifo e @ bytes\<rparr>) (get s)) s)"
  using assms
proof (induction bytes arbitrary: s)
  case Nil
  have "upd_cur (\<lambda>e. e) u = u" for u by (simp add: upd_cur_def cur_def)
  then show ?case by (subst write_stream_loop.simps) (simp add: put_get)
next
  case (Cons b bytes)
  let ?u = "upd_cur (\<lambda>e. e\<lparr>fifo := fifo e @ [b]\<rparr>) (get s)"
  have l: "length (fifo (cur (get s))) < ep_size (get s)" using Cons.prems(2) by simp
  have "in_open ?u" using Cons.prems by (simp add: in_open_def attached_def bank_ready_def)
  then have "write_stream_loop io cb bytes (put ?u s) =
      Some (EP_NoError, put (upd_cur (\<lambda>e. e\<lparr>fifo := fifo e @ bytes\<rparr>) ?u) s)"
    using Cons.IH [of "put ?u s"] Cons.prems(2) by (simp add: get_put put_put)
  then show ?case
    using put_byte [OF Cons.prems(1) l] by (subst write_stream_loop.simps) (simp add: upd_upd)
qed

text \<open>A whole packet: some bytes, the stream, and the release of the bank.\<close>

lemma send_packet:
  assumes "in_open (get s)" "length (fifo (cur (get s))) + length bytes \<le> ep_size (get s)"
  shows "\<exists>v. Endpoint_Write_Stream_LE io None bytes s = Some (EP_NoError, put v s) \<and>
    Endpoint_ClearIN io (put v s) = put (next_bank v) s \<and> usb_frame (get s) (next_bank v) \<and>
    queue (cur (next_bank v)) = queue (cur (get s)) @ [fifo (cur (get s)) @ bytes] \<and> fifo (cur (next_bank v)) = []"
proof -
  have a: "attached (get s)" "bank (cur (get s))" "delay (cur (get s)) = 0" "ep_in (cur (get s))"
    using assms(1) by (simp_all add: in_open_def bank_ready_def)
  obtain v where v: "Endpoint_WaitUntilReady io s = Some (EP_NoError, put v s)" "usb_frame (get s) v"
    "cur v = (cur (get s))\<lparr>delay := 0\<rparr>" using wait_ready [OF a(1,2)] by blast
  have c: "cur v = cur (get s)" using v(3) a(3) by (cases "cur (get s)") simp
  note fv = frame_cur [OF v(2)]
  have o: "in_open v" using assms(1) c fv by (simp add: in_open_def attached_def)
  let ?w = "upd_cur (\<lambda>e. e\<lparr>fifo := fifo e @ bytes\<rparr>) v"
  have "write_stream_loop io None bytes (put v s) = Some (EP_NoError, put ?w s)"
    using write_fits [of "put v s" bytes] o assms(2) c fv by (simp add: get_put put_put)
  then have st: "Endpoint_Write_Stream_LE io None bytes s = Some (EP_NoError, put ?w s)"
    using v(1) by (simp add: Endpoint_Write_Stream_LE_def Endpoint_Write_Stream_def)
  have r: "uenum ?w \<noteq> 0" "bank_ready (cur ?w)" using o by (simp_all add: in_open_def attached_def bank_ready_def)
  then have "Endpoint_ClearIN io (put ?w s) = put (next_bank ?w) s"
    using clear_bank(2) [of "put ?w s"] by (simp add: get_put put_put)
  moreover have "usb_frame (get s) (next_bank ?w)"
    using v(2) by (rule usb_frame_trans) (rule usb_frame_trans [of _ ?w], simp_all add: next_bank_def)
  ultimately show ?thesis
    using st c a(4) by (intro exI [of _ ?w]) (simp add: next_bank_def release_def)
qed

end

text \<open>What the application has produced, and whether it is due.\<close>

definition report_due :: "bool \<Rightarrow> u16 \<Rightarrow> u8 list \<Rightarrow> u8 list \<Rightarrow> HID_State \<Rightarrow> bool" where
  "report_due ForceSend ReportINSize buf old d \<longleftrightarrow> ReportINSize \<noteq> 0 \<and>
     (ForceSend \<or> take (unat ReportINSize) buf \<noteq> take (unat ReportINSize) old \<or> IdleCount d \<noteq> 0 \<and> IdleMSRemaining d = 0)"

lemma hid_task:
  assumes "dev_state (dusb s) = DEVICE_STATE_Configured" "ReportINEndpointNumber c = k" "k \<le> 7"
    "in_open ((dusb s)\<lparr>uenum := k\<rparr>)" "fifo (ep (dusb s) k) = []"
    "CreateHIDReport cb d 0 REPORT_TYPE_In (replicate (unat (PrevReportINBufferSize c)) 0) (s\<lparr>dusb := (dusb s)\<lparr>uenum := k\<rparr>\<rparr>) =
       (d', ForceSend, rid, n, buf, s')" "dusb s' = (dusb s)\<lparr>uenum := m\<rparr>"
    "PrevReportINBuffer d' = Some old" "unat n \<le> length buf" "unat n \<le> length old"
    "(if rid = 0 then 0 else 1) + unat n \<le> ep_size (dusb s)"
  shows "\<exists>t. HID_Device_USBTask bio cb c d s = Some (d'\<lparr>PrevReportINBuffer := Some (take (unat n) buf @ drop (unat n) old),
        IdleMSRemaining := (if report_due ForceSend n buf old d' then IdleCount d' else IdleMSRemaining d')\<rparr>, t) \<and>
    fifo (ep (dusb t) k) = [] \<and> queue (ep (dusb t) k) = queue (ep (dusb s) k) @
      (if report_due ForceSend n buf old d' then [(if rid = 0 then [] else [rid]) @ take (unat n) buf] else [])"
proof -
  let ?u = "(dusb s)\<lparr>uenum := k\<rparr>" and ?p = "take (unat n) buf"
  have po: "device_state_is bio DEVICE_STATE_Configured s = (True, s)" using ub.dev_state [of _ s] assms(1) by simp
  have sl: "Endpoint_SelectEndpoint bio k s = s\<lparr>dusb := ?u\<rparr>" "Endpoint_SelectEndpoint bio k s' = s'\<lparr>dusb := ?u\<rparr>"
    using ub.select [OF assms(3)] assms(7) by simp_all
  have u: "uenum ?u \<noteq> 0" "ep_in (cur ?u)" "bank_ready (cur ?u)" "0 < ep_size (dusb s)"
    using assms(4) by (simp_all add: in_open_def attached_def)
  have al: "Endpoint_IsReadWriteAllowed bio (s\<lparr>dusb := ?u\<rparr>) = (True, s\<lparr>dusb := ?u\<rparr>)"
    using ub.rwa [of "s\<lparr>dusb := ?u\<rparr>"] u assms(5) by (simp add: poll_ready)
  have cr: "compare_report n buf d' = Some (?p \<noteq> take (unat n) old, d'\<lparr>PrevReportINBuffer := Some (?p @ drop (unat n) old)\<rparr>)"
    using assms(8-10) by (simp add: compare_report_def front_def)
  have fr: "front n buf = Some ?p" using assms(9) by (simp add: front_def)
  show ?thesis
  proof (cases "report_due ForceSend n buf old d'")
    case False
    have d: "d'\<lparr>PrevReportINBuffer := b, IdleMSRemaining := IdleMSRemaining d'\<rparr> = d'\<lparr>PrevReportINBuffer := b\<rparr>" for b
      by (cases d') simp
    have "HID_Device_USBTask bio cb c d s = Some (d'\<lparr>PrevReportINBuffer := Some (?p @ drop (unat n) old)\<rparr>, s')"
      unfolding HID_Device_USBTask_def po using False [unfolded report_due_def] assms(2)
      by (auto simp: sl al assms(6) cr)
    then show ?thesis using False assms(5,7) d by (intro exI [of _ s']) simp
  next
    case True
    let ?v = "if rid = 0 then ?u else upd_cur (\<lambda>e. e\<lparr>fifo := [rid]\<rparr>) ?u"
    have idw: "(if rid \<noteq> 0 then Endpoint_Write_Byte bio rid (s'\<lparr>dusb := ?u\<rparr>) else s'\<lparr>dusb := ?u\<rparr>) = s'\<lparr>dusb := ?v\<rparr>"
      using ub.put_byte(2) [of "s'\<lparr>dusb := ?u\<rparr>" rid] assms(4,5) u(4) by (simp add: upd_cur_def cur_def)
    have v: "in_open ?v" "fifo (cur ?v) = (if rid = 0 then [] else [rid])" "queue (cur ?v) = queue (ep (dusb s) k)"
      "ep_size ?v = ep_size (dusb s)" "uenum ?v = k"
      using assms(4,5) u(4) by (simp_all add: in_open_def attached_def bank_ready_def)
    have fit: "length (fifo (cur ?v)) + length ?p \<le> ep_size ?v"
      unfolding v(2,4) using assms(9,11) by (cases "rid = 0") simp_all
    obtain w where w: "Endpoint_Write_Stream_LE bio None ?p (s'\<lparr>dusb := ?v\<rparr>) = Some (EP_NoError, s'\<lparr>dusb := w\<rparr>)"
      "Endpoint_ClearIN bio (s'\<lparr>dusb := w\<rparr>) = s'\<lparr>dusb := next_bank w\<rparr>" "usb_frame ?v (next_bank w)"
      "queue (cur (next_bank w)) = queue (cur ?v) @ [fifo (cur ?v) @ ?p]" "fifo (cur (next_bank w)) = []"
      using ub.send_packet [of "s'\<lparr>dusb := ?v\<rparr>" ?p] v(1) fit by auto
    have cw: "cur (next_bank w) = ep (next_bank w) k" using frame_cur [OF w(3)] v(5) by (simp add: cur_def)
    have "HID_Device_USBTask bio cb c d s = Some (d'\<lparr>PrevReportINBuffer := Some (?p @ drop (unat n) old),
        IdleMSRemaining := IdleCount d'\<rparr>, s'\<lparr>dusb := next_bank w\<rparr>)"
      unfolding HID_Device_USBTask_def po using True [unfolded report_due_def] assms(2)
      by (auto simp: sl al assms(6) cr fr idw w(1,2))
    then show ?thesis using True w(4,5) v(2,3) cw by (intro exI [of _ "s'\<lparr>dusb := next_bank w\<rparr>"]) simp
  qed
qed

text \<open>
  C19. A report goes to the host exactly when the application forces it, its bytes differ from the
  previous report, or the idle period has run out; it goes as one packet, with its report ID in front
  if it has one; the report is remembered and the idle period starts anew only when it is sent.
\<close>

theorem hid_report_sent_when_due:
  assumes "dev_state (dusb s) = DEVICE_STATE_Configured" "ReportINEndpointNumber c = k" "k \<le> 7"
    "in_open ((dusb s)\<lparr>uenum := k\<rparr>)" "fifo (ep (dusb s) k) = []"
    "CreateHIDReport cb d 0 REPORT_TYPE_In (replicate (unat (PrevReportINBufferSize c)) 0) (s\<lparr>dusb := (dusb s)\<lparr>uenum := k\<rparr>\<rparr>) =
       (d', ForceSend, rid, n, buf, s')" "dusb s' = (dusb s)\<lparr>uenum := m\<rparr>"
    "PrevReportINBuffer d' = Some old" "unat n \<le> length buf" "unat n \<le> length old"
    "(if rid = 0 then 0 else 1) + unat n \<le> ep_size (dusb s)"
  shows "\<exists>d2 t. HID_Device_USBTask bio cb c d s = Some (d2, t) \<and>
    PrevReportINBuffer d2 = Some (take (unat n) buf @ drop (unat n) old) \<and>
    (if n \<noteq> 0 \<and> (ForceSend \<or> take (unat n) buf \<noteq> take (unat n) old \<or> IdleCount d' \<noteq> 0 \<and> IdleMSRemaining d' = 0)
     then queue (ep (dusb t) k) = queue (ep (dusb s) k) @ [(if rid = 0 then [] else [rid]) @ take (unat n) buf] \<and>
       IdleMSRemaining d2 = IdleCount d'
     else queue (ep (dusb t) k) = queue (ep (dusb s) k) \<and> IdleMSRemaining d2 = IdleMSRemaining d')"
proof -
  let ?due = "report_due ForceSend n buf old d'"
  obtain t where t: "HID_Device_USBTask bio cb c d s = Some (d'\<lparr>PrevReportINBuffer := Some (take (unat n) buf @ drop (unat n) old),
        IdleMSRemaining := (if ?due then IdleCount d' else IdleMSRemaining d')\<rparr>, t)"
    "queue (ep (dusb t) k) = queue (ep (dusb s) k) @ (if ?due then [(if rid = 0 then [] else [rid]) @ take (unat n) buf] else [])"
    using hid_task [OF assms] by blast
  have due: "(n \<noteq> 0 \<and> (ForceSend \<or> take (unat n) buf \<noteq> take (unat n) old \<or> IdleCount d' \<noteq> 0 \<and> IdleMSRemaining d' = 0)) = ?due"
    by (simp add: report_due_def)
  show ?thesis unfolding due
    using t by (cases ?due) auto
qed

text \<open>A mouse with a report of two bytes that never change, on endpoint 3.\<close>

definition mouse_port :: HID_Config where
  "mouse_port = \<lparr>InterfaceNumber = 0, ReportINEndpointNumber = 3, ReportINEndpointSize = 8, ReportINEndpointDoubleBank = False,
     PrevReportINBufferSize = 2\<rparr>"

definition resting_mouse :: "board hid_callbacks" where
  "resting_mouse = \<lparr>CreateHIDReport = (\<lambda>d rid type buf s. (d, False, 0, 2, [1, 0], s)), ProcessHIDReport = (\<lambda>d rid bs s. (d, s))\<rparr>"

definition mouse_state :: "u16 \<Rightarrow> u8 list \<Rightarrow> HID_State" where
  "mouse_state remaining prev = \<lparr>UsingReportProtocol = True, IdleCount = 500, IdleMSRemaining = remaining, PrevReportINBuffer = Some prev\<rparr>"

theorem hid_report_sent_when_due_witness:
  "\<exists>d2 t. HID_Device_USBTask bio resting_mouse mouse_port (mouse_state 7 [0, 0]) (waiting_board [] []) = Some (d2, t) \<and>
    queue (ep (dusb t) 3) = [[1, 0]] \<and> IdleMSRemaining d2 = 500"
proof -
  let ?s = "waiting_board [] []" and ?d = "mouse_state 7 [0, 0]"
  have c: "ReportINEndpointNumber mouse_port = 3" "(3 :: u8) \<le> 7" by (simp_all add: mouse_port_def)
  have cb: "CreateHIDReport resting_mouse ?d 0 REPORT_TYPE_In (replicate (unat (PrevReportINBufferSize mouse_port)) 0)
      (?s\<lparr>dusb := (dusb ?s)\<lparr>uenum := 3\<rparr>\<rparr>) = (?d, False, 0, 2, [1, 0], ?s\<lparr>dusb := (dusb ?s)\<lparr>uenum := 3\<rparr>\<rparr>)"
    by (simp add: resting_mouse_def)
  have r: "dusb (?s\<lparr>dusb := (dusb ?s)\<lparr>uenum := 3\<rparr>\<rparr>) = (dusb ?s)\<lparr>uenum := 3\<rparr>" "PrevReportINBuffer ?d = Some [0, 0]"
    "unat (2 :: u16) \<le> length [1, 0 :: u8]" "unat (2 :: u16) \<le> length [0, 0 :: u8]"
    "(if (0 :: u8) = 0 then 0 else 1) + unat (2 :: u16) \<le> ep_size (dusb ?s)"
    by (simp_all add: mouse_state_def quiet_board)
  show ?thesis
    using hid_report_sent_when_due [OF quiet_board(1) c quiet_board(3,4) cb r]
    by (auto simp: quiet_board mouse_state_def)
qed

section \<open>The idle period\<close>

lemma idle_count_down:
  "IdleMSRemaining ((HID_Device_MillisecondElapsed ^^ j) d) = of_nat (unat (IdleMSRemaining d) - j) \<and>
   IdleCount ((HID_Device_MillisecondElapsed ^^ j) d) = IdleCount d \<and>
   PrevReportINBuffer ((HID_Device_MillisecondElapsed ^^ j) d) = PrevReportINBuffer d"
proof (induction j)
  case (Suc j)
  let ?d = "(HID_Device_MillisecondElapsed ^^ j) d" and ?m = "unat (IdleMSRemaining d) - j"
  have u: "unat (of_nat ?m :: u16) = ?m"
    using unsigned_less [where 'a = nat, of "IdleMSRemaining d"] by (simp add: unat_of_nat take_bit_nat_eq_self)
  show ?case
  proof (cases "?m = 0")
    case True
    then show ?thesis using Suc by (simp add: HID_Device_MillisecondElapsed_def)
  next
    case False
    then have "(of_nat ?m :: u16) \<noteq> 0" using u by (metis unsigned_0)
    moreover have "(of_nat ?m :: u16) - 1 = of_nat (unat (IdleMSRemaining d) - Suc j)"
    proof -
      have "?m = Suc (unat (IdleMSRemaining d) - Suc j)" using False by simp
      then show ?thesis by simp
    qed
    ultimately show ?thesis using Suc by (simp add: HID_Device_MillisecondElapsed_def)
  qed
qed simp

text \<open>
  After a report has been sent, the same report, if the application does not force it, is sent
  again as soon as the idle period has passed and not a millisecond earlier, and never again when
  the host has set the idle period to zero.
\<close>

theorem hid_idle_period:
  assumes "dev_state (dusb s) = DEVICE_STATE_Configured" "ReportINEndpointNumber c = k" "k \<le> 7"
    "in_open ((dusb s)\<lparr>uenum := k\<rparr>)" "fifo (ep (dusb s) k) = []"
    "\<And>d s. CreateHIDReport cb d 0 REPORT_TYPE_In (replicate (unat (PrevReportINBufferSize c)) 0) s = (d, False, 0, n, buf, s)"
    "n \<noteq> 0" "unat n = length buf" "length buf \<le> ep_size (dusb s)"
    "PrevReportINBuffer d = Some buf" "IdleMSRemaining d = IdleCount d"
  shows "\<exists>d2 t. HID_Device_USBTask bio cb c ((HID_Device_MillisecondElapsed ^^ j) d) s = Some (d2, t) \<and>
    queue (ep (dusb t) k) = queue (ep (dusb s) k) @ (if IdleCount d \<noteq> 0 \<and> unat (IdleCount d) \<le> j then [buf] else [])"
proof -
  let ?d = "(HID_Device_MillisecondElapsed ^^ j) d"
  have i: "IdleMSRemaining ?d = of_nat (unat (IdleCount d) - j)" "IdleCount ?d = IdleCount d" "PrevReportINBuffer ?d = Some buf"
    using idle_count_down [of j d] assms(10,11) by simp_all
  have "unat (of_nat (unat (IdleCount d) - j) :: u16) = unat (IdleCount d) - j"
    using unsigned_less [where 'a = nat, of "IdleCount d"] by (simp add: unat_of_nat take_bit_nat_eq_self)
  then have z: "IdleMSRemaining ?d = 0 \<longleftrightarrow> unat (IdleCount d) \<le> j"
    using unat_eq_0 [of "IdleMSRemaining ?d"] unfolding i(1) by simp
  have due: "report_due False n buf buf ?d \<longleftrightarrow> IdleCount d \<noteq> 0 \<and> unat (IdleCount d) \<le> j"
    using assms(7) i(2) z by (simp add: report_due_def)
  have r: "dusb (s\<lparr>dusb := (dusb s)\<lparr>uenum := k\<rparr>\<rparr>) = (dusb s)\<lparr>uenum := k\<rparr>" "unat n \<le> length buf"
    "(if (0 :: u8) = 0 then 0 else 1) + unat n \<le> ep_size (dusb s)" using assms(8,9) by simp_all
  show ?thesis
    using hid_task [OF assms(1-5,6) r(1) i(3) r(2) r(2) r(3)] due assms(8) by auto
qed

theorem hid_idle_period_witness:
  "\<exists>d2 t. HID_Device_USBTask bio resting_mouse mouse_port ((HID_Device_MillisecondElapsed ^^ 500) (mouse_state 500 [1, 0]))
      (waiting_board [] []) = Some (d2, t) \<and> queue (ep (dusb t) 3) = [[1, 0]]"
proof -
  let ?s = "waiting_board [] []" and ?d = "mouse_state 500 [1, 0]"
  have c: "ReportINEndpointNumber mouse_port = 3" "(3 :: u8) \<le> 7" by (simp_all add: mouse_port_def)
  have r: "(2 :: u16) \<noteq> 0" "unat (2 :: u16) = length [1, 0 :: u8]" "length [1, 0 :: u8] \<le> ep_size (dusb ?s)"
    "PrevReportINBuffer ?d = Some [1, 0]" "IdleMSRemaining ?d = IdleCount ?d"
    by (simp_all add: mouse_state_def quiet_board)
  have cb: "CreateHIDReport resting_mouse d 0 REPORT_TYPE_In (replicate (unat (PrevReportINBufferSize mouse_port)) 0) s =
      (d, False, 0, 2, [1, 0], s)" for d s
    by (simp add: resting_mouse_def)
  have i: "IdleCount ?d = 500" by (simp add: mouse_state_def)
  show ?thesis
    using hid_idle_period [OF quiet_board(1) c quiet_board(3,4) cb r, of 500] by (simp add: quiet_board i)
qed

section \<open>Setting and reading the idle period\<close>

context ctl_bus
begin

lemma reply_byte:
  assumes "sel s" "dstate s \<noteq> 0" "c_setup (get s)" "\<not> c_out (get s)" "c_host (get s) = H_In r" "bmRequestType req AND 0x80 \<noteq> 0"
  shows "\<exists>c. hid_reply_byte io req b s = Some (put c s) \<and> c_host c = H_Done \<and> c_got c = c_got (get s) @ [[b]] \<and>
    \<not> c_setup c \<and> c_stall c = c_stall (get s)"
proof -
  let ?c1 = "(get s)\<lparr>c_setup := False, c_rx := [], c_tx := [], c_wait := c_lat (get s), c_in := True\<rparr>"
  have s1: "Endpoint_ClearSETUP io s = put ?c1 s" using assms(1,3-5) by (intro setup_cleared) simp_all
  let ?c2 = "(get s)\<lparr>c_setup := False, c_rx := [], c_wait := c_lat (get s), c_in := True, c_tx := [b]\<rparr>"
  have s2: "Endpoint_Write_Byte io b (put ?c1 s) = put ?c2 s"
    using write_byte [of "put ?c1 s" b] assms(1) by (simp add: laws ctl_wr_def)
  let ?p = "ctl_poll ?c2"
  have p: "c_host ?p = H_In r" "\<not> c_setup ?p" "\<not> c_out ?p" "c_tx ?p = [b]" "c_in ?p" "c_got ?p = c_got (get s)"
    "c_rx ?p = []" "c_stall ?p = c_stall (get s)"
    using assms(4,5) by (auto simp: ctl_poll_def host_act_def)
  let ?c3 = "take_in [b] (?p\<lparr>c_tx := [], c_in := False, c_wait := c_lat ?p\<rparr>)"
  have s3: "Endpoint_ClearIN io (put ?c2 s) = put ?c3 s"
    using assms(1) p by (simp add: clear_in Let_def laws ctl_ack_def bit_ctl_intx bit_and_iff bit_not_iff take_in_def)
  have c3: "at_status (c_got (get s) @ [[b]]) ?c3" "\<not> bit (ctl_intx ?c3) RXOUTI" "c_stall ?c3 = c_stall (get s)"
    using p by (simp_all add: at_status_def take_in_def bit_ctl_intx)
  let ?h = "host_act (?c3\<lparr>c_wait := 0\<rparr>)"
  have h: "at_status (c_got (get s) @ [[b]]) ?h" "c_out ?h" "bit (ctl_intx ?h) RXOUTI" "c_stall ?h = c_stall (get s)"
    using c3 p by (simp_all add: at_status_def host_act_def bit_ctl_intx take_in_def)
  have fw: "flag_wait io RXOUTI (put ?c3 s) = Some (True, put ?h s)"
    using flag_wait [of "put ?c3 s" RXOUTI] assms(1,2) h(3) c3(2) by (auto simp: laws)
  obtain c where c: "Endpoint_ClearOUT io (put ?h s) = put c s" "c_host c = H_Done" "c_got c = c_got (get s) @ [[b]]"
    "\<not> c_setup c" "c_stall c = c_stall (get s)"
    using finish_status [of "put ?h s" "c_got (get s) @ [[b]]"] assms(1) h(1,2,4) by (auto simp: laws)
  have "hid_reply_byte io req b s = Some (put c s)"
    using assms(6) by (simp add: hid_reply_byte_def s1 s2 s3 Endpoint_ClearStatusStage_def fw c(1))
  then show ?thesis using c by blast
qed

end

lemma idle_field: "ucast (drop_bit 2 (drop_bit 6 (w AND 0xFF00))) = (ucast (drop_bit 8 w) :: u8)" for w :: u16
proof (rule bit_word_eqI)
  fix n assume n: "n < LENGTH(8)"
  have "bit (255 :: u16) n \<and> bit (255 :: u8) n"
    using n bit_mask_iff [where 'a = u16, of 8 n] bit_mask_iff [where 'a = u8, of 8 n] by (simp add: mask_numeral)
  with n show "bit (ucast (drop_bit 2 (drop_bit 6 (w AND 0xFF00))) :: u8) n = bit (ucast (drop_bit 8 w) :: u8) n"
    by (auto simp: bit_simps)
qed

text \<open>
  GET_IDLE after SET_IDLE: the host reads back, in units of four milliseconds, the idle rate it has
  set, every value of a byte included, and both transfers are complete.
\<close>

theorem hid_idle_round_trip:
  assumes "uenum (dusb s) = 0" "dev_state (dusb s) \<noteq> 0" "c_setup (dctl s)" "\<not> c_out (dctl s)" "c_host (dctl s) = H_InStatus"
    "bRequest set_idle = REQ_SetIdle" "bmRequestType set_idle = CLASS_OUT" "wIndex set_idle = ucast (InterfaceNumber c)"
    "uenum (dusb u) = 0" "dev_state (dusb u) \<noteq> 0" "c_setup (dctl u)" "\<not> c_out (dctl u)" "c_host (dctl u) = H_In 1"
    "bRequest get_idle = REQ_GetIdle" "bmRequestType get_idle = CLASS_IN" "wIndex get_idle = ucast (InterfaceNumber c)"
  shows "\<exists>d' t t2. HID_Device_ProcessControlRequest bio cb stack c set_idle d s = Some (d', t) \<and> c_host (dctl t) = H_Done \<and>
    HID_Device_ProcessControlRequest bio cb stack c get_idle d' u = Some (d', t2) \<and> c_host (dctl t2) = H_Done \<and>
    c_got (dctl t2) = c_got (dctl u) @ [[ucast (drop_bit 8 (wValue set_idle))]]"
proof -
  let ?d = "d\<lparr>IdleCount := drop_bit 6 (wValue set_idle AND 0xFF00)\<rparr>"
  obtain w where w: "ctl_poll (dctl s) = (dctl s)\<lparr>c_wait := w\<rparr>" using poll_setup [OF assms(3)] by blast
  let ?s = "s\<lparr>dctl := (dctl s)\<lparr>c_wait := w\<rparr>\<rparr>"
  have su: "Endpoint_IsSETUPReceived bio s = (True, ?s)" using cb.flags(1) [of s] assms(1,3) w by simp
  let ?c = "(dctl s)\<lparr>c_wait := c_lat (dctl s), c_setup := False, c_rx := [], c_tx := [], c_in := True\<rparr>"
  have cl: "Endpoint_ClearSETUP bio ?s = s\<lparr>dctl := ?c\<rparr>" using cb.setup_cleared [of ?s] assms(1,3-5) by simp
  have "\<exists>c. Endpoint_ClearStatusStage bio set_idle (s\<lparr>dctl := ?c\<rparr>) = Some (s\<lparr>dctl := c\<rparr>) \<and> c_host c = H_Done"
    using cb.status_in [of "s\<lparr>dctl := ?c\<rparr>" set_idle] assms(1,2,4,5,7) by auto
  then obtain c1 where c1: "Endpoint_ClearStatusStage bio set_idle (s\<lparr>dctl := ?c\<rparr>) = Some (s\<lparr>dctl := c1\<rparr>)" "c_host c1 = H_Done"
    by blast
  have set: "HID_Device_ProcessControlRequest bio cb stack c set_idle d s = Some (?d, s\<lparr>dctl := c1\<rparr>)"
    using assms(6-8) c1(1) by (simp add: HID_Device_ProcessControlRequest_def su cl)
  obtain w2 where w2: "ctl_poll (dctl u) = (dctl u)\<lparr>c_wait := w2\<rparr>" using poll_setup [OF assms(11)] by blast
  let ?u = "u\<lparr>dctl := (dctl u)\<lparr>c_wait := w2\<rparr>\<rparr>"
  have su2: "Endpoint_IsSETUPReceived bio u = (True, ?u)" using cb.flags(1) [of u] assms(9,11) w2 by simp
  obtain c2 where c2: "hid_reply_byte bio get_idle (ucast (drop_bit 2 (IdleCount ?d))) ?u = Some (u\<lparr>dctl := c2\<rparr>)"
    "c_host c2 = H_Done" "c_got c2 = c_got (dctl u) @ [[ucast (drop_bit 2 (IdleCount ?d))]]"
    using cb.reply_byte [of ?u 1 get_idle "ucast (drop_bit 2 (IdleCount ?d))"] assms(9-13,15) by auto
  have get: "HID_Device_ProcessControlRequest bio cb stack c get_idle ?d u = Some (?d, u\<lparr>dctl := c2\<rparr>)"
    using assms(14-16) c2(1) by (simp add: HID_Device_ProcessControlRequest_def su2)
  show ?thesis using set get c1(2) c2(2,3) idle_field [of "wValue set_idle"] by auto
qed

theorem hid_idle_round_trip_witness:
  "\<exists>d' t t2. HID_Device_ProcessControlRequest bio resting_mouse (\<lambda>i. 0) mouse_port
      \<lparr>bmRequestType = 0x21, bRequest = 0x0A, wValue = 0x7D00, wIndex = 0, wLength = 0\<rparr> (mouse_state 0 [0, 0])
      (asking_board \<lparr>bmRequestType = 0x21, bRequest = 0x0A, wValue = 0x7D00, wIndex = 0, wLength = 0\<rparr> H_InStatus) = Some (d', t) \<and>
    HID_Device_ProcessControlRequest bio resting_mouse (\<lambda>i. 0) mouse_port
      \<lparr>bmRequestType = 0xA1, bRequest = 0x02, wValue = 0, wIndex = 0, wLength = 1\<rparr> d'
      (asking_board \<lparr>bmRequestType = 0xA1, bRequest = 0x02, wValue = 0, wIndex = 0, wLength = 1\<rparr> (H_In 1)) = Some (d', t2) \<and>
    c_got (dctl t2) = [[0x7D]]"
proof -
  have b: "uenum (dusb (asking_board r h)) = 0" "dev_state (dusb (asking_board r h)) \<noteq> 0" "c_setup (dctl (asking_board r h))"
    "\<not> c_out (dctl (asking_board r h))" "c_host (dctl (asking_board r h)) = h" "c_got (dctl (asking_board r h)) = []" for r h
    by (simp_all add: asking_board_def waiting_board_def)
  let ?s = "\<lparr>bmRequestType = 0x21, bRequest = 0x0A, wValue = 0x7D00, wIndex = 0, wLength = 0\<rparr> :: USB_Request_Header_t"
  let ?g = "\<lparr>bmRequestType = 0xA1, bRequest = 0x02, wValue = 0, wIndex = 0, wLength = 1\<rparr> :: USB_Request_Header_t"
  have r: "bRequest ?s = REQ_SetIdle" "bmRequestType ?s = CLASS_OUT" "wIndex ?s = ucast (InterfaceNumber mouse_port)"
    "bRequest ?g = REQ_GetIdle" "bmRequestType ?g = CLASS_IN" "wIndex ?g = ucast (InterfaceNumber mouse_port)"
    by (simp_all add: mouse_port_def)
  have v: "ucast (drop_bit 8 (wValue ?s)) = (0x7D :: u8)" by (simp add: drop_bit_eq_div)
  show ?thesis
    using hid_idle_round_trip [where s = "asking_board ?s H_InStatus" and u = "asking_board ?g (H_In 1)" and
        cb = resting_mouse and stack = "\<lambda>i. 0" and d = "mouse_state 0 [0, 0]", OF b(1-5) r(1-3) b(1-5) r(4-6)]
    unfolding v b(6) append_Nil by blast
qed

end
