(* ===== verification/Rndis_Device.thy ===== *)
theory Rndis_Device
  imports Cdc_Device
begin

text \<open>
  The device-mode RNDIS class driver (network adapter), \<open>LUFA/Drivers/USB/Class/Device/RNDIS.c\<close> and
  \<open>RNDIS.h\<close>.  The driver casts its message buffer to many structures and can write behind its end,
  so the whole \<open>State\<close> structure is modelled as the bytes it occupies; the fields are accessed at
  their offsets.  \<open>None\<close> stands for a function that does not return or that leaves the structure.
\<close>

section \<open>The interface structure\<close>

record RNDIS_Config = CDC_Config +
  AdapterVendorDescription :: "u8 list"
  AdapterMACAddress :: "u8 list"

abbreviation (input) RNDIS_MESSAGE_BUFFER_SIZE :: nat where "RNDIS_MESSAGE_BUFFER_SIZE \<equiv> 128"
abbreviation (input) ETHERNET_FRAME_SIZE_MAX :: nat where "ETHERNET_FRAME_SIZE_MAX \<equiv> 1500"

text \<open>Offsets of the members of \<open>State\<close>, and of the members of a frame inside a frame.\<close>

abbreviation (input) o_ResponseReady :: nat where "o_ResponseReady \<equiv> 128"
abbreviation (input) o_CurrRNDISState :: nat where "o_CurrRNDISState \<equiv> 129"
abbreviation (input) o_CurrPacketFilter :: nat where "o_CurrPacketFilter \<equiv> 130"
abbreviation (input) o_FrameIN :: nat where "o_FrameIN \<equiv> 134"
abbreviation (input) o_FrameOUT :: nat where "o_FrameOUT \<equiv> 1637"
abbreviation (input) o_FrameLength :: nat where "o_FrameLength \<equiv> 1500"
abbreviation (input) o_FrameInBuffer :: nat where "o_FrameInBuffer \<equiv> 1502"
abbreviation (input) sizeof_State :: nat where "sizeof_State \<equiv> 3140"

type_synonym rndis = "u8 list"

definition poke :: "nat \<Rightarrow> u8 list \<Rightarrow> rndis \<Rightarrow> rndis option" where
  "poke a bs d = (if a + length bs \<le> length d then Some (take a d @ bs @ drop (a + length bs) d) else None)"

definition peek :: "nat \<Rightarrow> nat \<Rightarrow> rndis \<Rightarrow> u8 list option" where
  "peek a n d = (if a + n \<le> length d then Some (take n (drop a d)) else None)"

text \<open>Stores of 32-bit members, in order.\<close>

fun puts :: "(nat \<times> u32) list \<Rightarrow> rndis \<Rightarrow> rndis option" where
  "puts [] d = Some d"
| "puts ((a, v) # rest) d = Option.bind (poke a (bytes32 v) d) (puts rest)"

abbreviation (input) RNDIS_Uninitialized :: u8 where "RNDIS_Uninitialized \<equiv> 0"
abbreviation (input) RNDIS_Initialized :: u8 where "RNDIS_Initialized \<equiv> 1"
abbreviation (input) RNDIS_Data_Initialized :: u8 where "RNDIS_Data_Initialized \<equiv> 2"

abbreviation (input) REMOTE_NDIS_PACKET_MSG :: u32 where "REMOTE_NDIS_PACKET_MSG \<equiv> 1"
abbreviation (input) REMOTE_NDIS_INITIALIZE_MSG :: u32 where "REMOTE_NDIS_INITIALIZE_MSG \<equiv> 2"
abbreviation (input) REMOTE_NDIS_HALT_MSG :: u32 where "REMOTE_NDIS_HALT_MSG \<equiv> 3"
abbreviation (input) REMOTE_NDIS_QUERY_MSG :: u32 where "REMOTE_NDIS_QUERY_MSG \<equiv> 4"
abbreviation (input) REMOTE_NDIS_SET_MSG :: u32 where "REMOTE_NDIS_SET_MSG \<equiv> 5"
abbreviation (input) REMOTE_NDIS_RESET_MSG :: u32 where "REMOTE_NDIS_RESET_MSG \<equiv> 6"
abbreviation (input) REMOTE_NDIS_KEEPALIVE_MSG :: u32 where "REMOTE_NDIS_KEEPALIVE_MSG \<equiv> 8"
abbreviation (input) REMOTE_NDIS_INITIALIZE_CMPLT :: u32 where "REMOTE_NDIS_INITIALIZE_CMPLT \<equiv> 0x80000002"
abbreviation (input) REMOTE_NDIS_QUERY_CMPLT :: u32 where "REMOTE_NDIS_QUERY_CMPLT \<equiv> 0x80000004"
abbreviation (input) REMOTE_NDIS_SET_CMPLT :: u32 where "REMOTE_NDIS_SET_CMPLT \<equiv> 0x80000005"
abbreviation (input) REMOTE_NDIS_RESET_CMPLT :: u32 where "REMOTE_NDIS_RESET_CMPLT \<equiv> 0x80000006"
abbreviation (input) REMOTE_NDIS_KEEPALIVE_CMPLT :: u32 where "REMOTE_NDIS_KEEPALIVE_CMPLT \<equiv> 0x80000008"
abbreviation (input) REMOTE_NDIS_STATUS_SUCCESS :: u32 where "REMOTE_NDIS_STATUS_SUCCESS \<equiv> 0"
abbreviation (input) REMOTE_NDIS_STATUS_NOT_SUPPORTED :: u32 where "REMOTE_NDIS_STATUS_NOT_SUPPORTED \<equiv> 0xC00000BB"

section \<open>Object identifiers\<close>

abbreviation (input) OID_GEN_SUPPORTED_LIST :: u32 where "OID_GEN_SUPPORTED_LIST \<equiv> 0x00010101"
abbreviation (input) OID_GEN_HARDWARE_STATUS :: u32 where "OID_GEN_HARDWARE_STATUS \<equiv> 0x00010102"
abbreviation (input) OID_GEN_MEDIA_SUPPORTED :: u32 where "OID_GEN_MEDIA_SUPPORTED \<equiv> 0x00010103"
abbreviation (input) OID_GEN_MEDIA_IN_USE :: u32 where "OID_GEN_MEDIA_IN_USE \<equiv> 0x00010104"
abbreviation (input) OID_GEN_MAXIMUM_FRAME_SIZE :: u32 where "OID_GEN_MAXIMUM_FRAME_SIZE \<equiv> 0x00010106"
abbreviation (input) OID_GEN_LINK_SPEED :: u32 where "OID_GEN_LINK_SPEED \<equiv> 0x00010107"
abbreviation (input) OID_GEN_TRANSMIT_BLOCK_SIZE :: u32 where "OID_GEN_TRANSMIT_BLOCK_SIZE \<equiv> 0x0001010A"
abbreviation (input) OID_GEN_RECEIVE_BLOCK_SIZE :: u32 where "OID_GEN_RECEIVE_BLOCK_SIZE \<equiv> 0x0001010B"
abbreviation (input) OID_GEN_VENDOR_ID :: u32 where "OID_GEN_VENDOR_ID \<equiv> 0x0001010C"
abbreviation (input) OID_GEN_VENDOR_DESCRIPTION :: u32 where "OID_GEN_VENDOR_DESCRIPTION \<equiv> 0x0001010D"
abbreviation (input) OID_GEN_CURRENT_PACKET_FILTER :: u32 where "OID_GEN_CURRENT_PACKET_FILTER \<equiv> 0x0001010E"
abbreviation (input) OID_GEN_MAXIMUM_TOTAL_SIZE :: u32 where "OID_GEN_MAXIMUM_TOTAL_SIZE \<equiv> 0x00010111"
abbreviation (input) OID_GEN_MEDIA_CONNECT_STATUS :: u32 where "OID_GEN_MEDIA_CONNECT_STATUS \<equiv> 0x00010114"
abbreviation (input) OID_GEN_PHYSICAL_MEDIUM :: u32 where "OID_GEN_PHYSICAL_MEDIUM \<equiv> 0x00010202"
abbreviation (input) OID_GEN_XMIT_OK :: u32 where "OID_GEN_XMIT_OK \<equiv> 0x00020101"
abbreviation (input) OID_GEN_RCV_OK :: u32 where "OID_GEN_RCV_OK \<equiv> 0x00020102"
abbreviation (input) OID_GEN_XMIT_ERROR :: u32 where "OID_GEN_XMIT_ERROR \<equiv> 0x00020103"
abbreviation (input) OID_GEN_RCV_ERROR :: u32 where "OID_GEN_RCV_ERROR \<equiv> 0x00020104"
abbreviation (input) OID_GEN_RCV_NO_BUFFER :: u32 where "OID_GEN_RCV_NO_BUFFER \<equiv> 0x00020105"
abbreviation (input) OID_802_3_PERMANENT_ADDRESS :: u32 where "OID_802_3_PERMANENT_ADDRESS \<equiv> 0x01010101"
abbreviation (input) OID_802_3_CURRENT_ADDRESS :: u32 where "OID_802_3_CURRENT_ADDRESS \<equiv> 0x01010102"
abbreviation (input) OID_802_3_MULTICAST_LIST :: u32 where "OID_802_3_MULTICAST_LIST \<equiv> 0x01010103"
abbreviation (input) OID_802_3_MAXIMUM_LIST_SIZE :: u32 where "OID_802_3_MAXIMUM_LIST_SIZE \<equiv> 0x01010104"
abbreviation (input) OID_802_3_RCV_ERROR_ALIGNMENT :: u32 where "OID_802_3_RCV_ERROR_ALIGNMENT \<equiv> 0x01020101"
abbreviation (input) OID_802_3_XMIT_ONE_COLLISION :: u32 where "OID_802_3_XMIT_ONE_COLLISION \<equiv> 0x01020102"
abbreviation (input) OID_802_3_XMIT_MORE_COLLISIONS :: u32 where "OID_802_3_XMIT_MORE_COLLISIONS \<equiv> 0x01020103"

definition AdapterSupportedOIDList :: "u32 list" where
  "AdapterSupportedOIDList =
     [OID_GEN_SUPPORTED_LIST, OID_GEN_PHYSICAL_MEDIUM, OID_GEN_HARDWARE_STATUS, OID_GEN_MEDIA_SUPPORTED,
      OID_GEN_MEDIA_IN_USE, OID_GEN_MAXIMUM_FRAME_SIZE, OID_GEN_MAXIMUM_TOTAL_SIZE, OID_GEN_LINK_SPEED,
      OID_GEN_TRANSMIT_BLOCK_SIZE, OID_GEN_RECEIVE_BLOCK_SIZE, OID_GEN_VENDOR_ID, OID_GEN_VENDOR_DESCRIPTION,
      OID_GEN_CURRENT_PACKET_FILTER, OID_GEN_MAXIMUM_TOTAL_SIZE, OID_GEN_MEDIA_CONNECT_STATUS, OID_GEN_XMIT_OK,
      OID_GEN_RCV_OK, OID_GEN_XMIT_ERROR, OID_GEN_RCV_ERROR, OID_GEN_RCV_NO_BUFFER, OID_802_3_PERMANENT_ADDRESS,
      OID_802_3_CURRENT_ADDRESS, OID_802_3_MULTICAST_LIST, OID_802_3_MAXIMUM_LIST_SIZE, OID_802_3_RCV_ERROR_ALIGNMENT,
      OID_802_3_XMIT_ONE_COLLISION, OID_802_3_XMIT_MORE_COLLISIONS]"

section \<open>Queries and sets\<close>

text \<open>The bytes of the response to a query; \<open>None\<close> for an OID that is not supported.\<close>

definition query_response :: "RNDIS_Config \<Rightarrow> rndis \<Rightarrow> u32 \<Rightarrow> u8 list option" where
  "query_response c d OId =
     (if OId = OID_GEN_SUPPORTED_LIST then Some (concat (map bytes32 AdapterSupportedOIDList))
      else if OId = OID_GEN_PHYSICAL_MEDIUM then Some (bytes32 0)
      else if OId = OID_GEN_HARDWARE_STATUS then Some (bytes32 0)
      else if OId = OID_GEN_MEDIA_SUPPORTED \<or> OId = OID_GEN_MEDIA_IN_USE then Some (bytes32 0)
      else if OId = OID_GEN_VENDOR_ID then Some (bytes32 0x00FFFFFF)
      else if OId = OID_GEN_MAXIMUM_FRAME_SIZE \<or> OId = OID_GEN_TRANSMIT_BLOCK_SIZE \<or> OId = OID_GEN_RECEIVE_BLOCK_SIZE then
        Some (bytes32 1500)
      else if OId = OID_GEN_VENDOR_DESCRIPTION then Some (AdapterVendorDescription c @ [0])
      else if OId = OID_GEN_MEDIA_CONNECT_STATUS then Some (bytes32 0)
      else if OId = OID_GEN_LINK_SPEED then Some (bytes32 100000)
      else if OId = OID_802_3_PERMANENT_ADDRESS \<or> OId = OID_802_3_CURRENT_ADDRESS then Some (AdapterMACAddress c)
      else if OId = OID_802_3_MAXIMUM_LIST_SIZE then Some (bytes32 1)
      else if OId = OID_GEN_CURRENT_PACKET_FILTER then Some (bytes32 (peek32 d o_CurrPacketFilter))
      else if OId = OID_GEN_XMIT_OK \<or> OId = OID_GEN_RCV_OK \<or> OId = OID_GEN_XMIT_ERROR \<or> OId = OID_GEN_RCV_ERROR \<or>
              OId = OID_GEN_RCV_NO_BUFFER \<or> OId = OID_802_3_RCV_ERROR_ALIGNMENT \<or> OId = OID_802_3_XMIT_ONE_COLLISION \<or>
              OId = OID_802_3_XMIT_MORE_COLLISIONS then Some (bytes32 0)
      else if OId = OID_GEN_MAXIMUM_TOTAL_SIZE then Some (bytes32 1628)
      else None)"

text \<open>The result, the response size, and the state with the response at \<open>ResponseData\<close>.\<close>

definition RNDIS_Device_ProcessNDISQuery ::
    "RNDIS_Config \<Rightarrow> u32 \<Rightarrow> nat \<Rightarrow> rndis \<Rightarrow> ((u16 option) \<times> rndis) option" where
  "RNDIS_Device_ProcessNDISQuery c OId ResponseData d =
     (case query_response c d OId of
        None \<Rightarrow> Some (None, d)
      | Some bs \<Rightarrow> map_option (Pair (Some (of_nat (length bs)))) (poke ResponseData bs d))"

text \<open>Both branches of the conditional in the code set the same adapter state.\<close>

definition RNDIS_Device_ProcessNDISSet :: "u32 \<Rightarrow> nat \<Rightarrow> rndis \<Rightarrow> (bool \<times> rndis) option" where
  "RNDIS_Device_ProcessNDISSet OId SetData d =
     (if OId = OID_GEN_CURRENT_PACKET_FILTER then
        do {
          v \<leftarrow> peek SetData 4 d;
          d \<leftarrow> poke o_CurrPacketFilter v d;
          d \<leftarrow> poke o_CurrRNDISState
                 [if peek32 d o_CurrPacketFilter \<noteq> 0 then RNDIS_Data_Initialized else RNDIS_Data_Initialized] d;
          Some (True, d)
        }
      else if OId = OID_802_3_MULTICAST_LIST then Some (True, d)
      else Some (False, d))"

section \<open>Control messages\<close>

definition set_ready :: "bool \<Rightarrow> rndis \<Rightarrow> rndis option" where
  "set_ready b d = poke o_ResponseReady [if b then 1 else 0] d"

definition rndis_initialize :: "rndis \<Rightarrow> rndis option" where
  "rndis_initialize d =
     do {
       d \<leftarrow> set_ready True d;
       d \<leftarrow> puts [(0, REMOTE_NDIS_INITIALIZE_CMPLT), (4, 52), (8, peek32 d 8), (12, REMOTE_NDIS_STATUS_SUCCESS),
                  (16, 1), (20, 0), (24, 1), (28, 0), (32, 1), (36, 1544), (40, 0), (44, 0), (48, 0)] d;
       poke o_CurrRNDISState [RNDIS_Initialized] d
     }"

definition rndis_halt :: "rndis \<Rightarrow> rndis option" where
  "rndis_halt d =
     do {
       d \<leftarrow> set_ready False d;
       d \<leftarrow> puts [(4, 0)] d;
       poke o_CurrRNDISState [RNDIS_Uninitialized] d
     }"

definition rndis_query :: "RNDIS_Config \<Rightarrow> rndis \<Rightarrow> rndis option" where
  "rndis_query c d =
     do {
       d \<leftarrow> set_ready True d;
       let Query_Oid = peek32 d 12;
       d \<leftarrow> puts [(0, REMOTE_NDIS_QUERY_CMPLT), (4, 24)] d;
       (r, d) \<leftarrow> RNDIS_Device_ProcessNDISQuery c Query_Oid 24 d;
       case r of
         Some ResponseSize \<Rightarrow>
           puts [(12, REMOTE_NDIS_STATUS_SUCCESS), (4, peek32 d 4 + ucast ResponseSize), (16, ucast ResponseSize), (20, 16)] d
       | None \<Rightarrow> puts [(12, REMOTE_NDIS_STATUS_NOT_SUPPORTED), (16, 0), (20, 0)] d
     }"

text \<open>The position of the data comes from the host, in 32-bit arithmetic.\<close>

definition rndis_set :: "rndis \<Rightarrow> rndis option" where
  "rndis_set d =
     do {
       d \<leftarrow> set_ready True d;
       let SET_Oid = peek32 d 12;
       d \<leftarrow> puts [(0, REMOTE_NDIS_SET_CMPLT), (4, 16), (8, peek32 d 8)] d;
       let SetData = unat (8 + peek32 d 20);
       (ok, d) \<leftarrow> RNDIS_Device_ProcessNDISSet SET_Oid SetData d;
       puts [(12, if ok then REMOTE_NDIS_STATUS_SUCCESS else REMOTE_NDIS_STATUS_NOT_SUPPORTED)] d
     }"

definition rndis_reset :: "rndis \<Rightarrow> rndis option" where
  "rndis_reset d =
     do {
       d \<leftarrow> set_ready True d;
       puts [(0, REMOTE_NDIS_RESET_CMPLT), (4, 16), (8, REMOTE_NDIS_STATUS_SUCCESS), (12, 0)] d
     }"

definition rndis_keepalive :: "rndis \<Rightarrow> rndis option" where
  "rndis_keepalive d =
     do {
       d \<leftarrow> set_ready True d;
       puts [(0, REMOTE_NDIS_KEEPALIVE_CMPLT), (4, 16), (8, peek32 d 8), (12, REMOTE_NDIS_STATUS_SUCCESS)] d
     }"

definition RNDIS_Device_ProcessRNDISControlMessage :: "RNDIS_Config \<Rightarrow> rndis \<Rightarrow> rndis option" where
  "RNDIS_Device_ProcessRNDISControlMessage c d =
     (let MessageType = peek32 d 0
      in if MessageType = REMOTE_NDIS_INITIALIZE_MSG then rndis_initialize d
      else if MessageType = REMOTE_NDIS_HALT_MSG then rndis_halt d
      else if MessageType = REMOTE_NDIS_QUERY_MSG then rndis_query c d
      else if MessageType = REMOTE_NDIS_SET_MSG then rndis_set d
      else if MessageType = REMOTE_NDIS_RESET_MSG then rndis_reset d
      else if MessageType = REMOTE_NDIS_KEEPALIVE_MSG then rndis_keepalive d
      else Some d)"

section \<open>Control requests\<close>

abbreviation (input) REQ_SendEncapsulatedCommand :: u8 where "REQ_SendEncapsulatedCommand \<equiv> 0"
abbreviation (input) REQ_GetEncapsulatedResponse :: u8 where "REQ_GetEncapsulatedResponse \<equiv> 1"
abbreviation (input) NOTIF_ResponseAvailable :: u8 where "NOTIF_ResponseAvailable \<equiv> 1"

text \<open>
  The length of the command is the host's; the length of the response is the message's, cut to the
  host's by the stream, which reads only what it sends.
\<close>

definition rndis_command ::
    "'h mmio \<Rightarrow> RNDIS_Config \<Rightarrow> USB_Request_Header_t \<Rightarrow> rndis \<Rightarrow> 'h \<Rightarrow> (rndis \<times> 'h) option" where
  "rndis_command io c req d s =
     do {
       let s = Endpoint_ClearSETUP io s;
       ((e, got), s) \<leftarrow> Endpoint_Read_Control_Stream_LE io (unat (wLength req)) s;
       d \<leftarrow> poke 0 got d;
       let s = Endpoint_ClearIN io s;
       d \<leftarrow> RNDIS_Device_ProcessRNDISControlMessage c d;
       Some (d, s)
     }"

definition rndis_response :: "'h mmio \<Rightarrow> USB_Request_Header_t \<Rightarrow> rndis \<Rightarrow> 'h \<Rightarrow> (rndis \<times> 'h) option" where
  "rndis_response io req d s =
     do {
       let s = Endpoint_ClearSETUP io s;
       d \<leftarrow> (if peek32 d 4 = 0 then Option.bind (poke 0 [0] d) (puts [(4, 1)]) else Some d);
       bytes \<leftarrow> peek 0 (unat (ucast (peek32 d 4) :: u16)) d;
       (e, s) \<leftarrow> Endpoint_Write_Control_Stream_LE io req bytes s;
       let s = Endpoint_ClearOUT io s;
       d \<leftarrow> puts [(4, 0)] d;
       Some (d, s)
     }"

definition RNDIS_Device_ProcessControlRequest ::
    "'h mmio \<Rightarrow> RNDIS_Config \<Rightarrow> USB_Request_Header_t \<Rightarrow> rndis \<Rightarrow> 'h \<Rightarrow> (rndis \<times> 'h) option" where
  "RNDIS_Device_ProcessControlRequest io c req d s =
     (let (setup, s) = Endpoint_IsSETUPReceived io s
      in if \<not> setup then Some (d, s)
      else if wIndex req \<noteq> ucast (ControlInterfaceNumber c) then Some (d, s)
      else if bRequest req = REQ_SendEncapsulatedCommand then
        (if bmRequestType req = CLASS_OUT then rndis_command io c req d s else Some (d, s))
      else if bRequest req = REQ_GetEncapsulatedResponse then
        (if bmRequestType req = CLASS_IN then rndis_response io req d s else Some (d, s))
      else Some (d, s))"

section \<open>Configuration\<close>

definition RNDIS_Device_ConfigureEndpoints :: "'h mmio \<Rightarrow> RNDIS_Config \<Rightarrow> 'h \<Rightarrow> (bool \<times> rndis \<times> 'h) option" where
  "RNDIS_Device_ConfigureEndpoints io c s =
     do {
       let d = replicate sizeof_State 0;
       (ok, s) \<leftarrow> Endpoint_ConfigureEndpoint io (DataINEndpointNumber c) EP_TYPE_BULK ENDPOINT_DIR_IN
                    (DataINEndpointSize c) (banks (DataINEndpointDoubleBank c)) s;
       if \<not> ok then Some (False, d, s) else do {
       (ok, s) \<leftarrow> Endpoint_ConfigureEndpoint io (DataOUTEndpointNumber c) EP_TYPE_BULK ENDPOINT_DIR_OUT
                    (DataOUTEndpointSize c) (banks (DataOUTEndpointDoubleBank c)) s;
       if \<not> ok then Some (False, d, s) else do {
       (ok, s) \<leftarrow> Endpoint_ConfigureEndpoint io (NotificationEndpointNumber c) EP_TYPE_INTERRUPT ENDPOINT_DIR_IN
                    (NotificationEndpointSize c) (banks (NotificationEndpointDoubleBank c)) s;
       if \<not> ok then Some (False, d, s) else Some (True, d, s) } }
     }"

section \<open>Ethernet frames\<close>

record RNDIS_Packet_Message_t =
  MessageType :: u32
  MessageLength :: u32
  DataOffset :: u32
  DataLength :: u32
  OOBDataOffset :: u32
  OOBDataLength :: u32
  NumOOBDataElements :: u32
  PerPacketInfoOffset :: u32
  PerPacketInfoLength :: u32
  VcHandle :: u32
  Reserved :: u32

definition packet_bytes :: "RNDIS_Packet_Message_t \<Rightarrow> u8 list" where
  "packet_bytes h = concat (map bytes32 [MessageType h, MessageLength h, DataOffset h, DataLength h, OOBDataOffset h,
     OOBDataLength h, NumOOBDataElements h, PerPacketInfoOffset h, PerPacketInfoLength h, VcHandle h, Reserved h])"

definition packet_of :: "u8 list \<Rightarrow> RNDIS_Packet_Message_t" where
  "packet_of bs = \<lparr>MessageType = peek32 bs 0, MessageLength = peek32 bs 4, DataOffset = peek32 bs 8, DataLength = peek32 bs 12,
     OOBDataOffset = peek32 bs 16, OOBDataLength = peek32 bs 20, NumOOBDataElements = peek32 bs 24,
     PerPacketInfoOffset = peek32 bs 28, PerPacketInfoLength = peek32 bs 32, VcHandle = peek32 bs 36, Reserved = peek32 bs 40\<rparr>"

definition zero_packet :: RNDIS_Packet_Message_t where
  "zero_packet = packet_of (replicate 44 0)"

definition rndis_notify :: "'h mmio \<Rightarrow> RNDIS_Config \<Rightarrow> rndis \<Rightarrow> 'h \<Rightarrow> (rndis \<times> 'h) option" where
  "rndis_notify io c d s =
     (let s = Endpoint_SelectEndpoint io (NotificationEndpointNumber c) s;
          (rdy, s) = Endpoint_IsINReady io s
      in if rdy \<and> d ! o_ResponseReady \<noteq> 0 then
           do {
             let Notification = [CLASS_IN, NOTIF_ResponseAvailable] @ bytes16 0 @ bytes16 0 @ bytes16 0;
             (e, s) \<leftarrow> Endpoint_Write_Stream_LE io None Notification s;
             let s = Endpoint_ClearIN io s;
             d \<leftarrow> set_ready False d;
             Some (d, s)
           }
         else Some (d, s))"

text \<open>
  The first component of the result tells whether the task returns after a frame that is too long.
  The packet header is a local variable, whose bytes before the transfer are \<open>stack\<close>.
\<close>

definition rndis_receive ::
    "'h mmio \<Rightarrow> RNDIS_Config \<Rightarrow> (nat \<Rightarrow> u8) \<Rightarrow> rndis \<Rightarrow> 'h \<Rightarrow> (bool \<times> rndis \<times> 'h) option" where
  "rndis_receive io c stack d s =
     (let s = Endpoint_SelectEndpoint io (DataOUTEndpointNumber c) s;
          (out, s) = Endpoint_IsOUTReceived io s
      in if out \<and> d ! (o_FrameIN + o_FrameInBuffer) = 0 then
           do {
             (e, got, s) \<leftarrow> Endpoint_Read_Stream_LE io None 44 s;
             let RNDISPacketHeader = packet_of (got @ map stack [length got..<44]);
             if DataLength RNDISPacketHeader > 1500 then Some (True, d, Endpoint_StallTransaction io s)
             else do {
               (e, got, s) \<leftarrow> Endpoint_Read_Stream_LE io None (unat (DataLength RNDISPacketHeader)) s;
               d \<leftarrow> poke o_FrameIN got d;
               let s = Endpoint_ClearOUT io s;
               d \<leftarrow> poke (o_FrameIN + o_FrameLength) (bytes16 (ucast (DataLength RNDISPacketHeader))) d;
               d \<leftarrow> poke (o_FrameIN + o_FrameInBuffer) [1] d;
               Some (False, d, s)
             }
           }
         else Some (False, d, s))"

definition rndis_send :: "'h mmio \<Rightarrow> RNDIS_Config \<Rightarrow> rndis \<Rightarrow> 'h \<Rightarrow> (rndis \<times> 'h) option" where
  "rndis_send io c d s =
     (let s = Endpoint_SelectEndpoint io (DataINEndpointNumber c) s;
          (rdy, s) = Endpoint_IsINReady io s
      in if rdy \<and> d ! (o_FrameOUT + o_FrameInBuffer) \<noteq> 0 then
           do {
             let FrameLength = peek16 d (o_FrameOUT + o_FrameLength);
             let RNDISPacketHeader = zero_packet\<lparr>MessageType := REMOTE_NDIS_PACKET_MSG, MessageLength := ucast (44 + FrameLength),
                                       DataOffset := 36, DataLength := ucast FrameLength\<rparr>;
             (e, s) \<leftarrow> Endpoint_Write_Stream_LE io None (packet_bytes RNDISPacketHeader) s;
             frame \<leftarrow> peek o_FrameOUT (unat FrameLength) d;
             (e, s) \<leftarrow> Endpoint_Write_Stream_LE io None frame s;
             let s = Endpoint_ClearIN io s;
             d \<leftarrow> poke (o_FrameOUT + o_FrameInBuffer) [0] d;
             Some (d, s)
           }
         else Some (d, s))"

definition RNDIS_Device_USBTask ::
    "'h mmio \<Rightarrow> RNDIS_Config \<Rightarrow> (nat \<Rightarrow> u8) \<Rightarrow> rndis \<Rightarrow> 'h \<Rightarrow> (rndis \<times> 'h) option" where
  "RNDIS_Device_USBTask io c stack d s =
     (let (configured, s) = device_state_is io DEVICE_STATE_Configured s
      in if \<not> configured then Some (d, s)
      else do {
        (d, s) \<leftarrow> rndis_notify io c d s;
        if d ! o_CurrRNDISState = RNDIS_Data_Initialized \<and> peek32 d 4 = 0 then
          do {
            (stop, d, s) \<leftarrow> rndis_receive io c stack d s;
            if stop then Some (d, s) else rndis_send io c d s
          }
        else Some (d, s)
      })"

end
