(* ===== verification/Rndis_Props.thy ===== *)
theory Rndis_Props
  imports Hid_Device_Props Rndis_Device
begin

text \<open>
  The RNDIS adapter: the answer to every control message, the response that does not fit into the
  message buffer, and Ethernet frames on their way to the host and back.
\<close>

section \<open>The bytes of the state\<close>

definition upd :: "nat \<Rightarrow> u8 list \<Rightarrow> u8 list \<Rightarrow> u8 list" where
  "upd a bs d = (if a + length bs \<le> length d then take a d @ bs @ drop (a + length bs) d else d)"

lemma poke_upd [simp]: "a + length bs \<le> length d \<Longrightarrow> poke a bs d = Some (upd a bs d)"
  by (simp add: poke_def upd_def)

lemma length_upd [simp]: "length (upd a bs d) = length d"
  by (simp add: upd_def)

lemma nth_upd: "a + length bs \<le> length d \<Longrightarrow> i < length d \<Longrightarrow>
   upd a bs d ! i = (if i < a then d ! i else if i < a + length bs then bs ! (i - a) else d ! i)"
  by (auto simp: upd_def nth_append)

lemma drop_upd [simp]: "a + length bs \<le> n \<Longrightarrow> drop n (upd a bs d) = drop n d"
  by (simp add: upd_def)

lemma take_upd [simp]: "n \<le> a \<Longrightarrow> take n (upd a bs d) = take n d"
  by (simp add: upd_def)

lemma slice_upd [simp]: "a + length bs \<le> length d \<Longrightarrow> take (length bs) (drop a (upd a bs d)) = bs"
  by (simp add: upd_def)

lemma word32_nth_bytes: "word32 (bytes32 v ! 0) (bytes32 v ! 1) (bytes32 v ! 2) (bytes32 v ! 3) = v"
  by (simp add: bytes32_def)

lemma nth_upd_other [simp]: "b < length d \<Longrightarrow> b < a \<or> a + length bs \<le> b \<Longrightarrow> upd a bs d ! b = d ! b"
  by (auto simp: upd_def nth_append)

lemma nth_upd_byte [simp]: "a < length d \<Longrightarrow> upd a [x] d ! a = x"
  by (simp add: nth_upd)

lemma peek32_same [simp]: "a + 4 \<le> length d \<Longrightarrow> peek32 (upd a (bytes32 v) d) a = v"
  using word32_nth_bytes [of v] by (simp add: peek32_def nth_upd)

lemma peek32_other [simp]: "b + 4 \<le> length d \<Longrightarrow> b + 4 \<le> a \<or> a + length bs \<le> b \<Longrightarrow> peek32 (upd a bs d) b = peek32 d b"
  by (auto simp: peek32_def)

section \<open>Control messages\<close>

text \<open>The completion of a message: its type, its request, the flag for the notification, and no frame touched.\<close>

definition completes :: "u32 \<Rightarrow> rndis \<Rightarrow> rndis \<Rightarrow> bool" where
  "completes type d d' \<longleftrightarrow> length d' = sizeof_State \<and> peek32 d' 0 = type \<and> d' ! o_ResponseReady = 1 \<and>
     16 \<le> peek32 d' 4 \<and> peek32 d' 4 \<le> 128 \<and> drop o_FrameIN d' = drop o_FrameIN d"

lemma initialize_ok:
  assumes "length d = sizeof_State"
  shows "\<exists>d'. rndis_initialize d = Some d' \<and> completes REMOTE_NDIS_INITIALIZE_CMPLT d d' \<and> peek32 d' 4 = 52 \<and> peek32 d' 8 = peek32 d 8 \<and>
    peek32 d' 12 = REMOTE_NDIS_STATUS_SUCCESS \<and> peek32 d' 36 = 1544 \<and> d' ! o_CurrRNDISState = RNDIS_Initialized"
  using assms by (simp add: rndis_initialize_def set_ready_def completes_def)

lemma reset_ok:
  assumes "length d = sizeof_State"
  shows "\<exists>d'. rndis_reset d = Some d' \<and> completes REMOTE_NDIS_RESET_CMPLT d d' \<and> peek32 d' 4 = 16 \<and>
    peek32 d' 8 = REMOTE_NDIS_STATUS_SUCCESS \<and> peek32 d' 12 = 0"
  using assms by (simp add: rndis_reset_def set_ready_def completes_def)

lemma keepalive_ok:
  assumes "length d = sizeof_State"
  shows "\<exists>d'. rndis_keepalive d = Some d' \<and> completes REMOTE_NDIS_KEEPALIVE_CMPLT d d' \<and> peek32 d' 4 = 16 \<and>
    peek32 d' 8 = peek32 d 8 \<and> peek32 d' 12 = REMOTE_NDIS_STATUS_SUCCESS"
  using assms by (simp add: rndis_keepalive_def set_ready_def completes_def)

lemma halt_ok:
  assumes "length d = sizeof_State"
  shows "\<exists>d'. rndis_halt d = Some d' \<and> length d' = sizeof_State \<and> d' ! o_ResponseReady = 0 \<and> peek32 d' 4 = 0 \<and>
    d' ! o_CurrRNDISState = RNDIS_Uninitialized \<and> drop o_FrameIN d' = drop o_FrameIN d"
  using assms by (simp add: rndis_halt_def set_ready_def)

lemma response_same: "peek32 d o_CurrPacketFilter = peek32 d' o_CurrPacketFilter \<Longrightarrow> query_response c d OId = query_response c d' OId"
  by (simp add: query_response_def)

lemma size16: "n < 65536 \<Longrightarrow> (ucast (of_nat n :: u16) :: u32) = of_nat n"
  by (simp add: word_unat_eq_iff unsigned_ucast_eq unsigned_of_nat take_bit_nat_eq_self)

lemma query_ok:
  assumes "length d = sizeof_State" "query_response c d (peek32 d 12) = Some bs" "24 + length bs \<le> RNDIS_MESSAGE_BUFFER_SIZE"
  shows "\<exists>d'. rndis_query c d = Some d' \<and> completes REMOTE_NDIS_QUERY_CMPLT d d' \<and> peek32 d' 8 = peek32 d 8 \<and>
    peek32 d' 4 = of_nat (24 + length bs) \<and> peek32 d' 12 = REMOTE_NDIS_STATUS_SUCCESS \<and> peek32 d' 16 = of_nat (length bs) \<and> peek32 d' 20 = 16 \<and>
    take (length bs) (drop 24 d') = bs"
proof -
  let ?d = "upd 4 (bytes32 24) (upd 0 (bytes32 REMOTE_NDIS_QUERY_CMPLT) (upd o_ResponseReady [1] d))"
  have r: "query_response c ?d (peek32 d 12) = Some bs"
    using response_same [of ?d d c "peek32 d 12"] assms(1,2) by simp
  have "unat (24 + of_nat (length bs) :: u32) = 24 + length bs"
    using assms(3) by (simp add: unat_word_ariths unsigned_of_nat take_bit_nat_eq_self)
  then have len: "16 \<le> (24 + of_nat (length bs) :: u32)" "(24 + of_nat (length bs) :: u32) \<le> 128"
    using assms(3) by (simp_all add: word_le_nat_alt)
  have sz: "(ucast (of_nat (length bs) :: u16) :: u32) = of_nat (length bs)" using assms(3) by (simp add: size16)
  show ?thesis
    using assms(1,3) r len
    by (simp add: rndis_query_def set_ready_def RNDIS_Device_ProcessNDISQuery_def completes_def sz)
qed

lemma query_refused:
  assumes "length d = sizeof_State" "query_response c d (peek32 d 12) = None"
  shows "\<exists>d'. rndis_query c d = Some d' \<and> completes REMOTE_NDIS_QUERY_CMPLT d d' \<and> peek32 d' 8 = peek32 d 8 \<and>
    peek32 d' 4 = 24 \<and> peek32 d' 12 = REMOTE_NDIS_STATUS_NOT_SUPPORTED \<and> peek32 d' 16 = 0"
proof -
  let ?d = "upd 4 (bytes32 24) (upd 0 (bytes32 REMOTE_NDIS_QUERY_CMPLT) (upd o_ResponseReady [1] d))"
  have "query_response c ?d (peek32 d 12) = None"
    using response_same [of ?d d c "peek32 d 12"] assms(1,2) by simp
  then show ?thesis
    using assms(1) by (simp add: rndis_query_def set_ready_def RNDIS_Device_ProcessNDISQuery_def completes_def)
qed

lemma query_response_length:
  assumes "OId \<noteq> OID_GEN_SUPPORTED_LIST" "length (AdapterVendorDescription c) \<le> 103" "length (AdapterMACAddress c) = 6"
    "query_response c d OId = Some bs"
  shows "24 + length bs \<le> RNDIS_MESSAGE_BUFFER_SIZE"
  using assms by (auto simp: query_response_def split: if_splits)

lemma set_ok:
  assumes "length d = sizeof_State"
    "peek32 d 12 = OID_GEN_CURRENT_PACKET_FILTER \<longrightarrow> unat (8 + peek32 d 20) + 4 \<le> sizeof_State"
  shows "\<exists>d'. rndis_set d = Some d' \<and> completes REMOTE_NDIS_SET_CMPLT d d' \<and> peek32 d' 4 = 16 \<and> peek32 d' 8 = peek32 d 8 \<and>
    peek32 d' 12 = (if peek32 d 12 = OID_GEN_CURRENT_PACKET_FILTER \<or> peek32 d 12 = OID_802_3_MULTICAST_LIST
                    then REMOTE_NDIS_STATUS_SUCCESS else REMOTE_NDIS_STATUS_NOT_SUPPORTED)"
proof (cases "peek32 d 12 = OID_GEN_CURRENT_PACKET_FILTER")
  case True
  then show ?thesis
    using assms by (simp add: rndis_set_def set_ready_def RNDIS_Device_ProcessNDISSet_def completes_def peek_def Let_def)
next
  case False
  then show ?thesis
    using assms(1) by (auto simp: rndis_set_def set_ready_def RNDIS_Device_ProcessNDISSet_def completes_def)
qed

text \<open>
  What the completion of each type of message says, beside its type: \<open>d\<close> is the state with the message, \<open>d'\<close> the one with
  the completion.  The completion of a RESET has its status where the others have the number of the request.
\<close>

definition completion_of :: "RNDIS_Config \<Rightarrow> u32 \<Rightarrow> rndis \<Rightarrow> rndis \<Rightarrow> bool" where
  "completion_of c type d d' \<longleftrightarrow>
     (if type = REMOTE_NDIS_RESET_MSG then
        peek32 d' 4 = 16 \<and> peek32 d' 8 = REMOTE_NDIS_STATUS_SUCCESS \<and> peek32 d' 12 = 0
      else peek32 d' 8 = peek32 d 8 \<and>
        (if type = REMOTE_NDIS_INITIALIZE_MSG then
           peek32 d' 4 = 52 \<and> peek32 d' 12 = REMOTE_NDIS_STATUS_SUCCESS \<and> peek32 d' 36 = 1544 \<and>
           d' ! o_CurrRNDISState = RNDIS_Initialized
         else if type = REMOTE_NDIS_QUERY_MSG then
           (case query_response c d (peek32 d 12) of
              Some bs \<Rightarrow> peek32 d' 4 = of_nat (24 + length bs) \<and> peek32 d' 12 = REMOTE_NDIS_STATUS_SUCCESS \<and>
                peek32 d' 16 = of_nat (length bs) \<and> peek32 d' 20 = 16 \<and> take (length bs) (drop 24 d') = bs
            | None \<Rightarrow> peek32 d' 4 = 24 \<and> peek32 d' 12 = REMOTE_NDIS_STATUS_NOT_SUPPORTED \<and> peek32 d' 16 = 0)
         else if type = REMOTE_NDIS_SET_MSG then
           peek32 d' 4 = 16 \<and>
           peek32 d' 12 = (if peek32 d 12 = OID_GEN_CURRENT_PACKET_FILTER \<or> peek32 d 12 = OID_802_3_MULTICAST_LIST
                           then REMOTE_NDIS_STATUS_SUCCESS else REMOTE_NDIS_STATUS_NOT_SUPPORTED)
         else peek32 d' 4 = 16 \<and> peek32 d' 12 = REMOTE_NDIS_STATUS_SUCCESS))"

text \<open>
  C22. The messages INITIALIZE, QUERY, SET, RESET and KEEPALIVE are completed: the message buffer holds the
  completion of the type of the message, with its exact length, its status and, except for RESET, the number of the request;
  for a query the data of the object, or that it is not supported.  The host is due a notification, and the frames are untouched.
  Not covered are the query for the list of supported objects, which does not fit into the buffer, adapters
  with a description of more than 103 characters or an address of other than six bytes, and a SET of the packet
  filter whose data are not in the message buffer; HALT has no completion.
\<close>

theorem rndis_message_completed:
  assumes "length d = sizeof_State" "type = peek32 d 0"
    "type \<in> {REMOTE_NDIS_INITIALIZE_MSG, REMOTE_NDIS_QUERY_MSG, REMOTE_NDIS_SET_MSG, REMOTE_NDIS_RESET_MSG, REMOTE_NDIS_KEEPALIVE_MSG}"
    "length (AdapterVendorDescription c) \<le> 103" "length (AdapterMACAddress c) = 6"
    "type = REMOTE_NDIS_QUERY_MSG \<longrightarrow> peek32 d 12 \<noteq> OID_GEN_SUPPORTED_LIST"
    "type = REMOTE_NDIS_SET_MSG \<and> peek32 d 12 = OID_GEN_CURRENT_PACKET_FILTER \<longrightarrow>
       unat (8 + peek32 d 20) + 4 \<le> RNDIS_MESSAGE_BUFFER_SIZE"
  shows "\<exists>d'. RNDIS_Device_ProcessRNDISControlMessage c d = Some d' \<and> length d' = sizeof_State \<and>
    peek32 d' 0 = type OR 0x80000000 \<and> completion_of c type d d' \<and> d' ! o_ResponseReady = 1 \<and>
    drop o_FrameIN d' = drop o_FrameIN d"
proof -
  consider "type = REMOTE_NDIS_INITIALIZE_MSG" | "type = REMOTE_NDIS_QUERY_MSG" | "type = REMOTE_NDIS_SET_MSG"
    | "type = REMOTE_NDIS_RESET_MSG" | "type = REMOTE_NDIS_KEEPALIVE_MSG" using assms(3) by auto
  then show ?thesis
  proof cases
    case 1
    then show ?thesis using initialize_ok [OF assms(1)] assms(2)
      by (auto simp: RNDIS_Device_ProcessRNDISControlMessage_def completes_def completion_of_def)
  next
    case 2
    show ?thesis
    proof (cases "query_response c d (peek32 d 12)")
      case None
      then show ?thesis using 2 assms(2) query_refused [OF assms(1) None]
        by (auto simp: RNDIS_Device_ProcessRNDISControlMessage_def completes_def completion_of_def)
    next
      case (Some bs)
      then have "24 + length bs \<le> RNDIS_MESSAGE_BUFFER_SIZE" using query_response_length [OF _ assms(4,5) Some] 2 assms(6) by simp
      then show ?thesis using 2 assms(2) query_ok [OF assms(1) Some] Some
        by (auto simp: RNDIS_Device_ProcessRNDISControlMessage_def completes_def completion_of_def)
    qed
  next
    case 3
    have "peek32 d 12 = OID_GEN_CURRENT_PACKET_FILTER \<longrightarrow> unat (8 + peek32 d 20) + 4 \<le> sizeof_State" using 3 assms(7) by auto
    from set_ok [OF assms(1) this] show ?thesis using 3 assms(2)
      by (auto simp: RNDIS_Device_ProcessRNDISControlMessage_def completes_def completion_of_def)
  next
    case 4
    then show ?thesis using reset_ok [OF assms(1)] assms(2)
      by (auto simp: RNDIS_Device_ProcessRNDISControlMessage_def completes_def completion_of_def)
  next
    case 5
    then show ?thesis using keepalive_ok [OF assms(1)] assms(2)
      by (auto simp: RNDIS_Device_ProcessRNDISControlMessage_def completes_def completion_of_def)
  qed
qed

definition adapter :: RNDIS_Config where
  "adapter = CDC_Config.extend serial_port \<lparr>AdapterVendorDescription = [0x4C, 0x55, 0x46, 0x41], AdapterMACAddress = [2, 0, 2, 0, 2, 0]\<rparr>"

text \<open>The host asks for the link speed.\<close>

definition speed_query :: rndis where
  "speed_query = concat (map bytes32 [REMOTE_NDIS_QUERY_MSG, 28, 7, OID_GEN_LINK_SPEED, 0, 0, 0]) @ replicate 3112 0"

lemma speed_query: "length speed_query = sizeof_State" "peek32 speed_query 0 = REMOTE_NDIS_QUERY_MSG"
  "peek32 speed_query 12 = OID_GEN_LINK_SPEED" "peek32 speed_query 8 = 7"
proof -
  show "length speed_query = sizeof_State" by (simp add: speed_query_def)
  show "peek32 speed_query 0 = REMOTE_NDIS_QUERY_MSG" "peek32 speed_query 12 = OID_GEN_LINK_SPEED" "peek32 speed_query 8 = 7"
    by (simp_all add: speed_query_def peek32_def bytes32_def nth_append word32_def)
qed

theorem rndis_message_completed_witness:
  "\<exists>d'. RNDIS_Device_ProcessRNDISControlMessage adapter speed_query = Some d' \<and> peek32 d' 0 = 0x80000004 \<and> peek32 d' 8 = 7 \<and>
    peek32 d' 4 = 28 \<and> take 4 (drop 24 d') = bytes32 100000"
proof -
  have r: "query_response adapter speed_query OID_GEN_LINK_SPEED = Some (bytes32 100000)" by (simp add: query_response_def)
  have a: "length (AdapterVendorDescription adapter) \<le> 103" "length (AdapterMACAddress adapter) = 6"
    by (simp_all add: adapter_def CDC_Config.defs)
  show ?thesis
    using rndis_message_completed [OF speed_query(1) speed_query(2) [symmetric] _ a]
    by (auto simp: speed_query(3,4) r completion_of_def)
qed

section \<open>The list that does not fit\<close>

lemma length_words [simp]: "length (concat (map bytes32 ws)) = 4 * length ws"
  by (induction ws) simp_all

lemma oid_list: "\<exists>A. concat (map bytes32 AdapterSupportedOIDList) = A @ [3, 1, 2, 1] \<and> length A = 104"
proof -
  obtain B where B: "AdapterSupportedOIDList = B @ [OID_802_3_XMIT_MORE_COLLISIONS]" "length B = 26"
    by (rule that [of "butlast AdapterSupportedOIDList"]) (simp_all add: AdapterSupportedOIDList_def)
  have "bytes32 OID_802_3_XMIT_MORE_COLLISIONS = [3, 1, 2, 1]" by (simp add: bytes32_def)
  then show ?thesis unfolding B(1) using B(2) by (intro exI [of _ "concat (map bytes32 B)"]) simp
qed

text \<open>
  C24. The answer to the query for the supported OIDs is four bytes longer than the message buffer: it
  overwrites the flag for the notification, the adapter state and half of the packet filter.  Whatever
  state the adapter was in, it is merely initialised afterwards and moves no more frames.
\<close>

theorem rndis_supported_list_overflows:
  assumes "length d = sizeof_State" "peek32 d 0 = REMOTE_NDIS_QUERY_MSG" "peek32 d 12 = OID_GEN_SUPPORTED_LIST"
  shows "\<exists>d'. RNDIS_Device_ProcessRNDISControlMessage c d = Some d' \<and> peek32 d' 4 = 132 \<and>
    d' ! o_ResponseReady = 3 \<and> d' ! o_CurrRNDISState = RNDIS_Initialized \<and>
    d' ! o_CurrPacketFilter = 2 \<and> d' ! (o_CurrPacketFilter + 1) = 1 \<and> drop 132 d' = drop 132 d"
proof -
  obtain A where A: "concat (map bytes32 AdapterSupportedOIDList) = A @ [3, 1, 2, 1]" "length A = 104" using oid_list by blast
  have n: "upd 24 (A @ [3, 1, 2, 1]) e ! i = [3, 1, 2, 1] ! (i - 128)"
    if "length e = sizeof_State" "128 \<le> i" "i < 132" for e i
  proof -
    have "\<not> i - 24 < 104" "i - 24 - 104 = i - 128" using that by auto
    then show ?thesis using that A(2) by (simp add: nth_upd nth_append)
  qed
  show ?thesis
    using assms A(2)
    by (simp add: RNDIS_Device_ProcessRNDISControlMessage_def rndis_query_def set_ready_def RNDIS_Device_ProcessNDISQuery_def
        query_response_def A(1) n)
qed

definition list_query :: rndis where
  "list_query = concat (map bytes32 [REMOTE_NDIS_QUERY_MSG, 28, 7, OID_GEN_SUPPORTED_LIST, 0, 0, 0]) @ replicate 101 0 @ [2] @
     replicate 3010 0"

theorem rndis_supported_list_overflows_witness:
  "list_query ! o_CurrRNDISState = RNDIS_Data_Initialized \<and>
   (\<exists>d'. RNDIS_Device_ProcessRNDISControlMessage adapter list_query = Some d' \<and> d' ! o_CurrRNDISState = RNDIS_Initialized)"
proof -
  have l: "length list_query = sizeof_State" by (simp add: list_query_def)
  have q: "peek32 list_query 0 = REMOTE_NDIS_QUERY_MSG" "peek32 list_query 12 = OID_GEN_SUPPORTED_LIST"
    "list_query ! o_CurrRNDISState = RNDIS_Data_Initialized"
    by (simp_all add: list_query_def peek32_def bytes32_def nth_append word32_def)
  show ?thesis using rndis_supported_list_overflows [OF l q(1,2), of adapter] q(3) by auto
qed

section \<open>Frames\<close>

lemma length_packet_bytes [simp]: "length (packet_bytes h) = 44"
  by (simp add: packet_bytes_def)

lemma packet_of_bytes: "packet_of (packet_bytes h) = h"
  by (cases h) (simp add: packet_of_def packet_bytes_def bytes32_def peek32_def)

text \<open>The message the adapter sends for the frame in \<open>FrameOUT\<close>.\<close>

definition frame_header :: "u16 \<Rightarrow> RNDIS_Packet_Message_t" where
  "frame_header n = zero_packet\<lparr>MessageType := REMOTE_NDIS_PACKET_MSG, MessageLength := ucast (44 + n), DataOffset := 36,
     DataLength := ucast n\<rparr>"

definition frame_out :: "rndis \<Rightarrow> u8 list" where
  "frame_out d = take (unat (peek16 d (o_FrameOUT + o_FrameLength))) (drop o_FrameOUT d)"

context usb_bus
begin

lemma send_frame:
  assumes "n \<le> 7" "DataINEndpointNumber c = n" "in_open ((get s)\<lparr>uenum := n\<rparr>)" "fifo (ep (get s) n) = []"
    "length d = sizeof_State" "d ! (o_FrameOUT + o_FrameInBuffer) \<noteq> 0" "peek16 d (o_FrameOUT + o_FrameLength) \<le> 1500"
  shows "\<exists>v. rndis_send io c d s = Some (upd 3139 [0] d, put v s) \<and> uenum v = n \<and> fifo (cur v) = [] \<and>
    concat (queue (cur v)) = concat (queue (ep (get s) n)) @ packet_bytes (frame_header (peek16 d 3137)) @ frame_out d"
proof -
  let ?u = "(get s)\<lparr>uenum := n\<rparr>" and ?l = "peek16 d 3137"
  have u: "uenum ?u \<noteq> 0" "attached ?u" "ep_in (cur ?u)" "bank_ready (cur ?u)" "0 < ep_size ?u" "length (fifo (cur ?u)) \<le> ep_size ?u"
    using assms(3) by (simp_all add: in_open_def attached_def)
  have l: "unat ?l \<le> 1500" using assms(7) by (simp add: word_le_nat_alt)
  have rdy: "Endpoint_IsINReady io (put ?u s) = (True, put ?u s)"
    using in_ready [of "put ?u s"] u by (simp add: get_put put_put poll_ready)
  have open_stream: "attached w \<and> ep_in (cur w) \<and> bank (cur w) \<and> 0 < ep_size w \<and> length (fifo (cur w)) \<le> ep_size w" if "in_open w" for w
    using that by (simp add: in_open_def bank_ready_def)
  obtain v where v: "Endpoint_Write_Stream_LE io None (packet_bytes (frame_header ?l)) (put ?u s) = Some (EP_NoError, put v s)"
    "usb_frame ?u v" "in_open v" "sent v = sent ?u @ packet_bytes (frame_header ?l)"
    using write_stream [of "put ?u s" None "packet_bytes (frame_header ?l)"] open_stream [OF assms(3)] by (auto simp: get_put put_put)
  obtain w where w: "Endpoint_Write_Stream_LE io None (frame_out d) (put v s) = Some (EP_NoError, put w s)"
    "usb_frame v w" "in_open w" "sent w = sent v @ frame_out d"
    using write_stream [of "put v s" None "frame_out d"] open_stream [OF v(3)] by (auto simp: get_put put_put)
  have fw: "usb_frame ?u w" using v(2) w(2) by (rule usb_frame_trans)
  have cl: "Endpoint_ClearIN io (put w s) = put (next_bank w) s"
    using clear_bank(2) [of "put w s"] w(3) by (simp add: get_put put_put in_open_def attached_def)
  have pk: "peek o_FrameOUT (unat ?l) d = Some (frame_out d)" using assms(5) l by (simp add: peek_def frame_out_def)
  have hd: "zero_packet\<lparr>MessageType := REMOTE_NDIS_PACKET_MSG, MessageLength := ucast (44 + ?l), DataOffset := 36,
      DataLength := ucast ?l\<rparr> = frame_header ?l" by (simp add: frame_header_def)
  have "rndis_send io c d s = Some (upd 3139 [0] d, put (next_bank w) s)"
    using assms(1,2,5,6) by (simp add: rndis_send_def select rdy hd v(1) pk w(1) cl)
  moreover have "cur (next_bank w) = (cur w)\<lparr>fifo := [], delay := lat w, queue := queue (cur w) @ [fifo (cur w)]\<rparr>"
    using w(3) by (simp add: next_bank_def release_def in_open_def)
  moreover have "sent w = concat (queue (ep (get s) n)) @ packet_bytes (frame_header ?l) @ frame_out d"
    using w(4) v(4) assms(4) by (simp add: sent_def)
  moreover have "uenum (next_bank w) = n" using frame_cur [OF fw] by (simp add: next_bank_def)
  ultimately show ?thesis by (intro exI [of _ "next_bank w"]) (simp add: sent_def)
qed

lemma receive_frame:
  assumes "n \<le> 7" "DataOUTEndpointNumber c = n" "out_open ((get s)\<lparr>uenum := n\<rparr>)" "length d = sizeof_State"
    "d ! (o_FrameIN + o_FrameInBuffer) = 0" "avail ((get s)\<lparr>uenum := n\<rparr>) = packet_bytes h @ frame"
    "DataLength h = of_nat (length frame)" "length frame \<le> ETHERNET_FRAME_SIZE_MAX"
  shows "\<exists>v. rndis_receive io c stack d s =
    Some (False, upd 1636 [1] (upd 1634 (bytes16 (of_nat (length frame))) (upd o_FrameIN frame d)), put v s)"
proof -
  let ?u = "(get s)\<lparr>uenum := n\<rparr>"
  have u: "uenum ?u \<noteq> 0" "attached ?u" "\<not> ep_in (cur ?u)" "bank_ready (cur ?u)" "bank (cur ?u)"
    using assms(3) by (simp_all add: out_open_def attached_def bank_ready_def)
  have out: "Endpoint_IsOUTReceived io (put ?u s) = (True, put ?u s)"
    using out_received [of "put ?u s"] u by (simp add: get_put put_put poll_ready)
  obtain v where v: "Endpoint_Read_Stream_LE io None 44 (put ?u s) = Some (EP_NoError, packet_bytes h, put v s)"
    "out_open v" "avail v = frame"
    using read_stream [of "put ?u s" None 44] u assms(6) by (auto simp: get_put put_put)
  have n: "unat (DataLength h) = length frame" "ucast (DataLength h) = (of_nat (length frame) :: u16)"
    using assms(7,8) by (simp_all add: unsigned_of_nat take_bit_nat_eq_self word_unat_eq_iff unsigned_ucast_eq)
  have nl: "\<not> 1500 < DataLength h" using n(1) assms(8) by (simp add: word_less_nat_alt)
  obtain w where w: "Endpoint_Read_Stream_LE io None (length frame) (put v s) = Some (EP_NoError, frame, put w s)" "out_open w"
    using read_stream [of "put v s" None "length frame"] v by (auto simp: get_put put_put out_open_def bank_ready_def)
  have cl: "Endpoint_ClearOUT io (put w s) = put (next_bank w) s"
    using clear_bank(1) [of "put w s"] w(2) by (simp add: get_put put_put out_open_def attached_def)
  show ?thesis
    using assms(1,2,4,5,8)
    by (auto simp: rndis_receive_def select out v(1) packet_of_bytes nl n w(1) cl)
qed

end

text \<open>
  C23. Round trip of an Ethernet frame: what the adapter sends to the host for the frame in \<open>FrameOUT\<close>,
  received by an adapter whose input buffer is free, is the same frame with its length in \<open>FrameIN\<close>;
  the sending buffer is free afterwards, the receiving one occupied.
\<close>

theorem rndis_frame_round_trip:
  assumes "n \<le> 7" "DataINEndpointNumber c = n" "in_open ((dusb s)\<lparr>uenum := n\<rparr>)" "fifo (ep (dusb s) n) = []"
    "length d = sizeof_State" "d ! (o_FrameOUT + o_FrameInBuffer) \<noteq> 0" "peek16 d (o_FrameOUT + o_FrameLength) \<le> 1500"
    "m \<le> 7" "DataOUTEndpointNumber c2 = m" "out_open ((dusb s2)\<lparr>uenum := m\<rparr>)" "length e = sizeof_State"
    "e ! (o_FrameIN + o_FrameInBuffer) = 0"
    "fifo (ep (dusb s2) m) @ concat (queue (ep (dusb s2) m)) = packet_bytes (frame_header (peek16 d (o_FrameOUT + o_FrameLength))) @ frame_out d"
  shows "\<exists>d' t e' t2. rndis_send bio c d s = Some (d', t) \<and>
    concat (queue (ep (dusb t) n)) = concat (queue (ep (dusb s) n)) @ fifo (ep (dusb s2) m) @ concat (queue (ep (dusb s2) m)) \<and>
    d' ! (o_FrameOUT + o_FrameInBuffer) = 0 \<and> rndis_receive bio c2 stack e s2 = Some (False, e', t2) \<and>
    take (length (frame_out d)) (drop o_FrameIN e') = frame_out d \<and>
    peek16 e' (o_FrameIN + o_FrameLength) = peek16 d (o_FrameOUT + o_FrameLength) \<and> e' ! (o_FrameIN + o_FrameInBuffer) = 1"
proof -
  let ?l = "peek16 d 3137" and ?e = "upd 1636 [1] (upd 1634 (bytes16 (of_nat (length (frame_out d)))) (upd o_FrameIN (frame_out d) e))"
  obtain v where v: "rndis_send bio c d s = Some (upd 3139 [0] d, s\<lparr>dusb := v\<rparr>)" "uenum v = n"
    "concat (queue (cur v)) = concat (queue (ep (dusb s) n)) @ packet_bytes (frame_header ?l) @ frame_out d"
    using ub.send_frame [OF assms(1-7)] by auto
  have l: "unat ?l \<le> 1500" using assms(7) by (simp add: word_le_nat_alt)
  then have fl: "length (frame_out d) = unat ?l" using assms(5) by (simp add: frame_out_def)
  have av: "avail ((dusb s2)\<lparr>uenum := m\<rparr>) = packet_bytes (frame_header ?l) @ frame_out d"
    using assms(13) by (simp add: avail_def)
  have dl: "DataLength (frame_header ?l) = of_nat (length (frame_out d))"
    using fl by (simp add: frame_header_def word_unat_eq_iff unsigned_ucast_eq unsigned_of_nat)
  obtain w where w: "rndis_receive bio c2 stack e s2 = Some (False, ?e, s2\<lparr>dusb := w\<rparr>)"
    using ub.receive_frame [OF assms(8-12) av dl] l fl by auto
  have "take (length (frame_out d)) (drop o_FrameIN ?e) = frame_out d"
    using assms(11) l fl by (simp add: upd_def)
  moreover have "peek16 ?e 1634 = ?l"
    using assms(11) l fl by (simp add: peek16_def nth_upd bytes16_def)
  moreover have "cur v = ep v n" using v(2) by (simp add: cur_def)
  ultimately show ?thesis
    using v w assms(5,11,13) by (intro exI [of _ "upd 3139 [0] d"] exI [of _ "s\<lparr>dusb := v\<rparr>"] exI [of _ ?e] exI [of _ "s2\<lparr>dusb := w\<rparr>"]) simp
qed

definition frame_state :: rndis where
  "frame_state = replicate 1637 0 @ [1, 2, 3] @ replicate 1497 0 @ [3, 0, 1]"

lemma frame_state: "length frame_state = sizeof_State" "peek16 frame_state (o_FrameOUT + o_FrameLength) = 3"
  "frame_state ! (o_FrameOUT + o_FrameInBuffer) \<noteq> 0" "frame_out frame_state = [1, 2, 3]"
proof -
  show "length frame_state = sizeof_State" by (simp add: frame_state_def)
  show p: "peek16 frame_state (o_FrameOUT + o_FrameLength) = 3"
    by (simp add: frame_state_def peek16_def nth_append word16_def)
  show "frame_state ! (o_FrameOUT + o_FrameInBuffer) \<noteq> 0" by (simp add: frame_state_def nth_append)
  show "frame_out frame_state = [1, 2, 3]" unfolding frame_out_def p by (simp add: frame_state_def)
qed

theorem rndis_frame_round_trip_witness:
  "\<exists>d' t e' t2. rndis_send bio adapter frame_state (waiting_board [] []) = Some (d', t) \<and>
    rndis_receive bio adapter (\<lambda>i. 0) (replicate sizeof_State 0)
      (waiting_board (packet_bytes (frame_header 3) @ [1, 2, 3]) []) = Some (False, e', t2) \<and>
    take 3 (drop o_FrameIN e') = [1, 2, 3]"
proof -
  let ?s2 = "waiting_board (packet_bytes (frame_header 3) @ [1, 2, 3]) []"
  have n: "(3 :: u8) \<le> 7" "DataINEndpointNumber adapter = 3" "(4 :: u8) \<le> 7" "DataOUTEndpointNumber adapter = 4"
    by (simp_all add: adapter_def serial_port_def CDC_Config.defs)
  have r: "out_open ((dusb ?s2)\<lparr>uenum := 4\<rparr>)" "length (replicate sizeof_State (0 :: u8)) = sizeof_State"
    "replicate sizeof_State (0 :: u8) ! (o_FrameIN + o_FrameInBuffer) = 0"
    "fifo (ep (dusb ?s2) 4) @ concat (queue (ep (dusb ?s2) 4)) =
      packet_bytes (frame_header (peek16 frame_state (o_FrameOUT + o_FrameLength))) @ frame_out frame_state"
    unfolding frame_state(2,4) by (simp_all add: waiting_board_def out_open_def attached_def bank_ready_def cur_def)
  have l: "peek16 frame_state (o_FrameOUT + o_FrameLength) \<le> 1500" unfolding frame_state(2) by simp
  obtain d' t e' t2 where "rndis_send bio adapter frame_state (waiting_board [] []) = Some (d', t)"
    "rndis_receive bio adapter (\<lambda>i. 0) (replicate sizeof_State 0) ?s2 = Some (False, e', t2)"
    "take (length (frame_out frame_state)) (drop o_FrameIN e') = frame_out frame_state"
    using rndis_frame_round_trip [OF n(1,2) quiet_board(3,4) frame_state(1,3) l n(3,4) r, where stack = "\<lambda>i. 0"]
    by blast
  then show ?thesis unfolding frame_state(4) by (intro exI conjI) (simp_all add: numeral_3_eq_3)
qed

end
