(* ===== verification/Midi_Device.thy ===== *)
theory Midi_Device
  imports Endpoint
begin

text \<open>
  The device-mode MIDI class driver, \<open>LUFA/Drivers/USB/Class/Device/MIDI.c\<close> and \<open>MIDI.h\<close>.  The class has
  no state; an event packet is a structure of four bytes.
\<close>

section \<open>Event packets\<close>

record MIDI_Config =
  StreamingInterfaceNumber :: u8
  DataINEndpointNumber :: u8
  DataINEndpointSize :: u16
  DataINEndpointDoubleBank :: bool
  DataOUTEndpointNumber :: u8
  DataOUTEndpointSize :: u16
  DataOUTEndpointDoubleBank :: bool

text \<open>Two bit fields of four bits share the first byte; the first of them takes the lower half.\<close>

record MIDI_EventPacket_t =
  Command :: "4 word"
  CableNumber :: "4 word"
  Data1 :: u8
  Data2 :: u8
  Data3 :: u8

definition event_bytes :: "MIDI_EventPacket_t \<Rightarrow> u8 list" where
  "event_bytes e = [ucast (Command e) OR push_bit 4 (ucast (CableNumber e)), Data1 e, Data2 e, Data3 e]"

definition event_of :: "u8 list \<Rightarrow> MIDI_EventPacket_t" where
  "event_of bs = \<lparr>Command = ucast (bs ! 0), CableNumber = ucast (drop_bit 4 (bs ! 0)),
     Data1 = bs ! 1, Data2 = bs ! 2, Data3 = bs ! 3\<rparr>"

section \<open>Requests and configuration\<close>

text \<open>The driver handles no control request, and its task is empty.\<close>

definition MIDI_Device_ProcessControlRequest :: "MIDI_Config \<Rightarrow> 'h \<Rightarrow> 'h" where
  "MIDI_Device_ProcessControlRequest c s = s"

definition MIDI_Device_USBTask :: "MIDI_Config \<Rightarrow> 'h \<Rightarrow> 'h" where
  "MIDI_Device_USBTask c s = s"

definition midi_banks :: "bool \<Rightarrow> u8" where
  "midi_banks double = (if double then ENDPOINT_BANK_DOUBLE else ENDPOINT_BANK_SINGLE)"

definition MIDI_Device_ConfigureEndpoints :: "'h mmio \<Rightarrow> MIDI_Config \<Rightarrow> 'h \<Rightarrow> (bool \<times> 'h) option" where
  "MIDI_Device_ConfigureEndpoints io c s =
     do {
       (ok, s) \<leftarrow> (if DataINEndpointNumber c \<noteq> 0
          then Endpoint_ConfigureEndpoint io (DataINEndpointNumber c) EP_TYPE_BULK ENDPOINT_DIR_IN
                 (DataINEndpointSize c) (midi_banks (DataINEndpointDoubleBank c)) s
          else Some (True, s));
       if \<not> ok then Some (False, s) else do {
       (ok, s) \<leftarrow> (if DataOUTEndpointNumber c \<noteq> 0
          then Endpoint_ConfigureEndpoint io (DataOUTEndpointNumber c) EP_TYPE_BULK ENDPOINT_DIR_OUT
                 (DataOUTEndpointSize c) (midi_banks (DataOUTEndpointDoubleBank c)) s
          else Some (True, s));
       if \<not> ok then Some (False, s) else Some (True, s) }
     }"

section \<open>Events\<close>

text \<open>
  A stray semicolon ends the conditional on \<open>Endpoint_IsReadWriteAllowed\<close>, so the register is read and
  the block behind it runs in any case.
\<close>

definition MIDI_Device_SendEventPacket :: "'h mmio \<Rightarrow> MIDI_Config \<Rightarrow> MIDI_EventPacket_t \<Rightarrow> 'h \<Rightarrow> (ep_error \<times> 'h) option" where
  "MIDI_Device_SendEventPacket io c Event s =
     (let (configured, s) = device_state_is io DEVICE_STATE_Configured s
      in if \<not> configured then Some (EP_DeviceDisconnected, s)
      else
        let s = Endpoint_SelectEndpoint io (DataINEndpointNumber c) s;
            (allowed, s) = Endpoint_IsReadWriteAllowed io s
        in do {
          (ErrorCode, s) \<leftarrow> Endpoint_Write_Stream_LE io None (event_bytes Event) s;
          if ErrorCode \<noteq> EP_NoError then Some (ErrorCode, s)
          else
            let (allowed, s) = Endpoint_IsReadWriteAllowed io s
            in Some (EP_NoError, if \<not> allowed then Endpoint_ClearIN io s else s)
        })"

definition MIDI_Device_Flush :: "'h mmio \<Rightarrow> MIDI_Config \<Rightarrow> 'h \<Rightarrow> (ep_error \<times> 'h) option" where
  "MIDI_Device_Flush io c s =
     (let (configured, s) = device_state_is io DEVICE_STATE_Configured s
      in if \<not> configured then Some (EP_DeviceDisconnected, s)
      else
        let s = Endpoint_SelectEndpoint io (DataINEndpointNumber c) s;
            (n, s) = Endpoint_BytesInEndpoint io s
        in if n \<noteq> 0 then
             do {
               (ErrorCode, s) \<leftarrow> Endpoint_WaitUntilReady io (Endpoint_ClearIN io s);
               if ErrorCode \<noteq> EP_NoError then Some (ErrorCode, s) else Some (EP_NoError, s)
             }
           else Some (EP_NoError, s))"

text \<open>
  The result, the event structure and the hardware.  The structure is the caller's; bytes the stream
  does not deliver keep the value they had, and the error code of the stream is not looked at.
\<close>

definition MIDI_Device_ReceiveEventPacket ::
    "'h mmio \<Rightarrow> MIDI_Config \<Rightarrow> MIDI_EventPacket_t \<Rightarrow> 'h \<Rightarrow> (bool \<times> MIDI_EventPacket_t \<times> 'h) option" where
  "MIDI_Device_ReceiveEventPacket io c Event s =
     (let (configured, s) = device_state_is io DEVICE_STATE_Configured s
      in if \<not> configured then Some (False, Event, s)
      else
        let s = Endpoint_SelectEndpoint io (DataOUTEndpointNumber c) s;
            (allowed, s) = Endpoint_IsReadWriteAllowed io s
        in if \<not> allowed then Some (False, Event, s)
        else do {
          (e, got, s) \<leftarrow> Endpoint_Read_Stream_LE io None 4 s;
          let Event = event_of (got @ drop (length got) (event_bytes Event));
          let (allowed, s) = Endpoint_IsReadWriteAllowed io s;
          Some (True, Event, if \<not> allowed then Endpoint_ClearOUT io s else s)
        })"

end
