(* ===== verification/Midi_Props.thy ===== *)
theory Midi_Props
  imports Control_Props Midi_Device
begin

text \<open>
  The MIDI driver on the board: events sent and flushed reach the host whole and in order, events of
  the host come out in order, and an empty packet of the host blocks everything behind it.
\<close>

section \<open>Event packets\<close>

lemma event_of_bytes [simp]: "event_of (event_bytes e) = e"
proof -
  have "ucast (ucast c OR push_bit 4 (ucast n) :: u8) = c" "ucast (drop_bit 4 (ucast c OR push_bit 4 (ucast n) :: u8)) = n"
    for c n :: "4 word"
    by (rule bit_word_eqI, auto simp: bit_simps dest: bit_imp_le_length)+
  then show ?thesis by (simp add: event_of_def event_bytes_def)
qed

lemma length_event_bytes [simp]: "length (event_bytes e) = 4"
  by (simp add: event_bytes_def)

lemma event_bytes_nonempty [simp]: "event_bytes e \<noteq> []"
  by (simp add: event_bytes_def)

lemma event_bytes_inj: "event_bytes e = event_bytes e' \<Longrightarrow> e = e'"
  by (metis event_of_bytes)

lemma events_prefix:
  "concat (map event_bytes evs) = concat (map event_bytes got) @ rest \<Longrightarrow> \<exists>more. evs = got @ more"
proof (induction got arbitrary: evs)
  case (Cons e got)
  then obtain e' es where [simp]: "evs = e' # es" by (cases evs) (auto simp: event_bytes_def)
  have "event_bytes e' @ concat (map event_bytes es) = event_bytes e @ (concat (map event_bytes got) @ rest)"
    using Cons.prems by simp
  then have "event_bytes e' = event_bytes e" "concat (map event_bytes es) = concat (map event_bytes got) @ rest"
    by (simp_all add: append_eq_append_conv)
  then show ?case using Cons.IH [of es] event_bytes_inj by auto
qed simp

section \<open>Sending\<close>

text \<open>The IN endpoint between two events: whole events in the bank, and room for one more.\<close>

definition midi_in :: "usb \<Rightarrow> bool" where
  "midi_in u \<longleftrightarrow> attached u \<and> dev_state u = DEVICE_STATE_Configured \<and> ep_in (cur u) \<and> bank (cur u) \<and> 4 dvd ep_size u \<and>
     ep_size u < 65536 \<and> 4 dvd length (fifo (cur u)) \<and> length (fifo (cur u)) < ep_size u \<and> (fifo (cur u) \<noteq> [] \<longrightarrow> delay (cur u) = 0)"

lemma room: "4 dvd (a :: nat) \<Longrightarrow> 4 dvd b \<Longrightarrow> a < b \<Longrightarrow> a + 4 \<le> b"
  by (elim dvdE) simp

lemma packet_cases:
  assumes "concat ps @ f' = f @ (e :: u8 list)" "\<forall>p\<in>set ps. length p = n" "length f + length e \<le> n" "0 < n"
  shows "ps = [] \<and> f' = f @ e \<or> ps = [f @ e] \<and> f' = [] \<and> length f + length e = n"
proof (cases ps)
  case (Cons p qs)
  have "length (concat ps) + length f' = length f + length e" using assms(1) by (metis length_append)
  then have l: "n + length (concat qs) + length f' \<le> n" using assms(2,3) Cons by simp
  then have "qs = []" using assms(2,4) Cons by (cases qs) auto
  then show ?thesis using assms(1-3) l Cons by auto
qed (use assms in simp)

context usb_bus
begin

lemma midi_send:
  assumes "DataINEndpointNumber c = n" "n \<le> 7" "midi_in ((get s)\<lparr>uenum := n\<rparr>)"
  shows "\<exists>v. MIDI_Device_SendEventPacket io c e s = Some (EP_NoError, put v s) \<and> usb_frame ((get s)\<lparr>uenum := n\<rparr>) v \<and> midi_in v \<and>
    (queue (cur v) = queue (ep (get s) n) \<and> fifo (cur v) = fifo (ep (get s) n) @ event_bytes e \<or>
     queue (cur v) = queue (ep (get s) n) @ [fifo (ep (get s) n) @ event_bytes e] \<and> fifo (cur v) = [])"
proof -
  let ?u = "poll ((get s)\<lparr>uenum := n\<rparr>)" and ?e = "ep (get s) n"
  have u: "attached ((get s)\<lparr>uenum := n\<rparr>)" "uenum ((get s)\<lparr>uenum := n\<rparr>) \<noteq> 0" "ep_in ?e" "bank ?e" "4 dvd ep_size (get s)" "ep_size (get s) < 65536"
    "4 dvd length (fifo ?e)" "length (fifo ?e) < ep_size (get s)" "dev_state (get s) = DEVICE_STATE_Configured"
    using assms(3) by (auto simp: midi_in_def attached_def)
  have fu: "usb_frame ((get s)\<lparr>uenum := n\<rparr>) ?u" by (rule frame_poll)
  have cu: "cur ?u = ?e\<lparr>delay := delay ?e - 1\<rparr>" by (simp add: poll_def)
  have al: "\<exists>b. Endpoint_IsReadWriteAllowed io (put ((get s)\<lparr>uenum := n\<rparr>) s) = (b, put ?u s)"
    using rwa [of "put ((get s)\<lparr>uenum := n\<rparr>) s"] u(2) by (simp add: get_put put_put)
  have "attached ?u" using u(1) by (auto simp: attached_def poll_def)
  then obtain v ps where v: "Endpoint_Write_Stream_LE io None (event_bytes e) (put ?u s) = Some (EP_NoError, put v s)"
    "usb_frame ?u v" "in_open v" "sent v = sent ?u @ event_bytes e" "queue (cur v) = queue (cur ?u) @ ps"
    "\<forall>p\<in>set ps. length p = ep_size (get s)"
    using write_stream [of "put ?u s" None "event_bytes e"] u cu by (auto simp: get_put put_put)
  have fv: "usb_frame ((get s)\<lparr>uenum := n\<rparr>) v" using fu v(2) by (rule usb_frame_trans)
  note c = frame_cur [OF fv]
  have le: "length (fifo ?e) + length (event_bytes e) \<le> ep_size (get s)" using room [OF u(7,5,8)] by simp
  have "concat ps @ fifo (cur v) = fifo ?e @ event_bytes e" using v(4,5) cu by (simp add: sent_def)
  then have cs: "ps = [] \<and> fifo (cur v) = fifo ?e @ event_bytes e \<or>
      ps = [fifo ?e @ event_bytes e] \<and> fifo (cur v) = [] \<and> length (fifo ?e) + length (event_bytes e) = ep_size (get s)"
    using v(6) le u(8) by (intro packet_cases) auto
  have iv: "uenum v \<noteq> 0" "attached v" "ep_in (cur v)" "bank_ready (cur v)" "bank (cur v)" "delay (cur v) = 0"
    using v(3) by (simp_all add: in_open_def attached_def bank_ready_def)
  have rw: "Endpoint_IsReadWriteAllowed io (put v s) = (length (fifo (cur v)) < ep_size (get s), put v s)"
    using rwa [of "put v s"] iv c by (simp add: get_put put_put poll_ready)
  show ?thesis
  proof (cases "length (fifo (cur v)) < ep_size (get s)")
    case True
    have "MIDI_Device_SendEventPacket io c e s = Some (EP_NoError, put v s)"
      using u(9) assms(1,2) al v(1) rw True by (auto simp: MIDI_Device_SendEventPacket_def dev_state select)
    moreover have "midi_in v" using iv c u cs True by (auto simp: midi_in_def)
    ultimately show ?thesis using cs fv v(5) cu by (intro exI [of _ v]) auto
  next
    case False
    let ?w = "next_bank v"
    have f: "ps = []" "fifo (cur v) = fifo ?e @ event_bytes e" using cs False u(8) by auto
    have cl: "Endpoint_ClearIN io (put v s) = put ?w s" using clear_bank(2) [of "put v s"] iv by (simp add: get_put put_put)
    have cw: "cur ?w = (cur v)\<lparr>fifo := [], delay := lat v, queue := queue (cur v) @ [fifo (cur v)]\<rparr>"
      using iv by (simp add: next_bank_def release_def)
    have "MIDI_Device_SendEventPacket io c e s = Some (EP_NoError, put ?w s)"
      using u(9) assms(1,2) al v(1) rw False cl by (auto simp: MIDI_Device_SendEventPacket_def dev_state select)
    moreover have fw: "usb_frame ((get s)\<lparr>uenum := n\<rparr>) ?w" using fv by (rule usb_frame_trans) (simp add: next_bank_def)
    moreover have "midi_in ?w" using cw iv c u frame_cur [OF fw] by (auto simp: midi_in_def attached_def)
    ultimately show ?thesis using cw f v(5) cu by (intro exI [of _ ?w]) auto
  qed
qed

lemma midi_flush:
  assumes "DataINEndpointNumber c = n" "n \<le> 7" "midi_in ((get s)\<lparr>uenum := n\<rparr>)"
  shows "\<exists>v. MIDI_Device_Flush io c s = Some (EP_NoError, put v s) \<and> usb_frame ((get s)\<lparr>uenum := n\<rparr>) v \<and> fifo (cur v) = [] \<and>
    queue (cur v) = queue (ep (get s) n) @ (if fifo (ep (get s) n) = [] then [] else [fifo (ep (get s) n)])"
proof -
  let ?u = "(get s)\<lparr>uenum := n\<rparr>" and ?e = "ep (get s) n"
  have u: "uenum ?u \<noteq> 0" "attached ?u" "ep_in ?e" "bank ?e" "length (fifo ?e) < 65536" "dev_state (get s) = DEVICE_STATE_Configured"
    using assms(3) by (auto simp: midi_in_def attached_def)
  show ?thesis
  proof (cases "fifo ?e = []")
    case True
    then have "Endpoint_BytesInEndpoint io (put ?u s) = (0, put ?u s)"
      using bytes_in [of "put ?u s"] u(1) by (simp add: get_put byte_count_def)
    then have "MIDI_Device_Flush io c s = Some (EP_NoError, put ?u s)"
      using u(6) assms(1,2) by (simp add: MIDI_Device_Flush_def dev_state select)
    then show ?thesis using True by (intro exI [of _ ?u]) simp
  next
    case False
    then have r: "bank_ready ?e" using assms(3) by (simp add: midi_in_def bank_ready_def)
    then have "unat (of_nat (byte_count ?e) :: u16) = length (fifo ?e)"
      using u(5) by (simp add: byte_count_def unat_of_nat take_bit_nat_eq_self)
    then have nz: "(of_nat (byte_count ?e) :: u16) \<noteq> 0" using False by (metis length_0_conv unsigned_0)
    have cnt: "Endpoint_BytesInEndpoint io (put ?u s) = (of_nat (byte_count ?e), put ?u s)"
      using bytes_in [of "put ?u s"] u(1) by (simp add: get_put)
    let ?n = "next_bank ?u"
    have cl: "Endpoint_ClearIN io (put ?u s) = put ?n s"
      using clear_bank(2) [of "put ?u s"] u r by (simp add: get_put put_put)
    have cn: "cur ?n = ?e\<lparr>fifo := [], delay := lat (get s), queue := queue ?e @ [fifo ?e]\<rparr>"
      using u(3) by (simp add: next_bank_def release_def)
    have "attached ?n" "bank (cur ?n)" using u cn by (auto simp: attached_def next_bank_def release_def)
    then obtain v where v: "Endpoint_WaitUntilReady io (put ?n s) = Some (EP_NoError, put v s)" "usb_frame ?n v"
      "cur v = (cur ?n)\<lparr>delay := 0\<rparr>"
      using wait_ready [of "put ?n s"] by (auto simp: get_put put_put)
    have "MIDI_Device_Flush io c s = Some (EP_NoError, put v s)"
      using u(6) assms(1,2) cnt nz cl v(1) by (simp add: MIDI_Device_Flush_def dev_state select)
    moreover have "usb_frame ?u v" using usb_frame_trans [OF _ v(2)] by (simp add: next_bank_def)
    ultimately show ?thesis using v(3) cn False by (intro exI [of _ v]) simp
  qed
qed

end

text \<open>An application that sends events and flushes.\<close>

fun send_events :: "'h mmio \<Rightarrow> MIDI_Config \<Rightarrow> MIDI_EventPacket_t list \<Rightarrow> 'h \<Rightarrow> (ep_error \<times> 'h) option" where
  "send_events io c [] s = MIDI_Device_Flush io c s"
| "send_events io c (e # es) s =
     do {
       (r, s) \<leftarrow> MIDI_Device_SendEventPacket io c e s;
       if r \<noteq> EP_NoError then Some (r, s) else send_events io c es s
     }"

text \<open>Packets that hold whole events and at least one.\<close>

definition whole_events :: "nat \<Rightarrow> u8 list list \<Rightarrow> bool" where
  "whole_events n ps \<longleftrightarrow> (\<forall>p\<in>set ps. p \<noteq> [] \<and> 4 dvd length p \<and> length p \<le> n)"

context usb_bus
begin

lemma send_events:
  assumes "DataINEndpointNumber c = n" "n \<le> 7" "midi_in ((get s)\<lparr>uenum := n\<rparr>)"
  shows "\<exists>v ps. send_events io c es s = Some (EP_NoError, put v s) \<and> usb_frame ((get s)\<lparr>uenum := n\<rparr>) v \<and> fifo (cur v) = [] \<and>
    queue (cur v) = queue (ep (get s) n) @ ps \<and> concat ps = fifo (ep (get s) n) @ concat (map event_bytes es) \<and>
    whole_events (ep_size (get s)) ps"
  using assms(3)
proof (induction es arbitrary: s)
  case Nil
  obtain v where "MIDI_Device_Flush io c s = Some (EP_NoError, put v s)" "usb_frame ((get s)\<lparr>uenum := n\<rparr>) v" "fifo (cur v) = []"
    "queue (cur v) = queue (ep (get s) n) @ (if fifo (ep (get s) n) = [] then [] else [fifo (ep (get s) n)])"
    using midi_flush [OF assms(1,2) Nil] by blast
  then show ?case
    using Nil by (intro exI [of _ v] exI [of _ "if fifo (ep (get s) n) = [] then [] else [fifo (ep (get s) n)]"])
      (auto simp: whole_events_def midi_in_def)
next
  case (Cons e es)
  let ?u = "(get s)\<lparr>uenum := n\<rparr>" and ?e = "ep (get s) n"
  obtain v where v: "MIDI_Device_SendEventPacket io c e s = Some (EP_NoError, put v s)" "usb_frame ?u v" "midi_in v"
    "queue (cur v) = queue ?e \<and> fifo (cur v) = fifo ?e @ event_bytes e \<or>
     queue (cur v) = queue ?e @ [fifo ?e @ event_bytes e] \<and> fifo (cur v) = []"
    using midi_send [OF assms(1,2) Cons.prems] by blast
  have fv: "uenum v = n" "ep_size v = ep_size (get s)" using frame_cur [OF v(2)] by simp_all
  then have cv: "v\<lparr>uenum := n\<rparr> = v" "cur v = ep v n" by (simp_all add: cur_def)
  obtain w ps where w: "send_events io c es (put v s) = Some (EP_NoError, put w s)" "usb_frame v w" "fifo (cur w) = []"
    "queue (cur w) = queue (cur v) @ ps" "concat ps = fifo (cur v) @ concat (map event_bytes es)" "whole_events (ep_size (get s)) ps"
    using Cons.IH [of "put v s"] v(3) cv fv by (auto simp: get_put put_put)
  have r: "send_events io c (e # es) s = Some (EP_NoError, put w s)" "usb_frame ?u w"
    using v(1) w(1) usb_frame_trans [OF v(2) w(2)] by simp_all
  have p: "whole_events (ep_size (get s)) [fifo ?e @ event_bytes e]"
    using Cons.prems room [of "length (fifo ?e)" "ep_size (get s)"] by (auto simp: whole_events_def midi_in_def)
  from v(4) show ?case
  proof (elim disjE conjE)
    assume "queue (cur v) = queue ?e" "fifo (cur v) = fifo ?e @ event_bytes e"
    then show ?thesis using r w by (intro exI [of _ w] exI [of _ ps]) simp
  next
    assume "queue (cur v) = queue ?e @ [fifo ?e @ event_bytes e]" "fifo (cur v) = []"
    then show ?thesis using r w p by (intro exI [of _ w] exI [of _ "(fifo ?e @ event_bytes e) # ps"]) (simp add: whole_events_def)
  qed
qed

end

section \<open>Receiving\<close>

text \<open>An OUT endpoint whose packets hold whole events.\<close>

definition midi_out :: "usb \<Rightarrow> bool" where
  "midi_out u \<longleftrightarrow> attached u \<and> dev_state u = DEVICE_STATE_Configured \<and> \<not> ep_in (cur u) \<and>
     (if bank (cur u) then fifo (cur u) \<noteq> [] else avail u = []) \<and> 4 dvd length (fifo (cur u)) \<and>
     (\<forall>p\<in>set (queue (cur u)). p \<noteq> [] \<and> 4 dvd length p)"

text \<open>What one attempt to receive an event does; the delay makes the attempts before the packet is there finitely many.\<close>

definition midi_measure :: "usb \<Rightarrow> nat \<times> nat" where
  "midi_measure u = (length (avail u), delay (cur u))"

definition midi_got :: "usb \<Rightarrow> MIDI_EventPacket_t option \<Rightarrow> usb \<Rightarrow> bool" where
  "midi_got u r v \<longleftrightarrow> midi_out v \<and> usb_frame u v \<and>
     (case r of None \<Rightarrow> avail v = avail u \<and> (avail u = [] \<or> delay (cur v) < delay (cur u))
      | Some e \<Rightarrow> avail u = event_bytes e @ avail v)"

lemma first_event:
  assumes "concat (map event_bytes evs) = f @ r" "f \<noteq> []" "4 dvd length f"
  obtains e es where "evs = e # es" "take 4 f = event_bytes e" "concat (map event_bytes es) = drop 4 f @ r"
proof -
  have l: "4 \<le> length f" using assms(2,3) by (simp add: dvd_imp_le)
  obtain e es where [simp]: "evs = e # es" using assms(1,2) by (cases evs) auto
  have "event_bytes e @ concat (map event_bytes es) = take 4 f @ (drop 4 f @ r)" using assms(1) by simp
  then have "event_bytes e = take 4 f" "concat (map event_bytes es) = drop 4 f @ r"
    using l by (simp_all only: append_eq_append_conv length_event_bytes length_take min_absorb2 simp_thms)
  then show thesis using that [of e es] by simp
qed

lemma midi_out_poll:
  assumes "midi_out u"
  shows "midi_out (poll u)" "avail (poll u) = avail u" "delay (cur (poll u)) = delay (cur u) - 1"
proof -
  have p: "cur (poll u) = (cur u)\<lparr>delay := delay (cur u) - 1\<rparr>" by (simp add: poll_def)
  show a: "avail (poll u) = avail u" by (simp add: avail_def p)
  show "delay (cur (poll u)) = delay (cur u) - 1" by (simp add: p)
  have "attached (poll u)"
    using assms frame_cur [OF ub.frame_poll(1) [of u]] by (auto simp: midi_out_def attached_def p)
  then show "midi_out (poll u)"
    using assms frame_cur [OF ub.frame_poll(1) [of u]] unfolding midi_out_def a p by simp
qed

context usb_bus
begin

lemma midi_receive:
  assumes "DataOUTEndpointNumber c = m" "m \<le> 7" "midi_out ((get s)\<lparr>uenum := m\<rparr>)"
    "avail ((get s)\<lparr>uenum := m\<rparr>) = concat (map event_bytes evs)"
  shows "\<exists>r e' v. MIDI_Device_ReceiveEventPacket io c e0 s = Some (r \<noteq> None, e', put v s) \<and> (\<forall>e. r = Some e \<longrightarrow> e' = e) \<and>
    midi_got ((get s)\<lparr>uenum := m\<rparr>) r v"
proof -
  let ?u = "(get s)\<lparr>uenum := m\<rparr>"
  let ?f = "fifo (cur ?u)"
  have u: "uenum ?u \<noteq> 0" "attached ?u" "\<not> ep_in (cur ?u)" "dev_state (get s) = DEVICE_STATE_Configured" "4 dvd length ?f"
    using assms(3) by (simp_all add: midi_out_def attached_def)
  have rw: "Endpoint_IsReadWriteAllowed io (put ?u s) = (bank_ready (cur ?u) \<and> ?f \<noteq> [], put (poll ?u) s)"
    using rwa [of "put ?u s"] u by (simp add: get_put put_put)
  show ?thesis
  proof (cases "bank_ready (cur ?u) \<and> ?f \<noteq> []")
    case False
    have "MIDI_Device_ReceiveEventPacket io c e0 s = Some (False, e0, put (poll ?u) s)"
      using u(4) assms(1,2) rw False by (simp add: MIDI_Device_ReceiveEventPacket_def dev_state select)
    moreover have "avail ?u = [] \<or> 0 < delay (cur ?u)"
      using False assms(3) by (auto simp: midi_out_def bank_ready_def split: if_splits)
    then have "midi_got ?u None (poll ?u)"
      using midi_out_poll [OF assms(3)] frame_poll(1) [of ?u] by (simp add: midi_got_def) linarith
    ultimately show ?thesis by (intro exI [of _ None] exI [of _ e0] exI [of _ "poll ?u"]) simp
  next
    case True
    note rdy = True
    have bk: "bank (cur ?u)" "delay (cur ?u) = 0" using True by (simp_all add: bank_ready_def)
    have o: "out_open ?u" using u True by (simp add: out_open_def)
    obtain e es where e: "evs = e # es" "take 4 ?f = event_bytes e" "concat (map event_bytes es) = drop 4 ?f @ concat (queue (cur ?u))"
      using first_event [of evs ?f "concat (queue (cur ?u))"] assms(4) True u(5) by (auto simp: avail_def)
    have l: "4 \<le> length ?f" using True u(5) by (simp add: dvd_imp_le)
    have "\<exists>v. Endpoint_Read_Stream_LE io None 4 (put ?u s) = Some (EP_NoError, take 4 ?f, put v s) \<and> usb_frame ?u v \<and>
        cur v = (cur ?u)\<lparr>delay := 0, fifo := drop 4 ?f\<rparr>"
      using read_within [of "put ?u s" 4 None] u bk l by (simp add: get_put put_put)
    then obtain v where v: "Endpoint_Read_Stream_LE io None 4 (put ?u s) = Some (EP_NoError, event_bytes e, put v s)"
      "usb_frame ?u v" "cur v = (cur ?u)\<lparr>delay := 0, fifo := drop 4 ?f\<rparr>" unfolding e(2) by blast
    note rd = v(1) and fv = v(2)
    have cv: "cur v = (cur ?u)\<lparr>fifo := drop 4 ?f\<rparr>" using v(3) bk(2) by simp
    have ov: "out_open v" using o cv frame_cur [OF fv] by (simp add: out_open_def attached_def bank_ready_def)
    have rv: "Endpoint_IsReadWriteAllowed io (put v s) = (drop 4 ?f \<noteq> [], put v s)"
      using rwa [of "put v s"] ov cv by (simp add: get_put put_put poll_ready out_open_def attached_def)
    have ev: "event_of (event_bytes e @ drop (length (event_bytes e)) (event_bytes e0)) = e" by simp
    have dv: "4 dvd length (drop 4 ?f)" using u(5) l by (simp add: dvd_minus_self)
    have pu: "put (poll ?u) s = put ?u s" using True by (simp add: poll_ready)
    show ?thesis
    proof (cases "drop 4 ?f = []")
      case False
      have "MIDI_Device_ReceiveEventPacket io c e0 s = Some (True, e, put v s)"
        using u(4) assms(1,2) rw True rd rv False ev pu by (simp add: MIDI_Device_ReceiveEventPacket_def dev_state select)
      moreover have "midi_out v"
        using assms(3) ov frame_cur [OF fv] bk False dv unfolding midi_out_def cv by (simp add: out_open_def)
      then have "midi_got ?u (Some e) v"
        using fv cv e(2) append_take_drop_id [of 4 ?f] by (simp add: midi_got_def avail_def)
      ultimately show ?thesis by (intro exI [of _ "Some e"] exI [of _ e] exI [of _ v]) simp
    next
      case True
      let ?n = "next_bank v"
      have cl: "Endpoint_ClearOUT io (put v s) = put ?n s"
        using clear_bank(1) [of "put v s"] ov by (simp add: get_put put_put out_open_def attached_def)
      have "MIDI_Device_ReceiveEventPacket io c e0 s = Some (True, e, put ?n s)"
        using u(4) assms(1,2) rw rdy rd rv True ev pu cl
        by (simp add: MIDI_Device_ReceiveEventPacket_def dev_state select)
      moreover have fn: "usb_frame ?u ?n" using fv by (rule usb_frame_trans) (simp add: next_bank_def)
      moreover have cn: "cur ?n = (case queue (cur ?u) of [] \<Rightarrow> (cur ?u)\<lparr>fifo := [], bank := False\<rparr>
          | p # ps \<Rightarrow> (cur ?u)\<lparr>fifo := p, delay := lat (get s), queue := ps\<rparr>)"
        using cv u(3) frame_cur [OF fv] by (simp add: next_bank_def release_def split: list.split)
      have av: "avail ?n = concat (queue (cur ?u))" using cn by (cases "queue (cur ?u)") (simp_all add: avail_def)
      have "attached ?n"
        using cn u(2) frame_cur [OF fn] by (cases "queue (cur ?u)") (simp_all add: attached_def)
      then have "midi_out ?n"
        using assms(3) bk(1) frame_cur [OF fn] unfolding midi_out_def cn av by (cases "queue (cur ?u)") auto
      then have "midi_got ?u (Some e) ?n"
        using fn av e(2) True append_take_drop_id [of 4 ?f] by (simp add: midi_got_def avail_def)
      ultimately show ?thesis by (intro exI [of _ "Some e"] exI [of _ e] exI [of _ ?n]) simp
    qed
  qed
qed

end

text \<open>An application that asks \<open>k\<close> times for an event, always with the same structure.\<close>

fun poll_events :: "'h mmio \<Rightarrow> MIDI_Config \<Rightarrow> MIDI_EventPacket_t \<Rightarrow> nat \<Rightarrow> 'h \<Rightarrow> (MIDI_EventPacket_t list \<times> 'h) option" where
  "poll_events io c e 0 s = Some ([], s)"
| "poll_events io c e (Suc k) s =
     do {
       (r, e, s) \<leftarrow> MIDI_Device_ReceiveEventPacket io c e s;
       (es, s) \<leftarrow> poll_events io c e k s;
       Some (if r then e # es else es, s)
     }"

context usb_bus
begin

lemma poll_events:
  assumes "DataOUTEndpointNumber c = m" "m \<le> 7" "midi_out ((get s)\<lparr>uenum := m\<rparr>)"
    "avail ((get s)\<lparr>uenum := m\<rparr>) = concat (map event_bytes evs)"
  shows "\<exists>got v. poll_events io c e0 k s = Some (got, put v s) \<and>
    avail ((get s)\<lparr>uenum := m\<rparr>) = concat (map event_bytes got) @ avail (v\<lparr>uenum := m\<rparr>)"
  using assms(3,4)
proof (induction k arbitrary: s e0 evs)
  case 0
  then show ?case by (intro exI [of _ "[]"] exI [of _ "get s"]) (simp add: put_get)
next
  case (Suc k)
  let ?u = "(get s)\<lparr>uenum := m\<rparr>"
  obtain r e v where v: "MIDI_Device_ReceiveEventPacket io c e0 s = Some (r \<noteq> None, e, put v s)" "\<forall>x. r = Some x \<longrightarrow> e = x" "midi_got ?u r v"
    using midi_receive [OF assms(1,2) Suc.prems, of e0] by blast
  have f: "midi_out v" "v\<lparr>uenum := m\<rparr> = v" using v(3) frame_cur [of ?u v] by (auto simp: midi_got_def)
  have "\<exists>evs. avail v = concat (map event_bytes evs)"
  proof (cases r)
    case None
    then show ?thesis using v(3) Suc.prems(2) by (auto simp: midi_got_def)
  next
    case (Some x)
    then have "concat (map event_bytes evs) = concat (map event_bytes [x]) @ avail v" using v(3) Suc.prems(2) by (simp add: midi_got_def)
    from events_prefix [OF this] obtain more where "evs = x # more" by auto
    then have "avail v = concat (map event_bytes more)" using v(3) Suc.prems(2) Some by (simp add: midi_got_def)
    then show ?thesis by blast
  qed
  then obtain rest where "avail v = concat (map event_bytes rest)" by blast
  then obtain got w where w: "poll_events io c e k (put v s) = Some (got, put w s)"
    "avail v = concat (map event_bytes got) @ avail (w\<lparr>uenum := m\<rparr>)"
    using Suc.IH [of "put v s" rest e] f by (auto simp: get_put put_put)
  show ?case
    using v w by (cases r) (auto simp: midi_got_def)
qed

lemma poll_all_events:
  assumes "DataOUTEndpointNumber c = m" "m \<le> 7" "midi_out ((get s)\<lparr>uenum := m\<rparr>)"
    "avail ((get s)\<lparr>uenum := m\<rparr>) = concat (map event_bytes evs)"
  shows "\<exists>k v. poll_events io c e0 k s = Some (evs, put v s)"
  using assms(3,4)
proof (induction "midi_measure ((get s)\<lparr>uenum := m\<rparr>)" arbitrary: s e0 evs
    rule: wf_induct_rule [OF wf_lex_prod [OF wf_less_than wf_less_than]])
  case 1
  let ?u = "(get s)\<lparr>uenum := m\<rparr>"
  show ?case
  proof (cases "evs = []")
    case True
    then show ?thesis by (intro exI [of _ 0] exI [of _ "get s"]) (simp add: put_get)
  next
    case False
    then have ne: "avail ?u \<noteq> []" using 1(3) by (cases evs) auto
    obtain r e v where v: "MIDI_Device_ReceiveEventPacket io c e0 s = Some (r \<noteq> None, e, put v s)" "\<forall>x. r = Some x \<longrightarrow> e = x" "midi_got ?u r v"
      using midi_receive [OF assms(1,2) 1(2,3), of e0] by blast
    have f: "midi_out v" "v\<lparr>uenum := m\<rparr> = v" using v(3) frame_cur [of ?u v] by (auto simp: midi_got_def)
    obtain rest where rest: "avail v = concat (map event_bytes rest)" "evs = (case r of None \<Rightarrow> rest | Some x \<Rightarrow> x # rest)"
      "(midi_measure v, midi_measure ?u) \<in> less_than <*lex*> less_than"
    proof (cases r)
      case None
      then show thesis using that [of evs] v(3) 1(3) ne by (auto simp: midi_got_def midi_measure_def)
    next
      case (Some x)
      then have a: "avail ?u = event_bytes x @ avail v" using v(3) by (simp add: midi_got_def)
      then have "concat (map event_bytes evs) = concat (map event_bytes [x]) @ avail v" using 1(3) by simp
      from events_prefix [OF this] obtain more where "evs = x # more" by auto
      then show thesis using that [of more] a 1(3) Some by (auto simp: midi_measure_def)
    qed
    have "\<exists>k w. poll_events io c e k (put v s) = Some (rest, put w (put v s))"
      by (rule 1(1)) (use f rest(1,3) in \<open>simp_all add: get_put\<close>)
    then obtain k w where "poll_events io c e k (put v s) = Some (rest, put w s)" by (auto simp: put_put)
    then have "poll_events io c e0 (Suc k) s = Some (evs, put w s)"
      using v(1,2) rest(2) by (cases r) auto
    then show ?thesis by blast
  qed
qed

end

section \<open>The driver on the board\<close>

text \<open>
  C32. Events sent to the host and flushed arrive in order in packets that hold whole events, and a
  device that is given the same packets polls exactly these events, in order: never others, however
  often it asks, and all of them after finitely many questions.
\<close>

theorem midi_events_round_trip:
  assumes "dev_state (dusb s) = DEVICE_STATE_Configured" "DataINEndpointNumber c = n" "n \<le> 7"
    "in_open ((dusb s)\<lparr>uenum := n\<rparr>)" "fifo (ep (dusb s) n) = []" "4 dvd ep_size (dusb s)" "ep_size (dusb s) < 65536"
    "dev_state (dusb u) = DEVICE_STATE_Configured" "DataOUTEndpointNumber c2 = m" "m \<le> 7"
    "attached ((dusb u)\<lparr>uenum := m\<rparr>)" "\<not> ep_in (ep (dusb u) m)" "bank (ep (dusb u) m)"
  shows "\<exists>s' ps. send_events bio c evs s = Some (EP_NoError, s') \<and>
    queue (ep (dusb s') n) = queue (ep (dusb s) n) @ ps \<and> fifo (ep (dusb s') n) = [] \<and>
    concat ps = concat (map event_bytes evs) \<and> (\<forall>p\<in>set ps. 4 dvd length p \<and> length p \<le> ep_size (dusb s)) \<and>
    (fifo (ep (dusb u) m) # queue (ep (dusb u) m) = ps \<longrightarrow>
       (\<forall>k. \<exists>got rest t. poll_events bio c2 e0 k u = Some (got, t) \<and> evs = got @ rest) \<and>
       (\<exists>k t. poll_events bio c2 e0 k u = Some (evs, t)))"
proof -
  have "midi_in ((dusb s)\<lparr>uenum := n\<rparr>)"
    using assms(1,4-7) by (simp add: midi_in_def in_open_def bank_ready_def)
  from ub.send_events [OF assms(2,3) this, of evs] assms(5) obtain v ps where
    v: "send_events bio c evs s = Some (EP_NoError, s\<lparr>dusb := v\<rparr>)" "usb_frame ((dusb s)\<lparr>uenum := n\<rparr>) v" "fifo (cur v) = []"
    "queue (cur v) = queue (ep (dusb s) n) @ ps" "concat ps = concat (map event_bytes evs)" "whole_events (ep_size (dusb s)) ps"
    by auto
  have cv: "cur v = ep v n" using frame_cur [OF v(2)] by (simp add: cur_def)
  have poll: "(\<forall>k. \<exists>got rest t. poll_events bio c2 e0 k u = Some (got, t) \<and> evs = got @ rest) \<and>
      (\<exists>k t. poll_events bio c2 e0 k u = Some (evs, t))" if p: "fifo (ep (dusb u) m) # queue (ep (dusb u) m) = ps"
  proof -
    let ?u = "(dusb u)\<lparr>uenum := m\<rparr>"
    have o: "midi_out ?u" using assms(8,11-13) v(6) p [symmetric] by (simp add: midi_out_def whole_events_def)
    have a: "avail ?u = concat (map event_bytes evs)" using v(5) p [symmetric] by (simp add: avail_def)
    have "\<exists>got rest t. poll_events bio c2 e0 k u = Some (got, t) \<and> evs = got @ rest" for k
    proof -
      obtain got w where "poll_events bio c2 e0 k u = Some (got, u\<lparr>dusb := w\<rparr>)"
        "concat (map event_bytes evs) = concat (map event_bytes got) @ avail (w\<lparr>uenum := m\<rparr>)"
        using ub.poll_events [OF assms(9,10) o a, of e0 k] unfolding a by blast
      then show ?thesis using events_prefix by blast
    qed
    moreover have "\<exists>k t. poll_events bio c2 e0 k u = Some (evs, t)"
      using ub.poll_all_events [OF assms(9,10) o a] by blast
    ultimately show ?thesis by blast
  qed
  show ?thesis
    using v cv poll by (intro exI [of _ "s\<lparr>dusb := v\<rparr>"] exI [of _ ps]) (auto simp: whole_events_def)
qed

definition keyboard :: MIDI_Config where
  "keyboard = \<lparr>StreamingInterfaceNumber = 1, DataINEndpointNumber = 3, DataINEndpointSize = 64, DataINEndpointDoubleBank = False,
     DataOUTEndpointNumber = 4, DataOUTEndpointSize = 64, DataOUTEndpointDoubleBank = False\<rparr>"

definition note_on :: "u8 \<Rightarrow> MIDI_EventPacket_t" where
  "note_on pitch = \<lparr>Command = 9, CableNumber = 0, Data1 = 0x90, Data2 = pitch, Data3 = 64\<rparr>"

theorem midi_events_round_trip_witness:
  "\<exists>s' k t. send_events bio keyboard [note_on 60, note_on 64] (waiting_board [] []) = Some (EP_NoError, s') \<and>
    poll_events bio keyboard (note_on 0) k (waiting_board (hd (queue (ep (dusb s') 3))) (tl (queue (ep (dusb s') 3)))) =
      Some ([note_on 60, note_on 64], t)"
proof -
  let ?s = "waiting_board [] []" and ?evs = "[note_on 60, note_on 64]"
  have c: "DataINEndpointNumber keyboard = 3" "(3 :: u8) \<le> 7" "DataOUTEndpointNumber keyboard = 4" "(4 :: u8) \<le> 7"
    by (simp_all add: keyboard_def)
  have s: "dev_state (dusb ?s) = DEVICE_STATE_Configured" "in_open ((dusb ?s)\<lparr>uenum := 3\<rparr>)" "fifo (ep (dusb ?s) 3) = []"
    "4 dvd ep_size (dusb ?s)" "ep_size (dusb ?s) < 65536" "queue (ep (dusb ?s) 3) = []"
    by (simp_all add: waiting_board_def in_open_def attached_def bank_ready_def cur_def)
  have u: "dev_state (dusb (waiting_board p ps)) = DEVICE_STATE_Configured" "attached ((dusb (waiting_board p ps))\<lparr>uenum := 4\<rparr>)"
    "\<not> ep_in (ep (dusb (waiting_board p ps)) 4)" "bank (ep (dusb (waiting_board p ps)) 4)"
    "fifo (ep (dusb (waiting_board p ps)) 4) # queue (ep (dusb (waiting_board p ps)) 4) = p # ps" for p ps
    by (simp_all add: waiting_board_def attached_def cur_def)
  note round = midi_events_round_trip [OF s(1) c(1,2) s(2-5) u(1) c(3,4) u(2-4), where evs = ?evs and ?e0.0 = "note_on 0", unfolded s(6) u(5)]
  obtain s' where s': "send_events bio keyboard ?evs ?s = Some (EP_NoError, s')" using round by blast
  let ?ps = "queue (ep (dusb s') 3)"
  have "concat ?ps = concat (map event_bytes ?evs)" using round s' by auto
  then have "?ps \<noteq> []" by auto
  then show ?thesis using round [of "hd ?ps" "tl ?ps"] s' by auto
qed

text \<open>
  A packet without bytes blocks the OUT endpoint: the driver never releases its bank, so every
  question for an event is answered with no, whatever is queued behind the packet.
\<close>

theorem midi_empty_packet_blocks:
  assumes "DataOUTEndpointNumber c = m" "m \<le> 7" "m \<noteq> 0"
    "\<not> ep_in (ep (dusb s) m)" "bank (ep (dusb s) m)" "fifo (ep (dusb s) m) = []"
  shows "\<exists>t. poll_events bio c e k s = Some ([], t) \<and> bank (ep (dusb t) m) \<and> fifo (ep (dusb t) m) = [] \<and>
    queue (ep (dusb t) m) = queue (ep (dusb s) m)"
  using assms(4-6)
proof (induction k arbitrary: s e)
  case (Suc k)
  let ?u = "(dusb s)\<lparr>uenum := m\<rparr>" and ?on = "dev_state (dusb s) = DEVICE_STATE_Configured"
  let ?t = "if ?on then s\<lparr>dusb := poll ?u\<rparr> else s"
  have rw: "Endpoint_IsReadWriteAllowed bio (s\<lparr>dusb := ?u\<rparr>) = (False, s\<lparr>dusb := poll ?u\<rparr>)"
    using ub.rwa [of "s\<lparr>dusb := ?u\<rparr>"] assms(3) Suc.prems by simp
  have "MIDI_Device_ReceiveEventPacket bio c e s = Some (False, e, ?t)"
    using assms(1,2) rw by (simp add: MIDI_Device_ReceiveEventPacket_def ub.dev_state ub.select)
  moreover have "ep (poll ?u) m = (ep (dusb s) m)\<lparr>delay := delay (ep (dusb s) m) - 1\<rparr>" by (simp add: poll_def upd_cur_def cur_def)
  then have "\<not> ep_in (ep (dusb ?t) m)" "bank (ep (dusb ?t) m)" "fifo (ep (dusb ?t) m) = []" "queue (ep (dusb ?t) m) = queue (ep (dusb s) m)"
    using Suc.prems by simp_all
  ultimately show ?case using Suc.IH [of ?t e] by auto
qed simp

theorem midi_empty_packet_blocks_witness:
  "\<exists>t. poll_events bio keyboard (note_on 0) 1000 (waiting_board [] [event_bytes (note_on 60)]) = Some ([], t) \<and>
    queue (ep (dusb t) 4) = [event_bytes (note_on 60)]"
proof -
  let ?s = "waiting_board [] [event_bytes (note_on 60)]"
  have c: "DataOUTEndpointNumber keyboard = 4" "(4 :: u8) \<le> 7" "(4 :: u8) \<noteq> 0" by (simp_all add: keyboard_def)
  have s: "\<not> ep_in (ep (dusb ?s) 4)" "bank (ep (dusb ?s) 4)" "fifo (ep (dusb ?s) 4) = []" "queue (ep (dusb ?s) 4) = [event_bytes (note_on 60)]"
    by (simp_all add: waiting_board_def)
  show ?thesis using midi_empty_packet_blocks [OF c s(1-3), of "note_on 0" 1000] unfolding s(4) by blast
qed

end
