(* ===== verification/Audio_Device.thy ===== *)
theory Audio_Device
  imports Endpoint Class_Common
begin

text \<open>
  The device-mode Audio class driver, \<open>LUFA/Drivers/USB/Class/Device/Audio.c\<close> and the sample functions
  of \<open>Audio.h\<close>.  Signed samples are words read in two's complement.
\<close>

section \<open>The interface structure\<close>

record Audio_Config =
  StreamingInterfaceNumber :: u8
  DataINEndpointNumber :: u8
  DataINEndpointSize :: u16
  DataOUTEndpointNumber :: u8
  DataOUTEndpointSize :: u16

record Audio_State =
  InterfaceEnabled :: bool

definition zero_audio :: Audio_State where
  "zero_audio = \<lparr>InterfaceEnabled = False\<rparr>"

section \<open>Requests and configuration\<close>


text \<open>\<open>REQDIR_HOSTTODEVICE | REQTYPE_STANDARD | REQREC_INTERFACE\<close>\<close>

abbreviation (input) STANDARD_INTERFACE_OUT :: u8 where "STANDARD_INTERFACE_OUT \<equiv> 1"

definition Audio_Device_ProcessControlRequest ::
    "'h mmio \<Rightarrow> Audio_Config \<Rightarrow> USB_Request_Header_t \<Rightarrow> Audio_State \<Rightarrow> 'h \<Rightarrow> (Audio_State \<times> 'h) option" where
  "Audio_Device_ProcessControlRequest io c req d s =
     (let (setup, s) = Endpoint_IsSETUPReceived io s
      in if \<not> setup then Some (d, s)
      else if wIndex req \<noteq> ucast (StreamingInterfaceNumber c) then Some (d, s)
      else if bRequest req = REQ_SetInterface then
        (if bmRequestType req = STANDARD_INTERFACE_OUT then
           do {
             let s = Endpoint_ClearSETUP io s;
             let d = d\<lparr>InterfaceEnabled := wValue req AND 0xFF \<noteq> 0\<rparr>;
             s \<leftarrow> Endpoint_ClearStatusStage io req s;
             Some (d, s)
           }
         else Some (d, s))
      else Some (d, s))"

definition Audio_Device_ConfigureEndpoints :: "'h mmio \<Rightarrow> Audio_Config \<Rightarrow> Audio_State \<Rightarrow> 'h \<Rightarrow> (bool \<times> Audio_State \<times> 'h) option" where
  "Audio_Device_ConfigureEndpoints io c d s =
     do {
       let d = zero_audio;
       (ok, s) \<leftarrow> (if DataINEndpointNumber c \<noteq> 0
          then Endpoint_ConfigureEndpoint io (DataINEndpointNumber c) EP_TYPE_ISOCHRONOUS ENDPOINT_DIR_IN
                 (DataINEndpointSize c) ENDPOINT_BANK_DOUBLE s
          else Some (True, s));
       if \<not> ok then Some (False, d, s) else do {
       (ok, s) \<leftarrow> (if DataOUTEndpointNumber c \<noteq> 0
          then Endpoint_ConfigureEndpoint io (DataOUTEndpointNumber c) EP_TYPE_ISOCHRONOUS ENDPOINT_DIR_OUT
                 (DataOUTEndpointSize c) ENDPOINT_BANK_DOUBLE s
          else Some (True, s));
       if \<not> ok then Some (False, d, s) else Some (True, d, s) }
     }"

definition Audio_Device_USBTask :: "Audio_Config \<Rightarrow> Audio_State \<Rightarrow> 'h \<Rightarrow> 'h" where
  "Audio_Device_USBTask c d s = s"

definition Audio_Device_IsSampleReceived :: "'h mmio \<Rightarrow> Audio_Config \<Rightarrow> Audio_State \<Rightarrow> 'h \<Rightarrow> bool \<times> 'h" where
  "Audio_Device_IsSampleReceived io c d s =
     (let (configured, s) = device_state_is io DEVICE_STATE_Configured s
      in if \<not> configured \<or> \<not> InterfaceEnabled d then (False, s)
         else Endpoint_IsOUTReceived io (Endpoint_SelectEndpoint io (DataOUTEndpointNumber c) s))"

definition Audio_Device_IsReadyForNextSample :: "'h mmio \<Rightarrow> Audio_Config \<Rightarrow> Audio_State \<Rightarrow> 'h \<Rightarrow> bool \<times> 'h" where
  "Audio_Device_IsReadyForNextSample io c d s =
     (let (configured, s) = device_state_is io DEVICE_STATE_Configured s
      in if \<not> configured \<or> \<not> InterfaceEnabled d then (False, s)
         else Endpoint_IsINReady io (Endpoint_SelectEndpoint io (DataINEndpointNumber c) s))"

section \<open>Samples\<close>

text \<open>An OUT bank is released when its last byte has been read.\<close>

definition release_when_empty :: "'h mmio \<Rightarrow> 'h \<Rightarrow> 'h" where
  "release_when_empty io s =
     (let (n, s) = Endpoint_BytesInEndpoint io s in if n = 0 then Endpoint_ClearOUT io s else s)"

definition Audio_Device_ReadSample8 :: "'h mmio \<Rightarrow> 'h \<Rightarrow> 8 word \<times> 'h" where
  "Audio_Device_ReadSample8 io s =
     (let (Sample, s) = Endpoint_Read_Byte io s in (Sample, release_when_empty io s))"

definition Audio_Device_ReadSample16 :: "'h mmio \<Rightarrow> 'h \<Rightarrow> 16 word \<times> 'h" where
  "Audio_Device_ReadSample16 io s =
     (let (Sample, s) = Endpoint_Read_Word_LE io s in (Sample, release_when_empty io s))"

text \<open>
  C does not fix the order in which the operands of \<open>|\<close> are evaluated; \<open>byte_first\<close> tells whether the
  compiler reads the byte before the word.
\<close>

definition Audio_Device_ReadSample24 :: "'h mmio \<Rightarrow> bool \<Rightarrow> 'h \<Rightarrow> 32 word \<times> 'h" where
  "Audio_Device_ReadSample24 io byte_first s =
     (let (high, low, s) =
            (if byte_first
             then let (high, s) = Endpoint_Read_Byte io s; (low, s) = Endpoint_Read_Word_LE io s in (high, low, s)
             else let (low, s) = Endpoint_Read_Word_LE io s; (high, s) = Endpoint_Read_Byte io s in (high, low, s));
          Sample = push_bit 16 (ucast high) OR ucast low
      in (Sample, release_when_empty io s))"

text \<open>An IN bank is released when it holds as many bytes as the endpoint.\<close>

definition send_when_full :: "'h mmio \<Rightarrow> Audio_Config \<Rightarrow> 'h \<Rightarrow> 'h" where
  "send_when_full io c s =
     (let (n, s) = Endpoint_BytesInEndpoint io s in if n = DataINEndpointSize c then Endpoint_ClearIN io s else s)"

definition Audio_Device_WriteSample8 :: "'h mmio \<Rightarrow> Audio_Config \<Rightarrow> 8 word \<Rightarrow> 'h \<Rightarrow> 'h" where
  "Audio_Device_WriteSample8 io c Sample s = send_when_full io c (Endpoint_Write_Byte io Sample s)"

definition Audio_Device_WriteSample16 :: "'h mmio \<Rightarrow> Audio_Config \<Rightarrow> 16 word \<Rightarrow> 'h \<Rightarrow> 'h" where
  "Audio_Device_WriteSample16 io c Sample s = send_when_full io c (Endpoint_Write_Word_LE io Sample s)"

definition Audio_Device_WriteSample24 :: "'h mmio \<Rightarrow> Audio_Config \<Rightarrow> 32 word \<Rightarrow> 'h \<Rightarrow> 'h" where
  "Audio_Device_WriteSample24 io c Sample s =
     send_when_full io c (Endpoint_Write_Word_LE io (ucast Sample)
       (Endpoint_Write_Byte io (ucast (signed_drop_bit 16 Sample)) s))"

end
