(* ===== verification/Audio_Props.thy ===== *)
theory Audio_Props
  imports Control_Props Audio_Device
begin

text \<open>
  The Audio driver on the board: the streaming interface is switched on and off by the host, and
  24-bit samples written to one interface and read from another.
\<close>

section \<open>Bytes of the selected bank\<close>

context usb_bus
begin

lemma write_byte_dev:
  assumes "uenum (get s) \<noteq> 0" "ep_in (cur (get s))" "length (fifo (cur (get s))) < ep_size (get s)"
  shows "io_wr io UEDATX b s = put (upd_cur (\<lambda>e. e\<lparr>fifo := fifo e @ [b]\<rparr>) (get s)) s"
  using assms by (simp add: wr_bulk bulk_regs_def usb_wr_def)

lemma read_byte_dev:
  assumes "uenum (get s) \<noteq> 0" "fifo (cur (get s)) = b # bs"
  shows "io_rd io UEDATX s = (b, put (upd_cur (\<lambda>e. e\<lparr>fifo := bs\<rparr>) (get s)) s)"
  using assms by (simp add: rd_bulk bulk_regs_def usb_rd_def)

end

section \<open>Samples of 24 bits\<close>

text \<open>The driver sends the upper byte first and the lower two bytes after it, the lowest first.\<close>

definition sample24 :: "32 word \<Rightarrow> u8 list" where
  "sample24 x = [ucast (drop_bit 16 x), ucast x, ucast (drop_bit 8 x)]"

lemma sample24_written: "[ucast (signed_drop_bit 16 x), ucast ((ucast x :: u16) AND 0xFF), ucast (drop_bit 8 (ucast x :: u16))] = sample24 x"
proof -
  have m: "(0xFF :: u16) = mask 8" by (simp add: mask_eq_exp_minus_1)
  have "ucast (signed_drop_bit 16 x) = (ucast (drop_bit 16 x) :: u8)"
    by (rule bit_word_eqI) (auto simp: bit_simps dest: bit_imp_le_length)
  moreover have "ucast ((ucast x :: u16) AND 0xFF) = (ucast x :: u8)" "ucast (drop_bit 8 (ucast x :: u16)) = (ucast (drop_bit 8 x) :: u8)"
    unfolding m by (rule bit_word_eqI, auto simp: bit_simps)+
  ultimately show ?thesis by (simp add: sample24_def)
qed

text \<open>What is read back are the lower 24 bits: the sign of a negative sample is lost.\<close>

lemma sample24_read: "push_bit 16 (ucast (ucast (drop_bit 16 x) :: u8)) OR ucast (word16 (ucast x) (ucast (drop_bit 8 x))) = x AND 0xFFFFFF"
  for x :: "32 word"
proof -
  have m: "(0xFFFFFF :: 32 word) = mask 24" by (simp add: mask_eq_exp_minus_1)
  show ?thesis unfolding m
    by (rule bit_word_eqI) (auto simp: bit_simps bit_word16)
qed

fun write_samples24 :: "'h mmio \<Rightarrow> Audio_Config \<Rightarrow> 32 word list \<Rightarrow> 'h \<Rightarrow> 'h" where
  "write_samples24 io c [] s = s"
| "write_samples24 io c (x # xs) s = write_samples24 io c xs (Audio_Device_WriteSample24 io c x s)"

fun read_samples24 :: "'h mmio \<Rightarrow> bool \<Rightarrow> nat \<Rightarrow> 'h \<Rightarrow> 32 word list \<times> 'h" where
  "read_samples24 io byte_first 0 s = ([], s)"
| "read_samples24 io byte_first (Suc k) s =
     (let (x, s) = Audio_Device_ReadSample24 io byte_first s; (xs, s) = read_samples24 io byte_first k s in (x # xs, s))"

lemma length_sample24 [simp]: "length (sample24 x) = 3"
  by (simp add: sample24_def)

context usb_bus
begin

lemma count_ready:
  assumes "uenum (get s) \<noteq> 0" "bank_ready (cur (get s))" "length (fifo (cur (get s))) < 65536"
  obtains n where "Endpoint_BytesInEndpoint io s = (n, s)" "unat n = length (fifo (cur (get s)))"
  using that [of "of_nat (length (fifo (cur (get s))))"] bytes_in [OF assms(1)] assms(2,3)
  by (simp add: byte_count_def unat_of_nat take_bit_nat_eq_self)

lemma write_sample24:
  assumes "in_open (get s)" "length (fifo (cur (get s))) + 3 \<le> ep_size (get s)" "ep_size (get s) < 65536"
  shows "\<exists>v. Audio_Device_WriteSample24 io c x s = put v s \<and> usb_frame (get s) v \<and>
    (if length (fifo (cur (get s))) + 3 = unat (DataINEndpointSize c)
     then queue (cur v) = queue (cur (get s)) @ [fifo (cur (get s)) @ sample24 x] \<and> fifo (cur v) = []
     else queue (cur v) = queue (cur (get s)) \<and> fifo (cur v) = fifo (cur (get s)) @ sample24 x \<and> in_open v)"
proof -
  let ?u = "get s" and ?v = "upd_cur (\<lambda>e. e\<lparr>fifo := fifo e @ sample24 x\<rparr>) (get s)"
  have u: "uenum ?u \<noteq> 0" "ep_in (cur ?u)" "bank_ready (cur ?u)" "attached ?u" "0 < ep_size ?u"
    using assms(1) by (simp_all add: in_open_def attached_def)
  obtain a b d where abd: "sample24 x = [a, b, d]" "ucast (signed_drop_bit 16 x) = a" "ucast ((ucast x :: u16) AND 0xFF) = b"
    "ucast (drop_bit 8 (ucast x :: u16)) = d" using sample24_written [of x] by metis
  have w: "Endpoint_Write_Word_LE io (ucast x) (Endpoint_Write_Byte io (ucast (signed_drop_bit 16 x)) s) = put ?v s"
    using u assms(2)
    by (simp add: Endpoint_Write_Word_LE_def Endpoint_Write_Byte_def abd write_byte_dev get_put put_put upd_upd)
  have cv: "cur ?v = (cur ?u)\<lparr>fifo := fifo (cur ?u) @ sample24 x\<rparr>" by simp
  have rv: "bank_ready (cur ?v)" using u(3) by (simp add: bank_ready_def)
  obtain n where n: "Endpoint_BytesInEndpoint io (put ?v s) = (n, put ?v s)" "unat n = length (fifo (cur ?u)) + 3"
    using count_ready [of "put ?v s"] u rv assms(2,3) by (auto simp: get_put)
  have eq: "n = DataINEndpointSize c \<longleftrightarrow> length (fifo (cur ?u)) + 3 = unat (DataINEndpointSize c)"
    using n(2) by (simp add: word_unat_eq_iff)
  show ?thesis
  proof (cases "n = DataINEndpointSize c")
    case True
    have "Endpoint_ClearIN io (put ?v s) = put (next_bank ?v) s"
      using clear_bank(2) [of "put ?v s"] u(1) rv by (simp add: get_put put_put)
    then have "Audio_Device_WriteSample24 io c x s = put (next_bank ?v) s"
      by (simp add: Audio_Device_WriteSample24_def w send_when_full_def n(1) True)
    moreover have "usb_frame ?u (next_bank ?v)" by (rule usb_frame_trans [of _ ?v]) (simp_all add: next_bank_def)
    moreover have "cur (next_bank ?v) = (cur ?v)\<lparr>fifo := [], delay := lat ?u, queue := queue (cur ?v) @ [fifo (cur ?v)]\<rparr>"
      using u(2) by (simp add: next_bank_def release_def)
    ultimately show ?thesis using True eq by (intro exI [of _ "next_bank ?v"]) simp
  next
    case False
    then have "Audio_Device_WriteSample24 io c x s = put ?v s"
      by (simp add: Audio_Device_WriteSample24_def w send_when_full_def n(1))
    moreover have "in_open ?v" using u rv assms(2) by (simp add: in_open_def attached_def)
    ultimately show ?thesis using False eq by (intro exI [of _ ?v]) simp
  qed
qed

lemma write_samples24:
  assumes "in_open (get s)" "xs \<noteq> []" "unat (DataINEndpointSize c) = length (fifo (cur (get s))) + 3 * length xs"
    "unat (DataINEndpointSize c) \<le> ep_size (get s)" "ep_size (get s) < 65536"
  shows "\<exists>v. write_samples24 io c xs s = put v s \<and> usb_frame (get s) v \<and> fifo (cur v) = [] \<and>
    queue (cur v) = queue (cur (get s)) @ [fifo (cur (get s)) @ concat (map sample24 xs)]"
  using assms
proof (induction xs arbitrary: s)
  case (Cons x xs)
  let ?u = "get s"
  have l: "length (fifo (cur ?u)) + 3 \<le> ep_size ?u" using Cons.prems(3,4) by simp
  obtain v where v: "Audio_Device_WriteSample24 io c x s = put v s" "usb_frame ?u v"
    "if length (fifo (cur ?u)) + 3 = unat (DataINEndpointSize c)
     then queue (cur v) = queue (cur ?u) @ [fifo (cur ?u) @ sample24 x] \<and> fifo (cur v) = []
     else queue (cur v) = queue (cur ?u) \<and> fifo (cur v) = fifo (cur ?u) @ sample24 x \<and> in_open v"
    using write_sample24 [OF Cons.prems(1) l Cons.prems(5)] by blast
  show ?case
  proof (cases "xs = []")
    case True
    then show ?thesis using v Cons.prems(3) by (intro exI [of _ v]) simp
  next
    case False
    then have "length (fifo (cur ?u)) + 3 \<noteq> unat (DataINEndpointSize c)" using Cons.prems(3) by simp
    then have w: "queue (cur v) = queue (cur ?u)" "fifo (cur v) = fifo (cur ?u) @ sample24 x" "in_open v" using v(3) by simp_all
    have "\<exists>w. write_samples24 io c xs (put v s) = put w (put v s) \<and> usb_frame (get (put v s)) w \<and> fifo (cur w) = [] \<and>
        queue (cur w) = queue (cur (get (put v s))) @ [fifo (cur (get (put v s))) @ concat (map sample24 xs)]"
      using Cons.prems(3-5) w False frame_cur [OF v(2)] by (intro Cons.IH) (simp_all add: get_put)
    then show ?thesis using v(1) w(1,2) usb_frame_trans [OF v(2)] by (auto simp: get_put put_put)
  qed
qed simp

lemma read_sample24:
  assumes "out_open (get s)" "fifo (cur (get s)) = sample24 x @ bs" "length bs < 65536"
  shows "\<exists>v. Audio_Device_ReadSample24 io True s = (x AND 0xFFFFFF, put v s) \<and> usb_frame (get s) v \<and>
    (if bs = [] then v = next_bank (upd_cur (\<lambda>e. e\<lparr>fifo := []\<rparr>) (get s)) else v = upd_cur (\<lambda>e. e\<lparr>fifo := bs\<rparr>) (get s))"
proof -
  let ?u = "get s" and ?v = "upd_cur (\<lambda>e. e\<lparr>fifo := bs\<rparr>) (get s)"
  have u: "uenum ?u \<noteq> 0" "\<not> ep_in (cur ?u)" "bank_ready (cur ?u)" using assms(1) by (simp_all add: out_open_def attached_def)
  have f: "fifo (cur ?u) = ucast (drop_bit 16 x) # ucast x # ucast (drop_bit 8 x) # bs" using assms(2) by (simp add: sample24_def)
  have r: "Endpoint_Read_Byte io s = (ucast (drop_bit 16 x), put (upd_cur (\<lambda>e. e\<lparr>fifo := ucast x # ucast (drop_bit 8 x) # bs\<rparr>) ?u) s)"
    "Endpoint_Read_Word_LE io (put (upd_cur (\<lambda>e. e\<lparr>fifo := ucast x # ucast (drop_bit 8 x) # bs\<rparr>) ?u) s) =
      (word16 (ucast x) (ucast (drop_bit 8 x)), put ?v s)"
    using u(1) f by (simp_all add: Endpoint_Read_Byte_def Endpoint_Read_Word_LE_def read_byte_dev get_put put_put upd_upd)
  have rv: "bank_ready (cur ?v)" using u(3) by (simp add: bank_ready_def)
  obtain n where n: "Endpoint_BytesInEndpoint io (put ?v s) = (n, put ?v s)" "unat n = length bs"
    using count_ready [of "put ?v s"] u rv assms(3) by (auto simp: get_put)
  have z: "n = 0 \<longleftrightarrow> bs = []" using n(2) unat_eq_0 [of n] by simp
  have cl: "Endpoint_ClearOUT io (put ?v s) = put (next_bank ?v) s"
    using clear_bank(1) [of "put ?v s"] u(1) rv by (simp add: get_put put_put)
  have "release_when_empty io (put ?v s) = put (if bs = [] then next_bank ?v else ?v) s"
    using z cl n(1) by (cases "bs = []") (simp_all add: release_when_empty_def)
  then have "Audio_Device_ReadSample24 io True s = (x AND 0xFFFFFF, put (if bs = [] then next_bank ?v else ?v) s)"
    by (simp add: Audio_Device_ReadSample24_def r sample24_read)
  moreover have "usb_frame ?u (next_bank ?v)" by (rule usb_frame_trans [of _ ?v]) (simp_all add: next_bank_def)
  ultimately show ?thesis by (intro exI [of _ "if bs = [] then next_bank ?v else ?v"]) (cases "bs = []", simp_all)
qed

lemma read_samples24:
  assumes "out_open (get s)" "fifo (cur (get s)) = concat (map sample24 xs)" "xs \<noteq> []" "length (fifo (cur (get s))) < 65536"
  shows "\<exists>v. read_samples24 io True (length xs) s = (map (\<lambda>x. x AND 0xFFFFFF) xs, put v s) \<and> usb_frame (get s) v \<and>
    cur v = release (lat (get s)) ((cur (get s))\<lparr>fifo := []\<rparr>)"
  using assms
proof (induction xs arbitrary: s)
  case (Cons x xs)
  let ?u = "get s" and ?bs = "concat (map sample24 xs)"
  have f: "fifo (cur ?u) = sample24 x @ ?bs" "length ?bs < 65536" using Cons.prems(2,4) by simp_all
  obtain v where v: "Audio_Device_ReadSample24 io True s = (x AND 0xFFFFFF, put v s)" "usb_frame ?u v"
    "if ?bs = [] then v = next_bank (upd_cur (\<lambda>e. e\<lparr>fifo := []\<rparr>) ?u) else v = upd_cur (\<lambda>e. e\<lparr>fifo := ?bs\<rparr>) ?u"
    using read_sample24 [OF Cons.prems(1) f] by blast
  show ?case
  proof (cases "xs = []")
    case True
    then show ?thesis using v by (intro exI [of _ v]) (simp add: next_bank_def)
  next
    case False
    then have "?bs \<noteq> []" by (cases xs) (auto simp: sample24_def)
    then have w: "v = upd_cur (\<lambda>e. e\<lparr>fifo := ?bs\<rparr>) ?u" using v(3) by simp
    have "\<exists>w. read_samples24 io True (length xs) (put v s) = (map (\<lambda>x. x AND 0xFFFFFF) xs, put w (put v s)) \<and>
        usb_frame (get (put v s)) w \<and> cur w = release (lat (get (put v s))) ((cur (get (put v s)))\<lparr>fifo := []\<rparr>)"
      using Cons.prems(1) f(2) False w
      by (intro Cons.IH) (simp_all add: get_put out_open_def attached_def bank_ready_def)
    then show ?thesis using v(1) w usb_frame_trans [OF v(2)] by (auto simp: get_put put_put)
  qed
qed simp

end

section \<open>The driver on the board\<close>

text \<open>
  Samples of 24 bits that fill the IN endpoint exactly go to the host as one packet, and a device
  that is given the packet and reads as many samples gets the lower 24 bits of each, in order, and
  releases the bank.  The upper eight bits are zero, so a negative sample comes back as a positive one.
\<close>

theorem audio_24bit_round_trip:
  assumes "dev_state (dusb s) = DEVICE_STATE_Configured" "InterfaceEnabled d" "DataINEndpointNumber c = n" "n \<le> 7"
    "in_open ((dusb s)\<lparr>uenum := n\<rparr>)" "fifo (ep (dusb s) n) = []" "xs \<noteq> []"
    "unat (DataINEndpointSize c) = 3 * length xs" "3 * length xs \<le> ep_size (dusb s)" "ep_size (dusb s) < 65536"
    "dev_state (dusb u) = DEVICE_STATE_Configured" "InterfaceEnabled d2" "DataOUTEndpointNumber c2 = m" "m \<le> 7"
    "out_open ((dusb u)\<lparr>uenum := m\<rparr>)" "fifo (ep (dusb u) m) = concat (map sample24 xs)" "queue (ep (dusb u) m) = []"
  shows "\<exists>s1 u1 u2. Audio_Device_IsReadyForNextSample bio c d s = (True, s1) \<and>
    queue (ep (dusb (write_samples24 bio c xs s1)) n) = queue (ep (dusb s) n) @ [concat (map sample24 xs)] \<and>
    Audio_Device_IsSampleReceived bio c2 d2 u = (True, u1) \<and>
    read_samples24 bio True (length xs) u1 = (map (\<lambda>x. x AND 0xFFFFFF) xs, u2) \<and> \<not> bank (ep (dusb u2) m)"
proof -
  let ?s = "(dusb s)\<lparr>uenum := n\<rparr>" and ?u = "(dusb u)\<lparr>uenum := m\<rparr>"
  have i: "uenum ?s \<noteq> 0" "ep_in (cur ?s)" "bank_ready (cur ?s)" "uenum ?u \<noteq> 0" "\<not> ep_in (cur ?u)" "bank_ready (cur ?u)"
    using assms(5,15) by (simp_all add: in_open_def out_open_def attached_def)
  have rdy: "Audio_Device_IsReadyForNextSample bio c d s = (True, s\<lparr>dusb := ?s\<rparr>)"
    using ub.in_ready [of "s\<lparr>dusb := ?s\<rparr>"] i(1-3) assms(1-4)
    by (simp add: Audio_Device_IsReadyForNextSample_def ub.dev_state ub.select poll_ready)
  have rcv: "Audio_Device_IsSampleReceived bio c2 d2 u = (True, u\<lparr>dusb := ?u\<rparr>)"
    using ub.out_received [of "u\<lparr>dusb := ?u\<rparr>"] i(4-6) assms(11-14)
    by (simp add: Audio_Device_IsSampleReceived_def ub.dev_state ub.select poll_ready)
  obtain v where v: "write_samples24 bio c xs (s\<lparr>dusb := ?s\<rparr>) = s\<lparr>dusb := v\<rparr>" "usb_frame ?s v"
    "queue (cur v) = queue (ep (dusb s) n) @ [concat (map sample24 xs)]"
    using ub.write_samples24 [of "s\<lparr>dusb := ?s\<rparr>" xs c] assms(5-10) by auto
  have cv: "cur v = ep v n" using frame_cur [OF v(2)] by (simp add: cur_def)
  have "length (concat (map sample24 xs)) = 3 * length xs" by (induction xs) simp_all
  then have "length (fifo (ep (dusb u) m)) < 65536" using assms(9,10,16) by simp
  then obtain w where w: "read_samples24 bio True (length xs) (u\<lparr>dusb := ?u\<rparr>) = (map (\<lambda>x. x AND 0xFFFFFF) xs, u\<lparr>dusb := w\<rparr>)"
    "usb_frame ?u w" "cur w = release (lat (dusb u)) ((ep (dusb u) m)\<lparr>fifo := []\<rparr>)"
    using ub.read_samples24 [of "u\<lparr>dusb := ?u\<rparr>" xs] assms(7,15,16) by auto
  have "ep w m = cur w" using frame_cur [OF w(2)] by (simp add: cur_def)
  then have "\<not> bank (ep w m)" unfolding w(3) using i(5) assms(17) by (simp add: release_def)
  then show ?thesis using rdy rcv v(1,3) cv w(1) by auto
qed

definition microphone :: Audio_Config where
  "microphone = \<lparr>StreamingInterfaceNumber = 1, DataINEndpointNumber = 3, DataINEndpointSize = 6,
     DataOUTEndpointNumber = 4, DataOUTEndpointSize = 6\<rparr>"

theorem audio_24bit_round_trip_witness:
  "\<exists>s1 u1 u2. Audio_Device_IsReadyForNextSample bio microphone \<lparr>InterfaceEnabled = True\<rparr> (waiting_board [] []) = (True, s1) \<and>
    queue (ep (dusb (write_samples24 bio microphone [0x123456, 0xFFFFFFFF] s1)) 3) = [[0x12, 0x56, 0x34, 0xFF, 0xFF, 0xFF]] \<and>
    Audio_Device_IsSampleReceived bio microphone \<lparr>InterfaceEnabled = True\<rparr>
      (waiting_board [0x12, 0x56, 0x34, 0xFF, 0xFF, 0xFF] []) = (True, u1) \<and>
    read_samples24 bio True 2 u1 = ([0x123456, 0x00FFFFFF], u2)"
proof -
  let ?s = "waiting_board [] []" and ?p = "[0x12, 0x56, 0x34, 0xFF, 0xFF, 0xFF] :: u8 list"
  let ?u = "waiting_board ?p []"
  let ?on = "\<lparr>InterfaceEnabled = True\<rparr>"
  have c: "DataINEndpointNumber microphone = 3" "(3 :: u8) \<le> 7" "DataOUTEndpointNumber microphone = 4" "(4 :: u8) \<le> 7"
    "InterfaceEnabled ?on" "unat (DataINEndpointSize microphone) = 3 * length [0x123456, 0xFFFFFFFF :: 32 word]"
    "[0x123456, 0xFFFFFFFF :: 32 word] \<noteq> []"
    by (simp_all add: microphone_def)
  have b: "dev_state (dusb (waiting_board p ps)) = DEVICE_STATE_Configured" "in_open ((dusb (waiting_board p ps))\<lparr>uenum := 3\<rparr>)"
    "fifo (ep (dusb (waiting_board p ps)) 3) = []" "3 * length [0x123456, 0xFFFFFFFF :: 32 word] \<le> ep_size (dusb (waiting_board p ps))"
    "ep_size (dusb (waiting_board p ps)) < 65536" "out_open ((dusb (waiting_board p ps))\<lparr>uenum := 4\<rparr>)"
    "fifo (ep (dusb (waiting_board p ps)) 4) = p" "queue (ep (dusb (waiting_board p ps)) 4) = ps"
    "queue (ep (dusb (waiting_board p ps)) 3) = []" for p ps
    by (simp_all add: waiting_board_def in_open_def out_open_def attached_def bank_ready_def cur_def)
  have l: "concat (map sample24 [0x123456, 0xFFFFFFFF]) = ?p"
    "map (\<lambda>x. x AND 0xFFFFFF) [0x123456, 0xFFFFFFFF] = [0x123456, 0x00FFFFFF :: 32 word]" "length [0x123456, 0xFFFFFFFF :: 32 word] = 2"
    by (simp_all add: sample24_def drop_bit_eq_div)
  have f: "fifo (ep (dusb ?u) 4) = concat (map sample24 [0x123456, 0xFFFFFFFF])" unfolding b(7) l(1) by (rule refl)
  show ?thesis
    using audio_24bit_round_trip [OF b(1) c(5,1,2) b(2,3) c(7,6) b(4,5) b(1) c(5,3,4) b(6) f b(8)]
    unfolding l b(9) append_Nil by blast
qed

section \<open>Switching the interface\<close>

text \<open>
  SET_INTERFACE completes the control transfer and enables the stream exactly when the alternate
  setting is not zero; while it is disabled neither direction reports a sample to transfer.
\<close>

theorem audio_set_interface:
  assumes "uenum (dusb s) = 0" "dev_state (dusb s) \<noteq> 0" "c_setup (dctl s)" "\<not> c_out (dctl s)" "c_host (dctl s) = H_InStatus"
    "bRequest req = REQ_SetInterface" "bmRequestType req = STANDARD_INTERFACE_OUT" "wIndex req = ucast (StreamingInterfaceNumber c)"
  shows "\<exists>d' t. Audio_Device_ProcessControlRequest bio c req d s = Some (d', t) \<and> c_host (dctl t) = H_Done \<and>
    InterfaceEnabled d' = (ucast (wValue req) \<noteq> (0 :: u8)) \<and> dusb t = dusb s \<and>
    (ucast (wValue req) = (0 :: u8) \<longrightarrow>
      (\<forall>u. Audio_Device_IsSampleReceived bio c d' u = (False, u) \<and> Audio_Device_IsReadyForNextSample bio c d' u = (False, u)))"
proof -
  let ?d = "d\<lparr>InterfaceEnabled := wValue req AND 0xFF \<noteq> 0\<rparr>"
  obtain w where w: "ctl_poll (dctl s) = (dctl s)\<lparr>c_wait := w\<rparr>" using poll_setup [OF assms(3)] by blast
  let ?s = "s\<lparr>dctl := (dctl s)\<lparr>c_wait := w\<rparr>\<rparr>"
  have su: "Endpoint_IsSETUPReceived bio s = (True, ?s)" using cb.flags(1) [of s] assms(1,3) w by simp
  let ?c = "(dctl s)\<lparr>c_wait := c_lat (dctl s), c_setup := False, c_rx := [], c_tx := [], c_in := True\<rparr>"
  have cl: "Endpoint_ClearSETUP bio ?s = s\<lparr>dctl := ?c\<rparr>" using cb.setup_cleared [of ?s] assms(1,3-5) by simp
  have "\<exists>c. Endpoint_ClearStatusStage bio req (s\<lparr>dctl := ?c\<rparr>) = Some (s\<lparr>dctl := c\<rparr>) \<and> c_host c = H_Done"
    using cb.status_in [of "s\<lparr>dctl := ?c\<rparr>" req] assms(1,2,4,5,7) by auto
  then obtain c1 where c1: "Endpoint_ClearStatusStage bio req (s\<lparr>dctl := ?c\<rparr>) = Some (s\<lparr>dctl := c1\<rparr>)" "c_host c1 = H_Done"
    by blast
  have "Audio_Device_ProcessControlRequest bio c req d s = Some (?d, s\<lparr>dctl := c1\<rparr>)"
    using assms(6-8) c1(1) by (simp add: Audio_Device_ProcessControlRequest_def su cl)
  moreover have "(wValue req AND 0xFF = 0) = (ucast (wValue req) = (0 :: u8))"
  proof -
    have m: "(0xFF :: u16) = mask 8" by (simp add: mask_eq_exp_minus_1)
    have "(wValue req AND 0xFF = 0) = (\<forall>i<16. i < 8 \<longrightarrow> \<not> bit (wValue req) i)" unfolding m by (auto simp: bit_eq_iff bit_simps)
    then show ?thesis by (auto simp: bit_eq_iff bit_simps)
  qed
  ultimately show ?thesis using c1(2)
    by (intro exI [of _ ?d] exI [of _ "s\<lparr>dctl := c1\<rparr>"])
      (simp add: Audio_Device_IsSampleReceived_def Audio_Device_IsReadyForNextSample_def ub.dev_state)
qed

theorem audio_set_interface_witness:
  "\<exists>d' t. Audio_Device_ProcessControlRequest bio microphone
      \<lparr>bmRequestType = 1, bRequest = 11, wValue = 0, wIndex = 1, wLength = 0\<rparr> \<lparr>InterfaceEnabled = True\<rparr>
      (asking_board \<lparr>bmRequestType = 1, bRequest = 11, wValue = 0, wIndex = 1, wLength = 0\<rparr> H_InStatus) = Some (d', t) \<and>
    c_host (dctl t) = H_Done \<and> \<not> InterfaceEnabled d'"
proof -
  let ?r = "\<lparr>bmRequestType = 1, bRequest = 11, wValue = 0, wIndex = 1, wLength = 0\<rparr> :: USB_Request_Header_t"
  have b: "uenum (dusb (asking_board ?r h)) = 0" "dev_state (dusb (asking_board ?r h)) \<noteq> 0" "c_setup (dctl (asking_board ?r h))"
    "\<not> c_out (dctl (asking_board ?r h))" "c_host (dctl (asking_board ?r h)) = h" for h
    by (simp_all add: asking_board_def waiting_board_def)
  have r: "bRequest ?r = REQ_SetInterface" "bmRequestType ?r = STANDARD_INTERFACE_OUT" "wIndex ?r = ucast (StreamingInterfaceNumber microphone)"
    by (simp_all add: microphone_def)
  show ?thesis using audio_set_interface [OF b r, of "\<lparr>InterfaceEnabled = True\<rparr>"] by auto
qed

end
