(* ===== verification/Hid_Parser.thy ===== *)
theory Hid_Parser
  imports Bytes
begin

text \<open>
  The HID report descriptor parser, \<open>LUFA/Drivers/USB/Class/Host/HIDParser.c\<close> and \<open>.h\<close>: from the
  bytes of a report descriptor to the table of report items, and the transfer of item values from
  and to reports.  Accesses outside an array, which the C code does not check, are the outcome
  \<open>OutOfBounds\<close>.
\<close>

section \<open>Structures (HIDParser.h)\<close>

abbreviation (input) HID_STATETABLE_STACK_DEPTH :: nat where "HID_STATETABLE_STACK_DEPTH \<equiv> 2"
abbreviation (input) HID_USAGE_STACK_DEPTH :: nat where "HID_USAGE_STACK_DEPTH \<equiv> 8"
abbreviation (input) HID_MAX_COLLECTIONS :: nat where "HID_MAX_COLLECTIONS \<equiv> 10"
abbreviation (input) HID_MAX_REPORTITEMS :: nat where "HID_MAX_REPORTITEMS \<equiv> 20"
abbreviation (input) HID_MAX_REPORT_IDS :: nat where "HID_MAX_REPORT_IDS \<equiv> 10"

datatype hid_error =
    HID_PARSE_Successful | HID_PARSE_HIDStackOverflow | HID_PARSE_HIDStackUnderflow
  | HID_PARSE_InsufficientReportItems | HID_PARSE_UnexpectedEndCollection | HID_PARSE_InsufficientCollectionPaths
  | HID_PARSE_UsageListOverflow | HID_PARSE_InsufficientReportIDItems | HID_PARSE_NoUnfilteredReportItems

record HID_MinMax_t =
  Minimum :: u32
  Maximum :: u32

record HID_Unit_t =
  UnitType :: u32
  Exponent :: u8

record HID_Usage_t =
  Page :: u16
  Usage :: u16

text \<open>A pointer to a collection path is its index in \<open>CollectionPaths\<close>, a null pointer is \<open>None\<close>.\<close>

record HID_CollectionPath_t =
  CollectionType :: u8
  CollectionUsage :: HID_Usage_t
  Parent :: "nat option"

record HID_ReportItem_Attributes_t =
  BitSize :: u8
  ItemUsage :: HID_Usage_t
  Unit :: HID_Unit_t
  Logical :: HID_MinMax_t
  Physical :: HID_MinMax_t

datatype HID_ReportItemTypes_t = REPORT_ITEM_TYPE_In | REPORT_ITEM_TYPE_Out | REPORT_ITEM_TYPE_Feature

record HID_ReportItem_t =
  BitOffset :: u16
  ItemType :: HID_ReportItemTypes_t
  ItemFlags :: u16
  ReportID :: u8
  CollectionPath :: "nat option"
  Attributes :: HID_ReportItem_Attributes_t
  ItemValue :: u32
  PreviousValue :: u32

record HID_ReportSizeInfo_t =
  SizeReportID :: u8
  ReportSizeBits :: "HID_ReportItemTypes_t \<Rightarrow> u16"

text \<open>
  \<open>ReportItems\<close> holds the entries stored so far, so its length is \<open>TotalReportItems\<close>; the other two
  arrays have their full length.
\<close>

record HID_ReportInfo_t =
  ReportItems :: "HID_ReportItem_t list"
  CollectionPaths :: "HID_CollectionPath_t list"
  TotalDeviceReports :: nat
  ReportIDSizes :: "HID_ReportSizeInfo_t list"
  LargestReportSizeBits :: u16
  UsingReportIDs :: bool

record HID_StateTable_t =
  StateAttributes :: HID_ReportItem_Attributes_t
  ReportCount :: u8
  StateReportID :: u8

section \<open>The parser's variables\<close>

text \<open>
  \<open>UsageList\<close> is the whole array of eight entries, the first \<open>UsageListSize\<close> of them are pending.
\<close>

record hid_state =
  ParserData :: HID_ReportInfo_t
  StateTable :: "HID_StateTable_t list"
  CurrStateTable :: nat
  CurrCollectionPath :: "nat option"
  CurrReportIDInfo :: nat
  UsageList :: "u16 list"
  UsageListSize :: nat
  UsageMinMax :: HID_MinMax_t

definition zero_usage :: HID_Usage_t where
  "zero_usage = \<lparr>Page = 0, Usage = 0\<rparr>"

definition zero_minmax :: HID_MinMax_t where
  "zero_minmax = \<lparr>Minimum = 0, Maximum = 0\<rparr>"

definition zero_attributes :: HID_ReportItem_Attributes_t where
  "zero_attributes = \<lparr>BitSize = 0, ItemUsage = zero_usage, Unit = \<lparr>UnitType = 0, Exponent = 0\<rparr>, Logical = zero_minmax,
     Physical = zero_minmax\<rparr>"

definition zero_state :: HID_StateTable_t where
  "zero_state = \<lparr>StateAttributes = zero_attributes, ReportCount = 0, StateReportID = 0\<rparr>"

definition zero_size_info :: HID_ReportSizeInfo_t where
  "zero_size_info = \<lparr>SizeReportID = 0, ReportSizeBits = (\<lambda>t. 0)\<rparr>"

definition zero_path :: HID_CollectionPath_t where
  "zero_path = \<lparr>CollectionType = 0, CollectionUsage = zero_usage, Parent = None\<rparr>"

definition initial_info :: HID_ReportInfo_t where
  "initial_info = \<lparr>ReportItems = [], CollectionPaths = replicate HID_MAX_COLLECTIONS zero_path, TotalDeviceReports = 1,
     ReportIDSizes = replicate HID_MAX_REPORT_IDS zero_size_info, LargestReportSizeBits = 0, UsingReportIDs = False\<rparr>"

text \<open>
  The second entry of the state table and the list of usages are not initialised: they hold what the
  stack held before.
\<close>

type_synonym hid_stack = "HID_StateTable_t \<times> (nat \<Rightarrow> u16)"

definition initial_hid :: "hid_stack \<Rightarrow> hid_state" where
  "initial_hid junk = \<lparr>ParserData = initial_info, StateTable = [zero_state, fst junk], CurrStateTable = 0,
     CurrCollectionPath = None, CurrReportIDInfo = 0, UsageList = map (snd junk) [0..<HID_USAGE_STACK_DEPTH],
     UsageListSize = 0, UsageMinMax = zero_minmax\<rparr>"

text \<open>A part of the parser goes on, returns an error code, or has left an array.\<close>

datatype 'a hid = Go 'a | Ret hid_error | OutOfBounds

text \<open>Writing an array at an index.\<close>

definition put_at :: "nat \<Rightarrow> 'a \<Rightarrow> 'a list \<Rightarrow> 'a list hid" where
  "put_at i x xs = (if i < length xs then Go (xs[i := x]) else OutOfBounds)"

fun hid_bind :: "'a hid \<Rightarrow> ('a \<Rightarrow> 'b hid) \<Rightarrow> 'b hid" where
  "hid_bind (Go x) f = f x"
| "hid_bind (Ret e) f = Ret e"
| "hid_bind OutOfBounds f = OutOfBounds"

section \<open>Global items\<close>

definition upd_state :: "(HID_StateTable_t \<Rightarrow> HID_StateTable_t) \<Rightarrow> hid_state \<Rightarrow> hid_state" where
  "upd_state f p = p\<lparr>StateTable := (StateTable p)[CurrStateTable p := f (StateTable p ! CurrStateTable p)]\<rparr>"

definition upd_attr :: "(HID_ReportItem_Attributes_t \<Rightarrow> HID_ReportItem_Attributes_t) \<Rightarrow> hid_state \<Rightarrow> hid_state" where
  "upd_attr f = upd_state (\<lambda>t. t\<lparr>StateAttributes := f (StateAttributes t)\<rparr>)"

definition cur_state :: "hid_state \<Rightarrow> HID_StateTable_t" where
  "cur_state p = StateTable p ! CurrStateTable p"

text \<open>
  PUSH copies \<open>sizeof(HID_ReportItem_t)\<close> bytes (42), not the 28 of a table entry, so the copy into the
  last entry runs over the end of the table.
\<close>

abbreviation (input) sizeof_ReportItem :: nat where "sizeof_ReportItem \<equiv> 42"
abbreviation (input) sizeof_StateTable :: nat where "sizeof_StateTable \<equiv> 28"

definition hid_push :: "hid_state \<Rightarrow> hid_state hid" where
  "hid_push p =
     (if CurrStateTable p = HID_STATETABLE_STACK_DEPTH - 1 then Ret HID_PARSE_HIDStackOverflow
      else if HID_STATETABLE_STACK_DEPTH * sizeof_StateTable <
              (CurrStateTable p + 1) * sizeof_StateTable + sizeof_ReportItem then OutOfBounds
      else Go (p\<lparr>StateTable := (StateTable p)[CurrStateTable p + 1 := cur_state p],
                 CurrStateTable := CurrStateTable p + 1\<rparr>))"

definition hid_pop :: "hid_state \<Rightarrow> hid_state hid" where
  "hid_pop p =
     (if CurrStateTable p = 0 then Ret HID_PARSE_HIDStackUnderflow
      else (case CurrStateTable p of 0 \<Rightarrow> OutOfBounds | Suc i \<Rightarrow> Go (p\<lparr>CurrStateTable := i\<rparr>)))"

text \<open>The first of the \<open>n\<close> entries from index \<open>i\<close> on with the report ID.\<close>

fun find_report :: "u8 \<Rightarrow> HID_ReportSizeInfo_t list \<Rightarrow> nat \<Rightarrow> nat \<Rightarrow> nat option hid" where
  "find_report rid xs i 0 = Go None"
| "find_report rid xs i (Suc n) =
     (if length xs \<le> i then OutOfBounds
      else if SizeReportID (xs ! i) = rid then Go (Some i) else find_report rid xs (i + 1) n)"

definition hid_report_id :: "u32 \<Rightarrow> hid_state \<Rightarrow> hid_state hid" where
  "hid_report_id ReportItemData p =
     (let p = upd_state (\<lambda>t. t\<lparr>StateReportID := ucast ReportItemData\<rparr>) p;
          rid = StateReportID (cur_state p);
          n = TotalDeviceReports (ParserData p);
          sizes = ReportIDSizes (ParserData p);
          found = (if UsingReportIDs (ParserData p) then
                     hid_bind (find_report rid sizes 0 n) (\<lambda>r.
                       case r of
                         Some i \<Rightarrow> Go (p\<lparr>CurrReportIDInfo := i\<rparr>)
                       | None \<Rightarrow>
                           if n = HID_MAX_REPORT_IDS then Ret HID_PARSE_InsufficientReportIDItems
                           else hid_bind (put_at n zero_size_info sizes) (\<lambda>sizes.
                                  Go (p\<lparr>CurrReportIDInfo := n, ParserData := (ParserData p)\<lparr>TotalDeviceReports := n + 1,
                                    ReportIDSizes := sizes\<rparr>\<rparr>)))
                   else Go p)
      in hid_bind found (\<lambda>p.
           let i = CurrReportIDInfo p; sizes = ReportIDSizes (ParserData p)
           in hid_bind (put_at i ((sizes ! i)\<lparr>SizeReportID := rid\<rparr>) sizes) (\<lambda>sizes.
                Go (p\<lparr>ParserData := (ParserData p)\<lparr>UsingReportIDs := True, ReportIDSizes := sizes\<rparr>\<rparr>))))"

section \<open>Usages and collections\<close>

text \<open>
  The first usage is removed by shifting the array, with \<open>i\<close> counting to \<open>UsageListSize\<close>: the last
  pass reads entry \<open>UsageListSize\<close>, which a full list does not have.
\<close>

fun shift_usages :: "u16 list \<Rightarrow> nat \<Rightarrow> nat \<Rightarrow> u16 list hid" where
  "shift_usages us i 0 = Go us"
| "shift_usages us i (Suc n) =
     (if length us \<le> i + 1 then OutOfBounds else shift_usages (us[i := us ! (i + 1)]) (i + 1) n)"

text \<open>The next usage for a collection or an item, if there is one; the old one stays otherwise.\<close>

definition take_usage :: "u16 \<Rightarrow> hid_state \<Rightarrow> (u16 \<times> hid_state) hid" where
  "take_usage old p =
     (if UsageListSize p \<noteq> 0 then
        hid_bind (shift_usages (UsageList p) 0 (UsageListSize p)) (\<lambda>us.
          Go (UsageList p ! 0, p\<lparr>UsageList := us, UsageListSize := UsageListSize p - 1\<rparr>))
      else if Minimum (UsageMinMax p) \<le> Maximum (UsageMinMax p)
      then Go (ucast (Minimum (UsageMinMax p)), p\<lparr>UsageMinMax := (UsageMinMax p)\<lparr>Minimum := Minimum (UsageMinMax p) + 1\<rparr>\<rparr>)
      else Go (old, p))"

text \<open>\<open>while (CurrCollectionPath->Parent != NULL)\<close> from index \<open>i\<close> on.\<close>

function free_path :: "HID_CollectionPath_t list \<Rightarrow> nat \<Rightarrow> nat hid" where
  "free_path paths i =
     (if length paths \<le> i then OutOfBounds
      else if Parent (paths ! i) = None then Go i
      else if i = HID_MAX_COLLECTIONS - 1 then Ret HID_PARSE_InsufficientCollectionPaths
      else free_path paths (i + 1))"
  by pat_completeness auto

termination by (relation "measure (\<lambda>(paths, i). length paths - i)") auto

declare free_path.simps [simp del]

definition hid_collection :: "u32 \<Rightarrow> hid_state \<Rightarrow> hid_state hid" where
  "hid_collection ReportItemData p =
     hid_bind
       (case CurrCollectionPath p of
          None \<Rightarrow> Go (0, CollectionPaths (ParserData p))
        | Some parent \<Rightarrow>
            hid_bind (free_path (CollectionPaths (ParserData p)) 1) (\<lambda>i.
              hid_bind (put_at i ((CollectionPaths (ParserData p) ! i)\<lparr>Parent := Some parent\<rparr>) (CollectionPaths (ParserData p)))
                (\<lambda>paths. Go (i, paths))))
       (\<lambda>(i, paths).
          let c = (paths ! i)\<lparr>CollectionType := ucast ReportItemData\<rparr>
          in hid_bind (take_usage (Usage (CollectionUsage c)) p) (\<lambda>(usage, p).
               hid_bind
                 (put_at i (c\<lparr>CollectionUsage := \<lparr>Page = Page (ItemUsage (StateAttributes (cur_state p))), Usage = usage\<rparr>\<rparr>) paths)
                 (\<lambda>paths. Go (p\<lparr>CurrCollectionPath := Some i, ParserData := (ParserData p)\<lparr>CollectionPaths := paths\<rparr>\<rparr>))))"

definition hid_end_collection :: "hid_state \<Rightarrow> hid_state hid" where
  "hid_end_collection p =
     (case CurrCollectionPath p of
        None \<Rightarrow> Ret HID_PARSE_UnexpectedEndCollection
      | Some i \<Rightarrow>
          if length (CollectionPaths (ParserData p)) \<le> i then OutOfBounds
          else Go (p\<lparr>CurrCollectionPath := Parent (CollectionPaths (ParserData p) ! i)\<rparr>))"

section \<open>Report items\<close>

abbreviation (input) IOF_CONSTANT :: u32 where "IOF_CONSTANT \<equiv> 1"

text \<open>Storing an item behind those stored so far.\<close>

definition store_item :: "HID_ReportItem_t \<Rightarrow> HID_ReportItem_t list \<Rightarrow> HID_ReportItem_t list hid" where
  "store_item item items = (if length items < HID_MAX_REPORTITEMS then Go (items @ [item]) else OutOfBounds)"

text \<open>
  One pass of the item loop.  \<open>fresh\<close> is the uninitialised local structure, \<open>keep\<close> the application's
  \<open>CALLBACK_HIDParser_FilterHIDReportItem\<close>.
\<close>

definition hid_one_item ::
    "(HID_ReportItem_t \<Rightarrow> bool) \<Rightarrow> HID_ReportItem_t \<Rightarrow> HID_ReportItemTypes_t \<Rightarrow> u32 \<Rightarrow> hid_state \<Rightarrow> hid_state hid" where
  "hid_one_item keep fresh type ReportItemData p =
     (let t = cur_state p;
          item = fresh\<lparr>Attributes := StateAttributes t, ItemFlags := ucast ReportItemData,
                       CollectionPath := CurrCollectionPath p, ReportID := StateReportID t\<rparr>
      in hid_bind (take_usage (Usage (ItemUsage (Attributes item))) p) (\<lambda>(usage, p).
           let item = item\<lparr>Attributes := (Attributes item)\<lparr>ItemUsage := (ItemUsage (Attributes item))\<lparr>Usage := usage\<rparr>\<rparr>,
                           ItemType := type\<rparr>;
               info = ParserData p; i = CurrReportIDInfo p; size = ReportIDSizes info ! i;
               item = item\<lparr>BitOffset := ReportSizeBits size type\<rparr>;
               size = size\<lparr>ReportSizeBits := (ReportSizeBits size)(type := ReportSizeBits size type + ucast (BitSize (StateAttributes t)))\<rparr>
           in hid_bind (put_at i size (ReportIDSizes info)) (\<lambda>sizes.
                let info = info\<lparr>ReportIDSizes := sizes,
                      LargestReportSizeBits := (if LargestReportSizeBits info < BitOffset item then BitOffset item
                                                else LargestReportSizeBits info)\<rparr>
                in if ReportItemData AND IOF_CONSTANT = 0 \<and> keep item then
                     (if length (ReportItems info) = HID_MAX_REPORTITEMS then Ret HID_PARSE_InsufficientReportItems
                      else hid_bind (store_item item (ReportItems info)) (\<lambda>items. Go (p\<lparr>ParserData := info\<lparr>ReportItems := items\<rparr>\<rparr>)))
                   else Go (p\<lparr>ParserData := info\<rparr>))))"

fun hid_items ::
    "(HID_ReportItem_t \<Rightarrow> bool) \<Rightarrow> HID_ReportItem_t \<Rightarrow> HID_ReportItemTypes_t \<Rightarrow> u32 \<Rightarrow> nat \<Rightarrow> hid_state \<Rightarrow> hid_state hid" where
  "hid_items keep fresh type ReportItemData 0 p = Go p"
| "hid_items keep fresh type ReportItemData (Suc n) p =
     hid_bind (hid_one_item keep fresh type ReportItemData p) (hid_items keep fresh type ReportItemData n)"

section \<open>The parser\<close>

abbreviation (input) DATA_SIZE_MASK :: u8 where "DATA_SIZE_MASK \<equiv> 0x03"
abbreviation (input) TYPE_MASK :: u8 where "TYPE_MASK \<equiv> 0x0C"
abbreviation (input) TAG_MASK :: u8 where "TAG_MASK \<equiv> 0xF0"
abbreviation (input) TYPE_MAIN :: u8 where "TYPE_MAIN \<equiv> 0x00"
abbreviation (input) TYPE_GLOBAL :: u8 where "TYPE_GLOBAL \<equiv> 0x04"
abbreviation (input) TYPE_LOCAL :: u8 where "TYPE_LOCAL \<equiv> 0x08"

definition data_size :: "u8 \<Rightarrow> nat" where
  "data_size item =
     (if item AND DATA_SIZE_MASK = 3 then 4 else if item AND DATA_SIZE_MASK = 2 then 2
      else if item AND DATA_SIZE_MASK = 1 then 1 else 0)"

definition item_data :: "nat \<Rightarrow> u8 list \<Rightarrow> u32" where
  "item_data n bs = (if n = 4 then peek32 bs 0 else if n = 2 then ucast (peek16 bs 0) else if n = 1 then ucast (hd bs) else 0)"

definition hid_dispatch ::
    "(HID_ReportItem_t \<Rightarrow> bool) \<Rightarrow> HID_ReportItem_t \<Rightarrow> u8 \<Rightarrow> u32 \<Rightarrow> hid_state \<Rightarrow> hid_state hid" where
  "hid_dispatch keep fresh item dat p =
     (let k = item AND (TYPE_MASK OR TAG_MASK)
      in if k = TYPE_GLOBAL OR 0xA0 then hid_push p
      else if k = TYPE_GLOBAL OR 0xB0 then hid_pop p
      else if k = TYPE_GLOBAL OR 0x00 then Go (upd_attr (\<lambda>a. a\<lparr>ItemUsage := (ItemUsage a)\<lparr>Page := ucast dat\<rparr>\<rparr>) p)
      else if k = TYPE_GLOBAL OR 0x10 then Go (upd_attr (\<lambda>a. a\<lparr>Logical := (Logical a)\<lparr>Minimum := dat\<rparr>\<rparr>) p)
      else if k = TYPE_GLOBAL OR 0x20 then Go (upd_attr (\<lambda>a. a\<lparr>Logical := (Logical a)\<lparr>Maximum := dat\<rparr>\<rparr>) p)
      else if k = TYPE_GLOBAL OR 0x30 then Go (upd_attr (\<lambda>a. a\<lparr>Physical := (Physical a)\<lparr>Minimum := dat\<rparr>\<rparr>) p)
      else if k = TYPE_GLOBAL OR 0x40 then Go (upd_attr (\<lambda>a. a\<lparr>Physical := (Physical a)\<lparr>Maximum := dat\<rparr>\<rparr>) p)
      else if k = TYPE_GLOBAL OR 0x50 then Go (upd_attr (\<lambda>a. a\<lparr>Unit := (Unit a)\<lparr>Exponent := ucast dat\<rparr>\<rparr>) p)
      else if k = TYPE_GLOBAL OR 0x60 then Go (upd_attr (\<lambda>a. a\<lparr>Unit := (Unit a)\<lparr>UnitType := dat\<rparr>\<rparr>) p)
      else if k = TYPE_GLOBAL OR 0x70 then Go (upd_attr (\<lambda>a. a\<lparr>BitSize := ucast dat\<rparr>) p)
      else if k = TYPE_GLOBAL OR 0x90 then Go (upd_state (\<lambda>t. t\<lparr>ReportCount := ucast dat\<rparr>) p)
      else if k = TYPE_GLOBAL OR 0x80 then hid_report_id dat p
      else if k = TYPE_LOCAL OR 0x00 then
        (if UsageListSize p = HID_USAGE_STACK_DEPTH then Ret HID_PARSE_UsageListOverflow
         else hid_bind (put_at (UsageListSize p) (ucast dat) (UsageList p)) (\<lambda>us.
                Go (p\<lparr>UsageList := us, UsageListSize := UsageListSize p + 1\<rparr>)))
      else if k = TYPE_LOCAL OR 0x10 then Go (p\<lparr>UsageMinMax := (UsageMinMax p)\<lparr>Minimum := dat\<rparr>\<rparr>)
      else if k = TYPE_LOCAL OR 0x20 then Go (p\<lparr>UsageMinMax := (UsageMinMax p)\<lparr>Maximum := dat\<rparr>\<rparr>)
      else if k = TYPE_MAIN OR 0xA0 then hid_collection dat p
      else if k = TYPE_MAIN OR 0xC0 then hid_end_collection p
      else if k = TYPE_MAIN OR 0x80 then
        hid_items keep fresh REPORT_ITEM_TYPE_In dat (unat (ReportCount (cur_state p))) p
      else if k = TYPE_MAIN OR 0x90 then
        hid_items keep fresh REPORT_ITEM_TYPE_Out dat (unat (ReportCount (cur_state p))) p
      else if k = TYPE_MAIN OR 0xB0 then
        hid_items keep fresh REPORT_ITEM_TYPE_Feature dat (unat (ReportCount (cur_state p))) p
      else Go p)"

definition hid_clear_local :: "u8 \<Rightarrow> hid_state \<Rightarrow> hid_state" where
  "hid_clear_local item p =
     (if item AND TYPE_MASK = TYPE_MAIN then p\<lparr>UsageMinMax := zero_minmax, UsageListSize := 0\<rparr> else p)"

text \<open>
  The loop over the items.  An item whose data do not fit into the rest of the buffer makes the size
  counter wrap, and the parser reads on behind the buffer.
\<close>

fun hid_loop ::
    "(HID_ReportItem_t \<Rightarrow> bool) \<Rightarrow> HID_ReportItem_t \<Rightarrow> u8 list \<Rightarrow> hid_state \<Rightarrow> hid_state hid" where
  "hid_loop keep fresh [] p = Go p"
| "hid_loop keep fresh (item # rest) p =
     (let n = data_size item
      in if length rest < n then OutOfBounds
         else hid_bind (hid_dispatch keep fresh item (item_data n rest) p)
                (\<lambda>p. hid_loop keep fresh (drop n rest) (hid_clear_local item p)))"

text \<open>The result carries the tables only when the parser reaches the end of the descriptor.\<close>

datatype hid_result = Parsed hid_error HID_ReportInfo_t | ParseError hid_error | MemoryError

definition USB_ProcessHIDReport ::
    "(HID_ReportItem_t \<Rightarrow> bool) \<Rightarrow> HID_ReportItem_t \<Rightarrow> hid_stack \<Rightarrow> u8 list \<Rightarrow> hid_result" where
  "USB_ProcessHIDReport keep fresh junk ReportData =
     (case hid_loop keep fresh ReportData (initial_hid junk) of
        Go p \<Rightarrow> Parsed (if ReportItems (ParserData p) = [] then HID_PARSE_NoUnfilteredReportItems else HID_PARSE_Successful)
                 (ParserData p)
      | Ret e \<Rightarrow> ParseError e
      | OutOfBounds \<Rightarrow> MemoryError)"

section \<open>Reports\<close>

text \<open>
  \<open>ReportData[CurrentBit / 8]\<close> outside the report is \<open>None\<close>.  \<open>CurrentBit\<close> has 16 bits, \<open>BitMask\<close> 32.
\<close>

fun get_bits :: "u8 list \<Rightarrow> nat \<Rightarrow> u16 \<Rightarrow> u32 \<Rightarrow> u32 \<Rightarrow> u32 option" where
  "get_bits ReportData 0 CurrentBit BitMask v = Some v"
| "get_bits ReportData (Suc n) CurrentBit BitMask v =
     (let byte = unat CurrentBit div 8
      in if length ReportData \<le> byte then None
         else get_bits ReportData n (CurrentBit + 1) (push_bit 1 BitMask)
                (if bit (ReportData ! byte) (unat CurrentBit mod 8) then v OR BitMask else v))"

text \<open>The first component is the function's result, the item is updated in place.\<close>

definition USB_GetHIDReportItemInfo :: "u8 list \<Rightarrow> HID_ReportItem_t \<Rightarrow> (bool \<times> HID_ReportItem_t) option" where
  "USB_GetHIDReportItemInfo ReportData ReportItem =
     (let item = ReportItem\<lparr>PreviousValue := ItemValue ReportItem, ItemValue := 0\<rparr>;
          n = unat (BitSize (Attributes item))
      in if ReportID item \<noteq> 0 then
           (case ReportData of
              [] \<Rightarrow> None
            | rid # rest \<Rightarrow>
                if ReportID item \<noteq> rid then Some (False, item)
                else map_option (\<lambda>v. (True, item\<lparr>ItemValue := v\<rparr>)) (get_bits rest n (BitOffset item) 1 0))
         else map_option (\<lambda>v. (True, item\<lparr>ItemValue := v\<rparr>)) (get_bits ReportData n (BitOffset item) 1 0))"

fun set_bits :: "u32 \<Rightarrow> u8 list \<Rightarrow> nat \<Rightarrow> u16 \<Rightarrow> u32 \<Rightarrow> u8 list option" where
  "set_bits v ReportData 0 CurrentBit BitMask = Some ReportData"
| "set_bits v ReportData (Suc n) CurrentBit BitMask =
     (let byte = unat CurrentBit div 8
      in if bit v (unat CurrentBit mod 8) then
           (if length ReportData \<le> byte then None
            else set_bits v (ReportData[byte := ReportData ! byte OR ucast BitMask]) n (CurrentBit + 1) (push_bit 1 BitMask))
         else set_bits v ReportData n (CurrentBit + 1) (push_bit 1 BitMask))"

definition USB_SetHIDReportItemInfo :: "u8 list \<Rightarrow> HID_ReportItem_t \<Rightarrow> (u8 list \<times> HID_ReportItem_t) option" where
  "USB_SetHIDReportItemInfo ReportData ReportItem =
     (let n = unat (BitSize (Attributes ReportItem)); item = ReportItem\<lparr>PreviousValue := ItemValue ReportItem\<rparr>
      in if ReportID ReportItem \<noteq> 0 then
           (case ReportData of
              [] \<Rightarrow> None
            | _ # rest \<Rightarrow>
                map_option (\<lambda>r. (ReportID ReportItem # r, item)) (set_bits (ItemValue ReportItem) rest n (BitOffset ReportItem) 1))
         else map_option (\<lambda>r. (r, item)) (set_bits (ItemValue ReportItem) ReportData n (BitOffset ReportItem) 1))"

fun report_size_from :: "HID_ReportSizeInfo_t list \<Rightarrow> u8 \<Rightarrow> HID_ReportItemTypes_t \<Rightarrow> u16" where
  "report_size_from [] rid type = 0"
| "report_size_from (x # xs) rid type =
     (if SizeReportID x = rid then
        drop_bit 3 (ReportSizeBits x type) + (if ReportSizeBits x type AND 0x07 \<noteq> 0 then 1 else 0)
      else report_size_from xs rid type)"

definition USB_GetHIDReportSize :: "HID_ReportInfo_t \<Rightarrow> u8 \<Rightarrow> HID_ReportItemTypes_t \<Rightarrow> u16" where
  "USB_GetHIDReportSize info rid type = report_size_from (ReportIDSizes info) rid type"

end
