(* ===== verification/Hid_Props.thy ===== *)
theory Hid_Props
  imports Hid_Parser
begin

text \<open>
  Properties of the HID report parser: its tables stay inside their arrays unless an item is
  truncated, a PUSH copies too much, or a main item takes a usage while all eight places of the usage
  list are in use; items of a report are laid out without gaps, and what a report carries for a
  byte-aligned item can be written and read back.
\<close>

section \<open>The invariant of the tables\<close>

definition hid_inv :: "hid_state \<Rightarrow> bool" where
  "hid_inv p \<longleftrightarrow> length (StateTable p) = HID_STATETABLE_STACK_DEPTH \<and> CurrStateTable p < HID_STATETABLE_STACK_DEPTH \<and>
     length (UsageList p) = HID_USAGE_STACK_DEPTH \<and> UsageListSize p \<le> HID_USAGE_STACK_DEPTH \<and>
     length (ReportItems (ParserData p)) \<le> HID_MAX_REPORTITEMS \<and>
     length (CollectionPaths (ParserData p)) = HID_MAX_COLLECTIONS \<and>
     length (ReportIDSizes (ParserData p)) = HID_MAX_REPORT_IDS \<and>
     1 \<le> TotalDeviceReports (ParserData p) \<and> TotalDeviceReports (ParserData p) \<le> HID_MAX_REPORT_IDS \<and>
     CurrReportIDInfo p < TotalDeviceReports (ParserData p) \<and>
     (\<forall>i. CurrCollectionPath p = Some i \<longrightarrow> i < HID_MAX_COLLECTIONS) \<and>
     (\<forall>c\<in>set (CollectionPaths (ParserData p)). \<forall>i. Parent c = Some i \<longrightarrow> i < HID_MAX_COLLECTIONS) \<and>
     (\<forall>x\<in>set (ReportItems (ParserData p)). \<forall>i. CollectionPath x = Some i \<longrightarrow> i < HID_MAX_COLLECTIONS)"

text \<open>
  A part of the parser that starts with the pending usages of \<open>p\<close> keeps the invariant, adds none to
  them, and leaves its arrays only when the list is full.
\<close>

definition hid_keeps :: "hid_state \<Rightarrow> hid_state hid \<Rightarrow> bool" where
  "hid_keeps p r \<longleftrightarrow> (case r of Go q \<Rightarrow> hid_inv q \<and> UsageListSize q \<le> UsageListSize p | Ret e \<Rightarrow> True
     | OutOfBounds \<Rightarrow> UsageListSize p = HID_USAGE_STACK_DEPTH)"

lemma hid_keeps_simps [simp]: "hid_keeps p (Go q) \<longleftrightarrow> hid_inv q \<and> UsageListSize q \<le> UsageListSize p"
  "hid_keeps p (Ret e)" "hid_keeps p OutOfBounds \<longleftrightarrow> UsageListSize p = 8"
  by (simp_all add: hid_keeps_def)

lemma hid_bind_Go: "hid_bind r f = Go y \<longleftrightarrow> (\<exists>x. r = Go x \<and> f x = Go y)"
  by (cases r) simp_all

lemma inv_initial: "hid_inv (initial_hid junk)"
  by (simp add: hid_inv_def initial_hid_def initial_info_def zero_path_def)

lemma inv_upd [simp]: "hid_inv (upd_state f p) = hid_inv p" "hid_inv (upd_attr g p) = hid_inv p"
  "hid_inv (p\<lparr>UsageMinMax := m\<rparr>) = hid_inv p" "UsageListSize (upd_state f p) = UsageListSize p"
  "UsageListSize (upd_attr g p) = UsageListSize p"
  by (simp_all add: hid_inv_def upd_state_def upd_attr_def)

lemma inv_clear: "hid_inv p \<Longrightarrow> hid_inv (hid_clear_local item p)"
  by (simp add: hid_inv_def hid_clear_local_def)

lemma shift_usages_room: "i + n < length us \<Longrightarrow> \<exists>us'. shift_usages us i n = Go us'"
  by (induction us i n rule: shift_usages.induct) auto

lemma shift_usages_Go: "shift_usages us i n = Go us' \<Longrightarrow> length us' = length us \<and>
    (\<forall>j. us' ! j = (if i \<le> j \<and> j < i + n then us ! (j + 1) else us ! j))"
  by (induction us i n rule: shift_usages.induct) (auto split: if_splits simp: nth_list_update)

lemma shift_usages_full: "0 < n \<Longrightarrow> i + n = length us \<Longrightarrow> shift_usages us i n = OutOfBounds"
proof (induction us i n rule: shift_usages.induct)
  case (2 us i n)
  then show ?case by (cases n) auto
qed simp

lemma take_usage_inv: "hid_inv p \<Longrightarrow> take_usage old p = Go (u, q) \<Longrightarrow> hid_inv q \<and> ParserData q = ParserData p \<and>
   CurrCollectionPath q = CurrCollectionPath p \<and> CurrReportIDInfo q = CurrReportIDInfo p \<and>
   StateTable q = StateTable p \<and> CurrStateTable q = CurrStateTable p \<and> UsageListSize q \<le> UsageListSize p"
  by (auto simp: take_usage_def hid_inv_def hid_bind_Go split: if_splits dest: shift_usages_Go)

lemma take_usage_room: "hid_inv p \<Longrightarrow> UsageListSize p \<noteq> 8 \<Longrightarrow> \<exists>u q. take_usage old p = Go (u, q)"
  using shift_usages_room [of 0 "UsageListSize p" "UsageList p"] by (auto simp: take_usage_def hid_inv_def)

lemma take_usage_full: "hid_inv p \<Longrightarrow> UsageListSize p = 8 \<Longrightarrow> take_usage old p = OutOfBounds"
  using shift_usages_full [of 8 0 "UsageList p"] by (simp add: take_usage_def hid_inv_def)

lemma take_usage_cases:
  assumes "hid_inv p"
  obtains "UsageListSize p = 8" "\<And>old. take_usage old p = OutOfBounds"
  | u q where "take_usage old p = Go (u, q)"
  using take_usage_room [OF assms] take_usage_full [OF assms] by (cases "UsageListSize p = 8") blast+

lemma find_report_bound:
  "i + n \<le> length xs \<Longrightarrow> find_report rid xs i n = Go None \<or> (\<exists>j. find_report rid xs i n = Go (Some j) \<and> i \<le> j \<and> j < i + n)"
proof (induction rid xs i n rule: find_report.induct)
  case (2 rid xs i n)
  show ?case
  proof (cases "SizeReportID (xs ! i) = rid")
    case False
    then have "find_report rid xs (i + 1) n = Go None \<or>
        (\<exists>j. find_report rid xs (i + 1) n = Go (Some j) \<and> i + 1 \<le> j \<and> j < i + 1 + n)"
      using 2(1) 2(2) by auto
    then show ?thesis using 2(2) False by fastforce
  qed (use 2(2) in simp)
qed simp

lemma free_path_bound:
  "length paths = 10 \<Longrightarrow> i < 10 \<Longrightarrow>
     free_path paths i = Ret HID_PARSE_InsufficientCollectionPaths \<or> (\<exists>j. free_path paths i = Go j \<and> i \<le> j \<and> j < 10)"
proof (induction paths i rule: free_path.induct)
  case (1 paths i)
  show ?case
  proof (cases "Parent (paths ! i) = None \<or> i = 9")
    case True
    then show ?thesis using 1(2,3) by (auto simp: free_path.simps [of paths i])
  next
    case False
    then have "free_path paths i = free_path paths (i + 1)"
      using 1(2,3) by (subst free_path.simps) auto
    moreover have "free_path paths (i + 1) = Ret HID_PARSE_InsufficientCollectionPaths \<or>
        (\<exists>j. free_path paths (i + 1) = Go j \<and> i + 1 \<le> j \<and> j < 10)"
      using False 1(2,3) by (intro 1(1)) auto
    ultimately show ?thesis by (metis Suc_eq_plus1 Suc_leD)
  qed
qed

lemma report_id_keeps:
  assumes "hid_inv p"
  shows "hid_keeps p (hid_report_id dat p)"
  using assms find_report_bound [of 0 "TotalDeviceReports (ParserData p)" "ReportIDSizes (ParserData p)"
    "StateReportID (cur_state (upd_state (\<lambda>t. t\<lparr>StateReportID := ucast dat\<rparr>) p))"]
  by (auto simp: hid_report_id_def Let_def upd_state_def hid_inv_def put_at_def)

lemma nth_in: "i < length xs \<Longrightarrow> P x \<Longrightarrow> \<forall>y\<in>set xs. P y \<Longrightarrow> \<forall>y\<in>set (xs[i := x]). P y"
  using set_update_subset_insert [of xs i x] by blast

lemma one_item_keeps:
  assumes "hid_inv p"
  shows "hid_keeps p (hid_one_item keep fresh type dat p)"
proof (rule take_usage_cases [OF assms, where old = "Usage (ItemUsage (StateAttributes (cur_state p)))"])
  assume "UsageListSize p = 8" "\<And>old. take_usage old p = OutOfBounds"
  then show ?thesis by (simp add: hid_one_item_def Let_def)
next
  fix u q
  assume q: "take_usage (Usage (ItemUsage (StateAttributes (cur_state p)))) p = Go (u, q)"
  from take_usage_inv [OF assms q] assms show ?thesis
    by (auto simp: hid_one_item_def Let_def q hid_inv_def put_at_def store_item_def)
qed

lemma items_keep: "hid_inv p \<Longrightarrow> hid_keeps p (hid_items keep fresh type dat n p)"
proof (induction n arbitrary: p)
  case (Suc n)
  show ?case
  proof (cases "hid_one_item keep fresh type dat p")
    case (Go q)
    then have q: "hid_inv q" "UsageListSize q \<le> UsageListSize p" "UsageListSize p \<le> 8"
      using one_item_keeps [OF Suc.prems, of keep fresh type dat] Suc.prems by (simp_all add: hid_inv_def)
    then show ?thesis using Go Suc.IH [OF q(1)] by (cases "hid_items keep fresh type dat n q") auto
  qed (use one_item_keeps [OF Suc.prems, of keep fresh type dat] in simp_all)
qed simp

lemma collection_keeps:
  assumes "hid_inv p"
  shows "hid_keeps p (hid_collection dat p)"
proof -
  let ?paths = "CollectionPaths (ParserData p)"
  let ?ok = "\<lambda>ps. length ps = HID_MAX_COLLECTIONS \<and> (\<forall>c\<in>set ps. \<forall>i. Parent c = Some i \<longrightarrow> i < HID_MAX_COLLECTIONS)"
  let ?fin = "\<lambda>ps i. let c = (ps ! i)\<lparr>CollectionType := ucast dat\<rparr>
          in hid_bind (take_usage (Usage (CollectionUsage c)) p) (\<lambda>(usage, p).
               hid_bind
                 (put_at i (c\<lparr>CollectionUsage := \<lparr>Page = Page (ItemUsage (StateAttributes (cur_state p))), Usage = usage\<rparr>\<rparr>) ps)
                 (\<lambda>ps. Go (p\<lparr>CurrCollectionPath := Some i, ParserData := (ParserData p)\<lparr>CollectionPaths := ps\<rparr>\<rparr>)))"
  have fin: "hid_keeps p (?fin ps i)" if ok: "?ok ps" "i < HID_MAX_COLLECTIONS" for ps i
  proof (rule take_usage_cases [OF assms, where old = "Usage (CollectionUsage (ps ! i))"])
    assume "UsageListSize p = 8" "\<And>old. take_usage old p = OutOfBounds"
    then show ?thesis by simp
  next
    fix u q
    assume q: "take_usage (Usage (CollectionUsage (ps ! i))) p = Go (u, q)"
    have n: "\<forall>c\<in>set (ps[i := x]). \<forall>i. Parent c = Some i \<longrightarrow> i < HID_MAX_COLLECTIONS" if "Parent x = Parent (ps ! i)" for x
      using that ok by (intro nth_in) auto
    from take_usage_inv [OF assms q] assms ok show ?thesis
      by (simp add: q hid_inv_def put_at_def) (rule n, simp)
  qed
  have ok: "?ok ?paths" using assms by (simp add: hid_inv_def)
  show ?thesis
  proof (cases "CurrCollectionPath p")
    case None
    then show ?thesis using fin [OF ok, of 0] by (simp add: hid_collection_def)
  next
    case (Some parent)
    then have par: "parent < HID_MAX_COLLECTIONS" using assms by (simp add: hid_inv_def)
    from free_path_bound [of ?paths 1] ok consider
      "free_path ?paths 1 = Ret HID_PARSE_InsufficientCollectionPaths" | i where "free_path ?paths 1 = Go i" "i < 10" by auto
    then show ?thesis
    proof cases
      case 1
      then show ?thesis using Some by (simp add: hid_collection_def)
    next
      case 2
      let ?ps = "?paths[i := (?paths ! i)\<lparr>Parent := Some parent\<rparr>]"
      have "?ok ?ps" using ok 2(2) par by (intro conjI nth_in) auto
      from fin [OF this 2(2)] show ?thesis using Some 2 ok by (simp add: hid_collection_def put_at_def)
    qed
  qed
qed

lemma end_collection_keeps: "hid_inv p \<Longrightarrow> hid_keeps p (hid_end_collection p)"
  by (auto simp: hid_end_collection_def hid_inv_def split: option.split)

lemma pop_keeps: "hid_inv p \<Longrightarrow> hid_keeps p (hid_pop p)"
  by (auto simp: hid_pop_def hid_inv_def split: nat.split)

lemma push_overruns: "hid_inv p \<Longrightarrow> hid_push p = Ret HID_PARSE_HIDStackOverflow \<or> hid_push p = OutOfBounds"
  by (auto simp: hid_push_def)

section \<open>The items\<close>

text \<open>The main items that take usages, and the usages: what an item does to the pending usages.\<close>

abbreviation (input) uses_usage :: "u8 \<Rightarrow> bool" where
  "uses_usage item \<equiv> item AND 0xFC \<in> {0xA0, 0x80, 0x90, 0xB0}"

abbreviation (input) is_usage :: "u8 \<Rightarrow> bool" where "is_usage item \<equiv> item AND 0xFC = 0x08"

lemma usage_item: "is_usage item \<Longrightarrow> hid_dispatch keep fresh item dat p =
    (if UsageListSize p = 8 then Ret HID_PARSE_UsageListOverflow
     else hid_bind (put_at (UsageListSize p) (ucast dat) (UsageList p)) (\<lambda>us.
            Go (p\<lparr>UsageList := us, UsageListSize := UsageListSize p + 1\<rparr>)))"
  by (simp add: hid_dispatch_def Let_def)

lemma dispatch_keeps:
  assumes "hid_inv p" "item AND 0xFC \<noteq> 0xA4" "\<not> is_usage item"
  shows "hid_keeps p (hid_dispatch keep fresh item dat p)"
  using assms(2,3) pop_keeps [OF assms(1)] report_id_keeps [OF assms(1)] collection_keeps [OF assms(1)]
    end_collection_keeps [OF assms(1)] items_keep [OF assms(1)] assms(1)
  by (simp add: hid_dispatch_def Let_def)

lemma report_id_size:
  assumes "hid_report_id dat p = Go q"
  shows "UsageListSize q = UsageListSize p"
  using assms by (auto simp: hid_report_id_def Let_def hid_bind_Go put_at_def split: if_splits option.splits)

lemma tag_type: "(item AND 0xFC) AND 0x0C = (item :: u8) AND 0x0C"
  by (simp add: and.assoc)

text \<open>Global and other local items leave the pending usages as they are.\<close>

lemma dispatch_size:
  assumes "hid_dispatch keep fresh item dat p = Go q" "item AND 0x0C \<noteq> 0" "item AND 0xFC \<noteq> 0xA4" "\<not> is_usage item"
  shows "UsageListSize q = UsageListSize p"
proof -
  have n: "item AND 0xFC \<noteq> 0xA0" "item AND 0xFC \<noteq> 0xC0" "item AND 0xFC \<noteq> 0x80" "item AND 0xFC \<noteq> 0x90" "item AND 0xFC \<noteq> 0xB0"
    using assms(2) tag_type [of item] by auto
  have pop: "UsageListSize q = UsageListSize p" if "hid_pop p = Go q"
    using that by (auto simp: hid_pop_def split: if_splits nat.splits)
  show ?thesis
    using assms(1) n assms(3,4) pop report_id_size [of dat p q]
    by (simp add: hid_dispatch_def Let_def split: if_splits) (auto simp: upd_state_def upd_attr_def)
qed

lemma dispatch_inside:
  assumes "hid_inv p" "item AND 0xFC \<noteq> 0xA4" "\<not> is_usage item" "uses_usage item \<longrightarrow> UsageListSize p < 8"
  shows "hid_dispatch keep fresh item dat p \<noteq> OutOfBounds"
proof (cases "UsageListSize p = 8")
  case True
  then have n: "item AND 0xFC \<noteq> 0xA0" "item AND 0xFC \<noteq> 0x80" "item AND 0xFC \<noteq> 0x90" "item AND 0xFC \<noteq> 0xB0"
    using assms(4) by auto
  have "hid_report_id dat p \<noteq> OutOfBounds"
    using assms(1) find_report_bound [of 0 "TotalDeviceReports (ParserData p)" "ReportIDSizes (ParserData p)"
      "StateReportID (cur_state (upd_state (\<lambda>t. t\<lparr>StateReportID := ucast dat\<rparr>) p))"]
    by (auto simp: hid_report_id_def Let_def upd_state_def hid_inv_def put_at_def)
  moreover have "hid_end_collection p \<noteq> OutOfBounds" "hid_pop p \<noteq> OutOfBounds"
    using assms(1) by (auto simp: hid_end_collection_def hid_pop_def hid_inv_def split: option.split nat.split)
  ultimately show ?thesis using assms(2,3) n by (simp add: hid_dispatch_def Let_def)
next
  case False
  then show ?thesis using dispatch_keeps [OF assms(1-3), of keep fresh dat] by auto
qed

text \<open>The prefix bytes of a descriptor whose items are complete.\<close>

fun item_prefixes :: "u8 list \<Rightarrow> u8 list option" where
  "item_prefixes [] = Some []"
| "item_prefixes (item # rest) =
     (if length rest < data_size item then None
      else map_option ((#) item) (item_prefixes (drop (data_size item) rest)))"

text \<open>
  No main item that takes usages comes with eight of them pending, from a state with \<open>n\<close> pending
  usages on.  A ninth usage ends the parse, so nothing is asked of what follows it.
\<close>

fun usages_fit :: "nat \<Rightarrow> u8 list \<Rightarrow> bool" where
  "usages_fit n [] = True"
| "usages_fit n (item # items) =
     (if is_usage item then 8 \<le> n \<or> usages_fit (n + 1) items
      else if item AND 0x0C = 0 then (uses_usage item \<longrightarrow> n < 8) \<and> usages_fit 0 items
      else usages_fit n items)"

lemma main_item_type: "uses_usage item \<Longrightarrow> item AND 0x0C = 0"
  using tag_type [of item] by auto

lemma loop_safe:
  assumes "hid_inv p" "item_prefixes bs = Some items" "\<forall>i\<in>set items. i AND 0xFC \<noteq> 0xA4" "usages_fit (UsageListSize p) items"
  shows "case hid_loop keep fresh bs p of Go q \<Rightarrow> hid_inv q | Ret e \<Rightarrow> True | OutOfBounds \<Rightarrow> False"
  using assms
proof (induction keep fresh bs p arbitrary: items rule: hid_loop.induct)
  case (2 keep fresh item rest p)
  let ?n = "data_size item" and ?r = "hid_dispatch keep fresh item (item_data (data_size item) rest) p"
  obtain items' where i: "\<not> length rest < ?n" "item_prefixes (drop ?n rest) = Some items'" "items = item # items'"
    using 2(3) by (auto split: if_splits)
  have item: "item AND 0xFC \<noteq> 0xA4" "\<forall>i\<in>set items'. i AND 0xFC \<noteq> 0xA4" using 2(4) i(3) by simp_all
  have step: "case hid_loop keep fresh (item # rest) p of Go q \<Rightarrow> hid_inv q | Ret e \<Rightarrow> True | OutOfBounds \<Rightarrow> False"
    if "?r = Go q" "hid_inv q" "usages_fit (UsageListSize (hid_clear_local item q)) items'" for q
    using 2(1) [OF refl i(1) inv_clear [OF that(2)] i(2) item(2) that(3)] that(1) i(1) by (simp add: Let_def)
  show ?case
  proof (cases "is_usage item")
    case True
    then have "item AND 0x0C \<noteq> 0" using tag_type [of item] by auto
    then have c: "hid_clear_local item q = q" for q by (simp add: hid_clear_local_def)
    show ?thesis
    proof (cases "UsageListSize p = 8")
      case True
      then show ?thesis using \<open>is_usage item\<close> i(1) by (simp add: usage_item Let_def)
    next
      case False
      then have r: "?r = Go (p\<lparr>UsageList := (UsageList p)[UsageListSize p := ucast (item_data ?n rest)],
          UsageListSize := UsageListSize p + 1\<rparr>)"
        using 2(2) True by (simp add: usage_item put_at_def hid_inv_def)
      show ?thesis
      proof (rule step [OF r])
        show "hid_inv (p\<lparr>UsageList := (UsageList p)[UsageListSize p := ucast (item_data ?n rest)],
          UsageListSize := UsageListSize p + 1\<rparr>)" using 2(2) False by (simp add: hid_inv_def)
      qed (use 2(2,5) i(3) True False in \<open>simp add: c hid_inv_def\<close>)
    qed
  next
    case False
    have "uses_usage item \<longrightarrow> UsageListSize p < 8" using 2(5) i(3) False main_item_type [of item] by auto
    then have "?r \<noteq> OutOfBounds" by (rule dispatch_inside [OF 2(2) item(1) False])
    moreover have "hid_keeps p ?r" by (rule dispatch_keeps [OF 2(2) item(1) False])
    moreover have "usages_fit (UsageListSize (hid_clear_local item q)) items'" if "?r = Go q" for q
      using dispatch_size [OF that _ item(1) False] 2(5) i(3) False by (auto simp: hid_clear_local_def split: if_splits)
    ultimately show ?thesis using step i(1) by (cases ?r) (auto simp: Let_def)
  qed
qed simp

text \<open>
  C16. For every descriptor of complete items without a PUSH in which no main item takes a usage
  while eight are pending, whatever else the items say and whatever the application keeps, the parser
  stays inside its arrays: the usage list with its shift, the table of states, the collections, the
  report sizes and the items.  It ends either with an error code, a ninth usage among them, or with
  tables whose counts are within the arrays and whose collection references point into them.  Each
  excluded item can leave an array: \<open>eight_usages_overrun\<close> and the section on PUSH show how.
\<close>

theorem hid_memory_safe:
  assumes "item_prefixes ReportData = Some items" "\<forall>i\<in>set items. i AND 0xFC \<noteq> 0xA4" "usages_fit 0 items"
  shows "(\<exists>e. USB_ProcessHIDReport keep fresh junk ReportData = ParseError e) \<or>
    (\<exists>e info. USB_ProcessHIDReport keep fresh junk ReportData = Parsed e info \<and>
       length (ReportItems info) \<le> HID_MAX_REPORTITEMS \<and> TotalDeviceReports info \<le> HID_MAX_REPORT_IDS \<and>
       (\<forall>x\<in>set (ReportItems info). case CollectionPath x of None \<Rightarrow> True | Some i \<Rightarrow> i < HID_MAX_COLLECTIONS) \<and>
       (e = HID_PARSE_Successful \<longleftrightarrow> ReportItems info \<noteq> []))"
proof -
  have "usages_fit (UsageListSize (initial_hid junk)) items" using assms(3) by (simp add: initial_hid_def)
  from loop_safe [OF inv_initial assms(1,2) this, of keep fresh] show ?thesis
    by (cases "hid_loop keep fresh ReportData (initial_hid junk)")
      (auto simp: USB_ProcessHIDReport_def hid_inv_def split: option.split)
qed

definition blank_item :: HID_ReportItem_t where
  "blank_item = \<lparr>BitOffset = 0, ItemType = REPORT_ITEM_TYPE_In, ItemFlags = 0, ReportID = 0, CollectionPath = None,
     Attributes = zero_attributes, ItemValue = 0, PreviousValue = 0\<rparr>"

definition blank_stack :: hid_stack where
  "blank_stack = (zero_state, \<lambda>i. 0)"

text \<open>A mouse: a collection with its usage, two axes with theirs.\<close>

theorem hid_memory_safe_witness:
  "\<exists>info. USB_ProcessHIDReport (\<lambda>x. True) blank_item blank_stack
      [0x05, 1, 0x09, 2, 0xA1, 1, 0x09, 0x30, 0x09, 0x31, 0x75, 8, 0x95, 2, 0x81, 2, 0xC0] =
      Parsed HID_PARSE_Successful info \<and> length (ReportItems info) \<le> 20"
proof -
  let ?d = "[0x05, 1, 0x09, 2, 0xA1, 1, 0x09, 0x30, 0x09, 0x31, 0x75, 8, 0x95, 2, 0x81, 2, 0xC0]"
  let ?i = "[0x05, 0x09, 0xA1, 0x09, 0x09, 0x75, 0x95, 0x81, 0xC0]"
  let ?r = "USB_ProcessHIDReport (\<lambda>x. True) blank_item blank_stack ?d"
  have p: "item_prefixes ?d = Some ?i" by (simp add: data_size_def)
  have "case ?r of Parsed e info \<Rightarrow> e = HID_PARSE_Successful | _ \<Rightarrow> False" by code_simp
  then show ?thesis
    using hid_memory_safe [OF p, of "\<lambda>x. True" blank_item blank_stack] by (auto split: hid_result.splits)
qed

section \<open>A full list of usages\<close>

text \<open>
  A main item of at least one report item that comes with all eight places of the usage list in use
  makes the shift read the ninth entry of the array.
\<close>

theorem full_usage_list_overrun:
  assumes "hid_inv p" "UsageListSize p = HID_USAGE_STACK_DEPTH" "ReportCount (cur_state p) \<noteq> 0"
  shows "hid_dispatch keep fresh 0x81 dat p = OutOfBounds"
proof -
  obtain n where "unat (ReportCount (cur_state p)) = Suc n"
    using assms(3) by (metis not0_implies_Suc unat_eq_zero)
  then show ?thesis using take_usage_full [OF assms(1,2)] by (simp add: hid_dispatch_def hid_one_item_def Let_def)
qed

text \<open>Eight buttons, each with its usage.\<close>

theorem eight_usages_overrun:
  "USB_ProcessHIDReport (\<lambda>x. True) blank_item blank_stack
     [0x75, 1, 0x95, 8, 0x09, 1, 0x09, 2, 0x09, 3, 0x09, 4, 0x09, 5, 0x09, 6, 0x09, 7, 0x09, 8, 0x81, 2] = MemoryError"
    (is "?r = _")
proof -
  have "case ?r of MemoryError \<Rightarrow> True | _ \<Rightarrow> False" by code_simp
  then show ?thesis by (cases ?r) simp_all
qed

section \<open>PUSH\<close>

lemma loop_push:
  assumes "hid_inv p" "item_prefixes bs = Some items" "\<exists>i\<in>set items. i AND 0xFC = 0xA4"
  shows "hid_loop keep fresh bs p \<noteq> Go q"
  using assms
proof (induction keep fresh bs p arbitrary: items rule: hid_loop.induct)
  case (2 keep fresh item rest p)
  let ?n = "data_size item" and ?r = "hid_dispatch keep fresh item (item_data (data_size item) rest) p"
  obtain items' where i: "\<not> length rest < ?n" "item_prefixes (drop ?n rest) = Some items'" "items = item # items'"
    using 2(3) by (auto split: if_splits)
  show ?case
  proof (cases "item AND 0xFC = 0xA4")
    case True
    then have "?r = hid_push p" by (simp add: hid_dispatch_def)
    then show ?thesis using push_overruns [OF 2(2)] i(1) by (auto simp: Let_def)
  next
    case False
    have "hid_inv r" if "?r = Go r" for r
    proof (cases "is_usage item")
      case True
      then show ?thesis using that 2(2) by (auto simp: usage_item put_at_def hid_inv_def split: if_splits)
    next
      case usage: False
      then show ?thesis using dispatch_keeps [OF 2(2) False usage, of keep fresh "item_data ?n rest"] that by simp
    qed
    then show ?thesis
      using 2(1) [OF refl i(1) _ i(2)] 2(4) i inv_clear False
      by (cases ?r) (auto simp: Let_def)
  qed
qed simp

text \<open>
  No descriptor with a PUSH item is ever parsed, nested or not: with the default table of two
  states the parser either refuses it as a stack overflow or has already written behind the table,
  because the copy takes the size of a report item instead of a state.
\<close>

theorem hid_push_never_parses:
  assumes "item_prefixes ReportData = Some items" "\<exists>i\<in>set items. i AND 0xFC = 0xA4"
  shows "USB_ProcessHIDReport keep fresh junk ReportData \<noteq> Parsed e info"
  using loop_push [OF inv_initial assms, of keep fresh junk]
  by (cases "hid_loop keep fresh ReportData (initial_hid junk)") (auto simp: USB_ProcessHIDReport_def)

theorem hid_push_never_parses_witness:
  "USB_ProcessHIDReport (\<lambda>x. True) blank_item blank_stack [0xA4, 0x75, 8, 0x95, 2, 0x81, 2, 0xB4] \<noteq>
     Parsed HID_PARSE_Successful initial_info"
  by (rule hid_push_never_parses [where items = "[0xA4, 0x75, 0x95, 0x81, 0xB4]"]) (simp_all add: data_size_def)

section \<open>The layout of a report\<close>

text \<open>
  The items of one main item follow each other in the report without gap or overlap: item
  \<open>i\<close> starts \<open>i\<close> item sizes behind the end of what the report held before, the report grows by all of
  them, and the pending usages go to the items in order.
\<close>

theorem hid_items_layout:
  assumes "hid_items (\<lambda>x. True) fresh type dat n p = Go q" "dat AND IOF_CONSTANT = 0"
    "CurrReportIDInfo p < length (ReportIDSizes (ParserData p))"
  shows "\<exists>new. ReportItems (ParserData q) = ReportItems (ParserData p) @ new \<and> length new = n \<and>
    (\<forall>i<n. BitOffset (new ! i) = ReportSizeBits (ReportIDSizes (ParserData p) ! CurrReportIDInfo p) type +
       of_nat i * ucast (BitSize (StateAttributes (cur_state p))) \<and> ItemType (new ! i) = type \<and>
       CollectionPath (new ! i) = CurrCollectionPath p \<and>
       BitSize (Attributes (new ! i)) = BitSize (StateAttributes (cur_state p)) \<and>
       (i < UsageListSize p \<longrightarrow> Usage (ItemUsage (Attributes (new ! i))) = UsageList p ! i)) \<and>
    ReportSizeBits (ReportIDSizes (ParserData q) ! CurrReportIDInfo q) type =
      ReportSizeBits (ReportIDSizes (ParserData p) ! CurrReportIDInfo p) type +
      of_nat n * ucast (BitSize (StateAttributes (cur_state p)))"
  using assms
proof (induction n arbitrary: p)
  case 0
  then show ?case by simp
next
  case (Suc n)
  let ?c = "CurrReportIDInfo p" and ?t = "StateAttributes (cur_state p)"
  let ?off = "ReportSizeBits (ReportIDSizes (ParserData p) ! ?c) type" and ?b = "ucast (BitSize ?t) :: u16"
  obtain u p1 where p1: "take_usage (Usage (ItemUsage ?t)) p = Go (u, p1)"
    using Suc.prems(1) by (auto simp: hid_bind_Go hid_one_item_def Let_def)
  have shift: "shift_usages (UsageList p) 0 (UsageListSize p) = Go us \<Longrightarrow> i < UsageListSize p - Suc 0 \<Longrightarrow>
      us ! i = UsageList p ! Suc i" for us i
    using shift_usages_Go [of "UsageList p" 0 "UsageListSize p" us] by auto
  have us: "ParserData p1 = ParserData p" "CurrCollectionPath p1 = CurrCollectionPath p" "CurrReportIDInfo p1 = ?c"
    "cur_state p1 = cur_state p" "UsageListSize p1 = UsageListSize p - 1" "UsageListSize p \<noteq> 0 \<Longrightarrow> u = UsageList p ! 0"
    "\<And>i. i < UsageListSize p1 \<Longrightarrow> UsageList p1 ! i = UsageList p ! (i + 1)"
    using p1 by (auto simp: take_usage_def cur_state_def hid_bind_Go split: if_splits dest: shift)
  obtain p2 item where p2: "hid_one_item (\<lambda>x. True) fresh type dat p = Go p2" "hid_items (\<lambda>x. True) fresh type dat n p2 = Go q"
    "ReportItems (ParserData p2) = ReportItems (ParserData p) @ [item]" "BitOffset item = ?off" "ItemType item = type"
    "CollectionPath item = CurrCollectionPath p" "BitSize (Attributes item) = BitSize ?t" "Usage (ItemUsage (Attributes item)) = u"
    "CurrReportIDInfo p2 = ?c" "CurrCollectionPath p2 = CurrCollectionPath p" "cur_state p2 = cur_state p"
    "UsageList p2 = UsageList p1" "UsageListSize p2 = UsageListSize p - 1" "ReportSizeBits (ReportIDSizes (ParserData p2) ! ?c) type = ?off + ?b"
    "length (ReportIDSizes (ParserData p2)) = length (ReportIDSizes (ParserData p))"
  proof (rule that)
    let ?item = "fresh\<lparr>Attributes := ?t\<lparr>ItemUsage := (ItemUsage ?t)\<lparr>Usage := u\<rparr>\<rparr>, ItemFlags := ucast dat,
       CollectionPath := CurrCollectionPath p, ReportID := StateReportID (cur_state p), ItemType := type, BitOffset := ?off\<rparr>"
    let ?size = "ReportIDSizes (ParserData p) ! ?c"
    let ?p2 = "p1\<lparr>ParserData := (ParserData p)\<lparr>ReportIDSizes := (ReportIDSizes (ParserData p))[?c :=
         ?size\<lparr>ReportSizeBits := (ReportSizeBits ?size)(type := ?off + ?b)\<rparr>],
       LargestReportSizeBits := (if LargestReportSizeBits (ParserData p) < ?off then ?off else LargestReportSizeBits (ParserData p)),
       ReportItems := ReportItems (ParserData p) @ [?item]\<rparr>\<rparr>"
    have ne: "length (ReportItems (ParserData p)) \<noteq> 20"
      using Suc.prems by (auto simp: hid_one_item_def Let_def p1 us put_at_def)
    moreover have "length (ReportItems (ParserData p)) < 20" if "length (ReportItems (ParserData p)) \<noteq> 20"
      using Suc.prems that by (cases "length (ReportItems (ParserData p)) < 20")
        (simp_all add: hid_one_item_def Let_def p1 us put_at_def store_item_def)
    ultimately show one: "hid_one_item (\<lambda>x. True) fresh type dat p = Go ?p2"
      using Suc.prems(2,3) by (simp add: hid_one_item_def Let_def p1 us put_at_def store_item_def)
    show "hid_items (\<lambda>x. True) fresh type dat n ?p2 = Go q" using Suc.prems(1) one by simp
    show "ReportItems (ParserData ?p2) = ReportItems (ParserData p) @ [?item]" by simp
    show "cur_state ?p2 = cur_state p" using us(4) by (simp add: cur_state_def)
  qed (use us Suc.prems(3) in simp_all)
  obtain new where new: "ReportItems (ParserData q) = ReportItems (ParserData p2) @ new" "length new = n"
    "\<And>i. i < n \<Longrightarrow> BitOffset (new ! i) = ?off + ?b + of_nat i * ?b \<and> ItemType (new ! i) = type \<and>
       CollectionPath (new ! i) = CurrCollectionPath p \<and> BitSize (Attributes (new ! i)) = BitSize ?t \<and>
       (i < UsageListSize p - 1 \<longrightarrow> Usage (ItemUsage (Attributes (new ! i))) = UsageList p1 ! i)"
    "ReportSizeBits (ReportIDSizes (ParserData q) ! CurrReportIDInfo q) type = ?off + ?b + of_nat n * ?b"
    using Suc.IH [OF p2(2) Suc.prems(2)] p2(9-15) Suc.prems(3) by auto
  have usage: "i < UsageListSize p \<Longrightarrow> Usage (ItemUsage (Attributes ((item # new) ! i))) = UsageList p ! i" if "i < Suc n" for i
    using that new(3) [of "i - 1"] p2(8) us(5,6) us(7) [of "i - 1"] by (cases i) auto
  have "BitOffset ((item # new) ! i) = ?off + of_nat i * ?b \<and> ItemType ((item # new) ! i) = type \<and>
       CollectionPath ((item # new) ! i) = CurrCollectionPath p \<and> BitSize (Attributes ((item # new) ! i)) = BitSize ?t"
    if "i < Suc n" for i
    using that new(3) [of "i - 1"] p2(4-7) by (cases i) (auto simp: algebra_simps)
  then show ?case
    using new(1,2,4) p2(3) usage by (intro exI [of _ "item # new"]) (simp add: algebra_simps)
qed

text \<open>A state with two usages pending for items of eight bits.\<close>

definition mouse_state :: hid_state where
  "mouse_state = (upd_attr (\<lambda>a. a\<lparr>BitSize := 8\<rparr>) (initial_hid blank_stack))
     \<lparr>UsageList := [0x30, 0x31, 0, 0, 0, 0, 0, 0], UsageListSize := 2\<rparr>"

theorem hid_items_layout_witness:
  "\<exists>q new. hid_items (\<lambda>x. True) blank_item REPORT_ITEM_TYPE_In 2 2 mouse_state = Go q \<and> ReportItems (ParserData q) = new \<and>
    map BitOffset new = [0, 8] \<and> map (Usage \<circ> ItemUsage \<circ> Attributes) new = [0x30, 0x31]"
proof -
  let ?r = "hid_items (\<lambda>x. True) blank_item REPORT_ITEM_TYPE_In 2 2 mouse_state"
  have "case ?r of Go q \<Rightarrow> True | _ \<Rightarrow> False" by code_simp
  then obtain q where q: "?r = Go q" by (auto split: hid.splits)
  have s: "ReportItems (ParserData mouse_state) = []" "CurrReportIDInfo mouse_state = 0"
    "ReportIDSizes (ParserData mouse_state) = replicate 10 zero_size_info" "UsageList mouse_state = [0x30, 0x31, 0, 0, 0, 0, 0, 0]" "UsageListSize mouse_state = 2"
    "BitSize (StateAttributes (cur_state mouse_state)) = 8"
    by (simp_all add: mouse_state_def initial_hid_def initial_info_def upd_attr_def upd_state_def cur_state_def)
  obtain new where new: "ReportItems (ParserData q) = new" "length new = 2"
    "\<And>i. i < 2 \<Longrightarrow> BitOffset (new ! i) = of_nat i * 8 \<and> Usage (ItemUsage (Attributes (new ! i))) = [0x30, 0x31, 0, 0, 0, 0, 0, 0] ! i"
    using hid_items_layout [OF q] s by (auto simp: zero_size_info_def)
  obtain a b where ab: "new = [a, b]" using new(2) by (metis (no_types, opaque_lifting) length_0_conv length_Suc_conv numeral_2_eq_2)
  show ?thesis using q new(1) new(3) [of 0] new(3) [of 1] ab by (intro exI [of _ q] exI [of _ new]) simp
qed

section \<open>The largest report\<close>

text \<open>
  \<open>LargestReportSizeBits\<close> does not count the last item of a report: for a report of one item of
  \<open>n\<close> bits the parser records \<open>n\<close> bits as the size of the report, but 0 as the largest size.
\<close>

theorem hid_largest_report_short:
  "\<exists>info. USB_ProcessHIDReport (\<lambda>x. True) fresh junk [0x75, n, 0x95, 1, 0x81, 2] = Parsed HID_PARSE_Successful info \<and>
    ReportSizeBits (ReportIDSizes info ! 0) REPORT_ITEM_TYPE_In = ucast n \<and> LargestReportSizeBits info = 0"
proof -
  have u: "ucast (ucast n :: u32) = n" by (rule ucast_up_ucast_id) (simp add: is_up)
  have d: "hid_dispatch k f 0x75 x p = Go (upd_attr (\<lambda>a. a\<lparr>BitSize := ucast x\<rparr>) p)"
    "hid_dispatch k f 0x95 x p = Go (upd_state (\<lambda>t. t\<lparr>ReportCount := ucast x\<rparr>) p)"
    "hid_dispatch k f 0x81 x p = hid_items k f REPORT_ITEM_TYPE_In x (unat (ReportCount (cur_state p))) p" for k f x p
    by (simp_all add: hid_dispatch_def)
  have c: "hid_clear_local 0x75 p = p" "hid_clear_local 0x95 p = p"
    "ParserData (hid_clear_local 0x81 p) = ParserData p" for p
    by (simp_all add: hid_clear_local_def)
  have s: "data_size 0x75 = 1" "data_size 0x95 = 1" "data_size 0x81 = 1" by (simp_all add: data_size_def)
  let ?p = "upd_state (\<lambda>t. t\<lparr>ReportCount := 1\<rparr>) (upd_attr (\<lambda>a. a\<lparr>BitSize := n\<rparr>) (initial_hid junk))"
  have p: "unat (ReportCount (cur_state ?p)) = 1" "ReportItems (ParserData ?p) = []" "CurrReportIDInfo ?p = 0"
    "ReportIDSizes (ParserData ?p) = replicate 10 zero_size_info" "BitSize (StateAttributes (cur_state ?p)) = n"
    "LargestReportSizeBits (ParserData ?p) = 0"
    by (simp_all add: upd_state_def upd_attr_def initial_hid_def cur_state_def initial_info_def)
  have inv: "hid_inv ?p" using inv_initial by simp
  obtain u q where q: "take_usage (Usage (ItemUsage (StateAttributes (cur_state ?p)))) ?p = Go (u, q)"
    using take_usage_room [OF inv, of "Usage (ItemUsage (StateAttributes (cur_state ?p)))"] by (auto simp: initial_hid_def)
  have "ParserData q = ParserData ?p" "CurrReportIDInfo q = 0" "CurrCollectionPath q = CurrCollectionPath ?p"
    using take_usage_inv [OF inv q] p(3) by simp_all
  then obtain r where r: "hid_items (\<lambda>x. True) fresh REPORT_ITEM_TYPE_In 2 1 ?p = Go r"
    "ReportSizeBits (ReportIDSizes (ParserData r) ! 0) REPORT_ITEM_TYPE_In = ucast n"
    "LargestReportSizeBits (ParserData r) = 0" "ReportItems (ParserData r) \<noteq> []"
    using p by (simp add: hid_one_item_def Let_def q zero_size_info_def put_at_def store_item_def)
  have "hid_loop (\<lambda>x. True) fresh [0x75, n, 0x95, 1, 0x81, 2] (initial_hid junk) = Go (hid_clear_local 0x81 r)"
    using r(1) u by (simp add: s c d item_data_def p(1) del: hid_items.simps)
  then show ?thesis using r(2-4) by (simp add: USB_ProcessHIDReport_def c(3))
qed

section \<open>Values in reports\<close>

lemma set_bits_byte:
  assumes "k + n \<le> 8" "b < length ReportData" "8 * b + 8 \<le> 65536"
  shows "\<exists>r. set_bits v ReportData n (of_nat (8 * b + k)) (BV k) = Some r \<and> length r = length ReportData \<and>
    (\<forall>i. i \<noteq> b \<longrightarrow> r ! i = ReportData ! i) \<and>
    (\<forall>j. bit (r ! b) j \<longleftrightarrow> bit (ReportData ! b) j \<or> k \<le> j \<and> j < k + n \<and> bit v j)"
  using assms
proof (induction n arbitrary: k ReportData)
  case 0
  then show ?case by auto
next
  case (Suc n)
  have c: "unat (of_nat (8 * b + k) :: u16) = 8 * b + k" using Suc.prems by (intro unat_word_of_nat_less) simp
  have m: "(BV k :: u32) * 2 = BV (Suc k)" by (simp add: BV_def push_bit_eq_mult)
  have n: "(of_nat (8 * b + k) :: u16) + 1 = of_nat (8 * b + Suc k)" by simp
  define R where "R = (if bit v k then ReportData[b := ReportData ! b OR ucast (BV k :: u32)] else ReportData)"
  have step: "set_bits v ReportData (Suc n) (of_nat (8 * b + k)) (BV k) = set_bits v R n (of_nat (8 * b + Suc k)) (BV (Suc k))"
    using Suc.prems by (simp add: c m n R_def Let_def del: of_nat_add of_nat_mult)
  have R: "length R = length ReportData" "\<And>i. i \<noteq> b \<Longrightarrow> R ! i = ReportData ! i"
    "\<And>j. bit (R ! b) j \<longleftrightarrow> bit (ReportData ! b) j \<or> j = k \<and> bit v k"
    using Suc.prems by (auto simp: R_def bit_or_iff bit_ucast_iff)
  have "Suc k + n \<le> 8" "b < length R" using Suc.prems R(1) by simp_all
  from Suc.IH [OF this Suc.prems(3)] obtain r where
    r: "set_bits v R n (of_nat (8 * b + Suc k)) (BV (Suc k)) = Some r" "length r = length R"
    "\<forall>i. i \<noteq> b \<longrightarrow> r ! i = R ! i"
    "\<And>j. bit (r ! b) j \<longleftrightarrow> bit (R ! b) j \<or> Suc k \<le> j \<and> j < Suc k + n \<and> bit v j" by blast
  have "bit (r ! b) j \<longleftrightarrow> bit (ReportData ! b) j \<or> k \<le> j \<and> j < k + Suc n \<and> bit v j" for j
    using r(4) [of j] R(3) [of j] by (cases "j = k") auto
  then show ?case using r(1-3) R(1,2) step by (intro exI [of _ r]) simp
qed

lemma get_bits_byte:
  assumes "k + n \<le> 8" "b < length ReportData" "8 * b + 8 \<le> 65536"
  shows "\<exists>w. get_bits ReportData n (of_nat (8 * b + k)) (BV k) v = Some w \<and>
    (\<forall>j. bit w j \<longleftrightarrow> bit v j \<or> k \<le> j \<and> j < k + n \<and> bit (ReportData ! b) j)"
  using assms
proof (induction n arbitrary: k v)
  case 0
  then show ?case by auto
next
  case (Suc n)
  have c: "unat (of_nat (8 * b + k) :: u16) = 8 * b + k" using Suc.prems by (intro unat_word_of_nat_less) simp
  have m: "(BV k :: u32) * 2 = BV (Suc k)" by (simp add: BV_def push_bit_eq_mult)
  have n: "(of_nat (8 * b + k) :: u16) + 1 = of_nat (8 * b + Suc k)" by simp
  define x where "x = (if bit (ReportData ! b) k then v OR BV k else v)"
  have step: "get_bits ReportData (Suc n) (of_nat (8 * b + k)) (BV k) v = get_bits ReportData n (of_nat (8 * b + Suc k)) (BV (Suc k)) x"
    using Suc.prems by (simp add: c m n x_def Let_def del: of_nat_add of_nat_mult)
  have x: "bit x j \<longleftrightarrow> bit v j \<or> j = k \<and> bit (ReportData ! b) k" for j
    using Suc.prems by (auto simp: x_def bit_or_iff)
  have "Suc k + n \<le> 8" using Suc.prems by simp
  from Suc.IH [OF this Suc.prems(2,3)] obtain w where w:
    "get_bits ReportData n (of_nat (8 * b + Suc k)) (BV (Suc k)) x = Some w"
    "\<And>j. bit w j \<longleftrightarrow> bit x j \<or> Suc k \<le> j \<and> j < Suc k + n \<and> bit (ReportData ! b) j" by blast
  have "bit w j \<longleftrightarrow> bit v j \<or> k \<le> j \<and> j < k + Suc n \<and> bit (ReportData ! b) j" for j
    using w(2) [of j] x [of j] by (cases "j = k") auto
  then show ?case using w(1) step by (intro exI [of _ w]) simp
qed

text \<open>
  Round trip for byte-aligned items: for an item of at most eight bits that starts on a byte
  boundary inside a cleared report, writing its value and reading it back gives the value, for a
  report with or without an ID.
\<close>

theorem hid_item_round_trip:
  assumes "unat (BitOffset item) = 8 * b" "BitSize (Attributes item) \<le> 8" "b < length ReportData" "ReportData ! b = 0"
    "unat (ItemValue item) < 2 ^ unat (BitSize (Attributes item))"
  shows "\<exists>r i1 i2. USB_SetHIDReportItemInfo (if ReportID item \<noteq> 0 then 0 # ReportData else ReportData) item = Some (r, i1) \<and>
    USB_GetHIDReportItemInfo r i1 = Some (True, i2) \<and> ItemValue i2 = ItemValue item \<and> PreviousValue i2 = ItemValue item"
proof -
  let ?n = "unat (BitSize (Attributes item))" and ?v = "ItemValue item"
  have n: "?n \<le> 8" using assms(2) by (simp add: word_le_nat_alt)
  have b: "8 * b + 8 \<le> 65536" using assms(1) u16_less [of "BitOffset item"] by simp
  have o: "BitOffset item = of_nat (8 * b + 0)" using assms(1) by (metis add_0_right of_nat_unat ucast_id unsigned_of_nat)
  have one: "(1 :: u32) = BV 0" by (simp add: BV_def)
  obtain r where r: "set_bits ?v ReportData ?n (BitOffset item) 1 = Some r" "length r = length ReportData"
    "\<And>j. bit (r ! b) j \<longleftrightarrow> j < ?n \<and> bit ?v j"
    using set_bits_byte [of 0 ?n b ReportData ?v] n b assms(3,4) by (auto simp: o one)
  obtain w where w: "get_bits r ?n (BitOffset item) 1 0 = Some w" "\<And>j. bit w j \<longleftrightarrow> j < ?n \<and> bit ?v j"
    using get_bits_byte [of 0 ?n b r 0] n b assms(3) r by (auto simp: o one)
  have "j < ?n" if "bit ?v j" for j
  proof (rule ccontr)
    assume "\<not> j < ?n"
    moreover have "take_bit ?n ?v = ?v"
      using assms(5) by (simp add: word_unat_eq_iff unsigned_take_bit_eq take_bit_nat_eq_self)
    ultimately show False using that bit_take_bit_iff [of ?n ?v j] by simp
  qed
  then have "w = ?v" using w(2) by (intro bit_word_eqI) blast
  then show ?thesis
    using r(1) w(1) by (simp add: USB_SetHIDReportItemInfo_def USB_GetHIDReportItemInfo_def Let_def)
qed

definition byte_item :: HID_ReportItem_t where
  "byte_item = blank_item\<lparr>BitOffset := 8, ReportID := 3, ItemValue := 0xA7,
     Attributes := zero_attributes\<lparr>BitSize := 8\<rparr>\<rparr>"

theorem hid_item_round_trip_witness:
  "\<exists>r i1 i2. USB_SetHIDReportItemInfo [0, 0, 0, 0] byte_item = Some (r, i1) \<and>
    USB_GetHIDReportItemInfo r i1 = Some (True, i2) \<and> ItemValue i2 = 0xA7"
  using hid_item_round_trip [of byte_item 1 "[0, 0, 0]"] by (auto simp: byte_item_def blank_item_def zero_attributes_def)

text \<open>
  Items that do not start on a byte boundary are lost: the routine tests the bits of the value at
  the position they have in the report and sets them at the position they have in the value, so a
  value of four bits for the upper half of a byte leaves the report as it was.
\<close>

theorem hid_upper_nibble_lost:
  assumes "BitOffset item = 4" "BitSize (Attributes item) = 4" "ReportID item = 0" "unat (ItemValue item) < 16"
  shows "USB_SetHIDReportItemInfo ReportData item = Some (ReportData, item\<lparr>PreviousValue := ItemValue item\<rparr>)"
proof -
  have "\<not> bit (ItemValue item) (4 + j)" for j
  proof -
    have "take_bit 4 (ItemValue item) = ItemValue item"
      using assms(4) by (simp add: word_unat_eq_iff unsigned_take_bit_eq take_bit_nat_eq_self)
    then show ?thesis by (metis bit_take_bit_iff not_add_less1)
  qed
  from this [of 0] this [of 1] this [of 2] this [of 3]
  have "set_bits (ItemValue item) ReportData (Suc (Suc (Suc (Suc 0)))) 4 1 = Some ReportData" by simp
  moreover have "Suc (Suc (Suc (Suc 0))) = 4" by simp
  ultimately have "set_bits (ItemValue item) ReportData 4 4 1 = Some ReportData" by (simp only:)
  moreover have "unat (BitSize (Attributes item)) = 4" using assms(2) by simp
  ultimately show ?thesis using assms(1,3) by (simp add: USB_SetHIDReportItemInfo_def)
qed

theorem hid_upper_nibble_lost_witness:
  "map_option fst (USB_SetHIDReportItemInfo [0] (byte_item\<lparr>BitOffset := 4, ReportID := 0, ItemValue := 9,
     Attributes := zero_attributes\<lparr>BitSize := 4\<rparr>\<rparr>)) = Some [0]"
  by (subst hid_upper_nibble_lost) simp_all

end
