(* ===== verification/Config_Descriptor.thy ===== *)
theory Config_Descriptor
  imports Bytes
begin

text \<open>
  The search for a sub-descriptor in a configuration descriptor,
  \<open>LUFA/Drivers/USB/HighLevel/ConfigDescriptor.c\<close> and \<open>.h\<close>.  Memory is a function from 16-bit
  addresses to bytes, because the routines follow the sizes in the data and may leave the buffer.
  A search that does not end is \<open>None\<close>.
\<close>

section \<open>The routines\<close>

definition DESCRIPTOR_SIZE :: "(u16 \<Rightarrow> u8) \<Rightarrow> u16 \<Rightarrow> u8" where
  "DESCRIPTOR_SIZE mem loc = mem loc"

definition DESCRIPTOR_TYPE :: "(u16 \<Rightarrow> u8) \<Rightarrow> u16 \<Rightarrow> u8" where
  "DESCRIPTOR_TYPE mem loc = mem (loc + 1)"

text \<open>The state is \<open>*BytesRem\<close> and \<open>*CurrConfigLoc\<close>.\<close>

definition USB_GetNextDescriptor :: "(u16 \<Rightarrow> u8) \<Rightarrow> u16 \<times> u16 \<Rightarrow> u16 \<times> u16" where
  "USB_GetNextDescriptor mem = (\<lambda>(BytesRem, CurrConfigLoc).
     let CurrDescriptorSize = ucast (DESCRIPTOR_SIZE mem CurrConfigLoc)
     in (BytesRem - CurrDescriptorSize, CurrConfigLoc + CurrDescriptorSize))"

partial_function (option) USB_GetNextDescriptorOfType :: "(u16 \<Rightarrow> u8) \<Rightarrow> u8 \<Rightarrow> u16 \<times> u16 \<Rightarrow> (u16 \<times> u16) option" where
  [code]: "USB_GetNextDescriptorOfType mem DescType p =
     (if fst p = 0 then Some p
      else let p = USB_GetNextDescriptor mem p
           in if DESCRIPTOR_TYPE mem (snd p) = DescType then Some p else USB_GetNextDescriptorOfType mem DescType p)"

partial_function (option) USB_GetNextDescriptorOfTypeBefore ::
    "(u16 \<Rightarrow> u8) \<Rightarrow> u8 \<Rightarrow> u8 \<Rightarrow> u16 \<times> u16 \<Rightarrow> (u16 \<times> u16) option" where
  [code]: "USB_GetNextDescriptorOfTypeBefore mem DescType BeforeType p =
     (if fst p = 0 then Some p
      else let p = USB_GetNextDescriptor mem p
           in if DESCRIPTOR_TYPE mem (snd p) = DescType then Some p
              else if DESCRIPTOR_TYPE mem (snd p) = BeforeType then Some (0, snd p)
              else USB_GetNextDescriptorOfTypeBefore mem DescType BeforeType p)"

definition USB_GetNextDescriptorOfTypeAfter :: "(u16 \<Rightarrow> u8) \<Rightarrow> u8 \<Rightarrow> u8 \<Rightarrow> u16 \<times> u16 \<Rightarrow> (u16 \<times> u16) option" where
  "USB_GetNextDescriptorOfTypeAfter mem DescType AfterType p =
     do {
       p \<leftarrow> USB_GetNextDescriptorOfType mem AfterType p;
       if fst p \<noteq> 0 then USB_GetNextDescriptorOfType mem DescType p else Some p
     }"

datatype search = DESCRIPTOR_SEARCH_Found | DESCRIPTOR_SEARCH_Fail | DESCRIPTOR_SEARCH_NotFound

datatype search_comp = DESCRIPTOR_SEARCH_COMP_Found | DESCRIPTOR_SEARCH_COMP_Fail | DESCRIPTOR_SEARCH_COMP_EndOfDescriptor

text \<open>The comparator of the application looks at the descriptor at an address.\<close>

partial_function (option) USB_GetNextDescriptorComp ::
    "(u16 \<Rightarrow> u8) \<Rightarrow> (u16 \<Rightarrow> search) \<Rightarrow> u16 \<times> u16 \<Rightarrow> (search_comp \<times> u16 \<times> u16) option" where
  [code]: "USB_GetNextDescriptorComp mem ComparatorRoutine prev =
     (if fst prev = 0 then Some (DESCRIPTOR_SEARCH_COMP_EndOfDescriptor, prev)
      else let p = USB_GetNextDescriptor mem prev
           in case ComparatorRoutine (snd p) of
                DESCRIPTOR_SEARCH_Found \<Rightarrow> Some (DESCRIPTOR_SEARCH_COMP_Found, p)
              | DESCRIPTOR_SEARCH_Fail \<Rightarrow> Some (DESCRIPTOR_SEARCH_COMP_Fail, prev)
              | DESCRIPTOR_SEARCH_NotFound \<Rightarrow> USB_GetNextDescriptorComp mem ComparatorRoutine p)"

section \<open>Well-formed configuration descriptors\<close>

text \<open>
  The descriptors \<open>ds\<close>, each a byte list that starts with its length, stand in memory from \<open>loc\<close> on.
\<close>

definition desc_ok :: "u8 list \<Rightarrow> bool" where
  "desc_ok d \<longleftrightarrow> 2 \<le> length d \<and> length d < 256 \<and> hd d = of_nat (length d)"

fun laid_out :: "(u16 \<Rightarrow> u8) \<Rightarrow> u16 \<Rightarrow> u8 list list \<Rightarrow> bool" where
  "laid_out mem loc [] \<longleftrightarrow> True"
| "laid_out mem loc (d # ds) \<longleftrightarrow>
     desc_ok d \<and> (\<forall>i<length d. mem (loc + of_nat i) = d ! i) \<and> laid_out mem (loc + of_nat (length d)) ds"

definition total_size :: "u8 list list \<Rightarrow> nat" where
  "total_size ds = sum_list (map length ds)"

lemma total_size_simps [simp]: "total_size [] = 0" "total_size (d # ds) = length d + total_size ds"
  by (simp_all add: total_size_def)

lemma first_bytes:
  assumes "laid_out mem loc (d # ds)"
  shows "DESCRIPTOR_SIZE mem loc = of_nat (length d)" "DESCRIPTOR_TYPE mem loc = d ! 1"
proof -
  have d: "desc_ok d" "\<forall>i<length d. mem (loc + of_nat i) = d ! i" using assms by simp_all
  have "0 < length d" "1 < length d" using d(1) by (auto simp: desc_ok_def)
  then have "mem (loc + of_nat 0) = d ! 0" "mem (loc + of_nat 1) = d ! 1" using d(2) by blast+
  moreover have "hd d = d ! 0" using \<open>0 < length d\<close> by (cases d) simp_all
  ultimately show "DESCRIPTOR_SIZE mem loc = of_nat (length d)" "DESCRIPTOR_TYPE mem loc = d ! 1"
    using d(1) by (auto simp: DESCRIPTOR_SIZE_def DESCRIPTOR_TYPE_def desc_ok_def)
qed

text \<open>One step goes from the first descriptor to the rest.\<close>

lemma next_descriptor:
  assumes "laid_out mem loc (d # ds)"
  shows "USB_GetNextDescriptor mem (of_nat (total_size (d # ds)), loc) = (of_nat (total_size ds), loc + of_nat (length d))"
proof -
  have "length d < 256" using assms by (simp add: desc_ok_def)
  then have "(ucast (of_nat (length d) :: u8) :: u16) = of_nat (length d)"
    by (simp add: word_unat_eq_iff unsigned_ucast_eq unsigned_of_nat take_bit_nat_eq_self)
  then show ?thesis using first_bytes(1) [OF assms] by (simp add: USB_GetNextDescriptor_def)
qed

text \<open>What a search behind the first descriptor should find.\<close>

fun find_from :: "(u8 list \<Rightarrow> bool) \<Rightarrow> u16 \<Rightarrow> u8 list list \<Rightarrow> u16 \<times> u16" where
  "find_from P loc [] = (0, loc)"
| "find_from P loc (d # ds) =
     (if P d then (of_nat (total_size (d # ds)), loc) else find_from P (loc + of_nat (length d)) ds)"

lemma total_nonzero:
  assumes "laid_out mem loc (d # ds)" "total_size (d # ds) < 65536"
  shows "(of_nat (total_size (d # ds)) :: u16) \<noteq> 0"
proof -
  have "0 < total_size (d # ds)" using assms(1) by (auto simp: desc_ok_def)
  with assms(2) have "unat (of_nat (total_size (d # ds)) :: u16) \<noteq> 0"
    by (simp del: total_size_simps add: unat_of_nat take_bit_nat_eq_self)
  then show ?thesis by (metis unsigned_0)
qed

fun find_before :: "(u8 list \<Rightarrow> bool) \<Rightarrow> (u8 list \<Rightarrow> bool) \<Rightarrow> u16 \<Rightarrow> u8 list list \<Rightarrow> u16 \<times> u16" where
  "find_before P Q loc [] = (0, loc)"
| "find_before P Q loc (d # ds) =
     (if P d then (of_nat (total_size (d # ds)), loc) else if Q d then (0, loc)
      else find_before P Q (loc + of_nat (length d)) ds)"

lemma search_of_type:
  assumes "laid_out mem loc (d # ds)" "total_size (d # ds) < 65536"
  shows "USB_GetNextDescriptorOfType mem DescType (of_nat (total_size (d # ds)), loc) =
    Some (find_from (\<lambda>x. x ! 1 = DescType) (loc + of_nat (length d)) ds)"
  using assms
proof (induction ds arbitrary: loc d)
  case Nil
  have n: "(of_nat (total_size [d]) :: u16) \<noteq> 0" using Nil by (rule total_nonzero)
  have nx: "USB_GetNextDescriptor mem (of_nat (total_size [d]), loc) = (0, loc + of_nat (length d))"
    using next_descriptor [OF Nil(1)] by simp
  have e: "USB_GetNextDescriptorOfType mem DescType (0, l) = Some (0, l)" for l
    by (simp add: USB_GetNextDescriptorOfType.simps)
  show ?case
    by (subst USB_GetNextDescriptorOfType.simps) (simp only: fst_conv snd_conv n nx if_False Let_def e find_from.simps, simp)
next
  case (Cons x xs)
  let ?l = "loc + of_nat (length d)"
  have l: "laid_out mem ?l (x # xs)" using Cons.prems(1) by simp
  have t: "total_size (x # xs) < 65536" using Cons.prems(2) by simp
  have n: "(of_nat (total_size (d # x # xs)) :: u16) \<noteq> 0" using Cons.prems by (rule total_nonzero)
  show ?case
    by (subst USB_GetNextDescriptorOfType.simps)
      (simp only: fst_conv snd_conv n if_False Let_def next_descriptor [OF Cons.prems(1)] first_bytes(2) [OF l]
        Cons.IH [OF l t] find_from.simps, simp)
qed

lemma search_before:
  assumes "laid_out mem loc (d # ds)" "total_size (d # ds) < 65536"
  shows "USB_GetNextDescriptorOfTypeBefore mem DescType BeforeType (of_nat (total_size (d # ds)), loc) =
    Some (find_before (\<lambda>x. x ! 1 = DescType) (\<lambda>x. x ! 1 = BeforeType) (loc + of_nat (length d)) ds)"
  using assms
proof (induction ds arbitrary: loc d)
  case Nil
  have n: "(of_nat (total_size [d]) :: u16) \<noteq> 0" using Nil by (rule total_nonzero)
  have nx: "USB_GetNextDescriptor mem (of_nat (total_size [d]), loc) = (0, loc + of_nat (length d))"
    using next_descriptor [OF Nil(1)] by simp
  have e: "USB_GetNextDescriptorOfTypeBefore mem DescType BeforeType (0, l) = Some (0, l)" for l
    by (simp add: USB_GetNextDescriptorOfTypeBefore.simps)
  show ?case
    by (subst USB_GetNextDescriptorOfTypeBefore.simps)
      (simp only: fst_conv snd_conv n nx if_False Let_def e find_before.simps, simp)
next
  case (Cons x xs)
  let ?l = "loc + of_nat (length d)"
  have l: "laid_out mem ?l (x # xs)" using Cons.prems(1) by simp
  have t: "total_size (x # xs) < 65536" using Cons.prems(2) by simp
  have n: "(of_nat (total_size (d # x # xs)) :: u16) \<noteq> 0" using Cons.prems by (rule total_nonzero)
  show ?case
    by (subst USB_GetNextDescriptorOfTypeBefore.simps)
      (simp only: fst_conv snd_conv n if_False Let_def next_descriptor [OF Cons.prems(1)] first_bytes(2) [OF l]
        Cons.IH [OF l t] find_before.simps, simp)
qed

text \<open>
  Both in turn: the endpoint search behind an interface, for example, continues from the interface
  the first search has found.
\<close>

lemma find_from_cases:
  "(\<exists>pre x post. ds = pre @ x # post \<and> P x \<and> (\<forall>y\<in>set pre. \<not> P y) \<and>
      find_from P loc ds = (of_nat (total_size (x # post)), loc + of_nat (total_size pre))) \<or>
   (\<forall>y\<in>set ds. \<not> P y) \<and> find_from P loc ds = (0, loc + of_nat (total_size ds))"
proof (induction ds arbitrary: loc)
  case (Cons d ds)
  show ?case
  proof (cases "P d")
    case True
    then show ?thesis by (intro disjI1 exI [of _ "[]"] exI [of _ d] exI [of _ ds]) simp
  next
    case False
    from Cons [of "loc + of_nat (length d)"] show ?thesis
    proof (elim disjE exE conjE)
      fix pre x post
      assume "ds = pre @ x # post" "P x" "\<forall>y\<in>set pre. \<not> P y"
        "find_from P (loc + of_nat (length d)) ds = (of_nat (total_size (x # post)), loc + of_nat (length d) + of_nat (total_size pre))"
      with False show ?thesis by (intro disjI1 exI [of _ "d # pre"] exI [of _ x] exI [of _ post]) (auto simp: ac_simps)
    next
      assume "\<forall>y\<in>set ds. \<not> P y"
        "find_from P (loc + of_nat (length d)) ds = (0, loc + of_nat (length d) + of_nat (total_size ds))"
      with False show ?thesis by (intro disjI2) (auto simp: ac_simps)
    qed
  qed
qed simp

text \<open>
  The comparator search, in terms of the comparator's answers on the descriptors.  The code asks the
  comparator once more behind the last descriptor, about bytes that are not part of the descriptor;
  only a comparator that finds nothing there makes the search report the end.
\<close>

fun comp_from :: "(u16 \<Rightarrow> search) \<Rightarrow> u16 \<times> u16 \<Rightarrow> u16 \<Rightarrow> u8 list list \<Rightarrow> search_comp \<times> u16 \<times> u16" where
  "comp_from f prev loc [] = (DESCRIPTOR_SEARCH_COMP_EndOfDescriptor, 0, loc)"
| "comp_from f prev loc (d # ds) =
     (let here = (of_nat (total_size (d # ds)), loc)
      in case f loc of
           DESCRIPTOR_SEARCH_Found \<Rightarrow> (DESCRIPTOR_SEARCH_COMP_Found, here)
         | DESCRIPTOR_SEARCH_Fail \<Rightarrow> (DESCRIPTOR_SEARCH_COMP_Fail, prev)
         | DESCRIPTOR_SEARCH_NotFound \<Rightarrow> comp_from f here (loc + of_nat (length d)) ds)"

lemma comp_end: "USB_GetNextDescriptorComp mem f (0, l) = Some (DESCRIPTOR_SEARCH_COMP_EndOfDescriptor, 0, l)"
  by (simp add: USB_GetNextDescriptorComp.simps)

lemma search_comp_layout:
  assumes "laid_out mem loc (d # ds)" "total_size (d # ds) < 65536"
    "f (loc + of_nat (total_size (d # ds))) = DESCRIPTOR_SEARCH_NotFound"
  shows "USB_GetNextDescriptorComp mem f (of_nat (total_size (d # ds)), loc) =
    Some (comp_from f (of_nat (total_size (d # ds)), loc) (loc + of_nat (length d)) ds)"
  using assms
proof (induction ds arbitrary: loc d)
  case Nil
  have n: "(of_nat (total_size [d]) :: u16) \<noteq> 0" using Nil(1,2) by (rule total_nonzero)
  have nx: "USB_GetNextDescriptor mem (of_nat (total_size [d]), loc) = (0, loc + of_nat (length d))"
    using next_descriptor [OF Nil(1)] by simp
  have f: "f (loc + of_nat (length d)) = DESCRIPTOR_SEARCH_NotFound" using Nil(3) by simp
  show ?case
    by (subst USB_GetNextDescriptorComp.simps)
      (simp only: fst_conv snd_conv n nx f if_False Let_def comp_end comp_from.simps search.case)
next
  case (Cons x xs)
  let ?l = "loc + of_nat (length d)"
  have l: "laid_out mem ?l (x # xs)" using Cons.prems(1) by simp
  have t: "total_size (x # xs) < 65536" using Cons.prems(2) by simp
  have n: "(of_nat (total_size (d # x # xs)) :: u16) \<noteq> 0" using Cons.prems(1,2) by (rule total_nonzero)
  have f: "f (?l + of_nat (total_size (x # xs))) = DESCRIPTOR_SEARCH_NotFound" using Cons.prems(3) by (simp add: ac_simps)
  show ?case
    by (subst USB_GetNextDescriptorComp.simps)
      (cases "f ?l"; simp only: fst_conv snd_conv n if_False Let_def next_descriptor [OF Cons.prems(1)]
        Cons.IH [OF l t f] comp_from.simps search.case)
qed

lemma comp_found_behind_end:
  assumes "laid_out mem loc [d]" "total_size [d] < 65536" "f (loc + of_nat (length d)) = DESCRIPTOR_SEARCH_Found"
  shows "USB_GetNextDescriptorComp mem f (of_nat (total_size [d]), loc) =
    Some (DESCRIPTOR_SEARCH_COMP_Found, 0, loc + of_nat (length d))"
proof -
  have n: "(of_nat (total_size [d]) :: u16) \<noteq> 0" using assms(1,2) by (rule total_nonzero)
  have nx: "USB_GetNextDescriptor mem (of_nat (total_size [d]), loc) = (0, loc + of_nat (length d))"
    using next_descriptor [OF assms(1)] by simp
  show ?thesis
    by (subst USB_GetNextDescriptorComp.simps)
      (simp only: fst_conv snd_conv n nx assms(3) if_False Let_def search.case)
qed

section \<open>Properties\<close>

text \<open>
  C39. In a well-formed configuration descriptor the search for a type behind the current
  descriptor ends, at the first descriptor of that type with the number of bytes from there to the
  end, or with no bytes left when there is none; the descriptor it stands on is never its own result.
\<close>

theorem search_of_type_first:
  assumes "laid_out mem loc (d # ds)" "total_size (d # ds) < 65536"
  shows "(\<exists>pre x post. ds = pre @ x # post \<and> x ! 1 = DescType \<and> (\<forall>y\<in>set pre. y ! 1 \<noteq> DescType) \<and>
      USB_GetNextDescriptorOfType mem DescType (of_nat (total_size (d # ds)), loc) =
        Some (of_nat (total_size (x # post)), loc + of_nat (length d + total_size pre))) \<or>
    (\<forall>y\<in>set ds. y ! 1 \<noteq> DescType) \<and>
      USB_GetNextDescriptorOfType mem DescType (of_nat (total_size (d # ds)), loc) =
        Some (0, loc + of_nat (total_size (d # ds)))"
  using find_from_cases [of ds "\<lambda>x. x ! 1 = DescType" "loc + of_nat (length d)"] search_of_type [OF assms, of DescType]
  by (simp add: ac_simps)

definition two_descriptors :: "u16 \<Rightarrow> u8" where
  "two_descriptors a = (if a = 0 then 2 else if a = 1 then 2 else if a = 2 then 3 else if a = 3 then 4 else 9)"

theorem search_of_type_first_witness:
  "USB_GetNextDescriptorOfType two_descriptors 4 (5, 0) = Some (3, 2)"
proof -
  have "laid_out two_descriptors 0 [[2, 2], [3, 4, 9]]" "total_size [[2, 2], [3, 4, 9 :: u8]] < 65536"
    by (simp_all add: desc_ok_def two_descriptors_def All_less_Suc)
  from search_of_type_first [OF this, of 4] show ?thesis by (auto simp: Cons_eq_append_conv)
qed

text \<open>
  A sub-descriptor of size zero behind which nothing was found stops every search for good: the
  loop does not end.  The size comes from the attached device.
\<close>

theorem zero_size_diverges:
  assumes "DESCRIPTOR_SIZE mem loc = 0" "BytesRem \<noteq> 0" "DESCRIPTOR_TYPE mem loc \<noteq> DescType"
  shows "USB_GetNextDescriptorOfType mem DescType (BytesRem, loc) = None"
proof -
  have "m = mem \<and> t = DescType \<longrightarrow> (BytesRem, loc) \<noteq> p" if "USB_GetNextDescriptorOfType m t p = Some r" for m t p r
  proof (rule USB_GetNextDescriptorOfType.raw_induct [where P = "\<lambda>m t p r. m = mem \<and> t = DescType \<longrightarrow> (BytesRem, loc) \<noteq> p", OF _ that])
    fix f m t q r
    assume IH: "\<And>m t p r. f m t p = Some r \<Longrightarrow> m = mem \<and> t = DescType \<longrightarrow> (BytesRem, loc) \<noteq> p"
      and s: "(if fst q = 0 then Some q else let p = USB_GetNextDescriptor m q in
                if DESCRIPTOR_TYPE m (snd p) = t then Some p else f m t p) = Some r"
    show "m = mem \<and> t = DescType \<longrightarrow> (BytesRem, loc) \<noteq> q"
    proof (intro impI notI, elim conjE)
      assume "m = mem" "t = DescType" and q: "(BytesRem, loc) = q"
      then have "f mem DescType (BytesRem, loc) = Some r"
        using s assms by (simp add: q [symmetric] USB_GetNextDescriptor_def)
      from IH [OF this] show False by simp
    qed
  qed
  then have "USB_GetNextDescriptorOfType mem DescType (BytesRem, loc) \<noteq> Some r" for r by blast
  then show ?thesis by (cases "USB_GetNextDescriptorOfType mem DescType (BytesRem, loc)") blast+
qed

theorem zero_size_diverges_witness:
  "USB_GetNextDescriptorOfType (\<lambda>a. 0) 4 (9, 0) = None"
  by (rule zero_size_diverges) (simp_all add: DESCRIPTOR_SIZE_def DESCRIPTOR_TYPE_def)

end
