(* ===== verification/Scheduler.thy ===== *)
theory Scheduler
  imports Prelude
begin

text \<open>
  The cooperative task scheduler, \<open>LUFA/Scheduler/Scheduler.c\<close> and \<open>.h\<close>: delays in ticks of a 16-bit
  counter, tasks that are switched on and off alone or by group, and the round over the task list.
\<close>

section \<open>State\<close>

text \<open>A task pointer is a value of type \<open>'p\<close>; what the task does is an argument of the round.\<close>

record 'p TaskEntry_t =
  Task :: 'p
  TaskStatus :: bool
  GroupID :: u8

record 'p scheduler =
  Scheduler_TickCounter :: u16
  Scheduler_TotalTasks :: u8
  Scheduler_TaskList :: "'p TaskEntry_t list"

abbreviation (input) TASK_RUN :: bool where "TASK_RUN \<equiv> True"
abbreviation (input) TASK_STOP :: bool where "TASK_STOP \<equiv> False"
abbreviation (input) MAX_DELAYCTR_COUNT :: u16 where "MAX_DELAYCTR_COUNT \<equiv> 0xFFFF"

section \<open>Delays\<close>

text \<open>The result and the new \<open>*DelayCounter\<close>.\<close>

definition Scheduler_HasDelayElapsed :: "u16 \<Rightarrow> ('p, 'w) scheduler_scheme \<Rightarrow> u16 \<Rightarrow> bool \<times> u16" where
  "Scheduler_HasDelayElapsed Delay s DelayCounter =
     (let CurrentTickValue_LCL = Scheduler_TickCounter s; DelayCounter_LCL = DelayCounter
      in if CurrentTickValue_LCL \<ge> DelayCounter_LCL then
           (if CurrentTickValue_LCL - DelayCounter_LCL \<ge> Delay then (True, CurrentTickValue_LCL) else (False, DelayCounter))
         else
           (if (MAX_DELAYCTR_COUNT - DelayCounter_LCL) + CurrentTickValue_LCL \<ge> Delay
            then (True, CurrentTickValue_LCL) else (False, DelayCounter)))"

definition Scheduler_ResetDelay :: "('p, 'w) scheduler_scheme \<Rightarrow> u16" where
  "Scheduler_ResetDelay s = Scheduler_TickCounter s"

section \<open>Switching tasks\<close>

text \<open>
  The loops go from entry \<open>i\<close> over \<open>n\<close> entries; an entry behind the array is \<open>None\<close>.
\<close>

fun set_task_loop :: "'p \<Rightarrow> bool \<Rightarrow> 'p TaskEntry_t list \<Rightarrow> nat \<Rightarrow> nat \<Rightarrow> 'p TaskEntry_t list option" where
  "set_task_loop task mode ts i 0 = Some ts"
| "set_task_loop task mode ts i (Suc n) =
     (if length ts \<le> i then None
      else if Task (ts ! i) = task then Some (ts[i := (ts ! i)\<lparr>TaskStatus := mode\<rparr>])
      else set_task_loop task mode ts (i + 1) n)"

definition Scheduler_SetTaskMode ::
    "'p \<Rightarrow> bool \<Rightarrow> ('p, 'w) scheduler_scheme \<Rightarrow> ('p, 'w) scheduler_scheme option" where
  "Scheduler_SetTaskMode task mode s =
     map_option (\<lambda>ts. s\<lparr>Scheduler_TaskList := ts\<rparr>)
       (set_task_loop task mode (Scheduler_TaskList s) 0 (unat (Scheduler_TotalTasks s)))"

fun set_group_loop :: "u8 \<Rightarrow> bool \<Rightarrow> 'p TaskEntry_t list \<Rightarrow> nat \<Rightarrow> nat \<Rightarrow> 'p TaskEntry_t list option" where
  "set_group_loop gid mode ts i 0 = Some ts"
| "set_group_loop gid mode ts i (Suc n) =
     (if length ts \<le> i then None
      else set_group_loop gid mode
        (if GroupID (ts ! i) = gid then ts[i := (ts ! i)\<lparr>TaskStatus := mode\<rparr>] else ts) (i + 1) n)"

definition Scheduler_SetGroupTaskMode ::
    "u8 \<Rightarrow> bool \<Rightarrow> ('p, 'w) scheduler_scheme \<Rightarrow> ('p, 'w) scheduler_scheme option" where
  "Scheduler_SetGroupTaskMode gid mode s =
     map_option (\<lambda>ts. s\<lparr>Scheduler_TaskList := ts\<rparr>)
       (set_group_loop gid mode (Scheduler_TaskList s) 0 (unat (Scheduler_TotalTasks s)))"

section \<open>The round\<close>

text \<open>\<open>TOTAL_TASKS\<close> is the length of the list, passed in eight bits.\<close>

definition TOTAL_TASKS :: "('p, 'w) scheduler_scheme \<Rightarrow> u8" where
  "TOTAL_TASKS s = of_nat (length (Scheduler_TaskList s))"

definition Scheduler_InitScheduler :: "u8 \<Rightarrow> ('p, 'w) scheduler_scheme \<Rightarrow> ('p, 'w) scheduler_scheme" where
  "Scheduler_InitScheduler TotalTasks s = s\<lparr>Scheduler_TotalTasks := TotalTasks\<rparr>"

text \<open>One pass of the endless loop; a task may change the state, the list included.\<close>

fun schedule_round ::
    "('p \<Rightarrow> ('p, 'w) scheduler_scheme \<Rightarrow> ('p, 'w) scheduler_scheme) \<Rightarrow> nat \<Rightarrow> nat \<Rightarrow>
     ('p, 'w) scheduler_scheme \<Rightarrow> ('p, 'w) scheduler_scheme option" where
  "schedule_round run i 0 s = Some s"
| "schedule_round run i (Suc n) s =
     (if length (Scheduler_TaskList s) \<le> i then None
      else let CurrTask = Scheduler_TaskList s ! i
           in schedule_round run (i + 1) n (if TaskStatus CurrTask = TASK_RUN then run (Task CurrTask) s else s))"

fun schedule_rounds ::
    "('p \<Rightarrow> ('p, 'w) scheduler_scheme \<Rightarrow> ('p, 'w) scheduler_scheme) \<Rightarrow> u8 \<Rightarrow> nat \<Rightarrow>
     ('p, 'w) scheduler_scheme \<Rightarrow> ('p, 'w) scheduler_scheme option" where
  "schedule_rounds run TotalTasks 0 s = Some s"
| "schedule_rounds run TotalTasks (Suc k) s =
     Option.bind (schedule_round run 0 (unat TotalTasks) s) (schedule_rounds run TotalTasks k)"

text \<open>The first \<open>k\<close> passes of \<open>Scheduler_Start\<close>, which never returns.\<close>

definition Scheduler_GoSchedule ::
    "('p \<Rightarrow> ('p, 'w) scheduler_scheme \<Rightarrow> ('p, 'w) scheduler_scheme) \<Rightarrow> u8 \<Rightarrow> nat \<Rightarrow>
     ('p, 'w) scheduler_scheme \<Rightarrow> ('p, 'w) scheduler_scheme option" where
  "Scheduler_GoSchedule run TotalTasks k s = schedule_rounds run TotalTasks k (Scheduler_InitScheduler TotalTasks s)"

section \<open>Properties\<close>

text \<open>
  A delay has elapsed exactly when at least \<open>Delay\<close> ticks have passed since the counter was
  set, but a tick counter that has wrapped in between costs one more tick; the counter is moved to the
  current tick exactly then.
\<close>

theorem has_delay_elapsed:
  "Scheduler_HasDelayElapsed Delay s DelayCounter =
    (let elapsed = unat (Scheduler_TickCounter s - DelayCounter);
         wrapped = Scheduler_TickCounter s < DelayCounter
     in if unat Delay + (if wrapped then 1 else 0) \<le> elapsed then (True, Scheduler_TickCounter s) else (False, DelayCounter))"
proof (cases "Scheduler_TickCounter s < DelayCounter")
  case True
  let ?x = "Scheduler_TickCounter s - DelayCounter"
  have x: "(0xFFFF - DelayCounter) + Scheduler_TickCounter s = ?x - 1" by simp
  have "?x \<noteq> 0" using True by auto
  then have "unat (?x - 1) = unat ?x - 1" "0 < unat ?x" by (simp_all add: unat_minus_one unat_gt_0)
  then show ?thesis using True unfolding Scheduler_HasDelayElapsed_def Let_def x
    by (auto simp: word_le_nat_alt word_less_nat_alt)
next
  case False
  then show ?thesis by (simp add: Scheduler_HasDelayElapsed_def Let_def word_le_nat_alt word_less_nat_alt)
qed

lemma set_task_loop_spec:
  "i + n = length ts \<Longrightarrow> set_task_loop task mode ts i n =
     Some (case find (\<lambda>j. Task (ts ! j) = task) [i..<length ts] of
             None \<Rightarrow> ts | Some j \<Rightarrow> ts[j := (ts ! j)\<lparr>TaskStatus := mode\<rparr>])"
  by (induction task mode ts i n rule: set_task_loop.induct) (auto simp: upt_conv_Cons)

lemma set_group_loop_spec:
  "i + n = length ts \<Longrightarrow> set_group_loop gid mode ts i n =
     Some (take i ts @ map (\<lambda>t. if GroupID t = gid then t\<lparr>TaskStatus := mode\<rparr> else t) (drop i ts))"
proof (induction n arbitrary: i ts)
  case (Suc n)
  let ?f = "\<lambda>t. if GroupID t = gid then t\<lparr>TaskStatus := mode\<rparr> else t"
  define us where "us = (if GroupID (ts ! i) = gid then ts[i := (ts ! i)\<lparr>TaskStatus := mode\<rparr>] else ts)"
  have i: "i < length ts" using Suc.prems by simp
  have l: "length us = length ts" by (simp add: us_def)
  have t: "take (i + 1) us = take i ts @ [?f (ts ! i)]" "drop (i + 1) us = drop (Suc i) ts"
    using i by (auto simp: us_def take_Suc_conv_app_nth)
  have "set_group_loop gid mode ts i (Suc n) = set_group_loop gid mode us (i + 1) n"
    using i by (simp add: us_def)
  also have "\<dots> = Some (take (i + 1) us @ map ?f (drop (i + 1) us))"
    using Suc.prems l by (intro Suc.IH) simp
  also have "\<dots> = Some (take i ts @ map ?f (drop i ts))"
    unfolding t Cons_nth_drop_Suc [OF i, symmetric] by simp
  finally show ?case .
qed simp

lemma set_group_all:
  assumes "unat (Scheduler_TotalTasks s) = length (Scheduler_TaskList s)"
  shows "Scheduler_SetGroupTaskMode gid mode s = Some (s\<lparr>Scheduler_TaskList :=
    map (\<lambda>t. if GroupID t = gid then t\<lparr>TaskStatus := mode\<rparr> else t) (Scheduler_TaskList s)\<rparr>)"
  using assms by (simp add: Scheduler_SetGroupTaskMode_def set_group_loop_spec)

lemma round_runs:
  assumes "i + n = length (Scheduler_TaskList s)" "\<And>p s. Scheduler_TaskList (run p s) = Scheduler_TaskList s"
  shows "schedule_round run i n s =
    Some (fold run (map Task (filter TaskStatus (drop i (Scheduler_TaskList s)))) s)"
  using assms(1)
proof (induction n arbitrary: i s)
  case (Suc n)
  then have "i < length (Scheduler_TaskList s)" by simp
  then have "drop i (Scheduler_TaskList s) = Scheduler_TaskList s ! i # drop (Suc i) (Scheduler_TaskList s)"
    by (rule Cons_nth_drop_Suc [symmetric])
  then show ?case using Suc assms(2) by (simp add: Let_def)
qed simp

text \<open>
  C40. Once a group is stopped, a round of the scheduler runs the tasks outside the group that are
  switched on, each once and in the order of the list, and no other, as long as the tasks leave the
  list alone.
\<close>

theorem stopped_group_does_not_run:
  assumes "Scheduler_SetGroupTaskMode gid TASK_STOP s = Some s'"
    "unat (Scheduler_TotalTasks s) = length (Scheduler_TaskList s)"
    "\<And>p s. Scheduler_TaskList (run p s) = Scheduler_TaskList s"
  shows "schedule_round run 0 (unat (Scheduler_TotalTasks s')) s' =
    Some (fold run (map Task (filter (\<lambda>t. TaskStatus t \<and> GroupID t \<noteq> gid) (Scheduler_TaskList s))) s')"
proof -
  have s': "s' = s\<lparr>Scheduler_TaskList :=
    map (\<lambda>t. if GroupID t = gid then t\<lparr>TaskStatus := False\<rparr> else t) (Scheduler_TaskList s)\<rparr>"
    using assms(1) set_group_all [OF assms(2)] by simp
  have "map Task (filter TaskStatus (map (\<lambda>t. if GroupID t = gid then t\<lparr>TaskStatus := False\<rparr> else t) ts)) =
      map Task (filter (\<lambda>t. TaskStatus t \<and> GroupID t \<noteq> gid) ts)" for ts :: "'a TaskEntry_t list"
    by (induction ts) auto
  then show ?thesis using round_runs [of 0 "unat (Scheduler_TotalTasks s')" s' run] assms(2,3) by (simp add: s')
qed

text \<open>Three tasks, the first two of them in one group; a task is a step of the tick counter.\<close>

definition three_tasks :: "u16 scheduler" where
  "three_tasks = \<lparr>Scheduler_TickCounter = 0, Scheduler_TotalTasks = 3, Scheduler_TaskList =
     [\<lparr>Task = 1, TaskStatus = True, GroupID = 1\<rparr>, \<lparr>Task = 2, TaskStatus = True, GroupID = 1\<rparr>,
      \<lparr>Task = 4, TaskStatus = True, GroupID = 2\<rparr>]\<rparr>"

theorem stopped_group_does_not_run_witness:
  "map_option Scheduler_TickCounter
     (Option.bind (Scheduler_SetGroupTaskMode 1 TASK_STOP three_tasks)
       (\<lambda>s. schedule_round (\<lambda>p s. s\<lparr>Scheduler_TickCounter := Scheduler_TickCounter s + p\<rparr>) 0 3 s)) = Some 4"
proof -
  have n: "unat (Scheduler_TotalTasks three_tasks) = length (Scheduler_TaskList three_tasks)"
    by (simp add: three_tasks_def)
  let ?s = "three_tasks\<lparr>Scheduler_TaskList :=
    map (\<lambda>t. if GroupID t = 1 then t\<lparr>TaskStatus := False\<rparr> else t) (Scheduler_TaskList three_tasks)\<rparr>"
  have g: "Scheduler_SetGroupTaskMode 1 TASK_STOP three_tasks = Some ?s" using set_group_all [OF n] by simp
  have t: "unat (Scheduler_TotalTasks ?s) = 3" by (simp add: three_tasks_def)
  show ?thesis
    using stopped_group_does_not_run [OF g n, of "\<lambda>p s. s\<lparr>Scheduler_TickCounter := Scheduler_TickCounter s + p\<rparr>"]
    unfolding g t by (simp add: three_tasks_def)
qed

end
