(* ===== verification/Pipe.thy ===== *)
theory Pipe
  imports Endpoint
begin

text \<open>
  The USB pipe driver of the host mode, \<open>LUFA/Drivers/USB/LowLevel/Pipe.h\<close> and \<open>Pipe.c\<close> with its
  template, for the configuration of the mass storage host demo
  (\<open>Demos/Host/ClassDriver/MassStorageHost/makefile\<close>): \<open>USB_HOST_ONLY\<close>, an AVR of the USB series 7, no
  \<open>FAST_STREAM_TRANSFERS\<close>, stream callbacks enabled, a stream timeout of 5000 frames.  As in the
  endpoint driver, the templates that differ only in the kind of memory are one definition over
  the bytes.  Error codes are the numbers of the code, because the host code mixes the codes of
  several enumerations in one \<open>uint8_t\<close>.
\<close>

section \<open>Registers\<close>

text \<open>
  The locations of the host firmware: the registers it shares with the device firmware, the
  registers of the pipes and of the host controller, the host state that interrupts
  change, and the delay of a millisecond, which is a write to a location of its own.
\<close>

datatype hreg =
    Shared reg
  | UPNUM | UPRST | UPCONX | UPCFG0X | UPCFG1X | UPCFG2X | UPINTX | UPSTAX | UPINT | UPIENX | UPERRX
  | UPINRQX | UPBCLX | UPBCHX | UPDATX
  | UHCON | UHINT | UHIEN | UHADDR | OTGCON | OTGINT | OTGIEN
  | V_HostState | V_DelayMS

type_synonym 'h hio = "(hreg, 'h) access"

abbreviation (input) RXINI :: nat where "RXINI \<equiv> 0"
abbreviation (input) RXSTALLI :: nat where "RXSTALLI \<equiv> 1"
abbreviation (input) TXOUTI :: nat where "TXOUTI \<equiv> 2"
abbreviation (input) TXSTPI :: nat where "TXSTPI \<equiv> 3"
abbreviation (input) PERRI :: nat where "PERRI \<equiv> 4"
abbreviation (input) NAKEDI :: nat where "NAKEDI \<equiv> 6"
abbreviation (input) PEN :: nat where "PEN \<equiv> 0"
abbreviation (input) INMODE :: nat where "INMODE \<equiv> 5"
abbreviation (input) PFREEZE :: nat where "PFREEZE \<equiv> 6"
abbreviation (input) PTOKEN0 :: nat where "PTOKEN0 \<equiv> 4"
abbreviation (input) HSOFI :: nat where "HSOFI \<equiv> 5"

abbreviation (input) PIPE_TOKEN_SETUP :: u8 where "PIPE_TOKEN_SETUP \<equiv> 0x00"
abbreviation (input) PIPE_TOKEN_IN :: u8 where "PIPE_TOKEN_IN \<equiv> 0x10"
abbreviation (input) PIPE_TOKEN_OUT :: u8 where "PIPE_TOKEN_OUT \<equiv> 0x20"
abbreviation (input) PIPE_TOKEN_MASK :: u8 where "PIPE_TOKEN_MASK \<equiv> 0x30"
abbreviation (input) PIPE_BANK_SINGLE :: u8 where "PIPE_BANK_SINGLE \<equiv> 0x00"
abbreviation (input) PIPE_BANK_DOUBLE :: u8 where "PIPE_BANK_DOUBLE \<equiv> 0x04"
abbreviation (input) PIPE_CONTROLPIPE :: u8 where "PIPE_CONTROLPIPE \<equiv> 0"
abbreviation (input) PIPE_CONTROLPIPE_DEFAULT_SIZE :: u8 where "PIPE_CONTROLPIPE_DEFAULT_SIZE \<equiv> 64"
abbreviation (input) PIPE_TOTAL_PIPES :: nat where "PIPE_TOTAL_PIPES \<equiv> 7"
abbreviation (input) PIPE_PIPENUM_MASK :: u8 where "PIPE_PIPENUM_MASK \<equiv> 0x07"
abbreviation (input) PIPE_EPNUM_MASK :: u8 where "PIPE_EPNUM_MASK \<equiv> 0x0F"
abbreviation (input) PIPE_EPDIR_MASK :: u8 where "PIPE_EPDIR_MASK \<equiv> 0x80"
abbreviation (input) PIPE_ERRORFLAG_OVERFLOW :: u8 where "PIPE_ERRORFLAG_OVERFLOW \<equiv> 0x40"
abbreviation (input) PIPE_ERRORFLAG_UNDERFLOW :: u8 where "PIPE_ERRORFLAG_UNDERFLOW \<equiv> 0x20"
abbreviation (input) HOST_STREAM_TIMEOUT_MS :: nat where "HOST_STREAM_TIMEOUT_MS \<equiv> 5000"
abbreviation (input) HOST_STATE_Unattached :: u8 where "HOST_STATE_Unattached \<equiv> 2"

section \<open>Macros\<close>

definition Pipe_BytesInPipe :: "'h hio \<Rightarrow> 'h \<Rightarrow> u16 \<times> 'h" where
  "Pipe_BytesInPipe io s =
     (let (lo, s) = io_rd io UPBCLX s; (hi, s) = io_rd io UPBCHX s
      in (push_bit 8 (ucast hi) OR ucast lo, s))"

definition Pipe_GetCurrentPipe :: "'h hio \<Rightarrow> 'h \<Rightarrow> u8 \<times> 'h" where
  "Pipe_GetCurrentPipe io s = (let (v, s) = io_rd io UPNUM s in (v AND PIPE_PIPENUM_MASK, s))"

definition Pipe_SelectPipe :: "'h hio \<Rightarrow> u8 \<Rightarrow> 'h \<Rightarrow> 'h" where
  "Pipe_SelectPipe io pipenum s = io_wr io UPNUM pipenum s"

definition Pipe_ResetPipe :: "'h hio \<Rightarrow> u8 \<Rightarrow> 'h \<Rightarrow> 'h" where
  "Pipe_ResetPipe io pipenum s = io_wr io UPRST 0 (io_wr io UPRST (BV (unat pipenum)) s)"

definition Pipe_EnablePipe :: "'h hio \<Rightarrow> 'h \<Rightarrow> 'h" where
  "Pipe_EnablePipe io s = or_reg io UPCONX (BV PEN) s"

definition Pipe_DisablePipe :: "'h hio \<Rightarrow> 'h \<Rightarrow> 'h" where
  "Pipe_DisablePipe io s = clr_reg io UPCONX (BV PEN) s"

definition Pipe_IsEnabled :: "'h hio \<Rightarrow> 'h \<Rightarrow> bool \<times> 'h" where
  "Pipe_IsEnabled io s = test_reg io UPCONX PEN s"

definition Pipe_GetPipeToken :: "'h hio \<Rightarrow> 'h \<Rightarrow> u8 \<times> 'h" where
  "Pipe_GetPipeToken io s = (let (v, s) = io_rd io UPCFG0X s in (v AND PIPE_TOKEN_MASK, s))"

definition Pipe_SetPipeToken :: "'h hio \<Rightarrow> u8 \<Rightarrow> 'h \<Rightarrow> 'h" where
  "Pipe_SetPipeToken io token s =
     (let (v, s) = io_rd io UPCFG0X s in io_wr io UPCFG0X ((v AND NOT PIPE_TOKEN_MASK) OR token) s)"

definition Pipe_SetInfiniteINRequests :: "'h hio \<Rightarrow> 'h \<Rightarrow> 'h" where
  "Pipe_SetInfiniteINRequests io s = or_reg io UPCONX (BV INMODE) s"

definition Pipe_SetFiniteINRequests :: "'h hio \<Rightarrow> u8 \<Rightarrow> 'h \<Rightarrow> 'h" where
  "Pipe_SetFiniteINRequests io n s = io_wr io UPINRQX n (clr_reg io UPCONX (BV INMODE) s)"

definition Pipe_IsConfigured :: "'h hio \<Rightarrow> 'h \<Rightarrow> bool \<times> 'h" where
  "Pipe_IsConfigured io s = test_reg io UPSTAX CFGOK s"

definition Pipe_BoundEndpointNumber :: "'h hio \<Rightarrow> 'h \<Rightarrow> u8 \<times> 'h" where
  "Pipe_BoundEndpointNumber io s = (let (v, s) = io_rd io UPCFG0X s in (v AND PIPE_EPNUM_MASK, s))"

definition Pipe_SetInterruptPeriod :: "'h hio \<Rightarrow> u8 \<Rightarrow> 'h \<Rightarrow> 'h" where
  "Pipe_SetInterruptPeriod io ms s = io_wr io UPCFG2X ms s"

definition Pipe_GetPipeInterrupts :: "'h hio \<Rightarrow> 'h \<Rightarrow> u8 \<times> 'h" where
  "Pipe_GetPipeInterrupts io s = io_rd io UPINT s"

definition Pipe_HasPipeInterrupted :: "'h hio \<Rightarrow> u8 \<Rightarrow> 'h \<Rightarrow> bool \<times> 'h" where
  "Pipe_HasPipeInterrupted io n s = test_reg io UPINT (unat n) s"

definition Pipe_Unfreeze :: "'h hio \<Rightarrow> 'h \<Rightarrow> 'h" where
  "Pipe_Unfreeze io s = clr_reg io UPCONX (BV PFREEZE) s"

definition Pipe_Freeze :: "'h hio \<Rightarrow> 'h \<Rightarrow> 'h" where
  "Pipe_Freeze io s = or_reg io UPCONX (BV PFREEZE) s"

definition Pipe_IsFrozen :: "'h hio \<Rightarrow> 'h \<Rightarrow> bool \<times> 'h" where
  "Pipe_IsFrozen io s = test_reg io UPCONX PFREEZE s"

definition Pipe_ClearError :: "'h hio \<Rightarrow> 'h \<Rightarrow> 'h" where
  "Pipe_ClearError io s = clr_reg io UPINTX (BV PERRI) s"

definition Pipe_IsError :: "'h hio \<Rightarrow> 'h \<Rightarrow> bool \<times> 'h" where
  "Pipe_IsError io s = test_reg io UPINTX PERRI s"

definition Pipe_ClearErrorFlags :: "'h hio \<Rightarrow> 'h \<Rightarrow> 'h" where
  "Pipe_ClearErrorFlags io s = io_wr io UPERRX 0 s"

text \<open>
  In \<open>UPSTAX & PIPE_ERRORFLAG_OVERFLOW | PIPE_ERRORFLAG_UNDERFLOW\<close> the conjunction binds stronger.
\<close>

definition Pipe_GetErrorFlags :: "'h hio \<Rightarrow> 'h \<Rightarrow> u8 \<times> 'h" where
  "Pipe_GetErrorFlags io s =
     (let (err, s) = io_rd io UPERRX s; (sta, s) = io_rd io UPSTAX s
      in ((err AND 0x1F) OR ((sta AND PIPE_ERRORFLAG_OVERFLOW) OR PIPE_ERRORFLAG_UNDERFLOW), s))"

definition Pipe_IsReadWriteAllowed :: "'h hio \<Rightarrow> 'h \<Rightarrow> bool \<times> 'h" where
  "Pipe_IsReadWriteAllowed io s = test_reg io UPINTX RWAL s"

definition Pipe_IsINReceived :: "'h hio \<Rightarrow> 'h \<Rightarrow> bool \<times> 'h" where
  "Pipe_IsINReceived io s = test_reg io UPINTX RXINI s"

definition Pipe_IsOUTReady :: "'h hio \<Rightarrow> 'h \<Rightarrow> bool \<times> 'h" where
  "Pipe_IsOUTReady io s = test_reg io UPINTX TXOUTI s"

definition Pipe_IsSETUPSent :: "'h hio \<Rightarrow> 'h \<Rightarrow> bool \<times> 'h" where
  "Pipe_IsSETUPSent io s = test_reg io UPINTX TXSTPI s"

text \<open>\<open>Pipe_ClearIN\<close>, \<open>Pipe_ClearOUT\<close> and \<open>Pipe_ClearSETUP\<close> write the register twice from one reading.\<close>

definition clear_pipe_flag :: "'h hio \<Rightarrow> nat \<Rightarrow> 'h \<Rightarrow> 'h" where
  "clear_pipe_flag io flag s =
     (let (Temp, s) = io_rd io UPINTX s;
          s = io_wr io UPINTX (Temp AND NOT (BV flag)) s
      in io_wr io UPINTX (Temp AND NOT (BV FIFOCON)) s)"

definition Pipe_ClearIN :: "'h hio \<Rightarrow> 'h \<Rightarrow> 'h" where
  "Pipe_ClearIN io s = clear_pipe_flag io RXINI s"

definition Pipe_ClearOUT :: "'h hio \<Rightarrow> 'h \<Rightarrow> 'h" where
  "Pipe_ClearOUT io s = clear_pipe_flag io TXOUTI s"

definition Pipe_ClearSETUP :: "'h hio \<Rightarrow> 'h \<Rightarrow> 'h" where
  "Pipe_ClearSETUP io s = clear_pipe_flag io TXSTPI s"

definition Pipe_IsNAKReceived :: "'h hio \<Rightarrow> 'h \<Rightarrow> bool \<times> 'h" where
  "Pipe_IsNAKReceived io s = test_reg io UPINTX NAKEDI s"

definition Pipe_ClearNAKReceived :: "'h hio \<Rightarrow> 'h \<Rightarrow> 'h" where
  "Pipe_ClearNAKReceived io s = clr_reg io UPINTX (BV NAKEDI) s"

definition Pipe_IsStalled :: "'h hio \<Rightarrow> 'h \<Rightarrow> bool \<times> 'h" where
  "Pipe_IsStalled io s = test_reg io UPINTX RXSTALLI s"

definition Pipe_ClearStall :: "'h hio \<Rightarrow> 'h \<Rightarrow> 'h" where
  "Pipe_ClearStall io s = clr_reg io UPINTX (BV RXSTALLI) s"

definition Pipe_AllocateMemory :: "'h hio \<Rightarrow> 'h \<Rightarrow> 'h" where
  "Pipe_AllocateMemory io s = or_reg io UPCFG1X (BV ALLOC) s"

definition Pipe_DeallocateMemory :: "'h hio \<Rightarrow> 'h \<Rightarrow> 'h" where
  "Pipe_DeallocateMemory io s = clr_reg io UPCFG1X (BV ALLOC) s"

text \<open>The host state, and the start of frame interrupt flag.\<close>

definition host_state_is :: "'h hio \<Rightarrow> u8 \<Rightarrow> 'h \<Rightarrow> bool \<times> 'h" where
  "host_state_is io x s = (let (v, s) = io_rd io V_HostState s in (v = x, s))"

definition USB_INT_HasOccurred_HSOFI :: "'h hio \<Rightarrow> 'h \<Rightarrow> bool \<times> 'h" where
  "USB_INT_HasOccurred_HSOFI io s = test_reg io UHINT HSOFI s"

definition USB_INT_Clear_HSOFI :: "'h hio \<Rightarrow> 'h \<Rightarrow> 'h" where
  "USB_INT_Clear_HSOFI io s = clr_reg io UHINT (BV HSOFI) s"

section \<open>Bytes, words and double words\<close>

definition Pipe_Read_Byte :: "'h hio \<Rightarrow> 'h \<Rightarrow> u8 \<times> 'h" where
  "Pipe_Read_Byte io s = io_rd io UPDATX s"

definition Pipe_Write_Byte :: "'h hio \<Rightarrow> u8 \<Rightarrow> 'h \<Rightarrow> 'h" where
  "Pipe_Write_Byte io Byte s = io_wr io UPDATX Byte s"

definition Pipe_Discard_Byte :: "'h hio \<Rightarrow> 'h \<Rightarrow> 'h" where
  "Pipe_Discard_Byte io s = snd (io_rd io UPDATX s)"

definition Pipe_Read_Word_LE :: "'h hio \<Rightarrow> 'h \<Rightarrow> u16 \<times> 'h" where
  "Pipe_Read_Word_LE io s =
     (let (b0, s) = io_rd io UPDATX s; (b1, s) = io_rd io UPDATX s in (word16 b0 b1, s))"

definition Pipe_Read_Word_BE :: "'h hio \<Rightarrow> 'h \<Rightarrow> u16 \<times> 'h" where
  "Pipe_Read_Word_BE io s =
     (let (b1, s) = io_rd io UPDATX s; (b0, s) = io_rd io UPDATX s in (word16 b0 b1, s))"

definition Pipe_Write_Word_LE :: "'h hio \<Rightarrow> u16 \<Rightarrow> 'h \<Rightarrow> 'h" where
  "Pipe_Write_Word_LE io Word s =
     io_wr io UPDATX (ucast (drop_bit 8 Word)) (io_wr io UPDATX (ucast (Word AND 0xFF)) s)"

definition Pipe_Write_Word_BE :: "'h hio \<Rightarrow> u16 \<Rightarrow> 'h \<Rightarrow> 'h" where
  "Pipe_Write_Word_BE io Word s =
     io_wr io UPDATX (ucast (Word AND 0xFF)) (io_wr io UPDATX (ucast (drop_bit 8 Word)) s)"

definition Pipe_Discard_Word :: "'h hio \<Rightarrow> 'h \<Rightarrow> 'h" where
  "Pipe_Discard_Word io s = snd (io_rd io UPDATX (snd (io_rd io UPDATX s)))"

definition Pipe_Read_DWord_LE :: "'h hio \<Rightarrow> 'h \<Rightarrow> u32 \<times> 'h" where
  "Pipe_Read_DWord_LE io s =
     (let (b0, s) = io_rd io UPDATX s; (b1, s) = io_rd io UPDATX s;
          (b2, s) = io_rd io UPDATX s; (b3, s) = io_rd io UPDATX s in (word32 b0 b1 b2 b3, s))"

definition Pipe_Read_DWord_BE :: "'h hio \<Rightarrow> 'h \<Rightarrow> u32 \<times> 'h" where
  "Pipe_Read_DWord_BE io s =
     (let (b3, s) = io_rd io UPDATX s; (b2, s) = io_rd io UPDATX s;
          (b1, s) = io_rd io UPDATX s; (b0, s) = io_rd io UPDATX s in (word32 b0 b1 b2 b3, s))"

definition Pipe_Write_DWord_LE :: "'h hio \<Rightarrow> u32 \<Rightarrow> 'h \<Rightarrow> 'h" where
  "Pipe_Write_DWord_LE io DWord s =
     (let s = io_wr io UPDATX (ucast (DWord AND 0xFF)) s;
          s = io_wr io UPDATX (ucast (drop_bit 8 DWord)) s;
          s = io_wr io UPDATX (ucast (drop_bit 16 DWord)) s
      in io_wr io UPDATX (ucast (drop_bit 24 DWord)) s)"

definition Pipe_Write_DWord_BE :: "'h hio \<Rightarrow> u32 \<Rightarrow> 'h \<Rightarrow> 'h" where
  "Pipe_Write_DWord_BE io DWord s =
     (let s = io_wr io UPDATX (ucast (drop_bit 24 DWord)) s;
          s = io_wr io UPDATX (ucast (drop_bit 16 DWord)) s;
          s = io_wr io UPDATX (ucast (drop_bit 8 DWord)) s
      in io_wr io UPDATX (ucast (DWord AND 0xFF)) s)"

definition Pipe_Discard_DWord :: "'h hio \<Rightarrow> 'h \<Rightarrow> 'h" where
  "Pipe_Discard_DWord io s = Pipe_Discard_Word io (Pipe_Discard_Word io s)"

section \<open>Configuration\<close>

definition Pipe_BytesToEPSizeMask :: "u16 \<Rightarrow> u8" where
  "Pipe_BytesToEPSizeMask Bytes =
     (if Bytes \<le> 8 then push_bit EPSIZE0 0
      else if Bytes \<le> 16 then push_bit EPSIZE0 1
      else if Bytes \<le> 32 then push_bit EPSIZE0 2
      else if Bytes \<le> 64 then push_bit EPSIZE0 3
      else if Bytes \<le> 128 then push_bit EPSIZE0 4
      else push_bit EPSIZE0 5)"

definition Pipe_ConfigurePipe :: "'h hio \<Rightarrow> u8 \<Rightarrow> u8 \<Rightarrow> u8 \<Rightarrow> u8 \<Rightarrow> u16 \<Rightarrow> u8 \<Rightarrow> 'h \<Rightarrow> bool \<times> 'h" where
  "Pipe_ConfigurePipe io Number Type Token EndpointNumber Size Banks s =
     (let s = Pipe_SelectPipe io Number s;
          s = Pipe_EnablePipe io s;
          s = io_wr io UPCFG1X 0 s;
          s = io_wr io UPCFG0X (push_bit EPTYPE0 Type OR Token OR (EndpointNumber AND PIPE_EPNUM_MASK)) s;
          s = io_wr io UPCFG1X (BV ALLOC OR Banks OR Pipe_BytesToEPSizeMask Size) s;
          s = Pipe_SetInfiniteINRequests io s
      in Pipe_IsConfigured io s)"

definition clear_pipe :: "'h hio \<Rightarrow> nat \<Rightarrow> 'h \<Rightarrow> 'h" where
  "clear_pipe io PNum s =
     (let s = Pipe_ResetPipe io (of_nat PNum) s;
          s = Pipe_SelectPipe io (of_nat PNum) s;
          s = io_wr io UPIENX 0 s;
          s = io_wr io UPINTX 0 s;
          s = Pipe_ClearError io s;
          s = Pipe_ClearErrorFlags io s;
          s = Pipe_DeallocateMemory io s
      in Pipe_DisablePipe io s)"

definition Pipe_ClearPipes :: "'h hio \<Rightarrow> 'h \<Rightarrow> 'h" where
  "Pipe_ClearPipes io s = fold (clear_pipe io) [0..<PIPE_TOTAL_PIPES] (io_wr io UPINT 0 s)"

text \<open>
  The loop over the pipes.  For a pipe with a token other than SETUP the variable \<open>PipeToken\<close> becomes
  the truth value of the comparison; a SETUP token stays as it is, and is zero.
\<close>

fun bound_loop :: "'h hio \<Rightarrow> u8 \<Rightarrow> nat list \<Rightarrow> 'h \<Rightarrow> bool \<times> 'h" where
  "bound_loop io EndpointAddress [] s = (False, s)"
| "bound_loop io EndpointAddress (PNum # rest) s =
     (let s = Pipe_SelectPipe io (of_nat PNum) s;
          (PipeToken, s) = Pipe_GetPipeToken io s;
          PipeToken = (if PipeToken \<noteq> PIPE_TOKEN_SETUP
             then of_bool (PipeToken = (if EndpointAddress AND PIPE_EPDIR_MASK \<noteq> 0 then PIPE_TOKEN_IN else PIPE_TOKEN_OUT))
             else PipeToken);
          (conf, s) = Pipe_IsConfigured io s
      in if conf then
           let (num, s) = Pipe_BoundEndpointNumber io s
           in if num = EndpointAddress AND PIPE_EPNUM_MASK \<and> PipeToken \<noteq> 0 then (True, s)
              else bound_loop io EndpointAddress rest s
         else bound_loop io EndpointAddress rest s)"

definition Pipe_IsEndpointBound :: "'h hio \<Rightarrow> u8 \<Rightarrow> 'h \<Rightarrow> bool \<times> 'h" where
  "Pipe_IsEndpointBound io EndpointAddress s =
     (let (PrevPipeNumber, s) = Pipe_GetCurrentPipe io s;
          (found, s) = bound_loop io EndpointAddress [0..<PIPE_TOTAL_PIPES] s
      in (found, if found then s else Pipe_SelectPipe io PrevPipeNumber s))"

section \<open>Waiting\<close>

abbreviation (input) PIPE_READYWAIT_NoError :: u8 where "PIPE_READYWAIT_NoError \<equiv> 0"
abbreviation (input) PIPE_READYWAIT_PipeStalled :: u8 where "PIPE_READYWAIT_PipeStalled \<equiv> 1"
abbreviation (input) PIPE_READYWAIT_DeviceDisconnected :: u8 where "PIPE_READYWAIT_DeviceDisconnected \<equiv> 2"
abbreviation (input) PIPE_READYWAIT_Timeout :: u8 where "PIPE_READYWAIT_Timeout \<equiv> 3"
abbreviation (input) PIPE_RWSTREAM_NoError :: u8 where "PIPE_RWSTREAM_NoError \<equiv> 0"
abbreviation (input) PIPE_RWSTREAM_PipeStalled :: u8 where "PIPE_RWSTREAM_PipeStalled \<equiv> 1"
abbreviation (input) PIPE_RWSTREAM_DeviceDisconnected :: u8 where "PIPE_RWSTREAM_DeviceDisconnected \<equiv> 2"
abbreviation (input) PIPE_RWSTREAM_Timeout :: u8 where "PIPE_RWSTREAM_Timeout \<equiv> 3"
abbreviation (input) PIPE_RWSTREAM_CallbackAborted :: u8 where "PIPE_RWSTREAM_CallbackAborted \<equiv> 4"

text \<open>One round of the endless loop.\<close>

definition pipe_wait_round :: "'h hio \<Rightarrow> nat \<Rightarrow> 'h \<Rightarrow> (u8, nat) flow \<times> 'h" where
  "pipe_wait_round io TimeoutMSRem s =
     (let (token, s) = Pipe_GetPipeToken io s;
          (rdy, s) = (if token = PIPE_TOKEN_IN then Pipe_IsINReceived io s else Pipe_IsOUTReady io s)
      in if rdy then (Return PIPE_READYWAIT_NoError, s)
      else let (st, s) = Pipe_IsStalled io s
      in if st then (Return PIPE_READYWAIT_PipeStalled, s)
      else let (un, s) = host_state_is io HOST_STATE_Unattached s
      in if un then (Return PIPE_READYWAIT_DeviceDisconnected, s)
      else let (sof, s) = USB_INT_HasOccurred_HSOFI io s
      in if sof then
           let s = USB_INT_Clear_HSOFI io s
           in if TimeoutMSRem = 0 then (Return PIPE_READYWAIT_Timeout, s) else (Next (TimeoutMSRem - 1), s)
         else (Next TimeoutMSRem, s))"

partial_function (option) pipe_wait_loop :: "'h hio \<Rightarrow> nat \<Rightarrow> 'h \<Rightarrow> (u8 \<times> 'h) option" where
  [code]: "pipe_wait_loop io TimeoutMSRem s =
     (case pipe_wait_round io TimeoutMSRem s of
        (Return e, s) \<Rightarrow> Some (e, s)
      | (Next t, s) \<Rightarrow> pipe_wait_loop io t s)"

definition Pipe_WaitUntilReady :: "'h hio \<Rightarrow> 'h \<Rightarrow> (u8 \<times> 'h) option" where
  "Pipe_WaitUntilReady io s = pipe_wait_loop io HOST_STREAM_TIMEOUT_MS s"

section \<open>Streams (Template\_Pipe\_RW.c)\<close>

definition pipe_next_bank :: "'h hio \<Rightarrow> 'h callback \<Rightarrow> ('h \<Rightarrow> 'h) \<Rightarrow> 'h \<Rightarrow> (u8 \<times> 'h) option" where
  "pipe_next_bank io Callback clear s =
     (let s = clear s;
          (abort, s) = (case Callback of None \<Rightarrow> (False, s) | Some cb \<Rightarrow> cb s)
      in if abort then Some (PIPE_RWSTREAM_CallbackAborted, s) else Pipe_WaitUntilReady io s)"

partial_function (option) write_pipe_loop :: "'h hio \<Rightarrow> 'h callback \<Rightarrow> u8 list \<Rightarrow> 'h \<Rightarrow> (u8 \<times> 'h) option" where
  [code]: "write_pipe_loop io Callback bytes s =
     (case bytes of [] \<Rightarrow> Some (PIPE_RWSTREAM_NoError, s)
      | b # rest \<Rightarrow>
          (let (allowed, s) = Pipe_IsReadWriteAllowed io s
           in if \<not> allowed then
                do {
                  (e, s) \<leftarrow> pipe_next_bank io Callback (Pipe_ClearOUT io) s;
                  if e \<noteq> 0 then Some (e, s) else write_pipe_loop io Callback bytes s
                }
              else write_pipe_loop io Callback rest (Pipe_Write_Byte io b s)))"

definition Pipe_Write_Stream_LE :: "'h hio \<Rightarrow> 'h callback \<Rightarrow> u8 list \<Rightarrow> 'h \<Rightarrow> (u8 \<times> 'h) option" where
  "Pipe_Write_Stream_LE io Callback Buffer s =
     do {
       (e, s) \<leftarrow> Pipe_WaitUntilReady io (Pipe_SetPipeToken io PIPE_TOKEN_OUT s);
       if e \<noteq> 0 then Some (e, s) else write_pipe_loop io Callback Buffer s
     }"

text \<open>The big-endian form walks the buffer downwards.\<close>

definition Pipe_Write_Stream_BE :: "'h hio \<Rightarrow> 'h callback \<Rightarrow> u8 list \<Rightarrow> 'h \<Rightarrow> (u8 \<times> 'h) option" where
  "Pipe_Write_Stream_BE io Callback Buffer s = Pipe_Write_Stream_LE io Callback (rev Buffer) s"

text \<open>Reading stores the bytes received so far, also when it ends with an error.\<close>

partial_function (option) read_pipe_loop ::
    "'h hio \<Rightarrow> 'h callback \<Rightarrow> nat \<Rightarrow> u8 list \<Rightarrow> 'h \<Rightarrow> (u8 \<times> u8 list \<times> 'h) option" where
  [code]: "read_pipe_loop io Callback Length got s =
     (if Length = 0 then Some (PIPE_RWSTREAM_NoError, got, s)
      else
        (let (allowed, s) = Pipe_IsReadWriteAllowed io s
         in if \<not> allowed then
              do {
                (e, s) \<leftarrow> pipe_next_bank io Callback (Pipe_ClearIN io) s;
                if e \<noteq> 0 then Some (e, got, s) else read_pipe_loop io Callback Length got s
              }
            else
              (let (b, s) = Pipe_Read_Byte io s
               in read_pipe_loop io Callback (Length - 1) (got @ [b]) s)))"

definition Pipe_Read_Stream_LE :: "'h hio \<Rightarrow> 'h callback \<Rightarrow> nat \<Rightarrow> 'h \<Rightarrow> (u8 \<times> u8 list \<times> 'h) option" where
  "Pipe_Read_Stream_LE io Callback Length s =
     do {
       (e, s) \<leftarrow> Pipe_WaitUntilReady io (Pipe_SetPipeToken io PIPE_TOKEN_IN s);
       if e \<noteq> 0 then Some (e, [], s) else read_pipe_loop io Callback Length [] s
     }"

text \<open>The big-endian form fills the buffer from its end.\<close>

definition Pipe_Read_Stream_BE :: "'h hio \<Rightarrow> 'h callback \<Rightarrow> nat \<Rightarrow> 'h \<Rightarrow> (u8 \<times> u8 list \<times> 'h) option" where
  "Pipe_Read_Stream_BE io Callback Length s =
     map_option (\<lambda>(e, got, s). (e, rev got, s)) (Pipe_Read_Stream_LE io Callback Length s)"

definition Pipe_Discard_Stream :: "'h hio \<Rightarrow> 'h callback \<Rightarrow> nat \<Rightarrow> 'h \<Rightarrow> (u8 \<times> 'h) option" where
  "Pipe_Discard_Stream io Callback Length s =
     map_option (\<lambda>(e, got, s). (e, s)) (Pipe_Read_Stream_LE io Callback Length s)"

end
