(* ===== verification/Host_Control.thy ===== *)
theory Host_Control
  imports Pipe Chapter9
begin

text \<open>
  Control requests and enumeration of the USB host: \<open>LUFA/Drivers/USB/LowLevel/HostChapter9.c\<close>,
  \<open>Host.c\<close> and \<open>Host.h\<close>, and the host parts of \<open>HighLevel/USBInterrupt.c\<close>, \<open>HighLevel/USBTask.c\<close>,
  \<open>HighLevel/ConfigDescriptor.c\<close> and \<open>LowLevel/LowLevel.c\<close>, compiled with \<open>USB_HOST_ONLY\<close>, so that
  \<open>USB_CurrentMode\<close> is the constant \<open>USB_MODE_HOST\<close>.  The global \<open>USB_ControlRequest\<close>, which every
  caller sets before it sends, is an argument.
\<close>

section \<open>Bus and power macros\<close>

text \<open>The registers shared with the device firmware, as it sees them.\<close>

definition shared :: "'h hio \<Rightarrow> 'h mmio" where
  "shared io = \<lparr>io_rd = (\<lambda>r. io_rd io (Shared r)), io_wr = (\<lambda>r. io_wr io (Shared r))\<rparr>"

abbreviation (input) SOFEN :: nat where "SOFEN \<equiv> 0"
abbreviation (input) RESET :: nat where "RESET \<equiv> 1"
abbreviation (input) RESUME :: nat where "RESUME \<equiv> 2"
abbreviation (input) RXRSMI :: nat where "RXRSMI \<equiv> 4"
abbreviation (input) VBUSHWC :: nat where "VBUSHWC \<equiv> 2"
abbreviation (input) VBUSREQ :: nat where "VBUSREQ \<equiv> 1"
abbreviation (input) VBUSRQC :: nat where "VBUSRQC \<equiv> 0"
abbreviation (input) UVCONE :: nat where "UVCONE \<equiv> 4"

definition USB_Host_ResetBus :: "'h hio \<Rightarrow> 'h \<Rightarrow> 'h" where
  "USB_Host_ResetBus io s = or_reg io UHCON (BV RESET) s"

definition USB_Host_IsBusResetComplete :: "'h hio \<Rightarrow> 'h \<Rightarrow> bool \<times> 'h" where
  "USB_Host_IsBusResetComplete io s = (let (b, s) = test_reg io UHCON RESET s in (\<not> b, s))"

definition USB_Host_ResumeBus :: "'h hio \<Rightarrow> 'h \<Rightarrow> 'h" where
  "USB_Host_ResumeBus io s = or_reg io UHCON (BV SOFEN) s"

definition USB_Host_SuspendBus :: "'h hio \<Rightarrow> 'h \<Rightarrow> 'h" where
  "USB_Host_SuspendBus io s = clr_reg io UHCON (BV SOFEN) s"

definition USB_Host_IsBusSuspended :: "'h hio \<Rightarrow> 'h \<Rightarrow> bool \<times> 'h" where
  "USB_Host_IsBusSuspended io s = (let (b, s) = test_reg io UHCON SOFEN s in (\<not> b, s))"

definition USB_Host_IsDeviceFullSpeed :: "'h hio \<Rightarrow> 'h \<Rightarrow> bool \<times> 'h" where
  "USB_Host_IsDeviceFullSpeed io s = test_reg io (Shared USBSTA) 3 s"

definition USB_Host_IsRemoteWakeupSent :: "'h hio \<Rightarrow> 'h \<Rightarrow> bool \<times> 'h" where
  "USB_Host_IsRemoteWakeupSent io s = test_reg io UHINT RXRSMI s"

definition USB_Host_ClearRemoteWakeupSent :: "'h hio \<Rightarrow> 'h \<Rightarrow> 'h" where
  "USB_Host_ClearRemoteWakeupSent io s = clr_reg io UHINT (BV RXRSMI) s"

definition USB_Host_ResumeFromWakeupRequest :: "'h hio \<Rightarrow> 'h \<Rightarrow> 'h" where
  "USB_Host_ResumeFromWakeupRequest io s = or_reg io UHCON (BV RESUME) s"

definition USB_Host_IsResumeFromWakeupRequestSent :: "'h hio \<Rightarrow> 'h \<Rightarrow> bool \<times> 'h" where
  "USB_Host_IsResumeFromWakeupRequestSent io s = (let (b, s) = test_reg io UHCON RESUME s in (\<not> b, s))"

definition USB_Host_HostMode_On :: "'h hio \<Rightarrow> 'h \<Rightarrow> 'h" where
  "USB_Host_HostMode_On io s = or_reg io (Shared USBCON) (BV 6) s"

definition USB_Host_HostMode_Off :: "'h hio \<Rightarrow> 'h \<Rightarrow> 'h" where
  "USB_Host_HostMode_Off io s = clr_reg io (Shared USBCON) (BV 6) s"

definition USB_Host_VBUS_Auto_Enable :: "'h hio \<Rightarrow> 'h \<Rightarrow> 'h" where
  "USB_Host_VBUS_Auto_Enable io s = or_reg io (Shared UHWCON) (BV UVCONE) (clr_reg io OTGCON (BV VBUSHWC) s)"

definition USB_Host_VBUS_Manual_Enable :: "'h hio \<Rightarrow> 'h \<Rightarrow> 'h" where
  "USB_Host_VBUS_Manual_Enable io s =
     or_reg io (Shared DDRE) (BV 7) (clr_reg io (Shared UHWCON) (BV UVCONE) (or_reg io OTGCON (BV VBUSHWC) s))"

definition USB_Host_VBUS_Auto_On :: "'h hio \<Rightarrow> 'h \<Rightarrow> 'h" where
  "USB_Host_VBUS_Auto_On io s = or_reg io OTGCON (BV VBUSREQ) s"

definition USB_Host_VBUS_Manual_On :: "'h hio \<Rightarrow> 'h \<Rightarrow> 'h" where
  "USB_Host_VBUS_Manual_On io s = or_reg io (Shared PORTE) (BV 7) s"

definition USB_Host_VBUS_Auto_Off :: "'h hio \<Rightarrow> 'h \<Rightarrow> 'h" where
  "USB_Host_VBUS_Auto_Off io s = or_reg io OTGCON (BV VBUSRQC) s"

definition USB_Host_VBUS_Manual_Off :: "'h hio \<Rightarrow> 'h \<Rightarrow> 'h" where
  "USB_Host_VBUS_Manual_Off io s = clr_reg io (Shared PORTE) (BV 7) s"

definition USB_Host_SetDeviceAddress :: "'h hio \<Rightarrow> u8 \<Rightarrow> 'h \<Rightarrow> 'h" where
  "USB_Host_SetDeviceAddress io addr s = io_wr io UHADDR (addr AND 0x7F) s"

section \<open>Host interrupts (USBInterrupt.h)\<close>

datatype host_int = INT_DCONNI | INT_DDISCI | INT_BCERRI | INT_VBERRI | INT_HSOFI | INT_RSTI | INT_SRPI

text \<open>The enable and the flag register of an interrupt, which have the same bit.\<close>

fun host_int_bit :: "host_int \<Rightarrow> hreg \<times> hreg \<times> nat" where
  "host_int_bit INT_DCONNI = (UHIEN, UHINT, 0)"
| "host_int_bit INT_DDISCI = (UHIEN, UHINT, 1)"
| "host_int_bit INT_BCERRI = (OTGIEN, OTGINT, 2)"
| "host_int_bit INT_VBERRI = (OTGIEN, OTGINT, 1)"
| "host_int_bit INT_HSOFI = (UHIEN, UHINT, 5)"
| "host_int_bit INT_RSTI = (UHIEN, UHINT, 2)"
| "host_int_bit INT_SRPI = (OTGIEN, OTGINT, 0)"

definition Host_INT_Enable :: "'h hio \<Rightarrow> host_int \<Rightarrow> 'h \<Rightarrow> 'h" where
  "Host_INT_Enable io i s = (case host_int_bit i of (en, fl, n) \<Rightarrow> or_reg io en (BV n) s)"

definition Host_INT_Disable :: "'h hio \<Rightarrow> host_int \<Rightarrow> 'h \<Rightarrow> 'h" where
  "Host_INT_Disable io i s = (case host_int_bit i of (en, fl, n) \<Rightarrow> clr_reg io en (BV n) s)"

definition Host_INT_Clear :: "'h hio \<Rightarrow> host_int \<Rightarrow> 'h \<Rightarrow> 'h" where
  "Host_INT_Clear io i s = (case host_int_bit i of (en, fl, n) \<Rightarrow> clr_reg io fl (BV n) s)"

definition Host_INT_IsEnabled :: "'h hio \<Rightarrow> host_int \<Rightarrow> 'h \<Rightarrow> bool \<times> 'h" where
  "Host_INT_IsEnabled io i s = (case host_int_bit i of (en, fl, n) \<Rightarrow> test_reg io en n s)"

definition Host_INT_HasOccurred :: "'h hio \<Rightarrow> host_int \<Rightarrow> 'h \<Rightarrow> bool \<times> 'h" where
  "Host_INT_HasOccurred io i s = (case host_int_bit i of (en, fl, n) \<Rightarrow> test_reg io fl n s)"

definition host_int_pending :: "'h hio \<Rightarrow> host_int \<Rightarrow> 'h \<Rightarrow> bool \<times> 'h" where
  "host_int_pending io i s =
     (let (o1, s) = Host_INT_HasOccurred io i s in if o1 then Host_INT_IsEnabled io i s else (False, s))"

section \<open>Waiting\<close>

abbreviation (input) HOST_WAITERROR_Successful :: u8 where "HOST_WAITERROR_Successful \<equiv> 0"
abbreviation (input) HOST_WAITERROR_DeviceDisconnect :: u8 where "HOST_WAITERROR_DeviceDisconnect \<equiv> 1"
abbreviation (input) HOST_WAITERROR_PipeError :: u8 where "HOST_WAITERROR_PipeError \<equiv> 2"
abbreviation (input) HOST_WAITERROR_SetupStalled :: u8 where "HOST_WAITERROR_SetupStalled \<equiv> 3"
abbreviation (input) HOST_SENDCONTROL_Successful :: u8 where "HOST_SENDCONTROL_Successful \<equiv> 0"
abbreviation (input) HOST_SENDCONTROL_DeviceDisconnected :: u8 where "HOST_SENDCONTROL_DeviceDisconnected \<equiv> 1"
abbreviation (input) HOST_SENDCONTROL_PipeError :: u8 where "HOST_SENDCONTROL_PipeError \<equiv> 2"
abbreviation (input) HOST_SENDCONTROL_SetupStalled :: u8 where "HOST_SENDCONTROL_SetupStalled \<equiv> 3"
abbreviation (input) HOST_SENDCONTROL_SoftwareTimeOut :: u8 where "HOST_SENDCONTROL_SoftwareTimeOut \<equiv> 4"
abbreviation (input) USB_HOST_TIMEOUT_MS :: nat where "USB_HOST_TIMEOUT_MS \<equiv> 1000"

text \<open>One round of the loop of \<open>USB_Host_WaitMS\<close>; \<open>MS\<close> is at least one.\<close>

definition wait_ms_round :: "'h hio \<Rightarrow> nat \<Rightarrow> 'h \<Rightarrow> (u8, nat) flow \<times> 'h" where
  "wait_ms_round io MS s =
     (let (sof, s) = USB_INT_HasOccurred_HSOFI io s;
          (MS, s) = (if sof then (MS - 1, USB_INT_Clear_HSOFI io s) else (MS, s));
          (un, s) = host_state_is io HOST_STATE_Unattached s
      in if un then (Return HOST_WAITERROR_DeviceDisconnect, s)
      else let (er, s) = Pipe_IsError io s
      in if er then (Return HOST_WAITERROR_PipeError, Pipe_ClearError io s)
      else let (st, s) = Pipe_IsStalled io s
      in if st then (Return HOST_WAITERROR_SetupStalled, Pipe_ClearStall io s)
      else (Next MS, s))"

partial_function (option) wait_ms_loop :: "'h hio \<Rightarrow> nat \<Rightarrow> 'h \<Rightarrow> (u8 \<times> 'h) option" where
  [code]: "wait_ms_loop io MS s =
     (if MS = 0 then Some (HOST_WAITERROR_Successful, s)
      else case wait_ms_round io MS s of
             (Return e, s) \<Rightarrow> Some (e, s)
           | (Next MS, s) \<Rightarrow> wait_ms_loop io MS s)"

definition USB_Host_WaitMS :: "'h hio \<Rightarrow> u8 \<Rightarrow> 'h \<Rightarrow> (u8 \<times> 'h) option" where
  "USB_Host_WaitMS io MS s =
     do {
       let (BusSuspended, s) = USB_Host_IsBusSuspended io s;
       (ErrorCode, s) \<leftarrow> wait_ms_loop io (unat MS) (USB_Host_ResumeBus io s);
       Some (ErrorCode, if BusSuspended then USB_Host_SuspendBus io s else s)
     }"

datatype wait_type = USB_HOST_WAITFOR_SetupSent | USB_HOST_WAITFOR_InReceived | USB_HOST_WAITFOR_OutReady

definition wait_flag :: "'h hio \<Rightarrow> wait_type \<Rightarrow> 'h \<Rightarrow> bool \<times> 'h" where
  "wait_flag io WaitType s =
     (case WaitType of
        USB_HOST_WAITFOR_SetupSent \<Rightarrow> Pipe_IsSETUPSent io s
      | USB_HOST_WAITFOR_InReceived \<Rightarrow> Pipe_IsINReceived io s
      | USB_HOST_WAITFOR_OutReady \<Rightarrow> Pipe_IsOUTReady io s)"

text \<open>The loop of \<open>USB_Host_WaitForIOS\<close>; the number is \<open>TimeoutCounter\<close>.\<close>

fun wait_ios_loop :: "'h hio \<Rightarrow> wait_type \<Rightarrow> nat \<Rightarrow> 'h \<Rightarrow> (u8 \<times> 'h) option" where
  "wait_ios_loop io WaitType 0 s =
     (let (b, s) = wait_flag io WaitType s
      in if b then Some (HOST_SENDCONTROL_Successful, s)
         else do {
           (ErrorCode, s) \<leftarrow> USB_Host_WaitMS io 1 s;
           Some (if ErrorCode \<noteq> 0 then ErrorCode else HOST_SENDCONTROL_SoftwareTimeOut, s)
         })"
| "wait_ios_loop io WaitType (Suc TimeoutCounter) s =
     (let (b, s) = wait_flag io WaitType s
      in if b then Some (HOST_SENDCONTROL_Successful, s)
         else do {
           (ErrorCode, s) \<leftarrow> USB_Host_WaitMS io 1 s;
           if ErrorCode \<noteq> 0 then Some (ErrorCode, s) else wait_ios_loop io WaitType TimeoutCounter s
         })"

definition USB_Host_WaitForIOS :: "'h hio \<Rightarrow> wait_type \<Rightarrow> 'h \<Rightarrow> (u8 \<times> 'h) option" where
  "USB_Host_WaitForIOS io WaitType s = wait_ios_loop io WaitType USB_HOST_TIMEOUT_MS s"

section \<open>Control requests (HostChapter9.c)\<close>

definition header_bytes_of :: "USB_Request_Header_t \<Rightarrow> u8 list" where
  "header_bytes_of r = [bmRequestType r, bRequest r] @ bytes16 (wValue r) @ bytes16 (wIndex r) @ bytes16 (wLength r)"

text \<open>
  \<open>while (Pipe_BytesInPipe() && DataLen)\<close>: the bytes of the packet, and what is left of \<open>DataLen\<close>.
\<close>

fun read_in_packet :: "'h hio \<Rightarrow> nat \<Rightarrow> u8 list \<Rightarrow> 'h \<Rightarrow> nat \<times> u8 list \<times> 'h" where
  "read_in_packet io 0 got s = (0, got, snd (Pipe_BytesInPipe io s))"
| "read_in_packet io (Suc DataLen) got s =
     (let (n, s) = Pipe_BytesInPipe io s
      in if n = 0 then (Suc DataLen, got, s)
         else let (b, s) = Pipe_Read_Byte io s in read_in_packet io DataLen (got @ [b]) s)"

text \<open>The data stage of a device-to-host request: the status and the bytes stored.\<close>

partial_function (option) in_data_loop :: "'h hio \<Rightarrow> nat \<Rightarrow> u8 list \<Rightarrow> 'h \<Rightarrow> (u8 \<times> u8 list \<times> 'h) option" where
  [code]: "in_data_loop io DataLen got s =
     (if DataLen = 0 then Some (HOST_SENDCONTROL_Successful, got, s)
      else do {
        (e, s) \<leftarrow> USB_Host_WaitForIOS io USB_HOST_WAITFOR_InReceived (Pipe_Unfreeze io s);
        if e \<noteq> 0 then Some (e, got, s)
        else
          (let (n, s) = Pipe_BytesInPipe io s;
               DataLen = (if n = 0 then 0 else DataLen);
               (DataLen, got, s) = read_in_packet io DataLen got s
           in in_data_loop io DataLen got (Pipe_ClearIN io (Pipe_Freeze io s)))
      })"

text \<open>\<open>while (DataLen && (Pipe_BytesInPipe() < USB_ControlPipeSize))\<close>\<close>

fun fill_out_packet :: "'h hio \<Rightarrow> u8 \<Rightarrow> u8 list \<Rightarrow> 'h \<Rightarrow> u8 list \<times> 'h" where
  "fill_out_packet io ControlPipeSize [] s = ([], s)"
| "fill_out_packet io ControlPipeSize (b # rest) s =
     (let (n, s) = Pipe_BytesInPipe io s
      in if n < ucast ControlPipeSize then fill_out_packet io ControlPipeSize rest (Pipe_Write_Byte io b s)
         else (b # rest, s))"

partial_function (option) out_data_loop :: "'h hio \<Rightarrow> u8 \<Rightarrow> u8 list \<Rightarrow> 'h \<Rightarrow> (u8 \<times> 'h) option" where
  [code]: "out_data_loop io ControlPipeSize bytes s =
     (if bytes = [] then Some (HOST_SENDCONTROL_Successful, s)
      else do {
        (e, s) \<leftarrow> USB_Host_WaitForIOS io USB_HOST_WAITFOR_OutReady s;
        if e \<noteq> 0 then Some (e, s)
        else let (rest, s) = fill_out_packet io ControlPipeSize bytes s
             in out_data_loop io ControlPipeSize rest (Pipe_ClearOUT io s)
      })"

text \<open>
  The two directions up to the label \<open>End_Of_Control_Send\<close>.  The buffer is \<open>None\<close> for a null
  pointer, otherwise what the memory there holds, at least \<open>wLength\<close> bytes.
\<close>

definition control_in_stage :: "'h hio \<Rightarrow> u16 \<Rightarrow> u8 list option \<Rightarrow> 'h \<Rightarrow> (u8 \<times> u8 list \<times> 'h) option" where
  "control_in_stage io DataLen DataStream s =
     do {
       let s = Pipe_SetPipeToken io PIPE_TOKEN_IN s;
       (e, got, s) \<leftarrow> (case DataStream of None \<Rightarrow> Some (0, [], s) | Some mem \<Rightarrow> in_data_loop io (unat DataLen) [] s);
       if e \<noteq> 0 then Some (e, got, s)
       else do {
         let s = Pipe_Unfreeze io (Pipe_SetPipeToken io PIPE_TOKEN_OUT s);
         (e, s) \<leftarrow> USB_Host_WaitForIOS io USB_HOST_WAITFOR_OutReady s;
         if e \<noteq> 0 then Some (e, got, s)
         else do {
           (e, s) \<leftarrow> USB_Host_WaitForIOS io USB_HOST_WAITFOR_OutReady (Pipe_ClearOUT io s);
           Some (e, got, s)
         }
       }
     }"

definition control_out_stage :: "'h hio \<Rightarrow> u8 \<Rightarrow> u16 \<Rightarrow> u8 list option \<Rightarrow> 'h \<Rightarrow> (u8 \<times> 'h) option" where
  "control_out_stage io ControlPipeSize DataLen DataStream s =
     do {
       (e, s) \<leftarrow> (case DataStream of None \<Rightarrow> Some (0, s)
         | Some mem \<Rightarrow>
             do {
               let s = Pipe_Unfreeze io (Pipe_SetPipeToken io PIPE_TOKEN_OUT s);
               (e, s) \<leftarrow> out_data_loop io ControlPipeSize (take (unat DataLen) mem) s;
               if e \<noteq> 0 then Some (e, s)
               else do {
                 (e, s) \<leftarrow> USB_Host_WaitForIOS io USB_HOST_WAITFOR_OutReady s;
                 Some (e, if e \<noteq> 0 then s else Pipe_Freeze io s)
               }
             });
       if e \<noteq> 0 then Some (e, s)
       else do {
         let s = Pipe_Unfreeze io (Pipe_SetPipeToken io PIPE_TOKEN_IN s);
         (e, s) \<leftarrow> USB_Host_WaitForIOS io USB_HOST_WAITFOR_InReceived s;
         Some (e, if e \<noteq> 0 then s else Pipe_ClearIN io s)
       }
     }"

text \<open>The SETUP stage: the header goes out, and a millisecond passes.\<close>

definition control_setup_stage :: "'h hio \<Rightarrow> USB_Request_Header_t \<Rightarrow> 'h \<Rightarrow> (u8 \<times> 'h) option" where
  "control_setup_stage io req s =
     do {
       (e, s) \<leftarrow> USB_Host_WaitMS io 1 (USB_Host_ResumeBus io s);
       if e \<noteq> 0 then Some (e, s)
       else do {
         let s = Pipe_Unfreeze io (Pipe_ClearErrorFlags io (Pipe_SetPipeToken io PIPE_TOKEN_SETUP s));
         let s = Pipe_ClearSETUP io (fold (Pipe_Write_Byte io) (header_bytes_of req) s);
         (e, s) \<leftarrow> USB_Host_WaitForIOS io USB_HOST_WAITFOR_SetupSent s;
         if e \<noteq> 0 then Some (e, s) else USB_Host_WaitMS io 1 (Pipe_Freeze io s)
       }
     }"

text \<open>The result is the status and the buffer as the request leaves it.\<close>

definition USB_Host_SendControlRequest ::
    "'h hio \<Rightarrow> u8 \<Rightarrow> USB_Request_Header_t \<Rightarrow> u8 list option \<Rightarrow> 'h \<Rightarrow> (u8 \<times> u8 list option \<times> 'h) option" where
  "USB_Host_SendControlRequest io ControlPipeSize req BufferPtr s =
     do {
       let (BusSuspended, s) = USB_Host_IsBusSuspended io s;
       (e, s) \<leftarrow> control_setup_stage io req s;
       (e, got, s) \<leftarrow>
         (if e \<noteq> 0 then Some (e, [], s)
          else if bmRequestType req AND 0x80 = REQDIR_DEVICETOHOST then control_in_stage io (wLength req) BufferPtr s
          else map_option (\<lambda>(e, s). (e, [], s)) (control_out_stage io ControlPipeSize (wLength req) BufferPtr s));
       let s = Pipe_Freeze io s;
       let s = (if BusSuspended then USB_Host_SuspendBus io s else s);
       Some (e, map_option (\<lambda>mem. got @ drop (length got) mem) BufferPtr, Pipe_ResetPipe io PIPE_CONTROLPIPE s)
     }"

end
