(* ===== verification/Host_Task.thy ===== *)
theory Host_Task
  imports Host_Control Config_Descriptor
begin

text \<open>
  The state machine of the USB host: the standard requests and \<open>USB_Host_ProcessNextHostState\<close> of
  \<open>LUFA/Drivers/USB/LowLevel/Host.c\<close>, the reading of a configuration descriptor
  (\<open>HighLevel/ConfigDescriptor.c\<close>), the host parts of the interrupt handler
  (\<open>HighLevel/USBInterrupt.c\<close>), of \<open>USB_USBTask\<close> (\<open>HighLevel/USBTask.c\<close>) and of the start and reset
  of the interface (\<open>LowLevel/LowLevel.c\<close>).
\<close>

section \<open>Variables, states and events\<close>

text \<open>\<open>WaitMSRemaining\<close> and \<open>PostWaitState\<close> are the static variables of the state machine.\<close>

record host_fw =
  USB_ControlPipeSize :: u8
  WaitMSRemaining :: u16
  PostWaitState :: u8
  Host_IsInitialized :: bool

text \<open>
  The application's event handlers.  A handler may not return: the one of the demo for
  a host error ends in an endless loop.
\<close>

record 'h host_events =
  EVENT_USB_Host_DeviceAttached :: "'h \<Rightarrow> 'h option"
  EVENT_USB_Host_DeviceUnattached :: "'h \<Rightarrow> 'h option"
  EVENT_USB_Host_DeviceEnumerationComplete :: "'h \<Rightarrow> 'h option"
  EVENT_USB_Host_DeviceEnumerationFailed :: "u8 \<Rightarrow> u8 \<Rightarrow> 'h \<Rightarrow> 'h option"
  EVENT_USB_Host_HostError :: "u8 \<Rightarrow> 'h \<Rightarrow> 'h option"

abbreviation (input) HOST_STATE_WaitForDeviceRemoval :: u8 where "HOST_STATE_WaitForDeviceRemoval \<equiv> 0"
abbreviation (input) HOST_STATE_WaitForDevice :: u8 where "HOST_STATE_WaitForDevice \<equiv> 1"
abbreviation (input) HOST_STATE_Powered :: u8 where "HOST_STATE_Powered \<equiv> 3"
abbreviation (input) HOST_STATE_Powered_WaitForDeviceSettle :: u8 where "HOST_STATE_Powered_WaitForDeviceSettle \<equiv> 4"
abbreviation (input) HOST_STATE_Powered_WaitForConnect :: u8 where "HOST_STATE_Powered_WaitForConnect \<equiv> 5"
abbreviation (input) HOST_STATE_Powered_DoReset :: u8 where "HOST_STATE_Powered_DoReset \<equiv> 6"
abbreviation (input) HOST_STATE_Powered_ConfigPipe :: u8 where "HOST_STATE_Powered_ConfigPipe \<equiv> 7"
abbreviation (input) HOST_STATE_Default :: u8 where "HOST_STATE_Default \<equiv> 8"
abbreviation (input) HOST_STATE_Default_PostReset :: u8 where "HOST_STATE_Default_PostReset \<equiv> 9"
abbreviation (input) HOST_STATE_Default_PostAddressSet :: u8 where "HOST_STATE_Default_PostAddressSet \<equiv> 10"
abbreviation (input) HOST_STATE_Addressed :: u8 where "HOST_STATE_Addressed \<equiv> 11"
abbreviation (input) HOST_STATE_Configured :: u8 where "HOST_STATE_Configured \<equiv> 12"
abbreviation (input) HOST_ENUMERROR_NoError :: u8 where "HOST_ENUMERROR_NoError \<equiv> 0"
abbreviation (input) HOST_ENUMERROR_WaitStage :: u8 where "HOST_ENUMERROR_WaitStage \<equiv> 1"
abbreviation (input) HOST_ENUMERROR_NoDeviceDetected :: u8 where "HOST_ENUMERROR_NoDeviceDetected \<equiv> 2"
abbreviation (input) HOST_ENUMERROR_ControlError :: u8 where "HOST_ENUMERROR_ControlError \<equiv> 3"
abbreviation (input) HOST_ENUMERROR_PipeConfigError :: u8 where "HOST_ENUMERROR_PipeConfigError \<equiv> 4"
abbreviation (input) HOST_ERROR_VBusVoltageDip :: u8 where "HOST_ERROR_VBusVoltageDip \<equiv> 0"
abbreviation (input) HOST_DEVICE_SETTLE_DELAY_MS :: u16 where "HOST_DEVICE_SETTLE_DELAY_MS \<equiv> 1500"
abbreviation (input) USB_HOST_DEVICEADDRESS :: u8 where "USB_HOST_DEVICEADDRESS \<equiv> 1"

section \<open>Standard requests (Host.c)\<close>

definition std_request :: "u8 \<Rightarrow> u8 \<Rightarrow> u16 \<Rightarrow> u16 \<Rightarrow> u16 \<Rightarrow> USB_Request_Header_t" where
  "std_request rtype rq val idx len =
     \<lparr>bmRequestType = rtype, bRequest = rq, wValue = val, wIndex = idx, wLength = len\<rparr>"

definition USB_Host_SetDeviceConfiguration :: "'h hio \<Rightarrow> u8 \<Rightarrow> u8 \<Rightarrow> 'h \<Rightarrow> (u8 \<times> 'h) option" where
  "USB_Host_SetDeviceConfiguration io psize ConfigNumber s =
     map_option (\<lambda>(e, b, s). (e, s)) (USB_Host_SendControlRequest io psize
       (std_request (REQDIR_HOSTTODEVICE OR REQTYPE_STANDARD OR REQREC_DEVICE) REQ_SetConfiguration (ucast ConfigNumber) 0 0)
       None (Pipe_SelectPipe io PIPE_CONTROLPIPE s))"

definition USB_Host_GetDeviceDescriptor :: "'h hio \<Rightarrow> u8 \<Rightarrow> u8 list \<Rightarrow> 'h \<Rightarrow> (u8 \<times> u8 list option \<times> 'h) option" where
  "USB_Host_GetDeviceDescriptor io psize mem s =
     USB_Host_SendControlRequest io psize
       (std_request (REQDIR_DEVICETOHOST OR REQTYPE_STANDARD OR REQREC_DEVICE) REQ_GetDescriptor
          (push_bit 8 (ucast DTYPE_Device)) 0 (of_nat sizeof_Device))
       (Some mem) (Pipe_SelectPipe io PIPE_CONTROLPIPE s)"

definition USB_Host_GetDeviceStringDescriptor ::
    "'h hio \<Rightarrow> u8 \<Rightarrow> u8 \<Rightarrow> u8 list \<Rightarrow> u8 \<Rightarrow> 'h \<Rightarrow> (u8 \<times> u8 list option \<times> 'h) option" where
  "USB_Host_GetDeviceStringDescriptor io psize Index mem BufferLength s =
     USB_Host_SendControlRequest io psize
       (std_request (REQDIR_DEVICETOHOST OR REQTYPE_STANDARD OR REQREC_DEVICE) REQ_GetDescriptor
          (push_bit 8 (ucast DTYPE_String) OR ucast Index) 0 (ucast BufferLength))
       (Some mem) (Pipe_SelectPipe io PIPE_CONTROLPIPE s)"

definition USB_Host_ClearPipeStall :: "'h hio \<Rightarrow> u8 \<Rightarrow> u8 \<Rightarrow> 'h \<Rightarrow> (u8 \<times> 'h) option" where
  "USB_Host_ClearPipeStall io psize EndpointNum s =
     (let (token, s) = Pipe_GetPipeToken io s;
          EndpointNum = (if token = PIPE_TOKEN_IN then EndpointNum OR 0x80 else EndpointNum)
      in map_option (\<lambda>(e, b, s). (e, s)) (USB_Host_SendControlRequest io psize
           (std_request (REQDIR_HOSTTODEVICE OR REQTYPE_STANDARD OR REQREC_ENDPOINT) REQ_ClearFeature
              (ucast FEATURE_ENDPOINT_HALT) (ucast EndpointNum) 0)
           None (Pipe_SelectPipe io PIPE_CONTROLPIPE s)))"

section \<open>The configuration descriptor (ConfigDescriptor.c)\<close>

abbreviation (input) HOST_GETCONFIG_Successful :: u8 where "HOST_GETCONFIG_Successful \<equiv> 0"
abbreviation (input) HOST_GETCONFIG_BuffOverflow :: u8 where "HOST_GETCONFIG_BuffOverflow \<equiv> 5"
abbreviation (input) HOST_GETCONFIG_InvalidData :: u8 where "HOST_GETCONFIG_InvalidData \<equiv> 6"

text \<open>
  \<open>junk\<close> is what the stack holds where \<open>ConfigHeader\<close> is; the result is the error code, the value
  stored through \<open>ConfigSizePtr\<close> (\<open>None\<close> if it is not written) and the buffer.
\<close>

definition USB_Host_GetDeviceConfigDescriptor ::
    "'h hio \<Rightarrow> u8 \<Rightarrow> u8 \<Rightarrow> u8 list \<Rightarrow> u8 list \<Rightarrow> u16 \<Rightarrow> 'h \<Rightarrow> (u8 \<times> u16 option \<times> u8 list \<times> 'h) option" where
  "USB_Host_GetDeviceConfigDescriptor io psize ConfigNumber junk mem BufferSize s =
     do {
       let req = std_request (REQDIR_DEVICETOHOST OR REQTYPE_STANDARD OR REQREC_DEVICE) REQ_GetDescriptor
                   (push_bit 8 (ucast DTYPE_Configuration) OR (ucast ConfigNumber - 1)) 0 (of_nat sizeof_Configuration_Header);
       (e, hdr, s) \<leftarrow> USB_Host_SendControlRequest io psize req (Some junk) (Pipe_SelectPipe io PIPE_CONTROLPIPE s);
       if e \<noteq> 0 then Some (e, None, mem, s)
       else do {
         let ConfigSize = word16 (the hdr ! 2) (the hdr ! 3);
         if ConfigSize > BufferSize then Some (HOST_GETCONFIG_BuffOverflow, Some ConfigSize, mem, s)
         else do {
           (e, buf, s) \<leftarrow> USB_Host_SendControlRequest io psize (req\<lparr>wLength := ConfigSize\<rparr>) (Some mem) s;
           let mem = the buf;
           Some (if e \<noteq> 0 then e else if mem ! 1 \<noteq> DTYPE_Configuration then HOST_GETCONFIG_InvalidData
                 else HOST_GETCONFIG_Successful, Some ConfigSize, mem, s)
         }
       }
     }"

text \<open>
  \<open>USB_GetNextDescriptorComp\<close> with a comparator that acts on the pipes; for one that does not it is the
  function of the theory \<open>Config_Descriptor\<close>.
\<close>

partial_function (option) search_comp_pipes ::
    "(u16 \<Rightarrow> u8) \<Rightarrow> (u16 \<Rightarrow> 'h \<Rightarrow> search \<times> 'h) \<Rightarrow> u16 \<times> u16 \<Rightarrow> 'h \<Rightarrow> (search_comp \<times> (u16 \<times> u16) \<times> 'h) option" where
  [code]: "search_comp_pipes mem ComparatorRoutine prev s =
     (if fst prev = 0 then Some (DESCRIPTOR_SEARCH_COMP_EndOfDescriptor, prev, s)
      else let p = USB_GetNextDescriptor mem prev
           in case ComparatorRoutine (snd p) s of
                (DESCRIPTOR_SEARCH_Found, s) \<Rightarrow> Some (DESCRIPTOR_SEARCH_COMP_Found, p, s)
              | (DESCRIPTOR_SEARCH_Fail, s) \<Rightarrow> Some (DESCRIPTOR_SEARCH_COMP_Fail, prev, s)
              | (DESCRIPTOR_SEARCH_NotFound, s) \<Rightarrow> search_comp_pipes mem ComparatorRoutine p s)"

section \<open>Reset of the device and of the interface\<close>

partial_function (option) bus_reset_wait :: "'h hio \<Rightarrow> 'h \<Rightarrow> 'h option" where
  [code]: "bus_reset_wait io s =
     (let (done, s) = USB_Host_IsBusResetComplete io s in if done then Some s else bus_reset_wait io s)"

text \<open>\<open>_delay_ms(1)\<close>\<close>

definition delay_1ms :: "'h hio \<Rightarrow> 'h \<Rightarrow> 'h" where
  "delay_1ms io s = io_wr io V_DelayMS 1 s"

fun find_frame_loop :: "'h hio \<Rightarrow> nat \<Rightarrow> 'h \<Rightarrow> 'h" where
  "find_frame_loop io 0 s = s"
| "find_frame_loop io (Suc MSRem) s =
     (let (sof, s) = Host_INT_HasOccurred io INT_HSOFI s
      in if sof then Host_INT_Clear io INT_DDISCI (Host_INT_Clear io INT_HSOFI s)
         else find_frame_loop io MSRem (delay_1ms io s))"

definition USB_Host_ResetDevice :: "'h hio \<Rightarrow> 'h \<Rightarrow> 'h option" where
  "USB_Host_ResetDevice io s =
     do {
       let (BusSuspended, s) = USB_Host_IsBusSuspended io s;
       s \<leftarrow> bus_reset_wait io (USB_Host_ResetBus io (Host_INT_Disable io INT_DDISCI s));
       let s = Host_INT_Clear io INT_HSOFI (USB_Host_ResumeBus io s);
       let s = find_frame_loop io 10 s;
       let s = (if BusSuspended then USB_Host_SuspendBus io s else s);
       Some (Host_INT_Enable io INT_DDISCI s)
     }"

definition Host_INT_DisableAllInterrupts :: "'h hio \<Rightarrow> 'h \<Rightarrow> 'h" where
  "Host_INT_DisableAllInterrupts io s =
     io_wr io OTGIEN 0 (io_wr io UHIEN 0 (clr_reg io (Shared USBCON) (BV 0 OR BV 1) s))"

definition Host_INT_ClearAllInterrupts :: "'h hio \<Rightarrow> 'h \<Rightarrow> 'h" where
  "Host_INT_ClearAllInterrupts io s = io_wr io OTGINT 0 (io_wr io UHINT 0 (io_wr io (Shared USBINT) 0 s))"

text \<open>The static options are regulator on and automatic PLL.\<close>

definition Host_ResetInterface :: "'h hio \<Rightarrow> 'h \<Rightarrow> 'h option" where
  "Host_ResetInterface io s =
     do {
       let s = Host_INT_ClearAllInterrupts io (Host_INT_DisableAllInterrupts io s);
       let s = io_wr io V_HostState HOST_STATE_Unattached s;
       s \<leftarrow> USB_PLL_wait (shared io) (USB_PLL_On (shared io) s);
       let s = USB_Controller_Reset (shared io) s;
       let s = USB_CLK_Unfreeze (shared io) (USB_REG_On (shared io) s);
       let s = USB_Host_HostMode_On io (USB_Attach (shared io) s);
       let s = USB_OTGPAD_Off (shared io) (USB_Host_VBUS_Auto_Off io s);
       let s = USB_Host_VBUS_Manual_On io (USB_Host_VBUS_Manual_Enable io s);
       Some (Host_INT_Enable io INT_BCERRI (Host_INT_Enable io INT_SRPI s))
     }"

definition Host_USB_Init :: "'h hio \<Rightarrow> host_fw \<Rightarrow> 'h \<Rightarrow> (host_fw \<times> 'h) option" where
  "Host_USB_Init io f s =
     do {
       s \<leftarrow> Host_ResetInterface io (clr_reg io (Shared UHWCON) (BV 7) s);
       Some (f\<lparr>USB_ControlPipeSize := PIPE_CONTROLPIPE_DEFAULT_SIZE, Host_IsInitialized := True\<rparr>,
         USB_OTGPAD_On (shared io) s)
     }"

definition Host_USB_ShutDown :: "'h hio \<Rightarrow> host_fw \<Rightarrow> 'h \<Rightarrow> (host_fw \<times> 'h) option" where
  "Host_USB_ShutDown io f s =
     do {
       s \<leftarrow> Host_ResetInterface io s;
       let s = USB_PLL_Off (shared io) (USB_Controller_Disable (shared io) (USB_Detach (shared io) s));
       Some (f\<lparr>Host_IsInitialized := False\<rparr>, USB_OTGPAD_Off (shared io) s)
     }"

section \<open>The state machine\<close>

text \<open>The macro \<open>HOST_TASK_NONBLOCK_WAIT\<close>.\<close>

definition nonblock_wait :: "'h hio \<Rightarrow> u16 \<Rightarrow> u8 \<Rightarrow> host_fw \<Rightarrow> 'h \<Rightarrow> host_fw \<times> 'h" where
  "nonblock_wait io duration nextstate f s =
     (f\<lparr>WaitMSRemaining := duration, PostWaitState := nextstate\<rparr>, io_wr io V_HostState HOST_STATE_WaitForDevice s)"

text \<open>
  The cases of the switch: error code, sub error code, variables, state.  \<open>junk\<close> is what the stack
  holds where the variable \<open>DataBuffer\<close> is.
\<close>

definition case_WaitForDevice :: "'h hio \<Rightarrow> host_fw \<Rightarrow> 'h \<Rightarrow> (u8 \<times> u8 \<times> host_fw \<times> 'h) option" where
  "case_WaitForDevice io f s =
     (if WaitMSRemaining f = 0 then Some (0, 0, f, s)
      else do {
        (SubErrorCode, s) \<leftarrow> USB_Host_WaitMS io 1 s;
        if SubErrorCode \<noteq> 0 then Some (HOST_ENUMERROR_WaitStage, SubErrorCode, f, io_wr io V_HostState (PostWaitState f) s)
        else
          (let f = f\<lparr>WaitMSRemaining := WaitMSRemaining f - 1\<rparr>
           in Some (0, 0, f, if WaitMSRemaining f = 0 then io_wr io V_HostState (PostWaitState f) s else s))
      })"

definition case_WaitForDeviceSettle :: "'h hio \<Rightarrow> host_fw \<Rightarrow> 'h \<Rightarrow> host_fw \<times> 'h" where
  "case_WaitForDeviceSettle io f s =
     (let n = WaitMSRemaining f; f = f\<lparr>WaitMSRemaining := n - 1\<rparr>
      in if n \<noteq> 0 then (f, delay_1ms io s)
         else (f, io_wr io V_HostState HOST_STATE_Powered_WaitForConnect
           (USB_Host_VBUS_Auto_On io (USB_Host_VBUS_Auto_Enable io (USB_OTGPAD_On (shared io)
              (USB_Host_VBUS_Manual_Off io s))))))"

definition case_WaitForConnect :: "'h hio \<Rightarrow> host_fw \<Rightarrow> 'h \<Rightarrow> host_fw \<times> 'h" where
  "case_WaitForConnect io f s =
     (let (conn, s) = Host_INT_HasOccurred io INT_DCONNI s
      in if \<not> conn then (f, s)
         else
           (let s = Host_INT_Clear io INT_DDISCI (Host_INT_Clear io INT_DCONNI s);
                s = Host_INT_Enable io INT_VBERRI (Host_INT_Clear io INT_VBERRI s);
                s = Pipe_ClearPipes io (USB_Host_ResumeBus io s)
            in nonblock_wait io 100 HOST_STATE_Powered_DoReset f s))"

definition case_ConfigPipe :: "'h hio \<Rightarrow> host_fw \<Rightarrow> 'h \<Rightarrow> u8 \<times> u8 \<times> host_fw \<times> 'h" where
  "case_ConfigPipe io f s =
     (let (r, s) = Pipe_ConfigurePipe io PIPE_CONTROLPIPE EP_TYPE_CONTROL PIPE_TOKEN_SETUP ENDPOINT_CONTROLEP
                     (ucast PIPE_CONTROLPIPE_DEFAULT_SIZE) PIPE_BANK_SINGLE s;
          (ok, s) = Pipe_IsConfigured io s
      in if \<not> ok then (HOST_ENUMERROR_PipeConfigError, 0, f, s)
         else (0, 0, f, io_wr io V_HostState HOST_STATE_Default s))"

definition case_Default :: "'h hio \<Rightarrow> u8 list \<Rightarrow> host_fw \<Rightarrow> 'h \<Rightarrow> (u8 \<times> u8 \<times> host_fw \<times> 'h) option" where
  "case_Default io junk f s =
     do {
       (SubErrorCode, buf, s) \<leftarrow> USB_Host_SendControlRequest io (USB_ControlPipeSize f)
          (std_request (REQDIR_DEVICETOHOST OR REQTYPE_STANDARD OR REQREC_DEVICE) REQ_GetDescriptor
             (push_bit 8 (ucast DTYPE_Device)) 0 8) (Some junk) s;
       if SubErrorCode \<noteq> 0 then Some (HOST_ENUMERROR_ControlError, SubErrorCode, f, s)
       else do {
         let f = f\<lparr>USB_ControlPipeSize := the buf ! 7\<rparr>;
         s \<leftarrow> USB_Host_ResetDevice io s;
         let (f, s) = nonblock_wait io 200 HOST_STATE_Default_PostReset f s;
         Some (0, 0, f, s)
       }
     }"

definition case_PostReset :: "'h hio \<Rightarrow> host_fw \<Rightarrow> 'h \<Rightarrow> (u8 \<times> u8 \<times> host_fw \<times> 'h) option" where
  "case_PostReset io f s =
     (let s = Pipe_ResetPipe io PIPE_CONTROLPIPE (Pipe_DeallocateMemory io (Pipe_DisablePipe io s));
          (r, s) = Pipe_ConfigurePipe io PIPE_CONTROLPIPE EP_TYPE_CONTROL PIPE_TOKEN_SETUP ENDPOINT_CONTROLEP
                     (ucast (USB_ControlPipeSize f)) PIPE_BANK_SINGLE s;
          (ok, s) = Pipe_IsConfigured io s
      in if \<not> ok then Some (HOST_ENUMERROR_PipeConfigError, 0, f, s)
         else do {
           (SubErrorCode, buf, s) \<leftarrow> USB_Host_SendControlRequest io (USB_ControlPipeSize f)
              (std_request (REQDIR_HOSTTODEVICE OR REQTYPE_STANDARD OR REQREC_DEVICE) REQ_SetAddress
                 (ucast USB_HOST_DEVICEADDRESS) 0 0) None s;
           if SubErrorCode \<noteq> 0 then Some (HOST_ENUMERROR_ControlError, SubErrorCode, f, s)
           else
             (let (f, s) = nonblock_wait io 100 HOST_STATE_Default_PostAddressSet f s in Some (0, 0, f, s))
         })"

definition case_PostAddressSet :: "'h hio \<Rightarrow> 'h host_events \<Rightarrow> host_fw \<Rightarrow> 'h \<Rightarrow> (u8 \<times> u8 \<times> host_fw \<times> 'h) option" where
  "case_PostAddressSet io ev f s =
     do {
       s \<leftarrow> EVENT_USB_Host_DeviceEnumerationComplete ev (USB_Host_SetDeviceAddress io USB_HOST_DEVICEADDRESS s);
       Some (0, 0, f, io_wr io V_HostState HOST_STATE_Addressed s)
     }"

definition host_switch :: "'h hio \<Rightarrow> 'h host_events \<Rightarrow> u8 list \<Rightarrow> host_fw \<Rightarrow> 'h \<Rightarrow> (u8 \<times> u8 \<times> host_fw \<times> 'h) option" where
  "host_switch io ev junk f s =
     (let (st, s) = io_rd io V_HostState s
      in if st = HOST_STATE_WaitForDevice then case_WaitForDevice io f s
         else if st = HOST_STATE_Powered then
           Some (0, 0, f\<lparr>WaitMSRemaining := HOST_DEVICE_SETTLE_DELAY_MS\<rparr>,
             io_wr io V_HostState HOST_STATE_Powered_WaitForDeviceSettle s)
         else if st = HOST_STATE_Powered_WaitForDeviceSettle then Some (0, 0, case_WaitForDeviceSettle io f s)
         else if st = HOST_STATE_Powered_WaitForConnect then Some (0, 0, case_WaitForConnect io f s)
         else if st = HOST_STATE_Powered_DoReset then
           do {
             s \<leftarrow> USB_Host_ResetDevice io s;
             Some (0, 0, nonblock_wait io 200 HOST_STATE_Powered_ConfigPipe f s)
           }
         else if st = HOST_STATE_Powered_ConfigPipe then Some (case_ConfigPipe io f s)
         else if st = HOST_STATE_Default then case_Default io junk f s
         else if st = HOST_STATE_Default_PostReset then case_PostReset io f s
         else if st = HOST_STATE_Default_PostAddressSet then case_PostAddressSet io ev f s
         else Some (0, 0, f, s))"

definition USB_Host_ProcessNextHostState ::
    "'h hio \<Rightarrow> 'h host_events \<Rightarrow> u8 list \<Rightarrow> host_fw \<Rightarrow> 'h \<Rightarrow> (host_fw \<times> 'h) option" where
  "USB_Host_ProcessNextHostState io ev junk f s =
     do {
       (ErrorCode, SubErrorCode, f, s) \<leftarrow> host_switch io ev junk f s;
       if ErrorCode = HOST_ENUMERROR_NoError then Some (f, s)
       else
         (let (un, s) = host_state_is io HOST_STATE_Unattached s
          in if un then Some (f, s)
             else do {
               s \<leftarrow> EVENT_USB_Host_DeviceEnumerationFailed ev ErrorCode SubErrorCode s;
               s \<leftarrow> EVENT_USB_Host_DeviceUnattached ev (USB_Host_VBUS_Auto_Off io s);
               s \<leftarrow> Host_ResetInterface io s;
               Some (f, s)
             })
     }"

text \<open>\<open>USB_USBTask\<close> calls \<open>USB_HostTask\<close> in this configuration.\<close>

definition USB_HostTask :: "'h hio \<Rightarrow> 'h host_events \<Rightarrow> u8 list \<Rightarrow> host_fw \<Rightarrow> 'h \<Rightarrow> (host_fw \<times> 'h) option" where
  "USB_HostTask io ev junk f s =
     do {
       let (PrevPipe, s) = Pipe_GetCurrentPipe io s;
       (f, s) \<leftarrow> USB_Host_ProcessNextHostState io ev junk f (Pipe_SelectPipe io PIPE_CONTROLPIPE s);
       Some (f, Pipe_SelectPipe io PrevPipe s)
     }"

section \<open>The interrupt handler\<close>

definition host_int_disc :: "'h hio \<Rightarrow> 'h host_events \<Rightarrow> 'h \<Rightarrow> 'h option" where
  "host_int_disc io ev s =
     (let (p, s) = host_int_pending io INT_DDISCI s
      in if \<not> p then Some s
         else do {
           let s = Host_INT_Clear io INT_DCONNI (Host_INT_Clear io INT_DDISCI s);
           s \<leftarrow> EVENT_USB_Host_DeviceUnattached ev (Host_INT_Disable io INT_DDISCI s);
           Host_ResetInterface io s
         })"

definition host_int_vberr :: "'h hio \<Rightarrow> 'h host_events \<Rightarrow> 'h \<Rightarrow> 'h option" where
  "host_int_vberr io ev s =
     (let (p, s) = host_int_pending io INT_VBERRI s
      in if \<not> p then Some s
         else do {
           let s = USB_Host_VBUS_Auto_Off io (USB_Host_VBUS_Manual_Off io (Host_INT_Clear io INT_VBERRI s));
           s \<leftarrow> EVENT_USB_Host_HostError ev HOST_ERROR_VBusVoltageDip s;
           s \<leftarrow> EVENT_USB_Host_DeviceUnattached ev s;
           Some (io_wr io V_HostState HOST_STATE_Unattached s)
         })"

definition host_int_srp :: "'h hio \<Rightarrow> 'h host_events \<Rightarrow> 'h \<Rightarrow> 'h option" where
  "host_int_srp io ev s =
     (let (p, s) = host_int_pending io INT_SRPI s
      in if \<not> p then Some s
         else do {
           s \<leftarrow> EVENT_USB_Host_DeviceAttached ev (Host_INT_Disable io INT_SRPI (Host_INT_Clear io INT_SRPI s));
           Some (io_wr io V_HostState HOST_STATE_Powered (Host_INT_Enable io INT_DDISCI s))
         })"

definition host_int_bcerr :: "'h hio \<Rightarrow> 'h host_events \<Rightarrow> 'h \<Rightarrow> 'h option" where
  "host_int_bcerr io ev s =
     (let (p, s) = host_int_pending io INT_BCERRI s
      in if \<not> p then Some s
         else do {
           s \<leftarrow> EVENT_USB_Host_DeviceEnumerationFailed ev HOST_ENUMERROR_NoDeviceDetected 0
                  (Host_INT_Clear io INT_BCERRI s);
           s \<leftarrow> EVENT_USB_Host_DeviceUnattached ev s;
           Host_ResetInterface io s
         })"

definition Host_USB_GEN_vect :: "'h hio \<Rightarrow> 'h host_events \<Rightarrow> 'h \<Rightarrow> 'h option" where
  "Host_USB_GEN_vect io ev s =
     do {
       s \<leftarrow> host_int_disc io ev s;
       s \<leftarrow> host_int_vberr io ev s;
       s \<leftarrow> host_int_srp io ev s;
       host_int_bcerr io ev s
     }"

end
