(* ===== verification/Host_Class.thy ===== *)
theory Host_Class
  imports Host_Task Class_Common
begin

text \<open>
  What the host class drivers under \<open>LUFA/Drivers/USB/Class/Host\<close> have in common: the test whether an
  interface may be used, class requests on the control pipe, the comparators of the search in the
  configuration descriptor, and the search of the drivers with two data pipes and a notification
  pipe (\<open>CDC.c\<close> and \<open>RNDIS.c\<close> have the same code).
\<close>

section \<open>Tests and requests\<close>

text \<open>\<open>(USB_HostState != HOST_STATE_Configured) || !(IsActive)\<close>, negated.\<close>

definition host_active :: "'h hio \<Rightarrow> bool \<Rightarrow> 'h \<Rightarrow> bool \<times> 'h" where
  "host_active io active s = (let (conf, s) = host_state_is io HOST_STATE_Configured s in (conf \<and> active, s))"

text \<open>A request to the interface: the header is set, the control pipe is selected, the request is sent.\<close>

definition interface_request ::
    "'h hio \<Rightarrow> u8 \<Rightarrow> u8 \<Rightarrow> u8 \<Rightarrow> u16 \<Rightarrow> u8 \<Rightarrow> u16 \<Rightarrow> u8 list option \<Rightarrow> 'h \<Rightarrow> (u8 \<times> u8 list option \<times> 'h) option" where
  "interface_request io psize rtype rq val idx len buf s =
     USB_Host_SendControlRequest io psize (std_request rtype rq val (ucast idx) len) buf (Pipe_SelectPipe io PIPE_CONTROLPIPE s)"

definition host_bank :: "bool \<Rightarrow> u8" where
  "host_bank double = (if double then PIPE_BANK_DOUBLE else PIPE_BANK_SINGLE)"

section \<open>Comparators\<close>

text \<open>The fields of the descriptor at an address: interface class, subclass, protocol; endpoint address, attributes.\<close>

definition next_interface :: "u8 \<Rightarrow> u8 \<Rightarrow> u8 \<Rightarrow> (u16 \<Rightarrow> u8) \<Rightarrow> u16 \<Rightarrow> search" where
  "next_interface cls subcls protocol mem loc =
     (if DESCRIPTOR_TYPE mem loc = DTYPE_Interface \<and> mem (loc + 5) = cls \<and> mem (loc + 6) = subcls \<and> mem (loc + 7) = protocol
      then DESCRIPTOR_SEARCH_Found else DESCRIPTOR_SEARCH_NotFound)"

text \<open>An endpoint of one of the types that no pipe is bound to yet.\<close>

definition next_endpoint :: "u8 list \<Rightarrow> 'h hio \<Rightarrow> (u16 \<Rightarrow> u8) \<Rightarrow> u16 \<Rightarrow> 'h \<Rightarrow> search \<times> 'h" where
  "next_endpoint types io mem loc s =
     (if DESCRIPTOR_TYPE mem loc = DTYPE_Endpoint then
        (if List.member types (mem (loc + 3) AND 0x03) then
           (let (bound, s) = Pipe_IsEndpointBound io (mem (loc + 2)) s
            in (if bound then DESCRIPTOR_SEARCH_NotFound else DESCRIPTOR_SEARCH_Found, s))
         else (DESCRIPTOR_SEARCH_NotFound, s))
      else if DESCRIPTOR_TYPE mem loc = DTYPE_Interface then (DESCRIPTOR_SEARCH_Fail, s)
      else (DESCRIPTOR_SEARCH_NotFound, s))"

section \<open>Two data pipes\<close>

text \<open>
  The configuration and the state the drivers' interface structures begin with.  \<open>FoundEndpoints\<close> has
  bit 0 for the IN pipe and bit 1 for the OUT pipe.
\<close>

record Data_Pipes =
  DataINPipeNumber :: u8
  DataINPipeDoubleBank :: bool
  DataOUTPipeNumber :: u8
  DataOUTPipeDoubleBank :: bool

record Pipe_Sizes =
  IsActive :: bool
  DataINPipeSize :: u16
  DataOUTPipeSize :: u16

definition configure_in_or_out ::
    "'h hio \<Rightarrow> u8 \<Rightarrow> (u16 \<Rightarrow> u8) \<Rightarrow> u16 \<Rightarrow> 'a Data_Pipes_scheme \<Rightarrow> 'b Pipe_Sizes_scheme \<Rightarrow> u8 \<Rightarrow> 'h \<Rightarrow>
       'b Pipe_Sizes_scheme \<times> u8 \<times> 'h" where
  "configure_in_or_out io type mem loc c d FoundEndpoints s =
     (let addr = mem (loc + 2); size = word16 (mem (loc + 4)) (mem (loc + 5))
      in if addr AND 0x80 \<noteq> 0 then
           (let (r, s) = Pipe_ConfigurePipe io (DataINPipeNumber c) type PIPE_TOKEN_IN addr size
                           (host_bank (DataINPipeDoubleBank c)) s
            in (d\<lparr>DataINPipeSize := size\<rparr>, FoundEndpoints OR BV 0, s))
         else
           (let (r, s) = Pipe_ConfigurePipe io (DataOUTPipeNumber c) type PIPE_TOKEN_OUT addr size
                           (host_bank (DataOUTPipeDoubleBank c)) s
            in (d\<lparr>DataOUTPipeSize := size\<rparr>, FoundEndpoints OR BV 1, s)))"

text \<open>
  \<open>while (FoundEndpoints != (FOUND_DATAPIPE_IN | FOUND_DATAPIPE_OUT))\<close> of the drivers without a third pipe;
  the error codes 0 and 3 are the same in all enumerations.
\<close>

partial_function (option) find_two_pipes ::
    "'h hio \<Rightarrow> (u16 \<Rightarrow> u8) \<Rightarrow> (u16 \<Rightarrow> 'h \<Rightarrow> search \<times> 'h) \<Rightarrow> 'a Data_Pipes_scheme \<Rightarrow> u16 \<times> u16 \<Rightarrow> 'b Pipe_Sizes_scheme \<Rightarrow> u8 \<Rightarrow> 'h \<Rightarrow>
       (u8 \<times> 'b Pipe_Sizes_scheme \<times> 'h) option" where
  [code]: "find_two_pipes io mem cmp c p d FoundEndpoints s =
     (if FoundEndpoints = BV 0 OR BV 1 then Some (0, d\<lparr>IsActive := True\<rparr>, s)
      else do {
        (r, p, s) \<leftarrow> search_comp_pipes mem cmp p s;
        if r \<noteq> DESCRIPTOR_SEARCH_COMP_Found then Some (3, d, s)
        else let (d, FoundEndpoints, s) = configure_in_or_out io EP_TYPE_BULK mem (snd p) c d FoundEndpoints s
             in find_two_pipes io mem cmp c p d FoundEndpoints s
      })"

section \<open>Two data pipes and a notification pipe\<close>

record Notify_Pipes = Data_Pipes +
  NotificationPipeNumber :: u8
  NotificationPipeDoubleBank :: bool

record Notify_Sizes = Pipe_Sizes +
  NotificationPipeSize :: u16

text \<open>The pipe for one endpoint that was found; the notification pipe has bit 2.  The polling interval is byte 6.\<close>

definition configure_notify_or_data ::
    "'h hio \<Rightarrow> (u16 \<Rightarrow> u8) \<Rightarrow> u16 \<Rightarrow> 'a Notify_Pipes_scheme \<Rightarrow> 'b Notify_Sizes_scheme \<Rightarrow> u8 \<Rightarrow> 'h \<Rightarrow>
       'b Notify_Sizes_scheme \<times> u8 \<times> 'h" where
  "configure_notify_or_data io mem loc c d FoundEndpoints s =
     (let addr = mem (loc + 2); size = word16 (mem (loc + 4)) (mem (loc + 5))
      in if mem (loc + 3) AND 0x03 = EP_TYPE_INTERRUPT then
           (if addr AND 0x80 \<noteq> 0 then
              (let (r, s) = Pipe_ConfigurePipe io (NotificationPipeNumber c) EP_TYPE_INTERRUPT PIPE_TOKEN_IN addr size
                              (host_bank (NotificationPipeDoubleBank c)) s
               in (d\<lparr>NotificationPipeSize := size\<rparr>, FoundEndpoints OR BV 2, Pipe_SetInterruptPeriod io (mem (loc + 6)) s))
            else (d, FoundEndpoints, s))
         else configure_in_or_out io EP_TYPE_BULK mem loc c d FoundEndpoints s)"

text \<open>All three pipes are switched off again.\<close>

definition disable_three :: "'h hio \<Rightarrow> 'a Notify_Pipes_scheme \<Rightarrow> 'h \<Rightarrow> 'h" where
  "disable_three io c s =
     (let s = Pipe_DisablePipe io (Pipe_SelectPipe io (DataINPipeNumber c) s);
          s = Pipe_DisablePipe io (Pipe_SelectPipe io (DataOUTPipeNumber c) s)
      in Pipe_DisablePipe io (Pipe_SelectPipe io (NotificationPipeNumber c) s))"

text \<open>
  The loop: when the interface has no more endpoints it goes on behind the next data interface if it
  has the notification pipe, and otherwise begins anew behind the next control interface.
\<close>

definition find_next_endpoint ::
    "'h hio \<Rightarrow> (u16 \<Rightarrow> u8) \<Rightarrow> (u16 \<Rightarrow> search) \<Rightarrow> (u16 \<Rightarrow> search) \<Rightarrow> (u16 \<Rightarrow> 'h \<Rightarrow> search \<times> 'h) \<Rightarrow> 'a Notify_Pipes_scheme \<Rightarrow>
       u16 \<times> u16 \<Rightarrow> u8 \<Rightarrow> 'h \<Rightarrow> ((u8, (u16 \<times> u16) \<times> u8) flow \<times> 'h) option" where
  "find_next_endpoint io mem control data cmp c p FoundEndpoints s =
     do {
       (r, p, s) \<leftarrow> search_comp_pipes mem cmp p s;
       if r = DESCRIPTOR_SEARCH_COMP_Found then Some (Next (p, FoundEndpoints), s)
       else do {
         let notify = bit FoundEndpoints 2;
         let (FoundEndpoints, s) = (if notify then (FoundEndpoints, s) else (0, disable_three io c s));
         (r, p) \<leftarrow> USB_GetNextDescriptorComp mem (if notify then data else control) p;
         if r \<noteq> DESCRIPTOR_SEARCH_COMP_Found then Some (Return 2, s)
         else do {
           (r, p, s) \<leftarrow> search_comp_pipes mem cmp p s;
           Some (if r \<noteq> DESCRIPTOR_SEARCH_COMP_Found then Return 3 else Next (p, FoundEndpoints), s)
         }
       }
     }"

partial_function (option) find_three_pipes ::
    "'h hio \<Rightarrow> (u16 \<Rightarrow> u8) \<Rightarrow> (u16 \<Rightarrow> search) \<Rightarrow> (u16 \<Rightarrow> search) \<Rightarrow> (u16 \<Rightarrow> 'h \<Rightarrow> search \<times> 'h) \<Rightarrow> 'a Notify_Pipes_scheme \<Rightarrow>
       u16 \<times> u16 \<Rightarrow> 'b Notify_Sizes_scheme \<Rightarrow> u8 \<Rightarrow> 'h \<Rightarrow> (u8 \<times> 'b Notify_Sizes_scheme \<times> 'h) option" where
  [code]: "find_three_pipes io mem control data cmp c p d FoundEndpoints s =
     (if FoundEndpoints = BV 0 OR BV 1 OR BV 2 then Some (0, d\<lparr>IsActive := True\<rparr>, s)
      else do {
        (f, s) \<leftarrow> find_next_endpoint io mem control data cmp c p FoundEndpoints s;
        case f of Return e \<Rightarrow> Some (e, d, s)
        | Next (p, FoundEndpoints) \<Rightarrow>
            (let (d, FoundEndpoints, s) = configure_notify_or_data io mem (snd p) c d FoundEndpoints s
             in find_three_pipes io mem control data cmp c p d FoundEndpoints s)
      })"

end
