(* ===== verification/Cdc_Host.thy ===== *)
theory Cdc_Host
  imports Host_Class Class_Common
begin

text \<open>
  The host-mode CDC class driver (virtual serial port), \<open>LUFA/Drivers/USB/Class/Host/CDC.c\<close> and \<open>CDC.h\<close>.
  The interface structure is split into its constant \<open>Config\<close> part, which is the record \<open>Notify_Pipes\<close> of
  the theory \<open>Host_Class\<close>, and its \<open>State\<close> part.
\<close>

section \<open>The interface structure\<close>

type_synonym CDC_Host_Config = Notify_Pipes

record CDC_Host_State = Notify_Sizes +
  ControlInterfaceNumber :: u8
  HostToDevice :: u8
  DeviceToHost :: u8
  LineEncoding :: CDC_LineEncoding

definition zero_cdc_host :: CDC_Host_State where
  "zero_cdc_host = \<lparr>IsActive = False, DataINPipeSize = 0, DataOUTPipeSize = 0, NotificationPipeSize = 0,
     ControlInterfaceNumber = 0, HostToDevice = 0, DeviceToHost = 0,
     LineEncoding = \<lparr>BaudRateBPS = 0, CharFormat = 0, ParityType = 0, DataBits = 0\<rparr>\<rparr>"

section \<open>Configuration of the pipes\<close>

definition DComp_CDC_Host_NextCDCControlInterface :: "(u16 \<Rightarrow> u8) \<Rightarrow> u16 \<Rightarrow> search" where
  "DComp_CDC_Host_NextCDCControlInterface mem = next_interface 0x02 0x02 0x01 mem"

definition DComp_CDC_Host_NextCDCDataInterface :: "(u16 \<Rightarrow> u8) \<Rightarrow> u16 \<Rightarrow> search" where
  "DComp_CDC_Host_NextCDCDataInterface mem = next_interface 0x0A 0x00 0x00 mem"

definition DComp_CDC_Host_NextCDCInterfaceEndpoint :: "'h hio \<Rightarrow> (u16 \<Rightarrow> u8) \<Rightarrow> u16 \<Rightarrow> 'h \<Rightarrow> search \<times> 'h" where
  "DComp_CDC_Host_NextCDCInterfaceEndpoint io mem = next_endpoint [EP_TYPE_BULK, EP_TYPE_INTERRUPT] io mem"

text \<open>The control line states are set at the end: RTS and DTR, DCD and DSR.\<close>

definition CDC_Host_ConfigurePipes ::
    "'h hio \<Rightarrow> (u16 \<Rightarrow> u8) \<Rightarrow> CDC_Host_Config \<Rightarrow> u16 \<Rightarrow> u16 \<Rightarrow> 'h \<Rightarrow> (u8 \<times> CDC_Host_State \<times> 'h) option" where
  "CDC_Host_ConfigurePipes io mem c ConfigDescriptorSize ConfigDescriptorData s =
     (if DESCRIPTOR_TYPE mem ConfigDescriptorData \<noteq> DTYPE_Configuration then Some (1, zero_cdc_host, s)
      else do {
        (r, p) \<leftarrow> USB_GetNextDescriptorComp mem (DComp_CDC_Host_NextCDCControlInterface mem)
                    (ConfigDescriptorSize, ConfigDescriptorData);
        if r \<noteq> DESCRIPTOR_SEARCH_COMP_Found then Some (2, zero_cdc_host, s)
        else do {
          (e, d, s) \<leftarrow> find_three_pipes io mem (DComp_CDC_Host_NextCDCControlInterface mem)
             (DComp_CDC_Host_NextCDCDataInterface mem) (DComp_CDC_Host_NextCDCInterfaceEndpoint io mem) c p
             (zero_cdc_host\<lparr>ControlInterfaceNumber := mem (snd p + 2)\<rparr>) 0 s;
          Some (e, if e = 0 then d\<lparr>HostToDevice := 0x03, DeviceToHost := 0x03\<rparr> else d, s)
        }
      })"

section \<open>Notifications and requests\<close>

text \<open>
  The results of the streams are not looked at; \<open>junk\<close> is what the stack holds where \<open>Notification\<close> is.
  The event \<open>EVENT_CDC_Host_ControLineStateChanged\<close> is a parameter.
\<close>

definition CDC_Host_USBTask ::
    "'h hio \<Rightarrow> (CDC_Host_State \<Rightarrow> 'h \<Rightarrow> CDC_Host_State \<times> 'h) \<Rightarrow> u8 list \<Rightarrow> CDC_Host_Config \<Rightarrow> CDC_Host_State \<Rightarrow> 'h \<Rightarrow>
       (CDC_Host_State \<times> 'h) option" where
  "CDC_Host_USBTask io ev junk c d s =
     (let (act, s) = host_active io (IsActive d) s
      in if \<not> act then Some (d, s)
         else
           let s = Pipe_SelectPipe io (NotificationPipeNumber c) s;
               s = Pipe_Unfreeze io (Pipe_SetPipeToken io PIPE_TOKEN_IN s);
               (rx, s) = Pipe_IsINReceived io s
           in if \<not> rx then Some (d, Pipe_Freeze io s)
              else do {
                (e, got, s) \<leftarrow> Pipe_Read_Stream_LE io None 8 s;
                let Notification = overwrite got junk;
                (d, s) \<leftarrow>
                  (if Notification ! 1 = NOTIF_SerialState \<and> Notification ! 0 = CLASS_IN then
                     map_option (\<lambda>(e, got, s). (if got = [] then d else d\<lparr>DeviceToHost := hd got\<rparr>, s))
                       (Pipe_Read_Stream_LE io None 1 s)
                   else Some (d, s));
                let (d, s) = ev d (Pipe_ClearIN io s);
                Some (d, Pipe_Freeze io s)
              })"

definition CDC_Host_SetLineEncoding :: "'h hio \<Rightarrow> u8 \<Rightarrow> CDC_Host_State \<Rightarrow> 'h \<Rightarrow> (u8 \<times> 'h) option" where
  "CDC_Host_SetLineEncoding io psize d s =
     map_option (\<lambda>(e, b, s). (e, s))
       (interface_request io psize CLASS_OUT REQ_SetLineEncoding 0 (ControlInterfaceNumber d) 7
          (Some (encoding_bytes (LineEncoding d))) s)"

definition CDC_Host_SendControlLineStateChange :: "'h hio \<Rightarrow> u8 \<Rightarrow> CDC_Host_State \<Rightarrow> 'h \<Rightarrow> (u8 \<times> 'h) option" where
  "CDC_Host_SendControlLineStateChange io psize d s =
     map_option (\<lambda>(e, b, s). (e, s))
       (interface_request io psize CLASS_OUT REQ_SetControlLineState (ucast (HostToDevice d)) (ControlInterfaceNumber d) 0 None s)"

section \<open>Data\<close>

definition CDC_Host_SendString :: "'h hio \<Rightarrow> CDC_Host_Config \<Rightarrow> CDC_Host_State \<Rightarrow> u8 list \<Rightarrow> 'h \<Rightarrow> (u8 \<times> 'h) option" where
  "CDC_Host_SendString io c d Data s =
     (let (act, s) = host_active io (IsActive d) s
      in if \<not> act then Some (PIPE_READYWAIT_DeviceDisconnected, s)
         else map_option (\<lambda>(e, s). (e, Pipe_Freeze io s))
           (Pipe_Write_Stream_LE io None Data (Pipe_Unfreeze io (Pipe_SelectPipe io (DataOUTPipeNumber c) s))))"

definition CDC_Host_SendByte :: "'h hio \<Rightarrow> CDC_Host_Config \<Rightarrow> CDC_Host_State \<Rightarrow> u8 \<Rightarrow> 'h \<Rightarrow> (u8 \<times> 'h) option" where
  "CDC_Host_SendByte io c d Data s =
     (let (act, s) = host_active io (IsActive d) s
      in if \<not> act then Some (PIPE_READYWAIT_DeviceDisconnected, s)
         else
           let s = Pipe_Unfreeze io (Pipe_SelectPipe io (DataOUTPipeNumber c) s);
               (allowed, s) = Pipe_IsReadWriteAllowed io s
           in do {
             (e, s) \<leftarrow> (if \<not> allowed then Pipe_WaitUntilReady io (Pipe_ClearOUT io s) else Some (0, s));
             if e \<noteq> PIPE_READYWAIT_NoError then Some (e, s)
             else Some (PIPE_READYWAIT_NoError, Pipe_Freeze io (Pipe_Write_Byte io Data s))
           })"

definition CDC_Host_BytesReceived :: "'h hio \<Rightarrow> CDC_Host_Config \<Rightarrow> CDC_Host_State \<Rightarrow> 'h \<Rightarrow> u16 \<times> 'h" where
  "CDC_Host_BytesReceived io c d s =
     (let (act, s) = host_active io (IsActive d) s
      in if \<not> act then (0, s)
         else
           let s = Pipe_SelectPipe io (DataINPipeNumber c) s;
               s = Pipe_Unfreeze io (Pipe_SetPipeToken io PIPE_TOKEN_IN s);
               (rx, s) = Pipe_IsINReceived io s
           in if rx then
                let (n, s) = Pipe_BytesInPipe io s;
                    s = (if n = 0 then Pipe_ClearIN io s else s);
                    (BytesInPipe, s) = Pipe_BytesInPipe io s
                in (BytesInPipe, Pipe_Freeze io s)
              else (0, Pipe_Freeze io s))"

definition CDC_Host_ReceiveByte :: "'h hio \<Rightarrow> CDC_Host_Config \<Rightarrow> CDC_Host_State \<Rightarrow> 'h \<Rightarrow> u8 \<times> 'h" where
  "CDC_Host_ReceiveByte io c d s =
     (let (act, s) = host_active io (IsActive d) s
      in if \<not> act then (0, s)
         else
           let s = Pipe_SelectPipe io (DataINPipeNumber c) s;
               s = Pipe_Unfreeze io (Pipe_SetPipeToken io PIPE_TOKEN_IN s);
               (ReceivedByte, s) = Pipe_Read_Byte io s;
               (n, s) = Pipe_BytesInPipe io s;
               s = (if n = 0 then Pipe_ClearIN io s else s)
           in (ReceivedByte, Pipe_Freeze io s))"

text \<open>Without bytes in the bank the pipe stays unfrozen.\<close>

definition CDC_Host_Flush :: "'h hio \<Rightarrow> CDC_Host_Config \<Rightarrow> CDC_Host_State \<Rightarrow> 'h \<Rightarrow> (u8 \<times> 'h) option" where
  "CDC_Host_Flush io c d s =
     (let (act, s) = host_active io (IsActive d) s
      in if \<not> act then Some (PIPE_READYWAIT_DeviceDisconnected, s)
         else
           let s = Pipe_Unfreeze io (Pipe_SelectPipe io (DataOUTPipeNumber c) s);
               (n, s) = Pipe_BytesInPipe io s
           in if n = 0 then Some (PIPE_READYWAIT_NoError, s)
           else
             let (allowed, s) = Pipe_IsReadWriteAllowed io s;
                 BankFull = (\<not> allowed);
                 s = Pipe_ClearOUT io s
             in if BankFull then
                  do {
                    (e, s) \<leftarrow> Pipe_WaitUntilReady io s;
                    if e \<noteq> PIPE_READYWAIT_NoError then Some (e, s)
                    else Some (PIPE_READYWAIT_NoError, Pipe_Freeze io (Pipe_ClearOUT io s))
                  }
                else Some (PIPE_READYWAIT_NoError, Pipe_Freeze io s))"

section \<open>Character streams\<close>

definition CDC_Host_CreateStream :: "'i \<Rightarrow> 'i FILE" where
  "CDC_Host_CreateStream CDCInterfaceInfo = \<lparr>get_function = getchar_Nonblocking, fdev_udata = CDCInterfaceInfo\<rparr>"

definition CDC_Host_CreateBlockingStream :: "'i \<Rightarrow> 'i FILE" where
  "CDC_Host_CreateBlockingStream CDCInterfaceInfo = \<lparr>get_function = getchar_Blocking, fdev_udata = CDCInterfaceInfo\<rparr>"

text \<open>The result is true for \<open>_FDEV_ERR\<close>; \<open>None\<close> as the first component is \<open>_FDEV_EOF\<close>.\<close>

definition CDC_Host_putchar :: "'h hio \<Rightarrow> CDC_Host_Config \<Rightarrow> CDC_Host_State \<Rightarrow> u8 \<Rightarrow> 'h \<Rightarrow> (bool \<times> 'h) option" where
  "CDC_Host_putchar io c d ch s = map_option (\<lambda>(e, s). (e \<noteq> 0, s)) (CDC_Host_SendByte io c d ch s)"

definition CDC_Host_getchar :: "'h hio \<Rightarrow> CDC_Host_Config \<Rightarrow> CDC_Host_State \<Rightarrow> 'h \<Rightarrow> u8 option \<times> 'h" where
  "CDC_Host_getchar io c d s =
     (let (n, s) = CDC_Host_BytesReceived io c d s
      in if n = 0 then (None, s) else let (b, s) = CDC_Host_ReceiveByte io c d s in (Some b, s))"

text \<open>The blocking form calls the class task and the task of the library, which may change the class state.\<close>

partial_function (option) CDC_Host_getchar_Blocking ::
    "'h hio \<Rightarrow> (CDC_Host_State \<Rightarrow> 'h \<Rightarrow> CDC_Host_State \<times> 'h) \<Rightarrow> u8 list \<Rightarrow> (CDC_Host_State \<Rightarrow> 'h \<Rightarrow> (CDC_Host_State \<times> 'h) option) \<Rightarrow>
       CDC_Host_Config \<Rightarrow> CDC_Host_State \<Rightarrow> 'h \<Rightarrow> (u8 option \<times> CDC_Host_State \<times> 'h) option" where
  [code]: "CDC_Host_getchar_Blocking io ev junk usb_task c d s =
     (let (n, s) = CDC_Host_BytesReceived io c d s
      in if n \<noteq> 0 then let (b, s) = CDC_Host_ReceiveByte io c d s in Some (Some b, d, s)
         else
           let (un, s) = host_state_is io HOST_STATE_Unattached s
           in if un then Some (None, d, s)
           else do {
             (d, s) \<leftarrow> CDC_Host_USBTask io ev junk c d s;
             (d, s) \<leftarrow> usb_task d s;
             CDC_Host_getchar_Blocking io ev junk usb_task c d s
           })"

definition CDC_Host_Event_Stub :: "CDC_Host_State \<Rightarrow> 'h \<Rightarrow> CDC_Host_State \<times> 'h" where
  "CDC_Host_Event_Stub d s = (d, s)"

end
