(* ===== verification/Host_Bus.thy ===== *)
theory Host_Bus
  imports Pipe Usb_Bulk
begin

text \<open>
  The environment of the host's data pipes: the AVR's USB host controller and a device at the other
  end of the bus.  The device is a state with two operations, \<open>give\<close> for a packet the host sends to
  an endpoint and \<open>ask\<close> for an IN token, which the device answers with a packet or not at all.  The
  controller moves packets when the firmware looks at the status register of a pipe that is not
  frozen.  The locale \<open>pipe_bus\<close> is the contract between the registers and this environment; in it
  the driver's wait and stream functions are shown to move packets between memory and the device.
\<close>

section \<open>The controller\<close>

text \<open>
  \<open>p_full\<close> tells that the bank belongs to the other side: it holds a received packet (IN), or one that
  waits to be sent (OUT).
\<close>

record pipe =
  p_cfg0 :: u8
  p_con :: u8
  p_fifo :: "u8 list"
  p_full :: bool
  p_stall :: bool

record 'p hctl =
  upnum :: u8
  pipes :: "u8 \<Rightarrow> pipe"
  h_size :: nat
  h_state :: u8
  h_sof :: nat
  h_gap :: nat
  peer :: 'p

record 'p device =
  give :: "u8 \<Rightarrow> u8 list \<Rightarrow> 'p \<Rightarrow> 'p"
  ask :: "u8 \<Rightarrow> 'p \<Rightarrow> u8 list option \<times> 'p"

definition pcur :: "'p hctl \<Rightarrow> pipe" where
  "pcur h = pipes h (upnum h)"

definition upd_pipe :: "(pipe \<Rightarrow> pipe) \<Rightarrow> 'p hctl \<Rightarrow> 'p hctl" where
  "upd_pipe f h = h\<lparr>pipes := (pipes h)(upnum h := f (pcur h))\<rparr>"

definition p_in :: "pipe \<Rightarrow> bool" where
  "p_in e \<longleftrightarrow> p_cfg0 e AND PIPE_TOKEN_MASK = PIPE_TOKEN_IN"

definition p_num :: "pipe \<Rightarrow> u8" where
  "p_num e = p_cfg0 e AND PIPE_EPNUM_MASK"

definition p_frozen :: "pipe \<Rightarrow> bool" where
  "p_frozen e \<longleftrightarrow> bit (p_con e) PFREEZE"

definition pintx :: "nat \<Rightarrow> pipe \<Rightarrow> u8" where
  "pintx sz e = flag RXSTALLI (p_stall e) OR
     (if p_in e then flag RXINI (p_full e) OR flag RWAL (p_full e \<and> p_fifo e \<noteq> []) OR flag FIFOCON (p_full e)
      else flag TXOUTI (\<not> p_full e) OR flag RWAL (\<not> p_full e \<and> length (p_fifo e) < sz) OR flag FIFOCON (\<not> p_full e))"

text \<open>What the controller does on the bus for the selected pipe.\<close>

definition turn :: "'p device \<Rightarrow> 'p hctl \<Rightarrow> 'p hctl" where
  "turn dv h =
     (let e = pcur h in
      if p_frozen e then h
      else if p_in e then
        (if p_full e then h
         else (case ask dv (p_num e) (peer h) of
                 (None, b) \<Rightarrow> h\<lparr>peer := b\<rparr>
               | (Some p, b) \<Rightarrow> (upd_pipe (\<lambda>e. e\<lparr>p_fifo := p, p_full := True\<rparr>) h)\<lparr>peer := b\<rparr>))
      else if p_full e then
        (upd_pipe (\<lambda>e. e\<lparr>p_fifo := [], p_full := False\<rparr>) h)\<lparr>peer := give dv (p_num e) (p_fifo e) (peer h)\<rparr>
      else h)"

text \<open>The firmware gives the bank up.\<close>

definition release_pipe :: "pipe \<Rightarrow> pipe" where
  "release_pipe e =
     (if p_in e then (if p_full e then e\<lparr>p_fifo := [], p_full := False\<rparr> else e) else e\<lparr>p_full := True\<rparr>)"

text \<open>The byte counter counts the bytes of the bank the firmware has access to.\<close>

definition pipe_count :: "pipe \<Rightarrow> nat" where
  "pipe_count e = (if p_in e = p_full e then length (p_fifo e) else 0)"

definition pipe_regs :: "hreg set" where
  "pipe_regs = {UPINTX, UPDATX, UPCONX, UPCFG0X, UPBCLX, UPBCHX}"

definition host_regs :: "hreg set" where
  "host_regs = {UPNUM, UHINT, V_HostState}"

definition host_rd :: "'p device \<Rightarrow> hreg \<Rightarrow> 'p hctl \<Rightarrow> u8 \<times> 'p hctl" where
  "host_rd dv r h =
     (if r = UPNUM then (upnum h, h)
      else if r = UPINTX then (pintx (h_size h) (pcur h), turn dv h)
      else if r = UPDATX then
        (case p_fifo (pcur h) of [] \<Rightarrow> (0, h) | b # bs \<Rightarrow> (b, upd_pipe (\<lambda>e. e\<lparr>p_fifo := bs\<rparr>) h))
      else if r = UPCONX then (p_con (pcur h), h)
      else if r = UPCFG0X then (p_cfg0 (pcur h), h)
      else if r = UPBCLX then (of_nat (pipe_count (pcur h)), h)
      else if r = UPBCHX then (of_nat (pipe_count (pcur h) div 256), h)
      else if r = UHINT then (flag HSOFI (h_sof h = 0), h\<lparr>h_sof := h_sof h - 1\<rparr>)
      else (h_state h, h))"

definition host_wr :: "hreg \<Rightarrow> u8 \<Rightarrow> 'p hctl \<Rightarrow> 'p hctl" where
  "host_wr r v h =
     (if r = UPNUM then h\<lparr>upnum := v AND 7\<rparr>
      else if r = UPINTX then (if bit v FIFOCON then h else upd_pipe release_pipe h)
      else if r = UPDATX then
        (if \<not> p_in (pcur h) \<and> \<not> p_full (pcur h) \<and> length (p_fifo (pcur h)) < h_size h
         then upd_pipe (\<lambda>e. e\<lparr>p_fifo := p_fifo e @ [v]\<rparr>) h else h)
      else if r = UPCONX then upd_pipe (\<lambda>e. e\<lparr>p_con := v\<rparr>) h
      else if r = UPCFG0X then upd_pipe (\<lambda>e. e\<lparr>p_cfg0 := v\<rparr>) h
      else if r = UHINT then (if bit v HSOFI then h else h\<lparr>h_sof := h_gap h\<rparr>)
      else if r = V_HostState then h\<lparr>h_state := v\<rparr>
      else h)"

lemma upd_pipe_simps [simp]: "pcur (upd_pipe f h) = f (pcur h)" "upnum (upd_pipe f h) = upnum h"
  "h_size (upd_pipe f h) = h_size h" "h_state (upd_pipe f h) = h_state h" "h_sof (upd_pipe f h) = h_sof h"
  "h_gap (upd_pipe f h) = h_gap h" "peer (upd_pipe f h) = peer h"
  by (simp_all add: upd_pipe_def pcur_def)

lemma pcur_upd [simp]: "pcur (h\<lparr>peer := b\<rparr>) = pcur h" "pcur (h\<lparr>h_sof := n\<rparr>) = pcur h"
  "pcur (h\<lparr>upnum := m\<rparr>) = pipes h m"
  by (simp_all add: pcur_def)

text \<open>
  What two states have in common when the firmware has only moved data through the selected pipe.
\<close>

definition hframe :: "'p hctl \<Rightarrow> 'p hctl \<Rightarrow> bool" where
  "hframe h k \<longleftrightarrow> upnum k = upnum h \<and> h_size k = h_size h \<and> h_state k = h_state h \<and> h_gap k = h_gap h \<and>
     (\<forall>n. n \<noteq> upnum h \<longrightarrow> pipes k n = pipes h n) \<and>
     p_cfg0 (pcur k) = p_cfg0 (pcur h) \<and> p_con (pcur k) = p_con (pcur h) \<and> p_stall (pcur k) = p_stall (pcur h)"

lemma hframe_refl [simp]: "hframe h h"
  by (simp add: hframe_def)

lemma hframe_trans: "hframe h k \<Longrightarrow> hframe k l \<Longrightarrow> hframe h l"
  by (simp add: hframe_def)

lemma hframe_step [simp]: "hframe h (h\<lparr>h_sof := n\<rparr>)" "hframe h (h\<lparr>peer := b\<rparr>)"
  by (simp_all add: hframe_def)

lemma hframe_pipe: "p_cfg0 (f (pcur h)) = p_cfg0 (pcur h) \<Longrightarrow> p_con (f (pcur h)) = p_con (pcur h) \<Longrightarrow>
   p_stall (f (pcur h)) = p_stall (pcur h) \<Longrightarrow> hframe h (upd_pipe f h)"
  by (simp add: hframe_def) (simp add: upd_pipe_def)

lemma hframe_pcur: "hframe h k \<Longrightarrow> upnum k = upnum h \<and> h_size k = h_size h \<and> h_state k = h_state h \<and>
   p_in (pcur k) = p_in (pcur h) \<and> p_num (pcur k) = p_num (pcur h) \<and> p_frozen (pcur k) = p_frozen (pcur h) \<and>
   p_stall (pcur k) = p_stall (pcur h)"
  by (simp add: hframe_def p_in_def p_num_def p_frozen_def)

lemma hframe_turn: "hframe h (turn dv h)"
proof -
  have "hframe h ((upd_pipe (\<lambda>e. e\<lparr>p_fifo := q, p_full := x\<rparr>) h)\<lparr>peer := b\<rparr>)" for q x b
    by (rule hframe_trans [of _ "upd_pipe (\<lambda>e. e\<lparr>p_fifo := q, p_full := x\<rparr>) h"]) (simp_all add: hframe_pipe)
  then show ?thesis by (simp add: turn_def Let_def split: prod.split option.split)
qed

text \<open>The pipe is live: selected, not frozen, no stall, the device attached.\<close>

definition live :: "'p hctl \<Rightarrow> bool" where
  "live h \<longleftrightarrow> upnum h \<noteq> 0 \<and> \<not> p_frozen (pcur h) \<and> \<not> p_stall (pcur h) \<and> h_state h \<noteq> HOST_STATE_Unattached"

lemma live_frame: "live h \<Longrightarrow> hframe h k \<Longrightarrow> live k"
  using hframe_pcur [of h k] by (simp add: live_def)

section \<open>What the device answers\<close>

text \<open>
  The device answers \<open>p\<close> after \<open>j\<close> tokens it has let pass.
\<close>

fun answer :: "'p device \<Rightarrow> nat \<Rightarrow> u8 \<Rightarrow> 'p \<Rightarrow> u8 list \<Rightarrow> 'p \<Rightarrow> bool" where
  "answer dv 0 n b p c \<longleftrightarrow> ask dv n b = (Some p, c)"
| "answer dv (Suc j) n b p c \<longleftrightarrow> (\<exists>b'. ask dv n b = (None, b') \<and> answer dv j n b' p c)"

text \<open>The device has the packets ready.\<close>

fun supplies :: "'p device \<Rightarrow> u8 \<Rightarrow> 'p \<Rightarrow> u8 list list \<Rightarrow> 'p \<Rightarrow> bool" where
  "supplies dv n b [] c \<longleftrightarrow> b = c"
| "supplies dv n b (p # ps) c \<longleftrightarrow> (\<exists>b'. ask dv n b = (Some p, b') \<and> supplies dv n b' ps c)"

definition loaded :: "'p hctl \<Rightarrow> u8 list \<Rightarrow> 'p \<Rightarrow> bool" where
  "loaded h p c \<longleftrightarrow> p_full (pcur h) \<and> p_fifo (pcur h) = p \<and> peer h = c"

definition coming :: "'p device \<Rightarrow> nat \<Rightarrow> 'p hctl \<Rightarrow> u8 list \<Rightarrow> 'p \<Rightarrow> bool" where
  "coming dv j h p c \<longleftrightarrow> loaded h p c \<or> \<not> p_full (pcur h) \<and> answer dv j (p_num (pcur h)) (peer h) p c"

lemma turn_idle: "p_in (pcur h) = p_full (pcur h) \<Longrightarrow> turn dv h = h"
  by (simp add: turn_def Let_def)

lemma turn_loaded: "loaded h p c \<Longrightarrow> p_in (pcur h) \<Longrightarrow> turn dv h = h"
  by (simp add: loaded_def turn_idle)

lemma turn_ask: "\<not> p_frozen (pcur h) \<Longrightarrow> p_in (pcur h) \<Longrightarrow> \<not> p_full (pcur h) \<Longrightarrow>
   ask dv (p_num (pcur h)) (peer h) = (r, b) \<Longrightarrow> turn dv h = (case r of None \<Rightarrow> h\<lparr>peer := b\<rparr>
     | Some p \<Rightarrow> (upd_pipe (\<lambda>e. e\<lparr>p_fifo := p, p_full := True\<rparr>) h)\<lparr>peer := b\<rparr>)"
  by (cases r) (simp_all add: turn_def Let_def)

lemma turn_give: "\<not> p_frozen (pcur h) \<Longrightarrow> \<not> p_in (pcur h) \<Longrightarrow> p_full (pcur h) \<Longrightarrow> turn dv h =
   (upd_pipe (\<lambda>e. e\<lparr>p_fifo := [], p_full := False\<rparr>) h)\<lparr>peer := give dv (p_num (pcur h)) (p_fifo (pcur h)) (peer h)\<rparr>"
  by (simp add: turn_def Let_def)

lemma turn_coming:
  assumes "live h" "p_in (pcur h)" "coming dv j h p c"
  shows "coming dv (j - 1) (turn dv h) p c" "j = 0 \<Longrightarrow> loaded (turn dv h) p c"
proof -
  have "coming dv (j - 1) (turn dv h) p c \<and> (j = 0 \<longrightarrow> loaded (turn dv h) p c)"
  proof (cases "loaded h p c")
    case True
    then show ?thesis using turn_loaded [OF True assms(2)] by (simp add: coming_def)
  next
    case False
    then have f: "\<not> p_full (pcur h)" "answer dv j (p_num (pcur h)) (peer h) p c" using assms(3) by (simp_all add: coming_def)
    have l: "\<not> p_frozen (pcur h)" using assms(1) by (simp add: live_def)
    show ?thesis
    proof (cases j)
      case 0
      then have "turn dv h = (upd_pipe (\<lambda>e. e\<lparr>p_fifo := p, p_full := True\<rparr>) h)\<lparr>peer := c\<rparr>"
        using turn_ask [OF l assms(2) f(1)] f(2) by fastforce
      then show ?thesis by (simp add: coming_def loaded_def)
    next
      case (Suc i)
      then obtain b where b: "ask dv (p_num (pcur h)) (peer h) = (None, b)" "answer dv i (p_num (pcur h)) b p c"
        using f(2) by auto
      then have "turn dv h = h\<lparr>peer := b\<rparr>" using turn_ask [OF l assms(2) f(1) b(1)] by simp
      then show ?thesis using Suc b(2) f(1) by (simp add: coming_def)
    qed
  qed
  then show "coming dv (j - 1) (turn dv h) p c" "j = 0 \<Longrightarrow> loaded (turn dv h) p c" by simp_all
qed

text \<open>How bytes are cut into packets: the full packets, and what is left in the bank.\<close>

fun pack :: "nat \<Rightarrow> u8 list \<Rightarrow> u8 list \<Rightarrow> u8 list list \<times> u8 list" where
  "pack sz f [] = ([], f)"
| "pack sz f (b # bs) =
     (if length f < sz then pack sz (f @ [b]) bs else (f # fst (pack sz [b] bs), snd (pack sz [b] bs)))"

lemma pack_concat: "concat (fst (pack sz f bs)) @ snd (pack sz f bs) = f @ bs"
  by (induction sz f bs rule: pack.induct) simp_all

lemma pack_size:
  assumes "0 < sz" "length f \<le> sz"
  shows "(\<forall>p\<in>set (fst (pack sz f bs)). length p = sz) \<and> length (snd (pack sz f bs)) \<le> sz \<and>
   (f @ bs \<noteq> [] \<longrightarrow> snd (pack sz f bs) \<noteq> [])"
  using assms
proof (induction bs arbitrary: f)
  case (Cons b bs)
  show ?case
  proof (cases "length f < sz")
    case True
    then show ?thesis using Cons.IH [of "f @ [b]"] Cons.prems by simp
  next
    case False
    then have "length f = sz" using Cons.prems by simp
    then show ?thesis using False Cons.IH [of "[b]"] Cons.prems by simp
  qed
qed simp

text \<open>The first \<open>n\<close> bytes of the packets \<open>p # ps\<close> reach into the last of them.\<close>

definition spans :: "nat \<Rightarrow> u8 list \<Rightarrow> u8 list list \<Rightarrow> bool" where
  "spans n p ps \<longleftrightarrow> n \<le> length p + length (concat ps) \<and> (ps = [] \<or> length p + length (concat (butlast ps)) < n)"

lemma spans_one [simp]: "spans n p [] \<longleftrightarrow> n \<le> length p"
  by (simp add: spans_def)

lemma spans_length: "spans n p ps \<Longrightarrow> n \<le> length p + length (concat ps)"
  by (simp add: spans_def)

lemma spans_Cons: "spans n r (p # ps) \<Longrightarrow> length r < n \<and> spans (n - length r) p ps"
  by (auto simp: spans_def split: if_splits)

lemma spans_all:
  assumes "\<forall>q\<in>set ps. q \<noteq> []"
  shows "spans (length p + length (concat ps)) p ps"
proof (cases "ps = []")
  case False
  then have "length (concat ps) = length (concat (butlast ps)) + length (last ps)"
    by (metis append_butlast_last_id concat.simps concat_append append_Nil2 length_append)
  then show ?thesis using assms last_in_set [OF False] by (simp add: spans_def)
qed simp

section \<open>The contract with the registers\<close>

locale pipe_bus =
  fixes io :: "'h hio" and dv :: "'p device" and get :: "'h \<Rightarrow> 'p hctl" and put :: "'p hctl \<Rightarrow> 'h \<Rightarrow> 'h"
  assumes get_put: "get (put u s) = u"
    and put_put: "put v (put u s) = put v s"
    and put_get: "put (get s) s = s"
    and rd_host: "r \<in> host_regs \<Longrightarrow> io_rd io r s = (fst (host_rd dv r (get s)), put (snd (host_rd dv r (get s))) s)"
    and wr_host: "r \<in> host_regs \<Longrightarrow> io_wr io r x s = put (host_wr r x (get s)) s"
    and rd_pipe: "r \<in> pipe_regs \<Longrightarrow> upnum (get s) \<noteq> 0 \<Longrightarrow>
        io_rd io r s = (fst (host_rd dv r (get s)), put (snd (host_rd dv r (get s))) s)"
    and wr_pipe: "r \<in> pipe_regs \<Longrightarrow> upnum (get s) \<noteq> 0 \<Longrightarrow> io_wr io r x s = put (host_wr r x (get s)) s"
begin

lemma rd_upintx: "upnum (get s) \<noteq> 0 \<Longrightarrow>
   io_rd io UPINTX s = (pintx (h_size (get s)) (pcur (get s)), put (turn dv (get s)) s)"
  by (simp add: rd_pipe pipe_regs_def host_rd_def)

lemma token: "upnum (get s) \<noteq> 0 \<Longrightarrow> Pipe_GetPipeToken io s = (p_cfg0 (pcur (get s)) AND PIPE_TOKEN_MASK, s)"
  by (simp add: Pipe_GetPipeToken_def rd_pipe pipe_regs_def host_rd_def put_get)

lemma in_received: "upnum (get s) \<noteq> 0 \<Longrightarrow> p_in (pcur (get s)) \<Longrightarrow>
   Pipe_IsINReceived io s = (p_full (pcur (get s)), put (turn dv (get s)) s)"
  by (simp add: Pipe_IsINReceived_def test_reg_def rd_upintx pintx_def bit_or_iff)

lemma out_ready: "upnum (get s) \<noteq> 0 \<Longrightarrow> \<not> p_in (pcur (get s)) \<Longrightarrow>
   Pipe_IsOUTReady io s = (\<not> p_full (pcur (get s)), put (turn dv (get s)) s)"
  by (simp add: Pipe_IsOUTReady_def test_reg_def rd_upintx pintx_def bit_or_iff)

lemma stalled_pipe: "upnum (get s) \<noteq> 0 \<Longrightarrow> Pipe_IsStalled io s = (p_stall (pcur (get s)), put (turn dv (get s)) s)"
  by (simp add: Pipe_IsStalled_def test_reg_def rd_upintx pintx_def bit_or_iff)

lemma rw_allowed: "upnum (get s) \<noteq> 0 \<Longrightarrow> Pipe_IsReadWriteAllowed io s =
   (if p_in (pcur (get s)) then p_full (pcur (get s)) \<and> p_fifo (pcur (get s)) \<noteq> []
    else \<not> p_full (pcur (get s)) \<and> length (p_fifo (pcur (get s))) < h_size (get s), put (turn dv (get s)) s)"
  by (simp add: Pipe_IsReadWriteAllowed_def test_reg_def rd_upintx pintx_def bit_or_iff)

lemma host_state: "host_state_is io x s = (h_state (get s) = x, s)"
  by (simp add: host_state_is_def rd_host host_regs_def host_rd_def put_get)

lemma hsof:
  "USB_INT_HasOccurred_HSOFI io s = (h_sof (get s) = 0, put ((get s)\<lparr>h_sof := h_sof (get s) - 1\<rparr>) s)"
  "USB_INT_Clear_HSOFI io s = put ((get s)\<lparr>h_sof := h_gap (get s)\<rparr>) s"
  by (simp_all add: USB_INT_HasOccurred_HSOFI_def USB_INT_Clear_HSOFI_def test_reg_def clr_reg_def rd_host wr_host
      host_regs_def host_rd_def host_wr_def get_put put_put)

lemma select_pipe: "n \<le> 7 \<Longrightarrow> Pipe_SelectPipe io n s = put ((get s)\<lparr>upnum := n\<rparr>) s"
  by (simp add: Pipe_SelectPipe_def wr_host host_regs_def host_wr_def and_7)

lemma freeze: "upnum (get s) \<noteq> 0 \<Longrightarrow>
   Pipe_Freeze io s = put (upd_pipe (\<lambda>e. e\<lparr>p_con := p_con e OR BV PFREEZE\<rparr>) (get s)) s"
  "upnum (get s) \<noteq> 0 \<Longrightarrow>
   Pipe_Unfreeze io s = put (upd_pipe (\<lambda>e. e\<lparr>p_con := p_con e AND NOT (BV PFREEZE)\<rparr>) (get s)) s"
  by (simp_all add: Pipe_Freeze_def Pipe_Unfreeze_def or_reg_def clr_reg_def rd_pipe wr_pipe pipe_regs_def host_rd_def
      host_wr_def put_get upd_pipe_def)

lemma set_token: "upnum (get s) \<noteq> 0 \<Longrightarrow> Pipe_SetPipeToken io t s =
   put (upd_pipe (\<lambda>e. e\<lparr>p_cfg0 := (p_cfg0 e AND NOT PIPE_TOKEN_MASK) OR t\<rparr>) (get s)) s"
  by (simp add: Pipe_SetPipeToken_def rd_pipe wr_pipe pipe_regs_def host_rd_def host_wr_def put_get upd_pipe_def)

lemma pipe_bytes: "upnum (get s) \<noteq> 0 \<Longrightarrow> pipe_count (pcur (get s)) < 65536 \<Longrightarrow>
   Pipe_BytesInPipe io s = (of_nat (pipe_count (pcur (get s))), s)"
  by (simp add: Pipe_BytesInPipe_def rd_pipe pipe_regs_def host_rd_def put_get count_of_bytes)

text \<open>Giving up the bank of a received packet, or of a packet to send.\<close>

lemma clear_in:
  assumes "upnum (get s) \<noteq> 0" "p_in (pcur (get s))" "p_full (pcur (get s))"
  shows "Pipe_ClearIN io s = put (upd_pipe (\<lambda>e. e\<lparr>p_fifo := [], p_full := False\<rparr>) (get s)) s"
proof -
  have t: "turn dv (get s) = get s" using assms by (simp add: turn_idle)
  show ?thesis
    using assms by (simp add: Pipe_ClearIN_def clear_pipe_flag_def rd_upintx t wr_pipe pipe_regs_def host_wr_def
        get_put put_put put_get pintx_def bit_or_iff release_pipe_def upd_pipe_def)
qed

lemma clear_out:
  assumes "upnum (get s) \<noteq> 0" "\<not> p_in (pcur (get s))" "\<not> p_full (pcur (get s))"
  shows "Pipe_ClearOUT io s = put (upd_pipe (\<lambda>e. e\<lparr>p_full := True\<rparr>) (get s)) s"
proof -
  have t: "turn dv (get s) = get s" using assms by (simp add: turn_idle)
  show ?thesis
    using assms by (simp add: Pipe_ClearOUT_def clear_pipe_flag_def rd_upintx t wr_pipe pipe_regs_def host_wr_def
        get_put put_put put_get pintx_def bit_or_iff release_pipe_def upd_pipe_def)
qed

text \<open>One round of the wait loop in terms of the controller.\<close>

definition wait_spec :: "nat \<Rightarrow> 'p hctl \<Rightarrow> (u8, nat) flow \<times> 'p hctl" where
  "wait_spec t h =
     (let k = turn dv (turn dv h) in
      if p_in (pcur h) = p_full (pcur h) then (Return PIPE_READYWAIT_NoError, turn dv h)
      else if p_stall (pcur h) then (Return PIPE_READYWAIT_PipeStalled, k)
      else if h_state h = HOST_STATE_Unattached then (Return PIPE_READYWAIT_DeviceDisconnected, k)
      else if h_sof h = 0 then
        (if t = 0 then Return PIPE_READYWAIT_Timeout else Next (t - 1), k\<lparr>h_sof := h_gap h\<rparr>)
      else (Next t, k\<lparr>h_sof := h_sof h - 1\<rparr>))"

lemma turn_same [simp]: "upnum (turn dv h) = upnum h" "h_size (turn dv h) = h_size h" "h_state (turn dv h) = h_state h"
  "p_in (pcur (turn dv h)) = p_in (pcur h)" "p_num (pcur (turn dv h)) = p_num (pcur h)"
  "p_frozen (pcur (turn dv h)) = p_frozen (pcur h)" "p_stall (pcur (turn dv h)) = p_stall (pcur h)"
  "h_gap (turn dv h) = h_gap h" "h_sof (turn dv h) = h_sof h"
proof -
  show "h_gap (turn dv h) = h_gap h" using hframe_turn [of h dv] by (simp add: hframe_def)
  show "h_sof (turn dv h) = h_sof h"
    by (simp add: turn_def Let_def split: prod.split option.split)
qed (use hframe_pcur [OF hframe_turn [of h dv]] in simp_all)

lemma pipe_round:
  assumes "upnum (get s) \<noteq> 0"
  shows "pipe_wait_round io t s = (fst (wait_spec t (get s)), put (snd (wait_spec t (get s))) s)"
proof -
  have tk: "p_cfg0 (pcur (get s)) AND PIPE_TOKEN_MASK = PIPE_TOKEN_IN \<longleftrightarrow> p_in (pcur (get s))" by (simp add: p_in_def)
  show ?thesis
    using assms
    by (cases "p_in (pcur (get s))")
      (simp_all add: pipe_wait_round_def wait_spec_def Let_def token tk in_received out_ready stalled_pipe host_state hsof
        get_put put_put split: prod.splits)
qed

text \<open>
  The wait always ends, because every round either sees a frame, of which the timeout counts one more
  than its start value, or uses up part of the time to the next one.
\<close>

lemma spec_frame: "hframe h (snd (wait_spec t h))"
  using hframe_trans [OF hframe_turn hframe_turn [of "turn dv h" dv]] hframe_turn [of h dv]
    hframe_trans [OF hframe_trans [OF hframe_turn hframe_turn] hframe_step(1)]
  by (auto simp: wait_spec_def Let_def)

definition wait_result :: "'p hctl \<Rightarrow> u8 \<Rightarrow> 'p hctl \<Rightarrow> bool" where
  "wait_result h e k \<longleftrightarrow> hframe h k \<and>
     (e = PIPE_READYWAIT_NoError \<and> p_in (pcur k) = p_full (pcur k) \<or> e = PIPE_READYWAIT_PipeStalled \<and> p_stall (pcur h) \<or>
      e = PIPE_READYWAIT_DeviceDisconnected \<and> h_state h = HOST_STATE_Unattached \<or> e = PIPE_READYWAIT_Timeout)"

lemma pipe_wait_ends:
  assumes "upnum (get s) \<noteq> 0"
  shows "\<exists>e k. pipe_wait_loop io t s = Some (e, put k s) \<and> wait_result (get s) e k"
  using assms
proof (induction "(t, h_sof (get s))" arbitrary: t s rule: wf_induct_rule [OF wf_lex_prod [OF wf_less wf_less]])
  case 1
  note r = pipe_round [OF 1(2), of t]
  show ?case
  proof (cases "wait_spec t (get s)")
    case (Pair f k)
    have fr: "hframe (get s) k" using spec_frame [of "get s" t] Pair by simp
    show ?thesis
    proof (cases f)
      case (Return e)
      have "wait_result (get s) e k"
        using Pair Return fr turn_idle [of "get s" dv]
        by (auto simp: wait_result_def wait_spec_def Let_def split: if_splits)
      then show ?thesis using r Pair Return by (subst pipe_wait_loop.simps) auto
    next
      case (Next t')
      have "t' < t \<or> t' = t \<and> h_sof k < h_sof (get s)" "upnum k = upnum (get s)"
        using Pair Next by (auto simp: wait_spec_def Let_def split: if_splits)
      then have "((t', h_sof (get (put k s))), (t, h_sof (get s))) \<in> {(x, y). x < y} <*lex*> {(x, y). x < y}"
        "upnum (get (put k s)) \<noteq> 0"
        using 1(2) by (auto simp: get_put)
      from 1(1) [OF this] obtain e l where l: "pipe_wait_loop io t' (put k s) = Some (e, put l s)" "wait_result k e l"
        by (auto simp: get_put put_put)
      have "pipe_wait_loop io t s = pipe_wait_loop io t' (put k s)"
        using r Pair Next by (subst pipe_wait_loop.simps) simp
      moreover have "wait_result (get s) e l"
        using l(2) fr hframe_trans [OF fr] hframe_pcur [OF fr] by (auto simp: wait_result_def)
      ultimately show ?thesis using l(1) by metis
    qed
  qed
qed

lemma wait_over: "upnum (get s) \<noteq> 0 \<Longrightarrow> p_in (pcur (get s)) = p_full (pcur (get s)) \<Longrightarrow>
   pipe_wait_loop io t s = Some (0, s)"
  by (subst pipe_wait_loop.simps) (simp add: pipe_round wait_spec_def turn_idle put_get)

text \<open>An IN pipe gets the packet the device is about to send.\<close>

lemma wait_in:
  assumes "live (get s)" "p_in (pcur (get s))" "coming dv j (get s) p c" "j < t"
  shows "\<exists>k. pipe_wait_loop io t s = Some (0, put k s) \<and> hframe (get s) k \<and> loaded k p c"
  using assms
proof (induction j arbitrary: s t rule: less_induct)
  case (less j)
  have u: "upnum (get s) \<noteq> 0" using less.prems(1) by (simp add: live_def)
  note r = pipe_round [OF u, of t]
  show ?case
  proof (cases "p_full (pcur (get s))")
    case True
    then have l: "loaded (get s) p c" using less.prems(3) by (simp add: coming_def)
    then show ?thesis
      using wait_over [OF u] True less.prems(2) by (auto simp: put_get intro!: exI [of _ "get s"])
  next
    case False
    let ?k = "turn dv (turn dv (get s))"
    let ?t = "if h_sof (get s) = 0 then t - 1 else t"
    let ?l = "if h_sof (get s) = 0 then ?k\<lparr>h_sof := h_gap (get s)\<rparr> else ?k\<lparr>h_sof := h_sof (get s) - 1\<rparr>"
    have st: "\<not> p_stall (pcur (get s))" "h_state (get s) \<noteq> HOST_STATE_Unattached" "0 < t"
      using less.prems(1,4) by (simp_all add: live_def)
    have step: "pipe_wait_loop io t s = pipe_wait_loop io ?t (put ?l s)"
      using r False less.prems(2) st by (subst pipe_wait_loop.simps) (simp add: wait_spec_def Let_def)
    have fr: "hframe (get s) ?l"
      using hframe_trans [OF hframe_trans [OF hframe_turn hframe_turn] hframe_step(1)] by auto
    have l1: "live (turn dv (get s))" using less.prems(1) by (simp add: live_def)
    have c1: "coming dv (j - 1) (turn dv (get s)) p c" "j = 0 \<longrightarrow> loaded (turn dv (get s)) p c"
      using turn_coming [OF less.prems(1-3)] by simp_all
    have "coming dv (j - 1 - 1) ?k p c" "j - 1 = 0 \<longrightarrow> loaded ?k p c"
      using turn_coming [OF l1 _ c1(1)] less.prems(2) by simp_all
    then have c2: "coming dv (j - 1 - 1) ?l p c" "j - 1 = 0 \<longrightarrow> loaded ?l p c"
      by (simp_all add: coming_def loaded_def)
    have lv: "live ?l" "p_in (pcur ?l)" using live_frame [OF less.prems(1) fr] hframe_pcur [OF fr] less.prems(2) by simp_all
    show ?thesis
    proof (cases "j - 1 = 0")
      case True
      then have ld: "loaded ?l p c" using c2(2) by simp
      have ul: "upnum ?l \<noteq> 0" using lv(1) unfolding live_def by blast
      have "pipe_wait_loop io ?t (put ?l s) = Some (0, put ?l s)"
        by (rule wait_over) (use ul ld lv(2) in \<open>simp_all only: get_put loaded_def simp_thms\<close>)
      then show ?thesis unfolding step using fr ld by blast
    next
      case False
      have lt: "j - 1 - 1 < j" "j - 1 - 1 < ?t" using False less.prems(4) by auto
      have "\<exists>k. pipe_wait_loop io ?t (put ?l s) = Some (0, put k (put ?l s)) \<and> hframe (get (put ?l s)) k \<and> loaded k p c"
        by (rule less.IH [OF lt(1)]) (use lv c2(1) lt(2) in \<open>simp_all only: get_put\<close>)
      then show ?thesis unfolding step using hframe_trans [OF fr] by (auto simp only: get_put put_put)
    qed
  qed
qed

text \<open>An OUT pipe's packet reaches the device.\<close>

definition delivered :: "'p hctl \<Rightarrow> 'p hctl \<Rightarrow> bool" where
  "delivered h k \<longleftrightarrow> hframe h k \<and> \<not> p_full (pcur k) \<and>
     (if p_full (pcur h) then p_fifo (pcur k) = [] \<and> peer k = give dv (p_num (pcur h)) (p_fifo (pcur h)) (peer h)
      else p_fifo (pcur k) = p_fifo (pcur h) \<and> peer k = peer h)"

lemma turn_delivered:
  assumes "live h" "\<not> p_in (pcur h)"
  shows "delivered h (turn dv h)"
  using assms turn_give [of h dv] turn_idle [of h dv] hframe_turn [of h dv]
  by (cases "p_full (pcur h)") (simp_all add: delivered_def live_def)

lemma wait_out:
  assumes "live (get s)" "\<not> p_in (pcur (get s))" "0 < t"
  shows "\<exists>k. pipe_wait_loop io t s = Some (0, put k s) \<and> delivered (get s) k"
proof -
  have u: "upnum (get s) \<noteq> 0" using assms(1) by (simp add: live_def)
  note r = pipe_round [OF u, of t]
  show ?thesis
  proof (cases "p_full (pcur (get s))")
    case False
    then show ?thesis
      using r assms(2) turn_delivered [OF assms(1,2)]
      by (subst pipe_wait_loop.simps) (auto simp: wait_spec_def)
  next
    case True
    let ?d = "turn dv (get s)"
    have d: "delivered (get s) ?d" by (rule turn_delivered [OF assms(1,2)])
    have i: "turn dv ?d = ?d" using d assms(2) by (intro turn_idle) (simp add: delivered_def)
    let ?t = "if h_sof (get s) = 0 then t - 1 else t"
    let ?l = "if h_sof (get s) = 0 then ?d\<lparr>h_sof := h_gap (get s)\<rparr> else ?d\<lparr>h_sof := h_sof (get s) - 1\<rparr>"
    have st: "\<not> p_stall (pcur (get s))" "h_state (get s) \<noteq> HOST_STATE_Unattached" using assms(1) by (simp_all add: live_def)
    have step: "pipe_wait_loop io t s = pipe_wait_loop io ?t (put ?l s)"
      using r True assms(2,3) st i by (subst pipe_wait_loop.simps) (simp add: wait_spec_def Let_def)
    have l: "delivered (get s) ?l" using d by (auto simp: delivered_def intro: hframe_trans [OF _ hframe_step(1)])
    have nf: "\<not> p_in (pcur ?l)" "\<not> p_full (pcur ?l)" "upnum ?l \<noteq> 0" using l assms(2) u hframe_pcur [of "get s" ?l] by (auto simp: delivered_def)
    have "pipe_wait_loop io ?t (put ?l s) = Some (0, put ?l s)"
      by (rule wait_over) (use nf in \<open>simp_all only: get_put simp_thms\<close>)
    then show ?thesis unfolding step using l by blast
  qed
qed

text \<open>Bytes come from the bank, and from the packets behind it.\<close>

lemma token_same:
  assumes "upnum (get s) \<noteq> 0" "p_cfg0 (pcur (get s)) AND PIPE_TOKEN_MASK = t"
  shows "Pipe_SetPipeToken io t s = s"
proof -
  let ?e = "pcur (get s)"
  have "(w AND NOT m) OR (w AND m) = w" for w m :: u8
    by (rule bit_word_eqI) (auto simp: bit_and_iff bit_or_iff bit_not_iff)
  from this [of "p_cfg0 ?e" PIPE_TOKEN_MASK] have "?e\<lparr>p_cfg0 := (p_cfg0 ?e AND NOT PIPE_TOKEN_MASK) OR t\<rparr> = ?e" using assms(2) by simp
  then show ?thesis using assms(1) by (simp add: set_token upd_pipe_def pcur_def put_get)
qed

lemma read_bank:
  assumes "upnum (get s) \<noteq> 0" "p_in (pcur (get s))" "loaded (get s) (r @ q) c"
  shows "read_pipe_loop io cb (length r + m) got s =
    read_pipe_loop io cb m (got @ r) (put (upd_pipe (\<lambda>e. e\<lparr>p_fifo := q\<rparr>) (get s)) s)"
  using assms
proof (induction r arbitrary: got s)
  case Nil
  then have "(pcur (get s))\<lparr>p_fifo := q\<rparr> = pcur (get s)" by (simp add: loaded_def)
  then show ?case by (simp add: upd_pipe_def pcur_def put_get)
next
  case (Cons b r)
  let ?u = "upd_pipe (\<lambda>e. e\<lparr>p_fifo := r @ q\<rparr>) (get s)"
  have f: "p_fifo (pcur (get s)) = b # r @ q" "p_full (pcur (get s))" using Cons.prems(3) by (simp_all add: loaded_def)
  have a: "Pipe_IsReadWriteAllowed io s = (True, s)"
    using rw_allowed [OF Cons.prems(1)] f Cons.prems(2) turn_loaded [OF Cons.prems(3,2)] by (simp add: put_get)
  have r: "Pipe_Read_Byte io s = (b, put ?u s)"
    using Cons.prems(1) f(1) by (simp add: Pipe_Read_Byte_def rd_pipe pipe_regs_def host_rd_def)
  have "read_pipe_loop io cb (length r + m) (got @ [b]) (put ?u s) =
      read_pipe_loop io cb m ((got @ [b]) @ r) (put (upd_pipe (\<lambda>e. e\<lparr>p_fifo := q\<rparr>) (get (put ?u s))) (put ?u s))"
    by (rule Cons.IH) (use Cons.prems(1,2) f in \<open>simp_all add: get_put loaded_def p_in_def Cons.prems(3) [unfolded loaded_def]\<close>)
  moreover have "upd_pipe (\<lambda>e. e\<lparr>p_fifo := q\<rparr>) ?u = upd_pipe (\<lambda>e. e\<lparr>p_fifo := q\<rparr>) (get s)"
    by (simp add: upd_pipe_def pcur_def)
  moreover have "read_pipe_loop io cb (length (b # r) + m) got s = read_pipe_loop io cb (length r + m) (got @ [b]) (put ?u s)"
    by (subst read_pipe_loop.simps) (simp add: a r)
  ultimately show ?case by (simp add: get_put put_put)
qed

lemma next_packet:
  assumes "live (get s)" "p_in (pcur (get s))" "loaded (get s) [] c" "ask dv (p_num (pcur (get s))) c = (Some p, d)"
  shows "\<exists>k. pipe_next_bank io None (Pipe_ClearIN io) s = Some (0, put k s) \<and> hframe (get s) k \<and> loaded k p d"
proof -
  let ?u = "upd_pipe (\<lambda>e. e\<lparr>p_fifo := [], p_full := False\<rparr>) (get s)"
  have u: "upnum (get s) \<noteq> 0" "p_full (pcur (get s))" "peer (get s) = c" using assms(1,3) by (simp_all add: live_def loaded_def)
  have f: "hframe (get s) ?u" by (rule hframe_pipe) simp_all
  have "\<exists>k. pipe_wait_loop io HOST_STREAM_TIMEOUT_MS (put ?u s) = Some (0, put k (put ?u s)) \<and> hframe (get (put ?u s)) k \<and> loaded k p d"
    by (rule wait_in [where j = 0])
      (use live_frame [OF assms(1) f] hframe_pcur [OF f] assms(2,4) u(3) in \<open>simp_all add: get_put coming_def\<close>)
  then show ?thesis
    using clear_in [OF u(1) assms(2) u(2)] hframe_trans [OF f]
    by (auto simp: pipe_next_bank_def Pipe_WaitUntilReady_def get_put put_put)
qed

lemma read_packets:
  assumes "live (get s)" "p_in (pcur (get s))" "loaded (get s) r c"
    "supplies dv (p_num (pcur (get s))) c ps d" "spans n r ps"
  shows "\<exists>k q. read_pipe_loop io None n got s = Some (0, got @ take n (r @ concat ps), put k s) \<and>
    hframe (get s) k \<and> loaded k q d"
  using assms
proof (induction ps arbitrary: r c got s n)
  case Nil
  let ?u = "upd_pipe (\<lambda>e. e\<lparr>p_fifo := drop n r\<rparr>) (get s)"
  have u: "upnum (get s) \<noteq> 0" using Nil.prems(1) by (simp add: live_def)
  have l: "loaded (get s) (take n r @ drop n r) c" using Nil.prems(3) by simp
  have "read_pipe_loop io None n got s = read_pipe_loop io None 0 (got @ take n r) (put ?u s)"
    using read_bank [OF u Nil.prems(2) l, of None 0 got] Nil.prems(5) by simp
  moreover have "hframe (get s) ?u" by (rule hframe_pipe) simp_all
  moreover have "loaded ?u (drop n r) d" using Nil.prems(3,4) by (simp add: loaded_def)
  ultimately show ?case by (subst (asm) (2) read_pipe_loop.simps) auto
next
  case (Cons p ps)
  let ?u = "upd_pipe (\<lambda>e. e\<lparr>p_fifo := []\<rparr>) (get s)" and ?n = "n - length r"
  obtain b where b: "ask dv (p_num (pcur (get s))) c = (Some p, b)" "supplies dv (p_num (pcur (get s))) b ps d"
    using Cons.prems(4) by auto
  have n: "length r < n" "spans ?n p ps" using spans_Cons [OF Cons.prems(5)] by simp_all
  have u0: "upnum (get s) \<noteq> 0" using Cons.prems(1) by (simp add: live_def)
  have one: "read_pipe_loop io None n got s = read_pipe_loop io None ?n (got @ r) (put ?u s)"
    using read_bank [OF u0 Cons.prems(2), of r "[]" c None ?n got] Cons.prems(3) n(1) by simp
  have f: "hframe (get s) ?u" by (rule hframe_pipe) simp_all
  have l: "live ?u" "p_in (pcur ?u)" "loaded ?u [] c" "p_num (pcur ?u) = p_num (pcur (get s))"
    using live_frame [OF Cons.prems(1) f] hframe_pcur [OF f] Cons.prems(2,3) by (simp_all add: loaded_def)
  have "\<exists>k. pipe_next_bank io None (Pipe_ClearIN io) (put ?u s) = Some (0, put k (put ?u s)) \<and>
      hframe (get (put ?u s)) k \<and> loaded k p b"
    by (rule next_packet) (use l b(1) in \<open>simp_all only: get_put\<close>)
  then obtain k where k: "pipe_next_bank io None (Pipe_ClearIN io) (put ?u s) = Some (0, put k s)" "hframe ?u k" "loaded k p b"
    by (auto simp: get_put put_put)
  have na: "Pipe_IsReadWriteAllowed io (put ?u s) = (False, put ?u s)"
    using rw_allowed [of "put ?u s"] u0 l(2,3) turn_loaded [OF l(3,2)] by (simp add: get_put put_put loaded_def)
  have two: "read_pipe_loop io None ?n (got @ r) (put ?u s) = read_pipe_loop io None ?n (got @ r) (put k s)"
    using n(1) by (subst read_pipe_loop.simps) (simp add: na k(1))
  have hk: "live k" "p_in (pcur k)" "p_num (pcur k) = p_num (pcur (get s))"
    using live_frame [OF l(1) k(2)] hframe_pcur [OF k(2)] l(2,4) by simp_all
  have "\<exists>l q. read_pipe_loop io None ?n (got @ r) (put k s) =
      Some (0, (got @ r) @ take ?n (p @ concat ps), put l (put k s)) \<and> hframe (get (put k s)) l \<and> loaded l q d"
    by (rule Cons.IH [where c = b]) (use hk k(3) b(2) n(2) in \<open>simp_all add: get_put\<close>)
  then obtain l q where "read_pipe_loop io None ?n (got @ r) (put k s) =
      Some (0, got @ r @ take ?n (p @ concat ps), put l s)" "hframe k l" "loaded l q d"
    by (auto simp: get_put put_put)
  moreover have "take n (r @ concat (p # ps)) = r @ take ?n (p @ concat ps)" using n(1) by simp
  ultimately show ?case using one two hframe_trans [OF f hframe_trans [OF k(2)]] by auto
qed

lemma read_pipe_stream:
  assumes "live (get s)" "p_in (pcur (get s))" "coming dv j (get s) p c" "j < HOST_STREAM_TIMEOUT_MS"
    "supplies dv (p_num (pcur (get s))) c ps d" "spans n p ps"
  shows "\<exists>k q. Pipe_Read_Stream_LE io None n s = Some (0, take n (p @ concat ps), put k s) \<and> hframe (get s) k \<and> loaded k q d"
proof -
  have u: "upnum (get s) \<noteq> 0" "p_cfg0 (pcur (get s)) AND PIPE_TOKEN_MASK = PIPE_TOKEN_IN"
    using assms(1,2) by (simp_all add: live_def p_in_def)
  obtain k where k: "pipe_wait_loop io HOST_STREAM_TIMEOUT_MS s = Some (0, put k s)" "hframe (get s) k" "loaded k p c"
    using wait_in [OF assms(1-4)] by blast
  have "\<exists>l q. read_pipe_loop io None n [] (put k s) =
      Some (0, [] @ take n (p @ concat ps), put l (put k s)) \<and> hframe (get (put k s)) l \<and> loaded l q d"
    by (rule read_packets)
      (use live_frame [OF assms(1) k(2)] hframe_pcur [OF k(2)] assms(2,5,6) k(3) in \<open>simp_all add: get_put\<close>)
  then obtain l q where "read_pipe_loop io None n [] (put k s) = Some (0, take n (p @ concat ps), put l s)" "hframe k l" "loaded l q d"
    by (auto simp: get_put put_put)
  then show ?thesis
    using token_same [OF u] k(1) hframe_trans [OF k(2)]
    by (auto simp: Pipe_Read_Stream_LE_def Pipe_WaitUntilReady_def get_put put_put)
qed

text \<open>Bytes go into the bank, and full banks to the device.\<close>

lemma write_packets:
  assumes "live (get s)" "\<not> p_in (pcur (get s))" "\<not> p_full (pcur (get s))" "0 < h_size (get s)"
    "length (p_fifo (pcur (get s))) \<le> h_size (get s)"
  shows "\<exists>k. write_pipe_loop io None bytes s = Some (0, put k s) \<and> hframe (get s) k \<and> \<not> p_full (pcur k) \<and>
    p_fifo (pcur k) = snd (pack (h_size (get s)) (p_fifo (pcur (get s))) bytes) \<and>
    peer k = fold (give dv (p_num (pcur (get s)))) (fst (pack (h_size (get s)) (p_fifo (pcur (get s))) bytes)) (peer (get s))"
  using assms
proof (induction bytes arbitrary: s)
  case Nil
  then show ?case by (subst write_pipe_loop.simps) (auto simp: put_get intro!: exI [of _ "get s"])
next
  case (Cons b bytes)
  have step: "\<exists>k. write_pipe_loop io None (b # bytes) t = Some (0, put k t) \<and> hframe (get t) k \<and> \<not> p_full (pcur k) \<and>
      p_fifo (pcur k) = snd (pack (h_size (get t)) (p_fifo (pcur (get t)) @ [b]) bytes) \<and>
      peer k = fold (give dv (p_num (pcur (get t)))) (fst (pack (h_size (get t)) (p_fifo (pcur (get t)) @ [b]) bytes)) (peer (get t))"
    if t: "live (get t)" "\<not> p_in (pcur (get t))" "\<not> p_full (pcur (get t))" "length (p_fifo (pcur (get t))) < h_size (get t)" for t
  proof -
    let ?u = "upd_pipe (\<lambda>e. e\<lparr>p_fifo := p_fifo e @ [b]\<rparr>) (get t)"
    have u: "upnum (get t) \<noteq> 0" using t(1) by (simp add: live_def)
    have a: "Pipe_IsReadWriteAllowed io t = (True, t)"
      using rw_allowed [OF u] t turn_idle [of "get t" dv] by (simp add: put_get)
    have w: "Pipe_Write_Byte io b t = put ?u t"
      using u t by (simp add: Pipe_Write_Byte_def wr_pipe pipe_regs_def host_wr_def)
    have f: "hframe (get t) ?u" by (rule hframe_pipe) simp_all
    have "\<exists>k. write_pipe_loop io None bytes (put ?u t) = Some (0, put k (put ?u t)) \<and> hframe (get (put ?u t)) k \<and> \<not> p_full (pcur k) \<and>
      p_fifo (pcur k) = snd (pack (h_size (get (put ?u t))) (p_fifo (pcur (get (put ?u t)))) bytes) \<and>
      peer k = fold (give dv (p_num (pcur (get (put ?u t)))))
        (fst (pack (h_size (get (put ?u t))) (p_fifo (pcur (get (put ?u t)))) bytes)) (peer (get (put ?u t)))"
      by (rule Cons.IH) (use live_frame [OF t(1) f] hframe_pcur [OF f] t in \<open>simp_all add: get_put\<close>)
    then obtain k where "write_pipe_loop io None bytes (put ?u t) = Some (0, put k t)" "hframe ?u k" "\<not> p_full (pcur k)"
      "p_fifo (pcur k) = snd (pack (h_size (get t)) (p_fifo (pcur (get t)) @ [b]) bytes)"
      "peer k = fold (give dv (p_num (pcur (get t)))) (fst (pack (h_size (get t)) (p_fifo (pcur (get t)) @ [b]) bytes)) (peer (get t))"
      using hframe_pcur [OF f] by (auto simp: get_put put_put)
    then show ?thesis
      using hframe_trans [OF f] by (intro exI [of _ k]) (subst write_pipe_loop.simps, simp add: a w)
  qed
  show ?case
  proof (cases "length (p_fifo (pcur (get s))) < h_size (get s)")
    case True
    then show ?thesis using step [OF Cons.prems(1-3) True] by simp
  next
    case False
    let ?u = "upd_pipe (\<lambda>e. e\<lparr>p_full := True\<rparr>) (get s)"
    have u: "upnum (get s) \<noteq> 0" using Cons.prems(1) by (simp add: live_def)
    have f: "hframe (get s) ?u" by (rule hframe_pipe) simp_all
    have na: "Pipe_IsReadWriteAllowed io s = (False, s)"
      using rw_allowed [OF u] Cons.prems(2,3) False turn_idle [of "get s" dv] by (simp add: put_get)
    have "\<exists>k. pipe_wait_loop io HOST_STREAM_TIMEOUT_MS (put ?u s) = Some (0, put k (put ?u s)) \<and> delivered (get (put ?u s)) k"
      by (rule wait_out) (use live_frame [OF Cons.prems(1) f] hframe_pcur [OF f] Cons.prems(2) in \<open>simp_all add: get_put\<close>)
    then obtain k where k: "pipe_wait_loop io HOST_STREAM_TIMEOUT_MS (put ?u s) = Some (0, put k s)" "delivered ?u k"
      by (auto simp: get_put put_put)
    have nb: "pipe_next_bank io None (Pipe_ClearOUT io) s = Some (0, put k s)"
      using clear_out [OF u Cons.prems(2,3)] k(1) by (simp add: pipe_next_bank_def Pipe_WaitUntilReady_def)
    have fk: "hframe ?u k" using k(2) by (simp add: delivered_def)
    have pn: "p_num ((pcur (get s))\<lparr>p_full := True\<rparr>) = p_num (pcur (get s))" by (simp add: p_num_def)
    have dk: "p_fifo (pcur k) = []" "peer k = give dv (p_num (pcur (get s))) (p_fifo (pcur (get s))) (peer (get s))" "\<not> p_full (pcur k)"
      using k(2) by (simp_all add: delivered_def pn)
    have hk: "live k" "\<not> p_in (pcur k)" "h_size k = h_size (get s)" "p_num (pcur k) = p_num (pcur (get s))"
      using live_frame [OF Cons.prems(1) hframe_trans [OF f fk]] hframe_pcur [OF hframe_trans [OF f fk]] Cons.prems(2) by simp_all
    from step [of "put k s"] hk dk Cons.prems(4) obtain l where l:
      "write_pipe_loop io None (b # bytes) (put k s) = Some (0, put l s)" "hframe k l" "\<not> p_full (pcur l)"
      "p_fifo (pcur l) = snd (pack (h_size (get s)) [b] bytes)"
      "peer l = fold (give dv (p_num (pcur (get s)))) (fst (pack (h_size (get s)) [b] bytes)) (peer k)"
      by (auto simp: get_put put_put)
    have "write_pipe_loop io None (b # bytes) s = Some (0, put l s)"
      using l(1) by (subst write_pipe_loop.simps) (simp add: na nb)
    then show ?thesis
      using l False dk(2) hframe_trans [OF hframe_trans [OF f fk] l(2)] by (intro exI [of _ l]) simp
  qed
qed

text \<open>A stream and the release of its last packet.\<close>

lemma write_pipe_stream:
  assumes "live (get s)" "p_cfg0 (pcur (get s)) AND PIPE_TOKEN_MASK = PIPE_TOKEN_OUT" "\<not> p_full (pcur (get s))"
    "0 < h_size (get s)" "p_fifo (pcur (get s)) = []"
  shows "\<exists>k. Pipe_Write_Stream_LE io None bytes s = Some (0, put k s) \<and> hframe (get s) k \<and> \<not> p_full (pcur k) \<and>
    p_fifo (pcur k) = snd (pack (h_size (get s)) [] bytes) \<and>
    peer k = fold (give dv (p_num (pcur (get s)))) (fst (pack (h_size (get s)) [] bytes)) (peer (get s))"
proof -
  have o: "upnum (get s) \<noteq> 0" "\<not> p_in (pcur (get s))" using assms(1,2) by (simp_all add: live_def p_in_def)
  have "pipe_wait_loop io HOST_STREAM_TIMEOUT_MS s = Some (0, s)" using wait_over [OF o(1)] o(2) assms(3) by simp
  then show ?thesis
    using write_packets [OF assms(1) o(2) assms(3,4), of bytes] token_same [OF o(1) assms(2)] assms(5)
    by (simp add: Pipe_Write_Stream_LE_def Pipe_WaitUntilReady_def)
qed

end

end
