(* ===== verification/Serial_Host.thy ===== *)
theory Serial_Host
  imports Cdc_Host Host_Bus
begin

text \<open>
  The host's virtual serial port on the bus: in the locale \<open>pipe_bus\<close> polling the character stream
  gives the bytes of the packets the device has for the host, and strings go to the device in order.
\<close>

section \<open>What the driver leaves alone\<close>

text \<open>The driver has worked with pipe \<open>n\<close> only.\<close>

definition near :: "u8 \<Rightarrow> 'p hctl \<Rightarrow> 'p hctl \<Rightarrow> bool" where
  "near n h k \<longleftrightarrow> h_size k = h_size h \<and> h_state k = h_state h \<and> (\<forall>m. m \<noteq> n \<longrightarrow> pipes k m = pipes h m) \<and>
     p_cfg0 (pipes k n) = p_cfg0 (pipes h n) \<and> p_stall (pipes k n) = p_stall (pipes h n)"

lemma near_refl [simp]: "near n h h"
  by (simp add: near_def)

lemma near_trans: "near n h k \<Longrightarrow> near n k l \<Longrightarrow> near n h l"
  by (simp add: near_def)

lemma near_pipe: "near n h k \<Longrightarrow> p_in (pipes k n) = p_in (pipes h n) \<and> p_num (pipes k n) = p_num (pipes h n)"
  by (simp add: near_def p_in_def p_num_def)

lemma pipes_upd: "pipes (upd_pipe f h) m = (if m = upnum h then f (pipes h m) else pipes h m)"
  by (simp add: upd_pipe_def pcur_def)

lemma near_hframe: "near n h k \<Longrightarrow> hframe k l \<Longrightarrow> upnum k = n \<Longrightarrow> near n h l"
  by (auto simp: near_def hframe_def pcur_def)

text \<open>Selecting the pipe and letting it run, and freezing it again.\<close>

definition thaw :: "u8 \<Rightarrow> 'p hctl \<Rightarrow> 'p hctl" where
  "thaw n h = upd_pipe (\<lambda>e. e\<lparr>p_con := p_con e AND NOT (BV PFREEZE)\<rparr>) (h\<lparr>upnum := n\<rparr>)"

definition chill :: "'p hctl \<Rightarrow> 'p hctl" where
  "chill h = upd_pipe (\<lambda>e. e\<lparr>p_con := p_con e OR BV PFREEZE\<rparr>) h"

lemma thaw_simps [simp]: "upnum (thaw n h) = n" "peer (thaw n h) = peer h" "h_size (thaw n h) = h_size h"
  "h_state (thaw n h) = h_state h" "pcur (thaw n h) = (pipes h n)\<lparr>p_con := p_con (pipes h n) AND NOT (BV PFREEZE)\<rparr>"
  by (simp_all add: thaw_def)

lemma chill_simps [simp]: "upnum (chill h) = upnum h" "peer (chill h) = peer h" "h_size (chill h) = h_size h"
  "h_state (chill h) = h_state h" "pcur (chill h) = (pcur h)\<lparr>p_con := p_con (pcur h) OR BV PFREEZE\<rparr>"
  "pipes (chill h) (upnum h) = (pcur h)\<lparr>p_con := p_con (pcur h) OR BV PFREEZE\<rparr>"
  by (simp_all add: chill_def pipes_upd pcur_def)

lemma chill_pipe: "upnum h = n \<Longrightarrow> pipes (chill h) n = (pcur h)\<lparr>p_con := p_con (pcur h) OR BV PFREEZE\<rparr>"
  using chill_simps(6) [of h] by simp

lemma pipe_con [simp]: "p_in (e\<lparr>p_con := x\<rparr>) = p_in e" "p_num (e\<lparr>p_con := x\<rparr>) = p_num e"
  "p_frozen (e\<lparr>p_con := x\<rparr>) = bit x PFREEZE" "pipe_count (e\<lparr>p_con := x\<rparr>) = pipe_count e"
  by (simp_all add: p_in_def p_num_def p_frozen_def pipe_count_def)

lemma thawed [simp]: "\<not> p_frozen (pcur (thaw n h))"
  by (simp add: bit_simps)

lemma near_thaw: "near n h (thaw n h)" "upnum h = n \<Longrightarrow> near n h (chill h)"
  by (auto simp: near_def thaw_def chill_def pipes_upd)

context pipe_bus
begin

lemma use_pipe:
  assumes "n \<noteq> 0" "n \<le> 7"
  shows "Pipe_Unfreeze io (Pipe_SelectPipe io n s) = put (thaw n (get s)) s"
  using assms by (simp add: select_pipe freeze thaw_def get_put put_put)

lemma use_pipe_in:
  assumes "n \<noteq> 0" "n \<le> 7" "p_cfg0 (pipes (get s) n) AND PIPE_TOKEN_MASK = t"
  shows "Pipe_Unfreeze io (Pipe_SetPipeToken io t (Pipe_SelectPipe io n s)) = put (thaw n (get s)) s"
proof -
  have "Pipe_SetPipeToken io t (Pipe_SelectPipe io n s) = Pipe_SelectPipe io n s"
    by (rule token_same) (use assms in \<open>simp_all add: select_pipe get_put\<close>)
  then show ?thesis using use_pipe [OF assms(1,2)] by simp
qed

lemma leave_pipe: "upnum u \<noteq> 0 \<Longrightarrow> Pipe_Freeze io (put u s) = put (chill u) s"
  by (simp add: freeze chill_def get_put put_put)

lemma host_ready_to_use: "host_active io a s = (h_state (get s) = HOST_STATE_Configured \<and> a, s)"
  by (simp add: host_active_def host_state)

end

section \<open>Receiving\<close>

text \<open>The port is open and its IN pipe set up.\<close>

definition rx_port :: "CDC_Host_Config \<Rightarrow> CDC_Host_State \<Rightarrow> 'p hctl \<Rightarrow> bool" where
  "rx_port c d h \<longleftrightarrow> IsActive d \<and> h_state h = HOST_STATE_Configured \<and> DataINPipeNumber c \<noteq> 0 \<and> DataINPipeNumber c \<le> 7 \<and>
     p_in (pipes h (DataINPipeNumber c))"

lemma rx_port_near: "rx_port c d h \<Longrightarrow> near (DataINPipeNumber c) h k \<Longrightarrow> rx_port c d k"
  using near_pipe [of "DataINPipeNumber c" h k] by (simp add: rx_port_def near_def)

text \<open>The packets \<open>ps\<close>, the first of them in the bank if it is full, are what the device has for the pipe.\<close>

definition incoming :: "'p device \<Rightarrow> u8 \<Rightarrow> 'p hctl \<Rightarrow> u8 list list \<Rightarrow> 'p \<Rightarrow> bool" where
  "incoming dv n h ps c \<longleftrightarrow> (\<forall>p\<in>set ps. length p < 65536) \<and>
     (if p_full (pipes h n) then \<exists>qs. ps = p_fifo (pipes h n) # qs \<and> supplies dv (p_num (pipes h n)) (peer h) qs c
      else supplies dv (p_num (pipes h n)) (peer h) ps c)"

text \<open>What a poll finds: a byte, or nothing while a packet comes in or an empty one is dropped.\<close>

definition poll_step :: "bool \<Rightarrow> u8 list list \<Rightarrow> u8 option \<Rightarrow> bool \<Rightarrow> u8 list list \<Rightarrow> bool" where
  "poll_step full ps r full' qs \<longleftrightarrow>
     (if \<not> full then r = None \<and> full' \<and> qs = ps
      else case ps of
             (b # b' # p) # rest \<Rightarrow> r = Some b \<and> full' \<and> qs = (b' # p) # rest
           | [b] # rest \<Rightarrow> r = Some b \<and> \<not> full' \<and> qs = rest
           | [] # rest \<Rightarrow> r = None \<and> \<not> full' \<and> qs = rest
           | [] \<Rightarrow> False)"

context pipe_bus
begin

lemma poll_empty:
  assumes "rx_port c d (get s)" "n = DataINPipeNumber c" "\<not> p_full (pipes (get s) n)" "incoming dv n (get s) (p # ps) e"
  shows "\<exists>k. CDC_Host_getchar io c d s = (None, put k s) \<and> near n (get s) k \<and> p_full (pipes k n) \<and> incoming dv n k (p # ps) e"
proof -
  let ?h = "thaw n (get s)"
  have n: "n \<noteq> 0" "n \<le> 7" "p_in (pipes (get s) n)" using assms(1,2) by (simp_all add: rx_port_def)
  obtain b where b: "ask dv (p_num (pipes (get s) n)) (peer (get s)) = (Some p, b)" "supplies dv (p_num (pipes (get s) n)) b ps e"
    using assms(3,4) by (auto simp: incoming_def)
  have t: "turn dv ?h = (upd_pipe (\<lambda>e. e\<lparr>p_fifo := p, p_full := True\<rparr>) ?h)\<lparr>peer := b\<rparr>"
    using turn_ask [of ?h dv "Some p" b] assms(3) b(1) n(3) by (simp add: bit_simps)
  have nk: "near n (get s) (turn dv ?h)" by (rule near_hframe [OF near_thaw(1) hframe_turn]) simp
  have u: "upnum (turn dv ?h) = n" by simp
  have "CDC_Host_getchar io c d s = (None, put (chill (turn dv ?h)) s)"
    using assms(1-3) n use_pipe_in [OF n(1,2), of s PIPE_TOKEN_IN] in_received [of "put ?h s"]
      leave_pipe [of "turn dv ?h" "put ?h s"]
    by (simp add: CDC_Host_getchar_def CDC_Host_BytesReceived_def host_ready_to_use rx_port_def p_in_def get_put put_put)
  moreover have "near n (get s) (chill (turn dv ?h))" using near_trans [OF nk near_thaw(2) [OF u]] .
  moreover have "pcur (turn dv ?h) = (pipes (get s) n)\<lparr>p_con := p_con (pipes (get s) n) AND NOT (BV PFREEZE), p_fifo := p, p_full := True\<rparr>"
    "peer (turn dv ?h) = b" by (simp_all add: t)
  moreover have "p_num (pipes (chill (turn dv ?h)) n) = p_num (pipes (get s) n)" using near_pipe [OF calculation(2)] by simp
  ultimately show ?thesis
    using assms(4) b(2) chill_simps(6) [of "turn dv ?h"] by (intro exI [of _ "chill (turn dv ?h)"]) (simp add: incoming_def)
qed

lemma thaw_again: "thaw n (chill (thaw n h)) = thaw n h"
proof -
  have "((x AND NOT m) OR m) AND NOT m = x AND NOT m" for x m :: u8 by (rule bit_word_eqI) (auto simp: bit_simps)
  then show ?thesis by (simp add: thaw_def chill_def upd_pipe_def pcur_def)
qed

lemma count_zero: "length p < 65536 \<Longrightarrow> (of_nat (length p) :: u16) = 0 \<longleftrightarrow> p = []"
  by (simp add: word_of_nat_eq_0_iff) (metis dvd_imp_le leD length_greater_0_conv dvd_0_right list.size(3))

lemma poll_dropped:
  assumes "rx_port c d (get s)" "n = DataINPipeNumber c" "p_full (pipes (get s) n)" "incoming dv n (get s) ([] # ps) e"
  shows "\<exists>k. CDC_Host_getchar io c d s = (None, put k s) \<and> near n (get s) k \<and> \<not> p_full (pipes k n) \<and> incoming dv n k ps e"
proof -
  let ?h = "thaw n (get s)" and ?k = "upd_pipe (\<lambda>e. e\<lparr>p_fifo := [], p_full := False\<rparr>) (thaw n (get s))"
  have n: "n \<noteq> 0" "n \<le> 7" "p_in (pipes (get s) n)" using assms(1,2) by (simp_all add: rx_port_def)
  have port: "IsActive d" "h_state (get s) = HOST_STATE_Configured" "DataINPipeNumber c = n"
    using assms(1,2) by (simp_all add: rx_port_def)
  have f: "p_fifo (pipes (get s) n) = []" "supplies dv (p_num (pipes (get s) n)) (peer (get s)) ps e"
    using assms(3,4) by (simp_all add: incoming_def)
  have t: "turn dv ?h = ?h" using assms(3) n(3) by (simp add: turn_idle)
  have cl: "Pipe_ClearIN io (put ?h s) = put ?k s"
    using clear_in [of "put ?h s"] n assms(3) by (simp add: get_put put_put)
  have b: "Pipe_BytesInPipe io (put ?h s) = (0, put ?h s)" "Pipe_BytesInPipe io (put ?k s) = (0, put ?k s)"
    using pipe_bytes [of "put ?h s"] pipe_bytes [of "put ?k s"] n f(1) by (simp_all add: get_put pipe_count_def)
  have fr: "Pipe_Freeze io (put ?k s) = put (chill ?k) s" by (rule leave_pipe) (simp add: n)
  have "near n (get s) ?k" by (rule near_hframe [OF near_thaw(1) hframe_pipe]) simp_all
  then have nk: "near n (get s) (chill ?k)" by (rule near_trans [OF _ near_thaw(2)]) simp
  have "CDC_Host_getchar io c d s = (None, put (chill ?k) s)"
    using assms(3) n port use_pipe_in [OF n(1,2), of s PIPE_TOKEN_IN] in_received [of "put ?h s"] t
    by (simp add: CDC_Host_getchar_def CDC_Host_BytesReceived_def host_ready_to_use p_in_def get_put put_put b cl fr)
  moreover have "p_num (pipes (chill ?k) n) = p_num (pipes (get s) n)" using near_pipe [OF nk] by simp
  moreover have "\<not> p_full (pipes (chill ?k) n)" "peer (chill ?k) = peer (get s)"
    using chill_simps(6) [of ?k] by simp_all
  ultimately show ?thesis using nk f(2) assms(4) by (intro exI [of _ "chill ?k"]) (simp add: incoming_def)
qed

lemma poll_byte:
  assumes "rx_port c d (get s)" "n = DataINPipeNumber c" "p_full (pipes (get s) n)" "incoming dv n (get s) ((b # p) # ps) e"
  shows "\<exists>k. CDC_Host_getchar io c d s = (Some b, put k s) \<and> near n (get s) k \<and>
    (if p = [] then \<not> p_full (pipes k n) \<and> incoming dv n k ps e else p_full (pipes k n) \<and> incoming dv n k (p # ps) e)"
proof -
  let ?h = "thaw n (get s)" and ?r = "upd_pipe (\<lambda>e. e\<lparr>p_fifo := p\<rparr>) (thaw n (get s))"
  let ?k = "if p = [] then upd_pipe (\<lambda>e. e\<lparr>p_fifo := [], p_full := False\<rparr>) ?r else ?r"
  have n: "n \<noteq> 0" "n \<le> 7" "p_in (pipes (get s) n)" using assms(1,2) by (simp_all add: rx_port_def)
  have len: "\<forall>q\<in>set ((b # p) # ps). length q < 65536" using assms(4) unfolding incoming_def by (rule conjunct1)
  have "p_fifo (pipes (get s) n) = b # p" "supplies dv (p_num (pipes (get s) n)) (peer (get s)) ps e"
    using assms(3,4) by (simp_all add: incoming_def)
  moreover have "length (b # p) < 65536" "\<forall>q\<in>set ps. length q < 65536" using len by simp_all
  ultimately have f: "p_fifo (pipes (get s) n) = b # p" "length (b # p) < 65536"
    "supplies dv (p_num (pipes (get s) n)) (peer (get s)) ps e" "\<forall>q\<in>set ps. length q < 65536" by blast+
  have port: "IsActive d" "h_state (get s) = HOST_STATE_Configured" "DataINPipeNumber c = n"
    using assms(1,2) by (simp_all add: rx_port_def)
  have t: "turn dv ?h = ?h" using assms(3) n(3) by (simp add: turn_idle)
  have cnt: "Pipe_BytesInPipe io (put ?h s) = (of_nat (length (b # p)), put ?h s)"
    "Pipe_BytesInPipe io (put ?r s) = (of_nat (length p), put ?r s)"
    using pipe_bytes [of "put ?h s"] pipe_bytes [of "put ?r s"] n f(1,2) assms(3) by (simp_all add: get_put pipe_count_def p_in_def)
  have z: "(of_nat (length (b # p)) :: u16) \<noteq> 0" "(of_nat (length p) :: u16) = 0 \<longleftrightarrow> p = []"
    using count_zero [of "b # p"] count_zero [of p] f(2) by simp_all
  have rd: "Pipe_Read_Byte io (put ?h s) = (b, put ?r s)"
    using n(1) f(1) by (simp add: Pipe_Read_Byte_def rd_pipe pipe_regs_def host_rd_def get_put put_put)
  have "Pipe_ClearIN io (put ?r s) = put (upd_pipe (\<lambda>e. e\<lparr>p_fifo := [], p_full := False\<rparr>) ?r) s"
    using clear_in [of "put ?r s"] n assms(3) by (simp add: get_put put_put p_in_def)
  then have cl: "(if of_nat (length p) = (0 :: u16) then Pipe_ClearIN io (put ?r s) else put ?r s) = put ?k s"
    using z(2) by (cases "p = []") simp_all
  have rec: "CDC_Host_BytesReceived io c d s = (of_nat (length (b # p)), put (chill ?h) s)"
    using assms(3) n port use_pipe_in [OF n(1,2), of s PIPE_TOKEN_IN] in_received [of "put ?h s"] t cnt(1) z(1) leave_pipe [of ?h s]
    by (simp add: CDC_Host_BytesReceived_def host_ready_to_use p_in_def get_put put_put del: of_nat_Suc)
  have "rx_port c d (chill ?h)"
    by (rule rx_port_near [OF assms(1)]) (use near_trans [OF near_thaw(1) near_thaw(2)] assms(2) in simp)
  then have up: "Pipe_Unfreeze io (Pipe_SetPipeToken io PIPE_TOKEN_IN (Pipe_SelectPipe io n (put (chill ?h) s))) = put ?h s"
    using use_pipe_in [OF n(1,2), of "put (chill ?h) s" PIPE_TOKEN_IN] assms(2)
    by (simp add: rx_port_def p_in_def get_put put_put thaw_again)
  have "upnum ?k \<noteq> 0" using n(1) by simp
  then have fr: "Pipe_Freeze io (if of_nat (length p) = (0 :: u16) then Pipe_ClearIN io (put ?r s) else put ?r s) = put (chill ?k) s"
    unfolding cl by (rule leave_pipe)
  have byte: "CDC_Host_ReceiveByte io c d (put (chill ?h) s) = (b, put (chill ?k) s)"
    using port by (simp add: CDC_Host_ReceiveByte_def host_ready_to_use get_put up rd cnt(2) fr del: if_split)
  have "near n (get s) ?r" by (rule near_hframe [OF near_thaw(1) hframe_pipe]) simp_all
  then have "near n (get s) ?k"
    using near_hframe [of n "get s" ?r, OF _ hframe_pipe] by (cases "p = []") simp_all
  then have nk: "near n (get s) (chill ?k)" by (rule near_trans [OF _ near_thaw(2)]) simp
  have "CDC_Host_getchar io c d s = (Some b, put (chill ?k) s)"
    using rec byte z(1) by (simp add: CDC_Host_getchar_def del: of_nat_Suc)
  moreover have "p_num (pipes (chill ?k) n) = p_num (pipes (get s) n)" using near_pipe [OF nk] by simp
  moreover have "peer (chill ?k) = peer (get s)" by simp
  moreover have "upnum ?k = n" by simp
  then have "p_fifo (pipes (chill ?k) n) = p" "p_full (pipes (chill ?k) n) \<longleftrightarrow> p \<noteq> []"
    using assms(3) by (cases "p = []"; simp add: chill_pipe)+
  ultimately show ?thesis using nk f(2-4) by (intro exI [of _ "chill ?k"]) (auto simp: incoming_def)
qed

text \<open>One poll, and any number of them.\<close>

lemma one_poll:
  assumes "rx_port c d (get s)" "n = DataINPipeNumber c" "incoming dv n (get s) ps e" "ps \<noteq> []"
  shows "\<exists>r k qs. CDC_Host_getchar io c d s = (r, put k s) \<and> near n (get s) k \<and> incoming dv n k qs e \<and>
    poll_step (p_full (pipes (get s) n)) ps r (p_full (pipes k n)) qs"
proof (cases "p_full (pipes (get s) n)")
  case False
  obtain p qs where "ps = p # qs" using assms(4) by (cases ps) auto
  then show ?thesis using poll_empty [OF assms(1,2) False, of p qs e] assms(3) False by (auto simp: poll_step_def)
next
  case full: True
  obtain p qs where p: "ps = p # qs" using assms(4) by (cases ps) auto
  show ?thesis
  proof (cases p)
    case Nil
    then show ?thesis using poll_dropped [OF assms(1,2) full, of qs e] assms(3) p full by (fastforce simp: poll_step_def)
  next
    case (Cons b rest)
    show ?thesis
    proof (cases rest)
      case Nil
      then show ?thesis using poll_byte [OF assms(1,2) full, of b rest qs e] assms(3) p Cons full by (fastforce simp: poll_step_def)
    next
      case (Cons b' rest')
      then show ?thesis
        using poll_byte [OF assms(1,2) full, of b rest qs e] assms(3) p \<open>p = b # rest\<close> full by (fastforce simp: poll_step_def)
    qed
  qed
qed

end

text \<open>How many polls it takes to get the bytes of all packets.\<close>

fun polls :: "bool \<Rightarrow> u8 list list \<Rightarrow> nat" where
  "polls full [] = 0"
| "polls full (p # ps) = (if full then 0 else 1) + max 1 (length p) + polls False ps"

lemma poll_step_polls: "poll_step full ps r full' qs \<Longrightarrow> ps \<noteq> [] \<Longrightarrow>
   polls full ps = Suc (polls full' qs) \<and> concat ps = (case r of None \<Rightarrow> [] | Some b \<Rightarrow> [b]) @ concat qs"
  by (cases ps; cases full; cases "hd ps"; cases "tl (hd ps)") (auto simp: poll_step_def)

text \<open>An application that polls the character stream.\<close>

fun host_chars :: "'h hio \<Rightarrow> CDC_Host_Config \<Rightarrow> CDC_Host_State \<Rightarrow> nat \<Rightarrow> 'h \<Rightarrow> u8 list \<times> 'h" where
  "host_chars io c d 0 s = ([], s)"
| "host_chars io c d (Suc k) s =
     (let (r, s) = CDC_Host_getchar io c d s; (bs, s) = host_chars io c d k s
      in (case r of None \<Rightarrow> bs | Some b \<Rightarrow> b # bs, s))"

context pipe_bus
begin

lemma host_chars:
  assumes "rx_port c d (get s)" "n = DataINPipeNumber c" "incoming dv n (get s) ps e"
  shows "\<exists>k. host_chars io c d (polls (p_full (pipes (get s) n)) ps) s = (concat ps, put k s) \<and> near n (get s) k \<and>
    incoming dv n k [] e"
  using assms
proof (induction "polls (p_full (pipes (get s) n)) ps" arbitrary: ps s)
  case 0
  then have "ps = []" by (cases ps) auto
  then show ?case using 0 by (auto simp: put_get intro!: exI [of _ "get s"])
next
  case (Suc m)
  then have ne: "ps \<noteq> []" by auto
  obtain r k qs where k: "CDC_Host_getchar io c d s = (r, put k s)" "near n (get s) k" "incoming dv n k qs e"
    "poll_step (p_full (pipes (get s) n)) ps r (p_full (pipes k n)) qs"
    using one_poll [OF Suc.prems ne] by blast
  note p = poll_step_polls [OF k(4) ne]
  have m: "m = polls (p_full (pipes (get (put k s)) n)) qs" using p Suc.hyps(2) by (simp add: get_put)
  have "rx_port c d (get (put k s))" using rx_port_near [OF Suc.prems(1)] k(2) Suc.prems(2) by (simp add: get_put)
  from Suc.hyps(1) [OF m this Suc.prems(2)] k(3) obtain l where l:
    "host_chars io c d m (put k s) = (concat qs, put l s)" "near n k l" "incoming dv n l [] e"
    using m by (auto simp: get_put put_put)
  have "host_chars io c d (Suc m) s = (concat ps, put l s)" using k(1) l(1) p by (cases r) simp_all
  moreover have "near n (get s) l" by (rule near_trans [OF k(2) l(2)])
  ultimately show ?case using l(3) unfolding Suc.hyps(2) [symmetric] by blast
qed

end

section \<open>Sending\<close>

text \<open>The port is open and its OUT pipe set up.\<close>

definition tx_port :: "CDC_Host_Config \<Rightarrow> CDC_Host_State \<Rightarrow> 'p hctl \<Rightarrow> bool" where
  "tx_port c d h \<longleftrightarrow> IsActive d \<and> h_state h = HOST_STATE_Configured \<and> DataOUTPipeNumber c \<noteq> 0 \<and> DataOUTPipeNumber c \<le> 7 \<and>
     p_cfg0 (pipes h (DataOUTPipeNumber c)) AND PIPE_TOKEN_MASK = PIPE_TOKEN_OUT \<and> \<not> p_stall (pipes h (DataOUTPipeNumber c)) \<and>
     0 < h_size h \<and> h_size h < 65536 \<and> length (p_fifo (pipes h (DataOUTPipeNumber c))) \<le> h_size h"

text \<open>
  Bytes move from memory to the device: the packets \<open>ps\<close> are given to it, and what the bank of the
  pipe holds then is the rest.
\<close>

definition moves :: "'p device \<Rightarrow> u8 \<Rightarrow> 'p hctl \<Rightarrow> u8 list \<Rightarrow> u8 list list \<Rightarrow> 'p hctl \<Rightarrow> bool" where
  "moves dv n h bs ps k \<longleftrightarrow> near n h k \<and> length (p_fifo (pipes k n)) \<le> h_size h \<and> (\<forall>p\<in>set ps. length p \<le> h_size h) \<and>
     peer k = fold (give dv (p_num (pipes h n))) ps (peer h) \<and> concat ps @ p_fifo (pipes k n) = p_fifo (pipes h n) @ bs"

lemma moves_port: "tx_port c d h \<Longrightarrow> moves dv (DataOUTPipeNumber c) h bs ps k \<Longrightarrow> tx_port c d k"
  by (simp add: tx_port_def moves_def near_def)

lemma moves_trans: "moves dv n h bs ps k \<Longrightarrow> moves dv n k cs qs l \<Longrightarrow> moves dv n h (bs @ cs) (ps @ qs) l"
  using near_pipe [of n h k] near_trans [of n h k l]
  by (auto simp: moves_def near_def)

lemma moves_chill: "moves dv n h bs ps k \<Longrightarrow> upnum k = n \<Longrightarrow> moves dv n h bs ps (chill k)"
  using near_trans [of n h k "chill k"] near_thaw(2) [of k n] by (simp add: moves_def chill_pipe pcur_def)

context pipe_bus
begin

lemma tx_live:
  assumes "tx_port c d h" "n = DataOUTPipeNumber c"
  shows "live (thaw n h)" "\<not> p_in (pcur (thaw n h))" "n \<noteq> 0" "n \<le> 7" "p_num (pcur (thaw n h)) = p_num (pipes h n)"
  using assms by (simp_all add: tx_port_def live_def p_in_def bit_simps)

text \<open>A wait for the OUT pipe sends the packet that is in the bank, if there is one.\<close>

lemma send_waiting:
  assumes "tx_port c d (get s)" "n = DataOUTPipeNumber c"
  shows "\<exists>k ps. Pipe_WaitUntilReady io (put (thaw n (get s)) s) = Some (0, put k s) \<and> delivered (thaw n (get s)) k \<and>
    moves dv n (get s) [] ps k"
proof -
  let ?h = "thaw n (get s)"
  note t = tx_live [OF assms]
  have lv: "live (get (put ?h s))" "\<not> p_in (pcur (get (put ?h s)))" "0 < HOST_STREAM_TIMEOUT_MS"
    using t(1,2) by (simp_all only: get_put) simp
  obtain k where k: "pipe_wait_loop io HOST_STREAM_TIMEOUT_MS (put ?h s) = Some (0, put k s)" "delivered ?h k"
    using wait_out [OF lv] by (auto simp: get_put put_put)
  have nk: "near n (get s) k" by (rule near_hframe [OF near_thaw(1), where l = k]) (use k(2) in \<open>simp_all add: delivered_def\<close>)
  have pk: "pipes k n = pcur k" using k(2) hframe_pcur [of ?h k] by (simp add: delivered_def pcur_def)
  have "moves dv n (get s) [] (if p_full (pipes (get s) n) then [p_fifo (pipes (get s) n)] else []) k"
    using k(2) nk pk assms by (simp add: moves_def delivered_def tx_port_def split: if_splits)
  then show ?thesis using k by (auto simp: Pipe_WaitUntilReady_def)
qed

lemma send_string:
  assumes "tx_port c d (get s)" "n = DataOUTPipeNumber c"
  shows "\<exists>k ps. CDC_Host_SendString io c d bytes s = Some (0, put k s) \<and> moves dv n (get s) bytes ps k \<and> \<not> p_full (pipes k n) \<and>
    (p_full (pipes (get s) n) \<or> p_fifo (pipes (get s) n) = [] \<longrightarrow> length (p_fifo (pipes k n)) \<le> length bytes)"
proof -
  let ?h = "thaw n (get s)"
  note t = tx_live [OF assms]
  obtain k ps where k: "Pipe_WaitUntilReady io (put ?h s) = Some (0, put k s)" "delivered ?h k" "moves dv n (get s) [] ps k"
    using send_waiting [OF assms] by blast
  have f: "hframe ?h k" "\<not> p_full (pcur k)" using k(2) by (simp_all add: delivered_def)
  have g: "upnum k = n" "\<not> p_in (pcur k)" "h_size k = h_size (get s)" "p_num (pcur k) = p_num (pipes (get s) n)"
    using hframe_pcur [OF f(1)] t(2,5) by simp_all
  then have pk: "pipes k n = pcur k" by (simp add: pcur_def)
  have pre: "live (get (put k s))" "\<not> p_in (pcur (get (put k s)))" "\<not> p_full (pcur (get (put k s)))" "0 < h_size (get (put k s))"
    "length (p_fifo (pcur (get (put k s)))) \<le> h_size (get (put k s))"
    using live_frame [OF t(1) f(1)] g pk f(2) assms(1) k(3) by (simp_all add: get_put tx_port_def moves_def)
  obtain l where l: "write_pipe_loop io None bytes (put k s) = Some (0, put l s)" "hframe k l" "\<not> p_full (pcur l)"
    "p_fifo (pcur l) = snd (pack (h_size k) (p_fifo (pcur k)) bytes)"
    "peer l = fold (give dv (p_num (pcur k))) (fst (pack (h_size k) (p_fifo (pcur k)) bytes)) (peer k)"
    using write_packets [OF pre, of bytes] by (auto simp: get_put put_put)
  have ul: "upnum l = n" "pipes l n = pcur l" using hframe_pcur [OF l(2)] g(1) by (simp_all add: pcur_def)
  have "near n k l" by (rule near_hframe [OF near_refl l(2) g(1)])
  then have "moves dv n k bytes (fst (pack (h_size k) (p_fifo (pcur k)) bytes)) l"
    using l(4,5) ul(2) g pk pack_concat [of "h_size k" "p_fifo (pcur k)" bytes] pre(4,5)
      pack_size [of "h_size k" "p_fifo (pcur k)" bytes]
    by (simp add: moves_def get_put)
  then have m: "moves dv n (get s) bytes (ps @ fst (pack (h_size k) (p_fifo (pcur k)) bytes)) (chill l)"
    using moves_trans [OF k(3)] moves_chill [OF _ ul(1)] by (metis append_Nil)
  have "p_cfg0 (pcur (get (put ?h s))) AND PIPE_TOKEN_MASK = PIPE_TOKEN_OUT" "upnum (get (put ?h s)) \<noteq> 0"
    using assms t(3) by (simp_all add: tx_port_def get_put)
  then have "Pipe_SetPipeToken io PIPE_TOKEN_OUT (put ?h s) = put ?h s" by (intro token_same)
  then have "Pipe_Write_Stream_LE io None bytes (put ?h s) = Some (0, put l s)"
    using k(1) l(1) by (simp add: Pipe_Write_Stream_LE_def)
  moreover have "Pipe_Freeze io (put l s) = put (chill l) s" by (rule leave_pipe) (simp add: ul(1) t(3))
  moreover have "Pipe_Unfreeze io (Pipe_SelectPipe io n s) = put ?h s" by (rule use_pipe [OF t(3,4)])
  ultimately have "CDC_Host_SendString io c d bytes s = Some (0, put (chill l) s)"
    using assms by (simp add: CDC_Host_SendString_def host_ready_to_use tx_port_def)
  moreover have "\<not> p_full (pipes (chill l) n)" "p_fifo (pipes (chill l) n) = p_fifo (pcur l)" using l(3) chill_pipe [OF ul(1)] by simp_all
  moreover have "length (p_fifo (pcur l)) \<le> length bytes" if "p_full (pipes (get s) n) \<or> p_fifo (pipes (get s) n) = []"
  proof -
    have "p_fifo (pcur k) = []" using k(2) that by (auto simp: delivered_def split: if_splits)
    then show ?thesis using l(4) arg_cong [OF pack_concat [of "h_size k" "p_fifo (pcur k)" bytes], of length] by simp
  qed
  ultimately show ?thesis using m by (intro exI [of _ "chill l"] exI conjI) (assumption | simp)+
qed

text \<open>Handing the bank over.\<close>

lemma moves_release:
  assumes "moves dv n h bs ps k" "upnum k = n"
  shows "moves dv n h bs ps (upd_pipe (\<lambda>e. e\<lparr>p_full := True\<rparr>) k)"
proof -
  have "near n h (upd_pipe (\<lambda>e. e\<lparr>p_full := True\<rparr>) k)"
    by (rule near_hframe [OF _ hframe_pipe assms(2)]) (use assms(1) in \<open>simp_all add: moves_def\<close>)
  then show ?thesis using assms by (simp add: moves_def pipes_upd)
qed

lemma flush_idle:
  assumes "tx_port c d (get s)" "n = DataOUTPipeNumber c" "p_full (pipes (get s) n) \<or> p_fifo (pipes (get s) n) = []"
  shows "CDC_Host_Flush io c d s = Some (0, put (thaw n (get s)) s)" "moves dv n (get s) [] [] (thaw n (get s))"
proof -
  note t = tx_live [OF assms(1,2)]
  have z: "pipe_count (pcur (thaw n (get s))) = 0" using assms(3) t(2) by (auto simp: pipe_count_def)
  have "Pipe_BytesInPipe io (put (thaw n (get s)) s) = (0, put (thaw n (get s)) s)"
    using pipe_bytes [of "put (thaw n (get s)) s"] t(3) z by (simp add: get_put del: thaw_simps(5)) 
  then show "CDC_Host_Flush io c d s = Some (0, put (thaw n (get s)) s)"
    using assms(1,2) t(3,4) by (simp add: CDC_Host_Flush_def host_ready_to_use tx_port_def use_pipe)
  have "pipes (thaw n (get s)) n = pcur (thaw n (get s))" by (simp add: pcur_def [of "thaw n (get s)"] del: thaw_simps(5))
  then show "moves dv n (get s) [] [] (thaw n (get s))"
    using near_thaw(1) [of n "get s"] assms(1,2) by (simp add: moves_def tx_port_def)
qed

lemma flush_bank:
  assumes "tx_port c d (get s)" "n = DataOUTPipeNumber c" "\<not> p_full (pipes (get s) n)" "p_fifo (pipes (get s) n) \<noteq> []"
  shows "\<exists>k ps. CDC_Host_Flush io c d s = Some (0, put k s) \<and> moves dv n (get s) [] ps k \<and> p_full (pipes k n)"
proof -
  let ?h = "thaw n (get s)" and ?r = "upd_pipe (\<lambda>e. e\<lparr>p_full := True\<rparr>)"
  note t = tx_live [OF assms(1,2)]
  have port: "IsActive d" "h_state (get s) = HOST_STATE_Configured" "DataOUTPipeNumber c = n" "h_size (get s) < 65536"
    "length (p_fifo (pipes (get s) n)) \<le> h_size (get s)" using assms(1,2) by (simp_all add: tx_port_def)
  have len: "length (p_fifo (pipes (get s) n)) < 65536" using port(4,5) by simp
  have hn: "pipes ?h n = pcur ?h" by (simp add: pcur_def [of ?h] del: thaw_simps(5))
  have mh: "moves dv n (get s) [] [] ?h"
    using near_thaw(1) [of n "get s"] port hn by (simp add: moves_def)
  have i: "\<not> p_in (pipes (get s) n)" using t(2) by simp
  have u: "upnum (get (put ?h s)) \<noteq> 0" using t(3) by (simp add: get_put)
  have cnt: "Pipe_BytesInPipe io (put ?h s) = (of_nat (length (p_fifo (pipes (get s) n))), put ?h s)"
    using pipe_bytes [OF u] i assms(3) len by (simp add: get_put pipe_count_def)
  have nz: "(of_nat (length (p_fifo (pipes (get s) n))) :: u16) \<noteq> 0" using count_zero [OF len] assms(4) by simp
  have td: "turn dv ?h = ?h" using i assms(3) by (simp add: turn_idle)
  have rwa: "Pipe_IsReadWriteAllowed io (put ?h s) = (length (p_fifo (pipes (get s) n)) < h_size (get s), put ?h s)"
    using rw_allowed [OF u] i assms(3) td by (simp add: get_put put_put)
  have co: "Pipe_ClearOUT io (put ?h s) = put (?r ?h) s"
    using clear_out [OF u] i assms(3) by (simp add: get_put put_put)
  have mr: "moves dv n (get s) [] [] (?r ?h)" by (rule moves_release [OF mh]) simp
  show ?thesis
  proof (cases "length (p_fifo (pipes (get s) n)) < h_size (get s)")
    case True
    have "Pipe_Freeze io (put (?r ?h) s) = put (chill (?r ?h)) s" by (rule leave_pipe) (simp add: t(3))
    then have "CDC_Host_Flush io c d s = Some (0, put (chill (?r ?h)) s)"
      using port(1-3) True use_pipe [OF t(3,4)] cnt nz rwa co by (simp add: CDC_Host_Flush_def host_ready_to_use)
    moreover have "moves dv n (get s) [] [] (chill (?r ?h))" by (rule moves_chill [OF mr]) simp
    moreover have "p_full (pipes (chill (?r ?h)) n)" by (simp add: chill_pipe)
    ultimately show ?thesis by blast
  next
    case False
    have f1: "hframe ?h (?r ?h)" by (rule hframe_pipe) simp_all
    have w: "live (get (put (?r ?h) s))" "\<not> p_in (pcur (get (put (?r ?h) s)))" "0 < HOST_STREAM_TIMEOUT_MS"
      using live_frame [OF t(1) f1] hframe_pcur [OF f1] t(2) by (simp_all only: get_put) simp
    obtain k where k: "pipe_wait_loop io HOST_STREAM_TIMEOUT_MS (put (?r ?h) s) = Some (0, put k s)" "delivered (?r ?h) k"
      using wait_out [OF w] by (auto simp: get_put put_put)
    have f2: "hframe (?r ?h) k" "\<not> p_full (pcur k)" using k(2) by (simp_all add: delivered_def)
    have g: "upnum k = n" "\<not> p_in (pcur k)" "p_num (pcur k) = p_num (pipes (get s) n)"
      using hframe_pcur [OF hframe_trans [OF f1 f2(1)]] t(2,5) by simp_all
    then have pk: "pipes k n = pcur k" by (simp add: pcur_def)
    have "near n (get s) k" by (rule near_hframe [OF near_thaw(1) hframe_trans [OF f1 f2(1)]]) simp
    then have mk: "moves dv n (get s) [] [p_fifo (pipes (get s) n)] k"
      using k(2) pk i port(5) by (simp add: moves_def delivered_def p_num_def)
    have co2: "Pipe_ClearOUT io (put k s) = put (?r k) s"
      using clear_out [of "put k s"] g f2(2) t(3) by (simp add: get_put put_put)
    have "Pipe_Freeze io (put (?r k) s) = put (chill (?r k)) s" by (rule leave_pipe) (simp add: t(3) g(1))
    then have "CDC_Host_Flush io c d s = Some (0, put (chill (?r k)) s)"
      using port(1-3) False use_pipe [OF t(3,4)] cnt nz rwa co co2 k(1)
      by (simp add: CDC_Host_Flush_def host_ready_to_use Pipe_WaitUntilReady_def)
    moreover have "moves dv n (get s) [] [p_fifo (pipes (get s) n)] (chill (?r k))"
      by (rule moves_chill [OF moves_release [OF mk g(1)]]) (simp add: g(1))
    moreover have "p_full (pipes (chill (?r k)) n)" by (simp add: chill_pipe g(1))
    ultimately show ?thesis by blast
  qed
qed

lemma host_flush:
  assumes "tx_port c d (get s)" "n = DataOUTPipeNumber c"
  shows "\<exists>k ps. CDC_Host_Flush io c d s = Some (0, put k s) \<and> moves dv n (get s) [] ps k \<and>
    (p_full (pipes k n) \<or> p_fifo (pipes k n) = [])"
proof (cases "p_full (pipes (get s) n) \<or> p_fifo (pipes (get s) n) = []")
  case True
  have "pipes (thaw n (get s)) n = pcur (thaw n (get s))" by (simp add: pcur_def [of "thaw n (get s)"] del: thaw_simps(5))
  then show ?thesis using flush_idle [OF assms True] True by (intro exI [of _ "thaw n (get s)"] exI [of _ "[]"]) simp
next
  case False
  then show ?thesis using flush_bank [OF assms] by blast
qed

end

end
