(* ===== verification/Ms_Host.thy ===== *)
theory Ms_Host
  imports Host_Task
begin

text \<open>
  The host-mode mass storage class driver, \<open>LUFA/Drivers/USB/Class/Host/MassStorage.c\<close> and
  \<open>MassStorage.h\<close>, over the wrappers of \<open>Class/Common/MassStorage.h\<close> it shares with the device.
  Buffers in memory are byte lists; the structures the stream functions fill are given as their bytes.
\<close>

section \<open>The interface structure\<close>

record MS_Host =
  DataINPipeNumber :: u8
  DataINPipeDoubleBank :: bool
  DataOUTPipeNumber :: u8
  DataOUTPipeDoubleBank :: bool
  IsActive :: bool
  HostInterfaceNumber :: u8
  DataINPipeSize :: u16
  DataOUTPipeSize :: u16
  TransactionTag :: u32

abbreviation (input) MS_ERROR_LOGICAL_CMD_FAILED :: u8 where "MS_ERROR_LOGICAL_CMD_FAILED \<equiv> 0x80"
abbreviation (input) COMMAND_DIRECTION_DATA_OUT :: u8 where "COMMAND_DIRECTION_DATA_OUT \<equiv> 0"
abbreviation (input) COMMAND_DIRECTION_DATA_IN :: u8 where "COMMAND_DIRECTION_DATA_IN \<equiv> 0x80"
abbreviation (input) COMMAND_DATA_TIMEOUT_MS :: nat where "COMMAND_DATA_TIMEOUT_MS \<equiv> 10000"
abbreviation (input) MASS_STORE_CLASS :: u8 where "MASS_STORE_CLASS \<equiv> 0x08"
abbreviation (input) MASS_STORE_SUBCLASS :: u8 where "MASS_STORE_SUBCLASS \<equiv> 0x06"
abbreviation (input) MASS_STORE_PROTOCOL :: u8 where "MASS_STORE_PROTOCOL \<equiv> 0x50"
abbreviation (input) MS_ENUMERROR_NoError :: u8 where "MS_ENUMERROR_NoError \<equiv> 0"
abbreviation (input) MS_ENUMERROR_InvalidConfigDescriptor :: u8 where "MS_ENUMERROR_InvalidConfigDescriptor \<equiv> 1"
abbreviation (input) MS_ENUMERROR_NoMSInterfaceFound :: u8 where "MS_ENUMERROR_NoMSInterfaceFound \<equiv> 2"
abbreviation (input) MS_ENUMERROR_EndpointsNotFound :: u8 where "MS_ENUMERROR_EndpointsNotFound \<equiv> 3"
abbreviation (input) sizeof_Inquiry :: nat where "sizeof_Inquiry \<equiv> 36"
abbreviation (input) sizeof_Sense :: nat where "sizeof_Sense \<equiv> 18"
abbreviation (input) sizeof_Capacity :: nat where "sizeof_Capacity \<equiv> 8"
abbreviation (input) sizeof_CSW :: nat where "sizeof_CSW \<equiv> 13"

section \<open>Configuration of the pipes\<close>

text \<open>The fields of the descriptor at an address: interface class, subclass, protocol; endpoint address, attributes, size.\<close>

definition DComp_NextMSInterface :: "(u16 \<Rightarrow> u8) \<Rightarrow> u16 \<Rightarrow> search" where
  "DComp_NextMSInterface mem loc =
     (if DESCRIPTOR_TYPE mem loc = DTYPE_Interface \<and> mem (loc + 5) = MASS_STORE_CLASS \<and>
         mem (loc + 6) = MASS_STORE_SUBCLASS \<and> mem (loc + 7) = MASS_STORE_PROTOCOL
      then DESCRIPTOR_SEARCH_Found else DESCRIPTOR_SEARCH_NotFound)"

definition DComp_NextMSInterfaceEndpoint :: "'h hio \<Rightarrow> (u16 \<Rightarrow> u8) \<Rightarrow> u16 \<Rightarrow> 'h \<Rightarrow> search \<times> 'h" where
  "DComp_NextMSInterfaceEndpoint io mem loc s =
     (if DESCRIPTOR_TYPE mem loc = DTYPE_Endpoint then
        (if mem (loc + 3) AND 0x03 = EP_TYPE_BULK then
           (let (bound, s) = Pipe_IsEndpointBound io (mem (loc + 2)) s
            in (if bound then DESCRIPTOR_SEARCH_NotFound else DESCRIPTOR_SEARCH_Found, s))
         else (DESCRIPTOR_SEARCH_NotFound, s))
      else if DESCRIPTOR_TYPE mem loc = DTYPE_Interface then (DESCRIPTOR_SEARCH_Fail, s)
      else (DESCRIPTOR_SEARCH_NotFound, s))"

text \<open>
  The loop until both pipes are found.  \<open>FoundEndpoints\<close> has bit 0 for the IN and bit 1 for the OUT pipe.
\<close>

definition configure_data_pipe :: "'h hio \<Rightarrow> (u16 \<Rightarrow> u8) \<Rightarrow> u16 \<Rightarrow> MS_Host \<Rightarrow> u8 \<Rightarrow> 'h \<Rightarrow> MS_Host \<times> u8 \<times> 'h" where
  "configure_data_pipe io mem loc m FoundEndpoints s =
     (let addr = mem (loc + 2); size = word16 (mem (loc + 4)) (mem (loc + 5))
      in if addr AND 0x80 \<noteq> 0 then
           (let (r, s) = Pipe_ConfigurePipe io (DataINPipeNumber m) EP_TYPE_BULK PIPE_TOKEN_IN addr size
                           (if DataINPipeDoubleBank m then PIPE_BANK_DOUBLE else PIPE_BANK_SINGLE) s
            in (m\<lparr>DataINPipeSize := size\<rparr>, FoundEndpoints OR BV 0, s))
         else
           (let (r, s) = Pipe_ConfigurePipe io (DataOUTPipeNumber m) EP_TYPE_BULK PIPE_TOKEN_OUT addr size
                           (if DataOUTPipeDoubleBank m then PIPE_BANK_DOUBLE else PIPE_BANK_SINGLE) s
            in (m\<lparr>DataOUTPipeSize := size\<rparr>, FoundEndpoints OR BV 1, s)))"

partial_function (option) find_pipes_loop ::
    "'h hio \<Rightarrow> (u16 \<Rightarrow> u8) \<Rightarrow> u16 \<times> u16 \<Rightarrow> MS_Host \<Rightarrow> u8 \<Rightarrow> 'h \<Rightarrow> (u8 \<times> MS_Host \<times> 'h) option" where
  [code]: "find_pipes_loop io mem p m FoundEndpoints s =
     (if FoundEndpoints = BV 0 OR BV 1 then Some (MS_ENUMERROR_NoError, m\<lparr>IsActive := True\<rparr>, s)
      else do {
        (r, p, s) \<leftarrow> search_comp_pipes mem (DComp_NextMSInterfaceEndpoint io mem) p s;
        if r \<noteq> DESCRIPTOR_SEARCH_COMP_Found then Some (MS_ENUMERROR_EndpointsNotFound, m, s)
        else let (m, FoundEndpoints, s) = configure_data_pipe io mem (snd p) m FoundEndpoints s
             in find_pipes_loop io mem p m FoundEndpoints s
      })"

definition MS_Host_ConfigurePipes ::
    "'h hio \<Rightarrow> (u16 \<Rightarrow> u8) \<Rightarrow> MS_Host \<Rightarrow> u16 \<Rightarrow> u16 \<Rightarrow> 'h \<Rightarrow> (u8 \<times> MS_Host \<times> 'h) option" where
  "MS_Host_ConfigurePipes io mem m ConfigDescriptorSize DeviceConfigDescriptor s =
     do {
       let m = m\<lparr>IsActive := False, HostInterfaceNumber := 0, DataINPipeSize := 0, DataOUTPipeSize := 0, TransactionTag := 0\<rparr>;
       if DESCRIPTOR_TYPE mem DeviceConfigDescriptor \<noteq> DTYPE_Configuration
       then Some (MS_ENUMERROR_InvalidConfigDescriptor, m, s)
       else do {
         (r, p) \<leftarrow> USB_GetNextDescriptorComp mem (DComp_NextMSInterface mem) (ConfigDescriptorSize, DeviceConfigDescriptor);
         if r \<noteq> DESCRIPTOR_SEARCH_COMP_Found then Some (MS_ENUMERROR_NoMSInterfaceFound, m, s)
         else find_pipes_loop io mem p (m\<lparr>HostInterfaceNumber := mem (snd p + 2)\<rparr>) 0 s
       }
     }"

section \<open>Commands, data and status\<close>

text \<open>
  One round of the loop of \<open>MS_Host_WaitForDataReceived\<close> after the flag was found clear; the number
  is \<open>TimeoutMSRem\<close>.
\<close>

definition data_wait_round :: "'h hio \<Rightarrow> u8 \<Rightarrow> MS_Host \<Rightarrow> nat \<Rightarrow> 'h \<Rightarrow> ((u8, nat) flow \<times> 'h) option" where
  "data_wait_round io psize m TimeoutMSRem s =
     (let (sof, s) = USB_INT_HasOccurred_HSOFI io s;
          (TimeoutMSRem, s) = (if sof then (TimeoutMSRem - 1, USB_INT_Clear_HSOFI io s) else (TimeoutMSRem, s))
      in if sof \<and> TimeoutMSRem = 0 then Some (Return PIPE_RWSTREAM_Timeout, s)
      else
        (let s = Pipe_Unfreeze io (Pipe_SelectPipe io (DataOUTPipeNumber m) (Pipe_Freeze io s));
             (st, s) = Pipe_IsStalled io s
         in if st then
              map_option (\<lambda>(e, s). (Return PIPE_RWSTREAM_PipeStalled, s))
                (USB_Host_ClearPipeStall io psize (DataOUTPipeNumber m) s)
         else
           (let s = Pipe_Unfreeze io (Pipe_SelectPipe io (DataINPipeNumber m) (Pipe_Freeze io s));
                (st, s) = Pipe_IsStalled io s
            in if st then
                 map_option (\<lambda>(e, s). (Return PIPE_RWSTREAM_PipeStalled, s))
                   (USB_Host_ClearPipeStall io psize (DataINPipeNumber m) s)
            else
              (let (un, s) = host_state_is io HOST_STATE_Unattached s
               in if un then Some (Return PIPE_RWSTREAM_DeviceDisconnected, s) else Some (Next TimeoutMSRem, s)))))"

partial_function (option) data_wait_loop :: "'h hio \<Rightarrow> u8 \<Rightarrow> MS_Host \<Rightarrow> nat \<Rightarrow> 'h \<Rightarrow> (u8 \<times> 'h) option" where
  [code]: "data_wait_loop io psize m TimeoutMSRem s =
     (let (b, s) = Pipe_IsINReceived io s
      in if b then
           (let s = Pipe_Freeze io (Pipe_SelectPipe io (DataINPipeNumber m) s);
                s = Pipe_Freeze io (Pipe_SelectPipe io (DataOUTPipeNumber m) s)
            in Some (PIPE_RWSTREAM_NoError, s))
         else do {
           (f, s) \<leftarrow> data_wait_round io psize m TimeoutMSRem s;
           case f of Return e \<Rightarrow> Some (e, s) | Next t \<Rightarrow> data_wait_loop io psize m t s
         })"

definition MS_Host_WaitForDataReceived :: "'h hio \<Rightarrow> u8 \<Rightarrow> MS_Host \<Rightarrow> 'h \<Rightarrow> (u8 \<times> 'h) option" where
  "MS_Host_WaitForDataReceived io psize m s =
     data_wait_loop io psize m COMMAND_DATA_TIMEOUT_MS (Pipe_Unfreeze io (Pipe_SelectPipe io (DataINPipeNumber m) s))"

text \<open>\<open>while (!(Pipe_IsOUTReady())) if (USB_HostState == HOST_STATE_Unattached) return\<close>; true if the flag came.\<close>

partial_function (option) out_ready_wait :: "'h hio \<Rightarrow> 'h \<Rightarrow> (bool \<times> 'h) option" where
  [code]: "out_ready_wait io s =
     (let (b, s) = Pipe_IsOUTReady io s
      in if b then Some (True, s)
      else let (un, s) = host_state_is io HOST_STATE_Unattached s
      in if un then Some (False, s) else out_ready_wait io s)"

text \<open>
  \<open>BytesRem\<close> has sixteen bits.  \<open>mem\<close> is the buffer: the source of a write, and what a read overwrites
  from its start.
\<close>

definition receive_data :: "'h hio \<Rightarrow> u8 \<Rightarrow> MS_Host \<Rightarrow> u16 \<Rightarrow> u8 list \<Rightarrow> 'h \<Rightarrow> (u8 \<times> u8 list \<times> 'h) option" where
  "receive_data io psize m BytesRem mem s =
     do {
       (e, s) \<leftarrow> MS_Host_WaitForDataReceived io psize m s;
       if e \<noteq> 0 then Some (e, mem, Pipe_Freeze io s)
       else do {
         let s = Pipe_Unfreeze io (Pipe_SelectPipe io (DataINPipeNumber m) s);
         (e, got, s) \<leftarrow> Pipe_Read_Stream_LE io None (unat BytesRem) s;
         Some (e, got @ drop (length got) mem, if e \<noteq> 0 then s else Pipe_Freeze io (Pipe_ClearIN io s))
       }
     }"

definition send_data :: "'h hio \<Rightarrow> MS_Host \<Rightarrow> u16 \<Rightarrow> u8 list \<Rightarrow> 'h \<Rightarrow> (u8 \<times> 'h) option" where
  "send_data io m BytesRem mem s =
     do {
       let s = Pipe_Unfreeze io (Pipe_SelectPipe io (DataOUTPipeNumber m) s);
       (e, s) \<leftarrow> Pipe_Write_Stream_LE io None (take (unat BytesRem) mem) s;
       if e \<noteq> 0 then Some (e, s)
       else do {
         (ok, s) \<leftarrow> out_ready_wait io (Pipe_ClearOUT io s);
         Some (if ok then (0, Pipe_Freeze io s) else (PIPE_RWSTREAM_DeviceDisconnected, s))
       }
     }"

definition MS_Host_SendReceiveData ::
    "'h hio \<Rightarrow> u8 \<Rightarrow> MS_Host \<Rightarrow> MS_CommandBlockWrapper_t \<Rightarrow> u8 list \<Rightarrow> 'h \<Rightarrow> (u8 \<times> u8 list \<times> 'h) option" where
  "MS_Host_SendReceiveData io psize m cbw mem s =
     (let BytesRem = ucast (DataTransferLength cbw) :: u16
      in if Flags cbw AND COMMAND_DIRECTION_DATA_IN \<noteq> 0 then receive_data io psize m BytesRem mem s
         else map_option (\<lambda>(e, s). (e, mem, s)) (send_data io m BytesRem mem s))"

text \<open>The next tag, which is one after \<open>0xFFFFFFFE\<close> in the structure and \<open>0xFFFFFFFF\<close> in the wrapper.\<close>

definition next_tag :: "MS_Host \<Rightarrow> u32 \<times> MS_Host" where
  "next_tag m =
     (let t = TransactionTag m + 1 in (t, m\<lparr>TransactionTag := if t = 0xFFFFFFFF then 1 else t\<rparr>))"

definition MS_Host_SendCommand ::
    "'h hio \<Rightarrow> u8 \<Rightarrow> MS_Host \<Rightarrow> MS_CommandBlockWrapper_t \<Rightarrow> u8 list option \<Rightarrow> 'h \<Rightarrow>
       (u8 \<times> u8 list option \<times> MS_Host \<times> 'h) option" where
  "MS_Host_SendCommand io psize m SCSICommandBlock BufferPtr s =
     do {
       let (tag, m) = next_tag m;
       let cbw = SCSICommandBlock\<lparr>Tag := tag\<rparr>;
       let s = Pipe_Unfreeze io (Pipe_SelectPipe io (DataOUTPipeNumber m) s);
       (e, s) \<leftarrow> Pipe_Write_Stream_LE io None (cbw_bytes cbw) s;
       if e \<noteq> 0 then Some (e, BufferPtr, m, s)
       else do {
         (e, s) \<leftarrow> Pipe_WaitUntilReady io (Pipe_ClearOUT io s);
         let s = Pipe_Freeze io s;
         case BufferPtr of
           None \<Rightarrow> Some (0, None, m, s)
         | Some mem \<Rightarrow>
             do {
               (e, mem, s) \<leftarrow> MS_Host_SendReceiveData io psize m cbw mem s;
               Some (e, Some mem, m, if e \<noteq> 0 then Pipe_Freeze io s else s)
             }
       }
     }"

text \<open>The status wrapper is not compared with the command: only its last byte is looked at.\<close>

definition MS_Host_GetReturnedStatus :: "'h hio \<Rightarrow> u8 \<Rightarrow> MS_Host \<Rightarrow> 'h \<Rightarrow> (u8 \<times> 'h) option" where
  "MS_Host_GetReturnedStatus io psize m s =
     do {
       (e, s) \<leftarrow> MS_Host_WaitForDataReceived io psize m s;
       if e \<noteq> 0 then Some (e, s)
       else do {
         let s = Pipe_Unfreeze io (Pipe_SelectPipe io (DataINPipeNumber m) s);
         (e, csw, s) \<leftarrow> Pipe_Read_Stream_LE io None sizeof_CSW s;
         if e \<noteq> 0 then Some (e, s)
         else Some (if csw ! 12 \<noteq> SCSI_Command_Pass then MS_ERROR_LOGICAL_CMD_FAILED else 0,
                    Pipe_Freeze io (Pipe_ClearIN io s))
       }
     }"

section \<open>Class requests\<close>

definition MS_Host_ResetMSInterface :: "'h hio \<Rightarrow> u8 \<Rightarrow> MS_Host \<Rightarrow> 'h \<Rightarrow> (u8 \<times> 'h) option" where
  "MS_Host_ResetMSInterface io psize m s =
     map_option (\<lambda>(e, b, s). (e, s)) (USB_Host_SendControlRequest io psize
       (std_request 0x21 REQ_MassStorageReset 0 (ucast (HostInterfaceNumber m)) 0) None (Pipe_SelectPipe io PIPE_CONTROLPIPE s))"

definition MS_Host_GetMaxLUN :: "'h hio \<Rightarrow> u8 \<Rightarrow> MS_Host \<Rightarrow> u8 \<Rightarrow> 'h \<Rightarrow> (u8 \<times> u8 \<times> 'h) option" where
  "MS_Host_GetMaxLUN io psize m MaxLUNIndex s =
     do {
       (e, buf, s) \<leftarrow> USB_Host_SendControlRequest io psize
          (std_request 0xA1 REQ_GetMaxLUN 0 (ucast (HostInterfaceNumber m)) 1) (Some [MaxLUNIndex])
          (Pipe_SelectPipe io PIPE_CONTROLPIPE s);
       Some (HOST_SENDCONTROL_Successful, if e \<noteq> 0 then 0 else hd (the buf), s)
     }"

section \<open>SCSI commands\<close>

text \<open>A command wrapper whose command data are the given bytes and zeros behind them.\<close>

definition host_cbw :: "u32 \<Rightarrow> u8 \<Rightarrow> u8 \<Rightarrow> u8 list \<Rightarrow> MS_CommandBlockWrapper_t" where
  "host_cbw len flags lun command =
     \<lparr>Signature = MS_CBW_SIGNATURE, Tag = 0, DataTransferLength = len, Flags = flags, LUN = lun,
      SCSICommandLength = of_nat (length command), SCSICommandData = command @ replicate (16 - length command) 0\<rparr>"

text \<open>
  The body the commands share: the check of the state, the command with its data and the status.
  \<open>fix\<close> is what the code does to the buffer before it asks for the status.
\<close>

definition host_command ::
    "'h hio \<Rightarrow> u8 \<Rightarrow> MS_CommandBlockWrapper_t \<Rightarrow> u8 list option \<Rightarrow> (u8 list \<Rightarrow> u8 list) \<Rightarrow> MS_Host \<Rightarrow> 'h \<Rightarrow>
       (u8 \<times> u8 list option \<times> MS_Host \<times> 'h) option" where
  "host_command io psize cbw BufferPtr fix m s =
     (let (conf, s) = host_state_is io HOST_STATE_Configured s
      in if \<not> conf \<or> \<not> IsActive m then Some (HOST_SENDCONTROL_DeviceDisconnected, BufferPtr, m, s)
         else do {
           (e, buf, m, s) \<leftarrow> MS_Host_SendCommand io psize m cbw BufferPtr s;
           if e \<noteq> 0 then Some (e, buf, m, s)
           else do {
             let buf = map_option fix buf;
             (e, s) \<leftarrow> MS_Host_GetReturnedStatus io psize m s;
             Some (e, buf, m, s)
           }
         })"

definition MS_Host_GetInquiryData ::
    "'h hio \<Rightarrow> u8 \<Rightarrow> u8 \<Rightarrow> u8 list \<Rightarrow> MS_Host \<Rightarrow> 'h \<Rightarrow> (u8 \<times> u8 list option \<times> MS_Host \<times> 'h) option" where
  "MS_Host_GetInquiryData io psize LUNIndex Response m s =
     host_command io psize
       (host_cbw (of_nat sizeof_Inquiry) COMMAND_DIRECTION_DATA_IN LUNIndex
          [SCSI_CMD_INQUIRY, 0, 0, 0, of_nat sizeof_Inquiry, 0]) (Some Response) id m s"

definition MS_Host_TestUnitReady ::
    "'h hio \<Rightarrow> u8 \<Rightarrow> u8 \<Rightarrow> MS_Host \<Rightarrow> 'h \<Rightarrow> (u8 \<times> u8 list option \<times> MS_Host \<times> 'h) option" where
  "MS_Host_TestUnitReady io psize LUNIndex m s =
     host_command io psize
       (host_cbw 0 COMMAND_DIRECTION_DATA_IN LUNIndex [SCSI_CMD_TEST_UNIT_READY, 0, 0, 0, 0, 0]) None id m s"

text \<open>The two words of \<open>SCSI_Capacity_t\<close> are turned to the byte order of the processor in place.\<close>

definition swap_capacity :: "u8 list \<Rightarrow> u8 list" where
  "swap_capacity b = bytes32 (SwapEndian_32 (peek32 b 0)) @ bytes32 (SwapEndian_32 (peek32 b 4)) @ drop 8 b"

definition MS_Host_ReadDeviceCapacity ::
    "'h hio \<Rightarrow> u8 \<Rightarrow> u8 \<Rightarrow> u8 list \<Rightarrow> MS_Host \<Rightarrow> 'h \<Rightarrow> (u8 \<times> u8 list option \<times> MS_Host \<times> 'h) option" where
  "MS_Host_ReadDeviceCapacity io psize LUNIndex DeviceCapacity m s =
     host_command io psize
       (host_cbw (of_nat sizeof_Capacity) COMMAND_DIRECTION_DATA_IN LUNIndex
          [SCSI_CMD_READ_CAPACITY_10, 0, 0, 0, 0, 0, 0, 0, 0, 0]) (Some DeviceCapacity) swap_capacity m s"

definition MS_Host_RequestSense ::
    "'h hio \<Rightarrow> u8 \<Rightarrow> u8 \<Rightarrow> u8 list \<Rightarrow> MS_Host \<Rightarrow> 'h \<Rightarrow> (u8 \<times> u8 list option \<times> MS_Host \<times> 'h) option" where
  "MS_Host_RequestSense io psize LUNIndex Response m s =
     host_command io psize
       (host_cbw (of_nat sizeof_Sense) COMMAND_DIRECTION_DATA_IN LUNIndex
          [SCSI_CMD_REQUEST_SENSE, 0, 0, 0, of_nat sizeof_Sense, 0]) (Some Response) id m s"

definition MS_Host_PreventAllowMediumRemoval ::
    "'h hio \<Rightarrow> u8 \<Rightarrow> u8 \<Rightarrow> bool \<Rightarrow> MS_Host \<Rightarrow> 'h \<Rightarrow> (u8 \<times> u8 list option \<times> MS_Host \<times> 'h) option" where
  "MS_Host_PreventAllowMediumRemoval io psize LUNIndex PreventRemoval m s =
     host_command io psize
       (host_cbw 0 COMMAND_DIRECTION_DATA_OUT LUNIndex
          [SCSI_CMD_PREVENT_ALLOW_MEDIUM_REMOVAL, 0, 0, of_bool PreventRemoval, 0, 0]) None id m s"

definition block_cdb :: "u8 \<Rightarrow> u32 \<Rightarrow> u8 \<Rightarrow> u8 list" where
  "block_cdb cmd BlockAddress Blocks =
     [cmd, 0, ucast (drop_bit 24 BlockAddress), ucast (drop_bit 16 BlockAddress), ucast (drop_bit 8 BlockAddress),
      ucast (BlockAddress AND 0xFF), 0, 0, Blocks, 0]"

definition MS_Host_ReadDeviceBlocks ::
    "'h hio \<Rightarrow> u8 \<Rightarrow> u8 \<Rightarrow> u32 \<Rightarrow> u8 \<Rightarrow> u16 \<Rightarrow> u8 list \<Rightarrow> MS_Host \<Rightarrow> 'h \<Rightarrow> (u8 \<times> u8 list option \<times> MS_Host \<times> 'h) option" where
  "MS_Host_ReadDeviceBlocks io psize LUNIndex BlockAddress Blocks BlockSize BlockBuffer m s =
     host_command io psize
       (host_cbw (ucast Blocks * ucast BlockSize) COMMAND_DIRECTION_DATA_IN LUNIndex
          (block_cdb SCSI_CMD_READ_10 BlockAddress Blocks)) (Some BlockBuffer) id m s"

definition MS_Host_WriteDeviceBlocks ::
    "'h hio \<Rightarrow> u8 \<Rightarrow> u8 \<Rightarrow> u32 \<Rightarrow> u8 \<Rightarrow> u16 \<Rightarrow> u8 list \<Rightarrow> MS_Host \<Rightarrow> 'h \<Rightarrow> (u8 \<times> u8 list option \<times> MS_Host \<times> 'h) option" where
  "MS_Host_WriteDeviceBlocks io psize LUNIndex BlockAddress Blocks BlockSize BlockBuffer m s =
     host_command io psize
       (host_cbw (ucast Blocks * ucast BlockSize) COMMAND_DIRECTION_DATA_OUT LUNIndex
          (block_cdb SCSI_CMD_WRITE_10 BlockAddress Blocks)) (Some BlockBuffer) id m s"

end
