(* ===== verification/Host_Ms.thy ===== *)
theory Host_Ms
  imports Ms_Host Host_Bus
begin

text \<open>
  The host's mass storage driver on the bus: in the locale \<open>pipe_bus\<close> its commands are shown to hand
  the command wrapper and the data to the device and to bring back what the device answers.
\<close>

section \<open>The two pipes of the interface\<close>

text \<open>
  Both pipes are configured and nothing is left in the OUT pipe; the IN pipe may have received a packet.
\<close>

definition settled :: "MS_Host \<Rightarrow> 'p hctl \<Rightarrow> bool" where
  "settled m h \<longleftrightarrow> DataINPipeNumber m \<noteq> 0 \<and> DataINPipeNumber m \<le> 7 \<and> DataOUTPipeNumber m \<noteq> 0 \<and>
     DataOUTPipeNumber m \<le> 7 \<and> DataINPipeNumber m \<noteq> DataOUTPipeNumber m \<and>
     p_in (pipes h (DataINPipeNumber m)) \<and> \<not> p_stall (pipes h (DataINPipeNumber m)) \<and>
     p_cfg0 (pipes h (DataOUTPipeNumber m)) AND PIPE_TOKEN_MASK = PIPE_TOKEN_OUT \<and>
     \<not> p_stall (pipes h (DataOUTPipeNumber m)) \<and> \<not> p_full (pipes h (DataOUTPipeNumber m)) \<and>
     p_fifo (pipes h (DataOUTPipeNumber m)) = [] \<and> h_state h \<noteq> HOST_STATE_Unattached \<and> 0 < h_size h"

text \<open>The packet \<open>p\<close> has arrived, or the device sends it after \<open>j\<close> tokens, and is then in state \<open>c\<close>.\<close>

definition arriving :: "'p device \<Rightarrow> MS_Host \<Rightarrow> nat \<Rightarrow> 'p hctl \<Rightarrow> u8 list \<Rightarrow> 'p \<Rightarrow> bool" where
  "arriving dv m j h p c \<longleftrightarrow>
     (let e = pipes h (DataINPipeNumber m)
      in p_full e \<and> p_fifo e = p \<and> peer h = c \<or> \<not> p_full e \<and> answer dv j (p_num e) (peer h) p c)"

definition arrived :: "MS_Host \<Rightarrow> 'p hctl \<Rightarrow> bool" where
  "arrived m h \<longleftrightarrow> p_full (pipes h (DataINPipeNumber m))"

text \<open>What no command changes.\<close>

definition same_pipes :: "MS_Host \<Rightarrow> 'p hctl \<Rightarrow> 'p hctl \<Rightarrow> bool" where
  "same_pipes m h k \<longleftrightarrow> h_size k = h_size h \<and> h_state k = h_state h \<and>
     p_num (pipes k (DataINPipeNumber m)) = p_num (pipes h (DataINPipeNumber m)) \<and>
     p_num (pipes k (DataOUTPipeNumber m)) = p_num (pipes h (DataOUTPipeNumber m))"

lemma same_pipes_refl [simp]: "same_pipes m h h"
  by (simp add: same_pipes_def)

lemma same_pipes_trans: "same_pipes m h k \<Longrightarrow> same_pipes m k l \<Longrightarrow> same_pipes m h l"
  by (simp add: same_pipes_def)

text \<open>Selecting, freezing and unfreezing a pipe and counting frames touch none of this.\<close>

definition frz :: "'p hctl \<Rightarrow> 'p hctl" where
  "frz h = upd_pipe (\<lambda>e. e\<lparr>p_con := p_con e OR BV PFREEZE\<rparr>) h"

definition unf :: "'p hctl \<Rightarrow> 'p hctl" where
  "unf h = upd_pipe (\<lambda>e. e\<lparr>p_con := p_con e AND NOT (BV PFREEZE)\<rparr>) h"

definition sel :: "u8 \<Rightarrow> 'p hctl \<Rightarrow> 'p hctl" where
  "sel n h = h\<lparr>upnum := n\<rparr>"

lemma p_con_irrelevant [simp]: "p_in (e\<lparr>p_con := x\<rparr>) = p_in e" "p_num (e\<lparr>p_con := x\<rparr>) = p_num e"
  by (simp_all add: p_in_def p_num_def)

lemma moves_sel [simp]: "upnum (frz h) = upnum h" "upnum (unf h) = upnum h" "upnum (sel n h) = n"
  "peer (frz h) = peer h" "peer (unf h) = peer h" "peer (sel n h) = peer h"
  "h_state (frz h) = h_state h" "h_state (unf h) = h_state h" "h_state (sel n h) = h_state h"
  "h_size (frz h) = h_size h" "h_size (unf h) = h_size h" "h_size (sel n h) = h_size h"
  "pipes (sel n h) = pipes h" "pipes (h\<lparr>h_sof := x\<rparr>) = pipes h"
  by (simp_all add: frz_def unf_def sel_def)

lemma moves_pipe [simp]: "p_full (pipes (frz h) n) = p_full (pipes h n)" "p_full (pipes (unf h) n) = p_full (pipes h n)"
  "p_fifo (pipes (frz h) n) = p_fifo (pipes h n)" "p_fifo (pipes (unf h) n) = p_fifo (pipes h n)"
  "p_stall (pipes (frz h) n) = p_stall (pipes h n)" "p_stall (pipes (unf h) n) = p_stall (pipes h n)"
  "p_cfg0 (pipes (frz h) n) = p_cfg0 (pipes h n)" "p_cfg0 (pipes (unf h) n) = p_cfg0 (pipes h n)"
  "p_in (pipes (frz h) n) = p_in (pipes h n)" "p_in (pipes (unf h) n) = p_in (pipes h n)"
  "p_num (pipes (frz h) n) = p_num (pipes h n)" "p_num (pipes (unf h) n) = p_num (pipes h n)"
  by (simp_all add: frz_def unf_def upd_pipe_def pcur_def p_in_def p_num_def)

lemma unf_live [simp]: "\<not> p_frozen (pcur (unf h))"
  by (simp add: unf_def p_frozen_def)

lemma settled_moves [simp]: "settled m (frz h) = settled m h" "settled m (unf h) = settled m h"
  "settled m (sel n h) = settled m h" "settled m (h\<lparr>h_sof := x\<rparr>) = settled m h"
  by (simp_all add: settled_def)

lemma arriving_moves [simp]: "arriving dv m j (frz h) p c = arriving dv m j h p c"
  "arriving dv m j (unf h) p c = arriving dv m j h p c" "arriving dv m j (sel n h) p c = arriving dv m j h p c"
  "arriving dv m j (h\<lparr>h_sof := x\<rparr>) p c = arriving dv m j h p c"
  by (simp_all add: arriving_def Let_def)

lemma arrived_moves [simp]: "arrived m (frz h) = arrived m h" "arrived m (unf h) = arrived m h"
  "arrived m (sel n h) = arrived m h" "arrived m (h\<lparr>h_sof := x\<rparr>) = arrived m h"
  by (simp_all add: arrived_def)

lemma same_pipes_moves [simp]: "same_pipes m h (frz k) = same_pipes m h k" "same_pipes m h (unf k) = same_pipes m h k"
  "same_pipes m h (sel n k) = same_pipes m h k" "same_pipes m h (k\<lparr>h_sof := x\<rparr>) = same_pipes m h k"
  by (simp_all add: same_pipes_def)

text \<open>A look at the OUT pipe changes nothing, one at the IN pipe brings the packet nearer.\<close>

lemma turn_out: "settled m h \<Longrightarrow> upnum h = DataOUTPipeNumber m \<Longrightarrow> turn dv h = h"
  by (intro turn_idle) (simp add: settled_def pcur_def p_in_def)

lemma frame_pipes:
  assumes "settled m h" "hframe h k" "upnum h = DataINPipeNumber m"
  shows "settled m k" "same_pipes m h k"
proof -
  let ?i = "DataINPipeNumber m" and ?o = "DataOUTPipeNumber m"
  have "?o \<noteq> upnum h" using assms(1,3) by (auto simp: settled_def)
  then have o: "pipes k ?o = pipes h ?o" using assms(2) unfolding hframe_def by blast
  have i: "pcur k = pipes k ?i" "pcur h = pipes h ?i" using assms(2,3) by (simp_all add: pcur_def hframe_def)
  show "settled m k" "same_pipes m h k"
    using assms(1) hframe_pcur [OF assms(2)] o unfolding settled_def same_pipes_def i by simp_all
qed

lemma turn_in:
  assumes "settled m h" "upnum h = DataINPipeNumber m" "\<not> p_frozen (pcur h)" "arriving dv m j h p c"
  shows "settled m (turn dv h)" "same_pipes m h (turn dv h)" "arriving dv m (j - 1) (turn dv h) p c"
    "j = 0 \<or> arrived m h \<Longrightarrow> arrived m (turn dv h)"
proof -
  have "upnum (turn dv h) = upnum h" using hframe_turn [of h dv] by (simp add: hframe_def)
  then have cur: "pcur h = pipes h (DataINPipeNumber m)" "pcur (turn dv h) = pipes (turn dv h) (DataINPipeNumber m)"
    using assms(2) by (simp_all add: pcur_def)
  have l: "live h" "p_in (pcur h)" using assms(1-3) cur(1) by (simp_all add: live_def settled_def)
  have c: "coming dv j h p c" using assms(4) cur(1) by (auto simp: coming_def loaded_def arriving_def Let_def)
  show "settled m (turn dv h)" "same_pipes m h (turn dv h)" by (rule frame_pipes [OF assms(1) hframe_turn assms(2)])+
  show "arriving dv m (j - 1) (turn dv h) p c"
    using turn_coming(1) [OF l c] cur(2) by (auto simp: coming_def loaded_def arriving_def Let_def)
  show "arrived m (turn dv h)" if "j = 0 \<or> arrived m h"
  proof (cases "arrived m h")
    case True
    then have "turn dv h = h" using l(2) cur(1) by (intro turn_idle) (simp add: arrived_def)
    then show ?thesis using True by simp
  next
    case False
    then show ?thesis using that turn_coming(2) [OF l c] cur(2) by (simp add: loaded_def arrived_def)
  qed
qed

section \<open>Waiting for data\<close>

context pipe_bus
begin

lemma freeze_frz: "upnum (get s) \<noteq> 0 \<Longrightarrow> Pipe_Freeze io s = put (frz (get s)) s"
  "upnum (get s) \<noteq> 0 \<Longrightarrow> Pipe_Unfreeze io s = put (unf (get s)) s"
  "n \<le> 7 \<Longrightarrow> Pipe_SelectPipe io n s = put (sel n (get s)) s"
  by (simp_all add: freeze frz_def unf_def select_pipe sel_def)

lemma data_round:
  assumes "settled m (get s)" "upnum (get s) = DataINPipeNumber m" "\<not> p_frozen (pcur (get s))"
    "arriving dv m j (get s) p c" "1 < t"
  shows "\<exists>k t'. data_wait_round io psize m t s = Some (Next t', put k s) \<and> t - 1 \<le> t' \<and> settled m k \<and>
    same_pipes m (get s) k \<and> upnum k = DataINPipeNumber m \<and> \<not> p_frozen (pcur k) \<and> arriving dv m (j - 1) k p c \<and>
    (j = 0 \<or> arrived m (get s) \<longrightarrow> arrived m k)"
proof -
  let ?i = "DataINPipeNumber m" and ?o = "DataOUTPipeNumber m"
  let ?h = "get s"
  let ?out = "\<lambda>x. unf (sel ?o (frz (?h\<lparr>h_sof := x\<rparr>)))"
  let ?in = "\<lambda>x. unf (sel ?i (frz (?out x)))"
  let ?x = "if h_sof ?h = 0 then h_gap ?h else h_sof ?h - 1"
  have n: "?i \<noteq> 0" "?i \<le> 7" "?o \<noteq> 0" "?o \<le> 7" using assms(1) by (simp_all add: settled_def)
  have hs: "h_state ?h \<noteq> HOST_STATE_Unattached" using assms(1) by (simp add: settled_def)
  have st2: "\<not> p_stall (pcur (?out x))" "turn dv (?out x) = ?out x" for x
  proof -
    have "settled m (?out x)" using assms(1) by simp
    then show "\<not> p_stall (pcur (?out x))" "turn dv (?out x) = ?out x"
      using turn_out [of m "?out x" dv] by (simp_all add: settled_def pcur_def)
  qed
  have s3: "settled m (?in x)" "upnum (?in x) = ?i" "\<not> p_frozen (pcur (?in x))" "arriving dv m j (?in x) p c"
    "arrived m (?in x) = arrived m ?h" "same_pipes m ?h (?in x)" for x
    using assms(1,4) by simp_all
  have st3: "\<not> p_stall (pcur (?in x))" for x using s3(1) [of x] by (simp add: settled_def pcur_def)
  note t3 = turn_in [OF s3(1-4), of ?x]
  have "data_wait_round io psize m t s = Some (Next (if h_sof ?h = 0 then t - 1 else t), put (turn dv (?in ?x)) s)"
    using n assms(2,5) st2 st3 hs
    by (simp add: data_wait_round_def Let_def hsof freeze_frz stalled_pipe host_state get_put put_put)
  moreover have "same_pipes m ?h (turn dv (?in ?x))" by (rule same_pipes_trans [OF s3(6) t3(2)])
  moreover have "upnum (turn dv (?in ?x)) = ?i" "\<not> p_frozen (pcur (turn dv (?in ?x)))"
    using hframe_pcur [OF hframe_turn [of "?in ?x" dv]] s3(2,3) [of ?x] by simp_all
  ultimately show ?thesis
    using t3(1,3,4) s3(5) [of ?x] by (intro exI [of _ "turn dv (?in ?x)"] exI [of _ "if h_sof ?h = 0 then t - 1 else t"]) simp
qed

lemma data_wait:
  assumes "settled m (get s)" "upnum (get s) = DataINPipeNumber m" "\<not> p_frozen (pcur (get s))"
    "arriving dv m j (get s) p c" "arrived m (get s) \<or> j + 2 \<le> t"
  shows "\<exists>k. data_wait_loop io psize m t s = Some (0, put k s) \<and> settled m k \<and> same_pipes m (get s) k \<and>
    arrived m k \<and> arriving dv m 0 k p c"
  using assms
proof (induction "if arrived m (get s) then 0 else Suc j" arbitrary: j s t rule: less_induct)
  case less
  let ?i = "DataINPipeNumber m" and ?o = "DataOUTPipeNumber m" and ?h = "get s"
  have n: "?i \<noteq> 0" "?i \<le> 7" "?o \<noteq> 0" "?o \<le> 7" using less.prems(1) by (simp_all add: settled_def)
  have cur: "pcur ?h = pipes ?h ?i" using less.prems(2) by (simp add: pcur_def)
  have inr: "Pipe_IsINReceived io s = (arrived m ?h, put (turn dv ?h) s)"
    using in_received [of s] n(1) less.prems(1,2) cur by (simp add: settled_def arrived_def)
  note t1 = turn_in [OF less.prems(1-4)]
  show ?case
  proof (cases "arrived m ?h")
    case True
    let ?k = "frz (sel ?o (frz (sel ?i (turn dv ?h))))"
    have "data_wait_loop io psize m t s = Some (0, put ?k s)"
      using inr True n by (subst data_wait_loop.simps) (simp add: Let_def freeze_frz get_put put_put)
    moreover have "arriving dv m 0 (turn dv ?h) p c"
      using t1(3) t1(4) True by (simp add: arriving_def arrived_def Let_def)
    ultimately show ?thesis using t1 True by (intro exI [of _ ?k]) simp
  next
    case False
    have u1: "upnum (turn dv ?h) = ?i" "\<not> p_frozen (pcur (turn dv ?h))"
      using hframe_pcur [OF hframe_turn [of ?h dv]] less.prems(2,3) by simp_all
    have "\<exists>k t'. data_wait_round io psize m t (put (turn dv ?h) s) = Some (Next t', put k (put (turn dv ?h) s)) \<and> t - 1 \<le> t' \<and>
      settled m k \<and> same_pipes m (get (put (turn dv ?h) s)) k \<and> upnum k = ?i \<and> \<not> p_frozen (pcur k) \<and>
      arriving dv m (j - 1 - 1) k p c \<and> (j - 1 = 0 \<or> arrived m (get (put (turn dv ?h) s)) \<longrightarrow> arrived m k)"
      by (rule data_round) (use t1 u1 less.prems(5) False in \<open>simp_all add: get_put\<close>)
    then obtain k t' where k: "data_wait_round io psize m t (put (turn dv ?h) s) = Some (Next t', put k s)" "t - 1 \<le> t'"
      "settled m k" "same_pipes m (turn dv ?h) k" "upnum k = ?i" "\<not> p_frozen (pcur k)" "arriving dv m (j - 1 - 1) k p c"
      "j - 1 = 0 \<longrightarrow> arrived m k"
      by (auto simp: get_put put_put)
    have step: "data_wait_loop io psize m t s = data_wait_loop io psize m t' (put k s)"
      using inr False k(1) by (subst data_wait_loop.simps) simp
    have "\<exists>l. data_wait_loop io psize m t' (put k s) = Some (0, put l (put k s)) \<and> settled m l \<and>
        same_pipes m (get (put k s)) l \<and> arrived m l \<and> arriving dv m 0 l p c"
    proof (rule less.hyps [where j = "j - 1 - 1"])
      show "(if arrived m (get (put k s)) then 0 else Suc (j - 1 - 1)) < (if arrived m ?h then 0 else Suc j)"
        using False k(8) by (auto simp: get_put)
      show "arrived m (get (put k s)) \<or> j - 1 - 1 + 2 \<le> t'"
        using k(2,8) less.prems(5) False by (cases "j - 1 = 0") (auto simp: get_put)
    qed (use k in \<open>simp_all add: get_put\<close>)
    then obtain l where l: "data_wait_loop io psize m t' (put k s) = Some (0, put l s)" "settled m l" "same_pipes m k l"
      "arrived m l" "arriving dv m 0 l p c"
      by (auto simp: get_put put_put)
    have "same_pipes m ?h l" by (rule same_pipes_trans [OF same_pipes_trans [OF t1(2) k(4)] l(3)])
    then show ?thesis unfolding step using l by blast
  qed
qed

lemma wait_for_data:
  assumes "settled m (get s)" "arriving dv m j (get s) p c" "j + 2 \<le> COMMAND_DATA_TIMEOUT_MS"
  shows "\<exists>k. MS_Host_WaitForDataReceived io psize m s = Some (0, put k s) \<and> settled m k \<and> same_pipes m (get s) k \<and>
    arrived m k \<and> arriving dv m 0 k p c"
proof -
  let ?u = "unf (sel (DataINPipeNumber m) (get s))"
  have n: "DataINPipeNumber m \<noteq> 0" "DataINPipeNumber m \<le> 7" using assms(1) by (simp_all add: settled_def)
  have "\<exists>k. data_wait_loop io psize m COMMAND_DATA_TIMEOUT_MS (put ?u s) = Some (0, put k (put ?u s)) \<and> settled m k \<and>
      same_pipes m (get (put ?u s)) k \<and> arrived m k \<and> arriving dv m 0 k p c"
    by (rule data_wait [where j = j]) (use assms in \<open>simp_all add: get_put\<close>)
  then obtain k where k: "data_wait_loop io psize m COMMAND_DATA_TIMEOUT_MS (put ?u s) = Some (0, put k s)" "settled m k"
    "same_pipes m ?u k" "arrived m k" "arriving dv m 0 k p c"
    by (auto simp: get_put put_put)
  have "same_pipes m (get s) k" by (rule same_pipes_trans [OF _ k(3)]) simp
  then show ?thesis
    using k n by (intro exI [of _ k]) (simp add: MS_Host_WaitForDataReceived_def freeze_frz get_put put_put)
qed

end

section \<open>Between two phases of a command\<close>

definition idle_pipes :: "MS_Host \<Rightarrow> 'p hctl \<Rightarrow> bool" where
  "idle_pipes m h \<longleftrightarrow> settled m h \<and> \<not> arrived m h"

lemma idle_answer: "idle_pipes m h \<Longrightarrow> answer dv j (p_num (pipes h (DataINPipeNumber m))) (peer h) p c \<Longrightarrow> arriving dv m j h p c"
  by (simp add: idle_pipes_def arriving_def arrived_def Let_def)

lemma idle_moves [simp]: "idle_pipes m (frz h) = idle_pipes m h" "idle_pipes m (unf h) = idle_pipes m h"
  "idle_pipes m (sel n h) = idle_pipes m h"
  by (simp_all add: idle_pipes_def)

lemma in_released:
  assumes "settled m h" "upnum h = DataINPipeNumber m"
  shows "idle_pipes m (upd_pipe (\<lambda>e. e\<lparr>p_fifo := [], p_full := False\<rparr>) h)"
    "same_pipes m h (upd_pipe (\<lambda>e. e\<lparr>p_fifo := [], p_full := False\<rparr>) h)"
proof -
  let ?k = "upd_pipe (\<lambda>e. e\<lparr>p_fifo := [], p_full := False\<rparr>) h"
  have f: "hframe h ?k" by (rule hframe_pipe) simp_all
  have "\<not> arrived m ?k" using assms(2) by (simp add: arrived_def upd_pipe_def)
  then show "idle_pipes m ?k" "same_pipes m h ?k" using frame_pipes [OF assms(1) f assms(2)] by (simp_all add: idle_pipes_def)
qed

lemma frame_out:
  assumes "idle_pipes m h" "hframe h k" "upnum h = DataOUTPipeNumber m" "\<not> p_full (pcur k)" "p_fifo (pcur k) = []"
  shows "idle_pipes m k" "same_pipes m h k"
proof -
  let ?i = "DataINPipeNumber m" and ?o = "DataOUTPipeNumber m"
  have "?i \<noteq> upnum h" using assms(1,3) by (auto simp: idle_pipes_def settled_def)
  then have i: "pipes k ?i = pipes h ?i" using assms(2) unfolding hframe_def by blast
  have o: "pcur k = pipes k ?o" "pcur h = pipes h ?o" using assms(2,3) by (simp_all add: pcur_def hframe_def)
  have "p_cfg0 (pipes k ?o) = p_cfg0 (pipes h ?o)" using assms(2) o by (simp add: hframe_def)
  then show "idle_pipes m k" "same_pipes m h k"
    using assms(1,4,5) hframe_pcur [OF assms(2)] i unfolding idle_pipes_def settled_def same_pipes_def arrived_def o by simp_all
qed

text \<open>The packets a stream of bytes makes when its last packet is released.\<close>

definition all_packets :: "nat \<Rightarrow> u8 list \<Rightarrow> u8 list list" where
  "all_packets sz bytes = fst (pack sz [] bytes) @ [snd (pack sz [] bytes)]"

lemma all_packets_concat: "concat (all_packets sz bytes) = bytes"
  using pack_concat [of sz "[]" bytes] by (simp add: all_packets_def)

context pipe_bus
begin

abbreviation (input) in_num :: "MS_Host \<Rightarrow> 'h \<Rightarrow> u8" where
  "in_num m s \<equiv> p_num (pipes (get s) (DataINPipeNumber m))"

abbreviation (input) out_num :: "MS_Host \<Rightarrow> 'h \<Rightarrow> u8" where
  "out_num m s \<equiv> p_num (pipes (get s) (DataOUTPipeNumber m))"

text \<open>Reading the packet that has arrived and those behind it, and giving the last bank up.\<close>

lemma read_arrived:
  assumes "settled m (get s)" "arriving dv m 0 (get s) p c" "supplies dv (in_num m s) c ps d"
    "spans n p ps"
  shows "\<exists>k l. Pipe_Read_Stream_LE io None n (put (unf (sel (DataINPipeNumber m) (get s))) s) =
      Some (0, take n (p @ concat ps), put k s) \<and>
    Pipe_Freeze io (Pipe_ClearIN io (put k s)) = put l s \<and> idle_pipes m l \<and> same_pipes m (get s) l \<and> peer l = d"
proof -
  let ?i = "DataINPipeNumber m"
  let ?h = "unf (sel ?i (get s))"
  have h: "settled m ?h" "upnum ?h = ?i" "arriving dv m 0 ?h p c" using assms(1,2) by simp_all
  have cur: "pcur ?h = pipes ?h ?i" using h(2) by (simp add: pcur_def)
  have nf: "\<not> p_frozen (pipes ?h ?i)" using unf_live [of "sel ?i (get s)"] unfolding cur .
  have l: "live ?h" "p_in (pcur ?h)" "coming dv 0 ?h p c" "p_num (pcur ?h) = in_num m s"
    using h cur nf by (simp_all add: live_def settled_def coming_def loaded_def arriving_def Let_def)
  have "\<exists>k q. Pipe_Read_Stream_LE io None n (put ?h s) = Some (0, take n (p @ concat ps), put k (put ?h s)) \<and>
      hframe (get (put ?h s)) k \<and> loaded k q d"
    by (rule read_pipe_stream) (use l assms(3,4) in \<open>simp_all only: get_put\<close>, simp_all)
  then obtain k q where k: "Pipe_Read_Stream_LE io None n (put ?h s) = Some (0, take n (p @ concat ps), put k s)" "hframe ?h k" "loaded k q d"
    by (auto simp: get_put put_put)
  have u: "upnum k = ?i" "upnum k \<noteq> 0" "p_in (pcur k)" "p_full (pcur k)" "peer k = d"
    using hframe_pcur [OF k(2)] h(2) l(1,2) k(3) by (simp_all add: live_def loaded_def)
  note f = frame_pipes [OF h(1) k(2) h(2)]
  let ?l = "upd_pipe (\<lambda>e. e\<lparr>p_fifo := [], p_full := False\<rparr>) k"
  note r = in_released [OF f(1) u(1)]
  have "Pipe_Freeze io (Pipe_ClearIN io (put k s)) = put (frz ?l) s"
    using clear_in [of "put k s"] u(2-4) by (simp add: freeze_frz get_put put_put)
  moreover have "same_pipes m (get s) ?l" by (rule same_pipes_trans [OF same_pipes_trans [OF _ f(2)] r(2)]) simp
  ultimately show ?thesis
    using k(1) r(1) u(5) by (intro exI [of _ k] exI [of _ "frz ?l"]) simp
qed

lemma returned_status:
  assumes "idle_pipes m (get s)" "answer dv j (in_num m s) (peer (get s)) csw c" "13 \<le> length csw"
    "j + 2 \<le> COMMAND_DATA_TIMEOUT_MS"
  shows "\<exists>k. MS_Host_GetReturnedStatus io psize m s =
      Some (if csw ! 12 \<noteq> SCSI_Command_Pass then MS_ERROR_LOGICAL_CMD_FAILED else 0, put k s) \<and>
    idle_pipes m k \<and> same_pipes m (get s) k \<and> peer k = c"
proof -
  have n: "DataINPipeNumber m \<noteq> 0" "DataINPipeNumber m \<le> 7" "settled m (get s)"
    using assms(1) by (simp_all add: idle_pipes_def settled_def)
  obtain k where k: "MS_Host_WaitForDataReceived io psize m s = Some (0, put k s)" "settled m k" "same_pipes m (get s) k"
    "arriving dv m 0 k csw c"
    using wait_for_data [OF n(3) idle_answer [OF assms(1,2)] assms(4)] by blast
  have "\<exists>k' l. Pipe_Read_Stream_LE io None 13 (put (unf (sel (DataINPipeNumber m) (get (put k s)))) (put k s)) =
      Some (0, take 13 (csw @ concat []), put k' (put k s)) \<and>
    Pipe_Freeze io (Pipe_ClearIN io (put k' (put k s))) = put l (put k s) \<and> idle_pipes m l \<and> same_pipes m (get (put k s)) l \<and> peer l = c"
    by (rule read_arrived [where c = c]) (use k(2,4) assms(3) in \<open>simp_all add: get_put\<close>)
  then obtain k' l where l: "Pipe_Read_Stream_LE io None 13 (put (unf (sel (DataINPipeNumber m) k)) s) = Some (0, take 13 csw, put k' s)"
    "Pipe_Freeze io (Pipe_ClearIN io (put k' s)) = put l s" "idle_pipes m l" "same_pipes m k l" "peer l = c"
    by (auto simp: get_put put_put)
  have "same_pipes m (get s) l" by (rule same_pipes_trans [OF k(3) l(4)])
  then show ?thesis
    using k(1) l n by (intro exI [of _ l]) (simp add: MS_Host_GetReturnedStatus_def freeze_frz get_put put_put)
qed

lemma data_received:
  assumes "idle_pipes m (get s)" "answer dv j (in_num m s) (peer (get s)) p c" "supplies dv (in_num m s) c ps d"
    "spans (unat BytesRem) p ps" "j + 2 \<le> COMMAND_DATA_TIMEOUT_MS"
  shows "\<exists>k. receive_data io psize m BytesRem mem s = Some (0, take (unat BytesRem) (p @ concat ps) @ drop (unat BytesRem) mem, put k s) \<and>
    idle_pipes m k \<and> same_pipes m (get s) k \<and> peer k = d"
proof -
  have n: "DataINPipeNumber m \<noteq> 0" "DataINPipeNumber m \<le> 7" "settled m (get s)"
    using assms(1) by (simp_all add: idle_pipes_def settled_def)
  obtain k where k: "MS_Host_WaitForDataReceived io psize m s = Some (0, put k s)" "settled m k" "same_pipes m (get s) k"
    "arriving dv m 0 k p c"
    using wait_for_data [OF n(3) idle_answer [OF assms(1,2)] assms(5)] by blast
  have num: "p_num (pipes k (DataINPipeNumber m)) = in_num m s" using k(3) by (simp add: same_pipes_def)
  have "\<exists>k' l. Pipe_Read_Stream_LE io None (unat BytesRem) (put (unf (sel (DataINPipeNumber m) (get (put k s)))) (put k s)) =
      Some (0, take (unat BytesRem) (p @ concat ps), put k' (put k s)) \<and>
    Pipe_Freeze io (Pipe_ClearIN io (put k' (put k s))) = put l (put k s) \<and> idle_pipes m l \<and> same_pipes m (get (put k s)) l \<and> peer l = d"
    by (rule read_arrived [where c = c]) (use k(2,4) num assms(3,4) in \<open>simp_all add: get_put\<close>)
  then obtain k' l where l: "Pipe_Read_Stream_LE io None (unat BytesRem) (put (unf (sel (DataINPipeNumber m) k)) s) =
      Some (0, take (unat BytesRem) (p @ concat ps), put k' s)"
    "Pipe_Freeze io (Pipe_ClearIN io (put k' s)) = put l s" "idle_pipes m l" "same_pipes m k l" "peer l = d"
    by (auto simp: get_put put_put)
  have "same_pipes m (get s) l" by (rule same_pipes_trans [OF k(3) l(4)])
  moreover have all: "min (length p) (unat BytesRem) + min (length (concat ps)) (unat BytesRem - length p) = unat BytesRem"
    using spans_length [OF assms(4)] by arith
  ultimately show ?thesis
    using k(1) l n all by (intro exI [of _ l]) (simp add: receive_data_def freeze_frz get_put put_put)
qed

text \<open>Sending bytes and giving the last bank up.\<close>

lemma out_ready_ends:
  assumes "live (get s)" "\<not> p_in (pcur (get s))"
  shows "\<exists>k. out_ready_wait io s = Some (True, put k s) \<and> delivered (get s) k"
proof -
  have u: "upnum (get s) \<noteq> 0" "h_state (get s) \<noteq> HOST_STATE_Unattached" using assms(1) by (simp_all add: live_def)
  let ?d = "turn dv (get s)"
  have d: "delivered (get s) ?d" by (rule turn_delivered [OF assms])
  have i: "turn dv ?d = ?d" using d assms(2) by (intro turn_idle) (simp add: delivered_def)
  have rd: "Pipe_IsOUTReady io (put ?d s) = (True, put ?d s)"
    using out_ready [of "put ?d s"] u(1) assms(2) i d by (simp add: get_put put_put delivered_def)
  have "out_ready_wait io (put ?d s) = Some (True, put ?d s)" by (subst out_ready_wait.simps) (simp add: rd)
  then have "out_ready_wait io s = Some (True, put ?d s)"
    using out_ready [OF u(1) assms(2)] u(2) by (subst out_ready_wait.simps) (simp add: host_state get_put)
  then show ?thesis using d by blast
qed

lemma stream_out:
  assumes "idle_pipes m (get s)"
  shows "\<exists>k. Pipe_Write_Stream_LE io None bytes (put (unf (sel (DataOUTPipeNumber m) (get s))) s) = Some (0, put k s) \<and>
    Pipe_ClearOUT io (put k s) = put (upd_pipe (\<lambda>e. e\<lparr>p_full := True\<rparr>) k) s \<and>
    live (upd_pipe (\<lambda>e. e\<lparr>p_full := True\<rparr>) k) \<and> \<not> p_in (pcur (upd_pipe (\<lambda>e. e\<lparr>p_full := True\<rparr>) k)) \<and>
    (\<forall>l. delivered (upd_pipe (\<lambda>e. e\<lparr>p_full := True\<rparr>) k) l \<longrightarrow> idle_pipes m l \<and> same_pipes m (get s) l \<and> upnum l \<noteq> 0 \<and>
      peer l = fold (give dv (out_num m s)) (all_packets (h_size (get s)) bytes) (peer (get s)))"
proof -
  let ?o = "DataOUTPipeNumber m"
  let ?h = "unf (sel ?o (get s))"
  have h: "idle_pipes m ?h" "upnum ?h = ?o" using assms by simp_all
  have cur: "pcur ?h = pipes ?h ?o" using h(2) by (simp add: pcur_def)
  have nf: "\<not> p_frozen (pipes ?h ?o)" using unf_live [of "sel ?o (get s)"] unfolding cur .
  have l: "live ?h" "p_cfg0 (pcur ?h) AND PIPE_TOKEN_MASK = PIPE_TOKEN_OUT" "\<not> p_full (pcur ?h)" "0 < h_size ?h"
    "p_fifo (pcur ?h) = []" "\<not> p_in (pcur ?h)" "p_num (pcur ?h) = out_num m s" "h_size ?h = h_size (get s)"
    using h(1,2) cur nf by (simp_all add: live_def idle_pipes_def settled_def p_in_def)
  have "\<exists>k. Pipe_Write_Stream_LE io None bytes (put ?h s) = Some (0, put k (put ?h s)) \<and> hframe (get (put ?h s)) k \<and>
      \<not> p_full (pcur k) \<and> p_fifo (pcur k) = snd (pack (h_size (get (put ?h s))) [] bytes) \<and>
      peer k = fold (give dv (p_num (pcur (get (put ?h s))))) (fst (pack (h_size (get (put ?h s))) [] bytes)) (peer (get (put ?h s)))"
    by (rule write_pipe_stream) (use l in \<open>simp_all only: get_put simp_thms\<close>)
  then obtain k where k: "Pipe_Write_Stream_LE io None bytes (put ?h s) = Some (0, put k s)" "hframe ?h k" "\<not> p_full (pcur k)"
    "p_fifo (pcur k) = snd (pack (h_size (get s)) [] bytes)"
    "peer k = fold (give dv (out_num m s)) (fst (pack (h_size (get s)) [] bytes)) (peer (get s))"
    using l(7,8) by (auto simp: get_put put_put)
  let ?k = "upd_pipe (\<lambda>e. e\<lparr>p_full := True\<rparr>) k"
  have ku: "upnum k \<noteq> 0" "\<not> p_in (pcur k)" using hframe_pcur [OF k(2)] l(1,6) by (simp_all add: live_def)
  have f: "hframe ?h ?k" by (rule hframe_trans [OF k(2) hframe_pipe]) simp_all
  have "Pipe_ClearOUT io (put k s) = put ?k s" using clear_out [of "put k s"] ku k(3) by (simp add: get_put put_put)
  moreover have "live ?k" "\<not> p_in (pcur ?k)" using live_frame [OF l(1) f] hframe_pcur [OF f] l(6) by simp_all
  moreover have "idle_pipes m l' \<and> same_pipes m (get s) l' \<and> upnum l' \<noteq> 0 \<and>
      peer l' = fold (give dv (out_num m s)) (all_packets (h_size (get s)) bytes) (peer (get s))"
    if d: "delivered ?k l'" for l'
  proof -
    have fl: "hframe ?h l'" "\<not> p_full (pcur l')" "p_fifo (pcur l') = []"
      using d hframe_trans [OF f] by (simp_all add: delivered_def)
    note fo = frame_out [OF h(1) fl(1) h(2) fl(2,3)]
    have "p_num (pcur ?k) = out_num m s" using hframe_pcur [OF f] l(7) by simp
    then have "peer l' = give dv (out_num m s) (p_fifo (pcur k)) (peer k)" using d by (simp add: delivered_def)
    moreover have "upnum l' \<noteq> 0" using hframe_pcur [OF fl(1)] l(1) by (simp add: live_def)
    moreover have "same_pipes m (get s) l'" by (rule same_pipes_trans [OF _ fo(2)]) simp
    ultimately show ?thesis using fo(1) k(4,5) by (simp add: all_packets_def)
  qed
  ultimately show ?thesis using k(1) by blast
qed

end

section \<open>Whole commands\<close>

lemma next_tag_same [simp]: "DataINPipeNumber (snd (next_tag m)) = DataINPipeNumber m"
  "DataOUTPipeNumber (snd (next_tag m)) = DataOUTPipeNumber m" "IsActive (snd (next_tag m)) = IsActive m"
  by (simp_all add: next_tag_def Let_def)

lemma next_tag_pipes [simp]: "idle_pipes (snd (next_tag m)) h = idle_pipes m h"
  "same_pipes (snd (next_tag m)) h k = same_pipes m h k"
  by (simp_all add: idle_pipes_def settled_def arrived_def same_pipes_def)

definition tagged :: "MS_Host \<Rightarrow> MS_CommandBlockWrapper_t \<Rightarrow> MS_CommandBlockWrapper_t" where
  "tagged m cbw = cbw\<lparr>Tag := fst (next_tag m)\<rparr>"

definition status_code :: "u8 list \<Rightarrow> u8" where
  "status_code csw = (if csw ! 12 \<noteq> SCSI_Command_Pass then MS_ERROR_LOGICAL_CMD_FAILED else 0)"

context pipe_bus
begin

text \<open>The device's state after it has got bytes from the interface's OUT pipe.\<close>

definition fed :: "MS_Host \<Rightarrow> 'h \<Rightarrow> u8 list \<Rightarrow> 'p \<Rightarrow> 'p" where
  "fed m s bytes b = fold (give dv (out_num m s)) (all_packets (h_size (get s)) bytes) b"

text \<open>The wrapper goes out; what follows depends on the buffer.\<close>

lemma send_wrapper:
  assumes "idle_pipes m (get s)"
  shows "\<exists>k. MS_Host_SendCommand io psize m cbw BufferPtr s =
      (case BufferPtr of None \<Rightarrow> Some (0, None, snd (next_tag m), put k s)
       | Some mem \<Rightarrow> do {
           (e, mem, t) \<leftarrow> MS_Host_SendReceiveData io psize (snd (next_tag m)) (tagged m cbw) mem (put k s);
           Some (e, Some mem, snd (next_tag m), if e \<noteq> 0 then Pipe_Freeze io t else t) }) \<and>
    idle_pipes m k \<and> same_pipes m (get s) k \<and> peer k = fed m s (cbw_bytes (tagged m cbw)) (peer (get s))"
proof -
  let ?o = "DataOUTPipeNumber m" and ?h = "unf (sel (DataOUTPipeNumber m) (get s))"
  have n: "?o \<noteq> 0" "?o \<le> 7" using assms by (simp_all add: idle_pipes_def settled_def)
  obtain k where k: "Pipe_Write_Stream_LE io None (cbw_bytes (tagged m cbw)) (put ?h s) = Some (0, put k s)"
    "Pipe_ClearOUT io (put k s) = put (upd_pipe (\<lambda>e. e\<lparr>p_full := True\<rparr>) k) s"
    "live (upd_pipe (\<lambda>e. e\<lparr>p_full := True\<rparr>) k)" "\<not> p_in (pcur (upd_pipe (\<lambda>e. e\<lparr>p_full := True\<rparr>) k))"
    "\<forall>l. delivered (upd_pipe (\<lambda>e. e\<lparr>p_full := True\<rparr>) k) l \<longrightarrow> idle_pipes m l \<and> same_pipes m (get s) l \<and> upnum l \<noteq> 0 \<and>
      peer l = fed m s (cbw_bytes (tagged m cbw)) (peer (get s))"
    using stream_out [OF assms, of "cbw_bytes (tagged m cbw)"] unfolding fed_def by blast
  let ?k = "upd_pipe (\<lambda>e. e\<lparr>p_full := True\<rparr>) k"
  have "\<exists>l. pipe_wait_loop io HOST_STREAM_TIMEOUT_MS (put ?k s) = Some (0, put l (put ?k s)) \<and> delivered (get (put ?k s)) l"
    by (rule wait_out) (use k(3,4) in \<open>simp_all only: get_put\<close>, simp)
  then obtain l where l: "Pipe_WaitUntilReady io (put ?k s) = Some (0, put l s)" "delivered ?k l"
    by (auto simp: get_put put_put Pipe_WaitUntilReady_def)
  have r: "idle_pipes m l" "same_pipes m (get s) l" "upnum l \<noteq> 0" "peer l = fed m s (cbw_bytes (tagged m cbw)) (peer (get s))"
    using k(5) l(2) by blast+
  have "MS_Host_SendCommand io psize m cbw BufferPtr s =
      (case BufferPtr of None \<Rightarrow> Some (0, None, snd (next_tag m), put (frz l) s)
       | Some mem \<Rightarrow> do {
           (e, mem, t) \<leftarrow> MS_Host_SendReceiveData io psize (snd (next_tag m)) (tagged m cbw) mem (put (frz l) s);
           Some (e, Some mem, snd (next_tag m), if e \<noteq> 0 then Pipe_Freeze io t else t) })"
    using n k(1,2) l(1) r(3)
    by (cases BufferPtr) (simp_all add: MS_Host_SendCommand_def split_beta freeze_frz get_put put_put flip: tagged_def)
  then show ?thesis using r by (intro exI [of _ "frz l"]) simp
qed

text \<open>A command without data.\<close>

lemma plain_command:
  assumes "idle_pipes m (get s)" "h_state (get s) = HOST_STATE_Configured" "IsActive m"
    "answer dv j (in_num m s) (fed m s (cbw_bytes (tagged m cbw)) (peer (get s))) csw c" "13 \<le> length csw"
    "j + 2 \<le> COMMAND_DATA_TIMEOUT_MS"
  shows "\<exists>k. host_command io psize cbw None fix m s = Some (status_code csw, None, snd (next_tag m), put k s) \<and>
    idle_pipes m k \<and> same_pipes m (get s) k \<and> peer k = c"
proof -
  obtain k where k: "MS_Host_SendCommand io psize m cbw None s = Some (0, None, snd (next_tag m), put k s)" "idle_pipes m k"
    "same_pipes m (get s) k" "peer k = fed m s (cbw_bytes (tagged m cbw)) (peer (get s))"
    using send_wrapper [OF assms(1), of psize cbw None] by auto
  have "\<exists>l. MS_Host_GetReturnedStatus io psize (snd (next_tag m)) (put k s) =
      Some (if csw ! 12 \<noteq> SCSI_Command_Pass then MS_ERROR_LOGICAL_CMD_FAILED else 0, put l (put k s)) \<and>
    idle_pipes (snd (next_tag m)) l \<and> same_pipes (snd (next_tag m)) (get (put k s)) l \<and> peer l = c"
    by (rule returned_status [where j = j]) (use k(2-4) assms(4-6) in \<open>simp_all add: get_put same_pipes_def\<close>)
  then obtain l where l: "MS_Host_GetReturnedStatus io psize (snd (next_tag m)) (put k s) = Some (status_code csw, put l s)"
    "idle_pipes m l" "same_pipes m k l" "peer l = c"
    by (auto simp: get_put put_put status_code_def)
  have "same_pipes m (get s) l" by (rule same_pipes_trans [OF k(3) l(3)])
  then show ?thesis
    using assms(2,3) k(1) l by (intro exI [of _ l]) (simp add: host_command_def host_state)
qed

text \<open>A command that asks for data.\<close>

lemma reading_command:
  assumes "idle_pipes m (get s)" "h_state (get s) = HOST_STATE_Configured" "IsActive m"
    "Flags cbw AND COMMAND_DIRECTION_DATA_IN \<noteq> 0" "n = unat (ucast (DataTransferLength cbw) :: u16)"
    "answer dv j (in_num m s) (fed m s (cbw_bytes (tagged m cbw)) (peer (get s))) p c"
    "supplies dv (in_num m s) c ps d" "spans n p ps"
    "answer dv j' (in_num m s) d csw e" "13 \<le> length csw" "j + 2 \<le> COMMAND_DATA_TIMEOUT_MS" "j' + 2 \<le> COMMAND_DATA_TIMEOUT_MS"
  shows "\<exists>k. host_command io psize cbw (Some mem) fix m s =
      Some (status_code csw, Some (fix (take n (p @ concat ps) @ drop n mem)), snd (next_tag m), put k s) \<and>
    idle_pipes m k \<and> same_pipes m (get s) k \<and> peer k = e"
proof -
  let ?m = "snd (next_tag m)"
  obtain k where k: "MS_Host_SendCommand io psize m cbw (Some mem) s = do {
       (e, mem, t) \<leftarrow> MS_Host_SendReceiveData io psize ?m (tagged m cbw) mem (put k s);
       Some (e, Some mem, ?m, if e \<noteq> 0 then Pipe_Freeze io t else t) }" "idle_pipes m k"
    "same_pipes m (get s) k" "peer k = fed m s (cbw_bytes (tagged m cbw)) (peer (get s))"
    using send_wrapper [OF assms(1), of psize cbw "Some mem"] by auto
  have num: "p_num (pipes k (DataINPipeNumber m)) = in_num m s" using k(3) by (simp add: same_pipes_def)
  have "\<exists>l. receive_data io psize ?m (ucast (DataTransferLength cbw)) mem (put k s) =
      Some (0, take (unat (ucast (DataTransferLength cbw) :: u16)) (p @ concat ps) @ drop (unat (ucast (DataTransferLength cbw) :: u16)) mem, put l (put k s)) \<and>
    idle_pipes ?m l \<and> same_pipes ?m (get (put k s)) l \<and> peer l = d"
    by (rule data_received [where j = j and c = c]) (use k(2,4) num assms(5-8,11) in \<open>simp_all add: get_put\<close>)
  then obtain l where l: "receive_data io psize ?m (ucast (DataTransferLength cbw)) mem (put k s) =
      Some (0, take n (p @ concat ps) @ drop n mem, put l s)" "idle_pipes m l" "same_pipes m k l" "peer l = d"
    using assms(5) by (auto simp: get_put put_put)
  have sl: "same_pipes m (get s) l" by (rule same_pipes_trans [OF k(3) l(3)])
  have sent: "MS_Host_SendCommand io psize m cbw (Some mem) s = Some (0, Some (take n (p @ concat ps) @ drop n mem), ?m, put l s)"
    using k(1) l(1) assms(4) by (simp add: MS_Host_SendReceiveData_def tagged_def)
  have "\<exists>q. MS_Host_GetReturnedStatus io psize ?m (put l s) =
      Some (if csw ! 12 \<noteq> SCSI_Command_Pass then MS_ERROR_LOGICAL_CMD_FAILED else 0, put q (put l s)) \<and>
    idle_pipes ?m q \<and> same_pipes ?m (get (put l s)) q \<and> peer q = e"
    by (rule returned_status [where j = j']) (use l(2,4) sl assms(9,10,12) in \<open>simp_all add: get_put same_pipes_def\<close>)
  then obtain q where q: "MS_Host_GetReturnedStatus io psize ?m (put l s) = Some (status_code csw, put q s)"
    "idle_pipes m q" "same_pipes m l q" "peer q = e"
    by (auto simp: get_put put_put status_code_def)
  have "same_pipes m (get s) q" by (rule same_pipes_trans [OF sl q(3)])
  then show ?thesis
    using assms(2,3) sent q by (intro exI [of _ q]) (simp add: host_command_def host_state)
qed

text \<open>A command that brings data.\<close>

lemma writing_command:
  assumes "idle_pipes m (get s)" "h_state (get s) = HOST_STATE_Configured" "IsActive m"
    "Flags cbw AND COMMAND_DIRECTION_DATA_IN = 0" "n = unat (ucast (DataTransferLength cbw) :: u16)"
    "answer dv j (in_num m s) (fed m s (take n mem) (fed m s (cbw_bytes (tagged m cbw)) (peer (get s)))) csw c"
    "13 \<le> length csw" "j + 2 \<le> COMMAND_DATA_TIMEOUT_MS"
  shows "\<exists>k. host_command io psize cbw (Some mem) fix m s = Some (status_code csw, Some (fix mem), snd (next_tag m), put k s) \<and>
    idle_pipes m k \<and> same_pipes m (get s) k \<and> peer k = c"
proof -
  let ?m = "snd (next_tag m)" and ?o = "DataOUTPipeNumber m"
  obtain k where k: "MS_Host_SendCommand io psize m cbw (Some mem) s = do {
       (e, mem, t) \<leftarrow> MS_Host_SendReceiveData io psize ?m (tagged m cbw) mem (put k s);
       Some (e, Some mem, ?m, if e \<noteq> 0 then Pipe_Freeze io t else t) }" "idle_pipes m k"
    "same_pipes m (get s) k" "peer k = fed m s (cbw_bytes (tagged m cbw)) (peer (get s))"
    using send_wrapper [OF assms(1), of psize cbw "Some mem"] by auto
  have n: "?o \<noteq> 0" "?o \<le> 7" using assms(1) by (simp_all add: idle_pipes_def settled_def)
  have fk: "fed m (put k s) bytes = fed m s bytes" for bytes
    using k(3) by (simp add: fed_def get_put same_pipes_def fun_eq_iff)
  have "\<exists>l. Pipe_Write_Stream_LE io None (take n mem) (put (unf (sel ?o (get (put k s)))) (put k s)) = Some (0, put l (put k s)) \<and>
    Pipe_ClearOUT io (put l (put k s)) = put (upd_pipe (\<lambda>e. e\<lparr>p_full := True\<rparr>) l) (put k s) \<and>
    live (upd_pipe (\<lambda>e. e\<lparr>p_full := True\<rparr>) l) \<and> \<not> p_in (pcur (upd_pipe (\<lambda>e. e\<lparr>p_full := True\<rparr>) l)) \<and>
    (\<forall>q. delivered (upd_pipe (\<lambda>e. e\<lparr>p_full := True\<rparr>) l) q \<longrightarrow> idle_pipes m q \<and> same_pipes m (get (put k s)) q \<and> upnum q \<noteq> 0 \<and>
      peer q = fed m (put k s) (take n mem) (peer (get (put k s))))"
    unfolding fed_def by (rule stream_out) (simp add: get_put k(2))
  then obtain l where l: "Pipe_Write_Stream_LE io None (take n mem) (put (unf (sel ?o k)) s) = Some (0, put l s)"
    "Pipe_ClearOUT io (put l s) = put (upd_pipe (\<lambda>e. e\<lparr>p_full := True\<rparr>) l) s"
    "live (upd_pipe (\<lambda>e. e\<lparr>p_full := True\<rparr>) l)" "\<not> p_in (pcur (upd_pipe (\<lambda>e. e\<lparr>p_full := True\<rparr>) l))"
    "\<forall>q. delivered (upd_pipe (\<lambda>e. e\<lparr>p_full := True\<rparr>) l) q \<longrightarrow> idle_pipes m q \<and> same_pipes m k q \<and> upnum q \<noteq> 0 \<and>
      peer q = fed m s (take n mem) (peer k)"
    unfolding fk get_put put_put by blast
  let ?l = "upd_pipe (\<lambda>e. e\<lparr>p_full := True\<rparr>) l"
  have "\<exists>q. out_ready_wait io (put ?l s) = Some (True, put q (put ?l s)) \<and> delivered (get (put ?l s)) q"
    by (rule out_ready_ends) (use l(3,4) in \<open>simp_all only: get_put simp_thms\<close>)
  then obtain q where q: "out_ready_wait io (put ?l s) = Some (True, put q s)" "delivered ?l q"
    by (auto simp: get_put put_put)
  have r: "idle_pipes m q" "same_pipes m k q" "upnum q \<noteq> 0" "peer q = fed m s (take n mem) (peer k)" using l(5) q(2) by blast+
  have "send_data io ?m (ucast (DataTransferLength cbw)) mem (put k s) = Some (0, put (frz q) s)"
    using n l(1,2) q(1) r(3) assms(5) by (simp add: send_data_def freeze_frz get_put put_put)
  then have sent: "MS_Host_SendCommand io psize m cbw (Some mem) s = Some (0, Some mem, ?m, put (frz q) s)"
    using k(1) assms(4) by (simp add: MS_Host_SendReceiveData_def tagged_def)
  have sq: "same_pipes m (get s) (frz q)" using same_pipes_trans [OF k(3) r(2)] by simp
  have "\<exists>z. MS_Host_GetReturnedStatus io psize ?m (put (frz q) s) =
      Some (if csw ! 12 \<noteq> SCSI_Command_Pass then MS_ERROR_LOGICAL_CMD_FAILED else 0, put z (put (frz q) s)) \<and>
    idle_pipes ?m z \<and> same_pipes ?m (get (put (frz q) s)) z \<and> peer z = c"
    by (rule returned_status [where j = j])
      (use r(1,4) sq k(4) assms(6-8) in \<open>simp_all add: get_put same_pipes_def\<close>)
  then obtain z where z: "MS_Host_GetReturnedStatus io psize ?m (put (frz q) s) = Some (status_code csw, put z s)"
    "idle_pipes m z" "same_pipes m (frz q) z" "peer z = c"
    by (auto simp: get_put put_put status_code_def)
  have "same_pipes m (get s) z" by (rule same_pipes_trans [OF sq z(3)])
  then show ?thesis
    using assms(2,3) sent z by (intro exI [of _ z]) (simp add: host_command_def host_state)
qed

end

end
