(* ===== verification/Link.thy ===== *)
theory Link
  imports Ms_Command Serial_Host Host_Ms
begin

text \<open>
  The host's machine: the controller with any device behind the bus, and the other registers as
  plain memory.  The contract of the host drivers is interpreted on it.
\<close>

section \<open>The host's machine\<close>

record 'p host_machine =
  bus :: "'p hctl"
  regs :: "hreg \<Rightarrow> u8"

definition host_io :: "'p device \<Rightarrow> 'p host_machine hio" where
  "host_io dv =
     \<lparr>io_rd = (\<lambda>r s. if r \<in> host_regs \<or> r \<in> pipe_regs \<and> upnum (bus s) \<noteq> 0
        then (fst (host_rd dv r (bus s)), s\<lparr>bus := snd (host_rd dv r (bus s))\<rparr>) else (regs s r, s)),
      io_wr = (\<lambda>r v s. if r \<in> host_regs \<or> r \<in> pipe_regs \<and> upnum (bus s) \<noteq> 0
        then s\<lparr>bus := host_wr r v (bus s)\<rparr> else s\<lparr>regs := (regs s)(r := v)\<rparr>)\<rparr>"

interpretation hb: pipe_bus "host_io dv" dv bus "\<lambda>h s. s\<lparr>bus := h\<rparr>" for dv
  by unfold_locales (auto simp: host_io_def)

text \<open>
  Host and device together: the host firmware's controller (theory \<open>Host_Bus\<close>) with the whole mass
  storage device of the theory \<open>Board\<close> at the other end of the bus.  A packet the host sends to
  endpoint 4 goes into that endpoint's bank or queues behind it; an IN token for endpoint 3 takes the
  next packet of that endpoint, and if there is none the device runs its mass storage task once.
\<close>

section \<open>The device on the bus\<close>

record duo =
  d_board :: board
  d_dev :: dev

definition upd_ep :: "u8 \<Rightarrow> (bulk \<Rightarrow> bulk) \<Rightarrow> duo \<Rightarrow> duo" where
  "upd_ep n f b = b\<lparr>d_board := (d_board b)\<lparr>dusb := (dusb (d_board b))\<lparr>ep := (ep (dusb (d_board b)))
     (n := f (ep (dusb (d_board b)) n))\<rparr>\<rparr>\<rparr>"

definition in_queue :: "duo \<Rightarrow> u8 list list" where
  "in_queue b = queue (ep (dusb (d_board b)) 3)"

definition run_task :: "(nat \<Rightarrow> u8 list) \<Rightarrow> duo \<Rightarrow> duo" where
  "run_task stack b = (case MS_Device_USBTask bio stack (d_dev b) (d_board b) of
     None \<Rightarrow> b | Some (d, s) \<Rightarrow> \<lparr>d_board = s, d_dev = d\<rparr>)"

definition take_packet :: "u8 list \<Rightarrow> bulk \<Rightarrow> bulk" where
  "take_packet p e = (if bank e then e\<lparr>queue := queue e @ [p]\<rparr> else e\<lparr>fifo := p, bank := True, delay := 0\<rparr>)"

definition ms_link :: "(nat \<Rightarrow> u8 list) \<Rightarrow> duo device" where
  "ms_link stack =
     \<lparr>give = (\<lambda>n p b. if n = 4 then upd_ep 4 (take_packet p) b else b),
      ask = (\<lambda>n b. if n \<noteq> 3 then (None, b)
        else case in_queue b of
               [] \<Rightarrow> (None, run_task stack b)
             | p # ps \<Rightarrow> (Some p, upd_ep 3 (\<lambda>e. e\<lparr>queue := ps\<rparr>) b))\<rparr>"

section \<open>The device between two commands\<close>

definition device_ready :: "duo \<Rightarrow> bool" where
  "device_ready b \<longleftrightarrow> dev_state (dusb (d_board b)) = DEVICE_STATE_Configured \<and> \<not> ms_reset (dusb (d_board b)) \<and>
     lat (dusb (d_board b)) \<le> 100 \<and> ep_size (dusb (d_board b)) = 64 \<and> drained (ep (dusb (d_board b)) 4) \<and>
     \<not> stalled (ep (dusb (d_board b)) 4) \<and> in_idle (dusb (d_board b)) \<and> in_queue b = [] \<and>
     at_rest (dflash (d_board b)) \<and> Config (d_dev b) = Disk_MS_Interface"

abbreviation (input) content :: "duo \<Rightarrow> nat \<Rightarrow> u8" where
  "content b \<equiv> medium (dflash (d_board b))"

lemma upd_ep_simps [simp]: "dusb (d_board (upd_ep n f b)) = (dusb (d_board b))\<lparr>ep := (ep (dusb (d_board b)))
     (n := f (ep (dusb (d_board b)) n))\<rparr>"
  "dflash (d_board (upd_ep n f b)) = dflash (d_board b)" "d_dev (upd_ep n f b) = d_dev b"
  by (simp_all add: upd_ep_def)

lemma upd_ep_upd: "upd_ep n g (upd_ep n f b) = upd_ep n (\<lambda>e. g (f e)) b"
  by (simp add: upd_ep_def)

lemma in_queue_upd [simp]: "in_queue (upd_ep 3 (\<lambda>e. e\<lparr>queue := qs\<rparr>) b) = qs"
  by (simp add: in_queue_def)

text \<open>The packets in the queue are ready for the host.\<close>

lemma link_supplies: "in_queue b = ps @ qs \<Longrightarrow> supplies (ms_link stack) 3 b ps (upd_ep 3 (\<lambda>e. e\<lparr>queue := qs\<rparr>) b)"
proof (induction ps arbitrary: b)
  case Nil
  have "(ep (dusb (d_board b)) 3)\<lparr>queue := qs\<rparr> = ep (dusb (d_board b)) 3" using Nil by (simp add: in_queue_def)
  then show ?case by (simp add: upd_ep_def)
next
  case (Cons p ps)
  let ?b = "upd_ep 3 (\<lambda>e. e\<lparr>queue := ps @ qs\<rparr>) b"
  have "supplies (ms_link stack) 3 ?b ps (upd_ep 3 (\<lambda>e. e\<lparr>queue := qs\<rparr>) ?b)" by (rule Cons.IH) simp
  then show ?case using Cons.prems by (simp add: ms_link_def upd_ep_upd)
qed

lemma link_answer: "in_queue b = p # qs \<Longrightarrow> answer (ms_link stack) 0 3 b p (upd_ep 3 (\<lambda>e. e\<lparr>queue := qs\<rparr>) b)"
  using link_supplies [of b "[p]" qs stack] by simp

lemma link_runs: "in_queue b = [] \<Longrightarrow> in_queue (run_task stack b) = p # qs \<Longrightarrow>
   answer (ms_link stack) 1 3 b p (upd_ep 3 (\<lambda>e. e\<lparr>queue := qs\<rparr>) (run_task stack b))"
  using link_answer [of "run_task stack b" p qs stack] by (simp add: ms_link_def One_nat_def)

text \<open>Packets for the OUT endpoint.\<close>

lemma take_more: "bank e \<Longrightarrow> fold take_packet ps e = e\<lparr>queue := queue e @ ps\<rparr>"
  by (induction ps arbitrary: e) (simp_all add: take_packet_def)

lemma give_fold: "fold (give (ms_link stack) 4) ps b = upd_ep 4 (fold take_packet ps) b"
proof (induction ps arbitrary: b)
  case Nil
  then show ?case by (simp add: upd_ep_def)
next
  case (Cons p ps)
  have "give (ms_link stack) 4 p b = upd_ep 4 (take_packet p) b" by (simp add: ms_link_def)
  then show ?case using Cons.IH [of "upd_ep 4 (take_packet p) b"] by (simp add: upd_ep_upd comp_def)
qed

lemma give_packets:
  assumes "drained (ep (dusb (d_board b)) 4)"
  shows "fold (give (ms_link stack) 4) (p # ps) b = upd_ep 4 (\<lambda>e. e\<lparr>fifo := p, bank := True, delay := 0, queue := ps\<rparr>) b"
  unfolding give_fold using assms by (simp add: upd_ep_def take_packet_def take_more drained_def)

lemma pack_short: "length f + length bs \<le> sz \<Longrightarrow> pack sz f bs = ([], f @ bs)"
  by (induction bs arbitrary: f) auto

lemma all_packets_short: "length bytes \<le> sz \<Longrightarrow> all_packets sz bytes = [bytes]"
  using pack_short [of "[]" bytes sz] by (simp add: all_packets_def)

text \<open>Bytes that fill the packets.\<close>

lemma all_packets_full:
  assumes "0 < sz" "sz dvd length bytes" "bytes \<noteq> []"
  shows "\<forall>p\<in>set (all_packets sz bytes). length p = sz"
proof -
  let ?ps = "fst (pack sz [] bytes)" and ?r = "snd (pack sz [] bytes)"
  have s: "\<forall>p\<in>set ?ps. length p = sz" "length ?r \<le> sz" "?r \<noteq> []" using pack_size [OF assms(1), of "[]" bytes] assms(3) by auto
  have "length bytes = length (concat ?ps) + length ?r" using arg_cong [OF pack_concat [of sz "[]" bytes], of length] by simp
  then have "length bytes = sz * length ?ps + length ?r" using length_full [OF s(1)] by simp
  then have "sz dvd length ?r" using assms(2) by (metis dvd_add_right_iff dvd_triv_left)
  then have "length ?r = sz" using s(2,3) by (meson dvd_imp_le le_antisym length_greater_0_conv)
  then show ?thesis using s(1) by (auto simp: all_packets_def)
qed

section \<open>The wrapper a block command sends\<close>

lemma host_block_cbw:
  "SCSICommandData (tagged m (host_cbw len flags lun (block_cdb cmd BA n))) = cdb10 cmd BA (ucast n)"
  "Signature (tagged m (host_cbw len flags lun (block_cdb cmd BA n))) = MS_CBW_SIGNATURE"
  "DataTransferLength (tagged m (host_cbw len flags lun (block_cdb cmd BA n))) = len"
  "Flags (tagged m (host_cbw len flags lun (block_cdb cmd BA n))) = flags"
  "LUN (tagged m (host_cbw len flags lun (block_cdb cmd BA n))) = lun"
  "SCSICommandLength (tagged m (host_cbw len flags lun (block_cdb cmd BA n))) = 10"
proof -
  have "(ucast (drop_bit 8 (ucast n :: u16)) :: u8) = 0" "(ucast (ucast n :: u16) :: u8) = n"
    by (rule bit_word_eqI; auto simp: bit_simps dest: bit_imp_le_length)+
  moreover have "(ucast (BA AND 0xFF) :: u8) = ucast BA"
    by (rule bit_word_eqI) (auto simp: bit_simps and_byte_mask)
  ultimately show "SCSICommandData (tagged m (host_cbw len flags lun (block_cdb cmd BA n))) = cdb10 cmd BA (ucast n)"
    by (simp add: tagged_def host_cbw_def block_cdb_def cdb10_def bytes32_def bytes16_def numeral_eq_Suc)
qed (simp_all add: tagged_def host_cbw_def block_cdb_def)

lemma length_cbw: "length (SCSICommandData c) = 16 \<Longrightarrow> length (cbw_bytes c) = 31"
  by (simp add: cbw_bytes_def)

end
