(* ===== verification/Disk_Link.thy ===== *)
theory Disk_Link
  imports Link
begin

text \<open>
  Reading and writing blocks from end to end: the functions the host's application calls, with the
  host controller, the bus and the whole device with its two dataflash chips behind them.
\<close>

section \<open>The host between two commands\<close>

text \<open>The pipes are set up for endpoints 3 and 4 with packets of 64 bytes, the device is configured.\<close>

definition host_ready :: "MS_Host \<Rightarrow> 'p host_machine \<Rightarrow> bool" where
  "host_ready m s \<longleftrightarrow> idle_pipes m (bus s) \<and> h_state (bus s) = HOST_STATE_Configured \<and> IsActive m \<and>
     h_size (bus s) = 64 \<and> p_num (pipes (bus s) (DataINPipeNumber m)) = 3 \<and>
     p_num (pipes (bus s) (DataOUTPipeNumber m)) = 4"

lemma host_stays:
  "host_ready m s \<Longrightarrow> idle_pipes m k \<Longrightarrow> same_pipes m (bus s) k \<Longrightarrow> host_ready (snd (next_tag m)) (s\<lparr>bus := k\<rparr>)"
  by (simp add: host_ready_def same_pipes_def)

text \<open>The wrapper reaches the device.\<close>

abbreviation (input) with_wrapper :: "MS_CommandBlockWrapper_t \<Rightarrow> u8 list list \<Rightarrow> duo \<Rightarrow> duo" where
  "with_wrapper c ps b \<equiv> upd_ep 4 (\<lambda>e. e\<lparr>fifo := cbw_bytes c, bank := True, delay := 0, queue := ps\<rparr>) b"

lemma wrapper_given:
  assumes "host_ready m s" "device_ready b" "length (SCSICommandData c) = 16"
  shows "hb.fed (ms_link stack) m s (cbw_bytes c) b = with_wrapper c [] b"
  using assms give_packets [of b stack "cbw_bytes c" "[]"] all_packets_short [of "cbw_bytes c" 64] length_cbw [OF assms(3)]
  by (simp add: hb.fed_def host_ready_def device_ready_def)

lemma data_given:
  assumes "host_ready m s"
  shows "hb.fed (ms_link stack) m s bytes (with_wrapper c [] b) = with_wrapper c (all_packets 64 bytes) b"
  using assms by (simp add: hb.fed_def host_ready_def give_fold upd_ep_upd take_more)

lemma wrapper_waits:
  assumes "device_ready b"
  shows "command_waiting c (dusb (d_board (with_wrapper c ps b)))"
  using assms by (simp add: device_ready_def command_waiting_def bank_ready_def drained_def in_idle_def)

lemma cbw_is_ok:
  assumes "flags AND 0x1F = 0"
  shows "cbw_ok (tagged m (host_cbw len flags 0 (block_cdb cmd BA n)))"
  using assms host_block_cbw [of m len flags 0 cmd BA n] by (simp add: cbw_ok_def)

lemma transfer_length:
  assumes "unat (n :: u8) \<le> 127"
  shows "unat (ucast (ucast n * ucast (512 :: u16) :: u32) :: u16) = 512 * unat n"
proof -
  have b: "unat n mod 4294967296 = unat n" using assms by simp
  have "unat (ucast n * ucast (512 :: u16) :: u32) = 512 * unat n"
    using assms b by (simp add: take_bit_eq_mod unat_word_ariths unsigned_ucast_eq take_bit_word_eq_self unsigned_take_bit_eq mult.commute)
  then show ?thesis using assms by (simp add: unsigned_ucast_eq unsigned_take_bit_eq take_bit_eq_mod)
qed

lemma csw_status [simp]: "csw_bytes (passed t r) ! 12 = SCSI_Command_Pass"
  by (simp add: csw_bytes_def bytes32_def passed_def)

lemma device_stays:
  assumes "served s s'" "drained (ep (dusb s') 4)" "at_rest (dflash s')" "Config d' = Disk_MS_Interface"
    "dev_state (dusb s) = DEVICE_STATE_Configured" "\<not> ms_reset (dusb s)" "lat (dusb s) \<le> 100" "ep_size (dusb s) = 64"
  shows "device_ready (upd_ep 3 (\<lambda>e. e\<lparr>queue := []\<rparr>) \<lparr>d_board = s', d_dev = d'\<rparr>)"
  using assms by (simp add: device_ready_def served_def in_idle_def in_queue_def)

section \<open>Reading\<close>

text \<open>One run of the task answers a read command, and the packets go to the host one by one.\<close>

lemma device_reads:
  assumes "device_ready b" "cbw_ok c" "10 \<le> SCSICommandLength c" "SCSICommandData c = cdb10 SCSI_CMD_READ_10 BA TB"
    "Flags c = MS_COMMAND_DIR_DATA_IN" "unat BA < 32768" "unat BA + unat TB \<le> 32768" "0 < TB"
  shows "\<exists>p ps d csw e. answer (ms_link stack) 1 3 (with_wrapper c [] b) p d \<and> supplies (ms_link stack) 3 d ps (snd csw) \<and>
    answer (ms_link stack) 0 3 (snd csw) (fst csw) e \<and> (\<forall>q\<in>set (p # ps). length q = 64) \<and>
    p @ concat ps = map (content b) [512 * unat BA..<512 * (unat BA + unat TB)] \<and>
    fst csw = csw_bytes (passed (Tag c) (DataTransferLength c - ucast TB * 512)) \<and>
    device_ready e \<and> content e = content b \<and> same_mem (dflash (d_board b)) (dflash (d_board e))"
proof -
  let ?b = "with_wrapper c [] b"
  let ?s = "d_board ?b" and ?csw = "csw_bytes (passed (Tag c) (DataTransferLength c - ucast TB * 512))"
  let ?data = "map (content b) [512 * unat BA..<512 * (unat BA + unat TB)]"
  have "at_rest (dflash ?s)" "Config (d_dev ?b) = Disk_MS_Interface" "in_queue ?b = []" "queue (ep (dusb ?s) 4) = []"
    "queue (ep (dusb ?s) 3) = []"
    using assms(1) by (simp_all add: device_ready_def in_queue_def)
  note r = this
  obtain d' s' qs where t: "MS_Device_USBTask bio stack (d_dev ?b) ?s = Some (d', s')"
    "queue (ep (dusb s') 3) = qs @ [?csw]" "concat qs = ?data" "\<forall>q\<in>set qs. length q = 64"
    "served ?s s'" "drained (ep (dusb s') 4)" "Config d' = Disk_MS_Interface" "at_rest (dflash s')"
    "same_mem (dflash ?s) (dflash s')"
    using read_10_packets [OF wrapper_waits [OF assms(1)] assms(2) r(2) assms(3-5) r(1) assms(6,7), where stack = stack] r
    by auto
  have "?data \<noteq> []" using assms(8) by (simp add: word_less_nat_alt)
  then obtain p ps where q: "qs = p # ps" using t(3) by (cases qs) auto
  let ?t = "run_task stack ?b"
  have run: "?t = \<lparr>d_board = s', d_dev = d'\<rparr>" using t(1) by (simp add: run_task_def)
  then have iq: "in_queue ?t = p # ps @ [?csw]" using t(2) q by (simp add: in_queue_def)
  let ?d = "upd_ep 3 (\<lambda>e. e\<lparr>queue := ps @ [?csw]\<rparr>) ?t"
  let ?c = "upd_ep 3 (\<lambda>e. e\<lparr>queue := [?csw]\<rparr>) ?d"
  let ?e = "upd_ep 3 (\<lambda>e. e\<lparr>queue := []\<rparr>) ?c"
  have "answer (ms_link stack) 1 3 ?b p ?d" by (rule link_runs [OF r(3) iq])
  moreover have "supplies (ms_link stack) 3 ?d ps ?c" by (rule link_supplies) simp
  moreover have "answer (ms_link stack) 0 3 ?c ?csw ?e" by (rule link_answer) simp
  moreover have "p @ concat ps = ?data" "\<forall>q\<in>set (p # ps). length q = 64" using t(3,4) q by simp_all
  moreover have e: "?e = upd_ep 3 (\<lambda>e. e\<lparr>queue := []\<rparr>) \<lparr>d_board = s', d_dev = d'\<rparr>" using run by (simp add: upd_ep_upd)
  moreover have "device_ready ?e"
    unfolding e by (rule device_stays [OF t(5,6,8,7)]) (use assms(1) in \<open>simp_all add: device_ready_def\<close>)
  moreover have "same_mem (dflash (d_board b)) (dflash (d_board ?e))" using t(9) e by simp
  moreover have "content ?e = content b" using same_medium [OF t(9)] e by simp
  ultimately show ?thesis by (intro exI [of _ p] exI [of _ ps] exI [of _ ?d] exI [of _ "(?csw, ?c)"] exI [of _ ?e]) simp
qed

text \<open>What both directions share: the number of blocks as the host gives it and as the device reads it.\<close>

lemma block_count: "unat (ucast (n :: u8) :: u16) = unat n" "0 < n \<Longrightarrow> 0 < (ucast n :: u16)"
proof -
  have "unat n < 2 ^ LENGTH(8)" by (rule unsigned_less)
  then show u: "unat (ucast n :: u16) = unat n" by (simp add: unsigned_ucast_eq unsigned_take_bit_eq take_bit_eq_mod)
  then show "0 < n \<Longrightarrow> 0 < (ucast n :: u16)" by (simp add: word_less_nat_alt)
qed

lemma reads_blocks:
  assumes "host_ready m s" "device_ready (peer (bus s))" "0 < n" "unat n \<le> 127" "unat BA < 32768"
    "unat BA + unat n \<le> 32768"
  shows "\<exists>m' s'. MS_Host_ReadDeviceBlocks (host_io (ms_link stack)) psize 0 BA n 512 buf m s =
      Some (0, Some (map (content (peer (bus s))) [512 * unat BA..<512 * (unat BA + unat n)] @ drop (512 * unat n) buf), m', s') \<and>
    host_ready m' s' \<and> device_ready (peer (bus s')) \<and> content (peer (bus s')) = content (peer (bus s))"
proof -
  let ?b = "peer (bus s)" and ?data = "map (content (peer (bus s))) [512 * unat BA..<512 * (unat BA + unat n)]"
  let ?cbw = "host_cbw (ucast n * ucast (512 :: u16)) COMMAND_DIRECTION_DATA_IN 0 (block_cdb SCSI_CMD_READ_10 BA n)"
  let ?c = "tagged m ?cbw"
  note c = host_block_cbw [of m "ucast n * ucast (512 :: u16)" COMMAND_DIRECTION_DATA_IN 0 SCSI_CMD_READ_10 BA n]
  have ok: "cbw_ok ?c" by (rule cbw_is_ok) simp
  have len: "length (SCSICommandData ?c) = 16" using c(1) by simp
  obtain p ps d csw e where r: "answer (ms_link stack) 1 3 (with_wrapper ?c [] ?b) p d"
    "supplies (ms_link stack) 3 d ps (snd csw)" "answer (ms_link stack) 0 3 (snd csw) (fst csw) e"
    "\<forall>q\<in>set (p # ps). length q = 64" "p @ concat ps = ?data"
    "fst csw = csw_bytes (passed (Tag ?c) (DataTransferLength ?c - ucast (ucast n :: u16) * 512))"
    "device_ready e" "content e = content ?b"
    using device_reads [of ?b ?c BA "ucast n" stack] assms ok c(1,4,6) block_count by fastforce
  have len_data: "length p + length (concat ps) = 512 * unat n" using arg_cong [OF r(5), of length] by simp
  have "\<exists>k. host_command (host_io (ms_link stack)) psize ?cbw (Some buf) id m s =
      Some (status_code (fst csw), Some (id (take (512 * unat n) (p @ concat ps) @ drop (512 * unat n) buf)), snd (next_tag m), s\<lparr>bus := k\<rparr>) \<and>
    idle_pipes m k \<and> same_pipes m (bus s) k \<and> peer k = e"
  proof (rule hb.reading_command [where j = 1 and c = d and d = "snd csw" and j' = 0])
    show "answer (ms_link stack) 1 (p_num (pipes (bus s) (DataINPipeNumber m)))
        (hb.fed (ms_link stack) m s (cbw_bytes ?c) ?b) p d"
      using r(1) wrapper_given [OF assms(1,2) len] assms(1) by (simp add: host_ready_def)
    have "\<forall>q\<in>set ps. q \<noteq> []" using r(4) by auto
    then show "spans (512 * unat n) p ps" using spans_all len_data by metis
    show "512 * unat n = unat (ucast (DataTransferLength ?cbw) :: u16)"
      using transfer_length [OF assms(4)] by (simp add: host_cbw_def)
    show "13 \<le> length (fst csw)" using r(6) by (simp add: length_csw)
  qed (use assms(1) r(2-4) in \<open>auto simp: host_ready_def host_cbw_def\<close>)
  then obtain k where k: "MS_Host_ReadDeviceBlocks (host_io (ms_link stack)) psize 0 BA n 512 buf m s =
      Some (0, Some (?data @ drop (512 * unat n) buf), snd (next_tag m), s\<lparr>bus := k\<rparr>)"
    "idle_pipes m k" "same_pipes m (bus s) k" "peer k = e"
    using r(5,6) by (auto simp: MS_Host_ReadDeviceBlocks_def status_code_def)
  then show ?thesis using host_stays [OF assms(1) k(2,3)] r(7,8) by simp
qed

section \<open>Writing\<close>

lemma device_writes:
  assumes "device_ready b" "unprotected (dflash (d_board b))" "cbw_ok c" "10 \<le> SCSICommandLength c"
    "SCSICommandData c = cdb10 SCSI_CMD_WRITE_10 BA TB" "Flags c = 0" "unat BA < 32768" "unat BA + unat TB \<le> 32768"
    "0 < TB" "length bytes = 512 * unat TB"
  shows "\<exists>csw e. answer (ms_link stack) 1 3 (with_wrapper c (all_packets 64 bytes) b) csw e \<and>
    csw = csw_bytes (passed (Tag c) (DataTransferLength c - ucast TB * 512)) \<and> device_ready e \<and>
    unprotected (dflash (d_board e)) \<and> content e = overlay (512 * unat BA) bytes (content b)"
proof -
  let ?b = "with_wrapper c (all_packets 64 bytes) b"
  let ?s = "d_board ?b" and ?csw = "csw_bytes (passed (Tag c) (DataTransferLength c - ucast TB * 512))"
  have "at_rest (dflash ?s)" "Config (d_dev ?b) = Disk_MS_Interface" "in_queue ?b = []" "queue (ep (dusb ?s) 4) = all_packets 64 bytes"
    "queue (ep (dusb ?s) 3) = []" "unprotected (dflash ?s)"
    using assms(1,2) by (simp_all add: device_ready_def in_queue_def)
  note r = this
  obtain p ps where p: "all_packets 64 bytes = p # ps" by (cases "all_packets 64 bytes") (auto simp: all_packets_def)
  have con: "concat (p # ps) = bytes" using all_packets_concat [of 64 bytes] p by simp
  have "bytes \<noteq> []" using assms(9,10) by (auto simp: word_less_nat_alt)
  then have "\<forall>q\<in>set (p # ps). length q = 64" using all_packets_full [of 64 bytes] assms(10) p by simp
  then have sizes: "\<forall>q\<in>set (p # ps). q \<noteq> [] \<and> 16 dvd length q" by auto
  have len: "512 * unat TB = length (concat (p # ps))" using con assms(10) by simp
  have q: "queue (ep (dusb ?s) 4) = p # ps" using r(4) p by simp
  have "\<exists>d' s'. MS_Device_USBTask bio stack (d_dev ?b) ?s = Some (d', s') \<and>
      medium (dflash s') = overlay (512 * unat BA) (take (512 * unat TB) (concat (p # ps))) (medium (dflash ?s)) \<and>
      at_rest (dflash s') \<and> unprotected (dflash s') \<and> queue (ep (dusb s') 3) = queue (ep (dusb ?s) 3) @ [?csw] \<and>
      served ?s s' \<and> (512 * unat TB = length (concat (p # ps)) \<longrightarrow> drained (ep (dusb s') 4)) \<and> Config d' = Config (d_dev ?b)"
    by (rule write_10_packets [OF wrapper_waits [OF assms(1)] assms(3) r(2) assms(4-6) r(1,6) assms(7,8) q sizes]) (simp only: len)
  then obtain d' s' where t: "MS_Device_USBTask bio stack (d_dev ?b) ?s = Some (d', s')"
    "medium (dflash s') = overlay (512 * unat BA) bytes (content b)" "at_rest (dflash s')" "unprotected (dflash s')"
    "queue (ep (dusb s') 3) = [?csw]" "served ?s s'" "drained (ep (dusb s') 4)" "Config d' = Disk_MS_Interface"
    using r(2,5) len unfolding con assms(10) [symmetric] by auto
  let ?t = "run_task stack ?b"
  have run: "?t = \<lparr>d_board = s', d_dev = d'\<rparr>" using t(1) by (simp add: run_task_def)
  then have iq: "in_queue ?t = [?csw]" using t(5) by (simp add: in_queue_def)
  let ?e = "upd_ep 3 (\<lambda>e. e\<lparr>queue := []\<rparr>) ?t"
  have "answer (ms_link stack) 1 3 ?b ?csw ?e" by (rule link_runs [OF r(3) iq])
  moreover have "device_ready ?e"
    unfolding run by (rule device_stays [OF t(6,7,3,8)]) (use assms(1) in \<open>simp_all add: device_ready_def\<close>)
  moreover have "unprotected (dflash (d_board ?e))" "content ?e = overlay (512 * unat BA) bytes (content b)"
    using t(2,4) by (simp_all add: run)
  ultimately show ?thesis by blast
qed

lemma writes_blocks:
  assumes "host_ready m s" "device_ready (peer (bus s))" "unprotected (dflash (d_board (peer (bus s))))" "0 < n"
    "unat n \<le> 127" "unat BA < 32768" "unat BA + unat n \<le> 32768" "512 * unat n \<le> length buf"
  shows "\<exists>m' s'. MS_Host_WriteDeviceBlocks (host_io (ms_link stack)) psize 0 BA n 512 buf m s = Some (0, Some buf, m', s') \<and>
    host_ready m' s' \<and> device_ready (peer (bus s')) \<and> unprotected (dflash (d_board (peer (bus s')))) \<and>
    content (peer (bus s')) = overlay (512 * unat BA) (take (512 * unat n) buf) (content (peer (bus s)))"
proof -
  let ?b = "peer (bus s)" and ?data = "take (512 * unat n) buf"
  let ?cbw = "host_cbw (ucast n * ucast (512 :: u16)) COMMAND_DIRECTION_DATA_OUT 0 (block_cdb SCSI_CMD_WRITE_10 BA n)"
  let ?c = "tagged m ?cbw"
  note c = host_block_cbw [of m "ucast n * ucast (512 :: u16)" COMMAND_DIRECTION_DATA_OUT 0 SCSI_CMD_WRITE_10 BA n]
  have ok: "cbw_ok ?c" by (rule cbw_is_ok) simp
  have len: "length (SCSICommandData ?c) = 16" using c(1) by simp
  have "\<exists>csw e. answer (ms_link stack) 1 3 (with_wrapper ?c (all_packets 64 ?data) ?b) csw e \<and>
      csw = csw_bytes (passed (Tag ?c) (DataTransferLength ?c - ucast (ucast n :: u16) * 512)) \<and> device_ready e \<and>
      unprotected (dflash (d_board e)) \<and> content e = overlay (512 * unat BA) ?data (content ?b)"
    by (rule device_writes [OF assms(2,3) ok]) (use assms(4-8) c(1,4,6) block_count in simp_all)
  then obtain csw e where r: "answer (ms_link stack) 1 3 (with_wrapper ?c (all_packets 64 ?data) ?b) csw e"
    "csw = csw_bytes (passed (Tag ?c) (DataTransferLength ?c - ucast (ucast n :: u16) * 512))" "device_ready e"
    "unprotected (dflash (d_board e))" "content e = overlay (512 * unat BA) ?data (content ?b)"
    by blast
  have "\<exists>k. host_command (host_io (ms_link stack)) psize ?cbw (Some buf) id m s =
      Some (status_code csw, Some (id buf), snd (next_tag m), s\<lparr>bus := k\<rparr>) \<and> idle_pipes m k \<and> same_pipes m (bus s) k \<and> peer k = e"
  proof (rule hb.writing_command [where j = 1])
    show "answer (ms_link stack) 1 (p_num (pipes (bus s) (DataINPipeNumber m)))
        (hb.fed (ms_link stack) m s ?data (hb.fed (ms_link stack) m s (cbw_bytes ?c) ?b)) csw e"
      using r(1) wrapper_given [OF assms(1,2) len] data_given [OF assms(1)] assms(1) by (simp add: host_ready_def)
    show "512 * unat n = unat (ucast (DataTransferLength ?cbw) :: u16)"
      using transfer_length [OF assms(5)] by (simp add: host_cbw_def)
    show "13 \<le> length csw" using r(2) by (simp add: length_csw)
  qed (use assms(1) in \<open>simp_all add: host_ready_def host_cbw_def\<close>)
  then obtain k where k: "MS_Host_WriteDeviceBlocks (host_io (ms_link stack)) psize 0 BA n 512 buf m s =
      Some (0, Some buf, snd (next_tag m), s\<lparr>bus := k\<rparr>)" "idle_pipes m k" "same_pipes m (bus s) k" "peer k = e"
    using r(2) by (auto simp: MS_Host_WriteDeviceBlocks_def status_code_def)
  then show ?thesis using host_stays [OF assms(1) k(2,3)] r(3-5) by simp
qed

text \<open>A host that has found the disk, with the IN pipe in pipe 1 and the OUT pipe in pipe 2; the medium is blank.\<close>

definition disk_host :: MS_Host where
  "disk_host = \<lparr>DataINPipeNumber = 1, DataINPipeDoubleBank = False, DataOUTPipeNumber = 2, DataOUTPipeDoubleBank = False,
     IsActive = True, HostInterfaceNumber = 0, DataINPipeSize = 64, DataOUTPipeSize = 64, TransactionTag = 0\<rparr>"

definition idle_disk :: duo where
  "idle_disk = upd_ep 4 (\<lambda>e. e\<lparr>bank := False\<rparr>) \<lparr>d_board = waiting_board [] [], d_dev = initial_dev\<rparr>"

definition linked_disk :: "duo host_machine" where
  "linked_disk = \<lparr>bus = \<lparr>upnum = 0,
       pipes = (\<lambda>n. \<lparr>p_cfg0 = 0x80 OR (if n = 1 then PIPE_TOKEN_IN OR 3 else PIPE_TOKEN_OUT OR 4), p_con = 0, p_fifo = [],
         p_full = False, p_stall = False\<rparr>),
       h_size = 64, h_state = HOST_STATE_Configured, h_sof = 3, h_gap = 3, peer = idle_disk\<rparr>, regs = (\<lambda>r. 0)\<rparr>"

lemma linked_ready:
  "host_ready disk_host linked_disk" "device_ready (peer (bus linked_disk))" "unprotected (dflash (d_board (peer (bus linked_disk))))"
  "content (peer (bus linked_disk)) = (\<lambda>L. 0xFF)"
  using blank_ready waiting_ready(3) [of "[]" "[]"] medium_blank
  by (simp_all add: host_ready_def idle_pipes_def settled_def arrived_def disk_host_def linked_disk_def idle_disk_def p_in_def
      p_num_def device_ready_def waiting_board_def drained_def in_idle_def in_queue_def initial_dev_def)

section \<open>The two ends together\<close>

text \<open>
  C2. Reading end to end.  The host's application asks for \<open>n\<close> blocks, at most 127, inside the medium.
  Then \<open>MS_Host_ReadDeviceBlocks\<close> returns success, the buffer holds the bytes of the medium from the first
  block on, the medium is unchanged, and host and device are ready for the next command.
\<close>

theorem host_reads_blocks:
  assumes "host_ready m s" "device_ready (peer (bus s))" "0 < n" "unat n \<le> 127" "unat BA + unat n \<le> 32768"
  shows "\<exists>m' s'. MS_Host_ReadDeviceBlocks (host_io (ms_link stack)) psize 0 BA n 512 buf m s =
      Some (0, Some (map (content (peer (bus s))) [512 * unat BA..<512 * (unat BA + unat n)] @ drop (512 * unat n) buf), m', s') \<and>
    host_ready m' s' \<and> device_ready (peer (bus s')) \<and> content (peer (bus s')) = content (peer (bus s))"
  using reads_blocks [OF assms(1-4) _ assms(5)] assms(3,5) by (simp add: word_less_nat_alt)

theorem host_reads_blocks_witness:
  "\<exists>m' s'. MS_Host_ReadDeviceBlocks (host_io (ms_link (\<lambda>n. []))) 0 0 3 1 512 [] disk_host linked_disk =
     Some (0, Some (replicate 512 0xFF), m', s') \<and> device_ready (peer (bus s'))"
proof -
  have "map (\<lambda>L :: nat. 0xFF :: u8) [512 * unat (3 :: u32)..<512 * (unat (3 :: u32) + unat (1 :: u8))] = replicate 512 0xFF"
    by (simp add: map_replicate_const del: upt_rec_numeral upt_Suc)
  then show ?thesis
    using host_reads_blocks [OF linked_ready(1,2), of 1 3 "\<lambda>n. []" 0 "[]"] linked_ready(4)
    by (auto simp del: upt_rec_numeral upt_Suc)
qed

text \<open>
  C1. Writing and reading back.  The host writes \<open>n\<close> blocks, at most 127, to a place inside the
  unprotected medium and then reads \<open>k\<close> blocks from any place inside it.  Both commands succeed, and what
  is read is the old content with the written bytes in their place: reading the same blocks gives the
  data back, and no block beside them has changed.
\<close>

theorem host_write_then_read:
  assumes "host_ready m s" "device_ready (peer (bus s))" "unprotected (dflash (d_board (peer (bus s))))"
    "0 < n" "unat n \<le> 127" "unat BA + unat n \<le> 32768" "512 * unat n \<le> length buf"
    "0 < k" "unat k \<le> 127" "unat RA + unat k \<le> 32768" "length out = 512 * unat k"
  shows "\<exists>m1 s1 m2 s2. MS_Host_WriteDeviceBlocks (host_io (ms_link stack)) psize 0 BA n 512 buf m s = Some (0, Some buf, m1, s1) \<and>
    MS_Host_ReadDeviceBlocks (host_io (ms_link stack)) psize 0 RA k 512 out m1 s1 =
      Some (0, Some (map (overlay (512 * unat BA) (take (512 * unat n) buf) (content (peer (bus s))))
        [512 * unat RA..<512 * (unat RA + unat k)]), m2, s2)"
proof -
  have in_range: "unat BA < 32768" "unat RA < 32768" using assms(4,6,8,10) by (simp_all add: word_less_nat_alt)
  obtain m1 s1 where w: "MS_Host_WriteDeviceBlocks (host_io (ms_link stack)) psize 0 BA n 512 buf m s = Some (0, Some buf, m1, s1)"
    "host_ready m1 s1" "device_ready (peer (bus s1))"
    "content (peer (bus s1)) = overlay (512 * unat BA) (take (512 * unat n) buf) (content (peer (bus s)))"
    using writes_blocks [OF assms(1-5) in_range(1) assms(6,7)] by blast
  then show ?thesis
    using reads_blocks [OF w(2,3) assms(8,9) in_range(2) assms(10), of stack psize out] assms(11) by auto
qed

theorem host_write_then_read_witness:
  "\<exists>m1 s1 m2 s2. MS_Host_WriteDeviceBlocks (host_io (ms_link (\<lambda>n. []))) 0 0 3 1 512 (replicate 512 0xAB) disk_host linked_disk =
       Some (0, Some (replicate 512 0xAB), m1, s1) \<and>
     MS_Host_ReadDeviceBlocks (host_io (ms_link (\<lambda>n. []))) 0 0 3 1 512 (replicate 512 0) m1 s1 =
       Some (0, Some (replicate 512 0xAB), m2, s2)"
proof -
  have "map (overlay (512 * unat (3 :: u32)) (take (512 * unat (1 :: u8)) (replicate 512 (0xAB :: u8))) (\<lambda>L. 0xFF))
      [512 * unat (3 :: u32)..<512 * (unat (3 :: u32) + unat (1 :: u8))] = replicate 512 0xAB"
    by (rule nth_equalityI) (simp_all add: overlay_def del: upt_Suc upt_rec_numeral)
  then show ?thesis
    using host_write_then_read [OF linked_ready(1-3), of 1 3 "replicate 512 0xAB" 1 3 "replicate 512 0" "\<lambda>n. []" 0] linked_ready(4)
    by (auto simp del: upt_rec_numeral upt_Suc)
qed

section \<open>A read of 64 KiB\<close>

text \<open>
  C10. The host keeps the number of bytes to move in sixteen bits.  A read of 128 blocks, 65536 bytes,
  inside the medium is asked for with the right length, but the host moves no byte into the buffer: it drops
  the first packet, takes the second one for the status wrapper and reports success or failure by its
  thirteenth byte, which is byte 76 of the first block.
\<close>

theorem host_read_of_64_KiB_is_lost:
  assumes "host_ready m s" "device_ready (peer (bus s))" "unat BA + 128 \<le> 32768"
  shows "\<exists>m' s'. MS_Host_ReadDeviceBlocks (host_io (ms_link stack)) psize 0 BA 128 512 buf m s =
    Some (if content (peer (bus s)) (512 * unat BA + 76) \<noteq> 0 then MS_ERROR_LOGICAL_CMD_FAILED else 0, Some buf, m', s')"
proof -
  let ?b = "peer (bus s)" and ?data = "map (content (peer (bus s))) [512 * unat BA..<512 * (unat BA + 128)]"
  let ?cbw = "host_cbw (ucast (128 :: u8) * ucast (512 :: u16)) COMMAND_DIRECTION_DATA_IN 0 (block_cdb SCSI_CMD_READ_10 BA 128)"
  let ?c = "tagged m ?cbw"
  note c = host_block_cbw [of m "ucast (128 :: u8) * ucast (512 :: u16)" COMMAND_DIRECTION_DATA_IN 0 SCSI_CMD_READ_10 BA 128]
  have ok: "cbw_ok ?c" by (rule cbw_is_ok) simp
  have len: "length (SCSICommandData ?c) = 16" using c(1) by simp
  obtain p ps d csw where r: "answer (ms_link stack) 1 3 (with_wrapper ?c [] ?b) p d"
    "supplies (ms_link stack) 3 d ps (snd csw)" "\<forall>q\<in>set (p # ps). length q = 64" "p @ concat ps = ?data"
    using device_reads [of ?b ?c BA "ucast (128 :: u8)" stack] assms ok c(1,4,6) block_count [of 128] by fastforce
  have "length p + length (concat ps) = 65536" using arg_cong [OF r(4), of length] by simp
  then obtain q qs where q: "ps = q # qs" using r(3) by (cases ps) auto
  obtain e where e: "answer (ms_link stack) 0 3 d q e" using r(2) q by auto
  have "q ! 12 = (p @ concat ps) ! 76" using q r(3) by (simp add: nth_append)
  then have st: "q ! 12 = content ?b (512 * unat BA + 76)" unfolding r(4) by simp
  have "\<exists>k. host_command (host_io (ms_link stack)) psize ?cbw (Some buf) id m s =
      Some (status_code q, Some (id (take 0 (p @ concat []) @ drop 0 buf)), snd (next_tag m), s\<lparr>bus := k\<rparr>) \<and>
    idle_pipes m k \<and> same_pipes m (bus s) k \<and> peer k = e"
  proof (rule hb.reading_command [where j = 1 and c = d and d = d and j' = 0])
    show "answer (ms_link stack) 1 (p_num (pipes (bus s) (DataINPipeNumber m)))
        (hb.fed (ms_link stack) m s (cbw_bytes ?c) ?b) p d"
      using r(1) wrapper_given [OF assms(1,2) len] assms(1) by (simp add: host_ready_def)
  qed (use assms(1) r(3) e q in \<open>simp_all add: host_ready_def host_cbw_def\<close>)
  then show ?thesis using st by (auto simp: MS_Host_ReadDeviceBlocks_def status_code_def)
qed

theorem host_read_of_64_KiB_is_lost_witness:
  "\<exists>m' s'. MS_Host_ReadDeviceBlocks (host_io (ms_link (\<lambda>n. []))) 0 0 3 128 512 [1, 2] disk_host linked_disk =
     Some (MS_ERROR_LOGICAL_CMD_FAILED, Some [1, 2], m', s')"
  using host_read_of_64_KiB_is_lost [OF linked_ready(1,2), of 3 "\<lambda>n. []" 0 "[1, 2]"] linked_ready(4) by simp

end
