(* ===== verification/Hid_Host.thy ===== *)
theory Hid_Host
  imports Host_Class Hid_Parser
begin

text \<open>
  The host-mode HID class driver (mice, keyboards, joysticks), \<open>LUFA/Drivers/USB/Class/Host/HID.c\<close> and
  \<open>HID.h\<close>, without \<open>HID_HOST_BOOT_PROTOCOL_ONLY\<close>.  The parser data \<open>Config.HIDParserData\<close> points to is a
  separate argument, \<open>None\<close> for a null pointer, since the driver fills it.
\<close>

section \<open>The interface structure\<close>

record HID_Host_Config = Data_Pipes +
  HIDInterfaceProtocol :: u8

record HID_Host_State = Pipe_Sizes +
  InterfaceNumber :: u8
  SupportsBootProtocol :: bool
  DeviceUsesOUTPipe :: bool
  UsingBootProtocol :: bool
  HIDReportSize :: u16
  LargestReportSize :: u8

definition zero_hid_host :: HID_Host_State where
  "zero_hid_host = \<lparr>IsActive = False, DataINPipeSize = 0, DataOUTPipeSize = 0, InterfaceNumber = 0, SupportsBootProtocol = False,
     DeviceUsesOUTPipe = False, UsingBootProtocol = False, HIDReportSize = 0, LargestReportSize = 0\<rparr>"

abbreviation (input) HID_ERROR_LOGICAL :: u8 where "HID_ERROR_LOGICAL \<equiv> 0x80"
abbreviation (input) HID_NON_BOOT_PROTOCOL :: u8 where "HID_NON_BOOT_PROTOCOL \<equiv> 0"
abbreviation (input) DTYPE_HID :: u8 where "DTYPE_HID \<equiv> 0x21"
abbreviation (input) DTYPE_Report :: u8 where "DTYPE_Report \<equiv> 0x22"

section \<open>Configuration of the pipes\<close>

definition DComp_HID_Host_NextHIDInterface :: "(u16 \<Rightarrow> u8) \<Rightarrow> u16 \<Rightarrow> search" where
  "DComp_HID_Host_NextHIDInterface mem loc =
     (if DESCRIPTOR_TYPE mem loc = DTYPE_Interface \<and> mem (loc + 5) = 0x03
      then DESCRIPTOR_SEARCH_Found else DESCRIPTOR_SEARCH_NotFound)"

definition DComp_NextHID :: "(u16 \<Rightarrow> u8) \<Rightarrow> u16 \<Rightarrow> search" where
  "DComp_NextHID mem loc =
     (if DESCRIPTOR_TYPE mem loc = DTYPE_HID then DESCRIPTOR_SEARCH_Found
      else if DESCRIPTOR_TYPE mem loc = DTYPE_Interface then DESCRIPTOR_SEARCH_Fail
      else DESCRIPTOR_SEARCH_NotFound)"

text \<open>Endpoints of every type are taken.\<close>

definition DComp_HID_Host_NextHIDInterfaceEndpoint :: "'h hio \<Rightarrow> (u16 \<Rightarrow> u8) \<Rightarrow> u16 \<Rightarrow> 'h \<Rightarrow> search \<times> 'h" where
  "DComp_HID_Host_NextHIDInterfaceEndpoint io mem loc s =
     (if DESCRIPTOR_TYPE mem loc = DTYPE_Endpoint then
        (let (bound, s) = Pipe_IsEndpointBound io (mem (loc + 2)) s
         in (if bound then DESCRIPTOR_SEARCH_NotFound else DESCRIPTOR_SEARCH_Found, s))
      else if DESCRIPTOR_TYPE mem loc = DTYPE_Interface then (DESCRIPTOR_SEARCH_Fail, s)
      else (DESCRIPTOR_SEARCH_NotFound, s))"

text \<open>The \<open>do\<close> loop over the interfaces.\<close>

partial_function (option) find_hid_interface :: "(u16 \<Rightarrow> u8) \<Rightarrow> u8 \<Rightarrow> u16 \<times> u16 \<Rightarrow> (search_comp \<times> u16 \<times> u16) option" where
  [code]: "find_hid_interface mem protocol p =
     do {
       (r, p) \<leftarrow> USB_GetNextDescriptorComp mem (DComp_HID_Host_NextHIDInterface mem) p;
       if r = DESCRIPTOR_SEARCH_COMP_Found \<and> protocol \<noteq> 0 \<and> mem (snd p + 7) \<noteq> protocol
       then find_hid_interface mem protocol p else Some (r, p)
     }"

text \<open>The loop over the endpoints; without an OUT endpoint it ends when there is an IN endpoint.\<close>

partial_function (option) find_hid_pipes ::
    "'h hio \<Rightarrow> (u16 \<Rightarrow> u8) \<Rightarrow> HID_Host_Config \<Rightarrow> u16 \<times> u16 \<Rightarrow> HID_Host_State \<Rightarrow> u8 \<Rightarrow> 'h \<Rightarrow>
       (u8 \<times> HID_Host_State \<times> 'h) option" where
  [code]: "find_hid_pipes io mem c p d FoundEndpoints s =
     (if FoundEndpoints = BV 0 OR BV 1 then Some (0, d\<lparr>LargestReportSize := 8, IsActive := True\<rparr>, s)
      else do {
        (r, p, s) \<leftarrow> search_comp_pipes mem (DComp_HID_Host_NextHIDInterfaceEndpoint io mem) p s;
        if r \<noteq> DESCRIPTOR_SEARCH_COMP_Found then
          Some (if bit FoundEndpoints 0 then (0, d\<lparr>LargestReportSize := 8, IsActive := True\<rparr>, s) else (4, d, s))
        else let (d, FoundEndpoints, s) = configure_in_or_out io EP_TYPE_INTERRUPT mem (snd p) c d FoundEndpoints s;
                 d = (if mem (snd p + 2) AND 0x80 = 0 then d\<lparr>DeviceUsesOUTPipe := True\<rparr> else d)
             in find_hid_pipes io mem c p d FoundEndpoints s
      })"

definition HID_Host_ConfigurePipes ::
    "'h hio \<Rightarrow> (u16 \<Rightarrow> u8) \<Rightarrow> HID_Host_Config \<Rightarrow> u16 \<Rightarrow> u16 \<Rightarrow> 'h \<Rightarrow> (u8 \<times> HID_Host_State \<times> 'h) option" where
  "HID_Host_ConfigurePipes io mem c ConfigDescriptorSize ConfigDescriptorData s =
     (if DESCRIPTOR_TYPE mem ConfigDescriptorData \<noteq> DTYPE_Configuration then Some (1, zero_hid_host, s)
      else do {
        (r, p) \<leftarrow> find_hid_interface mem (HIDInterfaceProtocol c) (ConfigDescriptorSize, ConfigDescriptorData);
        if r \<noteq> DESCRIPTOR_SEARCH_COMP_Found then Some (2, zero_hid_host, s)
        else do {
          let d = zero_hid_host\<lparr>InterfaceNumber := mem (snd p + 2),
                    SupportsBootProtocol := mem (snd p + 6) \<noteq> HID_NON_BOOT_PROTOCOL\<rparr>;
          (r, p) \<leftarrow> USB_GetNextDescriptorComp mem (DComp_NextHID mem) p;
          if r \<noteq> DESCRIPTOR_SEARCH_COMP_Found then Some (3, d, s)
          else find_hid_pipes io mem c p (d\<lparr>HIDReportSize := word16 (mem (snd p + 7)) (mem (snd p + 8))\<rparr>) 0 s
        }
      })"

definition HID_Host_USBTask :: "HID_Host_Config \<Rightarrow> 'h \<Rightarrow> 'h" where
  "HID_Host_USBTask c s = s"

section \<open>Reports\<close>

text \<open>The enumeration of report types as a number.\<close>

fun report_type_code :: "HID_ReportItemTypes_t \<Rightarrow> u16" where
  "report_type_code REPORT_ITEM_TYPE_In = 0"
| "report_type_code REPORT_ITEM_TYPE_Out = 1"
| "report_type_code REPORT_ITEM_TYPE_Feature = 2"

text \<open>The request goes to the device with the contents of the buffer, as a report of the type \<open>In\<close>.\<close>

definition HID_Host_ReceiveReportByID ::
    "'h hio \<Rightarrow> u8 \<Rightarrow> HID_ReportInfo_t \<Rightarrow> HID_Host_State \<Rightarrow> u8 \<Rightarrow> u8 list \<Rightarrow> 'h \<Rightarrow> (u8 \<times> u8 list option \<times> 'h) option" where
  "HID_Host_ReceiveReportByID io psize parser d RID Buffer s =
     interface_request io psize CLASS_OUT REQ_SetReport
       (push_bit 8 (report_type_code REPORT_ITEM_TYPE_In + 1) OR ucast RID) (InterfaceNumber d)
       (USB_GetHIDReportSize parser RID REPORT_ITEM_TYPE_In) (Some Buffer) s"

text \<open>The result, the bytes stored in the buffer from its beginning.\<close>

definition HID_Host_ReceiveReport ::
    "'h hio \<Rightarrow> HID_ReportInfo_t \<Rightarrow> HID_Host_Config \<Rightarrow> HID_Host_State \<Rightarrow> 'h \<Rightarrow> (u8 \<times> u8 list \<times> 'h) option" where
  "HID_Host_ReceiveReport io parser c d s =
     (let (act, s) = host_active io (IsActive d) s
      in if \<not> act then Some (PIPE_READYWAIT_DeviceDisconnected, [], s)
         else
           let s = Pipe_Unfreeze io (Pipe_SelectPipe io (DataINPipeNumber c) s);
               (front, ReportSize, s) =
                 (if \<not> UsingBootProtocol d then
                    let (front, s) = (if UsingReportIDs parser then let (b, s) = Pipe_Read_Byte io s in ([b], s) else ([], s))
                    in (front, USB_GetHIDReportSize parser (if front = [] then 0 else hd front) REPORT_ITEM_TYPE_In, s)
                  else let (n, s) = Pipe_BytesInPipe io s in ([], n, s))
           in do {
             (e, got, s) \<leftarrow> Pipe_Read_Stream_LE io None (unat ReportSize) s;
             Some (e, front @ got, if e \<noteq> PIPE_RWSTREAM_NoError then s else Pipe_Freeze io (Pipe_ClearIN io s))
           })"

text \<open>
  Without a usable interface the result is \<open>false\<close>, which is also the code of success.  \<open>Buffer\<close> holds at
  least \<open>ReportSize\<close> bytes.
\<close>

definition HID_Host_SendReportByID ::
    "'h hio \<Rightarrow> u8 \<Rightarrow> HID_Host_Config \<Rightarrow> HID_Host_State \<Rightarrow> u8 \<Rightarrow> u8 list \<Rightarrow> u16 \<Rightarrow> 'h \<Rightarrow> (u8 \<times> 'h) option" where
  "HID_Host_SendReportByID io psize c d RID Buffer ReportSize s =
     (let (act, s) = host_active io (IsActive d) s
      in if \<not> act then Some (of_bool False, s)
         else if DeviceUsesOUTPipe d then
           do {
             let s = Pipe_Unfreeze io (Pipe_SelectPipe io (DataOUTPipeNumber c) s);
             (e, s) \<leftarrow> (if RID \<noteq> 0 then Pipe_Write_Stream_LE io None [RID] s else Some (0, s));
             (e, s) \<leftarrow> Pipe_Write_Stream_LE io None (take (unat ReportSize) Buffer) s;
             Some (e, if e \<noteq> PIPE_RWSTREAM_NoError then s else Pipe_Freeze io (Pipe_ClearOUT io s))
           }
         else map_option (\<lambda>(e, b, s). (e, s))
           (interface_request io psize CLASS_OUT REQ_SetReport
              (push_bit 8 (report_type_code REPORT_ITEM_TYPE_Out + 1) OR ucast RID) (InterfaceNumber d) ReportSize (Some Buffer) s))"

definition HID_Host_IsReportReceived :: "'h hio \<Rightarrow> HID_Host_Config \<Rightarrow> HID_Host_State \<Rightarrow> 'h \<Rightarrow> bool \<times> 'h" where
  "HID_Host_IsReportReceived io c d s =
     (let (act, s) = host_active io (IsActive d) s
      in if \<not> act then (False, s)
         else
           let (rx, s) = Pipe_IsINReceived io (Pipe_Unfreeze io (Pipe_SelectPipe io (DataINPipeNumber c) s))
           in (rx, Pipe_Freeze io s))"

section \<open>Protocols\<close>

definition HID_Host_SetBootProtocol :: "'h hio \<Rightarrow> u8 \<Rightarrow> HID_Host_State \<Rightarrow> 'h \<Rightarrow> (u8 \<times> HID_Host_State \<times> 'h) option" where
  "HID_Host_SetBootProtocol io psize d s =
     (if \<not> SupportsBootProtocol d then Some (HID_ERROR_LOGICAL, d, Pipe_SelectPipe io PIPE_CONTROLPIPE s)
      else do {
        (e, b, s) \<leftarrow> interface_request io psize CLASS_OUT REQ_SetProtocol 0 (InterfaceNumber d) 0 None s;
        Some (e, if e \<noteq> HOST_SENDCONTROL_Successful then d else d\<lparr>LargestReportSize := 8, UsingBootProtocol := True\<rparr>, s)
      })"

text \<open>The codes of the parser's results.\<close>

fun hid_error_code :: "hid_error \<Rightarrow> u8" where
  "hid_error_code HID_PARSE_Successful = 0"
| "hid_error_code HID_PARSE_HIDStackOverflow = 1"
| "hid_error_code HID_PARSE_HIDStackUnderflow = 2"
| "hid_error_code HID_PARSE_InsufficientReportItems = 3"
| "hid_error_code HID_PARSE_UnexpectedEndCollection = 4"
| "hid_error_code HID_PARSE_InsufficientCollectionPaths = 5"
| "hid_error_code HID_PARSE_UsageListOverflow = 6"
| "hid_error_code HID_PARSE_InsufficientReportIDItems = 7"
| "hid_error_code HID_PARSE_NoUnfilteredReportItems = 8"

text \<open>
  \<open>junk\<close> is what the stack holds where the array \<open>HIDReportData\<close> is, \<open>HIDReportSize\<close> bytes; the other three
  parameters are those of the parser.  The last component but one of the result is the parser data, \<open>None\<close>
  when the parser was not run or gave up halfway.  The largest report in bits is cut to eight bits.
\<close>

definition report_bits_to_bytes :: "u16 \<Rightarrow> u8" where
  "report_bits_to_bytes bits16 =
     (let bits = ucast bits16 :: u8 in drop_bit 3 bits + (if bits AND 0x07 \<noteq> 0 then 1 else 0))"

definition hid_use_report_protocol :: "'h hio \<Rightarrow> u8 \<Rightarrow> HID_Host_State \<Rightarrow> 'h \<Rightarrow> (u8 \<times> HID_Host_State \<times> 'h) option" where
  "hid_use_report_protocol io psize d s =
     (if \<not> UsingBootProtocol d then Some (HOST_SENDCONTROL_Successful, d, s)
      else do {
        (e, b, s) \<leftarrow> USB_Host_SendControlRequest io psize (std_request CLASS_OUT REQ_SetProtocol 1 (ucast (InterfaceNumber d)) 0) None s;
        Some (e, if e \<noteq> HOST_SENDCONTROL_Successful then d else d\<lparr>UsingBootProtocol := False\<rparr>, s)
      })"

definition HID_Host_SetReportProtocol ::
    "'h hio \<Rightarrow> u8 \<Rightarrow> (HID_ReportItem_t \<Rightarrow> bool) \<Rightarrow> HID_ReportItem_t \<Rightarrow> hid_stack \<Rightarrow> bool \<Rightarrow> u8 list \<Rightarrow>
       HID_Host_State \<Rightarrow> 'h \<Rightarrow> (u8 \<times> HID_Host_State \<times> HID_ReportInfo_t option \<times> 'h) option" where
  "HID_Host_SetReportProtocol io psize keep fresh stk have_parser junk d s =
     do {
       (e, buf, s) \<leftarrow> interface_request io psize (REQDIR_DEVICETOHOST OR REQTYPE_STANDARD OR REQREC_INTERFACE) REQ_GetDescriptor
                        (push_bit 8 (ucast DTYPE_Report)) (InterfaceNumber d) (HIDReportSize d) (Some junk) s;
       if e \<noteq> HOST_SENDCONTROL_Successful then Some (e, d, None, s)
       else do {
         (e, d, s) \<leftarrow> hid_use_report_protocol io psize d s;
         if e \<noteq> HOST_SENDCONTROL_Successful then Some (e, d, None, s)
         else if \<not> have_parser then Some (HID_ERROR_LOGICAL, d, None, s)
         else (case USB_ProcessHIDReport keep fresh stk (the buf) of
                 MemoryError \<Rightarrow> None
               | ParseError e \<Rightarrow> Some (HID_ERROR_LOGICAL OR hid_error_code e, d, None, s)
               | Parsed e info \<Rightarrow>
                   if e \<noteq> HID_PARSE_Successful then Some (HID_ERROR_LOGICAL OR hid_error_code e, d, Some info, s)
                   else Some (0, d\<lparr>LargestReportSize := report_bits_to_bytes (LargestReportSizeBits info)\<rparr>, Some info, s))
       }
     }"

end
