(* ===== verification/Midi_Host.thy ===== *)
theory Midi_Host
  imports Host_Class Midi_Device
begin

text \<open>
  The host-mode MIDI class driver, \<open>LUFA/Drivers/USB/Class/Host/MIDI.c\<close> and \<open>MIDI.h\<close>.  Its interface
  structure has only the parts that all drivers with two data pipes share, the records \<open>Data_Pipes\<close> and
  \<open>Pipe_Sizes\<close> of the theory \<open>Host_Class\<close>.  None of the functions unfreezes a pipe.
\<close>

type_synonym MIDI_Host_Config = Data_Pipes
type_synonym MIDI_Host_State = Pipe_Sizes

definition zero_pipe_sizes :: Pipe_Sizes where
  "zero_pipe_sizes = \<lparr>IsActive = False, DataINPipeSize = 0, DataOUTPipeSize = 0\<rparr>"

section \<open>Configuration of the pipes\<close>

definition DComp_MIDI_Host_NextMIDIStreamingInterface :: "(u16 \<Rightarrow> u8) \<Rightarrow> u16 \<Rightarrow> search" where
  "DComp_MIDI_Host_NextMIDIStreamingInterface mem = next_interface 0x01 0x03 0x00 mem"

definition DComp_MIDI_Host_NextMIDIStreamingDataEndpoint :: "'h hio \<Rightarrow> (u16 \<Rightarrow> u8) \<Rightarrow> u16 \<Rightarrow> 'h \<Rightarrow> search \<times> 'h" where
  "DComp_MIDI_Host_NextMIDIStreamingDataEndpoint io mem = next_endpoint [EP_TYPE_BULK] io mem"

definition MIDI_Host_ConfigurePipes ::
    "'h hio \<Rightarrow> (u16 \<Rightarrow> u8) \<Rightarrow> MIDI_Host_Config \<Rightarrow> u16 \<Rightarrow> u16 \<Rightarrow> 'h \<Rightarrow> (u8 \<times> MIDI_Host_State \<times> 'h) option" where
  "MIDI_Host_ConfigurePipes io mem c ConfigDescriptorSize ConfigDescriptorData s =
     (if DESCRIPTOR_TYPE mem ConfigDescriptorData \<noteq> DTYPE_Configuration then Some (1, zero_pipe_sizes, s)
      else do {
        (r, p) \<leftarrow> USB_GetNextDescriptorComp mem (DComp_MIDI_Host_NextMIDIStreamingInterface mem)
                    (ConfigDescriptorSize, ConfigDescriptorData);
        if r \<noteq> DESCRIPTOR_SEARCH_COMP_Found then Some (2, zero_pipe_sizes, s)
        else find_two_pipes io mem (DComp_MIDI_Host_NextMIDIStreamingDataEndpoint io mem) c p zero_pipe_sizes 0 s
      })"

definition MIDI_Host_USBTask :: "MIDI_Host_Config \<Rightarrow> 'h \<Rightarrow> 'h" where
  "MIDI_Host_USBTask c s = s"

section \<open>Events\<close>

text \<open>\<open>MIDI_Host_Flush\<close> looks at the host state only, not at \<open>IsActive\<close>.\<close>

definition MIDI_Host_Flush :: "'h hio \<Rightarrow> MIDI_Host_Config \<Rightarrow> 'h \<Rightarrow> (u8 \<times> 'h) option" where
  "MIDI_Host_Flush io c s =
     (let (conf, s) = host_state_is io HOST_STATE_Configured s
      in if \<not> conf then Some (PIPE_RWSTREAM_DeviceDisconnected, s)
         else
           let (n, s) = Pipe_BytesInPipe io (Pipe_SelectPipe io (DataOUTPipeNumber c) s)
           in if n \<noteq> 0 then Pipe_WaitUntilReady io (Pipe_ClearOUT io s) else Some (PIPE_READYWAIT_NoError, s))"

text \<open>An event that finds no room in the bank is dropped with the result 0.\<close>

definition MIDI_Host_SendEventPacket ::
    "'h hio \<Rightarrow> MIDI_Host_Config \<Rightarrow> MIDI_Host_State \<Rightarrow> MIDI_EventPacket_t \<Rightarrow> 'h \<Rightarrow> (u8 \<times> 'h) option" where
  "MIDI_Host_SendEventPacket io c d Event s =
     (let (act, s) = host_active io (IsActive d) s
      in if \<not> act then Some (HOST_SENDCONTROL_DeviceDisconnected, s)
         else
           let (allowed, s) = Pipe_IsReadWriteAllowed io (Pipe_SelectPipe io (DataOUTPipeNumber c) s)
           in if \<not> allowed then Some (PIPE_RWSTREAM_NoError, s)
              else do {
                (e, s) \<leftarrow> Pipe_Write_Stream_LE io None (event_bytes Event) s;
                if e \<noteq> PIPE_RWSTREAM_NoError then Some (e, s)
                else let (allowed, s) = Pipe_IsReadWriteAllowed io s
                     in Some (PIPE_RWSTREAM_NoError, if allowed then s else Pipe_ClearOUT io s)
              })"

text \<open>
  The function returns a boolean; \<open>HOST_SENDCONTROL_DeviceDisconnected\<close>, which is 1, becomes true.  The
  bytes received replace the front of \<open>Event\<close>.
\<close>

definition MIDI_Host_ReceiveEventPacket ::
    "'h hio \<Rightarrow> MIDI_Host_Config \<Rightarrow> MIDI_Host_State \<Rightarrow> MIDI_EventPacket_t \<Rightarrow> 'h \<Rightarrow>
       (bool \<times> MIDI_EventPacket_t \<times> 'h) option" where
  "MIDI_Host_ReceiveEventPacket io c d Event s =
     (let (act, s) = host_active io (IsActive d) s
      in if \<not> act then Some (HOST_SENDCONTROL_DeviceDisconnected \<noteq> 0, Event, s)
         else
           let (allowed, s) = Pipe_IsReadWriteAllowed io (Pipe_SelectPipe io (DataINPipeNumber c) s)
           in if \<not> allowed then Some (False, Event, s)
              else do {
                (e, got, s) \<leftarrow> Pipe_Read_Stream_LE io None 4 s;
                let (allowed, s) = Pipe_IsReadWriteAllowed io s;
                Some (True, event_of (got @ drop (length got) (event_bytes Event)), if allowed then s else Pipe_ClearIN io s)
              })"

end
