(* ===== verification/Printer_Host.thy ===== *)
theory Printer_Host
  imports Host_Class
begin

text \<open>
  The host-mode printer class driver, \<open>LUFA/Drivers/USB/Class/Host/Printer.c\<close> and \<open>Printer.h\<close>.
\<close>

section \<open>The interface structure\<close>

type_synonym PRNT_Host_Config = Data_Pipes

record PRNT_Host_State = Pipe_Sizes +
  InterfaceNumber :: u8
  AlternateSetting :: u8

definition zero_printer :: PRNT_Host_State where
  "zero_printer = \<lparr>IsActive = False, DataINPipeSize = 0, DataOUTPipeSize = 0, InterfaceNumber = 0, AlternateSetting = 0\<rparr>"

abbreviation (input) REQ_GetDeviceID :: u8 where "REQ_GetDeviceID \<equiv> 0"
abbreviation (input) REQ_GetPortStatus :: u8 where "REQ_GetPortStatus \<equiv> 1"
abbreviation (input) REQ_SoftReset :: u8 where "REQ_SoftReset \<equiv> 2"

section \<open>Configuration of the pipes\<close>

definition DComp_NextPRNTInterface :: "(u16 \<Rightarrow> u8) \<Rightarrow> u16 \<Rightarrow> search" where
  "DComp_NextPRNTInterface mem = next_interface 0x07 0x01 0x02 mem"

text \<open>Unlike the other drivers this one does not ask whether the endpoint has a pipe already.\<close>

definition DComp_NextPRNTInterfaceEndpoint :: "(u16 \<Rightarrow> u8) \<Rightarrow> u16 \<Rightarrow> search" where
  "DComp_NextPRNTInterfaceEndpoint mem loc =
     (if DESCRIPTOR_TYPE mem loc = DTYPE_Endpoint then
        (if mem (loc + 3) AND 0x03 = EP_TYPE_BULK then DESCRIPTOR_SEARCH_Found else DESCRIPTOR_SEARCH_NotFound)
      else if DESCRIPTOR_TYPE mem loc = DTYPE_Interface then DESCRIPTOR_SEARCH_Fail
      else DESCRIPTOR_SEARCH_NotFound)"

definition PRNT_Host_ConfigurePipes ::
    "'h hio \<Rightarrow> (u16 \<Rightarrow> u8) \<Rightarrow> PRNT_Host_Config \<Rightarrow> u16 \<Rightarrow> u16 \<Rightarrow> 'h \<Rightarrow> (u8 \<times> PRNT_Host_State \<times> 'h) option" where
  "PRNT_Host_ConfigurePipes io mem c ConfigDescriptorSize DeviceConfigDescriptor s =
     (if DESCRIPTOR_TYPE mem DeviceConfigDescriptor \<noteq> DTYPE_Configuration then Some (1, zero_printer, s)
      else do {
        (r, p) \<leftarrow> USB_GetNextDescriptorComp mem (DComp_NextPRNTInterface mem) (ConfigDescriptorSize, DeviceConfigDescriptor);
        if r \<noteq> DESCRIPTOR_SEARCH_COMP_Found then Some (2, zero_printer, s)
        else find_two_pipes io mem (\<lambda>loc s. (DComp_NextPRNTInterfaceEndpoint mem loc, s)) c p
               (zero_printer\<lparr>InterfaceNumber := mem (snd p + 2), AlternateSetting := mem (snd p + 3)\<rparr>) 0 s
      })"

definition PRNT_Host_USBTask :: "PRNT_Host_Config \<Rightarrow> 'h \<Rightarrow> 'h" where
  "PRNT_Host_USBTask c s = s"

section \<open>Requests\<close>

definition PRNT_Host_SetBidirectionalMode :: "'h hio \<Rightarrow> u8 \<Rightarrow> PRNT_Host_State \<Rightarrow> 'h \<Rightarrow> (u8 \<times> 'h) option" where
  "PRNT_Host_SetBidirectionalMode io psize d s =
     (if AlternateSetting d \<noteq> 0 then
        map_option (\<lambda>(e, b, s). (e, s))
          (interface_request io psize (REQDIR_HOSTTODEVICE OR REQTYPE_STANDARD OR REQREC_INTERFACE) REQ_SetInterface
             (ucast (AlternateSetting d)) (InterfaceNumber d) 0 None s)
      else Some (HOST_SENDCONTROL_Successful, s))"

text \<open>\<open>PortStatus\<close> is a byte of the caller; the result has the byte as the request leaves it.\<close>

definition PRNT_Host_GetPortStatus :: "'h hio \<Rightarrow> u8 \<Rightarrow> PRNT_Host_State \<Rightarrow> u8 \<Rightarrow> 'h \<Rightarrow> (u8 \<times> u8 \<times> 'h) option" where
  "PRNT_Host_GetPortStatus io psize d PortStatus s =
     map_option (\<lambda>(e, b, s). (e, hd (the b), s))
       (interface_request io psize CLASS_IN REQ_GetPortStatus 0 (InterfaceNumber d) 1 (Some [PortStatus]) s)"

definition PRNT_Host_SoftReset :: "'h hio \<Rightarrow> u8 \<Rightarrow> PRNT_Host_State \<Rightarrow> 'h \<Rightarrow> (u8 \<times> 'h) option" where
  "PRNT_Host_SoftReset io psize d s =
     map_option (\<lambda>(e, b, s). (e, s)) (interface_request io psize CLASS_OUT REQ_SoftReset 0 (InterfaceNumber d) 0 None s)"

section \<open>Data\<close>

text \<open>The loop after the last packet has neither a time limit nor a test for a stall.\<close>

partial_function (option) printer_wait :: "'h hio \<Rightarrow> 'h \<Rightarrow> (u8 \<times> 'h) option" where
  [code]: "printer_wait io s =
     (let (rdy, s) = Pipe_IsOUTReady io s
      in if rdy then Some (PIPE_RWSTREAM_NoError, Pipe_Freeze io s)
         else let (un, s) = host_state_is io HOST_STATE_Unattached s
              in if un then Some (PIPE_RWSTREAM_DeviceDisconnected, s) else printer_wait io s)"

definition PRNT_Host_SendData :: "'h hio \<Rightarrow> PRNT_Host_Config \<Rightarrow> PRNT_Host_State \<Rightarrow> u8 list \<Rightarrow> 'h \<Rightarrow> (u8 \<times> 'h) option" where
  "PRNT_Host_SendData io c d PrinterCommands s =
     (let (act, s) = host_active io (IsActive d) s
      in if \<not> act then Some (PIPE_RWSTREAM_DeviceDisconnected, s)
         else do {
           (e, s) \<leftarrow> Pipe_Write_Stream_LE io None PrinterCommands
                       (Pipe_Unfreeze io (Pipe_SelectPipe io (DataOUTPipeNumber c) s));
           if e \<noteq> PIPE_RWSTREAM_NoError then Some (e, s) else printer_wait io (Pipe_ClearOUT io s)
         })"

text \<open>
  The identification: a length of two bytes, high byte first, that counts itself, and the text.  The text
  is moved to the front of the buffer and ended with a zero.  \<open>DeviceIDString\<close> is the buffer of \<open>BufferSize\<close>
  bytes.  The numbers have 16 bits, so for a length below two the move takes more than 65,000 bytes,
  which is \<open>None\<close>, as is the terminator in an empty buffer.
\<close>

definition id_to_front :: "u16 \<Rightarrow> u8 list \<Rightarrow> u8 list option" where
  "id_to_front DeviceIDStringLength buf =
     (let n = unat (DeviceIDStringLength - 2)
      in if length buf < n + 2 then None else Some ((take n (drop 2 buf) @ drop n buf)[n := 0]))"

definition PRNT_Host_GetDeviceID ::
    "'h hio \<Rightarrow> u8 \<Rightarrow> PRNT_Host_State \<Rightarrow> u8 list \<Rightarrow> 'h \<Rightarrow> (u8 \<times> u8 list \<times> 'h) option" where
  "PRNT_Host_GetDeviceID io psize d DeviceIDString s =
     do {
       let BufferSize = (of_nat (length DeviceIDString) :: u16);
       (e, len, s) \<leftarrow> interface_request io psize CLASS_IN REQ_GetDeviceID 0 (InterfaceNumber d) 2 (Some [0, 0]) s;
       let DeviceIDStringLength = word16 (the len ! 0) (the len ! 1);
       if e \<noteq> HOST_SENDCONTROL_Successful then Some (e, DeviceIDString, s)
       else if DeviceIDStringLength = 0 then
         (if DeviceIDString = [] then None else Some (HOST_SENDCONTROL_Successful, DeviceIDString[0 := 0], s))
       else do {
         let DeviceIDStringLength = min (SwapEndian_16 DeviceIDStringLength) BufferSize;
         (e, buf, s) \<leftarrow> USB_Host_SendControlRequest io psize
            (std_request CLASS_IN REQ_GetDeviceID 0 (ucast (InterfaceNumber d)) DeviceIDStringLength) (Some DeviceIDString) s;
         if e \<noteq> HOST_SENDCONTROL_Successful then Some (e, the buf, s)
         else map_option (\<lambda>buf. (HOST_SENDCONTROL_Successful, buf, s)) (id_to_front DeviceIDStringLength (the buf))
       }
     }"

end
