(* ===== verification/Rndis_Host.thy ===== *)
theory Rndis_Host
  imports Host_Class Rndis_Device
begin

text \<open>
  The host-mode RNDIS class driver (network adapters), \<open>LUFA/Drivers/USB/Class/Host/RNDIS.c\<close> and
  \<open>RNDIS.h\<close>.  Messages are the bytes of the packed structures of \<open>Class/Common/RNDIS.h\<close>.
\<close>

section \<open>The interface structure\<close>

record RNDIS_Host_Config = Notify_Pipes +
  HostMaxPacketSize :: u32

record RNDIS_Host_State = Notify_Sizes +
  RndisControlInterface :: u8
  DeviceMaxPacketSize :: u32
  RequestID :: u32

definition zero_rndis_host :: RNDIS_Host_State where
  "zero_rndis_host = \<lparr>IsActive = False, DataINPipeSize = 0, DataOUTPipeSize = 0, NotificationPipeSize = 0,
     RndisControlInterface = 0, DeviceMaxPacketSize = 0, RequestID = 0\<rparr>"

abbreviation (input) RNDIS_COMMAND_FAILED :: u8 where "RNDIS_COMMAND_FAILED \<equiv> 0xC0"

section \<open>Configuration of the pipes\<close>

definition DComp_RNDIS_Host_NextRNDISControlInterface :: "(u16 \<Rightarrow> u8) \<Rightarrow> u16 \<Rightarrow> search" where
  "DComp_RNDIS_Host_NextRNDISControlInterface mem = next_interface 0x02 0x02 0xFF mem"

definition DComp_RNDIS_Host_NextRNDISDataInterface :: "(u16 \<Rightarrow> u8) \<Rightarrow> u16 \<Rightarrow> search" where
  "DComp_RNDIS_Host_NextRNDISDataInterface mem = next_interface 0x0A 0x00 0x00 mem"

definition DComp_RNDIS_Host_NextRNDISInterfaceEndpoint :: "'h hio \<Rightarrow> (u16 \<Rightarrow> u8) \<Rightarrow> u16 \<Rightarrow> 'h \<Rightarrow> search \<times> 'h" where
  "DComp_RNDIS_Host_NextRNDISInterfaceEndpoint io mem = next_endpoint [EP_TYPE_BULK, EP_TYPE_INTERRUPT] io mem"

definition RNDIS_Host_ConfigurePipes ::
    "'h hio \<Rightarrow> (u16 \<Rightarrow> u8) \<Rightarrow> RNDIS_Host_Config \<Rightarrow> u16 \<Rightarrow> u16 \<Rightarrow> 'h \<Rightarrow> (u8 \<times> RNDIS_Host_State \<times> 'h) option" where
  "RNDIS_Host_ConfigurePipes io mem c ConfigDescriptorSize ConfigDescriptorData s =
     (if DESCRIPTOR_TYPE mem ConfigDescriptorData \<noteq> DTYPE_Configuration then Some (1, zero_rndis_host, s)
      else do {
        (r, p) \<leftarrow> USB_GetNextDescriptorComp mem (DComp_RNDIS_Host_NextRNDISControlInterface mem)
                    (ConfigDescriptorSize, ConfigDescriptorData);
        if r \<noteq> DESCRIPTOR_SEARCH_COMP_Found then Some (2, zero_rndis_host, s)
        else find_three_pipes io mem (DComp_RNDIS_Host_NextRNDISControlInterface mem)
               (DComp_RNDIS_Host_NextRNDISDataInterface mem) (DComp_RNDIS_Host_NextRNDISInterfaceEndpoint io mem) c p
               (zero_rndis_host\<lparr>RndisControlInterface := mem (snd p + 2)\<rparr>) 0 s
      })"

definition RNDIS_Host_USBTask :: "RNDIS_Host_Config \<Rightarrow> 'h \<Rightarrow> 'h" where
  "RNDIS_Host_USBTask c s = s"

section \<open>Commands\<close>

definition RNDIS_SendEncapsulatedCommand ::
    "'h hio \<Rightarrow> u8 \<Rightarrow> RNDIS_Host_State \<Rightarrow> u8 list \<Rightarrow> u16 \<Rightarrow> 'h \<Rightarrow> (u8 \<times> u8 list option \<times> 'h) option" where
  "RNDIS_SendEncapsulatedCommand io psize d Buffer Length s =
     interface_request io psize CLASS_OUT REQ_SendEncapsulatedCommand 0 (RndisControlInterface d) Length (Some Buffer) s"

definition RNDIS_GetEncapsulatedResponse ::
    "'h hio \<Rightarrow> u8 \<Rightarrow> RNDIS_Host_State \<Rightarrow> u8 list \<Rightarrow> u16 \<Rightarrow> 'h \<Rightarrow> (u8 \<times> u8 list option \<times> 'h) option" where
  "RNDIS_GetEncapsulatedResponse io psize d Buffer Length s =
     interface_request io psize CLASS_IN REQ_GetEncapsulatedResponse 0 (RndisControlInterface d) Length (Some Buffer) s"

text \<open>
  What all four commands do: the message goes out and the response comes in, up to the first
  error; the request number has gone up in any case.  \<open>junk\<close> is what the stack holds where the
  response is stored.
\<close>

definition rndis_transact ::
    "'h hio \<Rightarrow> u8 \<Rightarrow> RNDIS_Host_State \<Rightarrow> u8 list \<Rightarrow> u16 \<Rightarrow> u8 list \<Rightarrow> 'h \<Rightarrow> (u8 \<times> u8 list \<times> RNDIS_Host_State \<times> 'h) option" where
  "rndis_transact io psize d msg Length junk s =
     do {
       let d = d\<lparr>RequestID := RequestID d + 1\<rparr>;
       (e, b, s) \<leftarrow> RNDIS_SendEncapsulatedCommand io psize d msg Length s;
       if e \<noteq> HOST_SENDCONTROL_Successful then Some (e, junk, d, s)
       else do {
         (e, b, s) \<leftarrow> RNDIS_GetEncapsulatedResponse io psize d junk (of_nat (length junk)) s;
         Some (e, the b, d, s)
       }
     }"

text \<open>The status of the device is not looked at.\<close>

definition RNDIS_Host_SendKeepAlive ::
    "'h hio \<Rightarrow> u8 \<Rightarrow> RNDIS_Host_State \<Rightarrow> u8 list \<Rightarrow> 'h \<Rightarrow> (u8 \<times> RNDIS_Host_State \<times> 'h) option" where
  "RNDIS_Host_SendKeepAlive io psize d junk s =
     map_option (\<lambda>(e, r, d, s). (e, d, s))
       (rndis_transact io psize d (concat (map bytes32 [REMOTE_NDIS_KEEPALIVE_MSG, 12, RequestID d])) 12 (take 16 junk) s)"

definition RNDIS_Host_InitializeDevice ::
    "'h hio \<Rightarrow> u8 \<Rightarrow> RNDIS_Host_Config \<Rightarrow> RNDIS_Host_State \<Rightarrow> u8 list \<Rightarrow> 'h \<Rightarrow> (u8 \<times> RNDIS_Host_State \<times> 'h) option" where
  "RNDIS_Host_InitializeDevice io psize c d junk s =
     map_option (\<lambda>(e, r, d, s).
         if e \<noteq> HOST_SENDCONTROL_Successful then (e, d, s)
         else if peek32 r 12 \<noteq> REMOTE_NDIS_STATUS_SUCCESS then (RNDIS_COMMAND_FAILED, d, s)
         else (HOST_SENDCONTROL_Successful, d\<lparr>DeviceMaxPacketSize := peek32 r 36\<rparr>, s))
       (rndis_transact io psize d
          (concat (map bytes32 [REMOTE_NDIS_INITIALIZE_MSG, 24, RequestID d, 1, 0, HostMaxPacketSize c])) 24 (take 52 junk) s)"

text \<open>
  A property is written from \<open>Buffer\<close>, whose length is \<open>Length\<close>.  The sum of the lengths has 16 bits.
\<close>

definition set_message :: "u32 \<Rightarrow> u32 \<Rightarrow> u8 list \<Rightarrow> u8 list" where
  "set_message request Oid Buffer =
     concat (map bytes32 [REMOTE_NDIS_SET_MSG, ucast (28 + of_nat (length Buffer) :: u16), request, Oid,
       ucast (of_nat (length Buffer) :: u16), 20, 0]) @ Buffer"

definition RNDIS_Host_SetRNDISProperty ::
    "'h hio \<Rightarrow> u8 \<Rightarrow> RNDIS_Host_State \<Rightarrow> u32 \<Rightarrow> u8 list \<Rightarrow> u8 list \<Rightarrow> 'h \<Rightarrow> (u8 \<times> RNDIS_Host_State \<times> 'h) option" where
  "RNDIS_Host_SetRNDISProperty io psize d Oid Buffer junk s =
     map_option (\<lambda>(e, r, d, s).
         (if e \<noteq> HOST_SENDCONTROL_Successful then e
          else if peek32 r 12 \<noteq> REMOTE_NDIS_STATUS_SUCCESS then RNDIS_COMMAND_FAILED else HOST_SENDCONTROL_Successful, d, s))
       (rndis_transact io psize d (set_message (RequestID d) Oid Buffer) (28 + of_nat (length Buffer)) (take 16 junk) s)"

text \<open>
  A property is read into \<open>Buffer\<close> of \<open>MaxLength\<close> bytes; the result has the new contents.  What is copied is
  all that follows the response header in \<open>QueryMessageResponseData\<close>, \<open>24 + MaxLength\<close> bytes of the stack,
  whatever the device sent of it.
\<close>

definition RNDIS_Host_QueryRNDISProperty ::
    "'h hio \<Rightarrow> u8 \<Rightarrow> RNDIS_Host_State \<Rightarrow> u32 \<Rightarrow> u8 list \<Rightarrow> u8 list \<Rightarrow> 'h \<Rightarrow> (u8 \<times> u8 list \<times> RNDIS_Host_State \<times> 'h) option" where
  "RNDIS_Host_QueryRNDISProperty io psize d Oid Buffer junk s =
     map_option (\<lambda>(e, r, d, s).
         if e \<noteq> HOST_SENDCONTROL_Successful then (e, Buffer, d, s)
         else if peek32 r 12 \<noteq> REMOTE_NDIS_STATUS_SUCCESS then (RNDIS_COMMAND_FAILED, Buffer, d, s)
         else (HOST_SENDCONTROL_Successful, drop 24 r, d, s))
       (rndis_transact io psize d (concat (map bytes32 [REMOTE_NDIS_QUERY_MSG, 28, RequestID d, Oid, 0, 0, 0])) 28
          (take (24 + length Buffer) junk) s)"

section \<open>Packets\<close>

definition RNDIS_Host_IsPacketReceived :: "'h hio \<Rightarrow> RNDIS_Host_Config \<Rightarrow> RNDIS_Host_State \<Rightarrow> 'h \<Rightarrow> bool \<times> 'h" where
  "RNDIS_Host_IsPacketReceived io c d s =
     (let (act, s) = host_active io (IsActive d) s
      in if \<not> act then (False, s)
         else
           let s = Pipe_SetPipeToken io PIPE_TOKEN_IN (Pipe_SelectPipe io (DataINPipeNumber c) s);
               (rx, s) = Pipe_IsINReceived io (Pipe_Unfreeze io s)
           in (rx, Pipe_Freeze io s))"

text \<open>
  The result, what is stored through \<open>PacketLength\<close> (\<open>None\<close> if nothing is), and the bytes stored in the
  buffer.  The length of the data and the length of what is skipped before it are cut to 16 bits.
\<close>

definition RNDIS_Host_ReadPacket ::
    "'h hio \<Rightarrow> RNDIS_Host_Config \<Rightarrow> RNDIS_Host_State \<Rightarrow> 'h \<Rightarrow> (u8 \<times> u16 option \<times> u8 list \<times> 'h) option" where
  "RNDIS_Host_ReadPacket io c d s =
     (let (act, s) = host_active io (IsActive d) s
      in if \<not> act then Some (PIPE_READYWAIT_DeviceDisconnected, None, [], s)
         else
           let s = Pipe_SetPipeToken io PIPE_TOKEN_IN (Pipe_SelectPipe io (DataINPipeNumber c) s);
               (allowed, s) = Pipe_IsReadWriteAllowed io (Pipe_Unfreeze io s)
           in if \<not> allowed then
                let (rx, s) = Pipe_IsINReceived io s
                in Some (PIPE_RWSTREAM_NoError, Some 0, [], Pipe_Freeze io (if rx then Pipe_ClearIN io s else s))
              else do {
                (e, DeviceMessage, s) \<leftarrow> Pipe_Read_Stream_LE io None 44 s;
                if e \<noteq> PIPE_RWSTREAM_NoError then Some (e, None, [], s)
                else do {
                  let h = packet_of DeviceMessage;
                  let PacketLength = (ucast (DataLength h) :: u16);
                  let skip = (ucast (DataOffset h - 36) :: u16);
                  (e, s) \<leftarrow> Pipe_Discard_Stream io None (unat skip) s;
                  (e, got, s) \<leftarrow> Pipe_Read_Stream_LE io None (unat PacketLength) s;
                  let (n, s) = Pipe_BytesInPipe io s;
                  Some (PIPE_RWSTREAM_NoError, Some PacketLength, got, Pipe_Freeze io (if n = 0 then Pipe_ClearIN io s else s))
                }
              })"

text \<open>The header of a packet; the sum of the lengths has 16 bits.\<close>

definition packet_message :: "u16 \<Rightarrow> u8 list" where
  "packet_message PacketLength =
     packet_bytes (zero_packet\<lparr>MessageType := REMOTE_NDIS_PACKET_MSG, MessageLength := ucast (44 + PacketLength),
       DataOffset := 36, DataLength := ucast PacketLength\<rparr>)"

definition RNDIS_Host_SendPacket ::
    "'h hio \<Rightarrow> RNDIS_Host_Config \<Rightarrow> RNDIS_Host_State \<Rightarrow> u8 list \<Rightarrow> 'h \<Rightarrow> (u8 \<times> 'h) option" where
  "RNDIS_Host_SendPacket io c d Buffer s =
     (let (act, s) = host_active io (IsActive d) s
      in if \<not> act then Some (PIPE_READYWAIT_DeviceDisconnected, s)
         else do {
           (e, s) \<leftarrow> Pipe_Write_Stream_LE io None (packet_message (of_nat (length Buffer)))
                       (Pipe_Unfreeze io (Pipe_SelectPipe io (DataOUTPipeNumber c) s));
           if e \<noteq> PIPE_RWSTREAM_NoError then Some (e, s)
           else do {
             (e, s) \<leftarrow> Pipe_Write_Stream_LE io None Buffer s;
             Some (PIPE_RWSTREAM_NoError, Pipe_Freeze io (Pipe_ClearOUT io s))
           }
         })"

end
