(* ===== verification/Still_Image_Host.thy ===== *)
theory Still_Image_Host
  imports Host_Class
begin

text \<open>
  The host-mode still image class driver (cameras), \<open>LUFA/Drivers/USB/Class/Host/StillImage.c\<close>,
  \<open>StillImage.h\<close> and \<open>Class/Common/StillImage.h\<close>.  \<open>None\<close> stands for a function that does not return or that
  accesses memory outside a container.
\<close>

section \<open>Containers\<close>

abbreviation (input) CType_CommandBlock :: u16 where "CType_CommandBlock \<equiv> 1"
abbreviation (input) CType_DataBlock :: u16 where "CType_DataBlock \<equiv> 2"
abbreviation (input) CType_ResponseBlock :: u16 where "CType_ResponseBlock \<equiv> 3"
abbreviation (input) CType_EventBlock :: u16 where "CType_EventBlock \<equiv> 4"
abbreviation (input) SI_ERROR_LOGICAL_CMD_FAILED :: u8 where "SI_ERROR_LOGICAL_CMD_FAILED \<equiv> 0x80"
abbreviation (input) SI_COMMAND_DATA_TIMEOUT_MS :: u16 where "SI_COMMAND_DATA_TIMEOUT_MS \<equiv> 10000"

text \<open>\<open>Params\<close> are the 20 bytes of the array of five double words.\<close>

record SI_PIMA_Container_t =
  DataLength :: u32
  Type :: u16
  Code :: u16
  TransactionID :: u32
  Params :: "u8 list"

definition PIMA_COMMAND_SIZE :: "nat \<Rightarrow> nat" where
  "PIMA_COMMAND_SIZE params = 12 + params * 4"

definition pima_header :: "SI_PIMA_Container_t \<Rightarrow> u8 list" where
  "pima_header h = bytes32 (DataLength h) @ bytes16 (Type h) @ bytes16 (Code h) @ bytes32 (TransactionID h)"

definition set_pima_header :: "u8 list \<Rightarrow> SI_PIMA_Container_t \<Rightarrow> SI_PIMA_Container_t" where
  "set_pima_header bs h =
     h\<lparr>DataLength := peek32 bs 0, Type := peek16 bs 4, Code := peek16 bs 6, TransactionID := peek32 bs 8\<rparr>"

text \<open>Bytes that replace the front of a header, or of a whole container.\<close>

definition read_pima_header :: "u8 list \<Rightarrow> SI_PIMA_Container_t \<Rightarrow> SI_PIMA_Container_t" where
  "read_pima_header got h = set_pima_header (got @ drop (length got) (pima_header h)) h"

definition read_pima :: "u8 list \<Rightarrow> SI_PIMA_Container_t \<Rightarrow> SI_PIMA_Container_t" where
  "read_pima got h =
     (let bs = got @ drop (length got) (pima_header h @ Params h) in (set_pima_header bs h)\<lparr>Params := drop 12 bs\<rparr>)"

text \<open>\<open>uint8_t ParamBytes = (PIMAHeader->DataLength - PIMA_COMMAND_SIZE(0))\<close>\<close>

definition param_bytes :: "SI_PIMA_Container_t \<Rightarrow> u8" where
  "param_bytes h = ucast (DataLength h - of_nat (PIMA_COMMAND_SIZE 0))"

section \<open>The interface structure\<close>

record SI_Host_Config = Data_Pipes +
  EventsPipeNumber :: u8
  EventsPipeDoubleBank :: bool

record SI_Host_State = Pipe_Sizes +
  EventsPipeSize :: u16
  IsSessionOpen :: bool
  NextTransactionID :: u32

definition zero_still_image :: SI_Host_State where
  "zero_still_image = \<lparr>IsActive = False, DataINPipeSize = 0, DataOUTPipeSize = 0, EventsPipeSize = 0, IsSessionOpen = False,
     NextTransactionID = 0\<rparr>"

section \<open>Configuration of the pipes\<close>

definition DComp_SI_Host_NextSIInterface :: "(u16 \<Rightarrow> u8) \<Rightarrow> u16 \<Rightarrow> search" where
  "DComp_SI_Host_NextSIInterface mem = next_interface 0x06 0x01 0x01 mem"

definition DComp_SI_Host_NextSIInterfaceEndpoint :: "'h hio \<Rightarrow> (u16 \<Rightarrow> u8) \<Rightarrow> u16 \<Rightarrow> 'h \<Rightarrow> search \<times> 'h" where
  "DComp_SI_Host_NextSIInterfaceEndpoint io mem = next_endpoint [EP_TYPE_BULK, EP_TYPE_INTERRUPT] io mem"

text \<open>
  \<open>FoundEndpoints\<close> has bit 0 for the events, bit 1 for the IN pipe and bit 2 for the OUT pipe, so the bits of
  \<open>configure_in_or_out\<close> are shifted by one.
\<close>

definition configure_si_pipe ::
    "'h hio \<Rightarrow> (u16 \<Rightarrow> u8) \<Rightarrow> u16 \<Rightarrow> SI_Host_Config \<Rightarrow> SI_Host_State \<Rightarrow> u8 \<Rightarrow> 'h \<Rightarrow> SI_Host_State \<times> u8 \<times> 'h" where
  "configure_si_pipe io mem loc c d FoundEndpoints s =
     (let addr = mem (loc + 2); size = word16 (mem (loc + 4)) (mem (loc + 5))
      in if mem (loc + 3) AND 0x03 = EP_TYPE_INTERRUPT then
           (if addr AND 0x80 \<noteq> 0 then
              (let (r, s) = Pipe_ConfigurePipe io (EventsPipeNumber c) EP_TYPE_INTERRUPT PIPE_TOKEN_IN addr size
                              (host_bank (EventsPipeDoubleBank c)) s
               in (d\<lparr>EventsPipeSize := size\<rparr>, FoundEndpoints OR BV 0, Pipe_SetInterruptPeriod io (mem (loc + 6)) s))
            else (d, FoundEndpoints, s))
         else (let (d, found, s) = configure_in_or_out io EP_TYPE_BULK mem loc c d 0 s
               in (d, FoundEndpoints OR push_bit 1 found, s)))"

partial_function (option) find_si_pipes ::
    "'h hio \<Rightarrow> (u16 \<Rightarrow> u8) \<Rightarrow> SI_Host_Config \<Rightarrow> u16 \<times> u16 \<Rightarrow> SI_Host_State \<Rightarrow> u8 \<Rightarrow> 'h \<Rightarrow>
       (u8 \<times> SI_Host_State \<times> 'h) option" where
  [code]: "find_si_pipes io mem c p d FoundEndpoints s =
     (if FoundEndpoints = BV 0 OR BV 1 OR BV 2 then Some (0, d\<lparr>IsActive := True\<rparr>, s)
      else do {
        (r, p, s) \<leftarrow> search_comp_pipes mem (DComp_SI_Host_NextSIInterfaceEndpoint io mem) p s;
        if r \<noteq> DESCRIPTOR_SEARCH_COMP_Found then Some (3, d, s)
        else let (d, FoundEndpoints, s) = configure_si_pipe io mem (snd p) c d FoundEndpoints s
             in find_si_pipes io mem c p d FoundEndpoints s
      })"

definition SImage_Host_ConfigurePipes ::
    "'h hio \<Rightarrow> (u16 \<Rightarrow> u8) \<Rightarrow> SI_Host_Config \<Rightarrow> u16 \<Rightarrow> u16 \<Rightarrow> 'h \<Rightarrow> (u8 \<times> SI_Host_State \<times> 'h) option" where
  "SImage_Host_ConfigurePipes io mem c ConfigDescriptorSize DeviceConfigDescriptor s =
     (if DESCRIPTOR_TYPE mem DeviceConfigDescriptor \<noteq> DTYPE_Configuration then Some (1, zero_still_image, s)
      else do {
        (r, p) \<leftarrow> USB_GetNextDescriptorComp mem (DComp_SI_Host_NextSIInterface mem)
                    (ConfigDescriptorSize, DeviceConfigDescriptor);
        if r \<noteq> DESCRIPTOR_SEARCH_COMP_Found then Some (2, zero_still_image, s)
        else find_si_pipes io mem c p zero_still_image 0 s
      })"

definition SImage_Host_USBTask :: "SI_Host_Config \<Rightarrow> 'h \<Rightarrow> 'h" where
  "SImage_Host_USBTask c s = s"

section \<open>Block headers\<close>

text \<open>The container gets the next transaction number, also when sending fails.\<close>

definition send_params :: "'h hio \<Rightarrow> SI_PIMA_Container_t \<Rightarrow> 'h \<Rightarrow> (u8 \<times> 'h) option" where
  "send_params io h s =
     (if param_bytes h = 0 then Some (PIPE_RWSTREAM_NoError, s)
      else if length (Params h) < unat (param_bytes h) then None
      else Pipe_Write_Stream_LE io None (take (unat (param_bytes h)) (Params h)) s)"

definition SImage_Host_SendBlockHeader ::
    "'h hio \<Rightarrow> SI_Host_Config \<Rightarrow> SI_PIMA_Container_t \<Rightarrow> SI_Host_State \<Rightarrow> 'h \<Rightarrow>
       (u8 \<times> SI_PIMA_Container_t \<times> SI_Host_State \<times> 'h) option" where
  "SImage_Host_SendBlockHeader io c PIMAHeader d s =
     (let (act, s) = host_active io (IsActive d) s
      in if \<not> act then Some (PIPE_RWSTREAM_DeviceDisconnected, PIMAHeader, d, s)
         else do {
           let PIMAHeader = PIMAHeader\<lparr>TransactionID := NextTransactionID d\<rparr>;
           let d = d\<lparr>NextTransactionID := NextTransactionID d + 1\<rparr>;
           (e, s) \<leftarrow> Pipe_Write_Stream_LE io None (pima_header PIMAHeader)
                       (Pipe_Unfreeze io (Pipe_SelectPipe io (DataOUTPipeNumber c) s));
           if e \<noteq> PIPE_RWSTREAM_NoError then Some (e, PIMAHeader, d, s)
           else do {
             (e, s) \<leftarrow> send_params io PIMAHeader s;
             Some (e, PIMAHeader, d, if e \<noteq> PIPE_RWSTREAM_NoError then s else Pipe_Freeze io (Pipe_ClearOUT io s))
           }
         })"

text \<open>
  One round of the loop that waits for the device.  \<open>USB_Host_ClearPipeStall\<close> is called with the number of
  the pipe, not with the endpoint it is bound to.
\<close>

definition si_swap_pipe :: "'h hio \<Rightarrow> u8 \<Rightarrow> 'h \<Rightarrow> bool \<times> 'h" where
  "si_swap_pipe io pipenum s = Pipe_IsStalled io (Pipe_Unfreeze io (Pipe_SelectPipe io pipenum (Pipe_Freeze io s)))"

definition si_wait_round :: "'h hio \<Rightarrow> u8 \<Rightarrow> SI_Host_Config \<Rightarrow> u16 \<Rightarrow> 'h \<Rightarrow> ((u8, u16) flow \<times> 'h) option" where
  "si_wait_round io psize c TimeoutMSRem s =
     (let (sof, s) = USB_INT_HasOccurred_HSOFI io s;
          (TimeoutMSRem, s) = (if sof then (TimeoutMSRem - 1, USB_INT_Clear_HSOFI io s) else (TimeoutMSRem, s))
      in if sof \<and> TimeoutMSRem = 0 then Some (Return PIPE_RWSTREAM_Timeout, s)
      else let (st, s) = si_swap_pipe io (DataOUTPipeNumber c) s
      in if st then map_option (\<lambda>(e, s). (Return PIPE_RWSTREAM_PipeStalled, s))
                      (USB_Host_ClearPipeStall io psize (DataOUTPipeNumber c) s)
      else let (st, s) = si_swap_pipe io (DataINPipeNumber c) s
      in if st then map_option (\<lambda>(e, s). (Return PIPE_RWSTREAM_PipeStalled, s))
                      (USB_Host_ClearPipeStall io psize (DataINPipeNumber c) s)
      else let (un, s) = host_state_is io HOST_STATE_Unattached s
      in Some (if un then Return PIPE_RWSTREAM_DeviceDisconnected else Next TimeoutMSRem, s))"

partial_function (option) si_wait_loop :: "'h hio \<Rightarrow> u8 \<Rightarrow> SI_Host_Config \<Rightarrow> u16 \<Rightarrow> 'h \<Rightarrow> (u8 \<times> 'h) option" where
  [code]: "si_wait_loop io psize c TimeoutMSRem s =
     (let (allowed, s) = Pipe_IsReadWriteAllowed io s
      in if allowed then Some (PIPE_RWSTREAM_NoError, s)
         else do {
           (f, s) \<leftarrow> si_wait_round io psize c TimeoutMSRem s;
           case f of Return e \<Rightarrow> Some (e, s) | Next t \<Rightarrow> si_wait_loop io psize c t s
         })"

text \<open>
  The parameters of a response go into \<open>Params\<close>.  Their number is what the device sent, up to 255 bytes;
  when more bytes arrive than the array has, the driver writes behind it.
\<close>

definition receive_params :: "'h hio \<Rightarrow> SI_PIMA_Container_t \<Rightarrow> 'h \<Rightarrow> (SI_PIMA_Container_t \<times> 'h) option" where
  "receive_params io h s =
     (if Type h \<noteq> CType_ResponseBlock then Some (h, s)
      else do {
        (got, s) \<leftarrow> (if param_bytes h = 0 then Some ([], s)
          else map_option snd (Pipe_Read_Stream_LE io None (unat (param_bytes h)) s));
        if length (Params h) < length got then None
        else Some (h\<lparr>Params := got @ drop (length got) (Params h)\<rparr>, Pipe_ClearIN io s)
      })"

definition SImage_Host_ReceiveBlockHeader ::
    "'h hio \<Rightarrow> u8 \<Rightarrow> SI_Host_Config \<Rightarrow> SI_Host_State \<Rightarrow> SI_PIMA_Container_t \<Rightarrow> 'h \<Rightarrow>
       (u8 \<times> SI_PIMA_Container_t \<times> 'h) option" where
  "SImage_Host_ReceiveBlockHeader io psize c d PIMAHeader s =
     (let (act, s) = host_active io (IsActive d) s
      in if \<not> act then Some (PIPE_RWSTREAM_DeviceDisconnected, PIMAHeader, s)
         else do {
           (e, s) \<leftarrow> si_wait_loop io psize c SI_COMMAND_DATA_TIMEOUT_MS
                       (Pipe_Unfreeze io (Pipe_SelectPipe io (DataINPipeNumber c) s));
           if e \<noteq> PIPE_RWSTREAM_NoError then Some (e, PIMAHeader, s)
           else do {
             (e, got, s) \<leftarrow> Pipe_Read_Stream_LE io None (PIMA_COMMAND_SIZE 0) s;
             (PIMAHeader, s) \<leftarrow> receive_params io (read_pima_header got PIMAHeader) s;
             Some (PIPE_RWSTREAM_NoError, PIMAHeader, Pipe_Freeze io s)
           }
         })"

section \<open>Data and events\<close>

definition SImage_Host_SendData :: "'h hio \<Rightarrow> SI_Host_Config \<Rightarrow> SI_Host_State \<Rightarrow> u8 list \<Rightarrow> 'h \<Rightarrow> (u8 \<times> 'h) option" where
  "SImage_Host_SendData io c d Buffer s =
     (let (act, s) = host_active io (IsActive d) s
      in if \<not> act then Some (PIPE_RWSTREAM_DeviceDisconnected, s)
         else map_option (\<lambda>(e, s). (e, Pipe_Freeze io (Pipe_ClearOUT io s)))
           (Pipe_Write_Stream_LE io None Buffer (Pipe_Unfreeze io (Pipe_SelectPipe io (DataOUTPipeNumber c) s))))"

definition SImage_Host_ReadData ::
    "'h hio \<Rightarrow> SI_Host_Config \<Rightarrow> SI_Host_State \<Rightarrow> u16 \<Rightarrow> 'h \<Rightarrow> (u8 \<times> u8 list \<times> 'h) option" where
  "SImage_Host_ReadData io c d Bytes s =
     (let (act, s) = host_active io (IsActive d) s
      in if \<not> act then Some (PIPE_RWSTREAM_DeviceDisconnected, [], s)
         else map_option (\<lambda>(e, got, s). (e, got, Pipe_Freeze io s))
           (Pipe_Read_Stream_LE io None (unat Bytes) (Pipe_Unfreeze io (Pipe_SelectPipe io (DataINPipeNumber c) s))))"

definition SImage_Host_IsEventReceived :: "'h hio \<Rightarrow> SI_Host_Config \<Rightarrow> SI_Host_State \<Rightarrow> 'h \<Rightarrow> bool \<times> 'h" where
  "SImage_Host_IsEventReceived io c d s =
     (let (act, s) = host_active io (IsActive d) s
      in if \<not> act then (False, s)
         else let (n, s) = Pipe_BytesInPipe io (Pipe_Unfreeze io (Pipe_SelectPipe io (EventsPipeNumber c) s))
              in (n \<noteq> 0, Pipe_Freeze io s))"

definition SImage_Host_ReceiveEventHeader ::
    "'h hio \<Rightarrow> SI_Host_Config \<Rightarrow> SI_Host_State \<Rightarrow> SI_PIMA_Container_t \<Rightarrow> 'h \<Rightarrow> (u8 \<times> SI_PIMA_Container_t \<times> 'h) option" where
  "SImage_Host_ReceiveEventHeader io c d PIMAHeader s =
     (let (act, s) = host_active io (IsActive d) s
      in if \<not> act then Some (PIPE_RWSTREAM_DeviceDisconnected, PIMAHeader, s)
         else map_option (\<lambda>(e, got, s). (e, read_pima got PIMAHeader, Pipe_Freeze io (Pipe_ClearIN io s)))
           (Pipe_Read_Stream_LE io None 32 (Pipe_Unfreeze io (Pipe_SelectPipe io (EventsPipeNumber c) s))))"

section \<open>Sessions and commands\<close>

definition pima_command :: "u16 \<Rightarrow> SI_PIMA_Container_t" where
  "pima_command code =
     \<lparr>DataLength = of_nat (PIMA_COMMAND_SIZE 0), Type = CType_CommandBlock, Code = code, TransactionID = 0, Params = replicate 20 0\<rparr>"

definition response_ok :: "SI_PIMA_Container_t \<Rightarrow> bool" where
  "response_ok h \<longleftrightarrow> Type h = CType_ResponseBlock \<and> Code h = 0x2001"

text \<open>A command block without parameters, and the response to it.\<close>

definition si_transact ::
    "'h hio \<Rightarrow> u8 \<Rightarrow> SI_Host_Config \<Rightarrow> u16 \<Rightarrow> SI_Host_State \<Rightarrow> 'h \<Rightarrow>
       (u8 \<times> SI_PIMA_Container_t \<times> SI_Host_State \<times> 'h) option" where
  "si_transact io psize c code d s =
     do {
       (e, h, d, s) \<leftarrow> SImage_Host_SendBlockHeader io c (pima_command code) d s;
       if e \<noteq> PIPE_RWSTREAM_NoError then Some (e, h, d, s)
       else do {
         (e, h, s) \<leftarrow> SImage_Host_ReceiveBlockHeader io psize c d h s;
         Some (e, h, d, s)
       }
     }"

definition SImage_Host_OpenSession ::
    "'h hio \<Rightarrow> u8 \<Rightarrow> SI_Host_Config \<Rightarrow> SI_Host_State \<Rightarrow> 'h \<Rightarrow> (u8 \<times> SI_Host_State \<times> 'h) option" where
  "SImage_Host_OpenSession io psize c d s =
     (let (act, s) = host_active io (IsActive d) s
      in if \<not> act then Some (HOST_SENDCONTROL_DeviceDisconnected, d, s)
         else do {
           (e, h, d, s) \<leftarrow> si_transact io psize c 0x1002 d s;
           Some (if e \<noteq> PIPE_RWSTREAM_NoError then (e, d, s)
                 else if \<not> response_ok h then (SI_ERROR_LOGICAL_CMD_FAILED, d, s)
                 else (PIPE_RWSTREAM_NoError, d\<lparr>NextTransactionID := 0, IsSessionOpen := True\<rparr>, s))
         })"

definition SImage_Host_CloseSession ::
    "'h hio \<Rightarrow> u8 \<Rightarrow> SI_Host_Config \<Rightarrow> SI_Host_State \<Rightarrow> 'h \<Rightarrow> (u8 \<times> SI_Host_State \<times> 'h) option" where
  "SImage_Host_CloseSession io psize c d s =
     (let (act, s) = host_active io (IsActive d) s
      in if \<not> act then Some (HOST_SENDCONTROL_DeviceDisconnected, d, s)
         else do {
           (e, h, d, s) \<leftarrow> si_transact io psize c 0x1003 d s;
           Some (if e \<noteq> PIPE_RWSTREAM_NoError then (e, d, s)
                 else (if response_ok h then PIPE_RWSTREAM_NoError else SI_ERROR_LOGICAL_CMD_FAILED,
                       d\<lparr>IsSessionOpen := False\<rparr>, s))
         })"

text \<open>\<open>PParams\<close> holds at least \<open>TotalParams\<close> double words; more than five of them do not fit into the container.\<close>

definition SImage_Host_SendCommand ::
    "'h hio \<Rightarrow> SI_Host_Config \<Rightarrow> u16 \<Rightarrow> u8 \<Rightarrow> u32 list \<Rightarrow> SI_Host_State \<Rightarrow> 'h \<Rightarrow> (u8 \<times> SI_Host_State \<times> 'h) option" where
  "SImage_Host_SendCommand io c Operation TotalParams PParams d s =
     (let (act, s) = host_active io (IsActive d) s;
          n = unat TotalParams;
          h = (pima_command Operation)\<lparr>DataLength := of_nat (PIMA_COMMAND_SIZE n)\<rparr>
      in if \<not> act then Some (HOST_SENDCONTROL_DeviceDisconnected, d, s)
         else if 5 < n then None
         else map_option (\<lambda>(e, h, d, s). (e, d, s))
           (SImage_Host_SendBlockHeader io c
              (h\<lparr>Params := concat (map bytes32 (take n PParams)) @ drop (4 * n) (Params h)\<rparr>) d s))"

text \<open>\<open>junk\<close> is what the stack holds where \<open>PIMABlock\<close> is.\<close>

definition SImage_Host_ReceiveResponse ::
    "'h hio \<Rightarrow> u8 \<Rightarrow> SI_Host_Config \<Rightarrow> SI_Host_State \<Rightarrow> SI_PIMA_Container_t \<Rightarrow> 'h \<Rightarrow> (u8 \<times> 'h) option" where
  "SImage_Host_ReceiveResponse io psize c d junk s =
     (let (act, s) = host_active io (IsActive d) s
      in if \<not> act then Some (HOST_SENDCONTROL_DeviceDisconnected, s)
         else map_option (\<lambda>(e, h, s). (if e \<noteq> PIPE_RWSTREAM_NoError then e
                    else if response_ok h then PIPE_RWSTREAM_NoError else SI_ERROR_LOGICAL_CMD_FAILED, s))
           (SImage_Host_ReceiveBlockHeader io psize c d junk s))"

end
