(* ===== verification/Serial_Link.thy ===== *)
theory Serial_Link
  imports Link Cdc_Props
begin

text \<open>
  A serial line from end to end: the host's virtual serial port, the bus, and a device that runs the
  device-mode driver of the same class on the board.
\<close>

section \<open>The device on the bus\<close>

definition with_ep :: "u8 \<Rightarrow> (bulk \<Rightarrow> bulk) \<Rightarrow> board \<Rightarrow> board" where
  "with_ep n f b = b\<lparr>dusb := (dusb b)\<lparr>ep := (ep (dusb b))(n := f (ep (dusb b) n))\<rparr>\<rparr>"

text \<open>
  Packets for the OUT endpoint go into its bank or behind it; an IN token takes the next packet of the IN
  endpoint.
\<close>

definition serial_link :: "u8 \<Rightarrow> u8 \<Rightarrow> board device" where
  "serial_link n_in n_out =
     \<lparr>give = (\<lambda>n p b. if n = n_out then with_ep n_out (take_packet p) b else b),
      ask = (\<lambda>n b. if n \<noteq> n_in then (None, b)
        else case queue (ep (dusb b) n_in) of
               [] \<Rightarrow> (None, b)
             | p # ps \<Rightarrow> (Some p, with_ep n_in (\<lambda>e. e\<lparr>queue := ps\<rparr>) b))\<rparr>"

lemma with_ep_simps [simp]: "ep (dusb (with_ep n f b)) = (ep (dusb b))(n := f (ep (dusb b) n))"
  "with_ep n g (with_ep n f b) = with_ep n (\<lambda>e. g (f e)) b"
  by (simp_all add: with_ep_def)

lemma serial_supplies:
  "queue (ep (dusb b) n) = ps @ qs \<Longrightarrow> supplies (serial_link n m) n b ps (with_ep n (\<lambda>e. e\<lparr>queue := qs\<rparr>) b)"
proof (induction ps arbitrary: b)
  case Nil
  have "(ep (dusb b) n)\<lparr>queue := qs\<rparr> = ep (dusb b) n" using Nil by simp
  then show ?case by (simp add: with_ep_def)
next
  case (Cons p ps)
  let ?b = "with_ep n (\<lambda>e. e\<lparr>queue := ps @ qs\<rparr>) b"
  have "supplies (serial_link n m) n ?b ps (with_ep n (\<lambda>e. e\<lparr>queue := qs\<rparr>) ?b)" by (rule Cons.IH) simp
  then show ?case using Cons.prems by (simp add: serial_link_def)
qed

text \<open>What the device has still to read grows by the packets given.\<close>

definition rx_ready :: "u8 \<Rightarrow> board \<Rightarrow> bool" where
  "rx_ready n b \<longleftrightarrow> rx_open ((dusb b)\<lparr>uenum := n\<rparr>)"

abbreviation (input) unread :: "u8 \<Rightarrow> board \<Rightarrow> u8 list" where
  "unread n b \<equiv> fifo (ep (dusb b) n) @ concat (queue (ep (dusb b) n))"

lemma take_packet_rx:
  assumes "rx_ready n b" "length p < 65536"
  shows "rx_ready n (with_ep n (take_packet p) b)" "unread n (with_ep n (take_packet p) b) = unread n b @ p"
    "dev_state (dusb (with_ep n (take_packet p) b)) = dev_state (dusb b)"
  using assms by (auto simp: rx_ready_def rx_open_def attached_def avail_def take_packet_def with_ep_def simp del: concat_eq_Nil_conv)

lemma give_packets_rx:
  assumes "rx_ready n b" "\<forall>p\<in>set ps. length p < 65536"
  shows "rx_ready n (fold (give (serial_link m n) n) ps b) \<and> unread n (fold (give (serial_link m n) n) ps b) = unread n b @ concat ps \<and>
    dev_state (dusb (fold (give (serial_link m n) n) ps b)) = dev_state (dusb b)"
  using assms
proof (induction ps arbitrary: b)
  case (Cons p ps)
  have g: "give (serial_link m n) n p b = with_ep n (take_packet p) b" by (simp add: serial_link_def)
  note t = take_packet_rx [OF Cons.prems(1), of p]
  have "length p < 65536" "\<forall>q\<in>set ps. length q < 65536" using Cons.prems(2) by simp_all
  then show ?case using Cons.IH [of "with_ep n (take_packet p) b"] t unfolding fold_simps g by simp
qed simp

lemma short_rest: "xs @ r = bs @ cs \<Longrightarrow> length r \<le> length cs \<Longrightarrow> \<exists>ys. xs = bs @ ys \<and> cs = ys @ r"
  by (auto simp: append_eq_append_conv2)

section \<open>From the device to the host\<close>

text \<open>
  C3. A message from the device to the host.  The device writes \<open>bs\<close> byte by byte to its virtual serial port
  and flushes it; then some number of polls of the host's character stream gives \<open>bs\<close>, complete and in
  order, also when the last packet is empty because the message fills its packets exactly.
\<close>

theorem device_message_reaches_host:
  assumes "dev_state (dusb b) = DEVICE_STATE_Configured" "BaudRateBPS (CDC_State.LineEncoding d) \<noteq> 0"
    "DataINEndpointNumber c = n" "n \<le> 7" "in_open ((dusb b)\<lparr>uenum := n\<rparr>)" "fifo (ep (dusb b) n) = []"
    "queue (ep (dusb b) n) = []" "ep_size (dusb b) < 65536" "bs \<noteq> []"
    "rx_port hc hs (bus s)" "\<not> p_full (pipes (bus s) (Data_Pipes.DataINPipeNumber hc))" "p_num (pipes (bus s) (Data_Pipes.DataINPipeNumber hc)) = n"
  shows "\<exists>b' k. write_message bio c d bs b = Some (EP_NoError, b') \<and>
    fst (host_chars (host_io (serial_link n m)) hc hs k (s\<lparr>bus := (bus s)\<lparr>peer := b'\<rparr>\<rparr>)) = bs"
proof -
  have "port_open d (dusb b)" using assms(1,2) by (simp add: port_open_def)
  from ub.write_message [OF this assms(3-5) _ assms(8), of bs] assms(6,7,9) obtain v ps where w:
    "write_message bio c d bs b = Some (EP_NoError, b\<lparr>dusb := v\<rparr>)" "usb_frame ((dusb b)\<lparr>uenum := n\<rparr>) v"
    "queue (cur v) = ps" "concat ps = bs" "closed_packets (ep_size (dusb b)) ps"
    by auto
  let ?b = "b\<lparr>dusb := v\<rparr>" and ?s = "s\<lparr>bus := (bus s)\<lparr>peer := b\<lparr>dusb := v\<rparr>\<rparr>\<rparr>"
  have q: "queue (ep (dusb ?b) n) = ps @ []" using w(2,3) frame_cur [OF w(2)] by (simp add: cur_def)
  have len: "length p < 65536" if "p \<in> set ps" for p
  proof -
    have "set ps = set (butlast ps @ [last ps])" using that append_butlast_last_id [of ps] by (cases "ps = []") simp_all
    then have "p \<in> set (butlast ps) \<or> p = last ps" using that by auto
    then show ?thesis using w(5) assms(8) by (auto simp: closed_packets_def)
  qed
  have i: "incoming (serial_link n m) (Data_Pipes.DataINPipeNumber hc) (bus ?s) ps (with_ep n (\<lambda>e. e\<lparr>queue := []\<rparr>) ?b)"
    using serial_supplies [OF q] len assms(11,12) by (simp add: incoming_def)
  have r: "rx_port hc hs (bus ?s)" using assms(10) by (simp add: rx_port_def)
  obtain k l where "host_chars (host_io (serial_link n m)) hc hs k ?s = (concat ps, l)"
    using hb.host_chars [OF r refl i] by metis
  then show ?thesis using w(1,4) by (metis fst_conv)
qed

text \<open>A host port for the device on the board.\<close>

definition host_serial_port :: CDC_Host_Config where
  "host_serial_port = \<lparr>Data_Pipes.DataINPipeNumber = 1, Data_Pipes.DataINPipeDoubleBank = False,
     Data_Pipes.DataOUTPipeNumber = 2, Data_Pipes.DataOUTPipeDoubleBank = False,
     NotificationPipeNumber = 3, NotificationPipeDoubleBank = False\<rparr>"

definition open_host_port :: CDC_Host_State where
  "open_host_port = zero_cdc_host\<lparr>Pipe_Sizes.IsActive := True\<rparr>"

definition linked_port :: "board \<Rightarrow> board host_machine" where
  "linked_port b = \<lparr>bus = \<lparr>upnum = 0,
       pipes = (\<lambda>n. \<lparr>p_cfg0 = 0x80 OR (if n = 1 then PIPE_TOKEN_IN OR 3 else PIPE_TOKEN_OUT OR 4), p_con = 0, p_fifo = [],
         p_full = False, p_stall = False\<rparr>),
       h_size = 64, h_state = HOST_STATE_Configured, h_sof = 3, h_gap = 3, peer = b\<rparr>, regs = (\<lambda>r. 0)\<rparr>"

lemma linked_port_ready:
  "rx_port host_serial_port open_host_port (bus (linked_port b))" "tx_port host_serial_port open_host_port (bus (linked_port b))"
  "\<not> p_full (pipes (bus (linked_port b)) k)" "p_fifo (pipes (bus (linked_port b)) k) = []"
  "p_num (pipes (bus (linked_port b)) (Data_Pipes.DataINPipeNumber host_serial_port)) = 3"
  "p_num (pipes (bus (linked_port b)) (Data_Pipes.DataOUTPipeNumber host_serial_port)) = 4" "peer (bus (linked_port b)) = b"
  by (simp_all add: rx_port_def tx_port_def host_serial_port_def open_host_port_def linked_port_def p_in_def p_num_def)

theorem device_message_reaches_host_witness:
  "\<exists>b' k. write_message bio serial_port port_9600 [0x48, 0x69, 0x0A] (waiting_board [] []) = Some (EP_NoError, b') \<and>
    fst (host_chars (host_io (serial_link 3 4)) host_serial_port open_host_port k
      ((linked_port (waiting_board [] []))\<lparr>bus := (bus (linked_port (waiting_board [] [])))\<lparr>peer := b'\<rparr>\<rparr>)) = [0x48, 0x69, 0x0A]"
proof -
  have n: "DataINEndpointNumber serial_port = 3" "(3 :: u8) \<le> 7" by (simp_all add: serial_port_def)
  have sz: "ep_size (dusb (waiting_board [] [])) < 65536" "[0x48, 0x69, 0x0A :: u8] \<noteq> []" by (simp_all add: quiet_board)
  show ?thesis
    by (rule device_message_reaches_host [OF quiet_board(1) quiet_board(6) n quiet_board(3,4,5) sz linked_port_ready(1,3,5)])
qed

section \<open>From the host to the device\<close>

text \<open>
  C4. A message from the host to the device.  The host writes the string \<open>bs\<close> to its virtual serial port, flushes
  it, and later writes \<open>cs\<close>.  All three calls succeed; then polling the device's character stream
  gives \<open>bs\<close> completely and in order, followed by the part of \<open>cs\<close> that has left the host, and
  what has not left it is in the bank of the OUT pipe.
\<close>

theorem host_message_reaches_device:
  assumes "tx_port hc hs (bus s)" "\<not> p_full (pipes (bus s) (Data_Pipes.DataOUTPipeNumber hc))" "p_fifo (pipes (bus s) (Data_Pipes.DataOUTPipeNumber hc)) = []"
    "p_num (pipes (bus s) (Data_Pipes.DataOUTPipeNumber hc)) = n" "rx_ready n (peer (bus s))" "unread n (peer (bus s)) = []"
    "dev_state (dusb (peer (bus s))) = DEVICE_STATE_Configured" "BaudRateBPS (CDC_State.LineEncoding d) \<noteq> 0"
    "DataOUTEndpointNumber c = n" "n \<le> 7"
  shows "\<exists>s1 s2 s3 k sent. CDC_Host_SendString (host_io (serial_link m n)) hc hs bs s = Some (0, s1) \<and>
    CDC_Host_Flush (host_io (serial_link m n)) hc hs s1 = Some (0, s2) \<and>
    CDC_Host_SendString (host_io (serial_link m n)) hc hs cs s2 = Some (0, s3) \<and>
    fst (read_chars bio c d k (peer (bus s3))) = bs @ sent \<and>
    cs = sent @ p_fifo (pipes (bus s3) (Data_Pipes.DataOUTPipeNumber hc))"
proof -
  let ?n = "Data_Pipes.DataOUTPipeNumber hc" and ?io = "host_io (serial_link m n)" and ?mv = "moves (serial_link m n) (Data_Pipes.DataOUTPipeNumber hc)"
  obtain h1 p1 where 1: "CDC_Host_SendString ?io hc hs bs s = Some (0, s\<lparr>bus := h1\<rparr>)" "?mv (bus s) bs p1 h1"
    using hb.send_string [OF assms(1) refl, where dv = "serial_link m n" and bytes = bs] by blast
  have t1: "tx_port hc hs (bus (s\<lparr>bus := h1\<rparr>))" using moves_port [OF assms(1) 1(2)] by simp
  obtain h2 p2 where 2: "CDC_Host_Flush ?io hc hs (s\<lparr>bus := h1\<rparr>) = Some (0, s\<lparr>bus := h2\<rparr>)" "?mv h1 [] p2 h2"
    "p_full (pipes h2 ?n) \<or> p_fifo (pipes h2 ?n) = []"
    using hb.host_flush [OF t1 refl, where dv = "serial_link m n"] by auto
  have t2: "tx_port hc hs (bus (s\<lparr>bus := h2\<rparr>))" using moves_port [OF _ 2(2)] t1 by simp
  obtain h3 p3 where 3: "CDC_Host_SendString ?io hc hs cs (s\<lparr>bus := h2\<rparr>) = Some (0, s\<lparr>bus := h3\<rparr>)" "?mv h2 cs p3 h3"
    "length (p_fifo (pipes h3 ?n)) \<le> length cs"
    using hb.send_string [OF t2 refl, where dv = "serial_link m n" and bytes = cs] 2(3) by auto
  let ?ps = "p1 @ p2 @ p3"
  have m: "?mv (bus s) (bs @ [] @ cs) ?ps h3" by (rule moves_trans [OF 1(2) moves_trans [OF 2(2) 3(2)]])
  then have c: "concat ?ps @ p_fifo (pipes h3 ?n) = bs @ cs" "peer h3 = fold (give (serial_link m n) n) ?ps (peer (bus s))"
    "\<forall>p\<in>set ?ps. length p \<le> h_size (bus s)"
    using assms(3,4) by (simp_all add: moves_def)
  then have len: "\<forall>p\<in>set ?ps. length p < 65536" using assms(1) by (force simp: tx_port_def)
  obtain sent where e: "concat ?ps = bs @ sent" "cs = sent @ p_fifo (pipes h3 ?n)"
    using short_rest [OF c(1) 3(3)] by blast
  have r: "rx_ready n (peer h3)" "unread n (peer h3) = bs @ sent" "dev_state (dusb (peer h3)) = DEVICE_STATE_Configured"
    using give_packets_rx [OF assms(5) len, of m] assms(6,7) e(1) unfolding c(2) by simp_all
  have "port_open d (dusb (peer h3))" "rx_open ((dusb (peer h3))\<lparr>uenum := n\<rparr>)" "avail ((dusb (peer h3))\<lparr>uenum := n\<rparr>) = bs @ sent"
    using r assms(8) by (simp_all add: port_open_def rx_ready_def avail_def)
  then obtain k v where "read_chars bio c d k (peer h3) = (bs @ sent, v)"
    using ub.read_all [OF _ assms(9,10), of d "peer h3"] by metis
  then show ?thesis using 1(1) 2(1) 3(1) e(2) by (intro exI [of _ "s\<lparr>bus := h1\<rparr>"] exI [of _ "s\<lparr>bus := h2\<rparr>"] exI [of _ "s\<lparr>bus := h3\<rparr>"]
      exI [of _ k] exI [of _ sent]) simp
qed

theorem host_message_reaches_device_witness:
  "\<exists>s1 s2 s3 k sent. CDC_Host_SendString (host_io (serial_link 3 4)) host_serial_port open_host_port [0x41, 0x54] (linked_port (waiting_board [] [])) = Some (0, s1) \<and>
    CDC_Host_Flush (host_io (serial_link 3 4)) host_serial_port open_host_port s1 = Some (0, s2) \<and>
    CDC_Host_SendString (host_io (serial_link 3 4)) host_serial_port open_host_port [0x0D] s2 = Some (0, s3) \<and>
    fst (read_chars bio serial_port port_9600 k (peer (bus s3))) = [0x41, 0x54] @ sent \<and>
    [0x0D] = sent @ p_fifo (pipes (bus s3) (Data_Pipes.DataOUTPipeNumber host_serial_port))"
proof -
  have n: "DataOUTEndpointNumber serial_port = 4" "(4 :: u8) \<le> 7" by (simp_all add: serial_port_def)
  have b: "rx_ready 4 (waiting_board [] [])" "unread 4 (waiting_board [] []) = []"
    by (simp_all add: rx_ready_def rx_open_def attached_def waiting_board_def cur_def)
  show ?thesis
    by (rule host_message_reaches_device [OF linked_port_ready(2,3,4,6)]) (use n b quiet_board in \<open>simp_all add: linked_port_ready(7)\<close>)
qed

end
