(* ===== verification/Net_Frame.thy ===== *)
theory Net_Frame
  imports Rndis_Device
begin

text \<open>
  The data of the network demo \<open>Demos/Device/ClassDriver/RNDISEthernet\<close> (\<open>Lib/EthernetProtocols.h\<close>,
  \<open>Ethernet.h\<close>, \<open>IP.h\<close>): addresses, the Ethernet and IP headers, and the checksum of \<open>Ethernet.c\<close>.

  Both frames are in the state of the class driver, so a \<open>void*\<close> into a frame is an offset into the
  bytes of that state; \<open>None\<close> stands for an access outside it or a loop that does not end.  A header
  is read from and written to memory as a whole, in the layout of the AVR (little-endian, no padding,
  bit fields from the lowest bit).
\<close>

section \<open>Addresses\<close>

type_synonym MAC_Address_t = "u8 list"
type_synonym IP_Address_t = "u8 list"

definition ServerMACAddress :: MAC_Address_t where "ServerMACAddress = [0x00, 0x01, 0x00, 0x01, 0x00, 0x01]"
definition BroadcastMACAddress :: MAC_Address_t where "BroadcastMACAddress = [0xFF, 0xFF, 0xFF, 0xFF, 0xFF, 0xFF]"
definition AdapterMAC :: MAC_Address_t where "AdapterMAC = [0x02, 0x00, 0x02, 0x00, 0x02, 0x00]"
definition ClientIPAddress :: IP_Address_t where "ClientIPAddress = [10, 0, 0, 1]"
definition ServerIPAddress :: IP_Address_t where "ServerIPAddress = [10, 0, 0, 2]"
definition BroadcastIPAddress :: IP_Address_t where "BroadcastIPAddress = [0xFF, 0xFF, 0xFF, 0xFF]"

abbreviation (input) ETHERTYPE_IPV4 :: u16 where "ETHERTYPE_IPV4 \<equiv> 0x0800"
abbreviation (input) ETHERTYPE_ARP :: u16 where "ETHERTYPE_ARP \<equiv> 0x0806"
abbreviation (input) PROTOCOL_ICMP :: u8 where "PROTOCOL_ICMP \<equiv> 1"
abbreviation (input) PROTOCOL_TCP :: u8 where "PROTOCOL_TCP \<equiv> 6"
abbreviation (input) PROTOCOL_UDP :: u8 where "PROTOCOL_UDP \<equiv> 17"
abbreviation (input) ETHERNET_VER2_MINSIZE :: u16 where "ETHERNET_VER2_MINSIZE \<equiv> 0x0600"
abbreviation (input) DEFAULT_TTL :: u8 where "DEFAULT_TTL \<equiv> 128"

text \<open>The results of the protocol handlers, \<open>int16_t\<close>.\<close>

abbreviation (input) NO_RESPONSE :: u16 where "NO_RESPONSE \<equiv> 0"
abbreviation (input) NO_PROCESS :: u16 where "NO_PROCESS \<equiv> 0xFFFF"

definition is_response :: "u16 \<Rightarrow> bool" where
  "is_response RetSize \<longleftrightarrow> sint RetSize > 0"

section \<open>Ethernet header\<close>

record Ethernet_Frame_Header_t =
  Destination :: MAC_Address_t
  Source :: MAC_Address_t
  EtherType :: u16

abbreviation (input) sizeof_Ethernet :: nat where "sizeof_Ethernet \<equiv> 14"

definition ethernet_bytes :: "Ethernet_Frame_Header_t \<Rightarrow> u8 list" where
  "ethernet_bytes h = Destination h @ Source h @ bytes16 (EtherType h)"

definition ethernet_of :: "u8 list \<Rightarrow> Ethernet_Frame_Header_t" where
  "ethernet_of bs = \<lparr>Destination = take 6 bs, Source = take 6 (drop 6 bs), EtherType = peek16 bs 12\<rparr>"

section \<open>IP header\<close>

record IP_Header_t =
  HeaderLength :: u8
  Version :: u8
  TypeOfService :: u8
  TotalLength :: u16
  Identification :: u16
  FragmentOffset :: u16
  FragmentFlags :: u8
  TTL :: u8
  Protocol :: u8
  HeaderChecksum :: u16
  SourceAddress :: IP_Address_t
  DestinationAddress :: IP_Address_t

abbreviation (input) sizeof_IP :: nat where "sizeof_IP \<equiv> 20"

definition ip_bytes :: "IP_Header_t \<Rightarrow> u8 list" where
  "ip_bytes h =
     [HeaderLength h AND 0x0F OR push_bit 4 (Version h), TypeOfService h] @ bytes16 (TotalLength h) @
     bytes16 (Identification h) @ bytes16 (FragmentOffset h AND 0x1FFF OR push_bit 13 (ucast (FragmentFlags h))) @
     [TTL h, Protocol h] @ bytes16 (HeaderChecksum h) @ SourceAddress h @ DestinationAddress h"

definition ip_of :: "u8 list \<Rightarrow> IP_Header_t" where
  "ip_of bs =
     \<lparr>HeaderLength = bs ! 0 AND 0x0F, Version = drop_bit 4 (bs ! 0), TypeOfService = bs ! 1, TotalLength = peek16 bs 2,
      Identification = peek16 bs 4, FragmentOffset = peek16 bs 6 AND 0x1FFF, FragmentFlags = ucast (drop_bit 13 (peek16 bs 6)),
      TTL = bs ! 8, Protocol = bs ! 9, HeaderChecksum = peek16 bs 10,
      SourceAddress = take 4 (drop 12 bs), DestinationAddress = take 4 (drop 16 bs)\<rparr>"

section \<open>Checksums (Ethernet.c)\<close>

text \<open>
  The sum of the 16-bit words at \<open>p\<close>.  The loop counter has eight bits, so a bound of 256 words or
  more is never reached.
\<close>

partial_function (option) sum_words :: "rndis \<Rightarrow> nat \<Rightarrow> u16 \<Rightarrow> u8 \<Rightarrow> u32 \<Rightarrow> u32 option" where
  [code]: "sum_words d p n CurrWord Checksum =
     (if ucast CurrWord < n then
        do {
          w \<leftarrow> peek (p + 2 * unat CurrWord) 2 d;
          sum_words d p n (CurrWord + 1) (Checksum + ucast (peek16 w 0))
        }
      else Some Checksum)"

text \<open>The carries above bit 15 are added until there are none.\<close>

function fold_carry :: "u32 \<Rightarrow> u32" where
  "fold_carry Checksum =
     (if Checksum AND 0xFFFF0000 \<noteq> 0 then fold_carry ((Checksum AND 0xFFFF) + drop_bit 16 Checksum) else Checksum)"
  by auto

lemma low_half: "(c :: u32) AND 0xFFFF = take_bit 16 c"
  by (simp add: take_bit_eq_mask mask_eq_exp_minus_1)

lemma high_half: "(c :: u32) AND 0xFFFF0000 = push_bit 16 (drop_bit 16 c)"
proof -
  have "c AND 0xFFFF0000 = c AND push_bit 16 (mask 16)" by (simp add: mask_eq_exp_minus_1)
  also have "\<dots> = push_bit 16 (drop_bit 16 c)" by (rule bit_word_eqI) (auto simp: bit_simps)
  finally show ?thesis .
qed

lemma unat_high_half: "unat (drop_bit 16 (c :: u32)) = unat c div 65536"
  proof -
  have "take_bit 32 (unat c) = unat c" using take_bit_nat_eq_self unsigned_less [of c] by fastforce
  then show ?thesis by (simp only: unsigned_drop_bit_eq) (simp add: drop_bit_eq_div)
qed

lemma unat_low_half: "unat (take_bit 16 (c :: u32)) = unat c mod 65536"
  by (simp only: unsigned_take_bit_eq) (simp add: take_bit_eq_mod)

lemma has_carry: "(c :: u32) AND 0xFFFF0000 \<noteq> 0 \<longleftrightarrow> 65536 \<le> unat c"
proof -
  have "unat (drop_bit 16 c) = 0 \<longleftrightarrow> unat c < 65536" unfolding unat_high_half by (simp add: div_eq_0_iff)
  moreover have "unat c = unat (take_bit 16 c)" if "push_bit 16 (drop_bit 16 c) = 0"
    using bits_ident [of 16 c] that by simp
  then have "unat c < 65536" if "push_bit 16 (drop_bit 16 c) = 0" using that unfolding unat_low_half by (metis mod_less_divisor zero_less_numeral)
  moreover have "push_bit 16 (drop_bit 16 c) = 0" if "unat (drop_bit 16 c) = 0"
    using that by (simp only: unat_eq_0 push_bit_of_0)
  ultimately show ?thesis unfolding high_half by (metis linorder_not_less)
qed

lemma fold_step: "unat ((c AND 0xFFFF) + drop_bit 16 (c :: u32)) = unat c mod 65536 + unat c div 65536"
proof -
  have "unat c < 65536 * 65536" by (rule order_less_le_trans [OF unsigned_less]) simp
  then have "unat c div 65536 < 65536" by (simp add: less_mult_imp_div_less)
  then show ?thesis by (simp add: low_half unat_word_ariths unat_low_half unat_high_half)
qed

termination fold_carry
proof (relation "measure unat")
  fix c :: u32 assume "c AND 0xFFFF0000 \<noteq> 0"
  then have "65536 \<le> unat c" by (simp only: has_carry)
  moreover have "unat c mod 65536 + unat c div 65536 * 65536 = unat c" by simp
  moreover have "0 < unat c div 65536" using calculation(1) by (simp add: div_greater_zero_iff)
  ultimately show "((c AND 0xFFFF) + drop_bit 16 c, c) \<in> measure unat" unfolding in_measure fold_step by linarith
qed simp

declare fold_carry.simps [simp del]

definition Ethernet_Checksum16 :: "nat \<Rightarrow> u16 \<Rightarrow> rndis \<Rightarrow> u16 option" where
  "Ethernet_Checksum16 Data Bytes d = map_option (\<lambda>c. NOT (ucast (fold_carry c))) (sum_words d Data (drop_bit 1 Bytes) 0 0)"

end
