(* ===== verification/Net_Arp_Icmp.thy ===== *)
theory Net_Arp_Icmp
  imports Net_Frame
begin

text \<open>
  \<open>Lib/ARP.c\<close> and \<open>Lib/ICMP.c\<close> of the network demo with their headers: the answers to address requests
  and to echo requests.
\<close>

section \<open>ARP\<close>

record ARP_Header_t =
  HardwareType :: u16
  ProtocolType :: u16
  HLEN :: u8
  PLEN :: u8
  Operation :: u16
  SHA :: MAC_Address_t
  SPA :: IP_Address_t
  THA :: MAC_Address_t
  TPA :: IP_Address_t

abbreviation (input) sizeof_ARP :: nat where "sizeof_ARP \<equiv> 28"
abbreviation (input) ARP_OPERATION_REQUEST :: u16 where "ARP_OPERATION_REQUEST \<equiv> 1"
abbreviation (input) ARP_OPERATION_REPLY :: u16 where "ARP_OPERATION_REPLY \<equiv> 2"

definition arp_bytes :: "ARP_Header_t \<Rightarrow> u8 list" where
  "arp_bytes h = bytes16 (HardwareType h) @ bytes16 (ProtocolType h) @ [HLEN h, PLEN h] @ bytes16 (Operation h) @
     SHA h @ SPA h @ THA h @ TPA h"

definition arp_of :: "u8 list \<Rightarrow> ARP_Header_t" where
  "arp_of bs =
     \<lparr>HardwareType = peek16 bs 0, ProtocolType = peek16 bs 2, HLEN = bs ! 4, PLEN = bs ! 5, Operation = peek16 bs 6,
      SHA = take 6 (drop 8 bs), SPA = take 4 (drop 14 bs), THA = take 6 (drop 18 bs), TPA = take 4 (drop 24 bs)\<rparr>"

definition ARP_ProcessARPPacket :: "nat \<Rightarrow> nat \<Rightarrow> rndis \<Rightarrow> (u16 \<times> rndis) option" where
  "ARP_ProcessARPPacket InDataStart OutDataStart d =
     do {
       bs \<leftarrow> peek InDataStart sizeof_ARP d;
       let ARPHeaderIN = arp_of bs;
       if SwapEndian_16 (ProtocolType ARPHeaderIN) = ETHERTYPE_IPV4 \<and>
          SwapEndian_16 (Operation ARPHeaderIN) = ARP_OPERATION_REQUEST \<and>
          (TPA ARPHeaderIN = ServerIPAddress \<or> THA ARPHeaderIN = ServerMACAddress) then
         do {
           d \<leftarrow> poke OutDataStart
                  (arp_bytes \<lparr>HardwareType = HardwareType ARPHeaderIN, ProtocolType = ProtocolType ARPHeaderIN,
                     HLEN = HLEN ARPHeaderIN, PLEN = PLEN ARPHeaderIN, Operation = SwapEndian_16 ARP_OPERATION_REPLY,
                     SHA = ServerMACAddress, SPA = ServerIPAddress, THA = SHA ARPHeaderIN, TPA = SPA ARPHeaderIN\<rparr>) d;
           Some (of_nat sizeof_ARP, d)
         }
       else Some (NO_RESPONSE, d)
     }"

section \<open>ICMP\<close>

record ICMP_Header_t =
  Type :: u8
  Code :: u8
  Checksum :: u16
  Id :: u16
  Sequence :: u16

abbreviation (input) sizeof_ICMP :: nat where "sizeof_ICMP \<equiv> 8"
abbreviation (input) ICMP_TYPE_ECHOREPLY :: u8 where "ICMP_TYPE_ECHOREPLY \<equiv> 0"
abbreviation (input) ICMP_TYPE_ECHOREQUEST :: u8 where "ICMP_TYPE_ECHOREQUEST \<equiv> 8"

definition icmp_bytes :: "ICMP_Header_t \<Rightarrow> u8 list" where
  "icmp_bytes h = [Type h, Code h] @ bytes16 (Checksum h) @ bytes16 (Id h) @ bytes16 (Sequence h)"

definition icmp_of :: "u8 list \<Rightarrow> ICMP_Header_t" where
  "icmp_of bs = \<lparr>Type = bs ! 0, Code = bs ! 1, Checksum = peek16 bs 2, Id = peek16 bs 4, Sequence = peek16 bs 6\<rparr>"

definition ICMP_ProcessICMPPacket :: "nat \<Rightarrow> nat \<Rightarrow> nat \<Rightarrow> rndis \<Rightarrow> (u16 \<times> rndis) option" where
  "ICMP_ProcessICMPPacket FrameIN InDataStart OutDataStart d =
     do {
       bs \<leftarrow> peek InDataStart sizeof_ICMP d;
       let ICMPHeaderIN = icmp_of bs;
       if Type ICMPHeaderIN = ICMP_TYPE_ECHOREQUEST then
         do {
           let ICMPHeaderOUT = \<lparr>Type = ICMP_TYPE_ECHOREPLY, Code = 0, Checksum = 0, Id = Id ICMPHeaderIN,
                                Sequence = Sequence ICMPHeaderIN\<rparr>;
           d \<leftarrow> poke OutDataStart (icmp_bytes ICMPHeaderOUT) d;
           let DataSize = peek16 d (FrameIN + o_FrameLength) - of_nat (InDataStart + sizeof_ICMP - FrameIN);
           payload \<leftarrow> peek (InDataStart + sizeof_ICMP) (unat DataSize) d;
           d \<leftarrow> poke (OutDataStart + sizeof_ICMP) payload d;
           c \<leftarrow> Ethernet_Checksum16 OutDataStart (DataSize + of_nat sizeof_ICMP) d;
           d \<leftarrow> poke OutDataStart (icmp_bytes (ICMPHeaderOUT\<lparr>Checksum := c\<rparr>)) d;
           Some (DataSize + of_nat sizeof_ICMP, d)
         }
       else Some (NO_RESPONSE, d)
     }"

end
