(* ===== verification/Net_Udp.thy ===== *)
theory Net_Udp
  imports Net_Frame
begin

text \<open>
  \<open>Lib/UDP.c\<close> and \<open>Lib/DHCP.c\<close> of the network demo with their headers: the device is the DHCP server that
  leases its one client address to the host.
\<close>

section \<open>DHCP\<close>

record DHCP_Header_t =
  Operation :: u8
  HardwareType :: u8
  HardwareAddressLength :: u8
  Hops :: u8
  TransactionID :: u32
  ElapsedSeconds :: u16
  Flags :: u16
  ClientIP :: IP_Address_t
  YourIP :: IP_Address_t
  NextServerIP :: IP_Address_t
  RelayAgentIP :: IP_Address_t
  ClientHardwareAddress :: "u8 list"
  ServerHostnameString :: "u8 list"
  BootFileName :: "u8 list"
  Cookie :: u32

abbreviation (input) sizeof_DHCP :: nat where "sizeof_DHCP \<equiv> 240"
abbreviation (input) DHCP_OP_BOOTREPLY :: u8 where "DHCP_OP_BOOTREPLY \<equiv> 2"
abbreviation (input) DHCP_MAGIC_COOKIE :: u32 where "DHCP_MAGIC_COOKIE \<equiv> 0x63825363"
abbreviation (input) DHCP_OPTION_SUBNETMASK :: u8 where "DHCP_OPTION_SUBNETMASK \<equiv> 1"
abbreviation (input) DHCP_OPTION_MESSAGETYPE :: u8 where "DHCP_OPTION_MESSAGETYPE \<equiv> 53"
abbreviation (input) DHCP_OPTION_DHCPSERVER :: u8 where "DHCP_OPTION_DHCPSERVER \<equiv> 54"
abbreviation (input) DHCP_OPTION_PAD :: u8 where "DHCP_OPTION_PAD \<equiv> 0"
abbreviation (input) DHCP_OPTION_END :: u8 where "DHCP_OPTION_END \<equiv> 255"
abbreviation (input) DHCP_MESSAGETYPE_DISCOVER :: u8 where "DHCP_MESSAGETYPE_DISCOVER \<equiv> 1"
abbreviation (input) DHCP_MESSAGETYPE_OFFER :: u8 where "DHCP_MESSAGETYPE_OFFER \<equiv> 2"
abbreviation (input) DHCP_MESSAGETYPE_REQUEST :: u8 where "DHCP_MESSAGETYPE_REQUEST \<equiv> 3"
abbreviation (input) DHCP_MESSAGETYPE_ACK :: u8 where "DHCP_MESSAGETYPE_ACK \<equiv> 5"

definition dhcp_bytes :: "DHCP_Header_t \<Rightarrow> u8 list" where
  "dhcp_bytes h =
     [Operation h, HardwareType h, HardwareAddressLength h, Hops h] @ bytes32 (TransactionID h) @
     bytes16 (ElapsedSeconds h) @ bytes16 (Flags h) @ ClientIP h @ YourIP h @ NextServerIP h @ RelayAgentIP h @
     ClientHardwareAddress h @ ServerHostnameString h @ BootFileName h @ bytes32 (Cookie h)"

definition dhcp_of :: "u8 list \<Rightarrow> DHCP_Header_t" where
  "dhcp_of bs =
     \<lparr>Operation = bs ! 0, HardwareType = bs ! 1, HardwareAddressLength = bs ! 2, Hops = bs ! 3, TransactionID = peek32 bs 4,
      ElapsedSeconds = peek16 bs 8, Flags = peek16 bs 10, ClientIP = take 4 (drop 12 bs), YourIP = take 4 (drop 16 bs),
      NextServerIP = take 4 (drop 20 bs), RelayAgentIP = take 4 (drop 24 bs),
      ClientHardwareAddress = take 16 (drop 28 bs), ServerHostnameString = take 64 (drop 44 bs),
      BootFileName = take 128 (drop 108 bs), Cookie = peek32 bs 236\<rparr>"

definition zero_dhcp :: DHCP_Header_t where
  "zero_dhcp =
     \<lparr>Operation = 0, HardwareType = 0, HardwareAddressLength = 0, Hops = 0, TransactionID = 0, ElapsedSeconds = 0, Flags = 0,
      ClientIP = replicate 4 0, YourIP = replicate 4 0, NextServerIP = replicate 4 0, RelayAgentIP = replicate 4 0,
      ClientHardwareAddress = replicate 16 0, ServerHostnameString = replicate 64 0, BootFileName = replicate 128 0, Cookie = 0\<rparr>"

text \<open>The reply header; six bytes of the hardware address are copied.\<close>

definition dhcp_reply :: "DHCP_Header_t \<Rightarrow> DHCP_Header_t" where
  "dhcp_reply DHCPHeaderIN =
     zero_dhcp\<lparr>HardwareType := HardwareType DHCPHeaderIN, Operation := DHCP_OP_BOOTREPLY,
       HardwareAddressLength := HardwareAddressLength DHCPHeaderIN, Hops := 0,
       TransactionID := TransactionID DHCPHeaderIN, ElapsedSeconds := 0, Flags := Flags DHCPHeaderIN,
       YourIP := ClientIPAddress,
       ClientHardwareAddress := take 6 (ClientHardwareAddress DHCPHeaderIN) @ replicate 10 0,
       Cookie := SwapEndian_32 DHCP_MAGIC_COOKIE\<rparr>"

text \<open>
  The walk over the options of the request: the type of a discover or request message, or nothing at
  the end of the options.
\<close>

function dhcp_message_type :: "rndis \<Rightarrow> nat \<Rightarrow> u8 option option" where
  "dhcp_message_type d p =
     (case peek p 1 d of
        None \<Rightarrow> None
      | Some bs \<Rightarrow>
          if hd bs = DHCP_OPTION_END then Some None
          else if hd bs = DHCP_OPTION_PAD then dhcp_message_type d (p + 1)
          else if hd bs = DHCP_OPTION_MESSAGETYPE then
            (case peek p 3 d of
               None \<Rightarrow> None
             | Some bs \<Rightarrow>
                 if bs ! 2 = DHCP_MESSAGETYPE_DISCOVER \<or> bs ! 2 = DHCP_MESSAGETYPE_REQUEST then Some (Some (bs ! 2))
                 else dhcp_message_type d (p + unat (bs ! 1) + 2))
          else
            (case peek p 2 d of
               None \<Rightarrow> None
             | Some bs \<Rightarrow> dhcp_message_type d (p + unat (bs ! 1) + 2)))"
  by auto
termination
  by (relation "measure (\<lambda>(d, p). length d - p)") (auto simp: peek_def split: if_splits)

declare dhcp_message_type.simps [simp del]

definition dhcp_options :: "u8 \<Rightarrow> u8 list" where
  "dhcp_options t =
     [DHCP_OPTION_MESSAGETYPE, 1, if t = DHCP_MESSAGETYPE_DISCOVER then DHCP_MESSAGETYPE_OFFER else DHCP_MESSAGETYPE_ACK,
      DHCP_OPTION_SUBNETMASK, 4, 0xFF, 0xFF, 0xFF, 0x00, DHCP_OPTION_DHCPSERVER, 4] @ ServerIPAddress @ [DHCP_OPTION_END]"

text \<open>The header of the incoming IP packet is changed: the reply goes to the leased address.\<close>

definition DHCP_ProcessDHCPPacket :: "nat \<Rightarrow> nat \<Rightarrow> nat \<Rightarrow> rndis \<Rightarrow> (u16 \<times> rndis) option" where
  "DHCP_ProcessDHCPPacket IPHeaderInStart DHCPHeaderInStart DHCPHeaderOutStart d =
     do {
       bs \<leftarrow> peek DHCPHeaderInStart sizeof_DHCP d;
       let DHCPHeaderIN = dhcp_of bs;
       d \<leftarrow> poke DHCPHeaderOutStart (dhcp_bytes (dhcp_reply DHCPHeaderIN)) d;
       d \<leftarrow> poke (IPHeaderInStart + 12) ClientIPAddress d;
       d \<leftarrow> poke (IPHeaderInStart + 16) ServerIPAddress d;
       t \<leftarrow> dhcp_message_type d (DHCPHeaderInStart + sizeof_DHCP);
       case t of
         Some t \<Rightarrow> do {
           d \<leftarrow> poke (DHCPHeaderOutStart + sizeof_DHCP) (dhcp_options t) d;
           Some (of_nat (sizeof_DHCP + 12 + 4), d)
         }
       | None \<Rightarrow> Some (NO_RESPONSE, d)
     }"

section \<open>UDP\<close>

record UDP_Header_t =
  SourcePort :: u16
  DestinationPort :: u16
  Length :: u16
  Checksum :: u16

abbreviation (input) sizeof_UDP :: nat where "sizeof_UDP \<equiv> 8"
abbreviation (input) UDP_PORT_DHCP_REQUEST :: u16 where "UDP_PORT_DHCP_REQUEST \<equiv> 67"

definition udp_bytes :: "UDP_Header_t \<Rightarrow> u8 list" where
  "udp_bytes h = bytes16 (SourcePort h) @ bytes16 (DestinationPort h) @ bytes16 (Length h) @ bytes16 (Checksum h)"

definition udp_of :: "u8 list \<Rightarrow> UDP_Header_t" where
  "udp_of bs = \<lparr>SourcePort = peek16 bs 0, DestinationPort = peek16 bs 2, Length = peek16 bs 4, Checksum = peek16 bs 6\<rparr>"

definition UDP_ProcessUDPPacket :: "nat \<Rightarrow> nat \<Rightarrow> nat \<Rightarrow> rndis \<Rightarrow> (u16 \<times> rndis) option" where
  "UDP_ProcessUDPPacket IPHeaderInStart UDPHeaderInStart UDPHeaderOutStart d =
     do {
       bs \<leftarrow> peek UDPHeaderInStart sizeof_UDP d;
       let UDPHeaderIN = udp_of bs;
       (RetSize, d) \<leftarrow>
         (if SwapEndian_16 (DestinationPort UDPHeaderIN) = UDP_PORT_DHCP_REQUEST then
            DHCP_ProcessDHCPPacket IPHeaderInStart (UDPHeaderInStart + sizeof_UDP) (UDPHeaderOutStart + sizeof_UDP) d
          else Some (NO_RESPONSE, d));
       if is_response RetSize then
         do {
           bs \<leftarrow> peek UDPHeaderInStart sizeof_UDP d;
           let UDPHeaderIN = udp_of bs;
           d \<leftarrow> poke UDPHeaderOutStart
                  (udp_bytes \<lparr>SourcePort = DestinationPort UDPHeaderIN, DestinationPort = SourcePort UDPHeaderIN,
                     Length = SwapEndian_16 (of_nat sizeof_UDP + RetSize), Checksum = 0\<rparr>) d;
           Some (of_nat sizeof_UDP + RetSize, d)
         }
       else Some (NO_RESPONSE, d)
     }"

end
