(* ===== verification/Net_Tcp.thy ===== *)
theory Net_Tcp
  imports Net_Frame
begin

text \<open>
  \<open>Lib/TCP.c\<close> and \<open>TCP.h\<close> of the network demo: the tables of ports and connections, the automaton that
  processes a segment, and the task that runs the applications and sends what they have produced.
  \<open>'a\<close> is the state of the applications.  An access outside a table or through a null pointer is \<open>None\<close>.
\<close>

section \<open>Data (TCP.h)\<close>

abbreviation (input) MAX_OPEN_TCP_PORTS :: nat where "MAX_OPEN_TCP_PORTS \<equiv> 1"
abbreviation (input) MAX_TCP_CONNECTIONS :: nat where "MAX_TCP_CONNECTIONS \<equiv> 3"
abbreviation (input) TCP_WINDOW_SIZE :: u16 where "TCP_WINDOW_SIZE \<equiv> 512"
abbreviation (input) TCP_PACKETDIR_IN :: bool where "TCP_PACKETDIR_IN \<equiv> False"
abbreviation (input) TCP_PACKETDIR_OUT :: bool where "TCP_PACKETDIR_OUT \<equiv> True"
abbreviation (input) TCP_FLAG_ACK :: u8 where "TCP_FLAG_ACK \<equiv> 0x10"
abbreviation (input) TCP_FLAG_PSH :: u8 where "TCP_FLAG_PSH \<equiv> 0x08"
abbreviation (input) TCP_FLAG_RST :: u8 where "TCP_FLAG_RST \<equiv> 0x04"
abbreviation (input) TCP_FLAG_SYN :: u8 where "TCP_FLAG_SYN \<equiv> 0x02"
abbreviation (input) TCP_FLAG_FIN :: u8 where "TCP_FLAG_FIN \<equiv> 0x01"

datatype TCP_PortStates_t = TCP_Port_Closed | TCP_Port_Open

datatype TCP_ConnectionStates_t =
    TCP_Connection_Listen | TCP_Connection_SYNSent | TCP_Connection_SYNReceived | TCP_Connection_Established
  | TCP_Connection_FINWait1 | TCP_Connection_FINWait2 | TCP_Connection_CloseWait | TCP_Connection_Closing
  | TCP_Connection_LastACK | TCP_Connection_TimeWait | TCP_Connection_Closed

record TCP_ConnectionBuffer_t =
  Length :: u16
  Data :: "u8 list"
  Direction :: bool
  Ready :: bool
  InUse :: bool

record TCP_ConnectionInfo_t =
  SequenceNumberIn :: u32
  SequenceNumberOut :: u32
  Buffer :: TCP_ConnectionBuffer_t

record TCP_ConnectionState_t =
  Port :: u16
  RemotePort :: u16
  RemoteAddress :: IP_Address_t
  Info :: TCP_ConnectionInfo_t
  State :: TCP_ConnectionStates_t

type_synonym 'a handler = "TCP_ConnectionState_t \<Rightarrow> 'a \<Rightarrow> (TCP_ConnectionState_t \<times> 'a) option"

record 'a TCP_PortState_t =
  LocalPort :: u16
  PortState :: TCP_PortStates_t
  ApplicationHandler :: "'a handler"

text \<open>
  The port table has one entry, but the functions on ports search it with the bound of the connection
  table; \<open>behind_ports\<close> is what the memory behind the table holds.
\<close>

record 'a tcp =
  PortStateTable :: "'a TCP_PortState_t list"
  behind_ports :: "'a TCP_PortState_t list"
  ConnectionStateTable :: "TCP_ConnectionState_t list"
  app :: 'a

record TCP_Header_t =
  SourcePort :: u16
  DestinationPort :: u16
  SequenceNumber :: u32
  AcknowledgmentNumber :: u32
  Reserved :: u8
  DataOffset :: u8
  Flags :: u8
  WindowSize :: u16
  Checksum :: u16
  UrgentPointer :: u16

abbreviation (input) sizeof_TCP :: nat where "sizeof_TCP \<equiv> 20"

definition tcp_bytes :: "TCP_Header_t \<Rightarrow> u8 list" where
  "tcp_bytes h =
     bytes16 (SourcePort h) @ bytes16 (DestinationPort h) @ bytes32 (SequenceNumber h) @ bytes32 (AcknowledgmentNumber h) @
     [Reserved h AND 0x0F OR push_bit 4 (DataOffset h), Flags h] @ bytes16 (WindowSize h) @ bytes16 (Checksum h) @
     bytes16 (UrgentPointer h)"

definition tcp_of :: "u8 list \<Rightarrow> TCP_Header_t" where
  "tcp_of bs =
     \<lparr>SourcePort = peek16 bs 0, DestinationPort = peek16 bs 2, SequenceNumber = peek32 bs 4, AcknowledgmentNumber = peek32 bs 8,
      Reserved = bs ! 12 AND 0x0F, DataOffset = drop_bit 4 (bs ! 12), Flags = bs ! 13, WindowSize = peek16 bs 14,
      Checksum = peek16 bs 16, UrgentPointer = peek16 bs 18\<rparr>"

section \<open>Tables\<close>

text \<open>
  \<open>for (i = from; i < bound; i++) if (P (table[i])) ...\<close>: the first such index, nothing at the bound, \<open>None\<close>
  when the loop leaves the table.
\<close>

function search_table :: "('e \<Rightarrow> bool) \<Rightarrow> nat \<Rightarrow> nat \<Rightarrow> 'e list \<Rightarrow> nat option option" where
  "search_table P i bound xs =
     (if bound \<le> i then Some None
      else if length xs \<le> i then None
      else if P (xs ! i) then Some (Some i)
      else search_table P (i + 1) bound xs)"
  by auto
termination by (relation "measure (\<lambda>(P, i, bound, xs). bound - i)") auto

declare search_table.simps [simp del]

definition TCP_Init :: "'a tcp \<Rightarrow> 'a tcp" where
  "TCP_Init t =
     t\<lparr>PortStateTable := map (\<lambda>e. e\<lparr>PortState := TCP_Port_Closed\<rparr>) (PortStateTable t),
       ConnectionStateTable := map (\<lambda>e. e\<lparr>State := TCP_Connection_Closed\<rparr>) (ConnectionStateTable t)\<rparr>"

text \<open>Reading and writing entries of the port table; a write behind the table is \<open>None\<close>.\<close>

definition port_memory :: "'a tcp \<Rightarrow> 'a TCP_PortState_t list" where
  "port_memory t = PortStateTable t @ behind_ports t"

definition write_port :: "nat \<Rightarrow> 'a TCP_PortState_t \<Rightarrow> 'a tcp \<Rightarrow> (bool \<times> 'a tcp) option" where
  "write_port i e t =
     (if i < length (PortStateTable t) then Some (True, t\<lparr>PortStateTable := (PortStateTable t)[i := e]\<rparr>) else None)"

definition TCP_SetPortState :: "u16 \<Rightarrow> TCP_PortStates_t \<Rightarrow> 'a handler \<Rightarrow> 'a tcp \<Rightarrow> (bool \<times> 'a tcp) option" where
  "TCP_SetPortState port st h t =
     do {
       i \<leftarrow> search_table (\<lambda>e. LocalPort e = port) 0 MAX_TCP_CONNECTIONS (port_memory t);
       case i of
         Some i \<Rightarrow> write_port i ((port_memory t ! i)\<lparr>PortState := st, ApplicationHandler := h\<rparr>) t
       | None \<Rightarrow>
           if st = TCP_Port_Open then
             do {
               j \<leftarrow> search_table (\<lambda>e. PortState e = TCP_Port_Closed) 0 MAX_TCP_CONNECTIONS (port_memory t);
               case j of
                 Some j \<Rightarrow> write_port j \<lparr>LocalPort = port, PortState = st, ApplicationHandler = h\<rparr> t
               | None \<Rightarrow> Some (False, t)
             }
           else Some (True, t)
     }"

definition TCP_GetPortState :: "u16 \<Rightarrow> 'a tcp \<Rightarrow> TCP_PortStates_t option" where
  "TCP_GetPortState port t =
     do {
       i \<leftarrow> search_table (\<lambda>e. LocalPort e = port) 0 MAX_TCP_CONNECTIONS (port_memory t);
       case i of Some i \<Rightarrow> Some (PortState (port_memory t ! i)) | None \<Rightarrow> Some TCP_Port_Closed
     }"

text \<open>A connection is known by the local port, the address and the port of the other side.\<close>

type_synonym endpoints = "u16 \<times> IP_Address_t \<times> u16"

definition is_conn :: "endpoints \<Rightarrow> TCP_ConnectionState_t \<Rightarrow> bool" where
  "is_conn k e \<longleftrightarrow> Port e = fst k \<and> RemoteAddress e = fst (snd k) \<and> RemotePort e = snd (snd k)"

definition TCP_SetConnectionState :: "endpoints \<Rightarrow> TCP_ConnectionStates_t \<Rightarrow> 'a tcp \<Rightarrow> (bool \<times> 'a tcp) option" where
  "TCP_SetConnectionState k st t =
     do {
       i \<leftarrow> search_table (is_conn k) 0 MAX_TCP_CONNECTIONS (ConnectionStateTable t);
       case i of
         Some i \<Rightarrow> Some (True, t\<lparr>ConnectionStateTable := (ConnectionStateTable t)[i := (ConnectionStateTable t ! i)\<lparr>State := st\<rparr>]\<rparr>)
       | None \<Rightarrow> do {
           j \<leftarrow> search_table (\<lambda>e. State e = TCP_Connection_Closed) 0 MAX_TCP_CONNECTIONS (ConnectionStateTable t);
           case j of
             Some j \<Rightarrow> Some (True, t\<lparr>ConnectionStateTable := (ConnectionStateTable t)
               [j := (ConnectionStateTable t ! j)\<lparr>Port := fst k, RemoteAddress := fst (snd k), RemotePort := snd (snd k), State := st\<rparr>]\<rparr>)
           | None \<Rightarrow> Some (False, t)
         }
     }"

definition TCP_GetConnectionState :: "endpoints \<Rightarrow> 'a tcp \<Rightarrow> TCP_ConnectionStates_t option" where
  "TCP_GetConnectionState k t =
     do {
       i \<leftarrow> search_table (is_conn k) 0 MAX_TCP_CONNECTIONS (ConnectionStateTable t);
       case i of Some i \<Rightarrow> Some (State (ConnectionStateTable t ! i)) | None \<Rightarrow> Some TCP_Connection_Closed
     }"

text \<open>The index of the connection's information, or the null pointer.\<close>

definition TCP_GetConnectionInfo :: "endpoints \<Rightarrow> 'a tcp \<Rightarrow> nat option option" where
  "TCP_GetConnectionInfo k t = search_table (is_conn k) 0 MAX_TCP_CONNECTIONS (ConnectionStateTable t)"

text \<open>Reading and changing the information through the pointer.\<close>

definition read_info :: "endpoints \<Rightarrow> 'a tcp \<Rightarrow> TCP_ConnectionInfo_t option" where
  "read_info k t = do { i \<leftarrow> TCP_GetConnectionInfo k t; i \<leftarrow> i; Some (Info (ConnectionStateTable t ! i)) }"

definition change_info :: "(TCP_ConnectionInfo_t \<Rightarrow> TCP_ConnectionInfo_t) \<Rightarrow> endpoints \<Rightarrow> 'a tcp \<Rightarrow> 'a tcp option" where
  "change_info f k t =
     do {
       i \<leftarrow> TCP_GetConnectionInfo k t;
       i \<leftarrow> i;
       let e = ConnectionStateTable t ! i;
       Some (t\<lparr>ConnectionStateTable := (ConnectionStateTable t)[i := e\<lparr>Info := f (Info e)\<rparr>]\<rparr>)
     }"

section \<open>Checksum\<close>

definition TCP_Checksum16 :: "nat \<Rightarrow> IP_Address_t \<Rightarrow> IP_Address_t \<Rightarrow> u16 \<Rightarrow> rndis \<Rightarrow> u16 option" where
  "TCP_Checksum16 TCPHeaderOutStart src dst TCPOutSize d =
     do {
       let c = ucast (peek16 src 0) + ucast (peek16 src 2) + ucast (peek16 dst 0) + ucast (peek16 dst 2) +
               ucast (SwapEndian_16 (ucast PROTOCOL_TCP)) + ucast (SwapEndian_16 TCPOutSize);
       c \<leftarrow> sum_words d TCPHeaderOutStart (drop_bit 1 TCPOutSize) 0 c;
       c \<leftarrow> (if bit TCPOutSize 0 then
               do {
                 w \<leftarrow> peek (TCPHeaderOutStart + 2 * unat (drop_bit 1 TCPOutSize)) 2 d;
                 Some (c + ucast (peek16 w 0 AND 0x00FF))
               }
             else Some c);
       Some (NOT (ucast (fold_carry c)))
     }"

section \<open>Segments\<close>

text \<open>The data of a segment go behind what the buffer holds.\<close>

definition store_data :: "u8 list \<Rightarrow> bool \<Rightarrow> TCP_ConnectionInfo_t \<Rightarrow> TCP_ConnectionInfo_t" where
  "store_data bs psh i =
     (let b = Buffer i;
          b = b\<lparr>Data := take (unat (Length b)) (Data b) @ bs @ drop (unat (Length b) + length bs) (Data b),
                Length := Length b + of_nat (length bs)\<rparr>;
          b = (if Length b = TCP_WINDOW_SIZE \<or> psh then b\<lparr>InUse := False, Ready := True\<rparr> else b)
      in i\<lparr>SequenceNumberIn := SequenceNumberIn i + of_nat (length bs), Buffer := b\<rparr>)"

text \<open>The outcome of the automaton: the frame is left for later, or it is done with, with a response of some flags or without.\<close>

datatype verdict = Deferred | Done "u8 option"

text \<open>
  The code copies the data of a segment without a look at the space left in the buffer: a copy that goes behind the
  512 bytes is the outcome \<open>None\<close>, which \<open>Net_Invariant\<close> reaches with a segment that is sent twice.
\<close>

definition tcp_receive_data ::
    "IP_Header_t \<Rightarrow> nat \<Rightarrow> TCP_Header_t \<Rightarrow> endpoints \<Rightarrow> rndis \<Rightarrow> 'a tcp \<Rightarrow> (verdict \<times> 'a tcp) option" where
  "tcp_receive_data IPHeaderIN TCPHeaderInStart TCPHeaderIN k d t =
     do {
       info \<leftarrow> read_info k t;
       t \<leftarrow> (if \<not> InUse (Buffer info) \<and> \<not> Ready (Buffer info) then
               change_info (\<lambda>i. i\<lparr>Buffer := (Buffer i)\<lparr>Direction := TCP_PACKETDIR_IN, InUse := True, Length := 0\<rparr>\<rparr>) k t
             else Some t);
       info \<leftarrow> read_info k t;
       if Direction (Buffer info) = TCP_PACKETDIR_IN \<and> Length (Buffer info) \<noteq> TCP_WINDOW_SIZE then
         do {
           let IPOffset = ucast (HeaderLength IPHeaderIN) * 4;
           let TCPOffset = ucast (DataOffset TCPHeaderIN) * 4;
           let DataLength = SwapEndian_16 (TotalLength IPHeaderIN) - IPOffset - TCPOffset;
           bs \<leftarrow> peek (TCPHeaderInStart + unat TCPOffset) (unat DataLength) d;
           if length (Data (Buffer info)) < unat (Length (Buffer info)) + unat DataLength then None
           else do {
             let psh = (Flags TCPHeaderIN AND TCP_FLAG_PSH \<noteq> 0);
             t \<leftarrow> change_info (store_data bs psh) k t;
             info \<leftarrow> read_info k t;
             Some (Done (if Length (Buffer info) = TCP_WINDOW_SIZE \<or> psh then Some TCP_FLAG_ACK else None), t)
           }
         }
       else Some (Deferred, t)
     }"

text \<open>\<open>ConnectionInfo->SequenceNumberIn++\<close> and \<open>SequenceNumberOut++\<close>.\<close>

definition count_in_out :: "endpoints \<Rightarrow> 'a tcp \<Rightarrow> 'a tcp option" where
  "count_in_out = change_info (\<lambda>i. i\<lparr>SequenceNumberIn := SequenceNumberIn i + 1, SequenceNumberOut := SequenceNumberOut i + 1\<rparr>)"

text \<open>The last \<open>FIN\<close> of the other side: it is acknowledged and the connection closed.\<close>

definition tcp_last_fin :: "endpoints \<Rightarrow> 'a tcp \<Rightarrow> (verdict \<times> 'a tcp) option" where
  "tcp_last_fin k t =
     do {
       t \<leftarrow> count_in_out k t;
       (ok, t) \<leftarrow> TCP_SetConnectionState k TCP_Connection_Closed t;
       Some (Done (Some TCP_FLAG_ACK), t)
     }"

definition tcp_listen :: "TCP_Header_t \<Rightarrow> endpoints \<Rightarrow> 'a tcp \<Rightarrow> (verdict \<times> 'a tcp) option" where
  "tcp_listen TCPHeaderIN k t =
     (if Flags TCPHeaderIN = TCP_FLAG_SYN then
        do {
          (ok, t) \<leftarrow> TCP_SetConnectionState k TCP_Connection_SYNReceived t;
          if ok then
            do {
              t \<leftarrow> change_info (\<lambda>i. i\<lparr>SequenceNumberIn := SwapEndian_32 (SequenceNumber TCPHeaderIN) + 1,
                     SequenceNumberOut := 0, Buffer := (Buffer i)\<lparr>InUse := False\<rparr>\<rparr>) k t;
              Some (Done (Some (TCP_FLAG_SYN OR TCP_FLAG_ACK)), t)
            }
          else Some (Done (Some TCP_FLAG_RST), t)
        }
      else Some (Done None, t))"

definition tcp_established ::
    "IP_Header_t \<Rightarrow> nat \<Rightarrow> TCP_Header_t \<Rightarrow> endpoints \<Rightarrow> rndis \<Rightarrow> 'a tcp \<Rightarrow> (verdict \<times> 'a tcp) option" where
  "tcp_established IPHeaderIN TCPHeaderInStart TCPHeaderIN k d t =
     (if Flags TCPHeaderIN = TCP_FLAG_FIN OR TCP_FLAG_ACK then
        do {
          (ok, t) \<leftarrow> TCP_SetConnectionState k TCP_Connection_CloseWait t;
          t \<leftarrow> count_in_out k t;
          Some (Done (Some (TCP_FLAG_FIN OR TCP_FLAG_ACK)), t)
        }
      else if Flags TCPHeaderIN = TCP_FLAG_ACK \<or> Flags TCPHeaderIN = TCP_FLAG_ACK OR TCP_FLAG_PSH then
        tcp_receive_data IPHeaderIN TCPHeaderInStart TCPHeaderIN k d t
      else Some (Done None, t))"

text \<open>The switch on the state of the connection.\<close>

definition tcp_state_switch ::
    "IP_Header_t \<Rightarrow> nat \<Rightarrow> TCP_Header_t \<Rightarrow> endpoints \<Rightarrow> rndis \<Rightarrow> 'a tcp \<Rightarrow> (verdict \<times> 'a tcp) option" where
  "tcp_state_switch IPHeaderIN TCPHeaderInStart TCPHeaderIN k d t =
     do {
       st \<leftarrow> TCP_GetConnectionState k t;
       case st of
         TCP_Connection_Listen \<Rightarrow> tcp_listen TCPHeaderIN k t
       | TCP_Connection_SYNReceived \<Rightarrow>
           if Flags TCPHeaderIN = TCP_FLAG_ACK then
             do {
               (ok, t) \<leftarrow> TCP_SetConnectionState k TCP_Connection_Established t;
               t \<leftarrow> change_info (\<lambda>i. i\<lparr>SequenceNumberOut := SequenceNumberOut i + 1\<rparr>) k t;
               Some (Done None, t)
             }
           else Some (Done None, t)
       | TCP_Connection_Established \<Rightarrow> tcp_established IPHeaderIN TCPHeaderInStart TCPHeaderIN k d t
       | TCP_Connection_Closing \<Rightarrow>
           do {
             t \<leftarrow> change_info (\<lambda>i. i\<lparr>Buffer := (Buffer i)\<lparr>InUse := False\<rparr>\<rparr>) k t;
             (ok, t) \<leftarrow> TCP_SetConnectionState k TCP_Connection_FINWait1 t;
             Some (Done (Some (TCP_FLAG_ACK OR TCP_FLAG_FIN)), t)
           }
       | TCP_Connection_FINWait1 \<Rightarrow>
           if Flags TCPHeaderIN = TCP_FLAG_FIN OR TCP_FLAG_ACK then tcp_last_fin k t
           else if Flags TCPHeaderIN = TCP_FLAG_ACK then
             do { (ok, t) \<leftarrow> TCP_SetConnectionState k TCP_Connection_FINWait2 t; Some (Done None, t) }
           else Some (Done None, t)
       | TCP_Connection_FINWait2 \<Rightarrow>
           if Flags TCPHeaderIN = TCP_FLAG_FIN OR TCP_FLAG_ACK then tcp_last_fin k t else Some (Done None, t)
       | TCP_Connection_CloseWait \<Rightarrow>
           if Flags TCPHeaderIN = TCP_FLAG_ACK then
             do { (ok, t) \<leftarrow> TCP_SetConnectionState k TCP_Connection_Closed t; Some (Done None, t) }
           else Some (Done None, t)
       | _ \<Rightarrow> Some (Done None, t)
     }"

definition tcp_automaton ::
    "IP_Header_t \<Rightarrow> nat \<Rightarrow> TCP_Header_t \<Rightarrow> endpoints \<Rightarrow> rndis \<Rightarrow> 'a tcp \<Rightarrow> (verdict \<times> 'a tcp) option" where
  "tcp_automaton IPHeaderIN TCPHeaderInStart TCPHeaderIN k d t =
     do {
       p \<leftarrow> TCP_GetPortState (DestinationPort TCPHeaderIN) t;
       if p = TCP_Port_Open then
         do {
           (ok, t) \<leftarrow> (if Flags TCPHeaderIN AND TCP_FLAG_SYN \<noteq> 0 then TCP_SetConnectionState k TCP_Connection_Listen t
                       else Some (True, t));
           if Flags TCPHeaderIN AND TCP_FLAG_RST \<noteq> 0 then
             do {
               (ok, t) \<leftarrow> TCP_SetConnectionState k TCP_Connection_Closed t;
               Some (Done (if ok then Some (TCP_FLAG_RST OR TCP_FLAG_ACK) else None), t)
             }
           else tcp_state_switch IPHeaderIN TCPHeaderInStart TCPHeaderIN k d t
         }
       else Some (Done (Some (TCP_FLAG_RST OR TCP_FLAG_ACK)), t)
     }"

text \<open>The header of a response.\<close>

definition tcp_response_header :: "TCP_Header_t \<Rightarrow> u8 \<Rightarrow> TCP_ConnectionInfo_t \<Rightarrow> TCP_Header_t" where
  "tcp_response_header TCPHeaderIN flags info =
     \<lparr>SourcePort = DestinationPort TCPHeaderIN, DestinationPort = SourcePort TCPHeaderIN,
      SequenceNumber = SwapEndian_32 (SequenceNumberOut info), AcknowledgmentNumber = SwapEndian_32 (SequenceNumberIn info),
      Reserved = 0, DataOffset = 5, Flags = flags,
      WindowSize = SwapEndian_16 (if \<not> InUse (Buffer info) then TCP_WINDOW_SIZE else TCP_WINDOW_SIZE - Length (Buffer info)),
      Checksum = 0, UrgentPointer = 0\<rparr>"

definition TCP_ProcessTCPPacket :: "nat \<Rightarrow> nat \<Rightarrow> nat \<Rightarrow> rndis \<Rightarrow> 'a tcp \<Rightarrow> (u16 \<times> rndis \<times> 'a tcp) option" where
  "TCP_ProcessTCPPacket IPHeaderInStart TCPHeaderInStart TCPHeaderOutStart d t =
     do {
       bs \<leftarrow> peek IPHeaderInStart sizeof_IP d;
       let IPHeaderIN = ip_of bs;
       bs \<leftarrow> peek TCPHeaderInStart sizeof_TCP d;
       let TCPHeaderIN = tcp_of bs;
       let k = (DestinationPort TCPHeaderIN, SourceAddress IPHeaderIN, SourcePort TCPHeaderIN);
       (v, t) \<leftarrow> tcp_automaton IPHeaderIN TCPHeaderInStart TCPHeaderIN k d t;
       case v of
         Deferred \<Rightarrow> Some (NO_PROCESS, d, t)
       | Done None \<Rightarrow> Some (NO_RESPONSE, d, t)
       | Done (Some flags) \<Rightarrow>
           do {
             info \<leftarrow> read_info k t;
             let h = tcp_response_header TCPHeaderIN flags info;
             d \<leftarrow> poke TCPHeaderOutStart (tcp_bytes h) d;
             c \<leftarrow> TCP_Checksum16 TCPHeaderOutStart (DestinationAddress IPHeaderIN) (SourceAddress IPHeaderIN) (of_nat sizeof_TCP) d;
             d \<leftarrow> poke TCPHeaderOutStart (tcp_bytes (h\<lparr>Checksum := c\<rparr>)) d;
             Some (of_nat sizeof_TCP, d, t)
           }
     }"

section \<open>The task\<close>

text \<open>The handler of an open port runs for every connection of that port.\<close>

definition run_handler :: "nat \<Rightarrow> nat \<Rightarrow> 'a tcp \<Rightarrow> 'a tcp option" where
  "run_handler cs p t =
     (let e = ConnectionStateTable t ! cs; pe = PortStateTable t ! p
      in if LocalPort pe = Port e \<and> PortState pe = TCP_Port_Open then
           do {
             (e, a) \<leftarrow> ApplicationHandler pe e (app t);
             Some (t\<lparr>ConnectionStateTable := (ConnectionStateTable t)[cs := e], app := a\<rparr>)
           }
         else Some t)"

definition run_applications :: "'a tcp \<Rightarrow> 'a tcp option" where
  "run_applications t =
     fold (\<lambda>cs t. fold (\<lambda>p t. Option.bind t (run_handler cs p)) [0..<MAX_OPEN_TCP_PORTS] t) [0..<MAX_TCP_CONNECTIONS] (Some t)"

text \<open>The frame for the data in the buffer of a connection.\<close>

definition send_connection :: "nat \<Rightarrow> nat \<Rightarrow> rndis \<Rightarrow> 'a tcp \<Rightarrow> (rndis \<times> 'a tcp) option" where
  "send_connection FrameOUT cs d t =
     do {
       let e = ConnectionStateTable t ! cs;
       let b = Buffer (Info e);
       let PacketSize = Length b;
       let ip = FrameOUT + sizeof_Ethernet;
       let tcp = FrameOUT + sizeof_Ethernet + sizeof_IP;
       let h = \<lparr>SourcePort = Port e, DestinationPort = RemotePort e, SequenceNumber = SwapEndian_32 (SequenceNumberOut (Info e)),
                AcknowledgmentNumber = SwapEndian_32 (SequenceNumberIn (Info e)), Reserved = 0, DataOffset = 5,
                Flags = TCP_FLAG_ACK, WindowSize = SwapEndian_16 TCP_WINDOW_SIZE, Checksum = 0, UrgentPointer = 0\<rparr>;
       d \<leftarrow> poke tcp (tcp_bytes h) d;
       data \<leftarrow> peek 0 (unat PacketSize) (Data b);
       d \<leftarrow> poke (tcp + sizeof_TCP) data d;
       let e = e\<lparr>Info := (Info e)\<lparr>SequenceNumberOut := SequenceNumberOut (Info e) + ucast PacketSize\<rparr>\<rparr>;
       c \<leftarrow> TCP_Checksum16 tcp ServerIPAddress (RemoteAddress e) (of_nat sizeof_TCP + PacketSize) d;
       d \<leftarrow> poke tcp (tcp_bytes (h\<lparr>Checksum := c\<rparr>)) d;
       let PacketSize = PacketSize + of_nat sizeof_TCP;
       let iph = \<lparr>HeaderLength = 5, Version = 4, TypeOfService = 0, TotalLength = SwapEndian_16 (of_nat sizeof_IP + PacketSize),
                  Identification = 0, FragmentOffset = 0, FragmentFlags = 0, TTL = DEFAULT_TTL, Protocol = PROTOCOL_TCP,
                  HeaderChecksum = 0, SourceAddress = ServerIPAddress, DestinationAddress = RemoteAddress e\<rparr>;
       d \<leftarrow> poke ip (ip_bytes iph) d;
       c \<leftarrow> Ethernet_Checksum16 ip (of_nat sizeof_IP) d;
       d \<leftarrow> poke ip (ip_bytes (iph\<lparr>HeaderChecksum := c\<rparr>)) d;
       let PacketSize = PacketSize + of_nat sizeof_IP;
       d \<leftarrow> poke FrameOUT (ethernet_bytes \<lparr>Destination = AdapterMAC, Source = ServerMACAddress,
              EtherType = SwapEndian_16 ETHERTYPE_IPV4\<rparr>) d;
       let PacketSize = PacketSize + of_nat sizeof_Ethernet;
       d \<leftarrow> poke (FrameOUT + o_FrameLength) (bytes16 PacketSize) d;
       d \<leftarrow> poke (FrameOUT + o_FrameInBuffer) [1] d;
       let e = e\<lparr>Info := (Info e)\<lparr>Buffer := (Buffer (Info e))\<lparr>Ready := False\<rparr>\<rparr>\<rparr>;
       Some (d, t\<lparr>ConnectionStateTable := (ConnectionStateTable t)[cs := e]\<rparr>)
     }"

definition ready_to_send :: "TCP_ConnectionState_t \<Rightarrow> bool" where
  "ready_to_send e \<longleftrightarrow> Direction (Buffer (Info e)) = TCP_PACKETDIR_OUT \<and> Ready (Buffer (Info e))"

definition TCP_TCPTask :: "rndis \<Rightarrow> 'a tcp \<Rightarrow> (rndis \<times> 'a tcp) option" where
  "TCP_TCPTask d t =
     do {
       t \<leftarrow> run_applications t;
       if d ! (o_FrameOUT + o_FrameInBuffer) \<noteq> 0 then Some (d, t)
       else do {
         cs \<leftarrow> search_table ready_to_send 0 MAX_TCP_CONNECTIONS (ConnectionStateTable t);
         case cs of Some cs \<Rightarrow> send_connection o_FrameOUT cs d t | None \<Rightarrow> Some (d, t)
       }
     }"

end
