(* ===== verification/Net_Server.thy ===== *)
theory Net_Server
  imports Net_Arp_Icmp Net_Udp Net_Tcp
begin

text \<open>
  \<open>Lib/IP.c\<close>, \<open>Lib/Ethernet.c\<close>, \<open>Lib/Webserver.c\<close> and \<open>RNDISEthernet.c\<close> of the network demo: the dispatch of
  a frame to the protocols, the HTTP server on top of TCP, and the main loop.
\<close>

section \<open>IP and Ethernet\<close>

text \<open>The header of the response; its addresses are those of the request as they are after it was processed.\<close>

definition ip_response_header :: "IP_Header_t \<Rightarrow> u16 \<Rightarrow> IP_Header_t" where
  "ip_response_header IPHeaderIN RetSize =
     \<lparr>HeaderLength = 5, Version = 4, TypeOfService = 0, TotalLength = SwapEndian_16 (of_nat sizeof_IP + RetSize),
      Identification = 0, FragmentOffset = 0, FragmentFlags = 0, TTL = DEFAULT_TTL, Protocol = Protocol IPHeaderIN,
      HeaderChecksum = 0, SourceAddress = DestinationAddress IPHeaderIN, DestinationAddress = SourceAddress IPHeaderIN\<rparr>"

definition IP_ProcessIPPacket :: "nat \<Rightarrow> nat \<Rightarrow> nat \<Rightarrow> rndis \<Rightarrow> 'a tcp \<Rightarrow> (u16 \<times> rndis \<times> 'a tcp) option" where
  "IP_ProcessIPPacket FrameIN InDataStart OutDataStart d t =
     do {
       bs \<leftarrow> peek InDataStart sizeof_IP d;
       let IPHeaderIN = ip_of bs;
       let In = InDataStart + unat (HeaderLength IPHeaderIN) * 4;
       let Out = OutDataStart + sizeof_IP;
       if DestinationAddress IPHeaderIN \<noteq> ServerIPAddress \<and> DestinationAddress IPHeaderIN \<noteq> BroadcastIPAddress then
         Some (NO_RESPONSE, d, t)
       else do {
         (RetSize, d, t) \<leftarrow>
           (if Protocol IPHeaderIN = PROTOCOL_ICMP then
              map_option (\<lambda>(r, d). (r, d, t)) (ICMP_ProcessICMPPacket FrameIN In Out d)
            else if Protocol IPHeaderIN = PROTOCOL_TCP then TCP_ProcessTCPPacket InDataStart In Out d t
            else if Protocol IPHeaderIN = PROTOCOL_UDP then
              map_option (\<lambda>(r, d). (r, d, t)) (UDP_ProcessUDPPacket InDataStart In Out d)
            else Some (NO_RESPONSE, d, t));
         if is_response RetSize then
           do {
             bs \<leftarrow> peek InDataStart sizeof_IP d;
             let h = ip_response_header (ip_of bs) RetSize;
             d \<leftarrow> poke OutDataStart (ip_bytes h) d;
             c \<leftarrow> Ethernet_Checksum16 OutDataStart (of_nat sizeof_IP) d;
             d \<leftarrow> poke OutDataStart (ip_bytes (h\<lparr>HeaderChecksum := c\<rparr>)) d;
             Some (of_nat sizeof_IP + RetSize, d, t)
           }
         else Some (RetSize, d, t)
       }
     }"

text \<open>The length of the frame is in the byte order of the AVR already when it is swapped.\<close>

definition frame_accepted :: "Ethernet_Frame_Header_t \<Rightarrow> u16 \<Rightarrow> bool" where
  "frame_accepted FrameINHeader FrameLength \<longleftrightarrow>
     (Destination FrameINHeader = ServerMACAddress \<or> Destination FrameINHeader = BroadcastMACAddress) \<and>
     SwapEndian_16 FrameLength > ETHERNET_VER2_MINSIZE"

definition Ethernet_ProcessPacket :: "nat \<Rightarrow> nat \<Rightarrow> rndis \<Rightarrow> 'a tcp \<Rightarrow> (rndis \<times> 'a tcp) option" where
  "Ethernet_ProcessPacket FrameIN FrameOUT d t =
     do {
       bs \<leftarrow> peek FrameIN sizeof_Ethernet d;
       let FrameINHeader = ethernet_of bs;
       let In = FrameIN + sizeof_Ethernet;
       let Out = FrameOUT + sizeof_Ethernet;
       (RetSize, d, t) \<leftarrow>
         (if frame_accepted FrameINHeader (peek16 d (FrameIN + o_FrameLength)) then
            do {
              (RetSize, d, t) \<leftarrow>
                (if SwapEndian_16 (EtherType FrameINHeader) = ETHERTYPE_ARP then
                   map_option (\<lambda>(r, d). (r, d, t)) (ARP_ProcessARPPacket In Out d)
                 else if SwapEndian_16 (EtherType FrameINHeader) = ETHERTYPE_IPV4 then IP_ProcessIPPacket FrameIN In Out d t
                 else Some (NO_RESPONSE, d, t));
              if is_response RetSize then
                do {
                  d \<leftarrow> poke FrameOUT (ethernet_bytes \<lparr>Destination = Source FrameINHeader, Source = ServerMACAddress,
                         EtherType = EtherType FrameINHeader\<rparr>) d;
                  d \<leftarrow> poke (FrameOUT + o_FrameLength) (bytes16 (of_nat sizeof_Ethernet + RetSize)) d;
                  d \<leftarrow> poke (FrameOUT + o_FrameInBuffer) [1] d;
                  Some (RetSize, d, t)
                }
              else Some (RetSize, d, t)
            }
          else Some (NO_RESPONSE, d, t));
       d \<leftarrow> (if RetSize \<noteq> NO_PROCESS then poke (FrameIN + o_FrameInBuffer) [0] d else Some d);
       Some (d, t)
     }"

section \<open>The HTTP server\<close>

abbreviation (input) TCP_PORT_HTTP :: u16 where "TCP_PORT_HTTP \<equiv> 0x5000"
abbreviation (input) HTTP_REPLY_BLOCK_SIZE :: nat where "HTTP_REPLY_BLOCK_SIZE \<equiv> 128"

definition chars :: "string \<Rightarrow> u8 list" where
  "chars s = map of_char s"

text \<open>Line ends and tabulators of the source's literals.\<close>

abbreviation (input) CRLF :: string where "CRLF \<equiv> [CHR 0x0D, CHR 0x0A]"
abbreviation (input) tabs :: "nat \<Rightarrow> string" where "tabs n \<equiv> replicate n (CHR 0x09)"

definition HTTP200Header :: "u8 list" where
  "HTTP200Header = chars (''HTTP/1.1 200 OK'' @ CRLF @ ''Server: LUFA RNDIS'' @ CRLF @ ''Content-type: text/html'' @ CRLF @
     ''Connection: close'' @ CRLF @ CRLF)"

definition HTTP404Header :: "u8 list" where
  "HTTP404Header = chars (''HTTP/1.1 404 Not Found'' @ CRLF @ ''Server: LUFA RNDIS'' @ CRLF @ ''Connection: close'' @ CRLF @ CRLF)"

definition HTTPPage :: "u8 list" where
  "HTTPPage = chars
     (''<html>'' @ tabs 1 @ ''<head>'' @ tabs 2 @ ''<title>'' @ tabs 3 @ ''LUFA Webserver Demo'' @ tabs 2 @ ''</title>'' @
      tabs 1 @ ''</head>'' @ tabs 1 @ ''<body>'' @ tabs 2 @ ''<h1>Hello from your USB AVR!</h1>'' @ tabs 2 @ ''<p>'' @ tabs 3 @
      ''Hello! Welcome to the LUFA RNDIS Demo Webserver test page, running on your USB AVR via the LUFA library. '' @
      ''This demonstrates the HTTP webserver, TCP/IP stack and RNDIS demo all running atop the LUFA USB stack.'' @
      tabs 3 @ ''<br /><br />'' @ tabs 3 @ ''<small>Project Information: <a href=\"http://www.fourwalledcubicle.com/LUFA.php\">'' @
      ''http://www.fourwalledcubicle.com/LUFA.php</a>.</small>'' @ tabs 3 @ ''<hr />'' @ tabs 3 @ ''<i>LUFA Version: </i>'' @
      ''100219'' @ tabs 2 @ ''</p>'' @ tabs 1 @ ''</body>'' @ ''</html>'')"

text \<open>The macros \<open>TCP_APP_\<close> of \<open>TCP.h\<close>.\<close>

definition TCP_APP_HAS_RECEIVED_PACKET :: "TCP_ConnectionBuffer_t \<Rightarrow> bool" where
  "TCP_APP_HAS_RECEIVED_PACKET b \<longleftrightarrow> Ready b \<and> Direction b = TCP_PACKETDIR_IN"

definition TCP_APP_HAVE_CAPTURED_BUFFER :: "TCP_ConnectionBuffer_t \<Rightarrow> bool" where
  "TCP_APP_HAVE_CAPTURED_BUFFER b \<longleftrightarrow> \<not> Ready b \<and> InUse b \<and> Direction b = TCP_PACKETDIR_OUT"

definition TCP_APP_CAPTURE_BUFFER :: "TCP_ConnectionBuffer_t \<Rightarrow> TCP_ConnectionBuffer_t" where
  "TCP_APP_CAPTURE_BUFFER b = b\<lparr>Direction := TCP_PACKETDIR_OUT, InUse := True\<rparr>"

definition TCP_APP_RELEASE_BUFFER :: "TCP_ConnectionBuffer_t \<Rightarrow> TCP_ConnectionBuffer_t" where
  "TCP_APP_RELEASE_BUFFER b = b\<lparr>InUse := False\<rparr>"

definition TCP_APP_SEND_BUFFER :: "u16 \<Rightarrow> TCP_ConnectionBuffer_t \<Rightarrow> TCP_ConnectionBuffer_t" where
  "TCP_APP_SEND_BUFFER len b = b\<lparr>Direction := TCP_PACKETDIR_OUT, Length := len, Ready := True\<rparr>"

definition TCP_APP_CLEAR_BUFFER :: "TCP_ConnectionBuffer_t \<Rightarrow> TCP_ConnectionBuffer_t" where
  "TCP_APP_CLEAR_BUFFER b = b\<lparr>Ready := False, Length := 0\<rparr>"

definition TCP_APP_CLOSECONNECTION :: "TCP_ConnectionState_t \<Rightarrow> TCP_ConnectionState_t" where
  "TCP_APP_CLOSECONNECTION e = e\<lparr>State := TCP_Connection_Closing\<rparr>"

definition on_buffer :: "(TCP_ConnectionBuffer_t \<Rightarrow> TCP_ConnectionBuffer_t) \<Rightarrow> TCP_ConnectionState_t \<Rightarrow> TCP_ConnectionState_t" where
  "on_buffer f e = e\<lparr>Info := (Info e)\<lparr>Buffer := f (Buffer (Info e))\<rparr>\<rparr>"

definition IsHTTPCommand :: "u8 list \<Rightarrow> string \<Rightarrow> bool" where
  "IsHTTPCommand RequestHeader Command \<longleftrightarrow> take (length Command) RequestHeader = chars Command"

text \<open>\<open>strlen\<close>, and \<open>strcpy_P\<close> into an array.\<close>

definition strlen :: "u8 list \<Rightarrow> nat" where
  "strlen bs = length (takeWhile (\<lambda>c. c \<noteq> 0) bs)"

definition strcpy_P :: "u8 list \<Rightarrow> u8 list \<Rightarrow> u8 list" where
  "strcpy_P src dst = src @ [0] @ drop (length src + 1) dst"

text \<open>A string goes into the buffer and from there to the host.\<close>

definition send_string :: "u8 list \<Rightarrow> TCP_ConnectionBuffer_t \<Rightarrow> TCP_ConnectionBuffer_t" where
  "send_string src b = (let b = b\<lparr>Data := strcpy_P src (Data b)\<rparr> in TCP_APP_SEND_BUFFER (of_nat (strlen (Data b))) b)"

definition http_request :: "TCP_ConnectionState_t \<Rightarrow> u8 \<Rightarrow> (TCP_ConnectionState_t \<times> u8)" where
  "http_request ConnectionState PageBlock =
     (let req = Data (Buffer (Info ConnectionState))
      in if IsHTTPCommand req ''GET'' then
           (if IsHTTPCommand req ''GET / '' then
              (on_buffer (\<lambda>b. TCP_APP_CAPTURE_BUFFER (send_string HTTP200Header b)) ConnectionState, 0)
            else (TCP_APP_CLOSECONNECTION (on_buffer (send_string HTTP404Header) ConnectionState), PageBlock))
         else if IsHTTPCommand req ''HEAD'' then
           (TCP_APP_CLOSECONNECTION
              (on_buffer (send_string (if IsHTTPCommand req ''HEAD / '' then HTTP200Header else HTTP404Header)) ConnectionState),
            PageBlock)
         else if IsHTTPCommand req ''TRACE'' then
           (TCP_APP_CLOSECONNECTION (on_buffer (\<lambda>b. TCP_APP_SEND_BUFFER (Length b) b) ConnectionState), PageBlock)
         else (on_buffer TCP_APP_CLEAR_BUFFER ConnectionState, PageBlock))"

text \<open>The next block of the page; the array ends with a zero byte.\<close>

definition http_next_block :: "TCP_ConnectionState_t \<Rightarrow> u8 \<Rightarrow> (TCP_ConnectionState_t \<times> u8) option" where
  "http_next_block ConnectionState PageBlock =
     do {
       let p = unat PageBlock * HTTP_REPLY_BLOCK_SIZE;
       if length HTTPPage < p then None
       else do {
         let rest = drop p (HTTPPage @ [0]);
         let RemLength = strlen rest;
         let len = (if RemLength > HTTP_REPLY_BLOCK_SIZE then HTTP_REPLY_BLOCK_SIZE else RemLength);
         let e = on_buffer (\<lambda>b. TCP_APP_SEND_BUFFER (of_nat len) (b\<lparr>Data := take len rest @ drop len (Data b)\<rparr>)) ConnectionState;
         if unat PageBlock = (length HTTPPage + 1) div HTTP_REPLY_BLOCK_SIZE then
           Some (TCP_APP_CLOSECONNECTION (on_buffer TCP_APP_RELEASE_BUFFER e), PageBlock + 1)
         else Some (e, PageBlock + 1)
       }
     }"

definition Webserver_ApplicationCallback :: "u8 handler" where
  "Webserver_ApplicationCallback ConnectionState PageBlock =
     (if TCP_APP_HAS_RECEIVED_PACKET (Buffer (Info ConnectionState)) then Some (http_request ConnectionState PageBlock)
      else if TCP_APP_HAVE_CAPTURED_BUFFER (Buffer (Info ConnectionState)) then http_next_block ConnectionState PageBlock
      else Some (ConnectionState, PageBlock))"

definition Webserver_Init :: "u8 tcp \<Rightarrow> (bool \<times> u8 tcp) option" where
  "Webserver_Init t = TCP_SetPortState TCP_PORT_HTTP TCP_Port_Open Webserver_ApplicationCallback t"

section \<open>The main program (RNDISEthernet.c, LEDs of the USBKEY board)\<close>

abbreviation (input) USBKEY_LEDS_LED1 :: u8 where "USBKEY_LEDS_LED1 \<equiv> 0x10"
abbreviation (input) USBKEY_LEDS_LED2 :: u8 where "USBKEY_LEDS_LED2 \<equiv> 0x20"
abbreviation (input) USBKEY_LEDS_LED3 :: u8 where "USBKEY_LEDS_LED3 \<equiv> 0x80"
abbreviation (input) USBKEY_LEDS_LED4 :: u8 where "USBKEY_LEDS_LED4 \<equiv> 0x40"
abbreviation (input) USBKEY_LEDS_ALL_LEDS :: u8 where "USBKEY_LEDS_ALL_LEDS \<equiv> 0xF0"

definition USBKEY_LEDs_Init :: "'h mmio \<Rightarrow> 'h \<Rightarrow> 'h" where
  "USBKEY_LEDs_Init io s = clr_reg io PORTD USBKEY_LEDS_ALL_LEDS (or_reg io DDRD USBKEY_LEDS_ALL_LEDS s)"

definition USBKEY_LEDs_SetAllLEDs :: "'h mmio \<Rightarrow> u8 \<Rightarrow> 'h \<Rightarrow> 'h" where
  "USBKEY_LEDs_SetAllLEDs io LEDMask s =
     (let (v, s) = io_rd io PORTD s in io_wr io PORTD (v AND NOT USBKEY_LEDS_ALL_LEDS OR LEDMask) s)"

abbreviation (input) NET_LEDMASK_NOTREADY :: u8 where "NET_LEDMASK_NOTREADY \<equiv> USBKEY_LEDS_LED1"
abbreviation (input) NET_LEDMASK_READY :: u8 where "NET_LEDMASK_READY \<equiv> 0x60"
abbreviation (input) NET_LEDMASK_ERROR :: u8 where "NET_LEDMASK_ERROR \<equiv> 0x90"
abbreviation (input) NET_LEDMASK_BUSY :: u8 where "NET_LEDMASK_BUSY \<equiv> USBKEY_LEDS_LED2"

text \<open>
  The start of \<open>main\<close> on the zeroed tables, the event for a new configuration, and a round of its loop.
  The library's task, which calls the event handlers, is a parameter.
\<close>

definition zero_connection :: TCP_ConnectionState_t where
  "zero_connection =
     \<lparr>Port = 0, RemotePort = 0, RemoteAddress = replicate 4 0,
      Info = \<lparr>SequenceNumberIn = 0, SequenceNumberOut = 0,
        Buffer = \<lparr>Length = 0, Data = replicate 512 0, Direction = False, Ready = False, InUse = False\<rparr>\<rparr>,
      State = TCP_Connection_Listen\<rparr>"

definition zero_tcp :: "'a TCP_PortState_t list \<Rightarrow> 'a \<Rightarrow> 'a tcp" where
  "zero_tcp behind a =
     \<lparr>PortStateTable = replicate MAX_OPEN_TCP_PORTS \<lparr>LocalPort = 0, PortState = TCP_Port_Closed, ApplicationHandler = (\<lambda>e a. None)\<rparr>,
      behind_ports = behind, ConnectionStateTable = replicate MAX_TCP_CONNECTIONS zero_connection, app = a\<rparr>"

definition net_start :: "u8 TCP_PortState_t list \<Rightarrow> (bool \<times> u8 tcp) option" where
  "net_start behind = Webserver_Init (TCP_Init (zero_tcp behind 0))"

definition net_configuration_changed :: "'h mmio \<Rightarrow> RNDIS_Config \<Rightarrow> 'h \<Rightarrow> (rndis \<times> 'h) option" where
  "net_configuration_changed io c s =
     do {
       let s = USBKEY_LEDs_SetAllLEDs io NET_LEDMASK_READY s;
       (ok, d, s) \<leftarrow> RNDIS_Device_ConfigureEndpoints io c s;
       Some (d, if ok then s else USBKEY_LEDs_SetAllLEDs io NET_LEDMASK_ERROR s)
     }"

definition net_main_round ::
    "'h mmio \<Rightarrow> RNDIS_Config \<Rightarrow> (nat \<Rightarrow> u8) \<Rightarrow> (rndis \<Rightarrow> 'h \<Rightarrow> (rndis \<times> 'h) option) \<Rightarrow> rndis \<Rightarrow> u8 tcp \<Rightarrow> 'h \<Rightarrow>
       (rndis \<times> u8 tcp \<times> 'h) option" where
  "net_main_round io c stack usb_task d t s =
     do {
       (d, t, s) \<leftarrow>
         (if d ! (o_FrameIN + o_FrameInBuffer) \<noteq> 0 then
            do {
              let s = USBKEY_LEDs_SetAllLEDs io NET_LEDMASK_BUSY s;
              (d, t) \<leftarrow> Ethernet_ProcessPacket o_FrameIN o_FrameOUT d t;
              Some (d, t, USBKEY_LEDs_SetAllLEDs io NET_LEDMASK_READY s)
            }
          else Some (d, t, s));
       (d, t) \<leftarrow> TCP_TCPTask d t;
       (d, s) \<leftarrow> RNDIS_Device_USBTask io c stack d s;
       (d, s) \<leftarrow> usb_task d s;
       Some (d, t, s)
     }"

end
