(* ===== verification/Net_Checksum.thy ===== *)
theory Net_Checksum
  imports Net_Server Rndis_Props
begin

text \<open>
  The checksum of the network demo against the one's complement sum of RFC 1071: equal for less than
  512 bytes, accepted by the receiver, and a loop without end for more.
\<close>

section \<open>One's complement sums\<close>

definition ones_add :: "nat \<Rightarrow> nat \<Rightarrow> nat" where
  "ones_add a b = (if a + b < 65536 then a + b else a + b - 65535)"

definition ones_sum :: "u16 list \<Rightarrow> nat" where
  "ones_sum ws = fold (\<lambda>w a. ones_add a (unat w)) ws 0"

text \<open>A representative below 65536, with zero only for zero, is determined by its residue.\<close>

definition represents :: "nat \<Rightarrow> nat \<Rightarrow> bool" where
  "represents a n \<longleftrightarrow> a < 65536 \<and> a mod 65535 = n mod 65535 \<and> (a = 0 \<longleftrightarrow> n = 0)"

lemma represents_unique: "represents a n \<Longrightarrow> represents b n \<Longrightarrow> a = b"
proof -
  assume r: "represents a n" "represents b n"
  then have m: "a mod 65535 = b mod 65535" "a < 65536" "b < 65536" "a = 0 \<longleftrightarrow> b = 0"
    by (simp_all add: represents_def)
  consider "a = 65535" | "a < 65535" using m(2) by linarith
  then show ?thesis
  proof cases
    case 1
    then show ?thesis using m by (cases "b = 65535") simp_all
  next
    case 2
    then show ?thesis using m by (cases "b = 65535") simp_all
  qed
qed

lemma represents_add:
  assumes "represents a n" "b < 65536"
  shows "represents (ones_add a b) (n + b)"
proof -
  have m: "(a + b) mod 65535 = (n + b) mod 65535"
    by (rule mod_add_cong) (use assms in \<open>simp_all add: represents_def\<close>)
  show ?thesis
  proof (cases "a + b < 65536")
    case True
    then show ?thesis using assms m by (simp add: represents_def ones_add_def)
  next
    case False
    then have "(a + b - 65535) mod 65535 = (a + b) mod 65535" by (simp add: le_mod_geq)
    then show ?thesis using assms False m by (auto simp: represents_def ones_add_def)
  qed
qed

lemma represents_sum: "represents (ones_sum ws) (\<Sum>w\<leftarrow>ws. unat w)"
proof -
  have "represents (fold (\<lambda>w a. ones_add a (unat w)) ws a) (n + (\<Sum>w\<leftarrow>ws. unat w))" if "represents a n" for a n
    using that
  proof (induction ws arbitrary: a n)
    case (Cons w ws)
    have "represents (ones_add a (unat w)) (n + unat w)"
      by (rule represents_add [OF Cons.prems]) (rule order_less_le_trans [OF unsigned_less], simp)
    from Cons.IH [OF this] show ?case by (simp add: add.assoc)
  qed simp
  from this [of 0 0] show ?thesis by (simp add: ones_sum_def represents_def)
qed

lemma represents_fold: "represents (unat (fold_carry c)) (unat c)"
proof (induction c rule: fold_carry.induct)
  case (1 c)
  show ?case
  proof (cases "c AND 0xFFFF0000 \<noteq> 0")
    case True
    have "unat c = 65535 * (unat c div 65536) + (unat c mod 65536 + unat c div 65536)"
      using div_mult_mod_eq [of "unat c" 65536] by linarith
    then have "unat ((c AND 0xFFFF) + drop_bit 16 c) mod 65535 = unat c mod 65535"
      unfolding fold_step by (metis mod_mult_self4)
    moreover have "unat ((c AND 0xFFFF) + drop_bit 16 c) \<noteq> 0" "unat c \<noteq> 0"
      using True has_carry [of c] unfolding fold_step by (simp_all add: div_eq_0_iff)
    ultimately show ?thesis using 1 [OF True] True by (subst fold_carry.simps) (simp add: represents_def)
  next
    case False
    then show ?thesis using has_carry [of c] by (subst fold_carry.simps) (simp add: represents_def)
  qed
qed

section \<open>The loop over the words\<close>

abbreviation (input) words_at :: "rndis \<Rightarrow> nat \<Rightarrow> nat \<Rightarrow> u16 list" where
  "words_at d p n \<equiv> map (\<lambda>i. peek16 d (p + 2 * i)) [0..<n]"

lemma peek_word: "p + 2 \<le> length d \<Longrightarrow> peek p 2 d = Some (take 2 (drop p d)) \<and> peek16 (take 2 (drop p d)) 0 = peek16 d p"
  by (simp add: peek_def peek16_def)

lemma sum_words_from:
  assumes "k \<le> n" "n < 256" "unat N = n" "p + 2 * n \<le> length d"
  shows "sum_words d p N (of_nat k) c = Some (c + (\<Sum>i\<leftarrow>[k..<n]. ucast (peek16 d (p + 2 * i))))"
  using assms(1)
proof (induction "n - k" arbitrary: k c)
  case 0
  then have "k = n" by simp
  moreover have "\<not> ucast (of_nat n :: u8) < N"
    using assms(2,3) by (simp add: word_less_nat_alt unsigned_ucast_eq unsigned_of_nat take_bit_nat_eq_self)
  ultimately show ?case by (subst sum_words.simps) simp
next
  case (Suc m)
  then have k: "k < n" "k < 256" using assms(2) by simp_all
  have u: "unat (of_nat k :: u8) = k" using k(2) by (simp add: unsigned_of_nat take_bit_nat_eq_self)
  have "ucast (of_nat k :: u8) < N" using k(1,2) assms(3) by (simp add: word_less_nat_alt unsigned_ucast_eq unsigned_of_nat take_bit_nat_eq_self)
  moreover have "peek (p + 2 * unat (of_nat k :: u8)) 2 d = Some (take 2 (drop (p + 2 * k) d))"
    using k assms(4) by (simp add: u peek_def)
  moreover have "peek16 (take 2 (drop (p + 2 * k) d)) 0 = peek16 d (p + 2 * k)" using k assms(4) peek_word [of "p + 2 * k" d] by simp
  moreover have "(of_nat k :: u8) + 1 = of_nat (Suc k)" by simp
  moreover have "[k..<n] = k # [Suc k..<n]" using k(1) by (simp add: upt_conv_Cons)
  ultimately show ?case using Suc.hyps(1) [of "Suc k"] Suc.hyps(2) k(1) by (subst sum_words.simps) (simp add: add.assoc del: of_nat_Suc)
qed

text \<open>With 256 words or more the loop does not end.\<close>

lemma sum_words_short:
  assumes "sum_words d p N k c = Some r"
  shows "unat N < 256"
proof (rule sum_words.raw_induct [where P = "\<lambda>d p N k c r. unat N < 256", OF _ assms])
  fix sw :: "rndis \<Rightarrow> nat \<Rightarrow> u16 \<Rightarrow> u8 \<Rightarrow> u32 \<Rightarrow> u32 option" and d p N k c r
  assume IH: "\<And>d p N k c r. sw d p N k c = Some r \<Longrightarrow> unat N < 256"
    and s: "(if ucast k < N then do { w \<leftarrow> peek (p + 2 * unat k) 2 d; sw d p N (k + 1) (c + ucast (peek16 w 0)) } else Some c) = Some r"
  show "unat N < 256"
  proof (cases "ucast k < N")
    case True
    then show ?thesis using IH s by (auto split: bind_splits)
  next
    case False
    have "unat (ucast k :: u16) < 256" by (simp add: unsigned_ucast_eq take_bit_nat_eq_self order_less_le_trans [OF unsigned_less])
    then show ?thesis using False by (simp add: word_less_nat_alt)
  qed
qed

lemma sum_words_forever: "256 \<le> unat N \<Longrightarrow> sum_words d p N k c = None"
  using sum_words_short [of d p N k c] by (cases "sum_words d p N k c") auto

lemma sum_words_value:
  assumes "n < 256" "unat N = n" "p + 2 * n \<le> length d"
  obtains c where "sum_words d p N 0 0 = Some c" "unat c = (\<Sum>w\<leftarrow>words_at d p n. unat w)"
proof
  show "sum_words d p N 0 0 = Some (0 + (\<Sum>i\<leftarrow>[0..<n]. ucast (peek16 d (p + 2 * i))))"
    using sum_words_from [OF _ assms, of 0 0] by simp
  have "unat (\<Sum>i\<leftarrow>xs. ucast (peek16 d (p + 2 * i)) :: u32) = (\<Sum>i\<leftarrow>xs. unat (peek16 d (p + 2 * i)))
      \<and> (\<Sum>i\<leftarrow>xs. unat (peek16 d (p + 2 * i))) \<le> 65535 * length xs" if "length xs < 256" for xs
    using that
  proof (induction xs)
    case (Cons x xs)
    have "unat (peek16 d (p + 2 * x)) \<le> 65535" using unsigned_less [of "peek16 d (p + 2 * x)"] by (simp add: less_Suc_eq_le [symmetric])
    then show ?case using Cons by (simp add: unat_word_ariths unsigned_ucast_eq take_bit_nat_eq_self)
  qed simp
  from this [of "[0..<n]"] show "unat (0 + (\<Sum>i\<leftarrow>[0..<n]. ucast (peek16 d (p + 2 * i)) :: u32)) = (\<Sum>w\<leftarrow>words_at d p n. unat w)"
    using assms(1) by (simp add: comp_def)
qed

section \<open>The checksum\<close>

lemma not_u16: "NOT (w :: u16) = of_nat (65535 - unat w)"
proof -
  have "unat w \<le> 65535" using unsigned_less [of w] by (simp add: less_Suc_eq_le [symmetric])
  then have "(of_nat (65535 - unat w) :: u16) = of_nat 65535 - of_nat (unat w)" by (rule of_nat_diff)
  then show ?thesis by (simp add: not_eq_complement)
qed

lemma unat_half: "unat (drop_bit 1 (N :: u16)) = unat N div 2"
proof -
  have "take_bit 16 (unat N) = unat N" using take_bit_nat_eq_self unsigned_less [of N] by fastforce
  then show ?thesis by (simp only: unsigned_drop_bit_eq) (simp add: drop_bit_eq_div)
qed

lemma checksum_value:
  assumes "unat N div 2 < 256" "p + 2 * (unat N div 2) \<le> length d"
  shows "Ethernet_Checksum16 p N d = Some (of_nat (65535 - ones_sum (words_at d p (unat N div 2))))"
proof -
  let ?n = "unat N div 2"
  note n = unat_half [of N]
  obtain c where c: "sum_words d p (drop_bit 1 N) 0 0 = Some c" "unat c = (\<Sum>w\<leftarrow>words_at d p ?n. unat w)"
    using sum_words_value [OF assms(1) n assms(2)] by blast
  have f: "unat (fold_carry c) = ones_sum (words_at d p ?n)"
    using represents_unique [OF represents_fold [of c] represents_sum [of "words_at d p ?n", folded c(2)]] .
  then have "unat (fold_carry c) < 65536" using represents_sum [of "words_at d p ?n"] by (simp add: represents_def)
  then have "unat (ucast (fold_carry c) :: u16) = ones_sum (words_at d p ?n)"
    by (simp add: f [symmetric] unsigned_ucast_eq take_bit_nat_eq_self)
  then show ?thesis unfolding Ethernet_Checksum16_def c(1) by (simp add: not_u16)
qed

lemma checksum_forever: "512 \<le> unat N \<Longrightarrow> Ethernet_Checksum16 p N d = None"
proof -
  assume "512 \<le> unat N"
  then have "256 \<le> unat (drop_bit 1 N)" unfolding unat_half by linarith
  then show ?thesis by (simp add: Ethernet_Checksum16_def sum_words_forever)
qed

text \<open>
  C27. The checksum against its specification.  For less than 512 bytes it is the complement of the one's
  complement sum of the 16-bit words (RFC 1071), a last odd byte left out; for 512 bytes and more the
  eight-bit loop counter never reaches its bound and the function does not return.
\<close>

theorem checksum_is_ones_complement:
  assumes "p + 2 * (unat N div 2) \<le> length d"
  shows "Ethernet_Checksum16 p N d =
    (if unat N < 512 then Some (of_nat (65535 - ones_sum (words_at d p (unat N div 2)))) else None)"
  using checksum_value [OF _ assms] checksum_forever [of N p d] by simp

theorem checksum_is_ones_complement_witness:
  "Ethernet_Checksum16 1 4 [9, 0xFF, 0xFF, 0x01, 0x00] = Some 0xFFFE"
  using checksum_is_ones_complement [of 1 4 "[9, 0xFF, 0xFF, 0x01, 0x00]"]
  by (simp add: ones_sum_def ones_add_def peek16_def word16_def upt_rec)

section \<open>Acceptance by the receiver\<close>

lemma ones_sum_stored:
  assumes "j < length ws" "ws ! j = 0"
  shows "ones_sum (ws[j := of_nat (65535 - ones_sum ws)]) = 65535"
proof -
  let ?c = "65535 - ones_sum ws" and ?S = "\<Sum>w\<leftarrow>ws. unat w"
  have r: "ones_sum ws < 65536" "ones_sum ws mod 65535 = ?S mod 65535" "ones_sum ws = 0 \<longleftrightarrow> ?S = 0"
    using represents_sum [of ws] by (auto simp: represents_def)
  have c: "unat (of_nat ?c :: u16) = ?c" by (simp add: unsigned_of_nat take_bit_nat_eq_self)
  have "map unat (ws[j := of_nat ?c]) = (map unat ws)[j := ?c]" by (simp add: map_update c)
  then have "(\<Sum>w\<leftarrow>ws[j := of_nat ?c]. unat w) = ?S + ?c" using assms by (simp add: sum_list_update)
  moreover have "(?S + ?c) mod 65535 = 0"
  proof -
    have "(?S + ?c) mod 65535 = (ones_sum ws + ?c) mod 65535" by (rule mod_add_cong) (use r(2) in simp_all)
    then show ?thesis using r(1) by simp
  qed
  moreover have "?S + ?c \<noteq> 0"
  proof (cases "ones_sum ws = 0")
    case True
    then show ?thesis by linarith
  next
    case False
    then show ?thesis unfolding r(3) by linarith
  qed
  ultimately have "represents 65535 (\<Sum>w\<leftarrow>ws[j := of_nat ?c]. unat w)" by (simp add: represents_def)
  then show ?thesis by (rule represents_unique [OF represents_sum])
qed

lemma peek16_upd: "p + length bs \<le> length d \<Longrightarrow> k + 2 \<le> length bs \<Longrightarrow> peek16 (upd p bs d) (p + k) = peek16 bs k"
  by (simp add: peek16_def nth_upd)

lemma peek16_upd_other: "p + length bs \<le> length d \<Longrightarrow> k + 2 \<le> length d \<Longrightarrow> p + length bs \<le> k \<or> k + 2 \<le> p \<Longrightarrow>
    peek16 (upd p bs d) k = peek16 d k"
  by (auto simp: peek16_def nth_upd)

lemma peek16_middle:
  "even (length A) \<Longrightarrow> even k \<Longrightarrow> k + 2 \<le> length (A @ bytes16 c @ B) \<Longrightarrow>
     peek16 (A @ bytes16 c @ B) k = (if k = length A then c else peek16 (A @ bytes16 c' @ B) k)"
  by (auto simp: peek16_def nth_append bytes16_def nth_Cons' elim!: evenE oddE) presburger+

lemma peek16_slice: "take n (drop p d) = bs \<Longrightarrow> n = length bs \<Longrightarrow> k + 2 \<le> n \<Longrightarrow> peek16 d (p + k) = peek16 bs k"
proof -
  assume a: "take n (drop p d) = bs" "n = length bs" "k + 2 \<le> n"
  have "length (take n (drop p d)) = n" using a(1,2) by simp
  then have l: "p \<le> length d" using a(3) by simp
  have "bs ! i = d ! (p + i)" if "i < n" for i unfolding a(1) [symmetric] using that l by simp
  then show ?thesis using a(3) by (simp add: peek16_def)
qed

lemma stored_checksum_accepted:
  assumes "even (length A)" "even (length B)" "p + 2 * (unat N div 2) \<le> length d"
    "length A + 2 + length B \<le> 2 * (unat N div 2)" "take (length A + 2 + length B) (drop p d) = A @ bytes16 0 @ B"
    "Ethernet_Checksum16 p N d = Some c"
  shows "Ethernet_Checksum16 p N (upd p (A @ bytes16 c @ B) d) = Some 0"
proof -
  let ?n = "unat N div 2" and ?j = "length A div 2" and ?d = "upd p (A @ bytes16 c @ B) d"
  have n: "?n < 256" using assms(6) checksum_forever [of N p d] by (cases "512 \<le> unat N") auto
  have len: "p + length (A @ bytes16 c @ B) \<le> length d" using assms(3,4) by simp
  have w: "peek16 ?d (p + 2 * i) = (if i = ?j then c else peek16 d (p + 2 * i))" "i = ?j \<Longrightarrow> peek16 d (p + 2 * i) = 0" if "i < ?n" for i
  proof -
    have j: "2 * i = length A \<longleftrightarrow> i = ?j" using assms(1) by auto
    have i: "p + 2 * i + 2 \<le> length d" using that assms(3) by linarith
    show "i = ?j \<Longrightarrow> peek16 d (p + 2 * i) = 0"
      using peek16_slice [OF assms(5), of "2 * i"] assms(1) peek16_middle [OF assms(1), of "2 * i" 0 B] by simp
    show "peek16 ?d (p + 2 * i) = (if i = ?j then c else peek16 d (p + 2 * i))"
    proof (cases "2 * i + 2 \<le> length A + 2 + length B")
      case True
      then show ?thesis
        using peek16_upd [OF len, of "2 * i"] peek16_middle [OF assms(1), of "2 * i" c B 0] peek16_slice [OF assms(5), of "2 * i"] j by simp
    next
      case False
      then have "p + length (A @ bytes16 c @ B) \<le> p + 2 * i" using assms(1,2) by (simp, presburger)
      moreover have "i \<noteq> ?j" using False j by auto
      ultimately show ?thesis using peek16_upd_other [OF len i] by simp
    qed
  qed
  have jn: "?j < ?n" using assms(1,4) by (auto elim!: evenE)
  have "words_at ?d p ?n = (words_at d p ?n)[?j := c]"
    by (rule nth_equalityI) (use w(1) in \<open>auto simp: nth_list_update\<close>)
  moreover have "words_at d p ?n ! ?j = 0" using w(2) [OF jn] jn by simp
  moreover have "c = of_nat (65535 - ones_sum (words_at d p ?n))" using checksum_value [OF n assms(3)] assms(6) by simp
  ultimately have "ones_sum (words_at ?d p ?n) = 65535" using ones_sum_stored [of ?j "words_at d p ?n"] jn by simp
  then show ?thesis using checksum_value [OF n, of p ?d] assms(3) by simp
qed

lemma length_ip_bytes [simp]: "length (SourceAddress h) = 4 \<Longrightarrow> length (DestinationAddress h) = 4 \<Longrightarrow> length (ip_bytes h) = 20"
  by (simp add: ip_bytes_def)

text \<open>Writing an IP header with its checksum, as the code does it.\<close>

lemma ip_header_accepted:
  assumes "length (SourceAddress h) = 4" "length (DestinationAddress h) = 4" "HeaderChecksum h = 0" "p + 20 \<le> length d"
  shows "\<exists>c. Ethernet_Checksum16 p 20 (upd p (ip_bytes h) d) = Some c \<and>
    Ethernet_Checksum16 p 20 (upd p (ip_bytes (h\<lparr>HeaderChecksum := c\<rparr>)) (upd p (ip_bytes h) d)) = Some 0"
proof -
  let ?d = "upd p (ip_bytes h) d"
  define A where "A = [HeaderLength h AND 0x0F OR push_bit 4 (IP_Header_t.Version h), TypeOfService h] @ bytes16 (TotalLength h) @
     bytes16 (Identification h) @ bytes16 (FragmentOffset h AND 0x1FFF OR push_bit 13 (ucast (FragmentFlags h))) @
     [TTL h, Protocol h]"
  define B where "B = SourceAddress h @ DestinationAddress h"
  have s: "ip_bytes (h\<lparr>HeaderChecksum := c\<rparr>) = A @ bytes16 c @ B" for c by (simp add: ip_bytes_def A_def B_def)
  have l: "length A = 10" "length B = 8" using assms(1,2) by (simp_all add: A_def B_def)
  have h0: "h\<lparr>HeaderChecksum := 0\<rparr> = h" using assms(3) by simp
  have "length (ip_bytes h) = 20" using assms(1,2) by simp
  then have sl: "take 20 (drop p ?d) = A @ bytes16 0 @ B" using slice_upd [of p "ip_bytes h" d] assms(4) s [of 0] unfolding h0 by simp
  obtain c where c: "Ethernet_Checksum16 p 20 ?d = Some c" using checksum_value [of 20 p ?d] assms(4) by simp
  have "Ethernet_Checksum16 p 20 (upd p (A @ bytes16 c @ B) ?d) = Some 0"
    by (rule stored_checksum_accepted) (use l sl c assms(4) in simp_all)
  then show ?thesis using c unfolding s [symmetric] by blast
qed

end
