(* ===== verification/Net_Ping.thy ===== *)
theory Net_Ping
  imports Net_Checksum
begin

text \<open>
  Frames in the memory of the class driver, and the answer to an echo request: from the bytes the host
  sends over the bulk endpoint to the bytes it gets back.
\<close>

section \<open>Bytes in memory\<close>

definition holds_at :: "nat \<Rightarrow> u8 list \<Rightarrow> rndis \<Rightarrow> bool" where
  "holds_at p bs d \<longleftrightarrow> p + length bs \<le> length d \<and> take (length bs) (drop p d) = bs"

lemma holds_append: "holds_at p (xs @ ys) d \<longleftrightarrow> holds_at p xs d \<and> holds_at (p + length xs) ys d"
  by (auto simp: holds_at_def take_add add.commute)

lemma holds_upd: "p + length bs \<le> length d \<Longrightarrow> holds_at p bs (upd p bs d)"
  by (simp add: holds_at_def)

lemma holds_upd_other:
  "holds_at p xs d \<Longrightarrow> a + length bs \<le> p \<or> p + length xs \<le> a \<Longrightarrow> holds_at p xs (upd a bs d)"
proof -
  assume h: "holds_at p xs d" and s: "a + length bs \<le> p \<or> p + length xs \<le> a"
  have l: "p + length xs \<le> length d" using h by (simp add: holds_at_def)
  have "take (length xs) (drop p (upd a bs d)) = take (length xs) (drop p d)"
  proof (cases "a + length bs \<le> length d")
    case True
    then show ?thesis using l s by (intro nth_equalityI) (auto simp: nth_upd)
  qed (simp add: upd_def)
  then show ?thesis using h by (simp add: holds_at_def)
qed

lemma holds_peek: "holds_at p xs d \<Longrightarrow> n = length xs \<Longrightarrow> peek p n d = Some xs"
  by (simp add: holds_at_def peek_def)

lemma holds_peek16: "holds_at p xs d \<Longrightarrow> k + 2 \<le> length xs \<Longrightarrow> peek16 d (p + k) = peek16 xs k"
  unfolding holds_at_def using peek16_slice [of "length xs" p d xs k] by blast

lemma peek16_bytes16 [simp]: "peek16 (bytes16 v) 0 = v"
  by (simp add: peek16_def bytes16_def)

lemma poke_some: "poke a bs d = Some e \<longleftrightarrow> a + length bs \<le> length d \<and> e = upd a bs d"
  by (auto simp: poke_def upd_def)

lemma peek_some: "peek a n d = Some bs \<longleftrightarrow> a + n \<le> length d \<and> bs = take n (drop a d)"
  by (auto simp: peek_def)

section \<open>Headers\<close>

lemma ethernet_of_bytes:
  "length (Destination h) = 6 \<Longrightarrow> length (Source h) = 6 \<Longrightarrow> ethernet_of (ethernet_bytes h) = h"
  by (simp add: ethernet_of_def ethernet_bytes_def peek16_def nth_append bytes16_def)

lemma length_ethernet [simp]: "length (Destination h) = 6 \<Longrightarrow> length (Source h) = 6 \<Longrightarrow> length (ethernet_bytes h) = 14"
  by (simp add: ethernet_bytes_def)

lemma icmp_of_bytes: "icmp_of (icmp_bytes h) = h"
  by (simp add: icmp_of_def icmp_bytes_def peek16_def bytes16_def)

lemma length_icmp [simp]: "length (icmp_bytes h) = 8"
  by (simp add: icmp_bytes_def)

lemma low_nibble_kept: "(v :: u8) < 16 \<Longrightarrow> (v AND 0x0F OR push_bit 4 w) AND 0x0F = v"
proof -
  assume "v < 16"
  then have "take_bit 4 v = v" by (simp add: take_bit_eq_mask less_mask_eq)
  moreover have m: "(0x0F :: u8) = mask 4" by (simp add: mask_eq_exp_minus_1)
  have "(v AND 0x0F OR push_bit 4 w) AND 0x0F = take_bit 4 v"
    unfolding m by (rule bit_word_eqI) (auto simp: bit_simps)
  ultimately show ?thesis by simp
qed

lemma ip_of_bytes:
  assumes "length (SourceAddress h) = 4" "length (DestinationAddress h) = 4" "HeaderLength h < 16"
  shows "HeaderLength (ip_of (ip_bytes h)) = HeaderLength h" "Protocol (ip_of (ip_bytes h)) = Protocol h"
    "SourceAddress (ip_of (ip_bytes h)) = SourceAddress h" "DestinationAddress (ip_of (ip_bytes h)) = DestinationAddress h"
    "TotalLength (ip_of (ip_bytes h)) = TotalLength h"
  using assms by (simp_all add: ip_of_def ip_bytes_def bytes16_def peek16_def low_nibble_kept)

lemmas addresses = ServerMACAddress_def BroadcastMACAddress_def ServerIPAddress_def BroadcastIPAddress_def ClientIPAddress_def

lemma length_addresses [simp]: "length ServerMACAddress = 6" "length ServerIPAddress = 4" "length ClientIPAddress = 4"
  by (simp_all add: addresses)

text \<open>Every response of the IP layer carries a header checksum that its receiver accepts.\<close>

lemma ip_response_lengths:
  "length bs = 20 \<Longrightarrow> length (SourceAddress (ip_response_header (ip_of bs) r)) = 4"
  "length bs = 20 \<Longrightarrow> length (DestinationAddress (ip_response_header (ip_of bs) r)) = 4"
  "HeaderChecksum (ip_response_header h r) = 0"
  by (simp_all add: ip_response_header_def ip_of_def)

text \<open>
  C28. IP responses are accepted.  Whatever packet is processed, with whatever protocol inside: when the IP
  layer returns a response, the checksum its receiver computes over the response header, stored
  checksum included, is zero.
\<close>

theorem ip_response_accepted:
  assumes "IP_ProcessIPPacket FrameIN In Out d t = Some (r, d', t')" "is_response r"
  shows "Ethernet_Checksum16 Out 20 d' = Some 0"
proof -
  obtain n e bs c where e: "peek In sizeof_IP e = Some bs" "poke Out (ip_bytes (ip_response_header (ip_of bs) n)) e = Some c"
    "Option.bind (Ethernet_Checksum16 Out 20 c)
       (\<lambda>s. poke Out (ip_bytes ((ip_response_header (ip_of bs) n)\<lparr>HeaderChecksum := s\<rparr>)) c) = Some d'"
    using assms by (auto simp: IP_ProcessIPPacket_def Let_def is_response_def split: bind_splits if_splits prod.splits)
  have l: "length bs = 20" using e(1) by (auto simp: peek_some)
  have p: "Out + 20 \<le> length e" "c = upd Out (ip_bytes (ip_response_header (ip_of bs) n)) e"
    using e(2) ip_response_lengths(1,2) [OF l] by (simp_all add: poke_some)
  obtain x where "Ethernet_Checksum16 Out 20 c = Some x"
    "Ethernet_Checksum16 Out 20 (upd Out (ip_bytes ((ip_response_header (ip_of bs) n)\<lparr>HeaderChecksum := x\<rparr>)) c) = Some 0"
    using ip_header_accepted [OF ip_response_lengths(1,2) [OF l] ip_response_lengths(3) p(1), of n] p(2) by blast
  then show ?thesis using e(3) by (auto simp: poke_some)
qed

text \<open>The checksum depends on the bytes only.\<close>

lemma checksum_slice:
  assumes "take (unat N) (drop p d) = take (unat N) (drop q e)" "p + unat N \<le> length d" "q + unat N \<le> length e" "unat N < 512"
  shows "Ethernet_Checksum16 p N d = Ethernet_Checksum16 q N e"
proof -
  have l: "p + 2 * (unat N div 2) \<le> length d" "q + 2 * (unat N div 2) \<le> length e" "unat N div 2 < 256" using assms(2-4) by auto
  have n: "d ! (p + k) = e ! (q + k)" if "k < unat N" for k
    using that assms(2,3) arg_cong [OF assms(1), of "\<lambda>xs. xs ! k"] by simp
  have w: "words_at d p (unat N div 2) = words_at e q (unat N div 2)"
  proof (rule map_cong [OF refl])
    fix i assume "i \<in> set [0..<unat N div 2]"
    then have "2 * i + 1 < unat N" by simp
    then show "peek16 d (p + 2 * i) = peek16 e (q + 2 * i)" using n [of "2 * i"] n [of "2 * i + 1"] by (simp add: peek16_def)
  qed
  show ?thesis unfolding checksum_value [OF l(3,1)] checksum_value [OF l(3,2)] w ..
qed

section \<open>Overwriting memory\<close>

lemma upd_again: "length xs = length ys \<Longrightarrow> p + length xs \<le> length d \<Longrightarrow> upd p xs (upd p ys d) = upd p xs d"
  by (rule nth_equalityI) (auto simp: nth_upd)

lemma upd_before: "p + length xs + length ys \<le> length d \<Longrightarrow> upd p xs (upd (p + length xs) ys d) = upd p (xs @ ys) d"
  by (rule nth_equalityI) (auto simp: nth_upd nth_append)

lemma upd_behind: "p + length xs + length ys \<le> length d \<Longrightarrow> upd (p + length xs) ys (upd p xs d) = upd p (xs @ ys) d"
  by (rule nth_equalityI) (auto simp: nth_upd nth_append)

section \<open>The echo reply\<close>

definition echo_header :: "ICMP_Header_t \<Rightarrow> u16 \<Rightarrow> ICMP_Header_t" where
  "echo_header h c = \<lparr>ICMP_Header_t.Type = ICMP_TYPE_ECHOREPLY, Code = 0, ICMP_Header_t.Checksum = c, Id = Id h, Sequence = Sequence h\<rparr>"

lemma icmp_echo:
  assumes "holds_at p (icmp_bytes h @ data) d" "ICMP_Header_t.Type h = ICMP_TYPE_ECHOREQUEST"
    "peek16 d (F + 1500) - of_nat (p + 8 - F) = of_nat (length data)" "length data < 504"
    "p + 8 + length data \<le> q" "F + 1502 \<le> q" "q + 8 + length data \<le> length d"
  obtains c where
    "ICMP_ProcessICMPPacket F p q d = Some (of_nat (8 + length data), upd q (icmp_bytes (echo_header h c) @ data) d)"
    "even (length data) \<Longrightarrow> Ethernet_Checksum16 q (of_nat (8 + length data)) (upd q (icmp_bytes (echo_header h c) @ data) d) = Some 0"
proof -
  let ?n = "of_nat (8 + length data) :: u16" and ?e = "upd q (icmp_bytes (echo_header h 0)) d"
  have n: "unat ?n = 8 + length data" using assms(4) by (simp add: unsigned_of_nat take_bit_nat_eq_self del: of_nat_add)
  have m: "unat (of_nat (length data) :: u16) = length data" using assms(4) by (simp add: unsigned_of_nat take_bit_nat_eq_self)
  have hd: "peek p 8 d = Some (icmp_bytes h)" "holds_at (p + 8) data d"
    using assms(1) holds_peek [of p "icmp_bytes h" d] by (simp_all add: holds_append)
  have q8: "q + length (icmp_bytes (echo_header h 0)) \<le> length d" using assms(7) by simp
  have e: "poke q (icmp_bytes (echo_header h 0)) d = Some ?e" using q8 by (simp add: poke_some)
  have len: "peek16 ?e (F + 1500) = peek16 d (F + 1500)" by (rule peek16_upd_other [OF q8]) (use assms(6,7) in simp_all)
  have "holds_at (p + 8) data ?e" by (rule holds_upd_other [OF hd(2)]) (use assms(5) in simp)
  then have pl: "peek (p + 8) (length data) ?e = Some data" by (rule holds_peek) simp
  define g where "g = upd (q + 8) data ?e"
  have g: "poke (q + 8) data ?e = Some g" using assms(7) by (simp add: poke_some g_def)
  have gd: "g = upd q (icmp_bytes (echo_header h 0) @ data) d"
    using upd_behind [of q "icmp_bytes (echo_header h 0)" data d] assms(7) by (simp add: g_def)
  obtain c where c: "Ethernet_Checksum16 q ?n g = Some c"
    using checksum_value [of ?n q g] assms(4,7) unfolding n gd by simp
  have "upd q (icmp_bytes (echo_header h c)) g = upd q (icmp_bytes (echo_header h c) @ data) d"
    unfolding gd by (rule nth_equalityI) (use assms(7) in \<open>auto simp: nth_upd nth_append\<close>)
  then have f: "poke q (icmp_bytes (echo_header h c)) g = Some (upd q (icmp_bytes (echo_header h c) @ data) d)"
    using assms(7) gd by (simp add: poke_some)
  have s: "(of_nat (length data) :: u16) + of_nat 8 = ?n" by simp
  have l: "peek16 ?e (F + 1500) - of_nat (p + 8 - F) = of_nat (length data)" unfolding len by (rule assms(3))
  have 1: "ICMP_ProcessICMPPacket F p q d = Some (?n, upd q (icmp_bytes (echo_header h c) @ data) d)"
    using e l m pl g s c f unfolding echo_header_def
    by (simp only: ICMP_ProcessICMPPacket_def Let_def hd(1) icmp_of_bytes assms(2) bind.bind_lunit simp_thms if_True ICMP_Header_t.simps)
  have "Ethernet_Checksum16 q ?n (upd q (icmp_bytes (echo_header h c) @ data) d) = Some 0" if "even (length data)"
  proof -
    let ?B = "bytes16 (Id h) @ bytes16 (Sequence h)"
    have s: "icmp_bytes (echo_header h c) = [0, 0] @ bytes16 c @ ?B" for c by (simp add: icmp_bytes_def echo_header_def)
    have "holds_at q (icmp_bytes (echo_header h 0)) g"
      using holds_upd [of q "icmp_bytes (echo_header h 0) @ data" d] assms(7) by (simp add: gd holds_append)
    then have "take 8 (drop q g) = [0, 0] @ bytes16 0 @ ?B" using s [of 0] by (simp add: holds_at_def)
    then have "Ethernet_Checksum16 q ?n (upd q ([0, 0] @ bytes16 c @ ?B) g) = Some 0"
      by (intro stored_checksum_accepted) (use n c gd that assms(7) in simp_all)
    moreover have "upd q (icmp_bytes (echo_header h c)) g = upd q (icmp_bytes (echo_header h c) @ data) d"
      using f by (simp add: poke_some)
    ultimately show ?thesis unfolding s by simp
  qed
  with 1 show thesis by (rule that)
qed

text \<open>Around it the IP header, and around that the Ethernet header.\<close>

definition ip_addressed :: "IP_Header_t \<Rightarrow> bool" where
  "ip_addressed h \<longleftrightarrow> length (SourceAddress h) = 4 \<and> length (DestinationAddress h) = 4 \<and> HeaderLength h = 5 \<and>
     (DestinationAddress h = ServerIPAddress \<or> DestinationAddress h = BroadcastIPAddress)"

lemma ip_addressed_of:
  assumes "ip_addressed h"
  shows "length (ip_bytes h) = 20" "HeaderLength (ip_of (ip_bytes h)) = 5" "Protocol (ip_of (ip_bytes h)) = Protocol h"
    "DestinationAddress (ip_of (ip_bytes h)) = DestinationAddress h" "SourceAddress (ip_of (ip_bytes h)) = SourceAddress h"
    "ip_response_header (ip_of (ip_bytes h)) r = ip_response_header h r"
    "length (ip_bytes ((ip_response_header h r)\<lparr>HeaderChecksum := c\<rparr>)) = 20"
  using assms ip_of_bytes [of h] by (simp_all add: ip_addressed_def ip_response_header_def)

lemma small_response: "0 < n \<Longrightarrow> n < 32768 \<Longrightarrow> is_response (of_nat n)"
proof -
  assume n: "0 < n" "n < 32768"
  then have "sint (of_nat n :: u16) = int n"
    by (simp add: signed_of_nat signed_take_bit_int_eq_self)
  then show ?thesis using n by (simp add: is_response_def)
qed

text \<open>What the IP layer adds to a response of \<open>n\<close> bytes behind its header.\<close>

definition ip_reply :: "IP_Header_t \<Rightarrow> nat \<Rightarrow> u16 \<Rightarrow> u8 list" where
  "ip_reply h n c = ip_bytes ((ip_response_header h (of_nat n))\<lparr>HeaderChecksum := c\<rparr>)"

lemma finish_ip:
  assumes "ip_addressed h" "holds_at p (ip_bytes h) e" "e = upd (q + 20) bs d" "0 < length bs" "length bs < 32000"
    "q + 20 + length bs \<le> length d"
  obtains c where
    "do {
       bs' \<leftarrow> peek p 20 e;
       let hd = ip_response_header (ip_of bs') (of_nat (length bs));
       d \<leftarrow> poke q (ip_bytes hd) e;
       c \<leftarrow> Ethernet_Checksum16 q (of_nat sizeof_IP) d;
       d \<leftarrow> poke q (ip_bytes (hd\<lparr>HeaderChecksum := c\<rparr>)) d;
       Some (of_nat sizeof_IP + of_nat (length bs) :: u16, d, t)
     } = Some (of_nat (20 + length bs), upd q (ip_reply h (length bs) c @ bs) d, t)"
    "Ethernet_Checksum16 q 20 (upd q (ip_reply h (length bs) c @ bs) d) = Some 0"
proof -
  let ?h = "ip_response_header h (of_nat (length bs))"
  have h: "length (SourceAddress ?h) = 4" "length (DestinationAddress ?h) = 4" "HeaderChecksum ?h = 0"
    using assms(1) by (simp_all add: ip_addressed_def ip_response_header_def)
  have le: "q + 20 \<le> length e" using assms(3,6) by simp
  obtain c where c: "Ethernet_Checksum16 q 20 (upd q (ip_bytes ?h) e) = Some c"
    "Ethernet_Checksum16 q 20 (upd q (ip_bytes (?h\<lparr>HeaderChecksum := c\<rparr>)) (upd q (ip_bytes ?h) e)) = Some 0"
    using ip_header_accepted [OF h le] by blast
  have "length (ip_bytes (?h\<lparr>HeaderChecksum := c\<rparr>)) = 20" "length (ip_bytes ?h) = 20" using h by simp_all
  then have u: "upd q (ip_bytes (?h\<lparr>HeaderChecksum := c\<rparr>)) (upd q (ip_bytes ?h) e) = upd q (ip_reply h (length bs) c @ bs) d"
    using upd_again [of "ip_bytes (?h\<lparr>HeaderChecksum := c\<rparr>)" "ip_bytes ?h" q e] le
      upd_before [of q "ip_bytes (?h\<lparr>HeaderChecksum := c\<rparr>)" bs d] assms(3,6) by (simp add: ip_reply_def)
  have p: "peek p 20 e = Some (ip_bytes h)" by (rule holds_peek [OF assms(2)]) (simp add: ip_addressed_of [OF assms(1)])
  have "poke q (ip_bytes ?h) e = Some (upd q (ip_bytes ?h) e)" "poke q (ip_bytes (?h\<lparr>HeaderChecksum := c\<rparr>)) (upd q (ip_bytes ?h) e) =
      Some (upd q (ip_bytes (?h\<lparr>HeaderChecksum := c\<rparr>)) (upd q (ip_bytes ?h) e))"
    using h le by (simp_all add: poke_some)
  then show thesis using that [of c] c u p by (simp add: ip_addressed_of [OF assms(1)] Let_def)
qed

lemma ip_echo:
  assumes "ip_addressed h" "Protocol h = PROTOCOL_ICMP" "ICMP_Header_t.Type ih = ICMP_TYPE_ECHOREQUEST"
    "holds_at p (ip_bytes h @ icmp_bytes ih @ data) d"
    "peek16 d (F + 1500) - of_nat (p + 28 - F) = of_nat (length data)" "length data < 504"
    "p + 28 + length data \<le> q" "F + 1502 \<le> q" "q + 28 + length data \<le> length d"
  obtains c c2 where
    "IP_ProcessIPPacket F p q d t = Some (of_nat (28 + length data),
       upd q (ip_reply h (8 + length data) c @ icmp_bytes (echo_header ih c2) @ data) d, t)"
    "Ethernet_Checksum16 q 20 (upd q (ip_reply h (8 + length data) c @ icmp_bytes (echo_header ih c2) @ data) d) = Some 0"
    "even (length data) \<Longrightarrow> Ethernet_Checksum16 (q + 20) (of_nat (8 + length data))
       (upd q (ip_reply h (8 + length data) c @ icmp_bytes (echo_header ih c2) @ data) d) = Some 0"
proof -
  note ia = ip_addressed_of [OF assms(1)]
  have "holds_at (p + 20) (icmp_bytes ih @ data) d" "holds_at p (ip_bytes h) d" using assms(4) by (simp_all add: holds_append [of p "ip_bytes h"] ia)
  then have hp: "holds_at (p + 20) (icmp_bytes ih @ data) d" "holds_at p (ip_bytes h) d" .
  obtain c2 where i: "ICMP_ProcessICMPPacket F (p + 20) (q + 20) d =
      Some (of_nat (8 + length data), upd (q + 20) (icmp_bytes (echo_header ih c2) @ data) d)"
    "even (length data) \<Longrightarrow> Ethernet_Checksum16 (q + 20) (of_nat (8 + length data)) (upd (q + 20) (icmp_bytes (echo_header ih c2) @ data) d) = Some 0"
    by (rule icmp_echo [OF hp(1) assms(3), of F "q + 20"]) (use assms(5-9) in \<open>simp_all add: add.commute\<close>)
  let ?bs = "icmp_bytes (echo_header ih c2) @ data"
  have h: "holds_at p (ip_bytes h) (upd (q + 20) ?bs d)" by (rule holds_upd_other [OF hp(2)]) (use assms(7) ia in simp)
  have l: "length ?bs = 8 + length data" by simp
  obtain c where c: "do {
       bs' \<leftarrow> peek p 20 (upd (q + 20) ?bs d);
       let hd = ip_response_header (ip_of bs') (of_nat (length ?bs));
       d \<leftarrow> poke q (ip_bytes hd) (upd (q + 20) ?bs d);
       c \<leftarrow> Ethernet_Checksum16 q (of_nat sizeof_IP) d;
       d \<leftarrow> poke q (ip_bytes (hd\<lparr>HeaderChecksum := c\<rparr>)) d;
       Some (of_nat sizeof_IP + of_nat (length ?bs) :: u16, d, t)
     } = Some (of_nat (20 + length ?bs), upd q (ip_reply h (length ?bs) c @ ?bs) d, t)"
    "Ethernet_Checksum16 q 20 (upd q (ip_reply h (length ?bs) c @ ?bs) d) = Some 0"
    by (rule finish_ip [OF assms(1) h refl, of t]) (use assms(6,9) in simp_all)
  show thesis
  proof (rule that [of c c2])
    have r: "is_response (of_nat (8 + length data))" by (rule small_response) (use assms(6) in simp_all)
    have dest: "DestinationAddress h = ServerIPAddress \<or> DestinationAddress h = BroadcastIPAddress"
      using assms(1) by (simp add: ip_addressed_def)
    have t: "peek p 20 d = Some (ip_bytes h)" by (rule holds_peek [OF hp(2)]) (simp add: ia)
    show "IP_ProcessIPPacket F p q d t = Some (of_nat (28 + length data), upd q (ip_reply h (8 + length data) c @ ?bs) d, t)"
      using dest by (elim disjE) (use assms(2) c(1) i(1) r in \<open>simp_all add: IP_ProcessIPPacket_def t ia l Let_def\<close>)
    show "Ethernet_Checksum16 q 20 (upd q (ip_reply h (8 + length data) c @ ?bs) d) = Some 0" using c(2) unfolding l .
    show "Ethernet_Checksum16 (q + 20) (of_nat (8 + length data)) (upd q (ip_reply h (8 + length data) c @ ?bs) d) = Some 0" if "even (length data)"
    proof -
      let ?f = "upd q (ip_reply h (8 + length data) c @ ?bs) d"
      have "?f = upd q (ip_reply h (8 + length data) c) (upd (q + 20) ?bs d)"
        using upd_before [of q "ip_reply h (8 + length data) c" ?bs d] assms(9) by (simp add: ip_reply_def ia)
      then have "drop (q + 20) ?f = drop (q + 20) (upd (q + 20) ?bs d)" by (simp add: ip_reply_def ia)
      then show ?thesis
        using checksum_slice [of "of_nat (8 + length data)" "q + 20" ?f "q + 20" "upd (q + 20) ?bs d"] i(2) [OF that] assms(6,9)
        by (simp add: unsigned_of_nat take_bit_nat_eq_self del: of_nat_add)
    qed
  qed
qed

section \<open>Whole frames\<close>

definition echo_request :: "MAC_Address_t \<Rightarrow> IP_Header_t \<Rightarrow> ICMP_Header_t \<Rightarrow> u8 list \<Rightarrow> u8 list" where
  "echo_request mac h ih data =
     ethernet_bytes \<lparr>Destination = ServerMACAddress, Source = mac, EtherType = SwapEndian_16 ETHERTYPE_IPV4\<rparr> @
     ip_bytes h @ icmp_bytes ih @ data"

definition echo_reply :: "MAC_Address_t \<Rightarrow> IP_Header_t \<Rightarrow> ICMP_Header_t \<Rightarrow> u8 list \<Rightarrow> u16 \<Rightarrow> u16 \<Rightarrow> u8 list" where
  "echo_reply mac h ih data c c2 =
     ethernet_bytes \<lparr>Destination = mac, Source = ServerMACAddress, EtherType = SwapEndian_16 ETHERTYPE_IPV4\<rparr> @
     ip_reply h (8 + length data) c @ icmp_bytes (echo_header ih c2) @ data"

text \<open>A request for the device: the frame is addressed to it and of a length it does not drop.\<close>

definition good_request :: "MAC_Address_t \<Rightarrow> IP_Header_t \<Rightarrow> ICMP_Header_t \<Rightarrow> u8 list \<Rightarrow> bool" where
  "good_request mac h ih data \<longleftrightarrow> length mac = 6 \<and> ip_addressed h \<and> Protocol h = PROTOCOL_ICMP \<and>
     ICMP_Header_t.Type ih = ICMP_TYPE_ECHOREQUEST \<and> length data < 504 \<and>
     SwapEndian_16 (of_nat (42 + length data)) > ETHERNET_VER2_MINSIZE"

lemma length_frames:
  "length mac = 6 \<Longrightarrow> ip_addressed h \<Longrightarrow> length (echo_request mac h ih data) = 42 + length data"
  "length mac = 6 \<Longrightarrow> ip_addressed h \<Longrightarrow> length (echo_reply mac h ih data c c2) = 42 + length data"
  by (simp_all add: echo_request_def echo_reply_def ip_reply_def ip_addressed_of)

lemma type_swapped: "SwapEndian_16 (SwapEndian_16 v) = v"
  by (metis SwapEndian_16_word bytes_ex16)

lemma frame_echo:
  assumes "good_request mac h ih data" "length d = sizeof_State" "holds_at o_FrameIN (echo_request mac h ih data) d"
    "peek16 d (o_FrameIN + o_FrameLength) = of_nat (42 + length data)"
  obtains c c2 where
    "Ethernet_ProcessPacket o_FrameIN o_FrameOUT d t = Some (upd 1636 [0] (upd 3139 [1] (upd 3137 (bytes16 (of_nat (42 + length data)))
       (upd o_FrameOUT (echo_reply mac h ih data c c2) d))), t)"
    "Ethernet_Checksum16 14 20 (echo_reply mac h ih data c c2) = Some 0"
    "even (length data) \<Longrightarrow> Ethernet_Checksum16 34 (of_nat (8 + length data)) (echo_reply mac h ih data c c2) = Some 0"
proof -
  let ?eh = "\<lparr>Destination = ServerMACAddress, Source = mac, EtherType = SwapEndian_16 ETHERTYPE_IPV4\<rparr>"
  let ?oh = "\<lparr>Destination = mac, Source = ServerMACAddress, EtherType = SwapEndian_16 ETHERTYPE_IPV4\<rparr>"
  have g: "length mac = 6" "ip_addressed h" "Protocol h = PROTOCOL_ICMP" "ICMP_Header_t.Type ih = ICMP_TYPE_ECHOREQUEST"
    "length data < 504" "SwapEndian_16 (of_nat (42 + length data)) > ETHERNET_VER2_MINSIZE"
    using assms(1) by (simp_all add: good_request_def)
  have le: "length (ethernet_bytes ?eh) = 14" "length (ethernet_bytes ?oh) = 14" using g(1) by simp_all
  have hp: "holds_at 134 (ethernet_bytes ?eh) d" "holds_at 148 (ip_bytes h @ icmp_bytes ih @ data) d"
    using assms(3) le unfolding echo_request_def holds_append [of 134 "ethernet_bytes ?eh"] by simp_all
  have n: "peek16 d (134 + 1500) - of_nat (148 + 28 - 134) = of_nat (length data)" using assms(4) by simp
  obtain c c2 where c: "IP_ProcessIPPacket 134 148 1651 d t = Some (of_nat (28 + length data),
       upd 1651 (ip_reply h (8 + length data) c @ icmp_bytes (echo_header ih c2) @ data) d, t)"
    "Ethernet_Checksum16 1651 20 (upd 1651 (ip_reply h (8 + length data) c @ icmp_bytes (echo_header ih c2) @ data) d) = Some 0"
    "even (length data) \<Longrightarrow> Ethernet_Checksum16 (1651 + 20) (of_nat (8 + length data))
       (upd 1651 (ip_reply h (8 + length data) c @ icmp_bytes (echo_header ih c2) @ data) d) = Some 0"
    by (rule ip_echo [OF g(2-4) hp(2) n g(5), of 1651 t]) (use g(5) assms(2) in simp_all)
  let ?bs = "ip_reply h (8 + length data) c @ icmp_bytes (echo_header ih c2) @ data" and ?r = "echo_reply mac h ih data c c2"
  let ?e = "upd 1651 ?bs d"
  have lb: "length ?bs = 28 + length data" by (simp add: ip_reply_def ip_addressed_of [OF g(2)])
  have r: "is_response (of_nat (28 + length data))" by (rule small_response) (use g(5) in simp_all)
  have p: "peek 134 14 d = Some (ethernet_bytes ?eh)" by (rule holds_peek [OF hp(1)]) (use le in simp)
  have f: "frame_accepted ?eh (of_nat (42 + length data))" using g(6) by (simp add: frame_accepted_def)
  have u: "upd 1637 (ethernet_bytes ?oh) ?e = upd 1637 ?r d"
    using upd_before [of 1637 "ethernet_bytes ?oh" ?bs d] le lb g(5) assms(2) by (simp add: echo_reply_def)
  have k: "poke 1637 (ethernet_bytes ?oh) ?e = Some (upd 1637 ?r d)" using u le assms(2) by (simp add: poke_some)
  have np: "of_nat (28 + length data) \<noteq> (0xFFFF :: u16)" using r by (auto simp: is_response_def)
  have s: "(of_nat 14 :: u16) + of_nat (28 + length data) = of_nat (42 + length data)" by simp
  have eo: "ethernet_of (ethernet_bytes ?eh) = ?eh" by (rule ethernet_of_bytes) (use g(1) in simp_all)
  have fin: "Ethernet_ProcessPacket 134 1637 d t = Some (upd 1636 [0] (upd 3139 [1] (upd 3137 (bytes16 (of_nat (42 + length data))) (upd 1637 ?r d))), t)"
    using c(1) f k r np s assms(2,4)
    by (simp add: Ethernet_ProcessPacket_def Let_def p eo type_swapped del: of_nat_add)
  have same: "take m (drop (14 + j) ?r) = take m (drop (1651 + j) ?e)" if "j + m \<le> length ?bs" for j m
  proof -
    have "take (length ?bs) (drop 1651 ?e) = ?bs" by (rule slice_upd) (use lb g(5) assms(2) in simp)
    then have "take m (drop j ?bs) = take m (drop j (take (length ?bs) (drop 1651 ?e)))" by simp
    also have "\<dots> = take m (drop (1651 + j) ?e)" using that by (simp add: drop_take min_def add.commute)
    finally show ?thesis using le by (simp add: echo_reply_def)
  qed
  show thesis
  proof (rule that [OF fin])
    show "Ethernet_Checksum16 14 20 ?r = Some 0"
      using checksum_slice [of 20 14 ?r 1651 ?e] same [of 0 20] c(2) lb length_frames(2) [OF g(1,2)] assms(2) by simp
    show "Ethernet_Checksum16 34 (of_nat (8 + length data)) ?r = Some 0" if "even (length data)"
      using checksum_slice [of "of_nat (8 + length data)" 34 ?r 1671 ?e] same [of 20 "8 + length data"] c(3) [OF that] lb
        length_frames(2) [OF g(1,2)] assms(2) g(5)
      by (simp add: unsigned_of_nat take_bit_nat_eq_self del: of_nat_add)
  qed
qed

text \<open>The memory after a frame was received, and after a response was built.\<close>

lemma received_memory:
  assumes "length d = sizeof_State" "length q \<le> ETHERNET_FRAME_SIZE_MAX"
  shows "holds_at o_FrameIN q (upd 1636 [1] (upd 1634 (bytes16 v) (upd o_FrameIN q d)))"
    "peek16 (upd 1636 [1] (upd 1634 (bytes16 v) (upd o_FrameIN q d))) (o_FrameIN + o_FrameLength) = v"
proof -
  have h: "holds_at 134 q (upd 134 q d)" by (rule holds_upd) (use assms in simp)
  show "holds_at o_FrameIN q (upd 1636 [1] (upd 1634 (bytes16 v) (upd o_FrameIN q d)))"
    by (rule holds_upd_other [OF holds_upd_other [OF h]]) (use assms(2) in simp_all)
  have "peek16 (upd 1636 [1] (upd 1634 (bytes16 v) (upd o_FrameIN q d))) 1634 = peek16 (upd 1634 (bytes16 v) (upd o_FrameIN q d)) 1634"
    by (rule peek16_upd_other) (use assms in simp_all)
  then show "peek16 (upd 1636 [1] (upd 1634 (bytes16 v) (upd o_FrameIN q d))) (o_FrameIN + o_FrameLength) = v"
    using peek16_upd [of 1634 "bytes16 v" "upd o_FrameIN q d" 0] assms by simp
qed

lemma answered_memory:
  assumes "length d = sizeof_State" "length r \<le> ETHERNET_FRAME_SIZE_MAX" "unat v = length r"
    "e = upd 1636 [0] (upd 3139 [1] (upd 3137 (bytes16 v) (upd o_FrameOUT r d)))"
  shows "length e = sizeof_State" "e ! (o_FrameIN + o_FrameInBuffer) = 0" "e ! (o_FrameOUT + o_FrameInBuffer) \<noteq> 0"
    "peek16 e (o_FrameOUT + o_FrameLength) = v" "frame_out e = r"
proof -
  show "length e = sizeof_State" "e ! (o_FrameIN + o_FrameInBuffer) = 0" "e ! (o_FrameOUT + o_FrameInBuffer) \<noteq> 0"
    using assms(1,4) by (simp_all add: nth_upd)
  have "peek16 e 3137 = peek16 (upd 3137 (bytes16 v) (upd o_FrameOUT r d)) 3137" using assms(1,4) by (simp add: peek16_upd_other)
  then show l: "peek16 e (o_FrameOUT + o_FrameLength) = v"
    using peek16_upd [of 3137 "bytes16 v" "upd o_FrameOUT r d" 0] assms(1) by simp
  have h: "holds_at 1637 r (upd 1637 r d)" by (rule holds_upd) (use assms(1,2) in simp)
  have "holds_at 1637 r e"
    unfolding assms(4) by (rule holds_upd_other [OF holds_upd_other [OF holds_upd_other [OF h]]]) (use assms(2) in simp_all)
  then show "frame_out e = r" unfolding frame_out_def l assms(3) by (simp add: holds_at_def)
qed

text \<open>
  C6. A ping through the device.  The host sends an echo request as an RNDIS packet to the bulk endpoint; the
  class driver receives it, the network stack processes it, and when the IN endpoint is free the class
  driver sends one RNDIS packet: the echo reply to the sender of the request, with its identifier,
  sequence number and data, a correct IP checksum, and a correct ICMP checksum when the data have an
  even length.
\<close>

theorem ping_answered:
  assumes "good_request mac h ih data" "length d = sizeof_State" "d ! (o_FrameIN + o_FrameInBuffer) = 0"
    "m \<le> 7" "CDC_Config.DataOUTEndpointNumber cfg = m" "out_open ((dusb s)\<lparr>uenum := m\<rparr>)"
    "fifo (ep (dusb s) m) @ concat (queue (ep (dusb s) m)) =
       packet_bytes (frame_header (of_nat (42 + length data))) @ echo_request mac h ih data"
    "n \<le> 7" "CDC_Config.DataINEndpointNumber cfg = n" "in_open ((dusb s2)\<lparr>uenum := n\<rparr>)" "fifo (ep (dusb s2) n) = []" "queue (ep (dusb s2) n) = []"
  shows "\<exists>d1 t1 d2 d3 t3 c c2. rndis_receive bio cfg stack d s = Some (False, d1, t1) \<and>
    Ethernet_ProcessPacket o_FrameIN o_FrameOUT d1 t = Some (d2, t) \<and> d2 ! (o_FrameIN + o_FrameInBuffer) = 0 \<and>
    rndis_send bio cfg d2 s2 = Some (d3, t3) \<and>
    concat (queue (ep (dusb t3) n)) = packet_bytes (frame_header (of_nat (42 + length data))) @ echo_reply mac h ih data c c2 \<and>
    Ethernet_Checksum16 14 20 (echo_reply mac h ih data c c2) = Some 0 \<and>
    (even (length data) \<longrightarrow> Ethernet_Checksum16 34 (of_nat (8 + length data)) (echo_reply mac h ih data c c2) = Some 0)"
proof -
  let ?N = "of_nat (42 + length data) :: u16" and ?q = "echo_request mac h ih data"
  have g: "length mac = 6" "ip_addressed h" "length data < 504" using assms(1) by (simp_all add: good_request_def)
  note l = length_frames [OF g(1,2)]
  have N: "unat ?N = 42 + length data" using g(3) by (simp add: unsigned_of_nat take_bit_nat_eq_self del: of_nat_add)
  have av: "avail ((dusb s)\<lparr>uenum := m\<rparr>) = packet_bytes (frame_header ?N) @ ?q"
    using assms(7) by (simp add: avail_def cur_def)
  have dl: "DataLength (frame_header ?N) = of_nat (length ?q)"
    unfolding l using g(3) size16 [of "42 + length data"] by (simp add: frame_header_def del: of_nat_add)
  let ?d1 = "upd 1636 [1] (upd 1634 (bytes16 (of_nat (length ?q))) (upd o_FrameIN ?q d))"
  have lq: "length ?q \<le> ETHERNET_FRAME_SIZE_MAX" using g(3) by (simp add: l)
  obtain v where r: "rndis_receive bio cfg stack d s = Some (False, ?d1, s\<lparr>dusb := v\<rparr>)"
    using ub.receive_frame [OF assms(4,5) _ assms(2,3) av dl lq, of stack] assms(6) by auto
  have ld: "length ?d1 = sizeof_State" using assms(2) by simp
  note rm = received_memory [OF assms(2) lq, of "of_nat (length ?q)"]
  have h1: "holds_at 134 ?q ?d1" "peek16 ?d1 (134 + 1500) = ?N" using rm unfolding l .
  obtain c c2 where p: "Ethernet_ProcessPacket 134 1637 ?d1 t = Some (upd 1636 [0] (upd 3139 [1] (upd 3137 (bytes16 ?N)
       (upd 1637 (echo_reply mac h ih data c c2) ?d1))), t)"
    "Ethernet_Checksum16 14 20 (echo_reply mac h ih data c c2) = Some 0"
    "even (length data) \<Longrightarrow> Ethernet_Checksum16 34 (of_nat (8 + length data)) (echo_reply mac h ih data c c2) = Some 0"
    using frame_echo [OF assms(1) ld h1, of t] by blast
  let ?r = "echo_reply mac h ih data c c2"
  let ?d2 = "upd 1636 [0] (upd 3139 [1] (upd 3137 (bytes16 ?N) (upd 1637 ?r ?d1)))"
  have "length ?r \<le> ETHERNET_FRAME_SIZE_MAX" "unat ?N = length ?r" using g(3) N by (simp_all add: l)
  note am = answered_memory [OF ld this refl]
  have "?N \<le> 1500" using N g(3) by (simp add: word_le_nat_alt)
  then obtain w where s: "rndis_send bio cfg ?d2 s2 = Some (upd 3139 [0] ?d2, s2\<lparr>dusb := w\<rparr>)" "uenum w = n"
    "concat (queue (cur w)) = packet_bytes (frame_header ?N) @ ?r"
    using ub.send_frame [OF assms(8,9) _ _ am(1,3), of s2] assms(10-12) am(4,5) by auto
  show ?thesis
    using r p am(2) s by (intro exI [of _ ?d1] exI [of _ "s\<lparr>dusb := v\<rparr>"] exI [of _ ?d2] exI [of _ "upd 3139 [0] ?d2"]
        exI [of _ "s2\<lparr>dusb := w\<rparr>"] exI [of _ c] exI [of _ c2]) (simp add: cur_def)
qed

definition ping_ip :: IP_Header_t where
  "ping_ip = \<lparr>HeaderLength = 5, IP_Header_t.Version = 4, TypeOfService = 0, TotalLength = SwapEndian_16 32, Identification = 0,
     FragmentOffset = 0, FragmentFlags = 0, TTL = 64, Protocol = PROTOCOL_ICMP, HeaderChecksum = 0,
     SourceAddress = ClientIPAddress, DestinationAddress = ServerIPAddress\<rparr>"

definition ping_icmp :: ICMP_Header_t where
  "ping_icmp = \<lparr>ICMP_Header_t.Type = ICMP_TYPE_ECHOREQUEST, Code = 0, ICMP_Header_t.Checksum = 0, Id = 7, Sequence = 1\<rparr>"

lemma good_ping: "good_request AdapterMAC ping_ip ping_icmp [1, 2, 3, 4]"
  by (simp add: good_request_def ip_addressed_def ping_ip_def ping_icmp_def AdapterMAC_def SwapEndian_16_def)

definition ip_ping_memory :: "u8 list" where
  "ip_ping_memory = upd 1500 (bytes16 32) (upd 0 (ip_bytes ping_ip @ icmp_bytes ping_icmp @ [1, 2, 3, 4]) (replicate 1600 0))"

theorem ip_response_accepted_witness:
  "\<exists>d'. IP_ProcessIPPacket 0 0 1502 ip_ping_memory (zero_tcp [] (0 :: u8)) = Some (32, d', zero_tcp [] 0) \<and> Ethernet_Checksum16 1502 20 d' = Some 0"
proof -
  have a: "ip_addressed ping_ip" by (simp add: ip_addressed_def ping_ip_def)
  have l: "length (ip_bytes ping_ip @ icmp_bytes ping_icmp @ [1, 2, 3, 4]) = 32" by (simp add: ip_addressed_of [OF a])
  have "holds_at 0 (ip_bytes ping_ip @ icmp_bytes ping_icmp @ [1, 2, 3, 4]) ip_ping_memory" unfolding ip_ping_memory_def
    by (rule holds_upd_other [OF holds_upd]) (simp_all add: ip_addressed_of [OF a])
  moreover have "peek16 ip_ping_memory 1500 = 32" unfolding ip_ping_memory_def
    using peek16_upd [of 1500 "bytes16 32" "upd 0 (ip_bytes ping_ip @ icmp_bytes ping_icmp @ [1, 2, 3, 4]) (replicate 1600 0)" 0] by simp
  ultimately obtain d' where "IP_ProcessIPPacket 0 0 1502 ip_ping_memory (zero_tcp [] (0 :: u8)) = Some (32, d', zero_tcp [] 0)"
    using ip_echo [OF a, of ping_icmp 0 "[1, 2, 3, 4]" ip_ping_memory 0 1502 "zero_tcp [] 0"]
    by (auto simp: ping_ip_def ping_icmp_def ip_ping_memory_def l)
  then show ?thesis using ip_response_accepted by (fastforce simp: is_response_def)
qed

theorem ping_answered_witness:
  "\<exists>d1 t1 d2 d3 t3 c c2.
    rndis_receive bio adapter (\<lambda>i. 0) (replicate sizeof_State 0)
      (waiting_board (packet_bytes (frame_header 46) @ echo_request AdapterMAC ping_ip ping_icmp [1, 2, 3, 4]) []) = Some (False, d1, t1) \<and>
    Ethernet_ProcessPacket o_FrameIN o_FrameOUT d1 (zero_tcp [] (0 :: u8)) = Some (d2, zero_tcp [] 0) \<and>
    rndis_send bio adapter d2 (waiting_board [] []) = Some (d3, t3) \<and>
    concat (queue (ep (dusb t3) 3)) = packet_bytes (frame_header 46) @ echo_reply AdapterMAC ping_ip ping_icmp [1, 2, 3, 4] c c2"
proof -
  let ?s = "waiting_board (packet_bytes (frame_header 46) @ echo_request AdapterMAC ping_ip ping_icmp [1, 2, 3, 4]) []"
  have n: "(3 :: u8) \<le> 7" "CDC_Config.DataINEndpointNumber adapter = 3" "(4 :: u8) \<le> 7" "CDC_Config.DataOUTEndpointNumber adapter = 4"
    by (simp_all add: adapter_def serial_port_def CDC_Config.defs)
  have s: "out_open ((dusb ?s)\<lparr>uenum := 4\<rparr>)" "length (replicate sizeof_State (0 :: u8)) = sizeof_State"
    "replicate sizeof_State (0 :: u8) ! (o_FrameIN + o_FrameInBuffer) = 0"
    "fifo (ep (dusb ?s) 4) @ concat (queue (ep (dusb ?s) 4)) =
      packet_bytes (frame_header (of_nat (42 + length [1, 2, 3, 4 :: u8]))) @ echo_request AdapterMAC ping_ip ping_icmp [1, 2, 3, 4]"
    by (simp_all add: waiting_board_def out_open_def attached_def bank_ready_def cur_def)
  have q: "in_open ((dusb (waiting_board [] []))\<lparr>uenum := 3\<rparr>)" "fifo (ep (dusb (waiting_board [] [])) 3) = []"
    "queue (ep (dusb (waiting_board [] [])) 3) = []" by (rule quiet_board)+
  show ?thesis
    using ping_answered [OF good_ping s(2,3) n(3,4) s(1,4) n(1,2) q, of "\<lambda>i. 0" "zero_tcp [] 0"] by simp blast
qed

end
