(* ===== verification/Net_Replies.thy ===== *)
theory Net_Replies
  imports Net_Ping
begin

text \<open>
  The answers to address and lease requests, and the frames the network demo loses: those of certain
  lengths, and echo requests on which it hangs.
\<close>

section \<open>Frames that are lost\<close>

lemma low_byte_swapped: "unat v mod 256 < 6 \<Longrightarrow> SwapEndian_16 v \<le> ETHERNET_VER2_MINSIZE"
proof -
  assume v: "unat v mod 256 < 6"
  obtain a b where w: "v = word16 a b" using bytes_ex16 by blast
  have u: "unat (word16 x y) = unat x + 256 * unat y" for x y
  proof -
    have "ucast x AND push_bit 8 (ucast y) = (0 :: u16)"
      by (rule bit_word_eqI) (auto simp: bit_simps dest: bit_u8_bound)
    then have "word16 x y = ucast x + push_bit 8 (ucast y)" by (simp add: word16_def disjunctive_add_eq_or)
    moreover have "unat (push_bit 8 (ucast y :: u16)) = 256 * unat y" "unat (ucast x :: u16) = unat x"
      using u8_less [of x] u8_less [of y]
      by (simp_all add: push_bit_eq_mult unat_word_ariths unsigned_ucast_eq take_bit_nat_eq_self)
    ultimately show ?thesis using u8_less [of x] u8_less [of y] by (simp add: unat_word_ariths)
  qed
  have "unat a < 6" using v u8_less [of a] by (simp add: w u)
  then show ?thesis using u8_less [of b] by (simp add: w SwapEndian_16_word word_le_nat_alt u)
qed

text \<open>
  C31. Frames lost because of their length.  The length of a frame is compared in the wrong byte order: a frame
  whose length leaves a remainder below 6 when divided by 256, such as 256 or 512 bytes, is dropped
  without an answer, whatever it contains.
\<close>

theorem short_frame_lost:
  assumes "length d = sizeof_State" "unat (peek16 d (o_FrameIN + o_FrameLength)) mod 256 < 6"
  shows "Ethernet_ProcessPacket o_FrameIN o_FrameOUT d t = Some (upd (o_FrameIN + o_FrameInBuffer) [0] d, t)"
proof -
  have "\<not> frame_accepted h (peek16 d 1634)" for h
    using low_byte_swapped [of "peek16 d 1634"] assms(2) by (simp add: frame_accepted_def not_less)
  then show ?thesis using assms(1) by (simp add: Ethernet_ProcessPacket_def Let_def peek_def)
qed

definition ping_256 :: rndis where
  "ping_256 = replicate o_FrameIN 0 @ echo_request AdapterMAC ping_ip ping_icmp (replicate 214 0) @ replicate 1244 0 @
     bytes16 256 @ [1] @ replicate 1503 0"

theorem short_frame_lost_witness:
  "Ethernet_ProcessPacket o_FrameIN o_FrameOUT ping_256 (zero_tcp [] (0 :: u8)) = Some (upd 1636 [0] ping_256, zero_tcp [] 0)"
proof -
  have l: "length (echo_request AdapterMAC ping_ip ping_icmp (replicate 214 0)) = 256"
    using good_ping by (simp add: length_frames good_request_def)
  have "length ping_256 = sizeof_State" "peek16 ping_256 (o_FrameIN + o_FrameLength) = 256"
    using l by (simp_all add: ping_256_def nth_append bytes16_def peek16_def word16_def)
  then show ?thesis using short_frame_lost [of ping_256 "zero_tcp [] 0"] by simp
qed

lemma long_echo:
  assumes "holds_at p (icmp_bytes h) d" "ICMP_Header_t.Type h = ICMP_TYPE_ECHOREQUEST"
    "peek16 d (F + 1500) - of_nat (p + 8 - F) = n" "512 \<le> unat (n + 8)" "F + 1502 \<le> q" "q + 8 \<le> length d"
  shows "ICMP_ProcessICMPPacket F p q d = None"
proof -
  have p: "peek p 8 d = Some (icmp_bytes h)" by (rule holds_peek [OF assms(1)]) simp
  have "peek16 (upd q (icmp_bytes k) d) (F + 1500) = peek16 d (F + 1500)" for k
    by (rule peek16_upd_other) (use assms(5,6) in simp_all)
  then show ?thesis
    using assms(2-4,6) p by (auto simp: ICMP_ProcessICMPPacket_def Let_def icmp_of_bytes poke_some checksum_forever split: bind_splits)
qed

text \<open>
  C30. The device hangs on a long ping.  On a well-formed echo request with 504 bytes of data or more the
  checksum of the reply is computed by a loop whose eight-bit counter never reaches its bound: the
  function that processes the frame does not return.
\<close>

theorem long_ping_hangs:
  assumes "length mac = 6" "ip_addressed h" "Protocol h = PROTOCOL_ICMP" "ICMP_Header_t.Type ih = ICMP_TYPE_ECHOREQUEST"
    "504 \<le> length data" "length data \<le> 1458" "SwapEndian_16 (of_nat (42 + length data)) > ETHERNET_VER2_MINSIZE"
    "length d = sizeof_State" "holds_at o_FrameIN (echo_request mac h ih data) d"
    "peek16 d (o_FrameIN + o_FrameLength) = of_nat (42 + length data)"
  shows "Ethernet_ProcessPacket o_FrameIN o_FrameOUT d t = None"
proof -
  let ?eh = "\<lparr>Destination = ServerMACAddress, Source = mac, EtherType = SwapEndian_16 ETHERTYPE_IPV4\<rparr>"
  note ia = ip_addressed_of [OF assms(2)]
  have le: "length (ethernet_bytes ?eh) = 14" using assms(1) by simp
  have hp: "holds_at 134 (ethernet_bytes ?eh) d" "holds_at 148 (ip_bytes h) d" "holds_at 168 (icmp_bytes ih) d"
    using assms(9) le ia(1) unfolding echo_request_def by (simp_all add: holds_append)
  have p: "peek 134 14 d = Some (ethernet_bytes ?eh)" "peek 148 20 d = Some (ip_bytes h)"
    using holds_peek [OF hp(1)] holds_peek [OF hp(2)] le ia(1) by simp_all
  have u: "unat (of_nat (length data) + 8 :: u16) = length data + 8"
    using assms(6) by (simp add: unat_word_ariths unsigned_of_nat take_bit_nat_eq_self)
  have i: "ICMP_ProcessICMPPacket 134 168 1671 d = None"
    by (rule long_echo [OF hp(3) assms(4), where n = "of_nat (length data)"]) (use assms(5,8,10) in \<open>simp_all add: u\<close>)
  have dest: "DestinationAddress h = ServerIPAddress \<or> DestinationAddress h = BroadcastIPAddress"
    using assms(2) by (simp add: ip_addressed_def)
  have "IP_ProcessIPPacket 134 148 1651 d t = None"
    using dest by (elim disjE) (use i assms(3) in \<open>simp_all add: IP_ProcessIPPacket_def p ia Let_def\<close>)
  moreover have "ethernet_of (ethernet_bytes ?eh) = ?eh" by (rule ethernet_of_bytes) (use assms(1) in simp_all)
  ultimately show ?thesis
    using assms(7,10) by (simp add: Ethernet_ProcessPacket_def Let_def p type_swapped frame_accepted_def del: of_nat_add)
qed

definition long_ping :: rndis where
  "long_ping = replicate o_FrameIN 0 @ echo_request AdapterMAC ping_ip ping_icmp (replicate 600 0) @ replicate 858 0 @
     bytes16 642 @ [1] @ replicate 1503 0"

theorem long_ping_hangs_witness:
  "Ethernet_ProcessPacket o_FrameIN o_FrameOUT long_ping (zero_tcp [] (0 :: u8)) = None"
proof -
  let ?q = "echo_request AdapterMAC ping_ip ping_icmp (replicate 600 0)"
  have g: "length AdapterMAC = 6" "ip_addressed ping_ip" "Protocol ping_ip = PROTOCOL_ICMP"
    "ICMP_Header_t.Type ping_icmp = ICMP_TYPE_ECHOREQUEST" using good_ping by (simp_all add: good_request_def)
  have l: "length ?q = 642" by (simp add: length_frames [OF g(1,2)])
  have d: "length long_ping = sizeof_State" "holds_at o_FrameIN ?q long_ping"
    "peek16 long_ping (o_FrameIN + o_FrameLength) = of_nat (42 + length (replicate 600 (0 :: u8)))"
    using l by (simp_all add: long_ping_def holds_at_def nth_append bytes16_def peek16_def word16_def)
  show ?thesis
    by (rule long_ping_hangs [OF g _ _ _ d]) (simp_all add: SwapEndian_16_def)
qed

section \<open>Completing an answer\<close>

lemma frame_answer:
  assumes "length mac = 6" "length dst = 6" "frame_accepted \<lparr>Destination = dst, Source = mac, EtherType = ty\<rparr> (peek16 d (o_FrameIN + o_FrameLength))"
    "holds_at o_FrameIN (ethernet_bytes \<lparr>Destination = dst, Source = mac, EtherType = ty\<rparr>) d"
    "(if SwapEndian_16 ty = ETHERTYPE_ARP then map_option (\<lambda>(r, d). (r, d, t)) (ARP_ProcessARPPacket 148 1651 d)
      else if SwapEndian_16 ty = ETHERTYPE_IPV4 then IP_ProcessIPPacket o_FrameIN 148 1651 d t
      else Some (NO_RESPONSE, d, t)) = Some (of_nat (length bs), upd 1651 bs e, t')"
    "0 < length bs" "length bs \<le> 1486" "length e = sizeof_State"
  shows "Ethernet_ProcessPacket o_FrameIN o_FrameOUT d t = Some (upd 1636 [0] (upd 3139 [1] (upd 3137 (bytes16 (of_nat (14 + length bs)))
      (upd o_FrameOUT (ethernet_bytes \<lparr>Destination = mac, Source = ServerMACAddress, EtherType = ty\<rparr> @ bs) e))), t')"
proof -
  let ?eh = "\<lparr>Destination = dst, Source = mac, EtherType = ty\<rparr>" and ?oh = "\<lparr>Destination = mac, Source = ServerMACAddress, EtherType = ty\<rparr>"
  have le: "length (ethernet_bytes ?eh) = 14" "length (ethernet_bytes ?oh) = 14" using assms(1,2) by simp_all
  have p: "peek 134 14 d = Some (ethernet_bytes ?eh)" by (rule holds_peek [OF assms(4)]) (use le in simp)
  have eo: "ethernet_of (ethernet_bytes ?eh) = ?eh" by (rule ethernet_of_bytes) (use assms(1,2) in simp_all)
  have u: "upd 1637 (ethernet_bytes ?oh) (upd 1651 bs e) = upd 1637 (ethernet_bytes ?oh @ bs) e"
    using upd_before [of 1637 "ethernet_bytes ?oh" bs e] le assms(7,8) by simp
  have k: "poke 1637 (ethernet_bytes ?oh) (upd 1651 bs e) = Some (upd 1637 (ethernet_bytes ?oh @ bs) e)"
    using u le assms(8) by (simp add: poke_some)
  have r: "is_response (of_nat (length bs))" by (rule small_response) (use assms(6,7) in simp_all)
  then have np: "of_nat (length bs) \<noteq> (0xFFFF :: u16)" by (auto simp: is_response_def)
  have s: "(of_nat 14 :: u16) + of_nat (length bs) = of_nat (14 + length bs)" by simp
  have n: "(134 :: nat) + 14 = 148" "(1637 :: nat) + 14 = 1651" by simp_all
  show ?thesis
    unfolding Ethernet_ProcessPacket_def Let_def p bind.bind_lunit eo if_P [OF assms(3)] n Ethernet_Frame_Header_t.simps assms(5)
    using assms(8) k r np s by (simp add: poke_some del: of_nat_add)
qed

section \<open>Address resolution\<close>

lemma arp_of_bytes:
  "length (SHA a) = 6 \<Longrightarrow> length (SPA a) = 4 \<Longrightarrow> length (THA a) = 6 \<Longrightarrow> length (TPA a) = 4 \<Longrightarrow>
     arp_of (arp_bytes a) = a \<and> length (arp_bytes a) = 28"
  by (cases a) (simp add: arp_of_def arp_bytes_def peek16_def bytes16_def)

definition arp_reply :: "ARP_Header_t \<Rightarrow> ARP_Header_t" where
  "arp_reply a = a\<lparr>ARP_Header_t.Operation := SwapEndian_16 ARP_OPERATION_REPLY, SHA := ServerMACAddress, SPA := ServerIPAddress,
     THA := SHA a, TPA := SPA a\<rparr>"

text \<open>
  C29. Address resolution.  A request for the hardware address behind the address of the server, to its own
  hardware address or to all, is answered with a reply to the asking host that carries the server's
  addresses and returns the host's.
\<close>

theorem arp_answered:
  assumes "length d = sizeof_State" "length mac = 6" "dst = ServerMACAddress \<or> dst = BroadcastMACAddress"
    "length (SHA a) = 6" "length (SPA a) = 4" "length (THA a) = 6" "TPA a = ServerIPAddress"
    "ProtocolType a = SwapEndian_16 ETHERTYPE_IPV4" "ARP_Header_t.Operation a = SwapEndian_16 ARP_OPERATION_REQUEST"
    "holds_at o_FrameIN (ethernet_bytes \<lparr>Destination = dst, Source = mac, EtherType = SwapEndian_16 ETHERTYPE_ARP\<rparr> @ arp_bytes a) d"
    "SwapEndian_16 (peek16 d (o_FrameIN + o_FrameLength)) > ETHERNET_VER2_MINSIZE"
  shows "\<exists>d'. Ethernet_ProcessPacket o_FrameIN o_FrameOUT d t = Some (d', t) \<and>
    d' ! (o_FrameIN + o_FrameInBuffer) = 0 \<and> d' ! (o_FrameOUT + o_FrameInBuffer) \<noteq> 0 \<and>
    frame_out d' = ethernet_bytes \<lparr>Destination = mac, Source = ServerMACAddress, EtherType = SwapEndian_16 ETHERTYPE_ARP\<rparr> @
      arp_bytes (arp_reply a)"
proof -
  let ?ty = "SwapEndian_16 ETHERTYPE_ARP" and ?r = "arp_bytes (arp_reply a)"
  let ?oh = "\<lparr>Destination = mac, Source = ServerMACAddress, EtherType = SwapEndian_16 ETHERTYPE_ARP\<rparr>"
  have ld: "length dst = 6" using assms(3) by (auto simp: BroadcastMACAddress_def)
  have a: "arp_of (arp_bytes a) = a" "length (arp_bytes a) = 28" using arp_of_bytes [of a] assms(4-7) by simp_all
  have lr: "length ?r = 28" using arp_of_bytes [of "arp_reply a"] assms(4,5) by (simp add: arp_reply_def)
  have le: "length (ethernet_bytes \<lparr>Destination = dst, Source = mac, EtherType = ?ty\<rparr>) = 14" "length (ethernet_bytes ?oh) = 14" using assms(2) ld by simp_all
  have h: "holds_at 134 (ethernet_bytes \<lparr>Destination = dst, Source = mac, EtherType = ?ty\<rparr>) d" "holds_at 148 (arp_bytes a) d"
    using assms(10) le by (simp_all add: holds_append)
  have p: "peek 148 28 d = Some (arp_bytes a)" by (rule holds_peek [OF h(2)]) (use a in simp)
  have o: "arp_reply a = \<lparr>ARP_Header_t.HardwareType = ARP_Header_t.HardwareType a, ProtocolType = ProtocolType a, HLEN = HLEN a, PLEN = PLEN a,
      ARP_Header_t.Operation = SwapEndian_16 2, SHA = ServerMACAddress, SPA = ServerIPAddress, THA = SHA a, TPA = SPA a\<rparr>"
    by (simp add: arp_reply_def)
  have k: "poke 1651 ?r d = Some (upd 1651 ?r d)" using lr assms(1) by (simp add: poke_some)
  have arp: "ARP_ProcessARPPacket 148 1651 d = Some (of_nat (length ?r), upd 1651 ?r d)"
    using k lr unfolding o by (simp add: ARP_ProcessARPPacket_def p a Let_def type_swapped assms(7-9))
  have f: "frame_accepted \<lparr>Destination = dst, Source = mac, EtherType = ?ty\<rparr> (peek16 d (o_FrameIN + o_FrameLength))"
    using assms(3,11) by (auto simp: frame_accepted_def)
  have e: "Ethernet_ProcessPacket o_FrameIN o_FrameOUT d t = Some (upd 1636 [0] (upd 3139 [1] (upd 3137 (bytes16 (of_nat (14 + length ?r)))
      (upd o_FrameOUT (ethernet_bytes ?oh @ ?r) d))), t)"
    by (rule frame_answer [OF assms(2) ld f h(1)]) (use arp lr assms(1) in \<open>simp_all add: type_swapped\<close>)
  have l: "length (ethernet_bytes ?oh @ ?r) \<le> ETHERNET_FRAME_SIZE_MAX" "unat (of_nat (14 + length ?r) :: u16) = length (ethernet_bytes ?oh @ ?r)"
    using le lr by simp_all
  show ?thesis using e answered_memory [OF assms(1) l refl] by blast
qed

definition who_has :: ARP_Header_t where
  "who_has = \<lparr>ARP_Header_t.HardwareType = SwapEndian_16 1, ProtocolType = SwapEndian_16 ETHERTYPE_IPV4, HLEN = 6, PLEN = 4,
     ARP_Header_t.Operation = SwapEndian_16 ARP_OPERATION_REQUEST, SHA = AdapterMAC, SPA = ClientIPAddress, THA = replicate 6 0,
     TPA = ServerIPAddress\<rparr>"

text \<open>A frame in the input buffer.\<close>

definition framed :: "u8 list \<Rightarrow> rndis" where
  "framed q = upd 1636 [1] (upd 1634 (bytes16 (of_nat (length q))) (upd o_FrameIN q (replicate sizeof_State 0)))"

lemma framed: "length q \<le> ETHERNET_FRAME_SIZE_MAX \<Longrightarrow> length (framed q) = sizeof_State \<and> holds_at o_FrameIN q (framed q) \<and>
    peek16 (framed q) (o_FrameIN + o_FrameLength) = of_nat (length q)"
  using received_memory [of "replicate sizeof_State 0" q "of_nat (length q)"] by (simp add: framed_def)

theorem arp_answered_witness:
  "\<exists>d'. Ethernet_ProcessPacket o_FrameIN o_FrameOUT
      (framed (ethernet_bytes \<lparr>Destination = BroadcastMACAddress, Source = AdapterMAC, EtherType = SwapEndian_16 ETHERTYPE_ARP\<rparr> @ arp_bytes who_has))
      (zero_tcp [] (0 :: u8)) = Some (d', zero_tcp [] 0) \<and> take 6 (frame_out d') = AdapterMAC"
proof -
  let ?q = "ethernet_bytes \<lparr>Destination = BroadcastMACAddress, Source = AdapterMAC, EtherType = SwapEndian_16 ETHERTYPE_ARP\<rparr> @ arp_bytes who_has"
  have m: "length AdapterMAC = 6" by (simp add: AdapterMAC_def)
  have w: "length (SHA who_has) = 6" "length (SPA who_has) = 4" "length (THA who_has) = 6" "TPA who_has = ServerIPAddress"
    "ProtocolType who_has = SwapEndian_16 ETHERTYPE_IPV4" "ARP_Header_t.Operation who_has = SwapEndian_16 ARP_OPERATION_REQUEST"
    by (simp_all add: who_has_def m)
  have l: "length ?q = 42" using arp_of_bytes [of who_has] w(1-4) by (simp add: m BroadcastMACAddress_def)
  then have f: "length (framed ?q) = sizeof_State" "holds_at o_FrameIN ?q (framed ?q)" "peek16 (framed ?q) (o_FrameIN + o_FrameLength) = 42"
    using framed [of ?q] by simp_all
  have s: "SwapEndian_16 (peek16 (framed ?q) (o_FrameIN + o_FrameLength)) > ETHERNET_VER2_MINSIZE"
    unfolding f(3) by (simp add: SwapEndian_16_def)
  obtain d' where "Ethernet_ProcessPacket o_FrameIN o_FrameOUT (framed ?q) (zero_tcp [] (0 :: u8)) = Some (d', zero_tcp [] 0)"
    "frame_out d' = ethernet_bytes \<lparr>Destination = AdapterMAC, Source = ServerMACAddress, EtherType = SwapEndian_16 ETHERTYPE_ARP\<rparr> @
      arp_bytes (arp_reply who_has)"
    using arp_answered [OF f(1) m _ w f(2) s, of "zero_tcp [] (0 :: u8)"] by blast
  then show ?thesis by (intro exI [of _ d']) (simp add: ethernet_bytes_def m)
qed

end
