(* ===== verification/Net_Connections.thy ===== *)
theory Net_Connections
  imports Net_Server
begin

text \<open>
  The connection table of the network demo (\<open>TCP.c\<close>) as what its users take it for: a map from the endpoints of a
  connection to its state.  The table has three entries and no marker for free ones; an entry in state Closed
  may be taken over at any time.
\<close>

section \<open>The interface\<close>

text \<open>
  What the automaton relies on: reading gives the state last written for these endpoints, and writing those of
  one connection leaves the others alone.  A write may fail for want of room, and then changes nothing.
\<close>

locale state_map =
  fixes get :: "'k \<Rightarrow> 't \<Rightarrow> 's option" and put :: "'k \<Rightarrow> 's \<Rightarrow> 't \<Rightarrow> (bool \<times> 't) option"
    and view :: "'t \<Rightarrow> 'k \<Rightarrow> 's" and ok :: "'t \<Rightarrow> bool"
  assumes get: "ok t \<Longrightarrow> get k t = Some (view t k)"
    and put: "ok t \<Longrightarrow> \<exists>b t'. put k s t = Some (b, t') \<and> ok t' \<and> view t' = (if b then (view t)(k := s) else view t) \<and> (\<not> b \<longrightarrow> t' = t)"
begin

lemma put_get: "ok t \<Longrightarrow> put k s t = Some (True, t') \<Longrightarrow> get k t' = Some s"
  using put [of t k s] get [of t' k] by (auto dest: fun_cong [of _ _ k])

lemma put_get_other: "ok t \<Longrightarrow> put k s t = Some (b, t') \<Longrightarrow> k' \<noteq> k \<Longrightarrow> get k' t' = get k' t"
  using put [of t k s] get [of t' k'] get [of t k'] by (auto split: if_splits)

lemma put_keeps: "ok t \<Longrightarrow> put k s t = Some (b, t') \<Longrightarrow> ok t'"
  using put [of t k s] by auto

lemma put_view: "ok t \<Longrightarrow> put k s t = Some (True, t') \<Longrightarrow> view t' = (view t)(k := s)"
  using put [of t k s] by auto

lemma refused: "ok t \<Longrightarrow> put k s t = Some (False, t') \<Longrightarrow> t' = t"
  using put [of t k s] by auto

end

section \<open>The table\<close>

definition endpoints_of :: "TCP_ConnectionState_t \<Rightarrow> endpoints" where
  "endpoints_of e = (Port e, RemoteAddress e, RemotePort e)"

lemma is_conn: "is_conn k = (\<lambda>e. endpoints_of e = k)"
  by (auto simp: is_conn_def endpoints_of_def fun_eq_iff)

text \<open>The state of a connection: that of its first entry.\<close>

fun look :: "TCP_ConnectionState_t list \<Rightarrow> endpoints \<Rightarrow> TCP_ConnectionStates_t" where
  "look [] k = TCP_Connection_Closed" |
  "look (e # es) k = (if endpoints_of e = k then State e else look es k)"

text \<open>An entry hidden by another with the same endpoints is closed.\<close>

fun hidden_closed :: "TCP_ConnectionState_t list \<Rightarrow> bool" where
  "hidden_closed [] = True" |
  "hidden_closed (e # es) \<longleftrightarrow>
     (\<forall>f \<in> set es. endpoints_of f = endpoints_of e \<longrightarrow> State f = TCP_Connection_Closed) \<and> hidden_closed es"

lemma look_closed: "\<forall>f \<in> set es. endpoints_of f = k \<longrightarrow> State f = TCP_Connection_Closed \<Longrightarrow> look es k = TCP_Connection_Closed"
  by (induction es) auto

lemma look_first: "i < length es \<Longrightarrow> endpoints_of (es ! i) = k \<Longrightarrow> \<forall>l < i. endpoints_of (es ! l) \<noteq> k \<Longrightarrow> look es k = State (es ! i)"
proof (induction es arbitrary: i)
  case (Cons e es)
  then show ?case by (cases i) (auto simp: All_less_Suc2)
qed simp

lemma look_absent: "\<forall>l < length es. endpoints_of (es ! l) \<noteq> k \<Longrightarrow> look es k = TCP_Connection_Closed"
  by (induction es) (auto simp: All_less_Suc2)

text \<open>Writing the state of an entry, and taking over a closed one.\<close>

lemma in_update: "f \<in> set (es[i := e']) \<Longrightarrow> f = e' \<or> f \<in> set es"
  using set_update_subset_insert [of es i e'] by auto

lemma update_first:
  "i < length es \<Longrightarrow> endpoints_of (es ! i) = k \<Longrightarrow> \<forall>l < i. endpoints_of (es ! l) \<noteq> k \<Longrightarrow> endpoints_of e' = k \<Longrightarrow> hidden_closed es \<Longrightarrow>
    look (es[i := e']) = (look es)(k := State e') \<and> hidden_closed (es[i := e'])"
proof (induction es arbitrary: i)
  case (Cons e es)
  show ?case
  proof (cases i)
    case 0
    with Cons.prems show ?thesis by (auto simp: fun_eq_iff)
  next
    case (Suc n)
    then have e: "endpoints_of e \<noteq> k" "n < length es" using Cons.prems(1,3) by (auto simp: All_less_Suc2)
    then have "look (es[n := e']) = (look es)(k := State e') \<and> hidden_closed (es[n := e'])"
      using Cons.prems Suc by (intro Cons.IH) (auto simp: All_less_Suc2)
    then show ?thesis using e Cons.prems(4,5) Suc by (auto intro!: ext dest!: in_update)
  qed
qed simp

lemma take_over:
  "j < length es \<Longrightarrow> State (es ! j) = TCP_Connection_Closed \<Longrightarrow> \<forall>f \<in> set es. endpoints_of f \<noteq> k \<Longrightarrow> endpoints_of e' = k \<Longrightarrow> hidden_closed es \<Longrightarrow>
    look (es[j := e']) = (look es)(k := State e') \<and> hidden_closed (es[j := e'])"
proof (induction es arbitrary: j)
  case (Cons e es)
  show ?case
  proof (cases j)
    case 0
    then have "look es (endpoints_of e) = TCP_Connection_Closed" using Cons.prems(5) by (intro look_closed) simp
    with 0 Cons.prems show ?thesis by (auto simp: fun_eq_iff)
  next
    case (Suc n)
    then have "look (es[n := e']) = (look es)(k := State e') \<and> hidden_closed (es[n := e'])"
      using Cons.prems by (intro Cons.IH) auto
    then show ?thesis using Suc Cons.prems(3-5) by (auto intro!: ext dest!: in_update)
  qed
qed simp

text \<open>A search that stays in the table finds the first entry.\<close>

lemma search_cases:
  assumes "i \<le> length xs"
  shows "(\<exists>j. search_table P i (length xs) xs = Some (Some j) \<and> i \<le> j \<and> j < length xs \<and> P (xs ! j) \<and> (\<forall>l. i \<le> l \<and> l < j \<longrightarrow> \<not> P (xs ! l))) \<or>
    (search_table P i (length xs) xs = Some None \<and> (\<forall>l. i \<le> l \<and> l < length xs \<longrightarrow> \<not> P (xs ! l)))"
  using assms
proof (induction "length xs - i" arbitrary: i)
  case 0
  then show ?case by (intro disjI2) (auto simp: search_table.simps)
next
  case (Suc n)
  show ?case
  proof (cases "P (xs ! i)")
    case True
    then show ?thesis using Suc.hyps(2) by (intro disjI1 exI [of _ i]) (auto simp: search_table.simps)
  next
    case False
    then have s: "search_table P i (length xs) xs = search_table P (i + 1) (length xs) xs"
      using Suc.hyps(2) by (subst search_table.simps) auto
    have l: "i \<le> l \<and> l < j \<longrightarrow> \<not> P (xs ! l)" if "\<forall>l. i + 1 \<le> l \<and> l < j \<longrightarrow> \<not> P (xs ! l)" for l j
      using that False by (cases "l = i") auto
    have "n = length xs - (i + 1)" "i + 1 \<le> length xs" using Suc.hyps(2) by simp_all
    from Suc.hyps(1) [OF this] show ?thesis unfolding s
    proof (elim disjE exE conjE, goal_cases)
      case (1 j)
      then show ?case using l [of j] by (intro disjI1 exI [of _ j]) simp
    next
      case 2
      then show ?case using l [of "length xs"] by simp
    qed
  qed
qed

lemma search_connection:
  assumes "length es = 3"
  obtains j where "search_table P 0 3 es = Some (Some j)" "j < length es" "P (es ! j)" "\<forall>l < j. \<not> P (es ! l)"
  | "search_table P 0 3 es = Some None" "\<forall>f \<in> set es. \<not> P f"
  using search_cases [of 0 es P] assms by (auto simp: all_set_conv_all_nth)

section \<open>The table as a map\<close>

definition table_ok :: "'a tcp \<Rightarrow> bool" where
  "table_ok t \<longleftrightarrow> length (ConnectionStateTable t) = MAX_TCP_CONNECTIONS \<and> hidden_closed (ConnectionStateTable t)"

abbreviation table_view :: "'a tcp \<Rightarrow> endpoints \<Rightarrow> TCP_ConnectionStates_t" where
  "table_view t \<equiv> look (ConnectionStateTable t)"

lemma get_state: "table_ok t \<Longrightarrow> TCP_GetConnectionState k t = Some (table_view t k)"
  unfolding TCP_GetConnectionState_def table_ok_def is_conn
  by (rule search_connection [of "ConnectionStateTable t" "\<lambda>e. endpoints_of e = k"])
    (auto simp: look_first look_closed)

lemma put_state:
  assumes "table_ok t"
  shows "\<exists>b t'. TCP_SetConnectionState k st t = Some (b, t') \<and> table_ok t' \<and>
    table_view t' = (if b then (table_view t)(k := st) else table_view t) \<and> (\<not> b \<longrightarrow> t' = t)"
proof -
  let ?es = "ConnectionStateTable t"
  have t: "length ?es = 3" "hidden_closed ?es" using assms by (simp_all add: table_ok_def)
  show ?thesis
  proof (rule search_connection [OF t(1), of "\<lambda>e. endpoints_of e = k"], goal_cases)
    case (1 i)
    then show ?case
      using update_first [of i ?es k "(?es ! i)\<lparr>State := st\<rparr>"] t
      by (intro exI [of _ True]) (simp add: TCP_SetConnectionState_def is_conn table_ok_def endpoints_of_def)
  next
    case 2
    note absent = 2
    show ?case
    proof (rule search_connection [OF t(1), of "\<lambda>e. State e = TCP_Connection_Closed"], goal_cases)
      case (1 j)
      then show ?case
        using take_over [of j ?es k "(?es ! j)\<lparr>Port := fst k, RemoteAddress := fst (snd k), RemotePort := snd (snd k), State := st\<rparr>"] t absent
        by (intro exI [of _ True]) (simp add: TCP_SetConnectionState_def is_conn table_ok_def endpoints_of_def)
    next
      case 2
      then show ?case using absent assms by (intro exI [of _ False]) (simp add: TCP_SetConnectionState_def is_conn)
    qed
  qed
qed

interpretation conn: state_map TCP_GetConnectionState TCP_SetConnectionState table_view table_ok
  by unfold_locales (rule get_state, assumption, rule put_state)

text \<open>There is room for a new connection as long as an entry is closed.\<close>

lemma put_room:
  assumes "table_ok t" "TCP_SetConnectionState k st t = Some (b, t')"
  shows "b \<longleftrightarrow> (\<exists>e \<in> set (ConnectionStateTable t). endpoints_of e = k \<or> State e = TCP_Connection_Closed)"
proof -
  let ?es = "ConnectionStateTable t"
  have t: "length ?es = 3" using assms by (simp add: table_ok_def)
  show ?thesis
    by (rule search_connection [OF t, of "\<lambda>e. endpoints_of e = k"];
        rule search_connection [OF t, of "\<lambda>e. State e = TCP_Connection_Closed"])
      (use assms(2) in \<open>auto simp: TCP_SetConnectionState_def is_conn\<close>)
qed

text \<open>
  C25. The connection table is a map.  On a well-formed table of three entries, reading and writing the state of
  a connection are lookup and update of one map; a write fails exactly when all entries are in use by
  other connections, and then changes nothing.
\<close>

theorem connection_table_refines:
  assumes "table_ok t"
  shows "TCP_GetConnectionState k t = Some (table_view t k) \<and>
    (\<exists>b t'. TCP_SetConnectionState k st t = Some (b, t') \<and> table_ok t' \<and>
      (b \<longleftrightarrow> (\<exists>e \<in> set (ConnectionStateTable t). endpoints_of e = k \<or> State e = TCP_Connection_Closed)) \<and>
      table_view t' = (if b then (table_view t)(k := st) else table_view t) \<and> (\<not> b \<longrightarrow> t' = t))"
  using conn.get [OF assms] conn.put [OF assms, of k st] put_room [OF assms] by blast

lemma zero_table: "table_ok (TCP_Init (zero_tcp behind a))"
  by (simp add: table_ok_def TCP_Init_def zero_tcp_def eval_nat_numeral)

theorem connection_table_refines_witness:
  "\<exists>t'. TCP_SetConnectionState (TCP_PORT_HTTP, ClientIPAddress, 7) TCP_Connection_Listen (TCP_Init (zero_tcp [] (0 :: u8))) = Some (True, t') \<and>
    table_view t' (TCP_PORT_HTTP, ClientIPAddress, 7) = TCP_Connection_Listen"
proof -
  have "\<exists>e \<in> set (ConnectionStateTable (TCP_Init (zero_tcp [] (0 :: u8)))). State e = TCP_Connection_Closed"
    by (simp add: TCP_Init_def zero_tcp_def)
  moreover obtain b t' where "TCP_SetConnectionState (TCP_PORT_HTTP, ClientIPAddress, 7) TCP_Connection_Listen
      (TCP_Init (zero_tcp [] (0 :: u8))) = Some (b, t')"
    "b \<longleftrightarrow> (\<exists>e \<in> set (ConnectionStateTable (TCP_Init (zero_tcp [] (0 :: u8)))).
      endpoints_of e = (TCP_PORT_HTTP, ClientIPAddress, 7) \<or> State e = TCP_Connection_Closed)"
    "table_view t' = (if b then (table_view (TCP_Init (zero_tcp [] (0 :: u8))))((TCP_PORT_HTTP, ClientIPAddress, 7) := TCP_Connection_Listen)
      else table_view (TCP_Init (zero_tcp [] (0 :: u8))))"
    using connection_table_refines [OF zero_table [of "[]" "0 :: u8"], of "(TCP_PORT_HTTP, ClientIPAddress, 7)" TCP_Connection_Listen] by blast
  ultimately show ?thesis by (intro exI [of _ t']) auto
qed

end
