(* ===== verification/Net_Session.thy ===== *)
theory Net_Session
  imports Net_Replies Net_Connections
begin

text \<open>
  The automaton of \<open>TCP.c\<close> on a connection: opening it, and storing the data of its segments.
\<close>

section \<open>A connection in the table\<close>

definition conn_at :: "'a tcp \<Rightarrow> endpoints \<Rightarrow> nat \<Rightarrow> TCP_ConnectionState_t \<Rightarrow> bool" where
  "conn_at t k i e \<longleftrightarrow> length (ConnectionStateTable t) = 3 \<and> i < 3 \<and> ConnectionStateTable t ! i = e \<and> endpoints_of e = k \<and>
     (\<forall>l < i. endpoints_of (ConnectionStateTable t ! l) \<noteq> k)"

definition put_conn :: "nat \<Rightarrow> TCP_ConnectionState_t \<Rightarrow> 'a tcp \<Rightarrow> 'a tcp" where
  "put_conn i e t = t\<lparr>ConnectionStateTable := (ConnectionStateTable t)[i := e]\<rparr>"

lemma put_conn_again [simp]: "put_conn i e (put_conn i e' t) = put_conn i e t"
  by (simp add: put_conn_def)

lemma put_conn_fields [simp]: "PortStateTable (put_conn i e t) = PortStateTable t" "behind_ports (put_conn i e t) = behind_ports t"
  "app (put_conn i e t) = app t" "ConnectionStateTable (put_conn i e t) = (ConnectionStateTable t)[i := e]"
  by (simp_all add: put_conn_def)

lemma conn_at_put: "conn_at t k i e \<Longrightarrow> endpoints_of e' = k \<Longrightarrow> conn_at (put_conn i e' t) k i e'"
  by (simp add: conn_at_def)

lemma endpoints_kept [simp]: "endpoints_of (e\<lparr>State := st\<rparr>) = endpoints_of e" "endpoints_of (e\<lparr>Info := f\<rparr>) = endpoints_of e"
  by (simp_all add: endpoints_of_def)

lemma found:
  assumes "conn_at t k i e"
  shows "search_table (is_conn k) 0 3 (ConnectionStateTable t) = Some (Some i)"
proof -
  have l: "length (ConnectionStateTable t) = 3" using assms by (simp add: conn_at_def)
  show ?thesis
  proof (rule search_connection [OF l, of "\<lambda>e. endpoints_of e = k"], goal_cases)
    case (1 j)
    then have "j = i" using assms by (metis conn_at_def linorder_neqE_nat)
    then show ?case using 1 by (simp add: is_conn)
  next
    case 2
    then show ?case using assms by (auto simp: conn_at_def)
  qed
qed

lemma conn_at_operations:
  assumes "conn_at t k i e"
  shows "TCP_GetConnectionState k t = Some (State e)" "read_info k t = Some (Info e)"
    "change_info f k t = Some (put_conn i (e\<lparr>Info := f (Info e)\<rparr>) t)"
    "TCP_SetConnectionState k st t = Some (True, put_conn i (e\<lparr>State := st\<rparr>) t)"
  using found [OF assms] assms
  by (simp_all add: TCP_GetConnectionState_def read_info_def change_info_def TCP_SetConnectionState_def TCP_GetConnectionInfo_def
      put_conn_def conn_at_def Let_def)

text \<open>An entry for a new connection.\<close>

definition room :: "endpoints \<Rightarrow> 'a tcp \<Rightarrow> bool" where
  "room k t \<longleftrightarrow> (\<exists>e \<in> set (ConnectionStateTable t). endpoints_of e = k \<or> State e = TCP_Connection_Closed)"

lemma new_connection:
  assumes "length (ConnectionStateTable t) = 3" "room k t"
  obtains i e where "i < 3" "ConnectionStateTable t ! i = e" "conn_at (put_conn i (e\<lparr>Port := fst k, RemoteAddress := fst (snd k), RemotePort := snd (snd k), State := st\<rparr>) t) k i
      (e\<lparr>Port := fst k, RemoteAddress := fst (snd k), RemotePort := snd (snd k), State := st\<rparr>)"
    "TCP_SetConnectionState k st t =
      Some (True, put_conn i (e\<lparr>Port := fst k, RemoteAddress := fst (snd k), RemotePort := snd (snd k), State := st\<rparr>) t)"
proof (rule search_connection [OF assms(1), of "\<lambda>e. endpoints_of e = k"], goal_cases)
  case (1 i)
  let ?e = "ConnectionStateTable t ! i"
  have "?e\<lparr>Port := fst k, RemoteAddress := fst (snd k), RemotePort := snd (snd k), State := st\<rparr> = ?e\<lparr>State := st\<rparr>"
    using 1(4) by (auto simp: endpoints_of_def)
  then show ?case
    using 1 assms(1) by (intro 1(1) [of i ?e]) (simp_all add: conn_at_def TCP_SetConnectionState_def is_conn put_conn_def)
next
  case 2
  note absent = 2
  show ?case
  proof (rule search_connection [OF assms(1), of "\<lambda>e. State e = TCP_Connection_Closed"], goal_cases)
    case (1 j)
    have "endpoints_of (ConnectionStateTable t ! l) \<noteq> k" if "l < 3" for l using absent(3) that assms(1) by simp
    then show ?case using 1 absent(2) assms(1)
      by (intro absent(1) [of j]) (simp_all add: conn_at_def TCP_SetConnectionState_def is_conn put_conn_def endpoints_of_def)
  next
    case 2
    then show ?case using absent(3) assms(2) by (auto simp: room_def)
  qed
qed

section \<open>Opening a connection and receiving data\<close>

definition http_open :: "u8 tcp \<Rightarrow> bool" where
  "http_open t \<longleftrightarrow> PortStateTable t = [\<lparr>LocalPort = TCP_PORT_HTTP, PortState = TCP_Port_Open, ApplicationHandler = Webserver_ApplicationCallback\<rparr>]"

lemma http_open_put [simp]: "http_open (put_conn i e t) \<longleftrightarrow> http_open t"
  by (simp add: http_open_def)

lemma port_open: "http_open t \<Longrightarrow> TCP_GetPortState TCP_PORT_HTTP t = Some TCP_Port_Open"
  by (simp add: http_open_def TCP_GetPortState_def port_memory_def search_table.simps)

text \<open>The entry after the first segment of a connection, with the sequence number \<open>seq\<close>, and after the acknowledgement of the answer.\<close>

definition requested :: "endpoints \<Rightarrow> u32 \<Rightarrow> TCP_ConnectionState_t \<Rightarrow> TCP_ConnectionState_t" where
  "requested k seq e = e\<lparr>Port := fst k, RemoteAddress := fst (snd k), RemotePort := snd (snd k),
     State := TCP_Connection_SYNReceived,
     Info := (Info e)\<lparr>SequenceNumberIn := seq + 1, SequenceNumberOut := 0, Buffer := (Buffer (Info e))\<lparr>InUse := False\<rparr>\<rparr>\<rparr>"

definition confirmed :: "TCP_ConnectionState_t \<Rightarrow> TCP_ConnectionState_t" where
  "confirmed e = e\<lparr>State := TCP_Connection_Established, Info := (Info e)\<lparr>SequenceNumberOut := SequenceNumberOut (Info e) + 1\<rparr>\<rparr>"

lemma automaton_syn:
  assumes "http_open t" "length (ConnectionStateTable t) = 3" "room k t" "TCP_Header_t.DestinationPort th = TCP_PORT_HTTP" "TCP_Header_t.Flags th = TCP_FLAG_SYN"
  obtains i e where "i < 3" "ConnectionStateTable t ! i = e"
    "tcp_automaton ih p th k d t = Some (Done (Some (TCP_FLAG_SYN OR TCP_FLAG_ACK)), put_conn i (requested k (SwapEndian_32 (SequenceNumber th)) e) t)"
    "conn_at (put_conn i (requested k (SwapEndian_32 (SequenceNumber th)) e) t) k i (requested k (SwapEndian_32 (SequenceNumber th)) e)"
proof -
  let ?l = "\<lambda>e. e\<lparr>Port := fst k, RemoteAddress := fst (snd k), RemotePort := snd (snd k), State := TCP_Connection_Listen\<rparr>"
  let ?r = "\<lambda>e. requested k (SwapEndian_32 (SequenceNumber th)) e"
  obtain i e where i: "i < 3" "ConnectionStateTable t ! i = e" "conn_at (put_conn i (?l e) t) k i (?l e)"
    "TCP_SetConnectionState k TCP_Connection_Listen t = Some (True, put_conn i (?l e) t)"
    by (rule new_connection [OF assms(2,3)])
  let ?s = "e\<lparr>Port := fst k, RemoteAddress := fst (snd k), RemotePort := snd (snd k), State := TCP_Connection_SYNReceived\<rparr>"
  have s: "conn_at (put_conn i ?s t) k i ?s"
    using conn_at_put [OF i(3), of ?s] by (simp add: endpoints_of_def)
  have r: "conn_at (put_conn i (?r e) t) k i (?r e)"
    using conn_at_put [OF i(3), of "?r e"] by (simp add: endpoints_of_def requested_def)
  have "tcp_automaton ih p th k d t = Some (Done (Some (TCP_FLAG_SYN OR TCP_FLAG_ACK)), put_conn i (?r e) t)"
    using conn_at_operations [OF i(3)] conn_at_operations [OF s] i(4) assms(4,5) port_open [OF assms(1)]
    by (simp add: tcp_automaton_def tcp_state_switch_def tcp_listen_def requested_def)
  then show thesis using that i(1,2) r by blast
qed

lemma automaton_ack:
  assumes "http_open t" "conn_at t k i e" "State e = TCP_Connection_SYNReceived" "TCP_Header_t.DestinationPort th = TCP_PORT_HTTP" "TCP_Header_t.Flags th = TCP_FLAG_ACK"
  shows "tcp_automaton ih p th k d t = Some (Done None, put_conn i (confirmed e) t)"
proof -
  have "conn_at (put_conn i (e\<lparr>State := TCP_Connection_Established\<rparr>) t) k i (e\<lparr>State := TCP_Connection_Established\<rparr>)"
    using assms(2) by (intro conn_at_put) (auto simp: conn_at_def)
  from conn_at_operations(3) [OF this] show ?thesis
    using conn_at_operations [OF assms(2)] assms(3-5) port_open [OF assms(1)]
    by (simp add: tcp_automaton_def tcp_state_switch_def confirmed_def)
qed

text \<open>A segment of data with the push flag, for a connection whose buffer is free.\<close>

definition conn_received :: "u8 list \<Rightarrow> TCP_ConnectionState_t \<Rightarrow> TCP_ConnectionState_t" where
  "conn_received bs e = e\<lparr>Info := (Info e)\<lparr>SequenceNumberIn := SequenceNumberIn (Info e) + of_nat (length bs),
     Buffer := \<lparr>Length = of_nat (length bs), Data = bs @ drop (length bs) (Data (Buffer (Info e))), Direction = TCP_PACKETDIR_IN,
       Ready = True, InUse = False\<rparr>\<rparr>\<rparr>"

lemma automaton_data:
  assumes "http_open t" "conn_at t k i e" "State e = TCP_Connection_Established" "TCP_Header_t.DestinationPort th = TCP_PORT_HTTP"
    "TCP_Header_t.Flags th = TCP_FLAG_ACK OR TCP_FLAG_PSH" "\<not> InUse (Buffer (Info e))" "\<not> Ready (Buffer (Info e))" "length (Data (Buffer (Info e))) = 512"
    "HeaderLength ih = 5" "DataOffset th = 5" "SwapEndian_16 (TotalLength ih) = of_nat (40 + length bs)" "length bs \<le> 512"
    "holds_at (p + 20) bs d"
  shows "tcp_automaton ih p th k d t = Some (Done (Some TCP_FLAG_ACK), put_conn i (conn_received bs e) t)"
proof -
  have n: "unat (of_nat (length bs) :: u16) = length bs" using assms(12) by (simp add: unsigned_of_nat take_bit_nat_eq_self)
  have pk: "peek (p + 20) (length bs) d = Some bs" by (rule holds_peek [OF assms(13) refl])
  let ?f = "e\<lparr>Info := (Info e)\<lparr>Buffer := (Buffer (Info e))\<lparr>Direction := TCP_PACKETDIR_IN, InUse := True, Length := 0\<rparr>\<rparr>\<rparr>"
  have f: "conn_at (put_conn i ?f t) k i ?f" using assms(2) by (intro conn_at_put) (auto simp: conn_at_def)
  have r: "?f\<lparr>Info := store_data bs True (Info ?f)\<rparr> = conn_received bs e"
    by (simp add: store_data_def conn_received_def Let_def)
  then have g: "conn_at (put_conn i (conn_received bs e) t) k i (conn_received bs e)" using assms(2) by (intro conn_at_put) (auto simp: conn_at_def conn_received_def)
  have c: "change_info (store_data bs True) k (put_conn i ?f t) = Some (put_conn i (conn_received bs e) t)"
    using conn_at_operations(3) [OF f, of "store_data bs True"] unfolding r by simp
  have psh: "(0x18 :: u8) AND 8 \<noteq> 0" "(0x10 :: u8) OR 8 = 0x18" "(0x18 :: u8) AND 2 = 0" "(0x18 :: u8) AND 4 = 0" by simp_all
  have "tcp_receive_data ih p th k d t = Some (Done (Some TCP_FLAG_ACK), put_conn i (conn_received bs e) t)"
    using conn_at_operations(2,3) [OF assms(2)] conn_at_operations(2) [OF f] conn_at_operations(2) [OF g] c n pk assms(5-12)
    by (simp add: tcp_receive_data_def Let_def del: of_nat_add) (simp add: conn_received_def)
  then show ?thesis
    using conn_at_operations(1) [OF assms(2)] assms(3-5) port_open [OF assms(1)]
    by (simp add: tcp_automaton_def tcp_state_switch_def tcp_established_def psh)
qed

text \<open>
  Segments in Ethernet frames, and a whole session with the web server: the connection is opened, a page
  requested and delivered.
\<close>

section \<open>Segments in frames\<close>

lemma tcp_of_bytes: "DataOffset h = 5 \<Longrightarrow> Reserved h = 0 \<Longrightarrow> tcp_of (tcp_bytes h) = h"
  by (cases h) (simp add: tcp_of_def tcp_bytes_def peek16_def peek32_def bytes16_def bytes32_def)

lemma length_tcp [simp]: "length (tcp_bytes h) = 20"
  by (simp add: tcp_bytes_def)

definition good_segment :: "MAC_Address_t \<Rightarrow> IP_Header_t \<Rightarrow> TCP_Header_t \<Rightarrow> u8 list \<Rightarrow> bool" where
  "good_segment mac h th data \<longleftrightarrow> length mac = 6 \<and> ip_addressed h \<and> Protocol h = PROTOCOL_TCP \<and> DataOffset th = 5 \<and> Reserved th = 0 \<and>
     TCP_Header_t.DestinationPort th = TCP_PORT_HTTP \<and> TotalLength h = SwapEndian_16 (of_nat (40 + length data)) \<and> length data \<le> 512"

definition segment :: "MAC_Address_t \<Rightarrow> IP_Header_t \<Rightarrow> TCP_Header_t \<Rightarrow> u8 list \<Rightarrow> u8 list" where
  "segment mac h th data =
     ethernet_bytes \<lparr>Destination = ServerMACAddress, Source = mac, EtherType = SwapEndian_16 ETHERTYPE_IPV4\<rparr> @
     ip_bytes h @ tcp_bytes th @ data"

definition frame_waits :: "u8 list \<Rightarrow> rndis \<Rightarrow> bool" where
  "frame_waits q d \<longleftrightarrow> length d = sizeof_State \<and> holds_at o_FrameIN q d \<and>
     SwapEndian_16 (peek16 d (o_FrameIN + o_FrameLength)) > ETHERNET_VER2_MINSIZE"

lemma segment_parts:
  assumes "good_segment mac h th data" "frame_waits (segment mac h th data) d"
  shows "holds_at 134 (ethernet_bytes \<lparr>Destination = ServerMACAddress, Source = mac, EtherType = SwapEndian_16 ETHERTYPE_IPV4\<rparr>) d"
    "holds_at 148 (ip_bytes h) d" "holds_at 168 (tcp_bytes th) d" "holds_at 188 data d"
proof -
  have g: "length mac = 6" "ip_addressed h" using assms(1) by (simp_all add: good_segment_def)
  have "holds_at 134 (ethernet_bytes \<lparr>Destination = ServerMACAddress, Source = mac, EtherType = SwapEndian_16 ETHERTYPE_IPV4\<rparr> @
      ip_bytes h @ tcp_bytes th @ data) d" using assms(2) by (simp add: frame_waits_def segment_def)
  then show "holds_at 134 (ethernet_bytes \<lparr>Destination = ServerMACAddress, Source = mac, EtherType = SwapEndian_16 ETHERTYPE_IPV4\<rparr>) d"
    "holds_at 148 (ip_bytes h) d" "holds_at 168 (tcp_bytes th) d" "holds_at 188 data d"
    using g ip_addressed_of(1) [OF g(2)] by (simp_all add: holds_append)
qed

lemma tcp_checksum_exists: "p + 20 \<le> length d \<Longrightarrow> \<exists>c. TCP_Checksum16 p a b 20 d = Some c"
proof -
  assume l: "p + 20 \<le> length d"
  have h: "unat (drop_bit 1 20 :: u16) = 10" "\<not> bit (20 :: u16) 0" using unat_half [of 20] by (simp_all add: bit_0)
  show ?thesis
    using sum_words_from [of 0 10 "drop_bit 1 20" p d] h l by (simp add: TCP_Checksum16_def Let_def)
qed

definition segment_reply :: "MAC_Address_t \<Rightarrow> IP_Header_t \<Rightarrow> u16 \<Rightarrow> TCP_Header_t \<Rightarrow> u8 list" where
  "segment_reply mac h c th =
     ethernet_bytes \<lparr>Destination = mac, Source = ServerMACAddress, EtherType = SwapEndian_16 ETHERTYPE_IPV4\<rparr> @ ip_reply h 20 c @ tcp_bytes th"

abbreviation segment_key :: "IP_Header_t \<Rightarrow> TCP_Header_t \<Rightarrow> endpoints" where
  "segment_key h th \<equiv> (TCP_Header_t.DestinationPort th, SourceAddress h, TCP_Header_t.SourcePort th)"

lemma tcp_answer:
  assumes "good_segment mac h th data" "frame_waits (segment mac h th data) d"
    "tcp_automaton (ip_of (ip_bytes h)) 168 th (segment_key h th) d t = Some (Done (Some fl), t')" "read_info (segment_key h th) t' = Some info"
  obtains c where "TCP_ProcessTCPPacket 148 168 1671 d t =
      Some (20, upd 1671 (tcp_bytes ((tcp_response_header th fl info)\<lparr>TCP_Header_t.Checksum := c\<rparr>)) d, t')"
proof -
  have g: "ip_addressed h" "DataOffset th = 5" "Reserved th = 0" using assms(1) by (simp_all add: good_segment_def)
  have l: "length d = sizeof_State" using assms(2) by (simp add: frame_waits_def)
  note s = segment_parts [OF assms(1,2)] and ia = ip_addressed_of [OF g(1)]
  have p: "peek 148 20 d = Some (ip_bytes h)" "peek 168 20 d = Some (tcp_bytes th)"
    by (rule holds_peek, rule s, simp add: ia)+
  let ?h = "tcp_response_header th fl info"
  obtain c where c: "TCP_Checksum16 1671 (DestinationAddress h) (SourceAddress h) 20 (upd 1671 (tcp_bytes ?h) d) = Some c"
    using tcp_checksum_exists [of 1671 "upd 1671 (tcp_bytes ?h) d"] l by auto
  have "upd 1671 (tcp_bytes (?h\<lparr>TCP_Header_t.Checksum := c\<rparr>)) (upd 1671 (tcp_bytes ?h) d) = upd 1671 (tcp_bytes (?h\<lparr>TCP_Header_t.Checksum := c\<rparr>)) d"
    by (rule upd_again) (use l in simp_all)
  then have k: "poke 1671 (tcp_bytes ?h) d = Some (upd 1671 (tcp_bytes ?h) d)"
    "poke 1671 (tcp_bytes (?h\<lparr>TCP_Header_t.Checksum := c\<rparr>)) (upd 1671 (tcp_bytes ?h) d) = Some (upd 1671 (tcp_bytes (?h\<lparr>TCP_Header_t.Checksum := c\<rparr>)) d)"
    using l by (simp_all add: poke_some)
  show thesis
    by (rule that [of c]) (use p c k assms(3,4) in \<open>simp add: TCP_ProcessTCPPacket_def Let_def ia tcp_of_bytes [OF g(2,3)]\<close>)
qed

lemma ip_tcp_answer:
  assumes "good_segment mac h th data" "frame_waits (segment mac h th data) d"
    "tcp_automaton (ip_of (ip_bytes h)) 168 th (segment_key h th) d t = Some (Done (Some fl), t')" "read_info (segment_key h th) t' = Some info"
  obtains c c2 where "IP_ProcessIPPacket 134 148 1651 d t =
      Some (40, upd 1651 (ip_reply h 20 c @ tcp_bytes ((tcp_response_header th fl info)\<lparr>TCP_Header_t.Checksum := c2\<rparr>)) d, t')"
proof -
  have g: "ip_addressed h" "Protocol h = PROTOCOL_TCP" using assms(1) by (simp_all add: good_segment_def)
  have l: "length d = sizeof_State" using assms(2) by (simp add: frame_waits_def)
  note s = segment_parts [OF assms(1,2)] and ia = ip_addressed_of [OF g(1)]
  obtain c2 where t: "TCP_ProcessTCPPacket 148 168 1671 d t =
      Some (20, upd 1671 (tcp_bytes ((tcp_response_header th fl info)\<lparr>TCP_Header_t.Checksum := c2\<rparr>)) d, t')"
    by (rule tcp_answer [OF assms])
  let ?bs = "tcp_bytes ((tcp_response_header th fl info)\<lparr>TCP_Header_t.Checksum := c2\<rparr>)"
  have p: "peek 148 20 d = Some (ip_bytes h)" by (rule holds_peek [OF s(2)]) (simp add: ia)
  have e: "holds_at 148 (ip_bytes h) (upd (1651 + 20) ?bs d)" by (rule holds_upd_other [OF s(2)]) (simp add: ia)
  obtain c where c: "do {
       bs' \<leftarrow> peek 148 20 (upd (1651 + 20) ?bs d);
       let hd = ip_response_header (ip_of bs') (of_nat (length ?bs));
       d \<leftarrow> poke 1651 (ip_bytes hd) (upd (1651 + 20) ?bs d);
       c \<leftarrow> Ethernet_Checksum16 1651 (of_nat sizeof_IP) d;
       d \<leftarrow> poke 1651 (ip_bytes (hd\<lparr>HeaderChecksum := c\<rparr>)) d;
       Some (of_nat sizeof_IP + of_nat (length ?bs) :: u16, d, t')
     } = Some (of_nat (20 + length ?bs), upd 1651 (ip_reply h (length ?bs) c @ ?bs) d, t')"
    by (rule finish_ip [OF g(1) e refl, of t']) (use l in simp_all)
  have dest: "DestinationAddress h = ServerIPAddress \<or> DestinationAddress h = BroadcastIPAddress"
    using g(1) by (simp add: ip_addressed_def)
  have r: "is_response 20" using small_response [of 20] by simp
  show thesis
    by (rule that [of c c2], use dest in \<open>elim disjE\<close>) (use g(2) c t r in \<open>simp_all add: IP_ProcessIPPacket_def p ia Let_def\<close>)
qed

lemma segment_answered:
  assumes "good_segment mac h th data" "frame_waits (segment mac h th data) d"
    "tcp_automaton (ip_of (ip_bytes h)) 168 th (segment_key h th) d t = Some (Done (Some fl), t')" "read_info (segment_key h th) t' = Some info"
  obtains d' c c2 where "Ethernet_ProcessPacket o_FrameIN o_FrameOUT d t = Some (d', t')" "length d' = sizeof_State"
    "d' ! (o_FrameIN + o_FrameInBuffer) = 0" "d' ! (o_FrameOUT + o_FrameInBuffer) \<noteq> 0"
    "frame_out d' = segment_reply mac h c ((tcp_response_header th fl info)\<lparr>TCP_Header_t.Checksum := c2\<rparr>)"
proof -
  have g: "length mac = 6" "ip_addressed h" using assms(1) by (simp_all add: good_segment_def)
  have l: "length d = sizeof_State" using assms(2) by (simp add: frame_waits_def)
  note s = segment_parts [OF assms(1,2)] and ia = ip_addressed_of [OF g(2)]
  obtain c c2 where i: "IP_ProcessIPPacket 134 148 1651 d t =
      Some (40, upd 1651 (ip_reply h 20 c @ tcp_bytes ((tcp_response_header th fl info)\<lparr>TCP_Header_t.Checksum := c2\<rparr>)) d, t')"
    by (rule ip_tcp_answer [OF assms])
  let ?bs = "ip_reply h 20 c @ tcp_bytes ((tcp_response_header th fl info)\<lparr>TCP_Header_t.Checksum := c2\<rparr>)"
  have lb: "length ?bs = 40" by (simp add: ip_reply_def ia)
  let ?ty = "SwapEndian_16 ETHERTYPE_IPV4"
  let ?oh = "\<lparr>Destination = mac, Source = ServerMACAddress, EtherType = ?ty\<rparr>"
  have f: "frame_accepted \<lparr>Destination = ServerMACAddress, Source = mac, EtherType = ?ty\<rparr> (peek16 d (o_FrameIN + o_FrameLength))"
    using assms(2) by (simp add: frame_accepted_def frame_waits_def)
  have e: "Ethernet_ProcessPacket o_FrameIN o_FrameOUT d t = Some (upd 1636 [0] (upd 3139 [1] (upd 3137 (bytes16 (of_nat (14 + length ?bs)))
      (upd o_FrameOUT (ethernet_bytes ?oh @ ?bs) d))), t')"
    by (rule frame_answer [OF g(1) _ f s(1)]) (use i lb l in \<open>simp_all add: type_swapped\<close>)
  have q: "length (ethernet_bytes ?oh @ ?bs) \<le> ETHERNET_FRAME_SIZE_MAX" "unat (of_nat (14 + length ?bs) :: u16) = length (ethernet_bytes ?oh @ ?bs)"
    using g(1) lb by simp_all
  show thesis
    by (rule that [OF e, of c c2]) (use answered_memory [OF l q refl] in \<open>simp_all add: segment_reply_def\<close>)
qed

lemma segment_absorbed:
  assumes "good_segment mac h th data" "frame_waits (segment mac h th data) d"
    "tcp_automaton (ip_of (ip_bytes h)) 168 th (segment_key h th) d t = Some (Done None, t')"
  shows "Ethernet_ProcessPacket o_FrameIN o_FrameOUT d t = Some (upd 1636 [0] d, t')"
proof -
  have g: "length mac = 6" "ip_addressed h" "Protocol h = PROTOCOL_TCP" "DataOffset th = 5" "Reserved th = 0"
    using assms(1) by (simp_all add: good_segment_def)
  have l: "length d = sizeof_State" using assms(2) by (simp add: frame_waits_def)
  note s = segment_parts [OF assms(1,2)] and ia = ip_addressed_of [OF g(2)]
  let ?eh = "\<lparr>Destination = ServerMACAddress, Source = mac, EtherType = SwapEndian_16 ETHERTYPE_IPV4\<rparr>"
  have p: "peek 148 20 d = Some (ip_bytes h)" "peek 168 20 d = Some (tcp_bytes th)" by (rule holds_peek, rule s, simp add: ia)+
  have t: "TCP_ProcessTCPPacket 148 168 1671 d t = Some (NO_RESPONSE, d, t')"
    using p assms(3) by (simp add: TCP_ProcessTCPPacket_def Let_def ia tcp_of_bytes [OF g(4,5)])
  have dest: "DestinationAddress h = ServerIPAddress \<or> DestinationAddress h = BroadcastIPAddress"
    using g(2) by (simp add: ip_addressed_def)
  have i: "IP_ProcessIPPacket 134 148 1651 d t = Some (NO_RESPONSE, d, t')"
    using dest by (elim disjE) (use g(3) t in \<open>simp_all add: IP_ProcessIPPacket_def p ia Let_def is_response_def\<close>)
  have q: "peek 134 14 d = Some (ethernet_bytes ?eh)" by (rule holds_peek [OF s(1)]) (use g(1) in simp)
  have eo: "ethernet_of (ethernet_bytes ?eh) = ?eh" by (rule ethernet_of_bytes) (use g(1) in simp_all)
  have f: "frame_accepted ?eh (peek16 d (134 + 1500))" using assms(2) by (simp add: frame_accepted_def frame_waits_def)
  show ?thesis
    using f i l by (simp add: Ethernet_ProcessPacket_def Let_def q eo type_swapped poke_some is_response_def)
qed

end
