(* ===== verification/Net_Page.thy ===== *)
theory Net_Page
  imports Net_Session
begin

text \<open>
  The task of \<open>TCP.c\<close> with the web server as the application: what is sent for the data in the buffer of a
  connection, and the page block by block.
\<close>

section \<open>Sending the buffer of a connection\<close>

lemma tcp_checksum_of_size: "unat N < 512 \<Longrightarrow> p + unat N + 1 \<le> length d \<Longrightarrow> \<exists>c. TCP_Checksum16 p a b N d = Some c"
proof -
  assume n: "unat N < 512" and l: "p + unat N + 1 \<le> length d"
  have h: "unat (drop_bit 1 N) = unat N div 2" "unat N div 2 < 256" "p + 2 * (unat N div 2) \<le> length d" using unat_half n l by auto
  have o: "p + 2 * (unat N div 2) + 2 \<le> length d" if "bit N 0"
  proof -
    have "bit (unat N) 0" using that by (simp add: bit_unsigned_iff)
    then have "odd (unat N)" by (simp add: bit_0)
    then show ?thesis using l by presburger
  qed
  show ?thesis
    using sum_words_from [of 0 "unat N div 2" "drop_bit 1 N" p d] h o
    by (auto simp: TCP_Checksum16_def Let_def peek_def)
qed

definition data_frame :: "TCP_ConnectionState_t \<Rightarrow> u8 list \<Rightarrow> u16 \<Rightarrow> u16 \<Rightarrow> u8 list" where
  "data_frame e data c c2 =
     ethernet_bytes \<lparr>Destination = AdapterMAC, Source = ServerMACAddress, EtherType = SwapEndian_16 ETHERTYPE_IPV4\<rparr> @
     ip_bytes \<lparr>HeaderLength = 5, IP_Header_t.Version = 4, TypeOfService = 0, TotalLength = SwapEndian_16 (of_nat (40 + length data)),
       Identification = 0, FragmentOffset = 0, FragmentFlags = 0, TTL = DEFAULT_TTL, Protocol = PROTOCOL_TCP,
       HeaderChecksum = c, SourceAddress = ServerIPAddress, DestinationAddress = RemoteAddress e\<rparr> @
     tcp_bytes \<lparr>TCP_Header_t.SourcePort = Port e, TCP_Header_t.DestinationPort = RemotePort e, SequenceNumber = SwapEndian_32 (SequenceNumberOut (Info e)),
       AcknowledgmentNumber = SwapEndian_32 (SequenceNumberIn (Info e)), Reserved = 0, DataOffset = 5,
       TCP_Header_t.Flags = TCP_FLAG_ACK, WindowSize = SwapEndian_16 TCP_WINDOW_SIZE, TCP_Header_t.Checksum = c2, UrgentPointer = 0\<rparr> @ data"

definition conn_sent :: "TCP_ConnectionState_t \<Rightarrow> TCP_ConnectionState_t" where
  "conn_sent e = e\<lparr>Info := (Info e)\<lparr>SequenceNumberOut := SequenceNumberOut (Info e) + ucast (TCP_ConnectionBuffer_t.Length (Buffer (Info e))),
     Buffer := (Buffer (Info e))\<lparr>Ready := False\<rparr>\<rparr>\<rparr>"

lemma length_data_frame: "length (RemoteAddress e) = 4 \<Longrightarrow> length (data_frame e data c c2) = 54 + length data"
  by (simp add: data_frame_def AdapterMAC_def)

lemma upd_pair: "p + length xs + length ys \<le> length d \<Longrightarrow> length xs' = length xs \<Longrightarrow>
    upd p xs' (upd (p + length xs) ys (upd p xs d)) = upd p (xs' @ ys) d"
  by (rule nth_equalityI) (auto simp: nth_upd nth_append)

lemma send_data:
  assumes "length d = sizeof_State" "e = ConnectionStateTable t ! i" "length (RemoteAddress e) = 4"
    "TCP_ConnectionBuffer_t.Length (Buffer (Info e)) = of_nat n" "n < 492" "n \<le> length (TCP_ConnectionBuffer_t.Data (Buffer (Info e)))"
  obtains c c2 where "send_connection 1637 i d t = Some (upd 3139 [1] (upd 3137 (bytes16 (of_nat (54 + n)))
      (upd 1637 (data_frame e (take n (TCP_ConnectionBuffer_t.Data (Buffer (Info e)))) c c2) d)), put_conn i (conn_sent e) t)"
proof -
  let ?data = "take n (TCP_ConnectionBuffer_t.Data (Buffer (Info e)))"
  let ?ih = "\<lambda>c. \<lparr>HeaderLength = 5, IP_Header_t.Version = 4, TypeOfService = 0, TotalLength = SwapEndian_16 (of_nat (40 + n)),
       Identification = 0, FragmentOffset = 0, FragmentFlags = 0, TTL = DEFAULT_TTL, Protocol = PROTOCOL_TCP,
       HeaderChecksum = c, SourceAddress = ServerIPAddress, DestinationAddress = RemoteAddress e\<rparr>"
  let ?th = "\<lambda>c. \<lparr>TCP_Header_t.SourcePort = Port e, TCP_Header_t.DestinationPort = RemotePort e, SequenceNumber = SwapEndian_32 (SequenceNumberOut (Info e)),
       AcknowledgmentNumber = SwapEndian_32 (SequenceNumberIn (Info e)), Reserved = 0, DataOffset = 5,
       TCP_Header_t.Flags = TCP_FLAG_ACK, WindowSize = SwapEndian_16 TCP_WINDOW_SIZE, TCP_Header_t.Checksum = c, UrgentPointer = 0\<rparr>"
  let ?eh = "\<lparr>Destination = AdapterMAC, Source = ServerMACAddress, EtherType = SwapEndian_16 ETHERTYPE_IPV4\<rparr>"
  have ld: "length ?data = n" using assms(6) by simp
  have n: "unat (of_nat n :: u16) = n" using assms(5) by (simp add: unsigned_of_nat take_bit_nat_eq_self)
  have pk: "peek 0 n (TCP_ConnectionBuffer_t.Data (Buffer (Info e))) = Some ?data" using assms(6) by (simp add: peek_def)
  let ?d1 = "upd 1671 (tcp_bytes (?th 0)) d"
  let ?d2 = "upd 1691 ?data ?d1"
  have k1: "poke 1671 (tcp_bytes (?th 0)) d = Some ?d1" "poke 1691 ?data ?d1 = Some ?d2"
    using assms(1,5) ld by (simp_all add: poke_some)
  have N: "unat (20 + of_nat n :: u16) = 20 + n"
    using assms(5) by (simp add: unat_word_ariths n)
  obtain c2 where c2: "TCP_Checksum16 1671 ServerIPAddress (RemoteAddress e) (20 + of_nat n) ?d2 = Some c2"
    using tcp_checksum_of_size [of "20 + of_nat n" 1671 ?d2] N assms(1,5) by auto
  let ?d3 = "upd 1671 (tcp_bytes (?th c2) @ ?data) d"
  have "upd 1671 (tcp_bytes (?th c2)) ?d2 = ?d3"
    using upd_pair [of 1671 "tcp_bytes (?th 0)" ?data d "tcp_bytes (?th c2)"] assms(1,5) ld by simp
  then have k3: "poke 1671 (tcp_bytes (?th c2)) ?d2 = Some ?d3" using assms(1) by (simp add: poke_some)
  have l3: "length ?d3 = sizeof_State" using assms(1) by simp
  have li: "length (ip_bytes (?ih c)) = 20" for c using assms(3) by simp
  obtain c where c: "Ethernet_Checksum16 1651 20 (upd 1651 (ip_bytes (?ih 0)) ?d3) = Some c"
    using ip_header_accepted [of "?ih 0" 1651 ?d3] assms(3) l3 by auto
  have k4: "poke 1651 (ip_bytes (?ih 0)) ?d3 = Some (upd 1651 (ip_bytes (?ih 0)) ?d3)" using li l3 by (simp add: poke_some)
  let ?d4 = "upd 1651 (ip_bytes (?ih c) @ tcp_bytes (?th c2) @ ?data) d"
  have "upd 1651 (ip_bytes (?ih c)) (upd 1651 (ip_bytes (?ih 0)) ?d3) = upd 1651 (ip_bytes (?ih c)) ?d3"
    by (rule upd_again) (use li l3 in simp_all)
  also have "\<dots> = ?d4" using upd_before [of 1651 "ip_bytes (?ih c)" "tcp_bytes (?th c2) @ ?data" d] li assms(1,5) ld by simp
  finally have k5: "poke 1651 (ip_bytes (?ih c)) (upd 1651 (ip_bytes (?ih 0)) ?d3) = Some ?d4" using li l3 by (simp add: poke_some)
  have le: "length (ethernet_bytes ?eh) = 14" by (simp add: AdapterMAC_def)
  have k6: "poke 1637 (ethernet_bytes ?eh) ?d4 = Some (upd 1637 (data_frame e ?data c c2) d)"
    using upd_before [of 1637 "ethernet_bytes ?eh" "ip_bytes (?ih c) @ tcp_bytes (?th c2) @ ?data" d] le li assms(1,5) ld
    by (simp add: poke_some data_frame_def)
  have s: "(20 :: u16) + (of_nat n + 20) = of_nat (40 + n)" "(of_nat n :: u16) + 20 + 20 + 14 = of_nat (54 + n)" "(54 :: u16) + of_nat n = of_nat (54 + n)" by simp_all
  let ?d6 = "upd 1637 (data_frame e ?data c c2) d"
  have k7: "poke 3137 (bytes16 (of_nat (54 + n))) ?d6 = Some (upd 3137 (bytes16 (of_nat (54 + n))) ?d6)"
    "poke 3139 [1] (upd 3137 (bytes16 (of_nat (54 + n))) ?d6) = Some (upd 3139 [1] (upd 3137 (bytes16 (of_nat (54 + n))) ?d6))"
    using assms(1) by (simp_all add: poke_some)
  show thesis
    by (rule that [of c c2])
      (use k1 k3 k4 k5 k6 k7 c c2 pk assms(4) n s in \<open>simp add: send_connection_def Let_def assms(2) [symmetric] put_conn_def conn_sent_def del: of_nat_add\<close>)
qed

section \<open>A round of the task\<close>

definition idle_conn :: "TCP_ConnectionState_t \<Rightarrow> bool" where
  "idle_conn e \<longleftrightarrow> \<not> Ready (Buffer (Info e)) \<and> \<not> InUse (Buffer (Info e))"

definition others_idle :: "u8 tcp \<Rightarrow> nat \<Rightarrow> bool" where
  "others_idle t i \<longleftrightarrow> length (ConnectionStateTable t) = 3 \<and> i < 3 \<and> (\<forall>l < 3. l \<noteq> i \<longrightarrow> idle_conn (ConnectionStateTable t ! l))"

lemma others_idle_put [simp]: "others_idle (put_conn i e t) i \<longleftrightarrow> others_idle t i"
  by (simp add: others_idle_def)

lemma idle_handler:
  "http_open t \<Longrightarrow> idle_conn (ConnectionStateTable t ! l) \<Longrightarrow> l < length (ConnectionStateTable t) \<Longrightarrow> run_handler l 0 t = Some t"
  by (simp add: run_handler_def http_open_def Let_def Webserver_ApplicationCallback_def TCP_APP_HAS_RECEIVED_PACKET_def
      TCP_APP_HAVE_CAPTURED_BUFFER_def idle_conn_def)

lemma one_application:
  assumes "http_open t" "others_idle t i" "Port (ConnectionStateTable t ! i) = TCP_PORT_HTTP"
    "Webserver_ApplicationCallback (ConnectionStateTable t ! i) (app t) = Some (e, a)"
  shows "run_applications t = Some ((put_conn i e t)\<lparr>app := a\<rparr>)"
proof -
  let ?t = "(put_conn i e t)\<lparr>app := a\<rparr>"
  have l: "length (ConnectionStateTable t) = 3" "i < 3" using assms(2) by (simp_all add: others_idle_def)
  have r: "run_handler i 0 t = Some ?t"
    using assms(1,3,4) by (simp add: run_handler_def http_open_def Let_def put_conn_def)
  have b: "run_handler j 0 t = Some t" if "j < 3" "j \<noteq> i" for j
    by (rule idle_handler) (use assms(1,2) that l in \<open>simp_all add: others_idle_def\<close>)
  have a: "run_handler j 0 ?t = Some ?t" if "j < 3" "j \<noteq> i" for j
    by (rule idle_handler) (use assms(1,2) that l in \<open>simp_all add: others_idle_def http_open_def\<close>)
  have u: "[0..<3] = [0, 1, 2 :: nat]" by (simp add: upt_rec numeral_2_eq_2)
  consider "i = 0" | "i = 1" | "i = 2" using l(2) by linarith
  then show ?thesis
    by cases (use r a b in \<open>simp_all add: run_applications_def u\<close>)
qed

definition served :: "TCP_ConnectionState_t \<Rightarrow> u8 list \<Rightarrow> bool" where
  "served e data \<longleftrightarrow> Ready (Buffer (Info e)) \<and> Direction (Buffer (Info e)) = TCP_PACKETDIR_OUT \<and> length (RemoteAddress e) = 4 \<and>
     TCP_ConnectionBuffer_t.Length (Buffer (Info e)) = of_nat (length data) \<and> length data < 492 \<and>
     take (length data) (TCP_ConnectionBuffer_t.Data (Buffer (Info e))) = data"

lemma task_sends:
  assumes "http_open t" "others_idle t i" "Port (ConnectionStateTable t ! i) = TCP_PORT_HTTP"
    "Webserver_ApplicationCallback (ConnectionStateTable t ! i) (app t) = Some (e, a)" "served e data"
    "length d = sizeof_State" "d ! (o_FrameOUT + o_FrameInBuffer) = 0"
  obtains d' c c2 where "TCP_TCPTask d t = Some (d', (put_conn i (conn_sent e) t)\<lparr>app := a\<rparr>)" "length d' = sizeof_State"
    "d' ! (o_FrameOUT + o_FrameInBuffer) \<noteq> 0" "frame_out d' = data_frame e data c c2"
proof -
  let ?t = "(put_conn i e t)\<lparr>app := a\<rparr>"
  have l: "length (ConnectionStateTable t) = 3" "i < 3" using assms(2) by (simp_all add: others_idle_def)
  have s: "search_table ready_to_send 0 3 (ConnectionStateTable ?t) = Some (Some i)"
  proof (rule search_connection [of "ConnectionStateTable ?t" ready_to_send], goal_cases)
    case 1
    then show ?case using l by simp
  next
    case (2 j)
    have "\<not> ready_to_send (ConnectionStateTable ?t ! l)" if "l < 3" "l \<noteq> i" for l
      using assms(2) that by (simp add: others_idle_def idle_conn_def ready_to_send_def)
    then show ?case using 2 l by (cases "j = i") simp_all
  next
    case 3
    have "ready_to_send e" "e \<in> set (ConnectionStateTable ?t)" using assms(5) l by (simp_all add: served_def ready_to_send_def set_update_memI)
    then show ?case using 3 by blast
  qed
  have v: "length (RemoteAddress e) = 4" "TCP_ConnectionBuffer_t.Length (Buffer (Info e)) = of_nat (length data)" "length data < 492"
    "take (length data) (TCP_ConnectionBuffer_t.Data (Buffer (Info e))) = data" using assms(5) by (simp_all add: served_def)
  have le: "length data \<le> length (TCP_ConnectionBuffer_t.Data (Buffer (Info e)))" using arg_cong [OF v(4), of length] by simp
  have e: "e = ConnectionStateTable ?t ! i" using l by simp
  obtain c c2 where c: "send_connection 1637 i d ?t = Some (upd 3139 [1] (upd 3137 (bytes16 (of_nat (54 + length data)))
      (upd 1637 (data_frame e data c c2) d)), put_conn i (conn_sent e) ?t)"
    using send_data [OF assms(6) e v(1,2,3) le] v(4) by metis
  let ?q = "data_frame e data c c2" and ?v = "of_nat (54 + length data) :: u16"
  let ?e = "upd 3139 [1] (upd 3137 (bytes16 ?v) (upd 1637 ?q d))"
  have q: "length ?q = 54 + length data" "unat ?v = 54 + length data"
    using v(1,3) by (simp_all add: length_data_frame unsigned_of_nat take_bit_nat_eq_self del: of_nat_add)
  have h: "holds_at 1637 ?q (upd 1637 ?q d)" by (rule holds_upd) (use q assms(6) v(3) in simp)
  have "holds_at 1637 ?q ?e" by (rule holds_upd_other [OF holds_upd_other [OF h]]) (use q v(3) in simp_all)
  moreover have "peek16 ?e 3137 = ?v"
    using peek16_upd_other [of 3139 "[1]" "upd 3137 (bytes16 ?v) (upd 1637 ?q d)" 3137] peek16_upd [of 3137 "bytes16 ?v" "upd 1637 ?q d" 0] assms(6) by simp
  ultimately have f: "frame_out ?e = ?q" using q by (simp add: frame_out_def holds_at_def)
  have p: "put_conn i (conn_sent e) ?t = (put_conn i (conn_sent e) t)\<lparr>app := a\<rparr>" by (simp add: put_conn_def)
  show thesis
  proof (rule that [of ?e c c2])
    show "TCP_TCPTask d t = Some (?e, (put_conn i (conn_sent e) t)\<lparr>app := a\<rparr>)"
      using one_application [OF assms(1-4)] assms(7) s c p by (simp add: TCP_TCPTask_def)
    show "length ?e = sizeof_State" "?e ! (o_FrameOUT + o_FrameInBuffer) \<noteq> 0" using assms(6) by (simp_all add: nth_upd)
    show "frame_out ?e = ?q" by (rule f)
  qed
qed

text \<open>
  The page of the web server: which blocks its callback puts into the buffer, and what the host receives.
\<close>

section \<open>Texts\<close>

lemma header_text: "length HTTP200Header = 83" "0 \<notin> set HTTP200Header"
  by (simp_all add: HTTP200Header_def chars_def)

lemma page_text: "length HTTPPage = 531" "0 \<notin> set HTTPPage"
  by (simp_all add: HTTPPage_def chars_def)

lemma strlen_text: "0 \<notin> set xs \<Longrightarrow> strlen (xs @ 0 # ys) = length xs"
proof -
  assume "0 \<notin> set xs"
  then have "takeWhile (\<lambda>c. c \<noteq> 0) (xs @ 0 # ys) = xs" by (subst takeWhile_append2) auto
  then show ?thesis by (simp add: strlen_def)
qed

text \<open>The blocks of the page.\<close>

definition block :: "nat \<Rightarrow> u8 list" where
  "block j = take 128 (drop (128 * j) HTTPPage)"

lemma blocks: "concat (map block [0..<5]) = HTTPPage"
proof -
  have r: "take (128 * n) HTTPPage @ block n = take (128 * Suc n) HTTPPage" for n
    using take_add [of "128 * n" 128 HTTPPage] by (simp add: block_def add.commute)
  have "concat (map block [0..<n]) = take (128 * n) HTTPPage" for n
    by (induction n) (simp_all add: r del: mult_Suc_right)
  then show ?thesis by (simp add: page_text)
qed

section \<open>The callback\<close>

text \<open>A connection whose buffer the web server has captured for a page.\<close>

definition captured :: "TCP_ConnectionState_t \<Rightarrow> bool" where
  "captured e \<longleftrightarrow> \<not> Ready (Buffer (Info e)) \<and> InUse (Buffer (Info e)) \<and> Direction (Buffer (Info e)) = TCP_PACKETDIR_OUT \<and>
     length (TCP_ConnectionBuffer_t.Data (Buffer (Info e))) = 512 \<and> length (RemoteAddress e) = 4 \<and> Port e = TCP_PORT_HTTP"

definition asked :: "TCP_ConnectionState_t \<Rightarrow> bool" where
  "asked e \<longleftrightarrow> Ready (Buffer (Info e)) \<and> Direction (Buffer (Info e)) = TCP_PACKETDIR_IN \<and>
     length (TCP_ConnectionBuffer_t.Data (Buffer (Info e))) = 512 \<and> length (RemoteAddress e) = 4 \<and> Port e = TCP_PORT_HTTP \<and>
     take 6 (TCP_ConnectionBuffer_t.Data (Buffer (Info e))) = chars ''GET / ''"

lemma request_header:
  assumes "asked e"
  obtains e' where "Webserver_ApplicationCallback e a = Some (e', 0)" "served e' HTTP200Header" "captured (conn_sent e')"
    "endpoints_of e' = endpoints_of e" "State e' = State e" "SequenceNumberIn (Info e') = SequenceNumberIn (Info e)"
proof -
  let ?b = "Buffer (Info e)"
  let ?e = "on_buffer (\<lambda>b. TCP_APP_CAPTURE_BUFFER (send_string HTTP200Header b)) e"
  have t: "take 6 (TCP_ConnectionBuffer_t.Data ?b) = chars ''GET / ''" using assms by (simp add: asked_def)
  have n: "length ''GET'' = 3" "length ''GET / '' = 6" by simp_all
  have "take 3 (TCP_ConnectionBuffer_t.Data ?b) = take 3 (take 6 (TCP_ConnectionBuffer_t.Data ?b))" by simp
  then have g: "IsHTTPCommand (TCP_ConnectionBuffer_t.Data ?b) ''GET''" "IsHTTPCommand (TCP_ConnectionBuffer_t.Data ?b) ''GET / ''"
    unfolding IsHTTPCommand_def n t by (simp_all add: chars_def)
  have s: "strlen (HTTP200Header @ 0 # xs) = 83" for xs using strlen_text [OF header_text(2)] header_text(1) by simp
  have l: "length (TCP_ConnectionBuffer_t.Data ?b) = 512" using assms by (simp add: asked_def)
  show thesis
  proof (rule that [of ?e])
    show "Webserver_ApplicationCallback e a = Some (?e, 0)"
      using assms g by (simp add: Webserver_ApplicationCallback_def TCP_APP_HAS_RECEIVED_PACKET_def asked_def http_request_def Let_def)
    show "served ?e HTTP200Header" "captured (conn_sent ?e)"
      using assms s l header_text(1)
      by (simp_all add: served_def captured_def conn_sent_def on_buffer_def send_string_def Let_def TCP_APP_CAPTURE_BUFFER_def TCP_APP_SEND_BUFFER_def strcpy_P_def asked_def)
  qed (simp_all add: on_buffer_def endpoints_of_def TCP_APP_CAPTURE_BUFFER_def send_string_def Let_def)
qed

lemma next_block:
  assumes "captured e" "j < 5"
  obtains e' where "Webserver_ApplicationCallback e (of_nat j) = Some (e', of_nat (Suc j))" "served e' (block j)"
    "j < 4 \<Longrightarrow> captured (conn_sent e') \<and> State e' = State e" "j = 4 \<Longrightarrow> State e' = TCP_Connection_Closing \<and> idle_conn (conn_sent e')"
    "endpoints_of e' = endpoints_of e" "SequenceNumberIn (Info e') = SequenceNumberIn (Info e)"
proof -
  let ?b = "Buffer (Info e)"
  have u: "unat (of_nat j :: u8) = j" using assms(2) by (simp add: unsigned_of_nat take_bit_nat_eq_self)
  have p: "j * 128 \<le> 531" using assms(2) by simp
  have "0 \<notin> set (drop (j * 128) HTTPPage)" using page_text(2) in_set_dropD by metis
  then have s: "strlen (drop (j * 128) (HTTPPage @ [0])) = 531 - j * 128"
    using strlen_text [of "drop (j * 128) HTTPPage" "[]"] p by (simp add: page_text(1))
  define len where "len = (if 531 - j * 128 > 128 then 128 else 531 - j * 128)"
  have len: "len \<le> 128" "len \<le> 531 - j * 128" by (simp_all add: len_def)
  have b: "block j = take len (drop (j * 128) (HTTPPage @ [0]))" "length (block j) = len"
    using p by (simp_all add: block_def len_def page_text(1) mult.commute)
  let ?f = "on_buffer (\<lambda>b. TCP_APP_SEND_BUFFER (of_nat len) (b\<lparr>TCP_ConnectionBuffer_t.Data := block j @ drop len (TCP_ConnectionBuffer_t.Data b)\<rparr>)) e"
  let ?e = "if j = 4 then TCP_APP_CLOSECONNECTION (on_buffer TCP_APP_RELEASE_BUFFER ?f) else ?f"
  have n: "http_next_block e (of_nat j) = Some (?e, of_nat (Suc j))"
    unfolding http_next_block_def Let_def u s len_def [symmetric] b(1) [symmetric] using p by (simp add: page_text(1))
  have tk: "take len (block j @ xs) = block j" for xs using b(2) by simp
  have c: "captured e" "length (TCP_ConnectionBuffer_t.Data ?b) = 512" using assms(1) by (simp_all add: captured_def)
  show thesis
  proof (rule that [of ?e])
    show "Webserver_ApplicationCallback e (of_nat j) = Some (?e, of_nat (Suc j))"
      using n c(1) by (simp add: Webserver_ApplicationCallback_def TCP_APP_HAS_RECEIVED_PACKET_def TCP_APP_HAVE_CAPTURED_BUFFER_def captured_def)
    show "served ?e (block j)"
      using c len b(2) tk by (cases "j = 4") (simp_all add: served_def captured_def on_buffer_def TCP_APP_SEND_BUFFER_def TCP_APP_CLOSECONNECTION_def TCP_APP_RELEASE_BUFFER_def)
    show "captured (conn_sent ?e) \<and> State ?e = State e" if "j < 4"
      using that c len b(2) by (simp add: captured_def conn_sent_def on_buffer_def TCP_APP_SEND_BUFFER_def)
    show "State ?e = TCP_Connection_Closing \<and> idle_conn (conn_sent ?e)" if "j = 4"
      using that by (simp add: idle_conn_def conn_sent_def on_buffer_def TCP_APP_SEND_BUFFER_def TCP_APP_CLOSECONNECTION_def TCP_APP_RELEASE_BUFFER_def)
  qed (simp_all add: on_buffer_def endpoints_of_def TCP_APP_SEND_BUFFER_def TCP_APP_CLOSECONNECTION_def TCP_APP_RELEASE_BUFFER_def)
qed

section \<open>Rounds of the task\<close>

text \<open>What the host receives in \<open>n\<close> rounds, when each frame is sent before the next round.\<close>

fun serve :: "nat \<Rightarrow> rndis \<Rightarrow> u8 tcp \<Rightarrow> (u8 list \<times> rndis \<times> u8 tcp) option" where
  "serve 0 d t = Some ([], d, t)" |
  "serve (Suc n) d t =
     do {
       (d, t) \<leftarrow> TCP_TCPTask d t;
       let data = (if d ! (o_FrameOUT + o_FrameInBuffer) \<noteq> 0 then drop 54 (frame_out d) else []);
       (bs, d, t) \<leftarrow> serve n (upd (o_FrameOUT + o_FrameInBuffer) [0] d) t;
       Some (data @ bs, d, t)
     }"

lemma conn_at_app [simp]: "conn_at (t\<lparr>app := a\<rparr>) k i e \<longleftrightarrow> conn_at t k i e"
  by (simp add: conn_at_def)

lemma conn_sent_fields [simp]: "State (conn_sent e) = State e" "endpoints_of (conn_sent e) = endpoints_of e"
  by (simp_all add: conn_sent_def)

lemma served_round:
  assumes "http_open t" "others_idle t i" "conn_at t k i e" "fst k = TCP_PORT_HTTP" "Webserver_ApplicationCallback e (app t) = Some (e', a)"
    "served e' data" "endpoints_of e' = endpoints_of e" "length d = sizeof_State" "d ! (o_FrameOUT + o_FrameInBuffer) = 0"
  obtains d' t' where "\<And>n. serve (Suc n) d t = do { (bs, d, t) \<leftarrow> serve n d' t'; Some (data @ bs, d, t) }" "http_open t'" "others_idle t' i"
    "conn_at t' k i (conn_sent e')" "app t' = a" "length d' = sizeof_State" "d' ! (o_FrameOUT + o_FrameInBuffer) = 0"
proof -
  have e: "ConnectionStateTable t ! i = e" "endpoints_of e = k" using assms(3) by (simp_all add: conn_at_def)
  have p: "Port (ConnectionStateTable t ! i) = TCP_PORT_HTTP" using e assms(4) by (auto simp: endpoints_of_def)
  obtain d' c c2 where s: "TCP_TCPTask d t = Some (d', (put_conn i (conn_sent e') t)\<lparr>app := a\<rparr>)" "length d' = sizeof_State"
    "d' ! (o_FrameOUT + o_FrameInBuffer) \<noteq> 0" "frame_out d' = data_frame e' data c c2"
    using task_sends [OF assms(1,2) p _ assms(6,8,9)] assms(5) unfolding e(1) by metis
  have f: "drop 54 (data_frame e' data c c2) = data"
    using assms(6) by (simp add: data_frame_def served_def AdapterMAC_def)
  show thesis
  proof (rule that [of "upd 3139 [0] d'" "(put_conn i (conn_sent e') t)\<lparr>app := a\<rparr>"])
    show "conn_at ((put_conn i (conn_sent e') t)\<lparr>app := a\<rparr>) k i (conn_sent e')"
      using conn_at_put [OF assms(3), of "conn_sent e'"] assms(7) e(2) by simp
  qed (use s f assms(1,2) in \<open>simp_all add: Let_def http_open_def others_idle_def nth_upd\<close>)
qed

lemma blocks_served:
  assumes "http_open t" "others_idle t i" "conn_at t k i e" "fst k = TCP_PORT_HTTP" "captured e" "app t = of_nat j" "j + Suc n = 5"
    "length d = sizeof_State" "d ! (o_FrameOUT + o_FrameInBuffer) = 0"
  obtains d' t' e' where "serve (Suc n) d t = Some (concat (map block [j..<5]), d', t')" "conn_at t' k i e'" "State e' = TCP_Connection_Closing"
    "idle_conn e'"
  using assms
proof (induction n arbitrary: d t e j thesis)
  case 0
  then have j: "j = 4" by simp
  obtain e' where e: "Webserver_ApplicationCallback e (app t) = Some (e', of_nat (Suc j))" "served e' (block j)"
    "State e' = TCP_Connection_Closing \<and> idle_conn (conn_sent e')" "endpoints_of e' = endpoints_of e"
    using next_block [OF \<open>captured e\<close>, of j] j \<open>app t = of_nat j\<close> by auto
  obtain d' t' where "\<And>n. serve (Suc n) d t = do { (bs, d, t) \<leftarrow> serve n d' t'; Some (block j @ bs, d, t) }" "conn_at t' k i (conn_sent e')"
    using served_round [OF 0(2-5) e(1,2,4) 0(9,10)] by blast
  moreover have "serve (Suc 0) d t = Some (concat (map block [j..<5]), d', t')"
    unfolding calculation(1) using j by (simp add: upt_rec)
  ultimately show ?case using 0(1) [of d' t' "conn_sent e'"] e(3) by simp
next
  case (Suc n)
  then have j: "j < 4" by simp
  obtain e' where e: "Webserver_ApplicationCallback e (app t) = Some (e', of_nat (Suc j))" "served e' (block j)"
    "captured (conn_sent e')" "endpoints_of e' = endpoints_of e"
    using next_block [OF \<open>captured e\<close>, of j] j \<open>app t = of_nat j\<close> by auto
  obtain d' t' where r: "\<And>n. serve (Suc n) d t = do { (bs, d, t) \<leftarrow> serve n d' t'; Some (block j @ bs, d, t) }" "http_open t'"
    "others_idle t' i" "conn_at t' k i (conn_sent e')" "app t' = of_nat (Suc j)" "length d' = sizeof_State" "d' ! (o_FrameOUT + o_FrameInBuffer) = 0"
    using served_round [OF Suc.prems(2-5) e(1,2,4) Suc.prems(9,10)] by blast
  have n: "Suc j + Suc n = 5" using Suc.prems(8) by simp
  obtain d2 t2 e2 where "serve (Suc n) d' t' = Some (concat (map block [Suc j..<5]), d2, t2)" "conn_at t2 k i e2" "State e2 = TCP_Connection_Closing"
    "idle_conn e2"
    using Suc.IH [OF _ r(2,3,4) Suc.prems(5) e(3) r(5) n r(6,7)] by blast
  moreover have "[j..<5] = j # [Suc j..<5]" using j by (simp add: upt_conv_Cons)
  ultimately show ?case using Suc.prems(1) [of d2 t2 e2] r(1) [of "Suc n"] by simp
qed

lemma page_served:
  assumes "http_open t" "others_idle t i" "conn_at t k i e" "fst k = TCP_PORT_HTTP" "asked e"
    "length d = sizeof_State" "d ! (o_FrameOUT + o_FrameInBuffer) = 0"
  obtains d' t' e' where "serve 6 d t = Some (HTTP200Header @ HTTPPage, d', t')" "conn_at t' k i e'" "State e' = TCP_Connection_Closing"
    "idle_conn e'"
proof -
  obtain e' where e: "Webserver_ApplicationCallback e (app t) = Some (e', 0)" "served e' HTTP200Header" "captured (conn_sent e')"
    "endpoints_of e' = endpoints_of e"
    using request_header [OF assms(5)] by metis
  obtain d1 t1 where r: "\<And>n. serve (Suc n) d t = do { (bs, d, t) \<leftarrow> serve n d1 t1; Some (HTTP200Header @ bs, d, t) }" "http_open t1"
    "others_idle t1 i" "conn_at t1 k i (conn_sent e')" "app t1 = of_nat 0" "length d1 = sizeof_State" "d1 ! (o_FrameOUT + o_FrameInBuffer) = 0"
    by (rule served_round [OF assms(1-4) e(1,2,4) assms(6,7)]) (simp del: serve.simps)
  obtain d2 t2 e2 where b: "serve (Suc 4) d1 t1 = Some (concat (map block [0..<5]), d2, t2)" "conn_at t2 k i e2" "State e2 = TCP_Connection_Closing"
    "idle_conn e2"
    by (rule blocks_served [OF r(2-4) assms(4) e(3) r(5) _ r(6,7), of 4]) simp_all
  have "serve (Suc (Suc 4)) d t = Some (HTTP200Header @ HTTPPage, d2, t2)" unfolding r(1) b(1) blocks by simp
  then have "serve 6 d t = Some (HTTP200Header @ HTTPPage, d2, t2)" by (simp del: serve.simps)
  then show thesis using that b(2-4) by blast
qed

end
