(* ===== verification/Net_Web.thy ===== *)
theory Net_Web
  imports Net_Page
begin

text \<open>
  A session with the web server, from the frame that opens the connection to the last block of the page.
\<close>

section \<open>The session\<close>

definition quiet :: "u8 tcp \<Rightarrow> bool" where
  "quiet t \<longleftrightarrow> http_open t \<and> length (ConnectionStateTable t) = 3 \<and>
     (\<forall>l < 3. idle_conn (ConnectionStateTable t ! l) \<and> length (TCP_ConnectionBuffer_t.Data (Buffer (Info (ConnectionStateTable t ! l)))) = 512)"

text \<open>The server after its start: nothing behind the port table may look like an entry for its port.\<close>

lemma started:
  assumes "LocalPort p \<noteq> TCP_PORT_HTTP" "LocalPort q \<noteq> TCP_PORT_HTTP"
  obtains t where "net_start (p # q # ps) = Some (True, t)" "quiet t" "\<And>k. room k t"
proof -
  let ?t = "(TCP_Init (zero_tcp (p # q # ps) 0))\<lparr>PortStateTable :=
    [\<lparr>LocalPort = TCP_PORT_HTTP, PortState = TCP_Port_Open, ApplicationHandler = Webserver_ApplicationCallback\<rparr>]\<rparr>"
  have n: "net_start (p # q # ps) = Some (True, ?t)"
    using assms by (simp add: net_start_def Webserver_Init_def TCP_SetPortState_def port_memory_def TCP_Init_def zero_tcp_def search_table.simps
        write_port_def)
  have c: "ConnectionStateTable ?t = replicate 3 (zero_connection\<lparr>State := TCP_Connection_Closed\<rparr>)"
    by (simp add: TCP_Init_def zero_tcp_def)
  have q: "quiet ?t" unfolding quiet_def c by (simp add: http_open_def idle_conn_def zero_connection_def)
  have "room k ?t" for k unfolding room_def c by simp
  then show thesis using that [OF n q] by blast
qed

lemma requested_fields:
  "endpoints_of (requested k seq e) = k" "State (requested k seq e) = TCP_Connection_SYNReceived"
  "endpoints_of (confirmed e) = endpoints_of e" "State (confirmed e) = TCP_Connection_Established"
  "endpoints_of (conn_received bs e) = endpoints_of e" "State (conn_received bs e) = State e"
  "SequenceNumberIn (Info (requested k seq e)) = seq + 1" "SequenceNumberIn (Info (confirmed e)) = SequenceNumberIn (Info e)"
  "SequenceNumberIn (Info (conn_received bs e)) = SequenceNumberIn (Info e) + of_nat (length bs)"
  "Buffer (Info (confirmed e)) = Buffer (Info e)"
  "idle_conn e \<Longrightarrow> Buffer (Info (requested k seq e)) = Buffer (Info e)"
  by (simp_all add: requested_def confirmed_def conn_received_def endpoints_of_def idle_conn_def)

lemma others_kept: "quiet t \<Longrightarrow> i < 3 \<Longrightarrow> others_idle (put_conn i e t) i"
  by (simp add: quiet_def others_idle_def)

text \<open>
  C5. A browser gets its page.  Three frames of one host, a \<open>SYN\<close>, an \<open>ACK\<close>, and a segment with a request that
  begins with "GET / ", are processed by a server whose connections are idle and that has room for one
  more: the first is answered with \<open>SYN\<close> and \<open>ACK\<close>, the third with an \<open>ACK\<close> for the bytes of the
  request, and the next six rounds of the TCP task send the HTTP header and the whole page, after which the
  connection is closing.
\<close>

theorem page_delivered:
  assumes "quiet t" "room k t"
    "segment_key h1 th1 = k" "segment_key h2 th2 = k" "segment_key h3 th3 = k"
    "good_segment mac h1 th1 []" "frame_waits (segment mac h1 th1 []) d1" "TCP_Header_t.Flags th1 = TCP_FLAG_SYN"
    "good_segment mac h2 th2 []" "frame_waits (segment mac h2 th2 []) d2" "TCP_Header_t.Flags th2 = TCP_FLAG_ACK"
    "good_segment mac h3 th3 req" "frame_waits (segment mac h3 th3 req) d3" "TCP_Header_t.Flags th3 = TCP_FLAG_ACK OR TCP_FLAG_PSH"
    "take 6 req = chars ''GET / ''"
  shows "\<exists>e1 t1 c1 r1 e2 t2 e3 t3 c3 r3 e4 t4.
    Ethernet_ProcessPacket o_FrameIN o_FrameOUT d1 t = Some (e1, t1) \<and> frame_out e1 = segment_reply mac h1 c1 r1 \<and>
    TCP_Header_t.Flags r1 = TCP_FLAG_SYN OR TCP_FLAG_ACK \<and> AcknowledgmentNumber r1 = SwapEndian_32 (SwapEndian_32 (SequenceNumber th1) + 1) \<and>
    Ethernet_ProcessPacket o_FrameIN o_FrameOUT d2 t1 = Some (e2, t2) \<and>
    Ethernet_ProcessPacket o_FrameIN o_FrameOUT d3 t2 = Some (e3, t3) \<and> frame_out e3 = segment_reply mac h3 c3 r3 \<and>
    TCP_Header_t.Flags r3 = TCP_FLAG_ACK \<and>
    AcknowledgmentNumber r3 = SwapEndian_32 (SwapEndian_32 (SequenceNumber th1) + 1 + of_nat (length req)) \<and>
    serve 6 (upd (o_FrameOUT + o_FrameInBuffer) [0] e3) t3 = Some (HTTP200Header @ HTTPPage, e4, t4) \<and>
    TCP_GetConnectionState k t4 = Some TCP_Connection_Closing"
proof -
  let ?seq = "SwapEndian_32 (SequenceNumber th1)"
  have q: "http_open t" "length (ConnectionStateTable t) = 3" using assms(1) by (simp_all add: quiet_def)
  have p: "TCP_Header_t.DestinationPort th1 = TCP_PORT_HTTP" "TCP_Header_t.DestinationPort th2 = TCP_PORT_HTTP"
    "TCP_Header_t.DestinationPort th3 = TCP_PORT_HTTP" using assms(6,9,12) by (simp_all add: good_segment_def)
  have k: "fst k = TCP_PORT_HTTP" "length (fst (snd k)) = 4" using assms(3,6) p by (auto simp: good_segment_def ip_addressed_def)
  obtain i e where i: "i < 3" "ConnectionStateTable t ! i = e"
    "tcp_automaton (ip_of (ip_bytes h1)) 168 th1 k d1 t = Some (Done (Some (TCP_FLAG_SYN OR TCP_FLAG_ACK)), put_conn i (requested k ?seq e) t)"
    "conn_at (put_conn i (requested k ?seq e) t) k i (requested k ?seq e)"
    by (rule automaton_syn [OF q assms(2) p(1) assms(8)])
  have e: "idle_conn e" "length (TCP_ConnectionBuffer_t.Data (Buffer (Info e))) = 512" using assms(1) i(1,2) by (auto simp: quiet_def)
  let ?e1 = "requested k ?seq e" and ?e2 = "confirmed (requested k ?seq e)" and ?e3 = "conn_received req (confirmed (requested k ?seq e))"
  let ?t1 = "put_conn i ?e1 t" and ?t2 = "put_conn i ?e2 t" and ?t3 = "put_conn i ?e3 t"
  have c: "conn_at ?t2 k i ?e2" "conn_at ?t3 k i ?e3"
    using conn_at_put [OF i(4), of ?e2] conn_at_put [OF i(4), of ?e3] by (simp_all add: requested_fields)
  have r1: "read_info k ?t1 = Some (Info ?e1)" "read_info k ?t3 = Some (Info ?e3)"
    by (rule conn_at_operations [OF i(4)], rule conn_at_operations [OF c(2)])
  obtain f1 c1 s1 where f1: "Ethernet_ProcessPacket o_FrameIN o_FrameOUT d1 t = Some (f1, ?t1)"
    "frame_out f1 = segment_reply mac h1 c1 ((tcp_response_header th1 (TCP_FLAG_SYN OR TCP_FLAG_ACK) (Info ?e1))\<lparr>TCP_Header_t.Checksum := s1\<rparr>)"
    using segment_answered [OF assms(6,7)] i(3) r1(1) unfolding assms(3) by metis
  have "tcp_automaton (ip_of (ip_bytes h2)) 168 th2 k d2 ?t1 = Some (Done None, put_conn i ?e2 ?t1)"
    by (rule automaton_ack [OF _ i(4) _ p(2) assms(11)]) (use q in \<open>simp_all add: requested_fields\<close>)
  then have f2: "Ethernet_ProcessPacket o_FrameIN o_FrameOUT d2 ?t1 = Some (upd 1636 [0] d2, ?t2)"
    using segment_absorbed [OF assms(9,10)] unfolding assms(4) by simp
  have "tcp_automaton (ip_of (ip_bytes h3)) 168 th3 k d3 ?t2 = Some (Done (Some TCP_FLAG_ACK), put_conn i ?e3 ?t2)"
  proof (rule automaton_data [OF _ c(1) _ p(3) assms(14)])
    have a: "ip_addressed h3" "TotalLength h3 = SwapEndian_16 (of_nat (40 + length req))" using assms(12) by (simp_all add: good_segment_def)
    show "HeaderLength (ip_of (ip_bytes h3)) = 5" using ip_addressed_of [OF a(1)] by simp
    show "SwapEndian_16 (TotalLength (ip_of (ip_bytes h3))) = of_nat (40 + length req)"
      using ip_of_bytes(5) [of h3] a by (simp add: ip_addressed_def type_swapped)
    show "holds_at (168 + 20) req d3" using segment_parts(4) [OF assms(12,13)] by simp
  qed (use q e assms(12) in \<open>simp_all add: requested_fields idle_conn_def good_segment_def\<close>)
  then obtain f3 c3 s3 where f3: "Ethernet_ProcessPacket o_FrameIN o_FrameOUT d3 ?t2 = Some (f3, ?t3)" "length f3 = sizeof_State"
    "frame_out f3 = segment_reply mac h3 c3 ((tcp_response_header th3 TCP_FLAG_ACK (Info ?e3))\<lparr>TCP_Header_t.Checksum := s3\<rparr>)"
    using segment_answered [OF assms(12,13)] r1(2) unfolding assms(5) put_conn_again by metis
  have lr: "6 \<le> length req" using arg_cong [OF assms(15), of length] by (simp add: chars_def)
  have asked: "asked ?e3"
    using e assms(12,15) k lr by (simp add: asked_def conn_received_def requested_fields good_segment_def) (simp add: requested_def confirmed_def)
  obtain d4 t4 e4 where s: "serve 6 (upd 3139 [0] f3) ?t3 = Some (HTTP200Header @ HTTPPage, d4, t4)" "conn_at t4 k i e4"
    "State e4 = TCP_Connection_Closing"
    by (rule page_served [OF _ others_kept [OF assms(1) i(1)] c(2) k(1) asked, of "upd 3139 [0] f3"]) (use q f3(2) in \<open>simp_all add: nth_upd\<close>)
  have g: "TCP_GetConnectionState k t4 = Some TCP_Connection_Closing" using conn_at_operations(1) [OF s(2)] s(3) by simp
  have s': "serve 6 (upd (o_FrameOUT + o_FrameInBuffer) [0] f3) ?t3 = Some (HTTP200Header @ HTTPPage, d4, t4)"
    using s(1) by (simp del: serve.simps)
  let ?r1 = "(tcp_response_header th1 (TCP_FLAG_SYN OR TCP_FLAG_ACK) (Info ?e1))\<lparr>TCP_Header_t.Checksum := s1\<rparr>"
  let ?r3 = "(tcp_response_header th3 TCP_FLAG_ACK (Info ?e3))\<lparr>TCP_Header_t.Checksum := s3\<rparr>"
  have a: "TCP_Header_t.Flags ?r1 = TCP_FLAG_SYN OR TCP_FLAG_ACK" "AcknowledgmentNumber ?r1 = SwapEndian_32 (?seq + 1)"
    "TCP_Header_t.Flags ?r3 = TCP_FLAG_ACK" "AcknowledgmentNumber ?r3 = SwapEndian_32 (?seq + 1 + of_nat (length req))"
    by (simp_all add: tcp_response_header_def requested_fields)
  show ?thesis by (intro exI conjI) (rule f1 a f2 f3(1) f3(3) s' g)+
qed

definition browser_ip :: "u8 list \<Rightarrow> IP_Header_t" where
  "browser_ip data = ping_ip\<lparr>TotalLength := SwapEndian_16 (of_nat (40 + length data)), Protocol := PROTOCOL_TCP\<rparr>"

definition browser_tcp :: "u8 \<Rightarrow> TCP_Header_t" where
  "browser_tcp fl = \<lparr>TCP_Header_t.SourcePort = 7, TCP_Header_t.DestinationPort = TCP_PORT_HTTP, SequenceNumber = 0, AcknowledgmentNumber = 0,
     Reserved = 0, DataOffset = 5, TCP_Header_t.Flags = fl, WindowSize = 0, TCP_Header_t.Checksum = 0, UrgentPointer = 0\<rparr>"

abbreviation browser_segment :: "u8 \<Rightarrow> u8 list \<Rightarrow> u8 list" where
  "browser_segment fl data \<equiv> segment AdapterMAC (browser_ip data) (browser_tcp fl) data"

lemma browser_good:
  "length data \<le> 512 \<Longrightarrow> good_segment AdapterMAC (browser_ip data) (browser_tcp fl) data"
  "segment_key (browser_ip data) (browser_tcp fl) = (TCP_PORT_HTTP, ClientIPAddress, 7)" "TCP_Header_t.Flags (browser_tcp fl) = fl"
  by (simp_all add: good_segment_def browser_ip_def browser_tcp_def ip_addressed_def ping_ip_def AdapterMAC_def)

lemma browser_waits:
  assumes "length data = 0 \<or> length data = 6"
  shows "frame_waits (browser_segment fl data) (framed (browser_segment fl data))"
proof -
  have l: "length (browser_segment fl data) = 54 + length data"
    by (simp add: segment_def ip_addressed_of browser_ip_def ping_ip_def AdapterMAC_def)
  have "SwapEndian_16 (of_nat (54 + length data)) > ETHERNET_VER2_MINSIZE"
    using assms by (elim disjE) (simp_all add: SwapEndian_16_def)
  then show ?thesis using framed [of "browser_segment fl data"] assms unfolding frame_waits_def l by (elim disjE) simp_all
qed

theorem page_delivered_witness:
  "\<exists>t e1 t1 e2 t2 e3 t3 e4 t4. net_start (replicate 2 \<lparr>LocalPort = 0, PortState = TCP_Port_Closed, ApplicationHandler = (\<lambda>e a. None)\<rparr>) = Some (True, t) \<and>
    Ethernet_ProcessPacket o_FrameIN o_FrameOUT (framed (browser_segment TCP_FLAG_SYN [])) t = Some (e1, t1) \<and>
    Ethernet_ProcessPacket o_FrameIN o_FrameOUT (framed (browser_segment TCP_FLAG_ACK [])) t1 = Some (e2, t2) \<and>
    Ethernet_ProcessPacket o_FrameIN o_FrameOUT (framed (browser_segment (TCP_FLAG_ACK OR TCP_FLAG_PSH) (chars ''GET / ''))) t2 = Some (e3, t3) \<and>
    serve 6 (upd (o_FrameOUT + o_FrameInBuffer) [0] e3) t3 = Some (HTTP200Header @ HTTPPage, e4, t4)"
proof -
  let ?p = "\<lparr>LocalPort = 0, PortState = TCP_Port_Closed, ApplicationHandler = (\<lambda>e a. None)\<rparr> :: u8 TCP_PortState_t"
  obtain t where t: "net_start [?p, ?p] = Some (True, t)" "quiet t" "room (TCP_PORT_HTTP, ClientIPAddress, 7) t"
    by (rule started [of ?p ?p "[]"]) simp_all
  have l: "length (chars ''GET / '') = 6" "length ([] :: u8 list) \<le> 512" "length ([] :: u8 list) = 0 \<or> length ([] :: u8 list) = 6" by (simp_all add: chars_def)
  have w: "frame_waits (browser_segment (TCP_FLAG_ACK OR TCP_FLAG_PSH) (chars ''GET / ''))
      (framed (browser_segment (TCP_FLAG_ACK OR TCP_FLAG_PSH) (chars ''GET / '')))" "length (chars ''GET / '') \<le> 512" "take 6 (chars ''GET / '') = chars ''GET / ''"
    by (rule browser_waits) (use l(1) in simp_all)
  have r: "replicate 2 ?p = [?p, ?p]" by (simp add: numeral_2_eq_2)
  show ?thesis
    using page_delivered [OF t(2,3) browser_good(2,2,2) browser_good(1) [OF l(2)] browser_waits [OF l(3)] browser_good(3)
        browser_good(1) [OF l(2)] browser_waits [OF l(3)] browser_good(3) browser_good(1) [OF w(2)] w(1) browser_good(3) w(3)] t(1)
    unfolding r by blast
qed

end
