(* ===== verification/Net_Invariant.thy ===== *)
theory Net_Invariant
  imports Net_Web
begin

text \<open>
  What holds of the tables of \<open>TCP.c\<close> in every state the server reaches, and which segments make it
  write behind the buffer of a connection.
\<close>

section \<open>The invariant\<close>

definition no_endpoints :: endpoints where
  "no_endpoints = (0, replicate 4 0, 0)"

definition info_ok :: "TCP_ConnectionInfo_t \<Rightarrow> bool" where
  "info_ok i \<longleftrightarrow> length (TCP_ConnectionBuffer_t.Data (Buffer i)) = 512 \<and> unat (TCP_ConnectionBuffer_t.Length (Buffer i)) \<le> 512"

definition used :: "TCP_ConnectionState_t list \<Rightarrow> endpoints list" where
  "used es = filter (\<lambda>k. k \<noteq> no_endpoints) (map endpoints_of es)"

definition server_ok :: "u8 tcp \<Rightarrow> bool" where
  "server_ok t \<longleftrightarrow> http_open t \<and> table_ok t \<and> distinct (used (ConnectionStateTable t)) \<and>
     (\<forall>e \<in> set (ConnectionStateTable t). info_ok (Info e) \<and> length (RemoteAddress e) = 4)"

text \<open>
  What frames and rounds of the TCP task lead to from the start: a state of the server, or \<open>None\<close> once it has
  left an array.
\<close>

inductive serving :: "u8 tcp option \<Rightarrow> bool" where
  start: "net_start behind = Some (True, t) \<Longrightarrow> serving (Some t)"
| frame: "serving (Some t) \<Longrightarrow> serving (map_option snd (Ethernet_ProcessPacket i j d t))"
| task: "serving (Some t) \<Longrightarrow> serving (map_option snd (TCP_TCPTask d t))"

text \<open>
  Whether a connection takes the data of a segment into its buffer, and how much the buffer holds then.
\<close>

definition takes_data :: "TCP_ConnectionInfo_t \<Rightarrow> bool" where
  "takes_data i \<longleftrightarrow> \<not> InUse (Buffer i) \<and> \<not> Ready (Buffer i) \<or>
     Direction (Buffer i) = TCP_PACKETDIR_IN \<and> TCP_ConnectionBuffer_t.Length (Buffer i) \<noteq> TCP_WINDOW_SIZE"

definition held_data :: "TCP_ConnectionInfo_t \<Rightarrow> nat" where
  "held_data i = (if \<not> InUse (Buffer i) \<and> \<not> Ready (Buffer i) then 0 else unat (TCP_ConnectionBuffer_t.Length (Buffer i)))"

text \<open>Where the data of a segment start behind its header, and the number the code computes for them.\<close>

definition data_offset :: "TCP_Header_t \<Rightarrow> u16" where
  "data_offset th = ucast (DataOffset th) * 4"

definition data_length :: "IP_Header_t \<Rightarrow> TCP_Header_t \<Rightarrow> u16" where
  "data_length ih th = SwapEndian_16 (TotalLength ih) - ucast (HeaderLength ih) * 4 - data_offset th"

lemma used_same: "endpoints_of e' = endpoints_of (es ! i) \<Longrightarrow> i < length es \<Longrightarrow> used (es[i := e']) = used es"
  by (simp add: used_def map_update) (metis list_update_id map_update)

lemma distinct_taken:
  "distinct (filter P ks) \<Longrightarrow> k \<notin> set ks \<Longrightarrow> distinct (filter P (ks[j := k]))"
proof (induction ks arbitrary: j)
  case (Cons x ks)
  have s: "y \<in> set (ks[n := k]) \<Longrightarrow> y = k \<or> y \<in> set ks" for n y using set_update_subset_insert [of ks n k] by auto
  show ?case using Cons by (cases j) (auto split: if_splits dest!: s)
qed simp

lemma used_taken:
  assumes "distinct (used es)" "\<forall>f \<in> set es. endpoints_of f \<noteq> endpoints_of e'"
  shows "distinct (used (es[j := e']))"
proof -
  have "endpoints_of e' \<notin> set (map endpoints_of es)" using assms(2) by force
  from distinct_taken [OF assms(1) [unfolded used_def] this, of j] show ?thesis by (simp add: used_def map_update)
qed

section \<open>The operations keep it\<close>

lemma put_server_ok:
  assumes "server_ok t" "length (fst (snd k)) = 4" "TCP_SetConnectionState k st t = Some (b, t')"
  shows "server_ok t'"
proof -
  let ?es = "ConnectionStateTable t"
  have l: "length ?es = 3" using assms(1) by (simp add: server_ok_def table_ok_def)
  have o: "table_ok t'" using conn.put_keeps [OF _ assms(3)] assms(1) by (simp add: server_ok_def)
  show ?thesis
  proof (rule search_connection [OF l, of "\<lambda>e. endpoints_of e = k"], goal_cases)
    case (1 i)
    then have t: "t' = t\<lparr>ConnectionStateTable := ?es[i := (?es ! i)\<lparr>State := st\<rparr>]\<rparr>"
      using assms(3) by (simp add: TCP_SetConnectionState_def is_conn)
    have "info_ok (Info (?es ! i)) \<and> length (RemoteAddress (?es ! i)) = 4" using 1(2) assms(1) by (simp add: server_ok_def)
    then show ?thesis
      using o assms(1) 1(2) unfolding t server_ok_def by (auto simp: used_same http_open_def dest!: in_update)
  next
    case 2
    note absent = 2
    show ?thesis
    proof (rule search_connection [OF l, of "\<lambda>e. State e = TCP_Connection_Closed"], goal_cases)
      case (1 j)
      let ?e = "(?es ! j)\<lparr>Port := fst k, RemoteAddress := fst (snd k), RemotePort := snd (snd k), State := st\<rparr>"
      have t: "t' = t\<lparr>ConnectionStateTable := ?es[j := ?e]\<rparr>"
        using assms(3) 1 absent by (simp add: TCP_SetConnectionState_def is_conn)
      have "info_ok (Info (?es ! j))" using 1(2) assms(1) by (simp add: server_ok_def)
      moreover have "endpoints_of ?e = k" by (simp add: endpoints_of_def)
      ultimately show ?thesis
        using o assms(1,2) 1(2) used_taken [of ?es ?e j] absent(2) unfolding t server_ok_def by (auto simp: http_open_def dest!: in_update)
    next
      case 2
      then have "t' = t" using assms(3) absent by (simp add: TCP_SetConnectionState_def is_conn)
      then show ?thesis using assms(1) by simp
    qed
  qed
qed

lemma hidden_closed_info: "hidden_closed (es[i := (es ! i)\<lparr>Info := f\<rparr>]) = hidden_closed es"
proof (cases "i < length es")
  case True
  then show ?thesis
  proof (induction es arbitrary: i)
    case (Cons e es)
    have s: "(\<forall>f \<in> set (es[n := (es ! n)\<lparr>Info := g\<rparr>]). P (endpoints_of f) (State f)) \<longleftrightarrow> (\<forall>f \<in> set es. P (endpoints_of f) (State f))"
      if "n < length es" for n P g using that by (auto simp: all_set_conv_all_nth nth_list_update)
    show ?case
    proof (cases i)
      case (Suc n)
      then show ?thesis using Cons s [where n = n and g = f and P = "\<lambda>k st. k = endpoints_of e \<longrightarrow> st = TCP_Connection_Closed"] by simp
    qed simp
  qed simp
qed (simp add: list_update_beyond)

lemma info_server_ok:
  assumes "server_ok t" "i < 3" "info_ok f"
  shows "server_ok (t\<lparr>ConnectionStateTable := (ConnectionStateTable t)[i := (ConnectionStateTable t ! i)\<lparr>Info := f\<rparr>]\<rparr>)"
proof -
  have l: "length (ConnectionStateTable t) = 3" using assms(1) by (simp add: server_ok_def table_ok_def)
  have "length (RemoteAddress (ConnectionStateTable t ! i)) = 4" using assms(1,2) l by (simp add: server_ok_def)
  then show ?thesis
    using assms l unfolding server_ok_def table_ok_def
    by (auto simp: hidden_closed_info used_same http_open_def dest!: in_update)
qed

lemma change_server_ok:
  assumes "server_ok t" "change_info f k t = Some t'" "\<And>i. read_info k t = Some i \<Longrightarrow> info_ok i \<Longrightarrow> info_ok (f i)"
  shows "server_ok t'"
proof -
  have l: "length (ConnectionStateTable t) = 3" using assms(1) by (simp add: server_ok_def table_ok_def)
  show ?thesis
  proof (rule search_connection [OF l, of "\<lambda>e. endpoints_of e = k"], goal_cases)
    case (1 j)
    then have "read_info k t = Some (Info (ConnectionStateTable t ! j))" by (simp add: read_info_def TCP_GetConnectionInfo_def is_conn)
    moreover have "info_ok (Info (ConnectionStateTable t ! j))" using 1 assms(1) by (simp add: server_ok_def)
    ultimately have "info_ok (f (Info (ConnectionStateTable t ! j)))" by (rule assms(3))
    from info_server_ok [OF assms(1) _ this, of j] show ?case
      using 1 assms(2) l by (simp add: change_info_def TCP_GetConnectionInfo_def is_conn Let_def)
  next
    case 2
    then show ?case using assms(2) by (simp add: change_info_def TCP_GetConnectionInfo_def is_conn)
  qed
qed

text \<open>The automaton, one state after the other.\<close>

lemma put_step: "TCP_SetConnectionState k st t = Some (b, t') \<Longrightarrow> server_ok t \<Longrightarrow> length (fst (snd k)) = 4 \<Longrightarrow> server_ok t'"
  by (rule put_server_ok)

lemma change_step: "change_info f k t = Some t' \<Longrightarrow> server_ok t \<Longrightarrow> (\<And>i. info_ok i \<Longrightarrow> info_ok (f i)) \<Longrightarrow> server_ok t'"
  by (rule change_server_ok)

lemma count_step: "count_in_out k t = Some t' \<Longrightarrow> server_ok t \<Longrightarrow> server_ok t'"
  unfolding count_in_out_def by (erule change_step) (simp_all add: info_ok_def)

lemma last_fin_step: "tcp_last_fin k t = Some (v, t') \<Longrightarrow> server_ok t \<Longrightarrow> length (fst (snd k)) = 4 \<Longrightarrow> server_ok t'"
  by (auto simp: tcp_last_fin_def split: bind_splits dest: put_step count_step)

lemma listen_step: "tcp_listen th k t = Some (v, t') \<Longrightarrow> server_ok t \<Longrightarrow> length (fst (snd k)) = 4 \<Longrightarrow> server_ok t'"
  unfolding tcp_listen_def
  by (auto simp: info_ok_def split: bind_splits if_splits dest: put_step elim!: change_step)

lemma store_ok:
  assumes "info_ok i" "unat (TCP_ConnectionBuffer_t.Length (Buffer i)) + length bs \<le> 512"
  shows "info_ok (store_data bs psh i)"
proof -
  let ?b = "Buffer i"
  have n: "unat (of_nat (length bs) :: u16) = length bs" using assms(2) by (simp add: unsigned_of_nat take_bit_nat_eq_self)
  have "unat (TCP_ConnectionBuffer_t.Length ?b + of_nat (length bs)) = unat (TCP_ConnectionBuffer_t.Length ?b) + length bs"
    using assms(2) by (simp add: unat_word_ariths n)
  then show ?thesis using assms by (simp add: info_ok_def store_data_def Let_def)
qed

lemma data_step:
  assumes "tcp_receive_data ih p th k d t = Some (v, t')" "server_ok t"
  shows "server_ok t'"
proof -
  let ?f = "\<lambda>i. i\<lparr>Buffer := (Buffer i)\<lparr>Direction := TCP_PACKETDIR_IN, InUse := True, TCP_ConnectionBuffer_t.Length := 0\<rparr>\<rparr>"
  have f: "server_ok u" if "change_info ?f k t = Some u" for u
    using that assms(2) by (rule change_step) (simp add: info_ok_def)
  have g: "server_ok v" if "server_ok u" "change_info (store_data bs psh) k u = Some v" "read_info k u = Some i"
    "\<not> length (TCP_ConnectionBuffer_t.Data (Buffer i)) < unat (TCP_ConnectionBuffer_t.Length (Buffer i)) + n" "peek a n d = Some bs" for u v i bs psh n a
  proof (rule change_server_ok [OF that(1,2)])
    fix i' assume i: "read_info k u = Some i'" "info_ok i'"
    then have "length (TCP_ConnectionBuffer_t.Data (Buffer i)) = 512" "i' = i" using that(3) by (simp_all add: info_ok_def)
    moreover have "length bs = n" using that(5) by (auto simp: peek_some)
    ultimately show "info_ok (store_data bs psh i')" using store_ok [OF i(2)] that(4) by simp
  qed
  show ?thesis
    using assms unfolding tcp_receive_data_def Let_def
    by (auto split: bind_splits if_splits dest: f g)
qed

lemma established_step: "tcp_established ih p th k d t = Some (v, t') \<Longrightarrow> server_ok t \<Longrightarrow> length (fst (snd k)) = 4 \<Longrightarrow> server_ok t'"
  unfolding tcp_established_def
  by (auto split: bind_splits if_splits intro: put_step count_step data_step)

lemma switch_step: "tcp_state_switch ih p th k d t = Some (v, t') \<Longrightarrow> server_ok t \<Longrightarrow> length (fst (snd k)) = 4 \<Longrightarrow> server_ok t'"
  unfolding tcp_state_switch_def
  by (auto simp: info_ok_def split: bind_splits if_splits TCP_ConnectionStates_t.splits
      dest: put_step count_step listen_step established_step last_fin_step elim!: change_step)

lemma automaton_step: "tcp_automaton ih p th k d t = Some (v, t') \<Longrightarrow> server_ok t \<Longrightarrow> length (fst (snd k)) = 4 \<Longrightarrow> server_ok t'"
  unfolding tcp_automaton_def
  by (auto split: bind_splits if_splits) (meson put_step switch_step)+

lemma segment_step:
  assumes "TCP_ProcessTCPPacket i p q d t = Some (r, d', t')" "server_ok t"
  shows "server_ok t'"
proof -
  have "length (SourceAddress (ip_of bs)) = 4" if "peek i 20 d = Some bs" for bs using that by (auto simp: peek_some ip_of_def)
  then show ?thesis
    using assms unfolding TCP_ProcessTCPPacket_def Let_def
    by (auto split: bind_splits verdict.splits option.splits dest: automaton_step)
qed

lemma packet_step: "IP_ProcessIPPacket f p q d t = Some (r, d', t') \<Longrightarrow> server_ok t \<Longrightarrow> server_ok t'"
  unfolding IP_ProcessIPPacket_def Let_def
  by (auto split: bind_splits if_splits dest: segment_step)

lemma frame_step: "Ethernet_ProcessPacket i j d t = Some (d', t') \<Longrightarrow> server_ok t \<Longrightarrow> server_ok t'"
  unfolding Ethernet_ProcessPacket_def Let_def
  by (auto split: bind_splits if_splits dest: packet_step)

section \<open>The web server and the task\<close>

lemma distinct_filter_nth: "distinct (filter P ks) \<Longrightarrow> i < j \<Longrightarrow> j < length ks \<Longrightarrow> ks ! i = ks ! j \<Longrightarrow> \<not> P (ks ! j)"
proof (induction ks arbitrary: i j)
  case (Cons x ks)
  then show ?case by (cases i; cases j) (force split: if_splits)+
qed simp

lemma hidden_nth:
  "hidden_closed es \<longleftrightarrow> (\<forall>j < length es. \<forall>i < j. endpoints_of (es ! i) = endpoints_of (es ! j) \<longrightarrow> State (es ! j) = TCP_Connection_Closed)"
proof (induction es)
  case (Cons e es)
  then show ?case by (auto simp: All_less_Suc2 all_set_conv_all_nth)
qed simp

lemma unhidden_update:
  assumes "hidden_closed es" "distinct (used es)" "i < length es" "endpoints_of (es ! i) \<noteq> no_endpoints" "endpoints_of e' = endpoints_of (es ! i)"
  shows "hidden_closed (es[i := e'])"
proof -
  have u: "endpoints_of (es ! l) \<noteq> endpoints_of (es ! i)" if "l < length es" "l \<noteq> i" for l
    using distinct_filter_nth [OF assms(2) [unfolded used_def], of l i] distinct_filter_nth [OF assms(2) [unfolded used_def], of i l] that assms(3,4)
    by (cases "l < i") auto
  show ?thesis
    unfolding hidden_nth
  proof (intro allI impI)
    fix j l assume j: "j < length (es[i := e'])" "l < j" "endpoints_of (es[i := e'] ! l) = endpoints_of (es[i := e'] ! j)"
    then have "l \<noteq> i" "j \<noteq> i" using u [of l] u [of j] assms(5) by (auto simp: nth_list_update split: if_splits)
    then show "State (es[i := e'] ! j) = TCP_Connection_Closed" using assms(1) j by (simp add: hidden_nth)
  qed
qed

lemma strlen_le: "strlen bs \<le> length bs"
  by (simp add: strlen_def length_takeWhile_le)

lemma send_string_ok:
  "info_ok (Info e) \<Longrightarrow> length src < 512 \<Longrightarrow> info_ok (Info (on_buffer (send_string src) e))"
  "info_ok (Info e) \<Longrightarrow> length src < 512 \<Longrightarrow> info_ok (Info (on_buffer (\<lambda>b. TCP_APP_CAPTURE_BUFFER (send_string src b)) e))"
proof -
  assume e: "info_ok (Info e)" "length src < 512"
  let ?d = "strcpy_P src (TCP_ConnectionBuffer_t.Data (Buffer (Info e)))"
  have l: "length ?d = 512" using e by (simp add: strcpy_P_def info_ok_def)
  then have "unat (of_nat (strlen ?d) :: u16) \<le> 512"
    using strlen_le [of ?d] by (simp add: unsigned_of_nat take_bit_nat_eq_self)
  then show "info_ok (Info (on_buffer (send_string src) e))" "info_ok (Info (on_buffer (\<lambda>b. TCP_APP_CAPTURE_BUFFER (send_string src b)) e))"
    using l by (simp_all add: info_ok_def on_buffer_def send_string_def Let_def TCP_APP_SEND_BUFFER_def TCP_APP_CAPTURE_BUFFER_def)
qed

lemma not_found_text: "length HTTP404Header < 512"
  by (simp add: HTTP404Header_def chars_def)

lemma request_ok:
  assumes "info_ok (Info e)"
  shows "info_ok (Info (fst (http_request e a)))"
proof -
  have h: "length HTTP200Header < 512" by (simp add: header_text)
  have t: "info_ok (Info (on_buffer (\<lambda>b. TCP_APP_SEND_BUFFER (TCP_ConnectionBuffer_t.Length b) b) e))" "info_ok (Info (on_buffer TCP_APP_CLEAR_BUFFER e))"
    using assms by (simp_all add: info_ok_def on_buffer_def TCP_APP_SEND_BUFFER_def TCP_APP_CLEAR_BUFFER_def)
  have c: "Info (TCP_APP_CLOSECONNECTION x) = Info x" for x by (simp add: TCP_APP_CLOSECONNECTION_def)
  show ?thesis
    unfolding http_request_def Let_def
    using t send_string_ok [OF assms h] send_string_ok [OF assms not_found_text] by (simp add: c)
qed

lemma block_ok:
  assumes "info_ok (Info e)" "http_next_block e a = Some (e', a')"
  shows "info_ok (Info e')"
proof -
  have ok: "info_ok (Info (on_buffer (\<lambda>b. TCP_APP_SEND_BUFFER (of_nat n) (b\<lparr>TCP_ConnectionBuffer_t.Data := take n xs @ drop n (TCP_ConnectionBuffer_t.Data b)\<rparr>)) e))"
    if "n \<le> 128" "n \<le> length xs" for n and xs :: "u8 list"
    using that assms(1) by (simp add: info_ok_def on_buffer_def TCP_APP_SEND_BUFFER_def unsigned_of_nat take_bit_nat_eq_self)
  have r: "Info (TCP_APP_CLOSECONNECTION (on_buffer TCP_APP_RELEASE_BUFFER x)) = (Info x)\<lparr>Buffer := (Buffer (Info x))\<lparr>InUse := False\<rparr>\<rparr>" for x
    by (simp add: TCP_APP_CLOSECONNECTION_def TCP_APP_RELEASE_BUFFER_def on_buffer_def)
  have i: "info_ok (x\<lparr>Buffer := (Buffer x)\<lparr>InUse := False\<rparr>\<rparr>) = info_ok x" for x by (simp add: info_ok_def)
  define rest where "rest = drop (unat a * 128) (HTTPPage @ [0])"
  define n where "n = (if strlen rest > 128 then 128 else strlen rest)"
  have n: "n \<le> 128" "n \<le> length rest" using strlen_le [of rest] by (auto simp: n_def)
  let ?x = "on_buffer (\<lambda>b. TCP_APP_SEND_BUFFER (of_nat n) (b\<lparr>TCP_ConnectionBuffer_t.Data := take n rest @ drop n (TCP_ConnectionBuffer_t.Data b)\<rparr>)) e"
  have "e' = ?x \<or> e' = TCP_APP_CLOSECONNECTION (on_buffer TCP_APP_RELEASE_BUFFER ?x)"
    using assms(2) unfolding http_next_block_def Let_def rest_def [symmetric] n_def [symmetric] by (auto split: if_splits)
  then show ?thesis using ok [OF n] by (elim disjE) (simp_all add: r i)
qed

lemma callback_kept:
  "Webserver_ApplicationCallback e a = Some (e', a') \<Longrightarrow> endpoints_of e' = endpoints_of e"
  by (auto simp: Webserver_ApplicationCallback_def http_request_def http_next_block_def Let_def endpoints_of_def on_buffer_def
      TCP_APP_CLOSECONNECTION_def split: if_splits)

lemma callback_ok:
  assumes "Webserver_ApplicationCallback e a = Some (e', a')" "info_ok (Info e)"
  shows "info_ok (Info e')"
proof -
  have "e' = fst (http_request e a) \<or> http_next_block e a = Some (e', a') \<or> e' = e"
    using assms(1) by (auto simp: Webserver_ApplicationCallback_def split: if_splits)
  then show ?thesis using request_ok [OF assms(2), of a] block_ok [OF assms(2)] assms(2) by auto
qed

lemma handler_step:
  assumes "run_handler i 0 t = Some t'" "server_ok t" "i < 3"
  shows "server_ok t'"
proof (cases "Port (ConnectionStateTable t ! i) = TCP_PORT_HTTP")
  case True
  let ?es = "ConnectionStateTable t" and ?e = "ConnectionStateTable t ! i"
  have h: "http_open t" "length ?es = 3" "hidden_closed ?es" "distinct (used ?es)" "info_ok (Info ?e)" "length (RemoteAddress ?e) = 4"
    using assms(2,3) by (simp_all add: server_ok_def table_ok_def)
  obtain e' a where c: "Webserver_ApplicationCallback ?e (app t) = Some (e', a)" "t' = t\<lparr>ConnectionStateTable := ?es[i := e'], app := a\<rparr>"
    using assms(1) h(1) True by (auto simp: run_handler_def http_open_def Let_def split: bind_splits)
  have k: "endpoints_of e' = endpoints_of ?e" "info_ok (Info e')" using callback_kept [OF c(1)] callback_ok [OF c(1) h(5)] .
  then have r: "length (RemoteAddress e') = 4" using h(6) by (simp add: endpoints_of_def)
  have n: "endpoints_of ?e \<noteq> no_endpoints" using True by (simp add: endpoints_of_def no_endpoints_def)
  have "hidden_closed (?es[i := e'])" by (rule unhidden_update [OF h(3,4) _ n k(1)]) (use assms(3) h(2) in simp)
  then show ?thesis
    using assms(2,3) h(2) k r unfolding c(2) server_ok_def table_ok_def by (auto simp: used_same http_open_def dest!: in_update)
next
  case False
  then show ?thesis using assms by (auto simp: run_handler_def server_ok_def http_open_def Let_def)
qed

lemma applications_step: "run_applications t = Some t' \<Longrightarrow> server_ok t \<Longrightarrow> server_ok t'"
proof -
  assume r: "run_applications t = Some t'" and t: "server_ok t"
  have u: "[0..<3] = [0, 1, 2 :: nat]" by (simp add: upt_rec numeral_2_eq_2)
  obtain t1 t2 where "run_handler 0 0 t = Some t1" "run_handler 1 0 t1 = Some t2" "run_handler 2 0 t2 = Some t'"
    using r by (auto simp: run_applications_def u split: bind_splits)
  then show "server_ok t'" using handler_step [of 0] handler_step [of 1] handler_step [of 2] t by auto
qed

lemma sending_step:
  assumes "send_connection f i d t = Some (d', t')" "server_ok t" "i < 3"
  shows "server_ok t'"
proof -
  let ?e = "ConnectionStateTable t ! i"
  let ?i = "(Info ?e)\<lparr>SequenceNumberOut := SequenceNumberOut (Info ?e) + ucast (TCP_ConnectionBuffer_t.Length (Buffer (Info ?e))),
     Buffer := (Buffer (Info ?e))\<lparr>Ready := False\<rparr>\<rparr>"
  have t: "t' = t\<lparr>ConnectionStateTable := (ConnectionStateTable t)[i := ?e\<lparr>Info := ?i\<rparr>]\<rparr>"
    using assms(1) by (auto simp: send_connection_def Let_def split: bind_splits)
  have "info_ok (Info ?e)" using assms(2,3) by (simp add: server_ok_def table_ok_def)
  then have "info_ok ?i" by (simp add: info_ok_def)
  then show ?thesis unfolding t by (rule info_server_ok [OF assms(2,3)])
qed

lemma task_step: "TCP_TCPTask d t = Some (d', t') \<Longrightarrow> server_ok t \<Longrightarrow> server_ok t'"
proof -
  assume r: "TCP_TCPTask d t = Some (d', t')" and t: "server_ok t"
  obtain t1 where a: "run_applications t = Some t1" using r by (auto simp: TCP_TCPTask_def split: bind_splits)
  then have t1: "server_ok t1" using applications_step t by blast
  have l: "length (ConnectionStateTable t1) = 3" using t1 by (simp add: server_ok_def table_ok_def)
  show "server_ok t'"
    by (rule search_connection [OF l, of ready_to_send])
      (use r a t1 l in \<open>auto simp: TCP_TCPTask_def split: if_splits dest: sending_step\<close>)
qed

lemma search_found: "search_table P i n xs = Some (Some j) \<Longrightarrow> i \<le> j \<and> P (xs ! j)"
proof (induction P i n xs rule: search_table.induct)
  case (1 P i n xs)
  then show ?case by (subst (asm) (2) search_table.simps) (auto split: if_splits)
qed

lemma start_ok: "net_start behind = Some (True, t) \<Longrightarrow> server_ok t"
proof -
  assume n: "net_start behind = Some (True, t)"
  let ?z = "zero_connection\<lparr>State := TCP_Connection_Closed\<rparr>"
  have "t = (TCP_Init (zero_tcp behind 0))\<lparr>PortStateTable :=
      [\<lparr>LocalPort = TCP_PORT_HTTP, PortState = TCP_Port_Open, ApplicationHandler = Webserver_ApplicationCallback\<rparr>]\<rparr>"
    using n by (auto simp: net_start_def Webserver_Init_def TCP_SetPortState_def write_port_def port_memory_def TCP_Init_def zero_tcp_def
        split: bind_splits option.splits if_splits dest!: search_found)
  then have t: "http_open t" "ConnectionStateTable t = [?z, ?z, ?z]"
    by (simp_all add: http_open_def TCP_Init_def zero_tcp_def eval_nat_numeral)
  then show "server_ok t"
    by (simp add: server_ok_def table_ok_def used_def endpoints_of_def no_endpoints_def zero_connection_def info_ok_def eval_nat_numeral)
qed

lemma serving_ok: "serving r \<Longrightarrow> r = Some t \<Longrightarrow> server_ok t"
proof (induction r arbitrary: t rule: serving.induct)
  case (frame t i j d)
  then show ?case using frame_step by (cases "Ethernet_ProcessPacket i j d t") auto
next
  case (task t d)
  then show ?case using task_step by (cases "TCP_TCPTask d t") auto
qed (auto intro: start_ok)

section \<open>When a segment leaves its buffer\<close>

lemma read_conn:
  assumes "length (ConnectionStateTable t) = 3" "read_info k t = Some i"
  obtains j e where "conn_at t k j e" "Info e = i"
proof (rule search_connection [OF assms(1), of "\<lambda>e. endpoints_of e = k"], goal_cases)
  case (1 j)
  then have "conn_at t k j (ConnectionStateTable t ! j)" using assms(1) by (simp add: conn_at_def)
  moreover have "Info (ConnectionStateTable t ! j) = i" using 1 assms(2) by (simp add: read_info_def TCP_GetConnectionInfo_def is_conn)
  ultimately show ?case by (rule that)
next
  case 2
  then show ?case using assms(2) by (simp add: read_info_def TCP_GetConnectionInfo_def is_conn)
qed

lemma receive_leaves:
  assumes "conn_at t k j e" "peek (p + unat (data_offset th)) (unat (data_length ih th)) d = Some bs"
    "length (TCP_ConnectionBuffer_t.Data (Buffer (Info e))) = 512"
  shows "tcp_receive_data ih p th k d t = None \<longleftrightarrow> takes_data (Info e) \<and> 512 < held_data (Info e) + length bs"
proof -
  let ?free = "\<not> InUse (Buffer (Info e)) \<and> \<not> Ready (Buffer (Info e))"
  let ?f = "e\<lparr>Info := (Info e)\<lparr>Buffer := (Buffer (Info e))\<lparr>Direction := TCP_PACKETDIR_IN, InUse := True, TCP_ConnectionBuffer_t.Length := 0\<rparr>\<rparr>\<rparr>"
  have l: "unat (data_length ih th) = length bs" using assms(2) by (auto simp: peek_some)
  have f: "conn_at (put_conn j ?f t) k j ?f" by (rule conn_at_put [OF assms(1)]) (use assms(1) in \<open>simp add: conn_at_def\<close>)
  have s: "conn_at (put_conn j (x\<lparr>Info := g\<rparr>) t) k j (x\<lparr>Info := g\<rparr>)" if "endpoints_of x = k" for x g
    by (rule conn_at_put [OF assms(1)]) (use that in simp)
  have ke: "endpoints_of e = k" using assms(1) by (simp add: conn_at_def)
  note c = conn_at_operations(2,3) [OF assms(1)] and cf = conn_at_operations(2,3) [OF f]
    and cs = conn_at_operations(2) [OF s]
  have n: "SwapEndian_16 (TotalLength ih) - ucast (HeaderLength ih) * 4 - data_offset th = data_length ih th"
    "ucast (DataOffset th) * 4 = data_offset th" by (simp_all add: data_length_def data_offset_def)
  have p: "peek (p + unat (data_offset th)) (length bs) d = Some bs" using assms(2) l by simp
  show ?thesis
    unfolding tcp_receive_data_def Let_def n l
    using assms(3) ke
    by (cases "InUse (Buffer (Info e))"; cases "Ready (Buffer (Info e))") (simp_all add: p c cf cs takes_data_def held_data_def)
qed

text \<open>
  C7. What the server keeps, whatever it receives, as long as it has not left an array.  In every such state that
  frames and rounds of the TCP task lead to, the port of the web server is open, the table has three entries, no two
  of which belong to the same connection, a state behind the first entry of its endpoints is Closed, and addresses
  have four bytes.  The space in the buffer of a connection is not among it, since the code does not check it:
  a segment of data in the frame memory makes the server write behind the buffer exactly when the connection
  takes data and what it holds and the segment are more than 512 bytes together.
\<close>

theorem server_invariant:
  assumes "serving (Some t)"
  shows "http_open t \<and> table_ok t \<and> distinct (used (ConnectionStateTable t)) \<and>
    (\<forall>e \<in> set (ConnectionStateTable t). length (RemoteAddress e) = 4) \<and>
    (\<forall>k i p ih th d bs. read_info k t = Some i \<longrightarrow> peek (p + unat (data_offset th)) (unat (data_length ih th)) d = Some bs \<longrightarrow>
       (tcp_receive_data ih p th k d t = None \<longleftrightarrow> takes_data i \<and> 512 < held_data i + length bs))"
proof -
  have ok: "server_ok t" by (rule serving_ok [OF assms refl])
  have l: "length (ConnectionStateTable t) = 3" using ok by (simp add: server_ok_def table_ok_def)
  have "tcp_receive_data ih p th k d t = None \<longleftrightarrow> takes_data i \<and> 512 < held_data i + length bs"
    if "read_info k t = Some i" "peek (p + unat (data_offset th)) (unat (data_length ih th)) d = Some bs" for k i p ih th d bs
  proof (rule read_conn [OF l that(1)])
    fix j e assume c: "conn_at t k j e" "Info e = i"
    then have "e \<in> set (ConnectionStateTable t)" by (auto simp: conn_at_def)
    then have "length (TCP_ConnectionBuffer_t.Data (Buffer (Info e))) = 512" using ok by (simp add: server_ok_def info_ok_def)
    from receive_leaves [OF c(1) that(2) this] show ?thesis by (simp add: c(2))
  qed
  then show ?thesis using ok by (simp add: server_ok_def)
qed

theorem server_invariant_witness:
  "\<exists>t t1. net_start (replicate 2 \<lparr>LocalPort = 0, PortState = TCP_Port_Closed, ApplicationHandler = (\<lambda>e a. None)\<rparr>) = Some (True, t) \<and>
    TCP_TCPTask (framed []) t = Some (framed [], t1) \<and> distinct (used (ConnectionStateTable t1))"
proof -
  let ?p = "\<lparr>LocalPort = 0, PortState = TCP_Port_Closed, ApplicationHandler = (\<lambda>e a. None)\<rparr> :: u8 TCP_PortState_t"
  obtain t where t: "net_start [?p, ?p] = Some (True, t)" "quiet t" by (rule started [of ?p ?p "[]"]) simp_all
  have l: "length (ConnectionStateTable t) = 3" "http_open t" "\<And>l. l < 3 \<Longrightarrow> idle_conn (ConnectionStateTable t ! l)"
    using t(2) by (simp_all add: quiet_def)
  then have h: "run_handler j 0 t = Some t" if "j < 3" for j using idle_handler [of t j] that by simp
  have u: "[0..<3] = [0, 1, 2 :: nat]" by (simp add: upt_rec numeral_2_eq_2)
  have a: "run_applications t = Some t" by (simp add: run_applications_def u h)
  have s: "search_table ready_to_send 0 3 (ConnectionStateTable t) = Some None"
    by (rule search_connection [OF l(1), of ready_to_send]) (use l in \<open>auto simp: idle_conn_def ready_to_send_def\<close>)
  have k: "TCP_TCPTask (framed []) t = Some (framed [], t)" by (simp add: TCP_TCPTask_def a s)
  have "serving (Some t)" using serving.task [OF serving.start [OF t(1)], of "framed []"] k by simp
  from server_invariant [OF this] show ?thesis using t(1) k by (auto simp: numeral_2_eq_2)
qed

text \<open>
  A client that keeps to the protocol makes the server write behind the buffer of its connection: data without the
  push flag are not acknowledged, so the client sends them again, and the server stores them again.
\<close>

section \<open>Data without the push flag\<close>

text \<open>The entry of a connection with a free buffer after such a segment.\<close>

definition conn_partly :: "u8 list \<Rightarrow> TCP_ConnectionState_t \<Rightarrow> TCP_ConnectionState_t" where
  "conn_partly bs e = e\<lparr>Info := (Info e)\<lparr>SequenceNumberIn := SequenceNumberIn (Info e) + of_nat (length bs),
     Buffer := \<lparr>Length = of_nat (length bs), Data = bs @ drop (length bs) (Data (Buffer (Info e))), Direction = TCP_PACKETDIR_IN,
       Ready = False, InUse = True\<rparr>\<rparr>\<rparr>"

lemma unpushed_flag: "(0x10 :: u8) AND 8 = 0" "(0x10 :: u8) AND 2 = 0" "(0x10 :: u8) AND 4 = 0"
  by simp_all

lemma automaton_unpushed:
  assumes "http_open t" "conn_at t k i e" "State e = TCP_Connection_Established" "TCP_Header_t.DestinationPort th = TCP_PORT_HTTP"
    "TCP_Header_t.Flags th = TCP_FLAG_ACK" "\<not> InUse (Buffer (Info e))" "\<not> Ready (Buffer (Info e))" "length (Data (Buffer (Info e))) = 512"
    "HeaderLength ih = 5" "DataOffset th = 5" "SwapEndian_16 (TotalLength ih) = of_nat (40 + length bs)" "length bs < 512"
    "holds_at (p + 20) bs d"
  shows "tcp_automaton ih p th k d t = Some (Done None, put_conn i (conn_partly bs e) t)"
proof -
  have n: "unat (of_nat (length bs) :: u16) = length bs" using assms(12) by (simp add: unsigned_of_nat take_bit_nat_eq_self)
  have w: "(of_nat (length bs) :: u16) \<noteq> 512"
  proof
    assume "(of_nat (length bs) :: u16) = 512"
    then have "unat (of_nat (length bs) :: u16) = 512" by simp
    then show False using n assms(12) by simp
  qed
  have pk: "peek (p + 20) (length bs) d = Some bs" by (rule holds_peek [OF assms(13) refl])
  let ?f = "e\<lparr>Info := (Info e)\<lparr>Buffer := (Buffer (Info e))\<lparr>Direction := TCP_PACKETDIR_IN, InUse := True, Length := 0\<rparr>\<rparr>\<rparr>"
  have f: "conn_at (put_conn i ?f t) k i ?f" using assms(2) by (intro conn_at_put) (auto simp: conn_at_def)
  have r: "?f\<lparr>Info := store_data bs False (Info ?f)\<rparr> = conn_partly bs e"
    using w assms(7) by (cases "Buffer (Info e)") (simp add: store_data_def conn_partly_def Let_def)
  then have g: "conn_at (put_conn i (conn_partly bs e) t) k i (conn_partly bs e)" using assms(2) by (intro conn_at_put) (auto simp: conn_at_def conn_partly_def)
  have c: "change_info (store_data bs False) k (put_conn i ?f t) = Some (put_conn i (conn_partly bs e) t)"
    using conn_at_operations(3) [OF f, of "store_data bs False"] unfolding r by simp
  have "tcp_receive_data ih p th k d t = Some (Done None, put_conn i (conn_partly bs e) t)"
    using conn_at_operations(2,3) [OF assms(2)] conn_at_operations(2) [OF f] conn_at_operations(2) [OF g] c n pk assms(5-12)
    by (simp add: tcp_receive_data_def Let_def unpushed_flag del: of_nat_add) (simp add: conn_partly_def w)
  then show ?thesis
    using conn_at_operations(1) [OF assms(2)] assms(3-5) port_open [OF assms(1)]
    by (simp add: tcp_automaton_def tcp_state_switch_def tcp_established_def unpushed_flag)
qed

lemma automaton_overrun:
  assumes "http_open t" "conn_at t k i e" "State e = TCP_Connection_Established" "TCP_Header_t.DestinationPort th = TCP_PORT_HTTP"
    "TCP_Header_t.Flags th = TCP_FLAG_ACK" "tcp_receive_data ih p th k d t = None"
  shows "tcp_automaton ih p th k d t = None"
  using conn_at_operations(1) [OF assms(2)] assms(3-6) port_open [OF assms(1)]
  by (simp add: tcp_automaton_def tcp_state_switch_def tcp_established_def unpushed_flag)

lemma segment_overruns:
  assumes "good_segment mac h th data" "frame_waits (segment mac h th data) d"
    "tcp_automaton (ip_of (ip_bytes h)) 168 th (segment_key h th) d t = None"
  shows "Ethernet_ProcessPacket o_FrameIN o_FrameOUT d t = None"
proof -
  have g: "length mac = 6" "ip_addressed h" "Protocol h = PROTOCOL_TCP" "DataOffset th = 5" "Reserved th = 0"
    using assms(1) by (simp_all add: good_segment_def)
  note s = segment_parts [OF assms(1,2)] and ia = ip_addressed_of [OF g(2)]
  let ?eh = "\<lparr>Destination = ServerMACAddress, Source = mac, EtherType = SwapEndian_16 ETHERTYPE_IPV4\<rparr>"
  have p: "peek 148 20 d = Some (ip_bytes h)" "peek 168 20 d = Some (tcp_bytes th)" by (rule holds_peek, rule s, simp add: ia)+
  have t: "TCP_ProcessTCPPacket 148 168 1671 d t = None"
    using p assms(3) by (simp add: TCP_ProcessTCPPacket_def Let_def ia tcp_of_bytes [OF g(4,5)])
  have dest: "DestinationAddress h = ServerIPAddress \<or> DestinationAddress h = BroadcastIPAddress"
    using g(2) by (simp add: ip_addressed_def)
  have i: "IP_ProcessIPPacket 134 148 1651 d t = None"
    using dest by (elim disjE) (use g(3) t in \<open>simp_all add: IP_ProcessIPPacket_def p ia Let_def\<close>)
  have q: "peek 134 14 d = Some (ethernet_bytes ?eh)" by (rule holds_peek [OF s(1)]) (use g(1) in simp)
  have eo: "ethernet_of (ethernet_bytes ?eh) = ?eh" by (rule ethernet_of_bytes) (use g(1) in simp_all)
  have f: "frame_accepted ?eh (peek16 d (134 + 1500))" using assms(2) by (simp add: frame_accepted_def frame_waits_def)
  show ?thesis using f i by (simp add: Ethernet_ProcessPacket_def Let_def q eo type_swapped)
qed

section \<open>The same segment twice\<close>

text \<open>
  On a server with room for a connection, the same segment of data of more than half the window, without the
  push flag, sent twice behind the handshake: the first is taken without an answer, the second goes behind the buffer.
\<close>

theorem retransmission_overruns:
  assumes "quiet t" "room k t"
    "segment_key h1 th1 = k" "segment_key h2 th2 = k" "segment_key h3 th3 = k"
    "good_segment mac h1 th1 []" "frame_waits (segment mac h1 th1 []) d1" "TCP_Header_t.Flags th1 = TCP_FLAG_SYN"
    "good_segment mac h2 th2 []" "frame_waits (segment mac h2 th2 []) d2" "TCP_Header_t.Flags th2 = TCP_FLAG_ACK"
    "good_segment mac h3 th3 bs" "frame_waits (segment mac h3 th3 bs) d3" "TCP_Header_t.Flags th3 = TCP_FLAG_ACK"
    "256 < length bs" "length bs < 512"
  shows "\<exists>e1 t1 e2 t2 e3 t3.
    Ethernet_ProcessPacket o_FrameIN o_FrameOUT d1 t = Some (e1, t1) \<and>
    Ethernet_ProcessPacket o_FrameIN o_FrameOUT d2 t1 = Some (e2, t2) \<and>
    Ethernet_ProcessPacket o_FrameIN o_FrameOUT d3 t2 = Some (e3, t3) \<and> frame_out e3 = frame_out d3 \<and>
    Ethernet_ProcessPacket o_FrameIN o_FrameOUT d3 t3 = None"
proof -
  let ?seq = "SwapEndian_32 (SequenceNumber th1)"
  have q: "http_open t" "length (ConnectionStateTable t) = 3" using assms(1) by (simp_all add: quiet_def)
  have p: "TCP_Header_t.DestinationPort th1 = TCP_PORT_HTTP" "TCP_Header_t.DestinationPort th2 = TCP_PORT_HTTP"
    "TCP_Header_t.DestinationPort th3 = TCP_PORT_HTTP" using assms(6,9,12) by (simp_all add: good_segment_def)
  obtain i e where i: "i < 3" "ConnectionStateTable t ! i = e"
    "tcp_automaton (ip_of (ip_bytes h1)) 168 th1 k d1 t = Some (Done (Some (TCP_FLAG_SYN OR TCP_FLAG_ACK)), put_conn i (requested k ?seq e) t)"
    "conn_at (put_conn i (requested k ?seq e) t) k i (requested k ?seq e)"
    by (rule automaton_syn [OF q assms(2) p(1) assms(8)])
  have e: "idle_conn e" "length (TCP_ConnectionBuffer_t.Data (Buffer (Info e))) = 512" using assms(1) i(1,2) by (auto simp: quiet_def)
  let ?e1 = "requested k ?seq e" and ?e2 = "confirmed (requested k ?seq e)" and ?e3 = "conn_partly bs (confirmed (requested k ?seq e))"
  let ?t1 = "put_conn i ?e1 t" and ?t2 = "put_conn i ?e2 t" and ?t3 = "put_conn i ?e3 t"
  have k3: "endpoints_of ?e3 = endpoints_of ?e2" "State ?e3 = State ?e2" by (simp_all add: conn_partly_def)
  have c: "conn_at ?t2 k i ?e2" "conn_at ?t3 k i ?e3"
    using conn_at_put [OF i(4), of ?e2] conn_at_put [OF i(4), of ?e3] by (simp_all add: requested_fields k3)
  have r1: "read_info k ?t1 = Some (Info ?e1)" by (rule conn_at_operations [OF i(4)])
  obtain f1 where f1: "Ethernet_ProcessPacket o_FrameIN o_FrameOUT d1 t = Some (f1, ?t1)"
    using segment_answered [OF assms(6,7)] i(3) r1 unfolding assms(3) by metis
  have "tcp_automaton (ip_of (ip_bytes h2)) 168 th2 k d2 ?t1 = Some (Done None, put_conn i ?e2 ?t1)"
    by (rule automaton_ack [OF _ i(4) _ p(2) assms(11)]) (use q in \<open>simp_all add: requested_fields\<close>)
  then have f2: "Ethernet_ProcessPacket o_FrameIN o_FrameOUT d2 ?t1 = Some (upd 1636 [0] d2, ?t2)"
    using segment_absorbed [OF assms(9,10)] unfolding assms(4) by simp
  have a: "ip_addressed h3" "TotalLength h3 = SwapEndian_16 (of_nat (40 + length bs))" using assms(12) by (simp_all add: good_segment_def)
  have ih: "HeaderLength (ip_of (ip_bytes h3)) = 5" using ip_addressed_of [OF a(1)] by simp
  have tl: "SwapEndian_16 (TotalLength (ip_of (ip_bytes h3))) = of_nat (40 + length bs)"
    using ip_of_bytes(5) [of h3] a by (simp add: ip_addressed_def type_swapped)
  have hd: "holds_at (168 + 20) bs d3" using segment_parts(4) [OF assms(12,13)] by simp
  have th: "DataOffset th3 = 5" using assms(12) by (simp add: good_segment_def)
  have "tcp_automaton (ip_of (ip_bytes h3)) 168 th3 k d3 ?t2 = Some (Done None, put_conn i ?e3 ?t2)"
    by (rule automaton_unpushed [OF _ c(1) _ p(3) assms(14) _ _ _ ih th tl assms(16) hd])
      (use q e in \<open>simp_all add: requested_fields idle_conn_def\<close>)
  then have f3: "Ethernet_ProcessPacket o_FrameIN o_FrameOUT d3 ?t2 = Some (upd 1636 [0] d3, ?t3)"
    using segment_absorbed [OF assms(12,13)] unfolding assms(5) by simp
  have n: "data_length (ip_of (ip_bytes h3)) th3 = of_nat (length bs)" "data_offset th3 = 20"
    by (simp_all add: data_length_def data_offset_def ih th tl)
  have u: "unat (of_nat (length bs) :: u16) = length bs" using assms(16) by (simp add: unsigned_of_nat take_bit_nat_eq_self)
  have pk: "peek (168 + unat (data_offset th3)) (unat (data_length (ip_of (ip_bytes h3)) th3)) d3 = Some bs"
    unfolding n u using holds_peek [OF hd refl] by simp
  have w: "(of_nat (length bs) :: u16) \<noteq> 512" 
  proof
    assume "(of_nat (length bs) :: u16) = 512"
    then have "unat (of_nat (length bs) :: u16) = 512" by simp
    then show False using u assms(16) by simp
  qed
  have b: "Buffer (Info ?e3) = \<lparr>Length = of_nat (length bs), Data = bs @ drop (length bs) (Data (Buffer (Info ?e2))), Direction = TCP_PACKETDIR_IN,
       Ready = False, InUse = True\<rparr>" by (simp add: conn_partly_def)
  have "length (Data (Buffer (Info ?e3))) = 512" using e assms(16) by (simp add: b requested_fields)
  from receive_leaves [OF c(2) pk this] have "tcp_receive_data (ip_of (ip_bytes h3)) 168 th3 k d3 ?t3 = None"
    using assms(15) u w by (simp add: takes_data_def held_data_def b)
  then have "tcp_automaton (ip_of (ip_bytes h3)) 168 th3 k d3 ?t3 = None"
    by (rule automaton_overrun [OF _ c(2) _ p(3) assms(14), rotated 2]) (use q in \<open>simp_all add: k3 requested_fields\<close>)
  then have f4: "Ethernet_ProcessPacket o_FrameIN o_FrameOUT d3 ?t3 = None"
    by (rule segment_overruns [OF assms(12,13), unfolded assms(5)])
  have "frame_out (upd 1636 [0] d3) = frame_out d3"

  proof -
    have l: "length d3 = sizeof_State" using assms(13) by (simp add: frame_waits_def)
    then have "peek16 (upd 1636 [0] d3) 3137 = peek16 d3 3137" by (simp add: peek16_def nth_upd)
    then show ?thesis using l by (simp add: frame_out_def upd_def)
  qed
  then show ?thesis using f1 f2 f3 f4 by blast
qed

text \<open>So a state outside the arrays is among those the server reaches.\<close>

theorem server_overrun: "serving None"
proof -
  let ?p = "\<lparr>LocalPort = 0, PortState = TCP_Port_Closed, ApplicationHandler = (\<lambda>e a. None)\<rparr> :: u8 TCP_PortState_t"
  let ?bs = "replicate 300 0 :: u8 list"
  obtain t where t: "net_start [?p, ?p] = Some (True, t)" "quiet t" "room (TCP_PORT_HTTP, ClientIPAddress, 7) t"
    by (rule started [of ?p ?p "[]"]) simp_all
  have s: "serving (Some t)" by (rule serving.start [OF t(1)])
  have l: "length ([] :: u8 list) \<le> 512" "length ([] :: u8 list) = 0 \<or> length ([] :: u8 list) = 6" "length ?bs \<le> 512" "256 < length ?bs" "length ?bs < 512" by simp_all
  have w: "frame_waits (browser_segment TCP_FLAG_ACK ?bs) (framed (browser_segment TCP_FLAG_ACK ?bs))" 
  proof -
    have l: "length (browser_segment TCP_FLAG_ACK ?bs) = 354"
      by (simp add: segment_def ip_addressed_of browser_ip_def ping_ip_def AdapterMAC_def)
    have "SwapEndian_16 354 > ETHERNET_VER2_MINSIZE" by (simp add: SwapEndian_16_def)
    then show ?thesis using framed [of "browser_segment TCP_FLAG_ACK ?bs"] unfolding frame_waits_def l by simp
  qed
  obtain e1 t1 e2 t2 e3 t3 where r:
    "Ethernet_ProcessPacket o_FrameIN o_FrameOUT (framed (browser_segment TCP_FLAG_SYN [])) t = Some (e1, t1)"
    "Ethernet_ProcessPacket o_FrameIN o_FrameOUT (framed (browser_segment TCP_FLAG_ACK [])) t1 = Some (e2, t2)"
    "Ethernet_ProcessPacket o_FrameIN o_FrameOUT (framed (browser_segment TCP_FLAG_ACK ?bs)) t2 = Some (e3, t3)"
    "Ethernet_ProcessPacket o_FrameIN o_FrameOUT (framed (browser_segment TCP_FLAG_ACK ?bs)) t3 = None"
    using retransmission_overruns [OF t(2,3) browser_good(2,2,2) browser_good(1) [OF l(1)] browser_waits [OF l(2)] browser_good(3)
        browser_good(1) [OF l(1)] browser_waits [OF l(2)] browser_good(3) browser_good(1) [OF l(3)] w browser_good(3) l(4,5)] by blast
  have s1: "serving (Some t1)" using serving.frame [OF s] r(1) by (metis option.simps(9) snd_conv)
  have s2: "serving (Some t2)" using serving.frame [OF s1] r(2) by (metis option.simps(9) snd_conv)
  have s3: "serving (Some t3)" using serving.frame [OF s2] r(3) by (metis option.simps(9) snd_conv)
  show ?thesis using serving.frame [OF s3] r(4) by (metis option.simps(8))
qed

end
