(* ===== verification/Net_Dhcp.thy ===== *)
theory Net_Dhcp
  imports Net_Replies
begin

text \<open>
  The DHCP server of the network demo: the search for the type of a message among its options, and the
  answer to a whole frame.
\<close>

section \<open>Options\<close>

text \<open>A list of options, each a code with its data; padding has no data, and the end mark is none of them.\<close>

type_synonym dhcp_option = "u8 \<times> u8 list"

definition option_bytes :: "dhcp_option \<Rightarrow> u8 list" where
  "option_bytes x = (if fst x = DHCP_OPTION_PAD then [DHCP_OPTION_PAD] else [fst x, of_nat (length (snd x))] @ snd x)"

definition option_ok :: "dhcp_option \<Rightarrow> bool" where
  "option_ok x \<longleftrightarrow> fst x \<noteq> DHCP_OPTION_END \<and> length (snd x) < 256 \<and> (fst x = DHCP_OPTION_MESSAGETYPE \<longrightarrow> snd x \<noteq> [])"

definition answered_type :: "dhcp_option \<Rightarrow> bool" where
  "answered_type x \<longleftrightarrow> fst x = DHCP_OPTION_MESSAGETYPE \<and> (hd (snd x) = DHCP_MESSAGETYPE_DISCOVER \<or> hd (snd x) = DHCP_MESSAGETYPE_REQUEST)"

definition options_bytes :: "dhcp_option list \<Rightarrow> u8 list" where
  "options_bytes xs = concat (map option_bytes xs) @ [DHCP_OPTION_END]"

definition message_type :: "dhcp_option list \<Rightarrow> u8 option" where
  "message_type xs = map_option (\<lambda>x. hd (snd x)) (find answered_type xs)"

lemma holds_take: "holds_at p xs d \<Longrightarrow> n \<le> length xs \<Longrightarrow> peek p n d = Some (take n xs)"
  using holds_append [of p "take n xs" "drop n xs" d] holds_peek [of p "take n xs" d n] by simp

lemma message_type_found:
  "holds_at p (options_bytes xs) d \<Longrightarrow> \<forall>x \<in> set xs. option_ok x \<Longrightarrow> dhcp_message_type d p = Some (message_type xs)"
proof (induction xs arbitrary: p)
  case Nil
  then have "peek p 1 d = Some [DHCP_OPTION_END]" by (intro holds_peek) (simp_all add: options_bytes_def)
  then show ?case by (subst dhcp_message_type.simps) (simp add: message_type_def)
next
  case (Cons x xs)
  obtain c ds where x: "x = (c, ds)" by (cases x)
  have ok: "c \<noteq> 255" "length ds < 256" "c = 53 \<Longrightarrow> ds \<noteq> []" "\<forall>x \<in> set xs. option_ok x" using Cons.prems(2) by (simp_all add: option_ok_def x)
  have u: "unat (of_nat (length ds) :: u8) = length ds" using ok(2) by (simp add: unsigned_of_nat take_bit_nat_eq_self)
  have h: "holds_at p (option_bytes x @ options_bytes xs) d" using Cons.prems(1) by (simp add: options_bytes_def)
  then have r: "dhcp_message_type d (p + length (option_bytes x)) = Some (message_type xs)"
    using Cons.IH [of "p + length (option_bytes x)"] ok(4) by (simp add: holds_append)
  show ?case
  proof (cases "c = 0")
    case True
    then have "peek p 1 d = Some [0]" using holds_take [OF h, of 1] by (simp add: option_bytes_def x)
    then show ?thesis using r True by (subst dhcp_message_type.simps) (simp add: message_type_def answered_type_def x option_bytes_def)
  next
    case False
    then have b: "option_bytes x = [c, of_nat (length ds)] @ ds" by (simp add: option_bytes_def x)
    have p: "peek p 1 d = Some [c]" "peek p 2 d = Some [c, of_nat (length ds)]" using holds_take [OF h, of 1] holds_take [OF h, of 2] by (simp_all add: b)
    have q: "p + length (option_bytes x) = p + length ds + 2" by (simp add: b)
    show ?thesis
    proof (cases "c = 53")
      case True
      then obtain y ys where y: "ds = y # ys" using ok(3) by (cases ds) simp_all
      have "peek p 3 d = Some [c, of_nat (length ds), y]" using holds_take [OF h, of 3] by (simp add: b y)
      then show ?thesis using r False p(1) True u unfolding q
        by (subst dhcp_message_type.simps) (simp add: message_type_def answered_type_def x y)
    next
      case other: False
      then show ?thesis using r False p ok(1) u unfolding q
        by (subst dhcp_message_type.simps) (simp add: message_type_def answered_type_def x)
    qed
  qed
qed

section \<open>Headers and memory\<close>

lemma upd_swap: "p + length xs \<le> q \<Longrightarrow> q + length ys \<le> length d \<Longrightarrow> upd p xs (upd q ys d) = upd q ys (upd p xs d)"
  by (rule nth_equalityI) (auto simp: nth_upd)

definition dhcp_ok :: "DHCP_Header_t \<Rightarrow> bool" where
  "dhcp_ok x \<longleftrightarrow> length (ClientIP x) = 4 \<and> length (YourIP x) = 4 \<and> length (NextServerIP x) = 4 \<and> length (RelayAgentIP x) = 4 \<and>
     length (ClientHardwareAddress x) = 16 \<and> length (ServerHostnameString x) = 64 \<and> length (BootFileName x) = 128"

lemma length_dhcp: "dhcp_ok x \<Longrightarrow> length (dhcp_bytes x) = 240"
  by (simp add: dhcp_bytes_def dhcp_ok_def)

lemma reply_ok: "dhcp_ok x \<Longrightarrow> dhcp_ok (dhcp_reply x)"
  by (simp add: dhcp_ok_def dhcp_reply_def zero_dhcp_def ClientIPAddress_def)

lemma dhcp_of_bytes: "dhcp_ok x \<Longrightarrow> dhcp_of (dhcp_bytes x) = x"
  by (cases x) (simp add: dhcp_of_def dhcp_bytes_def dhcp_ok_def peek16_def peek32_def bytes16_def bytes32_def, simp add: nth_append)

lemma udp_of_bytes: "udp_of (udp_bytes u) = u" "length (udp_bytes u) = 8"
  by (cases u, simp add: udp_of_def udp_bytes_def peek16_def bytes16_def) (simp add: udp_bytes_def)

lemma length_options: "length (dhcp_options ty) = 16"
  by (simp add: dhcp_options_def ServerIPAddress_def)

section \<open>The answer\<close>

text \<open>The header of the request as the server leaves it.\<close>

definition leased :: "IP_Header_t \<Rightarrow> IP_Header_t" where
  "leased h = h\<lparr>SourceAddress := ClientIPAddress, DestinationAddress := ServerIPAddress\<rparr>"

definition dhcp_data :: "DHCP_Header_t \<Rightarrow> u8 \<Rightarrow> u8 list" where
  "dhcp_data x ty = dhcp_bytes (dhcp_reply x) @ dhcp_options ty"

definition udp_reply :: "UDP_Header_t \<Rightarrow> u16 \<Rightarrow> UDP_Header_t" where
  "udp_reply u n = \<lparr>UDP_Header_t.SourcePort = UDP_Header_t.DestinationPort u, UDP_Header_t.DestinationPort = UDP_Header_t.SourcePort u,
     UDP_Header_t.Length = SwapEndian_16 (8 + n), UDP_Header_t.Checksum = 0\<rparr>"

abbreviation leased_memory :: "rndis \<Rightarrow> rndis" where
  "leased_memory d \<equiv> upd 164 ServerIPAddress (upd 160 ClientIPAddress d)"

lemma leased_header:
  assumes "ip_addressed h" "holds_at 148 (ip_bytes h) d"
  shows "holds_at 148 (ip_bytes (leased h)) (leased_memory d)"
proof -
  define A where "A = take 12 (ip_bytes h)"
  have l: "length (SourceAddress h) = 4" "length (DestinationAddress h) = 4" using assms(1) by (simp_all add: ip_addressed_def)
  have A: "ip_bytes h = A @ SourceAddress h @ DestinationAddress h" "length A = 12" "ip_bytes (leased h) = A @ ClientIPAddress @ ServerIPAddress"
    by (simp_all add: A_def ip_bytes_def leased_def)
  have h: "holds_at 148 A d" "160 + 4 \<le> length d" "164 + 4 \<le> length d"
    using assms(2) l A(2) unfolding A(1) by (simp_all add: holds_append) (simp_all add: holds_at_def)
  have 1: "holds_at 148 A (leased_memory d)" by (rule holds_upd_other [OF holds_upd_other [OF h(1)]]) (use A in simp_all)
  have "holds_at 160 ClientIPAddress (upd 160 ClientIPAddress d)" by (rule holds_upd) (use h in simp)
  then have 2: "holds_at 160 ClientIPAddress (leased_memory d)" by (rule holds_upd_other) simp
  have 3: "holds_at 164 ServerIPAddress (leased_memory d)" by (rule holds_upd) (use h in simp)
  show ?thesis unfolding A(3) using 1 2 3 A(2) by (simp add: holds_append)
qed

lemma dhcp_reply_built:
  assumes "length d = sizeof_State" "dhcp_ok x" "holds_at 176 (dhcp_bytes x) d" "holds_at 416 (options_bytes xs) d" "\<forall>x \<in> set xs. option_ok x"
    "message_type xs = Some ty" "length (options_bytes xs) \<le> 1200"
  shows "DHCP_ProcessDHCPPacket 148 176 1679 d = Some (256, upd 1679 (dhcp_data x ty) (leased_memory d))"
proof -
  let ?R = "dhcp_bytes (dhcp_reply x)"
  have R: "length ?R = 240" by (rule length_dhcp [OF reply_ok [OF assms(2)]])
  have p: "peek 176 240 d = Some (dhcp_bytes x)" by (rule holds_peek [OF assms(3)]) (simp add: length_dhcp [OF assms(2)])
  let ?e = "upd 1679 ?R (leased_memory d)"
  have "leased_memory (upd 1679 ?R d) = upd 164 ServerIPAddress (upd 1679 ?R (upd 160 ClientIPAddress d))"
    using R assms(1) by (subst upd_swap [of 160 _ 1679]) simp_all
  also have "\<dots> = ?e" by (rule upd_swap) (use R assms(1) in simp_all)
  finally have e: "leased_memory (upd 1679 ?R d) = ?e" .
  have k: "poke 1679 ?R d = Some (upd 1679 ?R d)" "poke 160 ClientIPAddress (upd 1679 ?R d) = Some (upd 160 ClientIPAddress (upd 1679 ?R d))"
    "poke 164 ServerIPAddress (upd 160 ClientIPAddress (upd 1679 ?R d)) = Some ?e"
    using R assms(1) e by (simp_all add: poke_some)
  have "holds_at 416 (options_bytes xs) ?e"
    by (rule holds_upd_other [OF holds_upd_other [OF holds_upd_other [OF assms(4)]]]) (use assms(7) in simp_all)
  then have t: "dhcp_message_type ?e 416 = Some (Some ty)" using message_type_found [OF _ assms(5)] assms(6) by metis
  have "upd 1919 (dhcp_options ty) ?e = upd 1679 (dhcp_data x ty) (leased_memory d)"
    using upd_behind [of 1679 ?R "dhcp_options ty" "leased_memory d"] R assms(1) length_options by (simp add: dhcp_data_def)
  then have "poke 1919 (dhcp_options ty) ?e = Some (upd 1679 (dhcp_data x ty) (leased_memory d))"
    using assms(1) length_options by (simp add: poke_some)
  then show ?thesis using p k t by (simp add: DHCP_ProcessDHCPPacket_def Let_def dhcp_of_bytes [OF assms(2)])
qed

lemma udp_reply_built:
  assumes "length d = sizeof_State" "dhcp_ok x" "holds_at 168 (udp_bytes u) d" "UDP_Header_t.DestinationPort u = SwapEndian_16 UDP_PORT_DHCP_REQUEST"
    "holds_at 176 (dhcp_bytes x) d" "holds_at 416 (options_bytes xs) d" "\<forall>x \<in> set xs. option_ok x"
    "message_type xs = Some ty" "length (options_bytes xs) \<le> 1200"
  shows "UDP_ProcessUDPPacket 148 168 1671 d =
    Some (264, upd 1671 (udp_bytes (udp_reply u 256) @ dhcp_data x ty) (leased_memory d))"
proof -
  have l: "length (dhcp_data x ty) = 256" by (simp add: dhcp_data_def length_options length_dhcp [OF reply_ok [OF assms(2)]])
  let ?e = "upd 1679 (dhcp_data x ty) (leased_memory d)"
  have p: "peek 168 8 d = Some (udp_bytes u)" by (rule holds_peek [OF assms(3)]) (simp add: udp_of_bytes)
  have "holds_at 168 (udp_bytes u) ?e"
    by (rule holds_upd_other [OF holds_upd_other [OF holds_upd_other [OF assms(3)]]]) (simp_all add: udp_of_bytes)
  then have q: "peek 168 8 ?e = Some (udp_bytes u)" by (rule holds_peek) (simp add: udp_of_bytes)
  have "upd 1671 (udp_bytes (udp_reply u 256)) ?e = upd 1671 (udp_bytes (udp_reply u 256) @ dhcp_data x ty) (leased_memory d)"
    using upd_before [of 1671 "udp_bytes (udp_reply u 256)" "dhcp_data x ty" "leased_memory d"] l assms(1) by (simp add: udp_of_bytes)
  then have "poke 1671 (udp_bytes (udp_reply u 256)) ?e = Some (upd 1671 (udp_bytes (udp_reply u 256) @ dhcp_data x ty) (leased_memory d))"
    using assms(1) by (simp add: poke_some udp_of_bytes)
  moreover have "is_response 256" using small_response [of 256] by simp
  ultimately show ?thesis
    using dhcp_reply_built [OF assms(1,2,5-9)] p q assms(4)
    by (simp add: UDP_ProcessUDPPacket_def Let_def udp_of_bytes type_swapped udp_reply_def)
qed

definition dhcp_frame :: "MAC_Address_t \<Rightarrow> MAC_Address_t \<Rightarrow> IP_Header_t \<Rightarrow> UDP_Header_t \<Rightarrow> DHCP_Header_t \<Rightarrow> dhcp_option list \<Rightarrow> u8 list" where
  "dhcp_frame dst mac h u x xs =
     ethernet_bytes \<lparr>Destination = dst, Source = mac, EtherType = SwapEndian_16 ETHERTYPE_IPV4\<rparr> @
     ip_bytes h @ udp_bytes u @ dhcp_bytes x @ options_bytes xs"

text \<open>
  C26. The lease.  A DHCP message to the server or to all is answered by the type found among its options,
  wherever it stands there and whatever options are around it: a discover message with an offer, a request with an
  acknowledgement, from the server's address to the leased one, with the transaction number and the hardware
  address of the client; the IP checksum of the answer is valid.
\<close>

theorem dhcp_answered:
  assumes "length d = sizeof_State" "length mac = 6" "dst = ServerMACAddress \<or> dst = BroadcastMACAddress"
    "ip_addressed h" "Protocol h = PROTOCOL_UDP" "UDP_Header_t.DestinationPort u = SwapEndian_16 UDP_PORT_DHCP_REQUEST" "dhcp_ok x"
    "\<forall>x \<in> set xs. option_ok x" "message_type xs = Some ty" "length (options_bytes xs) \<le> 1200"
    "holds_at o_FrameIN (dhcp_frame dst mac h u x xs) d" "SwapEndian_16 (peek16 d (o_FrameIN + o_FrameLength)) > ETHERNET_VER2_MINSIZE"
  shows "\<exists>d' c. Ethernet_ProcessPacket o_FrameIN o_FrameOUT d t = Some (d', t) \<and>
    d' ! (o_FrameIN + o_FrameInBuffer) = 0 \<and> d' ! (o_FrameOUT + o_FrameInBuffer) \<noteq> 0 \<and>
    frame_out d' = ethernet_bytes \<lparr>Destination = mac, Source = ServerMACAddress, EtherType = SwapEndian_16 ETHERTYPE_IPV4\<rparr> @
      ip_reply (leased h) 264 c @ udp_bytes (udp_reply u 256) @ dhcp_bytes (dhcp_reply x) @
      [DHCP_OPTION_MESSAGETYPE, 1, if ty = DHCP_MESSAGETYPE_DISCOVER then DHCP_MESSAGETYPE_OFFER else DHCP_MESSAGETYPE_ACK,
       DHCP_OPTION_SUBNETMASK, 4, 255, 255, 255, 0, DHCP_OPTION_DHCPSERVER, 4] @ ServerIPAddress @ [DHCP_OPTION_END] \<and>
    Ethernet_Checksum16 0 20 (ip_reply (leased h) 264 c) = Some 0"
proof -
  let ?ty = "SwapEndian_16 ETHERTYPE_IPV4"
  let ?ih = "\<lparr>Destination = dst, Source = mac, EtherType = ?ty\<rparr>" and ?oh = "\<lparr>Destination = mac, Source = ServerMACAddress, EtherType = ?ty\<rparr>"
  let ?bs = "udp_bytes (udp_reply u 256) @ dhcp_data x ty" and ?e = "leased_memory d"
  note ia = ip_addressed_of [OF assms(4)]
  have ld: "length dst = 6" using assms(3) by (auto simp: BroadcastMACAddress_def)
  have la: "ip_addressed (leased h)" using assms(4) by (simp add: ip_addressed_def leased_def)
  have "holds_at 134 (ethernet_bytes ?ih @ ip_bytes h @ udp_bytes u @ dhcp_bytes x @ options_bytes xs) d"
    using assms(11) by (simp add: dhcp_frame_def)
  then have h: "holds_at 134 (ethernet_bytes ?ih) d" "holds_at 148 (ip_bytes h) d" "holds_at 168 (udp_bytes u) d"
    "holds_at 176 (dhcp_bytes x) d" "holds_at 416 (options_bytes xs) d"
    using assms(2) ld by (simp_all add: holds_append ia udp_of_bytes length_dhcp [OF assms(7)])
  have l: "length ?bs = 264" by (simp add: dhcp_data_def length_options length_dhcp [OF reply_ok [OF assms(7)]] udp_of_bytes)
  have u: "UDP_ProcessUDPPacket 148 168 1671 d = Some (264, upd 1671 ?bs ?e)"
    by (rule udp_reply_built [OF assms(1,7) h(3) assms(6) h(4,5) assms(8-10)])
  have p: "peek 148 20 d = Some (ip_bytes h)" by (rule holds_peek [OF h(2)]) (simp add: ia)
  have r: "is_response 264" using small_response [of 264] by simp
  have hl: "holds_at 148 (ip_bytes (leased h)) (upd (1651 + 20) ?bs ?e)"
    by (rule holds_upd_other [OF leased_header [OF assms(4) h(2)]]) (simp add: ip_addressed_of [OF la])
  obtain c where c: "do {
       bs' \<leftarrow> peek 148 20 (upd (1651 + 20) ?bs ?e);
       let hd = ip_response_header (ip_of bs') (of_nat (length ?bs));
       d \<leftarrow> poke 1651 (ip_bytes hd) (upd (1651 + 20) ?bs ?e);
       c \<leftarrow> Ethernet_Checksum16 1651 (of_nat sizeof_IP) d;
       d \<leftarrow> poke 1651 (ip_bytes (hd\<lparr>HeaderChecksum := c\<rparr>)) d;
       Some (of_nat sizeof_IP + of_nat (length ?bs) :: u16, d, t)
     } = Some (of_nat (20 + length ?bs), upd 1651 (ip_reply (leased h) (length ?bs) c @ ?bs) ?e, t)"
    "Ethernet_Checksum16 1651 20 (upd 1651 (ip_reply (leased h) (length ?bs) c @ ?bs) ?e) = Some 0"
    by (rule finish_ip [OF la hl refl, of t]) (use l assms(1) in simp_all)
  let ?q = "ip_reply (leased h) 264 c @ ?bs"
  have lq: "length ?q = 284" "length (ip_reply (leased h) 264 c) = 20" using l by (simp_all add: ip_reply_def ip_addressed_of [OF la])
  have dest: "DestinationAddress h = ServerIPAddress \<or> DestinationAddress h = BroadcastIPAddress" using assms(4) by (simp add: ip_addressed_def)
  have i: "IP_ProcessIPPacket 134 148 1651 d t = Some (284, upd 1651 ?q ?e, t)"
    using dest by (elim disjE) (use assms(5) c(1) [unfolded l] u r in \<open>simp_all add: IP_ProcessIPPacket_def p ia Let_def\<close>)
  have f: "frame_accepted ?ih (peek16 d (o_FrameIN + o_FrameLength))" using assms(3,12) by (auto simp: frame_accepted_def)
  have e: "Ethernet_ProcessPacket o_FrameIN o_FrameOUT d t = Some (upd 1636 [0] (upd 3139 [1] (upd 3137 (bytes16 (of_nat (14 + length ?q)))
      (upd o_FrameOUT (ethernet_bytes ?oh @ ?q) ?e))), t)"
    by (rule frame_answer [OF assms(2) ld f h(1)]) (use i lq assms(1) in \<open>simp_all add: type_swapped\<close>)
  have le: "length ?e = sizeof_State" using assms(1) by simp
  have n: "length (ethernet_bytes ?oh @ ?q) \<le> ETHERNET_FRAME_SIZE_MAX" "unat (of_nat (14 + length ?q) :: u16) = length (ethernet_bytes ?oh @ ?q)"
    using assms(2) lq by simp_all
  have w: "take 284 (drop 1651 (upd 1651 ?q ?e)) = ?q" using slice_upd [of 1651 ?q ?e] lq assms(1) by simp
  have "take 20 (drop 1651 (upd 1651 ?q ?e)) = ip_reply (leased h) 264 c"
    using lq(2) arg_cong [OF w, of "take 20"] by simp
  then have k: "Ethernet_Checksum16 0 20 (ip_reply (leased h) 264 c) = Some 0"
    using checksum_slice [of 20 0 "ip_reply (leased h) 264 c" 1651 "upd 1651 ?q ?e"] c(2) lq(2) assms(1) l by simp
  show ?thesis
    using e answered_memory [OF le n refl] k by (intro exI conjI) (assumption | simp add: dhcp_data_def dhcp_options_def)+
qed

definition discover_ip :: IP_Header_t where
  "discover_ip = ping_ip\<lparr>Protocol := PROTOCOL_UDP, SourceAddress := replicate 4 0, DestinationAddress := BroadcastIPAddress\<rparr>"

definition discover_udp :: UDP_Header_t where
  "discover_udp = \<lparr>UDP_Header_t.SourcePort = SwapEndian_16 68, UDP_Header_t.DestinationPort = SwapEndian_16 UDP_PORT_DHCP_REQUEST,
     UDP_Header_t.Length = 0, UDP_Header_t.Checksum = 0\<rparr>"

definition discover_options :: "dhcp_option list" where
  "discover_options = [(DHCP_OPTION_PAD, []), (12, [65]), (DHCP_OPTION_MESSAGETYPE, [DHCP_MESSAGETYPE_DISCOVER])]"

definition discover :: "u8 list" where
  "discover = dhcp_frame BroadcastMACAddress AdapterMAC discover_ip discover_udp zero_dhcp discover_options"

theorem dhcp_answered_witness:
  "\<exists>d'. Ethernet_ProcessPacket o_FrameIN o_FrameOUT (framed discover) (zero_tcp [] (0 :: u8)) = Some (d', zero_tcp [] 0) \<and>
    take 6 (frame_out d') = AdapterMAC"
proof -
  have m: "length AdapterMAC = 6" by (simp add: AdapterMAC_def)
  have i: "ip_addressed discover_ip" "Protocol discover_ip = PROTOCOL_UDP"
    by (simp_all add: ip_addressed_def discover_ip_def ping_ip_def BroadcastIPAddress_def)
  have u: "UDP_Header_t.DestinationPort discover_udp = SwapEndian_16 UDP_PORT_DHCP_REQUEST" by (simp add: discover_udp_def)
  have x: "dhcp_ok zero_dhcp" by (simp add: dhcp_ok_def zero_dhcp_def)
  have o: "\<forall>x \<in> set discover_options. option_ok x" "message_type discover_options = Some DHCP_MESSAGETYPE_DISCOVER"
    by (simp_all add: discover_options_def option_ok_def message_type_def answered_type_def)
  have b: "length (options_bytes discover_options) = 8" by (simp add: options_bytes_def discover_options_def option_bytes_def)
  have l: "length discover = 290"
    by (simp add: discover_def dhcp_frame_def ip_addressed_of [OF i(1)] udp_of_bytes length_dhcp [OF x] b m BroadcastMACAddress_def)
  have f: "length (framed discover) = sizeof_State" "holds_at o_FrameIN discover (framed discover)"
    "peek16 (framed discover) (o_FrameIN + o_FrameLength) = 290" using framed [of discover] l by simp_all
  have s: "SwapEndian_16 (peek16 (framed discover) (o_FrameIN + o_FrameLength)) > ETHERNET_VER2_MINSIZE"
    unfolding f(3) by (simp add: SwapEndian_16_def)
  have b': "length (options_bytes discover_options) \<le> 1200" using b by simp
  obtain d' c where "Ethernet_ProcessPacket o_FrameIN o_FrameOUT (framed discover) (zero_tcp [] (0 :: u8)) = Some (d', zero_tcp [] 0)"
    "frame_out d' = ethernet_bytes \<lparr>Destination = AdapterMAC, Source = ServerMACAddress, EtherType = SwapEndian_16 ETHERTYPE_IPV4\<rparr> @
      ip_reply (leased discover_ip) 264 c @ udp_bytes (udp_reply discover_udp 256) @ dhcp_bytes (dhcp_reply zero_dhcp) @
      [53, 1, 2, 1, 4, 255, 255, 255, 0, 54, 4] @ ServerIPAddress @ [255]"
    using dhcp_answered [OF f(1) [unfolded discover_def] m disjI2 [OF refl] i u x o b' f(2) [unfolded discover_def] s [unfolded discover_def], of "zero_tcp [] (0 :: u8)"]
    unfolding discover_def [symmetric] by auto
  then show ?thesis by (intro exI [of _ d']) (simp add: ethernet_bytes_def m)
qed

end
