(* ===== verification/Boot_Flash.thy ===== *)
theory Boot_Flash
  imports Endpoint
begin

text \<open>
  What the bootloaders under \<open>tools/lufa20100219/Bootloaders\<close> use of the AVR beside the USB controller: the
  self-programming of \<open>avr/boot.h\<close>, reading of program memory and of the EEPROM, the position of the interrupt
  vectors, and the watchdog.  The code takes them as the record \<open>boot\<close>.  What the hardware does is the machine
  \<open>spm\<close>, after the data sheet: pages of 256 bytes, a page buffer whose words can be filled once, programming
  that only clears bits, and program memory that cannot be read until it is enabled again.
\<close>

section \<open>The interface\<close>

record 'h boot =
  boot_page_fill :: "u32 \<Rightarrow> u16 \<Rightarrow> 'h \<Rightarrow> 'h"
  boot_page_erase :: "u32 \<Rightarrow> 'h \<Rightarrow> 'h"
  boot_page_write :: "u32 \<Rightarrow> 'h \<Rightarrow> 'h"
  boot_spm_busy_wait :: "'h \<Rightarrow> 'h"
  boot_rww_enable :: "'h \<Rightarrow> 'h"
  boot_lock_bits_set :: "u8 \<Rightarrow> 'h \<Rightarrow> 'h"
  boot_lock_fuse_bits_get :: "u16 \<Rightarrow> 'h \<Rightarrow> u8 \<times> 'h"
  pgm_read_byte_far :: "u32 \<Rightarrow> 'h \<Rightarrow> u8 \<times> 'h"
  pgm_read_word_far :: "u32 \<Rightarrow> 'h \<Rightarrow> u16 \<times> 'h"
  eeprom_read_byte :: "u16 \<Rightarrow> 'h \<Rightarrow> u8 \<times> 'h"
  eeprom_write_byte :: "u16 \<Rightarrow> u8 \<Rightarrow> 'h \<Rightarrow> 'h"

record 'h core =
  clear_WDRF :: "'h \<Rightarrow> 'h"
  wdt_disable :: "'h \<Rightarrow> 'h"
  wdt_enable :: "'h \<Rightarrow> 'h"
  clock_prescale_set :: "'h \<Rightarrow> 'h"
  wr_MCUCR :: "u8 \<Rightarrow> 'h \<Rightarrow> 'h"
  lib_USB_Init :: "'h \<Rightarrow> 'h option"
  lib_USB_ShutDown :: "'h \<Rightarrow> 'h option"
  lib_USB_Detach :: "'h \<Rightarrow> 'h"

abbreviation (input) IVCE :: nat where "IVCE \<equiv> 0"
abbreviation (input) IVSEL :: nat where "IVSEL \<equiv> 1"
abbreviation (input) GET_LOW_FUSE_BITS :: u16 where "GET_LOW_FUSE_BITS \<equiv> 0"
abbreviation (input) GET_LOCK_BITS :: u16 where "GET_LOCK_BITS \<equiv> 1"
abbreviation (input) GET_EXTENDED_FUSE_BITS :: u16 where "GET_EXTENDED_FUSE_BITS \<equiv> 2"
abbreviation (input) GET_HIGH_FUSE_BITS :: u16 where "GET_HIGH_FUSE_BITS \<equiv> 3"

text \<open>The AT90USB1287 of the CDC and the DFU bootloader.\<close>

abbreviation (input) SPM_PAGESIZE :: nat where "SPM_PAGESIZE \<equiv> 256"
abbreviation (input) BOOT_START_ADDR :: u32 where "BOOT_START_ADDR \<equiv> 0x1E000"
abbreviation (input) AVR_SIGNATURE_1 :: u8 where "AVR_SIGNATURE_1 \<equiv> 0x1E"
abbreviation (input) AVR_SIGNATURE_2 :: u8 where "AVR_SIGNATURE_2 \<equiv> 0x97"
abbreviation (input) AVR_SIGNATURE_3 :: u8 where "AVR_SIGNATURE_3 \<equiv> 0x82"

text \<open>The same start and end of the hardware in the three bootloaders.\<close>

definition boot_SetupHardware :: "'h core \<Rightarrow> 'h \<Rightarrow> 'h option" where
  "boot_SetupHardware c s =
     (let s = clock_prescale_set c (wdt_disable c (clear_WDRF c s));
          s = wr_MCUCR c (BV IVSEL) (wr_MCUCR c (BV IVCE) s)
      in lib_USB_Init c s)"

text \<open>\<open>USB_Init\<close> and \<open>USB_ShutDown\<close> are those of the library in the configuration of the bootloader.\<close>

definition cdc_boot_ResetHardware :: "'h boot \<Rightarrow> 'h core \<Rightarrow> 'h \<Rightarrow> 'h option" where
  "cdc_boot_ResetHardware b c s =
     do {
       s \<leftarrow> lib_USB_ShutDown c s;
       Some (boot_rww_enable b (wr_MCUCR c 0 (wr_MCUCR c (BV IVCE) s)))
     }"

definition dfu_boot_ResetHardware :: "'h core \<Rightarrow> 'h \<Rightarrow> 'h option" where
  "dfu_boot_ResetHardware c s =
     do {
       s \<leftarrow> lib_USB_ShutDown c s;
       Some (wr_MCUCR c 0 (wr_MCUCR c (BV IVCE) s))
     }"

section \<open>The hardware\<close>

record spm =
  flash_mem :: "nat \<Rightarrow> u8"
  page_buf :: "nat \<Rightarrow> u16 option"
  rww_busy :: bool
  eeprom :: "u16 \<Rightarrow> u8"
  lock_bits :: u8
  fuse_bits :: "u16 \<Rightarrow> u8"

text \<open>Program memory has 128 KiB; higher address bits are ignored.\<close>

definition flash_addr :: "u32 \<Rightarrow> nat" where
  "flash_addr a = unat a mod 0x20000"

definition same_page :: "nat \<Rightarrow> nat \<Rightarrow> bool" where
  "same_page x y \<longleftrightarrow> x div SPM_PAGESIZE = y div SPM_PAGESIZE"

definition spm_fill :: "u32 \<Rightarrow> u16 \<Rightarrow> spm \<Rightarrow> spm" where
  "spm_fill a w m =
     (let i = flash_addr a mod SPM_PAGESIZE div 2
      in if page_buf m i = None then m\<lparr>page_buf := (page_buf m)(i := Some w)\<rparr> else m)"

definition spm_erase :: "u32 \<Rightarrow> spm \<Rightarrow> spm" where
  "spm_erase a m = m\<lparr>flash_mem := (\<lambda>x. if same_page x (flash_addr a) then 0xFF else flash_mem m x), rww_busy := True\<rparr>"

text \<open>The byte of the page buffer for an address; words that were not filled are erased.\<close>

definition buf_byte :: "(nat \<Rightarrow> u16 option) \<Rightarrow> nat \<Rightarrow> u8" where
  "buf_byte p x = (case p (x mod SPM_PAGESIZE div 2) of None \<Rightarrow> 0xFF | Some w \<Rightarrow> if even x then ucast w else ucast (drop_bit 8 w))"

definition spm_write :: "u32 \<Rightarrow> spm \<Rightarrow> spm" where
  "spm_write a m =
     m\<lparr>flash_mem := (\<lambda>x. if same_page x (flash_addr a) then flash_mem m x AND buf_byte (page_buf m) x else flash_mem m x),
       page_buf := (\<lambda>i. None), rww_busy := True\<rparr>"

definition spm_read :: "u32 \<Rightarrow> spm \<Rightarrow> u8" where
  "spm_read a m = (if rww_busy m then 0xFF else flash_mem m (flash_addr a))"

text \<open>The record of the code on a state that contains such a machine.\<close>

definition spm_boot :: "('h \<Rightarrow> spm) \<Rightarrow> (spm \<Rightarrow> 'h \<Rightarrow> 'h) \<Rightarrow> 'h boot" where
  "spm_boot g p =
     \<lparr>boot_page_fill = (\<lambda>a w s. p (spm_fill a w (g s)) s), boot_page_erase = (\<lambda>a s. p (spm_erase a (g s)) s),
      boot_page_write = (\<lambda>a s. p (spm_write a (g s)) s), boot_spm_busy_wait = (\<lambda>s. s),
      boot_rww_enable = (\<lambda>s. p ((g s)\<lparr>rww_busy := False\<rparr>) s), boot_lock_bits_set = (\<lambda>v s. p ((g s)\<lparr>lock_bits := v\<rparr>) s),
      boot_lock_fuse_bits_get = (\<lambda>i s. (if i = GET_LOCK_BITS then lock_bits (g s) else fuse_bits (g s) i, s)),
      pgm_read_byte_far = (\<lambda>a s. (spm_read a (g s), s)),
      pgm_read_word_far = (\<lambda>a s. (ucast (spm_read a (g s)) OR push_bit 8 (ucast (spm_read (a + 1) (g s))), s)),
      eeprom_read_byte = (\<lambda>a s. (eeprom (g s) a, s)),
      eeprom_write_byte = (\<lambda>a v s. p ((g s)\<lparr>eeprom := (eeprom (g s))(a := v)\<rparr>) s)\<rparr>"

end
