(* ===== verification/Boot_Cdc.thy ===== *)
theory Boot_Cdc
  imports Boot_Flash
begin

text \<open>
  \<open>Bootloaders/CDC/BootloaderCDC.c\<close>: an AVR910 programmer on a virtual serial port, for the configuration of its
  makefile (AT90USB1287, an \<open>int\<close> of 16 bits).  A loop that waits for the host ends when the device is detached.
\<close>

section \<open>State\<close>

record Boot_Line_Coding =
  BaudRateBPS :: u32
  CharFormat :: u8
  ParityType :: u8
  DataBits :: u8

record cdc_boot =
  LineCoding :: Boot_Line_Coding
  CurrAddress :: u32
  RunBootloader :: bool

definition cdc_boot_start :: cdc_boot where
  "cdc_boot_start = \<lparr>LineCoding = \<lparr>BaudRateBPS = 9600, CharFormat = 0, ParityType = 0, DataBits = 8\<rparr>, CurrAddress = 0, RunBootloader = True\<rparr>"

definition line_bytes :: "Boot_Line_Coding \<Rightarrow> u8 list" where
  "line_bytes l = bytes32 (BaudRateBPS l) @ [CharFormat l, ParityType l, DataBits l]"

definition line_of :: "u8 list \<Rightarrow> Boot_Line_Coding" where
  "line_of bs = \<lparr>BaudRateBPS = peek32 bs 0, CharFormat = bs ! 4, ParityType = bs ! 5, DataBits = bs ! 6\<rparr>"

abbreviation (input) CDC_TX_EPNUM :: u8 where "CDC_TX_EPNUM \<equiv> 1"
abbreviation (input) CDC_RX_EPNUM :: u8 where "CDC_RX_EPNUM \<equiv> 2"
abbreviation (input) CDC_NOTIFICATION_EPNUM :: u8 where "CDC_NOTIFICATION_EPNUM \<equiv> 3"

section \<open>Events\<close>

definition cdc_boot_ConfigurationChanged :: "'h mmio \<Rightarrow> 'h \<Rightarrow> 'h option" where
  "cdc_boot_ConfigurationChanged io s =
     do {
       (ok, s) \<leftarrow> Endpoint_ConfigureEndpoint io CDC_NOTIFICATION_EPNUM EP_TYPE_INTERRUPT ENDPOINT_DIR_IN 8 ENDPOINT_BANK_SINGLE s;
       (ok, s) \<leftarrow> Endpoint_ConfigureEndpoint io CDC_TX_EPNUM EP_TYPE_BULK ENDPOINT_DIR_IN 16 ENDPOINT_BANK_SINGLE s;
       (ok, s) \<leftarrow> Endpoint_ConfigureEndpoint io CDC_RX_EPNUM EP_TYPE_BULK ENDPOINT_DIR_OUT 16 ENDPOINT_BANK_SINGLE s;
       Some s
     }"

fun read_bytes :: "'h mmio \<Rightarrow> nat \<Rightarrow> 'h \<Rightarrow> u8 list \<times> 'h" where
  "read_bytes io 0 s = ([], s)" |
  "read_bytes io (Suc n) s =
     (let (b, s) = Endpoint_Read_Byte io s; (bs, s) = read_bytes io n s in (b # bs, s))"

definition cdc_boot_UnhandledControlRequest ::
    "'h mmio \<Rightarrow> USB_Request_Header_t \<Rightarrow> cdc_boot \<Rightarrow> 'h \<Rightarrow> (cdc_boot \<times> 'h) option" where
  "cdc_boot_UnhandledControlRequest io req d s =
     (if bRequest req = 0x21 then
        (if bmRequestType req = 0xA1 then
           do {
             let s = fold (Endpoint_Write_Byte io) (line_bytes (LineCoding d)) (Endpoint_ClearSETUP io s);
             s \<leftarrow> Endpoint_ClearStatusStage io req (Endpoint_ClearIN io s);
             Some (d, s)
           }
         else Some (d, s))
      else if bRequest req = 0x20 then
        (if bmRequestType req = 0x21 then
           do {
             (ok, s) \<leftarrow> flag_wait io RXOUTI (Endpoint_ClearSETUP io s);
             if \<not> ok then Some (d, s)
             else do {
               let (bs, s) = read_bytes io 7 s;
               s \<leftarrow> Endpoint_ClearStatusStage io req (Endpoint_ClearOUT io s);
               Some (d\<lparr>LineCoding := line_of bs\<rparr>, s)
             }
           }
         else Some (d, s))
      else if bRequest req = 0x22 then
        (if bmRequestType req = 0x21 then
           do { s \<leftarrow> Endpoint_ClearStatusStage io req (Endpoint_ClearSETUP io s); Some (d, s) }
         else Some (d, s))
      else Some (d, s))"

section \<open>Bytes from and to the host\<close>

partial_function (option) fetch_loop :: "'h mmio \<Rightarrow> 'h \<Rightarrow> (u8 \<times> 'h) option" where
  [code]: "fetch_loop io s =
     (let (a, s) = Endpoint_IsReadWriteAllowed io s
      in if a then Some (Endpoint_Read_Byte io s)
      else do {
        (ok, s) \<leftarrow> flag_wait io RXOUTI (Endpoint_ClearOUT io s);
        if ok then fetch_loop io s else Some (0, s)
      })"

definition FetchNextCommandByte :: "'h mmio \<Rightarrow> 'h \<Rightarrow> (u8 \<times> 'h) option" where
  "FetchNextCommandByte io s = fetch_loop io (Endpoint_SelectEndpoint io CDC_RX_EPNUM s)"

definition WriteNextResponseByte :: "'h mmio \<Rightarrow> u8 \<Rightarrow> 'h \<Rightarrow> 'h option" where
  "WriteNextResponseByte io Response s =
     do {
       let s = Endpoint_SelectEndpoint io CDC_TX_EPNUM s;
       let (a, s) = Endpoint_IsReadWriteAllowed io s;
       if a then Some (Endpoint_Write_Byte io Response s)
       else do {
         (ok, s) \<leftarrow> flag_wait io TXINI (Endpoint_ClearIN io s);
         Some (if ok then Endpoint_Write_Byte io Response s else s)
       }
     }"

fun write_responses :: "'h mmio \<Rightarrow> u8 list \<Rightarrow> 'h \<Rightarrow> 'h option" where
  "write_responses io [] s = Some s" |
  "write_responses io (b # bs) s = do { s \<leftarrow> WriteNextResponseByte io b s; write_responses io bs s }"

section \<open>Blocks of memory\<close>

text \<open>\<open>while (BlockSize--)\<close> over the bytes of the flash or of the EEPROM, \<open>h\<close> being \<open>HighByte\<close>.\<close>

fun read_block :: "'h mmio \<Rightarrow> 'h boot \<Rightarrow> bool \<Rightarrow> nat \<Rightarrow> bool \<Rightarrow> cdc_boot \<Rightarrow> 'h \<Rightarrow> (cdc_boot \<times> 'h) option" where
  "read_block io b isF 0 h d s = Some (d, s)" |
  "read_block io b isF (Suc n) h d s =
     (if isF then
        do {
          let (v, s) = pgm_read_byte_far b (CurrAddress d OR (if h then 1 else 0)) s;
          s \<leftarrow> WriteNextResponseByte io v s;
          read_block io b isF n (\<not> h) (if h then d\<lparr>CurrAddress := CurrAddress d + 2\<rparr> else d) s
        }
      else
        do {
          let (v, s) = eeprom_read_byte b (ucast (drop_bit 1 (CurrAddress d))) s;
          s \<leftarrow> WriteNextResponseByte io v s;
          read_block io b isF n h (d\<lparr>CurrAddress := CurrAddress d + 2\<rparr>) s
        })"

fun write_block :: "'h mmio \<Rightarrow> 'h boot \<Rightarrow> bool \<Rightarrow> nat \<Rightarrow> bool \<Rightarrow> u8 \<Rightarrow> cdc_boot \<Rightarrow> 'h \<Rightarrow> (cdc_boot \<times> 'h) option" where
  "write_block io b isF 0 h LowByte d s = Some (d, s)" |
  "write_block io b isF (Suc n) h LowByte d s =
     (if isF then
        do {
          (v, s) \<leftarrow> FetchNextCommandByte io s;
          if h then
            write_block io b isF n False LowByte (d\<lparr>CurrAddress := CurrAddress d + 2\<rparr>)
              (boot_page_fill b (CurrAddress d) (push_bit 8 (ucast v) OR ucast LowByte) s)
          else write_block io b isF n True v d s
        }
      else
        do {
          (v, s) \<leftarrow> FetchNextCommandByte io s;
          write_block io b isF n h LowByte (d\<lparr>CurrAddress := CurrAddress d + 2\<rparr>)
            (eeprom_write_byte b (ucast (drop_bit 1 (CurrAddress d))) v s)
        })"

definition ch :: "char \<Rightarrow> u8" where
  "ch c = of_char c"

definition ReadWriteMemoryBlock :: "'h mmio \<Rightarrow> 'h boot \<Rightarrow> u8 \<Rightarrow> cdc_boot \<Rightarrow> 'h \<Rightarrow> (cdc_boot \<times> 'h) option" where
  "ReadWriteMemoryBlock io b Command d s =
     do {
       (hi, s) \<leftarrow> FetchNextCommandByte io s;
       (lo, s) \<leftarrow> FetchNextCommandByte io s;
       let BlockSize = (push_bit 8 (ucast hi) OR ucast lo :: u16);
       (MemoryType, s) \<leftarrow> FetchNextCommandByte io s;
       if MemoryType \<noteq> ch (CHR ''E'') \<and> MemoryType \<noteq> ch (CHR ''F'') then
         do { s \<leftarrow> WriteNextResponseByte io (ch (CHR ''?'')) s; Some (d, s) }
       else if Command = ch (CHR ''g'') then
         read_block io b (MemoryType = ch (CHR ''F'')) (unat BlockSize) False d (boot_rww_enable b s)
       else
         do {
           let isF = (MemoryType = ch (CHR ''F''));
           let PageStartAddress = CurrAddress d;
           let s = (if isF then boot_spm_busy_wait b (boot_page_erase b PageStartAddress s) else s);
           (d, s) \<leftarrow> write_block io b isF (unat BlockSize) False 0 d s;
           let s = (if isF then boot_spm_busy_wait b (boot_page_write b PageStartAddress s) else s);
           s \<leftarrow> WriteNextResponseByte io 0x0D s;
           Some (d, s)
         }
     }"

text \<open>
  The loop of the chip erase: the address grows by the page size in the body and by one in the header of the
  loop.
\<close>

function erase_loop :: "'h boot \<Rightarrow> u32 \<Rightarrow> 'h \<Rightarrow> 'h" where
  "erase_loop b CurrFlashAddress s =
     (if CurrFlashAddress < BOOT_START_ADDR then
        erase_loop b (CurrFlashAddress + of_nat SPM_PAGESIZE + 1)
          (boot_spm_busy_wait b (boot_page_write b CurrFlashAddress
             (boot_spm_busy_wait b (boot_page_erase b CurrFlashAddress s))))
      else s)"
  by auto
termination
proof (relation "measure (\<lambda>(b, a, s). 0x20000 - unat a)")
  fix a :: u32 assume "a < BOOT_START_ADDR"
  then have "unat a < 0x1E000" by (simp add: word_less_nat_alt)
  then have "unat (a + 257) = unat a + 257" by (simp add: unat_word_ariths)
  then show "((b, a + of_nat SPM_PAGESIZE + 1, t), b, a, s) \<in> measure (\<lambda>(b, a, s). 0x20000 - unat a)" for b :: "'h boot" and t s
    using \<open>unat a < 0x1E000\<close> by (simp add: add.assoc)
qed simp

declare erase_loop.simps [simp del]

section \<open>Commands\<close>

text \<open>\<open>(FetchNextCommandByte() << 9)\<close> is an \<open>int\<close>; its sign is extended when it is stored.\<close>

definition high_address :: "u8 \<Rightarrow> u32" where
  "high_address v = scast (push_bit 9 (ucast v) :: u16)"

definition low_address :: "u8 \<Rightarrow> u32" where
  "low_address v = scast (push_bit 1 (ucast v) :: u16)"

definition with_byte :: "'h mmio \<Rightarrow> (u8 \<Rightarrow> 'h \<Rightarrow> ('x \<times> 'h) option) \<Rightarrow> 'h \<Rightarrow> ('x \<times> 'h) option" where
  "with_byte io f s = do { (v, s) \<leftarrow> FetchNextCommandByte io s; f v s }"

definition confirm :: "'h mmio \<Rightarrow> cdc_boot \<Rightarrow> 'h \<Rightarrow> (cdc_boot \<times> 'h) option" where
  "confirm io d s = do { s \<leftarrow> WriteNextResponseByte io 0x0D s; Some (d, s) }"

definition respond :: "'h mmio \<Rightarrow> u8 list \<Rightarrow> cdc_boot \<Rightarrow> 'h \<Rightarrow> (cdc_boot \<times> 'h) option" where
  "respond io bs d s = do { s \<leftarrow> write_responses io bs s; Some (d, s) }"

definition cdc_boot_command :: "'h mmio \<Rightarrow> 'h boot \<Rightarrow> u8 \<Rightarrow> cdc_boot \<Rightarrow> 'h \<Rightarrow> (cdc_boot \<times> 'h) option" where
  "cdc_boot_command io b Command d s =
     (if Command = ch (CHR ''L'') \<or> Command = ch (CHR ''P'') \<or> Command = ch (CHR ''T'') \<or> Command = ch (CHR ''E'') then
        do {
          let d = (if Command = ch (CHR ''E'') then d\<lparr>RunBootloader := False\<rparr> else d);
          s \<leftarrow> (if Command = ch (CHR ''T'') then map_option snd (FetchNextCommandByte io s) else Some s);
          confirm io d s
        }
      else if Command = ch (CHR ''t'') then respond io [0x44, 0x00] d s
      else if Command = ch (CHR ''a'') then respond io [ch (CHR ''Y'')] d s
      else if Command = ch (CHR ''A'') then
        do {
          (hi, s) \<leftarrow> FetchNextCommandByte io s;
          (lo, s) \<leftarrow> FetchNextCommandByte io s;
          confirm io (d\<lparr>CurrAddress := high_address hi OR low_address lo\<rparr>) s
        }
      else if Command = ch (CHR ''p'') then respond io [ch (CHR ''S'')] d s
      else if Command = ch (CHR ''S'') then respond io (map ch ''LUFACDC'') d s
      else if Command = ch (CHR ''V'') then respond io [ch (CHR ''0'') + 1, ch (CHR ''0'')] d s
      else if Command = ch (CHR ''s'') then respond io [AVR_SIGNATURE_3, AVR_SIGNATURE_2, AVR_SIGNATURE_1] d s
      else if Command = ch (CHR ''b'') then
        respond io [ch (CHR ''Y''), of_nat (SPM_PAGESIZE div 256), of_nat (SPM_PAGESIZE mod 256)] d s
      else if Command = ch (CHR ''e'') then confirm io d (erase_loop b 0 s)
      else if Command = ch (CHR ''l'') then with_byte io (\<lambda>v s. confirm io d (boot_lock_bits_set b v s)) s
      else if Command = ch (CHR ''r'') then (let (v, s) = boot_lock_fuse_bits_get b GET_LOCK_BITS s in respond io [v] d s)
      else if Command = ch (CHR ''F'') then (let (v, s) = boot_lock_fuse_bits_get b GET_LOW_FUSE_BITS s in respond io [v] d s)
      else if Command = ch (CHR ''N'') then (let (v, s) = boot_lock_fuse_bits_get b GET_HIGH_FUSE_BITS s in respond io [v] d s)
      else if Command = ch (CHR ''Q'') then (let (v, s) = boot_lock_fuse_bits_get b GET_EXTENDED_FUSE_BITS s in respond io [v] d s)
      else if Command = ch (CHR ''C'') then
        with_byte io (\<lambda>v s. confirm io d (boot_page_fill b (CurrAddress d) (ucast v) s)) s
      else if Command = ch (CHR ''c'') then
        with_byte io (\<lambda>v s. confirm io (d\<lparr>CurrAddress := CurrAddress d + 2\<rparr>) (boot_page_fill b (CurrAddress d OR 1) (ucast v) s)) s
      else if Command = ch (CHR ''m'') then confirm io d (boot_spm_busy_wait b (boot_page_write b (CurrAddress d) s))
      else if Command = ch (CHR ''B'') \<or> Command = ch (CHR ''g'') then ReadWriteMemoryBlock io b Command d s
      else if Command = ch (CHR ''R'') then
        (let (w, s) = pgm_read_word_far b (CurrAddress d) s in respond io [ucast (drop_bit 8 w), ucast w] d s)
      else if Command = ch (CHR ''D'') then
        with_byte io (\<lambda>v s. confirm io (d\<lparr>CurrAddress := CurrAddress d + 2\<rparr>)
          (eeprom_write_byte b (ucast (drop_bit 1 (CurrAddress d))) v s)) s
      else if Command = ch (CHR ''d'') then
        (let (v, s) = eeprom_read_byte b (ucast (drop_bit 1 (CurrAddress d))) s
         in respond io [v] (d\<lparr>CurrAddress := CurrAddress d + 2\<rparr>) s)
      else if Command = 27 then Some (d, s)
      else respond io [ch (CHR ''?'')] d s)"

text \<open>The end of a command: the response is sent, and the bank of the command given back.\<close>

definition finish_command :: "'h mmio \<Rightarrow> 'h \<Rightarrow> 'h option" where
  "finish_command io s =
     do {
       let s = Endpoint_SelectEndpoint io CDC_TX_EPNUM s;
       let (a, s) = Endpoint_IsReadWriteAllowed io s;
       let s = Endpoint_ClearIN io s;
       (ok, s) \<leftarrow> (if \<not> a then
           do {
             (ok, s) \<leftarrow> flag_wait io TXINI s;
             Some (ok, if ok then Endpoint_ClearIN io s else s)
           }
         else Some (True, s));
       if \<not> ok then Some s
       else do {
         (ok, s) \<leftarrow> flag_wait io TXINI s;
         Some (if ok then Endpoint_ClearOUT io (Endpoint_SelectEndpoint io CDC_RX_EPNUM s) else s)
       }
     }"

definition CDC_Task :: "'h mmio \<Rightarrow> 'h boot \<Rightarrow> cdc_boot \<Rightarrow> 'h \<Rightarrow> (cdc_boot \<times> 'h) option" where
  "CDC_Task io b d s =
     (let (r, s) = Endpoint_IsOUTReceived io (Endpoint_SelectEndpoint io CDC_RX_EPNUM s)
      in if \<not> r then Some (d, s)
      else do {
        (Command, s) \<leftarrow> FetchNextCommandByte io s;
        (d, s) \<leftarrow> cdc_boot_command io b Command d s;
        s \<leftarrow> finish_command io s;
        Some (d, s)
      })"

text \<open>A round of the main loop while the bootloader runs; \<open>USB_USBTask\<close> is the library's.\<close>

definition cdc_boot_round ::
    "'h mmio \<Rightarrow> 'h boot \<Rightarrow> (cdc_boot \<Rightarrow> 'h \<Rightarrow> (cdc_boot \<times> 'h) option) \<Rightarrow> cdc_boot \<Rightarrow> 'h \<Rightarrow> (cdc_boot \<times> 'h) option" where
  "cdc_boot_round io b usb_task d s =
     (if RunBootloader d then do { (d, s) \<leftarrow> CDC_Task io b d s; usb_task d s } else Some (d, s))"

end
