(* ===== verification/Boot_Dfu.thy ===== *)
theory Boot_Dfu
  imports Boot_Flash
begin

text \<open>
  \<open>Bootloaders/DFU/BootloaderDFU.c\<close>: the state machine of the DFU class with the commands of Atmel's FLIP, for the
  configuration of its makefile (AT90USB1287, control endpoint of 32 bytes), and \<open>Bootloaders/TeensyHID/TeensyHID.c\<close>,
  which programs pages from HID reports (ATmega32U4, pages of 128 bytes).
\<close>

section \<open>State\<close>

record DFU_Command_t =
  Command :: u8
  Data :: "u8 list"
  DataSize :: u16

record dfu =
  IsSecure :: bool
  RunBootloader :: bool
  WaitForExit :: bool
  DFU_State :: u8
  DFU_Status :: u8
  SentCommand :: DFU_Command_t
  ResponseByte :: u8
  AppStartPtr :: u16
  Flash64KBPage :: u8
  StartAddr :: u16
  EndAddr :: u16

abbreviation (input) dfuIDLE :: u8 where "dfuIDLE \<equiv> 2"
abbreviation (input) dfuDNLOAD_IDLE :: u8 where "dfuDNLOAD_IDLE \<equiv> 5"
abbreviation (input) dfuUPLOAD_IDLE :: u8 where "dfuUPLOAD_IDLE \<equiv> 9"
abbreviation (input) dfuERROR :: u8 where "dfuERROR \<equiv> 10"
abbreviation (input) DFU_OK :: u8 where "DFU_OK \<equiv> 0"
abbreviation (input) errWRITE :: u8 where "errWRITE \<equiv> 3"
abbreviation (input) errCHECK_ERASED :: u8 where "errCHECK_ERASED \<equiv> 5"
abbreviation (input) COMMAND_PROG_START :: u8 where "COMMAND_PROG_START \<equiv> 1"
abbreviation (input) COMMAND_DISP_DATA :: u8 where "COMMAND_DISP_DATA \<equiv> 3"
abbreviation (input) COMMAND_WRITE :: u8 where "COMMAND_WRITE \<equiv> 4"
abbreviation (input) COMMAND_READ :: u8 where "COMMAND_READ \<equiv> 5"
abbreviation (input) COMMAND_CHANGE_BASE_ADDR :: u8 where "COMMAND_CHANGE_BASE_ADDR \<equiv> 6"
abbreviation (input) DFU_FILE_SUFFIX_SIZE :: nat where "DFU_FILE_SUFFIX_SIZE \<equiv> 16"
abbreviation (input) DFU_FILLER_BYTES_SIZE :: nat where "DFU_FILLER_BYTES_SIZE \<equiv> 26"
abbreviation (input) FIXED_CONTROL_ENDPOINT_SIZE :: nat where "FIXED_CONTROL_ENDPOINT_SIZE \<equiv> 32"

text \<open>\<open>SECURE_MODE\<close> is a build option.\<close>

definition dfu_start :: "bool \<Rightarrow> dfu" where
  "dfu_start SECURE_MODE =
     \<lparr>IsSecure = SECURE_MODE, RunBootloader = True, WaitForExit = False, DFU_State = dfuIDLE, DFU_Status = DFU_OK,
      SentCommand = \<lparr>Command = 0, Data = replicate 5 0, DataSize = 0\<rparr>, ResponseByte = 0, AppStartPtr = 0, Flash64KBPage = 0,
      StartAddr = 0, EndAddr = 0\<rparr>"

definition IS_ONEBYTE_COMMAND :: "dfu \<Rightarrow> u8 \<Rightarrow> bool" where
  "IS_ONEBYTE_COMMAND d cb1 \<longleftrightarrow> Data (SentCommand d) ! 0 = cb1"

definition IS_TWOBYTE_COMMAND :: "dfu \<Rightarrow> u8 \<Rightarrow> u8 \<Rightarrow> bool" where
  "IS_TWOBYTE_COMMAND d cb1 cb2 \<longleftrightarrow> Data (SentCommand d) ! 0 = cb1 \<and> Data (SentCommand d) ! 1 = cb2"

text \<open>The union of two words, the second one extended from a byte.\<close>

definition flash_address :: "dfu \<Rightarrow> u32" where
  "flash_address d = ucast (StartAddr d) OR push_bit 16 (ucast (Flash64KBPage d))"

section \<open>Commands\<close>

definition LoadStartEndAddresses :: "dfu \<Rightarrow> dfu" where
  "LoadStartEndAddresses d =
     (let a = Data (SentCommand d)
      in d\<lparr>StartAddr := word16 (a ! 2) (a ! 1), EndAddr := word16 (a ! 4) (a ! 3)\<rparr>)"

definition ProcessMemProgCommand :: "'h boot \<Rightarrow> dfu \<Rightarrow> 'h \<Rightarrow> dfu \<times> 'h" where
  "ProcessMemProgCommand b d s =
     (if IS_ONEBYTE_COMMAND d 0x00 \<or> IS_ONEBYTE_COMMAND d 0x01 then
        (let d = LoadStartEndAddresses d;
             s = (if IS_ONEBYTE_COMMAND d 0x00 then boot_spm_busy_wait b (boot_page_erase b (flash_address d) s) else s)
         in (d\<lparr>DFU_State := dfuDNLOAD_IDLE\<rparr>, s))
      else (d, s))"

text \<open>The address of the first byte of the application section that is not erased.\<close>

function blank_check :: "'h boot \<Rightarrow> u32 \<Rightarrow> 'h \<Rightarrow> u32 option \<times> 'h" where
  "blank_check b CurrFlashAddress s =
     (if CurrFlashAddress < BOOT_START_ADDR then
        (let (v, s) = pgm_read_byte_far b CurrFlashAddress s
         in if v \<noteq> 0xFF then (Some CurrFlashAddress, s) else blank_check b (CurrFlashAddress + 1) s)
      else (None, s))"
  by auto
termination
proof (relation "measure (\<lambda>(b, a, s). 0x20000 - unat a)")
  fix b :: "'h boot" and a :: u32 and s t u :: 'h and x and v :: u8
  assume "a < BOOT_START_ADDR"
  then have "unat a < 0x1E000" by (simp add: word_less_nat_alt)
  then have "unat (a + 1) = unat a + 1" by (simp add: unat_word_ariths)
  then show "((b, a + 1, u), b, a, s) \<in> measure (\<lambda>(b, a, s). 0x20000 - unat a)"
    using \<open>unat a < 0x1E000\<close> by simp
qed simp

declare blank_check.simps [simp del]

definition ProcessMemReadCommand :: "'h boot \<Rightarrow> dfu \<Rightarrow> 'h \<Rightarrow> dfu \<times> 'h" where
  "ProcessMemReadCommand b d s =
     (if IS_ONEBYTE_COMMAND d 0x00 \<or> IS_ONEBYTE_COMMAND d 0x02 then
        ((LoadStartEndAddresses d)\<lparr>DFU_State := dfuUPLOAD_IDLE\<rparr>, s)
      else if IS_ONEBYTE_COMMAND d 0x01 then
        (let (r, s) = blank_check b 0 s
         in (case r of
               Some a \<Rightarrow> d\<lparr>Flash64KBPage := ucast (drop_bit 16 a), StartAddr := ucast a, DFU_State := dfuERROR,
                           DFU_Status := errCHECK_ERASED\<rparr>
             | None \<Rightarrow> d, s))
      else (d, s))"

function erase_pages :: "'h boot \<Rightarrow> u32 \<Rightarrow> 'h \<Rightarrow> 'h" where
  "erase_pages b CurrFlashAddress s =
     (if CurrFlashAddress < BOOT_START_ADDR then
        erase_pages b (CurrFlashAddress + of_nat SPM_PAGESIZE)
          (boot_spm_busy_wait b (boot_page_write b CurrFlashAddress
             (boot_spm_busy_wait b (boot_page_erase b CurrFlashAddress s))))
      else s)"
  by auto
termination
proof (relation "measure (\<lambda>(b, a, s). 0x20000 - unat a)")
  fix a :: u32 assume "a < BOOT_START_ADDR"
  then have "unat a < 0x1E000" by (simp add: word_less_nat_alt)
  then have "unat (a + 256) = unat a + 256" by (simp add: unat_word_ariths)
  then show "((b, a + of_nat SPM_PAGESIZE, t), b, a, s) \<in> measure (\<lambda>(b, a, s). 0x20000 - unat a)" for b :: "'h boot" and t s
    using \<open>unat a < 0x1E000\<close> by simp
qed simp

declare erase_pages.simps [simp del]

definition ProcessWriteCommand :: "'h boot \<Rightarrow> 'h core \<Rightarrow> dfu \<Rightarrow> 'h \<Rightarrow> dfu \<times> 'h" where
  "ProcessWriteCommand b c d s =
     (if IS_ONEBYTE_COMMAND d 0x03 then
        (let d = d\<lparr>WaitForExit := True\<rparr>; a = Data (SentCommand d)
         in if DataSize (SentCommand d) = 0 then
              (if a ! 1 = 0 then (d, wdt_enable c s)
               else (d\<lparr>AppStartPtr := word16 (a ! 4) (a ! 3), RunBootloader := False\<rparr>, s))
            else (d, s))
      else if IS_TWOBYTE_COMMAND d 0x00 0xFF then
        (d\<lparr>IsSecure := False\<rparr>, boot_rww_enable b (erase_pages b 0 s))
      else (d, s))"

text \<open>A read outside of one of the two arrays is \<open>None\<close>.\<close>

definition ProcessReadCommand :: "dfu \<Rightarrow> dfu option" where
  "ProcessReadCommand d =
     (let i = Data (SentCommand d) ! 1
      in if IS_ONEBYTE_COMMAND d 0x00 then
           (if unat i < 3 then Some (d\<lparr>ResponseByte := [0x20, 0xDC, 0xFB] ! unat i\<rparr>) else None)
         else if IS_ONEBYTE_COMMAND d 0x01 then
           (if 0x30 \<le> i \<and> i < 0x33 then
              Some (d\<lparr>ResponseByte := [AVR_SIGNATURE_1, AVR_SIGNATURE_2, AVR_SIGNATURE_3] ! unat (i - 0x30)\<rparr>)
            else None)
         else Some d)"

definition ProcessBootloaderCommand :: "'h mmio \<Rightarrow> 'h boot \<Rightarrow> 'h core \<Rightarrow> dfu \<Rightarrow> 'h \<Rightarrow> (dfu \<times> 'h) option" where
  "ProcessBootloaderCommand io b c d s =
     (let cmd = Command (SentCommand d)
      in if IsSecure d \<and> \<not> (cmd = COMMAND_WRITE \<and> IS_TWOBYTE_COMMAND d 0x00 0xFF \<or> cmd = COMMAND_READ) then
           Some (d\<lparr>DFU_State := dfuERROR, DFU_Status := errWRITE\<rparr>, Endpoint_StallTransaction io s)
         else if cmd = COMMAND_PROG_START then Some (ProcessMemProgCommand b d s)
         else if cmd = COMMAND_DISP_DATA then Some (ProcessMemReadCommand b d s)
         else if cmd = COMMAND_WRITE then Some (ProcessWriteCommand b c d s)
         else if cmd = COMMAND_READ then map_option (\<lambda>d. (d, s)) (ProcessReadCommand d)
         else if cmd = COMMAND_CHANGE_BASE_ADDR then
           Some (if IS_TWOBYTE_COMMAND d 0x03 0x00 then d\<lparr>Flash64KBPage := Data (SentCommand d) ! 2\<rparr> else d, s)
         else Some (d, s))"

section \<open>Data from and to the host\<close>

text \<open>An empty bank is exchanged for the host's next packet; \<open>False\<close> if the device was detached.\<close>

definition next_out_packet :: "'h mmio \<Rightarrow> 'h \<Rightarrow> (bool \<times> 'h) option" where
  "next_out_packet io s =
     (let (n, s) = Endpoint_BytesInEndpoint io s
      in if n = 0 then flag_wait io RXOUTI (Endpoint_ClearOUT io s) else Some (True, s))"

definition next_in_packet :: "'h mmio \<Rightarrow> 'h \<Rightarrow> (bool \<times> 'h) option" where
  "next_in_packet io s =
     (let (n, s) = Endpoint_BytesInEndpoint io s
      in if n = of_nat FIXED_CONTROL_ENDPOINT_SIZE then flag_wait io TXINI (Endpoint_ClearIN io s) else Some (True, s))"

fun DiscardFillerBytes :: "'h mmio \<Rightarrow> nat \<Rightarrow> 'h \<Rightarrow> 'h option" where
  "DiscardFillerBytes io 0 s = Some s" |
  "DiscardFillerBytes io (Suc n) s =
     (let (k, s) = Endpoint_BytesInEndpoint io s
      in if k = 0 then
           do {
             (ok, s) \<leftarrow> flag_wait io RXOUTI (Endpoint_ClearOUT io s);
             if ok then DiscardFillerBytes io n s else Some s
           }
         else DiscardFillerBytes io n (Endpoint_Discard_Byte io s))"

text \<open>The parameters of a command, as many as there are in the bank; \<open>n\<close> is the room left in the array.\<close>

fun load_parameters :: "'h mmio \<Rightarrow> nat \<Rightarrow> DFU_Command_t \<Rightarrow> 'h \<Rightarrow> DFU_Command_t \<times> 'h" where
  "load_parameters io 0 c s = (c, s)" |
  "load_parameters io (Suc n) c s =
     (let (k, s) = Endpoint_BytesInEndpoint io s
      in if k = 0 then (c, s)
         else
           (let (v, s) = Endpoint_Read_Byte io s
            in load_parameters io n (c\<lparr>Data := (Data c)[4 - n := v], DataSize := DataSize c - 1\<rparr>) s))"

text \<open>\<open>while (WordsRemaining--)\<close> of the download, \<open>k\<close> being \<open>WordsInFlashPage\<close>.\<close>

fun download_words :: "'h mmio \<Rightarrow> 'h boot \<Rightarrow> nat \<Rightarrow> u32 \<Rightarrow> u8 \<Rightarrow> u32 \<Rightarrow> 'h \<Rightarrow> (bool \<times> 'h) option" where
  "download_words io b 0 page k addr s = Some (True, s)" |
  "download_words io b (Suc n) page k addr s =
     do {
       (ok, s) \<leftarrow> next_out_packet io s;
       if \<not> ok then Some (False, s)
       else do {
         let (w, s) = Endpoint_Read_Word_LE io s;
         let s = boot_page_fill b addr w s;
         let k = k + 1;
         let addr = addr + 2;
         if k = of_nat (SPM_PAGESIZE div 2) \<or> n = 0 then
           (let s = boot_spm_busy_wait b (boot_page_write b page s)
            in if n \<noteq> 0 then download_words io b n addr 0 addr (boot_spm_busy_wait b (boot_page_erase b addr s))
               else download_words io b n page k addr s)
         else download_words io b n page k addr s
       }
     }"

fun download_bytes :: "'h mmio \<Rightarrow> 'h boot \<Rightarrow> nat \<Rightarrow> dfu \<Rightarrow> 'h \<Rightarrow> (dfu \<times> bool \<times> 'h) option" where
  "download_bytes io b 0 d s = Some (d, True, s)" |
  "download_bytes io b (Suc n) d s =
     do {
       (ok, s) \<leftarrow> next_out_packet io s;
       if \<not> ok then Some (d, False, s)
       else do {
         let (v, s) = Endpoint_Read_Byte io s;
         download_bytes io b n (d\<lparr>StartAddr := StartAddr d + 1\<rparr>) (eeprom_write_byte b (StartAddr d) v s)
       }
     }"

text \<open>The firmware behind a command; the result tells whether the handler goes on.\<close>

definition dfu_firmware :: "'h mmio \<Rightarrow> 'h boot \<Rightarrow> dfu \<Rightarrow> 'h \<Rightarrow> (dfu \<times> bool \<times> 'h) option" where
  "dfu_firmware io b d s =
     (if DFU_State d \<noteq> dfuDNLOAD_IDLE then Some (d, True, s)
      else if DataSize (SentCommand d) = 0 then Some (d\<lparr>DFU_State := dfuIDLE\<rparr>, True, s)
      else do {
        s \<leftarrow> DiscardFillerBytes io DFU_FILLER_BYTES_SIZE s;
        s \<leftarrow> DiscardFillerBytes io (unat (StartAddr d) mod FIXED_CONTROL_ENDPOINT_SIZE) s;
        let BytesRemaining = EndAddr d - StartAddr d + 1;
        (d, ok, s) \<leftarrow>
          (if IS_ONEBYTE_COMMAND d 0x00 then
             do {
               (ok, s) \<leftarrow> download_words io b (unat (drop_bit 1 BytesRemaining)) (flash_address d) 0 (flash_address d) s;
               Some (if ok then (d\<lparr>StartAddr := EndAddr d\<rparr>, True, boot_rww_enable b s) else (d, False, s))
             }
           else download_bytes io b (unat BytesRemaining) d s);
        if \<not> ok then Some (d, False, s)
        else do {
          s \<leftarrow> DiscardFillerBytes io DFU_FILE_SUFFIX_SIZE s;
          Some (d, True, s)
        }
      })"

text \<open>The parts of the request before: the command the bootloader ends with, and the command in the data stage.\<close>

definition dfu_last_command :: "'h mmio \<Rightarrow> 'h boot \<Rightarrow> 'h core \<Rightarrow> dfu \<Rightarrow> 'h \<Rightarrow> (dfu \<times> 'h) option" where
  "dfu_last_command io b c d s =
     (if WaitForExit d then
        do { (d, s) \<leftarrow> ProcessBootloaderCommand io b c d s; Some (d\<lparr>WaitForExit := False\<rparr>, s) }
      else Some (d, s))"

definition dfu_data_stage :: "'h mmio \<Rightarrow> 'h boot \<Rightarrow> 'h core \<Rightarrow> dfu \<Rightarrow> 'h \<Rightarrow> (dfu \<times> bool \<times> 'h) option" where
  "dfu_data_stage io b c d s =
     (if DataSize (SentCommand d) \<noteq> 0 then
        do {
          (ok, s) \<leftarrow> flag_wait io RXOUTI s;
          if \<not> ok then Some (d, False, s)
          else do {
            let (v, s) = Endpoint_Read_Byte io s;
            let (cmd, s) = load_parameters io 5 ((SentCommand d)\<lparr>Command := v, DataSize := DataSize (SentCommand d) - 1\<rparr>) s;
            (d, s) \<leftarrow> ProcessBootloaderCommand io b c (d\<lparr>SentCommand := cmd\<rparr>) s;
            Some (d, True, s)
          }
        }
      else Some (d, True, s))"

definition dfu_download :: "'h mmio \<Rightarrow> 'h boot \<Rightarrow> 'h core \<Rightarrow> USB_Request_Header_t \<Rightarrow> dfu \<Rightarrow> 'h \<Rightarrow> (dfu \<times> 'h) option" where
  "dfu_download io b c req d s =
     do {
       (d, s) \<leftarrow> dfu_last_command io b c d (Endpoint_ClearSETUP io s);
       (d, ok, s) \<leftarrow> dfu_data_stage io b c d s;
       if \<not> ok then Some (d, s)
       else do {
         (d, ok, s) \<leftarrow> dfu_firmware io b d s;
         if \<not> ok then Some (d, s)
         else do {
           s \<leftarrow> Endpoint_ClearStatusStage io req (Endpoint_ClearOUT io s);
           Some (d, s)
         }
       }
     }"

fun upload_words :: "'h mmio \<Rightarrow> 'h boot \<Rightarrow> nat \<Rightarrow> u32 \<Rightarrow> 'h \<Rightarrow> (bool \<times> 'h) option" where
  "upload_words io b 0 addr s = Some (True, s)" |
  "upload_words io b (Suc n) addr s =
     do {
       (ok, s) \<leftarrow> next_in_packet io s;
       if \<not> ok then Some (False, s)
       else do {
         let (w, s) = pgm_read_word_far b addr s;
         upload_words io b n (addr + 2) (Endpoint_Write_Word_LE io w s)
       }
     }"

fun upload_bytes :: "'h mmio \<Rightarrow> 'h boot \<Rightarrow> nat \<Rightarrow> dfu \<Rightarrow> 'h \<Rightarrow> (bool \<times> dfu \<times> 'h) option" where
  "upload_bytes io b 0 d s = Some (True, d, s)" |
  "upload_bytes io b (Suc n) d s =
     do {
       (ok, s) \<leftarrow> next_in_packet io s;
       if \<not> ok then Some (False, d, s)
       else do {
         let (v, s) = eeprom_read_byte b (StartAddr d) s;
         upload_bytes io b n (d\<lparr>StartAddr := StartAddr d + 1\<rparr>) (Endpoint_Write_Byte io v s)
       }
     }"

definition dfu_upload :: "'h mmio \<Rightarrow> 'h boot \<Rightarrow> USB_Request_Header_t \<Rightarrow> dfu \<Rightarrow> 'h \<Rightarrow> (dfu \<times> 'h) option" where
  "dfu_upload io b req d s =
     do {
       (ok, s) \<leftarrow> flag_wait io TXINI (Endpoint_ClearSETUP io s);
       if \<not> ok then Some (d, s)
       else do {
         let BytesRemaining = EndAddr d - StartAddr d + 1;
         (ok, d, s) \<leftarrow>
           (if DFU_State d \<noteq> dfuUPLOAD_IDLE then
              Some (True, d, if DFU_State d = dfuERROR \<and> IS_ONEBYTE_COMMAND d 0x01 then Endpoint_Write_Word_LE io (StartAddr d) s
                             else Endpoint_Write_Byte io (ResponseByte d) s)
            else if IS_ONEBYTE_COMMAND d 0x00 then
              do {
                (ok, s) \<leftarrow> upload_words io b (unat (drop_bit 1 BytesRemaining)) (flash_address d) s;
                Some (ok, if ok then d\<lparr>StartAddr := EndAddr d, DFU_State := dfuIDLE\<rparr> else d, s)
              }
            else if IS_ONEBYTE_COMMAND d 0x02 then
              do {
                (ok, d, s) \<leftarrow> upload_bytes io b (unat BytesRemaining) d s;
                Some (ok, if ok then d\<lparr>DFU_State := dfuIDLE\<rparr> else d, s)
              }
            else Some (True, d\<lparr>DFU_State := dfuIDLE\<rparr>, s));
         if \<not> ok then Some (d, s)
         else do {
           s \<leftarrow> Endpoint_ClearStatusStage io req (Endpoint_ClearIN io s);
           Some (d, s)
         }
       }
     }"

section \<open>Requests\<close>

definition dfu_UnhandledControlRequest ::
    "'h mmio \<Rightarrow> 'h boot \<Rightarrow> 'h core \<Rightarrow> USB_Request_Header_t \<Rightarrow> dfu \<Rightarrow> 'h \<Rightarrow> (dfu \<times> 'h) option" where
  "dfu_UnhandledControlRequest io b c req d s =
     (let d = d\<lparr>SentCommand := (SentCommand d)\<lparr>DataSize := wLength req\<rparr>\<rparr>;
          status = (\<lambda>d s. map_option (\<lambda>s. (d, s)) (Endpoint_ClearStatusStage io req s))
      in if bRequest req = 1 then dfu_download io b c req d s
         else if bRequest req = 2 then dfu_upload io b req d s
         else if bRequest req = 3 then
           (let s = Endpoint_Write_Byte io 0 (Endpoint_Write_Byte io (DFU_Status d) (Endpoint_ClearSETUP io s));
                s = Endpoint_Write_Byte io 0 (Endpoint_Write_Byte io (DFU_State d) (Endpoint_Write_Word_LE io 0 s))
            in status d (Endpoint_ClearIN io s))
         else if bRequest req = 4 then status (d\<lparr>DFU_Status := DFU_OK\<rparr>) (Endpoint_ClearSETUP io s)
         else if bRequest req = 5 then status d (Endpoint_ClearIN io (Endpoint_Write_Byte io (DFU_State d) (Endpoint_ClearSETUP io s)))
         else if bRequest req = 6 then status (d\<lparr>DFU_State := dfuIDLE\<rparr>) (Endpoint_ClearSETUP io s)
         else Some (d, s))"

definition dfu_boot_round :: "('s \<Rightarrow> dfu) \<Rightarrow> ('s \<Rightarrow> 's option) \<Rightarrow> 's \<Rightarrow> 's option" where
  "dfu_boot_round st usb_task s = (if RunBootloader (st s) \<or> WaitForExit (st s) then usb_task s else Some s)"

section \<open>TeensyHID\<close>

text \<open>\<open>for (PageByte = 0; PageByte < SPM_PAGESIZE; PageByte += 2)\<close>; \<open>while (!(Endpoint_IsOUTReceived()));\<close> has no way out.\<close>

fun teensy_words :: "'h mmio \<Rightarrow> 'h boot \<Rightarrow> u16 \<Rightarrow> nat list \<Rightarrow> 'h \<Rightarrow> 'h option" where
  "teensy_words io b page [] s = Some s" |
  "teensy_words io b page (i # is) s =
     do {
       let (n, s) = Endpoint_BytesInEndpoint io s;
       s \<leftarrow> (if n = 0 then spin_until io UEINTX RXOUTI (Endpoint_ClearOUT io s) else Some s);
       let (w, s) = Endpoint_Read_Word_LE io s;
       teensy_words io b page is (boot_page_fill b (ucast (page + of_nat i)) w s)
     }"

definition teensy_UnhandledControlRequest ::
    "'h mmio \<Rightarrow> 'h boot \<Rightarrow> USB_Request_Header_t \<Rightarrow> bool \<Rightarrow> 'h \<Rightarrow> (bool \<times> 'h) option" where
  "teensy_UnhandledControlRequest io b req RunBoot s =
     (if bRequest req = 0x09 then
        do {
          s \<leftarrow> spin_until io UEINTX RXOUTI (Endpoint_ClearSETUP io s);
          let (PageAddress, s) = Endpoint_Read_Word_LE io s;
          (RunBoot, s) \<leftarrow>
            (if PageAddress = 0xFFFF then Some (False, s)
             else do {
               let s = boot_spm_busy_wait b (boot_page_erase b (ucast PageAddress) s);
               s \<leftarrow> teensy_words io b PageAddress (map (\<lambda>i. 2 * i) [0..<64]) s;
               let s = boot_spm_busy_wait b (boot_page_write b (ucast PageAddress) s);
               Some (RunBoot, boot_rww_enable b s)
             });
          s \<leftarrow> Endpoint_ClearStatusStage io req (Endpoint_ClearOUT io s);
          Some (RunBoot, s)
        }
      else Some (RunBoot, s))"

definition teensy_ConfigurationChanged :: "'h mmio \<Rightarrow> 'h \<Rightarrow> 'h option" where
  "teensy_ConfigurationChanged io s = map_option snd (Endpoint_ConfigureEndpoint io 1 EP_TYPE_INTERRUPT ENDPOINT_DIR_IN 64 ENDPOINT_BANK_SINGLE s)"

text \<open>The main loop ends with the watchdog; the last loop is left by its reset.\<close>

definition teensy_round :: "'h core \<Rightarrow> ('h \<Rightarrow> (bool \<times> 'h) option) \<Rightarrow> bool \<Rightarrow> 'h \<Rightarrow> (bool \<times> 'h) option" where
  "teensy_round c usb_task RunBoot s = (if RunBoot then usb_task s else Some (False, wdt_enable c (lib_USB_Detach c s)))"

end
