(* ===== verification/Boot_Lock.thy ===== *)
theory Boot_Lock
  imports Boot_Cdc Boot_Dfu
begin

text \<open>
  The lock of the DFU bootloader: \<open>blind\<close> says of a step that it cannot tell one memory from another while the
  bootloader stays locked, and is shown for the steps of the request handler in the order of the code.
\<close>

section \<open>The lock\<close>

definition locked :: "dfu \<Rightarrow> bool" where
  "locked d \<longleftrightarrow> IsSecure d \<and> DFU_State d \<noteq> dfuDNLOAD_IDLE \<and> DFU_State d \<noteq> dfuUPLOAD_IDLE"

text \<open>A step that leaves the bootloader secure started so, and does the same with any other memory.\<close>

definition blind :: "('h boot \<Rightarrow> dfu \<Rightarrow> (dfu \<times> 'x) option) \<Rightarrow> bool" where
  "blind f \<longleftrightarrow> (\<forall>b d d' s'. f b d = Some (d', s') \<longrightarrow> IsSecure d' \<longrightarrow>
     IsSecure d \<and> (locked d \<longrightarrow> locked d' \<and> (\<forall>b'. f b' d = Some (d', s'))))"

lemma blindD: "blind f \<Longrightarrow> f b d = Some (d', s') \<Longrightarrow> IsSecure d' \<Longrightarrow> IsSecure d"
  "blind f \<Longrightarrow> f b d = Some (d', s') \<Longrightarrow> IsSecure d' \<Longrightarrow> locked d \<Longrightarrow> locked d'"
  "blind f \<Longrightarrow> f b d = Some (d', s') \<Longrightarrow> IsSecure d' \<Longrightarrow> locked d \<Longrightarrow> f b' d = Some (d', s')"
  unfolding blind_def by blast+

lemma secure_kept:
  "IsSecure (LoadStartEndAddresses d) = IsSecure d" "IsSecure (fst (ProcessMemProgCommand b d s)) = IsSecure d"
  "IsSecure (fst (ProcessMemReadCommand b d s)) = IsSecure d"
  "ProcessReadCommand d = Some d' \<Longrightarrow> IsSecure d' = IsSecure d \<and> DFU_State d' = DFU_State d"
  by (auto simp: LoadStartEndAddresses_def ProcessMemProgCommand_def ProcessMemReadCommand_def ProcessReadCommand_def Let_def
      split: prod.splits option.splits if_splits)

lemma write_secure: "IsSecure (fst (ProcessWriteCommand b c d s)) \<Longrightarrow> IsSecure d"
  by (auto simp: ProcessWriteCommand_def Let_def split: if_splits)

lemma process_blind: "blind (\<lambda>b d. ProcessBootloaderCommand io b c d s)"
  unfolding blind_def
proof (intro allI impI conjI)
  fix b d d' s'
  assume p: "ProcessBootloaderCommand io b c d s = Some (d', s')" and sec: "IsSecure d'"
  show "IsSecure d"
  proof (rule ccontr)
    assume n: "\<not> IsSecure d"
    then show False using p sec secure_kept(2) [of b d s] secure_kept(3) [of b d s] secure_kept(4) [of d d'] write_secure [of b c d s]
      by (auto simp: ProcessBootloaderCommand_def Let_def split: if_splits)
  qed
  assume l: "locked d"
  have w: "\<not> (Command (SentCommand d) = COMMAND_WRITE \<and> IS_TWOBYTE_COMMAND d 0x00 0xFF)"
  proof
    assume "Command (SentCommand d) = COMMAND_WRITE \<and> IS_TWOBYTE_COMMAND d 0x00 0xFF"
    then show False using p sec
      by (auto simp: ProcessBootloaderCommand_def ProcessWriteCommand_def IS_ONEBYTE_COMMAND_def IS_TWOBYTE_COMMAND_def Let_def)
  qed
  then show "locked d'" using p l secure_kept(4) [of d d']
    by (auto simp: ProcessBootloaderCommand_def locked_def Let_def split: if_splits)
  show "ProcessBootloaderCommand io b' c d s = Some (d', s')" for b'
    using p l w by (auto simp: ProcessBootloaderCommand_def locked_def Let_def split: if_splits)
qed

lemma blind_bind:
  assumes "blind f" "\<And>x. blind (\<lambda>b d. g x b d)"
  shows "blind (\<lambda>b d. do { (d, x) \<leftarrow> f b d; g x b d })"
  unfolding blind_def
proof (intro allI impI)
  fix b d d' s'
  assume r: "do { (d, x) \<leftarrow> f b d; g x b d } = Some (d', s')" and sec: "IsSecure d'"
  obtain d1 x where 1: "f b d = Some (d1, x)" "g x b d1 = Some (d', s')" using r by (auto split: bind_splits)
  have s1: "IsSecure d1" by (rule blindD(1) [OF assms(2) 1(2) sec])
  show "IsSecure d \<and> (locked d \<longrightarrow> locked d' \<and> (\<forall>b'. do { (d, x) \<leftarrow> f b' d; g x b' d } = Some (d', s')))"
  proof (intro conjI impI allI)
    show "IsSecure d" by (rule blindD(1) [OF assms(1) 1(1) s1])
    assume l: "locked d"
    have l1: "locked d1" by (rule blindD(2) [OF assms(1) 1(1) s1 l])
    show "locked d'" by (rule blindD(2) [OF assms(2) 1(2) sec l1])
    show "do { (d, x) \<leftarrow> f b' d; g x b' d } = Some (d', s')" for b'
      using blindD(3) [OF assms(1) 1(1) s1 l, of b'] blindD(3) [OF assms(2) 1(2) sec l1, of b'] by simp
  qed
qed

text \<open>Steps that do not use the memory, and may change fields other than the lock and the state.\<close>

lemma blind_plain:
  assumes "\<And>d d' s'. f d = Some (d', s') \<Longrightarrow> IsSecure d' = IsSecure d \<and> (DFU_State d' = DFU_State d \<or> DFU_State d' = dfuIDLE)"
  shows "blind (\<lambda>b d. f d)"
  using assms unfolding blind_def locked_def by fastforce

lemma blind_if:
  assumes "blind f" "blind g"
  shows "blind (\<lambda>b d. if P d then f b d else g b d)"
  unfolding blind_def
proof (intro allI impI)
  fix b d d' s'
  assume h: "(if P d then f b d else g b d) = Some (d', s')" "IsSecure d'"
  show "IsSecure d \<and> (locked d \<longrightarrow> locked d' \<and> (\<forall>b'. (if P d then f b' d else g b' d) = Some (d', s')))"
  proof (cases "P d")
    case True
    then have f: "f b d = Some (d', s')" using h(1) by simp
    from True show ?thesis using blindD(1) [OF assms(1) f h(2)] blindD(2) [OF assms(1) f h(2)] blindD(3) [OF assms(1) f h(2)] by simp
  next
    case False
    then have g: "g b d = Some (d', s')" using h(1) by simp
    from False show ?thesis using blindD(1) [OF assms(2) g h(2)] blindD(2) [OF assms(2) g h(2)] blindD(3) [OF assms(2) g h(2)] by simp
  qed
qed

lemma bytes_secure: "download_bytes io b n d s = Some (d', x) \<Longrightarrow> IsSecure d' = IsSecure d"
  by (induction n arbitrary: d s) (auto split: bind_splits prod.splits if_splits)

lemma firmware_blind: "blind (\<lambda>b d. dfu_firmware io b d s)"
proof -
  have "IsSecure d' = IsSecure d" if "dfu_firmware io b d s = Some (d', x)" for b d d' x
    using that by (auto simp: dfu_firmware_def Let_def split: bind_splits if_splits dest: bytes_secure)
  moreover have "dfu_firmware io b d s = Some (d, True, s)" if "locked d" for b d
    using that by (simp add: dfu_firmware_def locked_def)
  ultimately show ?thesis unfolding blind_def by auto
qed

lemma last_blind: "blind (\<lambda>b d. dfu_last_command io b c d s)"
proof -
  have "blind (\<lambda>b d. do { (d, s) \<leftarrow> ProcessBootloaderCommand io b c d s; Some (d\<lparr>WaitForExit := False\<rparr>, s) })"
    by (rule blind_bind [OF process_blind]) (auto intro!: blind_plain)
  then show ?thesis unfolding dfu_last_command_def by (rule blind_if) (auto intro!: blind_plain)
qed

lemma data_blind: "blind (\<lambda>b d. dfu_data_stage io b c d s)"
  unfolding blind_def
proof (intro allI impI)
  fix b d d' x
  assume r: "dfu_data_stage io b c d s = Some (d', x)" and sec: "IsSecure d'"
  note p = process_blind [of io c, THEN blindD(1)] process_blind [of io c, THEN blindD(2)] process_blind [of io c, THEN blindD(3)]
  show "IsSecure d \<and> (locked d \<longrightarrow> locked d' \<and> (\<forall>b'. dfu_data_stage io b' c d s = Some (d', x)))"
  proof (cases "DataSize (SentCommand d) = 0")
    case True
    then show ?thesis using r sec by (auto simp: dfu_data_stage_def)
  next
    case False
    then obtain ok s1 where f: "flag_wait io RXOUTI s = Some (ok, s1)" using r by (auto simp: dfu_data_stage_def split: bind_splits)
    show ?thesis
    proof (cases ok)
      case False
      then show ?thesis using f r sec \<open>DataSize (SentCommand d) \<noteq> 0\<close> by (auto simp: dfu_data_stage_def)
    next
      case True
      obtain v s2 where v: "Endpoint_Read_Byte io s1 = (v, s2)" by (cases "Endpoint_Read_Byte io s1")
      obtain cmd s3 where l: "load_parameters io 5 ((SentCommand d)\<lparr>Command := v, DataSize := DataSize (SentCommand d) - 1\<rparr>) s2 = (cmd, s3)"
        by (cases "load_parameters io 5 ((SentCommand d)\<lparr>Command := v, DataSize := DataSize (SentCommand d) - 1\<rparr>) s2")
      have e: "dfu_data_stage io b c d s =
          do { (d, s) \<leftarrow> ProcessBootloaderCommand io b c (d\<lparr>SentCommand := cmd\<rparr>) s3; Some (d, True, s) }" for b
        using f v l True False by (simp add: dfu_data_stage_def)
      obtain s4 where q: "ProcessBootloaderCommand io b c (d\<lparr>SentCommand := cmd\<rparr>) s3 = Some (d', s4)" "x = (True, s4)"
        using r unfolding e by (auto split: bind_splits)
      have "locked (d\<lparr>SentCommand := cmd\<rparr>) = locked d" by (simp add: locked_def)
      then show ?thesis using p(1) [OF q(1) sec] p(2) [OF q(1) sec] p(3) [OF q(1) sec] q(2) unfolding e by simp
    qed
  qed
qed

lemma download_blind: "blind (\<lambda>b d. dfu_download io b c req d s)"
proof -
  have f: "blind (\<lambda>b d. do { (d, y) \<leftarrow> dfu_firmware io b d s;
      (case y of (ok, s) \<Rightarrow> if \<not> ok then Some (d, s) else do { s \<leftarrow> Endpoint_ClearStatusStage io req (Endpoint_ClearOUT io s); Some (d, s) }) })" for s
    by (rule blind_bind [OF firmware_blind]) (rule blind_plain, auto split: bind_splits if_splits)
  have g: "blind (\<lambda>b d. case y of (ok, s) \<Rightarrow> if \<not> ok then Some (d, s) else do { (d, y) \<leftarrow> dfu_firmware io b d s;
      (case y of (ok, s) \<Rightarrow> if \<not> ok then Some (d, s) else do { s \<leftarrow> Endpoint_ClearStatusStage io req (Endpoint_ClearOUT io s); Some (d, s) }) })" for y
    using f by (cases y; cases "fst y") (auto intro!: blind_plain)
  have "blind (\<lambda>b d. do { (d, s) \<leftarrow> dfu_last_command io b c d (Endpoint_ClearSETUP io s); (d, y) \<leftarrow> dfu_data_stage io b c d s;
      (case y of (ok, s) \<Rightarrow> if \<not> ok then Some (d, s) else do { (d, y) \<leftarrow> dfu_firmware io b d s;
      (case y of (ok, s) \<Rightarrow> if \<not> ok then Some (d, s) else do { s \<leftarrow> Endpoint_ClearStatusStage io req (Endpoint_ClearOUT io s); Some (d, s) }) }) })"
    by (intro blind_bind last_blind data_blind g)
  then show ?thesis by (simp add: dfu_download_def split_def)
qed

lemma blind_same:
  assumes "\<And>b d d' s'. f b d = Some (d', s') \<Longrightarrow> IsSecure d' = IsSecure d \<and> (DFU_State d' = DFU_State d \<or> DFU_State d' = dfuIDLE)"
    "\<And>b b' d. locked d \<Longrightarrow> f b d = f b' d"
  shows "blind f"
  unfolding blind_def
proof (intro allI impI)
  fix b d d' s'
  assume r: "f b d = Some (d', s')" "IsSecure d'"
  have "locked d'" if "locked d" using assms(1) [OF r(1)] that by (auto simp: locked_def)
  moreover have "f b' d = Some (d', s')" if "locked d" for b' using assms(2) [OF that, of b' b] r(1) by simp
  ultimately show "IsSecure d \<and> (locked d \<longrightarrow> locked d' \<and> (\<forall>b'. f b' d = Some (d', s')))"
    using assms(1) [OF r(1)] r(2) by simp
qed

lemma blind_pre:
  assumes "blind f" "\<And>d. IsSecure (u d) = IsSecure d" "\<And>d. locked (u d) = locked d"
  shows "blind (\<lambda>b d. f b (u d))"
  using blindD [OF assms(1)] assms(2,3) unfolding blind_def by metis

lemma upload_bytes_secure: "upload_bytes io b n d s = Some (ok, d', s') \<Longrightarrow> IsSecure d' = IsSecure d \<and> DFU_State d' = DFU_State d"
  by (induction n arbitrary: d s) (auto split: bind_splits prod.splits if_splits)

lemma upload_blind: "blind (\<lambda>b d. dfu_upload io b req d s)"
proof (rule blind_same)
  show "IsSecure d' = IsSecure d \<and> (DFU_State d' = DFU_State d \<or> DFU_State d' = dfuIDLE)" if "dfu_upload io b req d s = Some (d', s')" for b d d' s'
    using that by (auto simp: dfu_upload_def Let_def split: bind_splits if_splits dest!: upload_bytes_secure)
  show "dfu_upload io b req d s = dfu_upload io b' req d s" if "locked d" for b b' d
    unfolding dfu_upload_def Let_def if_P [OF that [unfolded locked_def, THEN conjunct2, THEN conjunct2]] ..
qed

lemma request_blind: "blind (\<lambda>b d. dfu_UnhandledControlRequest io b c req d s)"
proof -
  let ?u = "\<lambda>d. d\<lparr>SentCommand := (SentCommand d)\<lparr>DataSize := wLength req\<rparr>\<rparr>"
  have u: "IsSecure (?u d) = IsSecure d" "locked (?u d) = locked d" for d by (simp_all add: locked_def)
  note pre = blind_pre [OF download_blind, of ?u] blind_pre [OF upload_blind, of ?u]
  have "blind (\<lambda>b d. dfu_download io b c req (?u d) s)" "blind (\<lambda>b d. dfu_upload io b req (?u d) s)"
    by (rule pre; rule u)+
  then show ?thesis
    unfolding dfu_UnhandledControlRequest_def Let_def
    by (intro blind_if) (auto intro!: blind_plain)
qed

text \<open>A session: requests, and before each of them anything the host and the hardware do.\<close>

fun dfu_session ::
    "'h mmio \<Rightarrow> 'h boot \<Rightarrow> 'h core \<Rightarrow> (USB_Request_Header_t \<times> ('h \<Rightarrow> 'h)) list \<Rightarrow> dfu \<Rightarrow> 'h \<Rightarrow> (dfu \<times> 'h) option" where
  "dfu_session io b c [] d s = Some (d, s)" |
  "dfu_session io b c ((req, env) # rs) d s =
     do { (d, s) \<leftarrow> dfu_UnhandledControlRequest io b c req d (env s); dfu_session io b c rs d s }"

lemma session_blind: "blind (\<lambda>b d. dfu_session io b c rs d s)"
proof (induction rs arbitrary: s)
  case Nil
  show ?case by (auto intro!: blind_plain)
next
  case (Cons r rs)
  obtain req env where "r = (req, env)" by (cases r)
  moreover have "blind (\<lambda>b d. do { (d, s) \<leftarrow> dfu_UnhandledControlRequest io b c req d (env s); dfu_session io b c rs d s })"
    by (rule blind_bind [OF request_blind Cons.IH])
  ultimately show ?case by simp
qed

text \<open>
  C18. The lock of the DFU bootloader.  A session with a bootloader built with \<open>SECURE_MODE\<close>, of whatever requests
  and data, after which the bootloader is still locked, goes the same way with any other memory: nothing was
  read from program memory or EEPROM, programmed, or erased.  Only the erasure of the chip opens the lock.  Not covered are sessions with a \<open>READ\<close>
  command whose index is outside of its table, where \<open>ProcessReadCommand\<close> has no result.
\<close>

theorem dfu_lock:
  assumes "dfu_session io b c rs (dfu_start True) s = Some (d', s')" "IsSecure d'"
  shows "dfu_session io b' c rs (dfu_start True) s = Some (d', s')"
proof -
  have "locked (dfu_start True)" by (simp add: locked_def dfu_start_def)
  from blindD(3) [OF session_blind assms this] show ?thesis .
qed

text \<open>A machine whose registers all read as ones: every flag is set, and the host sends ones.\<close>

definition all_ones :: "nat mmio" where
  "all_ones = \<lparr>io_rd = (\<lambda>r s. (- 1, s)), io_wr = (\<lambda>r v s. Suc s)\<rparr>"

lemma ones_16: "push_bit 8 (ucast (- 1 :: u8)) OR ucast (- 1 :: u8) = (- 1 :: u16)"
  by (rule bit_word_eqI) (auto simp: bit_simps)

definition no_core :: "'h core" where
  "no_core = \<lparr>clear_WDRF = id, wdt_disable = id, wdt_enable = id, clock_prescale_set = id, wr_MCUCR = (\<lambda>v. id),
     lib_USB_Init = Some, lib_USB_ShutDown = Some, lib_USB_Detach = id\<rparr>"

definition dnload_6 :: USB_Request_Header_t where
  "dnload_6 = \<lparr>bmRequestType = 0x21, bRequest = 1, wValue = 0, wIndex = 0, wLength = 6\<rparr>"

text \<open>Program memory that holds one value everywhere and takes no others.\<close>

definition rom :: "u8 \<Rightarrow> nat boot" where
  "rom v = spm_boot (\<lambda>s. \<lparr>flash_mem = (\<lambda>x. v), page_buf = (\<lambda>i. None), rww_busy = False, eeprom = (\<lambda>a. v), lock_bits = 0,
     fuse_bits = (\<lambda>i. 0)\<rparr>) (\<lambda>m s. s)"

theorem dfu_lock_witness:
  "\<exists>d' s'. dfu_session all_ones (rom 0) no_core [(dnload_6, id)] (dfu_start True) 0 = Some (d', s') \<and> IsSecure d' \<and>
    DFU_State d' = dfuERROR \<and> dfu_session all_ones (rom 1) no_core [(dnload_6, id)] (dfu_start True) 0 = Some (d', s')"
proof -
  have f: "flag_wait all_ones n s = Some (True, s)" if "n < 8" for n s
    using that by (subst flag_wait.simps) (simp add: test_reg_def all_ones_def)
  have b: "Endpoint_BytesInEndpoint all_ones s = (- 1, s)" "Endpoint_Read_Byte all_ones s = (- 1, s)" for s
    using ones_16 by (simp_all add: Endpoint_BytesInEndpoint_def Endpoint_Read_Byte_def all_ones_def)
  have l: "\<exists>cmd'. load_parameters all_ones n cmd s = (cmd', s) \<and> Command cmd' = Command cmd" for n cmd s
    by (induction n arbitrary: cmd) (fastforce simp: b)+
  let ?d = "(dfu_start True)\<lparr>SentCommand := (SentCommand (dfu_start True))\<lparr>DataSize := 6\<rparr>\<rparr>"
  let ?s = "Endpoint_ClearSETUP all_ones 0"
  obtain cmd where cmd: "load_parameters all_ones 5 ((SentCommand ?d)\<lparr>Command := - 1, DataSize := 5\<rparr>) ?s = (cmd, ?s)" "Command cmd = - 1"
    using l [of 5 "(SentCommand ?d)\<lparr>Command := - 1, DataSize := 5\<rparr>" ?s] by auto
  let ?e = "?d\<lparr>SentCommand := cmd, DFU_State := dfuERROR, DFU_Status := errWRITE\<rparr>"
  have p: "ProcessBootloaderCommand all_ones b c (?d\<lparr>SentCommand := cmd\<rparr>) s = Some (?e, Endpoint_StallTransaction all_ones s)" for b :: "nat boot" and c s
    by (simp add: ProcessBootloaderCommand_def cmd(2) dfu_start_def)
  have stage: "dfu_data_stage all_ones b c ?d ?s = Some (?e, True, Endpoint_StallTransaction all_ones ?s)" for b :: "nat boot" and c
    using cmd(1) p [of b c ?s] by (simp add: dfu_data_stage_def f b dfu_start_def)
  have w: "\<not> WaitForExit (dfu_start True)" by (simp add: dfu_start_def)
  have r: "dfu_session all_ones (rom 0) no_core [(dnload_6, id)] (dfu_start True) 0 =
      Some (?e, Endpoint_ClearIN all_ones (Endpoint_ClearOUT all_ones (Endpoint_StallTransaction all_ones ?s)))"
    using stage [of "rom 0" no_core]
    by (simp add: w Let_def dfu_UnhandledControlRequest_def dfu_download_def dfu_last_command_def dnload_6_def dfu_firmware_def Endpoint_ClearStatusStage_def f)
  have "IsSecure ?e" "DFU_State ?e = dfuERROR" by (simp_all add: dfu_start_def)
  with r dfu_lock [OF r, of "rom 1"] show ?thesis by blast
qed

text \<open>
  The chip erase of the two bootloaders on the program memory of \<open>spm\<close>, whose application section are the pages
  0 to 479.
\<close>

section \<open>One page\<close>

lemma same_page_flash: "x < 0x20000 \<Longrightarrow> same_page x (flash_addr a) \<longleftrightarrow> x div 256 = flash_addr a div 256"
  by (simp add: same_page_def)

definition blank :: "spm \<Rightarrow> bool" where
  "blank m \<longleftrightarrow> (\<forall>i. page_buf m i = None)"

text \<open>Erasure followed by programming from a page buffer nobody filled.\<close>

definition wipe :: "u32 \<Rightarrow> spm \<Rightarrow> spm" where
  "wipe a m = spm_write a (spm_erase a m)"

lemma wipe_mem:
  assumes "blank m"
  shows "blank (wipe a m)" "flash_mem (wipe a m) = (\<lambda>x. if same_page x (flash_addr a) then 0xFF else flash_mem m x)"
    "rww_busy (wipe a m)" "eeprom (wipe a m) = eeprom m"
  using assms by (auto simp: blank_def wipe_def spm_write_def spm_erase_def buf_byte_def)

lemma wipe_step:
  assumes "\<And>m s. g (p m s) = m"
  shows "g (boot_spm_busy_wait (spm_boot g p) (boot_page_write (spm_boot g p) a
    (boot_spm_busy_wait (spm_boot g p) (boot_page_erase (spm_boot g p) a s)))) = wipe a (g s)"
  using assms by (simp add: spm_boot_def wipe_def)

section \<open>The loops\<close>

text \<open>A loop from page \<open>k\<close> on that leaves out the pages of \<open>M\<close>.\<close>

definition cleared :: "(nat \<Rightarrow> bool) \<Rightarrow> spm \<Rightarrow> spm \<Rightarrow> bool" where
  "cleared P m m' \<longleftrightarrow> blank m' \<and> (\<forall>x. flash_mem m' x = (if P (x div 256) then 0xFF else flash_mem m x))"

lemma cleared_step:
  assumes "blank m" "cleared Q (wipe a m) m'" "\<And>n. P n \<longleftrightarrow> n = flash_addr a div 256 \<or> Q n"
  shows "cleared P m m'"
  using assms(2,3) wipe_mem [OF assms(1), of a] by (auto simp: cleared_def same_page_def)

lemma erase_pages_mem:
  assumes "\<And>m s. g (p m s) = m" "blank (g s)" "k \<le> 480"
  shows "cleared (\<lambda>n. k \<le> n \<and> n < 480) (g s) (g (erase_pages (spm_boot g p) (of_nat (256 * k)) s))"
  using assms(2,3)
proof (induction "480 - k" arbitrary: k s)
  case 0
  then have "k = 480" by simp
  then show ?case using "0.prems" by (subst erase_pages.simps) (auto simp: cleared_def)
next
  case (Suc j)
  then have k: "k < 480" by simp
  let ?a = "of_nat (256 * k) :: u32" and ?b = "spm_boot g p"
  let ?s = "boot_spm_busy_wait ?b (boot_page_write ?b ?a (boot_spm_busy_wait ?b (boot_page_erase ?b ?a s)))"
  have u: "unat ?a = 256 * k" by (subst unat_of_nat) (use k in simp)
  then have lt: "?a < BOOT_START_ADDR" and fa: "flash_addr ?a div 256 = k" using k by (simp_all add: word_less_nat_alt flash_addr_def)
  have g: "g ?s = wipe ?a (g s)" by (rule wipe_step) (rule assms(1))
  have "cleared (\<lambda>n. Suc k \<le> n \<and> n < 480) (g ?s) (g (erase_pages ?b (of_nat (256 * Suc k)) ?s))"
    by (rule Suc.hyps(1)) (use Suc g wipe_mem(1) k in auto)
  then have "cleared (\<lambda>n. k \<le> n \<and> n < 480) (g s) (g (erase_pages ?b (of_nat (256 * Suc k)) ?s))"
    unfolding g by (rule cleared_step [OF Suc.prems(1)]) (use fa k in auto)
  moreover have "erase_pages ?b ?a s = erase_pages ?b (of_nat (256 * Suc k)) ?s"
    using lt by (subst erase_pages.simps) (simp add: algebra_simps)
  ultimately show ?case by simp
qed

lemma erase_loop_mem:
  assumes "\<And>m s. g (p m s) = m" "blank (g s)" "k \<le> 479"
  shows "cleared (\<lambda>n. n < 480 \<and> (if k < 256 then k \<le> n \<and> n \<noteq> 256 else k < n)) (g s) (g (erase_loop (spm_boot g p) (of_nat (257 * k)) s))"
  using assms(2,3)
proof (induction "479 - k" arbitrary: k s)
  case 0
  then have "k = 479" by simp
  then show ?case using "0.prems" by (subst erase_loop.simps) (auto simp: cleared_def)
next
  case (Suc j)
  then have k: "k < 479" by simp
  let ?a = "of_nat (257 * k) :: u32" and ?b = "spm_boot g p"
  let ?s = "boot_spm_busy_wait ?b (boot_page_write ?b ?a (boot_spm_busy_wait ?b (boot_page_erase ?b ?a s)))"
  have u: "unat ?a = 257 * k" by (subst unat_of_nat) (use k in simp)
  then have lt: "?a < BOOT_START_ADDR" and fa: "flash_addr ?a div 256 = (if k < 256 then k else k + 1)"
    using k by (auto simp: word_less_nat_alt flash_addr_def)
  have g: "g ?s = wipe ?a (g s)" by (rule wipe_step) (rule assms(1))
  have "cleared (\<lambda>n. n < 480 \<and> (if Suc k < 256 then Suc k \<le> n \<and> n \<noteq> 256 else Suc k < n)) (g ?s)
      (g (erase_loop ?b (of_nat (257 * Suc k)) ?s))"
    by (rule Suc.hyps(1)) (use Suc g wipe_mem(1) k in auto)
  then have "cleared (\<lambda>n. n < 480 \<and> (if k < 256 then k \<le> n \<and> n \<noteq> 256 else k < n)) (g s) (g (erase_loop ?b (of_nat (257 * Suc k)) ?s))"
    unfolding g by (rule cleared_step [OF Suc.prems(1)]) (use fa k in auto)
  moreover have "erase_loop ?b ?a s = erase_loop ?b (of_nat (257 * Suc k)) ?s"
    using lt by (subst erase_loop.simps) (simp add: algebra_simps)
  ultimately show ?case by simp
qed

text \<open>
  The chip erase.  From an empty page buffer, the loop of the DFU bootloader leaves the application section
  erased and the rest as it was.  That of the CDC bootloader does so except for page 256, the bytes from 0x10000
  to 0x100FF, which keeps its content: its addresses are the multiples of 257.
\<close>

theorem chip_erase:
  assumes "\<And>m s. g (p m s) = m" "blank (g s)"
  shows "flash_mem (g (erase_pages (spm_boot g p) 0 s)) = (\<lambda>x. if x < 0x1E000 then 0xFF else flash_mem (g s) x) \<and>
    flash_mem (g (erase_loop (spm_boot g p) 0 s)) =
      (\<lambda>x. if x < 0x1E000 \<and> \<not> (0x10000 \<le> x \<and> x < 0x10100) then 0xFF else flash_mem (g s) x)"
proof -
  have "x div 256 < 480 \<longleftrightarrow> x < 0x1E000" "x div 256 = 256 \<longleftrightarrow> 0x10000 \<le> x \<and> x < 0x10100" for x :: nat by auto
  then show ?thesis using erase_pages_mem [of g p s 0, OF assms] erase_loop_mem [of g p s 0, OF assms]
    by (auto simp: cleared_def fun_eq_iff)
qed

theorem chip_erase_witness:
  "\<exists>m. flash_mem m 0x10000 = 0 \<and> flash_mem (erase_pages (spm_boot id (\<lambda>m s. m)) 0 m) 0x10000 = 0xFF \<and>
     flash_mem (erase_loop (spm_boot id (\<lambda>m s. m)) 0 m) 0x10000 = 0"
proof -
  let ?m = "\<lparr>flash_mem = (\<lambda>x. 0), page_buf = (\<lambda>i. None), rww_busy = False, eeprom = (\<lambda>a. 0), lock_bits = 0, fuse_bits = (\<lambda>i. 0)\<rparr>"
  have "blank (id ?m)" by (simp add: blank_def)
  from chip_erase [of id "\<lambda>m s. m", OF _ this] show ?thesis by (intro exI [of _ ?m]) simp
qed

end
