(* ===== verification/Boot_Program.thy ===== *)
theory Boot_Program
  imports Boot_Lock Usb_Bulk
begin

text \<open>
  A session with the CDC bootloader: commands the host has queued in packets, on the machine of \<open>Usb_Bulk\<close>
  beside the program memory \<open>spm\<close>.
\<close>

section \<open>The two data endpoints\<close>

definition link :: "usb \<Rightarrow> bool" where
  "link u \<longleftrightarrow> dev_state u \<noteq> 0 \<and> 0 < ep_size u \<and> \<not> ep_in (ep u 2) \<and> bank_ready (ep u 2) \<and> ep_in (ep u 1) \<and> bank_ready (ep u 1) \<and>
     length (fifo (ep u 1)) \<le> ep_size u"

text \<open>The bytes of the commands up to a packet boundary, and the packets behind it.\<close>

definition pending :: "u8 list \<Rightarrow> u8 list list \<Rightarrow> usb \<Rightarrow> bool" where
  "pending bs rest u \<longleftrightarrow> (\<exists>qs. queue (ep u 2) = qs @ rest \<and> fifo (ep u 2) @ concat qs = bs \<and> [] \<notin> set qs)"

definition to_host :: "usb \<Rightarrow> u8 list" where
  "to_host u = concat (queue (ep u 1)) @ fifo (ep u 1)"

context usb_bus
begin

text \<open>The flag of a released bank comes while the device is attached.\<close>

lemma flag_back:
  assumes "uenum (get s) \<noteq> 0" "dev_state (get s) \<noteq> 0" "bank (cur (get s))" "n = (if ep_in (cur (get s)) then TXINI else RXOUTI)"
  shows "flag_wait io n s = Some (True, put (upd_cur (\<lambda>e. e\<lparr>delay := 0\<rparr>) (get s)) s)"
  using assms
proof (induction "delay (cur (get s))" arbitrary: s)
  case 0
  have t: "test_reg io UEINTX n s = (bank_ready (cur (get s)), put (poll (get s)) s)"
    using 0(2-5) by (auto simp: test_reg_def rd_intx intx_def bit_or_iff)
  have "bank_ready (cur (get s))" "poll (get s) = upd_cur (\<lambda>e. e\<lparr>delay := 0\<rparr>) (get s)"
    using 0 by (auto simp: bank_ready_def poll_def upd_cur_def)
  then show ?case using t by (subst flag_wait.simps) simp
next
  case (Suc k)
  have t: "test_reg io UEINTX n s = (bank_ready (cur (get s)), put (poll (get s)) s)"
    using Suc.prems by (auto simp: test_reg_def rd_intx intx_def bit_or_iff)
  have "\<not> bank_ready (cur (get s))" using Suc.hyps(2) by (simp add: bank_ready_def)
  then have "flag_wait io n s = flag_wait io n (put (poll (get s)) s)"
    using t Suc.prems(2) by (subst flag_wait.simps) (simp add: dev_state get_put)
  also have "\<dots> = Some (True, put (upd_cur (\<lambda>e. e\<lparr>delay := 0\<rparr>) (poll (get s))) s)"
    using Suc.hyps(1) [of "put (poll (get s)) s"] Suc.hyps(2) Suc.prems by (simp add: get_put put_put)
  also have "upd_cur (\<lambda>e. e\<lparr>delay := 0\<rparr>) (poll (get s)) = upd_cur (\<lambda>e. e\<lparr>delay := 0\<rparr>) (get s)"
    by (simp add: poll_def upd_upd)
  finally show ?case .
qed

lemma fetch:
  assumes "link (get s)" "pending (b # bs) rest (get s)"
  shows "\<exists>v. FetchNextCommandByte io s = Some (b, put v s) \<and> link v \<and> pending bs rest v \<and> to_host v = to_host (get s)"
proof -
  let ?u = "(get s)\<lparr>uenum := 2\<rparr>"
  obtain qs where q: "queue (ep (get s) 2) = qs @ rest" "fifo (ep (get s) 2) @ concat qs = b # bs" "[] \<notin> set qs"
    using assms(2) by (auto simp: pending_def)
  have l: "\<not> ep_in (ep (get s) 2)" "bank_ready (ep (get s) 2)" "dev_state (get s) \<noteq> 0" using assms(1) by (auto simp: link_def)
  have take: "\<exists>v. fetch_loop io (put u s) = Some (b, put v s) \<and> link v \<and> pending bs rest v \<and> to_host v = to_host u"
    if u: "uenum u = 2" "link u" "fifo (ep u 2) = b # xs" "queue (ep u 2) = ys @ rest" "xs @ concat ys = bs" "[] \<notin> set ys" for u xs ys
  proof (intro exI conjI)
    have c: "cur u = ep u 2" using u(1) by (simp add: cur_def)
    have "bank_ready (cur u)" "\<not> ep_in (cur u)" using u(2) c by (auto simp: link_def)
    then show "fetch_loop io (put u s) = Some (b, put (upd_cur (\<lambda>e. e\<lparr>fifo := xs\<rparr>) u) s)"
      using u c by (subst fetch_loop.simps)
        (simp add: rwa get_put put_put poll_ready Endpoint_Read_Byte_def rd_bulk bulk_regs_def usb_rd_def)
    show "link (upd_cur (\<lambda>e. e\<lparr>fifo := xs\<rparr>) u)" "to_host (upd_cur (\<lambda>e. e\<lparr>fifo := xs\<rparr>) u) = to_host u"
      "pending bs rest (upd_cur (\<lambda>e. e\<lparr>fifo := xs\<rparr>) u)"
      using u by (auto simp: link_def to_host_def pending_def upd_cur_def cur_def bank_ready_def)
  qed
  have lu: "link ?u" "to_host ?u = to_host (get s)" using assms(1) by (auto simp: link_def to_host_def)
  show ?thesis
  proof (cases "fifo (ep (get s) 2)")
    case (Cons x xs)
    then show ?thesis using take [of ?u xs qs] q lu by (simp add: FetchNextCommandByte_def select)
  next
    case Nil
    obtain p ps where p: "qs = p # ps" using q(2) Nil by (cases qs) auto
    then obtain xs where x: "p = b # xs" using q(2,3) Nil by (cases p) auto
    let ?w = "upd_cur (\<lambda>e. e\<lparr>delay := 0\<rparr>) (next_bank ?u)"
    have r: "cur (next_bank ?u) = (ep (get s) 2)\<lparr>fifo := p, delay := lat (get s), queue := ps @ rest\<rparr>"
      using q(1) p l(1) by (simp add: next_bank_def release_def)
    have n: "uenum (next_bank ?u) = 2" "dev_state (next_bank ?u) = dev_state (get s)" by (simp_all add: next_bank_def)
    have "Endpoint_ClearOUT io (put ?u s) = put (next_bank ?u) s"
      using clear_bank(1) [of "put ?u s"] l(2) by (simp add: get_put put_put)
    moreover have "flag_wait io RXOUTI (put (next_bank ?u) s) = Some (True, put ?w s)"
      using flag_back [of "put (next_bank ?u) s" RXOUTI] n r l by (simp add: get_put put_put bank_ready_def)
    moreover have "Endpoint_IsReadWriteAllowed io (put ?u s) = (False, put ?u s)"
      using l Nil by (simp add: rwa get_put put_put poll_ready)
    ultimately have f: "fetch_loop io (put ?u s) = fetch_loop io (put ?w s)"
      by (subst fetch_loop.simps) simp
    have "link ?w" "to_host ?w = to_host (get s)"
      using lu r by (auto simp: link_def to_host_def next_bank_def upd_cur_def cur_def bank_ready_def release_def split: list.split)
    moreover have "fifo (ep ?w 2) = b # xs" "queue (ep ?w 2) = ps @ rest" "uenum ?w = 2"
      using r n x by (auto simp: upd_cur_def)
    ultimately show ?thesis using take [of ?w xs ps] f q(2,3) p x Nil by (simp add: FetchNextCommandByte_def select)
  qed
qed

lemma respond_byte:
  assumes "link (get s)" "pending bs rest (get s)"
  shows "\<exists>v. WriteNextResponseByte io r s = Some (put v s) \<and> link v \<and> pending bs rest v \<and> to_host v = to_host (get s) @ [r]"
proof -
  let ?u = "(get s)\<lparr>uenum := 1\<rparr>"
  have l: "ep_in (ep (get s) 1)" "bank_ready (ep (get s) 1)" "dev_state (get s) \<noteq> 0" "length (fifo (ep (get s) 1)) \<le> ep_size (get s)" "0 < ep_size (get s)"
    using assms(1) by (auto simp: link_def)
  have put: "\<exists>v. Endpoint_Write_Byte io r (put u s) = put v s \<and> link v \<and> pending bs rest v \<and> to_host v = to_host u @ [r]"
    if u: "uenum u = 1" "link u" "pending bs rest u" "length (fifo (ep u 1)) < ep_size u" for u
  proof (intro exI conjI)
    have c: "cur u = ep u 1" using u(1) by (simp add: cur_def)
    let ?v = "upd_cur (\<lambda>e. e\<lparr>fifo := fifo e @ [r]\<rparr>) u"
    show "Endpoint_Write_Byte io r (put u s) = put ?v s"
      using u c by (simp add: link_def Endpoint_Write_Byte_def wr_bulk bulk_regs_def usb_wr_def get_put put_put)
    show "link ?v" "pending bs rest ?v" "to_host ?v = to_host u @ [r]"
      using u by (auto simp: link_def to_host_def pending_def upd_cur_def cur_def bank_ready_def)
  qed
  have pu: "link ?u" "pending bs rest ?u" "to_host ?u = to_host (get s)" using assms by (auto simp: link_def pending_def to_host_def)
  have a: "Endpoint_IsReadWriteAllowed io (put ?u s) = (length (fifo (ep (get s) 1)) < ep_size (get s), put ?u s)"
    using l by (simp add: rwa get_put put_put poll_ready)
  show ?thesis
  proof (cases "length (fifo (ep (get s) 1)) < ep_size (get s)")
    case True
    then show ?thesis using put [of ?u] pu a by (simp add: WriteNextResponseByte_def select)
  next
    case False
    let ?w = "upd_cur (\<lambda>e. e\<lparr>delay := 0\<rparr>) (next_bank ?u)"
    have r: "cur (next_bank ?u) = (ep (get s) 1)\<lparr>fifo := [], delay := lat (get s), queue := queue (ep (get s) 1) @ [fifo (ep (get s) 1)]\<rparr>"
      using l by (simp add: next_bank_def release_def)
    have n: "uenum (next_bank ?u) = 1" "dev_state (next_bank ?u) = dev_state (get s)" by (simp_all add: next_bank_def)
    have "Endpoint_ClearIN io (put ?u s) = put (next_bank ?u) s"
      using clear_bank(2) [of "put ?u s"] l(2) by (simp add: get_put put_put)
    moreover have "flag_wait io TXINI (put (next_bank ?u) s) = Some (True, put ?w s)"
      using flag_back [of "put (next_bank ?u) s" TXINI] n r l by (simp add: get_put put_put bank_ready_def)
    moreover have "link ?w" "pending bs rest ?w" "to_host ?w = to_host (get s)" "length (fifo (ep ?w 1)) < ep_size ?w" "uenum ?w = 1"
      using pu l by (auto simp: link_def pending_def to_host_def next_bank_def upd_cur_def cur_def bank_ready_def release_def split: list.split)
    ultimately show ?thesis using put [of ?w] a False by (simp add: WriteNextResponseByte_def select)
  qed
qed

end

section \<open>The machine of the bootloader\<close>

locale boot_bus = usb_bus io get put
  for io :: "'h mmio" and get :: "'h \<Rightarrow> usb" and put :: "usb \<Rightarrow> 'h \<Rightarrow> 'h" +
  fixes mget :: "'h \<Rightarrow> spm" and mput :: "spm \<Rightarrow> 'h \<Rightarrow> 'h"
  assumes mget_mput: "mget (mput m s) = m"
    and mput_mput: "mput m' (mput m s) = mput m' s"
    and mput_get: "mput (mget s) s = s"
    and mget_put: "mget (put u s) = mget s"
    and get_mput: "get (mput m s) = get s"
    and put_mput: "put u (mput m s) = mput m (put u s)"
begin

lemmas mem_laws = mget_mput mput_mput mput_get mget_put get_mput put_mput get_put put_put put_get

text \<open>
  What a part of a command does: it takes the bytes \<open>bs\<close>, answers \<open>out\<close>, takes the memory from \<open>m\<close> to \<open>m'\<close>
  and has the result \<open>x\<close>.
\<close>

definition does :: "('h \<Rightarrow> ('x \<times> 'h) option) \<Rightarrow> u8 list \<Rightarrow> u8 list \<Rightarrow> spm \<Rightarrow> 'x \<Rightarrow> spm \<Rightarrow> bool" where
  "does F bs out m x m' \<longleftrightarrow> (\<forall>s more rest. link (get s) \<longrightarrow> pending (bs @ more) rest (get s) \<longrightarrow> mget s = m \<longrightarrow>
     (\<exists>v. F s = Some (x, mput m' (put v s)) \<and> link v \<and> pending more rest v \<and> to_host v = to_host (get s) @ out))"

lemma does_return: "does (\<lambda>s. Some (x, s)) [] [] m x m"
  unfolding does_def
proof (intro allI impI)
  fix s more rest
  assume "link (get s)" "pending ([] @ more) rest (get s)" "mget s = m"
  then show "\<exists>v. Some (x, s) = Some (x, mput m (put v s)) \<and> link v \<and> pending more rest v \<and> to_host v = to_host (get s) @ []"
    by (intro exI [of _ "get s"]) (auto simp: mem_laws)
qed

lemma does_bind:
  assumes "does F bs out m x m1" "does (G x) bs' out' m1 y m2"
  shows "does (\<lambda>s. do { (x, s) \<leftarrow> F s; G x s }) (bs @ bs') (out @ out') m y m2"
  unfolding does_def
proof (intro allI impI)
  fix s more rest
  assume s: "link (get s)" "pending ((bs @ bs') @ more) rest (get s)" "mget s = m"
  obtain v where v: "F s = Some (x, mput m1 (put v s))" "link v" "pending (bs' @ more) rest v" "to_host v = to_host (get s) @ out"
    using assms(1) s unfolding does_def by (metis append.assoc)
  obtain w where w: "G x (mput m1 (put v s)) = Some (y, mput m2 (put w (mput m1 (put v s))))" "link w" "pending more rest w"
    "to_host w = to_host v @ out'"
    using assms(2) v(2,3) unfolding does_def by (metis mget_mput get_mput get_put)
  have "mput m2 (put w (mput m1 (put v s))) = mput m2 (put w s)" by (simp add: mem_laws)
  then show "\<exists>v. do { (x, s) \<leftarrow> F s; G x s } = Some (y, mput m2 (put v s)) \<and> link v \<and> pending more rest v \<and> to_host v = to_host (get s) @ out @ out'"
    using v w by auto
qed

lemma does_fetch:
  assumes "does (G b) bs out m x m'"
  shows "does (\<lambda>s. do { (v, s) \<leftarrow> FetchNextCommandByte io s; G v s }) (b # bs) out m x m'"
proof -
  have "does (FetchNextCommandByte io) [b] [] m b m"
    unfolding does_def
  proof (intro allI impI)
    fix s more rest
    assume s: "link (get s)" "pending ([b] @ more) rest (get s)" "mget s = m"
    then show "\<exists>v. FetchNextCommandByte io s = Some (b, mput m (put v s)) \<and> link v \<and> pending more rest v \<and> to_host v = to_host (get s) @ []"
      using fetch [of s b more rest] mput_get mget_put by (metis append_Cons append_Nil append_Nil2)
  qed
  from does_bind [OF this, of G, OF assms] show ?thesis by simp
qed

lemma does_respond:
  assumes "does G bs out m x m'"
  shows "does (\<lambda>s. do { s \<leftarrow> WriteNextResponseByte io r s; G s }) bs (r # out) m x m'"
proof -
  have "does (\<lambda>s. map_option (\<lambda>s. ((), s)) (WriteNextResponseByte io r s)) [] [r] m () m"
    unfolding does_def
  proof (intro allI impI)
    fix s more rest
    assume s: "link (get s)" "pending ([] @ more) rest (get s)" "mget s = m"
    then obtain v where "WriteNextResponseByte io r s = Some (put v s)" "link v" "pending more rest v" "to_host v = to_host (get s) @ [r]"
      using respond_byte [of s "[] @ more" rest r] by auto
    moreover have "put v s = mput m (put v s)" using s(3) mput_get [of "put v s"] by (simp add: mget_put)
    ultimately show "\<exists>v. map_option (\<lambda>s. ((), s)) (WriteNextResponseByte io r s) = Some ((), mput m (put v s)) \<and> link v \<and>
        pending more rest v \<and> to_host v = to_host (get s) @ [r]"
      by (intro exI [of _ v]) simp
  qed
  from does_bind [OF this, of "\<lambda>u s. G s"] assms
  have "does (\<lambda>s. do { (x, s) \<leftarrow> map_option (\<lambda>s. ((), s)) (WriteNextResponseByte io r s); G s }) bs (r # out) m x m'" by simp
  moreover have "do { (x, s) \<leftarrow> map_option (\<lambda>s. ((), s)) (WriteNextResponseByte io r s); G s } =
      do { s \<leftarrow> WriteNextResponseByte io r s; G s }" for s
    by (cases "WriteNextResponseByte io r s") simp_all
  ultimately show ?thesis by simp
qed

text \<open>A step on the memory only.\<close>

lemma does_memory:
  assumes "does G bs out m1 x m'" "\<And>s. mget s = m \<Longrightarrow> f s = mput m1 s"
  shows "does (\<lambda>s. G (f s)) bs out m x m'"
proof -
  have "does (\<lambda>s. Some ((), f s)) [] [] m () m1"
    unfolding does_def using assms(2) by (metis append_Nil append_Nil2 put_get)
  from does_bind [OF this, of "\<lambda>u s. G s"] assms(1) show ?thesis by simp
qed

end

text \<open>
  The block commands of the CDC bootloader: a page that is erased, filled from the host's bytes and written holds
  these bytes, and the block read answers with the memory.
\<close>

section \<open>The memory\<close>

fun fills :: "u32 \<Rightarrow> u8 list \<Rightarrow> spm \<Rightarrow> spm" where
  "fills a (x # y # bs) m = fills (a + 2) bs (spm_fill a (push_bit 8 (ucast y) OR ucast x) m)" |
  "fills a bs m = m"

fun reads :: "u32 \<Rightarrow> nat \<Rightarrow> spm \<Rightarrow> u8 list" where
  "reads a 0 m = []" |
  "reads a (Suc k) m = spm_read a m # spm_read (a + 1) m # reads (a + 2) k m"

lemma reads_nth: "length (reads a k m) = 2 * k \<and> (i < 2 * k \<longrightarrow> reads a k m ! i = spm_read (a + of_nat i) m)"
proof (induction k arbitrary: a i)
  case (Suc k)
  consider "i = 0" | "i = 1" | j where "i = Suc (Suc j)" by (metis One_nat_def not0_implies_Suc)
  then show ?case using Suc.IH [of "a + 2"] by cases (auto simp: algebra_simps)
qed simp

text \<open>The words of \<open>bs\<close> from word \<open>k\<close> of the page on.\<close>

lemma fills_buf:
  assumes "even (length bs)" "unat a mod 256 = 2 * k" "2 * k + length bs \<le> 256" "\<And>i. k \<le> i \<Longrightarrow> page_buf m i = None"
  shows "page_buf (fills a bs m) = (\<lambda>i. if k \<le> i \<and> i < k + length bs div 2
      then Some (push_bit 8 (ucast (bs ! (2 * (i - k) + 1))) OR ucast (bs ! (2 * (i - k)))) else page_buf m i) \<and>
    flash_mem (fills a bs m) = flash_mem m \<and> rww_busy (fills a bs m) = rww_busy m"
  using assms
proof (induction a bs m arbitrary: k rule: fills.induct)
  case (1 a x y bs m)
  let ?w = "push_bit 8 (ucast y) OR ucast x :: u16" and ?m = "spm_fill a (push_bit 8 (ucast y) OR ucast x) m"
  have i: "flash_addr a mod 256 = 2 * k" using 1(3) by (simp add: flash_addr_def mod_mod_cancel)
  have m: "?m = m\<lparr>page_buf := (page_buf m)(k := Some ?w)\<rparr>" using i 1(5) [of k] by (simp add: spm_fill_def)
  have "(unat a + 2) mod 256 = (2 * k + 2) mod 256" using 1(3) by (metis mod_add_left_eq)
  moreover have "unat (a + 2) mod 256 = (unat a + 2) mod 256" by (simp add: unat_word_ariths mod_mod_cancel)
  ultimately have a: "2 * k + 2 < 256 \<Longrightarrow> unat (a + 2) mod 256 = 2 * Suc k" by simp
  show ?case
  proof (cases bs)
    case Nil
    then show ?thesis by (auto simp: m fun_eq_iff)
  next
    case (Cons z zs)
    have IH: "page_buf (fills (a + 2) bs ?m) = (\<lambda>i. if Suc k \<le> i \<and> i < Suc k + length bs div 2
        then Some (push_bit 8 (ucast (bs ! (2 * (i - Suc k) + 1))) OR ucast (bs ! (2 * (i - Suc k)))) else page_buf ?m i) \<and>
      flash_mem (fills (a + 2) bs ?m) = flash_mem ?m \<and> rww_busy (fills (a + 2) bs ?m) = rww_busy ?m"
      by (rule "1.IH") (use 1 a Cons m in auto)
    have n: "(x # y # bs) ! (2 * (i - k) + 1) = bs ! (2 * (i - Suc k) + 1)" "(x # y # bs) ! (2 * (i - k)) = bs ! (2 * (i - Suc k))"
      if "Suc k \<le> i" for i
    proof -
      have "i - k = Suc (i - Suc k)" using that by simp
      then show "(x # y # bs) ! (2 * (i - k) + 1) = bs ! (2 * (i - Suc k) + 1)" "(x # y # bs) ! (2 * (i - k)) = bs ! (2 * (i - Suc k))"
        by (simp_all only:) simp_all
    qed
    show ?thesis
    proof (intro conjI ext)
      fix i
      show "page_buf (fills a (x # y # bs) m) i = (if k \<le> i \<and> i < k + length (x # y # bs) div 2
          then Some (push_bit 8 (ucast ((x # y # bs) ! (2 * (i - k) + 1))) OR ucast ((x # y # bs) ! (2 * (i - k)))) else page_buf m i)"
        using IH n [of i] by (cases "i = k") (auto simp: m)
    qed (use IH m in simp_all)
  qed
qed auto

text \<open>What a block write makes of the memory.\<close>

definition program_page :: "u32 \<Rightarrow> u8 list \<Rightarrow> spm \<Rightarrow> spm" where
  "program_page a bs m = spm_write a (fills a bs (spm_erase a m))"

lemma word_bytes: "ucast (push_bit 8 (ucast y) OR ucast x :: u16) = (x :: u8)" "ucast (drop_bit 8 (push_bit 8 (ucast y) OR ucast x :: u16)) = (y :: u8)"
  by (rule bit_word_eqI; auto simp: bit_simps dest: bit_imp_le_length)+

lemma programmed:
  assumes "even (length bs)" "unat a mod 256 = 0" "length bs \<le> 256" "blank m"
  shows "flash_mem (program_page a bs m) = (\<lambda>x. if \<not> same_page x (flash_addr a) then flash_mem m x
      else if x mod 256 < length bs then bs ! (x mod 256) else 0xFF)" "blank (program_page a bs m)"
proof -
  let ?m = "spm_erase a m"
  have "(0xFF :: u8) = - 1" by simp
  then have ones: "w AND 0xFF = w" for w :: u8 using and.right_neutral [of w] by metis
  have b: "page_buf (fills a bs ?m) = (\<lambda>i. if i < length bs div 2
      then Some (push_bit 8 (ucast (bs ! (2 * i + 1))) OR ucast (bs ! (2 * i))) else None)"
    "flash_mem (fills a bs ?m) = flash_mem ?m"
    using fills_buf [of bs a 0 ?m] assms by (auto simp: spm_erase_def blank_def)
  have byte: "buf_byte (page_buf (fills a bs ?m)) x = (if x mod 256 < length bs then bs ! (x mod 256) else 0xFF)" for x
  proof -
    have n: "x mod 256 div 2 < length bs div 2 \<longleftrightarrow> x mod 256 < length bs" using assms(1) by (auto elim!: evenE)
    have e: "even x \<longleftrightarrow> even (x mod 256)" by (simp add: dvd_mod_iff)
    have i: "even x \<Longrightarrow> 2 * (x mod 256 div 2) = x mod 256" "odd x \<Longrightarrow> 2 * (x mod 256 div 2) + 1 = x mod 256"
      unfolding e by simp_all
    show ?thesis
    proof (cases "x mod 256 < length bs")
      case True
      then have "page_buf (fills a bs ?m) (x mod 256 div 2) =
          Some (push_bit 8 (ucast (bs ! (2 * (x mod 256 div 2) + 1))) OR ucast (bs ! (2 * (x mod 256 div 2))))"
        unfolding b(1) n by (rule if_P)
      then show ?thesis unfolding buf_byte_def if_P [OF True] using i by (cases "even x") (simp_all only: option.case word_bytes if_True if_False not_False_eq_True simp_thms)
    next
      case False
      then have "page_buf (fills a bs ?m) (x mod 256 div 2) = None" unfolding b(1) n by (rule if_not_P)
      then show ?thesis unfolding buf_byte_def if_not_P [OF False] by (simp only: option.case)
    qed
  qed
  show "flash_mem (program_page a bs m) = (\<lambda>x. if \<not> same_page x (flash_addr a) then flash_mem m x
      else if x mod 256 < length bs then bs ! (x mod 256) else 0xFF)"
    by (rule ext) (simp add: program_page_def spm_write_def byte b(2), simp add: spm_erase_def and.commute [of "0xFF"] ones)
  show "blank (program_page a bs m)" by (simp add: program_page_def spm_write_def blank_def)
qed

section \<open>The blocks\<close>


lemma word16_unat: "unat (word16 x y) = unat x + 256 * unat y"
proof -
  have "ucast x AND push_bit 8 (ucast y) = (0 :: u16)"
    by (rule bit_word_eqI) (auto simp: bit_simps dest: bit_u8_bound)
  then have "word16 x y = ucast x + push_bit 8 (ucast y)" by (simp add: word16_def disjunctive_add_eq_or)
  moreover have "unat (push_bit 8 (ucast y :: u16)) = 256 * unat y" "unat (ucast x :: u16) = unat x"
    using u8_less [of x] u8_less [of y]
    by (simp_all add: push_bit_eq_mult unat_word_ariths unsigned_ucast_eq take_bit_nat_eq_self)
  ultimately show ?thesis using u8_less [of x] u8_less [of y] by (simp add: unat_word_ariths)
qed

definition block_size :: "u8 \<Rightarrow> u8 \<Rightarrow> nat" where
  "block_size hi lo = 256 * unat hi + unat lo"

lemma block_size: "unat (push_bit 8 (ucast hi) OR ucast lo :: u16) = block_size hi lo"
  using word16_unat [of lo hi] by (simp add: word16_def block_size_def or.commute)

lemma read_block_word: "read_block io b True (Suc (Suc n)) False d = (\<lambda>s. let (v, s) = pgm_read_byte_far b (CurrAddress d) s in
    do { s \<leftarrow> WriteNextResponseByte io v s; (let (v, s) = pgm_read_byte_far b (CurrAddress d OR 1) s
    in do { s \<leftarrow> WriteNextResponseByte io v s; read_block io b True n False (d\<lparr>CurrAddress := CurrAddress d + 2\<rparr>) s }) })"
proof -
  have "read_block io b True (Suc n) h d = (\<lambda>s. let (v, s) = pgm_read_byte_far b (CurrAddress d OR (if h then 1 else 0)) s in
    do { s \<leftarrow> WriteNextResponseByte io v s; read_block io b True n (\<not> h) (if h then d\<lparr>CurrAddress := CurrAddress d + 2\<rparr> else d) s })" for n h d
    by (rule ext) (simp add: Let_def)
  then show ?thesis by simp
qed

context boot_bus
begin

abbreviation B where "B \<equiv> spm_boot mget mput"

lemma does_cong: "does F' bs out m x m' \<Longrightarrow> (\<And>s. mget s = m \<Longrightarrow> F s = F' s) \<Longrightarrow> does F bs out m x m'"
  unfolding does_def by simp

lemma memory_steps:
  "mget s = m \<Longrightarrow> boot_page_fill B a w s = mput (spm_fill a w m) s"
  "mget s = m \<Longrightarrow> boot_spm_busy_wait B (boot_page_erase B a s) = mput (spm_erase a m) s"
  "mget s = m \<Longrightarrow> boot_spm_busy_wait B (boot_page_write B a s) = mput (spm_write a m) s"
  "mget s = m \<Longrightarrow> boot_rww_enable B s = mput (m\<lparr>rww_busy := False\<rparr>) s"
  "mget s = m \<Longrightarrow> pgm_read_byte_far B a s = (spm_read a m, s)"
  by (simp_all add: spm_boot_def)

lemma does_look: "does (G (spm_read a m)) bs out m x m' \<Longrightarrow> does (\<lambda>s. let (v, s) = pgm_read_byte_far B a s in G v s) bs out m x m'"
  by (erule does_cong) (simp add: memory_steps)

lemma does_write_block:
  "even (length bs) \<Longrightarrow> does (write_block io B True (length bs) False l d) bs [] m
     (d\<lparr>CurrAddress := CurrAddress d + of_nat (length bs)\<rparr>) (fills (CurrAddress d) bs m)"
proof (induction "CurrAddress d" bs m arbitrary: l d rule: fills.induct [case_names pair empty odd])
  case (pair x y bs m)
  let ?d = "d\<lparr>CurrAddress := CurrAddress d + 2\<rparr>" and ?w = "push_bit 8 (ucast y) OR ucast x :: u16"
  have "does (write_block io B True (length bs) False x ?d) bs [] (spm_fill (CurrAddress d) ?w m)
      (?d\<lparr>CurrAddress := CurrAddress ?d + of_nat (length bs)\<rparr>) (fills (CurrAddress ?d) bs (spm_fill (CurrAddress d) ?w m))"
    by (rule pair.hyps) (use pair in auto)
  from does_memory [OF this, of m "boot_page_fill B (CurrAddress d) ?w"]
  have "does (\<lambda>s. write_block io B True (length bs) False x ?d (boot_page_fill B (CurrAddress d) ?w s)) bs [] m
      (?d\<lparr>CurrAddress := CurrAddress ?d + of_nat (length bs)\<rparr>) (fills (CurrAddress ?d) bs (spm_fill (CurrAddress d) ?w m))"
    by (simp add: memory_steps)
  note does_fetch [of "\<lambda>v s. do { (u, s) \<leftarrow> FetchNextCommandByte io s; write_block io B True (length bs) False v ?d
      (boot_page_fill B (CurrAddress d) (push_bit 8 (ucast u) OR ucast v) s) }" x,
    OF does_fetch [of "\<lambda>v s. write_block io B True (length bs) False x ?d
      (boot_page_fill B (CurrAddress d) (push_bit 8 (ucast v) OR ucast x) s)" y, OF this]]
  moreover have "write_block io B True (length (x # y # bs)) False l d = (\<lambda>s. do { (v, s) \<leftarrow> FetchNextCommandByte io s;
      (u, s) \<leftarrow> FetchNextCommandByte io s;
      write_block io B True (length bs) False v ?d (boot_page_fill B (CurrAddress d) (push_bit 8 (ucast u) OR ucast v) s) })"
    by (rule ext) simp
  ultimately show ?case by (simp add: add.assoc)
next
  case (empty m)
  have "write_block io B True 0 False l d = (\<lambda>s. Some (d, s))" by (rule ext) simp
  then show ?case using does_return [of d m] by simp
next
  case (odd x m)
  then show ?case by simp
qed

lemma does_read_block:
  "even (CurrAddress d) \<Longrightarrow> does (read_block io B True (2 * k) False d) [] (reads (CurrAddress d) k m) m
     (d\<lparr>CurrAddress := CurrAddress d + of_nat (2 * k)\<rparr>) m"
proof (induction k arbitrary: d)
  case 0
  have "read_block io B True 0 False d = (\<lambda>s. Some (d, s))" by (rule ext) simp
  then show ?case using does_return [of d m] by simp
next
  case (Suc k)
  let ?d = "d\<lparr>CurrAddress := CurrAddress d + 2\<rparr>" and ?a = "CurrAddress d"
  have or: "?a OR 1 = ?a + 1" using Suc.prems by (simp add: or_one_eq)
  have "does (read_block io B True (2 * k) False ?d) [] (reads (CurrAddress ?d) k m) m
     (?d\<lparr>CurrAddress := CurrAddress ?d + of_nat (2 * k)\<rparr>) m"
    by (rule Suc.IH) (use Suc.prems in simp)
  from does_look [of "\<lambda>v s. do { s \<leftarrow> WriteNextResponseByte io v s; read_block io B True (2 * k) False ?d s }" "?a + 1", OF does_respond [OF this]]
  have "does (\<lambda>s. let (v, s) = pgm_read_byte_far B (?a OR 1) s in do { s \<leftarrow> WriteNextResponseByte io v s; read_block io B True (2 * k) False ?d s })
      [] (spm_read (?a + 1) m # reads (?a + 2) k m) m (d\<lparr>CurrAddress := ?a + of_nat (2 * Suc k)\<rparr>) m"
    unfolding or by (simp add: algebra_simps)
  from does_look [of "\<lambda>v s. do { s \<leftarrow> WriteNextResponseByte io v s; (let (v, s) = pgm_read_byte_far B (?a OR 1) s
      in do { s \<leftarrow> WriteNextResponseByte io v s; read_block io B True (2 * k) False ?d s }) }" ?a, OF does_respond [OF this]]
  have "does (\<lambda>s. let (v, s) = pgm_read_byte_far B ?a s in do { s \<leftarrow> WriteNextResponseByte io v s; (let (v, s) = pgm_read_byte_far B (?a OR 1) s
      in do { s \<leftarrow> WriteNextResponseByte io v s; read_block io B True (2 * k) False ?d s }) })
      [] (reads ?a (Suc k) m) m (d\<lparr>CurrAddress := ?a + of_nat (2 * Suc k)\<rparr>) m" by simp
  then show ?case using read_block_word [of io B "2 * k" d] by simp
qed

text \<open>The commands: set the address, write a block, read a block.\<close>

lemma does_address: "does (cdc_boot_command io B (ch CHR ''A'') d) [hi, lo] [0x0D] m
   (d\<lparr>CurrAddress := high_address hi OR low_address lo\<rparr>) m"
proof -
  have e: "cdc_boot_command io B (ch CHR ''A'') d = (\<lambda>s. do { (hi, s) \<leftarrow> FetchNextCommandByte io s; (lo, s) \<leftarrow> FetchNextCommandByte io s;
      s \<leftarrow> WriteNextResponseByte io 0x0D s; Some (d\<lparr>CurrAddress := high_address hi OR low_address lo\<rparr>, s) })"
    by (rule ext) (simp add: cdc_boot_command_def ch_def confirm_def [abs_def])
  show ?thesis unfolding e by (intro does_fetch does_respond does_return)
qed

text \<open>The block commands behind their three parameters.\<close>

definition block_part :: "u8 \<Rightarrow> nat \<Rightarrow> u8 \<Rightarrow> cdc_boot \<Rightarrow> 'h \<Rightarrow> (cdc_boot \<times> 'h) option" where
  "block_part C n t d s =
     (if t \<noteq> ch (CHR ''E'') \<and> t \<noteq> ch (CHR ''F'') then do { s \<leftarrow> WriteNextResponseByte io (ch (CHR ''?'')) s; Some (d, s) }
      else if C = ch (CHR ''g'') then read_block io B (t = ch (CHR ''F'')) n False d (boot_rww_enable B s)
      else do {
        (d', s) \<leftarrow> write_block io B (t = ch (CHR ''F'')) n False 0 d (if t = ch (CHR ''F'') then boot_spm_busy_wait B (boot_page_erase B (CurrAddress d) s) else s);
        s \<leftarrow> WriteNextResponseByte io 0x0D (if t = ch (CHR ''F'') then boot_spm_busy_wait B (boot_page_write B (CurrAddress d) s) else s);
        Some (d', s)
      })"

lemma block_part: "ReadWriteMemoryBlock io B C d s = do { (hi, s) \<leftarrow> FetchNextCommandByte io s; (lo, s) \<leftarrow> FetchNextCommandByte io s;
    (t, s) \<leftarrow> FetchNextCommandByte io s; block_part C (block_size hi lo) t d s }"
  unfolding ReadWriteMemoryBlock_def block_part_def Let_def block_size ..

lemma does_block_write:
  assumes "length bs = block_size hi lo" "even (length bs)"
  shows "does (cdc_boot_command io B (ch CHR ''B'') d) ([hi, lo, ch CHR ''F''] @ bs) [0x0D] m
    (d\<lparr>CurrAddress := CurrAddress d + of_nat (length bs)\<rparr>) (program_page (CurrAddress d) bs m)"
proof -
  let ?a = "CurrAddress d" and ?d = "d\<lparr>CurrAddress := CurrAddress d + of_nat (length bs)\<rparr>"
  have e: "cdc_boot_command io B (ch CHR ''B'') d = (\<lambda>s. ReadWriteMemoryBlock io B (ch CHR ''B'') d s)"
    by (rule ext) (simp add: cdc_boot_command_def ch_def)
  have "does (\<lambda>s. do { s \<leftarrow> WriteNextResponseByte io 0x0D s; Some (?d, s) }) [] [0x0D] (program_page ?a bs m) ?d (program_page ?a bs m)"
    by (intro does_respond does_return)
  from does_memory [OF this [unfolded program_page_def], of "fills ?a bs (spm_erase ?a m)" "\<lambda>s. boot_spm_busy_wait B (boot_page_write B ?a s)", OF memory_steps(3)]
  have c: "does (\<lambda>s. do { s \<leftarrow> WriteNextResponseByte io 0x0D (boot_spm_busy_wait B (boot_page_write B ?a s)); Some (?d, s) }) [] [0x0D]
      (fills ?a bs (spm_erase ?a m)) ?d (program_page ?a bs m)" by (simp add: program_page_def)
  note does_bind [OF does_write_block [OF assms(2)], of "\<lambda>d' s. do { s \<leftarrow> WriteNextResponseByte io 0x0D (boot_spm_busy_wait B (boot_page_write B ?a s)); Some (d', s) }",
      OF c]
  from does_memory [OF this, of m "\<lambda>s. boot_spm_busy_wait B (boot_page_erase B ?a s)", OF memory_steps(2)]
  have "does (\<lambda>s. do { (d', s) \<leftarrow> write_block io B True (length bs) False 0 d (boot_spm_busy_wait B (boot_page_erase B ?a s));
      s \<leftarrow> WriteNextResponseByte io 0x0D (boot_spm_busy_wait B (boot_page_write B ?a s)); Some (d', s) }) bs [0x0D] m ?d (program_page ?a bs m)"
    by simp
  moreover have "cdc_boot_command io B (ch CHR ''B'') d = (\<lambda>s. do { (hi, s) \<leftarrow> FetchNextCommandByte io s; (lo, s) \<leftarrow> FetchNextCommandByte io s;
      (t, s) \<leftarrow> FetchNextCommandByte io s; block_part (ch CHR ''B'') (block_size hi lo) t d s })"
    by (rule ext) (simp add: cdc_boot_command_def ch_def block_part)
  moreover have "block_part (ch CHR ''B'') (length bs) (ch CHR ''F'') d = (\<lambda>s. do { (d', s) \<leftarrow> write_block io B True (length bs) False 0 d
      (boot_spm_busy_wait B (boot_page_erase B ?a s)); s \<leftarrow> WriteNextResponseByte io 0x0D (boot_spm_busy_wait B (boot_page_write B ?a s)); Some (d', s) })"
    by (rule ext) (simp add: block_part_def ch_def)
  ultimately show ?thesis using assms(1) by (simp only: append.simps) (intro does_fetch, simp)
qed

lemma does_block_read:
  assumes "2 * k = block_size hi lo" "even (CurrAddress d)"
  shows "does (cdc_boot_command io B (ch CHR ''g'') d) [hi, lo, ch CHR ''F''] (reads (CurrAddress d) k (m\<lparr>rww_busy := False\<rparr>)) m
    (d\<lparr>CurrAddress := CurrAddress d + of_nat (2 * k)\<rparr>) (m\<lparr>rww_busy := False\<rparr>)"
proof -
  have "does (\<lambda>s. read_block io B True (2 * k) False d (boot_rww_enable B s)) [] (reads (CurrAddress d) k (m\<lparr>rww_busy := False\<rparr>)) m
    (d\<lparr>CurrAddress := CurrAddress d + of_nat (2 * k)\<rparr>) (m\<lparr>rww_busy := False\<rparr>)"
    by (rule does_memory [OF does_read_block [OF assms(2)] memory_steps(4)])
  moreover have "cdc_boot_command io B (ch CHR ''g'') d = (\<lambda>s. do { (hi, s) \<leftarrow> FetchNextCommandByte io s; (lo, s) \<leftarrow> FetchNextCommandByte io s;
      (t, s) \<leftarrow> FetchNextCommandByte io s; block_part (ch CHR ''g'') (block_size hi lo) t d s })"
    by (rule ext) (simp add: cdc_boot_command_def ch_def block_part)
  moreover have "block_part (ch CHR ''g'') (2 * k) (ch CHR ''F'') d = (\<lambda>s. read_block io B True (2 * k) False d (boot_rww_enable B s))"
    by (rule ext) (simp add: block_part_def ch_def)
  ultimately show ?thesis using assms(1) by (simp only:) (intro does_fetch, simp)
qed

end

end
