(* ===== verification/Boot_Props.thy ===== *)
theory Boot_Props
  imports Boot_Program
begin

text \<open>
  Rounds of the main loop of the CDC bootloader: waiting for a command, carrying it out, sending the answer; and a
  session that programs a page and reads it back.
\<close>

section \<open>Between two commands\<close>

text \<open>The packets of the host, of which the first is in the bank or on its way.\<close>

definition waiting :: "u8 list list \<Rightarrow> usb \<Rightarrow> bool" where
  "waiting ps u \<longleftrightarrow> dev_state u \<noteq> 0 \<and> 0 < ep_size u \<and> \<not> ep_in (ep u 2) \<and> ep_in (ep u 1) \<and> bank_ready (ep u 1) \<and> fifo (ep u 1) = [] \<and>
     (case ps of [] \<Rightarrow> \<not> bank (ep u 2) | p # ps \<Rightarrow> bank (ep u 2) \<and> fifo (ep u 2) = p \<and> queue (ep u 2) = ps)"

text \<open>Rounds of the main loop, in which \<open>USB_USBTask\<close> has nothing to do.\<close>

fun cdc_rounds :: "'h mmio \<Rightarrow> 'h boot \<Rightarrow> nat \<Rightarrow> cdc_boot \<Rightarrow> 'h \<Rightarrow> (cdc_boot \<times> 'h) option" where
  "cdc_rounds io b 0 d s = Some (d, s)" |
  "cdc_rounds io b (Suc n) d s = do { (d, s) \<leftarrow> cdc_boot_round io b (\<lambda>d s. Some (d, s)) d s; cdc_rounds io b n d s }"

lemma rounds_add: "cdc_rounds io b n d s = Some (d', s') \<Longrightarrow> cdc_rounds io b (n + k) d s = cdc_rounds io b k d' s'"
proof (induction n arbitrary: d s)
  case (Suc n)
  then show ?case by (auto split: bind_splits)
qed simp

text \<open>A page is read back as it was programmed.\<close>

lemma page_addr:
  assumes "unat (a :: u32) mod 256 = 0" "i < 256"
  shows "flash_addr (a + of_nat i) = flash_addr a + i" "flash_addr a mod 256 = 0"
proof -
  obtain q where q: "unat a = 256 * q" using assms(1) by (auto simp flip: dvd_eq_mod_eq_0)
  have "unat a < 2 ^ 32" using unsigned_less [of a] by simp
  then have "unat (a + of_nat i) = 256 * q + i" using q assms(2) by (simp add: unat_word_ariths unat_of_nat)
  moreover have m: "(256 * q + i) mod (256 * 512) = 256 * (q mod 512) + i" if "i < 256" for i
    using that by (subst mod_mult2_eq) simp
  ultimately show "flash_addr (a + of_nat i) = flash_addr a + i" "flash_addr a mod 256 = 0"
    using q assms(2) m [of 0] by (simp_all add: flash_addr_def)
qed

lemma read_back:
  assumes "even (length bs)" "unat a mod 256 = 0" "length bs \<le> 256" "blank m"
  shows "reads a (length bs div 2) ((program_page a bs m)\<lparr>rww_busy := False\<rparr>) = bs"
proof (rule nth_equalityI)
  let ?m = "(program_page a bs m)\<lparr>rww_busy := False\<rparr>"
  show "length (reads a (length bs div 2) ?m) = length bs" using assms(1) reads_nth [of a "length bs div 2" ?m] by simp
  fix i
  assume "i < length (reads a (length bs div 2) ?m)"
  then have i: "i < length bs" using assms(1) reads_nth [of a "length bs div 2" ?m] by simp
  then have "reads a (length bs div 2) ?m ! i = flash_mem (program_page a bs m) (flash_addr (a + of_nat i))"
    using assms(1) reads_nth [of a "length bs div 2" ?m i] by (simp add: spm_read_def)
  also have "\<dots> = bs ! i"
    using i assms(3) page_addr [OF assms(2), of i] unfolding programmed(1) [OF assms] same_page_def by auto
  finally show "reads a (length bs div 2) ?m ! i = bs ! i" .
qed

context boot_bus
begin

lemma finish:
  assumes "link (get s)" "pending [] rest (get s)"
  shows "\<exists>v. finish_command io s = Some (put v s) \<and> waiting rest v \<and> to_host v = to_host (get s)"
proof -
  let ?u = "(get s)\<lparr>uenum := 1\<rparr>"
  let ?w = "upd_cur (\<lambda>e. e\<lparr>delay := 0\<rparr>) (next_bank ?u)"
  let ?x = "upd_cur (\<lambda>e. e\<lparr>delay := 0\<rparr>) (next_bank ?w)"
  have l: "ep_in (ep (get s) 1)" "bank_ready (ep (get s) 1)" "dev_state (get s) \<noteq> 0" "0 < ep_size (get s)"
      "\<not> ep_in (ep (get s) 2)" "bank_ready (ep (get s) 2)"
    using assms(1) by (auto simp: link_def)
  obtain qs where "queue (ep (get s) 2) = qs @ rest" "fifo (ep (get s) 2) @ concat qs = []" "[] \<notin> set qs"
    using assms(2) by (auto simp: pending_def)
  then have q: "fifo (ep (get s) 2) = []" "queue (ep (get s) 2) = rest" by (cases qs; simp)+
  have cl: "Endpoint_ClearIN io (put u s) = put (next_bank u) s" "flag_wait io TXINI (put (next_bank u) s) = Some (True, put (upd_cur (\<lambda>e. e\<lparr>delay := 0\<rparr>) (next_bank u)) s)"
    if "uenum u = 1" "dev_state u \<noteq> 0" "ep_in (ep u 1)" "bank_ready (ep u 1)" for u
  proof -
    have c: "cur u = ep u 1" using that(1) by (simp add: cur_def)
    show "Endpoint_ClearIN io (put u s) = put (next_bank u) s"
      using clear_bank(2) [of "put u s"] that c by (simp add: get_put put_put)
    show "flag_wait io TXINI (put (next_bank u) s) = Some (True, put (upd_cur (\<lambda>e. e\<lparr>delay := 0\<rparr>) (next_bank u)) s)"
      using flag_back [of "put (next_bank u) s" TXINI] that c by (simp add: get_put put_put next_bank_def release_def bank_ready_def)
  qed
  have w: "ep ?w 1 = (ep (get s) 1)\<lparr>fifo := [], delay := 0, queue := queue (ep (get s) 1) @ [fifo (ep (get s) 1)]\<rparr>"
    "ep ?w 2 = ep (get s) 2" "uenum ?w = 1" "dev_state ?w = dev_state (get s)" "ep_size ?w = ep_size (get s)" "lat ?w = lat (get s)"
    using l by (simp_all add: next_bank_def upd_cur_def cur_def release_def)
  have x: "ep ?x 1 = (ep ?w 1)\<lparr>fifo := [], delay := 0, queue := queue (ep ?w 1) @ [[]]\<rparr>"
    "ep ?x 2 = ep (get s) 2" "uenum ?x = 1" "dev_state ?x = dev_state (get s)" "ep_size ?x = ep_size (get s)" "lat ?x = lat (get s)"
    using l by (simp_all add: next_bank_def upd_cur_def cur_def release_def)
  have last: "Endpoint_ClearOUT io (Endpoint_SelectEndpoint io 2 (put u s)) = put (next_bank (u\<lparr>uenum := 2\<rparr>)) s \<and>
      waiting rest (next_bank (u\<lparr>uenum := 2\<rparr>)) \<and> to_host (next_bank (u\<lparr>uenum := 2\<rparr>)) = to_host u"
    if u: "ep u 2 = ep (get s) 2" "ep_in (ep u 1)" "bank_ready (ep u 1)" "fifo (ep u 1) = []" "dev_state u = dev_state (get s)" "ep_size u = ep_size (get s)" for u
  proof -
    have "Endpoint_ClearOUT io (put (u\<lparr>uenum := 2\<rparr>) s) = put (next_bank (u\<lparr>uenum := 2\<rparr>)) s"
      using clear_bank(1) [of "put (u\<lparr>uenum := 2\<rparr>) s"] u(1) l by (simp add: get_put put_put)
    then show ?thesis
      using u l q by (auto simp: select get_put put_put waiting_def to_host_def next_bank_def upd_cur_def cur_def release_def bank_ready_def split: list.split)
  qed
  have a: "Endpoint_IsReadWriteAllowed io (put ?u s) = (length (fifo (ep (get s) 1)) < ep_size (get s), put ?u s)"
    using l by (simp add: rwa get_put put_put poll_ready)
  have hw: "to_host ?w = to_host (get s)" "to_host ?x = to_host (get s)" using w x by (simp_all add: to_host_def)
  have bw: "bank_ready (ep ?w 1)" "ep_in (ep ?w 1)" "bank_ready (ep ?x 1)" "ep_in (ep ?x 1)" "fifo (ep ?w 1) = []" "fifo (ep ?x 1) = []"
    using w x l by (simp_all add: bank_ready_def)
  note c1 = cl [of ?u] and c2 = cl [of ?w]
  have s1: "Endpoint_SelectEndpoint io 1 s = put ?u s" by (simp add: select)
  show ?thesis
  proof (cases "length (fifo (ep (get s) 1)) < ep_size (get s)")
    case True
    have "finish_command io s = Some (put (next_bank (?w\<lparr>uenum := 2\<rparr>)) s)"
      using a True c1 l last [of ?w] w bw unfolding finish_command_def s1 Let_def by simp
    then show ?thesis using last [of ?w] w bw hw by auto
  next
    case False
    have "finish_command io s = Some (put (next_bank (?x\<lparr>uenum := 2\<rparr>)) s)"
      using a False c1 c2 l last [of ?x] w x bw unfolding finish_command_def s1 Let_def by simp
    then show ?thesis using last [of ?x] x bw hw by auto
  qed
qed

lemma task:
  assumes "does (cdc_boot_command io B c d) bs out m d' m'" "link (get s)" "pending (c # bs) rest (get s)" "mget s = m"
  shows "\<exists>v. CDC_Task io B d s = Some (d', mput m' (put v s)) \<and> waiting rest v \<and> to_host v = to_host (get s) @ out"
proof -
  let ?u = "(get s)\<lparr>uenum := 2\<rparr>"
  have r: "Endpoint_IsOUTReceived io (Endpoint_SelectEndpoint io 2 s) = (True, put ?u s)"
    using assms(2) by (simp add: select out_received get_put put_put link_def poll_ready)
  have "link (get (put ?u s))" "pending (c # bs @ []) rest (get (put ?u s))" "mget (put ?u s) = m"
    using assms(2-4) by (simp_all add: mem_laws) (simp_all add: link_def pending_def)
  then obtain v where v: "do { (c, s) \<leftarrow> FetchNextCommandByte io (put ?u s); cdc_boot_command io B c d s } = Some (d', mput m' (put v (put ?u s)))"
    "link v" "pending [] rest v" "to_host v = to_host (get (put ?u s)) @ out"
    using does_fetch [of "\<lambda>c s. cdc_boot_command io B c d s" c, OF assms(1)] unfolding does_def by (metis append_Cons)
  from finish [of "mput m' (put v s)" rest] v(2,3) obtain w where w: "finish_command io (mput m' (put v s)) = Some (mput m' (put w s))"
    "waiting rest w" "to_host w = to_host v" by (auto simp: mem_laws)
  obtain t where t: "FetchNextCommandByte io (put ?u s) = Some t" using v(1) by (cases "FetchNextCommandByte io (put ?u s)") auto
  have "CDC_Task io B d s = Some (d', mput m' (put w s))"
    using v(1) w(1) t unfolding CDC_Task_def r by (cases t) (simp add: mem_laws)
  moreover have "to_host w = to_host (get s) @ out" using v(4) w(3) by (simp add: mem_laws) (simp add: to_host_def)
  ultimately show ?thesis using w(2) by blast
qed

text \<open>Rounds until the first packet of a command has arrived, and the round that serves the command.\<close>

lemma command_served:
  assumes "does (cdc_boot_command io B c d) bs out m d' m'" "waiting (ps @ rest) (get s)" "concat ps = c # bs" "[] \<notin> set ps"
    "mget s = m" "cdc_boot.RunBootloader d"
  shows "\<exists>n v. cdc_rounds io B n d s = Some (d', mput m' (put v s)) \<and> waiting rest v \<and> to_host v = to_host (get s) @ out"
  using assms(2,5)
proof (induction "delay (ep (get s) 2)" arbitrary: s)
  case 0
  obtain p qs where p: "ps = p # qs" using assms(3) by (cases ps) auto
  then have "link (get s)" "pending (c # bs) rest (get s)"
    using 0 assms(3,4) by (auto simp: waiting_def link_def pending_def bank_ready_def)
  from task [OF assms(1) this 0(3)] obtain v where v: "CDC_Task io B d s = Some (d', mput m' (put v s))" "waiting rest v" "to_host v = to_host (get s) @ out"
    by blast
  have "cdc_rounds io B 1 d s = Some (d', mput m' (put v s))" using v(1) assms(6) by (simp add: cdc_boot_round_def)
  then show ?case using v by blast
next
  case (Suc k)
  let ?u = "(get s)\<lparr>uenum := 2\<rparr>"
  have w: "waiting (ps @ rest) (poll ?u)" "to_host (poll ?u) = to_host (get s)" "delay (ep (poll ?u) 2) = k" "\<not> ep_in (ep (get s) 2)"
    using Suc.prems(1) Suc.hyps(2) by (auto simp: waiting_def to_host_def poll_def upd_cur_def cur_def split: list.splits)
  have "\<not> bank_ready (ep (get s) 2)" using Suc.hyps(2) by (simp add: bank_ready_def)
  then have "CDC_Task io B d s = Some (d, put (poll ?u) s)"
    using w(4) by (simp add: CDC_Task_def select out_received get_put put_put)
  then have r: "cdc_rounds io B (1 + n) d s = cdc_rounds io B n d (put (poll ?u) s)" for n
    using assms(6) by (subst rounds_add) (simp_all add: cdc_boot_round_def)
  obtain n v where "cdc_rounds io B n d (put (poll ?u) s) = Some (d', mput m' (put v s))" "waiting rest v" "to_host v = to_host (get s) @ out"
    using Suc.hyps(1) [of "put (poll ?u) s"] w Suc.prems(2) by (auto simp: mem_laws)
  then show ?case using r [of n] by metis
qed

text \<open>The address, the block, the address again, and the block read.\<close>

lemma program_and_read:
  assumes "waiting (ps1 @ ps2 @ ps3 @ ps4) (get s)" "[] \<notin> set (ps1 @ ps2 @ ps3 @ ps4)"
    "concat ps1 = [ch CHR ''A'', hi, lo]" "concat ps2 = [ch CHR ''B'', n1, n0, ch CHR ''F''] @ data"
    "concat ps3 = [ch CHR ''A'', hi, lo]" "concat ps4 = [ch CHR ''g'', n1, n0, ch CHR ''F'']"
    "length data = block_size n1 n0" "even (length data)" "length data \<le> 256" "cdc_boot.RunBootloader d"
    "a = high_address hi OR low_address lo" "unat a mod 256 = 0" "blank (mget s)" "m = program_page a data (mget s)"
  shows "\<exists>n d' v. cdc_rounds io B n d s = Some (d', mput (m\<lparr>rww_busy := False\<rparr>) (put v s)) \<and>
    to_host v = to_host (get s) @ [0x0D, 0x0D, 0x0D] @ data"
proof -
  let ?B = "cdc_rounds io B" and ?k = "length data div 2"
  let ?d1 = "d\<lparr>CurrAddress := a\<rparr>" and ?d2 = "d\<lparr>CurrAddress := a + of_nat (length data)\<rparr>"
  have k: "2 * ?k = block_size n1 n0" using assms(7,8) by simp
  have "even (unat a)" using assms(12) by (metis dvd_mod_iff even_numeral even_zero)
  moreover have "bit (unat a) 0 = bit a 0" by (simp only: bit_unsigned_iff possible_bit_nat simp_thms)
  ultimately have ev: "even a" by (simp add: bit_0)
  note split = assms(2) [unfolded set_append]
  obtain i1 v1 where 1: "?B i1 d s = Some (?d1, mput (mget s) (put v1 s))" "waiting (ps2 @ ps3 @ ps4) v1" "to_host v1 = to_host (get s) @ [0x0D]"
    using command_served [OF does_address [of d hi lo "mget s"] assms(1,3) _ refl assms(10)] assms(2,11) by auto
  let ?s1 = "mput (mget s) (put v1 s)"
  obtain i2 v2 where 2: "?B i2 ?d1 ?s1 = Some (?d2, mput m (put v2 ?s1))" "waiting (ps3 @ ps4) v2" "to_host v2 = to_host v1 @ [0x0D]"
    using command_served [OF does_block_write [OF assms(7,8), of ?d1 "mget s"], of ps2 "ps3 @ ps4" ?s1] 1(2) assms(2,4,10,14)
    by (auto simp: mem_laws)
  let ?s2 = "mput m (put v2 ?s1)"
  obtain i3 v3 where 3: "?B i3 ?d2 ?s2 = Some (?d1, mput m (put v3 ?s2))" "waiting ps4 v3" "to_host v3 = to_host v2 @ [0x0D]"
    using command_served [OF does_address [of ?d2 hi lo m], of ps3 ps4 ?s2] 2(2) assms(2,5,10,11) by (auto simp: mem_laws)
  let ?s3 = "mput m (put v3 ?s2)" and ?m = "m\<lparr>rww_busy := False\<rparr>"
  obtain i4 v4 where 4: "?B i4 ?d1 ?s3 = Some (?d2, mput ?m (put v4 ?s3))" "to_host v4 = to_host v3 @ reads a ?k ?m"
    using command_served [OF does_block_read [OF k, of ?d1 m], of ps4 "[]" ?s3] 3(2) assms(2,6,8,10) ev by (auto simp: mem_laws)
  have "reads a ?k ?m = data" unfolding assms(14) by (rule read_back) (use assms in simp_all)
  moreover have "?B (i1 + (i2 + (i3 + i4))) d s = Some (?d2, mput ?m (put v4 ?s3))"
    unfolding rounds_add [OF 1(1)] rounds_add [OF 2(1)] rounds_add [OF 3(1)] by (rule 4(1))
  moreover have "mput ?m (put v4 ?s3) = mput ?m (put v4 s)" by (simp add: mem_laws)
  ultimately show ?thesis using 1(3) 2(3) 3(3) 4(2) by (metis append.assoc append_Cons append_Nil)
qed

end

text \<open>
  The session on a machine of endpoints and program memory, and the addresses the CDC bootloader
  can reach.
\<close>

section \<open>Addresses\<close>

text \<open>The address the host means: words of two bytes.\<close>

definition meant :: "u8 \<Rightarrow> u8 \<Rightarrow> u32" where
  "meant hi lo = push_bit 9 (ucast hi) OR push_bit 1 (ucast lo)"

lemma meant_unat: "unat (meant hi lo) = 512 * unat hi + 2 * unat lo"
proof -
  have "push_bit 9 (ucast hi) AND push_bit 1 (ucast lo) = (0 :: u32)"
    by (rule bit_word_eqI, unfold bit_simps) (auto simp: possible_bit_def dest: bit_u8_bound)
  then have "meant hi lo = push_bit 9 (ucast hi) + push_bit 1 (ucast lo)" by (simp add: meant_def disjunctive_add_eq_or)
  moreover have "unat (push_bit 9 (ucast hi :: u32)) = 512 * unat hi" "unat (push_bit 1 (ucast lo :: u32)) = 2 * unat lo"
    using u8_less [of hi] u8_less [of lo]
    by (simp_all add: push_bit_eq_mult unat_word_ariths unsigned_ucast_eq take_bit_nat_eq_self)
  ultimately show ?thesis using u8_less [of hi] u8_less [of lo] by (simp add: unat_word_ariths)
qed

lemma flash_addr_bits: "flash_addr a = unat (take_bit 17 a)"
proof -
  have "unat (take_bit 17 a) = take_bit 17 (unat a)" by (rule bit_eqI) (simp add: bit_simps)
  then show ?thesis by (simp add: flash_addr_def take_bit_eq_mod)
qed

lemma bit_address:
  "bit (high_address hi OR low_address lo) n \<longleftrightarrow> n < 32 \<and> (if n < 15 then 9 \<le> n \<and> bit hi (n - 9) \<or> 1 \<le> n \<and> bit lo (n - 1) else bit hi 6)"
  unfolding high_address_def low_address_def bit_simps by (auto simp: possible_bit_def min_def dest: bit_u8_bound)

lemma bit_meant: "bit (meant hi lo) n \<longleftrightarrow> 9 \<le> n \<and> bit hi (n - 9) \<or> 1 \<le> n \<and> bit lo (n - 1)"
  unfolding meant_def bit_simps by (auto simp: possible_bit_def dest: bit_u8_bound)

lemma low_address_exact:
  assumes "hi < 0x40"
  shows "high_address hi OR low_address lo = meant hi lo"
proof (rule bit_word_eqI)
  fix n
  have "\<not> bit hi k" if "6 \<le> k" for k
  proof
    assume b: "bit hi k"
    have "unat hi < 2 ^ 6" using assms by (simp add: word_less_nat_alt)
    then have "take_bit 6 (unat hi) = unat hi" by (simp add: take_bit_nat_eq_self)
    moreover have "bit (unat hi) k" using b by (simp add: bit_simps)
    ultimately show False using that by (metis bit_take_bit_iff not_less)
  qed
  then show "bit (high_address hi OR low_address lo) n = bit (meant hi lo) n"
    unfolding bit_address bit_meant by (auto dest: bit_u8_bound)
qed

text \<open>
  The address command.  The bytes \<open>hi\<close> and \<open>lo\<close> of the command select the word they name in program
  memory just if the two high bits of \<open>hi\<close> agree: the product of \<open>hi\<close> and 512 is computed with 16 bits and
  extended with its sign, so that of the four 32 KiB quarters of the memory the second and the third are not reached.
\<close>

theorem address_reached:
  "flash_addr (high_address hi OR low_address lo) = 512 * unat hi + 2 * unat lo \<longleftrightarrow> bit hi 6 = bit hi 7"
proof -
  have "512 * unat hi + 2 * unat lo = flash_addr (meant hi lo)"
    using u8_less [of hi] u8_less [of lo] by (simp add: flash_addr_def meant_unat)
  then have "flash_addr (high_address hi OR low_address lo) = 512 * unat hi + 2 * unat lo \<longleftrightarrow>
      take_bit 17 (high_address hi OR low_address lo) = take_bit 17 (meant hi lo)"
    unfolding flash_addr_bits by (simp only: word_unat_eq_iff)
  also have "\<dots> \<longleftrightarrow> bit hi 6 = bit hi 7"
  proof
    assume "take_bit 17 (high_address hi OR low_address lo) = take_bit 17 (meant hi lo)"
    then have "bit (take_bit 17 (high_address hi OR low_address lo)) 16 = bit (take_bit 17 (meant hi lo)) 16" by simp
    then show "bit hi 6 = bit hi 7" unfolding bit_take_bit_iff bit_address bit_meant by (auto dest: bit_u8_bound)
  next
    assume b: "bit hi 6 = bit hi 7"
    show "take_bit 17 (high_address hi OR low_address lo) = take_bit 17 (meant hi lo)"
    proof (rule bit_word_eqI)
      fix n :: nat
      consider "n < 15" | "n = 15" | "n = 16" | "17 \<le> n" by linarith
      then show "bit (take_bit 17 (high_address hi OR low_address lo)) n = bit (take_bit 17 (meant hi lo)) n"
        using b unfolding bit_take_bit_iff bit_address bit_meant by cases (auto dest: bit_u8_bound)
    qed
  qed
  finally show ?thesis .
qed

section \<open>The machine\<close>

record pboard =
  pusb :: usb
  pmem :: spm
  pgpio :: "reg \<Rightarrow> u8"

definition pio :: "pboard mmio" where
  "pio =
     \<lparr>io_rd = (\<lambda>r s. if r \<in> dev_regs \<or> r \<in> bulk_regs \<and> uenum (pusb s) \<noteq> 0
         then (fst (usb_rd r (pusb s)), s\<lparr>pusb := snd (usb_rd r (pusb s))\<rparr>) else (pgpio s r, s)),
      io_wr = (\<lambda>r v s. if r \<in> dev_regs \<or> r \<in> bulk_regs \<and> uenum (pusb s) \<noteq> 0
         then s\<lparr>pusb := usb_wr r v (pusb s)\<rparr> else s\<lparr>pgpio := (pgpio s)(r := v)\<rparr>)\<rparr>"

definition pboot :: "pboard boot" where
  "pboot = spm_boot pmem (\<lambda>m s. s\<lparr>pmem := m\<rparr>)"

interpretation bb: boot_bus pio pusb "\<lambda>u s. s\<lparr>pusb := u\<rparr>" pmem "\<lambda>m s. s\<lparr>pmem := m\<rparr>"
  by unfold_locales (simp_all add: pio_def)

text \<open>
  C17. Programming a page.  From an empty page buffer, the host sends, cut into nonempty packets in whatever way, the address of a page in the lower
  32 KiB, a block of an even number of bytes, the address again, and the command to read the block.  After some
  rounds of the main loop it has received three confirmations and the bytes it sent, the page of program memory
  holds these bytes, its rest is erased, and the other pages are as they were.
\<close>

theorem page_programmed_and_read:
  assumes "waiting (ps1 @ ps2 @ ps3 @ ps4) (pusb s)" "[] \<notin> set (ps1 @ ps2 @ ps3 @ ps4)"
    "concat ps1 = [ch CHR ''A'', hi, lo]" "concat ps2 = [ch CHR ''B'', n1, n0, ch CHR ''F''] @ data"
    "concat ps3 = [ch CHR ''A'', hi, lo]" "concat ps4 = [ch CHR ''g'', n1, n0, ch CHR ''F'']"
    "length data = 256 * unat n1 + unat n0" "even (length data)" "length data \<le> 256" "cdc_boot.RunBootloader d"
    "hi < 0x40" "base = 512 * unat hi + 2 * unat lo" "base mod 256 = 0" "blank (pmem s)"
  shows "\<exists>n d' s'. cdc_rounds pio pboot n d s = Some (d', s') \<and> to_host (pusb s') = to_host (pusb s) @ [0x0D, 0x0D, 0x0D] @ data \<and>
    flash_mem (pmem s') = (\<lambda>x. if x div 256 \<noteq> base div 256 then flash_mem (pmem s) x
      else if x mod 256 < length data then data ! (x mod 256) else 0xFF)"
proof -
  let ?a = "high_address hi OR low_address lo"
  have a: "unat ?a = base" using low_address_exact [OF assms(11)] meant_unat assms(12) by simp
  have "base < 0x20000" using u8_less [of hi] u8_less [of lo] assms(12) by simp
  then have fa: "flash_addr ?a = base" using a by (simp add: flash_addr_def)
  note p = programmed(1) [OF assms(8) _ assms(9,14), of ?a, unfolded a fa same_page_def, OF assms(13)]
  obtain n d' v where "cdc_rounds pio pboot n d s = Some (d', s\<lparr>pusb := v, pmem := (program_page ?a data (pmem s))\<lparr>rww_busy := False\<rparr>\<rparr>)"
    "to_host v = to_host (pusb s) @ [0x0D, 0x0D, 0x0D] @ data"
    using bb.program_and_read [OF assms(1-6) _ assms(8-10) refl _ assms(14) refl] assms(7,13) a by (auto simp: block_size_def pboot_def)
  then show ?thesis by (intro exI conjI) (assumption, simp, simp add: p)
qed

theorem page_programmed_and_read_witness:
  "\<exists>n d' s' s. cdc_rounds pio pboot n cdc_boot_start s = Some (d', s') \<and>
     to_host (pusb s') = [0x0D, 0x0D, 0x0D, 0x12, 0x34] \<and>
     flash_mem (pmem s') 256 = 0x12 \<and> flash_mem (pmem s') 257 = 0x34 \<and> flash_mem (pmem s') 258 = 0xFF \<and> flash_mem (pmem s') 512 = 0"
proof -
  let ?A = "[ch CHR ''A'', 0, 0x80]" and ?w = "[[ch CHR ''B'', 0, 2], [ch CHR ''F'', 0x12, 0x34]]" and ?r = "[[ch CHR ''g'', 0, 2, ch CHR ''F'']]"
  let ?rx = "\<lparr>ep_in = False, fifo = ?A, bank = True, delay = 3, queue = ?w @ [?A] @ ?r, stalled = False\<rparr>"
  let ?tx = "\<lparr>ep_in = True, fifo = [], bank = True, delay = 0, queue = [], stalled = False\<rparr>"
  let ?u = "\<lparr>uenum = 0, ep = (\<lambda>n. if n = 2 then ?rx else ?tx), lat = 5, ep_size = 16, dev_state = 4, ms_reset = False, sof_cnt = 0, sof_gap = 0\<rparr>"
  let ?m = "\<lparr>flash_mem = (\<lambda>x. 0), page_buf = (\<lambda>i. None), rww_busy = False, eeprom = (\<lambda>a. 0), lock_bits = 0, fuse_bits = (\<lambda>i. 0)\<rparr>"
  let ?s = "\<lparr>pusb = ?u, pmem = ?m, pgpio = (\<lambda>r. 0)\<rparr>"
  have w: "waiting ([?A] @ ?w @ [?A] @ ?r) (pusb ?s)" by (simp add: waiting_def bank_ready_def)
  have h: "blank (pmem ?s)" "to_host (pusb ?s) = []" "cdc_boot.RunBootloader cdc_boot_start"
    by (simp_all add: blank_def to_host_def cdc_boot_start_def)
  have "\<exists>n d' s'. cdc_rounds pio pboot n cdc_boot_start ?s = Some (d', s') \<and>
      to_host (pusb s') = to_host (pusb ?s) @ [0x0D, 0x0D, 0x0D] @ [0x12, 0x34] \<and>
      flash_mem (pmem s') = (\<lambda>x. if x div 256 \<noteq> 256 div 256 then flash_mem (pmem ?s) x
        else if x mod 256 < length [0x12 :: u8, 0x34] then [0x12, 0x34] ! (x mod 256) else 0xFF)"
    by (rule page_programmed_and_read [OF w, of 0 "0x80" 0 2 "[0x12, 0x34]" cdc_boot_start 256, OF _ _ _ _ _ _ _ _ h(3) _ _ _ h(1)]) simp_all
  then obtain n d' s' where r: "cdc_rounds pio pboot n cdc_boot_start ?s = Some (d', s')"
    "to_host (pusb s') = to_host (pusb ?s) @ [0x0D, 0x0D, 0x0D] @ [0x12, 0x34]"
    "flash_mem (pmem s') = (\<lambda>x. if x div 256 \<noteq> 256 div 256 then flash_mem (pmem ?s) x
        else if x mod 256 < length [0x12 :: u8, 0x34] then [0x12, 0x34] ! (x mod 256) else 0xFF)" by blast
  have "flash_mem (pmem s') 256 = 0x12" "flash_mem (pmem s') 257 = 0x34" "flash_mem (pmem s') 258 = 0xFF" "flash_mem (pmem s') 512 = 0"
    unfolding r(3) by simp_all
  then show ?thesis using r(1,2) h(2) by (metis append_Nil append_Cons)
qed

end
