(* ===== verification/Spec2Isabelle.thy ===== *)
theory Spec2Isabelle
  imports Sreg_Tests Scsi_Props Control_Props Cdc_Props Rndis_Props Midi_Props Audio_Props Hid_Props Config_Descriptor Scheduler Host_Task Disk_Link Cdc_Host Hid_Host Midi_Host Printer_Host Rndis_Host Still_Image_Host Serial_Link Net_Invariant Net_Dhcp Boot_Props
begin

text \<open>
  Verification library for the quickdev2 repository: a development cartridge whose CPLD sits between
  an AVR microcontroller and an SRAM, the AVR firmware, and the LUFA USB library the firmware is
  built on.  Paths below are those of the repository; \<open>LUFA\<close> is \<open>tools/lufa20100219/LUFA\<close>.

  \<^bold>\<open>The program.\<close>  There are two firmware images.  \<open>poc/poc_sreg\<close> drives the CPLD over three ports:
  it shifts a 21-bit address into the CPLD serially, reads and writes single bytes and bursts of the
  SRAM behind it, and runs test patterns whose reports go out over an interrupt-driven UART.
  \<open>poc/MassStorage\<close> is a USB mass storage device: the main loop alternates between the class task,
  which serves one SCSI command at a time from the bulk endpoints with the two dataflash chips on the
  SPI bus as its medium, and the control task, which serves requests on endpoint 0.  Beside the two
  images the library models parts of LUFA they do not use: the CDC, HID, RNDIS, MIDI and Audio
  class drivers for devices, the host mode with its seven class drivers, the network demo (a TCP/IP stack with a
  web server on top of the RNDIS driver), the three USB bootloaders,
  the HID report parser, the configuration descriptor search and the task scheduler.

  \<^bold>\<open>Hardware and software.\<close>  Firmware code is translated against volatile register accesses only
  (theory \<open>Mmio\<close>: two functions that read and write a register in a state of any type), so every
  definition in the map is a translation of the code and holds for any hardware.  What the hardware
  does is a separate state machine per device, used as a hypothesis-free instance (\<open>Board\<close>) or as the
  \<open>assumes\<close> of a locale: the CPLD is itself translated from the Verilog under \<open>cpld/hdl\<close>; the
  dataflash chips, the USB controller with its host, and the SRAM chip are the documented behaviour
  the code relies on.  Interrupts of the UART are interleaved with the main program as a step relation.

  \<^bold>\<open>Theories and the code they model.\<close>
  \<^item> \<open>Prelude\<close>: machine integers, the collection \<open>hw_simps\<close>, lemmas on lists, bits and loops.
  \<^item> \<open>Cpld\<close>: \<open>clockdivide.v\<close>, \<open>sreg.v\<close>, \<open>bus.v\<close>, \<open>system.v\<close> as clocked state machines, and the SRAM chip.
  \<^item> \<open>Uart\<close>: \<open>uart.c\<close>: the two rings between main program and interrupts (locale \<open>ring\<close>, interpreted on
    both), and all interleavings as the relation \<open>uart_step\<close>.
  \<^item> \<open>Sreg_Poc\<close>: \<open>poc_sreg/main.c\<close>, every function; \<open>Sreg_Proofs\<close>, \<open>Sreg_Burst\<close>, \<open>Sreg_Tests\<close>: the
    firmware on the CPLD, from one CPU cycle to the whole test loops.
  \<^item> \<open>Mmio\<close>, \<open>Bytes\<close>: register access; \<open>LUFA/Common/Common.h\<close> and bytes of C objects in memory.
  \<^item> \<open>Dataflash\<close>: \<open>SPI.h\<close> and \<open>Dataflash.h\<close>; \<open>DataflashManager\<close>: \<open>Lib/DataflashManager.c\<close>; \<open>At45\<close>: the
    AT45DB642D chips and the locale \<open>flash_bus\<close> of a bus that carries them; \<open>Flash_Read\<close>,
    \<open>Flash_Write\<close>: the drivers on the chips, with the invariant of a write in progress.
  \<^item> \<open>Endpoint\<close>: \<open>LowLevel/Endpoint.h\<close>, \<open>Endpoint.c\<close> and the stream templates; \<open>Usb_Bulk\<close>,
    \<open>Usb_Control\<close>: controller and host on the bulk and the control endpoint (locales \<open>usb_bus\<close>,
    \<open>ctl_bus\<close>); \<open>Ms_Transfer\<close>: block transfers between host and chips (locale \<open>ms_bus\<close>).
  \<^item> \<open>Scsi\<close>: \<open>Lib/SCSI.c\<close>; \<open>Ms_Device\<close>: \<open>Class/Device/MassStorage.c\<close> with the application's
    callbacks; \<open>Descriptors\<close>: \<open>Descriptors.c\<close>; \<open>Chapter9\<close>: \<open>DevChapter9.c\<close>, \<open>USBTask.c\<close>,
    \<open>USBInterrupt.c\<close>, \<open>LowLevel.c\<close> and \<open>MassStorage.c\<close> of the application.
  \<^item> \<open>Board\<close>: the machine that interprets all four locales; \<open>Ms_Command\<close>, \<open>Ms_Props\<close>, \<open>Scsi_Props\<close>,
    \<open>Control_Props\<close>: whole commands and control transfers on it.
  \<^item> \<open>Hid_Parser\<close>, \<open>Hid_Props\<close>: \<open>Class/Host/HIDParser.c\<close>; \<open>Config_Descriptor\<close>:
    \<open>HighLevel/ConfigDescriptor.c\<close>; \<open>Scheduler\<close>: \<open>Scheduler/Scheduler.c\<close>.
  \<^item> \<open>Cdc_Device\<close>, \<open>Hid_Device\<close>: the class drivers \<open>Class/Device/CDC.c\<close> and \<open>HID.c\<close> over the same endpoint
    code; \<open>Cdc_Props\<close>, \<open>Hid_Device_Props\<close>: both on the board.
  \<^item> \<open>Rndis_Device\<close>: the network adapter \<open>Class/Device/RNDIS.c\<close>, whose state is the bytes of its
    structure; \<open>Rndis_Props\<close>: its messages and frames.
  \<^item> \<open>Midi_Device\<close>, \<open>Audio_Device\<close>: \<open>Class/Device/MIDI.c\<close>, \<open>Audio.c\<close> and \<open>Audio.h\<close>; \<open>Midi_Props\<close>,
    \<open>Audio_Props\<close>: events, samples and the streaming interface.
  \<^item> \<open>Pipe\<close>: \<open>LowLevel/Pipe.h\<close>, \<open>Pipe.c\<close>; \<open>Host_Control\<close>: \<open>Host.h\<close>, \<open>HostChapter9.c\<close> and the host part of
    \<open>USBInterrupt.h\<close>; \<open>Host_Task\<close>: \<open>Host.c\<close>, the host interrupts and the start of the interface; \<open>Ms_Host\<close>:
    \<open>Class/Host/MassStorage.c\<close>.  \<open>Host_Bus\<close>: the host controller with any device behind the bus (locale
    \<open>pipe_bus\<close>); \<open>Host_Ms\<close>: whole commands in that locale; \<open>Link\<close>: the machine that interprets it, and it with the
    mass storage device of \<open>Board\<close> as the device; \<open>Disk_Link\<close>: reading and writing from end to end.
  \<^item> \<open>Class_Common\<close>: constants of \<open>Class/Common\<close>.  \<open>Host_Class\<close>: what the drivers under \<open>Class/Host\<close> have in common;
    \<open>Cdc_Host\<close>, \<open>Hid_Host\<close>, \<open>Midi_Host\<close>, \<open>Printer_Host\<close>, \<open>Rndis_Host\<close>, \<open>Still_Image_Host\<close>: \<open>CDC.c\<close>, \<open>HID.c\<close>,
    \<open>MIDI.c\<close>, \<open>Printer.c\<close>, \<open>RNDIS.c\<close> and \<open>StillImage.c\<close> there.
  \<^item> \<open>Serial_Host\<close>: the host's virtual serial port in the locale \<open>pipe_bus\<close>; \<open>Serial_Link\<close>: a serial line from
    end to end, with the host's driver, the bus and the device's driver on the board.
  \<^item> The network demo \<open>tools/lufa20100219/Demos/Device/ClassDriver/RNDISEthernet\<close>, whose frames are in the state of
    the driver of \<open>Rndis_Device\<close>: \<open>Net_Frame\<close>: \<open>EthernetProtocols.h\<close>, headers and checksum; \<open>Net_Arp_Icmp\<close>: \<open>ARP.c\<close>,
    \<open>ICMP.c\<close>; \<open>Net_Udp\<close>: \<open>UDP.c\<close>, \<open>DHCP.c\<close>; \<open>Net_Tcp\<close>: \<open>TCP.c\<close>; \<open>Net_Server\<close>: \<open>IP.c\<close>, \<open>Ethernet.c\<close>, \<open>Webserver.c\<close> and the
    main loop.  \<open>Net_Checksum\<close>: the checksum against RFC 1071; \<open>Net_Ping\<close>: a ping through driver and stack;
    \<open>Net_Replies\<close>: address resolution, dropped frames, frames that hang the device; \<open>Net_Dhcp\<close>: the lease.
    \<open>Net_Connections\<close>: the connection table as a map (locale \<open>state_map\<close>); \<open>Net_Session\<close>,
    \<open>Net_Page\<close>, \<open>Net_Web\<close>: from one segment to a session with the web server; \<open>Net_Invariant\<close>: what
    holds in every state the server reaches, and a segment sent twice that goes behind its buffer.
  \<^item> The bootloaders under \<open>tools/lufa20100219/Bootloaders\<close>: \<open>Boot_Flash\<close>: self-programming as the record \<open>boot\<close>, and the
    machine \<open>spm\<close> that does it; \<open>Boot_Cdc\<close>: \<open>BootloaderCDC.c\<close>; \<open>Boot_Dfu\<close>: \<open>BootloaderDFU.c\<close> and \<open>TeensyHID.c\<close>.
    \<open>Boot_Lock\<close>: the lock of the DFU bootloader and the chip erase of both; \<open>Boot_Program\<close>,
    \<open>Boot_Props\<close>: programming and reading a page (locale \<open>boot_bus\<close>, which extends \<open>usb_bus\<close>).

  \<^bold>\<open>State.\<close>  The firmware's global variables are the record \<open>fw\<close> of \<open>Chapter9\<close>, the class driver's
  interface structure the records of \<open>Ms_Device\<close>; registers are the state behind \<open>mmio\<close>.  Structures
  of the code are records with its field names, in memory order where their bytes matter; arrays are
  lists, and an access outside of one is a value of its own.

  \<^bold>\<open>What the lemmas show.\<close>  For the SRAM firmware: an address is loaded bit by bit whatever the phase of
  the clock divider, a byte written is read back and the other cells keep their content, bursts go to
  consecutive addresses, the test loops leave the patterns the code writes (the burst a decreasing one, against its comment); the UART delivers every byte
  in order under every interleaving.  For the mass storage device: READ(10) and WRITE(10) wrappers
  read and update the linear medium that abstracts the pages of the chips, refused wrappers and
  commands stall or fail without touching it, control requests deliver descriptors and set the
  configuration, waits end with the code they name.  For the library parts: memory safety, layout and
  round trips of the HID parser (its overruns on truncated items, PUSH and a full usage list excepted), termination and results of the descriptor search, the scheduler's
  rounds and delays.  For the class
  drivers of LUFA beside mass storage: the virtual serial port delivers messages and characters in
  order in both directions, and HID reports are sent when they are due;
  the network adapter completes control messages and passes frames on unchanged, but one query
  overruns its buffer; MIDI events travel whole and in order in both directions, audio samples keep their
  lower 24 bits.  Host and device together: blocks the host writes come back when it reads them, through
  both drivers, the bus and the flash chips; messages cross the serial line in both directions; a read of 64 KiB is lost in a 16-bit counter.  The network demo: checksums
  are the ones of RFC 1071 below 512 bytes, pings, address and lease requests are answered, a
  browser gets its page, the connection table is a map with at most one entry for a connection, and a segment
  leaves the buffer of its connection under an exact condition, which a segment sent twice meets.  The bootloaders: a
  page is programmed and read back, a locked DFU bootloader gives nothing away, and one page survives the chip
  erase of the CDC bootloader.

  \<^bold>\<open>Loops.\<close>  Loops over data are structural recursions.  Loops that wait for hardware or follow data are
  \<open>partial_function (option)\<close>: not returning is \<open>None\<close>, and the properties prove \<open>Some\<close>, under the
  latency the hardware model carries; the timeout of \<open>Endpoint_WaitUntilReady\<close> bounds its loop without
  any hypothesis.  The endless main loops are given by their initialisation and one round.  No
  definition uses fuel, except that rounds of the scheduler and of main loops are counted.

  \<^bold>\<open>Configuration.\<close>  The mass storage device as its makefile builds it: AT90USB1287, device only, control
  endpoint of eight bytes served by interrupt, descriptors in flash, static options 0, no fast stream
  transfers.  An \<open>int\<close> has 16 bits.  The library parts use the defaults of their headers.
  The host side is built as in the demo
  \<open>MassStorageHost\<close>: host only, a stream timeout of 5000 frames.  The CDC and DFU bootloaders are those of the AT90USB1287
  (pages of 256 bytes, boot section from 0x1E000, DFU control endpoint of 32 bytes), TeensyHID that of the ATmega32U4.

  \<^bold>\<open>Limits of the machines.\<close>  \<open>Board\<close> reads \<open>CFGOK\<close> and \<open>EPEN\<close> as set, and keeps the type and the size of an endpoint as
  plain memory: of the configuration of endpoints it shows the number and the direction.  Where a copy of the code
  leaves its array the definitions have an outcome of their own (\<open>None\<close>, \<open>OutOfBounds\<close>), and the model does not follow the
  program any further; the theorems \<open>server_overrun\<close>, \<open>eight_usages_overrun\<close>, \<open>hid_push_never_parses\<close> and
  \<open>rndis_supported_list_overflows\<close> show inputs that lead there or beyond.

  \<^bold>\<open>Not modelled.\<close>  The change between host and device mode on a pin is compiled out of both images; the
  EEPROM variants of the stream functions and the interrupt-source
  helpers of \<open>Endpoint.h\<close> are not used by the firmware, and the descriptors of the bootloaders are tables.  The other demos and projects that LUFA ships are
  examples, and uIP, FATFs and Petite FATFs are third-party code inside of them.  The Verilog test
  bench is stimulus for a simulator.  Delays of the C library, the watchdog and the clock prescaler
  are parameters or have no effect on the modelled state.
\<close>

end
